(* ===== verification/Prelude.thy ===== *)
theory Prelude
  imports Main "HOL-Library.Word" "HOL-Library.List_Lexorder" "HOL-Library.Char_ord"
    "HOL-Library.Product_Lexorder"
begin

text \<open>
  Shared vocabulary of the development: the collections of simplification rules, the result
  type of a keeper operation, unsigned 64-bit integers as the Go code uses them, and the
  generic lemmas the components share.

  A keeper operation of the Go code reads and writes a key/value store and returns either a
  value or an error.  Writes made before an error is returned stay in the store until the
  SDK's transaction wrapper discards them, and some handlers rely on that (they unlock a pool
  before they return an error).  So an operation is modelled as a function from a state to an
  \<open>outcome\<close>, which carries the state in both cases.  A Go panic is an error value of the
  component's error type.
\<close>

section \<open>Collections of rules\<close>

named_theorems outcome_simps \<open>successful runs of sequenced operations\<close>
named_theorems kv_simps \<open>reads over writes of the key/value store\<close>
named_theorems u64_simps \<open>unsigned readings of 64-bit arithmetic\<close>

section \<open>Outcomes\<close>

datatype ('s, 'e, 'a) outcome = Done 's 'a | Fail 's 'e

fun final_state :: "('s, 'e, 'a) outcome \<Rightarrow> 's" where
  "final_state (Done s a) = s"
| "final_state (Fail s e) = s"

fun succeeded :: "('s, 'e, 'a) outcome \<Rightarrow> bool" where
  "succeeded (Done s a) = True"
| "succeeded (Fail s e) = False"

lemma succeeded_Done: "succeeded r \<Longrightarrow> \<exists>a. r = Done (final_state r) a"
  by (cases r) auto

text \<open>\<open>v, err := f(); if err != nil { return err }\<close> for a call that does not write.\<close>

definition try_in :: "'s \<Rightarrow> 'e + 'a \<Rightarrow> ('a \<Rightarrow> ('s, 'e, 'b) outcome) \<Rightarrow> ('s, 'e, 'b) outcome" where
  "try_in s r k = (case r of Inl e \<Rightarrow> Fail s e | Inr a \<Rightarrow> k a)"

text \<open>The same for a call that returns an outcome of its own.\<close>

definition and_then ::
  "('s, 'e, 'a) outcome \<Rightarrow> ('s \<Rightarrow> 'a \<Rightarrow> ('s, 'e, 'b) outcome) \<Rightarrow> ('s, 'e, 'b) outcome" where
  "and_then r k = (case r of Fail s e \<Rightarrow> Fail s e | Done s a \<Rightarrow> k s a)"

text \<open>Sequencing of pure computations that may fail.\<close>

definition bind_sum :: "'e + 'a \<Rightarrow> ('a \<Rightarrow> 'e + 'b) \<Rightarrow> 'e + 'b" where
  "bind_sum r k = (case r of Inl e \<Rightarrow> Inl e | Inr a \<Rightarrow> k a)"

definition map_err :: "('e \<Rightarrow> 'f) \<Rightarrow> 'e + 'a \<Rightarrow> 'f + 'a" where
  "map_err f r = (case r of Inl e \<Rightarrow> Inl (f e) | Inr a \<Rightarrow> Inr a)"

definition of_option :: "'e \<Rightarrow> 'a option \<Rightarrow> 'e + 'a" where
  "of_option e r = (case r of None \<Rightarrow> Inl e | Some a \<Rightarrow> Inr a)"

lemma try_in_Inr [simp]: "try_in s (Inr a) k = k a"
  by (simp add: try_in_def)

lemma try_in_Inl [simp]: "try_in s (Inl e) k = Fail s e"
  by (simp add: try_in_def)

lemma try_in_Done [outcome_simps]: "try_in s r k = Done s' b \<longleftrightarrow> (\<exists>a. r = Inr a \<and> k a = Done s' b)"
  by (cases r) (auto simp: try_in_def)

lemma and_then_Done_eq [simp]: "and_then (Done s a) k = k s a"
  by (simp add: and_then_def)

lemma and_then_Fail_eq [simp]: "and_then (Fail s e) k = Fail s e"
  by (simp add: and_then_def)

lemma and_then_Done [outcome_simps]:
  "and_then r k = Done s' b \<longleftrightarrow> (\<exists>s a. r = Done s a \<and> k s a = Done s' b)"
  by (cases r) (auto simp: and_then_def)

lemma bind_sum_Inr_eq [simp]: "bind_sum (Inr a) k = k a"
  by (simp add: bind_sum_def)

lemma bind_sum_Inl_eq [simp]: "bind_sum (Inl e) k = Inl e"
  by (simp add: bind_sum_def)

lemma bind_sum_Inr [outcome_simps]: "bind_sum r k = Inr b \<longleftrightarrow> (\<exists>a. r = Inr a \<and> k a = Inr b)"
  by (cases r) (auto simp: bind_sum_def)

lemma map_err_Inr [simp]: "map_err f r = Inr a \<longleftrightarrow> r = Inr a"
  by (cases r) (auto simp: map_err_def)

lemma map_err_Inr_eq [simp]: "map_err f (Inr a) = Inr a"
  by (simp add: map_err_def)

lemma map_err_Inl_eq [simp]: "map_err f (Inl e) = Inl (f e)"
  by (simp add: map_err_def)

lemma of_option_Inr [simp]: "of_option e r = Inr a \<longleftrightarrow> r = Some a"
  by (cases r) (auto simp: of_option_def)

lemma of_option_Some [simp]: "of_option e (Some a) = Inr a"
  by (simp add: of_option_def)

lemma of_option_None [simp]: "of_option e None = Inl e"
  by (simp add: of_option_def)

lemma if_Fail_Done [outcome_simps]:
  "(if c then Fail s e else r) = Done s' b \<longleftrightarrow> \<not> c \<and> r = Done s' b"
  by simp

lemma if_Inl_Inr [outcome_simps]: "(if c then Inl e else r) = Inr b \<longleftrightarrow> \<not> c \<and> r = Inr b"
  by simp

lemma if_Inr_not_Inl: "(if c then Inl e else Inr b) = Inr b' \<longleftrightarrow> \<not> c \<and> b' = b"
  by auto

text \<open>An outcome without its result.\<close>

definition discard :: "('s, 'e, 'a) outcome \<Rightarrow> ('s, 'e, unit) outcome" where
  "discard r = and_then r (\<lambda>s _. Done s ())"

lemma discard_Done [outcome_simps]: "discard r = Done s u \<longleftrightarrow> (\<exists>a. r = Done s a)"
  by (auto simp: discard_def and_then_Done)

text \<open>
  Everything after \<open>ctx.CacheContext()\<close> runs on a cache that is written back only at the end, so
  an error leaves the state as it was.
\<close>

definition cached :: "'s \<Rightarrow> ('s, 'e, 'a) outcome \<Rightarrow> ('s, 'e, 'a) outcome" where
  "cached s r = (case r of Done s' a \<Rightarrow> Done s' a | Fail s' e \<Rightarrow> Fail s e)"

lemma cached_Done [outcome_simps]: "cached s r = Done s' a \<longleftrightarrow> r = Done s' a"
  by (auto simp: cached_def split: outcome.splits)

lemma cached_Fail: "cached s r = Fail s' e \<Longrightarrow> s' = s"
  by (auto simp: cached_def split: outcome.splits)

section \<open>Unsigned 64-bit integers\<close>

type_synonym u64 = "64 word"

text \<open>\<open>uint64(x)\<close> of a Go integer, which keeps the low 64 bits.\<close>

definition to_u64 :: "int \<Rightarrow> u64" where
  "to_u64 x = word_of_int x"

definition max_u64 :: u64 where
  "max_u64 = 18446744073709551615"

lemma uint_max_u64: "uint max_u64 = 2 ^ 64 - 1"
  by (simp add: max_u64_def)

lemma uint_to_u64 [u64_simps]: "0 \<le> x \<Longrightarrow> x < 2 ^ 64 \<Longrightarrow> uint (to_u64 x) = x"
  by (simp add: to_u64_def uint_word_of_int)

lemma u64_bounds: "0 \<le> uint (w :: u64)" "uint w < 2 ^ 64"
  using uint_bounded [of w] by simp_all

lemma u64_add_no_wrap [u64_simps]:
  "uint a + uint b < 2 ^ 64 \<Longrightarrow> uint (a + b :: u64) = uint a + uint b"
  by (simp add: uint_word_ariths)

lemma u64_sub_no_wrap [u64_simps]: "b \<le> a \<Longrightarrow> uint (a - b :: u64) = uint a - uint b"
  using uint_sub_lem [of b a] by (simp add: word_le_def)

lemma u64_le [u64_simps]: "a \<le> b \<longleftrightarrow> uint a \<le> uint (b :: u64)"
  by (simp add: word_le_def)

lemma u64_less [u64_simps]: "a < b \<longleftrightarrow> uint a < uint (b :: u64)"
  by (simp add: word_less_def)

lemma u64_sub_uint: "uint b \<le> uint a \<Longrightarrow> uint (a - b :: u64) = uint a - uint b"
  by (simp add: u64_sub_no_wrap u64_le)

lemma u64_eq_iff: "a = b \<longleftrightarrow> uint a = uint (b :: u64)"
  by (simp add: word_uint_eq_iff)

lemma u64_succ: "a + 1 \<noteq> 0 \<Longrightarrow> uint (a + 1 :: u64) = uint a + 1"
proof -
  assume "a + 1 \<noteq> 0"
  then have "uint a + 1 \<noteq> 2 ^ 64"
    by (auto simp: word_uint_eq_iff uint_word_ariths)
  then show ?thesis using u64_bounds [of a] by (simp add: uint_word_ariths)
qed

text \<open>\<open>checkedAddUint64\<close>: the sum, or nothing where the Go addition would wrap.\<close>

definition checked_add_u64 :: "u64 \<Rightarrow> u64 \<Rightarrow> u64 option" where
  "checked_add_u64 a b = (if max_u64 - a < b then None else Some (a + b))"

lemma checked_add_u64_Some:
  "checked_add_u64 a b = Some c \<longleftrightarrow> uint a + uint b < 2 ^ 64 \<and> c = a + b"
proof -
  have "uint (max_u64 - a) = 2 ^ 64 - 1 - uint a"
    using u64_bounds [of a] by (subst u64_sub_no_wrap) (simp_all add: u64_le uint_max_u64)
  then show ?thesis
    by (auto simp: checked_add_u64_def u64_less)
qed

section \<open>Unsigned 32-bit counters\<close>

type_synonym u32 = "32 word"

lemma u32_bounds: "0 \<le> uint (w :: u32)" "uint w < 2 ^ 32"
  using uint_bounded [of w] by simp_all

lemma u32_less: "a < b \<longleftrightarrow> uint a < uint (b :: u32)"
  by (simp add: word_less_def)

lemma u32_le: "a \<le> b \<longleftrightarrow> uint a \<le> uint (b :: u32)"
  by (simp add: word_le_def)

lemma u32_succ: "a < b \<Longrightarrow> uint (a + 1 :: u32) = uint a + 1"
  using u32_bounds [of b] by (simp add: u32_less uint_word_ariths)

section \<open>Arithmetic shared by the money components\<close>

lemma floor_div_le: "0 < (d::int) \<Longrightarrow> (n div d) * d \<le> n"
  by (metis minus_mod_eq_div_mult mod_int_pos_iff diff_le_eq le_add_same_cancel1)

lemma floor_div_gt: "0 < (d::int) \<Longrightarrow> n < (n div d) * d + d"
  by (metis div_mult_mod_eq pos_mod_bound add_less_cancel_left)

lemma div_le_self_mult: "0 < (d::int) \<Longrightarrow> n \<le> q * d \<Longrightarrow> n div d \<le> q"
  by (metis nonzero_mult_div_cancel_right order_less_irrefl zdiv_mono1)

lemma le_div_iff: "0 < (d::int) \<Longrightarrow> q \<le> n div d \<longleftrightarrow> q * d \<le> n"
  by (metis floor_div_le div_le_self_mult mult_right_mono nonzero_mult_div_cancel_right
      order_less_imp_le order_less_irrefl order_trans zdiv_mono1)

lemma pos_div_pos: "0 < (d::int) \<Longrightarrow> d \<le> n \<Longrightarrow> 0 < n div d"
  by (simp add: pos_imp_zdiv_pos_iff)

end
