(* ===== verification/Go_Text.thy ===== *)
theory Go_Text
  imports Prelude
begin

text \<open>
  The decimal text of Go integers.  Amounts travel through messages and the store as base-10
  strings, so the model reads and writes them as the Go standard library does:
  \<open>big_set_string\<close> is \<open>new(big.Int).SetString(s, 10)\<close>, \<open>big_string\<close> is \<open>(*big.Int).String\<close>,
  \<open>parse_uint\<close> is \<open>strconv.ParseUint(s, 10, 64)\<close>, \<open>format_u64\<close> is the \<open>%d\<close> verb on a
  \<open>uint64\<close>, \<open>cut_prefix\<close> is \<open>strings.CutPrefix\<close> and \<open>big_sqrt\<close> is \<open>(*big.Int).Sqrt\<close>.
  The lemmas show that writing and reading back is the identity and that the text of a number
  is unique.
\<close>

section \<open>Digits\<close>

definition digit_char :: "int \<Rightarrow> char" where
  "digit_char d =
     (if d = 1 then CHR ''1'' else if d = 2 then CHR ''2'' else if d = 3 then CHR ''3''
      else if d = 4 then CHR ''4'' else if d = 5 then CHR ''5'' else if d = 6 then CHR ''6''
      else if d = 7 then CHR ''7'' else if d = 8 then CHR ''8'' else if d = 9 then CHR ''9''
      else CHR ''0'')"

definition digit_val :: "char \<Rightarrow> int option" where
  "digit_val c =
     (if c = CHR ''0'' then Some 0 else if c = CHR ''1'' then Some 1 else if c = CHR ''2'' then Some 2
      else if c = CHR ''3'' then Some 3 else if c = CHR ''4'' then Some 4
      else if c = CHR ''5'' then Some 5 else if c = CHR ''6'' then Some 6
      else if c = CHR ''7'' then Some 7 else if c = CHR ''8'' then Some 8
      else if c = CHR ''9'' then Some 9 else None)"

lemma digit_cases:
  "0 \<le> (d::int) \<Longrightarrow> d < 10 \<Longrightarrow>
    d = 0 \<or> d = 1 \<or> d = 2 \<or> d = 3 \<or> d = 4 \<or> d = 5 \<or> d = 6 \<or> d = 7 \<or> d = 8 \<or> d = 9"
  by arith

lemma digit_val_char [simp]: "0 \<le> d \<Longrightarrow> d < 10 \<Longrightarrow> digit_val (digit_char d) = Some d"
  using digit_cases [of d] by (auto simp: digit_val_def digit_char_def)

lemma digit_char_not_sign: "digit_char d \<noteq> CHR ''-''" "digit_char d \<noteq> CHR ''+''"
  "digit_char d \<noteq> CHR ''/''"
  by (simp_all add: digit_char_def)

lemma digit_val_range: "digit_val c = Some d \<Longrightarrow> 0 \<le> d \<and> d < 10"
  by (auto simp: digit_val_def split: if_splits)

section \<open>Natural numbers\<close>

function digits10 :: "int \<Rightarrow> string" where
  "digits10 n = (if n < 10 then [digit_char n] else digits10 (n div 10) @ [digit_char (n mod 10)])"
  by pat_completeness auto
termination
  by (relation "measure nat") auto

declare digits10.simps [simp del]

fun read_digits :: "int \<Rightarrow> string \<Rightarrow> int option" where
  "read_digits acc [] = Some acc"
| "read_digits acc (c # cs) =
     (case digit_val c of None \<Rightarrow> None | Some d \<Rightarrow> read_digits (10 * acc + d) cs)"

lemma read_digits_append:
  "read_digits acc (xs @ ys) = (case read_digits acc xs of None \<Rightarrow> None | Some a \<Rightarrow> read_digits a ys)"
  by (induction xs arbitrary: acc) (auto split: option.splits)

lemma read_digits_digits10: "0 \<le> n \<Longrightarrow> read_digits 0 (digits10 n) = Some n"
proof (induction n rule: digits10.induct)
  case (1 n)
  show ?case
  proof (cases "n < 10")
    case True
    with 1 show ?thesis by (simp add: digits10.simps [of n])
  next
    case False
    with 1 have "read_digits 0 (digits10 (n div 10)) = Some (n div 10)" by simp
    with False show ?thesis
      by (simp add: digits10.simps [of n] read_digits_append)
  qed
qed

lemma digits10_not_Nil [simp]: "digits10 n \<noteq> []"
  by (subst digits10.simps) simp

lemma digits10_hd: "\<exists>d. hd (digits10 n) = digit_char d"
proof (induction n rule: digits10.induct)
  case (1 n)
  show ?case
  proof (cases "n < 10")
    case True
    then show ?thesis by (simp add: digits10.simps [of n]) blast
  next
    case False
    with 1 show ?thesis by (simp add: digits10.simps [of n])
  qed
qed

lemma digits10_set: "c \<in> set (digits10 n) \<Longrightarrow> \<exists>d. c = digit_char d"
proof (induction n rule: digits10.induct)
  case (1 n)
  show ?case
  proof (cases "n < 10")
    case True
    with 1 show ?thesis by (auto simp: digits10.simps [of n])
  next
    case False
    with 1 show ?thesis by (auto simp: digits10.simps [of n])
  qed
qed

lemma digits10_no_sign: "CHR ''-'' \<notin> set (digits10 n)" "CHR ''/'' \<notin> set (digits10 n)"
  using digits10_set [of "CHR ''-''" n] digits10_set [of "CHR ''/''" n] digit_char_not_sign
  by metis+

section \<open>Big integers\<close>

definition big_string :: "int \<Rightarrow> string" where
  "big_string n = (if n < 0 then CHR ''-'' # digits10 (- n) else digits10 n)"

definition read_unsigned :: "string \<Rightarrow> int option" where
  "read_unsigned s = (if s = [] then None else read_digits 0 s)"

fun big_set_string :: "string \<Rightarrow> int option" where
  "big_set_string [] = None"
| "big_set_string (c # cs) =
     (if c = CHR ''-'' then map_option uminus (read_unsigned cs)
      else if c = CHR ''+'' then read_unsigned cs
      else read_unsigned (c # cs))"

lemma big_set_string_digits: "0 \<le> n \<Longrightarrow> big_set_string (digits10 n) = Some n"
proof -
  assume n: "0 \<le> n"
  obtain c cs where cs: "digits10 n = c # cs" by (cases "digits10 n") auto
  from digits10_hd [of n] cs obtain d where "c = digit_char d" by auto
  then have "c \<noteq> CHR ''-''" "c \<noteq> CHR ''+''" by (simp_all add: digit_char_not_sign)
  with n cs read_digits_digits10 [of n] show ?thesis
    by (simp add: read_unsigned_def)
qed

lemma big_set_string_string [simp]: "big_set_string (big_string n) = Some n"
proof (cases "n < 0")
  case True
  then show ?thesis by (simp add: big_string_def read_unsigned_def read_digits_digits10)
next
  case False
  then show ?thesis by (simp add: big_string_def big_set_string_digits)
qed

lemma big_string_inj [simp]: "big_string m = big_string n \<longleftrightarrow> m = n"
  by (metis big_set_string_string option.inject)

lemma big_string_not_Nil [simp]: "big_string n \<noteq> []"
  by (simp add: big_string_def)

section \<open>Unsigned 64-bit integers\<close>

definition parse_uint :: "string \<Rightarrow> u64 option" where
  "parse_uint s = (case read_unsigned s of
     None \<Rightarrow> None | Some n \<Rightarrow> if n < 2 ^ 64 then Some (word_of_int n) else None)"

definition format_u64 :: "u64 \<Rightarrow> string" where
  "format_u64 w = digits10 (uint w)"

lemma parse_uint_format [simp]: "parse_uint (format_u64 w) = Some w"
  using u64_bounds [of w]
  by (simp add: parse_uint_def format_u64_def read_unsigned_def read_digits_digits10)

lemma format_u64_inj [simp]: "format_u64 v = format_u64 w \<longleftrightarrow> v = w"
  by (metis option.inject parse_uint_format)

lemma format_u64_not_Nil [simp]: "format_u64 w \<noteq> []"
  by (simp add: format_u64_def)

fun cut_prefix :: "string \<Rightarrow> string \<Rightarrow> string option" where
  "cut_prefix [] s = Some s"
| "cut_prefix (p # ps) [] = None"
| "cut_prefix (p # ps) (c # cs) = (if p = c then cut_prefix ps cs else None)"

lemma cut_prefix_append [simp]: "cut_prefix p (p @ s) = Some s"
  by (induction p) auto

lemma cut_prefix_Some: "cut_prefix p s = Some r \<longleftrightarrow> s = p @ r"
  by (induction p s rule: cut_prefix.induct) auto

text \<open>A key built with a separator splits at the last one.\<close>

lemma slash_split:
  assumes "xs @ CHR ''/'' # k = ys @ CHR ''/'' # l" "CHR ''/'' \<notin> set k" "CHR ''/'' \<notin> set l"
  shows "xs = ys \<and> k = l"
  using assms by (auto simp: append_eq_append_conv2 Cons_eq_append_conv append_eq_Cons_conv)

section \<open>Integer square root\<close>

function big_sqrt :: "int \<Rightarrow> int" where
  "big_sqrt n = (if n \<le> 0 then 0
     else let r = 2 * big_sqrt (n div 4) in if (r + 1) * (r + 1) \<le> n then r + 1 else r)"
  by pat_completeness auto
termination
  by (relation "measure nat") auto

declare big_sqrt.simps [simp del]

lemma big_sqrt_bounds:
  "0 \<le> n \<Longrightarrow> 0 \<le> big_sqrt n \<and> big_sqrt n * big_sqrt n \<le> n \<and> n < (big_sqrt n + 1) * (big_sqrt n + 1)"
proof (induction n rule: big_sqrt.induct)
  case (1 n)
  show ?case
  proof (cases "n \<le> 0")
    case True
    with 1 have "n = 0" by simp
    then show ?thesis by (simp add: big_sqrt.simps [of 0])
  next
    case False
    define q where "q = big_sqrt (n div 4)"
    from 1 False have IH: "0 \<le> q" "q * q \<le> n div 4" "n div 4 < (q + 1) * (q + 1)"
      unfolding q_def by auto
    have "4 * (q * q) \<le> n" using IH(2) by linarith
    moreover have "n < 4 * ((q + 1) * (q + 1))" using IH(3) by linarith
    ultimately have "(2 * q) * (2 * q) \<le> n" "n < (2 * q + 2) * (2 * q + 2)"
      by (simp_all add: algebra_simps)
    with False IH(1) show ?thesis
      by (simp add: big_sqrt.simps [of n] q_def [symmetric] Let_def algebra_simps)
  qed
qed

lemma big_sqrt_le: "0 \<le> n \<Longrightarrow> 0 \<le> m \<Longrightarrow> n \<le> m * m \<Longrightarrow> big_sqrt n \<le> m"
proof (rule ccontr)
  assume "0 \<le> n" "0 \<le> m" "n \<le> m * m" "\<not> big_sqrt n \<le> m"
  then have "m + 1 \<le> big_sqrt n" "big_sqrt n * big_sqrt n \<le> n" using big_sqrt_bounds [of n] by auto
  then have "(m + 1) * (m + 1) \<le> m * m"
    using \<open>0 \<le> m\<close> \<open>n \<le> m * m\<close> mult_mono [of "m + 1" "big_sqrt n" "m + 1" "big_sqrt n"] by linarith
  with \<open>0 \<le> m\<close> show False by (simp add: algebra_simps)
qed

section \<open>Division\<close>

text \<open>
  \<open>(*big.Int).Div\<close> is Euclidean division (the remainder is never negative) and panics on a zero
  divisor, which is \<open>None\<close> here.  For a positive divisor it is the \<open>div\<close> of HOL.
\<close>

definition big_div :: "int \<Rightarrow> int \<Rightarrow> int option" where
  "big_div n d = (if d = 0 then None else Some (if 0 < d then n div d else - (n div (- d))))"

lemma big_div_pos [simp]: "0 < d \<Longrightarrow> big_div n d = Some (n div d)"
  by (simp add: big_div_def)

lemma big_div_zero [simp]: "big_div n 0 = None"
  by (simp add: big_div_def)

section \<open>Amount fields\<close>

text \<open>\<open>x.SetString(s, 10)\<close> followed by the check that the result is positive.\<close>

definition positive_int :: "string \<Rightarrow> int option" where
  "positive_int s = (case big_set_string s of None \<Rightarrow> None | Some x \<Rightarrow> if x \<le> 0 then None else Some x)"

lemma positive_int_Some: "positive_int s = Some x \<longleftrightarrow> big_set_string s = Some x \<and> 0 < x"
  by (auto simp: positive_int_def split: option.splits)

text \<open>
  \<open>new(big.Int).SetString(s, 10)\<close> with the result flag ignored.  Go leaves the value of a failed parse
  undefined; it is zero here, and the invariants show that no stored amount is malformed.
\<close>

definition int_or_zero :: "string \<Rightarrow> int" where
  "int_or_zero s = (case big_set_string s of None \<Rightarrow> 0 | Some x \<Rightarrow> x)"

lemma int_or_zero_string [simp]: "int_or_zero (big_string x) = x"
  by (simp add: int_or_zero_def)

lemma int_or_zero_Some: "big_set_string s = Some x \<Longrightarrow> int_or_zero s = x"
  by (simp add: int_or_zero_def)

lemma int_or_zero_Nil [simp]: "int_or_zero [] = 0"
  by (simp add: int_or_zero_def)

end
