(* ===== verification/LP_Amm.thy ===== *)
theory LP_Amm
  imports Go_Text
begin

text \<open>
  x/liquiditypool/keeper/amm.go: the arithmetic of the constant-product pool.  Amounts are
  Go \<open>big.Int\<close>s, so \<open>int\<close>; the fee is a \<open>uint64\<close>.  A division by a zero reserve or a zero LP
  supply panics in Go and is \<open>None\<close> here.

  The lemmas are the economics of the pool: a swap never drains a reserve and never lowers the
  product of the reserves, trading back and splitting a trade never gain, deposits and
  withdrawals round in favour of the LP holders who stay.
\<close>

section \<open>Swaps\<close>

definition bps_basis :: int where
  "bps_basis = 1000000"

definition calculate_swap_output :: "int \<Rightarrow> int \<Rightarrow> int \<Rightarrow> u64 \<Rightarrow> int \<times> int" where
  "calculate_swap_output reserve_in reserve_out token_in fee_bps =
     (if reserve_in \<le> 0 \<or> reserve_out \<le> 0 \<or> token_in \<le> 0 \<or> 1000000 < fee_bps then (0, 0)
      else
        let fee_amount = (token_in * uint fee_bps) div bps_basis;
            fee_multiplier = bps_basis - uint fee_bps;
            weighted_in = token_in * fee_multiplier;
            numerator = reserve_out * weighted_in;
            denominator = reserve_in * bps_basis + weighted_in
        in (numerator div denominator, fee_amount))"

abbreviation swap_out :: "int \<Rightarrow> int \<Rightarrow> int \<Rightarrow> u64 \<Rightarrow> int" where
  "swap_out rin rout tin fee \<equiv> fst (calculate_swap_output rin rout tin fee)"

abbreviation swap_fee :: "int \<Rightarrow> int \<Rightarrow> int \<Rightarrow> u64 \<Rightarrow> int" where
  "swap_fee rin rout tin fee \<equiv> snd (calculate_swap_output rin rout tin fee)"

lemma fee_in_range: "\<not> 1000000 < fee \<Longrightarrow> 0 \<le> bps_basis - uint (fee :: u64) \<and> uint fee \<le> bps_basis"
  using u64_bounds [of fee] by (simp add: bps_basis_def u64_less)

text \<open>The quotient, multiplied out: all later bounds rest on this.\<close>

lemma swap_out_mult:
  assumes "0 < rin" "0 < rout" "0 < tin" "\<not> 1000000 < fee"
  defines "w \<equiv> tin * (bps_basis - uint fee)"
  shows "0 \<le> w" "w \<le> tin * bps_basis" "0 < rin * bps_basis + w"
    and "0 \<le> swap_out rin rout tin fee"
    and "swap_out rin rout tin fee * (rin * bps_basis + w) \<le> rout * w"
    and "rout * w < (swap_out rin rout tin fee + 1) * (rin * bps_basis + w)"
proof -
  from fee_in_range [OF assms(4)] assms(3) show w: "0 \<le> w" "w \<le> tin * bps_basis"
    unfolding w_def using u64_bounds [of fee] by (simp_all add: mult_left_mono)
  with assms(1) show d: "0 < rin * bps_basis + w"
    by (simp add: bps_basis_def add_pos_nonneg)
  have out: "swap_out rin rout tin fee = (rout * w) div (rin * bps_basis + w)"
    using assms(1-4) by (simp add: calculate_swap_output_def Let_def w_def)
  show "0 \<le> swap_out rin rout tin fee"
    unfolding out using w d assms(2) by (simp add: pos_imp_zdiv_nonneg_iff)
  show "swap_out rin rout tin fee * (rin * bps_basis + w) \<le> rout * w"
    unfolding out by (rule floor_div_le [OF d])
  show "rout * w < (swap_out rin rout tin fee + 1) * (rin * bps_basis + w)"
    unfolding out using floor_div_gt [OF d, of "rout * w"] by (simp add: algebra_simps)
qed

lemma swap_out_nonneg: "0 \<le> swap_out rin rout tin fee"
proof (cases "rin \<le> 0 \<or> rout \<le> 0 \<or> tin \<le> 0 \<or> 1000000 < fee")
  case True
  then show ?thesis by (auto simp: calculate_swap_output_def)
next
  case False
  then show ?thesis using swap_out_mult(4) [of rin rout tin fee] by simp
qed

lemma swap_out_less_reserve:
  assumes "0 < rout"
  shows "swap_out rin rout tin fee < rout"
proof (cases "rin \<le> 0 \<or> rout \<le> 0 \<or> tin \<le> 0 \<or> 1000000 < fee")
  case True
  with assms show ?thesis by (auto simp: calculate_swap_output_def)
next
  case False
  define w where "w = tin * (bps_basis - uint fee)"
  note h = swap_out_mult [of rin rout tin fee, folded w_def]
  from False have r: "0 < rin * bps_basis" by (simp add: bps_basis_def)
  show ?thesis
  proof (rule ccontr)
    assume "\<not> swap_out rin rout tin fee < rout"
    then have "rout * (rin * bps_basis + w) \<le> swap_out rin rout tin fee * (rin * bps_basis + w)"
      using h(3) False by (intro mult_right_mono) auto
    with h(5) False have "rout * (rin * bps_basis) \<le> 0" by (simp add: distrib_left)
    moreover have "0 < rout * (rin * bps_basis)" using assms r by (rule mult_pos_pos)
    ultimately show False by simp
  qed
qed

lemma swap_fee_bounds:
  assumes "0 < tin"
  shows "0 \<le> swap_fee rin rout tin fee \<and> swap_fee rin rout tin fee \<le> tin"
proof (cases "rin \<le> 0 \<or> rout \<le> 0 \<or> tin \<le> 0 \<or> 1000000 < fee")
  case True
  with assms show ?thesis by (auto simp: calculate_swap_output_def)
next
  case False
  with fee_in_range [of fee] u64_bounds [of fee] assms
  have "0 \<le> tin * uint fee" "tin * uint fee \<le> tin * bps_basis" by (auto intro: mult_left_mono)
  with False show ?thesis
    by (auto simp: calculate_swap_output_def Let_def bps_basis_def pos_imp_zdiv_nonneg_iff div_le_self_mult)
qed

text \<open>The fee-weighted input already keeps the product; the unweighted one only raises it.\<close>

lemma swap_keeps_product:
  assumes "0 < rin" "0 < rout" "0 < tin"
  shows "rin * rout \<le> (rin + tin) * (rout - swap_out rin rout tin fee)"
proof (cases "1000000 < fee")
  case True
  with assms show ?thesis by (simp add: calculate_swap_output_def algebra_simps)
next
  case False
  define w where "w = tin * (bps_basis - uint fee)"
  define out where "out = swap_out rin rout tin fee"
  note h = swap_out_mult [OF assms False, folded w_def out_def]
  have left: "0 \<le> rout - out" using swap_out_less_reserve [OF assms(2)] by (simp add: out_def less_imp_le)
  have "(rin * rout) * bps_basis \<le> (rin * bps_basis + w) * (rout - out)"
    using h(5) by (simp add: algebra_simps)
  also have "\<dots> \<le> (rin * bps_basis + tin * bps_basis) * (rout - out)"
    using h(2) left by (intro mult_right_mono) auto
  also have "\<dots> = ((rin + tin) * (rout - out)) * bps_basis" by (simp add: algebra_simps)
  finally show ?thesis by (simp add: bps_basis_def out_def)
qed

lemma swap_back_no_gain:
  assumes "0 < rin" "0 < rout" "0 < tin" "0 < swap_out rin rout tin fee"
  defines "out \<equiv> swap_out rin rout tin fee"
  shows "swap_out (rout - out) (rin + tin) out fee' \<le> tin"
proof -
  define ret where "ret = swap_out (rout - out) (rin + tin) out fee'"
  have pos: "0 < rout - out" "0 < rin + tin" "0 < out"
    using assms swap_out_less_reserve [OF assms(2)] by (auto simp: out_def)
  have "rin * rout \<le> (rin + tin) * (rout - out)"
    unfolding out_def by (rule swap_keeps_product [OF assms(1-3)])
  also have "\<dots> = (rout - out) * (rin + tin)" by (rule mult.commute)
  also have "\<dots> \<le> (rout - out + out) * (rin + tin - ret)"
    unfolding ret_def by (rule swap_keeps_product [OF pos])
  finally have "rout * rin \<le> rout * (rin + tin - ret)" by (simp add: algebra_simps)
  with assms(2) have "rin \<le> rin + tin - ret" by (simp add: mult_le_cancel_left_pos)
  then show ?thesis by (simp add: ret_def)
qed

lemma swap_out_mono:
  assumes "t1 \<le> t2"
  shows "swap_out rin rout t1 fee \<le> swap_out rin rout t2 fee"
proof (cases "rin \<le> 0 \<or> rout \<le> 0 \<or> t1 \<le> 0 \<or> 1000000 < fee")
  case True
  then have "swap_out rin rout t1 fee = 0" by (auto simp: calculate_swap_output_def)
  then show ?thesis by (simp add: swap_out_nonneg)
next
  case False
  define m where "m = bps_basis - uint fee"
  define w1 where "w1 = t1 * m"
  define w2 where "w2 = t2 * m"
  define q where "q = swap_out rin rout t1 fee"
  have m: "0 \<le> m" using fee_in_range [of fee] False by (simp add: m_def)
  have w: "w1 \<le> w2" using assms m by (simp add: w1_def w2_def mult_right_mono)
  note h = swap_out_mult [of rin rout t1 fee, folded m_def w1_def q_def]
  have d2: "0 < rin * bps_basis + w2" using h(3) w False by auto
  have "q \<le> rout" using swap_out_less_reserve [of rout rin t1 fee] False by (auto simp: q_def)
  then have "q * (w2 - w1) \<le> rout * (w2 - w1)" using w by (intro mult_right_mono) auto
  moreover have "q * (rin * bps_basis + w1) \<le> rout * w1" using h(5) False by simp
  ultimately have "q * (rin * bps_basis + w2) \<le> rout * w2" by (simp add: algebra_simps)
  then have "q \<le> (rout * w2) div (rin * bps_basis + w2)" by (simp add: le_div_iff [OF d2])
  also have "\<dots> = swap_out rin rout t2 fee"
    using False assms by (simp add: calculate_swap_output_def Let_def w2_def m_def)
  finally show ?thesis by (simp add: q_def)
qed

text \<open>Splitting one trade into two, the second on the pool the first one left, never gains.\<close>

lemma swap_split_no_gain:
  assumes "0 < rin" "0 < rout" "0 < t1" "0 < t2"
  shows "swap_out rin rout t1 fee + swap_out (rin + t1) (rout - swap_out rin rout t1 fee) t2 fee
    \<le> swap_out rin rout (t1 + t2) fee"
proof (cases "1000000 < fee")
  case True
  then show ?thesis by (simp add: calculate_swap_output_def)
next
  case False
  define o1 where "o1 = swap_out rin rout t1 fee"
  define m where "m = bps_basis - uint fee"
  define X where "X = rin * bps_basis"
  define w1 where "w1 = t1 * m"
  define w2 where "w2 = t2 * m"
  define o2 where "o2 = swap_out (rin + t1) (rout - o1) t2 fee"
  have o1: "o1 < rout" unfolding o1_def by (rule swap_out_less_reserve [OF assms(2)])
  note h1 = swap_out_mult [OF assms(1-3) False, folded m_def w1_def o1_def X_def]
  have "0 < rin + t1" "0 < rout - o1" using assms o1 by auto
  note h2 = swap_out_mult [OF this assms(4) False, folded m_def w2_def o2_def]
  have left: "0 \<le> rout - o1 - o2"
    using swap_out_less_reserve [OF \<open>0 < rout - o1\<close>] by (simp add: o2_def less_imp_le)
  have "(rout - o1) * ((rin + t1) * bps_basis) \<le> (rout - o1 - o2) * ((rin + t1) * bps_basis + w2)"
    using h2(5) by (simp add: algebra_simps)
  moreover have X2: "X + w1 \<le> (rin + t1) * bps_basis" using h1(2) by (simp add: X_def algebra_simps)
  ultimately have "(rout - o1) * (X + w1) \<le> (rout - o1 - o2) * (X + w1 + w2)"
  proof -
    define e where "e = (rin + t1) * bps_basis - (X + w1)"
    have e: "0 \<le> e" "(rin + t1) * bps_basis = X + w1 + e" using X2 by (simp_all add: e_def)
    have "(rout - o1) * (X + w1 + e) \<le> (rout - o1 - o2) * (X + w1 + e + w2)"
      using \<open>(rout - o1) * ((rin + t1) * bps_basis) \<le> _\<close> by (simp add: e(2))
    moreover have "(rout - o1 - o2) * e \<le> (rout - o1) * e"
      using e(1) h2(4) by (intro mult_right_mono) auto
    ultimately show ?thesis by (simp add: algebra_simps)
  qed
  moreover have "rout * X \<le> (rout - o1) * (X + w1)" using h1(5) by (simp add: algebra_simps)
  ultimately have "(o1 + o2) * (X + (w1 + w2)) \<le> rout * (w1 + w2)" by (simp add: algebra_simps)
  moreover have "0 < X + (w1 + w2)" using h1(3) h2(1) by simp
  ultimately have "o1 + o2 \<le> (rout * (w1 + w2)) div (X + (w1 + w2))" by (simp add: le_div_iff)
  also have "w1 + w2 = (t1 + t2) * m" by (simp add: w1_def w2_def algebra_simps)
  finally show ?thesis
    using assms(1-4) False
    by (simp add: o2_def o1_def [symmetric] X_def m_def calculate_swap_output_def [of rin rout "t1 + t2"] Let_def)
qed

section \<open>Liquidity\<close>

definition calculate_lp_tokens_for_deposit :: "int \<Rightarrow> int \<Rightarrow> int \<Rightarrow> int \<Rightarrow> int \<Rightarrow> int option" where
  "calculate_lp_tokens_for_deposit reserve_a reserve_b amount_a amount_b total_supply =
     (if total_supply = 0 then Some (big_sqrt (amount_a * amount_b))
      else
        let ratio_a_cross = amount_a * reserve_b;
            ratio_b_cross = amount_b * reserve_a;
            (min_ratio_num, min_ratio_den) =
              (if ratio_a_cross \<le> ratio_b_cross then (amount_a, reserve_a) else (amount_b, reserve_b))
        in big_div (total_supply * min_ratio_num) min_ratio_den)"

definition calculate_withdrawal_amounts :: "int \<Rightarrow> int \<Rightarrow> int \<Rightarrow> int \<Rightarrow> (int \<times> int) option" where
  "calculate_withdrawal_amounts reserve_a reserve_b lp_tokens total_supply =
     (case big_div (reserve_a * lp_tokens) total_supply of
        None \<Rightarrow> None
      | Some amount_a \<Rightarrow>
          (case big_div (reserve_b * lp_tokens) total_supply of
             None \<Rightarrow> None | Some amount_b \<Rightarrow> Some (amount_a, amount_b)))"

definition calculate_proportional_deposit :: "int \<Rightarrow> int \<Rightarrow> int \<Rightarrow> int \<Rightarrow> (int \<times> int) option" where
  "calculate_proportional_deposit reserve_a reserve_b desired_a desired_b =
     (if reserve_a = 0 \<or> reserve_b = 0 then Some (desired_a, desired_b)
      else
        case big_div (desired_a * reserve_b) reserve_a of
          None \<Rightarrow> None
        | Some required_b \<Rightarrow>
            if required_b \<le> desired_b then Some (desired_a, required_b)
            else
              case big_div (desired_b * reserve_a) reserve_b of
                None \<Rightarrow> None
              | Some required_a \<Rightarrow> Some (required_a, desired_b))"

definition ceil_div :: "int \<Rightarrow> int \<Rightarrow> int" where
  "ceil_div numerator denominator =
     (if numerator \<le> 0 \<or> denominator \<le> 0 then 0
      else let adjusted = denominator - 1 + numerator in adjusted div denominator)"

definition calculate_deposit_for_shares :: "int \<Rightarrow> int \<Rightarrow> int \<Rightarrow> int \<Rightarrow> int \<Rightarrow> (int \<times> int \<times> int) option" where
  "calculate_deposit_for_shares reserve_a reserve_b desired_a desired_b total_supply =
     (if reserve_a \<le> 0 \<or> reserve_b \<le> 0 \<or> desired_a \<le> 0 \<or> desired_b \<le> 0 \<or> total_supply \<le> 0
      then Some (0, 0, 0)
      else
        case calculate_lp_tokens_for_deposit reserve_a reserve_b desired_a desired_b total_supply of
          None \<Rightarrow> None
        | Some lp_tokens \<Rightarrow>
            if lp_tokens \<le> 0 then Some (0, 0, 0)
            else
              let actual_a = ceil_div (lp_tokens * reserve_a) total_supply;
                  actual_b = ceil_div (lp_tokens * reserve_b) total_supply
              in if actual_a \<le> 0 \<or> actual_b \<le> 0 \<or> desired_a < actual_a \<or> desired_b < actual_b
                 then Some (0, 0, 0)
                 else Some (actual_a, actual_b, lp_tokens))"

lemma ceil_div_bounds:
  assumes "0 < n" "0 < d"
  shows "n \<le> ceil_div n d * d" "ceil_div n d * d < n + d"
proof -
  have c: "ceil_div n d = (d - 1 + n) div d" using assms by (simp add: ceil_div_def)
  show "n \<le> ceil_div n d * d" using floor_div_gt [OF assms(2), of "d - 1 + n"] by (simp add: c)
  show "ceil_div n d * d < n + d" using floor_div_le [OF assms(2), of "d - 1 + n"] by (simp add: c)
qed

lemma ceil_div_pos: "0 < n \<Longrightarrow> 0 < d \<Longrightarrow> 0 < ceil_div n d"
  using ceil_div_bounds(1) [of n d] by (metis linorder_not_le mult_nonpos_nonneg order_less_le_trans less_imp_le order_less_irrefl)

lemma ceil_div_least: "0 < n \<Longrightarrow> 0 < d \<Longrightarrow> n \<le> q * d \<Longrightarrow> ceil_div n d \<le> q"
proof (rule ccontr)
  assume h: "0 < n" "0 < d" "n \<le> q * d" "\<not> ceil_div n d \<le> q"
  then have "(q + 1) * d \<le> ceil_div n d * d" by (intro mult_right_mono) auto
  with ceil_div_bounds(2) [OF h(1,2)] h(3) show False by (simp add: algebra_simps)
qed

text \<open>The minted shares are the largest number both offered amounts can back.\<close>

lemma lp_tokens_max:
  assumes "0 < ra" "0 < rb" "0 < da" "0 < db" "0 < s"
  obtains lp where "calculate_lp_tokens_for_deposit ra rb da db s = Some lp"
    and "0 \<le> lp" "lp * ra \<le> s * da" "lp * rb \<le> s * db"
    and "\<And>q. q * ra \<le> s * da \<Longrightarrow> q * rb \<le> s * db \<Longrightarrow> q \<le> lp"
proof (cases "da * rb \<le> db * ra")
  case True
  define lp where "lp = (s * da) div ra"
  have le: "lp * ra \<le> s * da" unfolding lp_def by (rule floor_div_le [OF assms(1)])
  have nn: "0 \<le> lp" unfolding lp_def using assms by (simp add: pos_imp_zdiv_nonneg_iff)
  have "(lp * rb) * ra \<le> (s * da) * rb" using mult_right_mono [OF le, of rb] assms(2) by (simp add: ac_simps)
  also have "\<dots> \<le> s * (db * ra)" using True assms(5) by (simp add: mult.assoc mult_left_mono)
  finally have "lp * rb \<le> s * db" using assms(1) by (simp add: mult.assoc [symmetric])
  moreover have "q \<le> lp" if "q * ra \<le> s * da" for q
    using that by (simp add: lp_def le_div_iff [OF assms(1)])
  ultimately show ?thesis
    using that [of lp] nn le True assms by (simp add: calculate_lp_tokens_for_deposit_def lp_def)
next
  case False
  define lp where "lp = (s * db) div rb"
  have le: "lp * rb \<le> s * db" unfolding lp_def by (rule floor_div_le [OF assms(2)])
  have nn: "0 \<le> lp" unfolding lp_def using assms by (simp add: pos_imp_zdiv_nonneg_iff)
  have "(lp * ra) * rb \<le> (s * db) * ra" using mult_right_mono [OF le, of ra] assms(1) by (simp add: ac_simps)
  also have "\<dots> \<le> s * (da * rb)" using False assms(5) by (simp add: mult.assoc mult_left_mono)
  finally have "lp * ra \<le> s * da" using assms(2) by (simp add: mult.assoc [symmetric])
  moreover have "q \<le> lp" if "q * rb \<le> s * db" for q
    using that by (simp add: lp_def le_div_iff [OF assms(2)])
  ultimately show ?thesis
    using that [of lp] nn le False assms by (simp add: calculate_lp_tokens_for_deposit_def lp_def)
qed

text \<open>
  The outcome of a deposit.  The final guards of the code never reject: whenever the shares do
  not round to zero, the ceilings stay within the offered amounts.
\<close>

lemma deposit_for_shares_cases:
  assumes "0 < ra" "0 < rb" "0 < da" "0 < db" "0 < s"
  obtains (zero) "calculate_deposit_for_shares ra rb da db s = Some (0, 0, 0)"
      "\<And>q. q * ra \<le> s * da \<Longrightarrow> q * rb \<le> s * db \<Longrightarrow> q \<le> 0"
  | (shares) a b lp where "calculate_deposit_for_shares ra rb da db s = Some (a, b, lp)"
      "0 < a" "a \<le> da" "0 < b" "b \<le> db" "0 < lp"
      "lp * ra \<le> a * s" "a * s < lp * ra + s" "lp * rb \<le> b * s" "b * s < lp * rb + s"
      "\<And>q. q * ra \<le> s * da \<Longrightarrow> q * rb \<le> s * db \<Longrightarrow> q \<le> lp"
proof -
  from assms obtain lp where lp: "calculate_lp_tokens_for_deposit ra rb da db s = Some lp"
    "0 \<le> lp" "lp * ra \<le> s * da" "lp * rb \<le> s * db"
    "\<And>q. q * ra \<le> s * da \<Longrightarrow> q * rb \<le> s * db \<Longrightarrow> q \<le> lp"
    by (rule lp_tokens_max) blast
  show ?thesis
  proof (cases "lp = 0")
    case True
    with lp assms show ?thesis by (intro zero) (auto simp: calculate_deposit_for_shares_def)
  next
    case False
    with lp(2) have pos: "0 < lp" "0 < lp * ra" "0 < lp * rb" using assms by simp_all
    define a where "a = ceil_div (lp * ra) s"
    define b where "b = ceil_div (lp * rb) s"
    have a: "0 < a" "a \<le> da" and b: "0 < b" "b \<le> db"
      using pos lp(3,4) assms(5) by (auto simp: a_def b_def mult.commute intro: ceil_div_pos ceil_div_least)
    have "calculate_deposit_for_shares ra rb da db s = Some (a, b, lp)"
      using lp(1) pos a b assms by (simp add: calculate_deposit_for_shares_def a_def [symmetric] b_def [symmetric])
    then show ?thesis
      using pos a b lp(5) ceil_div_bounds [OF pos(2) assms(5)] ceil_div_bounds [OF pos(3) assms(5)]
      by (intro shares) (auto simp: a_def [symmetric] b_def [symmetric])
  qed
qed

lemma deposit_for_shares_total:
  "\<exists>r. calculate_deposit_for_shares ra rb da db s = Some r"
proof (cases "ra \<le> 0 \<or> rb \<le> 0 \<or> da \<le> 0 \<or> db \<le> 0 \<or> s \<le> 0")
  case True
  then show ?thesis by (auto simp: calculate_deposit_for_shares_def)
next
  case False
  then have "0 < ra" "0 < rb" "0 < da" "0 < db" "0 < s" by auto
  then show ?thesis by (rule deposit_for_shares_cases) blast+
qed

lemma deposit_for_shares_SomeD:
  assumes "calculate_deposit_for_shares ra rb da db s = Some (a, b, lp)" "0 < lp"
  shows "0 < ra" "0 < rb" "0 < s" "0 < a" "a \<le> da" "0 < b" "b \<le> db"
    "lp * ra \<le> a * s" "lp * rb \<le> b * s" "a * s < lp * ra + s" "b * s < lp * rb + s"
proof -
  have pos: "0 < ra" "0 < rb" "0 < da" "0 < db" "0 < s"
    using assms by (auto simp: calculate_deposit_for_shares_def not_le split: if_splits)
  have "0 < a \<and> a \<le> da \<and> 0 < b \<and> b \<le> db \<and> lp * ra \<le> a * s \<and> lp * rb \<le> b * s
      \<and> a * s < lp * ra + s \<and> b * s < lp * rb + s"
    using pos
  proof (cases rule: deposit_for_shares_cases)
    case zero
    with assms show ?thesis by simp
  next
    case (shares a' b' lp')
    with assms show ?thesis by simp
  qed
  with pos show "0 < ra" "0 < rb" "0 < s" "0 < a" "a \<le> da" "0 < b" "b \<le> db"
    "lp * ra \<le> a * s" "lp * rb \<le> b * s" "a * s < lp * ra + s" "b * s < lp * rb + s"
    by auto
qed

lemma withdrawal_Some:
  assumes "0 < s"
  shows "calculate_withdrawal_amounts ra rb lp s = Some ((ra * lp) div s, (rb * lp) div s)"
  using assms by (simp add: calculate_withdrawal_amounts_def)

lemma withdrawal_part:
  assumes "0 \<le> r" "0 \<le> lp" "lp \<le> s" "0 < (s::int)"
  shows "0 \<le> (r * lp) div s" "(r * lp) div s \<le> r" "r * (s - lp) \<le> (r - (r * lp) div s) * s"
proof -
  show "0 \<le> (r * lp) div s" using assms by (simp add: pos_imp_zdiv_nonneg_iff)
  show "(r * lp) div s \<le> r" using assms by (intro div_le_self_mult mult_left_mono)
  show "r * (s - lp) \<le> (r - (r * lp) div s) * s"
    using floor_div_le [OF assms(4), of "r * lp"] by (simp add: algebra_simps)
qed

lemma withdrawal_all: "0 < (s::int) \<Longrightarrow> (r * s) div s = r"
  by simp

text \<open>What a deposit adds, its own shares do not take out again.\<close>

lemma deposit_withdraw_part:
  assumes "lp * r \<le> a * s" "0 < lp" "0 < s"
  shows "((r + a) * lp) div (s + lp) \<le> (a::int)"
proof (rule div_le_self_mult)
  show "0 < s + lp" using assms by simp
  show "(r + a) * lp \<le> a * (s + lp)" using assms(1) by (simp add: algebra_simps)
qed

lemma initial_lp_tokens:
  assumes "0 < a" "0 < b"
  shows "calculate_lp_tokens_for_deposit ra rb a b 0 = Some (big_sqrt (a * b))"
    and "0 < big_sqrt (a * b)" "big_sqrt (a * b) \<le> max a b"
proof -
  have ab: "0 < a * b" using assms by simp
  show "calculate_lp_tokens_for_deposit ra rb a b 0 = Some (big_sqrt (a * b))"
    by (simp add: calculate_lp_tokens_for_deposit_def)
  show "0 < big_sqrt (a * b)"
  proof (rule ccontr)
    assume "\<not> 0 < big_sqrt (a * b)"
    with big_sqrt_bounds [of "a * b"] ab have "big_sqrt (a * b) = 0" by linarith
    with big_sqrt_bounds [of "a * b"] ab show False by simp
  qed
  show "big_sqrt (a * b) \<le> max a b"
    using assms by (intro big_sqrt_le mult_mono) auto
qed

section \<open>Price impact\<close>

definition calculate_price_impact_bps_with_fee :: "int \<Rightarrow> int \<Rightarrow> int \<Rightarrow> int \<Rightarrow> u64 \<Rightarrow> u64" where
  "calculate_price_impact_bps_with_fee reserve_in reserve_out token_in token_out fee_bps =
     (if reserve_in \<le> 0 \<or> token_in \<le> 0 \<or> reserve_out \<le> 0 \<or> token_out < 0 \<or> 1000000 < fee_bps then 0
      else
        let fee_multiplier = bps_basis - uint fee_bps;
            ideal_numerator = token_in * fee_multiplier * reserve_out
        in if ideal_numerator \<le> 0 then 0
           else
             let ideal_denominator = reserve_in * bps_basis;
                 actual_numerator = token_out * ideal_denominator;
                 diff = ideal_numerator - actual_numerator
             in if diff \<le> 0 then 0
                else to_u64 ((diff * bps_basis) div ideal_numerator))"

definition calculate_price_impact_bps :: "int \<Rightarrow> int \<Rightarrow> int \<Rightarrow> int \<Rightarrow> u64" where
  "calculate_price_impact_bps reserve_in reserve_out token_in token_out =
     calculate_price_impact_bps_with_fee reserve_in reserve_out token_in token_out 0"

text \<open>The impact is a share of one, so the narrowing to 64 bits loses nothing.\<close>

lemma price_impact_exact:
  assumes "0 < n" "0 < d" "d \<le> n"
  shows "0 \<le> (d * bps_basis) div n" "(d * bps_basis) div n \<le> bps_basis"
    "uint (to_u64 ((d * bps_basis) div n)) = (d * bps_basis) div n"
proof -
  show nn: "0 \<le> (d * bps_basis) div n" using assms by (simp add: bps_basis_def pos_imp_zdiv_nonneg_iff)
  show le: "(d * bps_basis) div n \<le> bps_basis"
    using assms by (intro div_le_self_mult) (simp_all add: bps_basis_def)
  show "uint (to_u64 ((d * bps_basis) div n)) = (d * bps_basis) div n"
    using nn le by (intro uint_to_u64) (simp_all add: bps_basis_def)
qed

lemma price_impact_bounded:
  "uint (calculate_price_impact_bps_with_fee rin rout tin tout fee) \<le> bps_basis"
proof (cases "rin \<le> 0 \<or> tin \<le> 0 \<or> rout \<le> 0 \<or> tout < 0 \<or> 1000000 < fee")
  case True
  then show ?thesis by (auto simp: calculate_price_impact_bps_with_fee_def bps_basis_def)
next
  case False
  define n where "n = tin * (bps_basis - uint fee) * rout"
  define d where "d = n - tout * (rin * bps_basis)"
  from False have "0 \<le> tout * (rin * bps_basis)" by (simp add: bps_basis_def)
  then have dn: "d \<le> n" by (simp add: d_def)
  have eq: "calculate_price_impact_bps_with_fee rin rout tin tout fee =
      (if n \<le> 0 then 0 else if d \<le> 0 then 0 else to_u64 ((d * bps_basis) div n))"
    using False by (simp add: calculate_price_impact_bps_with_fee_def Let_def n_def d_def)
  show ?thesis
    unfolding eq using price_impact_exact [of n d] dn by (auto simp: bps_basis_def)
qed

section \<open>Properties\<close>

text \<open>
  C18: A swap against positive reserves pays out a non-negative amount strictly below the output
  reserve, charges a fee between zero and the input, and leaves a product of reserves that is at
  least the one it found, so no sequence of swaps can drain a pool.
\<close>

theorem amm_swap_bounds_and_product:
  assumes "0 < rin" "0 < rout" "0 < tin"
    and "calculate_swap_output rin rout tin fee = (out, fee_amount)"
  shows "0 \<le> out \<and> out < rout \<and> 0 \<le> fee_amount \<and> fee_amount \<le> tin
    \<and> rin * rout \<le> (rin + tin) * (rout - out)"
  using swap_out_nonneg [of rin rout tin fee] swap_out_less_reserve [OF assms(2), of rin tin fee]
    swap_fee_bounds [OF assms(3), of rin rout fee] swap_keeps_product [OF assms(1-3), of fee] assms(4)
  by simp

theorem amm_swap_bounds_and_product_witness:
  "(0::int) \<le> 906 \<and> (906::int) < 10000 \<and> (0::int) \<le> 3 \<and> (3::int) \<le> 1000
    \<and> (10000::int) * 10000 \<le> (10000 + 1000) * (10000 - 906)"
  by (rule amm_swap_bounds_and_product [of 10000 10000 1000 3000 906 3])
     (simp_all add: calculate_swap_output_def bps_basis_def word_less_def)

text \<open>
  Trading an amount in and the proceeds straight back, at any two fees, never returns more
  than was put in.
\<close>

theorem amm_round_trip_no_gain:
  assumes "0 < rin" "0 < rout" "0 < tin"
    and "calculate_swap_output rin rout tin fee = (out, f)" and "0 < out"
    and "calculate_swap_output (rout - out) (rin + tin) out fee' = (back, f')"
  shows "back \<le> tin"
  using swap_back_no_gain [OF assms(1-3), of fee fee'] assms(4-6) by simp

theorem amm_round_trip_no_gain_witness: "(996::int) \<le> 1000"
  by (rule amm_round_trip_no_gain [of 10000 10000 1000 3000 906 3 0 996 0])
     (simp_all add: calculate_swap_output_def bps_basis_def word_less_def)

text \<open>
  Splitting a trade into two consecutive swaps never pays more than the single trade, and a
  larger input never pays less than a smaller one.
\<close>

theorem amm_split_no_gain:
  assumes "0 < rin" "0 < rout" "0 < t1" "0 < t2"
    and "calculate_swap_output rin rout t1 fee = (o1, f1)"
    and "calculate_swap_output (rin + t1) (rout - o1) t2 fee = (o2, f2)"
    and "calculate_swap_output rin rout (t1 + t2) fee = (whole, f)"
  shows "o1 + o2 \<le> whole \<and> o1 \<le> whole"
  using swap_split_no_gain [OF assms(1-4), of fee] swap_out_mono [of t1 "t1 + t2" rin rout fee] assms(4-7)
  by simp

theorem amm_split_no_gain_witness: "(906::int) + 755 \<le> 1662 \<and> (906::int) \<le> 1662"
  by (rule amm_split_no_gain [of 10000 10000 1000 1000 3000 906 3 755 3 1662 6])
     (simp_all add: calculate_swap_output_def bps_basis_def word_less_def)

text \<open>
  C19: A deposit into a live pool either mints nothing because not even one share is affordable,
  or mints the largest number of shares both offers can back, takes at most the offers, and takes
  the smallest amounts that keep the value of a share: what it charges for the shares is at least
  their part of each reserve and less than one unit above it.  The final rejection branch of the
  code is never reached with affordable shares.
\<close>

theorem amm_deposit_is_fair_and_maximal:
  assumes "0 < ra" "0 < rb" "0 < da" "0 < db" "0 < s"
  shows "\<exists>a b lp. calculate_deposit_for_shares ra rb da db s = Some (a, b, lp)
    \<and> (\<forall>q. q * ra \<le> s * da \<longrightarrow> q * rb \<le> s * db \<longrightarrow> q \<le> lp)
    \<and> (lp = 0 \<and> a = 0 \<and> b = 0 \<or>
       0 < lp \<and> 0 < a \<and> a \<le> da \<and> 0 < b \<and> b \<le> db
       \<and> lp * ra \<le> a * s \<and> a * s < lp * ra + s \<and> lp * rb \<le> b * s \<and> b * s < lp * rb + s)"
  using assms
proof (cases rule: deposit_for_shares_cases)
  case zero
  then show ?thesis by blast
next
  case (shares a b lp)
  then show ?thesis by blast
qed

theorem amm_deposit_is_fair_and_maximal_witness:
  "calculate_deposit_for_shares 1000 2000 101 300 1414 = Some (101, 201, 142)
   \<and> (\<exists>a b lp. calculate_deposit_for_shares 1000 2000 101 300 1414 = Some (a, b, lp)
    \<and> (\<forall>q. q * 1000 \<le> 1414 * 101 \<longrightarrow> q * 2000 \<le> 1414 * 300 \<longrightarrow> q \<le> lp)
    \<and> (lp = 0 \<and> a = 0 \<and> b = 0 \<or>
       0 < lp \<and> 0 < a \<and> a \<le> 101 \<and> 0 < b \<and> b \<le> 300
       \<and> lp * 1000 \<le> a * 1414 \<and> a * 1414 < lp * 1000 + 1414 \<and> lp * 2000 \<le> b * 1414 \<and> b * 1414 < lp * 2000 + 1414))"
  using amm_deposit_is_fair_and_maximal [of 1000 2000 101 300 1414]
  by (simp add: calculate_deposit_for_shares_def calculate_lp_tokens_for_deposit_def ceil_div_def)

text \<open>
  Depositing and then withdrawing the minted shares at once returns at most the deposit on
  either side, and leaves the earlier holders at least the reserves they had.
\<close>

theorem amm_deposit_withdraw_no_gain:
  assumes "calculate_deposit_for_shares ra rb da db s = Some (a, b, lp)" "0 < lp"
    and "calculate_withdrawal_amounts (ra + a) (rb + b) lp (s + lp) = Some (wa, wb)"
  shows "0 \<le> wa \<and> wa \<le> a \<and> 0 \<le> wb \<and> wb \<le> b \<and> ra \<le> ra + a - wa \<and> rb \<le> rb + b - wb"
proof -
  note D = deposit_for_shares_SomeD [OF assms(1,2)]
  have "wa = ((ra + a) * lp) div (s + lp)" "wb = ((rb + b) * lp) div (s + lp)"
    using assms(3) withdrawal_Some [of "s + lp"] D(3) assms(2) by auto
  moreover have "wa \<le> a" "wb \<le> b"
    unfolding calculation using D assms(2) by (auto intro: deposit_withdraw_part)
  ultimately show ?thesis
    using D assms(2) withdrawal_part(1) [of "ra + a" lp "s + lp"] withdrawal_part(1) [of "rb + b" lp "s + lp"] by auto
qed

theorem amm_deposit_withdraw_no_gain_witness:
  "(0::int) \<le> 100 \<and> (100::int) \<le> 101 \<and> (0::int) \<le> 200 \<and> (200::int) \<le> 201
    \<and> (1000::int) \<le> 1000 + 101 - 100 \<and> (2000::int) \<le> 2000 + 201 - 200"
  by (rule amm_deposit_withdraw_no_gain [of 1000 2000 101 300 1414 101 201 142 100 200])
     (simp_all add: calculate_deposit_for_shares_def calculate_lp_tokens_for_deposit_def ceil_div_def
       calculate_withdrawal_amounts_def)

end
