(* ===== verification/KV_Store.thy ===== *)
theory KV_Store
  imports Prelude
begin

text \<open>
  The key/value store under every keeper.  The code keeps all records of a module in one
  byte-keyed store and tells them apart by a key prefix; the model keeps one store per prefix,
  as a list of entries in ascending key order, which is the order an iterator over the prefix
  visits them.  \<open>kv_set\<close> and \<open>kv_del\<close> keep the order; reads over writes hold with no
  assumption on it.

  The locale \<open>record_store\<close> states what a keeper's get/set/delete triple promises, and carries
  the lemmas on properties of all stored records; \<open>guarded_machine\<close> states that every accepted
  message keeps an invariant, and lifts that to any sequence of transactions.
\<close>

section \<open>Ordered stores\<close>

type_synonym ('k, 'v) kv = "('k \<times> 'v) list"

abbreviation kv_get :: "('k, 'v) kv \<Rightarrow> 'k \<Rightarrow> 'v option" where
  "kv_get m k \<equiv> map_of m k"

definition kv_del :: "'k \<Rightarrow> ('k, 'v) kv \<Rightarrow> ('k, 'v) kv" where
  "kv_del k m = filter (\<lambda>e. fst e \<noteq> k) m"

definition kv_set :: "'k::linorder \<Rightarrow> 'v \<Rightarrow> ('k, 'v) kv \<Rightarrow> ('k, 'v) kv" where
  "kv_set k v m = (let rest = kv_del k m in
     takeWhile (\<lambda>e. fst e < k) rest @ (k, v) # dropWhile (\<lambda>e. fst e < k) rest)"

definition kv_ok :: "('k::linorder, 'v) kv \<Rightarrow> bool" where
  "kv_ok m \<longleftrightarrow> sorted_wrt (<) (map fst m)"

definition kv_sum :: "('v \<Rightarrow> int) \<Rightarrow> ('k, 'v) kv \<Rightarrow> int" where
  "kv_sum f m = sum_list (map (\<lambda>e. f (snd e)) m)"

definition kv_count :: "('v \<Rightarrow> bool) \<Rightarrow> ('k, 'v) kv \<Rightarrow> nat" where
  "kv_count P m = length (filter (\<lambda>e. P (snd e)) m)"

lemma map_of_insert_at:
  "k \<notin> fst ` set m \<Longrightarrow> m = xs @ ys \<Longrightarrow> map_of (xs @ (k, v) # ys) = (map_of m)(k \<mapsto> v)"
  by (induction xs arbitrary: m) (auto simp: fun_eq_iff)

lemma kv_get_del [simp, kv_simps]: "kv_get (kv_del k m) k' = (if k' = k then None else kv_get m k')"
  unfolding kv_del_def by (induction m) (auto split: prod.splits)

lemma kv_get_set [simp, kv_simps]: "kv_get (kv_set k v m) k' = (if k' = k then Some v else kv_get m k')"
proof -
  have "k \<notin> fst ` set (kv_del k m)" by (auto simp: kv_del_def)
  then have "map_of (kv_set k v m) = (map_of (kv_del k m))(k \<mapsto> v)"
    unfolding kv_set_def Let_def by (rule map_of_insert_at) simp
  then show ?thesis by simp
qed

lemma set_kv_del: "set (kv_del k m) = {e \<in> set m. fst e \<noteq> k}"
  by (auto simp: kv_del_def)

lemma set_kv_set: "set (kv_set k v m) = insert (k, v) {e \<in> set m. fst e \<noteq> k}"
proof -
  have "set (takeWhile P xs) \<union> set (dropWhile P xs) = set xs" for P and xs :: "('a \<times> 'b) list"
    by (metis set_append takeWhile_dropWhile_id)
  then show ?thesis by (auto simp: kv_set_def Let_def set_kv_del)
qed

lemma kv_ok_Nil [simp]: "kv_ok []"
  by (simp add: kv_ok_def)

lemma kv_ok_del [simp, intro]: "kv_ok m \<Longrightarrow> kv_ok (kv_del k m)"
  unfolding kv_ok_def kv_del_def by (induction m) auto

lemma sorted_insert_at:
  fixes m :: "('k::linorder \<times> 'v) list"
  assumes "sorted_wrt (<) (map fst m)" "k \<notin> fst ` set m"
  shows "sorted_wrt (<) (map fst (takeWhile (\<lambda>e. fst e < k) m @ (k, v) # dropWhile (\<lambda>e. fst e < k) m))"
  using assms
proof (induction m)
  case (Cons e m)
  show ?case
  proof (cases "fst e < k")
    case True
    let ?r = "takeWhile (\<lambda>e. fst e < k) m @ (k, v) # dropWhile (\<lambda>e. fst e < k) m"
    have "\<forall>x \<in> set ?r. fst e < fst x"
      using True Cons.prems(1) by (auto dest: set_takeWhileD set_dropWhileD)
    moreover have "sorted_wrt (<) (map fst ?r)" using Cons by simp
    ultimately show ?thesis using True by auto
  next
    case False
    moreover have "k \<noteq> fst e" using Cons.prems(2) by auto
    ultimately have "k < fst e" by simp
    with False Cons.prems show ?thesis by auto
  qed
qed simp

lemma kv_ok_set [simp, intro]: "kv_ok m \<Longrightarrow> kv_ok (kv_set k v m)"
  using sorted_insert_at [of "kv_del k m" k v] kv_ok_del [of m k]
  by (auto simp: kv_set_def Let_def kv_ok_def set_kv_del)

lemma kv_ok_distinct: "kv_ok m \<Longrightarrow> distinct (map fst m)"
  by (simp add: kv_ok_def strict_sorted_iff)

lemma kv_get_mem: "kv_ok m \<Longrightarrow> kv_get m k = Some v \<longleftrightarrow> (k, v) \<in> set m"
  using kv_ok_distinct by (metis map_of_eq_Some_iff)

lemma kv_get_in_set: "kv_get m k = Some v \<Longrightarrow> (k, v) \<in> set m"
  by (rule map_of_SomeD)

lemma kv_get_None_mem: "kv_get m k = None \<longleftrightarrow> k \<notin> fst ` set m"
  by (rule map_of_eq_None_iff)

lemma kv_ok_eqI:
  assumes "kv_ok m" "kv_ok m'" "\<And>k. kv_get m k = kv_get m' k"
  shows "m = m'"
proof -
  have "set m = set m'" using assms kv_get_mem by (metis subsetI subset_antisym prod.exhaust)
  moreover have "sorted_wrt (\<lambda>a b. fst a < fst b) m" "sorted_wrt (\<lambda>a b. fst a < fst b) m'"
    using assms(1,2) by (simp_all add: kv_ok_def sorted_wrt_map)
  ultimately show ?thesis
  proof (induction m arbitrary: m')
    case Nil
    then show ?case by simp
  next
    case (Cons e m)
    then obtain e' r where m': "m' = e' # r" by (cases m') auto
    have "e = e'"
    proof (rule ccontr)
      assume "e \<noteq> e'"
      with Cons.prems m' have "e \<in> set r" "e' \<in> set m" by auto
      with Cons.prems m' show False by fastforce
    qed
    moreover from Cons.prems m' \<open>e = e'\<close> have "set m = set r" by fastforce
    ultimately show ?case using Cons.IH [of r] Cons.prems m' by simp
  qed
qed

section \<open>Sums and counts over a store\<close>

lemma kv_sum_Nil [simp]: "kv_sum f [] = 0"
  by (simp add: kv_sum_def)

lemma kv_sum_split:
  "sum_list (map f (takeWhile P xs)) + sum_list (map f (dropWhile P xs)) = (sum_list (map f xs) :: int)"
  by (metis map_append sum_list_append takeWhile_dropWhile_id)

lemma kv_sum_set_del: "kv_sum f (kv_set k v m) = kv_sum f (kv_del k m) + f v"
  using kv_sum_split [of "\<lambda>e. f (snd e)" "\<lambda>e. fst e < k" "kv_del k m"]
  by (simp add: kv_sum_def kv_set_def Let_def)

lemma kv_sum_filter_other: "k \<notin> fst ` set m \<Longrightarrow> kv_del k m = m"
  unfolding kv_del_def by (rule filter_True) auto

lemma kv_sum_del:
  "distinct (map fst m) \<Longrightarrow>
    kv_sum f (kv_del k m) = kv_sum f m - (case kv_get m k of None \<Rightarrow> 0 | Some v \<Rightarrow> f v)"
proof (induction m)
  case (Cons e m)
  show ?case
  proof (cases "fst e = k")
    case True
    with Cons.prems have "kv_del k m = m" by (auto intro: kv_sum_filter_other)
    with True show ?thesis by (cases e) (simp add: kv_sum_def kv_del_def)
  next
    case False
    with Cons show ?thesis by (cases e) (simp add: kv_sum_def kv_del_def)
  qed
qed (simp add: kv_del_def)

lemma kv_sum_set:
  "kv_ok m \<Longrightarrow>
    kv_sum f (kv_set k v m) = kv_sum f m - (case kv_get m k of None \<Rightarrow> 0 | Some v0 \<Rightarrow> f v0) + f v"
  by (simp add: kv_sum_set_del kv_sum_del kv_ok_distinct)

lemma kv_sum_nonneg: "(\<And>k v. (k, v) \<in> set m \<Longrightarrow> 0 \<le> f v) \<Longrightarrow> 0 \<le> kv_sum f m"
  unfolding kv_sum_def by (rule sum_list_nonneg) auto

lemma kv_sum_member_le:
  assumes "\<And>k v. (k, v) \<in> set m \<Longrightarrow> 0 \<le> f v" "kv_get m k = Some v"
  shows "f v \<le> kv_sum f m"
  using assms
proof (induction m)
  case (Cons e m)
  have nn: "0 \<le> kv_sum f m" by (rule kv_sum_nonneg) (use Cons.prems(1) in auto)
  show ?case
  proof (cases "fst e = k")
    case True
    with Cons.prems nn show ?thesis by (cases e) (simp add: kv_sum_def)
  next
    case False
    with Cons have "f v \<le> kv_sum f m" by (cases e) auto
    with Cons.prems(1) [of "fst e" "snd e"] show ?thesis by (simp add: kv_sum_def)
  qed
qed simp

lemma kv_count_as_sum: "int (kv_count P m) = kv_sum (\<lambda>v. if P v then 1 else 0) m"
  unfolding kv_count_def kv_sum_def by (induction m) auto

section \<open>What a keeper's record store promises\<close>

locale record_store =
  fixes get :: "'m \<Rightarrow> 'k \<Rightarrow> 'v option"
    and put :: "'k \<Rightarrow> 'v \<Rightarrow> 'm \<Rightarrow> 'm"
    and drop :: "'k \<Rightarrow> 'm \<Rightarrow> 'm"
  assumes get_put: "get (put k v m) k' = (if k' = k then Some v else get m k')"
    and get_drop: "get (drop k m) k' = (if k' = k then None else get m k')"
begin

lemma put_same: "get (put k v m) k = Some v"
  by (simp add: get_put)

lemma put_other: "k' \<noteq> k \<Longrightarrow> get (put k v m) k' = get m k'"
  by (simp add: get_put)

lemma put_put: "get (put k v (put k w m)) k' = get (put k v m) k'"
  by (simp add: get_put)

lemma all_put:
  "(\<And>k' v'. get m k' = Some v' \<Longrightarrow> P k' v') \<Longrightarrow> P k v \<Longrightarrow> get (put k v m) k' = Some v' \<Longrightarrow> P k' v'"
  by (auto simp: get_put split: if_splits)

lemma all_drop:
  "(\<And>k' v'. get m k' = Some v' \<Longrightarrow> P k' v') \<Longrightarrow> get (drop k m) k' = Some v' \<Longrightarrow> P k' v'"
  by (auto simp: get_drop split: if_splits)

lemma put_drop: "get (put k v (drop k m)) k' = get (put k v m) k'"
  by (simp add: get_put get_drop)

end

interpretation kv: record_store kv_get kv_set kv_del
  by unfold_locales simp_all

section \<open>Transactions\<close>

text \<open>
  The SDK runs each message against a cached copy of the store and writes the cache back only
  when the handler returned no error, so a failed message leaves the state as it was.
\<close>

definition deliver :: "('m \<Rightarrow> 's \<Rightarrow> ('s, 'e, 'r) outcome) \<Rightarrow> 'm \<Rightarrow> 's \<Rightarrow> 's" where
  "deliver handler m s = (case handler m s of Done s' r \<Rightarrow> s' | Fail s' e \<Rightarrow> s)"

fun deliver_all :: "('m \<Rightarrow> 's \<Rightarrow> ('s, 'e, 'r) outcome) \<Rightarrow> 'm list \<Rightarrow> 's \<Rightarrow> 's" where
  "deliver_all handler [] s = s"
| "deliver_all handler (m # ms) s = deliver_all handler ms (deliver handler m s)"

locale guarded_machine =
  fixes handler :: "'m \<Rightarrow> 's \<Rightarrow> ('s, 'e, 'r) outcome"
    and admissible :: "'m \<Rightarrow> bool"
    and inv :: "'s \<Rightarrow> bool"
  assumes handler_inv: "inv s \<Longrightarrow> admissible m \<Longrightarrow> handler m s = Done s' r \<Longrightarrow> inv s'"
begin

lemma deliver_inv: "inv s \<Longrightarrow> admissible m \<Longrightarrow> inv (deliver handler m s)"
  by (auto simp: deliver_def split: outcome.splits intro: handler_inv)

lemma deliver_all_inv: "inv s \<Longrightarrow> (\<And>m. m \<in> set ms \<Longrightarrow> admissible m) \<Longrightarrow> inv (deliver_all handler ms s)"
proof (induction ms arbitrary: s)
  case Nil
  then show ?case by simp
next
  case (Cons m ms)
  then have "inv (deliver handler m s)" by (auto intro: deliver_inv)
  with Cons show ?case by simp
qed

end

end
