(* ===== verification/Bank.thy ===== *)
theory Bank
  imports KV_Store
begin

text \<open>
  The Cosmos SDK as the modules see it.  The SDK is not part of the repository, so it enters
  the model as a parameter: the record \<open>sdk\<close> holds the operations of the bank keeper the code
  calls (x/*/types/expected_keepers.go), over a bank state of any type, with the address
  decoder, the denom validator and the module-account addresses.  \<open>sdk_laws\<close> states what the
  code relies on, each law a documented behaviour of x/bank: a transfer that succeeds moves
  exactly its coins between two balances and leaves supply alone, mint and burn change the
  module balance and the supply by exactly their coins, module accounts have distinct addresses,
  and a denom has at most 128 characters.

  \<open>ledger_sdk\<close> is a ledger of balances and supplies that satisfies the laws; the witnesses of
  the properties instantiate the parameter with it.
\<close>

section \<open>Coins\<close>

type_synonym addr = string
type_synonym coins = "(string \<times> int) list"

definition amount_of :: "coins \<Rightarrow> string \<Rightarrow> int" where
  "amount_of cs d = sum_list (map snd (filter (\<lambda>c. fst c = d) cs))"

lemma amount_of_Nil [simp]: "amount_of [] d = 0"
  by (simp add: amount_of_def)

lemma amount_of_Cons [simp]: "amount_of ((d', x) # cs) d = (if d' = d then x else 0) + amount_of cs d"
  by (simp add: amount_of_def)

text \<open>
  \<open>sdkmath.Int\<close> holds at most 256 bits; \<open>sdkmath.NewIntFromBigInt\<close> panics beyond that.
\<close>

definition sdk_max_bits :: nat where
  "sdk_max_bits = 256"

definition fits_sdk_int :: "int \<Rightarrow> bool" where
  "fits_sdk_int x \<longleftrightarrow> \<bar>x\<bar> < 2 ^ sdk_max_bits"

section \<open>The SDK as a parameter\<close>

record 'b sdk =
  acc_address :: "string \<Rightarrow> addr option"                 \<comment> \<open>\<open>sdk.AccAddressFromBech32\<close>\<close>
  valid_denom :: "string \<Rightarrow> bool"                        \<comment> \<open>\<open>sdk.ValidateDenom\<close>\<close>
  module_address :: "string \<Rightarrow> addr"                     \<comment> \<open>\<open>authtypes.NewModuleAddress\<close>\<close>
  bank_balance :: "'b \<Rightarrow> addr \<Rightarrow> string \<Rightarrow> int"          \<comment> \<open>\<open>GetBalance\<close>\<close>
  bank_spendable :: "'b \<Rightarrow> addr \<Rightarrow> string \<Rightarrow> int"        \<comment> \<open>\<open>SpendableCoins\<close>\<close>
  bank_supply :: "'b \<Rightarrow> string \<Rightarrow> int"                   \<comment> \<open>\<open>GetSupply\<close>\<close>
  bank_send_enabled :: "'b \<Rightarrow> coins \<Rightarrow> bool"             \<comment> \<open>\<open>IsSendEnabledCoins\<close>\<close>
  bank_to_module :: "addr \<Rightarrow> string \<Rightarrow> coins \<Rightarrow> 'b \<Rightarrow> ('b, string, unit) outcome"
                                                        \<comment> \<open>\<open>SendCoinsFromAccountToModule\<close>\<close>
  bank_to_account :: "string \<Rightarrow> addr \<Rightarrow> coins \<Rightarrow> 'b \<Rightarrow> ('b, string, unit) outcome"
                                                        \<comment> \<open>\<open>SendCoinsFromModuleToAccount\<close>\<close>
  bank_mod_to_mod :: "string \<Rightarrow> string \<Rightarrow> coins \<Rightarrow> 'b \<Rightarrow> ('b, string, unit) outcome"
                                                        \<comment> \<open>\<open>SendCoinsFromModuleToModule\<close>\<close>
  bank_mint :: "string \<Rightarrow> coins \<Rightarrow> 'b \<Rightarrow> ('b, string, unit) outcome"
  bank_burn :: "string \<Rightarrow> coins \<Rightarrow> 'b \<Rightarrow> ('b, string, unit) outcome"

text \<open>
  \<open>sdk.NewCoins\<close> of \<open>sdk.NewCoin\<close>s over \<open>sdkmath.NewIntFromBigInt\<close>: zero coins are dropped, the rest
  sorted by denom.  An invalid denom, a negative or oversized amount and a repeated denom panic,
  which is \<open>None\<close>.
\<close>

definition coin_ok :: "'b sdk \<Rightarrow> string \<times> int \<Rightarrow> bool" where
  "coin_ok env c \<longleftrightarrow> valid_denom env (fst c) \<and> 0 \<le> snd c \<and> fits_sdk_int (snd c)"

text \<open>A slice of coins built with \<open>sdk.NewCoin\<close>, in the order written.\<close>

definition coin_slice :: "'b sdk \<Rightarrow> coins \<Rightarrow> coins option" where
  "coin_slice env cs = (if list_all (coin_ok env) cs then Some cs else None)"

definition new_coins :: "'b sdk \<Rightarrow> coins \<Rightarrow> coins option" where
  "new_coins env cs =
     (if list_all (coin_ok env) cs \<and> distinct (map fst (filter (\<lambda>c. snd c \<noteq> 0) cs))
      then Some (sort_key fst (filter (\<lambda>c. snd c \<noteq> 0) cs)) else None)"

lemma amount_of_sort [simp]: "amount_of (sort_key fst cs) d = amount_of cs d"
proof -
  have "amount_of (insort_key fst c cs) d = amount_of (c # cs) d" for c and cs :: coins
    by (induction cs) (auto simp: amount_of_def)
  then show ?thesis by (induction cs) (auto simp: amount_of_def)
qed

lemma amount_of_nonzero [simp]: "amount_of (filter (\<lambda>c. snd c \<noteq> 0) cs) d = amount_of cs d"
  by (induction cs) (auto simp: amount_of_def)

lemma new_coins_ok: "new_coins env cs = Some cs' \<Longrightarrow> list_all (coin_ok env) cs"
  by (simp add: new_coins_def split: if_splits)

lemma new_coins_set: "new_coins env cs = Some cs' \<Longrightarrow> set cs' = {c \<in> set cs. snd c \<noteq> 0}"
  by (auto simp: new_coins_def split: if_splits)

lemma new_coins_amount: "new_coins env cs = Some cs' \<Longrightarrow> amount_of cs' d = amount_of cs d"
  by (auto simp: new_coins_def split: if_splits)

text \<open>
  A transfer of \<open>cs\<close> from \<open>x\<close> to \<open>y\<close> turned the bank state \<open>b\<close> into \<open>b'\<close>.  Balances and supplies are
  \<open>sdkmath.Int\<close>s: an addition beyond 256 bits panics, so after a success they fit.
\<close>

definition moved :: "'b sdk \<Rightarrow> addr \<Rightarrow> addr \<Rightarrow> coins \<Rightarrow> 'b \<Rightarrow> 'b \<Rightarrow> bool" where
  "moved env x y cs b b' \<longleftrightarrow>
     (\<forall>d. bank_supply env b' d = bank_supply env b d) \<and>
     (\<forall>c \<in> set cs. fits_sdk_int (bank_balance env b' y (fst c))) \<and>
     (\<forall>a d. bank_balance env b' a d =
        bank_balance env b a d - (if a = x then amount_of cs d else 0)
                               + (if a = y then amount_of cs d else 0))"

text \<open>The supply and the balance of \<open>x\<close> changed by \<open>sign\<close> times the coins.\<close>

definition issued :: "'b sdk \<Rightarrow> int \<Rightarrow> addr \<Rightarrow> coins \<Rightarrow> 'b \<Rightarrow> 'b \<Rightarrow> bool" where
  "issued env sign x cs b b' \<longleftrightarrow>
     (\<forall>d. bank_supply env b' d = bank_supply env b d + sign * amount_of cs d) \<and>
     (\<forall>c \<in> set cs. fits_sdk_int (bank_supply env b' (fst c))) \<and>
     (\<forall>a d. bank_balance env b' a d =
        bank_balance env b a d + (if a = x then sign * amount_of cs d else 0))"

definition sdk_laws :: "'b sdk \<Rightarrow> bool" where
  "sdk_laws env \<longleftrightarrow>
     (\<forall>x m cs b b' u. bank_to_module env x m cs b = Done b' u \<longrightarrow> moved env x (module_address env m) cs b b') \<and>
     (\<forall>m y cs b b' u. bank_to_account env m y cs b = Done b' u \<longrightarrow> moved env (module_address env m) y cs b b') \<and>
     (\<forall>m m' cs b b' u. bank_mod_to_mod env m m' cs b = Done b' u \<longrightarrow>
        moved env (module_address env m) (module_address env m') cs b b') \<and>
     (\<forall>m cs b b' u. bank_mint env m cs b = Done b' u \<longrightarrow> issued env 1 (module_address env m) cs b b') \<and>
     (\<forall>m cs b b' u. bank_burn env m cs b = Done b' u \<longrightarrow> issued env (- 1) (module_address env m) cs b b') \<and>
     inj (module_address env) \<and>
     (\<forall>d. valid_denom env d \<longrightarrow> length d \<le> 128)"

lemma bank_to_module_moved:
  "sdk_laws env \<Longrightarrow> bank_to_module env x m cs b = Done b' u \<Longrightarrow> moved env x (module_address env m) cs b b'"
  by (simp add: sdk_laws_def)

lemma bank_to_account_moved:
  "sdk_laws env \<Longrightarrow> bank_to_account env m y cs b = Done b' u \<Longrightarrow> moved env (module_address env m) y cs b b'"
  by (simp add: sdk_laws_def)

lemma bank_mod_to_mod_moved:
  "sdk_laws env \<Longrightarrow> bank_mod_to_mod env m m' cs b = Done b' u \<Longrightarrow>
    moved env (module_address env m) (module_address env m') cs b b'"
  by (simp add: sdk_laws_def)

lemma bank_mint_issued:
  "sdk_laws env \<Longrightarrow> bank_mint env m cs b = Done b' u \<Longrightarrow> issued env 1 (module_address env m) cs b b'"
  by (simp add: sdk_laws_def)

lemma bank_burn_issued:
  "sdk_laws env \<Longrightarrow> bank_burn env m cs b = Done b' u \<Longrightarrow> issued env (- 1) (module_address env m) cs b b'"
  by (simp add: sdk_laws_def)

lemma module_address_inj:
  "sdk_laws env \<Longrightarrow> module_address env m = module_address env m' \<longleftrightarrow> m = m'"
  unfolding sdk_laws_def by (blast dest: injD)

lemma valid_denom_length: "sdk_laws env \<Longrightarrow> valid_denom env d \<Longrightarrow> length d \<le> 128"
  by (simp add: sdk_laws_def)

lemma moved_supply: "moved env x y cs b b' \<Longrightarrow> bank_supply env b' d = bank_supply env b d"
  by (simp add: moved_def)

lemma moved_balance:
  "moved env x y cs b b' \<Longrightarrow> bank_balance env b' a d =
     bank_balance env b a d - (if a = x then amount_of cs d else 0) + (if a = y then amount_of cs d else 0)"
  by (simp add: moved_def)

lemma issued_supply:
  "issued env sg x cs b b' \<Longrightarrow> bank_supply env b' d = bank_supply env b d + sg * amount_of cs d"
  by (simp add: issued_def)

lemma issued_balance:
  "issued env sg x cs b b' \<Longrightarrow> bank_balance env b' a d =
     bank_balance env b a d + (if a = x then sg * amount_of cs d else 0)"
  by (simp add: issued_def)

lemma moved_fits: "moved env x y cs b b' \<Longrightarrow> c \<in> set cs \<Longrightarrow> fits_sdk_int (bank_balance env b' y (fst c))"
  unfolding moved_def by blast

lemma issued_fits: "issued env sg x cs b b' \<Longrightarrow> c \<in> set cs \<Longrightarrow> fits_sdk_int (bank_supply env b' (fst c))"
  unfolding issued_def by blast

lemmas bank_effects = moved_supply moved_balance issued_supply issued_balance

text \<open>A bank call from a keeper whose state holds the bank in a field.\<close>

definition on_bank ::
  "('s \<Rightarrow> 'b) \<Rightarrow> ('b \<Rightarrow> 's \<Rightarrow> 's) \<Rightarrow> (string \<Rightarrow> 'e) \<Rightarrow> ('b \<Rightarrow> ('b, string, unit) outcome) \<Rightarrow> 's
   \<Rightarrow> ('s, 'e, unit) outcome" where
  "on_bank get_bank put_bank err f s =
     (case f (get_bank s) of
        Done b u \<Rightarrow> Done (put_bank b s) ()
      | Fail b e \<Rightarrow> Fail (put_bank b s) (err e))"

lemma on_bank_Done [outcome_simps]:
  "on_bank g p err f s = Done s' u \<longleftrightarrow> (\<exists>b. f (g s) = Done b () \<and> s' = p b s)"
  by (auto simp: on_bank_def split: outcome.splits)

text \<open>The chain's native denom, and the coins of one amount of it.\<close>

definition uzrn :: string where
  "uzrn = ''uzrn''"

lemma single_coin_amount:
  "new_coins env [(d, x)] = Some cs \<Longrightarrow> amount_of cs d' = (if d' = d then x else 0)"
  by (auto dest: new_coins_amount [where d = d'])

lemma single_coin_range: "new_coins env [(d, x)] = Some cs \<Longrightarrow> 0 \<le> x \<and> x < 2 ^ sdk_max_bits"
  by (drule new_coins_ok) (auto simp: coin_ok_def fits_sdk_int_def)

section \<open>A ledger that satisfies the laws\<close>

record ledger =
  lg_balances :: "(string \<times> string, int) kv"   \<comment> \<open>address and denom to balance\<close>
  lg_supply :: "(string, int) kv"
  lg_disabled :: "string list"                   \<comment> \<open>denoms whose transfers are switched off\<close>

definition ledger_balance :: "ledger \<Rightarrow> addr \<Rightarrow> string \<Rightarrow> int" where
  "ledger_balance b a d = (case kv_get (lg_balances b) (a, d) of None \<Rightarrow> 0 | Some x \<Rightarrow> x)"

definition ledger_supply :: "ledger \<Rightarrow> string \<Rightarrow> int" where
  "ledger_supply b d = (case kv_get (lg_supply b) d of None \<Rightarrow> 0 | Some x \<Rightarrow> x)"

fun ledger_credit :: "int \<Rightarrow> addr \<Rightarrow> coins \<Rightarrow> ledger \<Rightarrow> ledger" where
  "ledger_credit sg a [] b = b"
| "ledger_credit sg a ((d, x) # cs) b =
     ledger_credit sg a cs (b\<lparr>lg_balances := kv_set (a, d) (ledger_balance b a d + sg * x) (lg_balances b)\<rparr>)"

fun ledger_issue :: "int \<Rightarrow> coins \<Rightarrow> ledger \<Rightarrow> ledger" where
  "ledger_issue sg [] b = b"
| "ledger_issue sg ((d, x) # cs) b =
     ledger_issue sg cs (b\<lparr>lg_supply := kv_set d (ledger_supply b d + sg * x) (lg_supply b)\<rparr>)"

definition ledger_covers :: "ledger \<Rightarrow> addr \<Rightarrow> coins \<Rightarrow> bool" where
  "ledger_covers b a cs \<longleftrightarrow> list_all (\<lambda>c. amount_of cs (fst c) \<le> ledger_balance b a (fst c)) cs"

definition ledger_send :: "addr \<Rightarrow> addr \<Rightarrow> coins \<Rightarrow> ledger \<Rightarrow> (ledger, string, unit) outcome" where
  "ledger_send x y cs b =
     (let b' = ledger_credit 1 y cs (ledger_credit (- 1) x cs b)
      in if \<not> ledger_covers b x cs then Fail b ''insufficient funds''
         else if \<not> list_all (\<lambda>c. fits_sdk_int (ledger_balance b' y (fst c))) cs then Fail b ''overflow''
         else Done b' ())"

definition ledger_supply_change :: "int \<Rightarrow> addr \<Rightarrow> coins \<Rightarrow> ledger \<Rightarrow> (ledger, string, unit) outcome" where
  "ledger_supply_change sg a cs b =
     (let b' = ledger_issue sg cs (ledger_credit sg a cs b)
      in if sg < 0 \<and> \<not> ledger_covers b a cs then Fail b ''insufficient funds''
         else if \<not> list_all (\<lambda>c. fits_sdk_int (ledger_supply b' (fst c))) cs then Fail b ''overflow''
         else Done b' ())"

text \<open>Addresses of accounts are the text after a \<open>zrn1\<close> prefix, so none is a module address.\<close>

definition ledger_account :: "string \<Rightarrow> addr option" where
  "ledger_account s = (if take 4 s = ''zrn1'' \<and> 4 < length s \<and> CHR ''/'' \<notin> set s then Some s else None)"

definition ledger_sdk :: "ledger sdk" where
  "ledger_sdk =
     \<lparr>acc_address = ledger_account, valid_denom = (\<lambda>d. d \<noteq> [] \<and> length d \<le> 128), module_address = (\<lambda>m. ''module/'' @ m),
      bank_balance = ledger_balance, bank_spendable = ledger_balance, bank_supply = ledger_supply,
      bank_send_enabled = (\<lambda>b cs. list_all (\<lambda>c. fst c \<notin> set (lg_disabled b)) cs),
      bank_to_module = (\<lambda>a m. ledger_send a (''module/'' @ m)),
      bank_to_account = (\<lambda>m. ledger_send (''module/'' @ m)),
      bank_mod_to_mod = (\<lambda>m m'. ledger_send (''module/'' @ m) (''module/'' @ m')),
      bank_mint = (\<lambda>m. ledger_supply_change 1 (''module/'' @ m)),
      bank_burn = (\<lambda>m. ledger_supply_change (- 1) (''module/'' @ m))\<rparr>"

lemma ledger_credit_other [simp]:
  "lg_supply (ledger_credit sg a cs b) = lg_supply b" "lg_disabled (ledger_credit sg a cs b) = lg_disabled b"
  by (induction sg a cs b rule: ledger_credit.induct) auto

lemma ledger_issue_other [simp]:
  "lg_balances (ledger_issue sg cs b) = lg_balances b" "lg_disabled (ledger_issue sg cs b) = lg_disabled b"
  by (induction sg cs b rule: ledger_issue.induct) auto

lemma ledger_balance_credit:
  "ledger_balance (ledger_credit sg a cs b) x d =
     ledger_balance b x d + (if x = a then sg * amount_of cs d else 0)"
  by (induction sg a cs b rule: ledger_credit.induct) (auto simp: ledger_balance_def algebra_simps)

lemma ledger_supply_issue:
  "ledger_supply (ledger_issue sg cs b) d = ledger_supply b d + sg * amount_of cs d"
  by (induction sg cs b rule: ledger_issue.induct) (auto simp: ledger_supply_def algebra_simps)

lemma ledger_issue_balance [simp]: "ledger_balance (ledger_issue sg cs b) = ledger_balance b"
  by (simp add: ledger_balance_def fun_eq_iff)

lemma ledger_credit_supply [simp]: "ledger_supply (ledger_credit sg a cs b) = ledger_supply b"
  by (simp add: ledger_supply_def fun_eq_iff)

lemma ledger_send_moved: "ledger_send x y cs b = Done b' u \<Longrightarrow> moved ledger_sdk x y cs b b'"
  by (auto simp: ledger_send_def moved_def ledger_sdk_def ledger_balance_credit Let_def list_all_iff
      split: if_splits)

lemma ledger_supply_change_issued:
  "ledger_supply_change sg a cs b = Done b' u \<Longrightarrow> issued ledger_sdk sg a cs b b'"
  by (auto simp: ledger_supply_change_def issued_def ledger_sdk_def ledger_balance_credit ledger_supply_issue
      Let_def list_all_iff split: if_splits)

lemma ledger_laws: "sdk_laws ledger_sdk"
proof -
  have "inj (module_address ledger_sdk)" by (simp add: ledger_sdk_def inj_def)
  then show ?thesis
    unfolding sdk_laws_def
    using ledger_send_moved ledger_supply_change_issued by (auto simp: ledger_sdk_def)
qed

end
