(* ===== verification/LP_Types.thy ===== *)
theory LP_Types
  imports Bank Go_Text
begin

text \<open>
  x/liquiditypool/types: the records of the liquidity-pool module, its errors, its messages with
  their stateless validation, the parsing of amounts and identifiers, the index keys and the
  parameters.  Amounts are stored as decimal strings and parsed at every boundary, as in the
  code.  Errors keep the registered error and drop the text wrapped around it.
\<close>

section \<open>Errors\<close>

datatype lp_error =
    ErrPoolNotFound | ErrPoolAlreadyExists | ErrMaxPoolsReached | ErrInsufficientLiquidity
  | ErrInvalidDenom | ErrSameDenom | ErrSlippageExceeded | ErrPoolLocked | ErrZeroAmount
  | ErrInvalidSwapFee | ErrUnauthorized | ErrDenomNotInPool | ErrInsufficientLP | ErrNoPool
  | ErrReserveBelowMinimum | ErrMissingZRNSide | ErrInvalidAmount | ErrPoolNotActive
  | ErrPoolAddDisabled | ErrPoolExitDisabled | ErrZeroSwapOutput | ErrZeroLPTokens
  | ErrInvalidPoolStatus | ErrClosedPoolImmutable | ErrTWAPWindowUnavailable | ErrInvalidPoolState
  | ErrPoolDenomNotAllowed | ErrPoolCreatorNotAllowed | ErrPoolRecordCapReached
  | ErrAddress            \<comment> \<open>a bech32 address that does not decode\<close>
  | ErrSendDisabled       \<comment> \<open>\<open>IsSendEnabledCoins\<close> refused a denom\<close>
  | ErrBank string        \<comment> \<open>an error of the bank keeper\<close>
  | ErrConfig string      \<comment> \<open>an unregistered error of a parameter or genesis check\<close>
  | Panic

section \<open>Records\<close>

datatype pool_status =
    POOL_STATUS_UNSPECIFIED | POOL_STATUS_ACTIVE | POOL_STATUS_SWAPS_PAUSED
  | POOL_STATUS_EXIT_ONLY | POOL_STATUS_CLOSED
  | POOL_STATUS_UNKNOWN int  \<comment> \<open>any other value of the open protobuf enum\<close>

record pool =
  pool_id :: string
  pool_denom_a :: string
  pool_denom_b :: string
  pool_reserve_a :: string
  pool_reserve_b :: string
  pool_swap_fee_bps :: u64
  pool_lp_token_supply :: string
  pool_lp_denom :: string
  pool_creator :: string
  pool_created_at :: u64
  pool_locked :: bool
  pool_status :: pool_status
  pool_closed_at :: u64

record twap_accumulator =
  acc_pool_id :: string
  acc_last_block :: u64
  acc_cum_a_to_b :: string
  acc_cum_b_to_a :: string
  acc_start_block :: u64

record twap_observation =
  obs_pool_id :: string
  obs_block_height :: u64
  obs_cum_a_to_b :: string
  obs_cum_b_to_a :: string

record lp_params =
  default_swap_fee_bps :: u64
  max_pools :: u64
  min_initial_liquidity :: string
  twap_window_blocks :: u64
  protocol_fee_bps :: u64
  min_reserve :: string
  billing_quote_denoms :: "string list"
  allowed_pool_denoms :: "string list"
  pool_creators :: "string list"

section \<open>Constants and status\<close>

definition zrn_denom :: string where
  "zrn_denom = ''uzrn''"

definition max_swap_fee_bps :: u64 where
  "max_swap_fee_bps = 100000"

definition max_pools_cap :: u64 where
  "max_pools_cap = 64"

definition max_pool_records_cap :: u64 where
  "max_pool_records_cap = 10000"

definition max_twap_window_blocks :: u64 where
  "max_twap_window_blocks = 10000"

definition max_admission_entries :: nat where
  "max_admission_entries = 32"

fun is_open_pool_status :: "pool_status \<Rightarrow> bool" where
  "is_open_pool_status POOL_STATUS_ACTIVE = True"
| "is_open_pool_status POOL_STATUS_SWAPS_PAUSED = True"
| "is_open_pool_status POOL_STATUS_EXIT_ONLY = True"
| "is_open_pool_status _ = False"

definition can_swap :: "pool_status \<Rightarrow> bool" where
  "can_swap st \<longleftrightarrow> st = POOL_STATUS_ACTIVE"

definition can_add_liquidity :: "pool_status \<Rightarrow> bool" where
  "can_add_liquidity st \<longleftrightarrow> st = POOL_STATUS_ACTIVE \<or> st = POOL_STATUS_SWAPS_PAUSED"

definition can_remove_liquidity :: "pool_status \<Rightarrow> bool" where
  "can_remove_liquidity st \<longleftrightarrow> is_open_pool_status st"

lemma open_status_cases:
  "is_open_pool_status st \<longleftrightarrow> st \<in> {POOL_STATUS_ACTIVE, POOL_STATUS_SWAPS_PAUSED, POOL_STATUS_EXIT_ONLY}"
  by (cases st) auto

section \<open>Amounts (amount.go)\<close>

definition parse_canonical_big_int :: "string \<Rightarrow> bool \<Rightarrow> nat \<Rightarrow> lp_error + int" where
  "parse_canonical_big_int value allow_zero max_bit_len =
     (if value = [] then Inl ErrInvalidAmount
      else case big_set_string value of
        None \<Rightarrow> Inl ErrInvalidAmount
      | Some v \<Rightarrow>
          if big_string v \<noteq> value then Inl ErrInvalidAmount
          else if v < 0 \<or> (\<not> allow_zero \<and> v = 0) then
            (if allow_zero then Inl ErrInvalidAmount else Inl ErrZeroAmount)
          else if 2 ^ max_bit_len \<le> \<bar>v\<bar> then Inl ErrInvalidAmount
          else Inr v)"

definition parse_canonical_amount :: "string \<Rightarrow> bool \<Rightarrow> lp_error + int" where
  "parse_canonical_amount value allow_zero = parse_canonical_big_int value allow_zero sdk_max_bits"

definition parse_positive_amount :: "string \<Rightarrow> lp_error + int" where
  "parse_positive_amount value = parse_canonical_amount value False"

definition parse_non_negative_amount :: "string \<Rightarrow> lp_error + int" where
  "parse_non_negative_amount value = parse_canonical_amount value True"

definition parse_cumulative_amount :: "string \<Rightarrow> lp_error + int" where
  "parse_cumulative_amount value = parse_canonical_big_int value True 512"

definition parse_optional_positive_amount :: "string \<Rightarrow> lp_error + int option" where
  "parse_optional_positive_amount value =
     (if value = [] then Inr None
      else case parse_positive_amount value of Inl e \<Rightarrow> Inl e | Inr v \<Rightarrow> Inr (Some v))"

lemma parse_canonical_Inr:
  "parse_canonical_big_int value z n = Inr v \<longleftrightarrow>
     value = big_string v \<and> 0 \<le> v \<and> (z \<or> v \<noteq> 0) \<and> v < 2 ^ n"
proof
  assume "parse_canonical_big_int value z n = Inr v"
  then show "value = big_string v \<and> 0 \<le> v \<and> (z \<or> v \<noteq> 0) \<and> v < 2 ^ n"
    unfolding parse_canonical_big_int_def by (auto split: option.split_asm if_split_asm)
next
  assume "value = big_string v \<and> 0 \<le> v \<and> (z \<or> v \<noteq> 0) \<and> v < 2 ^ n"
  then show "parse_canonical_big_int value z n = Inr v"
    by (simp add: parse_canonical_big_int_def not_less)
qed

lemma parse_positive_Inr:
  "parse_positive_amount value = Inr v \<longleftrightarrow> value = big_string v \<and> 0 < v \<and> v < 2 ^ sdk_max_bits"
  by (auto simp: parse_positive_amount_def parse_canonical_amount_def parse_canonical_Inr)

lemma parse_non_negative_Inr:
  "parse_non_negative_amount value = Inr v \<longleftrightarrow> value = big_string v \<and> 0 \<le> v \<and> v < 2 ^ sdk_max_bits"
  by (auto simp: parse_non_negative_amount_def parse_canonical_amount_def parse_canonical_Inr)

lemma parse_cumulative_Inr:
  "parse_cumulative_amount value = Inr v \<longleftrightarrow> value = big_string v \<and> 0 \<le> v \<and> v < 2 ^ 512"
  by (simp add: parse_cumulative_amount_def parse_canonical_Inr)

lemma parse_optional_Inr:
  "parse_optional_positive_amount value = Inr ov \<longleftrightarrow>
     (value = [] \<and> ov = None) \<or> (\<exists>v. value \<noteq> [] \<and> ov = Some v \<and> parse_positive_amount value = Inr v)"
  by (auto simp: parse_optional_positive_amount_def split: sum.splits)

lemma parse_positive_string [simp]:
  "0 < v \<Longrightarrow> v < 2 ^ sdk_max_bits \<Longrightarrow> parse_positive_amount (big_string v) = Inr v"
  by (simp add: parse_positive_Inr)

lemma parse_non_negative_string [simp]:
  "0 \<le> v \<Longrightarrow> v < 2 ^ sdk_max_bits \<Longrightarrow> parse_non_negative_amount (big_string v) = Inr v"
  by (simp add: parse_non_negative_Inr)

lemma parse_cumulative_string [simp]:
  "0 \<le> v \<Longrightarrow> v < 2 ^ 512 \<Longrightarrow> parse_cumulative_amount (big_string v) = Inr v"
  by (simp add: parse_cumulative_Inr)

section \<open>Identifiers and keys\<close>

definition format_pool_id :: "u64 \<Rightarrow> string" where
  "format_pool_id n = ''pool-'' @ format_u64 n"

definition parse_pool_id :: "string \<Rightarrow> u64 option" where
  "parse_pool_id s =
     (case cut_prefix ''pool-'' s of
        None \<Rightarrow> None
      | Some raw \<Rightarrow>
          if raw = [] then None
          else case parse_uint raw of
            None \<Rightarrow> None
          | Some n \<Rightarrow> if n = 0 \<or> format_pool_id n \<noteq> s then None else Some n)"

definition lp_denom_of :: "string \<Rightarrow> string" where
  "lp_denom_of pid = ''lp/'' @ pid"

definition parse_lp_denom :: "string \<Rightarrow> string option" where
  "parse_lp_denom denom =
     (case cut_prefix ''lp/'' denom of
        None \<Rightarrow> None
      | Some pid \<Rightarrow>
          if parse_pool_id pid = None then None
          else if lp_denom_of pid \<noteq> denom then None
          else Some pid)"

lemma parse_pool_id_Some: "parse_pool_id s = Some n \<longleftrightarrow> n \<noteq> 0 \<and> s = format_pool_id n"
proof
  assume "parse_pool_id s = Some n"
  then show "n \<noteq> 0 \<and> s = format_pool_id n"
    unfolding parse_pool_id_def by (auto split: option.split_asm if_split_asm)
next
  assume n: "n \<noteq> 0 \<and> s = format_pool_id n"
  then have "cut_prefix ''pool-'' s = Some (format_u64 n)" by (simp only: cut_prefix_Some format_pool_id_def)
  with n show "parse_pool_id s = Some n" by (simp add: parse_pool_id_def)
qed

lemma format_pool_id_inj [simp]: "format_pool_id m = format_pool_id n \<longleftrightarrow> m = n"
  by (simp add: format_pool_id_def)

lemma parse_lp_denom_Some: "parse_lp_denom d = Some pid \<longleftrightarrow> d = lp_denom_of pid \<and> parse_pool_id pid \<noteq> None"
  by (auto simp: parse_lp_denom_def lp_denom_of_def split: option.splits if_splits)

lemma lp_denom_of_inj [simp]: "lp_denom_of p = lp_denom_of q \<longleftrightarrow> p = q"
  by (simp add: lp_denom_of_def)

lemma lp_denom_not_zrn [simp]: "lp_denom_of p \<noteq> zrn_denom"
  by (simp add: lp_denom_of_def zrn_denom_def)

text \<open>Bytes are integers below 256; \<open>be32\<close> is \<open>binary.BigEndian.PutUint32\<close>.\<close>

definition bytes_of :: "string \<Rightarrow> int list" where
  "bytes_of s = map of_char s"

definition be32 :: "int \<Rightarrow> int list" where
  "be32 n = [(n div 2 ^ 24) mod 256, (n div 2 ^ 16) mod 256, (n div 2 ^ 8) mod 256, n mod 256]"

definition denom_index_prefix :: int where
  "denom_index_prefix = 16"

definition denom_pair_key :: "string \<Rightarrow> string \<Rightarrow> int list" where
  "denom_pair_key denom_a denom_b =
     (let (da, db) = (if denom_b < denom_a then (denom_b, denom_a) else (denom_a, denom_b))
      in denom_index_prefix # be32 (int (length da)) @ bytes_of da @ bytes_of db)"

lemma bytes_of_inj [simp]: "bytes_of s = bytes_of t \<longleftrightarrow> s = t"
  unfolding bytes_of_def by (rule inj_map_eq_map) (simp add: inj_def)

lemma length_bytes_of [simp]: "length (bytes_of s) = length s"
  by (simp add: bytes_of_def)

lemma be32_parts:
  fixes x :: int
  assumes "0 \<le> x" "x < 2 ^ 32"
  shows "x = ((x div 2 ^ 24) mod 256) * 2 ^ 24 + ((x div 2 ^ 16) mod 256) * 2 ^ 16
      + ((x div 2 ^ 8) mod 256) * 2 ^ 8 + x mod 256"
proof -
  define y where "y = x div 256"
  define z where "z = y div 256"
  define w where "w = z div 256"
  have d: "x div 2 ^ 8 = y" "x div 2 ^ 16 = z" "x div 2 ^ 24 = w"
    by (simp_all add: y_def z_def w_def zdiv_zmult2_eq [symmetric])
  have "0 \<le> w" "w < 256" using assms by (simp_all add: y_def z_def w_def)
  then have wm: "w mod 256 = w" by simp
  have digits: "r0 + r1 * 2 ^ 8 + r2 * 2 ^ 16 + w * 2 ^ 24 = x"
    if "x = 256 * y + r0" "y = 256 * z + r1" "z = 256 * w + r2" for r0 r1 r2
    using that by simp
  have "x mod 256 + (y mod 256) * 2 ^ 8 + (z mod 256) * 2 ^ 16 + w * 2 ^ 24 = x"
    by (rule digits) (simp_all add: y_def z_def w_def)
  then show ?thesis unfolding d wm by (simp only: ac_simps)
qed

lemma be32_inj:
  assumes "0 \<le> m" "m < 2 ^ 32" "0 \<le> n" "n < 2 ^ 32" "be32 m = be32 n"
  shows "m = n"
proof -
  from assms(5) have "(m div 2 ^ 24) mod 256 = (n div 2 ^ 24) mod 256" "(m div 2 ^ 16) mod 256 = (n div 2 ^ 16) mod 256"
    "(m div 2 ^ 8) mod 256 = (n div 2 ^ 8) mod 256" "m mod 256 = n mod 256"
    by (simp_all only: be32_def list.inject)
  then show ?thesis
    using be32_parts [OF assms(1,2)] be32_parts [OF assms(3,4)] by (simp only:)
qed

lemma denom_pair_key_comm: "denom_pair_key a b = denom_pair_key b a"
  by (auto simp: denom_pair_key_def)

lemma denom_pair_key_eq_iff:
  assumes "length a < 2 ^ 32" "length b < 2 ^ 32" "length c < 2 ^ 32" "length d < 2 ^ 32"
  shows "denom_pair_key a b = denom_pair_key c d \<longleftrightarrow> (a = c \<and> b = d) \<or> (a = d \<and> b = c)"
proof -
  have core: "x = x' \<and> y = y'"
    if "be32 (int (length x)) @ bytes_of x @ bytes_of y = be32 (int (length x')) @ bytes_of x' @ bytes_of y'"
      "length x < 2 ^ 32" "length x' < 2 ^ 32" for x y x' y' :: string
  proof -
    have "length (be32 m) = 4" for m by (simp add: be32_def)
    with that(1) have "be32 (int (length x)) = be32 (int (length x'))"
      and rest: "bytes_of x @ bytes_of y = bytes_of x' @ bytes_of y'" by (metis append_eq_append_conv)+
    then have "length x = length x'" using be32_inj [of "int (length x)" "int (length x')"] that(2,3) by simp
    with rest show ?thesis by simp
  qed
  define key where "key x y = be32 (int (length x)) @ bytes_of x @ bytes_of y" for x y :: string
  have unf: "denom_pair_key x y = denom_index_prefix # (if y < x then key y x else key x y)" for x y
    by (simp add: denom_pair_key_def key_def Let_def)
  have kinj: "key x y = key x' y' \<longleftrightarrow> x = x' \<and> y = y'" if "length x < 2 ^ 32" "length x' < 2 ^ 32" for x y x' y'
    using core [of x y x' y'] that by (auto simp: key_def)
  show ?thesis
    using assms by (auto simp: unf kinj split: if_splits)
qed

section \<open>Parameters (genesis.go)\<close>

definition default_params :: lp_params where
  "default_params =
     \<lparr>default_swap_fee_bps = 3000, max_pools = 16, min_initial_liquidity = ''10000000000'',
      twap_window_blocks = 1000, protocol_fee_bps = 0, min_reserve = ''1'',
      billing_quote_denoms = [], allowed_pool_denoms = [], pool_creators = []\<rparr>"

text \<open>The two loops over an admission list, with the set of entries seen so far.\<close>

fun check_denom_list :: "'b sdk \<Rightarrow> string list \<Rightarrow> string list \<Rightarrow> lp_error + unit" where
  "check_denom_list env seen [] = Inr ()"
| "check_denom_list env seen (d # ds) =
     (if \<not> valid_denom env d then Inl (ErrConfig ''invalid denom'')
      else if d = zrn_denom then Inl (ErrConfig ''cannot contain uzrn itself'')
      else if d \<in> set seen then Inl (ErrConfig ''duplicate denom'')
      else check_denom_list env (d # seen) ds)"

fun check_creator_list :: "'b sdk \<Rightarrow> string list \<Rightarrow> string list \<Rightarrow> lp_error + unit" where
  "check_creator_list env seen [] = Inr ()"
| "check_creator_list env seen (c # cs) =
     (if acc_address env c = None then Inl (ErrConfig ''invalid pool creator'')
      else if c \<in> set seen then Inl (ErrConfig ''duplicate pool creator'')
      else check_creator_list env (c # seen) cs)"

definition validate_params :: "'b sdk \<Rightarrow> lp_params \<Rightarrow> lp_error + unit" where
  "validate_params env p =
     (if max_swap_fee_bps < default_swap_fee_bps p then Inl (ErrConfig ''default_swap_fee_bps'')
      else if max_pools p = 0 \<or> max_pools_cap < max_pools p then Inl (ErrConfig ''max_pools'')
      else if twap_window_blocks p = 0 \<or> max_twap_window_blocks < twap_window_blocks p
        then Inl (ErrConfig ''twap_window_blocks'')
      else if protocol_fee_bps p \<noteq> 0 then Inl (ErrConfig ''protocol_fee_bps'')
      else bind_sum (parse_positive_amount (min_initial_liquidity p)) (\<lambda>_.
           bind_sum (parse_non_negative_amount (min_reserve p)) (\<lambda>_.
      if max_admission_entries < length (billing_quote_denoms p)
        then Inl (ErrConfig ''billing_quote_denoms'')
      else bind_sum (check_denom_list env [] (billing_quote_denoms p)) (\<lambda>_.
      if max_admission_entries < length (allowed_pool_denoms p)
        then Inl (ErrConfig ''allowed_pool_denoms'')
      else bind_sum (check_denom_list env [] (allowed_pool_denoms p)) (\<lambda>_.
      if max_admission_entries < length (pool_creators p)
        then Inl (ErrConfig ''pool_creators'')
      else check_creator_list env [] (pool_creators p))))))"

lemma check_denom_list_ok:
  "check_denom_list env seen ds = Inr u \<longleftrightarrow>
     list_all (valid_denom env) ds \<and> zrn_denom \<notin> set ds \<and> distinct ds \<and> set seen \<inter> set ds = {}"
  by (induction env seen ds rule: check_denom_list.induct) auto

lemma check_creator_list_ok:
  "check_creator_list env seen cs = Inr u \<longleftrightarrow>
     list_all (\<lambda>c. acc_address env c \<noteq> None) cs \<and> distinct cs \<and> set seen \<inter> set cs = {}"
  by (induction env seen cs rule: check_creator_list.induct) auto

text \<open>What an accepted parameter set satisfies, spelled out.\<close>

lemma validate_params_ok:
  "validate_params env p = Inr u \<longleftrightarrow>
     default_swap_fee_bps p \<le> max_swap_fee_bps \<and> max_pools p \<noteq> 0 \<and> max_pools p \<le> max_pools_cap \<and>
     twap_window_blocks p \<noteq> 0 \<and> twap_window_blocks p \<le> max_twap_window_blocks \<and>
     protocol_fee_bps p = 0 \<and>
     (\<exists>v. parse_positive_amount (min_initial_liquidity p) = Inr v) \<and>
     (\<exists>v. parse_non_negative_amount (min_reserve p) = Inr v) \<and>
     length (billing_quote_denoms p) \<le> max_admission_entries \<and>
     length (allowed_pool_denoms p) \<le> max_admission_entries \<and>
     length (pool_creators p) \<le> max_admission_entries \<and>
     list_all (valid_denom env) (billing_quote_denoms p @ allowed_pool_denoms p) \<and>
     zrn_denom \<notin> set (billing_quote_denoms p @ allowed_pool_denoms p) \<and>
     distinct (billing_quote_denoms p) \<and> distinct (allowed_pool_denoms p) \<and>
     distinct (pool_creators p) \<and> list_all (\<lambda>c. acc_address env c \<noteq> None) (pool_creators p)"
  unfolding validate_params_def
  by (simp add: bind_sum_Inr if_Inl_Inr check_denom_list_ok check_creator_list_ok not_less) blast

section \<open>Messages and their stateless validation (types.go)\<close>

record msg_create_pool =
  cp_creator :: string
  cp_denom_a :: string
  cp_denom_b :: string
  cp_amount_a :: string
  cp_amount_b :: string
  cp_swap_fee_bps :: u64

record msg_swap =
  sw_sender :: string
  sw_pool_id :: string
  sw_token_in_denom :: string
  sw_token_in_amount :: string
  sw_min_token_out :: string

record msg_add_liquidity =
  al_sender :: string
  al_pool_id :: string
  al_amount_a :: string
  al_amount_b :: string
  al_min_lp_tokens :: string

record msg_remove_liquidity =
  rl_sender :: string
  rl_pool_id :: string
  rl_lp_tokens :: string
  rl_min_amount_a :: string
  rl_min_amount_b :: string

record msg_update_params =
  up_authority :: string
  up_params :: "lp_params option"

record msg_set_pool_status =
  ss_authority :: string
  ss_pool_id :: string
  ss_status :: pool_status

definition validate_pool_denom :: "'b sdk \<Rightarrow> string \<Rightarrow> lp_error + unit" where
  "validate_pool_denom env d = (if valid_denom env d then Inr () else Inl ErrInvalidDenom)"

definition check_address :: "'b sdk \<Rightarrow> string \<Rightarrow> lp_error + addr" where
  "check_address env a = of_option ErrAddress (acc_address env a)"

definition check_pool_id :: "string \<Rightarrow> lp_error + u64" where
  "check_pool_id pid = of_option ErrPoolNotFound (parse_pool_id pid)"

definition validate_create_pool :: "'b sdk \<Rightarrow> msg_create_pool \<Rightarrow> lp_error + unit" where
  "validate_create_pool env m =
     bind_sum (check_address env (cp_creator m)) (\<lambda>_.
     bind_sum (validate_pool_denom env (cp_denom_a m)) (\<lambda>_.
     bind_sum (validate_pool_denom env (cp_denom_b m)) (\<lambda>_.
     if cp_denom_a m = cp_denom_b m then Inl ErrSameDenom
     else if cp_denom_a m \<noteq> zrn_denom \<and> cp_denom_b m \<noteq> zrn_denom then Inl ErrMissingZRNSide
     else bind_sum (parse_positive_amount (cp_amount_a m)) (\<lambda>_.
          bind_sum (parse_positive_amount (cp_amount_b m)) (\<lambda>_.
     if cp_swap_fee_bps m \<noteq> 0 then Inl ErrInvalidSwapFee else Inr ())))))"

definition validate_swap :: "'b sdk \<Rightarrow> msg_swap \<Rightarrow> lp_error + unit" where
  "validate_swap env m =
     bind_sum (check_address env (sw_sender m)) (\<lambda>_.
     if sw_pool_id m = [] then Inl ErrPoolNotFound
     else bind_sum (check_pool_id (sw_pool_id m)) (\<lambda>_.
          bind_sum (validate_pool_denom env (sw_token_in_denom m)) (\<lambda>_.
          bind_sum (parse_positive_amount (sw_token_in_amount m)) (\<lambda>_.
          bind_sum (parse_optional_positive_amount (sw_min_token_out m)) (\<lambda>_. Inr ())))))"

definition validate_add_liquidity :: "'b sdk \<Rightarrow> msg_add_liquidity \<Rightarrow> lp_error + unit" where
  "validate_add_liquidity env m =
     bind_sum (check_address env (al_sender m)) (\<lambda>_.
     if al_pool_id m = [] then Inl ErrPoolNotFound
     else bind_sum (check_pool_id (al_pool_id m)) (\<lambda>_.
          bind_sum (parse_positive_amount (al_amount_a m)) (\<lambda>_.
          bind_sum (parse_positive_amount (al_amount_b m)) (\<lambda>_.
          bind_sum (parse_optional_positive_amount (al_min_lp_tokens m)) (\<lambda>_. Inr ())))))"

definition validate_remove_liquidity :: "'b sdk \<Rightarrow> msg_remove_liquidity \<Rightarrow> lp_error + unit" where
  "validate_remove_liquidity env m =
     bind_sum (check_address env (rl_sender m)) (\<lambda>_.
     if rl_pool_id m = [] then Inl ErrPoolNotFound
     else bind_sum (check_pool_id (rl_pool_id m)) (\<lambda>_.
          bind_sum (parse_positive_amount (rl_lp_tokens m)) (\<lambda>_.
          bind_sum (parse_optional_positive_amount (rl_min_amount_a m)) (\<lambda>_.
          bind_sum (parse_optional_positive_amount (rl_min_amount_b m)) (\<lambda>_. Inr ())))))"

definition validate_update_params :: "'b sdk \<Rightarrow> msg_update_params \<Rightarrow> lp_error + unit" where
  "validate_update_params env m =
     bind_sum (check_address env (up_authority m)) (\<lambda>_.
     case up_params m of
       None \<Rightarrow> Inl (ErrConfig ''params cannot be nil'')
     | Some p \<Rightarrow> validate_params env p)"

definition validate_set_pool_status :: "'b sdk \<Rightarrow> msg_set_pool_status \<Rightarrow> lp_error + unit" where
  "validate_set_pool_status env m =
     bind_sum (check_address env (ss_authority m)) (\<lambda>_.
     bind_sum (check_pool_id (ss_pool_id m)) (\<lambda>_.
     case ss_status m of
       POOL_STATUS_ACTIVE \<Rightarrow> Inr ()
     | POOL_STATUS_SWAPS_PAUSED \<Rightarrow> Inr ()
     | POOL_STATUS_EXIT_ONLY \<Rightarrow> Inr ()
     | _ \<Rightarrow> Inl ErrInvalidPoolStatus))"

lemma check_address_Inr [simp]: "check_address env a = Inr x \<longleftrightarrow> acc_address env a = Some x"
  by (simp add: check_address_def)

lemma validate_pool_denom_Inr [simp]: "validate_pool_denom env d = Inr u \<longleftrightarrow> valid_denom env d"
  by (simp add: validate_pool_denom_def)

lemma validate_create_pool_Inr:
  "validate_create_pool env m = Inr u \<longleftrightarrow>
     acc_address env (cp_creator m) \<noteq> None \<and> valid_denom env (cp_denom_a m) \<and>
     valid_denom env (cp_denom_b m) \<and> cp_denom_a m \<noteq> cp_denom_b m \<and>
     (cp_denom_a m = zrn_denom \<or> cp_denom_b m = zrn_denom) \<and>
     (\<exists>a. parse_positive_amount (cp_amount_a m) = Inr a) \<and>
     (\<exists>b. parse_positive_amount (cp_amount_b m) = Inr b) \<and> cp_swap_fee_bps m = 0"
  unfolding validate_create_pool_def by (simp add: bind_sum_Inr if_Inl_Inr)

lemma validate_set_pool_status_Inr:
  "validate_set_pool_status env m = Inr u \<Longrightarrow> is_open_pool_status (ss_status m)"
  unfolding validate_set_pool_status_def
  by (cases "ss_status m") (auto simp: bind_sum_Inr)

section \<open>A well-formed pool record (genesis.go, validateGenesisPool)\<close>

definition validate_genesis_pool :: "'b sdk \<Rightarrow> pool \<Rightarrow> lp_error + unit" where
  "validate_genesis_pool env p =
     bind_sum (validate_pool_denom env (pool_denom_a p)) (\<lambda>_.
     bind_sum (validate_pool_denom env (pool_denom_b p)) (\<lambda>_.
     if pool_denom_a p = pool_denom_b p then Inl ErrSameDenom
     else if pool_denom_a p \<noteq> zrn_denom \<and> pool_denom_b p \<noteq> zrn_denom then Inl ErrMissingZRNSide
     else if max_swap_fee_bps < pool_swap_fee_bps p then Inl ErrInvalidSwapFee
     else if pool_lp_denom p \<noteq> lp_denom_of (pool_id p) then Inl (ErrConfig ''lp_denom'')
     else bind_sum (check_address env (pool_creator p)) (\<lambda>_.
     if pool_locked p then Inl (ErrConfig ''transient lock cannot be set in genesis'')
     else bind_sum (parse_non_negative_amount (pool_reserve_a p)) (\<lambda>reserve_a.
          bind_sum (parse_non_negative_amount (pool_reserve_b p)) (\<lambda>reserve_b.
          bind_sum (parse_non_negative_amount (pool_lp_token_supply p)) (\<lambda>supply.
     if is_open_pool_status (pool_status p) then
       (if reserve_a \<le> 0 \<or> reserve_b \<le> 0 \<or> supply \<le> 0
          then Inl (ErrConfig ''open pool reserves and LP supply must all be positive'')
        else if pool_closed_at p \<noteq> 0 then Inl (ErrConfig ''open pool cannot have closed_at_block'')
        else Inr ())
     else if pool_status p = POOL_STATUS_CLOSED then
       (if reserve_a \<noteq> 0 \<or> reserve_b \<noteq> 0 \<or> supply \<noteq> 0
          then Inl (ErrConfig ''closed pool reserves and LP supply must all be zero'')
        else if pool_closed_at p = 0 then Inl (ErrConfig ''closed_at_block'')
        else if pool_closed_at p < pool_created_at p then Inl (ErrConfig ''closed_at_block'')
        else Inr ())
     else Inl ErrInvalidPoolStatus))))))"

end
