(* ===== verification/LP_State.thy ===== *)
theory LP_State
  imports LP_Types
begin

text \<open>
  x/liquiditypool/keeper/{keeper,state,twap}.go: the store of the liquidity-pool module and the
  keeper operations on it.  The state has one store per key prefix; a pool and the two secondary
  indexes (denom pair to pool, open pools) are written together by \<open>set_pool\<close>, and the time
  weighted average price keeps one accumulator and a window of observations per open pool.

  The lemmas show that \<open>set_pool\<close> keeps the indexes in step with the records, that pruning and
  garbage collection remove exactly what they should, and what an update of the accumulator
  writes.
\<close>

section \<open>State\<close>

record 'b lp_state =
  lp_params_record :: "lp_params option"
  lp_pools :: "(string, pool) kv"
  lp_denom_index :: "(int list, string) kv"
  lp_open_index :: "(string, string) kv"
  lp_accs :: "(string, twap_accumulator) kv"
  lp_observations :: "(string \<times> u64, twap_observation) kv"
  lp_gc :: "(string, unit) kv"
  lp_counter :: "u64 option"
  lp_bank :: 'b

type_synonym ('b, 'a) lp_outcome = "('b lp_state, lp_error, 'a) outcome"

section \<open>Parameters and the pool counter (keeper.go)\<close>

definition get_params :: "'b lp_state \<Rightarrow> lp_params" where
  "get_params s = (case lp_params_record s of None \<Rightarrow> default_params | Some p \<Rightarrow> p)"

definition set_params :: "lp_params \<Rightarrow> 'b lp_state \<Rightarrow> 'b lp_state" where
  "set_params p s = s\<lparr>lp_params_record := Some p\<rparr>"

definition get_next_pool_id :: "'b lp_state \<Rightarrow> lp_error + u64" where
  "get_next_pool_id s =
     (case lp_counter s of None \<Rightarrow> Inr 1 | Some n \<Rightarrow> if n = 0 then Inl Panic else Inr n)"

definition set_next_pool_id :: "u64 \<Rightarrow> 'b lp_state \<Rightarrow> ('b, unit) lp_outcome" where
  "set_next_pool_id n s = (if n = 0 then Fail s Panic else Done (s\<lparr>lp_counter := Some n\<rparr>) ())"

definition increment_pool_counter :: "'b lp_state \<Rightarrow> ('b, u64) lp_outcome" where
  "increment_pool_counter s =
     try_in s (get_next_pool_id s) (\<lambda>current.
     if current = max_u64 then Fail s Panic
     else and_then (set_next_pool_id (current + 1) s) (\<lambda>s _. Done s current))"

section \<open>Pools and their indexes (state.go)\<close>

definition get_pool :: "'b lp_state \<Rightarrow> string \<Rightarrow> pool option" where
  "get_pool s pid = kv_get (lp_pools s) pid"

definition pool_pair_key :: "pool \<Rightarrow> int list" where
  "pool_pair_key p = denom_pair_key (pool_denom_a p) (pool_denom_b p)"

definition set_pool :: "pool \<Rightarrow> 'b lp_state \<Rightarrow> 'b lp_state" where
  "set_pool p s =
     (let s1 = (case get_pool s (pool_id p) of
                  None \<Rightarrow> s
                | Some previous \<Rightarrow>
                    s\<lparr>lp_denom_index := kv_del (pool_pair_key previous) (lp_denom_index s),
                      lp_open_index := kv_del (pool_id previous) (lp_open_index s)\<rparr>);
          s2 = s1\<lparr>lp_pools := kv_set (pool_id p) p (lp_pools s1)\<rparr>
      in if pool_status p \<noteq> POOL_STATUS_CLOSED
         then s2\<lparr>lp_denom_index := kv_set (pool_pair_key p) (pool_id p) (lp_denom_index s2),
                 lp_open_index := kv_set (pool_id p) (pool_id p) (lp_open_index s2)\<rparr>
         else s2)"

definition same_denom_pair :: "string \<Rightarrow> string \<Rightarrow> string \<Rightarrow> string \<Rightarrow> bool" where
  "same_denom_pair a1 b1 a2 b2 \<longleftrightarrow> (a1 = a2 \<and> b1 = b2) \<or> (a1 = b2 \<and> b1 = a2)"

definition get_pool_by_denoms :: "'b lp_state \<Rightarrow> string \<Rightarrow> string \<Rightarrow> pool option" where
  "get_pool_by_denoms s da db =
     (case kv_get (lp_denom_index s) (denom_pair_key da db) of
        None \<Rightarrow> None
      | Some pid \<Rightarrow>
          (case get_pool s pid of
             None \<Rightarrow> None
           | Some p \<Rightarrow>
               if pool_status p = POOL_STATUS_CLOSED then None
               else if \<not> same_denom_pair (pool_denom_a p) (pool_denom_b p) da db then None
               else Some p))"

text \<open>\<open>IterateOpenPools\<close>: the open pools in index order; a stale index entry panics.\<close>

fun resolve_open_pools :: "'b lp_state \<Rightarrow> string list \<Rightarrow> lp_error + pool list" where
  "resolve_open_pools s [] = Inr []"
| "resolve_open_pools s (pid # pids) =
     (case get_pool s pid of
        None \<Rightarrow> Inl Panic
      | Some p \<Rightarrow>
          if pool_status p = POOL_STATUS_CLOSED then Inl Panic
          else bind_sum (resolve_open_pools s pids) (\<lambda>ps. Inr (p # ps)))"

definition iterate_open_pools :: "'b lp_state \<Rightarrow> lp_error + pool list" where
  "iterate_open_pools s = resolve_open_pools s (map snd (lp_open_index s))"

definition count_pools :: "'b lp_state \<Rightarrow> u64" where
  "count_pools s = of_nat (length (lp_pools s))"

definition count_open_pools :: "'b lp_state \<Rightarrow> lp_error + u64" where
  "count_open_pools s = bind_sum (iterate_open_pools s) (\<lambda>ps. Inr (of_nat (length ps)))"

section \<open>Average-price records (state.go)\<close>

definition set_twap_accumulator :: "twap_accumulator \<Rightarrow> 'b lp_state \<Rightarrow> 'b lp_state" where
  "set_twap_accumulator a s = s\<lparr>lp_accs := kv_set (acc_pool_id a) a (lp_accs s)\<rparr>"

definition get_twap_accumulator :: "'b lp_state \<Rightarrow> string \<Rightarrow> twap_accumulator option" where
  "get_twap_accumulator s pid = kv_get (lp_accs s) pid"

definition set_twap_observation :: "twap_observation \<Rightarrow> 'b lp_state \<Rightarrow> 'b lp_state" where
  "set_twap_observation ob s =
     s\<lparr>lp_observations := kv_set (obs_pool_id ob, obs_block_height ob) ob (lp_observations s)\<rparr>"

text \<open>The entries an iterator over one pool's observation prefix visits, in height order.\<close>

definition observation_entries :: "'b lp_state \<Rightarrow> string \<Rightarrow> ((string \<times> u64) \<times> twap_observation) list" where
  "observation_entries s pid = filter (\<lambda>e. fst (fst e) = pid) (lp_observations s)"

definition delete_observations :: "(string \<times> u64) list \<Rightarrow> 'b lp_state \<Rightarrow> 'b lp_state" where
  "delete_observations ks s = s\<lparr>lp_observations := fold kv_del ks (lp_observations s)\<rparr>"

definition delete_twap_history :: "string \<Rightarrow> 'b lp_state \<Rightarrow> 'b lp_state" where
  "delete_twap_history pid s =
     (let s1 = s\<lparr>lp_accs := kv_del pid (lp_accs s)\<rparr>;
          s2 = delete_observations (map fst (observation_entries s1 pid)) s1
      in s2\<lparr>lp_gc := kv_del pid (lp_gc s2)\<rparr>)"

definition delete_pool :: "pool \<Rightarrow> 'b lp_state \<Rightarrow> 'b lp_state" where
  "delete_pool p s =
     delete_twap_history (pool_id p)
       (s\<lparr>lp_pools := kv_del (pool_id p) (lp_pools s),
          lp_denom_index := kv_del (pool_pair_key p) (lp_denom_index s),
          lp_open_index := kv_del (pool_id p) (lp_open_index s)\<rparr>)"

definition schedule_twap_history_deletion :: "string \<Rightarrow> 'b lp_state \<Rightarrow> 'b lp_state" where
  "schedule_twap_history_deletion pid s =
     s\<lparr>lp_accs := kv_del pid (lp_accs s), lp_gc := kv_set pid () (lp_gc s)\<rparr>"

definition is_twap_history_deletion_scheduled :: "'b lp_state \<Rightarrow> string \<Rightarrow> bool" where
  "is_twap_history_deletion_scheduled s pid \<longleftrightarrow> kv_get (lp_gc s) pid \<noteq> None"

definition delete_secondary_indexes :: "'b lp_state \<Rightarrow> 'b lp_state" where
  "delete_secondary_indexes s =
     s\<lparr>lp_denom_index := fold kv_del (map fst (lp_denom_index s)) (lp_denom_index s),
       lp_open_index := fold kv_del (map fst (lp_open_index s)) (lp_open_index s)\<rparr>"

section \<open>Average price (twap.go)\<close>

definition twap_scale :: int where
  "twap_scale = 1000000000000"

definition twap_gc_deletes_per_block :: nat where
  "twap_gc_deletes_per_block = 64"

definition twap_gc_markers_per_block :: nat where
  "twap_gc_markers_per_block = 64"

text \<open>The loop over the queued pools, with the number of deletions left in this block.\<close>

fun collect_markers :: "string list \<Rightarrow> nat \<Rightarrow> 'b lp_state \<Rightarrow> 'b lp_state" where
  "collect_markers [] remaining s = s"
| "collect_markers (pid # pids) remaining s =
     (let entries = observation_entries s pid;
          keys = take remaining (map fst entries);
          has_more = drop remaining entries \<noteq> [];
          s1 = delete_observations keys s;
          remaining' = remaining - length keys;
          s2 = (if \<not> has_more then s1\<lparr>lp_gc := kv_del pid (lp_gc s1)\<rparr> else s1)
      in if remaining' = 0 then s2 else collect_markers pids remaining' s2)"

definition process_twap_garbage_collection :: "'b lp_state \<Rightarrow> ('b, unit) lp_outcome" where
  "process_twap_garbage_collection s =
     (let markers = take twap_gc_markers_per_block (map fst (lp_gc s))
      in if [] \<in> set markers then Fail s Panic
         else Done (collect_markers markers twap_gc_deletes_per_block s) ())"

definition prune_twap_observations :: "string \<Rightarrow> u64 \<Rightarrow> u64 \<Rightarrow> 'b lp_state \<Rightarrow> 'b lp_state" where
  "prune_twap_observations pid current_block retention s =
     (if current_block \<le> retention then s
      else
        let cutoff = current_block - retention;
            keys = takeWhile (\<lambda>k. snd k < cutoff) (map fst (observation_entries s pid))
        in delete_observations keys s)"

definition update_twap_accumulator :: "int \<Rightarrow> pool \<Rightarrow> 'b lp_state \<Rightarrow> ('b, unit) lp_outcome" where
  "update_twap_accumulator height p s =
     (if pool_status p = POOL_STATUS_CLOSED then Done s ()
      else if height < 0 then Fail s Panic
      else
        let current_block = to_u64 height in
        case get_twap_accumulator s (pool_id p) of
          None \<Rightarrow>
            Done (set_twap_observation
                    \<lparr>obs_pool_id = pool_id p, obs_block_height = current_block,
                     obs_cum_a_to_b = ''0'', obs_cum_b_to_a = ''0''\<rparr>
                    (set_twap_accumulator
                       \<lparr>acc_pool_id = pool_id p, acc_last_block = current_block,
                        acc_cum_a_to_b = ''0'', acc_cum_b_to_a = ''0'', acc_start_block = current_block\<rparr> s)) ()
        | Some acc \<Rightarrow>
            if current_block \<le> acc_last_block acc then Done s ()
            else
              try_in s (map_err (\<lambda>_. Panic) (parse_positive_amount (pool_reserve_a p))) (\<lambda>reserve_a.
              try_in s (map_err (\<lambda>_. Panic) (parse_positive_amount (pool_reserve_b p))) (\<lambda>reserve_b.
              try_in s (map_err (\<lambda>_. Panic) (parse_cumulative_amount (acc_cum_a_to_b acc))) (\<lambda>cum_a_to_b.
              try_in s (map_err (\<lambda>_. Panic) (parse_cumulative_amount (acc_cum_b_to_a acc))) (\<lambda>cum_b_to_a.
              let blocks_delta = current_block - acc_last_block acc;
                  price_a_to_b = (reserve_b * twap_scale) div reserve_a * uint blocks_delta;
                  price_b_to_a = (reserve_a * twap_scale) div reserve_b * uint blocks_delta;
                  acc' = acc\<lparr>acc_cum_a_to_b := big_string (cum_a_to_b + price_a_to_b),
                             acc_cum_b_to_a := big_string (cum_b_to_a + price_b_to_a),
                             acc_last_block := current_block\<rparr>;
                  s1 = set_twap_accumulator acc' s;
                  s2 = set_twap_observation
                         \<lparr>obs_pool_id = pool_id p, obs_block_height = current_block,
                          obs_cum_a_to_b = acc_cum_a_to_b acc', obs_cum_b_to_a = acc_cum_b_to_a acc'\<rparr> s1
              in Done (prune_twap_observations (pool_id p) current_block
                         (twap_window_blocks (get_params s2)) s2) ())))))"

definition spot_price_of :: "pool \<Rightarrow> string \<Rightarrow> lp_error + (int \<times> u64)" where
  "spot_price_of p base_denom =
     (if base_denom \<noteq> pool_denom_a p \<and> base_denom \<noteq> pool_denom_b p then Inl ErrDenomNotInPool
      else
        bind_sum (map_err (\<lambda>_. ErrInvalidPoolState) (parse_positive_amount (pool_reserve_a p))) (\<lambda>reserve_a.
        bind_sum (map_err (\<lambda>_. ErrInvalidPoolState) (parse_positive_amount (pool_reserve_b p))) (\<lambda>reserve_b.
        if base_denom = pool_denom_a p then Inr ((reserve_b * 1000000) div reserve_a, 0)
        else Inr ((reserve_a * 1000000) div reserve_b, 0))))"

definition get_spot_price :: "'b lp_state \<Rightarrow> string \<Rightarrow> string \<Rightarrow> lp_error + int" where
  "get_spot_price s pid base_denom =
     bind_sum (of_option ErrPoolNotFound (get_pool s pid)) (\<lambda>p.
     if pool_status p = POOL_STATUS_CLOSED then Inl ErrPoolNotActive
     else bind_sum (spot_price_of p base_denom) (\<lambda>r. Inr (fst r)))"

definition cumulative_for_base :: "string \<Rightarrow> string \<Rightarrow> bool \<Rightarrow> lp_error + int" where
  "cumulative_for_base a_to_b b_to_a base_is_a =
     parse_cumulative_amount (if base_is_a then a_to_b else b_to_a)"

definition get_twap :: "'b lp_state \<Rightarrow> string \<Rightarrow> string \<Rightarrow> u64 \<Rightarrow> lp_error + (int \<times> u64)" where
  "get_twap s pid base_denom window0 =
     bind_sum (of_option ErrPoolNotFound (get_pool s pid)) (\<lambda>p.
     if pool_status p = POOL_STATUS_CLOSED then Inl ErrPoolNotActive
     else if base_denom \<noteq> pool_denom_a p \<and> base_denom \<noteq> pool_denom_b p then Inl ErrDenomNotInPool
     else
       let retention = twap_window_blocks (get_params s);
           window = (if window0 = 0 then retention else window0)
       in if retention < window then Inl ErrTWAPWindowUnavailable
          else case get_twap_accumulator s pid of
            None \<Rightarrow> spot_price_of p base_denom
          | Some acc \<Rightarrow>
              bind_sum (map_err (\<lambda>_. ErrInvalidPoolState)
                (cumulative_for_base (acc_cum_a_to_b acc) (acc_cum_b_to_a acc) (base_denom = pool_denom_a p)))
              (\<lambda>current_cum.
              let target = (if window < acc_last_block acc then acc_last_block acc - window else 0)
              in case find (\<lambda>ob. target \<le> obs_block_height ob) (map snd (observation_entries s pid)) of
                   None \<Rightarrow> spot_price_of p base_denom
                 | Some selected \<Rightarrow>
                     if acc_last_block acc \<le> obs_block_height selected then spot_price_of p base_denom
                     else
                       bind_sum (map_err (\<lambda>_. ErrInvalidPoolState)
                         (cumulative_for_base (obs_cum_a_to_b selected) (obs_cum_b_to_a selected)
                            (base_denom = pool_denom_a p)))
                       (\<lambda>previous_cum.
                       if current_cum < previous_cum then Inl ErrInvalidPoolState
                       else
                         let span = acc_last_block acc - obs_block_height selected;
                             delta = current_cum - previous_cum
                         in Inr ((delta * 1000000) div (uint span * twap_scale), span))))"

section \<open>What the writes leave alone\<close>

lemma set_pool_fields [simp]:
  "lp_pools (set_pool p s) = kv_set (pool_id p) p (lp_pools s)"
  "lp_params_record (set_pool p s) = lp_params_record s"
  "lp_accs (set_pool p s) = lp_accs s"
  "lp_observations (set_pool p s) = lp_observations s"
  "lp_gc (set_pool p s) = lp_gc s"
  "lp_counter (set_pool p s) = lp_counter s"
  "lp_bank (set_pool p s) = lp_bank s"
  by (auto simp: set_pool_def Let_def split: option.splits)

lemma get_pool_set_pool [simp]: "get_pool (set_pool p s) k = (if k = pool_id p then Some p else get_pool s k)"
  by (simp add: get_pool_def)

lemma set_twap_fields [simp]:
  "lp_pools (set_twap_accumulator a s) = lp_pools s" "lp_pools (set_twap_observation ob s) = lp_pools s"
  "lp_denom_index (set_twap_accumulator a s) = lp_denom_index s"
  "lp_denom_index (set_twap_observation ob s) = lp_denom_index s"
  "lp_open_index (set_twap_accumulator a s) = lp_open_index s"
  "lp_open_index (set_twap_observation ob s) = lp_open_index s"
  "lp_gc (set_twap_accumulator a s) = lp_gc s" "lp_gc (set_twap_observation ob s) = lp_gc s"
  "lp_counter (set_twap_accumulator a s) = lp_counter s" "lp_counter (set_twap_observation ob s) = lp_counter s"
  "lp_bank (set_twap_accumulator a s) = lp_bank s" "lp_bank (set_twap_observation ob s) = lp_bank s"
  "lp_params_record (set_twap_accumulator a s) = lp_params_record s"
  "lp_params_record (set_twap_observation ob s) = lp_params_record s"
  "lp_observations (set_twap_accumulator a s) = lp_observations s"
  "lp_accs (set_twap_observation ob s) = lp_accs s"
  "lp_accs (set_twap_accumulator a s) = kv_set (acc_pool_id a) a (lp_accs s)"
  "lp_observations (set_twap_observation ob s) =
     kv_set (obs_pool_id ob, obs_block_height ob) ob (lp_observations s)"
  by (simp_all add: set_twap_accumulator_def set_twap_observation_def)

lemma fold_kv_del: "fold kv_del ks m = filter (\<lambda>e. fst e \<notin> set ks) m"
  by (induction ks arbitrary: m) (auto simp: kv_del_def intro: filter_cong)

lemma delete_observations_fields [simp]:
  "lp_pools (delete_observations ks s) = lp_pools s"
  "lp_denom_index (delete_observations ks s) = lp_denom_index s"
  "lp_open_index (delete_observations ks s) = lp_open_index s"
  "lp_gc (delete_observations ks s) = lp_gc s" "lp_counter (delete_observations ks s) = lp_counter s"
  "lp_bank (delete_observations ks s) = lp_bank s" "lp_accs (delete_observations ks s) = lp_accs s"
  "lp_params_record (delete_observations ks s) = lp_params_record s"
  "lp_observations (delete_observations ks s) = filter (\<lambda>e. fst e \<notin> set ks) (lp_observations s)"
  by (simp_all add: delete_observations_def fold_kv_del)

lemma prune_fields [simp]:
  "lp_pools (prune_twap_observations pid c r s) = lp_pools s"
  "lp_denom_index (prune_twap_observations pid c r s) = lp_denom_index s"
  "lp_open_index (prune_twap_observations pid c r s) = lp_open_index s"
  "lp_gc (prune_twap_observations pid c r s) = lp_gc s"
  "lp_counter (prune_twap_observations pid c r s) = lp_counter s"
  "lp_bank (prune_twap_observations pid c r s) = lp_bank s"
  "lp_accs (prune_twap_observations pid c r s) = lp_accs s"
  "lp_params_record (prune_twap_observations pid c r s) = lp_params_record s"
  by (simp_all add: prune_twap_observations_def Let_def)

text \<open>Two states that differ at most in the average-price records of pools.\<close>

definition same_but_twap :: "'b lp_state \<Rightarrow> 'b lp_state \<Rightarrow> bool" where
  "same_but_twap s s' \<longleftrightarrow>
     lp_pools s' = lp_pools s \<and> lp_denom_index s' = lp_denom_index s \<and> lp_open_index s' = lp_open_index s \<and>
     lp_gc s' = lp_gc s \<and> lp_counter s' = lp_counter s \<and> lp_bank s' = lp_bank s \<and>
     lp_params_record s' = lp_params_record s"

lemma same_but_twap_refl [simp]: "same_but_twap s s"
  by (simp add: same_but_twap_def)

lemma same_but_twapD:
  assumes "same_but_twap s s'"
  shows "lp_pools s' = lp_pools s" "lp_denom_index s' = lp_denom_index s" "lp_open_index s' = lp_open_index s"
    "lp_gc s' = lp_gc s" "lp_counter s' = lp_counter s" "lp_bank s' = lp_bank s"
    "lp_params_record s' = lp_params_record s" "get_params s' = get_params s" "get_pool s' = get_pool s"
  using assms by (simp_all add: same_but_twap_def get_params_def get_pool_def fun_eq_iff)

lemma update_twap_frame:
  "update_twap_accumulator h p s = Done s' u \<Longrightarrow> same_but_twap s s'"
  unfolding update_twap_accumulator_def
  by (auto simp: same_but_twap_def Let_def outcome_simps split: if_splits option.splits)

lemma update_twap_Fail: "update_twap_accumulator h p s = Fail s' e \<Longrightarrow> s' = s"
  unfolding update_twap_accumulator_def try_in_def
  by (auto simp: Let_def split: if_splits option.splits sum.splits)

section \<open>The indexes follow the records\<close>

definition is_live :: "pool \<Rightarrow> bool" where
  "is_live p \<longleftrightarrow> pool_status p \<noteq> POOL_STATUS_CLOSED"

definition index_ok :: "'b lp_state \<Rightarrow> bool" where
  "index_ok s \<longleftrightarrow>
     kv_ok (lp_pools s) \<and> kv_ok (lp_denom_index s) \<and> kv_ok (lp_open_index s) \<and>
     (\<forall>k p. get_pool s k = Some p \<longrightarrow> pool_id p = k) \<and>
     (\<forall>k v. kv_get (lp_open_index s) k = Some v \<longleftrightarrow> v = k \<and> (\<exists>p. get_pool s k = Some p \<and> is_live p)) \<and>
     (\<forall>k v. kv_get (lp_denom_index s) k = Some v \<longleftrightarrow>
        (\<exists>p. get_pool s v = Some p \<and> is_live p \<and> pool_pair_key p = k))"

lemma index_okD:
  assumes "index_ok s"
  shows "kv_ok (lp_pools s)" "kv_ok (lp_denom_index s)" "kv_ok (lp_open_index s)"
    and "get_pool s k = Some p \<Longrightarrow> pool_id p = k"
    and "kv_get (lp_open_index s) k = Some v \<longleftrightarrow> v = k \<and> (\<exists>p. get_pool s k = Some p \<and> is_live p)"
    and "kv_get (lp_denom_index s) c = Some v \<longleftrightarrow>
        (\<exists>p. get_pool s v = Some p \<and> is_live p \<and> pool_pair_key p = c)"
  using assms unfolding index_ok_def by simp_all

lemma denom_index_set_pool:
  "kv_get (lp_denom_index (set_pool p s)) c =
     (if is_live p \<and> c = pool_pair_key p then Some (pool_id p)
      else case get_pool s (pool_id p) of
             None \<Rightarrow> kv_get (lp_denom_index s) c
           | Some q \<Rightarrow> if c = pool_pair_key q then None else kv_get (lp_denom_index s) c)"
  by (auto simp: set_pool_def Let_def is_live_def split: option.splits)

lemma open_index_set_pool:
  "kv_get (lp_open_index (set_pool p s)) k =
     (if is_live p \<and> k = pool_id p then Some (pool_id p)
      else case get_pool s (pool_id p) of
             None \<Rightarrow> kv_get (lp_open_index s) k
           | Some q \<Rightarrow> if k = pool_id q then None else kv_get (lp_open_index s) k)"
  by (auto simp: set_pool_def Let_def is_live_def split: option.splits)

lemma kv_ok_set_pool:
  "index_ok s \<Longrightarrow> kv_ok (lp_denom_index (set_pool p s)) \<and> kv_ok (lp_open_index (set_pool p s))"
  by (auto simp: set_pool_def Let_def index_ok_def split: option.splits)

text \<open>
  No live pool other than \<open>p\<close> trades the pair of \<open>p\<close>, and the record that \<open>p\<close> replaces is not a
  tombstone: under these two conditions \<open>SetPool\<close> keeps both indexes exact.
\<close>

definition pair_free_for :: "'b lp_state \<Rightarrow> pool \<Rightarrow> bool" where
  "pair_free_for s p \<longleftrightarrow>
     (\<forall>k q. get_pool s k = Some q \<longrightarrow> is_live q \<longrightarrow> pool_pair_key q = pool_pair_key p \<longrightarrow> k = pool_id p)"

lemma set_pool_index_ok:
  assumes ok: "index_ok s"
    and prev: "\<And>q. get_pool s (pool_id p) = Some q \<Longrightarrow> is_live q"
    and free: "is_live p \<Longrightarrow> pair_free_for s p"
  shows "index_ok (set_pool p s)"
proof -
  note D = index_okD [OF ok]
  have pids: "get_pool (set_pool p s) k = Some q \<Longrightarrow> pool_id q = k" for k q
    using D(4) by (auto split: if_splits)
  have openi: "kv_get (lp_open_index (set_pool p s)) k = Some v \<longleftrightarrow>
      v = k \<and> (\<exists>q. get_pool (set_pool p s) k = Some q \<and> is_live q)" for k v
    using D(4) D(5) [of k v] by (auto simp: open_index_set_pool split: option.splits if_splits)
  have denomi: "kv_get (lp_denom_index (set_pool p s)) c = Some v \<longleftrightarrow>
      (\<exists>q. get_pool (set_pool p s) v = Some q \<and> is_live q \<and> pool_pair_key q = c)" for c v
  proof (cases "is_live p \<and> c = pool_pair_key p")
    case True
    with free show ?thesis by (auto simp: denom_index_set_pool pair_free_for_def)
  next
    case False
    show ?thesis
    proof (cases "get_pool s (pool_id p)")
      case None
      with False D(6) [of c v] show ?thesis by (auto simp: denom_index_set_pool)
    next
      case (Some q0)
      with prev have live: "is_live q0" by simp
      with Some D(6) [of "pool_pair_key q0" "pool_id p"]
      have "kv_get (lp_denom_index s) (pool_pair_key q0) = Some (pool_id p)" by blast
      with D(6) [of "pool_pair_key q0" v]
      have uniq: "get_pool s v = Some q \<Longrightarrow> is_live q \<Longrightarrow> pool_pair_key q = pool_pair_key q0 \<Longrightarrow> v = pool_id p" for q
        by auto
      from False Some D(6) [of c v] uniq show ?thesis by (auto simp: denom_index_set_pool)
    qed
  qed
  from D(1) pids openi denomi kv_ok_set_pool [OF ok] show ?thesis
    unfolding index_ok_def by (simp only: set_pool_fields) (auto simp del: get_pool_set_pool)
qed

lemma same_but_twap_index_ok: "same_but_twap s s' \<Longrightarrow> index_ok s' = index_ok s"
  by (simp add: index_ok_def same_but_twapD)

text \<open>Under exact indexes the open-pool iteration does not panic and visits exactly the live pools.\<close>

lemma resolve_open_pools_ok:
  "(\<And>k. k \<in> set ks \<Longrightarrow> \<exists>p. get_pool s k = Some p \<and> is_live p) \<Longrightarrow>
    resolve_open_pools s ks = Inr (map (\<lambda>k. the (get_pool s k)) ks)"
proof (induction ks)
  case (Cons k ks)
  then obtain p where "get_pool s k = Some p" "is_live p" by auto
  with Cons show ?case by (simp add: is_live_def)
qed simp

lemma iterate_open_pools_ok:
  assumes "index_ok s"
  obtains ps where "iterate_open_pools s = Inr ps"
    and "set ps = {p. is_live p \<and> get_pool s (pool_id p) = Some p}"
    and "length ps = length (lp_open_index s)"
proof -
  note D = index_okD [OF assms]
  have entry: "snd e = fst e \<and> (\<exists>p. get_pool s (fst e) = Some p \<and> is_live p)" if "e \<in> set (lp_open_index s)" for e
    using that D(5) [of "fst e" "snd e"] kv_get_mem [OF D(3), of "fst e" "snd e"] by simp
  have "resolve_open_pools s (map snd (lp_open_index s))
      = Inr (map (\<lambda>k. the (get_pool s k)) (map snd (lp_open_index s)))"
    using entry by (intro resolve_open_pools_ok) auto
  then have it: "iterate_open_pools s = Inr (map (\<lambda>e. the (get_pool s (snd e))) (lp_open_index s))"
    by (simp add: iterate_open_pools_def comp_def)
  have "p \<in> (\<lambda>e. the (get_pool s (snd e))) ` set (lp_open_index s)"
    if "is_live p" "get_pool s (pool_id p) = Some p" for p
  proof -
    from that D(5) [of "pool_id p" "pool_id p"] have "(pool_id p, pool_id p) \<in> set (lp_open_index s)"
      by (auto dest: kv_get_in_set)
    with that show ?thesis by force
  qed
  moreover have "is_live p \<and> get_pool s (pool_id p) = Some p"
    if "p \<in> (\<lambda>e. the (get_pool s (snd e))) ` set (lp_open_index s)" for p
    using that entry D(4) by fastforce
  ultimately show ?thesis using that it by auto
qed

end
