(* ===== verification/LP_Msgs.thy ===== *)
theory LP_Msgs
  imports LP_Amm LP_State
begin

text \<open>
  x/liquiditypool/keeper/{quote,msg_server}.go, the price oracle of keeper.go and the block hook
  of module.go: one definition per handler, with every guard in the order of the code and every
  write, including the transient lock on a pool and its release on the error paths.

  \<open>env\<close> is the SDK of theory Bank, \<open>height\<close> the block height of the context, \<open>authority\<close> the
  governance address of the keeper.
\<close>

section \<open>Bank calls\<close>

definition with_bank :: "('b \<Rightarrow> ('b, string, unit) outcome) \<Rightarrow> 'b lp_state \<Rightarrow> ('b, unit) lp_outcome" where
  "with_bank f s =
     (case f (lp_bank s) of
        Done b u \<Rightarrow> Done (s\<lparr>lp_bank := b\<rparr>) ()
      | Fail b e \<Rightarrow> Fail (s\<lparr>lp_bank := b\<rparr>) (ErrBank e))"

text \<open>\<open>if err != nil { unlock(); return err }\<close>\<close>

definition on_fail :: "('s \<Rightarrow> 's) \<Rightarrow> ('s, 'e, 'a) outcome \<Rightarrow> ('s, 'e, 'a) outcome" where
  "on_fail f r = (case r of Done s a \<Rightarrow> Done s a | Fail s e \<Rightarrow> Fail (f s) e)"

definition lp_module_name :: string where
  "lp_module_name = ''liquiditypool''"

definition require_coins :: "'b sdk \<Rightarrow> coins \<Rightarrow> lp_error + coins" where
  "require_coins env cs = of_option Panic (new_coins env cs)"

definition require_send_enabled :: "'b sdk \<Rightarrow> 'b \<Rightarrow> coins \<Rightarrow> lp_error + unit" where
  "require_send_enabled env b cs = (if bank_send_enabled env b cs then Inr () else Inl ErrSendDisabled)"

definition state_amount :: "(string \<Rightarrow> lp_error + int) \<Rightarrow> string \<Rightarrow> lp_error + int" where
  "state_amount parse v = map_err (\<lambda>_. ErrInvalidPoolState) (parse v)"

text \<open>\<open>minimum != nil && value.Cmp(minimum) < 0\<close>\<close>

definition below_minimum :: "int \<Rightarrow> int option \<Rightarrow> bool" where
  "below_minimum v minimum = (case minimum of None \<Rightarrow> False | Some x \<Rightarrow> v < x)"

lemma below_minimum_Some [simp]: "below_minimum v (Some x) \<longleftrightarrow> v < x"
  by (simp add: below_minimum_def)

lemma with_bank_Done [outcome_simps]:
  "with_bank f s = Done s' u \<longleftrightarrow> (\<exists>b'. f (lp_bank s) = Done b' () \<and> s' = s\<lparr>lp_bank := b'\<rparr>)"
  by (auto simp: with_bank_def split: outcome.splits)

lemma on_fail_Done [outcome_simps]: "on_fail f r = Done s a \<longleftrightarrow> r = Done s a"
  by (auto simp: on_fail_def split: outcome.splits)

lemma require_coins_Inr [outcome_simps]: "require_coins env cs = Inr cs' \<longleftrightarrow> new_coins env cs = Some cs'"
  by (simp add: require_coins_def)

lemma require_send_enabled_Inr [outcome_simps]: "require_send_enabled env b cs = Inr u \<longleftrightarrow> bank_send_enabled env b cs"
  by (simp add: require_send_enabled_def)

lemma state_amount_Inr [outcome_simps]: "state_amount f v = Inr x \<longleftrightarrow> f v = Inr x"
  by (simp add: state_amount_def)

section \<open>Quotes (quote.go)\<close>

record swap_quote =
  q_pool :: pool
  q_reserve_in :: int
  q_reserve_out :: int
  q_token_in :: int
  q_token_out :: int
  q_fee_amount :: int
  q_denom_out :: string

text \<open>The switch on the input denom: input reserve, output reserve, output denom.\<close>

definition swap_side :: "pool \<Rightarrow> string \<Rightarrow> int \<Rightarrow> int \<Rightarrow> lp_error + (int \<times> int \<times> string)" where
  "swap_side p token_in_denom reserve_a reserve_b =
     (if token_in_denom = pool_denom_a p then Inr (reserve_a, reserve_b, pool_denom_b p)
      else if token_in_denom = pool_denom_b p then Inr (reserve_b, reserve_a, pool_denom_a p)
      else Inl ErrDenomNotInPool)"

definition checked_swap_quote ::
  "'b sdk \<Rightarrow> 'b lp_state \<Rightarrow> string \<Rightarrow> string \<Rightarrow> string \<Rightarrow> lp_error + swap_quote" where
  "checked_swap_quote env s pid token_in_denom token_in_amount =
     bind_sum (of_option ErrPoolNotFound (get_pool s pid)) (\<lambda>p.
     if \<not> can_swap (pool_status p) then Inl ErrPoolNotActive
     else if pool_locked p then Inl ErrPoolLocked
     else bind_sum (validate_pool_denom env token_in_denom) (\<lambda>_.
          bind_sum (parse_positive_amount token_in_amount) (\<lambda>token_in.
          bind_sum (state_amount parse_positive_amount (pool_reserve_a p)) (\<lambda>reserve_a.
          bind_sum (state_amount parse_positive_amount (pool_reserve_b p)) (\<lambda>reserve_b.
          bind_sum (swap_side p token_in_denom reserve_a reserve_b) (\<lambda>(reserve_in, reserve_out, denom_out).
          let (token_out, fee_amount) =
                calculate_swap_output reserve_in reserve_out token_in (pool_swap_fee_bps p)
          in if token_out \<le> 0 then Inl ErrZeroSwapOutput
             else bind_sum (state_amount parse_non_negative_amount (min_reserve (get_params s))) (\<lambda>floor.
             if reserve_out - token_out < floor then Inl ErrReserveBelowMinimum
             else bind_sum (of_option Panic (coin_slice env [(token_in_denom, token_in), (denom_out, token_out)]))
               (\<lambda>send_coins.
             bind_sum (require_send_enabled env (lp_bank s) send_coins) (\<lambda>_.
             Inr \<lparr>q_pool = p, q_reserve_in = reserve_in, q_reserve_out = reserve_out,
                  q_token_in = token_in, q_token_out = token_out, q_fee_amount = fee_amount,
                  q_denom_out = denom_out\<rparr>)))))))))"

record swap_result =
  sr_token_out_denom :: string
  sr_token_out_amount :: string
  sr_fee_amount :: string
  sr_price_impact_bps :: u64

definition public_swap_quote ::
  "'b sdk \<Rightarrow> 'b lp_state \<Rightarrow> string \<Rightarrow> string \<Rightarrow> string \<Rightarrow> lp_error + swap_result" where
  "public_swap_quote env s pid token_in_denom token_in_amount =
     bind_sum (checked_swap_quote env s pid token_in_denom token_in_amount) (\<lambda>q.
     Inr \<lparr>sr_token_out_denom = q_denom_out q,
          sr_token_out_amount = big_string (q_token_out q),
          sr_fee_amount = big_string (q_fee_amount q),
          sr_price_impact_bps = calculate_price_impact_bps_with_fee (q_reserve_in q) (q_reserve_out q)
             (q_token_in q) (q_token_out q) (pool_swap_fee_bps (q_pool q))\<rparr>)"

section \<open>Messages (msg_server.go)\<close>

definition create_pool ::
  "'b sdk \<Rightarrow> int \<Rightarrow> msg_create_pool \<Rightarrow> 'b lp_state \<Rightarrow> ('b, string) lp_outcome" where
  "create_pool env height m s =
     try_in s (validate_create_pool env m) (\<lambda>_.
     let params = get_params s in
     if cp_swap_fee_bps m \<noteq> 0 then Fail s ErrInvalidSwapFee
     else if cp_creator m \<notin> set (pool_creators params) then Fail s ErrPoolCreatorNotAllowed
     else
       let counter_denom = (if cp_denom_a m = zrn_denom then cp_denom_b m else cp_denom_a m);
           admission_index = length (takeWhile (\<lambda>d. d \<noteq> counter_denom) (allowed_pool_denoms params))
       in
     if admission_index = length (allowed_pool_denoms params) then Fail s ErrPoolDenomNotAllowed
     else try_in s (count_open_pools s) (\<lambda>open_count.
     if max_pools params \<le> open_count then Fail s ErrMaxPoolsReached
     else if get_pool_by_denoms s (cp_denom_a m) (cp_denom_b m) \<noteq> None then Fail s ErrPoolAlreadyExists
     else try_in s (parse_positive_amount (cp_amount_a m)) (\<lambda>amount_a.
          try_in s (parse_positive_amount (cp_amount_b m)) (\<lambda>amount_b.
     let zrn_amount = (if cp_denom_a m = zrn_denom then amount_a else amount_b) in
     try_in s (state_amount parse_positive_amount (min_initial_liquidity params)) (\<lambda>min_liquidity.
     if zrn_amount < min_liquidity then Fail s ErrInsufficientLiquidity
     else
       let fee_bps = default_swap_fee_bps params in
     if max_swap_fee_bps < fee_bps then Fail s ErrInvalidSwapFee
     else try_in s (get_next_pool_id s) (\<lambda>counter.
     if max_pool_records_cap < counter then Fail s ErrPoolRecordCapReached
     else
       let pid = format_pool_id counter in
     if get_pool s pid \<noteq> None then Fail s ErrInvalidPoolState
     else if bank_supply env (lp_bank s) (lp_denom_of pid) \<noteq> 0 then Fail s ErrInvalidPoolState
     else try_in s (of_option Panic (calculate_lp_tokens_for_deposit amount_a amount_b amount_a amount_b 0))
       (\<lambda>lp_tokens.
     if lp_tokens \<le> 0 then Fail s ErrZeroLPTokens
     else try_in s (check_address env (cp_creator m)) (\<lambda>creator_addr.
          try_in s (require_coins env [(cp_denom_a m, amount_a), (cp_denom_b m, amount_b)]) (\<lambda>deposit.
          try_in s (require_send_enabled env (lp_bank s) deposit) (\<lambda>_.
          and_then (with_bank (bank_to_module env creator_addr lp_module_name deposit) s) (\<lambda>s _.
          and_then (increment_pool_counter s) (\<lambda>s _.
     if height < 0 then Fail s ErrInvalidPoolState
     else
       let p = \<lparr>pool_id = pid, pool_denom_a = cp_denom_a m, pool_denom_b = cp_denom_b m,
                pool_reserve_a = big_string amount_a, pool_reserve_b = big_string amount_b,
                pool_swap_fee_bps = fee_bps, pool_lp_token_supply = big_string lp_tokens,
                pool_lp_denom = lp_denom_of pid, pool_creator = cp_creator m,
                pool_created_at = to_u64 height, pool_locked = False,
                pool_status = POOL_STATUS_ACTIVE, pool_closed_at = 0\<rparr>;
           s = set_pool p s
       in
     try_in s (require_coins env [(pool_lp_denom p, lp_tokens)]) (\<lambda>lp_coins.
     and_then (with_bank (bank_mint env lp_module_name lp_coins) s) (\<lambda>s _.
     and_then (with_bank (bank_to_account env lp_module_name creator_addr lp_coins) s) (\<lambda>s _.
       let params' = params\<lparr>allowed_pool_denoms :=
              take admission_index (allowed_pool_denoms params)
              @ drop (admission_index + 1) (allowed_pool_denoms params)\<rparr>
       in and_then (update_twap_accumulator height p (set_params params' s)) (\<lambda>s _.
          Done s pid))))))))))))))))"

definition swap :: "'b sdk \<Rightarrow> int \<Rightarrow> msg_swap \<Rightarrow> 'b lp_state \<Rightarrow> ('b, string \<times> string) lp_outcome" where
  "swap env height m s =
     try_in s (checked_swap_quote env s (sw_pool_id m) (sw_token_in_denom m) (sw_token_in_amount m)) (\<lambda>q.
     try_in s (parse_optional_positive_amount (sw_min_token_out m)) (\<lambda>min_out.
     if below_minimum (q_token_out q) min_out then Fail s ErrSlippageExceeded
     else try_in s (check_address env (sw_sender m)) (\<lambda>sender_addr.
          try_in s (require_coins env [(sw_token_in_denom m, q_token_in q)]) (\<lambda>in_coins.
          try_in s (require_send_enabled env (lp_bank s) in_coins) (\<lambda>_.
     let p = q_pool q in
     and_then (update_twap_accumulator height p s) (\<lambda>s _.
     let s = set_pool (p\<lparr>pool_locked := True\<rparr>) s;
         unlock = set_pool (p\<lparr>pool_locked := False\<rparr>);
         protocol_fee = 0
     in
     and_then (on_fail unlock (with_bank (bank_to_module env sender_addr lp_module_name in_coins) s)) (\<lambda>s _.
     try_in s (require_coins env [(q_denom_out q, q_token_out q)]) (\<lambda>out_coins.
     and_then (on_fail unlock (with_bank (bank_to_account env lp_module_name sender_addr out_coins) s)) (\<lambda>s _.
     let new_reserve_in = q_reserve_in q + q_token_in q - protocol_fee;
         new_reserve_out = q_reserve_out q - q_token_out q;
         p' = (if sw_token_in_denom m = pool_denom_a p
               then p\<lparr>pool_reserve_a := big_string new_reserve_in, pool_reserve_b := big_string new_reserve_out\<rparr>
               else p\<lparr>pool_reserve_b := big_string new_reserve_in, pool_reserve_a := big_string new_reserve_out\<rparr>)
     in Done (set_pool (p'\<lparr>pool_locked := False\<rparr>) s)
             (big_string (q_token_out q), big_string (q_fee_amount q)))))))))))"

definition add_liquidity ::
  "'b sdk \<Rightarrow> int \<Rightarrow> msg_add_liquidity \<Rightarrow> 'b lp_state \<Rightarrow> ('b, string \<times> string \<times> string) lp_outcome" where
  "add_liquidity env height m s =
     try_in s (of_option ErrPoolNotFound (get_pool s (al_pool_id m))) (\<lambda>p.
     if \<not> can_add_liquidity (pool_status p) then Fail s ErrPoolAddDisabled
     else if pool_locked p then Fail s ErrPoolLocked
     else try_in s (parse_positive_amount (al_amount_a m)) (\<lambda>desired_a.
          try_in s (parse_positive_amount (al_amount_b m)) (\<lambda>desired_b.
          try_in s (parse_optional_positive_amount (al_min_lp_tokens m)) (\<lambda>min_lp.
          try_in s (check_address env (al_sender m)) (\<lambda>sender_addr.
          try_in s (state_amount parse_positive_amount (pool_reserve_a p)) (\<lambda>reserve_a.
          try_in s (state_amount parse_positive_amount (pool_reserve_b p)) (\<lambda>reserve_b.
          try_in s (state_amount parse_positive_amount (pool_lp_token_supply p)) (\<lambda>total_supply.
          try_in s (of_option Panic
                     (calculate_deposit_for_shares reserve_a reserve_b desired_a desired_b total_supply))
            (\<lambda>(actual_a, actual_b, lp_tokens).
     if lp_tokens \<le> 0 \<or> actual_a \<le> 0 \<or> actual_b \<le> 0 then Fail s ErrZeroLPTokens
     else if below_minimum lp_tokens min_lp then Fail s ErrSlippageExceeded
     else try_in s (require_coins env [(pool_denom_a p, actual_a), (pool_denom_b p, actual_b)]) (\<lambda>deposit.
          try_in s (require_send_enabled env (lp_bank s) deposit) (\<lambda>_.
     and_then (update_twap_accumulator height p s) (\<lambda>s _.
     let s = set_pool (p\<lparr>pool_locked := True\<rparr>) s;
         unlock = set_pool (p\<lparr>pool_locked := False\<rparr>)
     in
     and_then (on_fail unlock (with_bank (bank_to_module env sender_addr lp_module_name deposit) s)) (\<lambda>s _.
     let p' = p\<lparr>pool_reserve_a := big_string (reserve_a + actual_a),
                pool_reserve_b := big_string (reserve_b + actual_b),
                pool_lp_token_supply := big_string (total_supply + lp_tokens),
                pool_locked := False\<rparr>;
         s = set_pool p' s
     in
     try_in s (require_coins env [(pool_lp_denom p, lp_tokens)]) (\<lambda>lp_coins.
     and_then (with_bank (bank_mint env lp_module_name lp_coins) s) (\<lambda>s _.
     and_then (with_bank (bank_to_account env lp_module_name sender_addr lp_coins) s) (\<lambda>s _.
     Done s (big_string lp_tokens, big_string actual_a, big_string actual_b)))))))))))))))))"

text \<open>The end of \<open>RemoveLiquidity\<close>: the new record, and the closing of a pool without shares.\<close>

definition finish_exit ::
  "int \<Rightarrow> pool \<Rightarrow> int \<Rightarrow> int \<Rightarrow> int \<Rightarrow> 'b lp_state \<Rightarrow> ('b, unit) lp_outcome" where
  "finish_exit height p new_reserve_a new_reserve_b new_supply s =
     (let p' = p\<lparr>pool_reserve_a := big_string new_reserve_a, pool_reserve_b := big_string new_reserve_b,
                 pool_lp_token_supply := big_string new_supply, pool_locked := False\<rparr>;
          closed = (new_supply = 0)
      in if closed then
           (if new_reserve_a \<noteq> 0 \<or> new_reserve_b \<noteq> 0 then Fail s ErrInvalidPoolState
            else if height \<le> 0 then Fail s ErrInvalidPoolState
            else
              let p'' = p'\<lparr>pool_status := POOL_STATUS_CLOSED, pool_closed_at := to_u64 height\<rparr>
              in Done (schedule_twap_history_deletion (pool_id p'') (set_pool p'' s)) ())
         else Done (set_pool p' s) ())"

definition remove_liquidity ::
  "'b sdk \<Rightarrow> int \<Rightarrow> msg_remove_liquidity \<Rightarrow> 'b lp_state \<Rightarrow> ('b, string \<times> string) lp_outcome" where
  "remove_liquidity env height m s =
     try_in s (of_option ErrPoolNotFound (get_pool s (rl_pool_id m))) (\<lambda>p.
     if \<not> can_remove_liquidity (pool_status p) then Fail s ErrPoolExitDisabled
     else if pool_locked p then Fail s ErrPoolLocked
     else try_in s (parse_positive_amount (rl_lp_tokens m)) (\<lambda>lp_tokens.
          try_in s (parse_optional_positive_amount (rl_min_amount_a m)) (\<lambda>min_a.
          try_in s (parse_optional_positive_amount (rl_min_amount_b m)) (\<lambda>min_b.
          try_in s (check_address env (rl_sender m)) (\<lambda>sender_addr.
          try_in s (state_amount parse_positive_amount (pool_lp_token_supply p)) (\<lambda>total_supply.
     if total_supply < lp_tokens then Fail s ErrInsufficientLP
     else try_in s (state_amount parse_positive_amount (pool_reserve_a p)) (\<lambda>reserve_a.
          try_in s (state_amount parse_positive_amount (pool_reserve_b p)) (\<lambda>reserve_b.
          try_in s (of_option Panic (calculate_withdrawal_amounts reserve_a reserve_b lp_tokens total_supply))
            (\<lambda>(amount_a, amount_b).
     if amount_a \<le> 0 \<or> amount_b \<le> 0 then Fail s ErrZeroAmount
     else if below_minimum amount_a min_a
           \<or> below_minimum amount_b min_b then Fail s ErrSlippageExceeded
     else
     and_then (update_twap_accumulator height p s) (\<lambda>s _.
     let s = set_pool (p\<lparr>pool_locked := True\<rparr>) s;
         unlock = set_pool (p\<lparr>pool_locked := False\<rparr>)
     in
     try_in s (require_coins env [(pool_lp_denom p, lp_tokens)]) (\<lambda>lp_coins.
     and_then (on_fail unlock (with_bank (bank_to_module env sender_addr lp_module_name lp_coins) s)) (\<lambda>s _.
     and_then (on_fail unlock (with_bank (bank_burn env lp_module_name lp_coins) s)) (\<lambda>s _.
     try_in s (require_coins env [(pool_denom_a p, amount_a), (pool_denom_b p, amount_b)]) (\<lambda>withdrawal.
     and_then (on_fail unlock (with_bank (bank_to_account env lp_module_name sender_addr withdrawal) s)) (\<lambda>s _.
     and_then (finish_exit height p (reserve_a - amount_a) (reserve_b - amount_b) (total_supply - lp_tokens) s)
       (\<lambda>s _. Done s (big_string amount_a, big_string amount_b)))))))))))))))))"

definition update_params ::
  "'b sdk \<Rightarrow> string \<Rightarrow> msg_update_params \<Rightarrow> 'b lp_state \<Rightarrow> ('b, unit) lp_outcome" where
  "update_params env authority m s =
     (if authority \<noteq> up_authority m then Fail s (ErrConfig ''unauthorized'')
      else case up_params m of
        None \<Rightarrow> Fail s (ErrConfig ''params cannot be nil'')
      | Some p \<Rightarrow>
          try_in s (validate_params env p) (\<lambda>_.
          try_in s (count_open_pools s) (\<lambda>open_count.
          if max_pools p < open_count then Fail s ErrMaxPoolsReached
          else if twap_window_blocks p < twap_window_blocks (get_params s) then Fail s ErrTWAPWindowUnavailable
          else Done (set_params p s) ())))"

definition set_pool_status ::
  "'b sdk \<Rightarrow> string \<Rightarrow> int \<Rightarrow> msg_set_pool_status \<Rightarrow> 'b lp_state \<Rightarrow> ('b, unit) lp_outcome" where
  "set_pool_status env authority height m s =
     (if authority \<noteq> ss_authority m then Fail s ErrUnauthorized
      else try_in s (validate_set_pool_status env m) (\<lambda>_.
           try_in s (of_option ErrPoolNotFound (get_pool s (ss_pool_id m))) (\<lambda>p.
      if pool_status p = POOL_STATUS_CLOSED then Fail s ErrClosedPoolImmutable
      else if pool_locked p then Fail s ErrPoolLocked
      else try_in s (state_amount parse_positive_amount (pool_reserve_a p)) (\<lambda>_.
           try_in s (state_amount parse_positive_amount (pool_reserve_b p)) (\<lambda>_.
           try_in s (state_amount parse_positive_amount (pool_lp_token_supply p)) (\<lambda>_.
           and_then (update_twap_accumulator height p s) (\<lambda>s _.
           Done (set_pool (p\<lparr>pool_status := ss_status m\<rparr>) s) ())))))))"

datatype lp_msg =
    MsgCreatePool msg_create_pool | MsgSwap msg_swap | MsgAddLiquidity msg_add_liquidity
  | MsgRemoveLiquidity msg_remove_liquidity | MsgUpdateParams msg_update_params
  | MsgSetPoolStatus msg_set_pool_status

text \<open>The message router: which handler serves which message.\<close>

fun lp_handle :: "'b sdk \<Rightarrow> string \<Rightarrow> int \<Rightarrow> lp_msg \<Rightarrow> 'b lp_state \<Rightarrow> ('b, unit) lp_outcome" where
  "lp_handle env authority height (MsgCreatePool m) s = discard (create_pool env height m s)"
| "lp_handle env authority height (MsgSwap m) s = discard (swap env height m s)"
| "lp_handle env authority height (MsgAddLiquidity m) s = discard (add_liquidity env height m s)"
| "lp_handle env authority height (MsgRemoveLiquidity m) s = discard (remove_liquidity env height m s)"
| "lp_handle env authority height (MsgUpdateParams m) s = update_params env authority m s"
| "lp_handle env authority height (MsgSetPoolStatus m) s = set_pool_status env authority height m s"

section \<open>Block hook (module.go)\<close>

fun update_open_pools :: "int \<Rightarrow> string list \<Rightarrow> 'b lp_state \<Rightarrow> ('b, unit) lp_outcome" where
  "update_open_pools height [] s = Done s ()"
| "update_open_pools height (pid # pids) s =
     (case get_pool s pid of
        None \<Rightarrow> Fail s Panic
      | Some p \<Rightarrow>
          if pool_status p = POOL_STATUS_CLOSED then Fail s Panic
          else and_then (update_twap_accumulator height p s) (\<lambda>s _. update_open_pools height pids s))"

definition begin_block :: "int \<Rightarrow> 'b lp_state \<Rightarrow> ('b, unit) lp_outcome" where
  "begin_block height s =
     and_then (process_twap_garbage_collection s) (\<lambda>s _.
     update_open_pools height (map snd (lp_open_index s)) s)"

section \<open>Price oracle (keeper.go)\<close>

definition get_zrn_price :: "'b sdk \<Rightarrow> 'b lp_state \<Rightarrow> string \<Rightarrow> lp_error + int" where
  "get_zrn_price env s quote_denom =
     (if quote_denom \<notin> set (billing_quote_denoms (get_params s)) then Inl ErrNoPool
      else
        bind_sum (of_option ErrNoPool (get_pool_by_denoms s zrn_denom quote_denom)) (\<lambda>p.
        if pool_status p \<noteq> POOL_STATUS_ACTIVE then Inl ErrPoolNotActive
        else bind_sum (of_option Panic (new_coins env [(pool_denom_a p, 1), (pool_denom_b p, 1)])) (\<lambda>probe.
        if \<not> bank_send_enabled env (lp_bank s) probe then Inl ErrNoPool
        else bind_sum (state_amount parse_positive_amount (pool_reserve_a p)) (\<lambda>reserve_a.
             bind_sum (state_amount parse_positive_amount (pool_reserve_b p)) (\<lambda>reserve_b.
             bind_sum (state_amount parse_non_negative_amount (min_reserve (get_params s))) (\<lambda>floor.
        if reserve_a < floor \<or> reserve_b < floor then Inl ErrReserveBelowMinimum
        else
          let window = twap_window_blocks (get_params s)
          in bind_sum (get_twap s (pool_id p) zrn_denom window) (\<lambda>(price, window_used).
             if window_used < window then Inl ErrTWAPWindowUnavailable
             else if price \<le> 0 \<or> 2 ^ sdk_max_bits \<le> price then Inl ErrInvalidPoolState
             else Inr price)))))))"

end
