(* ===== verification/LP_Effects.thy ===== *)
theory LP_Effects
  imports LP_Msgs
begin

text \<open>
  What an accepted liquidity-pool message did: for each handler of theory LP_Msgs, the pool it
  replaced, the amounts by which it changed reserves and supply, and the bank transfers it made.
  The invariant proofs and the functional properties of the module start from these lemmas and
  never unfold a handler again.
\<close>

section \<open>Amounts of a well-formed pool\<close>

definition amount_or_zero :: "string \<Rightarrow> int" where
  "amount_or_zero v = (case parse_non_negative_amount v of Inl e \<Rightarrow> 0 | Inr x \<Rightarrow> x)"

abbreviation res_a :: "pool \<Rightarrow> int" where "res_a p \<equiv> amount_or_zero (pool_reserve_a p)"
abbreviation res_b :: "pool \<Rightarrow> int" where "res_b p \<equiv> amount_or_zero (pool_reserve_b p)"
abbreviation lp_sup :: "pool \<Rightarrow> int" where "lp_sup p \<equiv> amount_or_zero (pool_lp_token_supply p)"

lemma amount_or_zero_string [simp]:
  "0 \<le> x \<Longrightarrow> x < 2 ^ sdk_max_bits \<Longrightarrow> amount_or_zero (big_string x) = x"
  by (simp add: amount_or_zero_def)

lemma amount_or_zero_nonneg: "0 \<le> amount_or_zero v"
  by (auto simp: amount_or_zero_def parse_non_negative_Inr split: sum.splits)

lemma parse_positive_amount_or_zero:
  "parse_positive_amount v = Inr x \<Longrightarrow> amount_or_zero v = x \<and> 0 < x \<and> x < 2 ^ sdk_max_bits \<and> v = big_string x"
  by (auto simp: parse_positive_Inr)

lemma parse_non_negative_amount_or_zero:
  "parse_non_negative_amount v = Inr x \<Longrightarrow> amount_or_zero v = x"
  by (simp add: amount_or_zero_def)

text \<open>A pool that passes validation, in terms of the numbers it stores.\<close>

lemma validate_pool_iff:
  "validate_genesis_pool env p = Inr u \<longleftrightarrow>
     valid_denom env (pool_denom_a p) \<and> valid_denom env (pool_denom_b p) \<and>
     pool_denom_a p \<noteq> pool_denom_b p \<and> (pool_denom_a p = zrn_denom \<or> pool_denom_b p = zrn_denom) \<and>
     pool_swap_fee_bps p \<le> max_swap_fee_bps \<and> pool_lp_denom p = lp_denom_of (pool_id p) \<and>
     acc_address env (pool_creator p) \<noteq> None \<and> \<not> pool_locked p \<and>
     parse_non_negative_amount (pool_reserve_a p) = Inr (res_a p) \<and>
     parse_non_negative_amount (pool_reserve_b p) = Inr (res_b p) \<and>
     parse_non_negative_amount (pool_lp_token_supply p) = Inr (lp_sup p) \<and>
     (is_open_pool_status (pool_status p) \<and> 0 < res_a p \<and> 0 < res_b p \<and> 0 < lp_sup p \<and> pool_closed_at p = 0
      \<or> pool_status p = POOL_STATUS_CLOSED \<and> res_a p = 0 \<and> res_b p = 0 \<and> lp_sup p = 0 \<and>
        pool_closed_at p \<noteq> 0 \<and> pool_created_at p \<le> pool_closed_at p)"
proof -
  have par: "parse_non_negative_amount v = Inr x \<and> Q x \<longleftrightarrow>
      parse_non_negative_amount v = Inr (amount_or_zero v) \<and> x = amount_or_zero v \<and> Q (amount_or_zero v)" for v x Q
    by (auto simp: amount_or_zero_def)
  have closed: "\<not> is_open_pool_status POOL_STATUS_CLOSED" by simp
  show ?thesis
    unfolding validate_genesis_pool_def
    apply (simp add: bind_sum_Inr if_Inl_Inr check_address_Inr not_less not_le)
    apply (cases "parse_non_negative_amount (pool_reserve_a p)"; cases "parse_non_negative_amount (pool_reserve_b p)";
        cases "parse_non_negative_amount (pool_lp_token_supply p)")
    by (auto simp: amount_or_zero_def)
qed

lemma valid_pool_closed_iff:
  "validate_genesis_pool env p = Inr u \<Longrightarrow> is_live p \<longleftrightarrow> is_open_pool_status (pool_status p)"
  by (auto simp: validate_pool_iff is_live_def)

section \<open>Replacing one pool record\<close>

text \<open>\<open>s'\<close> holds \<open>p'\<close> where \<open>s\<close> held \<open>p\<close>; nothing else about the records changed.\<close>

definition replaced :: "'b lp_state \<Rightarrow> 'b lp_state \<Rightarrow> pool \<Rightarrow> pool \<Rightarrow> bool" where
  "replaced s s' p p' \<longleftrightarrow>
     get_pool s (pool_id p) = Some p \<and> pool_id p' = pool_id p \<and>
     get_pool s' = (get_pool s)(pool_id p \<mapsto> p') \<and> index_ok s' \<and>
     (\<forall>f. kv_sum f (lp_pools s') = kv_sum f (lp_pools s) - f p + f p') \<and>
     lp_params_record s' = lp_params_record s \<and> lp_counter s' = lp_counter s"

lemma replacedD:
  assumes "replaced s s' p p'"
  shows "get_pool s (pool_id p) = Some p" "pool_id p' = pool_id p" "index_ok s'"
    "get_pool s' k = (if k = pool_id p then Some p' else get_pool s k)"
    "kv_sum f (lp_pools s') = kv_sum f (lp_pools s) - f p + f p'"
    "get_params s' = get_params s" "get_next_pool_id s' = get_next_pool_id s"
  using assms by (auto simp: replaced_def get_params_def get_next_pool_id_def)

lemma set_pool_replaced:
  assumes "index_ok s" "get_pool s (pool_id p) = Some p" "is_live p"
    and "pool_id p' = pool_id p" "pool_denom_a p' = pool_denom_a p" "pool_denom_b p' = pool_denom_b p"
  shows "replaced s (set_pool p' s) p p'"
proof -
  have key: "pool_pair_key p' = pool_pair_key p" by (simp add: pool_pair_key_def assms)
  have "pair_free_for s p'"
    unfolding pair_free_for_def
  proof (intro allI impI)
    fix k q
    assume "get_pool s k = Some q" "is_live q" "pool_pair_key q = pool_pair_key p'"
    then show "k = pool_id p'"
      using index_okD(6) [OF assms(1)] assms(2,3,4) key by (metis option.inject)
  qed
  then have "index_ok (set_pool p' s)"
    using assms by (intro set_pool_index_ok) auto
  moreover have "kv_get (lp_pools s) (pool_id p) = Some p" using assms(2) by (simp add: get_pool_def)
  ultimately show ?thesis
    using assms by (auto simp: replaced_def kv_sum_set index_okD(1))
qed

lemma replaced_trans:
  "replaced s s1 p p1 \<Longrightarrow> replaced s1 s2 p1 p2 \<Longrightarrow> replaced s s2 p p2"
  by (auto simp: replaced_def)

lemma replaced_bank [simp]:
  "replaced (s\<lparr>lp_bank := b\<rparr>) s' p p' = replaced s s' p p'"
  "replaced s (s'\<lparr>lp_bank := b\<rparr>) p p' = replaced s s' p p'"
  "replaced s (schedule_twap_history_deletion k s') p p' = replaced s s' p p'"
  by (simp_all add: replaced_def get_pool_def index_ok_def fun_eq_iff schedule_twap_history_deletion_def)

lemma replaced_twap_left: "same_but_twap s s1 \<Longrightarrow> replaced s1 s' p p' = replaced s s' p p'"
  by (simp add: replaced_def same_but_twapD)

lemma index_ok_bank [simp]: "index_ok (s\<lparr>lp_bank := b\<rparr>) = index_ok s"
  by (simp add: index_ok_def get_pool_def)

lemma get_pool_bank [simp]: "get_pool (s\<lparr>lp_bank := b\<rparr>) = get_pool s"
  by (simp add: get_pool_def fun_eq_iff)

text \<open>The lock, the bank call and the unlock in between two writes of the same pool.\<close>

lemma lock_then_write_replaced:
  assumes "index_ok s" "get_pool s (pool_id p) = Some p" "is_live p" "same_but_twap s s1"
    and "pool_id p' = pool_id p" "pool_denom_a p' = pool_denom_a p" "pool_denom_b p' = pool_denom_b p"
  shows "replaced s (set_pool p' (set_pool (p\<lparr>pool_locked := True\<rparr>) s1\<lparr>lp_bank := b\<rparr>)) p p'"
proof -
  have s1: "index_ok s1" "get_pool s1 (pool_id p) = Some p"
    using assms by (simp_all add: same_but_twap_index_ok same_but_twapD)
  let ?pl = "p\<lparr>pool_locked := True\<rparr>"
  have r1: "replaced s1 (set_pool ?pl s1) p ?pl"
    using s1 assms(3) by (intro set_pool_replaced) auto
  have "replaced (set_pool ?pl s1\<lparr>lp_bank := b\<rparr>) (set_pool p' (set_pool ?pl s1\<lparr>lp_bank := b\<rparr>)) ?pl p'"
    using replacedD(3) [OF r1] assms by (intro set_pool_replaced) (auto simp: is_live_def)
  then have "replaced s1 (set_pool p' (set_pool ?pl s1\<lparr>lp_bank := b\<rparr>)) p p'"
    using r1 by (auto intro: replaced_trans)
  then show ?thesis using replaced_twap_left [OF assms(4)] by blast
qed

section \<open>Swap\<close>

lemma checked_swap_quote_Inr:
  assumes "checked_swap_quote env s pid din amt = Inr q"
  obtains ra rb floor where "get_pool s pid = Some (q_pool q)" "pool_status (q_pool q) = POOL_STATUS_ACTIVE"
    "\<not> pool_locked (q_pool q)" "parse_positive_amount amt = Inr (q_token_in q)"
    "parse_positive_amount (pool_reserve_a (q_pool q)) = Inr ra"
    "parse_positive_amount (pool_reserve_b (q_pool q)) = Inr rb"
    "din = pool_denom_a (q_pool q) \<and> q_reserve_in q = ra \<and> q_reserve_out q = rb \<and> q_denom_out q = pool_denom_b (q_pool q)
     \<or> din \<noteq> pool_denom_a (q_pool q) \<and> din = pool_denom_b (q_pool q) \<and> q_reserve_in q = rb \<and> q_reserve_out q = ra
       \<and> q_denom_out q = pool_denom_a (q_pool q)"
    "calculate_swap_output (q_reserve_in q) (q_reserve_out q) (q_token_in q) (pool_swap_fee_bps (q_pool q))
      = (q_token_out q, q_fee_amount q)"
    "0 < q_token_out q" "parse_non_negative_amount (min_reserve (get_params s)) = Inr floor"
    "floor \<le> q_reserve_out q - q_token_out q" "valid_denom env din"
proof -
  from assms obtain p ti ra rb rin rout dout floor where
    "get_pool s pid = Some p" "pool_status p = POOL_STATUS_ACTIVE" "\<not> pool_locked p"
    "parse_positive_amount amt = Inr ti" "parse_positive_amount (pool_reserve_a p) = Inr ra"
    "parse_positive_amount (pool_reserve_b p) = Inr rb"
    "swap_side p din ra rb = Inr (rin, rout, dout)" "valid_denom env din"
    "0 < swap_out rin rout ti (pool_swap_fee_bps p)"
    "parse_non_negative_amount (min_reserve (get_params s)) = Inr floor"
    "floor \<le> rout - swap_out rin rout ti (pool_swap_fee_bps p)"
    "q = \<lparr>q_pool = p, q_reserve_in = rin, q_reserve_out = rout, q_token_in = ti,
          q_token_out = swap_out rin rout ti (pool_swap_fee_bps p),
          q_fee_amount = swap_fee rin rout ti (pool_swap_fee_bps p), q_denom_out = dout\<rparr>"
    unfolding checked_swap_quote_def
    by (auto simp: bind_sum_Inr if_Inl_Inr Let_def can_swap_def not_le not_less state_amount_Inr
        case_prod_beta)
  moreover from this(7) have "din = pool_denom_a p \<and> rin = ra \<and> rout = rb \<and> dout = pool_denom_b p
     \<or> din \<noteq> pool_denom_a p \<and> din = pool_denom_b p \<and> rin = rb \<and> rout = ra \<and> dout = pool_denom_a p"
    by (auto simp: swap_side_def split: if_splits)
  ultimately show ?thesis by (intro that [of ra rb floor]) simp_all
qed

text \<open>The pool as a swap leaves it.\<close>

definition swapped_pool :: "swap_quote \<Rightarrow> string \<Rightarrow> pool" where
  "swapped_pool q din =
     (let p = q_pool q; rin = big_string (q_reserve_in q + q_token_in q);
          rout = big_string (q_reserve_out q - q_token_out q)
      in (if din = pool_denom_a p then p\<lparr>pool_reserve_a := rin, pool_reserve_b := rout\<rparr>
          else p\<lparr>pool_reserve_b := rin, pool_reserve_a := rout\<rparr>)\<lparr>pool_locked := False\<rparr>)"

lemma swapped_pool_fields [simp]:
  "pool_id (swapped_pool q d) = pool_id (q_pool q)" "pool_created_at (swapped_pool q d) = pool_created_at (q_pool q)"
  "pool_lp_token_supply (swapped_pool q d) = pool_lp_token_supply (q_pool q)"
  "pool_status (swapped_pool q d) = pool_status (q_pool q)"
  "pool_denom_a (swapped_pool q d) = pool_denom_a (q_pool q)"
  "pool_denom_b (swapped_pool q d) = pool_denom_b (q_pool q)"
  "pool_lp_denom (swapped_pool q d) = pool_lp_denom (q_pool q)"
  "\<not> pool_locked (swapped_pool q d)"
  by (simp_all add: swapped_pool_def Let_def)

lemma swap_effect:
  assumes "swap env h m s = Done s' r" "index_ok s" "sdk_laws env"
  obtains q sender s1 b1 ins outs where
    "checked_swap_quote env s (sw_pool_id m) (sw_token_in_denom m) (sw_token_in_amount m) = Inr q"
    "acc_address env (sw_sender m) = Some sender"
    "update_twap_accumulator h (q_pool q) s = Done s1 ()"
    "replaced s s' (q_pool q) (swapped_pool q (sw_token_in_denom m))"
    "new_coins env [(sw_token_in_denom m, q_token_in q)] = Some ins"
    "new_coins env [(q_denom_out q, q_token_out q)] = Some outs"
    "moved env sender (module_address env lp_module_name) ins (lp_bank s) b1"
    "moved env (module_address env lp_module_name) sender outs b1 (lp_bank s')"
    "lp_accs s' = lp_accs s1" "lp_observations s' = lp_observations s1" "lp_gc s' = lp_gc s"
    "r = (big_string (q_token_out q), big_string (q_fee_amount q))"
    "\<And>v. parse_optional_positive_amount (sw_min_token_out m) = Inr (Some v) \<Longrightarrow> v \<le> q_token_out q"
proof -
  from assms(1) obtain q min_out sender s1 ins outs b1 b2 where
    q: "checked_swap_quote env s (sw_pool_id m) (sw_token_in_denom m) (sw_token_in_amount m) = Inr q"
    and mo: "parse_optional_positive_amount (sw_min_token_out m) = Inr min_out"
    and mo': "\<not> below_minimum (q_token_out q) min_out"
    and sender: "acc_address env (sw_sender m) = Some sender"
    and ins: "new_coins env [(sw_token_in_denom m, q_token_in q)] = Some ins"
    and tw: "update_twap_accumulator h (q_pool q) s = Done s1 ()"
    and bank1: "bank_to_module env sender lp_module_name ins (lp_bank s1) = Done b1 ()"
    and outs: "new_coins env [(q_denom_out q, q_token_out q)] = Some outs"
    and bank2: "bank_to_account env lp_module_name sender outs b1 = Done b2 ()"
    and s': "s' = set_pool (swapped_pool q (sw_token_in_denom m))
                (set_pool ((q_pool q)\<lparr>pool_locked := True\<rparr>) s1\<lparr>lp_bank := b2\<rparr>)"
    and r: "r = (big_string (q_token_out q), big_string (q_fee_amount q))"
    unfolding swap_def swapped_pool_def by (auto simp: outcome_simps Let_def)
  from q obtain pool: "get_pool s (sw_pool_id m) = Some (q_pool q)"
    and act: "pool_status (q_pool q) = POOL_STATUS_ACTIVE"
    by (rule checked_swap_quote_Inr) blast
  have pid: "pool_id (q_pool q) = sw_pool_id m" using index_okD(4) [OF assms(2) pool] .
  note fr = update_twap_frame [OF tw]
  have "replaced s s' (q_pool q) (swapped_pool q (sw_token_in_denom m))"
    unfolding s' using pool pid act assms(2) fr
    by (intro lock_then_write_replaced) (auto simp: is_live_def swapped_pool_def Let_def)
  moreover have "moved env sender (module_address env lp_module_name) ins (lp_bank s) b1"
    using bank_to_module_moved [OF assms(3) bank1] same_but_twapD(6) [OF fr] by simp
  moreover have "moved env (module_address env lp_module_name) sender outs b1 (lp_bank s')"
    using bank_to_account_moved [OF assms(3) bank2] by (simp add: s')
  moreover have "lp_gc s' = lp_gc s" using same_but_twapD(4) [OF fr] by (simp add: s')
  moreover have "v \<le> q_token_out q" if "parse_optional_positive_amount (sw_min_token_out m) = Inr (Some v)" for v
    using that mo mo' by simp
  ultimately show ?thesis
    using that [of q sender s1 ins outs b1] q sender tw ins outs r by (simp add: s')
qed

section \<open>Adding and removing liquidity\<close>

definition deposited_pool :: "pool \<Rightarrow> int \<Rightarrow> int \<Rightarrow> int \<Rightarrow> pool" where
  "deposited_pool p ra rb tot =
     p\<lparr>pool_reserve_a := big_string ra, pool_reserve_b := big_string rb,
       pool_lp_token_supply := big_string tot, pool_locked := False\<rparr>"

lemma deposited_pool_fields [simp]:
  "pool_id (deposited_pool p x y z) = pool_id p" "pool_created_at (deposited_pool p x y z) = pool_created_at p"
  "pool_status (deposited_pool p x y z) = pool_status p"
  "pool_denom_a (deposited_pool p x y z) = pool_denom_a p" "pool_denom_b (deposited_pool p x y z) = pool_denom_b p"
  "pool_lp_denom (deposited_pool p x y z) = pool_lp_denom p" "\<not> pool_locked (deposited_pool p x y z)"
  "pool_reserve_a (deposited_pool p x y z) = big_string x" "pool_reserve_b (deposited_pool p x y z) = big_string y"
  "pool_lp_token_supply (deposited_pool p x y z) = big_string z"
  "pool_swap_fee_bps (deposited_pool p x y z) = pool_swap_fee_bps p"
  "pool_creator (deposited_pool p x y z) = pool_creator p" "pool_closed_at (deposited_pool p x y z) = pool_closed_at p"
  by (simp_all add: deposited_pool_def)

lemma add_liquidity_effect:
  assumes "add_liquidity env h m s = Done s' r" "index_ok s" "sdk_laws env"
  obtains p ra rb tot da db a b lp sender s1 b1 b2 deposit lp_coins where
    "get_pool s (al_pool_id m) = Some p" "can_add_liquidity (pool_status p)" "\<not> pool_locked p"
    "acc_address env (al_sender m) = Some sender"
    "parse_positive_amount (al_amount_a m) = Inr da" "parse_positive_amount (al_amount_b m) = Inr db"
    "parse_positive_amount (pool_reserve_a p) = Inr ra" "parse_positive_amount (pool_reserve_b p) = Inr rb"
    "parse_positive_amount (pool_lp_token_supply p) = Inr tot"
    "calculate_deposit_for_shares ra rb da db tot = Some (a, b, lp)" "0 < lp"
    "update_twap_accumulator h p s = Done s1 ()"
    "replaced s s' p (deposited_pool p (ra + a) (rb + b) (tot + lp))"
    "new_coins env [(pool_denom_a p, a), (pool_denom_b p, b)] = Some deposit"
    "new_coins env [(pool_lp_denom p, lp)] = Some lp_coins"
    "moved env sender (module_address env lp_module_name) deposit (lp_bank s) b1"
    "issued env 1 (module_address env lp_module_name) lp_coins b1 b2"
    "moved env (module_address env lp_module_name) sender lp_coins b2 (lp_bank s')"
    "lp_accs s' = lp_accs s1" "lp_observations s' = lp_observations s1" "lp_gc s' = lp_gc s"
    "r = (big_string lp, big_string a, big_string b)"
    "\<And>v. parse_optional_positive_amount (al_min_lp_tokens m) = Inr (Some v) \<Longrightarrow> v \<le> lp"
proof -
  from assms(1) obtain p da db min_lp sender ra rb tot a b lp deposit s1 b1 lp_coins b2 b3 where
    pool: "get_pool s (al_pool_id m) = Some p" "can_add_liquidity (pool_status p)" "\<not> pool_locked p"
    and par: "parse_positive_amount (al_amount_a m) = Inr da" "parse_positive_amount (al_amount_b m) = Inr db"
    "parse_optional_positive_amount (al_min_lp_tokens m) = Inr min_lp"
    "acc_address env (al_sender m) = Some sender"
    "parse_positive_amount (pool_reserve_a p) = Inr ra" "parse_positive_amount (pool_reserve_b p) = Inr rb"
    "parse_positive_amount (pool_lp_token_supply p) = Inr tot"
    and dep: "calculate_deposit_for_shares ra rb da db tot = Some (a, b, lp)" "0 < lp"
    and mo': "\<not> below_minimum lp min_lp"
    and coins: "new_coins env [(pool_denom_a p, a), (pool_denom_b p, b)] = Some deposit"
    "new_coins env [(pool_lp_denom p, lp)] = Some lp_coins"
    and tw: "update_twap_accumulator h p s = Done s1 ()"
    and bank: "bank_to_module env sender lp_module_name deposit (lp_bank s1) = Done b1 ()"
    "bank_mint env lp_module_name lp_coins b1 = Done b2 ()"
    "bank_to_account env lp_module_name sender lp_coins b2 = Done b3 ()"
    and s': "s' = set_pool (deposited_pool p (ra + a) (rb + b) (tot + lp))
                (set_pool (p\<lparr>pool_locked := True\<rparr>) s1\<lparr>lp_bank := b1\<rparr>)\<lparr>lp_bank := b3\<rparr>"
    and r: "r = (big_string lp, big_string a, big_string b)"
    unfolding add_liquidity_def deposited_pool_def
    by (auto simp: outcome_simps Let_def case_prod_beta not_le)
  have pid: "pool_id p = al_pool_id m" using index_okD(4) [OF assms(2) pool(1)] .
  have live: "is_live p" using pool(2) by (auto simp: is_live_def can_add_liquidity_def)
  note fr = update_twap_frame [OF tw]
  have "replaced s s' p (deposited_pool p (ra + a) (rb + b) (tot + lp))"
    unfolding s' replaced_bank using pool(1) pid live assms(2) fr
    by (intro lock_then_write_replaced) (auto simp: deposited_pool_def)
  moreover have "moved env sender (module_address env lp_module_name) deposit (lp_bank s) b1"
    using bank_to_module_moved [OF assms(3) bank(1)] same_but_twapD(6) [OF fr] by simp
  moreover have "moved env (module_address env lp_module_name) sender lp_coins b2 (lp_bank s')"
    using bank_to_account_moved [OF assms(3) bank(3)] by (simp add: s')
  moreover have "v \<le> lp" if "parse_optional_positive_amount (al_min_lp_tokens m) = Inr (Some v)" for v
    using that par(3) mo' by simp
  moreover have "lp_gc s' = lp_gc s" using same_but_twapD(4) [OF fr] by (simp add: s')
  ultimately show ?thesis
    using that [of p sender da db ra rb tot a b lp s1 deposit lp_coins b1 b2] pool par dep coins tw r
      bank_mint_issued [OF assms(3) bank(2)] by (simp add: s')
qed

text \<open>The pool after an exit; the exit of the last share closes it.\<close>

definition withdrawn_pool :: "int \<Rightarrow> pool \<Rightarrow> int \<Rightarrow> int \<Rightarrow> int \<Rightarrow> pool" where
  "withdrawn_pool h p ra rb tot =
     (let p' = deposited_pool p ra rb tot
      in if tot = 0 then p'\<lparr>pool_status := POOL_STATUS_CLOSED, pool_closed_at := to_u64 h\<rparr> else p')"

lemma withdrawn_pool_fields [simp]:
  "pool_id (withdrawn_pool h p x y z) = pool_id p" "pool_created_at (withdrawn_pool h p x y z) = pool_created_at p"
  "pool_status (withdrawn_pool h p x y z) = (if z = 0 then POOL_STATUS_CLOSED else pool_status p)"
  "pool_denom_a (withdrawn_pool h p x y z) = pool_denom_a p" "pool_denom_b (withdrawn_pool h p x y z) = pool_denom_b p"
  "pool_lp_denom (withdrawn_pool h p x y z) = pool_lp_denom p" "\<not> pool_locked (withdrawn_pool h p x y z)"
  "pool_reserve_a (withdrawn_pool h p x y z) = big_string x" "pool_reserve_b (withdrawn_pool h p x y z) = big_string y"
  "pool_lp_token_supply (withdrawn_pool h p x y z) = big_string z"
  "pool_swap_fee_bps (withdrawn_pool h p x y z) = pool_swap_fee_bps p"
  "pool_creator (withdrawn_pool h p x y z) = pool_creator p"
  "pool_closed_at (withdrawn_pool h p x y z) = (if z = 0 then to_u64 h else pool_closed_at p)"
  by (simp_all add: withdrawn_pool_def Let_def)

lemma remove_liquidity_effect:
  assumes "remove_liquidity env h m s = Done s' r" "index_ok s" "sdk_laws env"
  obtains p ra rb tot lp a b sender s1 b1 b2 lp_coins withdrawal where
    "get_pool s (rl_pool_id m) = Some p" "can_remove_liquidity (pool_status p)" "\<not> pool_locked p"
    "acc_address env (rl_sender m) = Some sender"
    "parse_positive_amount (rl_lp_tokens m) = Inr lp" "lp \<le> tot"
    "parse_positive_amount (pool_reserve_a p) = Inr ra" "parse_positive_amount (pool_reserve_b p) = Inr rb"
    "parse_positive_amount (pool_lp_token_supply p) = Inr tot"
    "calculate_withdrawal_amounts ra rb lp tot = Some (a, b)" "0 < a" "0 < b"
    "update_twap_accumulator h p s = Done s1 ()"
    "replaced s s' p (withdrawn_pool h p (ra - a) (rb - b) (tot - lp))"
    "new_coins env [(pool_lp_denom p, lp)] = Some lp_coins"
    "new_coins env [(pool_denom_a p, a), (pool_denom_b p, b)] = Some withdrawal"
    "moved env sender (module_address env lp_module_name) lp_coins (lp_bank s) b1"
    "issued env (- 1) (module_address env lp_module_name) lp_coins b1 b2"
    "moved env (module_address env lp_module_name) sender withdrawal b2 (lp_bank s')"
    "lp_accs s' = (if lp = tot then kv_del (pool_id p) (lp_accs s1) else lp_accs s1)"
    "lp_observations s' = lp_observations s1"
    "lp_gc s' = (if lp = tot then kv_set (pool_id p) () (lp_gc s) else lp_gc s)"
    "lp = tot \<Longrightarrow> 0 < h \<and> a = ra \<and> b = rb"
    "r = (big_string a, big_string b)"
    "\<And>v. parse_optional_positive_amount (rl_min_amount_a m) = Inr (Some v) \<Longrightarrow> v \<le> a"
    "\<And>v. parse_optional_positive_amount (rl_min_amount_b m) = Inr (Some v) \<Longrightarrow> v \<le> b"
proof -
  from assms(1) obtain p lp min_a min_b sender tot ra rb a b s1 lp_coins b1 b2 withdrawal b3 where
    pool: "get_pool s (rl_pool_id m) = Some p" "can_remove_liquidity (pool_status p)" "\<not> pool_locked p"
    and par: "parse_positive_amount (rl_lp_tokens m) = Inr lp"
    "parse_optional_positive_amount (rl_min_amount_a m) = Inr min_a"
    "parse_optional_positive_amount (rl_min_amount_b m) = Inr min_b"
    "acc_address env (rl_sender m) = Some sender" "lp \<le> tot"
    "parse_positive_amount (pool_reserve_a p) = Inr ra" "parse_positive_amount (pool_reserve_b p) = Inr rb"
    "parse_positive_amount (pool_lp_token_supply p) = Inr tot"
    and wd: "calculate_withdrawal_amounts ra rb lp tot = Some (a, b)" "0 < a" "0 < b"
    and mins: "\<not> below_minimum a min_a" "\<not> below_minimum b min_b"
    and coins: "new_coins env [(pool_lp_denom p, lp)] = Some lp_coins"
    "new_coins env [(pool_denom_a p, a), (pool_denom_b p, b)] = Some withdrawal"
    and tw: "update_twap_accumulator h p s = Done s1 ()"
    and bank: "bank_to_module env sender lp_module_name lp_coins (lp_bank s1) = Done b1 ()"
    "bank_burn env lp_module_name lp_coins b1 = Done b2 ()"
    "bank_to_account env lp_module_name sender withdrawal b2 = Done b3 ()"
    and fin: "finish_exit h p (ra - a) (rb - b) (tot - lp) (set_pool (p\<lparr>pool_locked := True\<rparr>) s1\<lparr>lp_bank := b3\<rparr>) = Done s' ()"
    and r: "r = (big_string a, big_string b)"
    unfolding remove_liquidity_def
    by (auto simp: try_in_Done and_then_Done if_Fail_Done with_bank_Done on_fail_Done require_coins_Inr
        state_amount_Inr Let_def case_prod_beta not_le not_less)
  let ?p' = "withdrawn_pool h p (ra - a) (rb - b) (tot - lp)"
  let ?sb = "set_pool (p\<lparr>pool_locked := True\<rparr>) s1\<lparr>lp_bank := b3\<rparr>"
  have s': "s' = (if lp = tot then schedule_twap_history_deletion (pool_id p) (set_pool ?p' ?sb) else set_pool ?p' ?sb)"
    and cl: "lp = tot \<Longrightarrow> 0 < h \<and> a = ra \<and> b = rb"
    using fin by (auto simp: finish_exit_def Let_def withdrawn_pool_def deposited_pool_def split: if_split_asm)
  have pid: "pool_id p = rl_pool_id m" using index_okD(4) [OF assms(2) pool(1)] .
  have live: "is_live p" using pool(2) by (auto simp: is_live_def can_remove_liquidity_def)
  note fr = update_twap_frame [OF tw]
  have "replaced s (set_pool ?p' ?sb) p ?p'"
    using pool(1) pid live assms(2) fr
    by (intro lock_then_write_replaced) (auto simp: deposited_pool_def withdrawn_pool_def Let_def)
  then have "replaced s s' p ?p'" by (cases "lp = tot") (simp_all add: s')
  moreover have "moved env sender (module_address env lp_module_name) lp_coins (lp_bank s) b1"
    using bank_to_module_moved [OF assms(3) bank(1)] same_but_twapD(6) [OF fr] by simp
  moreover have "moved env (module_address env lp_module_name) sender withdrawal b2 (lp_bank s')"
    using bank_to_account_moved [OF assms(3) bank(3)] by (simp add: s' schedule_twap_history_deletion_def)
  moreover have "v \<le> a" if "parse_optional_positive_amount (rl_min_amount_a m) = Inr (Some v)" for v
    using that par(2) mins(1) by simp
  moreover have "v \<le> b" if "parse_optional_positive_amount (rl_min_amount_b m) = Inr (Some v)" for v
    using that par(3) mins(2) by simp
  moreover have "lp_gc s' = (if lp = tot then kv_set (pool_id p) () (lp_gc s) else lp_gc s)"
    using same_but_twapD(4) [OF fr] by (simp add: s' schedule_twap_history_deletion_def)
  moreover have "lp_accs s' = (if lp = tot then kv_del (pool_id p) (lp_accs s1) else lp_accs s1)"
    "lp_observations s' = lp_observations s1"
    by (simp_all add: s' schedule_twap_history_deletion_def)
  ultimately show ?thesis
    using that [of p sender lp tot ra rb a b s1 lp_coins withdrawal b1 b2] pool par wd coins tw r cl
      bank_burn_issued [OF assms(3) bank(2)] by blast
qed

section \<open>Creating a pool\<close>

definition created_pool :: "int \<Rightarrow> msg_create_pool \<Rightarrow> u64 \<Rightarrow> u64 \<Rightarrow> int \<Rightarrow> int \<Rightarrow> int \<Rightarrow> pool" where
  "created_pool h m counter fee a b lp =
     \<lparr>pool_id = format_pool_id counter, pool_denom_a = cp_denom_a m, pool_denom_b = cp_denom_b m,
      pool_reserve_a = big_string a, pool_reserve_b = big_string b,
      pool_swap_fee_bps = fee, pool_lp_token_supply = big_string lp,
      pool_lp_denom = lp_denom_of (format_pool_id counter), pool_creator = cp_creator m,
      pool_created_at = to_u64 h, pool_locked = False,
      pool_status = POOL_STATUS_ACTIVE, pool_closed_at = 0\<rparr>"

definition counter_denom_of :: "msg_create_pool \<Rightarrow> string" where
  "counter_denom_of m = (if cp_denom_a m = zrn_denom then cp_denom_b m else cp_denom_a m)"

lemma take_drop_remove1:
  "take (length (takeWhile (\<lambda>d. d \<noteq> c) xs)) xs @ drop (length (takeWhile (\<lambda>d. d \<noteq> c) xs) + 1) xs = remove1 c xs"
  by (induction xs) auto

lemma takeWhile_length_mem: "length (takeWhile (\<lambda>d. d \<noteq> c) xs) = length xs \<longleftrightarrow> c \<notin> set xs"
  by (induction xs) auto

definition consume_admission :: "string \<Rightarrow> lp_params \<Rightarrow> lp_params" where
  "consume_admission c p = p\<lparr>allowed_pool_denoms := remove1 c (allowed_pool_denoms p)\<rparr>"

lemma increment_pool_counter_Done:
  "increment_pool_counter s = Done s' n \<longleftrightarrow>
     get_next_pool_id s = Inr n \<and> n \<noteq> max_u64 \<and> n + 1 \<noteq> 0 \<and> s' = s\<lparr>lp_counter := Some (n + 1)\<rparr>"
  by (auto simp: increment_pool_counter_def set_next_pool_id_def outcome_simps)

lemma get_next_pool_id_bank [simp]: "get_next_pool_id (s\<lparr>lp_bank := b\<rparr>) = get_next_pool_id s"
  by (simp add: get_next_pool_id_def)

lemma create_pool_effect:
  assumes "create_pool env h m s = Done s' pid" "sdk_laws env"
  obtains a b counter n creator deposit lp_coins b1 b2 b3 s2 where
    "validate_create_pool env m = Inr ()" "acc_address env (cp_creator m) = Some creator" "0 \<le> h"
    "cp_creator m \<in> set (pool_creators (get_params s))"
    "counter_denom_of m \<in> set (allowed_pool_denoms (get_params s))"
    "count_open_pools s = Inr n" "n < max_pools (get_params s)"
    "get_pool_by_denoms s (cp_denom_a m) (cp_denom_b m) = None"
    "parse_positive_amount (cp_amount_a m) = Inr a" "parse_positive_amount (cp_amount_b m) = Inr b"
    "default_swap_fee_bps (get_params s) \<le> max_swap_fee_bps"
    "get_next_pool_id s = Inr counter" "counter \<le> max_pool_records_cap" "pid = format_pool_id counter"
    "get_pool s pid = None" "bank_supply env (lp_bank s) (lp_denom_of pid) = 0" "0 < big_sqrt (a * b)"
    "new_coins env [(cp_denom_a m, a), (cp_denom_b m, b)] = Some deposit"
    "new_coins env [(lp_denom_of pid, big_sqrt (a * b))] = Some lp_coins"
    "moved env creator (module_address env lp_module_name) deposit (lp_bank s) b1"
    "issued env 1 (module_address env lp_module_name) lp_coins b1 b2"
    "moved env (module_address env lp_module_name) creator lp_coins b2 b3"
    "s2 = set_params (consume_admission (counter_denom_of m) (get_params s))
        (set_pool (created_pool h m counter (default_swap_fee_bps (get_params s)) a b (big_sqrt (a * b)))
          (s\<lparr>lp_bank := b1, lp_counter := Some (counter + 1)\<rparr>)\<lparr>lp_bank := b3\<rparr>)"
    "update_twap_accumulator h
       (created_pool h m counter (default_swap_fee_bps (get_params s)) a b (big_sqrt (a * b))) s2 = Done s' ()"
proof -
  let ?fee = "default_swap_fee_bps (get_params s)"
  from assms(1) obtain n a b minl counter creator deposit b1 lp_coins b2 b3 where
    val: "validate_create_pool env m = Inr ()" and cr: "cp_creator m \<in> set (pool_creators (get_params s))"
    and adm: "length (takeWhile (\<lambda>d. d \<noteq> counter_denom_of m) (allowed_pool_denoms (get_params s)))
        \<noteq> length (allowed_pool_denoms (get_params s))"
    and cnt: "count_open_pools s = Inr n" "n < max_pools (get_params s)"
    and free: "get_pool_by_denoms s (cp_denom_a m) (cp_denom_b m) = None"
    and am: "parse_positive_amount (cp_amount_a m) = Inr a" "parse_positive_amount (cp_amount_b m) = Inr b"
    and fee: "?fee \<le> max_swap_fee_bps"
    and ctr: "get_next_pool_id s = Inr counter" "counter \<le> max_pool_records_cap"
    and fresh: "get_pool s (format_pool_id counter) = None"
      "bank_supply env (lp_bank s) (lp_denom_of (format_pool_id counter)) = 0"
    and lp: "0 < big_sqrt (a * b)" and crt: "acc_address env (cp_creator m) = Some creator"
    and coins: "new_coins env [(cp_denom_a m, a), (cp_denom_b m, b)] = Some deposit"
      "new_coins env [(lp_denom_of (format_pool_id counter), big_sqrt (a * b))] = Some lp_coins"
    and bank: "bank_to_module env creator lp_module_name deposit (lp_bank s) = Done b1 ()"
      "bank_mint env lp_module_name lp_coins b1 = Done b2 ()"
      "bank_to_account env lp_module_name creator lp_coins b2 = Done b3 ()"
    and h: "0 \<le> h" and pid: "pid = format_pool_id counter"
    and tw: "update_twap_accumulator h (created_pool h m counter ?fee a b (big_sqrt (a * b)))
      (set_params (consume_admission (counter_denom_of m) (get_params s))
        (set_pool (created_pool h m counter ?fee a b (big_sqrt (a * b)))
          (s\<lparr>lp_bank := b1, lp_counter := Some (counter + 1)\<rparr>)\<lparr>lp_bank := b3\<rparr>)) = Done s' ()"
    unfolding create_pool_def Let_def counter_denom_of_def [symmetric] created_pool_def [symmetric]
      consume_admission_def [symmetric] take_drop_remove1
    by (auto simp: outcome_simps increment_pool_counter_Done calculate_lp_tokens_for_deposit_def
        created_pool_def not_le not_less)
  show ?thesis
    using that [OF val crt h cr _ cnt free am fee ctr pid _ _ lp coins(1) _
        bank_to_module_moved [OF assms(2) bank(1)] bank_mint_issued [OF assms(2) bank(2)]
        bank_to_account_moved [OF assms(2) bank(3)] refl tw] adm fresh coins(2) pid
    by (simp add: takeWhile_length_mem)
qed

section \<open>Governance messages\<close>

lemma update_params_effect:
  assumes "update_params env authority m s = Done s' r"
  obtains p n where "up_authority m = authority" "up_params m = Some p" "validate_params env p = Inr ()"
    "count_open_pools s = Inr n" "n \<le> max_pools p"
    "twap_window_blocks (get_params s) \<le> twap_window_blocks p" "s' = set_params p s"
  using assms unfolding update_params_def
  by (auto simp: outcome_simps not_less split: option.splits if_split_asm)

lemma set_pool_status_effect:
  assumes "set_pool_status env authority h m s = Done s' r" "index_ok s"
  obtains p s1 where "ss_authority m = authority" "is_open_pool_status (ss_status m)"
    "get_pool s (ss_pool_id m) = Some p" "is_live p" "\<not> pool_locked p"
    "update_twap_accumulator h p s = Done s1 ()"
    "replaced s s' p (p\<lparr>pool_status := ss_status m\<rparr>)"
    "lp_accs s' = lp_accs s1" "lp_observations s' = lp_observations s1" "lp_gc s' = lp_gc s"
    "lp_bank s' = lp_bank s"
proof -
  from assms(1) obtain p s1 where p: "ss_authority m = authority" "validate_set_pool_status env m = Inr ()"
    "get_pool s (ss_pool_id m) = Some p" "is_live p" "\<not> pool_locked p"
    and tw: "update_twap_accumulator h p s = Done s1 ()"
    and s': "s' = set_pool (p\<lparr>pool_status := ss_status m\<rparr>) s1"
    unfolding set_pool_status_def is_live_def by (auto simp: outcome_simps split: if_split_asm)
  note fr = update_twap_frame [OF tw]
  have pid: "pool_id p = ss_pool_id m" using index_okD(4) [OF assms(2) p(3)] .
  have "replaced s1 s' p (p\<lparr>pool_status := ss_status m\<rparr>)"
    unfolding s' using p pid assms(2) fr
    by (intro set_pool_replaced) (simp_all add: same_but_twap_index_ok same_but_twapD)
  then have "replaced s s' p (p\<lparr>pool_status := ss_status m\<rparr>)" using replaced_twap_left [OF fr] by blast
  then show ?thesis
    using that [of p s1] p tw validate_set_pool_status_Inr [OF p(2)] same_but_twapD(4,6) [OF fr] by (simp add: s')
qed

end
