(* ===== verification/LP_Invariants.thy ===== *)
theory LP_Invariants
  imports LP_Effects
begin

text \<open>
  The invariant of the liquidity-pool module and its preservation by every message: the records
  are well formed and indexed, ids stay below the counter and the lifetime cap, the open pools
  stay within the governed bound, the module account covers the sum of all reserves in every
  denom, and the supply recorded in each pool is the bank supply of its share denom.
\<close>

section \<open>The invariant\<close>

definition liability :: "string \<Rightarrow> pool \<Rightarrow> int" where
  "liability d p = (if pool_denom_a p = d then res_a p else 0) + (if pool_denom_b p = d then res_b p else 0)"

definition lp_module :: "'b sdk \<Rightarrow> addr" where
  "lp_module env = module_address env lp_module_name"

definition records_ok :: "'b sdk \<Rightarrow> int \<Rightarrow> 'b lp_state \<Rightarrow> bool" where
  "records_ok env h s \<longleftrightarrow>
     0 \<le> h \<and> h < 2 ^ 63 \<and> index_ok s \<and> validate_params env (get_params s) = Inr () \<and>
     (\<exists>n. get_next_pool_id s = Inr n \<and> uint n \<le> 10001 \<and>
        (\<forall>k p. get_pool s k = Some p \<longrightarrow>
           validate_genesis_pool env p = Inr () \<and> uint (pool_created_at p) \<le> h \<and>
           (\<exists>i. parse_pool_id k = Some i \<and> i < n))) \<and>
     int (kv_count is_live (lp_pools s)) \<le> uint (max_pools (get_params s))"

definition custody_ok :: "'b sdk \<Rightarrow> 'b lp_state \<Rightarrow> bool" where
  "custody_ok env s \<longleftrightarrow>
     (\<forall>d. kv_sum (liability d) (lp_pools s) \<le> bank_balance env (lp_bank s) (lp_module env) d)"

definition supply_ok :: "'b sdk \<Rightarrow> 'b lp_state \<Rightarrow> bool" where
  "supply_ok env s \<longleftrightarrow>
     (\<forall>k p. get_pool s k = Some p \<longrightarrow> bank_supply env (lp_bank s) (pool_lp_denom p) = lp_sup p)"

definition core_ok :: "'b sdk \<Rightarrow> int \<Rightarrow> 'b lp_state \<Rightarrow> bool" where
  "core_ok env h s \<longleftrightarrow> records_ok env h s \<and> custody_ok env s \<and> supply_ok env s"

lemma core_okD:
  assumes "core_ok env h s"
  shows "records_ok env h s" "custody_ok env s" "supply_ok env s" "index_ok s" "0 \<le> h" "h < 2 ^ 63"
    "get_pool s k = Some p \<Longrightarrow> validate_genesis_pool env p = Inr ()"
    "get_pool s k = Some p \<Longrightarrow> uint (pool_created_at p) \<le> h"
    "get_pool s k = Some p \<Longrightarrow> bank_supply env (lp_bank s) (pool_lp_denom p) = lp_sup p"
    "kv_sum (liability d) (lp_pools s) \<le> bank_balance env (lp_bank s) (lp_module env) d"
    "validate_params env (get_params s) = Inr ()"
  using assms by (auto simp: core_ok_def records_ok_def custody_ok_def supply_ok_def)

lemma records_ok_frame:
  "same_but_twap s s' \<Longrightarrow> records_ok env h s' = records_ok env h s"
  by (simp add: records_ok_def same_but_twapD same_but_twap_index_ok get_next_pool_id_def)

lemma core_ok_frame: "same_but_twap s s' \<Longrightarrow> core_ok env h s' = core_ok env h s"
  by (simp add: core_ok_def records_ok_frame custody_ok_def supply_ok_def same_but_twapD)

lemma liability_nonneg: "0 \<le> liability d p"
  by (auto simp: liability_def amount_or_zero_nonneg intro: add_nonneg_nonneg)

text \<open>Open pools are counted exactly, and without wrap-around.\<close>

lemma length_open_index: "index_ok s \<Longrightarrow> length (lp_open_index s) = kv_count is_live (lp_pools s)"
proof -
  assume ok: "index_ok s"
  note D = index_okD [OF ok]
  have "set (map fst (lp_open_index s)) = set (map fst (filter (\<lambda>e. is_live (snd e)) (lp_pools s)))"
  proof (intro set_eqI iffI)
    fix k assume "k \<in> set (map fst (lp_open_index s))"
    then obtain v where "(k, v) \<in> set (lp_open_index s)" by auto
    then have "kv_get (lp_open_index s) k = Some v" using kv_get_mem [OF D(3)] by blast
    then obtain p where "get_pool s k = Some p" "is_live p" using D(5) by blast
    then have "(k, p) \<in> set (filter (\<lambda>e. is_live (snd e)) (lp_pools s))"
      by (auto simp: get_pool_def dest: kv_get_in_set)
    then show "k \<in> set (map fst (filter (\<lambda>e. is_live (snd e)) (lp_pools s)))" by force
  next
    fix k assume "k \<in> set (map fst (filter (\<lambda>e. is_live (snd e)) (lp_pools s)))"
    then obtain p where "(k, p) \<in> set (lp_pools s)" "is_live p" by auto
    then have "get_pool s k = Some p" using kv_get_mem [OF D(1)] by (simp add: get_pool_def)
    with \<open>is_live p\<close> have "kv_get (lp_open_index s) k = Some k" using D(5) by blast
    then show "k \<in> set (map fst (lp_open_index s))" by (force dest: kv_get_in_set)
  qed
  moreover have "distinct (map fst (lp_open_index s))" by (rule kv_ok_distinct [OF D(3)])
  moreover have "distinct (map fst (filter (\<lambda>e. is_live (snd e)) (lp_pools s)))"
    using kv_ok_distinct [OF D(1)] by (rule distinct_map_filter)
  ultimately have "length (map fst (lp_open_index s)) = length (map fst (filter (\<lambda>e. is_live (snd e)) (lp_pools s)))"
    by (metis distinct_card)
  then show ?thesis by (simp add: kv_count_def)
qed

lemma count_open_pools_exact:
  assumes "index_ok s"
  shows "count_open_pools s = Inr (of_nat (kv_count is_live (lp_pools s)))"
  using assms by (rule iterate_open_pools_ok) (simp add: count_open_pools_def length_open_index [OF assms])

lemma max_pools_bound: "validate_params env p = Inr () \<Longrightarrow> uint (max_pools p) \<le> 64"
  by (simp add: validate_params_ok max_pools_cap_def word_le_def)

lemma uint_of_nat_small: "int n < 2 ^ 64 \<Longrightarrow> uint (of_nat n :: u64) = int n"
  by (simp add: unsigned_of_nat take_bit_nat_eq_self)

section \<open>Replacing a pool keeps the records well formed\<close>

lemma replaced_records_ok:
  assumes "replaced s s' p p'" "records_ok env h s" "validate_genesis_pool env p' = Inr ()"
    and "uint (pool_created_at p') \<le> h" "is_live p"
  shows "records_ok env h s'"
proof -
  note R = replacedD [OF assms(1)]
  from assms(2) obtain n where n: "get_next_pool_id s = Inr n" "uint n \<le> 10001"
    "\<And>k p. get_pool s k = Some p \<Longrightarrow> validate_genesis_pool env p = Inr () \<and> uint (pool_created_at p) \<le> h \<and>
           (\<exists>i. parse_pool_id k = Some i \<and> i < n)"
    by (auto simp: records_ok_def)
  have "int (kv_count is_live (lp_pools s')) \<le> int (kv_count is_live (lp_pools s))"
    unfolding kv_count_as_sum R(5) using assms(5) by simp
  then have "int (kv_count is_live (lp_pools s')) \<le> uint (max_pools (get_params s'))"
    using assms(2) by (simp add: records_ok_def R(6))
  moreover have "get_pool s' k = Some q \<Longrightarrow> validate_genesis_pool env q = Inr () \<and> uint (pool_created_at q) \<le> h \<and>
           (\<exists>i. parse_pool_id k = Some i \<and> i < n)" for k q
    using n(3) R(1,4) assms(3,4) by (auto split: if_splits)
  ultimately show ?thesis
    using assms(2) R(3,6,7) n(1,2) unfolding records_ok_def by auto
qed

lemma replaced_supply_ok:
  assumes "replaced s s' p p'" "core_ok env h s" "validate_genesis_pool env p' = Inr ()"
    and "\<And>d. bank_supply env (lp_bank s') d
        = bank_supply env (lp_bank s) d + (if d = pool_lp_denom p then lp_sup p' - lp_sup p else 0)"
  shows "supply_ok env s'"
  unfolding supply_ok_def
proof (intro allI impI)
  fix k q
  assume q: "get_pool s' k = Some q"
  note R = replacedD [OF assms(1)] and C = core_okD [OF assms(2)]
  have lpd: "pool_lp_denom q' = lp_denom_of (pool_id q')" if "validate_genesis_pool env q' = Inr ()" for q'
    using that by (simp add: validate_pool_iff)
  show "bank_supply env (lp_bank s') (pool_lp_denom q) = lp_sup q"
  proof (cases "k = pool_id p")
    case True
    with q R(4) have "q = p'" by simp
    with assms(3) R(2) C(7) [OF R(1)] lpd have "pool_lp_denom q = pool_lp_denom p" by simp
    then show ?thesis using C(9) [OF R(1)] \<open>q = p'\<close> by (simp add: assms(4))
  next
    case False
    with q R(4) have q': "get_pool s k = Some q" by simp
    have "pool_id q = k" using index_okD(4) [OF C(4) q'] .
    with False lpd C(7) [OF q'] C(7) [OF R(1)] have "pool_lp_denom q \<noteq> pool_lp_denom p" by simp
    then show ?thesis using C(9) [OF q'] by (simp add: assms(4))
  qed
qed

lemma replaced_custody_ok:
  assumes "replaced s s' p p'" "custody_ok env s"
    and "\<And>d. bank_balance env (lp_bank s') (lp_module env) d
        \<ge> bank_balance env (lp_bank s) (lp_module env) d + (liability d p' - liability d p)"
  shows "custody_ok env s'"
  unfolding custody_ok_def
proof
  fix d
  show "kv_sum (liability d) (lp_pools s') \<le> bank_balance env (lp_bank s') (lp_module env) d"
    using assms(2) assms(3) [of d] replacedD(5) [OF assms(1), of "liability d"]
    by (auto simp: custody_ok_def dest: spec [of _ d])
qed

text \<open>A reserve plus coins the module account just received fits into an \<open>sdkmath.Int\<close>.\<close>

lemma reserve_plus_received_fits:
  assumes "core_ok env h s" "get_pool s k = Some p"
    and "moved env sender (lp_module env) cs (lp_bank s) b" "sender \<noteq> lp_module env"
    and "(d, x) \<in> set cs" "amount_of cs d = x" "0 \<le> x"
  shows "(pool_denom_a p = d \<longrightarrow> res_a p + x < 2 ^ sdk_max_bits)
    \<and> (pool_denom_b p = d \<longrightarrow> res_b p + x < 2 ^ sdk_max_bits)"
proof -
  have "liability d p \<le> kv_sum (liability d) (lp_pools s)"
    using assms(2) by (intro kv_sum_member_le [of _ _ k]) (simp_all add: liability_nonneg get_pool_def)
  then have le: "liability d p \<le> bank_balance env (lp_bank s) (lp_module env) d"
    using core_okD(10) [OF assms(1), of d] by simp
  have "bank_balance env b (lp_module env) d = bank_balance env (lp_bank s) (lp_module env) d + x"
    using moved_balance [OF assms(3), of "lp_module env" d] assms(4,6) by simp
  moreover have "fits_sdk_int (bank_balance env b (lp_module env) d)"
    using moved_fits [OF assms(3,5)] by simp
  ultimately have "liability d p + x < 2 ^ sdk_max_bits"
    using le by (simp add: fits_sdk_int_def)
  then show ?thesis
    using amount_or_zero_nonneg [of "pool_reserve_a p"] amount_or_zero_nonneg [of "pool_reserve_b p"]
    by (auto simp: liability_def split: if_splits)
qed

section \<open>Every message keeps the invariant\<close>

lemma positive_amount_facts:
  "parse_positive_amount v = Inr x \<Longrightarrow> amount_or_zero v = x"
  "parse_positive_amount v = Inr x \<Longrightarrow> 0 < x"
  "parse_positive_amount v = Inr x \<Longrightarrow> x < 2 ^ sdk_max_bits"
  by (simp_all add: parse_positive_amount_or_zero)

lemma swap_core_ok:
  assumes C: "core_ok env h s" and L: "sdk_laws env" and run: "swap env h m s = Done s' r"
    and ext: "acc_address env (sw_sender m) \<noteq> Some (lp_module env)"
  shows "core_ok env h s'"
  using run core_okD(4) [OF C] L
proof (rule swap_effect)
  fix q :: swap_quote and sender s1 b1 ins outs
  let ?p = "q_pool q" and ?d = "sw_token_in_denom m"
  assume q: "checked_swap_quote env s (sw_pool_id m) ?d (sw_token_in_amount m) = Inr q"
    and sender: "acc_address env (sw_sender m) = Some sender"
    and rep: "replaced s s' ?p (swapped_pool q ?d)"
    and ins: "new_coins env [(?d, q_token_in q)] = Some ins"
    and outs: "new_coins env [(q_denom_out q, q_token_out q)] = Some outs"
    and mv1: "moved env sender (module_address env lp_module_name) ins (lp_bank s) b1"
    and mv2: "moved env (module_address env lp_module_name) sender outs b1 (lp_bank s')"
  from q obtain ra rb where pool: "get_pool s (sw_pool_id m) = Some ?p"
    and st: "pool_status ?p = POOL_STATUS_ACTIVE" and nl: "\<not> pool_locked ?p"
    and tin: "parse_positive_amount (sw_token_in_amount m) = Inr (q_token_in q)"
    and ra: "parse_positive_amount (pool_reserve_a ?p) = Inr ra" and rb: "parse_positive_amount (pool_reserve_b ?p) = Inr rb"
    and side: "?d = pool_denom_a ?p \<and> q_reserve_in q = ra \<and> q_reserve_out q = rb \<and> q_denom_out q = pool_denom_b ?p
     \<or> ?d \<noteq> pool_denom_a ?p \<and> ?d = pool_denom_b ?p \<and> q_reserve_in q = rb \<and> q_reserve_out q = ra
       \<and> q_denom_out q = pool_denom_a ?p"
    and amm: "calculate_swap_output (q_reserve_in q) (q_reserve_out q) (q_token_in q) (pool_swap_fee_bps ?p)
      = (q_token_out q, q_fee_amount q)" and tout: "0 < q_token_out q"
    by (rule checked_swap_quote_Inr) blast
  have val: "validate_genesis_pool env ?p = Inr ()" by (rule core_okD(7) [OF C pool])
  then have dd: "pool_denom_a ?p \<noteq> pool_denom_b ?p" by (simp add: validate_pool_iff)
  have sm: "sender \<noteq> lp_module env" using ext sender by simp
  have mv1': "moved env sender (lp_module env) ins (lp_bank s) b1" using mv1 by (simp add: lp_module_def)
  have "0 < q_token_in q" using positive_amount_facts(2) [OF tin] .
  then have am_in: "amount_of ins d = (if d = ?d then q_token_in q else 0)" "(?d, q_token_in q) \<in> set ins" for d
    using new_coins_amount [OF ins] new_coins_set [OF ins] by auto
  have am_out: "amount_of outs d = (if d = q_denom_out q then q_token_out q else 0)" for d
    using new_coins_amount [OF outs] by auto
  have lt: "q_token_out q < q_reserve_out q"
    using swap_out_less_reserve [of "q_reserve_out q" "q_reserve_in q" "q_token_in q" "pool_swap_fee_bps ?p"]
      side positive_amount_facts(2) [OF ra] positive_amount_facts(2) [OF rb] by (auto simp: amm)
  note res = positive_amount_facts(1,2,3) [OF ra] positive_amount_facts(1,2,3) [OF rb]
  note fit = reserve_plus_received_fits [OF C pool mv1' sm am_in(2)]
  have fits: "q_reserve_in q + q_token_in q < 2 ^ sdk_max_bits"
    using side fit am_in(1) \<open>0 < q_token_in q\<close> res by auto
  have outfits: "q_reserve_out q - q_token_out q < 2 ^ sdk_max_bits" using side res tout by auto
  have val': "validate_genesis_pool env (swapped_pool q ?d) = Inr ()"
    using val side res fits outfits lt \<open>0 < q_token_in q\<close> st
    by (auto simp: validate_pool_iff swapped_pool_def Let_def)
  have nn: "0 \<le> q_reserve_in q + q_token_in q" "0 \<le> q_reserve_out q - q_token_out q"
    using side res \<open>0 < q_token_in q\<close> lt by auto
  have new: "res_a (swapped_pool q ?d) =
        (if ?d = pool_denom_a ?p then q_reserve_in q + q_token_in q else q_reserve_out q - q_token_out q)"
    "res_b (swapped_pool q ?d) =
        (if ?d = pool_denom_a ?p then q_reserve_out q - q_token_out q else q_reserve_in q + q_token_in q)"
    using nn fits outfits by (simp_all add: swapped_pool_def Let_def)
  have liab: "liability d (swapped_pool q ?d) - liability d ?p
      = (if d = ?d then q_token_in q else 0) - (if d = q_denom_out q then q_token_out q else 0)" for d
    using side
  proof
    assume "?d = pool_denom_a ?p \<and> q_reserve_in q = ra \<and> q_reserve_out q = rb \<and> q_denom_out q = pool_denom_b ?p"
    with dd res(1,4) new show ?thesis by (simp add: liability_def)
  next
    assume "?d \<noteq> pool_denom_a ?p \<and> ?d = pool_denom_b ?p \<and> q_reserve_in q = rb \<and> q_reserve_out q = ra
       \<and> q_denom_out q = pool_denom_a ?p"
    with dd res(1,4) new show ?thesis by (simp add: liability_def)
  qed
  have "records_ok env h s'"
    by (rule replaced_records_ok [OF rep core_okD(1) [OF C] val'])
      (use core_okD(8) [OF C pool] st in \<open>simp_all add: is_live_def\<close>)
  moreover have "supply_ok env s'"
    by (rule replaced_supply_ok [OF rep C val'])
      (simp add: moved_supply [OF mv1] moved_supply [OF mv2])
  moreover have "custody_ok env s'"
  proof (rule replaced_custody_ok [OF rep core_okD(2) [OF C]])
    fix d
    show "bank_balance env (lp_bank s) (lp_module env) d + (liability d (swapped_pool q ?d) - liability d ?p)
        \<le> bank_balance env (lp_bank s') (lp_module env) d"
      using moved_balance [OF mv1, of "lp_module env" d] moved_balance [OF mv2, of "lp_module env" d] sm
        \<open>0 < q_token_in q\<close> tout
      by (simp add: lp_module_def am_in am_out liab)
  qed
  ultimately show ?thesis by (simp add: core_ok_def)
qed

lemma add_liquidity_core_ok:
  assumes C: "core_ok env h s" and L: "sdk_laws env" and run: "add_liquidity env h m s = Done s' r"
    and ext: "acc_address env (al_sender m) \<noteq> Some (lp_module env)"
  shows "core_ok env h s'"
  using run core_okD(4) [OF C] L
proof (rule add_liquidity_effect)
  fix p ra rb tot da db a b lp sender s1 b1 b2 deposit lp_coins
  let ?p' = "deposited_pool p (ra + a) (rb + b) (tot + lp)"
  assume pool: "get_pool s (al_pool_id m) = Some p" and st: "can_add_liquidity (pool_status p)"
    and sender: "acc_address env (al_sender m) = Some sender"
    and ra: "parse_positive_amount (pool_reserve_a p) = Inr ra" and rb: "parse_positive_amount (pool_reserve_b p) = Inr rb"
    and tot: "parse_positive_amount (pool_lp_token_supply p) = Inr tot"
    and dep: "calculate_deposit_for_shares ra rb da db tot = Some (a, b, lp)" "0 < lp"
    and rep: "replaced s s' p ?p'"
    and dc: "new_coins env [(pool_denom_a p, a), (pool_denom_b p, b)] = Some deposit"
    and lc: "new_coins env [(pool_lp_denom p, lp)] = Some lp_coins"
    and mv1: "moved env sender (module_address env lp_module_name) deposit (lp_bank s) b1"
    and iss: "issued env 1 (module_address env lp_module_name) lp_coins b1 b2"
    and mv2: "moved env (module_address env lp_module_name) sender lp_coins b2 (lp_bank s')"
  have val: "validate_genesis_pool env p = Inr ()" by (rule core_okD(7) [OF C pool])
  then have dd: "pool_denom_a p \<noteq> pool_denom_b p" by (simp add: validate_pool_iff)
  have sm: "sender \<noteq> lp_module env" using ext sender by simp
  have mv1': "moved env sender (lp_module env) deposit (lp_bank s) b1" using mv1 by (simp add: lp_module_def)
  note D = deposit_for_shares_SomeD(4,6) [OF dep]
  have am: "amount_of deposit d = (if d = pool_denom_a p then a else 0) + (if d = pool_denom_b p then b else 0)" for d
    using new_coins_amount [OF dc, of d] by simp
  have mem: "(pool_denom_a p, a) \<in> set deposit" "(pool_denom_b p, b) \<in> set deposit"
    using new_coins_set [OF dc] D by auto
  have am_lp: "amount_of lp_coins d = (if d = pool_lp_denom p then lp else 0)" for d
    using new_coins_amount [OF lc, of d] by simp
  have "(pool_lp_denom p, lp) \<in> set lp_coins" using new_coins_set [OF lc] dep(2) by auto
  then have "fits_sdk_int (bank_supply env b2 (pool_lp_denom p))" using issued_fits [OF iss] by force
  then have supfits: "tot + lp < 2 ^ sdk_max_bits"
    using issued_supply [OF iss, of "pool_lp_denom p"] moved_supply [OF mv1, of "pool_lp_denom p"]
      core_okD(9) [OF C pool] positive_amount_facts(1) [OF tot] by (simp add: am_lp fits_sdk_int_def)
  note res = positive_amount_facts [OF ra] positive_amount_facts [OF rb] positive_amount_facts [OF tot]
  have fa: "ra + a < 2 ^ sdk_max_bits" and fb: "rb + b < 2 ^ sdk_max_bits"
    using reserve_plus_received_fits [OF C pool mv1' sm mem(1)] reserve_plus_received_fits [OF C pool mv1' sm mem(2)]
      D dd res by (simp_all add: am)
  have live: "is_live p" using st by (auto simp: is_live_def can_add_liquidity_def)
  have new: "res_a ?p' = ra + a" "res_b ?p' = rb + b" "lp_sup ?p' = tot + lp"
    using fa fb supfits res D dep(2) by simp_all
  have val': "validate_genesis_pool env ?p' = Inr ()"
    using val fa fb supfits res D dep(2) live unfolding validate_pool_iff by (auto simp: is_live_def)
  have "records_ok env h s'"
    by (rule replaced_records_ok [OF rep core_okD(1) [OF C] val' _ live])
      (simp add: core_okD(8) [OF C pool])
  moreover have "supply_ok env s'"
    by (rule replaced_supply_ok [OF rep C val'])
      (simp add: moved_supply [OF mv1] moved_supply [OF mv2] issued_supply [OF iss] am_lp new [simplified] res)
  moreover have "custody_ok env s'"
  proof (rule replaced_custody_ok [OF rep core_okD(2) [OF C]])
    fix d
    have "liability d ?p' - liability d p = amount_of deposit d"
      using dd res new by (auto simp: liability_def am)
    then show "bank_balance env (lp_bank s) (lp_module env) d + (liability d ?p' - liability d p)
        \<le> bank_balance env (lp_bank s') (lp_module env) d"
      using moved_balance [OF mv1, of "lp_module env" d] moved_balance [OF mv2, of "lp_module env" d]
        issued_balance [OF iss, of "lp_module env" d] sm by (simp add: lp_module_def)
  qed
  ultimately show ?thesis by (simp add: core_ok_def)
qed

lemma withdrawal_amounts:
  assumes "calculate_withdrawal_amounts ra rb lp tot = Some (a, b)" "0 < ra" "0 < rb" "0 < lp" "lp \<le> tot"
  shows "a \<le> ra" "b \<le> rb" "lp < tot \<Longrightarrow> a < ra" "lp < tot \<Longrightarrow> b < rb"
proof -
  have t: "0 < tot" using assms by simp
  have ab: "a = (ra * lp) div tot" "b = (rb * lp) div tot" using assms(1) withdrawal_Some [OF t] by auto
  have part: "x \<le> r \<and> (lp < tot \<longrightarrow> x < r)" if "x = (r * lp) div tot" "0 < r" for x r
  proof -
    have "x \<le> r" using withdrawal_part(2) [of r lp tot] that assms by simp
    moreover have "x < r" if "lp < tot"
    proof -
      have "x * tot \<le> r * lp" using floor_div_le [OF t, of "r * lp"] \<open>x = _\<close> by simp
      also have "\<dots> < r * tot" using that \<open>0 < r\<close> by simp
      finally show ?thesis using t by simp
    qed
    ultimately show ?thesis by simp
  qed
  from part [OF ab(1) assms(2)] part [OF ab(2) assms(3)]
  show "a \<le> ra" "b \<le> rb" "lp < tot \<Longrightarrow> a < ra" "lp < tot \<Longrightarrow> b < rb" by auto
qed

lemma remove_liquidity_core_ok:
  assumes C: "core_ok env h s" and L: "sdk_laws env" and run: "remove_liquidity env h m s = Done s' r"
    and ext: "acc_address env (rl_sender m) \<noteq> Some (lp_module env)"
  shows "core_ok env h s'"
  using run core_okD(4) [OF C] L
proof (rule remove_liquidity_effect)
  fix p ra rb tot lp a b sender s1 b1 b2 lp_coins withdrawal
  let ?p' = "withdrawn_pool h p (ra - a) (rb - b) (tot - lp)"
  assume pool: "get_pool s (rl_pool_id m) = Some p" and st: "can_remove_liquidity (pool_status p)"
    and sender: "acc_address env (rl_sender m) = Some sender"
    and lp: "parse_positive_amount (rl_lp_tokens m) = Inr lp" "lp \<le> tot"
    and ra: "parse_positive_amount (pool_reserve_a p) = Inr ra" and rb: "parse_positive_amount (pool_reserve_b p) = Inr rb"
    and tot: "parse_positive_amount (pool_lp_token_supply p) = Inr tot"
    and wd: "calculate_withdrawal_amounts ra rb lp tot = Some (a, b)" "0 < a" "0 < b"
    and rep: "replaced s s' p ?p'"
    and lc: "new_coins env [(pool_lp_denom p, lp)] = Some lp_coins"
    and wc: "new_coins env [(pool_denom_a p, a), (pool_denom_b p, b)] = Some withdrawal"
    and mv1: "moved env sender (module_address env lp_module_name) lp_coins (lp_bank s) b1"
    and iss: "issued env (- 1) (module_address env lp_module_name) lp_coins b1 b2"
    and mv2: "moved env (module_address env lp_module_name) sender withdrawal b2 (lp_bank s')"
    and cl: "lp = tot \<Longrightarrow> 0 < h \<and> a = ra \<and> b = rb"
  have val: "validate_genesis_pool env p = Inr ()" by (rule core_okD(7) [OF C pool])
  then have dd: "pool_denom_a p \<noteq> pool_denom_b p" by (simp add: validate_pool_iff)
  have sm: "sender \<noteq> lp_module env" using ext sender by simp
  note res = positive_amount_facts [OF ra] positive_amount_facts [OF rb] positive_amount_facts [OF tot]
  have lp0: "0 < lp" using positive_amount_facts(2) [OF lp(1)] .
  note W = withdrawal_amounts [OF wd(1) res(2) res(5) lp0 lp(2)]
  have am: "amount_of withdrawal d = (if d = pool_denom_a p then a else 0) + (if d = pool_denom_b p then b else 0)" for d
    using new_coins_amount [OF wc, of d] by simp
  have am_lp: "amount_of lp_coins d = (if d = pool_lp_denom p then lp else 0)" for d
    using new_coins_amount [OF lc, of d] by simp
  have live: "is_live p" using st by (auto simp: is_live_def can_remove_liquidity_def)
  have new: "res_a ?p' = ra - a" "res_b ?p' = rb - b" "lp_sup ?p' = tot - lp"
    using res W wd lp lp0 by simp_all
  have h: "0 \<le> h" "h < 2 ^ 63" using core_okD(5,6) [OF C] by simp_all
  have cr: "uint (pool_created_at p) \<le> h" by (rule core_okD(8) [OF C pool])
  have val': "validate_genesis_pool env ?p' = Inr ()"
  proof (cases "lp = tot")
    case True
    have "uint (to_u64 h) = h" using h by (intro uint_to_u64) simp_all
    with True cl [OF True] cr have "to_u64 h \<noteq> 0" "pool_created_at p \<le> to_u64 h"
      by (auto simp: u64_le)
    with True cl [OF True] val res show ?thesis unfolding validate_pool_iff by simp
  next
    case False
    with val res W wd lp lp0 live show ?thesis unfolding validate_pool_iff by (auto simp: is_live_def)
  qed
  have "records_ok env h s'"
    by (rule replaced_records_ok [OF rep core_okD(1) [OF C] val' _ live])
      (simp add: cr)
  moreover have "supply_ok env s'"
    by (rule replaced_supply_ok [OF rep C val'])
      (simp add: moved_supply [OF mv1] moved_supply [OF mv2] issued_supply [OF iss] am_lp new [simplified] res)
  moreover have "custody_ok env s'"
  proof (rule replaced_custody_ok [OF rep core_okD(2) [OF C]])
    fix d
    have "liability d ?p' - liability d p = - amount_of withdrawal d"
      using dd res new by (auto simp: liability_def am)
    then show "bank_balance env (lp_bank s) (lp_module env) d + (liability d ?p' - liability d p)
        \<le> bank_balance env (lp_bank s') (lp_module env) d"
      using moved_balance [OF mv1, of "lp_module env" d] moved_balance [OF mv2, of "lp_module env" d]
        issued_balance [OF iss, of "lp_module env" d] sm by (simp add: lp_module_def)
  qed
  ultimately show ?thesis by (simp add: core_ok_def)
qed

lemma no_live_pair:
  assumes "core_ok env h s" "sdk_laws env" "valid_denom env a" "valid_denom env b"
    and "get_pool_by_denoms s a b = None" "get_pool s k = Some q" "is_live q"
  shows "pool_pair_key q \<noteq> denom_pair_key a b"
proof
  assume key: "pool_pair_key q = denom_pair_key a b"
  note D = index_okD [OF core_okD(4) [OF assms(1)]]
  have idx: "kv_get (lp_denom_index s) (denom_pair_key a b) = Some k"
    using D(6) [of "denom_pair_key a b" k] assms(6,7) key by blast
  have val: "validate_genesis_pool env q = Inr ()" by (rule core_okD(7) [OF assms(1,6)])
  have len: "length x < 2 ^ 32" if "valid_denom env x" for x
    using valid_denom_length [OF assms(2) that] by simp
  have "same_denom_pair (pool_denom_a q) (pool_denom_b q) a b"
    using key denom_pair_key_eq_iff [of "pool_denom_a q" "pool_denom_b q" a b] val len assms(3,4)
    by (simp add: pool_pair_key_def same_denom_pair_def validate_pool_iff)
  with idx assms(5,6,7) show False by (simp add: get_pool_by_denoms_def is_live_def)
qed

lemma consume_admission_valid:
  "validate_params env p = Inr () \<Longrightarrow> validate_params env (consume_admission c p) = Inr ()"
  unfolding validate_params_ok consume_admission_def
  by (auto simp: list_all_iff distinct_remove1 length_remove1 dest: notin_set_remove1 split: if_splits
      intro: order_trans [OF diff_le_self])

lemma consume_admission_fields [simp]:
  "max_pools (consume_admission c p) = max_pools p"
  "twap_window_blocks (consume_admission c p) = twap_window_blocks p"
  "default_swap_fee_bps (consume_admission c p) = default_swap_fee_bps p"
  by (simp_all add: consume_admission_def)

lemma created_pool_fields [simp]:
  "pool_id (created_pool h m n f a b lp) = format_pool_id n"
  "pool_denom_a (created_pool h m n f a b lp) = cp_denom_a m" "pool_denom_b (created_pool h m n f a b lp) = cp_denom_b m"
  "pool_reserve_a (created_pool h m n f a b lp) = big_string a" "pool_reserve_b (created_pool h m n f a b lp) = big_string b"
  "pool_lp_token_supply (created_pool h m n f a b lp) = big_string lp"
  "pool_lp_denom (created_pool h m n f a b lp) = lp_denom_of (format_pool_id n)"
  "pool_creator (created_pool h m n f a b lp) = cp_creator m" "pool_created_at (created_pool h m n f a b lp) = to_u64 h"
  "pool_swap_fee_bps (created_pool h m n f a b lp) = f" "pool_status (created_pool h m n f a b lp) = POOL_STATUS_ACTIVE"
  "\<not> pool_locked (created_pool h m n f a b lp)" "pool_closed_at (created_pool h m n f a b lp) = 0"
  by (simp_all add: created_pool_def)

lemma created_pool_valid:
  assumes "validate_create_pool env m = Inr ()" "acc_address env (cp_creator m) = Some c"
    and "0 < a" "a < 2 ^ sdk_max_bits" "0 < b" "b < 2 ^ sdk_max_bits" "f \<le> max_swap_fee_bps"
  shows "validate_genesis_pool env (created_pool h m n f a b (big_sqrt (a * b))) = Inr ()"
    and "big_sqrt (a * b) < 2 ^ sdk_max_bits"
proof -
  show "big_sqrt (a * b) < 2 ^ sdk_max_bits" using initial_lp_tokens(3) [OF assms(3,5)] assms(4,6) by simp
  with assms initial_lp_tokens(2) [OF assms(3,5)]
  show "validate_genesis_pool env (created_pool h m n f a b (big_sqrt (a * b))) = Inr ()"
    unfolding validate_pool_iff validate_create_pool_Inr by auto
qed

text \<open>What the store looks like after a pool was added under a fresh id.\<close>

lemma set_fresh_pool:
  assumes "index_ok s" "get_pool s (pool_id p) = None" "is_live p"
    and "\<And>k q. get_pool s k = Some q \<Longrightarrow> is_live q \<Longrightarrow> pool_pair_key q \<noteq> pool_pair_key p"
  shows "index_ok (set_pool p s)" "kv_sum f (lp_pools (set_pool p s)) = kv_sum f (lp_pools s) + f p"
proof -
  have "pair_free_for s p" using assms(4) by (auto simp: pair_free_for_def)
  then show "index_ok (set_pool p s)" using assms by (intro set_pool_index_ok) auto
  show "kv_sum f (lp_pools (set_pool p s)) = kv_sum f (lp_pools s) + f p"
    using assms(2) kv_sum_set [OF index_okD(1) [OF assms(1)]] by (simp add: get_pool_def)
qed

lemma get_pool_params [simp]: "get_pool (set_params p s) = get_pool s"
  by (simp add: get_pool_def set_params_def fun_eq_iff)

lemma get_params_set [simp]: "get_params (set_params p s) = p"
  by (simp add: get_params_def set_params_def)

lemma index_ok_params [simp]: "index_ok (set_params p s) = index_ok s"
  by (simp add: index_ok_def) (simp add: set_params_def)

lemma create_pool_core_ok:
  assumes C: "core_ok env h s" and L: "sdk_laws env" and run: "create_pool env h m s = Done s' pid"
    and ext: "acc_address env (cp_creator m) \<noteq> Some (lp_module env)"
  shows "core_ok env h s'"
  using run L
proof (rule create_pool_effect)
  fix a b counter n creator deposit lp_coins b1 b2 b3 s2
  let ?f = "default_swap_fee_bps (get_params s)"
  let ?p = "created_pool h m counter ?f a b (big_sqrt (a * b))"
  let ?s1 = "s\<lparr>lp_bank := b1, lp_counter := Some (counter + 1)\<rparr>"
  assume val: "validate_create_pool env m = Inr ()" and cr: "acc_address env (cp_creator m) = Some creator"
    and cnt: "count_open_pools s = Inr n" "n < max_pools (get_params s)"
    and free: "get_pool_by_denoms s (cp_denom_a m) (cp_denom_b m) = None"
    and am: "parse_positive_amount (cp_amount_a m) = Inr a" "parse_positive_amount (cp_amount_b m) = Inr b"
    and fee: "?f \<le> max_swap_fee_bps"
    and ctr: "get_next_pool_id s = Inr counter" "counter \<le> max_pool_records_cap" and pid: "pid = format_pool_id counter"
    and fresh: "get_pool s pid = None" "bank_supply env (lp_bank s) (lp_denom_of pid) = 0"
    and lp: "0 < big_sqrt (a * b)"
    and dc: "new_coins env [(cp_denom_a m, a), (cp_denom_b m, b)] = Some deposit"
    and lc: "new_coins env [(lp_denom_of pid, big_sqrt (a * b))] = Some lp_coins"
    and mv1: "moved env creator (module_address env lp_module_name) deposit (lp_bank s) b1"
    and iss: "issued env 1 (module_address env lp_module_name) lp_coins b1 b2"
    and mv2: "moved env (module_address env lp_module_name) creator lp_coins b2 b3"
    and s2: "s2 = set_params (consume_admission (counter_denom_of m) (get_params s)) (set_pool ?p ?s1\<lparr>lp_bank := b3\<rparr>)"
    and tw: "update_twap_accumulator h ?p s2 = Done s' ()"
  have sm: "creator \<noteq> lp_module env" using ext cr by simp
  note ab = positive_amount_facts [OF am(1)] positive_amount_facts [OF am(2)]
  note new = created_pool_valid(1) [OF val cr ab(2,3,5,6) fee, where h = h and n = counter]
    created_pool_valid(2) [OF val cr ab(2,3,5,6) fee]
  note V = val [unfolded validate_create_pool_Inr]
  note ok = core_okD(4) [OF C]
  have gp1: "get_pool ?s1 = get_pool s" by (simp add: get_pool_def fun_eq_iff)
  have ok1: "index_ok ?s1" using ok by (simp add: index_ok_def get_pool_def)
  have nl: "pool_pair_key q \<noteq> pool_pair_key ?p" if "get_pool s k = Some q" "is_live q" for k q
    using no_live_pair [OF C L _ _ free that] V by (simp add: pool_pair_key_def)
  have live: "is_live ?p" by (simp add: is_live_def)
  have gp2: "get_pool s2 k = (if k = pid then Some ?p else get_pool s k)" for k
    by (simp add: s2 gp1 pid)
  have ok2: "index_ok s2"
    using set_fresh_pool(1) [OF ok1 _ live] gp1 fresh(1) nl by (simp add: s2 pid)
  have sum2: "kv_sum f (lp_pools s2) = kv_sum f (lp_pools s) + f ?p" for f
    using set_fresh_pool(2) [OF ok1 _ live, of f] gp1 fresh(1) nl by (simp add: s2 pid set_params_def)
  have "uint counter \<le> 10000" using ctr(2) by (simp add: max_pool_records_cap_def word_le_def)
  then have un: "uint (counter + 1) = uint counter + 1" by (simp add: u64_add_no_wrap)
  have "counter + 1 \<noteq> 0"
  proof
    assume "counter + 1 = 0"
    with un have "uint counter + 1 = 0" by simp
    with u64_bounds(1) [of counter] show False by linarith
  qed
  then have next2: "get_next_pool_id s2 = Inr (counter + 1)"
    by (simp add: s2 get_next_pool_id_def set_params_def)
  from C ctr(1) have old: "get_pool s k = Some q \<Longrightarrow> \<exists>i. parse_pool_id k = Some i \<and> i < counter" for k q
    by (auto simp: core_ok_def records_ok_def)
  have "counter \<noteq> 0" using ctr(1) by (auto simp: get_next_pool_id_def split: option.splits if_splits)
  then have pp: "parse_pool_id pid = Some counter" by (simp add: parse_pool_id_Some pid)
  have lt: "i < counter \<Longrightarrow> i < counter + 1" "counter < counter + 1" for i
    using un by (simp_all add: u64_less)
  have old': "get_pool s k = Some q \<Longrightarrow> \<exists>i. parse_pool_id k = Some i \<and> i < counter + 1" for k q
    using old lt(1) by blast
  have par2: "get_params s2 = consume_admission (counter_denom_of m) (get_params s)" by (simp add: s2)
  have "int (kv_count is_live (lp_pools s2)) = int (kv_count is_live (lp_pools s)) + 1"
    unfolding kv_count_as_sum sum2 using live by simp
  moreover have "uint n = int (kv_count is_live (lp_pools s))"
  proof -
    have "int (kv_count is_live (lp_pools s)) \<le> uint (max_pools (get_params s))"
      using C by (simp add: core_ok_def records_ok_def)
    then have "int (kv_count is_live (lp_pools s)) < 2 ^ 64"
      using u64_bounds(2) [of "max_pools (get_params s)"] by linarith
    then have "uint (of_nat (kv_count is_live (lp_pools s)) :: u64) = int (kv_count is_live (lp_pools s))"
      by (rule uint_of_nat_small)
    moreover have "n = of_nat (kv_count is_live (lp_pools s))" using cnt(1) count_open_pools_exact [OF ok] by simp
    ultimately show ?thesis by simp
  qed
  ultimately have cnt2: "int (kv_count is_live (lp_pools s2)) \<le> uint (max_pools (get_params s2))"
    using cnt(2) by (simp add: par2 u64_less)
  have uh: "uint (to_u64 h) = h" using core_okD(5,6) [OF C] by (intro uint_to_u64) simp_all
  have "records_ok env h s2"
    unfolding records_ok_def
    using core_okD(5,6,7,8,11) [OF C] ok2 par2 next2 cnt2 un \<open>uint counter \<le> 10000\<close> old' lt(2) pp new(1) uh
    by (auto simp: gp2 consume_admission_valid)
  moreover have b3: "lp_bank s2 = b3" by (simp add: s2 set_params_def)
  have "custody_ok env s2"
    unfolding custody_ok_def
  proof
    fix d
    have "liability d ?p = amount_of deposit d"
      using ab V new_coins_amount [OF dc, of d] by (simp add: liability_def)
    then show "kv_sum (liability d) (lp_pools s2) \<le> bank_balance env (lp_bank s2) (lp_module env) d"
      using moved_balance [OF mv1, of "lp_module env" d] moved_balance [OF mv2, of "lp_module env" d]
        issued_balance [OF iss, of "lp_module env" d] sm core_okD(10) [OF C, of d] b3
      by (simp add: lp_module_def sum2)
  qed
  moreover have "supply_ok env s2"
    unfolding supply_ok_def
  proof (intro allI impI)
    fix k q
    assume q: "get_pool s2 k = Some q"
    have sup: "bank_supply env (lp_bank s2) d
        = bank_supply env (lp_bank s) d + (if d = lp_denom_of pid then big_sqrt (a * b) else 0)" for d
      using moved_supply [OF mv1, of d] moved_supply [OF mv2, of d] issued_supply [OF iss, of d]
        new_coins_amount [OF lc, of d] by (simp add: s2 set_params_def)
    show "bank_supply env (lp_bank s2) (pool_lp_denom q) = lp_sup q"
    proof (cases "k = pid")
      case True
      with q have "q = ?p" by (simp add: gp2)
      then show ?thesis using sup fresh(2) new(2) lp by (simp add: pid)
    next
      case False
      with q have q': "get_pool s k = Some q" by (simp add: gp2)
      have "pool_lp_denom q = lp_denom_of k"
        using core_okD(7) [OF C q'] index_okD(4) [OF ok q'] by (simp add: validate_pool_iff)
      with False show ?thesis using sup core_okD(9) [OF C q'] by simp
    qed
  qed
  ultimately have "core_ok env h s2" by (simp add: core_ok_def)
  then show "core_ok env h s'" using core_ok_frame [OF update_twap_frame [OF tw]] by blast
qed

section \<open>Governance messages and the block hook\<close>

lemma update_params_core_ok:
  assumes C: "core_ok env h s" and run: "update_params env authority m s = Done s' r"
  shows "core_ok env h s'"
  using run
proof (rule update_params_effect)
  fix p n
  assume val: "validate_params env p = Inr ()" and cnt: "count_open_pools s = Inr n" "n \<le> max_pools p"
    and s': "s' = set_params p s"
  note ok = core_okD(4) [OF C]
  have "int (kv_count is_live (lp_pools s)) < 2 ^ 64"
    using C u64_bounds(2) [of "max_pools (get_params s)"] by (simp add: core_ok_def records_ok_def)
  then have "uint (of_nat (kv_count is_live (lp_pools s)) :: u64) = int (kv_count is_live (lp_pools s))"
    by (rule uint_of_nat_small)
  moreover have "n = of_nat (kv_count is_live (lp_pools s))" using cnt(1) count_open_pools_exact [OF ok] by simp
  ultimately have "int (kv_count is_live (lp_pools s)) \<le> uint (max_pools p)" using cnt(2) by (simp add: u64_le)
  moreover have "lp_pools s' = lp_pools s" "lp_bank s' = lp_bank s" "get_next_pool_id s' = get_next_pool_id s"
    "get_params s' = p" "get_pool s' = get_pool s" "index_ok s' = index_ok s"
    by (simp_all add: s' get_next_pool_id_def) (simp_all add: set_params_def)
  ultimately show ?thesis
    using C val unfolding core_ok_def records_ok_def custody_ok_def supply_ok_def by simp
qed

lemma set_pool_status_core_ok:
  assumes C: "core_ok env h s" and run: "set_pool_status env authority h m s = Done s' r"
  shows "core_ok env h s'"
  using run core_okD(4) [OF C]
proof (rule set_pool_status_effect)
  fix p :: pool and s1
  let ?p' = "p\<lparr>pool_status := ss_status m\<rparr>"
  assume st: "is_open_pool_status (ss_status m)" and pool: "get_pool s (ss_pool_id m) = Some p" and live: "is_live p"
    and rep: "replaced s s' p ?p'" and bank: "lp_bank s' = lp_bank s"
  have val: "validate_genesis_pool env p = Inr ()" by (rule core_okD(7) [OF C pool])
  have val': "validate_genesis_pool env ?p' = Inr ()"
    using val live st valid_pool_closed_iff [OF val] unfolding validate_pool_iff by auto
  have "records_ok env h s'"
    by (rule replaced_records_ok [OF rep core_okD(1) [OF C] val' _ live]) (simp add: core_okD(8) [OF C pool])
  moreover have "supply_ok env s'"
    by (rule replaced_supply_ok [OF rep C val']) (simp add: bank)
  moreover have "custody_ok env s'"
    by (rule replaced_custody_ok [OF rep core_okD(2) [OF C]]) (simp add: bank liability_def)
  ultimately show ?thesis by (simp add: core_ok_def)
qed

fun lp_signer :: "lp_msg \<Rightarrow> string" where
  "lp_signer (MsgCreatePool m) = cp_creator m"
| "lp_signer (MsgSwap m) = sw_sender m"
| "lp_signer (MsgAddLiquidity m) = al_sender m"
| "lp_signer (MsgRemoveLiquidity m) = rl_sender m"
| "lp_signer (MsgUpdateParams m) = up_authority m"
| "lp_signer (MsgSetPoolStatus m) = ss_authority m"

text \<open>The module account has no key, so no message is signed by it.\<close>

definition externally_signed :: "'b sdk \<Rightarrow> lp_msg \<Rightarrow> bool" where
  "externally_signed env m \<longleftrightarrow> acc_address env (lp_signer m) \<noteq> Some (lp_module env)"

lemma lp_handle_core_ok:
  assumes "core_ok env h s" "sdk_laws env" "lp_handle env authority h m s = Done s' r" "externally_signed env m"
  shows "core_ok env h s'"
  using assms
  by (cases m)
    (auto simp: discard_Done externally_signed_def
      intro: create_pool_core_ok swap_core_ok add_liquidity_core_ok remove_liquidity_core_ok
        update_params_core_ok set_pool_status_core_ok)

lemma core_ok_later: "core_ok env h s \<Longrightarrow> h \<le> h' \<Longrightarrow> h' < 2 ^ 63 \<Longrightarrow> core_ok env h' s"
  unfolding core_ok_def records_ok_def by (auto intro: order_trans)

lemma collect_markers_frame:
  "lp_pools (collect_markers ids n s) = lp_pools s \<and> lp_denom_index (collect_markers ids n s) = lp_denom_index s \<and>
   lp_open_index (collect_markers ids n s) = lp_open_index s \<and> lp_counter (collect_markers ids n s) = lp_counter s \<and>
   lp_bank (collect_markers ids n s) = lp_bank s \<and> lp_accs (collect_markers ids n s) = lp_accs s \<and>
   lp_params_record (collect_markers ids n s) = lp_params_record s"
  by (induction ids n s rule: collect_markers.induct) (simp_all add: Let_def)

text \<open>Two states with the same records, counter, parameters and bank.\<close>

definition same_records :: "'b lp_state \<Rightarrow> 'b lp_state \<Rightarrow> bool" where
  "same_records s s' \<longleftrightarrow>
     lp_pools s' = lp_pools s \<and> lp_denom_index s' = lp_denom_index s \<and> lp_open_index s' = lp_open_index s \<and>
     lp_counter s' = lp_counter s \<and> lp_bank s' = lp_bank s \<and> lp_params_record s' = lp_params_record s"

lemma same_records_core_ok: "same_records s s' \<Longrightarrow> core_ok env h s' = core_ok env h s"
  by (simp add: same_records_def core_ok_def records_ok_def custody_ok_def supply_ok_def index_ok_def
      get_pool_def get_params_def get_next_pool_id_def)

lemma same_records_refl [simp]: "same_records s s"
  by (simp add: same_records_def)

lemma same_records_trans: "same_records s s1 \<Longrightarrow> same_records s1 s2 \<Longrightarrow> same_records s s2"
  by (simp add: same_records_def)

lemma same_but_twap_records: "same_but_twap s s' \<Longrightarrow> same_records s s'"
  by (simp add: same_but_twap_def same_records_def)

lemma gc_records: "process_twap_garbage_collection s = Done s' u \<Longrightarrow> same_records s s'"
  by (auto simp: process_twap_garbage_collection_def Let_def same_records_def collect_markers_frame split: if_splits)

lemma update_open_pools_records: "update_open_pools h ids s = Done s' u \<Longrightarrow> same_records s s'"
proof (induction ids arbitrary: s)
  case (Cons k ids)
  then obtain p s1 where "update_twap_accumulator h p s = Done s1 ()" "update_open_pools h ids s1 = Done s' u"
    by (auto simp: and_then_Done split: option.splits if_splits)
  with Cons.IH show ?case
    using same_records_trans [OF same_but_twap_records [OF update_twap_frame]] by blast
qed simp

lemma begin_block_records: "begin_block h s = Done s' u \<Longrightarrow> same_records s s'"
  unfolding begin_block_def
  by (auto simp: and_then_Done intro: same_records_trans dest: gc_records update_open_pools_records)

end
