(* ===== verification/LP_Twap.thy ===== *)
theory LP_Twap
  imports LP_Invariants
begin

text \<open>
  The average-price oracle of the liquidity-pool module: every open pool has an accumulator whose
  cumulative prices grow with the block height and never reach the 512 bits at which the parser
  would refuse them, the retained observations of a pool lie in the governed window, are monotone
  and end at the accumulator, and the history of a closed pool is queued for deletion.  So the
  block hook never panics, and a price quoted from the window is the exact difference quotient of
  two retained observations.
\<close>

section \<open>Reading cumulative prices\<close>

definition cum_of :: "string \<Rightarrow> int" where
  "cum_of v = (case parse_cumulative_amount v of Inl e \<Rightarrow> 0 | Inr x \<Rightarrow> x)"

definition cum_parses :: "string \<Rightarrow> bool" where
  "cum_parses v \<longleftrightarrow> parse_cumulative_amount v = Inr (cum_of v)"

lemma cum_of_string [simp]: "0 \<le> x \<Longrightarrow> x < 2 ^ 512 \<Longrightarrow> cum_of (big_string x) = x"
  by (simp add: cum_of_def)

lemma cum_parses_string [simp]: "0 \<le> x \<Longrightarrow> x < 2 ^ 512 \<Longrightarrow> cum_parses (big_string x)"
  by (simp add: cum_parses_def)

lemma cum_zero: "cum_parses ''0'' \<and> cum_of ''0'' = 0"
proof -
  have "''0'' = big_string 0" by (simp add: big_string_def digits10.simps digit_char_def)
  then show ?thesis by (metis cum_of_string cum_parses_string order_refl zero_less_power zero_less_numeral)
qed

lemma cum_of_nonneg: "cum_parses v \<Longrightarrow> 0 \<le> cum_of v"
  by (simp add: cum_parses_def parse_cumulative_Inr)

lemma cum_parses_Inr: "parse_cumulative_amount v = Inr x \<Longrightarrow> cum_parses v \<and> cum_of v = x"
  by (simp add: cum_parses_def cum_of_def)

section \<open>Deleting observations\<close>

lemma map_of_filter_keys: "map_of (filter (\<lambda>e. fst e \<notin> S) m) k = (if k \<in> S then None else map_of m k)"
  by (induction m) (auto split: if_splits)

lemma kv_ok_filter: "kv_ok m \<Longrightarrow> kv_ok (filter P m)"
  unfolding kv_ok_def by (induction m) auto

lemma observation_keys_sorted:
  "kv_ok (lp_observations s) \<Longrightarrow> sorted_wrt (<) (map fst (observation_entries s pid))"
  using kv_ok_filter by (force simp: observation_entries_def kv_ok_def)

lemma takeWhile_height:
  "sorted_wrt (<) ks \<Longrightarrow> \<forall>k \<in> set ks. fst k = pid \<Longrightarrow>
    takeWhile (\<lambda>k. snd k < c) ks = filter (\<lambda>k. snd k < c) (ks :: (string \<times> u64) list)"
proof (induction ks)
  case (Cons x ks)
  show ?case
  proof (cases "snd x < c")
    case True
    with Cons show ?thesis by simp
  next
    case False
    have "\<not> snd y < c" if "y \<in> set ks" for y
    proof -
      have "x < y" "fst x = fst y" using that Cons.prems by auto
      then have "snd x < snd y" by (auto simp: less_prod_def)
      with False show ?thesis by auto
    qed
    with False show ?thesis by simp
  qed
qed simp

lemma prune_get:
  assumes "kv_ok (lp_observations s)"
  shows "kv_get (lp_observations (prune_twap_observations pid c r s)) (k, g) =
      (if k = pid \<and> r < c \<and> g < c - r then None else kv_get (lp_observations s) (k, g))"
    and "kv_ok (lp_observations (prune_twap_observations pid c r s))"
proof -
  let ?ks = "map fst (observation_entries s pid)"
  have "\<forall>k \<in> set ?ks. fst k = pid" by (auto simp: observation_entries_def)
  with observation_keys_sorted [OF assms]
  have tw: "takeWhile (\<lambda>k. snd k < c - r) ?ks = filter (\<lambda>k. snd k < c - r) ?ks" by (rule takeWhile_height)
  have mem: "(k, g) \<in> set ?ks \<longleftrightarrow> k = pid \<and> kv_get (lp_observations s) (k, g) \<noteq> None"
    by (auto simp: observation_entries_def map_of_eq_None_iff image_iff) force
  define S where "S = {x \<in> set ?ks. snd x < c - r}"
  have obs: "lp_observations (prune_twap_observations pid c r s) =
      (if c \<le> r then lp_observations s else filter (\<lambda>e. fst e \<notin> S) (lp_observations s))"
    by (simp add: prune_twap_observations_def Let_def tw S_def)
  have "(k, g) \<in> S \<longleftrightarrow> k = pid \<and> g < c - r \<and> kv_get (lp_observations s) (k, g) \<noteq> None"
    using mem by (auto simp: S_def)
  then show "kv_get (lp_observations (prune_twap_observations pid c r s)) (k, g) =
      (if k = pid \<and> r < c \<and> g < c - r then None else kv_get (lp_observations s) (k, g))"
    by (cases "c \<le> r") (auto simp: obs map_of_filter_keys)
  show "kv_ok (lp_observations (prune_twap_observations pid c r s))"
    using assms by (simp add: obs kv_ok_filter)
qed

section \<open>The oracle invariant\<close>

definition window_of :: "'b lp_state \<Rightarrow> u64" where
  "window_of s = twap_window_blocks (get_params s)"

definition price_bits :: nat where
  "price_bits = 296"

definition acc_ok :: "int \<Rightarrow> string \<Rightarrow> pool \<Rightarrow> twap_accumulator \<Rightarrow> bool" where
  "acc_ok h k p a \<longleftrightarrow>
     acc_pool_id a = k \<and> pool_created_at p \<le> acc_start_block a \<and> acc_start_block a \<le> acc_last_block a \<and>
     uint (acc_last_block a) \<le> h \<and> cum_parses (acc_cum_a_to_b a) \<and> cum_parses (acc_cum_b_to_a a) \<and>
     cum_of (acc_cum_a_to_b a) \<le> uint (acc_last_block a) * 2 ^ price_bits \<and>
     cum_of (acc_cum_b_to_a a) \<le> uint (acc_last_block a) * 2 ^ price_bits"

definition obs_ok :: "u64 \<Rightarrow> twap_accumulator \<Rightarrow> twap_observation \<Rightarrow> bool" where
  "obs_ok w a ob \<longleftrightarrow>
     acc_start_block a \<le> obs_block_height ob \<and> obs_block_height ob \<le> acc_last_block a \<and>
     uint (acc_last_block a) \<le> uint w + uint (obs_block_height ob) \<and>
     cum_parses (obs_cum_a_to_b ob) \<and> cum_parses (obs_cum_b_to_a ob) \<and>
     cum_of (obs_cum_a_to_b ob) \<le> cum_of (acc_cum_a_to_b a) \<and>
     cum_of (obs_cum_b_to_a ob) \<le> cum_of (acc_cum_b_to_a a)"

definition checkpoint_of :: "twap_accumulator \<Rightarrow> twap_observation" where
  "checkpoint_of a =
     \<lparr>obs_pool_id = acc_pool_id a, obs_block_height = acc_last_block a,
      obs_cum_a_to_b = acc_cum_a_to_b a, obs_cum_b_to_a = acc_cum_b_to_a a\<rparr>"

definition obs_le :: "twap_observation \<Rightarrow> twap_observation \<Rightarrow> bool" where
  "obs_le x y \<longleftrightarrow> cum_of (obs_cum_a_to_b x) \<le> cum_of (obs_cum_a_to_b y) \<and>
     cum_of (obs_cum_b_to_a x) \<le> cum_of (obs_cum_b_to_a y)"

text \<open>\<open>fresh\<close> names pools that were just created and have no accumulator yet.\<close>

definition twap_ok_except :: "string set \<Rightarrow> int \<Rightarrow> 'b lp_state \<Rightarrow> bool" where
  "twap_ok_except fresh h s \<longleftrightarrow>
     kv_ok (lp_accs s) \<and> kv_ok (lp_observations s) \<and> kv_ok (lp_gc s) \<and>
     (\<forall>k a. kv_get (lp_accs s) k = Some a \<longrightarrow>
        (\<exists>p. get_pool s k = Some p \<and> is_live p \<and> acc_ok h k p a) \<and>
        kv_get (lp_observations s) (k, acc_last_block a) = Some (checkpoint_of a)) \<and>
     (\<forall>k p. get_pool s k = Some p \<and> is_live p \<and> k \<notin> fresh \<longrightarrow> kv_get (lp_accs s) k \<noteq> None) \<and>
     (\<forall>k. kv_get (lp_gc s) k \<noteq> None \<longrightarrow> k \<noteq> [] \<and> (\<exists>p. get_pool s k = Some p \<and> \<not> is_live p)) \<and>
     (\<forall>k g ob. kv_get (lp_observations s) (k, g) = Some ob \<longrightarrow>
        obs_pool_id ob = k \<and> obs_block_height ob = g) \<and>
     (\<forall>k g ob. kv_get (lp_observations s) (k, g) = Some ob \<longrightarrow>
        kv_get (lp_accs s) k = None \<longrightarrow> kv_get (lp_gc s) k \<noteq> None) \<and>
     (\<forall>k g ob a. kv_get (lp_observations s) (k, g) = Some ob \<longrightarrow>
        kv_get (lp_accs s) k = Some a \<longrightarrow> obs_ok (window_of s) a ob) \<and>
     (\<forall>k g g' ob ob' a. kv_get (lp_observations s) (k, g) = Some ob \<longrightarrow>
        kv_get (lp_observations s) (k, g') = Some ob' \<longrightarrow> kv_get (lp_accs s) k = Some a \<longrightarrow> g \<le> g' \<longrightarrow> obs_le ob ob')"

definition twap_ok :: "int \<Rightarrow> 'b lp_state \<Rightarrow> bool" where
  "twap_ok h s \<longleftrightarrow> twap_ok_except {} h s"

lemma twap_okD:
  assumes "twap_ok_except fresh h s"
  shows "kv_ok (lp_accs s)" "kv_ok (lp_observations s)" "kv_ok (lp_gc s)"
    and "kv_get (lp_accs s) k = Some a \<Longrightarrow> \<exists>p. get_pool s k = Some p \<and> is_live p \<and> acc_ok h k p a"
    and "kv_get (lp_accs s) k = Some a \<Longrightarrow> kv_get (lp_observations s) (k, acc_last_block a) = Some (checkpoint_of a)"
    and "get_pool s k = Some p \<Longrightarrow> is_live p \<Longrightarrow> k \<notin> fresh \<Longrightarrow> kv_get (lp_accs s) k \<noteq> None"
    and "kv_get (lp_gc s) k \<noteq> None \<Longrightarrow> k \<noteq> [] \<and> (\<exists>p. get_pool s k = Some p \<and> \<not> is_live p)"
    and "kv_get (lp_observations s) (k, g) = Some ob \<Longrightarrow> obs_pool_id ob = k \<and> obs_block_height ob = g"
    and "kv_get (lp_observations s) (k, g) = Some ob \<Longrightarrow> kv_get (lp_accs s) k = None \<Longrightarrow> kv_get (lp_gc s) k \<noteq> None"
    and "kv_get (lp_observations s) (k, g) = Some ob \<Longrightarrow> kv_get (lp_accs s) k = Some a \<Longrightarrow> obs_ok (window_of s) a ob"
    and "kv_get (lp_observations s) (k, g) = Some ob \<Longrightarrow> kv_get (lp_observations s) (k, g') = Some ob' \<Longrightarrow>
      kv_get (lp_accs s) k = Some a \<Longrightarrow> g \<le> g' \<Longrightarrow> obs_le ob ob'"
proof -
  note c = assms [unfolded twap_ok_except_def]
  note accs = c [THEN conjunct2, THEN conjunct2, THEN conjunct2, THEN conjunct1]
    and live = c [THEN conjunct2, THEN conjunct2, THEN conjunct2, THEN conjunct2, THEN conjunct1]
    and gc = c [THEN conjunct2, THEN conjunct2, THEN conjunct2, THEN conjunct2, THEN conjunct2, THEN conjunct1]
    and ids = c [THEN conjunct2, THEN conjunct2, THEN conjunct2, THEN conjunct2, THEN conjunct2, THEN conjunct2, THEN conjunct1]
    and orphan = c [THEN conjunct2, THEN conjunct2, THEN conjunct2, THEN conjunct2, THEN conjunct2, THEN conjunct2, THEN conjunct2, THEN conjunct1]
    and obs = c [THEN conjunct2, THEN conjunct2, THEN conjunct2, THEN conjunct2, THEN conjunct2, THEN conjunct2, THEN conjunct2, THEN conjunct2, THEN conjunct1]
    and mono = c [THEN conjunct2, THEN conjunct2, THEN conjunct2, THEN conjunct2, THEN conjunct2, THEN conjunct2, THEN conjunct2, THEN conjunct2, THEN conjunct2]
  show "kv_ok (lp_accs s)" "kv_ok (lp_observations s)" "kv_ok (lp_gc s)" using c by simp_all
  show "kv_get (lp_accs s) k = Some a \<Longrightarrow> \<exists>p. get_pool s k = Some p \<and> is_live p \<and> acc_ok h k p a"
    "kv_get (lp_accs s) k = Some a \<Longrightarrow> kv_get (lp_observations s) (k, acc_last_block a) = Some (checkpoint_of a)"
    using accs by blast+
  show "get_pool s k = Some p \<Longrightarrow> is_live p \<Longrightarrow> k \<notin> fresh \<Longrightarrow> kv_get (lp_accs s) k \<noteq> None"
    using live by blast
  show "kv_get (lp_gc s) k \<noteq> None \<Longrightarrow> k \<noteq> [] \<and> (\<exists>p. get_pool s k = Some p \<and> \<not> is_live p)"
    using gc by blast
  show "kv_get (lp_observations s) (k, g) = Some ob \<Longrightarrow> obs_pool_id ob = k \<and> obs_block_height ob = g"
    using ids by blast
  show "kv_get (lp_observations s) (k, g) = Some ob \<Longrightarrow> kv_get (lp_accs s) k = None \<Longrightarrow> kv_get (lp_gc s) k \<noteq> None"
    using orphan by blast
  show "kv_get (lp_observations s) (k, g) = Some ob \<Longrightarrow> kv_get (lp_accs s) k = Some a \<Longrightarrow> obs_ok (window_of s) a ob"
    using obs by blast
  show "kv_get (lp_observations s) (k, g) = Some ob \<Longrightarrow> kv_get (lp_observations s) (k, g') = Some ob' \<Longrightarrow>
      kv_get (lp_accs s) k = Some a \<Longrightarrow> g \<le> g' \<Longrightarrow> obs_le ob ob'"
    using mono by blast
qed

lemma twap_okI:
  assumes "kv_ok (lp_accs s)" "kv_ok (lp_observations s)" "kv_ok (lp_gc s)"
    and "\<And>k a. kv_get (lp_accs s) k = Some a \<Longrightarrow> \<exists>p. get_pool s k = Some p \<and> is_live p \<and> acc_ok h k p a"
    and "\<And>k a. kv_get (lp_accs s) k = Some a \<Longrightarrow> kv_get (lp_observations s) (k, acc_last_block a) = Some (checkpoint_of a)"
    and "\<And>k p. get_pool s k = Some p \<Longrightarrow> is_live p \<Longrightarrow> k \<notin> fresh \<Longrightarrow> kv_get (lp_accs s) k \<noteq> None"
    and "\<And>k. kv_get (lp_gc s) k \<noteq> None \<Longrightarrow> k \<noteq> [] \<and> (\<exists>p. get_pool s k = Some p \<and> \<not> is_live p)"
    and "\<And>k g ob. kv_get (lp_observations s) (k, g) = Some ob \<Longrightarrow> obs_pool_id ob = k \<and> obs_block_height ob = g"
    and "\<And>k g ob. kv_get (lp_observations s) (k, g) = Some ob \<Longrightarrow> kv_get (lp_accs s) k = None \<Longrightarrow> kv_get (lp_gc s) k \<noteq> None"
    and "\<And>k g ob a. kv_get (lp_observations s) (k, g) = Some ob \<Longrightarrow> kv_get (lp_accs s) k = Some a \<Longrightarrow> obs_ok (window_of s) a ob"
    and "\<And>k g g' ob ob' a. kv_get (lp_observations s) (k, g) = Some ob \<Longrightarrow> kv_get (lp_observations s) (k, g') = Some ob' \<Longrightarrow>
      kv_get (lp_accs s) k = Some a \<Longrightarrow> g \<le> g' \<Longrightarrow> obs_le ob ob'"
  shows "twap_ok_except fresh h s"
  unfolding twap_ok_except_def
  by (intro conjI allI impI; (elim conjE)?) (fact assms | (rule assms; assumption) | metis assms(6) | metis assms(7) | metis assms(8))+

section \<open>One update of an accumulator\<close>

lemma price_bound:
  fixes x :: int
  assumes "0 < x" "x < 2 ^ sdk_max_bits" "0 < y"
  shows "0 \<le> (x * twap_scale) div y" "(x * twap_scale) div y \<le> 2 ^ price_bits"
proof -
  have "x * twap_scale \<le> 2 ^ sdk_max_bits * 2 ^ 40"
    using assms by (intro mult_mono) (simp_all add: twap_scale_def)
  also have "\<dots> = (2 :: int) ^ price_bits" by (simp add: price_bits_def sdk_max_bits_def)
  finally have le: "x * twap_scale \<le> 2 ^ price_bits" .
  show "0 \<le> (x * twap_scale) div y" using assms by (simp add: twap_scale_def pos_imp_zdiv_nonneg_iff)
  have "(x * twap_scale) div y \<le> x * twap_scale"
    using assms mult_left_mono [of 1 y "x * twap_scale"]
    by (intro div_le_self_mult) (simp_all add: twap_scale_def)
  with le show "(x * twap_scale) div y \<le> 2 ^ price_bits" by simp
qed

lemma cum_step:
  fixes c price d last :: int
  assumes "0 \<le> c" "c \<le> last * 2 ^ price_bits" "0 \<le> price" "price \<le> 2 ^ price_bits" "0 \<le> d"
    and "last + d < 2 ^ 64"
  shows "c \<le> c + price * d" "c + price * d \<le> (last + d) * 2 ^ price_bits" "c + price * d < 2 ^ 512"
proof -
  have "0 \<le> price * d" using assms by simp
  then show "c \<le> c + price * d" by simp
  have "price * d \<le> 2 ^ price_bits * d" using assms by (intro mult_right_mono) auto
  with assms(2) show le: "c + price * d \<le> (last + d) * 2 ^ price_bits" by (simp add: algebra_simps)
  have "(last + d) * 2 ^ price_bits \<le> 2 ^ 64 * 2 ^ price_bits"
    using assms(6) by (intro mult_right_mono) auto
  also have "\<dots> < (2 :: int) ^ 512" by (simp add: price_bits_def)
  finally show "c + price * d < 2 ^ 512" using le by simp
qed

text \<open>The accumulator after a block of the prices \<open>pa\<close>, \<open>pb\<close>.\<close>

definition advance_acc :: "twap_accumulator \<Rightarrow> u64 \<Rightarrow> int \<Rightarrow> int \<Rightarrow> twap_accumulator" where
  "advance_acc a cur ra rb =
     a\<lparr>acc_cum_a_to_b := big_string (cum_of (acc_cum_a_to_b a)
          + (rb * twap_scale) div ra * uint (cur - acc_last_block a)),
       acc_cum_b_to_a := big_string (cum_of (acc_cum_b_to_a a)
          + (ra * twap_scale) div rb * uint (cur - acc_last_block a)),
       acc_last_block := cur\<rparr>"

lemma update_twap_advances:
  assumes "pool_status p \<noteq> POOL_STATUS_CLOSED" "0 \<le> h"
    and "kv_get (lp_accs s) (pool_id p) = Some a" "acc_last_block a < to_u64 h"
    and "parse_positive_amount (pool_reserve_a p) = Inr ra" "parse_positive_amount (pool_reserve_b p) = Inr rb"
    and "cum_parses (acc_cum_a_to_b a)" "cum_parses (acc_cum_b_to_a a)" "acc_pool_id a = pool_id p"
  shows "update_twap_accumulator h p s = Done
    (prune_twap_observations (pool_id p) (to_u64 h) (window_of s)
       (set_twap_observation (checkpoint_of (advance_acc a (to_u64 h) ra rb))
          (set_twap_accumulator (advance_acc a (to_u64 h) ra rb) s))) ()"
proof -
  have par: "get_params (set_twap_observation ob (set_twap_accumulator a' s)) = get_params s" for ob a'
    by (simp add: get_params_def)
  show ?thesis
    using assms unfolding update_twap_accumulator_def cum_parses_def
    by (simp add: get_twap_accumulator_def Let_def not_le advance_acc_def checkpoint_of_def window_of_def par)
qed

lemma advance_acc_ok:
  assumes "acc_ok h k p a" "h < 2 ^ 63" "acc_last_block a < to_u64 h" "0 \<le> h"
    and "0 < ra" "ra < 2 ^ sdk_max_bits" "0 < rb" "rb < 2 ^ sdk_max_bits"
  shows "acc_ok h k p (advance_acc a (to_u64 h) ra rb)"
    and "cum_of (acc_cum_a_to_b a) \<le> cum_of (acc_cum_a_to_b (advance_acc a (to_u64 h) ra rb))"
    and "cum_of (acc_cum_b_to_a a) \<le> cum_of (acc_cum_b_to_a (advance_acc a (to_u64 h) ra rb))"
proof -
  have uh: "uint (to_u64 h) = h" using assms(2,4) by (intro uint_to_u64) simp_all
  let ?d = "uint (to_u64 h - acc_last_block a)"
  have d: "?d = h - uint (acc_last_block a)" using assms(3) uh by (simp add: u64_sub_no_wrap less_imp_le)
  have lt: "uint (acc_last_block a) < h" using assms(3) uh by (simp add: u64_less)
  note A = assms(1) [unfolded acc_ok_def]
  have base: "0 \<le> ?d" "uint (acc_last_block a) + ?d < 2 ^ 64" using d lt assms(2) by simp_all
  have sum: "uint (acc_last_block a) + ?d = h" using d by simp
  note sa = cum_step [OF cum_of_nonneg _ price_bound [OF assms(7,8,5)] base, of "acc_cum_a_to_b a", unfolded sum]
  note sb = cum_step [OF cum_of_nonneg _ price_bound [OF assms(5,6,7)] base, of "acc_cum_b_to_a a", unfolded sum]
  have na: "0 \<le> cum_of (acc_cum_a_to_b a) + rb * twap_scale div ra * ?d"
    and nb: "0 \<le> cum_of (acc_cum_b_to_a a) + ra * twap_scale div rb * ?d"
    using A sa(1) sb(1) cum_of_nonneg by (blast intro: order_trans)+
  show "acc_ok h k p (advance_acc a (to_u64 h) ra rb)"
    unfolding acc_ok_def advance_acc_def using A sa(2,3) sb(2,3) na nb uh lt by (simp add: u64_le)
  show "cum_of (acc_cum_a_to_b a) \<le> cum_of (acc_cum_a_to_b (advance_acc a (to_u64 h) ra rb))"
    "cum_of (acc_cum_b_to_a a) \<le> cum_of (acc_cum_b_to_a (advance_acc a (to_u64 h) ra rb))"
    using A sa(1,3) sb(1,3) na nb by (simp_all add: advance_acc_def)
qed

lemma update_twap_runs:
  assumes C: "core_ok env h s" and T: "twap_ok_except F h s" and pool: "get_pool s k = Some p" and live: "is_live p"
  obtains s' where "update_twap_accumulator h p s = Done s' ()" "twap_ok_except (F - {k}) h s'"
proof -
  note D = twap_okD [OF T]
  note ok = core_okD(4) [OF C]
  have pid: "pool_id p = k" using index_okD(4) [OF ok pool] .
  have st: "pool_status p \<noteq> POOL_STATUS_CLOSED" using live by (simp add: is_live_def)
  have h: "0 \<le> h" "h < 2 ^ 63" using core_okD(5,6) [OF C] by simp_all
  have uh: "uint (to_u64 h) = h" using h by (intro uint_to_u64) simp_all
  have val: "validate_genesis_pool env p = Inr ()" by (rule core_okD(7) [OF C pool])
  show thesis
  proof (cases "kv_get (lp_accs s) k")
    case None
    define a where "a = \<lparr>acc_pool_id = k, acc_last_block = to_u64 h, acc_cum_a_to_b = ''0'',
       acc_cum_b_to_a = ''0'', acc_start_block = to_u64 h\<rparr>"
    define s1 where "s1 = set_twap_observation (checkpoint_of a) (set_twap_accumulator a s)"
    have run: "update_twap_accumulator h p s = Done s1 ()"
      using st h None pid
      by (simp add: update_twap_accumulator_def get_twap_accumulator_def s1_def a_def checkpoint_of_def Let_def)
    have fr: "same_but_twap s s1" by (rule update_twap_frame [OF run])
    have gc: "kv_get (lp_gc s) k = None" using D(7) [of k] pool live by (cases "kv_get (lp_gc s) k") auto
    have none: "kv_get (lp_observations s) (k, g) = None" for g
      using D(9) [of k g] None gc by (cases "kv_get (lp_observations s) (k, g)") auto
    have accs: "kv_get (lp_accs s1) k' = (if k' = k then Some a else kv_get (lp_accs s) k')" for k'
      by (simp add: s1_def a_def)
    have obs: "kv_get (lp_observations s1) (k', g) =
        (if k' = k \<and> g = to_u64 h then Some (checkpoint_of a) else kv_get (lp_observations s) (k', g))" for k' g
      by (simp add: s1_def a_def checkpoint_of_def)
    have a_ok: "acc_ok h k p a"
      using core_okD(8) [OF C pool] uh cum_zero h by (simp add: acc_ok_def a_def u64_le)
    have o_ok: "obs_ok (window_of s1) a (checkpoint_of a)"
      using uh cum_zero u64_bounds(1) [of "window_of s1"] by (simp add: obs_ok_def a_def checkpoint_of_def)
    have win: "window_of s1 = window_of s" using same_but_twapD [OF fr] by (simp add: window_of_def)
    have gp: "get_pool s1 = get_pool s" "lp_gc s1 = lp_gc s" using same_but_twapD [OF fr] by simp_all
    have "twap_ok_except (F - {k}) h s1"
    proof (rule twap_okI)
      show "kv_ok (lp_accs s1)" "kv_ok (lp_observations s1)" "kv_ok (lp_gc s1)"
        using D(1,2,3) by (simp_all add: s1_def)
    qed (use D a_ok o_ok none pool live in
        \<open>auto simp: accs obs gp win a_def checkpoint_of_def obs_le_def split: if_splits\<close>)
    with run show thesis by (rule that)
  next
    case (Some a)
    from D(4) [OF Some] pool have a_ok: "acc_ok h k p a" by auto
    note A = a_ok [unfolded acc_ok_def]
    show thesis
    proof (cases "acc_last_block a < to_u64 h")
      case False
      then have "update_twap_accumulator h p s = Done s ()"
        using st h Some pid by (simp add: update_twap_accumulator_def get_twap_accumulator_def Let_def not_less)
      moreover have "twap_ok_except (F - {k}) h s"
      proof (rule twap_okI)
        fix k' p' assume "get_pool s k' = Some p'" "is_live p'" "k' \<notin> F - {k}"
        then show "kv_get (lp_accs s) k' \<noteq> None" using D(6) [of k' p'] Some by (cases "k' = k") auto
      qed (fact D | (rule D; assumption))+
      ultimately show thesis by (rule that)
    next
      case True
      from val live obtain ra rb where ra: "parse_positive_amount (pool_reserve_a p) = Inr ra"
        and rb: "parse_positive_amount (pool_reserve_b p) = Inr rb"
        unfolding validate_pool_iff is_live_def by (auto simp: parse_positive_Inr parse_non_negative_Inr)
      define a' where "a' = advance_acc a (to_u64 h) ra rb"
      note pos = positive_amount_facts(2,3) [OF ra] positive_amount_facts(2,3) [OF rb]
      note adv = advance_acc_ok [OF a_ok h(2) True h(1) pos, folded a'_def]
      define s1 where "s1 = prune_twap_observations k (to_u64 h) (window_of s)
         (set_twap_observation (checkpoint_of a') (set_twap_accumulator a' s))"
      have run: "update_twap_accumulator h p s = Done s1 ()"
        using update_twap_advances [OF st h(1), of s a ra rb] Some True ra rb A pid by (simp add: s1_def a'_def)
      have fr: "same_but_twap s s1" by (rule update_twap_frame [OF run])
      have a': "acc_pool_id a' = k" "acc_last_block a' = to_u64 h" "acc_start_block a' = acc_start_block a"
        using A by (simp_all add: a'_def advance_acc_def)
      have accs: "kv_get (lp_accs s1) k' = (if k' = k then Some a' else kv_get (lp_accs s) k')" for k'
        by (simp add: s1_def a')
      have ko: "kv_ok (lp_observations (set_twap_observation (checkpoint_of a') (set_twap_accumulator a' s)))"
        using D(2) by simp
      have obs: "kv_get (lp_observations s1) (k', g) =
          (if k' = k \<and> window_of s < to_u64 h \<and> g < to_u64 h - window_of s then None
           else if k' = k \<and> g = to_u64 h then Some (checkpoint_of a') else kv_get (lp_observations s) (k', g))" for k' g
        unfolding s1_def prune_get(1) [OF ko] by (simp add: checkpoint_of_def a')
      have win: "window_of s1 = window_of s" using same_but_twapD [OF fr] by (simp add: window_of_def)
      have gp: "get_pool s1 = get_pool s" "lp_gc s1 = lp_gc s" using same_but_twapD [OF fr] by simp_all
      have keep: "\<not> (window_of s < to_u64 h \<and> to_u64 h < to_u64 h - window_of s)"
        using u64_bounds(1) [of "window_of s"] by (auto simp: u64_less u64_sub_uint)
      have old: "obs_ok (window_of s) a' ob \<and> g < to_u64 h \<and> obs_le ob (checkpoint_of a')"
        if "kv_get (lp_observations s) (k, g) = Some ob" "\<not> (window_of s < to_u64 h \<and> g < to_u64 h - window_of s)"
          "g \<noteq> to_u64 h \<or> True" for g ob
      proof -
        have "obs_block_height ob = g" using D(8) [OF that(1)] by simp
        moreover note D(10) [OF that(1) Some, unfolded obs_ok_def]
        moreover have "h \<le> uint (window_of s) + uint g"
        proof (cases "window_of s < to_u64 h")
          case True
          with that(2) have "uint (to_u64 h - window_of s) \<le> uint g" by (simp add: u64_less)
          with True show ?thesis using uh by (simp add: u64_less u64_sub_uint)
        next
          case False
          then have "h \<le> uint (window_of s)" using uh by (simp add: u64_less)
          then show ?thesis using u64_bounds(1) [of g] by linarith
        qed
        ultimately show ?thesis
          using True adv(2,3) uh a' by (auto simp: obs_ok_def obs_le_def checkpoint_of_def u64_le u64_less)
      qed
      have new: "obs_ok (window_of s) a' (checkpoint_of a')"
        using adv(1) u64_bounds(1) [of "window_of s"] by (simp add: obs_ok_def acc_ok_def checkpoint_of_def)
      have "twap_ok_except (F - {k}) h s1"
      proof (rule twap_okI)
        show "kv_ok (lp_accs s1)" "kv_ok (lp_gc s1)" using D(1,3) by (simp_all add: s1_def)
        show "kv_ok (lp_observations s1)" unfolding s1_def by (rule prune_get(2) [OF ko])
      next
        fix k' b assume b: "kv_get (lp_accs s1) k' = Some b"
        then show "\<exists>p. get_pool s1 k' = Some p \<and> is_live p \<and> acc_ok h k' p b"
          using D(4) [of k' b] adv(1) pool live by (auto simp: accs gp split: if_splits)
        from b show "kv_get (lp_observations s1) (k', acc_last_block b) = Some (checkpoint_of b)"
          using D(5) [of k' b] keep a' by (auto simp: accs obs split: if_splits)
      next
        fix k' p' assume "get_pool s1 k' = Some p'" "is_live p'" "k' \<notin> F - {k}"
        then show "kv_get (lp_accs s1) k' \<noteq> None" using D(6) [of k' p'] by (auto simp: accs gp)
      next
        fix k' assume "kv_get (lp_gc s1) k' \<noteq> None"
        then show "k' \<noteq> [] \<and> (\<exists>p. get_pool s1 k' = Some p \<and> \<not> is_live p)" using D(7) [of k'] by (simp add: gp)
      next
        fix k' g ob assume "kv_get (lp_observations s1) (k', g) = Some ob"
        then show "obs_pool_id ob = k' \<and> obs_block_height ob = g"
          using D(8) [of k' g ob] a' by (auto simp: obs checkpoint_of_def split: if_splits)
      next
        fix k' g ob assume "kv_get (lp_observations s1) (k', g) = Some ob" "kv_get (lp_accs s1) k' = None"
        then show "kv_get (lp_gc s1) k' \<noteq> None"
          using D(9) [of k' g ob] by (auto simp: accs obs gp split: if_splits)
      next
        fix k' g ob b assume o: "kv_get (lp_observations s1) (k', g) = Some ob" and b: "kv_get (lp_accs s1) k' = Some b"
        show "obs_ok (window_of s1) b ob"
        proof (cases "k' = k")
          case True
          with o b old [of g ob] new show ?thesis by (auto simp: accs obs win split: if_splits)
        next
          case False
          with o b D(10) [of k' g ob b] show ?thesis by (simp add: accs obs win)
        qed
      next
        fix k' g g' ob ob' b
        assume o: "kv_get (lp_observations s1) (k', g) = Some ob" "kv_get (lp_observations s1) (k', g') = Some ob'"
          and b: "kv_get (lp_accs s1) k' = Some b" and le: "g \<le> g'"
        show "obs_le ob ob'"
        proof (cases "k' = k")
          case False
          with o b le D(11) [of k' g ob g' ob' b] show ?thesis by (simp add: accs obs)
        next
          case True
          show ?thesis
          proof (cases "g' = to_u64 h")
            case g': True
            with o \<open>k' = k\<close> keep have "ob' = checkpoint_of a'" by (simp add: obs split: if_splits)
            with o(1) \<open>k' = k\<close> old [of g ob] show ?thesis by (auto simp: obs obs_le_def split: if_splits)
          next
            case g': False
            from o(2) \<open>k' = k\<close> g' have o2: "kv_get (lp_observations s) (k, g') = Some ob'" 
              and "\<not> (window_of s < to_u64 h \<and> g' < to_u64 h - window_of s)" by (auto simp: obs split: if_splits)
            with old [of g' ob'] have "g' < to_u64 h" by simp
            with le have "g \<noteq> to_u64 h" by auto
            with o(1) \<open>k' = k\<close> have "kv_get (lp_observations s) (k, g) = Some ob" by (auto simp: obs split: if_splits)
            from D(11) [OF this o2 Some le] show ?thesis .
          qed
        qed
      qed
      with run show thesis by (rule that)
    qed
  qed
qed

section \<open>Every message keeps the oracle invariant\<close>

lemma twap_ok_replaced:
  assumes T: "twap_ok_except F h s" and R: "replaced s s' p p'" and live: "is_live p" "is_live p'"
    and cr: "pool_created_at p' = pool_created_at p"
    and eq: "lp_accs s' = lp_accs s" "lp_observations s' = lp_observations s" "lp_gc s' = lp_gc s"
  shows "twap_ok_except F h s'"
proof -
  note D = twap_okD [OF T] and RD = replacedD [OF R]
  have win: "window_of s' = window_of s" by (simp add: window_of_def RD(6))
  have acc: "acc_ok h k p' a = acc_ok h k p a" for k a by (simp add: acc_ok_def cr)
  have up: "\<exists>q'. get_pool s' k = Some q' \<and> is_live q' \<and> acc_ok h k q' a"
    if "get_pool s k = Some q" "is_live q" "acc_ok h k q a" for k q a
    using that RD(1) by (cases "k = pool_id p") (auto simp: RD(4) live acc)
  have down: "\<exists>q. get_pool s k = Some q \<and> is_live q" if "get_pool s' k = Some q'" "is_live q'" for k q'
    using that RD(1) live by (cases "k = pool_id p") (auto simp: RD(4))
  have closed: "\<exists>q'. get_pool s' k = Some q' \<and> \<not> is_live q'" if "get_pool s k = Some q" "\<not> is_live q" for k q
    using that RD(1) live by (cases "k = pool_id p") (auto simp: RD(4))
  show ?thesis
  proof (rule twap_okI, unfold eq win)
    fix k a assume "kv_get (lp_accs s) k = Some a"
    then show "\<exists>p. get_pool s' k = Some p \<and> is_live p \<and> acc_ok h k p a" using D(4) up by blast
  next
    fix k q assume "get_pool s' k = Some q" "is_live q" "k \<notin> F"
    then show "kv_get (lp_accs s) k \<noteq> None" using down D(6) by blast
  next
    fix k assume "kv_get (lp_gc s) k \<noteq> None"
    then show "k \<noteq> [] \<and> (\<exists>p. get_pool s' k = Some p \<and> \<not> is_live p)" using D(7) closed by blast
  qed (fact D | (rule D; assumption))+
qed

lemma twap_ok_closed:
  assumes T: "twap_ok h s" and R: "replaced s s' p p'" and dead: "\<not> is_live p'" and live: "is_live p"
    and ne: "pool_id p \<noteq> []"
    and eq: "lp_accs s' = kv_del (pool_id p) (lp_accs s)" "lp_observations s' = lp_observations s"
      "lp_gc s' = kv_set (pool_id p) () (lp_gc s)"
  shows "twap_ok h s'"
proof -
  note D = twap_okD [OF T [unfolded twap_ok_def]] and RD = replacedD [OF R]
  have win: "window_of s' = window_of s" by (simp add: window_of_def RD(6))
  have "twap_ok_except {} h s'"
  proof (rule twap_okI)
    show "kv_ok (lp_accs s')" "kv_ok (lp_observations s')" "kv_ok (lp_gc s')" using D(1-3) by (simp_all add: eq)
  next
    fix k a assume "kv_get (lp_accs s') k = Some a"
    then have a: "k \<noteq> pool_id p" "kv_get (lp_accs s) k = Some a" by (auto simp: eq split: if_splits)
    then show "\<exists>p. get_pool s' k = Some p \<and> is_live p \<and> acc_ok h k p a" using D(4) [OF a(2)] by (auto simp: RD(4))
    show "kv_get (lp_observations s') (k, acc_last_block a) = Some (checkpoint_of a)" using D(5) [OF a(2)] by (simp add: eq)
  next
    fix k q assume "get_pool s' k = Some q" "is_live q"
    then show "kv_get (lp_accs s') k \<noteq> None"
      using D(6) [of k q] dead by (cases "k = pool_id p") (auto simp: RD(4) eq)
  next
    fix k assume "kv_get (lp_gc s') k \<noteq> None"
    then show "k \<noteq> [] \<and> (\<exists>p. get_pool s' k = Some p \<and> \<not> is_live p)"
      using D(7) [of k] dead ne by (cases "k = pool_id p") (auto simp: RD(4) eq)
  next
    fix k g ob assume "kv_get (lp_observations s') (k, g) = Some ob"
    then show "obs_pool_id ob = k \<and> obs_block_height ob = g" using D(8) by (simp add: eq)
  next
    fix k g ob assume "kv_get (lp_observations s') (k, g) = Some ob" "kv_get (lp_accs s') k = None"
    then show "kv_get (lp_gc s') k \<noteq> None" using D(9) [of k g ob] by (auto simp: eq split: if_splits)
  next
    fix k g ob a assume "kv_get (lp_observations s') (k, g) = Some ob" "kv_get (lp_accs s') k = Some a"
    then show "obs_ok (window_of s') a ob" using D(10) [of k g ob a] by (auto simp: eq win split: if_splits)
  next
    fix k g g' ob ob' a
    assume "kv_get (lp_observations s') (k, g) = Some ob" "kv_get (lp_observations s') (k, g') = Some ob'"
      "kv_get (lp_accs s') k = Some a" "g \<le> g'"
    then show "obs_le ob ob'" using D(11) [of k g ob g' ob' a] by (auto simp: eq split: if_splits)
  qed
  then show ?thesis by (simp add: twap_ok_def)
qed

text \<open>A pool message first advances the accumulator of its pool and then replaces the record.\<close>

lemma twap_ok_message:
  assumes C: "core_ok env h s" and T: "twap_ok h s" and pool: "get_pool s k = Some p" and live: "is_live p"
    and up: "update_twap_accumulator h p s = Done s1 ()"
  shows "twap_ok h s1"
  using C T [unfolded twap_ok_def] pool live
  by (rule update_twap_runs) (use up in \<open>simp add: twap_ok_def\<close>)

lemma swap_twap_ok:
  assumes C: "core_ok env h s" and T: "twap_ok h s" and L: "sdk_laws env" and run: "swap env h m s = Done s' r"
  shows "twap_ok h s'"
  using run core_okD(4) [OF C] L
proof (rule swap_effect)
  fix q :: swap_quote and sender s1 b1 ins outs
  assume q: "checked_swap_quote env s (sw_pool_id m) (sw_token_in_denom m) (sw_token_in_amount m) = Inr q"
    and up: "update_twap_accumulator h (q_pool q) s = Done s1 ()"
    and rep: "replaced s s' (q_pool q) (swapped_pool q (sw_token_in_denom m))"
    and eq: "lp_accs s' = lp_accs s1" "lp_observations s' = lp_observations s1" "lp_gc s' = lp_gc s"
  from q obtain "get_pool s (sw_pool_id m) = Some (q_pool q)" "pool_status (q_pool q) = POOL_STATUS_ACTIVE"
    by (rule checked_swap_quote_Inr) blast
  then have "get_pool s (sw_pool_id m) = Some (q_pool q)" and live: "is_live (q_pool q)" by (simp_all add: is_live_def)
  then have "twap_ok_except {} h s1" using twap_ok_message [OF C T _ _ up] by (simp add: twap_ok_def)
  moreover have fr: "same_but_twap s s1" by (rule update_twap_frame [OF up])
  ultimately have "twap_ok_except {} h s'"
    using live eq same_but_twapD(4) [OF fr] rep replaced_twap_left [OF fr]
    by (intro twap_ok_replaced [of "{}" h s1 s' "q_pool q" "swapped_pool q (sw_token_in_denom m)"])
      (simp_all add: is_live_def)
  then show ?thesis by (simp add: twap_ok_def)
qed

lemma add_liquidity_twap_ok:
  assumes C: "core_ok env h s" and T: "twap_ok h s" and L: "sdk_laws env"
    and run: "add_liquidity env h m s = Done s' r"
  shows "twap_ok h s'"
  using run core_okD(4) [OF C] L
proof (rule add_liquidity_effect)
  fix p ra rb tot da db a b lp sender s1 b1 b2 deposit lp_coins
  let ?p' = "deposited_pool p (ra + a) (rb + b) (tot + lp)"
  assume pool: "get_pool s (al_pool_id m) = Some p" and st: "can_add_liquidity (pool_status p)"
    and up: "update_twap_accumulator h p s = Done s1 ()" and rep: "replaced s s' p ?p'"
    and eq: "lp_accs s' = lp_accs s1" "lp_observations s' = lp_observations s1" "lp_gc s' = lp_gc s"
  have live: "is_live p" using st by (auto simp: is_live_def can_add_liquidity_def)
  have "twap_ok_except {} h s1" using twap_ok_message [OF C T pool live up] by (simp add: twap_ok_def)
  moreover have fr: "same_but_twap s s1" by (rule update_twap_frame [OF up])
  ultimately have "twap_ok_except {} h s'"
    using live eq same_but_twapD(4) [OF fr] rep replaced_twap_left [OF fr]
    by (intro twap_ok_replaced [of "{}" h s1 s' p ?p']) (simp_all add: is_live_def)
  then show ?thesis by (simp add: twap_ok_def)
qed

lemma stored_pool_id_not_Nil: "core_ok env h s \<Longrightarrow> get_pool s k = Some p \<Longrightarrow> k \<noteq> []"
  by (fastforce simp: core_ok_def records_ok_def parse_pool_id_def)

lemma remove_liquidity_twap_ok:
  assumes C: "core_ok env h s" and T: "twap_ok h s" and L: "sdk_laws env"
    and run: "remove_liquidity env h m s = Done s' r"
  shows "twap_ok h s'"
  using run core_okD(4) [OF C] L
proof (rule remove_liquidity_effect)
  fix p ra rb tot lp a b sender s1 b1 b2 lp_coins withdrawal
  let ?p' = "withdrawn_pool h p (ra - a) (rb - b) (tot - lp)"
  assume pool: "get_pool s (rl_pool_id m) = Some p" and st: "can_remove_liquidity (pool_status p)"
    and up: "update_twap_accumulator h p s = Done s1 ()" and rep: "replaced s s' p ?p'"
    and eq: "lp_accs s' = (if lp = tot then kv_del (pool_id p) (lp_accs s1) else lp_accs s1)"
      "lp_observations s' = lp_observations s1"
      "lp_gc s' = (if lp = tot then kv_set (pool_id p) () (lp_gc s) else lp_gc s)"
  have live: "is_live p" using st by (auto simp: is_live_def can_remove_liquidity_def)
  have T1: "twap_ok h s1" by (rule twap_ok_message [OF C T pool live up])
  have fr: "same_but_twap s s1" by (rule update_twap_frame [OF up])
  have rep1: "replaced s1 s' p ?p'" using rep replaced_twap_left [OF fr] by blast
  have pid: "pool_id p = rl_pool_id m" using index_okD(4) [OF core_okD(4) [OF C] pool] .
  show ?thesis
  proof (cases "lp = tot")
    case True
    show ?thesis
      by (rule twap_ok_closed [OF T1 rep1 _ live])
        (use True eq same_but_twapD(4) [OF fr] stored_pool_id_not_Nil [OF C pool] pid in \<open>simp_all add: is_live_def\<close>)
  next
    case False
    then have "is_live ?p'" using live by (simp add: is_live_def)
    then have "twap_ok_except {} h s'"
      using T1 rep1 live False eq same_but_twapD(4) [OF fr]
      by (intro twap_ok_replaced [of "{}" h s1 s' p ?p']) (simp_all add: twap_ok_def)
    then show ?thesis by (simp add: twap_ok_def)
  qed
qed

lemma set_pool_status_twap_ok:
  assumes C: "core_ok env h s" and T: "twap_ok h s" and run: "set_pool_status env authority h m s = Done s' r"
  shows "twap_ok h s'"
  using run core_okD(4) [OF C]
proof (rule set_pool_status_effect)
  fix p :: pool and s1
  let ?p' = "p\<lparr>pool_status := ss_status m\<rparr>"
  assume pool: "get_pool s (ss_pool_id m) = Some p" and st: "is_open_pool_status (ss_status m)" and live: "is_live p"
    and up: "update_twap_accumulator h p s = Done s1 ()" and rep: "replaced s s' p ?p'"
    and eq: "lp_accs s' = lp_accs s1" "lp_observations s' = lp_observations s1" "lp_gc s' = lp_gc s"
  have "twap_ok_except {} h s1" using twap_ok_message [OF C T pool live up] by (simp add: twap_ok_def)
  moreover have fr: "same_but_twap s s1" by (rule update_twap_frame [OF up])
  moreover have "is_live ?p'" using st by (auto simp: is_live_def)
  ultimately have "twap_ok_except {} h s'"
    using live eq same_but_twapD(4) [OF fr] rep replaced_twap_left [OF fr]
    by (intro twap_ok_replaced [of "{}" h s1 s' p ?p']) simp_all
  then show ?thesis by (simp add: twap_ok_def)
qed

lemma twap_ok_cong:
  assumes T: "twap_ok_except F h s" and eq: "get_pool s' = get_pool s" "lp_accs s' = lp_accs s"
    "lp_observations s' = lp_observations s" "lp_gc s' = lp_gc s" and win: "window_of s \<le> window_of s'"
  shows "twap_ok_except F h s'"
proof -
  note D = twap_okD [OF T]
  have ob: "obs_ok (window_of s) a ob \<Longrightarrow> obs_ok (window_of s') a ob" for a ob
    using win by (auto simp: obs_ok_def u64_le)
  show ?thesis
    by (rule twap_okI, unfold eq) (fact D | (rule D; assumption) | (rule ob, rule D(10); assumption))+
qed

lemma update_params_twap_ok:
  assumes "twap_ok h s" "update_params env authority m s = Done s' r"
  shows "twap_ok h s'"
  using assms(2)
proof (rule update_params_effect)
  fix p n assume "twap_window_blocks (get_params s) \<le> twap_window_blocks p" and s': "s' = set_params p s"
  then have "window_of s \<le> window_of s'" by (simp add: window_of_def)
  then show ?thesis
    unfolding twap_ok_def s'
    by (intro twap_ok_cong [OF assms(1) [unfolded twap_ok_def]]) (simp_all add: set_params_def get_pool_def fun_eq_iff)
qed

lemma create_pool_twap_ok:
  assumes C: "core_ok env h s" and T: "twap_ok h s" and L: "sdk_laws env" and run: "create_pool env h m s = Done s' pid"
    and ext: "acc_address env (cp_creator m) \<noteq> Some (lp_module env)"
  shows "twap_ok h s'"
  using run L
proof (rule create_pool_effect)
  fix a b counter n creator deposit lp_coins b1 b2 b3 s2
  let ?p = "created_pool h m counter (default_swap_fee_bps (get_params s)) a b (big_sqrt (a * b))"
  assume pid: "pid = format_pool_id counter" and fresh: "get_pool s pid = None"
    and s2: "s2 = set_params (consume_admission (counter_denom_of m) (get_params s))
        (set_pool ?p (s\<lparr>lp_bank := b1, lp_counter := Some (counter + 1)\<rparr>)\<lparr>lp_bank := b3\<rparr>)"
    and up: "update_twap_accumulator h ?p s2 = Done s' ()"
  note D = twap_okD [OF T [unfolded twap_ok_def]]
  have gp: "get_pool s2 k = (if k = pid then Some ?p else get_pool s k)" for k
    by (simp add: s2 pid get_pool_def set_params_def)
  have eq: "lp_accs s2 = lp_accs s" "lp_observations s2 = lp_observations s" "lp_gc s2 = lp_gc s"
    by (simp_all add: s2 set_params_def)
  have win: "window_of s2 = window_of s" by (simp add: window_of_def s2)
  have "twap_ok_except {pid} h s2"
  proof (rule twap_okI, unfold eq win)
    fix k x assume "kv_get (lp_accs s) k = Some x"
    then show "\<exists>p. get_pool s2 k = Some p \<and> is_live p \<and> acc_ok h k p x"
      using D(4) [of k x] fresh by (auto simp: gp)
  next
    fix k p' assume "get_pool s2 k = Some p'" "is_live p'" "k \<notin> {pid}"
    then show "kv_get (lp_accs s) k \<noteq> None" using D(6) [of k p'] by (simp add: gp)
  next
    fix k assume "kv_get (lp_gc s) k \<noteq> None"
    then show "k \<noteq> [] \<and> (\<exists>p. get_pool s2 k = Some p \<and> \<not> is_live p)" using D(7) [of k] fresh by (auto simp: gp)
  qed (fact D | (rule D; assumption))+
  moreover have C2: "core_ok env h s2"
    using create_pool_core_ok [OF C L run ext] core_ok_frame [OF update_twap_frame [OF up]] by blast
  moreover have "get_pool s2 pid = Some ?p" "is_live ?p" by (simp_all add: gp is_live_def)
  ultimately obtain s3 where "update_twap_accumulator h ?p s2 = Done s3 ()" "twap_ok_except ({pid} - {pid}) h s3"
    using update_twap_runs [OF C2] by metis
  with up show ?thesis by (simp add: twap_ok_def)
qed

lemma lp_handle_twap_ok:
  assumes "core_ok env h s" "twap_ok h s" "sdk_laws env" "lp_handle env authority h m s = Done s' r"
    and "externally_signed env m"
  shows "twap_ok h s'"
  using assms
  by (cases m)
    (auto simp: discard_Done externally_signed_def
      intro: create_pool_twap_ok swap_twap_ok add_liquidity_twap_ok remove_liquidity_twap_ok
        update_params_twap_ok set_pool_status_twap_ok)

lemma twap_ok_later: "twap_ok h s \<Longrightarrow> h \<le> h' \<Longrightarrow> twap_ok h' s"
proof -
  assume T: "twap_ok h s" and le: "h \<le> h'"
  note D = twap_okD [OF T [unfolded twap_ok_def]]
  have acc: "acc_ok h k p a \<Longrightarrow> acc_ok h' k p a" for k p a using le by (auto simp: acc_ok_def)
  show "twap_ok h' s"
    unfolding twap_ok_def
  proof (rule twap_okI)
    fix k a assume "kv_get (lp_accs s) k = Some a"
    then show "\<exists>p. get_pool s k = Some p \<and> is_live p \<and> acc_ok h' k p a" using D(4) acc by blast
  qed (fact D | (rule D; assumption))+
qed

section \<open>Garbage collection and the block hook\<close>

lemma observation_keys_mem:
  "(k, g) \<in> fst ` set (observation_entries s pid) \<longleftrightarrow> k = pid \<and> kv_get (lp_observations s) (k, g) \<noteq> None"
  by (auto simp: observation_entries_def map_of_eq_None_iff image_iff) force

lemma collect_one_twap_ok:
  assumes T: "twap_ok_except F h s" and gcp: "kv_get (lp_gc s) pid \<noteq> None"
    and s1: "s1 = delete_observations (take n (map fst (observation_entries s pid))) s"
    and s2: "s2 = (if drop n (observation_entries s pid) = [] then s1\<lparr>lp_gc := kv_del pid (lp_gc s1)\<rparr> else s1)"
  shows "twap_ok_except F h s2"
proof -
  note D = twap_okD [OF T]
  let ?K = "set (take n (map fst (observation_entries s pid)))"
  have dead: "kv_get (lp_accs s) pid = None"
    using D(4) [of pid] D(7) [OF gcp] by (cases "kv_get (lp_accs s) pid") auto
  have pids: "k = pid" if "(k, g) \<in> ?K" for k g
    using in_set_takeD [OF that] observation_keys_mem [of k g s pid] by simp
  have obs: "kv_get (lp_observations s2) kg = (if kg \<in> ?K then None else kv_get (lp_observations s) kg)" for kg
    by (simp add: s2 s1 map_of_filter_keys)
  have same: "get_pool s2 = get_pool s" "lp_accs s2 = lp_accs s" "window_of s2 = window_of s"
    by (simp_all add: s2 s1 get_pool_def window_of_def get_params_def fun_eq_iff)
  have gc: "kv_get (lp_gc s2) k = (if k = pid \<and> drop n (observation_entries s pid) = [] then None else kv_get (lp_gc s) k)" for k
    by (simp add: s2 s1)
  have all: "kv_get (lp_observations s2) (pid, g) = None" if "drop n (observation_entries s pid) = []" for g
  proof -
    have "take n (map fst (observation_entries s pid)) = map fst (observation_entries s pid)" using that by simp
    then show ?thesis using observation_keys_mem [of pid g s pid] by (auto simp: obs)
  qed
  have old: "kv_get (lp_observations s) kg = Some ob" if "kv_get (lp_observations s2) kg = Some ob" for kg ob
    using that by (auto simp: obs split: if_splits)
  show ?thesis
  proof (rule twap_okI)
    show "kv_ok (lp_accs s2)" "kv_ok (lp_observations s2)" "kv_ok (lp_gc s2)"
      using D(1-3) by (simp_all add: s2 s1 kv_ok_filter)
  next
    fix k a assume a: "kv_get (lp_accs s2) k = Some a"
    then show "\<exists>p. get_pool s2 k = Some p \<and> is_live p \<and> acc_ok h k p a" using D(4) by (simp add: same)
    from a dead have "k \<noteq> pid" by (auto simp: same)
    with a show "kv_get (lp_observations s2) (k, acc_last_block a) = Some (checkpoint_of a)"
      using D(5) [of k a] pids by (auto simp: same obs)
  next
    fix k p assume "get_pool s2 k = Some p" "is_live p" "k \<notin> F"
    then show "kv_get (lp_accs s2) k \<noteq> None" using D(6) by (simp add: same)
  next
    fix k assume "kv_get (lp_gc s2) k \<noteq> None"
    then show "k \<noteq> [] \<and> (\<exists>p. get_pool s2 k = Some p \<and> \<not> is_live p)"
      using D(7) [of k] by (auto simp: gc same split: if_splits)
  next
    fix k g ob assume "kv_get (lp_observations s2) (k, g) = Some ob"
    then show "obs_pool_id ob = k \<and> obs_block_height ob = g" using old D(8) by blast
  next
    fix k g ob assume o: "kv_get (lp_observations s2) (k, g) = Some ob" and "kv_get (lp_accs s2) k = None"
    then have "kv_get (lp_gc s) k \<noteq> None" using D(9) [OF old [OF o]] by (simp add: same)
    with all o show "kv_get (lp_gc s2) k \<noteq> None" by (auto simp: gc)
  next
    fix k g ob a assume "kv_get (lp_observations s2) (k, g) = Some ob" "kv_get (lp_accs s2) k = Some a"
    then show "obs_ok (window_of s2) a ob" using D(10) [OF old] by (simp add: same)
  next
    fix k g g' ob ob' a
    assume "kv_get (lp_observations s2) (k, g) = Some ob" "kv_get (lp_observations s2) (k, g') = Some ob'"
      "kv_get (lp_accs s2) k = Some a" "g \<le> g'"
    then show "obs_le ob ob'" using D(11) [OF old old] by (simp add: same)
  qed
qed

lemma collect_markers_twap_ok:
  "twap_ok_except F h s \<Longrightarrow> distinct ids \<Longrightarrow> (\<And>k. k \<in> set ids \<Longrightarrow> kv_get (lp_gc s) k \<noteq> None) \<Longrightarrow>
    twap_ok_except F h (collect_markers ids n s)"
proof (induction ids n s rule: collect_markers.induct)
  case (1 n s)
  then show ?case by simp
next
  case (2 pid ids n s)
  define s1 where "s1 = delete_observations (take n (map fst (observation_entries s pid))) s"
  define s2 where "s2 = (if drop n (observation_entries s pid) = [] then s1\<lparr>lp_gc := kv_del pid (lp_gc s1)\<rparr> else s1)"
  have T2: "twap_ok_except F h s2"
    by (rule collect_one_twap_ok [OF 2(2) _ s1_def s2_def]) (use 2(4) in simp)
  have gc: "kv_get (lp_gc s2) k \<noteq> None" if "k \<in> set ids" for k
    using that 2(3) 2(4) [of k] by (auto simp: s2_def s1_def)
  let ?r = "n - length (take n (map fst (observation_entries s pid)))"
  have step: "collect_markers (pid # ids) n s = (if ?r = 0 then s2 else collect_markers ids ?r s2)"
    by (simp add: Let_def s1_def s2_def del: length_take drop_eq_Nil)
  have "twap_ok_except F h (collect_markers ids ?r s2)" if "?r \<noteq> 0"
    by (rule 2(1) [OF refl refl refl s1_def refl _ that])
      (use T2 gc 2(3) in \<open>simp_all add: s2_def del: length_take drop_eq_Nil\<close>)
  with T2 show ?case by (simp add: step del: collect_markers.simps length_take)
qed

lemma gc_runs:
  assumes "twap_ok h s"
  obtains s' where "process_twap_garbage_collection s = Done s' ()" "twap_ok h s'"
proof -
  let ?ids = "take twap_gc_markers_per_block (map fst (lp_gc s))"
  note D = twap_okD [OF assms [unfolded twap_ok_def]]
  have mem: "kv_get (lp_gc s) k \<noteq> None" if "k \<in> set ?ids" for k
    using in_set_takeD [OF that] by (auto simp: map_of_eq_None_iff)
  have "[] \<notin> set ?ids" using mem D(7) by blast
  then have "process_twap_garbage_collection s = Done (collect_markers ?ids twap_gc_deletes_per_block s) ()"
    by (simp add: process_twap_garbage_collection_def Let_def)
  moreover have "twap_ok h (collect_markers ?ids twap_gc_deletes_per_block s)"
    unfolding twap_ok_def
    using assms mem kv_ok_distinct [OF D(3)]
    by (intro collect_markers_twap_ok) (simp_all add: twap_ok_def distinct_take)
  ultimately show thesis by (rule that)
qed

lemma update_open_pools_runs:
  "core_ok env h s \<Longrightarrow> twap_ok h s \<Longrightarrow> (\<And>k. k \<in> set ids \<Longrightarrow> \<exists>p. get_pool s k = Some p \<and> is_live p) \<Longrightarrow>
    \<exists>s'. update_open_pools h ids s = Done s' () \<and> twap_ok h s'"
proof (induction ids arbitrary: s)
  case (Cons k ids)
  then obtain p where p: "get_pool s k = Some p" "is_live p" by auto
  from Cons.prems(1) Cons.prems(2) [unfolded twap_ok_def] p
  obtain s1 where up: "update_twap_accumulator h p s = Done s1 ()" and T1: "twap_ok_except ({} - {k}) h s1"
    by (rule update_twap_runs)
  note fr = update_twap_frame [OF up]
  have "\<exists>s'. update_open_pools h ids s1 = Done s' () \<and> twap_ok h s'"
    using Cons.prems(1,3) T1 core_ok_frame [OF fr] same_but_twapD(9) [OF fr]
    by (intro Cons.IH) (simp_all add: twap_ok_def)
  with up p show ?case by (simp add: is_live_def)
qed simp

lemma begin_block_runs:
  assumes C: "core_ok env h s" and T: "twap_ok h s"
  shows "\<exists>s'. begin_block h s = Done s' () \<and> core_ok env h s' \<and> twap_ok h s'"
proof -
  from T obtain s1 where gc: "process_twap_garbage_collection s = Done s1 ()" and T1: "twap_ok h s1" by (rule gc_runs)
  have C1: "core_ok env h s1" using same_records_core_ok [OF gc_records [OF gc]] C by blast
  note D = index_okD [OF core_okD(4) [OF C1]]
  have "\<exists>p. get_pool s1 k = Some p \<and> is_live p" if "k \<in> set (map snd (lp_open_index s1))" for k
  proof -
    from that obtain i where "(i, k) \<in> set (lp_open_index s1)" by auto
    then have "kv_get (lp_open_index s1) i = Some k" using kv_get_mem [OF D(3)] by blast
    then show ?thesis using D(5) [of i k] by blast
  qed
  then obtain s' where up: "update_open_pools h (map snd (lp_open_index s1)) s1 = Done s' ()" and T': "twap_ok h s'"
    using update_open_pools_runs [OF C1 T1] by blast
  moreover have "core_ok env h s'" using same_records_core_ok [OF update_open_pools_records [OF up]] C1 by blast
  ultimately show ?thesis using gc by (auto simp: begin_block_def)
qed

end
