(* ===== verification/LP_Genesis.thy ===== *)
theory LP_Genesis
  imports LP_Twap
begin

text \<open>
  Genesis of the liquidity-pool module (types/genesis.go, InitGenesis and ExportGenesis of
  keeper.go) and its registered crisis invariant (keeper/invariants.go).  The maps the validator
  builds are the lists of what it has seen; a genesis list cannot hold a nil entry here, the
  other checks are those of the code in its order.

  The main lemmas: an exported state that satisfies the invariants of LP_Invariants and LP_Twap
  validates, and the registered invariant reports nothing on it.
\<close>

section \<open>The genesis state and its validation\<close>

record lp_genesis =
  gen_params :: "lp_params option"
  gen_pools :: "pool list"
  gen_accs :: "twap_accumulator list"
  gen_next_pool_id :: u64
  gen_observations :: "twap_observation list"

definition default_genesis :: lp_genesis where
  "default_genesis = \<lparr>gen_params = Some default_params, gen_pools = [], gen_accs = [], gen_next_pool_id = 1,
     gen_observations = []\<rparr>"

text \<open>The loop over the pools; it returns the largest id and the number of open pools.\<close>

fun check_genesis_pools ::
  "'b sdk \<Rightarrow> string list \<Rightarrow> int list list \<Rightarrow> u64 \<Rightarrow> u64 \<Rightarrow> pool list \<Rightarrow> lp_error + (u64 \<times> u64)" where
  "check_genesis_pools env seen pairs max_id open_count [] = Inr (max_id, open_count)"
| "check_genesis_pools env seen pairs max_id open_count (p # ps) =
     bind_sum (of_option (ErrConfig ''pool id'') (parse_pool_id (pool_id p))) (\<lambda>n.
     if max_pool_records_cap < n then Inl (ErrConfig ''lifetime record cap'')
     else if pool_id p \<in> set seen then Inl (ErrConfig ''duplicate pool ID'')
     else
       let max_id' = (if max_id < n then n else max_id) in
     bind_sum (validate_genesis_pool env p) (\<lambda>_.
     if is_open_pool_status (pool_status p) then
       (if pool_pair_key p \<in> set pairs then Inl (ErrConfig ''duplicate denom pair'')
        else check_genesis_pools env (pool_id p # seen) (pool_pair_key p # pairs) max_id' (open_count + 1) ps)
     else check_genesis_pools env (pool_id p # seen) pairs max_id' open_count ps))"

definition find_genesis_pool :: "pool list \<Rightarrow> string \<Rightarrow> pool option" where
  "find_genesis_pool ps k = find (\<lambda>p. pool_id p = k) ps"

definition find_genesis_acc :: "twap_accumulator list \<Rightarrow> string \<Rightarrow> twap_accumulator option" where
  "find_genesis_acc accs k = find (\<lambda>a. acc_pool_id a = k) accs"

fun check_genesis_accs :: "pool list \<Rightarrow> string list \<Rightarrow> twap_accumulator list \<Rightarrow> lp_error + unit" where
  "check_genesis_accs pools seen [] = Inr ()"
| "check_genesis_accs pools seen (a # as) =
     bind_sum (of_option (ErrConfig ''unknown pool'') (find_genesis_pool pools (acc_pool_id a))) (\<lambda>p.
     if \<not> is_open_pool_status (pool_status p) then Inl (ErrConfig ''closed pool'')
     else if acc_pool_id a \<in> set seen then Inl (ErrConfig ''duplicate TWAP accumulator'')
     else if acc_last_block a < acc_start_block a then Inl (ErrConfig ''last_block'')
     else if acc_start_block a < pool_created_at p then Inl (ErrConfig ''start_block'')
     else bind_sum (parse_cumulative_amount (acc_cum_a_to_b a)) (\<lambda>_.
          bind_sum (parse_cumulative_amount (acc_cum_b_to_a a)) (\<lambda>_.
          check_genesis_accs pools (acc_pool_id a # seen) as)))"

definition observation_key_string :: "twap_observation \<Rightarrow> string" where
  "observation_key_string ob = obs_pool_id ob @ ''/'' @ format_u64 (obs_block_height ob)"

text \<open>The loop over the observations, with the keys and the pool ids already seen.\<close>

fun check_genesis_observations ::
  "u64 \<Rightarrow> twap_accumulator list \<Rightarrow> string list \<Rightarrow> string list \<Rightarrow> twap_observation list \<Rightarrow> lp_error + unit" where
  "check_genesis_observations window accs keys pids [] = Inr ()"
| "check_genesis_observations window accs keys pids (ob # obs) =
     bind_sum (of_option (ErrConfig ''without an accumulator'') (find_genesis_acc accs (obs_pool_id ob))) (\<lambda>a.
     if obs_block_height ob < acc_start_block a \<or> acc_last_block a < obs_block_height ob
       then Inl (ErrConfig ''outside accumulator range'')
     else if window < acc_last_block a \<and> obs_block_height ob < acc_last_block a - window
       then Inl (ErrConfig ''outside retained window'')
     else bind_sum (parse_cumulative_amount (obs_cum_a_to_b ob)) (\<lambda>cum_a.
          bind_sum (parse_cumulative_amount (obs_cum_b_to_a ob)) (\<lambda>cum_b.
     if cum_of (acc_cum_a_to_b a) < cum_a \<or> cum_of (acc_cum_b_to_a a) < cum_b
       then Inl (ErrConfig ''exceeds current cumulative price'')
     else if observation_key_string ob \<in> set keys then Inl (ErrConfig ''duplicate TWAP observation'')
     else if window + 1 < of_nat (length (filter (\<lambda>k. k = obs_pool_id ob) (obs_pool_id ob # pids)))
       then Inl (ErrConfig ''observation count'')
     else check_genesis_observations window accs (observation_key_string ob # keys) (obs_pool_id ob # pids) obs)))"

fun observations_monotone :: "twap_observation list \<Rightarrow> bool" where
  "observations_monotone (x # y # r) \<longleftrightarrow> obs_le x y \<and> observations_monotone (y # r)"
| "observations_monotone _ = True"

definition check_genesis_points :: "twap_observation list \<Rightarrow> twap_accumulator \<Rightarrow> bool" where
  "check_genesis_points obs a =
     (let points = sort_key obs_block_height (filter (\<lambda>ob. obs_pool_id ob = acc_pool_id a) obs)
      in points \<noteq> [] \<and> observations_monotone points \<and>
         obs_block_height (last points) = acc_last_block a \<and>
         cum_of (obs_cum_a_to_b (last points)) = cum_of (acc_cum_a_to_b a) \<and>
         cum_of (obs_cum_b_to_a (last points)) = cum_of (acc_cum_b_to_a a))"

definition validate_genesis :: "'b sdk \<Rightarrow> lp_genesis \<Rightarrow> lp_error + unit" where
  "validate_genesis env gs =
     (case gen_params gs of
        None \<Rightarrow> Inl (ErrConfig ''params cannot be nil'')
      | Some params \<Rightarrow>
          bind_sum (validate_params env params) (\<lambda>_.
          bind_sum (check_genesis_pools env [] [] 0 0 (gen_pools gs)) (\<lambda>(max_id, open_count).
          if max_pools params < open_count then Inl (ErrConfig ''open pool count'')
          else if max_id = max_u64 then Inl (ErrConfig ''pool ID space exhausted'')
          else if gen_next_pool_id gs \<noteq> 0 \<and> gen_next_pool_id gs \<le> max_id then Inl (ErrConfig ''next_pool_id'')
          else if max_pool_records_cap + 1 < gen_next_pool_id gs then Inl (ErrConfig ''lifetime record boundary'')
          else bind_sum (check_genesis_accs (gen_pools gs) [] (gen_accs gs)) (\<lambda>_.
          if \<not> list_all (\<lambda>p. is_open_pool_status (pool_status p) \<longrightarrow> find_genesis_acc (gen_accs gs) (pool_id p) \<noteq> None)
               (gen_pools gs) then Inl (ErrConfig ''missing a TWAP accumulator'')
          else bind_sum (check_genesis_observations (twap_window_blocks params) (gen_accs gs) [] []
                 (gen_observations gs)) (\<lambda>_.
          if \<not> list_all (check_genesis_points (gen_observations gs)) (gen_accs gs)
            then Inl (ErrConfig ''observations do not end at the accumulator'')
          else Inr ())))))"

section \<open>Import and export (keeper.go)\<close>

definition iterate_pools :: "'b lp_state \<Rightarrow> pool list" where
  "iterate_pools s = map snd (lp_pools s)"

definition iterate_twap_accumulators :: "'b lp_state \<Rightarrow> twap_accumulator list" where
  "iterate_twap_accumulators s = map snd (lp_accs s)"

definition iterate_all_observations :: "'b lp_state \<Rightarrow> twap_observation list" where
  "iterate_all_observations s = map snd (lp_observations s)"

definition iterate_twap_garbage_collection :: "'b lp_state \<Rightarrow> lp_error + string list" where
  "iterate_twap_garbage_collection s =
     (if [] \<in> set (map fst (lp_gc s)) then Inl Panic else Inr (map fst (lp_gc s)))"

fun derived_next_id :: "u64 \<Rightarrow> pool list \<Rightarrow> u64" where
  "derived_next_id n [] = n"
| "derived_next_id n (p # ps) =
     (let i = (case parse_pool_id (pool_id p) of None \<Rightarrow> 0 | Some i \<Rightarrow> i)
      in derived_next_id (if n \<le> i then i + 1 else n) ps)"

definition init_genesis :: "'b sdk \<Rightarrow> lp_genesis \<Rightarrow> 'b lp_state \<Rightarrow> ('b, unit) lp_outcome" where
  "init_genesis env gs s =
     (case validate_genesis env gs of
        Inl e \<Rightarrow> Fail s Panic
      | Inr _ \<Rightarrow>
          let s1 = delete_secondary_indexes (set_params (the (gen_params gs)) s);
              s2 = fold set_pool (gen_pools gs) s1;
              s3 = fold set_twap_accumulator (gen_accs gs) s2;
              s4 = fold set_twap_observation (gen_observations gs) s3;
              derived = derived_next_id 1 (gen_pools gs)
          in set_next_pool_id (if gen_next_pool_id gs < derived then derived else gen_next_pool_id gs) s4)"

definition export_genesis :: "'b lp_state \<Rightarrow> lp_error + lp_genesis" where
  "export_genesis s =
     (let accs = iterate_twap_accumulators s
      in bind_sum (get_next_pool_id s) (\<lambda>next.
         Inr \<lparr>gen_params = Some (get_params s), gen_pools = iterate_pools s, gen_accs = accs,
              gen_next_pool_id = next,
              gen_observations = filter (\<lambda>ob. obs_pool_id ob \<in> set (map acc_pool_id accs))
                (iterate_all_observations s)\<rparr>))"

section \<open>The registered invariant (invariants.go)\<close>

text \<open>\<open>addLiability\<close>: the running total per denom.\<close>

definition add_liability :: "string \<Rightarrow> int \<Rightarrow> (string, int) kv \<Rightarrow> (string, int) kv" where
  "add_liability d x m = kv_set d ((case kv_get m d of None \<Rightarrow> 0 | Some y \<Rightarrow> y) + x) m"

definition pool_amounts :: "pool \<Rightarrow> (int \<times> int \<times> int) option" where
  "pool_amounts p =
     (case (parse_non_negative_amount (pool_reserve_a p), parse_non_negative_amount (pool_reserve_b p),
            parse_non_negative_amount (pool_lp_token_supply p)) of
        (Inr a, Inr b, Inr t) \<Rightarrow> Some (a, b, t)
      | _ \<Rightarrow> None)"

fun collect_liabilities :: "pool list \<Rightarrow> (string, int) kv \<Rightarrow> (string, int) kv" where
  "collect_liabilities [] m = m"
| "collect_liabilities (p # ps) m =
     (case pool_amounts p of
        None \<Rightarrow> collect_liabilities ps m
      | Some (a, b, t) \<Rightarrow>
          collect_liabilities ps (add_liability (pool_denom_b p) b (add_liability (pool_denom_a p) a m)))"

definition pool_record_broken :: "'b sdk \<Rightarrow> 'b lp_state \<Rightarrow> pool \<Rightarrow> bool" where
  "pool_record_broken env s p =
     (case pool_amounts p of
        None \<Rightarrow> False
      | Some (a, b, t) \<Rightarrow>
          bank_supply env (lp_bank s) (pool_lp_denom p) \<noteq> t \<or>
          (is_open_pool_status (pool_status p) \<and>
             ((case get_pool_by_denoms s (pool_denom_a p) (pool_denom_b p) of
                 None \<Rightarrow> True | Some q \<Rightarrow> pool_id q \<noteq> pool_id p)
              \<or> kv_get (lp_open_index s) (pool_id p) \<noteq> Some (pool_id p))))"

definition counted_open :: "pool \<Rightarrow> bool" where
  "counted_open p \<longleftrightarrow> pool_amounts p \<noteq> None \<and> is_open_pool_status (pool_status p)"

definition state_consistency_broken :: "'b sdk \<Rightarrow> 'b lp_state \<Rightarrow> bool" where
  "state_consistency_broken env s =
     (case export_genesis s of
        Inl e \<Rightarrow> True
      | Inr gs \<Rightarrow>
          let module_addr = module_address env lp_module_name;
              live = map acc_pool_id (gen_accs gs);
              open_count = (of_nat (length (filter counted_open (gen_pools gs))) :: u64)
          in validate_genesis env gs \<noteq> Inr ()
             \<or> list_ex (pool_record_broken env s) (gen_pools gs)
             \<or> list_ex (\<lambda>(d, x). bank_balance env (lp_bank s) module_addr d < x) (collect_liabilities (gen_pools gs) [])
             \<or> (case iterate_twap_garbage_collection s of
                  Inl e \<Rightarrow> True
                | Inr queued \<Rightarrow>
                    list_ex (\<lambda>k. (case find_genesis_pool (gen_pools gs) k of
                                   None \<Rightarrow> True | Some p \<Rightarrow> pool_status p \<noteq> POOL_STATUS_CLOSED)
                                 \<or> k \<in> set live) queued
                    \<or> list_ex (\<lambda>ob. obs_pool_id ob \<notin> set live \<and> obs_pool_id ob \<notin> set queued)
                        (iterate_all_observations s))
             \<or> of_nat (length (lp_denom_index s)) \<noteq> open_count
             \<or> of_nat (length (lp_open_index s)) \<noteq> open_count)"

section \<open>Exported states validate\<close>

lemma find_by_id:
  "(\<And>k v. (k, v) \<in> set m \<Longrightarrow> f v = k) \<Longrightarrow> find (\<lambda>v. f v = x) (map snd m) = map_of m x"
  by (induction m) auto

lemma map_id_keys: "(\<And>k v. (k, v) \<in> set m \<Longrightarrow> f v = k) \<Longrightarrow> map f (map snd m) = map fst m"
  by (induction m) auto

lemma check_genesis_pools_ok:
  assumes "\<And>p. p \<in> set ps \<Longrightarrow> validate_genesis_pool env p = Inr () \<and>
      (\<exists>i. parse_pool_id (pool_id p) = Some i \<and> i < n \<and> i \<le> max_pool_records_cap)"
    and "distinct (map pool_id ps)" "set seen \<inter> set (map pool_id ps) = {}"
    and "distinct (map pool_pair_key (filter (\<lambda>p. is_open_pool_status (pool_status p)) ps))"
    and "set pairs \<inter> pool_pair_key ` {p \<in> set ps. is_open_pool_status (pool_status p)} = {}"
    and "max_id < n"
  shows "\<exists>m. check_genesis_pools env seen pairs max_id c ps
      = Inr (m, c + of_nat (length (filter (\<lambda>p. is_open_pool_status (pool_status p)) ps))) \<and> m < n"
  using assms
proof (induction ps arbitrary: seen pairs max_id c)
  case (Cons p ps)
  from Cons.prems(1) [of p] obtain i where i: "validate_genesis_pool env p = Inr ()"
    "parse_pool_id (pool_id p) = Some i" "i < n" "i \<le> max_pool_records_cap" by auto
  let ?m = "if max_id < i then i else max_id"
  let ?pairs = "if is_open_pool_status (pool_status p) then pool_pair_key p # pairs else pairs"
  let ?c = "if is_open_pool_status (pool_status p) then c + 1 else c"
  have new: "pool_id p \<notin> set seen" "is_open_pool_status (pool_status p) \<Longrightarrow> pool_pair_key p \<notin> set pairs"
    using Cons.prems(3,5) by auto
  have step: "check_genesis_pools env seen pairs max_id c (p # ps)
      = check_genesis_pools env (pool_id p # seen) ?pairs ?m ?c ps"
  proof -
    have "\<not> max_pool_records_cap < i" using i(4) by simp
    with i new show ?thesis by (simp add: Let_def)
  qed
  have "\<exists>m. check_genesis_pools env (pool_id p # seen) ?pairs ?m ?c ps
      = Inr (m, ?c + of_nat (length (filter (\<lambda>p. is_open_pool_status (pool_status p)) ps))) \<and> m < n"
  proof (rule Cons.IH)
    show "?m < n" using i Cons.prems(6) by simp
    show "set (pool_id p # seen) \<inter> set (map pool_id ps) = {}" using Cons.prems(2,3) by auto
    show "set ?pairs \<inter> pool_pair_key ` {p \<in> set ps. is_open_pool_status (pool_status p)} = {}"
      using Cons.prems(4,5) by auto
  qed (use Cons.prems in \<open>auto split: if_splits\<close>)
  then show ?case unfolding step by (auto simp: algebra_simps)
qed simp

lemma check_genesis_accs_ok:
  assumes "\<And>a. a \<in> set as \<Longrightarrow> \<exists>p. find_genesis_pool pools (acc_pool_id a) = Some p \<and>
      is_open_pool_status (pool_status p) \<and> acc_start_block a \<le> acc_last_block a \<and>
      pool_created_at p \<le> acc_start_block a \<and> cum_parses (acc_cum_a_to_b a) \<and> cum_parses (acc_cum_b_to_a a)"
    and "distinct (map acc_pool_id as)" "set seen \<inter> set (map acc_pool_id as) = {}"
  shows "check_genesis_accs pools seen as = Inr ()"
  using assms
proof (induction as arbitrary: seen)
  case (Cons a as)
  from Cons.prems(1) [of a] obtain p where p: "find_genesis_pool pools (acc_pool_id a) = Some p"
    "is_open_pool_status (pool_status p)" "acc_start_block a \<le> acc_last_block a"
    "pool_created_at p \<le> acc_start_block a" "cum_parses (acc_cum_a_to_b a)" "cum_parses (acc_cum_b_to_a a)" by auto
  have "check_genesis_accs pools (acc_pool_id a # seen) as = Inr ()"
    using Cons.prems by (intro Cons.IH) auto
  with p Cons.prems(3) show ?case by (simp add: not_less cum_parses_def)
qed simp

lemma observation_in_window:
  "obs_ok w a ob \<Longrightarrow> \<not> (w < acc_last_block a \<and> obs_block_height ob < acc_last_block a - w)"
  by (auto simp: obs_ok_def u64_less u64_sub_uint)

lemma check_genesis_observations_ok:
  assumes "\<And>ob. ob \<in> set obs \<Longrightarrow> \<exists>a. find_genesis_acc accs (obs_pool_id ob) = Some a \<and> obs_ok w a ob"
    and "distinct (map observation_key_string obs)" "set keys \<inter> set (map observation_key_string obs) = {}"
    and "\<And>k. int (length (filter (\<lambda>ob. obs_pool_id ob = k) obs)) + int (length (filter (\<lambda>x. x = k) pids))
      \<le> uint (w + 1)"
  shows "check_genesis_observations w accs keys pids obs = Inr ()"
  using assms
proof (induction obs arbitrary: keys pids)
  case (Cons ob obs)
  from Cons.prems(1) [of ob] obtain a where a: "find_genesis_acc accs (obs_pool_id ob) = Some a" "obs_ok w a ob"
    by auto
  have "check_genesis_observations w accs (observation_key_string ob # keys) (obs_pool_id ob # pids) obs = Inr ()"
  proof (rule Cons.IH)
    fix k
    show "int (length (filter (\<lambda>ob. obs_pool_id ob = k) obs)) + int (length (filter (\<lambda>x. x = k) (obs_pool_id ob # pids)))
      \<le> uint (w + 1)"
      using Cons.prems(4) [of k] by (simp split: if_splits)
  qed (use Cons.prems(1-3) in auto)
  moreover have "\<not> w + 1 < of_nat (length (filter (\<lambda>k. k = obs_pool_id ob) (obs_pool_id ob # pids)))"
  proof -
    let ?l = "length (filter (\<lambda>k. k = obs_pool_id ob) (obs_pool_id ob # pids))"
    have le: "int ?l \<le> uint (w + 1)" using Cons.prems(4) [of "obs_pool_id ob"]
      by (auto simp del: of_nat_add split: if_splits)
    then have "int ?l < 2 ^ 64" using u64_bounds(2) [of "w + 1"] by linarith
    from le uint_of_nat_small [OF this] show ?thesis by (simp add: u64_less)
  qed
  moreover note observation_in_window [OF a(2)]
  ultimately show ?case
    using a Cons.prems(3) by (auto simp: obs_ok_def cum_parses_def not_less)
qed simp

lemma observations_monotone_sorted:
  "sorted_wrt obs_le xs \<Longrightarrow> observations_monotone xs"
  by (induction xs rule: observations_monotone.induct) auto

lemma append_sep_inj:
  "x \<notin> set a \<Longrightarrow> x \<notin> set c \<Longrightarrow> a @ x # b = c @ x # d \<longleftrightarrow> a = c \<and> b = (d :: 'a list)"
proof (induction a arbitrary: c)
  case Nil
  then show ?case by (cases c) auto
next
  case (Cons y a)
  then show ?case by (cases c) auto
qed

lemma no_slash_in_pool_id: "parse_pool_id k = Some i \<Longrightarrow> CHR ''/'' \<notin> set k"
  by (auto simp: parse_pool_id_Some format_pool_id_def format_u64_def dest: digits10_no_sign(2) [THEN notE, rotated])

lemma observation_key_string_inj:
  assumes "parse_pool_id (obs_pool_id x) = Some i" "parse_pool_id (obs_pool_id y) = Some j"
    and "observation_key_string x = observation_key_string y"
  shows "obs_pool_id x = obs_pool_id y \<and> obs_block_height x = obs_block_height y"
  using assms(3) append_sep_inj [OF no_slash_in_pool_id [OF assms(1)] no_slash_in_pool_id [OF assms(2)]]
  by (simp add: observation_key_string_def)

text \<open>Entries of the stores, read through their keys.\<close>

lemma pool_entries:
  assumes "index_ok s" "(k, p) \<in> set (lp_pools s)"
  shows "get_pool s k = Some p" "pool_id p = k"
proof -
  show "get_pool s k = Some p"
    using assms(2) kv_get_mem [OF index_okD(1) [OF assms(1)]] by (simp add: get_pool_def)
  then show "pool_id p = k" by (rule index_okD(4) [OF assms(1)])
qed

lemma acc_entries:
  assumes "twap_ok h s" "(k, a) \<in> set (lp_accs s)"
  shows "kv_get (lp_accs s) k = Some a" "acc_pool_id a = k"
proof -
  note D = twap_okD [OF assms(1) [unfolded twap_ok_def]]
  show a: "kv_get (lp_accs s) k = Some a" using assms(2) kv_get_mem [OF D(1)] by blast
  show "acc_pool_id a = k" using D(4) [OF a] by (auto simp: acc_ok_def)
qed

lemma observation_entry:
  assumes "twap_ok h s" "(kg, ob) \<in> set (lp_observations s)"
  shows "kv_get (lp_observations s) kg = Some ob" "obs_pool_id ob = fst kg" "obs_block_height ob = snd kg"
proof -
  note D = twap_okD [OF assms(1) [unfolded twap_ok_def]]
  show a: "kv_get (lp_observations s) kg = Some ob" using assms(2) kv_get_mem [OF D(2)] by blast
  then show "obs_pool_id ob = fst kg" "obs_block_height ob = snd kg" using D(8) [of "fst kg" "snd kg"] by simp_all
qed

lemma find_exported_pool: "index_ok s \<Longrightarrow> find_genesis_pool (iterate_pools s) k = get_pool s k"
  unfolding find_genesis_pool_def iterate_pools_def get_pool_def
  by (rule find_by_id) (use pool_entries(2) in blast)

lemma find_exported_acc: "twap_ok h s \<Longrightarrow> find_genesis_acc (iterate_twap_accumulators s) k = kv_get (lp_accs s) k"
  unfolding find_genesis_acc_def iterate_twap_accumulators_def
  by (rule find_by_id) (use acc_entries(2) in blast)

lemma exported_pool_ids: "index_ok s \<Longrightarrow> map pool_id (iterate_pools s) = map fst (lp_pools s)"
  unfolding iterate_pools_def by (rule map_id_keys) (use pool_entries(2) in blast)

lemma exported_acc_ids: "twap_ok h s \<Longrightarrow> map acc_pool_id (iterate_twap_accumulators s) = map fst (lp_accs s)"
  unfolding iterate_twap_accumulators_def by (rule map_id_keys) (use acc_entries(2) in blast)

definition exported_observations :: "'b lp_state \<Rightarrow> twap_observation list" where
  "exported_observations s = filter (\<lambda>ob. obs_pool_id ob \<in> set (map acc_pool_id (iterate_twap_accumulators s)))
     (iterate_all_observations s)"

lemma filter_by_key:
  "(\<And>e. e \<in> set m \<Longrightarrow> f (snd e) = g (fst e)) \<Longrightarrow>
    filter (\<lambda>v. f v = k) (map snd m) = map snd (filter (\<lambda>e. g (fst e) = k) m)"
  by (induction m) simp_all

text \<open>The exported observations of one pool are its entries, in height order.\<close>

lemma exported_of_pool:
  assumes "twap_ok h s" "kv_get (lp_accs s) k = Some a"
  shows "filter (\<lambda>ob. obs_pool_id ob = k) (exported_observations s) = map snd (observation_entries s k)"
proof -
  have k: "k \<in> set (map fst (lp_accs s))" using assms(2) by (force dest: kv_get_in_set)
  have "filter (\<lambda>ob. obs_pool_id ob = k) (exported_observations s)
      = filter (\<lambda>ob. obs_pool_id ob = k) (iterate_all_observations s)"
    unfolding exported_observations_def exported_acc_ids [OF assms(1)] filter_filter
    by (rule filter_cong [OF refl]) (use k in auto)
  also have "\<dots> = map snd (observation_entries s k)"
    unfolding iterate_all_observations_def observation_entries_def
    by (rule filter_by_key) (use observation_entry(2) [OF assms(1)] in force)
  finally show ?thesis .
qed

lemma entries_of_pool:
  assumes "twap_ok h s" "kv_get (lp_accs s) k = Some a"
  shows "sorted_wrt (\<lambda>x y. obs_block_height x < obs_block_height y) (map snd (observation_entries s k))"
    and "sorted_wrt obs_le (map snd (observation_entries s k))"
    and "\<And>ob. ob \<in> set (map snd (observation_entries s k)) \<Longrightarrow>
      kv_get (lp_observations s) (k, obs_block_height ob) = Some ob \<and> obs_ok (window_of s) a ob"
    and "checkpoint_of a \<in> set (map snd (observation_entries s k))"
proof -
  note D = twap_okD [OF assms(1) [unfolded twap_ok_def]]
  have srt: "sorted_wrt (\<lambda>x y. fst x < fst y) (observation_entries s k)"
    using observation_keys_sorted [OF D(2), of k] by (simp add: sorted_wrt_map)
  have ent: "kv_get (lp_observations s) (fst e) = Some (snd e) \<and> fst (fst e) = k \<and> snd (fst e) = obs_block_height (snd e)"
    if "e \<in> set (observation_entries s k)" for e
    using that observation_entry [OF assms(1), of "fst e" "snd e"] by (auto simp: observation_entries_def)
  have hs: "obs_block_height (snd x) < obs_block_height (snd y)"
    if "x \<in> set (observation_entries s k)" "y \<in> set (observation_entries s k)" "fst x < fst y" for x y
    using that ent [of x] ent [of y] by (auto simp: less_prod_def')
  show "sorted_wrt (\<lambda>x y. obs_block_height x < obs_block_height y) (map snd (observation_entries s k))"
    unfolding sorted_wrt_map by (rule sorted_wrt_mono_rel [OF _ srt]) (use hs in blast)
  have mono: "obs_le (snd x) (snd y)"
    if "x \<in> set (observation_entries s k)" "y \<in> set (observation_entries s k)" "fst x < fst y" for x y
  proof -
    have "kv_get (lp_observations s) (k, obs_block_height (snd x)) = Some (snd x)"
      "kv_get (lp_observations s) (k, obs_block_height (snd y)) = Some (snd y)"
      using ent [OF that(1)] ent [OF that(2)] by (metis prod.collapse)+
    then show ?thesis using D(11) [OF _ _ assms(2)] hs [OF that] by (blast intro: less_imp_le)
  qed
  show "sorted_wrt obs_le (map snd (observation_entries s k))"
    unfolding sorted_wrt_map by (rule sorted_wrt_mono_rel [OF _ srt]) (use mono in blast)
  show "kv_get (lp_observations s) (k, obs_block_height ob) = Some ob \<and> obs_ok (window_of s) a ob"
    if "ob \<in> set (map snd (observation_entries s k))" for ob
  proof -
    from that obtain e where "e \<in> set (observation_entries s k)" "ob = snd e" by auto
    with ent [of e] have o: "kv_get (lp_observations s) (k, obs_block_height ob) = Some ob" by (metis prod.collapse)
    with D(10) [OF o assms(2)] show ?thesis by simp
  qed
  have "((k, acc_last_block a), checkpoint_of a) \<in> set (lp_observations s)"
    using D(5) [OF assms(2)] by (rule kv_get_in_set)
  then have "((k, acc_last_block a), checkpoint_of a) \<in> set (observation_entries s k)"
    by (simp add: observation_entries_def)
  then show "checkpoint_of a \<in> set (map snd (observation_entries s k))" by force
qed

lemma retained_count:
  assumes "twap_ok h s" "kv_get (lp_accs s) k = Some a"
  shows "int (length (observation_entries s k)) \<le> uint (window_of s) + 1"
proof -
  let ?hs = "map (\<lambda>ob. uint (obs_block_height ob)) (map snd (observation_entries s k))"
  note E = entries_of_pool [OF assms]
  have "sorted_wrt (<) ?hs" using E(1) by (simp add: sorted_wrt_map u64_less)
  then have d: "distinct ?hs" by (simp add: strict_sorted_iff)
  have "set ?hs \<subseteq> {uint (acc_last_block a) - uint (window_of s) .. uint (acc_last_block a)}"
  proof
    fix x assume "x \<in> set ?hs"
    then obtain ob where "ob \<in> set (map snd (observation_entries s k))" "x = uint (obs_block_height ob)" by auto
    with E(3) [of ob] show "x \<in> {uint (acc_last_block a) - uint (window_of s) .. uint (acc_last_block a)}"
      by (auto simp: obs_ok_def u64_le)
  qed
  then have "card (set ?hs) \<le> card {uint (acc_last_block a) - uint (window_of s) .. uint (acc_last_block a)}"
    by (intro card_mono) auto
  then have "length ?hs \<le> nat (uint (window_of s) + 1)" unfolding distinct_card [OF d] by simp
  then have "int (length ?hs) \<le> int (nat (uint (window_of s) + 1))" by (rule of_nat_mono)
  moreover have "int (nat (uint (window_of s) + 1)) = uint (window_of s) + 1"
    using u64_bounds(1) [of "window_of s"] by linarith
  moreover have "length ?hs = length (observation_entries s k)" by simp
  ultimately show ?thesis by linarith
qed

lemma window_bound: "validate_params env (get_params s) = Inr () \<Longrightarrow> uint (window_of s + 1) = uint (window_of s) + 1"
proof -
  assume "validate_params env (get_params s) = Inr ()"
  then have "uint (window_of s) \<le> 10000" by (simp add: validate_params_ok window_of_def max_twap_window_blocks_def word_le_def)
  then show ?thesis by (simp add: u64_add_no_wrap)
qed

lemma exported_points_ok:
  assumes T: "twap_ok h s" and acc: "kv_get (lp_accs s) k = Some a"
  shows "check_genesis_points (exported_observations s) a"
proof -
  let ?es = "map snd (observation_entries s k)"
  note E = entries_of_pool [OF T acc]
  have ak: "acc_pool_id a = k" using acc_entries(2) [OF T kv_get_in_set [OF acc]] .
  have "sorted_wrt (\<lambda>x y. obs_block_height x \<le> obs_block_height y) ?es"
    by (rule sorted_wrt_mono_rel [OF _ E(1)]) simp
  then have "sorted (map obs_block_height ?es)" by (simp only: sorted_map)
  then have srt: "sort_key obs_block_height ?es = ?es" by (rule sort_key_id_if_sorted)
  have ne: "?es \<noteq> []" using E(4) by force
  then obtain xs z where z: "?es = xs @ [z]" by (metis rev_exhaust)
  have zob: "kv_get (lp_observations s) (k, obs_block_height z) = Some z" "obs_ok (window_of s) a z"
    using E(3) [of z] z by simp_all
  have "checkpoint_of a = z"
  proof (rule ccontr)
    assume "checkpoint_of a \<noteq> z"
    with E(4) z have "checkpoint_of a \<in> set xs" by auto
    with E(1) z have "obs_block_height (checkpoint_of a) < obs_block_height z" by (simp add: sorted_wrt_append)
    then have "acc_last_block a < obs_block_height z" by (simp add: checkpoint_of_def)
    moreover have "obs_block_height z \<le> acc_last_block a" using zob(2) by (simp add: obs_ok_def)
    ultimately show False by (meson leD)
  qed
  with z have "last ?es = checkpoint_of a" by simp
  then show ?thesis
    using ne observations_monotone_sorted [OF E(2)]
    unfolding check_genesis_points_def Let_def ak exported_of_pool [OF T acc] srt
    by (simp add: checkpoint_of_def)
qed

lemma open_pairs_distinct:
  assumes C: "core_ok env h s"
  shows "distinct (map pool_pair_key (filter (\<lambda>p. is_open_pool_status (pool_status p)) (iterate_pools s)))"
proof -
  note ok = core_okD(4) [OF C]
  let ?L = "filter (\<lambda>p. is_open_pool_status (pool_status p)) (iterate_pools s)"
  have "distinct (map pool_id (iterate_pools s))"
    unfolding exported_pool_ids [OF ok] by (rule kv_ok_distinct [OF index_okD(1) [OF ok]])
  then have dl: "distinct ?L" by (simp add: distinct_map)
  have "inj_on pool_pair_key (set ?L)"
  proof (rule inj_onI)
    fix p q assume pq: "p \<in> set ?L" "q \<in> set ?L" "pool_pair_key p = pool_pair_key q"
    have e: "get_pool s (pool_id x) = Some x \<and> is_live x" if x: "x \<in> set ?L" for x
    proof -
      from x obtain k where k: "(k, x) \<in> set (lp_pools s)" by (auto simp: iterate_pools_def)
      with pool_entries [OF ok k] x show ?thesis by (auto simp: is_live_def)
    qed
    have "kv_get (lp_denom_index s) (pool_pair_key p) = Some (pool_id p)"
      unfolding index_okD(6) [OF ok] using e [OF pq(1)] by blast
    moreover have "kv_get (lp_denom_index s) (pool_pair_key p) = Some (pool_id q)"
      unfolding index_okD(6) [OF ok] using e [OF pq(2)] pq(3) by metis
    ultimately have "pool_id p = pool_id q" by simp
    with e [OF pq(1)] e [OF pq(2)] show "p = q" by (metis option.inject)
  qed
  with dl show ?thesis by (simp add: distinct_map)
qed

lemma open_count_exported:
  assumes C: "core_ok env h s"
  shows "length (filter (\<lambda>p. is_open_pool_status (pool_status p)) (iterate_pools s)) = kv_count is_live (lp_pools s)"
proof -
  note ok = core_okD(4) [OF C]
  have "filter (\<lambda>p. is_open_pool_status (pool_status p)) (iterate_pools s) = filter is_live (iterate_pools s)"
  proof (rule filter_cong [OF refl])
    fix p assume "p \<in> set (iterate_pools s)"
    then obtain k where "(k, p) \<in> set (lp_pools s)" by (auto simp: iterate_pools_def)
    then have "validate_genesis_pool env p = Inr ()" using core_okD(7) [OF C] pool_entries(1) [OF ok] by blast
    then show "is_open_pool_status (pool_status p) = is_live p" using valid_pool_closed_iff by blast
  qed
  then show ?thesis by (simp add: iterate_pools_def kv_count_def filter_map comp_def)
qed

lemma export_genesis_validates:
  assumes C: "core_ok env h s" and T: "twap_ok h s"
  obtains n where "get_next_pool_id s = Inr n"
    "export_genesis s = Inr \<lparr>gen_params = Some (get_params s), gen_pools = iterate_pools s,
       gen_accs = iterate_twap_accumulators s, gen_next_pool_id = n, gen_observations = exported_observations s\<rparr>"
    "validate_genesis env \<lparr>gen_params = Some (get_params s), gen_pools = iterate_pools s,
       gen_accs = iterate_twap_accumulators s, gen_next_pool_id = n, gen_observations = exported_observations s\<rparr> = Inr ()"
proof -
  note ok = core_okD(4) [OF C] and D = twap_okD [OF T [unfolded twap_ok_def]]
  from C obtain n where n: "get_next_pool_id s = Inr n" "uint n \<le> 10001"
    and ids: "\<And>k p. get_pool s k = Some p \<Longrightarrow> validate_genesis_pool env p = Inr () \<and>
        (\<exists>i. parse_pool_id k = Some i \<and> i < n)"
    and cnt: "int (kv_count is_live (lp_pools s)) \<le> uint (max_pools (get_params s))"
    by (auto simp: core_ok_def records_ok_def)
  have pv: "validate_params env (get_params s) = Inr ()" by (rule core_okD(11) [OF C])
  have npos: "0 < n" using n(1) by (auto simp: get_next_pool_id_def word_neq_0_conv [symmetric] split: option.splits if_splits)
  have pool: "get_pool s (pool_id p) = Some p" if "p \<in> set (iterate_pools s)" for p
    using that pool_entries [OF ok] by (auto simp: iterate_pools_def)
  have cap: "i \<le> max_pool_records_cap" if "i < n" for i
    using that n(2) by (simp add: max_pool_records_cap_def u64_less word_le_def)
  have "\<exists>m. check_genesis_pools env [] [] 0 0 (iterate_pools s)
      = Inr (m, 0 + of_nat (length (filter (\<lambda>p. is_open_pool_status (pool_status p)) (iterate_pools s)))) \<and> m < n"
  proof (rule check_genesis_pools_ok)
    fix p assume "p \<in> set (iterate_pools s)"
    with ids [OF pool [OF this]] cap show "validate_genesis_pool env p = Inr () \<and>
      (\<exists>i. parse_pool_id (pool_id p) = Some i \<and> i < n \<and> i \<le> max_pool_records_cap)" by blast
  next
    show "distinct (map pool_id (iterate_pools s))"
      unfolding exported_pool_ids [OF ok] by (rule kv_ok_distinct [OF index_okD(1) [OF ok]])
  qed (use open_pairs_distinct [OF C] npos in simp_all)
  then obtain m where m: "check_genesis_pools env [] [] 0 0 (iterate_pools s)
      = Inr (m, of_nat (kv_count is_live (lp_pools s)))" "m < n"
    by (auto simp: open_count_exported [OF C])
  have "int (kv_count is_live (lp_pools s)) < 2 ^ 64" using cnt u64_bounds(2) [of "max_pools (get_params s)"] by linarith
  then have c1: "\<not> max_pools (get_params s) < of_nat (kv_count is_live (lp_pools s))"
    using cnt uint_of_nat_small [of "kv_count is_live (lp_pools s)"] by (simp add: u64_less)
  have c2: "m \<noteq> max_u64" using m(2) n(2) by (auto simp: u64_less uint_max_u64)
  have c3: "\<not> max_pool_records_cap + 1 < n" using n(2) by (simp add: max_pool_records_cap_def u64_less)
  have acc: "kv_get (lp_accs s) (acc_pool_id a) = Some a" if "a \<in> set (iterate_twap_accumulators s)" for a
    using that acc_entries [OF T] by (auto simp: iterate_twap_accumulators_def)
  have c4: "check_genesis_accs (iterate_pools s) [] (iterate_twap_accumulators s) = Inr ()"
  proof (rule check_genesis_accs_ok)
    fix a assume "a \<in> set (iterate_twap_accumulators s)"
    from D(4) [OF acc [OF this]] obtain p where p: "get_pool s (acc_pool_id a) = Some p" "is_live p"
      "acc_ok h (acc_pool_id a) p a" by auto
    with ids [OF p(1)] valid_pool_closed_iff show "\<exists>p. find_genesis_pool (iterate_pools s) (acc_pool_id a) = Some p \<and>
        is_open_pool_status (pool_status p) \<and> acc_start_block a \<le> acc_last_block a \<and>
        pool_created_at p \<le> acc_start_block a \<and> cum_parses (acc_cum_a_to_b a) \<and> cum_parses (acc_cum_b_to_a a)"
      by (auto simp: find_exported_pool [OF ok] acc_ok_def)
  next
    show "distinct (map acc_pool_id (iterate_twap_accumulators s))"
      unfolding exported_acc_ids [OF T] by (rule kv_ok_distinct [OF D(1)])
  qed simp
  have c5: "list_all (\<lambda>p. is_open_pool_status (pool_status p) \<longrightarrow>
      find_genesis_acc (iterate_twap_accumulators s) (pool_id p) \<noteq> None) (iterate_pools s)"
    unfolding list_all_iff find_exported_acc [OF T]
  proof (intro ballI impI)
    fix p assume p: "p \<in> set (iterate_pools s)" "is_open_pool_status (pool_status p)"
    then have "is_live p" by (auto simp: is_live_def)
    then show "kv_get (lp_accs s) (pool_id p) \<noteq> None" using D(6) [OF pool [OF p(1)]] by blast
  qed
  have obs_acc: "\<exists>a. kv_get (lp_accs s) (obs_pool_id ob) = Some a \<and> kv_get (lp_observations s)
      (obs_pool_id ob, obs_block_height ob) = Some ob" if "ob \<in> set (exported_observations s)" for ob
  proof -
    from that obtain kg where "(kg, ob) \<in> set (lp_observations s)"
      by (auto simp: exported_observations_def iterate_all_observations_def)
    note e = observation_entry [OF T this]
    from that have "obs_pool_id ob \<in> set (map fst (lp_accs s))"
      by (auto simp: exported_observations_def exported_acc_ids [OF T])
    then have "kv_get (lp_accs s) (obs_pool_id ob) \<noteq> None" by (simp add: map_of_eq_None_iff)
    with e show ?thesis by (cases kg) auto
  qed
  have c6: "check_genesis_observations (window_of s) (iterate_twap_accumulators s) [] [] (exported_observations s) = Inr ()"
  proof (rule check_genesis_observations_ok)
    fix ob assume "ob \<in> set (exported_observations s)"
    with obs_acc [OF this] show "\<exists>a. find_genesis_acc (iterate_twap_accumulators s) (obs_pool_id ob) = Some a \<and>
        obs_ok (window_of s) a ob" using D(10) by (fastforce simp: find_exported_acc [OF T])
  next
    fix k show "int (length (filter (\<lambda>ob. obs_pool_id ob = k) (exported_observations s)))
        + int (length (filter (\<lambda>x. x = k) [])) \<le> uint (window_of s + 1)"
    proof (cases "kv_get (lp_accs s) k")
      case (Some a)
      then show ?thesis using retained_count [OF T Some] window_bound [OF pv] by (simp add: exported_of_pool [OF T Some])
    next
      case None
      then have "filter (\<lambda>ob. obs_pool_id ob = k) (exported_observations s) = []"
        using obs_acc by (fastforce simp: filter_empty_conv)
      then show ?thesis by simp
    qed
  next
    have "distinct (map fst (lp_observations s))" by (rule kv_ok_distinct [OF D(2)])
    then have "distinct (lp_observations s)" by (simp add: distinct_map)
    have inj: "inj_on observation_key_string (set (exported_observations s))"
    proof (rule inj_onI)
      fix x y assume x: "x \<in> set (exported_observations s)" and y: "y \<in> set (exported_observations s)"
        and eq: "observation_key_string x = observation_key_string y"
      from obs_acc [OF x] obs_acc [OF y] D(4) ids obtain i j
        where "parse_pool_id (obs_pool_id x) = Some i" "parse_pool_id (obs_pool_id y) = Some j" by metis
      from observation_key_string_inj [OF this eq] obs_acc [OF x] obs_acc [OF y] show "x = y" by auto
    qed
    have "inj_on snd (set (lp_observations s))"
    proof (rule inj_onI)
      fix x y assume "x \<in> set (lp_observations s)" "y \<in> set (lp_observations s)" "snd x = snd y"
      then show "x = y"
        using observation_entry(2,3) [OF T, of "fst x" "snd x"] observation_entry(2,3) [OF T, of "fst y" "snd y"]
        by (metis prod.collapse)
    qed
    with \<open>distinct (lp_observations s)\<close> have "distinct (exported_observations s)"
      by (simp add: exported_observations_def iterate_all_observations_def distinct_map)
    with inj show "distinct (map observation_key_string (exported_observations s))" by (simp add: distinct_map)
  qed simp
  have c7: "list_all (check_genesis_points (exported_observations s)) (iterate_twap_accumulators s)"
    unfolding list_all_iff using exported_points_ok [OF T acc] by blast
  show thesis
  proof (rule that [OF n(1)])
    show "export_genesis s = Inr \<lparr>gen_params = Some (get_params s), gen_pools = iterate_pools s,
       gen_accs = iterate_twap_accumulators s, gen_next_pool_id = n, gen_observations = exported_observations s\<rparr>"
      using n(1) by (simp add: export_genesis_def Let_def exported_observations_def)
    show "validate_genesis env \<lparr>gen_params = Some (get_params s), gen_pools = iterate_pools s,
       gen_accs = iterate_twap_accumulators s, gen_next_pool_id = n, gen_observations = exported_observations s\<rparr> = Inr ()"
      using pv m c1 c2 c3 c4 c5 c6 c7 unfolding validate_genesis_def
      by (simp add: window_of_def [symmetric] not_le)
  qed
qed

section \<open>The registered invariant holds\<close>

lemma valid_pool_amounts: "validate_genesis_pool env p = Inr () \<Longrightarrow> pool_amounts p = Some (res_a p, res_b p, lp_sup p)"
  by (simp add: validate_pool_iff pool_amounts_def)

lemma collect_liabilities_get:
  assumes "\<And>p. p \<in> set ps \<Longrightarrow> pool_amounts p = Some (res_a p, res_b p, lp_sup p)"
  shows "(case kv_get (collect_liabilities ps m) d of None \<Rightarrow> 0 | Some x \<Rightarrow> x)
      = (case kv_get m d of None \<Rightarrow> 0 | Some x \<Rightarrow> x) + sum_list (map (liability d) ps)"
  using assms
proof (induction ps arbitrary: m)
  case (Cons p ps)
  have add: "(case kv_get (add_liability d' x m) d of None \<Rightarrow> 0 | Some x \<Rightarrow> x)
      = (case kv_get m d of None \<Rightarrow> 0 | Some x \<Rightarrow> x) + (if d' = d then x else 0)" for d' x m
    by (simp add: add_liability_def)
  from Cons.prems [of p] Cons.IH [OF Cons.prems] show ?case by (simp add: add liability_def)
qed simp

lemma collect_liabilities_ok: "kv_ok m \<Longrightarrow> kv_ok (collect_liabilities ps m)"
  by (induction ps arbitrary: m) (auto simp: add_liability_def split: option.splits prod.splits)

lemma length_denom_index: "index_ok s \<Longrightarrow> length (lp_denom_index s) = length (lp_open_index s)"
proof -
  assume ok: "index_ok s"
  note D = index_okD [OF ok]
  have di: "\<exists>p. get_pool s (snd e) = Some p \<and> is_live p \<and> pool_pair_key p = fst e" if "e \<in> set (lp_denom_index s)" for e
    using that kv_get_mem [OF D(2), of "fst e" "snd e"] D(6) [of "fst e" "snd e"] by simp
  have "inj_on snd (set (lp_denom_index s))"
  proof (rule inj_onI)
    fix x y assume x: "x \<in> set (lp_denom_index s)" and y: "y \<in> set (lp_denom_index s)" and eq: "snd x = snd y"
    from di [OF x] di [OF y] eq have "fst x = fst y" by auto
    with eq show "x = y" by (simp add: prod_eq_iff)
  qed
  moreover have "distinct (lp_denom_index s)" using kv_ok_distinct [OF D(2)] by (simp add: distinct_map)
  ultimately have d: "distinct (map snd (lp_denom_index s))" by (simp add: distinct_map)
  have "set (map snd (lp_denom_index s)) = set (map fst (lp_open_index s))"
  proof (intro set_eqI iffI)
    fix k assume "k \<in> set (map snd (lp_denom_index s))"
    then obtain e where "e \<in> set (lp_denom_index s)" "snd e = k" by auto
    with di [of e] have "kv_get (lp_open_index s) k = Some k" unfolding D(5) by auto
    then show "k \<in> set (map fst (lp_open_index s))" by (force dest: kv_get_in_set)
  next
    fix k assume "k \<in> set (map fst (lp_open_index s))"
    then obtain v where "(k, v) \<in> set (lp_open_index s)" by auto
    then have "kv_get (lp_open_index s) k = Some v" using kv_get_mem [OF D(3)] by blast
    then obtain p where "get_pool s k = Some p" "is_live p" unfolding D(5) by auto
    then have "kv_get (lp_denom_index s) (pool_pair_key p) = Some k" unfolding D(6) by auto
    then show "k \<in> set (map snd (lp_denom_index s))" by (force dest: kv_get_in_set)
  qed
  with d kv_ok_distinct [OF D(3)] show ?thesis by (metis distinct_card length_map)
qed

lemma pool_record_fine:
  assumes C: "core_ok env h s" and pool: "get_pool s (pool_id p) = Some p"
  shows "\<not> pool_record_broken env s p"
proof -
  note ok = core_okD(4) [OF C] and val = core_okD(7) [OF C pool]
  have "get_pool_by_denoms s (pool_denom_a p) (pool_denom_b p) = Some p \<and> kv_get (lp_open_index s) (pool_id p) = Some (pool_id p)"
    if "is_open_pool_status (pool_status p)"
  proof -
    have live: "is_live p" using that by (auto simp: is_live_def)
    then have "kv_get (lp_denom_index s) (pool_pair_key p) = Some (pool_id p)"
      unfolding index_okD(6) [OF ok] using pool by blast
    with pool live have "get_pool_by_denoms s (pool_denom_a p) (pool_denom_b p) = Some p"
      by (simp add: get_pool_by_denoms_def pool_pair_key_def is_live_def same_denom_pair_def)
    moreover have "kv_get (lp_open_index s) (pool_id p) = Some (pool_id p)"
      unfolding index_okD(5) [OF ok] using pool live by blast
    ultimately show ?thesis by blast
  qed
  with core_okD(9) [OF C pool] show ?thesis
    by (auto simp: pool_record_broken_def valid_pool_amounts [OF val])
qed

lemma state_consistent:
  assumes C: "core_ok env h s" and T: "twap_ok h s"
  shows "\<not> state_consistency_broken env s"
proof -
  note ok = core_okD(4) [OF C] and D = twap_okD [OF T [unfolded twap_ok_def]]
  from C T obtain n where ex: "export_genesis s = Inr \<lparr>gen_params = Some (get_params s), gen_pools = iterate_pools s,
       gen_accs = iterate_twap_accumulators s, gen_next_pool_id = n, gen_observations = exported_observations s\<rparr>"
    and val: "validate_genesis env \<lparr>gen_params = Some (get_params s), gen_pools = iterate_pools s,
       gen_accs = iterate_twap_accumulators s, gen_next_pool_id = n, gen_observations = exported_observations s\<rparr> = Inr ()"
    by (rule export_genesis_validates)
  have pool: "get_pool s (pool_id p) = Some p" if "p \<in> set (iterate_pools s)" for p
    using that pool_entries [OF ok] by (auto simp: iterate_pools_def)
  have c1: "\<not> list_ex (pool_record_broken env s) (iterate_pools s)"
    using pool_record_fine [OF C pool] by (auto simp: list_ex_iff)
  have amounts: "pool_amounts p = Some (res_a p, res_b p, lp_sup p)" if "p \<in> set (iterate_pools s)" for p
    by (rule valid_pool_amounts [OF core_okD(7) [OF C pool [OF that]]])
  have c2: "\<not> list_ex (\<lambda>(d, x). bank_balance env (lp_bank s) (module_address env lp_module_name) d < x)
      (collect_liabilities (iterate_pools s) [])"
  proof -
    have "x \<le> bank_balance env (lp_bank s) (module_address env lp_module_name) d"
      if "(d, x) \<in> set (collect_liabilities (iterate_pools s) [])" for d x
    proof -
      have "kv_get (collect_liabilities (iterate_pools s) []) d = Some x"
        using that kv_get_mem [OF collect_liabilities_ok [OF kv_ok_Nil]] by blast
      then have "x = sum_list (map (liability d) (iterate_pools s))"
        using collect_liabilities_get [of "iterate_pools s" "[]" d, OF amounts] by simp
      then show ?thesis
        using core_okD(10) [OF C, of d] by (simp add: kv_sum_def iterate_pools_def comp_def lp_module_def)
    qed
    then show ?thesis by (auto simp: list_ex_iff dest: leD)
  qed
  have gc_mem: "kv_get (lp_gc s) k \<noteq> None" if "k \<in> set (map fst (lp_gc s))" for k
    using that by (simp add: map_of_eq_None_iff)
  then have "[] \<notin> set (map fst (lp_gc s))" using D(7) by blast
  then have gc: "iterate_twap_garbage_collection s = Inr (map fst (lp_gc s))"
    by (simp add: iterate_twap_garbage_collection_def)
  have c3: "\<not> list_ex (\<lambda>k. (case find_genesis_pool (iterate_pools s) k of
        None \<Rightarrow> True | Some p \<Rightarrow> pool_status p \<noteq> POOL_STATUS_CLOSED) \<or> k \<in> set (map fst (lp_accs s))) (map fst (lp_gc s))"
    unfolding list_ex_iff
  proof
    assume "\<exists>k\<in>set (map fst (lp_gc s)). (case find_genesis_pool (iterate_pools s) k of
        None \<Rightarrow> True | Some p \<Rightarrow> pool_status p \<noteq> POOL_STATUS_CLOSED) \<or> k \<in> set (map fst (lp_accs s))"
    then obtain k where k: "k \<in> set (map fst (lp_gc s))"
      and bad: "(case get_pool s k of None \<Rightarrow> True | Some p \<Rightarrow> pool_status p \<noteq> POOL_STATUS_CLOSED) \<or>
        k \<in> set (map fst (lp_accs s))" by (auto simp: find_exported_pool [OF ok])
    from D(7) [OF gc_mem [OF k]] obtain p where p: "get_pool s k = Some p" "\<not> is_live p" by auto
    with bad have "k \<in> set (map fst (lp_accs s))" by (simp add: is_live_def)
    then obtain a where "kv_get (lp_accs s) k = Some a" by (cases "kv_get (lp_accs s) k") (auto simp: map_of_eq_None_iff)
    from D(4) [OF this] p show False by auto
  qed
  have c4: "\<not> list_ex (\<lambda>ob. obs_pool_id ob \<notin> set (map fst (lp_accs s)) \<and> obs_pool_id ob \<notin> set (map fst (lp_gc s)))
      (iterate_all_observations s)"
  proof -
    have "obs_pool_id ob \<in> set (map fst (lp_gc s))"
      if ob: "ob \<in> set (iterate_all_observations s)" "obs_pool_id ob \<notin> set (map fst (lp_accs s))" for ob
    proof -
      from ob(1) obtain kg where kg: "(kg, ob) \<in> set (lp_observations s)" by (auto simp: iterate_all_observations_def)
      note e = observation_entry [OF T kg]
      have "kv_get (lp_accs s) (obs_pool_id ob) = None" using ob(2) by (simp add: map_of_eq_None_iff)
      then have "kv_get (lp_gc s) (obs_pool_id ob) \<noteq> None"
        using D(9) [of "obs_pool_id ob" "obs_block_height ob" ob] e by simp
      then show ?thesis by (simp add: map_of_eq_None_iff)
    qed
    then show ?thesis by (auto simp: list_ex_iff)
  qed
  have "filter counted_open (iterate_pools s) = filter (\<lambda>p. is_open_pool_status (pool_status p)) (iterate_pools s)"
    by (rule filter_cong [OF refl])
      (simp add: counted_open_def valid_pool_amounts [OF core_okD(7) [OF C pool]])
  then have c5: "length (filter counted_open (iterate_pools s)) = length (lp_open_index s)"
    by (simp add: open_count_exported [OF C] length_open_index [OF ok])
  show ?thesis
    unfolding state_consistency_broken_def ex
    using val c1 c2 c3 c4
    by (simp only: sum.case Let_def lp_genesis.simps gc exported_acc_ids [OF T] c5 length_denom_index [OF ok]) simp
qed

end
