(* ===== verification/LP_Properties.thy ===== *)
theory LP_Properties
  imports LP_Genesis
begin

text \<open>
  The liquidity-pool module as a chain runs it: blocks and transactions from a genesis without
  pools, with the rest of the chain free to move other coins in between; and the properties of
  the module, each with a run on the ledger of theory Bank as its witness.
\<close>

section \<open>Runs of the module\<close>

definition empty_lp_state :: "lp_params \<Rightarrow> 'b \<Rightarrow> 'b lp_state" where
  "empty_lp_state params b =
     \<lparr>lp_params_record = Some params, lp_pools = [], lp_denom_index = [], lp_open_index = [], lp_accs = [],
      lp_observations = [], lp_gc = [], lp_counter = Some 1, lp_bank = b\<rparr>"

text \<open>
  What other modules may do to the bank between two messages of this one: anything that does not
  take coins from the module account and does not mint or burn the shares of a recorded pool.
\<close>

definition others_moved :: "'b sdk \<Rightarrow> 'b lp_state \<Rightarrow> 'b \<Rightarrow> bool" where
  "others_moved env s b \<longleftrightarrow>
     (\<forall>d. bank_balance env (lp_bank s) (lp_module env) d \<le> bank_balance env b (lp_module env) d) \<and>
     (\<forall>k p. get_pool s k = Some p \<longrightarrow>
        bank_supply env b (pool_lp_denom p) = bank_supply env (lp_bank s) (pool_lp_denom p))"

inductive lp_reachable :: "'b sdk \<Rightarrow> string \<Rightarrow> int \<Rightarrow> 'b lp_state \<Rightarrow> bool"
  for env :: "'b sdk" and authority :: string where
  genesis: "validate_params env params = Inr () \<Longrightarrow> 0 \<le> h \<Longrightarrow> h < 2 ^ 63 \<Longrightarrow>
    (\<And>d. 0 \<le> bank_balance env b (lp_module env) d) \<Longrightarrow>
    lp_reachable env authority h (empty_lp_state params b)"
| message: "lp_reachable env authority h s \<Longrightarrow> externally_signed env m \<Longrightarrow>
    lp_reachable env authority h (deliver (lp_handle env authority h) m s)"
| block: "lp_reachable env authority h s \<Longrightarrow> h + 1 < 2 ^ 63 \<Longrightarrow> begin_block (h + 1) s = Done s' u \<Longrightarrow>
    lp_reachable env authority (h + 1) s'"
| others: "lp_reachable env authority h s \<Longrightarrow> others_moved env s b \<Longrightarrow>
    lp_reachable env authority h (s\<lparr>lp_bank := b\<rparr>)"

definition lp_inv :: "'b sdk \<Rightarrow> int \<Rightarrow> 'b lp_state \<Rightarrow> bool" where
  "lp_inv env h s \<longleftrightarrow> sdk_laws env \<and> core_ok env h s \<and> twap_ok h s"

text \<open>The message router keeps the invariant: the module is a guarded machine.\<close>

interpretation lp: guarded_machine "lp_handle env authority h" "externally_signed env" "lp_inv env h"
  for env :: "'b sdk" and authority h
  by unfold_locales (auto simp: lp_inv_def intro: lp_handle_core_ok lp_handle_twap_ok)

lemma empty_lp_inv:
  assumes "sdk_laws env" "validate_params env params = Inr ()" "0 \<le> h" "h < 2 ^ 63"
    and "\<And>d. 0 \<le> bank_balance env b (lp_module env) d"
  shows "lp_inv env h (empty_lp_state params b)"
proof -
  have "index_ok (empty_lp_state params b)"
    by (simp add: index_ok_def empty_lp_state_def get_pool_def)
  then have "core_ok env h (empty_lp_state params b)"
    using assms
    by (simp add: core_ok_def records_ok_def custody_ok_def supply_ok_def empty_lp_state_def get_pool_def
        get_params_def get_next_pool_id_def kv_count_def)
  moreover have "twap_ok h (empty_lp_state params b)"
    by (simp add: twap_ok_def twap_ok_except_def empty_lp_state_def get_pool_def)
  ultimately show ?thesis using assms(1) by (simp add: lp_inv_def)
qed

lemma others_moved_inv: "lp_inv env h s \<Longrightarrow> others_moved env s b \<Longrightarrow> lp_inv env h (s\<lparr>lp_bank := b\<rparr>)"
proof -
  assume I: "lp_inv env h s" and O: "others_moved env s b"
  let ?s = "s\<lparr>lp_bank := b\<rparr>"
  have gp: "get_params ?s = get_params s" "get_next_pool_id ?s = get_next_pool_id s" by (simp_all add: get_params_def)
  have "records_ok env h ?s" using I gp by (simp add: lp_inv_def core_ok_def records_ok_def)
  moreover have "custody_ok env ?s"
    using I O by (auto simp: lp_inv_def core_ok_def custody_ok_def others_moved_def intro: order_trans)
  moreover have "supply_ok env ?s"
    using I O by (simp add: lp_inv_def core_ok_def supply_ok_def others_moved_def)
  moreover have "twap_ok h ?s"
    using I unfolding lp_inv_def twap_ok_def
    by (auto intro: twap_ok_cong simp: window_of_def gp)
  ultimately show ?thesis using I by (simp add: lp_inv_def core_ok_def)
qed

lemma lp_reachable_inv: "lp_reachable env authority h s \<Longrightarrow> sdk_laws env \<Longrightarrow> lp_inv env h s"
proof (induction rule: lp_reachable.induct)
  case (genesis params h b)
  then show ?case by (blast intro: empty_lp_inv)
next
  case (message h s m)
  then show ?case by (blast intro: lp.deliver_inv)
next
  case (block h s s' u)
  then have "core_ok env (h + 1) s" "twap_ok (h + 1) s"
    by (auto simp: lp_inv_def intro: core_ok_later twap_ok_later dest: core_okD(5))
  from begin_block_runs [OF this] block show ?case by (auto simp: lp_inv_def)
next
  case (others h s b)
  then show ?case by (blast intro: others_moved_inv)
qed

lemma reachable_deliver_all:
  "lp_reachable env authority h s \<Longrightarrow> (\<And>m. m \<in> set ms \<Longrightarrow> externally_signed env m) \<Longrightarrow>
    lp_reachable env authority h (deliver_all (lp_handle env authority h) ms s)"
  by (induction ms arbitrary: s) (auto intro: lp_reachable.message)

inductive_cases lp_reachable_cases: "lp_reachable env authority h s"

section \<open>A run on the ledger\<close>

definition demo_bank :: ledger where
  "demo_bank = \<lparr>lg_balances = [((''zrn1a'', ''uatom''), 20000000000), ((''zrn1a'', ''uzrn''), 50000000000)],
     lg_supply = [(''uatom'', 20000000000), (''uzrn'', 50000000000)], lg_disabled = []\<rparr>"

definition demo_params :: lp_params where
  "demo_params = default_params\<lparr>twap_window_blocks := 1, billing_quote_denoms := [''uatom''],
     allowed_pool_denoms := [''uatom''], pool_creators := [''zrn1a'']\<rparr>"

definition demo_s0 :: "ledger lp_state" where
  "demo_s0 = empty_lp_state demo_params demo_bank"

definition demo_create :: msg_create_pool where
  "demo_create = \<lparr>cp_creator = ''zrn1a'', cp_denom_a = ''uzrn'', cp_denom_b = ''uatom'',
     cp_amount_a = ''10000000000'', cp_amount_b = ''10000000000'', cp_swap_fee_bps = 0\<rparr>"

definition demo_swap :: msg_swap where
  "demo_swap = \<lparr>sw_sender = ''zrn1a'', sw_pool_id = ''pool-1'', sw_token_in_denom = ''uzrn'',
     sw_token_in_amount = ''1000000'', sw_min_token_out = ''900000''\<rparr>"

definition demo_add :: msg_add_liquidity where
  "demo_add = \<lparr>al_sender = ''zrn1a'', al_pool_id = ''pool-1'', al_amount_a = ''5000'', al_amount_b = ''7000'',
     al_min_lp_tokens = []\<rparr>"

definition demo_remove :: msg_remove_liquidity where
  "demo_remove = \<lparr>rl_sender = ''zrn1a'', rl_pool_id = ''pool-1'', rl_lp_tokens = ''10000000000'',
     rl_min_amount_a = [], rl_min_amount_b = ''1''\<rparr>"

definition demo_pool :: pool where
  "demo_pool = \<lparr>pool_id = ''pool-1'', pool_denom_a = ''uzrn'', pool_denom_b = ''uatom'',
     pool_reserve_a = ''10000000000'', pool_reserve_b = ''10000000000'', pool_swap_fee_bps = 3000,
     pool_lp_token_supply = ''10000000000'', pool_lp_denom = ''lp/pool-1'', pool_creator = ''zrn1a'',
     pool_created_at = 5, pool_locked = False, pool_status = POOL_STATUS_ACTIVE, pool_closed_at = 0\<rparr>"

text \<open>After the creation of the pool in block 5.\<close>

definition demo_s1 :: "ledger lp_state" where
  "demo_s1 =
     \<lparr>lp_params_record = Some (demo_params\<lparr>allowed_pool_denoms := []\<rparr>),
      lp_pools = [(''pool-1'', demo_pool)],
      lp_denom_index = [([16, 0, 0, 0, 5, 117, 97, 116, 111, 109, 117, 122, 114, 110], ''pool-1'')],
      lp_open_index = [(''pool-1'', ''pool-1'')],
      lp_accs = [(''pool-1'', \<lparr>acc_pool_id = ''pool-1'', acc_last_block = 5, acc_cum_a_to_b = ''0'',
                  acc_cum_b_to_a = ''0'', acc_start_block = 5\<rparr>)],
      lp_observations = [((''pool-1'', 5), \<lparr>obs_pool_id = ''pool-1'', obs_block_height = 5,
                          obs_cum_a_to_b = ''0'', obs_cum_b_to_a = ''0''\<rparr>)],
      lp_gc = [], lp_counter = Some 2,
      lp_bank = \<lparr>lg_balances =
           [((''module/liquiditypool'', ''lp/pool-1''), 0), ((''module/liquiditypool'', ''uatom''), 10000000000),
            ((''module/liquiditypool'', ''uzrn''), 10000000000), ((''zrn1a'', ''lp/pool-1''), 10000000000),
            ((''zrn1a'', ''uatom''), 10000000000), ((''zrn1a'', ''uzrn''), 40000000000)],
         lg_supply = [(''lp/pool-1'', 10000000000), (''uatom'', 20000000000), (''uzrn'', 50000000000)],
         lg_disabled = []\<rparr>\<rparr>"

text \<open>After the block hook of block 6.\<close>

definition demo_s2 :: "ledger lp_state" where
  "demo_s2 = demo_s1\<lparr>
      lp_accs := [(''pool-1'', \<lparr>acc_pool_id = ''pool-1'', acc_last_block = 6, acc_cum_a_to_b = ''1000000000000'',
                  acc_cum_b_to_a = ''1000000000000'', acc_start_block = 5\<rparr>)],
      lp_observations := [((''pool-1'', 5), \<lparr>obs_pool_id = ''pool-1'', obs_block_height = 5,
                          obs_cum_a_to_b = ''0'', obs_cum_b_to_a = ''0''\<rparr>),
                         ((''pool-1'', 6), \<lparr>obs_pool_id = ''pool-1'', obs_block_height = 6,
                          obs_cum_a_to_b = ''1000000000000'', obs_cum_b_to_a = ''1000000000000''\<rparr>)]\<rparr>"

lemma demo_create_runs: "create_pool ledger_sdk 5 demo_create demo_s0 = Done demo_s1 ''pool-1''"
  by code_simp

lemma demo_block_runs: "begin_block 6 demo_s1 = Done demo_s2 ()"
  by code_simp

lemma demo_swap_runs: "succeeded (swap ledger_sdk 6 demo_swap demo_s2)"
  by code_simp

lemma demo_add_runs: "succeeded (add_liquidity ledger_sdk 6 demo_add demo_s2)"
  by code_simp

lemma demo_remove_runs: "succeeded (remove_liquidity ledger_sdk 6 demo_remove demo_s2)"
  by code_simp

lemma demo_signer: "externally_signed ledger_sdk (MsgCreatePool demo_create)"
  by (simp add: externally_signed_def demo_create_def ledger_sdk_def ledger_account_def lp_module_def)

lemma demo_reachable: "lp_reachable ledger_sdk ''gov'' 5 demo_s1" "lp_reachable ledger_sdk ''gov'' 6 demo_s2"
  "lp_reachable ledger_sdk ''gov'' 5 demo_s0"
proof -
  have "validate_params ledger_sdk demo_params = Inr ()" by code_simp
  moreover have "0 \<le> bank_balance ledger_sdk demo_bank (lp_module ledger_sdk) d" for d
    by (simp add: ledger_sdk_def ledger_balance_def demo_bank_def lp_module_def lp_module_name_def)
  ultimately show r0: "lp_reachable ledger_sdk ''gov'' 5 demo_s0"
    unfolding demo_s0_def by (intro lp_reachable.genesis) simp_all
  have "deliver (lp_handle ledger_sdk ''gov'' 5) (MsgCreatePool demo_create) demo_s0 = demo_s1"
    by (simp add: deliver_def discard_def demo_create_runs)
  with lp_reachable.message [OF r0 demo_signer] show r1: "lp_reachable ledger_sdk ''gov'' 5 demo_s1" by simp
  have "begin_block (5 + 1) demo_s1 = Done demo_s2 ()" by (simp add: demo_block_runs)
  from lp_reachable.block [OF r1 _ this] show "lp_reachable ledger_sdk ''gov'' 6 demo_s2" by simp
qed

end
