(* ===== verification/LP_Oracle.thy ===== *)
theory LP_Oracle
  imports LP_Properties
begin

text \<open>
  The average price over reachable states.  Once the block hook has run, every accumulator stands at
  the current block, so the messages of the block change no price history: what the billing oracle
  reports is fixed before the first trade of a block.
\<close>

section \<open>One shape for all messages\<close>

lemma lp_handle_effect:
  assumes run: "lp_handle env authority h m s = Done s' u" and C: "core_ok env h s" and L: "sdk_laws env"
  obtains (replace) p p' s1 where "replaced s s' p p'" "is_live p"
      "pool_denom_a p' = pool_denom_a p" "pool_denom_b p' = pool_denom_b p" "pool_created_at p' = pool_created_at p"
      "update_twap_accumulator h p s = Done s1 ()" "lp_observations s' = lp_observations s1"
      "lp_accs s' = (if is_live p' then lp_accs s1 else kv_del (pool_id p) (lp_accs s1))"
  | (create) p s2 where "get_pool s (pool_id p) = None" "get_pool_by_denoms s (pool_denom_a p) (pool_denom_b p) = None"
      "valid_denom env (pool_denom_a p)" "valid_denom env (pool_denom_b p)" "is_live p"
      "get_pool s' = (get_pool s)(pool_id p \<mapsto> p)" "lp_accs s2 = lp_accs s" "lp_observations s2 = lp_observations s"
      "update_twap_accumulator h p s2 = Done s' ()" "pool_created_at p = to_u64 h" "window_of s' = window_of s"
  | (params) x where "m = MsgUpdateParams x" "get_pool s' = get_pool s" "lp_accs s' = lp_accs s" "lp_observations s' = lp_observations s"
proof (cases m)
  case (MsgCreatePool x)
  with run obtain pid where "create_pool env h x s = Done s' pid" by (auto simp: discard_Done)
  from this L show ?thesis
  proof (rule create_pool_effect)
    fix a b counter n creator deposit lp_coins b1 b2 b3 s2
    let ?p = "created_pool h x counter (default_swap_fee_bps (get_params s)) a b (big_sqrt (a * b))"
    assume v: "validate_create_pool env x = Inr ()" and pid: "pid = format_pool_id counter" "get_pool s pid = None"
      and free: "get_pool_by_denoms s (cp_denom_a x) (cp_denom_b x) = None"
      and s2: "s2 = set_params (consume_admission (counter_denom_of x) (get_params s))
        (set_pool ?p (s\<lparr>lp_bank := b1, lp_counter := Some (counter + 1)\<rparr>)\<lparr>lp_bank := b3\<rparr>)"
      and tw: "update_twap_accumulator h ?p s2 = Done s' ()"
    note fr = update_twap_frame [OF tw]
    have win: "window_of s' = window_of s" using same_but_twapD(8) [OF fr] by (simp add: window_of_def s2)
    have "get_pool s' = get_pool s2" using same_but_twapD(9) [OF fr] .
    also have "\<dots> = (get_pool s)(pool_id ?p \<mapsto> ?p)" by (simp add: s2 fun_eq_iff) (simp add: get_pool_def)
    finally show ?thesis
      using create [of ?p s2] pid free tw win v [unfolded validate_create_pool_Inr]
      by (simp add: is_live_def s2 set_params_def)
  qed
next
  case (MsgSwap x)
  with run obtain r where "swap env h x s = Done s' r" by (auto simp: discard_Done)
  from this core_okD(4) [OF C] L show ?thesis
  proof (rule swap_effect)
    fix q :: swap_quote and sender s1 b1 ins outs
    assume q: "checked_swap_quote env s (sw_pool_id x) (sw_token_in_denom x) (sw_token_in_amount x) = Inr q"
      and E: "update_twap_accumulator h (q_pool q) s = Done s1 ()"
        "replaced s s' (q_pool q) (swapped_pool q (sw_token_in_denom x))"
        "lp_accs s' = lp_accs s1" "lp_observations s' = lp_observations s1"
    from q have "pool_status (q_pool q) = POOL_STATUS_ACTIVE" by (rule checked_swap_quote_Inr) blast
    with E show ?thesis by (intro replace [OF E(2) _ _ _ _ E(1)]) (simp_all add: is_live_def)
  qed
next
  case (MsgAddLiquidity x)
  with run obtain r where "add_liquidity env h x s = Done s' r" by (auto simp: discard_Done)
  from this core_okD(4) [OF C] L show ?thesis
  proof (rule add_liquidity_effect)
    fix p :: pool and ra rb tot da db a b lp sender s1 b1 b2 deposit lp_coins
    assume st: "can_add_liquidity (pool_status p)"
      and E: "update_twap_accumulator h p s = Done s1 ()" "replaced s s' p (deposited_pool p (ra + a) (rb + b) (tot + lp))"
        "lp_accs s' = lp_accs s1" "lp_observations s' = lp_observations s1"
    from st E show ?thesis
      by (intro replace [OF E(2) _ _ _ _ E(1)]) (auto simp: is_live_def can_add_liquidity_def)
  qed
next
  case (MsgRemoveLiquidity x)
  with run obtain r where "remove_liquidity env h x s = Done s' r" by (auto simp: discard_Done)
  from this core_okD(4) [OF C] L show ?thesis
  proof (rule remove_liquidity_effect)
    fix p :: pool and ra rb tot lp a b sender s1 b1 b2 lp_coins withdrawal
    assume st: "can_remove_liquidity (pool_status p)"
      and E: "update_twap_accumulator h p s = Done s1 ()"
        "replaced s s' p (withdrawn_pool h p (ra - a) (rb - b) (tot - lp))"
        "lp_accs s' = (if lp = tot then kv_del (pool_id p) (lp_accs s1) else lp_accs s1)"
        "lp_observations s' = lp_observations s1"
    from st E show ?thesis
      by (intro replace [OF E(2) _ _ _ _ E(1)]) (auto simp: is_live_def can_remove_liquidity_def)
  qed
next
  case (MsgUpdateParams x)
  with run have "update_params env authority x s = Done s' u" by simp
  then show ?thesis
    by (rule update_params_effect) (use params MsgUpdateParams in \<open>simp add: set_params_def get_pool_def fun_eq_iff\<close>)
next
  case (MsgSetPoolStatus x)
  with run have "set_pool_status env authority h x s = Done s' u" by simp
  from this core_okD(4) [OF C] show ?thesis
  proof (rule set_pool_status_effect)
    fix p :: pool and s1
    assume st: "is_open_pool_status (ss_status x)" "is_live p"
      and E: "update_twap_accumulator h p s = Done s1 ()" "replaced s s' p (p\<lparr>pool_status := ss_status x\<rparr>)"
        "lp_accs s' = lp_accs s1" "lp_observations s' = lp_observations s1"
    from st E show ?thesis
      by (intro replace [OF E(2) _ _ _ _ E(1)]) (auto simp: is_live_def)
  qed
qed

text \<open>A closed pool's record is final.\<close>

lemma closed_pool_final:
  assumes "lp_handle env authority h m s = Done s' u" "core_ok env h s" "sdk_laws env"
    and "get_pool s k = Some p" "\<not> is_live p"
  shows "get_pool s' k = Some p"
  using assms(1-3)
proof (cases rule: lp_handle_effect)
  case (replace q q' s1)
  from replacedD(1,4) [OF replace(1)] replace(2) assms(4,5) show ?thesis by auto
next
  case (create q s2)
  with assms(4) show ?thesis by auto
qed (simp add: assms(4))

section \<open>Accumulators stand at the current block\<close>

lemma update_twap_other:
  assumes "update_twap_accumulator h p s = Done s' u" "k \<noteq> pool_id p"
    and "\<And>a. kv_get (lp_accs s) (pool_id p) = Some a \<Longrightarrow> acc_pool_id a = pool_id p" "kv_ok (lp_observations s)"
  shows "kv_get (lp_accs s') k = kv_get (lp_accs s) k"
    "kv_get (lp_observations s') (k, g) = kv_get (lp_observations s) (k, g)"
proof -
  have "kv_get (lp_accs s') k = kv_get (lp_accs s) k \<and>
      kv_get (lp_observations s') (k, g) = kv_get (lp_observations s) (k, g)"
    using assms unfolding update_twap_accumulator_def get_twap_accumulator_def
    by (auto simp: outcome_simps Let_def prune_get(1) split: if_splits option.splits)
  then show "kv_get (lp_accs s') k = kv_get (lp_accs s) k"
    "kv_get (lp_observations s') (k, g) = kv_get (lp_observations s) (k, g)" by simp_all
qed

lemma update_twap_own:
  assumes "update_twap_accumulator h p s = Done s' u" "is_live p"
    and "\<And>a. kv_get (lp_accs s) (pool_id p) = Some a \<Longrightarrow> acc_pool_id a = pool_id p"
  shows "\<exists>a. kv_get (lp_accs s') (pool_id p) = Some a \<and> to_u64 h \<le> acc_last_block a"
  using assms unfolding update_twap_accumulator_def get_twap_accumulator_def is_live_def
  by (auto simp: outcome_simps Let_def split: if_splits option.splits)

lemma update_twap_same_block:
  assumes "update_twap_accumulator h p s = Done s' u"
    and "kv_get (lp_accs s) (pool_id p) = Some a" "to_u64 h \<le> acc_last_block a"
  shows "s' = s"
  using assms unfolding update_twap_accumulator_def get_twap_accumulator_def
  by (auto split: if_splits)

definition accs_current :: "int \<Rightarrow> 'b lp_state \<Rightarrow> bool" where
  "accs_current h s \<longleftrightarrow> (\<forall>k a. kv_get (lp_accs s) k = Some a \<longrightarrow> to_u64 h \<le> acc_last_block a)"

lemma twap_acc_id: "twap_ok h s \<Longrightarrow> kv_get (lp_accs s) k = Some a \<Longrightarrow> acc_pool_id a = k"
  using twap_okD(4) [of "{}" h s k a] by (auto simp: twap_ok_def acc_ok_def)

text \<open>What a message leaves of the price history of a pool.\<close>

lemma message_history:
  assumes run: "lp_handle env authority h m s = Done s' u" and C: "core_ok env h s" and T: "twap_ok h s"
    and L: "sdk_laws env" and cur: "accs_current h s"
  shows "accs_current h s'"
    and "get_pool s k = Some p \<Longrightarrow> is_live p \<Longrightarrow> get_pool s' k = Some p' \<Longrightarrow> is_live p' \<Longrightarrow>
      kv_get (lp_accs s') k = kv_get (lp_accs s) k \<and>
      kv_get (lp_observations s') (k, g) = kv_get (lp_observations s) (k, g)"
proof -
  note D = twap_okD [OF T [unfolded twap_ok_def]]
  have "accs_current h s' \<and> (get_pool s k = Some p \<longrightarrow> is_live p \<longrightarrow> get_pool s' k = Some p' \<longrightarrow> is_live p' \<longrightarrow>
      kv_get (lp_accs s') k = kv_get (lp_accs s) k \<and>
      kv_get (lp_observations s') (k, g) = kv_get (lp_observations s) (k, g))"
    using run C L
  proof (cases rule: lp_handle_effect)
    case (replace q q' s1)
    note R = replacedD [OF replace(1)]
    obtain a where a: "kv_get (lp_accs s) (pool_id q) = Some a" using D(6) [OF R(1) replace(2)] by auto
    with cur have "s1 = s" using update_twap_same_block [OF replace(6) a] by (auto simp: accs_current_def)
    with replace(7,8) cur R(4) show ?thesis by (auto simp: accs_current_def split: if_splits)
  next
    case (create q s2)
    have id2: "acc_pool_id a = pool_id q" if "kv_get (lp_accs s2) (pool_id q) = Some a" for a
      using that create(7) twap_acc_id [OF T] by simp
    have ok2: "kv_ok (lp_observations s2)" using D(2) create(8) by simp
    from update_twap_own [OF create(9,5) id2] obtain a where
      own: "kv_get (lp_accs s') (pool_id q) = Some a" "to_u64 h \<le> acc_last_block a" by blast
    have "accs_current h s'"
      unfolding accs_current_def
    proof (intro allI impI)
      fix j b assume b: "kv_get (lp_accs s') j = Some b"
      show "to_u64 h \<le> acc_last_block b"
      proof (cases "j = pool_id q")
        case True
        with b own show ?thesis by simp
      next
        case False
        with b cur update_twap_other(1) [OF create(9) False id2 ok2] create(7)
        show ?thesis by (simp add: accs_current_def)
      qed
    qed
    moreover have "kv_get (lp_accs s') k = kv_get (lp_accs s) k \<and>
        kv_get (lp_observations s') (k, g) = kv_get (lp_observations s) (k, g)" if "k \<noteq> pool_id q"
      using update_twap_other [OF create(9) that id2 ok2] create(7,8) by simp
    ultimately show ?thesis using create(1) by (cases "k = pool_id q") auto
  next
    case params
    with cur show ?thesis by (simp add: accs_current_def)
  qed
  then show "accs_current h s'" and "get_pool s k = Some p \<Longrightarrow> is_live p \<Longrightarrow> get_pool s' k = Some p' \<Longrightarrow> is_live p' \<Longrightarrow>
      kv_get (lp_accs s') k = kv_get (lp_accs s) k \<and>
      kv_get (lp_observations s') (k, g) = kv_get (lp_observations s) (k, g)" by blast+
qed

text \<open>The block hook brings every accumulator to the new block.\<close>

lemma update_open_pools_current:
  assumes "update_open_pools h ids s = Done s' u" "core_ok env h s" "twap_ok h s"
    and "\<And>j a. kv_get (lp_accs s) j = Some a \<Longrightarrow> j \<notin> set ids \<Longrightarrow> to_u64 h \<le> acc_last_block a"
  shows "accs_current h s'"
  using assms
proof (induction ids arbitrary: s)
  case Nil
  then show ?case by (simp add: accs_current_def)
next
  case (Cons k ids)
  then obtain p s1 where p: "get_pool s k = Some p" "is_live p" and up: "update_twap_accumulator h p s = Done s1 ()"
    and rest: "update_open_pools h ids s1 = Done s' u"
    by (auto simp: and_then_Done is_live_def split: option.splits if_splits)
  have pid: "pool_id p = k" using index_okD(4) [OF core_okD(4) [OF Cons.prems(2)] p(1)] .
  have T1: "twap_ok h s1" by (rule twap_ok_message [OF Cons.prems(2,3) p up])
  have C1: "core_ok env h s1" using core_ok_frame [OF update_twap_frame [OF up]] Cons.prems(2) by blast
  note idk = twap_acc_id [OF Cons.prems(3)]
  have "kv_ok (lp_observations s)" using twap_okD(2) [OF Cons.prems(3) [unfolded twap_ok_def]] .
  note oth = update_twap_other(1) [OF up _ idk this] and own = update_twap_own [OF up p(2) idk]
  have "to_u64 h \<le> acc_last_block a" if "kv_get (lp_accs s1) j = Some a" "j \<notin> set ids" for j a
    using that oth [of j] own Cons.prems(4) [of j a] pid by (cases "j = k") auto
  with Cons.IH [OF rest C1 T1] show ?case by blast
qed

lemma begin_block_current:
  assumes "begin_block h s = Done s' u" "core_ok env h s" "twap_ok h s"
  shows "accs_current h s'"
proof -
  from assms(1) obtain s1 where gc: "process_twap_garbage_collection s = Done s1 ()"
    and up: "update_open_pools h (map snd (lp_open_index s1)) s1 = Done s' u"
    by (auto simp: begin_block_def and_then_Done)
  have C1: "core_ok env h s1" using same_records_core_ok [OF gc_records [OF gc]] assms(2) by blast
  have T1: "twap_ok h s1" using assms(3) by (rule gc_runs) (use gc in simp)
  from up C1 T1 show ?thesis
  proof (rule update_open_pools_current)
    fix j a assume "kv_get (lp_accs s1) j = Some a" "j \<notin> set (map snd (lp_open_index s1))"
    moreover from twap_okD(4) [OF T1 [unfolded twap_ok_def] this(1)]
    have "kv_get (lp_open_index s1) j = Some j"
      using index_okD(5) [OF core_okD(4) [OF C1], of j j] by auto
    ultimately show "to_u64 h \<le> acc_last_block a" by (force dest: kv_get_in_set)
  qed
qed

lemma reachable_current:
  "lp_reachable env authority h s \<Longrightarrow> sdk_laws env \<Longrightarrow> accs_current h s"
proof (induction rule: lp_reachable.induct)
  case (genesis params h b)
  then show ?case by (simp add: accs_current_def empty_lp_state_def)
next
  case (message h s m)
  from lp_reachable_inv [OF message.hyps(1) message.prems] message show ?case
    by (auto simp: lp_inv_def deliver_def split: outcome.splits intro: message_history(1))
next
  case (block h s s' u)
  from lp_reachable_inv [OF block.hyps(1) block.prems]
  have "core_ok env (h + 1) s" "twap_ok (h + 1) s"
    using block by (auto simp: lp_inv_def intro: core_ok_later twap_ok_later dest: core_okD(5))
  with block.hyps(3) show ?case by (rule begin_block_current)
next
  case (others h s b)
  then show ?case by (simp add: accs_current_def)
qed

section \<open>The rest of a block changes no price history\<close>

definition later_in_block :: "int \<Rightarrow> 'b lp_state \<Rightarrow> 'b lp_state \<Rightarrow> bool" where
  "later_in_block h s s' \<longleftrightarrow>
     window_of s' = window_of s \<and>
     (\<forall>k. get_pool s k \<noteq> None \<longrightarrow> get_pool s' k \<noteq> None) \<and>
     (\<forall>k p'. get_pool s' k = Some p' \<longrightarrow>
        (\<exists>p. get_pool s k = Some p \<and> pool_denom_a p' = pool_denom_a p \<and> pool_denom_b p' = pool_denom_b p \<and>
           pool_created_at p' = pool_created_at p \<and> (is_live p' \<longrightarrow> is_live p))
        \<or> get_pool s k = None \<and> pool_created_at p' = to_u64 h) \<and>
     (\<forall>k p p'. get_pool s k = Some p \<longrightarrow> is_live p \<longrightarrow> get_pool s' k = Some p' \<longrightarrow> is_live p' \<longrightarrow>
        kv_get (lp_accs s') k = kv_get (lp_accs s) k \<and>
        (\<forall>g. kv_get (lp_observations s') (k, g) = kv_get (lp_observations s) (k, g)))"

lemma later_refl: "later_in_block h s s"
  by (simp add: later_in_block_def)

lemma laterD:
  assumes "later_in_block h s s'"
  shows "window_of s' = window_of s" "get_pool s k \<noteq> None \<Longrightarrow> get_pool s' k \<noteq> None"
    "get_pool s' k = Some p' \<Longrightarrow>
        (\<exists>p. get_pool s k = Some p \<and> pool_denom_a p' = pool_denom_a p \<and> pool_denom_b p' = pool_denom_b p \<and>
           pool_created_at p' = pool_created_at p \<and> (is_live p' \<longrightarrow> is_live p))
        \<or> get_pool s k = None \<and> pool_created_at p' = to_u64 h"
    "get_pool s k = Some p \<Longrightarrow> is_live p \<Longrightarrow> get_pool s' k = Some p' \<Longrightarrow> is_live p' \<Longrightarrow>
        kv_get (lp_accs s') k = kv_get (lp_accs s) k \<and>
        kv_get (lp_observations s') (k, g) = kv_get (lp_observations s) (k, g)"
  using assms unfolding later_in_block_def by blast+

lemma later_trans:
  assumes A: "later_in_block h s s1" and B: "later_in_block h s1 s2"
  shows "later_in_block h s s2"
proof -
  have recs: "(\<exists>p. get_pool s k = Some p \<and> pool_denom_a q = pool_denom_a p \<and> pool_denom_b q = pool_denom_b p \<and>
           pool_created_at q = pool_created_at p \<and> (is_live q \<longrightarrow> is_live p))
        \<or> get_pool s k = None \<and> pool_created_at q = to_u64 h" if "get_pool s2 k = Some q" for k q
  proof (cases "get_pool s1 k")
    case None
    with laterD(2) [OF A, of k] laterD(3) [OF B that] show ?thesis by auto
  next
    case (Some q1)
    with laterD(3) [OF A Some] laterD(3) [OF B that] show ?thesis by auto
  qed
  have hist: "kv_get (lp_accs s2) k = kv_get (lp_accs s) k \<and>
        (\<forall>g. kv_get (lp_observations s2) (k, g) = kv_get (lp_observations s) (k, g))"
    if "get_pool s k = Some p" "is_live p" "get_pool s2 k = Some q" "is_live q" for k p q
  proof -
    from that laterD(2) [OF A, of k] obtain q1 where q1: "get_pool s1 k = Some q1" by auto
    with laterD(3) [OF B that(3)] that(4) have "is_live q1" by auto
    with laterD(4) [OF A that(1,2) q1] laterD(4) [OF B q1 _ that(3,4)] show ?thesis by auto
  qed
  have "window_of s2 = window_of s" using laterD(1) [OF A] laterD(1) [OF B] by simp
  moreover have "get_pool s k \<noteq> None \<longrightarrow> get_pool s2 k \<noteq> None" for k using laterD(2) [OF A] laterD(2) [OF B] by blast
  ultimately show ?thesis
    unfolding later_in_block_def using recs hist by (intro conjI allI impI) blast+
qed

lemma message_later:
  assumes run: "lp_handle env authority h m s = Done s' u" and C: "core_ok env h s" and T: "twap_ok h s"
    and L: "sdk_laws env" and cur: "accs_current h s" and np: "\<And>x. m \<noteq> MsgUpdateParams x"
  shows "later_in_block h s s'"
  using run C L
proof (cases rule: lp_handle_effect)
  case (replace q q' s1)
  note R = replacedD [OF replace(1)]
  show ?thesis
    unfolding later_in_block_def
    using R(1,4,6) replace(2-5) message_history(2) [OF run C T L cur] by (simp add: window_of_def)
next
  case (create q s2)
  then show ?thesis
    unfolding later_in_block_def using message_history(2) [OF run C T L cur] by simp
next
  case (params x)
  with np show ?thesis by blast
qed

definition keeps_params :: "lp_msg \<Rightarrow> bool" where
  "keeps_params m \<longleftrightarrow> (case m of MsgUpdateParams x \<Rightarrow> False | _ \<Rightarrow> True)"

lemma deliver_all_later:
  assumes "lp_reachable env authority h s" "sdk_laws env"
    and "\<And>m. m \<in> set ms \<Longrightarrow> externally_signed env m \<and> keeps_params m"
  shows "later_in_block h s (deliver_all (lp_handle env authority h) ms s)"
  using assms(1,3)
proof (induction ms arbitrary: s)
  case Nil
  then show ?case by (simp add: later_refl)
next
  case (Cons m ms)
  note I = lp_reachable_inv [OF Cons.prems(1) assms(2)] and cur = reachable_current [OF Cons.prems(1) assms(2)]
  let ?s1 = "deliver (lp_handle env authority h) m s"
  have np: "m \<noteq> MsgUpdateParams x" for x using Cons.prems(2) [of m] by (auto simp: keeps_params_def)
  have "later_in_block h s ?s1"
    using I cur assms(2) np message_later [of env authority h m s]
    by (simp add: deliver_def lp_inv_def later_refl split: outcome.splits)
  moreover have "lp_reachable env authority h ?s1" using Cons.prems by (auto intro: lp_reachable.message)
  ultimately show ?case using Cons.IH [of ?s1] Cons.prems(2) by (auto intro: later_trans)
qed

section \<open>The oracle reads the history only\<close>

lemma spot_price_window: "spot_price_of p d = Inr (x, used) \<Longrightarrow> used = 0"
  by (auto simp: spot_price_of_def outcome_simps split: if_splits)

lemma get_twap_full_window:
  assumes "get_twap s k d w = Inr (x, used)" "used \<noteq> 0" "w \<noteq> 0"
  obtains p a ob c0 c1 where "get_pool s k = Some p" "is_live p" "kv_get (lp_accs s) k = Some a"
    "find (\<lambda>ob. (if w < acc_last_block a then acc_last_block a - w else 0) \<le> obs_block_height ob)
       (map snd (observation_entries s k)) = Some ob"
    "obs_block_height ob < acc_last_block a" "used = acc_last_block a - obs_block_height ob"
    "cumulative_for_base (acc_cum_a_to_b a) (acc_cum_b_to_a a) (d = pool_denom_a p) = Inr c1"
    "cumulative_for_base (obs_cum_a_to_b ob) (obs_cum_b_to_a ob) (d = pool_denom_a p) = Inr c0"
    "c0 \<le> c1" "x = ((c1 - c0) * 1000000) div (uint used * twap_scale)"
proof -
  from assms(1) obtain p where p: "get_pool s k = Some p" "pool_status p \<noteq> POOL_STATUS_CLOSED"
    by (auto simp: get_twap_def outcome_simps)
  note run = assms(1) [unfolded get_twap_def get_twap_accumulator_def Let_def p(1) of_option_Some bind_sum_Inr_eq]
  obtain a where a: "kv_get (lp_accs s) k = Some a"
    using run assms(2) by (cases "kv_get (lp_accs s) k") (auto simp: if_Inl_Inr dest: spot_price_window)
  let ?f = "find (\<lambda>ob. (if w < acc_last_block a then acc_last_block a - w else 0) \<le> obs_block_height ob)
       (map snd (observation_entries s k))"
  from run a obtain c1 where c1: "cumulative_for_base (acc_cum_a_to_b a) (acc_cum_b_to_a a) (d = pool_denom_a p) = Inr c1"
    by (auto simp: outcome_simps)
  have body: "(case ?f of
       None \<Rightarrow> spot_price_of p d
     | Some selected \<Rightarrow>
         if acc_last_block a \<le> obs_block_height selected then spot_price_of p d
         else bind_sum (map_err (\<lambda>_. ErrInvalidPoolState)
             (cumulative_for_base (obs_cum_a_to_b selected) (obs_cum_b_to_a selected) (d = pool_denom_a p)))
           (\<lambda>previous_cum. if c1 < previous_cum then Inl ErrInvalidPoolState
             else Inr (((c1 - previous_cum) * 1000000) div (uint (acc_last_block a - obs_block_height selected) * twap_scale),
               acc_last_block a - obs_block_height selected))) = Inr (x, used)"
    using run a c1 assms(3) by (simp add: if_Inl_Inr cong: if_cong split del: if_split)
  show ?thesis
  proof (cases ?f)
    case None
    with body assms(2) show ?thesis by (auto dest: spot_price_window)
  next
    case (Some ob)
    with body assms(2) have lt: "obs_block_height ob < acc_last_block a"
      by (auto simp: not_le [symmetric] dest: spot_price_window)
    have nle: "\<not> acc_last_block a \<le> obs_block_height ob" using lt by simp
    from body Some nle obtain c0 where
      "cumulative_for_base (obs_cum_a_to_b ob) (obs_cum_b_to_a ob) (d = pool_denom_a p) = Inr c0" "c0 \<le> c1"
      "used = acc_last_block a - obs_block_height ob" "x = ((c1 - c0) * 1000000) div (uint used * twap_scale)"
      by (auto simp: outcome_simps not_less)
    with that p a Some lt c1 show ?thesis by (simp add: is_live_def)
  qed
qed

lemma find_unique_price:
  assumes "get_twap s k d w = Inr (x, used)" "used \<noteq> 0" "get_twap s' k d w = Inr (y, used')" "used' \<noteq> 0" "w \<noteq> 0"
    and "kv_get (lp_accs s') k = kv_get (lp_accs s) k" "observation_entries s' k = observation_entries s k"
    and "\<And>p p'. get_pool s k = Some p \<Longrightarrow> get_pool s' k = Some p' \<Longrightarrow> pool_denom_a p' = pool_denom_a p"
  shows "y = x"
  using assms(1,2,5)
proof (rule get_twap_full_window)
  fix p a ob c0 c1
  assume A: "get_pool s k = Some p" "kv_get (lp_accs s) k = Some a"
    "find (\<lambda>ob. (if w < acc_last_block a then acc_last_block a - w else 0) \<le> obs_block_height ob)
       (map snd (observation_entries s k)) = Some ob"
    "used = acc_last_block a - obs_block_height ob"
    "cumulative_for_base (acc_cum_a_to_b a) (acc_cum_b_to_a a) (d = pool_denom_a p) = Inr c1"
    "cumulative_for_base (obs_cum_a_to_b ob) (obs_cum_b_to_a ob) (d = pool_denom_a p) = Inr c0"
    "x = ((c1 - c0) * 1000000) div (uint used * twap_scale)"
  from assms(3,4,5) show ?thesis
  proof (rule get_twap_full_window)
    fix p' a' ob' c0' c1'
    assume B: "get_pool s' k = Some p'" "kv_get (lp_accs s') k = Some a'"
      "find (\<lambda>ob. (if w < acc_last_block a' then acc_last_block a' - w else 0) \<le> obs_block_height ob)
         (map snd (observation_entries s' k)) = Some ob'"
      "used' = acc_last_block a' - obs_block_height ob'"
      "cumulative_for_base (acc_cum_a_to_b a') (acc_cum_b_to_a a') (d = pool_denom_a p') = Inr c1'"
      "cumulative_for_base (obs_cum_a_to_b ob') (obs_cum_b_to_a ob') (d = pool_denom_a p') = Inr c0'"
      "y = ((c1' - c0') * 1000000) div (uint used' * twap_scale)"
    have eq: "a' = a" "pool_denom_a p' = pool_denom_a p"
      using A(2) B(2) assms(6) assms(8) [OF A(1) B(1)] by simp_all
    have ob: "ob' = ob" using trans [OF sym [OF B(3) [unfolded eq(1) assms(7)]] A(3)] by (simp only: option.inject)
    have "c1' = c1" using trans [OF sym [OF B(5) [unfolded eq]] A(5)] by simp
    moreover have "c0' = c0" using trans [OF sym [OF B(6) [unfolded eq ob]] A(6)] by simp
    moreover have "used' = used" using trans [OF B(4) [unfolded eq ob] sym [OF A(4)]] .
    ultimately show "y = x" using A(7) B(7) by (simp only:)
  qed
qed

lemma observation_entries_cong:
  assumes "kv_ok (lp_observations s)" "kv_ok (lp_observations s')"
    and "\<And>g. kv_get (lp_observations s') (k, g) = kv_get (lp_observations s) (k, g)"
  shows "observation_entries s' k = observation_entries s k"
proof -
  have get: "kv_get (observation_entries z k) j = (if fst j = k then kv_get (lp_observations z) j else None)" for z :: "'c lp_state" and j
  proof -
    have "map_of (filter (\<lambda>e. fst (fst e) = k) m) j = (if fst j = k then map_of m j else None)" for m :: "((string \<times> u64) \<times> twap_observation) list"
      by (induction m) auto
    then show ?thesis by (simp add: observation_entries_def)
  qed
  show ?thesis
  proof (rule kv_ok_eqI)
    show "kv_ok (observation_entries s' k)" "kv_ok (observation_entries s k)"
      using assms(1,2) by (simp_all add: observation_entries_def kv_ok_filter)
    show "kv_get (observation_entries s' k) j = kv_get (observation_entries s k) j" for j
      using assms(3) [of "snd j"] by (cases j) (auto simp: get)
  qed
qed

lemma get_pool_by_denoms_Some:
  assumes "get_pool_by_denoms s a b = Some p" "index_ok s"
  shows "get_pool s (pool_id p) = Some p" "is_live p" "same_denom_pair (pool_denom_a p) (pool_denom_b p) a b"
    "kv_get (lp_denom_index s) (denom_pair_key a b) = Some (pool_id p)"
proof -
  from assms(1) obtain k where k: "kv_get (lp_denom_index s) (denom_pair_key a b) = Some k" "get_pool s k = Some p"
    "is_live p" "same_denom_pair (pool_denom_a p) (pool_denom_b p) a b"
    by (auto simp: get_pool_by_denoms_def is_live_def split: option.splits if_splits)
  have "pool_id p = k" using index_okD(4) [OF assms(2) k(2)] .
  with k show "get_pool s (pool_id p) = Some p" "is_live p" "same_denom_pair (pool_denom_a p) (pool_denom_b p) a b"
    "kv_get (lp_denom_index s) (denom_pair_key a b) = Some (pool_id p)" by simp_all
qed

lemma get_zrn_price_Inr:
  assumes "get_zrn_price env s q = Inr x"
  obtains p used ra rb fl where "q \<in> set (billing_quote_denoms (get_params s))"
    "get_pool_by_denoms s zrn_denom q = Some p" "pool_status p = POOL_STATUS_ACTIVE"
    "parse_positive_amount (pool_reserve_a p) = Inr ra" "parse_positive_amount (pool_reserve_b p) = Inr rb"
    "parse_non_negative_amount (min_reserve (get_params s)) = Inr fl" "fl \<le> ra" "fl \<le> rb"
    "get_twap s (pool_id p) zrn_denom (window_of s) = Inr (x, used)" "window_of s \<le> used" "0 < x" "x < 2 ^ sdk_max_bits"
  using assms unfolding get_zrn_price_def Let_def window_of_def
  by (auto simp: outcome_simps not_le not_less split: if_splits)

text \<open>A quoted price averages over the pool's own history and a full window.\<close>

lemma quoted_pool:
  assumes Q: "get_zrn_price env s q = Inr x" and I: "core_ok env h s" "twap_ok h s"
  obtains p used a ob where "get_pool_by_denoms s zrn_denom q = Some p"
    "get_twap s (pool_id p) zrn_denom (window_of s) = Inr (x, used)" "used \<noteq> 0" "window_of s \<noteq> 0"
    "window_of s \<le> used" "get_pool s (pool_id p) = Some p" "is_live p" "kv_get (lp_accs s) (pool_id p) = Some a"
    "uint (pool_created_at p) < h"
proof -
  have w: "window_of s \<noteq> 0"
    using I(1) by (auto simp: core_ok_def records_ok_def validate_params_ok window_of_def)
  from Q obtain p used where p: "get_pool_by_denoms s zrn_denom q = Some p"
    and tw: "get_twap s (pool_id p) zrn_denom (window_of s) = Inr (x, used)" and le: "window_of s \<le> used"
    by (rule get_zrn_price_Inr)
  from le w have u: "used \<noteq> 0" by (metis word_le_0_iff)
  note P = get_pool_by_denoms_Some [OF p core_okD(4) [OF I(1)]]
  from tw u w show ?thesis
  proof (rule get_twap_full_window)
    fix p2 a ob
    assume p2: "get_pool s (pool_id p) = Some p2" "kv_get (lp_accs s) (pool_id p) = Some a"
      and f: "find (\<lambda>ob. (if window_of s < acc_last_block a then acc_last_block a - window_of s else 0) \<le> obs_block_height ob)
       (map snd (observation_entries s (pool_id p))) = Some ob"
      and lt: "obs_block_height ob < acc_last_block a"
    note D = twap_okD [OF I(2) [unfolded twap_ok_def]]
    have acc: "acc_ok h (pool_id p) p a" using D(4) [OF p2(2)] P(1) by auto
    have "ob \<in> set (map snd (observation_entries s (pool_id p)))" using f by (auto simp: find_Some_iff)
    then obtain g where "((pool_id p, g), ob) \<in> set (lp_observations s)" by (auto simp: observation_entries_def)
    then have g: "kv_get (lp_observations s) (pool_id p, g) = Some ob" using kv_get_mem [OF D(2)] by blast
    have "obs_ok (window_of s) a ob" using D(10) [OF g p2(2)] .
    then have "uint (pool_created_at p) < h" using acc lt by (auto simp: acc_ok_def obs_ok_def u64_le u64_less)
    with that p tw u w le P(1,2) p2(2) show ?thesis by blast
  qed
qed

lemma price_fixed_in_block:
  assumes R: "lp_reachable env authority h s" and L: "sdk_laws env"
    and ms: "\<And>m. m \<in> set ms \<Longrightarrow> externally_signed env m \<and> keeps_params m"
    and s': "s' = deliver_all (lp_handle env authority h) ms s"
    and x: "get_zrn_price env s q = Inr x" and y: "get_zrn_price env s' q = Inr y"
  shows "y = x"
proof -
  have "lp_reachable env authority h s'" unfolding s' using R ms by (blast intro: reachable_deliver_all)
  then have I': "core_ok env h s'" "twap_ok h s'" using lp_reachable_inv [OF _ L] by (auto simp: lp_inv_def)
  have I: "core_ok env h s" "twap_ok h s" using lp_reachable_inv [OF R L] by (auto simp: lp_inv_def)
  have later: "later_in_block h s s'" unfolding s' using R L ms by (rule deliver_all_later)
  from x I obtain p used a where p: "get_pool_by_denoms s zrn_denom q = Some p"
    "get_twap s (pool_id p) zrn_denom (window_of s) = Inr (x, used)" "used \<noteq> 0" "window_of s \<noteq> 0"
    by (rule quoted_pool)
  from y I' obtain p' used' where p': "get_pool_by_denoms s' zrn_denom q = Some p'"
    "get_twap s' (pool_id p') zrn_denom (window_of s') = Inr (y, used')" "used' \<noteq> 0"
    and old: "uint (pool_created_at p') < h"
    by (rule quoted_pool)
  note P = get_pool_by_denoms_Some [OF p(1) core_okD(4) [OF I(1)]]
    and P' = get_pool_by_denoms_Some [OF p'(1) core_okD(4) [OF I'(1)]]
  have "uint (to_u64 h) = h" using core_okD(5,6) [OF I(1)] by (intro uint_to_u64) simp_all
  with laterD(3) [OF later P'(1)] old obtain p0 where p0: "get_pool s (pool_id p') = Some p0" "is_live p0"
    "pool_denom_a p' = pool_denom_a p0" "pool_denom_b p' = pool_denom_b p0" using P'(2) by auto
  have "pool_pair_key p0 = denom_pair_key zrn_denom q"
    using index_okD(6) [OF core_okD(4) [OF I'(1)], of "denom_pair_key zrn_denom q" "pool_id p'"] P'(1,4) p0(3,4)
    by (auto simp: pool_pair_key_def)
  with p0 index_okD(6) [OF core_okD(4) [OF I(1)], of "denom_pair_key zrn_denom q" "pool_id p'"]
  have "kv_get (lp_denom_index s) (denom_pair_key zrn_denom q) = Some (pool_id p')" by blast
  with P(4) have k: "pool_id p' = pool_id p" by simp
  note P1 = P'(1) [unfolded k]
  have same: "kv_get (lp_accs s') (pool_id p) = kv_get (lp_accs s) (pool_id p)"
    "\<And>g. kv_get (lp_observations s') (pool_id p, g) = kv_get (lp_observations s) (pool_id p, g)"
    using laterD(4) [OF later P(1,2) P1 P'(2)] by blast+
  have win: "window_of s' = window_of s" using laterD(1) [OF later] .
  show "y = x"
  proof (rule find_unique_price [OF p(2,3) p'(2) [unfolded k win] p'(3) p(4) same(1)])
    show "observation_entries s' (pool_id p) = observation_entries s (pool_id p)"
      using twap_okD(2) [OF I(2) [unfolded twap_ok_def]] twap_okD(2) [OF I'(2) [unfolded twap_ok_def]] same(2)
      by (rule observation_entries_cong)
    show "pool_denom_a q' = pool_denom_a q0"
      if "get_pool s (pool_id p) = Some q0" "get_pool s' (pool_id p) = Some q'" for q0 q'
      using that P1 p0(1,3) k by simp
  qed
qed

section \<open>A block adds one block of the stored price\<close>

lemma update_open_pools_keep:
  assumes "update_open_pools h ids s = Done s' u" "kv_get (lp_accs s) k = Some a" "to_u64 h \<le> acc_last_block a"
    and "core_ok env h s" "twap_ok h s"
  shows "kv_get (lp_accs s') k = Some a"
  using assms
proof (induction ids arbitrary: s)
  case (Cons j ids)
  then obtain p s1 where p: "get_pool s j = Some p" "is_live p" and up: "update_twap_accumulator h p s = Done s1 ()"
    and rest: "update_open_pools h ids s1 = Done s' u"
    by (auto simp: and_then_Done is_live_def split: option.splits if_splits)
  have pid: "pool_id p = j" using index_okD(4) [OF core_okD(4) [OF Cons.prems(4)] p(1)] .
  have T1: "twap_ok h s1" by (rule twap_ok_message [OF Cons.prems(4,5) p up])
  have C1: "core_ok env h s1" using core_ok_frame [OF update_twap_frame [OF up]] Cons.prems(4) by blast
  have "kv_get (lp_accs s1) k = Some a"
  proof (cases "k = j")
    case True
    with update_twap_same_block [OF up] pid Cons.prems(2,3) have "s1 = s" by simp
    with Cons.prems(2) show ?thesis by simp
  next
    case False
    with update_twap_other(1) [OF up _ twap_acc_id [OF Cons.prems(5)]] pid Cons.prems(2)
      twap_okD(2) [OF Cons.prems(5) [unfolded twap_ok_def]] show ?thesis by simp
  qed
  with Cons.IH [OF rest _ Cons.prems(3) C1 T1] show ?case by blast
qed simp

lemma update_open_pools_advance:
  assumes "update_open_pools h ids s = Done s' u" "k \<in> set ids" "core_ok env h s" "twap_ok h s"
    and "kv_get (lp_accs s) k = Some a" "acc_last_block a < to_u64 h" "get_pool s k = Some p"
  shows "kv_get (lp_accs s') k = Some (advance_acc a (to_u64 h) (res_a p) (res_b p))"
  using assms
proof (induction ids arbitrary: s)
  case (Cons j ids)
  then obtain p1 s1 where p: "get_pool s j = Some p1" "is_live p1" and up: "update_twap_accumulator h p1 s = Done s1 ()"
    and rest: "update_open_pools h ids s1 = Done s' u"
    by (auto simp: and_then_Done is_live_def split: option.splits if_splits)
  note C = Cons.prems(3) and T = Cons.prems(4)
  have pid: "pool_id p1 = j" using index_okD(4) [OF core_okD(4) [OF C] p(1)] .
  have T1: "twap_ok h s1" by (rule twap_ok_message [OF C T p up])
  have C1: "core_ok env h s1" using core_ok_frame [OF update_twap_frame [OF up]] C by blast
  show ?case
  proof (cases "k = j")
    case True
    with p Cons.prems(7) have eq: "p1 = p" by simp
    have val: "validate_genesis_pool env p = Inr ()" using core_okD(7) [OF C Cons.prems(7)] .
    have open_p: "is_open_pool_status (pool_status p)" using valid_pool_closed_iff [OF val] p(2) eq by simp
    have res: "parse_positive_amount (pool_reserve_a p) = Inr (res_a p)" "parse_positive_amount (pool_reserve_b p) = Inr (res_b p)"
      using val open_p by (auto simp: validate_pool_iff parse_positive_Inr parse_non_negative_Inr)
    have acc: "acc_ok h k p a" "acc_pool_id a = k"
      using twap_okD(4) [OF T [unfolded twap_ok_def] Cons.prems(5)] Cons.prems(7) by (auto simp: acc_ok_def)
    have pk: "pool_id p = k" using pid eq True by simp
    have "update_twap_accumulator h p s = Done
      (prune_twap_observations (pool_id p) (to_u64 h) (window_of s)
       (set_twap_observation (checkpoint_of (advance_acc a (to_u64 h) (res_a p) (res_b p)))
          (set_twap_accumulator (advance_acc a (to_u64 h) (res_a p) (res_b p)) s))) ()"
      using acc p(2) eq Cons.prems(5) pk
      by (intro update_twap_advances core_okD(5) [OF C] Cons.prems(6) res) (simp_all add: acc_ok_def is_live_def)
    then have s1: "lp_accs s1 = kv_set k (advance_acc a (to_u64 h) (res_a p) (res_b p)) (lp_accs s)"
      using up [unfolded eq] acc(2) by (simp add: advance_acc_def)
    have "kv_get (lp_accs s1) k = Some (advance_acc a (to_u64 h) (res_a p) (res_b p))"
      unfolding s1 by simp
    from update_open_pools_keep [OF rest this _ C1 T1] show ?thesis by (simp add: advance_acc_def)
  next
    case False
    with update_twap_other(1) [OF up _ twap_acc_id [OF T]] pid Cons.prems(5)
      twap_okD(2) [OF T [unfolded twap_ok_def]] have a1: "kv_get (lp_accs s1) k = Some a" by simp
    have "get_pool s1 k = Some p" using same_but_twapD(9) [OF update_twap_frame [OF up]] Cons.prems(7) by simp
    with Cons.IH [OF rest _ C1 T1 a1 Cons.prems(6)] False Cons.prems(2) show ?thesis by simp
  qed
qed simp

lemma block_adds_price:
  assumes "lp_reachable env authority h s" "sdk_laws env" "h + 1 < 2 ^ 63" "begin_block (h + 1) s = Done s' u"
    and "get_pool s k = Some p" "is_live p"
  obtains a where "kv_get (lp_accs s) k = Some a" "uint (acc_last_block a) = h"
    "kv_get (lp_accs s') k = Some (advance_acc a (to_u64 (h + 1)) (res_a p) (res_b p))"
    "uint (to_u64 (h + 1) - acc_last_block a) = 1"
proof -
  from lp_reachable_inv [OF assms(1,2)] have I0: "core_ok env h s" "twap_ok h s" by (auto simp: lp_inv_def)
  then have I: "core_ok env (h + 1) s" "twap_ok (h + 1) s"
    using assms(3) by (auto intro: core_ok_later twap_ok_later dest: core_okD(5))
  have uh: "uint (to_u64 h) = h" "uint (to_u64 (h + 1)) = h + 1"
    using core_okD(5,6) [OF I0(1)] by (simp_all add: uint_to_u64)
  obtain a where a: "kv_get (lp_accs s) k = Some a"
    using twap_okD(6) [OF I0(2) [unfolded twap_ok_def] assms(5,6)] by auto
  have "to_u64 h \<le> acc_last_block a" using reachable_current [OF assms(1,2)] a by (auto simp: accs_current_def)
  moreover have "uint (acc_last_block a) \<le> h"
    using twap_okD(4) [OF I0(2) [unfolded twap_ok_def] a] by (auto simp: acc_ok_def)
  ultimately have last: "uint (acc_last_block a) = h" using uh(1) by (simp add: u64_le)
  from assms(4) obtain s1 where gc: "process_twap_garbage_collection s = Done s1 ()"
    and up: "update_open_pools (h + 1) (map snd (lp_open_index s1)) s1 = Done s' u"
    by (auto simp: begin_block_def and_then_Done)
  have C1: "core_ok env (h + 1) s1" using same_records_core_ok [OF gc_records [OF gc]] I(1) by blast
  have T1: "twap_ok (h + 1) s1" using I(2) by (rule gc_runs) (use gc in simp)
  have "lp_accs s1 = lp_accs s" "get_pool s1 = get_pool s"
    using gc by (auto simp: process_twap_garbage_collection_def Let_def get_pool_def fun_eq_iff
        collect_markers_frame [THEN conjunct1] collect_markers_frame split: if_splits)
  moreover from this have "kv_get (lp_open_index s1) k = Some k"
    using index_okD(5) [OF core_okD(4) [OF C1], of k k] assms(5,6) by auto
  then have "k \<in> set (map snd (lp_open_index s1))" by (force dest: kv_get_in_set)
  ultimately have "kv_get (lp_accs s') k = Some (advance_acc a (to_u64 (h + 1)) (res_a p) (res_b p))"
    using update_open_pools_advance [OF up _ C1 T1, of k a p] a assms(5) last uh(2) by (simp add: u64_less)
  moreover have "uint (to_u64 (h + 1) - acc_last_block a) = 1" using last uh(2) by (simp add: u64_sub_uint)
  ultimately show ?thesis using that a last by blast
qed

end
