(* ===== verification/LP_Claims.thy ===== *)
theory LP_Claims
  imports LP_Oracle
begin

text \<open>
  The properties of the liquidity-pool module over reachable states, with their witnesses on the
  demo run of theory LP_Properties.
\<close>

section \<open>Shared steps\<close>

lemma reachableD:
  assumes "lp_reachable env authority h s" "sdk_laws env"
  shows "core_ok env h s" "twap_ok h s" "index_ok s"
  using lp_reachable_inv [OF assms] core_okD(4) by (auto simp: lp_inv_def)

lemma stored_reserves:
  assumes "validate_genesis_pool env p = Inr ()"
  shows "pool_reserve_a p = big_string x \<Longrightarrow> res_a p = x" "pool_reserve_b p = big_string x \<Longrightarrow> res_b p = x"
    "pool_lp_token_supply p = big_string x \<Longrightarrow> lp_sup p = x"
  using assms unfolding validate_pool_iff parse_non_negative_Inr by (metis big_string_inj)+

lemma accepted_swap:
  assumes L: "sdk_laws env" and R: "lp_reachable env authority h s" and run: "swap env h m s = Done s' r"
    and ext: "externally_signed env (MsgSwap m)"
  obtains q sender where
    "checked_swap_quote env s (sw_pool_id m) (sw_token_in_denom m) (sw_token_in_amount m) = Inr q"
    "get_pool s (sw_pool_id m) = Some (q_pool q)" "acc_address env (sw_sender m) = Some sender" "sender \<noteq> lp_module env"
    "get_pool s' = (get_pool s)(sw_pool_id m \<mapsto> swapped_pool q (sw_token_in_denom m))"
    "r = (big_string (q_token_out q), big_string (q_fee_amount q))"
    "validate_genesis_pool env (q_pool q) = Inr ()"
    "validate_genesis_pool env (swapped_pool q (sw_token_in_denom m)) = Inr ()"
    "\<And>d. bank_balance env (lp_bank s') sender d = bank_balance env (lp_bank s) sender d
        - (if d = sw_token_in_denom m then q_token_in q else 0) + (if d = q_denom_out q then q_token_out q else 0)"
    "\<And>v. parse_optional_positive_amount (sw_min_token_out m) = Inr (Some v) \<Longrightarrow> v \<le> q_token_out q"
proof -
  note I = reachableD [OF R L]
  from run I(3) L show thesis
  proof (rule swap_effect)
    fix q :: swap_quote and sender s1 b1 ins outs
    assume q: "checked_swap_quote env s (sw_pool_id m) (sw_token_in_denom m) (sw_token_in_amount m) = Inr q"
      and sender: "acc_address env (sw_sender m) = Some sender"
      and rep: "replaced s s' (q_pool q) (swapped_pool q (sw_token_in_denom m))"
      and ins: "new_coins env [(sw_token_in_denom m, q_token_in q)] = Some ins"
      and outs: "new_coins env [(q_denom_out q, q_token_out q)] = Some outs"
      and mv: "moved env sender (module_address env lp_module_name) ins (lp_bank s) b1"
        "moved env (module_address env lp_module_name) sender outs b1 (lp_bank s')"
      and r: "r = (big_string (q_token_out q), big_string (q_fee_amount q))"
      and mn: "\<And>v. parse_optional_positive_amount (sw_min_token_out m) = Inr (Some v) \<Longrightarrow> v \<le> q_token_out q"
    from q have pool: "get_pool s (sw_pool_id m) = Some (q_pool q)" by (rule checked_swap_quote_Inr) blast
    have pid: "pool_id (q_pool q) = sw_pool_id m" using index_okD(4) [OF I(3) pool] .
    have gp: "get_pool s' = (get_pool s)(sw_pool_id m \<mapsto> swapped_pool q (sw_token_in_denom m))"
      using rep by (simp add: replaced_def pid)
    have C': "core_ok env h s'" using swap_core_ok [OF I(1) L run] ext by (simp add: externally_signed_def)
    have sm: "sender \<noteq> lp_module env" using ext sender by (simp add: externally_signed_def)
    have bal: "bank_balance env (lp_bank s') sender d = bank_balance env (lp_bank s) sender d
        - (if d = sw_token_in_denom m then q_token_in q else 0) + (if d = q_denom_out q then q_token_out q else 0)" for d
      using moved_balance [OF mv(1), of sender d] moved_balance [OF mv(2), of sender d] sm
        new_coins_amount [OF ins, of d] new_coins_amount [OF outs, of d] by (simp add: lp_module_def)
    from core_okD(7) [OF C', of "sw_pool_id m"] gp
    have "validate_genesis_pool env (swapped_pool q (sw_token_in_denom m)) = Inr ()" by simp
    with that [OF q pool sender sm gp r core_okD(7) [OF I(1) pool] _ bal mn] show thesis by blast
  qed
qed

lemma demo_signers:
  "externally_signed ledger_sdk (MsgSwap demo_swap)" "externally_signed ledger_sdk (MsgAddLiquidity demo_add)"
  "externally_signed ledger_sdk (MsgRemoveLiquidity demo_remove)"
  by (simp_all add: externally_signed_def demo_swap_def demo_add_def demo_remove_def ledger_sdk_def
      ledger_account_def lp_module_def)

lemma demo_price_runs: "get_zrn_price ledger_sdk demo_s2 ''uatom'' = Inr 1000000"
  by code_simp

lemma demo_next_block_runs: "succeeded (begin_block (6 + 1) demo_s2)"
  by code_simp

text \<open>After the last share of the demo pool has left.\<close>

definition demo_s3 :: "ledger lp_state" where
  "demo_s3 = deliver (lp_handle ledger_sdk ''gov'' 6) (MsgRemoveLiquidity demo_remove) demo_s2"

definition demo_closed_pool :: pool where
  "demo_closed_pool = demo_pool\<lparr>pool_reserve_a := ''0'', pool_reserve_b := ''0'', pool_lp_token_supply := ''0'',
     pool_status := POOL_STATUS_CLOSED, pool_closed_at := 6\<rparr>"

lemma demo_closed: "get_pool demo_s3 ''pool-1'' = Some demo_closed_pool"
  by code_simp

lemma demo_reachable_closed: "lp_reachable ledger_sdk ''gov'' 6 demo_s3"
  unfolding demo_s3_def by (rule lp_reachable.message [OF demo_reachable(2) demo_signers(3)])

definition demo_block :: "lp_msg list" where
  "demo_block = [MsgSwap demo_swap]"

lemma demo_price_after:
  "\<not> isl (get_zrn_price ledger_sdk (deliver_all (lp_handle ledger_sdk ''gov'' 6) demo_block demo_s2) ''uatom'')"
  by code_simp

section \<open>Properties\<close>

text \<open>
  C20: In every state the module can reach, through any sequence of blocks, messages and bank
  activity of other modules, the registered state-consistency invariant finds nothing broken: the
  export validates, bank custody covers every reserve, share supplies agree, and the indexes and
  the cleanup queue are exact.
\<close>

theorem lp_state_consistency_holds:
  assumes "sdk_laws env" "lp_reachable env authority h s"
  shows "\<not> state_consistency_broken env s"
  using state_consistent reachableD [OF assms(2,1)] by blast

theorem lp_state_consistency_holds_witness: "\<not> state_consistency_broken ledger_sdk demo_s2"
  by (rule lp_state_consistency_holds [OF ledger_laws demo_reachable(2)])

text \<open>
  C21: The block hook returns in every reachable state: garbage collection and the update of every
  open pool's accumulator never hit one of their panics, so the module cannot halt the chain.
\<close>

theorem lp_begin_block_never_panics:
  assumes "sdk_laws env" "lp_reachable env authority h s" "h + 1 < 2 ^ 63"
  shows "\<exists>s'. begin_block (h + 1) s = Done s' ()"
proof -
  note I = reachableD [OF assms(2,1)]
  have "core_ok env (h + 1) s" "twap_ok (h + 1) s"
    using I assms(3) core_okD(5) [OF I(1)] by (auto intro: core_ok_later twap_ok_later)
  then show ?thesis using begin_block_runs by blast
qed

theorem lp_begin_block_never_panics_witness: "\<exists>s'. begin_block (6 + 1) demo_s2 = Done s' ()"
  by (rule lp_begin_block_never_panics [OF ledger_laws demo_reachable(2)]) simp

text \<open>
  C22: An accepted swap moves exactly the input from the sender to the pool's reserve and the output
  back, respects the sender's minimum, leaves every other pool and the share supply alone, and
  never lowers the product of the reserves.
\<close>

theorem lp_swap_is_exact:
  assumes "sdk_laws env" "lp_reachable env authority h s" "swap env h m s = Done s' (out, fee)"
    and "externally_signed env (MsgSwap m)"
  shows "\<exists>p p' sender tin tout. get_pool s (sw_pool_id m) = Some p \<and> get_pool s' = (get_pool s)(sw_pool_id m \<mapsto> p')
    \<and> acc_address env (sw_sender m) = Some sender \<and> parse_positive_amount (sw_token_in_amount m) = Inr tin
    \<and> out = big_string tout \<and> 0 < tout
    \<and> (sw_token_in_denom m = pool_denom_a p \<and> res_a p' = res_a p + tin \<and> res_b p' = res_b p - tout
          \<and> bank_balance env (lp_bank s') sender (pool_denom_b p) = bank_balance env (lp_bank s) sender (pool_denom_b p) + tout
       \<or> sw_token_in_denom m = pool_denom_b p \<and> res_b p' = res_b p + tin \<and> res_a p' = res_a p - tout
          \<and> bank_balance env (lp_bank s') sender (pool_denom_a p) = bank_balance env (lp_bank s) sender (pool_denom_a p) + tout)
    \<and> bank_balance env (lp_bank s') sender (sw_token_in_denom m)
        = bank_balance env (lp_bank s) sender (sw_token_in_denom m) - tin
    \<and> (\<forall>v. parse_optional_positive_amount (sw_min_token_out m) = Inr (Some v) \<longrightarrow> v \<le> tout)
    \<and> lp_sup p' = lp_sup p \<and> res_a p * res_b p \<le> res_a p' * res_b p'"
  using assms
proof (rule accepted_swap)
  fix q sender
  let ?d = "sw_token_in_denom m"
  let ?p = "q_pool q" and ?p' = "swapped_pool q ?d"
  assume q: "checked_swap_quote env s (sw_pool_id m) ?d (sw_token_in_amount m) = Inr q"
    and pool: "get_pool s (sw_pool_id m) = Some ?p" and sender: "acc_address env (sw_sender m) = Some sender"
    and gp: "get_pool s' = (get_pool s)(sw_pool_id m \<mapsto> ?p')"
    and r: "(out, fee) = (big_string (q_token_out q), big_string (q_fee_amount q))"
    and val: "validate_genesis_pool env ?p = Inr ()" "validate_genesis_pool env ?p' = Inr ()"
    and bal: "\<And>d. bank_balance env (lp_bank s') sender d = bank_balance env (lp_bank s) sender d
        - (if d = ?d then q_token_in q else 0) + (if d = q_denom_out q then q_token_out q else 0)"
    and mn: "\<And>v. parse_optional_positive_amount (sw_min_token_out m) = Inr (Some v) \<Longrightarrow> v \<le> q_token_out q"
  from q obtain ra rb where tin: "parse_positive_amount (sw_token_in_amount m) = Inr (q_token_in q)"
    and ra: "parse_positive_amount (pool_reserve_a ?p) = Inr ra" and rb: "parse_positive_amount (pool_reserve_b ?p) = Inr rb"
    and side: "?d = pool_denom_a ?p \<and> q_reserve_in q = ra \<and> q_reserve_out q = rb \<and> q_denom_out q = pool_denom_b ?p
     \<or> ?d \<noteq> pool_denom_a ?p \<and> ?d = pool_denom_b ?p \<and> q_reserve_in q = rb \<and> q_reserve_out q = ra
       \<and> q_denom_out q = pool_denom_a ?p"
    and amm: "calculate_swap_output (q_reserve_in q) (q_reserve_out q) (q_token_in q) (pool_swap_fee_bps ?p)
      = (q_token_out q, q_fee_amount q)" and tout: "0 < q_token_out q"
    by (rule checked_swap_quote_Inr) blast
  have dd: "pool_denom_a ?p \<noteq> pool_denom_b ?p" using val(1) by (simp add: validate_pool_iff)
  note res = positive_amount_facts [OF ra] positive_amount_facts [OF rb] and tin0 = positive_amount_facts(2) [OF tin]
  note st = stored_reserves(1,2) [OF val(2)]
  have prod: "q_reserve_in q * q_reserve_out q \<le> (q_reserve_in q + q_token_in q) * (q_reserve_out q - q_token_out q)"
    using swap_keeps_product [of "q_reserve_in q" "q_reserve_out q" "q_token_in q" "pool_swap_fee_bps ?p"]
      side res tin0 by (auto simp: amm)
  from side show ?thesis
  proof
    assume s: "?d = pool_denom_a ?p \<and> q_reserve_in q = ra \<and> q_reserve_out q = rb \<and> q_denom_out q = pool_denom_b ?p"
    then have "res_a ?p' = ra + q_token_in q" "res_b ?p' = rb - q_token_out q"
      using st by (simp_all add: swapped_pool_def Let_def)
    with s pool gp sender tin r tout bal mn res prod dd show ?thesis
      by (intro exI [of _ ?p] exI [of _ ?p'] exI [of _ sender] exI [of _ "q_token_in q"] exI [of _ "q_token_out q"]) simp
  next
    assume s: "?d \<noteq> pool_denom_a ?p \<and> ?d = pool_denom_b ?p \<and> q_reserve_in q = rb \<and> q_reserve_out q = ra
       \<and> q_denom_out q = pool_denom_a ?p"
    then have "res_b ?p' = rb + q_token_in q" "res_a ?p' = ra - q_token_out q"
      using st dd by (simp_all add: swapped_pool_def Let_def)
    with s pool gp sender tin r tout bal mn res prod dd show ?thesis
      by (intro exI [of _ ?p] exI [of _ ?p'] exI [of _ sender] exI [of _ "q_token_in q"] exI [of _ "q_token_out q"])
        (simp add: mult.commute)
  qed
qed

theorem lp_swap_is_exact_witness:
  "\<exists>s' p' out fee tout. swap ledger_sdk 6 demo_swap demo_s2 = Done s' (out, fee) \<and> out = big_string tout \<and> 0 < tout
    \<and> get_pool s' ''pool-1'' = Some p' \<and> res_a demo_pool * res_b demo_pool \<le> res_a p' * res_b p'"
proof -
  obtain s' out fee where run: "swap ledger_sdk 6 demo_swap demo_s2 = Done s' (out, fee)"
    using succeeded_Done [OF demo_swap_runs] by auto
  have "get_pool demo_s2 (sw_pool_id demo_swap) = Some demo_pool" "sw_pool_id demo_swap = ''pool-1''"
    by (simp_all add: get_pool_def demo_s2_def demo_s1_def demo_swap_def)
  with run lp_swap_is_exact [OF ledger_laws demo_reachable(2) run demo_signers(1)] show ?thesis by auto
qed

text \<open>
  C23: An accepted deposit charges at most the offered amounts, credits them to the reserves, mints
  at least the requested minimum of shares to the depositor, and does not dilute anyone: the
  reserves behind one share do not shrink.
\<close>

theorem lp_deposit_not_dilutive:
  assumes "sdk_laws env" "lp_reachable env authority h s" "add_liquidity env h m s = Done s' (minted, used_a, used_b)"
    and "externally_signed env (MsgAddLiquidity m)"
  shows "\<exists>p p' sender a b lp da db. get_pool s (al_pool_id m) = Some p \<and> get_pool s' = (get_pool s)(al_pool_id m \<mapsto> p')
    \<and> acc_address env (al_sender m) = Some sender
    \<and> parse_positive_amount (al_amount_a m) = Inr da \<and> parse_positive_amount (al_amount_b m) = Inr db
    \<and> minted = big_string lp \<and> used_a = big_string a \<and> used_b = big_string b
    \<and> 0 < lp \<and> 0 < a \<and> a \<le> da \<and> 0 < b \<and> b \<le> db
    \<and> (\<forall>v. parse_optional_positive_amount (al_min_lp_tokens m) = Inr (Some v) \<longrightarrow> v \<le> lp)
    \<and> res_a p' = res_a p + a \<and> res_b p' = res_b p + b \<and> lp_sup p' = lp_sup p + lp
    \<and> res_a p * lp_sup p' \<le> res_a p' * lp_sup p \<and> res_b p * lp_sup p' \<le> res_b p' * lp_sup p
    \<and> (\<forall>d. bank_balance env (lp_bank s') sender d = bank_balance env (lp_bank s) sender d
         - (if d = pool_denom_a p then a else 0) - (if d = pool_denom_b p then b else 0)
         + (if d = pool_lp_denom p then lp else 0))"
  using assms(3) reachableD(3) [OF assms(2,1)] assms(1)
proof (rule add_liquidity_effect)
  fix p :: pool and ra rb tot da db a b lp sender s1 b1 b2 deposit lp_coins
  let ?p' = "deposited_pool p (ra + a) (rb + b) (tot + lp)"
  assume pool: "get_pool s (al_pool_id m) = Some p" and sender: "acc_address env (al_sender m) = Some sender"
    and offers: "parse_positive_amount (al_amount_a m) = Inr da" "parse_positive_amount (al_amount_b m) = Inr db"
    and st: "parse_positive_amount (pool_reserve_a p) = Inr ra" "parse_positive_amount (pool_reserve_b p) = Inr rb"
      "parse_positive_amount (pool_lp_token_supply p) = Inr tot"
    and dep: "calculate_deposit_for_shares ra rb da db tot = Some (a, b, lp)" "0 < lp"
    and rep: "replaced s s' p ?p'"
    and coins: "new_coins env [(pool_denom_a p, a), (pool_denom_b p, b)] = Some deposit"
      "new_coins env [(pool_lp_denom p, lp)] = Some lp_coins"
    and mv: "moved env sender (module_address env lp_module_name) deposit (lp_bank s) b1"
      "issued env 1 (module_address env lp_module_name) lp_coins b1 b2"
      "moved env (module_address env lp_module_name) sender lp_coins b2 (lp_bank s')"
    and r: "(minted, used_a, used_b) = (big_string lp, big_string a, big_string b)"
    and mn: "\<And>v. parse_optional_positive_amount (al_min_lp_tokens m) = Inr (Some v) \<Longrightarrow> v \<le> lp"
  note I = reachableD [OF assms(2,1)]
  note D = deposit_for_shares_SomeD [OF dep]
  note old = positive_amount_facts(1) [OF st(1)] positive_amount_facts(1) [OF st(2)] positive_amount_facts(1) [OF st(3)]
  have pid: "pool_id p = al_pool_id m" using index_okD(4) [OF I(3) pool] .
  have gp: "get_pool s' = (get_pool s)(al_pool_id m \<mapsto> ?p')" using rep by (simp add: replaced_def pid)
  have C': "core_ok env h s'"
    using add_liquidity_core_ok [OF I(1) assms(1,3)] assms(4) by (simp add: externally_signed_def)
  have "validate_genesis_pool env ?p' = Inr ()" using core_okD(7) [OF C', of "al_pool_id m"] gp by simp
  from stored_reserves [OF this] have new: "res_a ?p' = res_a p + a" "res_b ?p' = res_b p + b" "lp_sup ?p' = lp_sup p + lp"
    by (simp_all add: old)
  have sm: "sender \<noteq> module_address env lp_module_name"
    using assms(4) sender by (simp add: externally_signed_def lp_module_def)
  have bal: "\<forall>d. bank_balance env (lp_bank s') sender d = bank_balance env (lp_bank s) sender d
       - (if d = pool_denom_a p then a else 0) - (if d = pool_denom_b p then b else 0)
       + (if d = pool_lp_denom p then lp else 0)"
    using moved_balance [OF mv(1), of sender] issued_balance [OF mv(2), of sender]
      moved_balance [OF mv(3), of sender] sm new_coins_amount [OF coins(1)] new_coins_amount [OF coins(2)]
    by simp
  have share: "res_a p * lp_sup ?p' \<le> res_a ?p' * lp_sup p" "res_b p * lp_sup ?p' \<le> res_b ?p' * lp_sup p"
    using D(8,9) unfolding new old by (simp_all add: algebra_simps)
  have mins: "\<forall>v. parse_optional_positive_amount (al_min_lp_tokens m) = Inr (Some v) \<longrightarrow> v \<le> lp" using mn by blast
  have r': "minted = big_string lp" "used_a = big_string a" "used_b = big_string b" using r by auto
  show ?thesis
    by (rule exI [of _ p], rule exI [of _ ?p'], rule exI [of _ sender], rule exI [of _ a], rule exI [of _ b],
        rule exI [of _ lp], rule exI [of _ da], rule exI [of _ db])
      (intro conjI; rule pool gp sender offers r' dep(2) D(4-7) mins bal share new)
qed

theorem lp_deposit_not_dilutive_witness:
  "\<exists>s' p' r. add_liquidity ledger_sdk 6 demo_add demo_s2 = Done s' r \<and> get_pool s' ''pool-1'' = Some p'
    \<and> lp_sup demo_pool < lp_sup p' \<and> res_a demo_pool * lp_sup p' \<le> res_a p' * lp_sup demo_pool"
proof -
  obtain s' minted a b where run: "add_liquidity ledger_sdk 6 demo_add demo_s2 = Done s' (minted, a, b)"
    using succeeded_Done [OF demo_add_runs] by auto
  have "get_pool demo_s2 (al_pool_id demo_add) = Some demo_pool" "al_pool_id demo_add = ''pool-1''"
    by (simp_all add: get_pool_def demo_s2_def demo_s1_def demo_add_def)
  with run lp_deposit_not_dilutive [OF ledger_laws demo_reachable(2) run demo_signers(2)] show ?thesis by fastforce
qed

text \<open>
  An accepted exit burns the named shares and pays out their exact part of each reserve, rounded
  down, so the holders who stay are not diluted; the exit of the last share closes the pool with
  empty reserves, drops its accumulator and queues its price history for deletion.
\<close>

theorem lp_exit_is_pro_rata:
  assumes "sdk_laws env" "lp_reachable env authority h s" "remove_liquidity env h m s = Done s' (out_a, out_b)"
    and "externally_signed env (MsgRemoveLiquidity m)"
  shows "\<exists>p p' sender a b lp. get_pool s (rl_pool_id m) = Some p \<and> get_pool s' = (get_pool s)(rl_pool_id m \<mapsto> p')
    \<and> acc_address env (rl_sender m) = Some sender \<and> parse_positive_amount (rl_lp_tokens m) = Inr lp
    \<and> lp \<le> lp_sup p \<and> out_a = big_string a \<and> out_b = big_string b
    \<and> a = (res_a p * lp) div lp_sup p \<and> b = (res_b p * lp) div lp_sup p \<and> 0 < a \<and> 0 < b
    \<and> (\<forall>v. parse_optional_positive_amount (rl_min_amount_a m) = Inr (Some v) \<longrightarrow> v \<le> a)
    \<and> (\<forall>v. parse_optional_positive_amount (rl_min_amount_b m) = Inr (Some v) \<longrightarrow> v \<le> b)
    \<and> res_a p' = res_a p - a \<and> res_b p' = res_b p - b \<and> lp_sup p' = lp_sup p - lp
    \<and> res_a p * lp_sup p' \<le> res_a p' * lp_sup p \<and> res_b p * lp_sup p' \<le> res_b p' * lp_sup p
    \<and> (if lp = lp_sup p
       then pool_status p' = POOL_STATUS_CLOSED \<and> res_a p' = 0 \<and> res_b p' = 0
         \<and> kv_get (lp_accs s') (rl_pool_id m) = None \<and> is_twap_history_deletion_scheduled s' (rl_pool_id m)
       else pool_status p' = pool_status p)
    \<and> (\<forall>d. bank_balance env (lp_bank s') sender d = bank_balance env (lp_bank s) sender d
         + (if d = pool_denom_a p then a else 0) + (if d = pool_denom_b p then b else 0)
         - (if d = pool_lp_denom p then lp else 0))"
  using assms(3) reachableD(3) [OF assms(2,1)] assms(1)
proof (rule remove_liquidity_effect)
  fix p :: pool and ra rb tot lp a b sender s1 b1 b2 lp_coins withdrawal
  let ?p' = "withdrawn_pool h p (ra - a) (rb - b) (tot - lp)"
  assume pool: "get_pool s (rl_pool_id m) = Some p" and sender: "acc_address env (rl_sender m) = Some sender"
    and lp: "parse_positive_amount (rl_lp_tokens m) = Inr lp" "lp \<le> tot"
    and st: "parse_positive_amount (pool_reserve_a p) = Inr ra" "parse_positive_amount (pool_reserve_b p) = Inr rb"
      "parse_positive_amount (pool_lp_token_supply p) = Inr tot"
    and wd: "calculate_withdrawal_amounts ra rb lp tot = Some (a, b)" "0 < a" "0 < b"
    and rep: "replaced s s' p ?p'"
    and coins: "new_coins env [(pool_lp_denom p, lp)] = Some lp_coins"
      "new_coins env [(pool_denom_a p, a), (pool_denom_b p, b)] = Some withdrawal"
    and mv: "moved env sender (module_address env lp_module_name) lp_coins (lp_bank s) b1"
      "issued env (- 1) (module_address env lp_module_name) lp_coins b1 b2"
      "moved env (module_address env lp_module_name) sender withdrawal b2 (lp_bank s')"
    and accs: "lp_accs s' = (if lp = tot then kv_del (pool_id p) (lp_accs s1) else lp_accs s1)"
    and gc: "lp_gc s' = (if lp = tot then kv_set (pool_id p) () (lp_gc s) else lp_gc s)"
    and last: "lp = tot \<Longrightarrow> 0 < h \<and> a = ra \<and> b = rb" and r: "(out_a, out_b) = (big_string a, big_string b)"
    and mna: "\<And>v. parse_optional_positive_amount (rl_min_amount_a m) = Inr (Some v) \<Longrightarrow> v \<le> a"
    and mnb: "\<And>v. parse_optional_positive_amount (rl_min_amount_b m) = Inr (Some v) \<Longrightarrow> v \<le> b"
  note I = reachableD [OF assms(2,1)]
  note old = positive_amount_facts(1) [OF st(1)] positive_amount_facts(1) [OF st(2)] positive_amount_facts(1) [OF st(3)]
  note pos = positive_amount_facts(2) [OF st(1)] positive_amount_facts(2) [OF st(2)] positive_amount_facts(2) [OF lp(1)]
  have tot: "0 < tot" using positive_amount_facts(2) [OF st(3)] .
  have ab: "a = (res_a p * lp) div lp_sup p" "b = (res_b p * lp) div lp_sup p"
    using wd(1) withdrawal_Some [OF tot] unfolding old by auto
  have pid: "pool_id p = rl_pool_id m" using index_okD(4) [OF I(3) pool] .
  have gp: "get_pool s' = (get_pool s)(rl_pool_id m \<mapsto> ?p')" using rep by (simp add: replaced_def pid)
  have C': "core_ok env h s'"
    using remove_liquidity_core_ok [OF I(1) assms(1,3)] assms(4) by (simp add: externally_signed_def)
  have "validate_genesis_pool env ?p' = Inr ()" using core_okD(7) [OF C', of "rl_pool_id m"] gp by simp
  from stored_reserves [OF this] have new: "res_a ?p' = res_a p - a" "res_b ?p' = res_b p - b" "lp_sup ?p' = lp_sup p - lp"
    by (simp_all add: old)
  have part: "ra * (tot - lp) \<le> (ra - a) * tot" "rb * (tot - lp) \<le> (rb - b) * tot"
    using withdrawal_part(3) [of ra lp tot] withdrawal_part(3) [of rb lp tot] pos lp(2) tot ab by (simp_all add: old)
  then have share: "res_a p * lp_sup ?p' \<le> res_a ?p' * lp_sup p" "res_b p * lp_sup ?p' \<le> res_b ?p' * lp_sup p"
    unfolding new old .
  have sm: "sender \<noteq> module_address env lp_module_name"
    using assms(4) sender by (simp add: externally_signed_def lp_module_def)
  have bal: "\<forall>d. bank_balance env (lp_bank s') sender d = bank_balance env (lp_bank s) sender d
       + (if d = pool_denom_a p then a else 0) + (if d = pool_denom_b p then b else 0)
       - (if d = pool_lp_denom p then lp else 0)"
    using moved_balance [OF mv(1), of sender] issued_balance [OF mv(2), of sender]
      moved_balance [OF mv(3), of sender] sm new_coins_amount [OF coins(1)] new_coins_amount [OF coins(2)]
    by simp
  have fin: "if lp = lp_sup p
       then pool_status ?p' = POOL_STATUS_CLOSED \<and> res_a ?p' = 0 \<and> res_b ?p' = 0
         \<and> kv_get (lp_accs s') (rl_pool_id m) = None \<and> is_twap_history_deletion_scheduled s' (rl_pool_id m)
       else pool_status ?p' = pool_status p"
    using last unfolding new by (simp add: old accs gc pid is_twap_history_deletion_scheduled_def)
  have mins: "\<forall>v. parse_optional_positive_amount (rl_min_amount_a m) = Inr (Some v) \<longrightarrow> v \<le> a"
    "\<forall>v. parse_optional_positive_amount (rl_min_amount_b m) = Inr (Some v) \<longrightarrow> v \<le> b" using mna mnb by blast+
  have r': "out_a = big_string a" "out_b = big_string b" and le: "lp \<le> lp_sup p" using r lp(2) old by auto
  show ?thesis
    by (rule exI [of _ p], rule exI [of _ ?p'], rule exI [of _ sender], rule exI [of _ a], rule exI [of _ b],
        rule exI [of _ lp])
      (intro conjI; rule pool gp sender lp(1) le r' ab wd(2,3) mins new share fin bal)
qed

theorem lp_exit_is_pro_rata_witness:
  "\<exists>s' p' r. remove_liquidity ledger_sdk 6 demo_remove demo_s2 = Done s' r \<and> get_pool s' ''pool-1'' = Some p'
    \<and> pool_status p' = POOL_STATUS_CLOSED \<and> res_a p' = 0 \<and> res_b p' = 0
    \<and> is_twap_history_deletion_scheduled s' ''pool-1''"
proof -
  obtain s' a b where run: "remove_liquidity ledger_sdk 6 demo_remove demo_s2 = Done s' (a, b)"
    using succeeded_Done [OF demo_remove_runs] by auto
  have "get_pool demo_s2 (rl_pool_id demo_remove) = Some demo_pool" "rl_pool_id demo_remove = ''pool-1''"
    by (simp_all add: get_pool_def demo_s2_def demo_s1_def demo_remove_def)
  moreover have "parse_positive_amount (rl_lp_tokens demo_remove) = Inr (lp_sup demo_pool)" by code_simp
  ultimately show ?thesis
    using run lp_exit_is_pro_rata [OF ledger_laws demo_reachable(2) run demo_signers(3)] by fastforce
qed

text \<open>
  An accepted pool creation uses the next id, which no record had, and advances the counter;
  stores the offered amounts as reserves of an active pool with the geometric mean of them as
  shares; and consumes the admission of the counter denom, so a second creation for the same denom
  is refused until governance allows it again.
\<close>

theorem lp_creation_is_admitted_once:
  assumes "sdk_laws env" "lp_reachable env authority h s" "create_pool env h m s = Done s' pid"
    and "externally_signed env (MsgCreatePool m)"
  shows "\<exists>n p a b. get_next_pool_id s = Inr n \<and> get_next_pool_id s' = Inr (n + 1) \<and> pid = format_pool_id n
    \<and> get_pool s pid = None \<and> get_pool s' = (get_pool s)(pid \<mapsto> p)
    \<and> parse_positive_amount (cp_amount_a m) = Inr a \<and> parse_positive_amount (cp_amount_b m) = Inr b
    \<and> pool_status p = POOL_STATUS_ACTIVE \<and> res_a p = a \<and> res_b p = b \<and> lp_sup p = big_sqrt (a * b)
    \<and> get_pool_by_denoms s' (cp_denom_a m) (cp_denom_b m) = Some p
    \<and> cp_creator m \<in> set (pool_creators (get_params s))
    \<and> counter_denom_of m \<in> set (allowed_pool_denoms (get_params s))
    \<and> counter_denom_of m \<notin> set (allowed_pool_denoms (get_params s'))
    \<and> (\<forall>h' m'. counter_denom_of m' = counter_denom_of m \<longrightarrow> \<not> succeeded (create_pool env h' m' s'))"
  using assms(3,1)
proof (rule create_pool_effect)
  fix a b counter n creator deposit lp_coins b1 b2 b3 s2
  let ?p = "created_pool h m counter (default_swap_fee_bps (get_params s)) a b (big_sqrt (a * b))"
  let ?par = "consume_admission (counter_denom_of m) (get_params s)"
  assume cr: "cp_creator m \<in> set (pool_creators (get_params s))"
    and adm: "counter_denom_of m \<in> set (allowed_pool_denoms (get_params s))"
    and am: "parse_positive_amount (cp_amount_a m) = Inr a" "parse_positive_amount (cp_amount_b m) = Inr b"
    and ctr: "get_next_pool_id s = Inr counter" and pid: "pid = format_pool_id counter" "get_pool s pid = None"
    and s2: "s2 = set_params ?par (set_pool ?p (s\<lparr>lp_bank := b1, lp_counter := Some (counter + 1)\<rparr>)\<lparr>lp_bank := b3\<rparr>)"
    and tw: "update_twap_accumulator h ?p s2 = Done s' ()"
  note I = reachableD [OF assms(2,1)] and fr = same_but_twapD [OF update_twap_frame [OF tw]]
  have C': "core_ok env h s'"
    using create_pool_core_ok [OF I(1) assms(1,3)] assms(4) by (simp add: externally_signed_def)
  have "get_pool s' = get_pool s2" using fr(9) .
  also have "\<dots> = (get_pool s)(pid \<mapsto> ?p)" by (simp add: s2 pid(1) fun_eq_iff) (simp add: get_pool_def)
  finally have gp: "get_pool s' = (get_pool s)(pid \<mapsto> ?p)" .
  have par: "get_params s' = ?par" using fr(8) by (simp add: s2)
  have cnt: "get_next_pool_id s' = Inr (counter + 1)"
    using C' fr(5) by (auto simp: core_ok_def records_ok_def s2 set_params_def get_next_pool_id_def split: if_splits)
  have "validate_genesis_pool env ?p = Inr ()" using core_okD(7) [OF C', of pid] gp by simp
  from stored_reserves [OF this] have amounts: "res_a ?p = a" "res_b ?p = b" "lp_sup ?p = big_sqrt (a * b)" by simp_all
  have "kv_get (lp_denom_index s') (denom_pair_key (cp_denom_a m) (cp_denom_b m)) = Some pid"
    using index_okD(6) [OF core_okD(4) [OF C'], of "denom_pair_key (cp_denom_a m) (cp_denom_b m)" pid] gp
    by (simp add: pool_pair_key_def is_live_def)
  then have by_denoms: "get_pool_by_denoms s' (cp_denom_a m) (cp_denom_b m) = Some ?p"
    using gp by (simp add: get_pool_by_denoms_def same_denom_pair_def)
  have "distinct (allowed_pool_denoms (get_params s))"
    using I(1) by (simp add: core_ok_def records_ok_def validate_params_ok)
  then have gone: "counter_denom_of m \<notin> set (allowed_pool_denoms (get_params s'))"
    by (simp add: par consume_admission_def)
  have once: "\<forall>h' m'. counter_denom_of m' = counter_denom_of m \<longrightarrow> \<not> succeeded (create_pool env h' m' s')"
  proof (intro allI impI notI)
    fix h' m' assume c: "counter_denom_of m' = counter_denom_of m" and "succeeded (create_pool env h' m' s')"
    then obtain s3 pid' where "create_pool env h' m' s' = Done s3 pid'" using succeeded_Done by blast
    from this assms(1) show False by (rule create_pool_effect) (use c gone in simp)
  qed
  have st: "pool_status ?p = POOL_STATUS_ACTIVE" by simp
  show ?thesis
    by (rule exI [of _ counter], rule exI [of _ ?p], rule exI [of _ a], rule exI [of _ b])
      (intro conjI; rule ctr cnt pid gp am st amounts by_denoms cr adm gone once)
qed

theorem lp_creation_is_admitted_once_witness:
  "\<exists>p. create_pool ledger_sdk 5 demo_create demo_s0 = Done demo_s1 ''pool-1''
    \<and> get_pool demo_s1 ''pool-1'' = Some p \<and> lp_sup p = big_sqrt (res_a p * res_b p)
    \<and> \<not> succeeded (create_pool ledger_sdk 6 demo_create demo_s1)"
proof -
  from lp_creation_is_admitted_once [OF ledger_laws demo_reachable(3) demo_create_runs demo_signer]
  obtain p where "get_pool demo_s1 = (get_pool demo_s0)(''pool-1'' \<mapsto> p)" "lp_sup p = big_sqrt (res_a p * res_b p)"
    "\<not> succeeded (create_pool ledger_sdk 6 demo_create demo_s1)" by auto
  with demo_create_runs show ?thesis by simp
qed

text \<open>
  C24: The read-only quote and the transaction agree: an accepted swap pays exactly what the quote
  query answers on the same state, whatever else the message asks for, and when the query fails the
  swap fails with the same error and changes nothing; the quoted price impact is a share of one.
\<close>

theorem lp_quote_equals_execution:
  "(case public_swap_quote env s (sw_pool_id m) (sw_token_in_denom m) (sw_token_in_amount m) of
      Inl e \<Rightarrow> swap env h m s = Fail s e
    | Inr r \<Rightarrow> uint (sr_price_impact_bps r) \<le> bps_basis \<and>
        (\<forall>s' out fee. swap env h m s = Done s' (out, fee) \<longrightarrow>
          out = sr_token_out_amount r \<and> fee = sr_fee_amount r))"
proof (cases "checked_swap_quote env s (sw_pool_id m) (sw_token_in_denom m) (sw_token_in_amount m)")
  case (Inl e)
  then show ?thesis by (simp add: public_swap_quote_def swap_def)
next
  case (Inr q)
  then show ?thesis
    by (auto simp: public_swap_quote_def swap_def price_impact_bounded outcome_simps Let_def)
qed

theorem lp_quote_equals_execution_witness:
  "\<exists>s' r. public_swap_quote ledger_sdk demo_s2 ''pool-1'' ''uzrn'' ''1000000'' = Inr r
    \<and> swap ledger_sdk 6 demo_swap demo_s2 = Done s' (sr_token_out_amount r, sr_fee_amount r)"
proof -
  obtain s' out fee where run: "swap ledger_sdk 6 demo_swap demo_s2 = Done s' (out, fee)"
    using succeeded_Done [OF demo_swap_runs] by auto
  with lp_quote_equals_execution [where env = ledger_sdk and s = demo_s2 and m = demo_swap and h = 6] show ?thesis
    by (auto simp: demo_swap_def split: sum.splits)
qed

text \<open>
  The billing oracle fails closed.  It answers only for an allow-listed quote denom whose pool
  with ZRN is active and holds at least the minimum reserves, and then with a positive price that
  is the difference of the pool's own cumulative prices over a span of at least the full window.
\<close>

theorem lp_oracle_fails_closed:
  assumes "sdk_laws env" "lp_reachable env authority h s" "get_zrn_price env s quote_denom = Inr price"
  shows "\<exists>p a ob c0 c1 floor. quote_denom \<in> set (billing_quote_denoms (get_params s))
    \<and> get_pool s (pool_id p) = Some p \<and> same_denom_pair (pool_denom_a p) (pool_denom_b p) zrn_denom quote_denom
    \<and> pool_status p = POOL_STATUS_ACTIVE
    \<and> parse_non_negative_amount (min_reserve (get_params s)) = Inr floor \<and> floor \<le> res_a p \<and> floor \<le> res_b p
    \<and> kv_get (lp_accs s) (pool_id p) = Some a \<and> ob \<in> set (map snd (observation_entries s (pool_id p)))
    \<and> uint (twap_window_blocks (get_params s)) \<le> uint (acc_last_block a) - uint (obs_block_height ob)
    \<and> cumulative_for_base (acc_cum_a_to_b a) (acc_cum_b_to_a a) (pool_denom_a p = zrn_denom) = Inr c1
    \<and> cumulative_for_base (obs_cum_a_to_b ob) (obs_cum_b_to_a ob) (pool_denom_a p = zrn_denom) = Inr c0
    \<and> c0 \<le> c1
    \<and> price = ((c1 - c0) * 1000000) div ((uint (acc_last_block a) - uint (obs_block_height ob)) * twap_scale)
    \<and> 0 < price"
proof -
  note I = reachableD [OF assms(2,1)]
  from assms(3) obtain p used ra rb fl where bq: "quote_denom \<in> set (billing_quote_denoms (get_params s))"
    and p: "get_pool_by_denoms s zrn_denom quote_denom = Some p" and act: "pool_status p = POOL_STATUS_ACTIVE"
    and r: "parse_positive_amount (pool_reserve_a p) = Inr ra" "parse_positive_amount (pool_reserve_b p) = Inr rb"
    and fl: "parse_non_negative_amount (min_reserve (get_params s)) = Inr fl" "fl \<le> ra" "fl \<le> rb"
    and tw: "get_twap s (pool_id p) zrn_denom (window_of s) = Inr (price, used)" "window_of s \<le> used" and pos: "0 < price"
    by (rule get_zrn_price_Inr)
  note P = get_pool_by_denoms_Some [OF p I(3)]
  have fl': "fl \<le> res_a p" "fl \<le> res_b p"
    using fl(2,3) positive_amount_facts(1) [OF r(1)] positive_amount_facts(1) [OF r(2)] by simp_all
  have w: "window_of s \<noteq> 0" using I(1) by (auto simp: core_ok_def records_ok_def validate_params_ok window_of_def)
  with tw(2) have u: "used \<noteq> 0" by (metis word_le_0_iff)
  from tw(1) u w show ?thesis
  proof (rule get_twap_full_window)
    fix p2 a ob c0 c1
    assume p2: "get_pool s (pool_id p) = Some p2" and a: "kv_get (lp_accs s) (pool_id p) = Some a"
      and f: "find (\<lambda>ob. (if window_of s < acc_last_block a then acc_last_block a - window_of s else 0) \<le> obs_block_height ob)
         (map snd (observation_entries s (pool_id p))) = Some ob"
      and lt: "obs_block_height ob < acc_last_block a" and us: "used = acc_last_block a - obs_block_height ob"
      and c: "cumulative_for_base (acc_cum_a_to_b a) (acc_cum_b_to_a a) (zrn_denom = pool_denom_a p2) = Inr c1"
        "cumulative_for_base (obs_cum_a_to_b ob) (obs_cum_b_to_a ob) (zrn_denom = pool_denom_a p2) = Inr c0" "c0 \<le> c1"
      and pr: "price = ((c1 - c0) * 1000000) div (uint used * twap_scale)"
    have e: "p2 = p" using p2 P(1) by simp
    have c': "cumulative_for_base (acc_cum_a_to_b a) (acc_cum_b_to_a a) (pool_denom_a p = zrn_denom) = Inr c1"
      "cumulative_for_base (obs_cum_a_to_b ob) (obs_cum_b_to_a ob) (pool_denom_a p = zrn_denom) = Inr c0"
      using c(1,2) unfolding e by (simp_all only: eq_commute [of zrn_denom])
    have us': "uint used = uint (acc_last_block a) - uint (obs_block_height ob)"
      using lt by (simp add: us u64_sub_uint u64_less)
    have span: "uint (twap_window_blocks (get_params s)) \<le> uint (acc_last_block a) - uint (obs_block_height ob)"
      using tw(2) unfolding u64_le us' window_of_def .
    have mem: "ob \<in> set (map snd (observation_entries s (pool_id p)))" using f by (auto simp: find_Some_iff)
    note pr' = pr [unfolded us']
    show ?thesis
      by (rule exI [of _ p], rule exI [of _ a], rule exI [of _ ob], rule exI [of _ c0], rule exI [of _ c1],
          rule exI [of _ fl])
        (intro conjI; rule bq P(1,3) act fl(1) fl' a mem span c' c(3) pr' pos)
  qed
qed

theorem lp_oracle_fails_closed_witness:
  "get_zrn_price ledger_sdk demo_s2 ''uatom'' = Inr 1000000
    \<and> (\<exists>p a. get_pool demo_s2 (pool_id p) = Some p \<and> pool_status p = POOL_STATUS_ACTIVE
      \<and> kv_get (lp_accs demo_s2) (pool_id p) = Some a)"
  using lp_oracle_fails_closed [OF ledger_laws demo_reachable(2) demo_price_runs] demo_price_runs by blast

text \<open>
  Nobody can move the billing price inside a block: whatever sequence of swaps, deposits, exits,
  creations and status changes a block executes, if the oracle answered before it and answers after
  it, the two answers are the same.
\<close>

theorem lp_oracle_fixed_within_block:
  assumes "sdk_laws env" "lp_reachable env authority h s"
    and "list_all (\<lambda>m. externally_signed env m \<and> keeps_params m) ms"
    and "get_zrn_price env s quote_denom = Inr before"
    and "get_zrn_price env (deliver_all (lp_handle env authority h) ms s) quote_denom = Inr after"
  shows "after = before"
  using price_fixed_in_block [OF assms(2,1) _ refl assms(4,5)] assms(3) by (auto simp: list_all_iff)

theorem lp_oracle_fixed_within_block_witness:
  "get_zrn_price ledger_sdk (deliver_all (lp_handle ledger_sdk ''gov'' 6) demo_block demo_s2) ''uatom'' = Inr 1000000"
proof -
  obtain x where x: "get_zrn_price ledger_sdk (deliver_all (lp_handle ledger_sdk ''gov'' 6) demo_block demo_s2) ''uatom'' = Inr x"
    using demo_price_after by (auto simp: isl_def split: sum.splits) (metis sum.exhaust)
  have "list_all (\<lambda>m. externally_signed ledger_sdk m \<and> keeps_params m) demo_block"
    using demo_signers by (simp add: keeps_params_def demo_block_def)
  from lp_oracle_fixed_within_block [OF ledger_laws demo_reachable(2) this demo_price_runs x] x show ?thesis by simp
qed

text \<open>
  The block hook adds to the cumulative prices of every open pool exactly one block of the price
  of the reserves the pool was left with at the end of the block before, in both directions.
\<close>

theorem lp_block_accumulates_closing_price:
  assumes "sdk_laws env" "lp_reachable env authority h s" "h + 1 < 2 ^ 63" "begin_block (h + 1) s = Done s' ()"
    and "get_pool s k = Some p" "pool_status p \<noteq> POOL_STATUS_CLOSED"
  shows "\<exists>a a'. kv_get (lp_accs s) k = Some a \<and> kv_get (lp_accs s') k = Some a'
    \<and> uint (acc_last_block a) = h \<and> uint (acc_last_block a') = h + 1
    \<and> acc_cum_a_to_b a' = big_string (cum_of (acc_cum_a_to_b a) + (res_b p * twap_scale) div res_a p)
    \<and> acc_cum_b_to_a a' = big_string (cum_of (acc_cum_b_to_a a) + (res_a p * twap_scale) div res_b p)"
proof -
  have "is_live p" using assms(6) by (simp add: is_live_def)
  with assms(2,1,3-5) obtain a where a: "kv_get (lp_accs s) k = Some a" "uint (acc_last_block a) = h"
    "kv_get (lp_accs s') k = Some (advance_acc a (to_u64 (h + 1)) (res_a p) (res_b p))"
    "uint (to_u64 (h + 1) - acc_last_block a) = 1" by (rule block_adds_price)
  have "uint (to_u64 (h + 1)) = h + 1" using assms(3) core_okD(5) [OF reachableD(1) [OF assms(2,1)]]
    by (intro uint_to_u64) simp_all
  with a show ?thesis by (simp add: advance_acc_def)
qed

theorem lp_block_accumulates_closing_price_witness:
  "\<exists>s' a'. begin_block (6 + 1) demo_s2 = Done s' () \<and> kv_get (lp_accs s') ''pool-1'' = Some a'
    \<and> uint (acc_last_block a') = 7
    \<and> acc_cum_a_to_b a' = big_string (1000000000000 + (res_b demo_pool * twap_scale) div res_a demo_pool)"
proof -
  obtain s' where run: "begin_block (6 + 1) demo_s2 = Done s' ()" using succeeded_Done [OF demo_next_block_runs] by auto
  have pool: "get_pool demo_s2 ''pool-1'' = Some demo_pool" "pool_status demo_pool \<noteq> POOL_STATUS_CLOSED"
    by (simp_all add: get_pool_def demo_s2_def demo_s1_def demo_pool_def)
  have "cum_of ''1000000000000'' = 1000000000000" by code_simp
  with lp_block_accumulates_closing_price [OF ledger_laws demo_reachable(2) _ run pool] run show ?thesis
    by (simp add: demo_s2_def) fastforce
qed

text \<open>
  The record of a closed pool is final: no sequence of messages changes, reopens or removes it.
\<close>

theorem lp_closed_pool_is_final:
  assumes "sdk_laws env" "lp_reachable env authority h s" "list_all (externally_signed env) ms"
    and "get_pool s k = Some p" "pool_status p = POOL_STATUS_CLOSED"
  shows "get_pool (deliver_all (lp_handle env authority h) ms s) k = Some p"
  using assms(2-4)
proof (induction ms arbitrary: s)
  case (Cons m ms)
  let ?s1 = "deliver (lp_handle env authority h) m s"
  have "get_pool ?s1 k = Some p"
    using Cons.prems closed_pool_final [OF _ reachableD(1) [OF Cons.prems(1) assms(1)] assms(1) Cons.prems(3)] assms(5)
    by (auto simp: deliver_def is_live_def split: outcome.splits)
  moreover have "lp_reachable env authority h ?s1" using Cons.prems by (auto intro: lp_reachable.message)
  ultimately show ?case using Cons by simp
qed simp

theorem lp_closed_pool_is_final_witness:
  "get_pool (deliver_all (lp_handle ledger_sdk ''gov'' 6) [MsgSwap demo_swap, MsgRemoveLiquidity demo_remove] demo_s3)
      ''pool-1'' = Some demo_closed_pool"
proof (rule lp_closed_pool_is_final [OF ledger_laws demo_reachable_closed])
  show "list_all (externally_signed ledger_sdk) [MsgSwap demo_swap, MsgRemoveLiquidity demo_remove]"
    using demo_signers by simp
qed (rule demo_closed, simp add: demo_closed_pool_def)

text \<open>
  The text formats have one spelling each.  A pool id parses exactly when it is the printed form
  of a non-zero number, an amount exactly when it is the printed form of a positive 256-bit number,
  and the store key of a denom pair determines the unordered pair.
\<close>

theorem lp_codecs_unambiguous:
  assumes "sdk_laws env" "valid_denom env a" "valid_denom env b" "valid_denom env c" "valid_denom env d"
  shows "(parse_pool_id t = Some n \<longleftrightarrow> n \<noteq> 0 \<and> t = format_pool_id n)
    \<and> (parse_lp_denom t = Some pid \<longleftrightarrow> t = lp_denom_of pid \<and> (\<exists>k. k \<noteq> 0 \<and> pid = format_pool_id k))
    \<and> (parse_positive_amount t = Inr x \<longleftrightarrow> 0 < x \<and> x < 2 ^ 256 \<and> t = big_string x)
    \<and> (denom_pair_key a b = denom_pair_key c d \<longleftrightarrow> {a, b} = {c, d})"
proof -
  have len: "length e < 2 ^ 32" if "valid_denom env e" for e
    using order_le_less_trans [OF valid_denom_length [OF assms(1) that]] by simp
  have "denom_pair_key a b = denom_pair_key c d \<longleftrightarrow> {a, b} = {c, d}"
    unfolding denom_pair_key_eq_iff [OF len [OF assms(2)] len [OF assms(3)] len [OF assms(4)] len [OF assms(5)]]
    by (auto simp: doubleton_eq_iff)
  moreover have "parse_lp_denom t = Some pid \<longleftrightarrow> t = lp_denom_of pid \<and> (\<exists>k. k \<noteq> 0 \<and> pid = format_pool_id k)"
    by (simp only: parse_lp_denom_Some not_None_eq parse_pool_id_Some)
  moreover have "parse_positive_amount t = Inr x \<longleftrightarrow> 0 < x \<and> x < 2 ^ 256 \<and> t = big_string x"
    unfolding parse_positive_Inr sdk_max_bits_def by (simp only: conj_ac)
  ultimately show ?thesis using parse_pool_id_Some [of t n] by (intro conjI)
qed

theorem lp_codecs_unambiguous_witness:
  "denom_pair_key ''uzrn'' ''uatom'' = denom_pair_key ''uatom'' ''uzrn''
    \<and> denom_pair_key ''uz'' ''rnuatom'' \<noteq> denom_pair_key ''uzrn'' ''uatom'' \<and> parse_pool_id ''pool-07'' = None"
proof -
  have v: "valid_denom ledger_sdk ''uzrn''" "valid_denom ledger_sdk ''uatom''" "valid_denom ledger_sdk ''uz''"
    "valid_denom ledger_sdk ''rnuatom''" by (simp_all add: ledger_sdk_def)
  have "parse_pool_id ''pool-07'' = None" by code_simp
  moreover have "denom_pair_key ''uzrn'' ''uatom'' = denom_pair_key ''uatom'' ''uzrn''"
    unfolding lp_codecs_unambiguous [OF ledger_laws v(1,2,2,1), THEN conjunct2, THEN conjunct2, THEN conjunct2]
    by (rule insert_commute)
  moreover have "denom_pair_key ''uz'' ''rnuatom'' \<noteq> denom_pair_key ''uzrn'' ''uatom''"
    unfolding lp_codecs_unambiguous [OF ledger_laws v(3,4,1,2), THEN conjunct2, THEN conjunct2, THEN conjunct2]
    by (simp add: doubleton_eq_iff)
  ultimately show ?thesis by blast
qed

end
