(* ===== verification/Chain.thy ===== *)
theory Chain
  imports KV_Store
begin

text \<open>
  How a chain runs a module: from a genesis state, blocks start with the module's hook, messages
  are delivered as transactions, and in between the rest of the chain moves the parts of the state
  the module only reads (bank balances, other modules' records).  The locale \<open>chain_module\<close> states
  what a module's operations must keep, and carries the lift to every reachable state;
  \<open>live_module\<close> adds that the block hook returns.
\<close>

section \<open>Runs\<close>

inductive chain_reachable ::
  "(int \<Rightarrow> 's \<Rightarrow> bool) \<Rightarrow> (int \<Rightarrow> 'm \<Rightarrow> 's \<Rightarrow> ('s, 'e, 'r) outcome) \<Rightarrow> ('s \<Rightarrow> 'm \<Rightarrow> bool) \<Rightarrow>
   (int \<Rightarrow> 's \<Rightarrow> ('s, 'e, unit) outcome) \<Rightarrow> ('s \<Rightarrow> 's \<Rightarrow> bool) \<Rightarrow> int \<Rightarrow> 's \<Rightarrow> bool"
  for init handler admissible hook others where
  start: "0 \<le> h \<Longrightarrow> h < 2 ^ 63 \<Longrightarrow> init h s \<Longrightarrow> chain_reachable init handler admissible hook others h s"
| message: "chain_reachable init handler admissible hook others h s \<Longrightarrow> admissible s m \<Longrightarrow>
    chain_reachable init handler admissible hook others h (deliver (handler h) m s)"
| block: "chain_reachable init handler admissible hook others h s \<Longrightarrow> h + 1 < 2 ^ 63 \<Longrightarrow>
    hook (h + 1) s = Done s' u \<Longrightarrow> chain_reachable init handler admissible hook others (h + 1) s'"
| others: "chain_reachable init handler admissible hook others h s \<Longrightarrow> others s s' \<Longrightarrow>
    chain_reachable init handler admissible hook others h s'"

inductive_cases chain_reachable_cases: "chain_reachable init handler admissible hook others h s"

lemma chain_reachable_height:
  "chain_reachable init handler admissible hook others h s \<Longrightarrow> 0 \<le> h \<and> h < 2 ^ 63"
  by (induction rule: chain_reachable.induct) auto

section \<open>What a module keeps\<close>

locale chain_module =
  fixes init :: "int \<Rightarrow> 's \<Rightarrow> bool"
    and handler :: "int \<Rightarrow> 'm \<Rightarrow> 's \<Rightarrow> ('s, 'e, 'r) outcome"
    and admissible :: "'s \<Rightarrow> 'm \<Rightarrow> bool"
    and hook :: "int \<Rightarrow> 's \<Rightarrow> ('s, 'e, unit) outcome"
    and others :: "'s \<Rightarrow> 's \<Rightarrow> bool"
    and inv :: "int \<Rightarrow> 's \<Rightarrow> bool"
  assumes init_inv: "0 \<le> h \<Longrightarrow> h < 2 ^ 63 \<Longrightarrow> init h s \<Longrightarrow> inv h s"
    and message_inv: "0 \<le> h \<Longrightarrow> h < 2 ^ 63 \<Longrightarrow> inv h s \<Longrightarrow> admissible s m \<Longrightarrow> handler h m s = Done s' r \<Longrightarrow> inv h s'"
    and block_inv: "0 \<le> h \<Longrightarrow> h + 1 < 2 ^ 63 \<Longrightarrow> inv h s \<Longrightarrow> hook (h + 1) s = Done s' u \<Longrightarrow> inv (h + 1) s'"
    and others_inv: "inv h s \<Longrightarrow> others s s' \<Longrightarrow> inv h s'"
begin

lemma reachable_inv: "chain_reachable init handler admissible hook others h s \<Longrightarrow> inv h s"
proof (induction rule: chain_reachable.induct)
  case (start h s)
  then show ?case by (rule init_inv)
next
  case (message h s m)
  then show ?case
    using chain_reachable_height [OF message.hyps(1)]
    by (auto simp: deliver_def split: outcome.splits intro: message_inv)
next
  case (block h s s' u)
  then show ?case using chain_reachable_height [OF block.hyps(1)] by (blast intro: block_inv)
next
  case (others h s s')
  then show ?case by (blast intro: others_inv)
qed

end

locale live_module = chain_module init handler admissible hook others inv
  for init :: "int \<Rightarrow> 's \<Rightarrow> bool"
    and handler :: "int \<Rightarrow> 'm \<Rightarrow> 's \<Rightarrow> ('s, 'e, 'r) outcome"
    and admissible :: "'s \<Rightarrow> 'm \<Rightarrow> bool"
    and hook :: "int \<Rightarrow> 's \<Rightarrow> ('s, 'e, unit) outcome"
    and others :: "'s \<Rightarrow> 's \<Rightarrow> bool"
    and inv :: "int \<Rightarrow> 's \<Rightarrow> bool" +
  assumes hook_runs: "0 \<le> h \<Longrightarrow> h + 1 < 2 ^ 63 \<Longrightarrow> inv h s \<Longrightarrow> \<exists>s'. hook (h + 1) s = Done s' ()"
begin

lemma reachable_hook_runs:
  "chain_reachable init handler admissible hook others h s \<Longrightarrow> h + 1 < 2 ^ 63 \<Longrightarrow> \<exists>s'. hook (h + 1) s = Done s' ()"
  using hook_runs [OF chain_reachable_height [THEN conjunct1] _ reachable_inv] .

end

section \<open>Import of an exported store\<close>

text \<open>Writing the entries of an ordered store one by one rebuilds it.\<close>

lemma find_append_split: "find P (xs @ ys) = (case find P xs of None \<Rightarrow> find P ys | Some v \<Rightarrow> Some v)"
  by (induction xs) auto

lemma find_member: "find P xs = Some w \<Longrightarrow> w \<in> set xs \<and> P w"
  by (induction xs) (auto split: if_splits)

lemma fold_kv_set_get:
  "kv_get (fold (\<lambda>v m. kv_set (key v) v m) vs m) k =
     (case find (\<lambda>v. key v = k) (rev vs) of None \<Rightarrow> kv_get m k | Some v \<Rightarrow> Some v)"
  by (induction vs arbitrary: m) (auto simp: find_append_split split: option.splits)

lemma kv_ok_fold_set: "kv_ok m \<Longrightarrow> kv_ok (fold (\<lambda>v m. kv_set (key v) v m) vs m)"
  by (induction vs arbitrary: m) auto

lemma find_rev_values:
  assumes "kv_ok m" "\<And>k v. kv_get m k = Some v \<Longrightarrow> key v = k"
  shows "find (\<lambda>v. key v = k) (rev (map snd m)) = kv_get m k"
proof (cases "kv_get m k")
  case None
  have "key v \<noteq> k" if "v \<in> set (map snd m)" for v
  proof
    assume "key v = k"
    from that obtain j where "(j, v) \<in> set m" by auto
    then have "kv_get m j = Some v" using kv_get_mem [OF assms(1)] by blast
    with assms(2) \<open>key v = k\<close> None show False by auto
  qed
  then show ?thesis by (simp add: None find_None_iff)
next
  case (Some v)
  have uniq: "w = v" if "w \<in> set (map snd m)" "key w = k" for w
  proof -
    from that obtain j where "(j, w) \<in> set m" by auto
    then have "kv_get m j = Some w" using kv_get_mem [OF assms(1)] by blast
    with assms(2) that(2) Some show ?thesis by auto
  qed
  have "v \<in> set (map snd m)" "key v = k" using Some assms(2) by (force dest: kv_get_in_set)+
  then obtain w where w: "find (\<lambda>v. key v = k) (rev (map snd m)) = Some w"
    by (cases "find (\<lambda>v. key v = k) (rev (map snd m))") (auto simp: find_None_iff)
  from find_member [OF this] have "w \<in> set (map snd m)" "key w = k" by auto
  with uniq w Some show ?thesis by simp
qed

lemma rebuild_store:
  assumes "kv_ok m" "\<And>k v. kv_get m k = Some v \<Longrightarrow> key v = k"
  shows "fold (\<lambda>v m. kv_set (key v) v m) (map snd m) [] = m"
proof (rule kv_ok_eqI [OF kv_ok_fold_set [OF kv_ok_Nil] assms(1)])
  fix k
  show "kv_get (fold (\<lambda>v m. kv_set (key v) v m) (map snd m) []) k = kv_get m k"
    using find_rev_values [where key = key and m = m and k = k, OF assms]
    by (cases "kv_get m k") (simp_all add: fold_kv_set_get)
qed

section \<open>Sweeps over a store\<close>

text \<open>A loop over a snapshot of the records that rewrites some of them updates each exactly once.\<close>

lemma fold_kv_update_get:
  "kv_get (fold (\<lambda>v m. if P v then kv_set (key v) (f v) m else m) vs m) k =
     (case find (\<lambda>v. key v = k \<and> P v) (rev vs) of None \<Rightarrow> kv_get m k | Some v \<Rightarrow> Some (f v))"
  by (induction vs arbitrary: m) (auto simp: find_append_split split: option.splits)

lemma kv_ok_fold_update: "kv_ok m \<Longrightarrow> kv_ok (fold (\<lambda>v m. if P v then kv_set (key v) (f v) m else m) vs m)"
  by (induction vs arbitrary: m) auto

lemma sweep_get:
  assumes "kv_ok m" "\<And>k v. kv_get m k = Some v \<Longrightarrow> key v = k"
  shows "kv_get (fold (\<lambda>v m. if P v then kv_set (key v) (f v) m else m) (map snd m) m) k =
    map_option (\<lambda>v. if P v then f v else v) (kv_get m k)"
proof -
  have stored: "kv_get m (key v) = Some v" if "v \<in> set (map snd m)" for v
  proof -
    from that obtain j where "(j, v) \<in> set m" by auto
    then have "kv_get m j = Some v" using kv_get_mem [OF assms(1)] by blast
    with assms(2) show ?thesis by auto
  qed
  show ?thesis
  proof (cases "find (\<lambda>v. key v = k \<and> P v) (rev (map snd m))")
    case None
    then have "\<not> P v" if "kv_get m k = Some v" for v
      using that assms(2) [OF that] kv_get_in_set [OF that] by (force simp: find_None_iff)
    with None show ?thesis by (cases "kv_get m k") (simp_all add: fold_kv_update_get)
  next
    case (Some w)
    from find_member [OF Some] have "w \<in> set (map snd m)" "key w = k" "P w" by auto
    with stored [of w] Some show ?thesis by (simp add: fold_kv_update_get)
  qed
qed

end
