(* ===== verification/Sponsorship.thy ===== *)
theory Sponsorship
  imports Go_Text Bank Chain
begin

text \<open>
  x/sponsorship: bounties that a sponsor escrows and the chain pays out to the submitters of verified
  facts (types/{types,keys,errors}.go, keeper/{keeper,msg_server}.go and the block hook of module.go).

  The knowledge keeper is read through one call, \<open>GetFact\<close>: a map from fact ids to facts, which is part
  of the state and changes between the messages of this module.  The record \<open>knowledge_fact\<close> keeps the four fields the
  module reads.  \<open>env\<close> is the SDK of theory Bank.
\<close>

section \<open>Types\<close>

datatype sp_error =
    SpUnauthorized | BountyNotFound | BountyNotActive | BountyExpired | AlreadyFulfilled | FactNotEligible
  | SpInvalidConfig | InsufficientEscrow | SpInvalidAddress | SpBankError string | SpPanic

datatype bounty_status =
    BOUNTY_STATUS_UNSPECIFIED | BOUNTY_STATUS_ACTIVE | BOUNTY_STATUS_FULFILLED | BOUNTY_STATUS_EXPIRED
  | BOUNTY_STATUS_CANCELED

record bounty_order =
  bo_id :: string
  bo_sponsor :: string
  bo_domain :: string
  bo_price :: string
  bo_target :: u32
  bo_fulfilled :: u32
  bo_escrow :: string
  bo_start :: u64
  bo_end :: u64
  bo_status :: bounty_status

record bounty_fulfillment =
  bf_bounty_id :: string
  bf_fact_id :: string
  bf_worker :: string
  bf_amount :: string
  bf_block :: u64

record sp_params =
  min_target_count :: u32
  min_duration_blocks :: u64
  max_active_bounties :: u32

datatype fact_status =
    FACT_STATUS_UNSPECIFIED | FACT_STATUS_PENDING | FACT_STATUS_PROVISIONAL | FACT_STATUS_VERIFIED
  | FACT_STATUS_ACTIVE | FACT_STATUS_CONTESTED | FACT_STATUS_CHALLENGED | FACT_STATUS_SUPERSEDED
  | FACT_STATUS_EXPIRED | FACT_STATUS_DISPROVEN | FACT_STATUS_REVOKED | FACT_STATUS_AT_RISK | FACT_STATUS_PRUNED

record knowledge_fact =
  fact_domain :: string
  fact_submitter :: string
  fact_submitted_at :: u64
  fact_status :: fact_status

definition default_sp_params :: sp_params where
  "default_sp_params = \<lparr>min_target_count = 1, min_duration_blocks = 100, max_active_bounties = 16\<rparr>"

definition validate_sp_params :: "sp_params \<Rightarrow> bool" where
  "validate_sp_params p \<longleftrightarrow> min_target_count p \<noteq> 0 \<and> min_duration_blocks p \<noteq> 0 \<and> max_active_bounties p \<noteq> 0"

section \<open>Messages\<close>

record msg_create_bounty =
  cb_sponsor :: string
  cb_domain :: string
  cb_price :: string
  cb_target :: u32
  cb_duration :: u64

record msg_fulfill_bounty =
  fb_caller :: string
  fb_bounty_id :: string
  fb_fact_id :: string

record msg_cancel_bounty =
  xb_sponsor :: string
  xb_bounty_id :: string

definition validate_create_bounty :: "'b sdk \<Rightarrow> msg_create_bounty \<Rightarrow> bool" where
  "validate_create_bounty env m \<longleftrightarrow>
     acc_address env (cb_sponsor m) \<noteq> None \<and> cb_domain m \<noteq> [] \<and> positive_int (cb_price m) \<noteq> None \<and>
     cb_target m \<noteq> 0 \<and> cb_duration m \<noteq> 0"

definition validate_fulfill_bounty :: "'b sdk \<Rightarrow> msg_fulfill_bounty \<Rightarrow> bool" where
  "validate_fulfill_bounty env m \<longleftrightarrow>
     acc_address env (fb_caller m) \<noteq> None \<and> fb_bounty_id m \<noteq> [] \<and> fb_fact_id m \<noteq> []"

definition validate_cancel_bounty :: "'b sdk \<Rightarrow> msg_cancel_bounty \<Rightarrow> bool" where
  "validate_cancel_bounty env m \<longleftrightarrow> acc_address env (xb_sponsor m) \<noteq> None \<and> xb_bounty_id m \<noteq> []"

section \<open>Store\<close>

record 'b sp_state =
  sp_params_record :: "sp_params option"
  sp_orders :: "(string, bounty_order) kv"
  sp_fulfillments :: "(string, bounty_fulfillment) kv"
  sp_counter :: "u64 option"
  sp_facts :: "(string, knowledge_fact) kv"
  sp_bank :: 'b

type_synonym ('b, 'a) sp_outcome = "('b sp_state, sp_error, 'a) outcome"

definition get_sp_params :: "'b sp_state \<Rightarrow> sp_params" where
  "get_sp_params s = (case sp_params_record s of None \<Rightarrow> default_sp_params | Some p \<Rightarrow> p)"

definition set_sp_params :: "sp_params \<Rightarrow> 'b sp_state \<Rightarrow> 'b sp_state" where
  "set_sp_params p s = s\<lparr>sp_params_record := Some p\<rparr>"

text \<open>The stored counter is the last id given; it is incremented before use.\<close>

definition next_bounty_id :: "'b sp_state \<Rightarrow> u64 \<times> 'b sp_state" where
  "next_bounty_id s =
     (let n = (case sp_counter s of None \<Rightarrow> 0 | Some c \<Rightarrow> c) + 1 in (n, s\<lparr>sp_counter := Some n\<rparr>))"

definition peek_next_bounty_id :: "'b sp_state \<Rightarrow> u64" where
  "peek_next_bounty_id s = (case sp_counter s of None \<Rightarrow> 1 | Some c \<Rightarrow> c + 1)"

definition set_bounty_order :: "bounty_order \<Rightarrow> 'b sp_state \<Rightarrow> 'b sp_state" where
  "set_bounty_order bo s = s\<lparr>sp_orders := kv_set (bo_id bo) bo (sp_orders s)\<rparr>"

definition get_bounty_order :: "'b sp_state \<Rightarrow> string \<Rightarrow> bounty_order option" where
  "get_bounty_order s k = kv_get (sp_orders s) k"

definition get_all_bounty_orders :: "'b sp_state \<Rightarrow> bounty_order list" where
  "get_all_bounty_orders s = map snd (sp_orders s)"

definition count_active_bounties_by_sponsor :: "'b sp_state \<Rightarrow> string \<Rightarrow> u32" where
  "count_active_bounties_by_sponsor s sponsor =
     of_nat (length (filter (\<lambda>bo. bo_status bo = BOUNTY_STATUS_ACTIVE \<and> bo_sponsor bo = sponsor)
       (get_all_bounty_orders s)))"

definition fulfillment_key :: "string \<Rightarrow> string \<Rightarrow> string" where
  "fulfillment_key bounty_id fact_id = bounty_id @ ''/'' @ fact_id"

definition set_fulfillment :: "bounty_fulfillment \<Rightarrow> 'b sp_state \<Rightarrow> 'b sp_state" where
  "set_fulfillment f s =
     s\<lparr>sp_fulfillments := kv_set (fulfillment_key (bf_bounty_id f) (bf_fact_id f)) f (sp_fulfillments s)\<rparr>"

definition get_fulfillment :: "'b sp_state \<Rightarrow> string \<Rightarrow> string \<Rightarrow> bounty_fulfillment option" where
  "get_fulfillment s bounty_id fact_id = kv_get (sp_fulfillments s) (fulfillment_key bounty_id fact_id)"

definition get_all_fulfillments :: "'b sp_state \<Rightarrow> bounty_fulfillment list" where
  "get_all_fulfillments s = map snd (sp_fulfillments s)"

section \<open>Message handlers\<close>

definition sp_module_name :: string where
  "sp_module_name = ''sponsorship''"

abbreviation on_sp_bank ::
  "('b \<Rightarrow> ('b, string, unit) outcome) \<Rightarrow> 'b sp_state \<Rightarrow> ('b, unit) sp_outcome" where
  "on_sp_bank \<equiv> on_bank sp_bank (\<lambda>b. sp_bank_update (\<lambda>_. b)) SpBankError"

definition bounty_id_of :: "u64 \<Rightarrow> string" where
  "bounty_id_of n = ''bounty-'' @ format_u64 n"

definition create_bounty_order ::
  "'b sdk \<Rightarrow> int \<Rightarrow> msg_create_bounty \<Rightarrow> 'b sp_state \<Rightarrow> ('b, string) sp_outcome" where
  "create_bounty_order env height m s =
     (let params = get_sp_params s in
      if cb_target m < min_target_count params then Fail s SpInvalidConfig
      else if cb_duration m < min_duration_blocks params then Fail s SpInvalidConfig
      else if max_active_bounties params \<le> count_active_bounties_by_sponsor s (cb_sponsor m)
        then Fail s SpInvalidConfig
      else try_in s (of_option SpInvalidConfig (positive_int (cb_price m))) (\<lambda>price.
        let total_escrow = price * uint (cb_target m) in
        try_in s (of_option SpInvalidAddress (acc_address env (cb_sponsor m))) (\<lambda>sponsor_addr.
        if bank_spendable env (sp_bank s) sponsor_addr uzrn < total_escrow then Fail s InsufficientEscrow
        else try_in s (of_option SpPanic (new_coins env [(uzrn, total_escrow)])) (\<lambda>coins.
        and_then (on_sp_bank (bank_to_module env sponsor_addr sp_module_name coins) s) (\<lambda>s _.
        let current_block = to_u64 height;
            (n, s) = next_bounty_id s;
            order = \<lparr>bo_id = bounty_id_of n, bo_sponsor = cb_sponsor m, bo_domain = cb_domain m,
              bo_price = cb_price m, bo_target = cb_target m, bo_fulfilled = 0,
              bo_escrow = big_string total_escrow, bo_start = current_block,
              bo_end = current_block + cb_duration m, bo_status = BOUNTY_STATUS_ACTIVE\<rparr>
        in Done (set_bounty_order order s) (bo_id order))))))"

definition pay_bounty ::
  "'b sdk \<Rightarrow> u64 \<Rightarrow> bounty_order \<Rightarrow> string \<Rightarrow> knowledge_fact \<Rightarrow> int \<Rightarrow> addr \<Rightarrow> 'b sp_state
   \<Rightarrow> ('b, string \<times> string \<times> bool) sp_outcome" where
  "pay_bounty env current_block order fact_id f price worker_addr s =
     try_in s (of_option SpPanic (new_coins env [(uzrn, price)])) (\<lambda>coins.
     and_then (on_sp_bank (bank_to_account env sp_module_name worker_addr coins) s) (\<lambda>s _.
     let fulfilled = bo_fulfilled order + 1;
         escrow = (case big_set_string (bo_escrow order) of None \<Rightarrow> 0 | Some x \<Rightarrow> x);
         now_fulfilled = (bo_target order \<le> fulfilled);
         order' = order\<lparr>bo_fulfilled := fulfilled, bo_escrow := big_string (escrow - price),
           bo_status := (if now_fulfilled then BOUNTY_STATUS_FULFILLED else bo_status order)\<rparr>;
         record = \<lparr>bf_bounty_id = bo_id order, bf_fact_id = fact_id, bf_worker = fact_submitter f,
           bf_amount = big_string price, bf_block = current_block\<rparr>
     in Done (set_fulfillment record (set_bounty_order order' s))
          (fact_submitter f, big_string price, now_fulfilled)))"

definition fulfill_bounty ::
  "'b sdk \<Rightarrow> int \<Rightarrow> msg_fulfill_bounty \<Rightarrow> 'b sp_state \<Rightarrow> ('b, string \<times> string \<times> bool) sp_outcome" where
  "fulfill_bounty env height m s =
     try_in s (of_option BountyNotFound (get_bounty_order s (fb_bounty_id m))) (\<lambda>order.
     if bo_status order \<noteq> BOUNTY_STATUS_ACTIVE then Fail s BountyNotActive
     else
       let current_block = to_u64 height in
     if bo_end order \<le> current_block then Fail s BountyExpired
     else if get_fulfillment s (bo_id order) (fb_fact_id m) \<noteq> None then Fail s AlreadyFulfilled
     else try_in s (of_option FactNotEligible (kv_get (sp_facts s) (fb_fact_id m))) (\<lambda>f.
     if fact_status f \<noteq> FACT_STATUS_VERIFIED then Fail s FactNotEligible
     else if fact_domain f \<noteq> bo_domain order then Fail s FactNotEligible
     else if fact_submitted_at f < bo_start order then Fail s FactNotEligible
     else try_in s (of_option SpInvalidConfig (positive_int (bo_price order))) (\<lambda>price.
          try_in s (of_option SpInvalidAddress (acc_address env (fact_submitter f))) (\<lambda>worker_addr.
          cached s (pay_bounty env current_block order (fb_fact_id m) f price worker_addr s)))))"

definition cancel_bounty_order ::
  "'b sdk \<Rightarrow> msg_cancel_bounty \<Rightarrow> 'b sp_state \<Rightarrow> ('b, string) sp_outcome" where
  "cancel_bounty_order env m s =
     try_in s (of_option BountyNotFound (get_bounty_order s (xb_bounty_id m))) (\<lambda>order.
     if bo_sponsor order \<noteq> xb_sponsor m then Fail s SpUnauthorized
     else if bo_status order \<noteq> BOUNTY_STATUS_ACTIVE \<and> bo_status order \<noteq> BOUNTY_STATUS_EXPIRED
       then Fail s BountyNotActive
     else try_in s (of_option SpInvalidConfig (big_set_string (bo_escrow order))) (\<lambda>remaining.
     and_then
       (if 0 < remaining then
          try_in s (of_option SpInvalidAddress (acc_address env (xb_sponsor m))) (\<lambda>sponsor_addr.
          try_in s (of_option SpPanic (new_coins env [(uzrn, remaining)])) (\<lambda>coins.
          on_sp_bank (bank_to_account env sp_module_name sponsor_addr coins) s))
        else Done s ())
       (\<lambda>s _. Done (set_bounty_order (order\<lparr>bo_status := BOUNTY_STATUS_CANCELED, bo_escrow := ''0''\<rparr>) s)
          (big_string remaining))))"

datatype sp_msg =
  MsgCreateBounty msg_create_bounty | MsgFulfillBounty msg_fulfill_bounty | MsgCancelBounty msg_cancel_bounty

text \<open>The router runs \<open>ValidateBasic\<close> before the handler.\<close>

fun sp_handle :: "'b sdk \<Rightarrow> int \<Rightarrow> sp_msg \<Rightarrow> 'b sp_state \<Rightarrow> ('b, unit) sp_outcome" where
  "sp_handle env height (MsgCreateBounty m) s =
     (if validate_create_bounty env m then discard (create_bounty_order env height m s) else Fail s SpInvalidConfig)"
| "sp_handle env height (MsgFulfillBounty m) s =
     (if validate_fulfill_bounty env m then discard (fulfill_bounty env height m s) else Fail s SpInvalidConfig)"
| "sp_handle env height (MsgCancelBounty m) s =
     (if validate_cancel_bounty env m then discard (cancel_bounty_order env m s) else Fail s SpInvalidConfig)"

section \<open>Expiry sweep (BeginBlock)\<close>

definition expire_order :: "u64 \<Rightarrow> bounty_order \<Rightarrow> 'b sp_state \<Rightarrow> 'b sp_state" where
  "expire_order current_block bo s =
     (if bo_status bo = BOUNTY_STATUS_ACTIVE \<and> bo_end bo \<le> current_block
      then set_bounty_order (bo\<lparr>bo_status := BOUNTY_STATUS_EXPIRED\<rparr>) s else s)"

definition process_bounty_expiry :: "u64 \<Rightarrow> 'b sp_state \<Rightarrow> 'b sp_state" where
  "process_bounty_expiry current_block s = fold (expire_order current_block) (get_all_bounty_orders s) s"

definition sp_begin_block :: "int \<Rightarrow> 'b sp_state \<Rightarrow> ('b, unit) sp_outcome" where
  "sp_begin_block height s = Done (process_bounty_expiry (to_u64 height) s) ()"

section \<open>Genesis\<close>

record sp_genesis =
  spg_params :: "sp_params option"
  spg_orders :: "bounty_order list"
  spg_fulfillments :: "bounty_fulfillment list"
  spg_next_id :: u64

definition default_sp_genesis :: sp_genesis where
  "default_sp_genesis = \<lparr>spg_params = Some default_sp_params, spg_orders = [], spg_fulfillments = [], spg_next_id = 1\<rparr>"

definition validate_sp_genesis :: "sp_genesis \<Rightarrow> bool" where
  "validate_sp_genesis gs \<longleftrightarrow>
     (case spg_params gs of None \<Rightarrow> True | Some p \<Rightarrow> validate_sp_params p) \<and> distinct (map bo_id (spg_orders gs))"

definition init_sp_genesis :: "sp_genesis \<Rightarrow> 'b sp_state \<Rightarrow> 'b sp_state" where
  "init_sp_genesis gs s =
     (let s1 = (case spg_params gs of None \<Rightarrow> s | Some p \<Rightarrow> set_sp_params p s);
          s2 = fold set_bounty_order (spg_orders gs) s1;
          s3 = fold set_fulfillment (spg_fulfillments gs) s2
      in if 0 < spg_next_id gs then s3\<lparr>sp_counter := Some (spg_next_id gs - 1)\<rparr> else s3)"

definition export_sp_genesis :: "'b sp_state \<Rightarrow> sp_genesis" where
  "export_sp_genesis s =
     \<lparr>spg_params = Some (get_sp_params s), spg_orders = get_all_bounty_orders s,
      spg_fulfillments = get_all_fulfillments s, spg_next_id = peek_next_bounty_id s\<rparr>"

section \<open>Queries\<close>

definition query_bounty_order :: "'b sp_state \<Rightarrow> string \<Rightarrow> sp_error + bounty_order" where
  "query_bounty_order s k = of_option BountyNotFound (get_bounty_order s k)"

definition query_bounty_orders :: "'b sp_state \<Rightarrow> bounty_order list" where
  "query_bounty_orders s = get_all_bounty_orders s"

definition query_sp_params :: "'b sp_state \<Rightarrow> sp_params" where
  "query_sp_params s = get_sp_params s"

end
