(* ===== verification/Sponsorship_Inv.thy ===== *)
theory Sponsorship_Inv
  imports Sponsorship
begin

text \<open>
  What an accepted sponsorship message did, the invariant of the module's store and bank account, and
  its preservation by every message, by the block hook and by the rest of the chain.  The module is
  an instance of the locale \<open>live_module\<close>.
\<close>

section \<open>Amounts\<close>

definition order_price :: "bounty_order \<Rightarrow> int" where
  "order_price bo = (case positive_int (bo_price bo) of None \<Rightarrow> 0 | Some x \<Rightarrow> x)"

definition order_escrow :: "bounty_order \<Rightarrow> int" where
  "order_escrow bo = (case big_set_string (bo_escrow bo) of None \<Rightarrow> 0 | Some x \<Rightarrow> x)"

lemma order_price_pos: "positive_int (bo_price bo) = Some x \<Longrightarrow> order_price bo = x \<and> 0 < x"
  by (auto simp: order_price_def positive_int_def split: option.splits if_splits)

lemma order_escrow_string: "bo_escrow bo = big_string x \<Longrightarrow> order_escrow bo = x"
  by (simp add: order_escrow_def)

section \<open>What an accepted message did\<close>

definition new_order :: "int \<Rightarrow> msg_create_bounty \<Rightarrow> u64 \<Rightarrow> int \<Rightarrow> bounty_order" where
  "new_order h m n price =
     \<lparr>bo_id = bounty_id_of n, bo_sponsor = cb_sponsor m, bo_domain = cb_domain m, bo_price = cb_price m,
      bo_target = cb_target m, bo_fulfilled = 0, bo_escrow = big_string (price * uint (cb_target m)),
      bo_start = to_u64 h, bo_end = to_u64 h + cb_duration m, bo_status = BOUNTY_STATUS_ACTIVE\<rparr>"

definition next_counter :: "'b sp_state \<Rightarrow> u64" where
  "next_counter s = (case sp_counter s of None \<Rightarrow> 0 | Some c \<Rightarrow> c) + 1"

lemma create_bounty_effect:
  assumes "create_bounty_order env h m s = Done s' bid" "sdk_laws env"
  obtains price sponsor coins b where
    "positive_int (cb_price m) = Some price" "acc_address env (cb_sponsor m) = Some sponsor"
    "min_target_count (get_sp_params s) \<le> cb_target m" "min_duration_blocks (get_sp_params s) \<le> cb_duration m"
    "count_active_bounties_by_sponsor s (cb_sponsor m) < max_active_bounties (get_sp_params s)"
    "price * uint (cb_target m) \<le> bank_spendable env (sp_bank s) sponsor uzrn"
    "new_coins env [(uzrn, price * uint (cb_target m))] = Some coins"
    "moved env sponsor (module_address env sp_module_name) coins (sp_bank s) b"
    "bid = bounty_id_of (next_counter s)"
    "s' = set_bounty_order (new_order h m (next_counter s) price)
            (s\<lparr>sp_bank := b, sp_counter := Some (next_counter s)\<rparr>)"
proof -
  from assms(1) obtain price sponsor coins b where
    c: "positive_int (cb_price m) = Some price" "acc_address env (cb_sponsor m) = Some sponsor"
    "min_target_count (get_sp_params s) \<le> cb_target m" "min_duration_blocks (get_sp_params s) \<le> cb_duration m"
    "count_active_bounties_by_sponsor s (cb_sponsor m) < max_active_bounties (get_sp_params s)"
    "price * uint (cb_target m) \<le> bank_spendable env (sp_bank s) sponsor uzrn"
    "new_coins env [(uzrn, price * uint (cb_target m))] = Some coins"
    and b: "bank_to_module env sponsor sp_module_name coins (sp_bank s) = Done b ()"
    and r: "bid = bounty_id_of (next_counter s)"
      "s' = set_bounty_order (new_order h m (next_counter s) price)
            (s\<lparr>sp_bank := b, sp_counter := Some (next_counter s)\<rparr>)"
    unfolding create_bounty_order_def
    by (auto simp: outcome_simps Let_def next_bounty_id_def next_counter_def new_order_def not_less not_le)
  show ?thesis using that [OF c bank_to_module_moved [OF assms(2) b] r] .
qed

definition paid_order :: "bounty_order \<Rightarrow> int \<Rightarrow> bounty_order" where
  "paid_order bo price =
     bo\<lparr>bo_fulfilled := bo_fulfilled bo + 1, bo_escrow := big_string (order_escrow bo - price),
       bo_status := (if bo_target bo \<le> bo_fulfilled bo + 1 then BOUNTY_STATUS_FULFILLED else bo_status bo)\<rparr>"

definition payment :: "int \<Rightarrow> bounty_order \<Rightarrow> string \<Rightarrow> knowledge_fact \<Rightarrow> int \<Rightarrow> bounty_fulfillment" where
  "payment h bo fid f price =
     \<lparr>bf_bounty_id = bo_id bo, bf_fact_id = fid, bf_worker = fact_submitter f, bf_amount = big_string price,
      bf_block = to_u64 h\<rparr>"

lemma fulfill_bounty_effect:
  assumes "fulfill_bounty env h m s = Done s' r" "sdk_laws env"
  obtains bo f price worker coins b where
    "get_bounty_order s (fb_bounty_id m) = Some bo" "bo_status bo = BOUNTY_STATUS_ACTIVE" "to_u64 h < bo_end bo"
    "get_fulfillment s (bo_id bo) (fb_fact_id m) = None" "kv_get (sp_facts s) (fb_fact_id m) = Some f"
    "fact_status f = FACT_STATUS_VERIFIED" "fact_domain f = bo_domain bo" "bo_start bo \<le> fact_submitted_at f"
    "positive_int (bo_price bo) = Some price" "acc_address env (fact_submitter f) = Some worker"
    "new_coins env [(uzrn, price)] = Some coins"
    "moved env (module_address env sp_module_name) worker coins (sp_bank s) b"
    "s' = set_fulfillment (payment h bo (fb_fact_id m) f price) (set_bounty_order (paid_order bo price) (s\<lparr>sp_bank := b\<rparr>))"
    "r = (fact_submitter f, big_string price, bo_target bo \<le> bo_fulfilled bo + 1)"
proof -
  from assms(1) obtain bo f price worker coins b where
    c: "get_bounty_order s (fb_bounty_id m) = Some bo" "bo_status bo = BOUNTY_STATUS_ACTIVE" "to_u64 h < bo_end bo"
    "get_fulfillment s (bo_id bo) (fb_fact_id m) = None" "kv_get (sp_facts s) (fb_fact_id m) = Some f"
    "fact_status f = FACT_STATUS_VERIFIED" "fact_domain f = bo_domain bo" "bo_start bo \<le> fact_submitted_at f"
    "positive_int (bo_price bo) = Some price" "acc_address env (fact_submitter f) = Some worker"
    "new_coins env [(uzrn, price)] = Some coins"
    and b: "bank_to_account env sp_module_name worker coins (sp_bank s) = Done b ()"
    and r: "s' = set_fulfillment (payment h bo (fb_fact_id m) f price) (set_bounty_order (paid_order bo price) (s\<lparr>sp_bank := b\<rparr>))"
    "r = (fact_submitter f, big_string price, bo_target bo \<le> bo_fulfilled bo + 1)"
    unfolding fulfill_bounty_def pay_bounty_def
    by (auto simp: outcome_simps Let_def payment_def paid_order_def order_escrow_def not_less not_le)
  show ?thesis using that [OF c bank_to_account_moved [OF assms(2) b] r] .
qed

definition canceled_order :: "bounty_order \<Rightarrow> bounty_order" where
  "canceled_order bo = bo\<lparr>bo_status := BOUNTY_STATUS_CANCELED, bo_escrow := ''0''\<rparr>"

lemma cancel_bounty_effect:
  assumes "cancel_bounty_order env m s = Done s' r" "sdk_laws env"
  obtains bo x b where
    "get_bounty_order s (xb_bounty_id m) = Some bo" "bo_sponsor bo = xb_sponsor m"
    "bo_status bo = BOUNTY_STATUS_ACTIVE \<or> bo_status bo = BOUNTY_STATUS_EXPIRED"
    "big_set_string (bo_escrow bo) = Some x" "r = big_string x"
    "s' = set_bounty_order (canceled_order bo) (s\<lparr>sp_bank := b\<rparr>)"
    "0 < x \<Longrightarrow> \<exists>sponsor coins. acc_address env (xb_sponsor m) = Some sponsor \<and> new_coins env [(uzrn, x)] = Some coins
       \<and> moved env (module_address env sp_module_name) sponsor coins (sp_bank s) b"
    "\<not> 0 < x \<Longrightarrow> b = sp_bank s"
proof -
  from assms(1) obtain bo x s1 where
    c: "get_bounty_order s (xb_bounty_id m) = Some bo" "bo_sponsor bo = xb_sponsor m"
    "bo_status bo = BOUNTY_STATUS_ACTIVE \<or> bo_status bo = BOUNTY_STATUS_EXPIRED"
    "big_set_string (bo_escrow bo) = Some x" "r = big_string x"
    and s': "s' = set_bounty_order (canceled_order bo) s1"
    and pay: "(if 0 < x then
          try_in s (of_option SpInvalidAddress (acc_address env (xb_sponsor m))) (\<lambda>sponsor_addr.
          try_in s (of_option SpPanic (new_coins env [(uzrn, x)])) (\<lambda>coins.
          on_sp_bank (bank_to_account env sp_module_name sponsor_addr coins) s))
        else Done s ()) = Done s1 ()"
    unfolding cancel_bounty_order_def canceled_order_def
    by (auto simp: try_in_Done and_then_Done if_Fail_Done)
  show ?thesis
  proof (cases "0 < x")
    case True
    with pay obtain sponsor coins b where p: "acc_address env (xb_sponsor m) = Some sponsor"
      "new_coins env [(uzrn, x)] = Some coins" "bank_to_account env sp_module_name sponsor coins (sp_bank s) = Done b ()"
      and s1: "s1 = s\<lparr>sp_bank := b\<rparr>"
      by (auto simp: outcome_simps)
    from bank_to_account_moved [OF assms(2) p(3)] p(1,2) True that [OF c s' [unfolded s1]] show ?thesis by blast
  next
    case False
    with pay have "s1 = s\<lparr>sp_bank := sp_bank s\<rparr>" by simp
    with False that [OF c, of "sp_bank s"] s' show ?thesis by auto
  qed
qed

section \<open>The invariant\<close>

definition open_or_expired :: "bounty_order \<Rightarrow> bool" where
  "open_or_expired bo \<longleftrightarrow> bo_status bo = BOUNTY_STATUS_ACTIVE \<or> bo_status bo = BOUNTY_STATUS_EXPIRED"

definition paid_count :: "'b sp_state \<Rightarrow> string \<Rightarrow> int" where
  "paid_count s k = kv_sum (\<lambda>f. if bf_bounty_id f = k then 1 else 0) (sp_fulfillments s)"

text \<open>One order: escrow is the price of what is left while the order can pay, and nothing afterwards.\<close>

definition order_ok :: "int \<Rightarrow> string \<Rightarrow> bounty_order \<Rightarrow> bool" where
  "order_ok h k bo \<longleftrightarrow>
     bo_id bo = k \<and> positive_int (bo_price bo) \<noteq> None \<and> uint (bo_start bo) \<le> h \<and>
     fits_sdk_int (order_price bo * uint (bo_target bo)) \<and>
     bo_escrow bo = big_string
       (if open_or_expired bo then order_price bo * (uint (bo_target bo) - uint (bo_fulfilled bo)) else 0) \<and>
     (open_or_expired bo \<and> bo_fulfilled bo < bo_target bo
      \<or> bo_status bo = BOUNTY_STATUS_FULFILLED \<and> bo_fulfilled bo = bo_target bo
      \<or> bo_status bo = BOUNTY_STATUS_CANCELED \<and> bo_fulfilled bo < bo_target bo)"

definition fulfillment_ok :: "'b sp_state \<Rightarrow> string \<Rightarrow> bounty_fulfillment \<Rightarrow> bool" where
  "fulfillment_ok s k f \<longleftrightarrow>
     k = fulfillment_key (bf_bounty_id f) (bf_fact_id f) \<and>
     (\<exists>bo. get_bounty_order s (bf_bounty_id f) = Some bo \<and> bf_amount f = big_string (order_price bo) \<and>
        bo_start bo \<le> bf_block f \<and> bf_block f < bo_end bo)"

definition sp_module :: "'b sdk \<Rightarrow> addr" where
  "sp_module env = module_address env sp_module_name"

definition sp_ok :: "'b sdk \<Rightarrow> int \<Rightarrow> 'b sp_state \<Rightarrow> bool" where
  "sp_ok env h s \<longleftrightarrow>
     kv_ok (sp_orders s) \<and> kv_ok (sp_fulfillments s) \<and>
     (\<forall>k bo. get_bounty_order s k = Some bo \<longrightarrow> order_ok h k bo \<and> paid_count s k = uint (bo_fulfilled bo) \<and>
        (\<exists>n. k = bounty_id_of n \<and> n \<noteq> 0 \<and> n \<le> (case sp_counter s of None \<Rightarrow> 0 | Some c \<Rightarrow> c))) \<and>
     (\<forall>k f. kv_get (sp_fulfillments s) k = Some f \<longrightarrow> fulfillment_ok s k f) \<and>
     kv_sum order_escrow (sp_orders s) \<le> bank_balance env (sp_bank s) (sp_module env) uzrn"

lemma sp_okD:
  assumes "sp_ok env h s"
  shows "kv_ok (sp_orders s)" "kv_ok (sp_fulfillments s)"
    and "get_bounty_order s k = Some bo \<Longrightarrow> order_ok h k bo"
    and "get_bounty_order s k = Some bo \<Longrightarrow> paid_count s k = uint (bo_fulfilled bo)"
    and "get_bounty_order s k = Some bo \<Longrightarrow>
      \<exists>n. k = bounty_id_of n \<and> n \<noteq> 0 \<and> n \<le> (case sp_counter s of None \<Rightarrow> 0 | Some c \<Rightarrow> c)"
    and "kv_get (sp_fulfillments s) j = Some f \<Longrightarrow> fulfillment_ok s j f"
    and "kv_sum order_escrow (sp_orders s) \<le> bank_balance env (sp_bank s) (sp_module env) uzrn"
  using assms unfolding sp_ok_def by blast+

lemma sp_okI:
  assumes "kv_ok (sp_orders s)" "kv_ok (sp_fulfillments s)"
    and "\<And>k bo. get_bounty_order s k = Some bo \<Longrightarrow> order_ok h k bo"
    and "\<And>k bo. get_bounty_order s k = Some bo \<Longrightarrow> paid_count s k = uint (bo_fulfilled bo)"
    and "\<And>k bo. get_bounty_order s k = Some bo \<Longrightarrow>
      \<exists>n. k = bounty_id_of n \<and> n \<noteq> 0 \<and> n \<le> (case sp_counter s of None \<Rightarrow> 0 | Some c \<Rightarrow> c)"
    and "\<And>k f. kv_get (sp_fulfillments s) k = Some f \<Longrightarrow> fulfillment_ok s k f"
    and "kv_sum order_escrow (sp_orders s) \<le> bank_balance env (sp_bank s) (sp_module env) uzrn"
  shows "sp_ok env h s"
  using assms unfolding sp_ok_def by blast

lemma order_escrow_ok:
  "order_ok h k bo \<Longrightarrow> order_escrow bo =
    (if open_or_expired bo then order_price bo * (uint (bo_target bo) - uint (bo_fulfilled bo)) else 0)"
  by (simp add: order_ok_def order_escrow_string)

lemma order_price_ok: "order_ok h k bo \<Longrightarrow> positive_int (bo_price bo) = Some (order_price bo) \<and> 0 < order_price bo"
  unfolding order_ok_def order_price_def by (auto simp: positive_int_def split: option.splits if_splits)

section \<open>Identifiers\<close>

lemma bounty_id_of_inj [simp]: "bounty_id_of m = bounty_id_of n \<longleftrightarrow> m = n"
  by (simp add: bounty_id_of_def)

lemma bounty_id_no_slash: "CHR ''/'' \<notin> set (bounty_id_of n)"
  unfolding bounty_id_of_def format_u64_def using digits10_no_sign(2) by auto

lemma key_split:
  "CHR ''/'' \<notin> set a \<Longrightarrow> CHR ''/'' \<notin> set b \<Longrightarrow> fulfillment_key a x = fulfillment_key b y \<longleftrightarrow> a = b \<and> x = y"
  unfolding fulfillment_key_def
proof (induction a arbitrary: b)
  case Nil
  then show ?case by (cases b) auto
next
  case (Cons c a)
  then show ?case by (cases b) auto
qed

lemma get_bounty_set [simp]:
  "get_bounty_order (set_bounty_order bo s) k = (if k = bo_id bo then Some bo else get_bounty_order s k)"
  "get_bounty_order (set_fulfillment f s) k = get_bounty_order s k"
  by (simp_all add: get_bounty_order_def set_bounty_order_def set_fulfillment_def)

lemma set_bounty_fields [simp]:
  "sp_orders (set_bounty_order bo s) = kv_set (bo_id bo) bo (sp_orders s)"
  "sp_fulfillments (set_bounty_order bo s) = sp_fulfillments s"
  "sp_counter (set_bounty_order bo s) = sp_counter s" "sp_bank (set_bounty_order bo s) = sp_bank s"
  "sp_facts (set_bounty_order bo s) = sp_facts s" "sp_params_record (set_bounty_order bo s) = sp_params_record s"
  by (simp_all add: set_bounty_order_def)

lemma set_fulfillment_fields [simp]:
  "sp_orders (set_fulfillment f s) = sp_orders s"
  "sp_fulfillments (set_fulfillment f s) = kv_set (fulfillment_key (bf_bounty_id f) (bf_fact_id f)) f (sp_fulfillments s)"
  "sp_counter (set_fulfillment f s) = sp_counter s" "sp_bank (set_fulfillment f s) = sp_bank s"
  "sp_facts (set_fulfillment f s) = sp_facts s" "sp_params_record (set_fulfillment f s) = sp_params_record s"
  by (simp_all add: set_fulfillment_def)

lemma get_bounty_other [simp]:
  "get_bounty_order (s\<lparr>sp_bank := b\<rparr>) = get_bounty_order s" "get_bounty_order (s\<lparr>sp_counter := c\<rparr>) = get_bounty_order s"
  "get_bounty_order (s\<lparr>sp_facts := g\<rparr>) = get_bounty_order s"
  by (simp_all add: get_bounty_order_def fun_eq_iff)


section \<open>Preservation\<close>

text \<open>An order replaced by one with the same identifier, price, target and window.\<close>

definition same_terms :: "bounty_order \<Rightarrow> bounty_order \<Rightarrow> bool" where
  "same_terms bo bo' \<longleftrightarrow> bo_id bo' = bo_id bo \<and> bo_sponsor bo' = bo_sponsor bo \<and> bo_domain bo' = bo_domain bo \<and>
     bo_price bo' = bo_price bo \<and> bo_target bo' = bo_target bo \<and> bo_start bo' = bo_start bo \<and> bo_end bo' = bo_end bo"

lemma same_terms_price: "same_terms bo bo' \<Longrightarrow> order_price bo' = order_price bo"
  by (simp add: same_terms_def order_price_def)

lemma fulfillment_ok_mono:
  assumes "fulfillment_ok s j f"
    and "\<And>k bo. get_bounty_order s k = Some bo \<Longrightarrow> \<exists>bo'. get_bounty_order s' k = Some bo' \<and> same_terms bo bo'"
  shows "fulfillment_ok s' j f"
proof -
  from assms(1) obtain bo where bo: "get_bounty_order s (bf_bounty_id f) = Some bo"
    "bf_amount f = big_string (order_price bo)" "bo_start bo \<le> bf_block f" "bf_block f < bo_end bo"
    "j = fulfillment_key (bf_bounty_id f) (bf_fact_id f)"
    by (auto simp: fulfillment_ok_def)
  from assms(2) [OF bo(1)] obtain bo' where bo': "get_bounty_order s' (bf_bounty_id f) = Some bo'" "same_terms bo bo'"
    by blast
  from bo bo' show ?thesis
    unfolding fulfillment_ok_def by (auto simp: same_terms_price) (simp_all add: same_terms_def)
qed

lemma escrow_sum_set:
  "kv_ok (sp_orders s) \<Longrightarrow> get_bounty_order s k = Some bo \<Longrightarrow>
    kv_sum order_escrow (kv_set k bo' (sp_orders s)) = kv_sum order_escrow (sp_orders s) - order_escrow bo + order_escrow bo'"
  by (simp add: kv_sum_set get_bounty_order_def)

lemma sp_ok_replace:
  fixes s :: "'b sp_state"
  assumes ok: "sp_ok env h s" and bo: "get_bounty_order s k = Some bo" and same: "same_terms bo bo'"
    and ok': "order_ok h k bo'" and paid: "bo_fulfilled bo' = bo_fulfilled bo"
    and flow: "order_escrow bo' - order_escrow bo
      \<le> bank_balance env b (sp_module env) uzrn - bank_balance env (sp_bank s) (sp_module env) uzrn"
  shows "sp_ok env h (set_bounty_order bo' (s\<lparr>sp_bank := b\<rparr>))" (is "sp_ok env h ?s")
proof -
  note D = sp_okD [OF ok]
  have id: "bo_id bo' = k" using ok' by (simp add: order_ok_def)
  have idk: "bo_id bo = k" using D(3) [OF bo] by (simp add: order_ok_def)
  have get: "get_bounty_order ?s j = (if j = k then Some bo' else get_bounty_order s j)" for j
    by (simp add: id)
  have keep: "\<exists>bo'. get_bounty_order ?s j = Some bo' \<and> same_terms x bo'" if "get_bounty_order s j = Some x" for j x
    using that bo same idk by (auto simp: same_terms_def)
  have count: "paid_count ?s j = paid_count s j" for j by (simp add: paid_count_def)
  show ?thesis
  proof (rule sp_okI)
    show "kv_ok (sp_orders ?s)" "kv_ok (sp_fulfillments ?s)" using D(1,2) by simp_all
    show "order_ok h j x" if "get_bounty_order ?s j = Some x" for j x
      using that ok' sp_okD(3) [OF ok] by (auto simp: get id split: if_splits)
    show "paid_count ?s j = uint (bo_fulfilled x)" if "get_bounty_order ?s j = Some x" for j x
      using that D(4) bo paid by (auto simp: get id count split: if_splits)
    show "\<exists>n. j = bounty_id_of n \<and> n \<noteq> 0 \<and> n \<le> (case sp_counter ?s of None \<Rightarrow> 0 | Some c \<Rightarrow> c)"
      if "get_bounty_order ?s j = Some x" for j x
      using that D(5) bo by (auto simp: get id split: if_splits)
    show "fulfillment_ok ?s j f" if "kv_get (sp_fulfillments ?s) j = Some f" for j f
      by (rule fulfillment_ok_mono [OF D(6) keep]) (use that in simp_all)
    show "kv_sum order_escrow (sp_orders ?s) \<le> bank_balance env (sp_bank ?s) (sp_module env) uzrn"
      using D(7) flow escrow_sum_set [OF D(1) bo, of bo'] by (simp add: id)
  qed
qed

lemma paid_count_unknown:
  assumes "sp_ok env h s" "get_bounty_order s k = None"
  shows "paid_count s k = 0"
proof -
  have "bf_bounty_id (snd e) \<noteq> k" if "e \<in> set (sp_fulfillments s)" for e
    using that assms(2) kv_get_mem [OF sp_okD(2) [OF assms(1)], of "fst e" "snd e"]
      sp_okD(6) [OF assms(1), of "fst e" "snd e"]
    by (auto simp: fulfillment_ok_def)
  then show ?thesis unfolding paid_count_def kv_sum_def
    by (simp add: map_idI cong: map_cong)
qed

lemma order_ok_later: "order_ok h k bo \<Longrightarrow> h \<le> h' \<Longrightarrow> order_ok h' k bo"
  by (auto simp: order_ok_def)

lemma sp_ok_later: "sp_ok env h s \<Longrightarrow> h \<le> h' \<Longrightarrow> sp_ok env h' s"
  unfolding sp_ok_def using order_ok_later by blast

lemma uint_height: "0 \<le> h \<Longrightarrow> h < 2 ^ 63 \<Longrightarrow> uint (to_u64 h) = h"
  by (simp add: uint_to_u64)

text \<open>Identifiers count up, so a new one is unused as long as the counter does not wrap.\<close>

abbreviation last_id :: "'b sp_state \<Rightarrow> u64" where
  "last_id s \<equiv> case sp_counter s of None \<Rightarrow> 0 | Some c \<Rightarrow> c"

lemma next_counter_less: "next_counter s \<noteq> 0 \<Longrightarrow> last_id s < next_counter s"
  unfolding next_counter_def by (frule u64_succ) (simp add: u64_less)

lemma next_counter_fresh:
  assumes "sp_ok env h s" "next_counter s \<noteq> 0"
  shows "get_bounty_order s (bounty_id_of (next_counter s)) = None"
proof (rule ccontr)
  assume "get_bounty_order s (bounty_id_of (next_counter s)) \<noteq> None"
  then have "next_counter s \<le> last_id s" using sp_okD(5) [OF assms(1)] by force
  with next_counter_less [OF assms(2)] show False by simp
qed

lemma new_order_ok:
  assumes "0 \<le> h" "h < 2 ^ 63" "positive_int (cb_price m) = Some price" "cb_target m \<noteq> 0"
    "fits_sdk_int (price * uint (cb_target m))"
  shows "order_ok h (bounty_id_of n) (new_order h m n price)"
    and "order_escrow (new_order h m n price) = price * uint (cb_target m)"
proof -
  have "order_price (new_order h m n price) = price"
    using assms(3) by (simp add: order_price_def new_order_def)
  moreover have "(0::u32) < cb_target m" using assms(4) by (simp add: word_gt_0)
  ultimately show "order_ok h (bounty_id_of n) (new_order h m n price)"
    using assms by (simp add: order_ok_def new_order_def open_or_expired_def uint_height)
  show "order_escrow (new_order h m n price) = price * uint (cb_target m)"
    by (simp add: order_escrow_def new_order_def)
qed

lemma create_bounty_keeps:
  fixes s s' :: "'b sp_state"
  assumes ok: "sp_ok env h s" and h: "0 \<le> h" "h < 2 ^ 63" and env: "sdk_laws env"
    and run: "create_bounty_order env h m s = Done s' bid" and target: "cb_target m \<noteq> 0"
    and signer: "acc_address env (cb_sponsor m) \<noteq> Some (sp_module env)" and room: "next_counter s \<noteq> 0"
  shows "sp_ok env h s'"
  using create_bounty_effect [OF run env]
proof cases
  case (1 price sponsor coins b)
  let ?n = "next_counter s" and ?bo = "new_order h m (next_counter s) price"
  note D = sp_okD [OF ok]
  have "fits_sdk_int (price * uint (cb_target m))" using new_coins_ok [OF 1(7)] by (simp add: coin_ok_def)
  note new = new_order_ok [OF h 1(1) target this]
  have id: "bo_id ?bo = bounty_id_of ?n" by (simp add: new_order_def)
  have fresh: "get_bounty_order s (bounty_id_of ?n) = None" by (rule next_counter_fresh [OF ok room])
  have get: "get_bounty_order s' j = (if j = bounty_id_of ?n then Some ?bo else get_bounty_order s j)" for j
    by (simp add: 1(10) id)
  have count: "paid_count s' j = paid_count s j" for j by (simp add: paid_count_def 1(10))
  have keep: "\<exists>bo'. get_bounty_order s' j = Some bo' \<and> same_terms x bo'" if "get_bounty_order s j = Some x" for j x
    using that fresh by (auto simp: get same_terms_def)
  show ?thesis
  proof (rule sp_okI)
    show "kv_ok (sp_orders s')" "kv_ok (sp_fulfillments s')" using D(1,2) by (simp_all add: 1(10))
    show "order_ok h j x" if "get_bounty_order s' j = Some x" for j x
      using that new(1) D(3) by (auto simp: get split: if_splits)
    show "paid_count s' j = uint (bo_fulfilled x)" if "get_bounty_order s' j = Some x" for j x
      using that D(4) paid_count_unknown [OF ok fresh]
      by (auto simp: get count new_order_def split: if_splits)
    show "\<exists>n. j = bounty_id_of n \<and> n \<noteq> 0 \<and> n \<le> (case sp_counter s' of None \<Rightarrow> 0 | Some c \<Rightarrow> c)"
      if "get_bounty_order s' j = Some x" for j x
    proof (cases "j = bounty_id_of ?n")
      case True
      then show ?thesis using room by (auto simp: 1(10))
    next
      case False
      with that have "get_bounty_order s j = Some x" by (simp add: get)
      from D(5) [OF this] obtain n where "j = bounty_id_of n" "n \<noteq> 0" "n \<le> last_id s" by blast
      with next_counter_less [OF room] show ?thesis by (intro exI [of _ n]) (simp add: 1(10))
    qed
    show "fulfillment_ok s' j f" if "kv_get (sp_fulfillments s') j = Some f" for j f
      by (rule fulfillment_ok_mono [OF D(6) keep]) (use that in \<open>simp_all add: 1(10)\<close>)
    have "kv_sum order_escrow (sp_orders s') = kv_sum order_escrow (sp_orders s) + price * uint (cb_target m)"
      using D(1) fresh new(2) by (simp add: 1(10) id kv_sum_set get_bounty_order_def)
    moreover have "bank_balance env b (sp_module env) uzrn =
        bank_balance env (sp_bank s) (sp_module env) uzrn + price * uint (cb_target m)"
      using signer 1(2) moved_balance [OF 1(8)] single_coin_amount [OF 1(7)] by (simp add: sp_module_def)
    ultimately show "kv_sum order_escrow (sp_orders s') \<le> bank_balance env (sp_bank s') (sp_module env) uzrn"
      using D(7) by (simp add: 1(10))
  qed
qed


lemma paid_count_set:
  "kv_ok (sp_fulfillments s) \<Longrightarrow> kv_get (sp_fulfillments s) (fulfillment_key (bf_bounty_id f) (bf_fact_id f)) = None \<Longrightarrow>
    paid_count (set_fulfillment f s) k = paid_count s k + (if bf_bounty_id f = k then 1 else 0)"
  by (simp add: paid_count_def kv_sum_set)

lemma paid_order_ok:
  assumes ok: "order_ok h k bo" and active: "bo_status bo = BOUNTY_STATUS_ACTIVE"
  shows "order_ok h k (paid_order bo (order_price bo))" "same_terms bo (paid_order bo (order_price bo))"
    and "order_escrow (paid_order bo (order_price bo)) = order_escrow bo - order_price bo"
    and "uint (bo_fulfilled (paid_order bo (order_price bo))) = uint (bo_fulfilled bo) + 1"
proof -
  from ok active have less: "bo_fulfilled bo < bo_target bo" by (simp add: order_ok_def)
  note succ = u32_succ [OF less]
  from ok active have esc: "order_escrow bo = order_price bo * (uint (bo_target bo) - uint (bo_fulfilled bo))"
    by (simp add: order_escrow_ok open_or_expired_def)
  let ?bo = "paid_order bo (order_price bo)"
  show same: "same_terms bo ?bo" by (simp add: same_terms_def paid_order_def)
  show "order_escrow ?bo = order_escrow bo - order_price bo" by (simp add: order_escrow_def paid_order_def)
  show "uint (bo_fulfilled ?bo) = uint (bo_fulfilled bo) + 1" using succ by (simp add: paid_order_def)
  have le: "bo_fulfilled bo + 1 \<le> bo_target bo" using less succ by (simp add: u32_le u32_less)
  have last: "bo_fulfilled bo + 1 = bo_target bo" if "bo_target bo \<le> bo_fulfilled bo + 1" using that le by simp
  have left: "uint (bo_target bo) - uint (bo_fulfilled bo) = 1" if "bo_target bo \<le> bo_fulfilled bo + 1"
    using last [OF that] succ by simp
  have price: "order_price ?bo = order_price bo" by (rule same_terms_price [OF same])
  show "order_ok h k ?bo"
  proof (cases "bo_target bo \<le> bo_fulfilled bo + 1")
    case True
    then show ?thesis
      using ok active last [OF True] left [OF True] esc price
      by (simp add: order_ok_def open_or_expired_def) (simp add: paid_order_def)
  next
    case False
    then have "order_escrow bo - order_price bo = order_price bo * (uint (bo_target bo) - uint (bo_fulfilled bo + 1))"
      using esc succ by (simp add: algebra_simps)
    with False show ?thesis
      using ok active price
      by (simp add: order_ok_def open_or_expired_def) (simp add: paid_order_def)
  qed
qed

lemma fulfill_bounty_keeps:
  fixes s s' :: "'b sp_state"
  assumes ok: "sp_ok env h s" and h: "0 \<le> h" "h < 2 ^ 63" and env: "sdk_laws env"
    and run: "fulfill_bounty env h m s = Done s' r"
  shows "sp_ok env h s'"
  using fulfill_bounty_effect [OF run env]
proof cases
  case (1 bo f price worker coins b)
  let ?k = "fb_bounty_id m" and ?p = "order_price bo"
  let ?t = "set_bounty_order (paid_order bo ?p) (s\<lparr>sp_bank := b\<rparr>)" and ?f = "payment h bo (fb_fact_id m) f ?p"
  note D = sp_okD [OF ok]
  have bo: "order_ok h ?k bo" by (rule D(3) [OF 1(1)])
  have price: "price = ?p" using order_price_pos [OF 1(9)] by simp
  have id: "bo_id bo = ?k" using bo by (simp add: order_ok_def)
  note P = paid_order_ok [OF bo 1(2)]
  have idp: "bo_id (paid_order bo ?p) = ?k" using P(1) by (simp add: order_ok_def)
  have fid: "bf_bounty_id ?f = ?k" "bf_fact_id ?f = fb_fact_id m" by (simp_all add: payment_def id)
  have s': "s' = set_fulfillment ?f ?t" using 1(13) price by simp
  have get: "get_bounty_order s' j = (if j = ?k then Some (paid_order bo ?p) else get_bounty_order s j)" for j
    by (simp add: s' idp)
  have none: "kv_get (sp_fulfillments ?t) (fulfillment_key (bf_bounty_id ?f) (bf_fact_id ?f)) = None"
    using 1(4) by (simp add: get_fulfillment_def fid id)
  have count: "paid_count s' j = paid_count s j + (if ?k = j then 1 else 0)" for j
    using paid_count_set [OF _ none, of j] D(2) by (simp add: s' fid) (simp add: paid_count_def)
  have keep: "\<exists>bo'. get_bounty_order s' j = Some bo' \<and> same_terms x bo'" if "get_bounty_order s j = Some x" for j x
    using that 1(1) P(2) by (cases "j = ?k") (auto simp: get same_terms_def)
  have recorded: "fulfillment_ok s' (fulfillment_key ?k (fb_fact_id m)) ?f"
    using 1(3) bo h P(2) same_terms_price [OF P(2)]
    by (simp add: fulfillment_ok_def fid get) (simp add: payment_def same_terms_def order_ok_def u64_le uint_height)
  show ?thesis
  proof (rule sp_okI)
    show "kv_ok (sp_orders s')" "kv_ok (sp_fulfillments s')" using D(1,2) by (simp_all add: s')
    show "order_ok h j x" if "get_bounty_order s' j = Some x" for j x
      using that P(1) D(3) by (auto simp: get split: if_splits)
    show "paid_count s' j = uint (bo_fulfilled x)" if "get_bounty_order s' j = Some x" for j x
      using that D(4) [of j] 1(1) P(4) by (auto simp: get count split: if_splits)
    show "\<exists>n. j = bounty_id_of n \<and> n \<noteq> 0 \<and> n \<le> last_id s'" if "get_bounty_order s' j = Some x" for j x
      using that D(5) 1(1) by (auto simp: get s' idp split: if_splits)
    show "fulfillment_ok s' j g" if "kv_get (sp_fulfillments s') j = Some g" for j g
    proof (cases "j = fulfillment_key ?k (fb_fact_id m)")
      case True
      with that recorded show ?thesis by (simp add: s' fid)
    next
      case False
      with that have "kv_get (sp_fulfillments s) j = Some g" by (simp add: s' fid)
      from fulfillment_ok_mono [OF D(6) [OF this] keep] show ?thesis .
    qed
    have "kv_sum order_escrow (sp_orders s') = kv_sum order_escrow (sp_orders s) - ?p"
      using escrow_sum_set [OF D(1) 1(1), of "paid_order bo ?p"] P(3) by (simp add: s' idp)
    moreover have "bank_balance env (sp_bank s) (sp_module env) uzrn - ?p \<le> bank_balance env b (sp_module env) uzrn"
      using moved_balance [OF 1(12), of "sp_module env" uzrn] single_coin_amount [OF 1(11)]
        single_coin_range [OF 1(11)] price
      by (simp add: sp_module_def)
    ultimately show "kv_sum order_escrow (sp_orders s') \<le> bank_balance env (sp_bank s') (sp_module env) uzrn"
      using D(7) by (simp add: s')
  qed
qed


lemma canceled_order_ok:
  assumes "order_ok h k bo" "bo_status bo = BOUNTY_STATUS_ACTIVE \<or> bo_status bo = BOUNTY_STATUS_EXPIRED"
  shows "order_ok h k (canceled_order bo)" "same_terms bo (canceled_order bo)"
    "order_escrow (canceled_order bo) = 0" "bo_fulfilled (canceled_order bo) = bo_fulfilled bo"
proof -
  have z: "''0'' = big_string 0" by code_simp
  show "order_ok h k (canceled_order bo)"
    using assms by (auto simp: order_ok_def canceled_order_def open_or_expired_def z order_price_def)
  show "order_escrow (canceled_order bo) = 0" by (simp add: order_escrow_def canceled_order_def z)
qed (simp_all add: same_terms_def canceled_order_def)

lemma cancel_bounty_keeps:
  fixes s s' :: "'b sp_state"
  assumes ok: "sp_ok env h s" and env: "sdk_laws env" and run: "cancel_bounty_order env m s = Done s' r"
  shows "sp_ok env h s'"
  using cancel_bounty_effect [OF run env]
proof cases
  case (1 bo x b)
  note D = sp_okD [OF ok]
  note C = canceled_order_ok [OF D(3) [OF 1(1)] 1(3)]
  have x: "order_escrow bo = x" using 1(4) by (simp add: order_escrow_def)
  have flow: "order_escrow (canceled_order bo) - order_escrow bo
      \<le> bank_balance env b (sp_module env) uzrn - bank_balance env (sp_bank s) (sp_module env) uzrn"
  proof (cases "0 < x")
    case True
    from 1(7) [OF True] obtain sponsor coins where p: "new_coins env [(uzrn, x)] = Some coins"
      "moved env (sp_module env) sponsor coins (sp_bank s) b" by (auto simp: sp_module_def)
    then show ?thesis
      using moved_balance [OF p(2), of "sp_module env" uzrn] single_coin_amount [OF p(1)] single_coin_range [OF p(1)] x C(3)
      by simp
  next
    case False
    have "0 \<le> order_escrow bo"
      using D(3) [OF 1(1)] order_escrow_ok [OF D(3) [OF 1(1)]] order_price_ok [OF D(3) [OF 1(1)]]
      by (auto simp: order_ok_def u32_less)
    with False 1(8) x C(3) show ?thesis by simp
  qed
  show ?thesis unfolding 1(6) by (rule sp_ok_replace [OF ok 1(1) C(2,1,4) flow])
qed

text \<open>The sweep: every order that is open past its end is expired, and nothing else changes.\<close>

definition swept :: "u64 \<Rightarrow> bounty_order \<Rightarrow> bounty_order" where
  "swept c bo = (if bo_status bo = BOUNTY_STATUS_ACTIVE \<and> bo_end bo \<le> c then bo\<lparr>bo_status := BOUNTY_STATUS_EXPIRED\<rparr> else bo)"

lemma swept_ok:
  "order_ok h k bo \<Longrightarrow> order_ok h k (swept c bo)" "same_terms bo (swept c bo)"
  "order_ok h k bo \<Longrightarrow> order_escrow (swept c bo) = order_escrow bo" "bo_fulfilled (swept c bo) = bo_fulfilled bo"
  by (auto simp: swept_def order_ok_def same_terms_def order_escrow_def order_price_def open_or_expired_def)

lemma expire_order_swept:
  assumes "get_bounty_order s (bo_id bo) = Some bo"
  shows "get_bounty_order (expire_order c bo s) k = (if k = bo_id bo then Some (swept c bo) else get_bounty_order s k)"
  using assms by (auto simp: expire_order_def swept_def)

lemma expire_order_keeps:
  fixes s :: "'b sp_state"
  assumes "sp_ok env h s" "get_bounty_order s (bo_id bo) = Some bo"
  shows "sp_ok env h (expire_order c bo s)"
proof (cases "bo_status bo = BOUNTY_STATUS_ACTIVE \<and> bo_end bo \<le> c")
  case True
  then have "expire_order c bo s = set_bounty_order (swept c bo) (s\<lparr>sp_bank := sp_bank s\<rparr>)"
    by (simp add: expire_order_def swept_def)
  moreover have "sp_ok env h (set_bounty_order (swept c bo) (s\<lparr>sp_bank := sp_bank s\<rparr>))"
    using swept_ok(1,3) [OF sp_okD(3) [OF assms]] by (intro sp_ok_replace [OF assms]) (simp_all add: swept_ok)
  ultimately show ?thesis by simp
next
  case False
  then have "expire_order c bo s = s" by (auto simp: expire_order_def)
  with assms(1) show ?thesis by simp
qed

lemma sweep_fold:
  fixes s :: "'b sp_state"
  assumes "sp_ok env h s" "distinct (map bo_id bos)" "\<And>bo. bo \<in> set bos \<Longrightarrow> get_bounty_order s (bo_id bo) = Some bo"
  shows "sp_ok env h (fold (expire_order c) bos s) \<and>
    get_bounty_order (fold (expire_order c) bos s) k =
      (if k \<in> bo_id ` set bos then map_option (swept c) (get_bounty_order s k) else get_bounty_order s k)"
  using assms
proof (induction bos arbitrary: s)
  case Nil
  then show ?case by simp
next
  case (Cons bo bos)
  have bo: "get_bounty_order s (bo_id bo) = Some bo" using Cons.prems(3) by simp
  note get = expire_order_swept [OF bo, of c]
  have "sp_ok env h (expire_order c bo s)" by (rule expire_order_keeps [OF Cons.prems(1) bo])
  then have "sp_ok env h (fold (expire_order c) bos (expire_order c bo s)) \<and>
    get_bounty_order (fold (expire_order c) bos (expire_order c bo s)) k =
      (if k \<in> bo_id ` set bos then map_option (swept c) (get_bounty_order (expire_order c bo s) k)
       else get_bounty_order (expire_order c bo s) k)"
    by (rule Cons.IH) (use Cons.prems(2,3) in \<open>auto simp: get image_iff\<close>)
  then show ?case using Cons.prems(2) bo by (auto simp: get)
qed

lemma expire_order_frame [simp]:
  "sp_bank (expire_order c bo s) = sp_bank s" "sp_counter (expire_order c bo s) = sp_counter s"
  "sp_fulfillments (expire_order c bo s) = sp_fulfillments s" "sp_facts (expire_order c bo s) = sp_facts s"
  "sp_params_record (expire_order c bo s) = sp_params_record s"
  by (simp_all add: expire_order_def)

lemma sweep_frame:
  "sp_bank (fold (expire_order c) bos s) = sp_bank s \<and> sp_counter (fold (expire_order c) bos s) = sp_counter s \<and>
   sp_fulfillments (fold (expire_order c) bos s) = sp_fulfillments s \<and> sp_facts (fold (expire_order c) bos s) = sp_facts s \<and>
   sp_params_record (fold (expire_order c) bos s) = sp_params_record s"
  by (induction bos arbitrary: s) auto

lemma sp_orders_snapshot:
  fixes s :: "'b sp_state"
  assumes "sp_ok env h s"
  shows "map bo_id (get_all_bounty_orders s) = map fst (sp_orders s)"
    and "bo \<in> set (get_all_bounty_orders s) \<longleftrightarrow> get_bounty_order s (bo_id bo) = Some bo"
proof -
  note D = sp_okD [OF assms]
  have own: "bo_id v = k" if "(k, v) \<in> set (sp_orders s)" for k v
    using that D(3) [of k v] kv_get_mem [OF D(1)] by (auto simp: get_bounty_order_def order_ok_def)
  then show "map bo_id (get_all_bounty_orders s) = map fst (sp_orders s)"
    by (auto simp: get_all_bounty_orders_def)
  show "bo \<in> set (get_all_bounty_orders s) \<longleftrightarrow> get_bounty_order s (bo_id bo) = Some bo"
  proof
    assume "bo \<in> set (get_all_bounty_orders s)"
    then obtain k where k: "(k, bo) \<in> set (sp_orders s)" by (auto simp: get_all_bounty_orders_def)
    with own [OF k] show "get_bounty_order s (bo_id bo) = Some bo"
      unfolding get_bounty_order_def kv_get_mem [OF D(1)] by simp
  next
    assume "get_bounty_order s (bo_id bo) = Some bo"
    then have "(bo_id bo, bo) \<in> set (sp_orders s)" unfolding get_bounty_order_def kv_get_mem [OF D(1)] .
    then show "bo \<in> set (get_all_bounty_orders s)" by (force simp: get_all_bounty_orders_def)
  qed
qed

lemma sweep_effect:
  fixes s :: "'b sp_state"
  assumes "sp_ok env h s"
  shows "sp_ok env h (process_bounty_expiry c s)"
    and "get_bounty_order (process_bounty_expiry c s) k = map_option (swept c) (get_bounty_order s k)"
proof -
  note snap = sp_orders_snapshot [OF assms]
  have dist: "distinct (map bo_id (get_all_bounty_orders s))"
    using kv_ok_distinct [OF sp_okD(1) [OF assms]] by (simp add: snap(1))
  have fold: "sp_ok env h (process_bounty_expiry c s) \<and> get_bounty_order (process_bounty_expiry c s) k =
      (if k \<in> bo_id ` set (get_all_bounty_orders s) then map_option (swept c) (get_bounty_order s k) else get_bounty_order s k)"
    unfolding process_bounty_expiry_def by (rule sweep_fold [OF assms dist]) (simp add: snap(2))
  then show "sp_ok env h (process_bounty_expiry c s)" by blast
  have "bo_id bo = k" if "get_bounty_order s k = Some bo" for bo
    using sp_okD(3) [OF assms that] by (simp add: order_ok_def)
  then have "get_bounty_order s k = None" if "k \<notin> bo_id ` set (get_all_bounty_orders s)"
    using that snap(2) by (cases "get_bounty_order s k") (auto simp: image_iff)
  with fold show "get_bounty_order (process_bounty_expiry c s) k = map_option (swept c) (get_bounty_order s k)"
    by auto
qed

section \<open>The module on the chain\<close>

definition sp_init :: "'b sdk \<Rightarrow> int \<Rightarrow> 'b sp_state \<Rightarrow> bool" where
  "sp_init env h s \<longleftrightarrow> sdk_laws env \<and> sp_orders s = [] \<and> sp_fulfillments s = [] \<and> 0 \<le> bank_balance env (sp_bank s) (sp_module env) uzrn"

text \<open>No one signs for the module account, and the counter has room.\<close>

fun sp_admissible :: "'b sdk \<Rightarrow> 'b sp_state \<Rightarrow> sp_msg \<Rightarrow> bool" where
  "sp_admissible env s (MsgCreateBounty m) =
     (acc_address env (cb_sponsor m) \<noteq> Some (sp_module env) \<and> next_counter s \<noteq> 0)"
| "sp_admissible env s (MsgFulfillBounty m) = True"
| "sp_admissible env s (MsgCancelBounty m) = True"

text \<open>The rest of the chain changes facts and balances, but takes nothing from the module account.\<close>

definition sp_others :: "'b sdk \<Rightarrow> 'b sp_state \<Rightarrow> 'b sp_state \<Rightarrow> bool" where
  "sp_others env s s' \<longleftrightarrow> (\<exists>b g. s' = s\<lparr>sp_bank := b, sp_facts := g\<rparr> \<and>
     bank_balance env (sp_bank s) (sp_module env) uzrn \<le> bank_balance env b (sp_module env) uzrn)"

lemma sp_ok_others:
  fixes s s' :: "'b sp_state"
  assumes ok: "sp_ok env h s" and "sp_others env s s'"
  shows "sp_ok env h s'"
proof -
  from assms(2) obtain b g where s': "s' = s\<lparr>sp_bank := b, sp_facts := g\<rparr>"
    and le: "bank_balance env (sp_bank s) (sp_module env) uzrn \<le> bank_balance env b (sp_module env) uzrn"
    by (auto simp: sp_others_def)
  have count: "paid_count s' k = paid_count s k" for k by (simp add: paid_count_def s')
  have get: "get_bounty_order s' k = get_bounty_order s k" for k by (simp add: s' get_bounty_order_def)
  have ful: "fulfillment_ok s' k f = fulfillment_ok s k f" for k f by (simp add: fulfillment_ok_def get)
  show ?thesis using ok le unfolding sp_ok_def by (simp only: count get ful) (simp add: s')
qed

lemma sp_handle_keeps:
  fixes s s' :: "'b sp_state"
  assumes "sp_ok env h s" "0 \<le> h" "h < 2 ^ 63" "sdk_laws env" "sp_admissible env s m" "sp_handle env h m s = Done s' u"
  shows "sp_ok env h s'"
proof (cases m)
  case (MsgCreateBounty c)
  with assms show ?thesis
    by (auto simp: outcome_simps validate_create_bounty_def intro: create_bounty_keeps split: if_splits)
next
  case (MsgFulfillBounty c)
  with assms show ?thesis by (auto simp: outcome_simps intro: fulfill_bounty_keeps split: if_splits)
next
  case (MsgCancelBounty c)
  with assms show ?thesis by (auto simp: outcome_simps intro: cancel_bounty_keeps split: if_splits)
qed

lemma sp_init_ok: "sp_init env h s \<Longrightarrow> sp_ok env h s"
  by (simp add: sp_init_def sp_ok_def get_bounty_order_def)

definition sp_inv :: "'b sdk \<Rightarrow> int \<Rightarrow> 'b sp_state \<Rightarrow> bool" where
  "sp_inv env h s \<longleftrightarrow> sdk_laws env \<and> sp_ok env h s"

interpretation sp: live_module "sp_init env" "sp_handle env" "sp_admissible env" sp_begin_block "sp_others env" "sp_inv env"
  for env :: "'b sdk"
proof unfold_locales
  fix h s s' u
  assume "sp_inv env h s" "sp_begin_block (h + 1) s = Done s' u"
  then show "sp_inv env (h + 1) s'"
    using sp_ok_later [of env h _ "h + 1"] by (auto simp: sp_inv_def sp_begin_block_def sweep_effect(1))
qed (auto simp: sp_begin_block_def sp_inv_def intro: sp_init_ok sp_ok_others sp_handle_keeps, simp add: sp_init_def)

abbreviation sp_reachable :: "'b sdk \<Rightarrow> int \<Rightarrow> 'b sp_state \<Rightarrow> bool" where
  "sp_reachable env \<equiv> chain_reachable (sp_init env) (sp_handle env) (sp_admissible env) sp_begin_block (sp_others env)"

end
