(* ===== verification/Sponsorship_Spec.thy ===== *)
theory Sponsorship_Spec
  imports Sponsorship_Inv
begin

text \<open>
  What the sponsorship module promises, without its records, strings and machine integers: a pledge
  has a price, a number of payments left, a phase and the facts already paid.  Every accepted message
  and every block hook is one step of it (a forward simulation under \<open>sp_abs\<close>).
\<close>

section \<open>The abstract machine\<close>

datatype phase = Open | Lapsed | Settled | Withdrawn

record pledge =
  pl_price :: int
  pl_left :: int
  pl_phase :: phase
  pl_facts :: "string set"

type_synonym pledges = "string \<Rightarrow> pledge option"

definition pledge_owed :: "pledge \<Rightarrow> int" where
  "pledge_owed p = (case pl_phase p of Open \<Rightarrow> pl_price p * pl_left p | Lapsed \<Rightarrow> pl_price p * pl_left p
     | Settled \<Rightarrow> 0 | Withdrawn \<Rightarrow> 0)"

definition pay_pledge :: "string \<Rightarrow> pledge \<Rightarrow> pledge" where
  "pay_pledge x p = p\<lparr>pl_left := pl_left p - 1, pl_facts := insert x (pl_facts p),
     pl_phase := (if pl_left p = 1 then Settled else Open)\<rparr>"

text \<open>\<open>pledge_step A d B\<close>: from \<open>A\<close> to \<open>B\<close>, with \<open>d\<close> the change of what is owed in total.\<close>

inductive pledge_step :: "pledges \<Rightarrow> int \<Rightarrow> pledges \<Rightarrow> bool" where
  pledge: "A k = None \<Longrightarrow> 0 < price \<Longrightarrow> 0 < n \<Longrightarrow>
    pledge_step A (price * n) (A(k \<mapsto> \<lparr>pl_price = price, pl_left = n, pl_phase = Open, pl_facts = {}\<rparr>))"
| pay: "A k = Some p \<Longrightarrow> pl_phase p = Open \<Longrightarrow> x \<notin> pl_facts p \<Longrightarrow>
    pledge_step A (- pl_price p) (A(k \<mapsto> pay_pledge x p))"
| withdraw: "A k = Some p \<Longrightarrow> pl_phase p = Open \<or> pl_phase p = Lapsed \<Longrightarrow>
    pledge_step A (- pledge_owed p) (A(k \<mapsto> p\<lparr>pl_phase := Withdrawn\<rparr>))"
| lapse: "(\<And>k. B k = map_option (\<lambda>p. if k \<in> K \<and> pl_phase p = Open then p\<lparr>pl_phase := Lapsed\<rparr> else p) (A k)) \<Longrightarrow>
    pledge_step A 0 B"

inductive_cases pledge_stepE: "pledge_step A d B"

text \<open>A pledge keeps its price, never pays more than it has left, and a settled or withdrawn one is final.\<close>

lemma pledge_step_keeps:
  assumes "pledge_step A d B" "A k = Some p"
  shows "\<exists>q. B k = Some q \<and> pl_price q = pl_price p \<and> pl_facts p \<subseteq> pl_facts q \<and>
    (pl_phase p = Settled \<or> pl_phase p = Withdrawn \<longrightarrow> q = p)"
  using assms by (cases rule: pledge_stepE) (auto simp: pay_pledge_def)

section \<open>Abstraction\<close>

definition order_phase :: "bounty_order \<Rightarrow> phase" where
  "order_phase bo = (case bo_status bo of BOUNTY_STATUS_ACTIVE \<Rightarrow> Open | BOUNTY_STATUS_EXPIRED \<Rightarrow> Lapsed
     | BOUNTY_STATUS_FULFILLED \<Rightarrow> Settled | _ \<Rightarrow> Withdrawn)"

definition sp_abs :: "'b sp_state \<Rightarrow> pledges" where
  "sp_abs s k = map_option (\<lambda>bo. \<lparr>pl_price = order_price bo, pl_left = uint (bo_target bo) - uint (bo_fulfilled bo),
     pl_phase = order_phase bo, pl_facts = {x. get_fulfillment s k x \<noteq> None}\<rparr>) (get_bounty_order s k)"

lemma sp_abs_None: "sp_abs s k = None \<longleftrightarrow> get_bounty_order s k = None"
  by (simp add: sp_abs_def)

lemma sp_abs_Some:
  "get_bounty_order s k = Some bo \<Longrightarrow> sp_abs s k = Some \<lparr>pl_price = order_price bo,
     pl_left = uint (bo_target bo) - uint (bo_fulfilled bo), pl_phase = order_phase bo,
     pl_facts = {x. get_fulfillment s k x \<noteq> None}\<rparr>"
  by (simp add: sp_abs_def)

lemma stored_no_slash: "sp_ok env h s \<Longrightarrow> get_bounty_order s k = Some bo \<Longrightarrow> CHR ''/'' \<notin> set k"
  using sp_okD(5) bounty_id_no_slash by blast

lemma fulfillment_of_stored:
  assumes "sp_ok env h s" "get_fulfillment s k x = Some f" "CHR ''/'' \<notin> set k"
  shows "get_bounty_order s k \<noteq> None"
proof -
  from assms(1,2) have "fulfillment_ok s (fulfillment_key k x) f"
    unfolding get_fulfillment_def by (rule sp_okD(6))
  then obtain bo where "fulfillment_key k x = fulfillment_key (bf_bounty_id f) (bf_fact_id f)"
    "get_bounty_order s (bf_bounty_id f) = Some bo" by (auto simp: fulfillment_ok_def)
  with key_split [OF assms(3) stored_no_slash [OF assms(1)]] show ?thesis by blast
qed

lemma get_fulfillment_frame [simp]:
  "get_fulfillment (set_bounty_order bo s) = get_fulfillment s"
  "get_fulfillment (s\<lparr>sp_bank := b\<rparr>) = get_fulfillment s"
  "get_fulfillment (s\<lparr>sp_counter := c\<rparr>) = get_fulfillment s"
  "get_fulfillment (s\<lparr>sp_facts := g\<rparr>) = get_fulfillment s"
  by (simp_all add: get_fulfillment_def fun_eq_iff)

section \<open>Simulation\<close>

lemma create_simulates:
  fixes s s' :: "'b sp_state"
  assumes ok: "sp_ok env h s" and env: "sdk_laws env"
    and run: "create_bounty_order env h m s = Done s' bid" and target: "cb_target m \<noteq> 0" and room: "next_counter s \<noteq> 0"
  shows "\<exists>d. pledge_step (sp_abs s) d (sp_abs s') \<and> kv_sum order_escrow (sp_orders s') = kv_sum order_escrow (sp_orders s) + d"
  using create_bounty_effect [OF run env]
proof cases
  case (1 price sponsor coins b)
  let ?k = "bounty_id_of (next_counter s)" and ?bo = "new_order h m (next_counter s) price"
  have fresh: "get_bounty_order s ?k = None" by (rule next_counter_fresh [OF ok room])
  have id: "bo_id ?bo = ?k" and price: "order_price ?bo = price" and esc: "order_escrow ?bo = price * uint (cb_target m)"
    using 1(1) by (simp_all add: new_order_def order_price_def order_escrow_def)
  have none: "get_fulfillment s ?k x = None" for x
    using fulfillment_of_stored [OF ok, of ?k x] fresh bounty_id_no_slash [of "next_counter s"]
    by (cases "get_fulfillment s ?k x") auto
  have "sp_abs s' = (sp_abs s)(?k \<mapsto> \<lparr>pl_price = price, pl_left = uint (cb_target m), pl_phase = Open, pl_facts = {}\<rparr>)"
    by (auto simp: fun_eq_iff sp_abs_def none 1(10) id price) (simp_all add: new_order_def order_phase_def)
  moreover have "pledge_step (sp_abs s) (price * uint (cb_target m))
      ((sp_abs s)(?k \<mapsto> \<lparr>pl_price = price, pl_left = uint (cb_target m), pl_phase = Open, pl_facts = {}\<rparr>))"
  proof (rule pledge)
    show "sp_abs s ?k = None" using fresh by (simp add: sp_abs_None)
    show "0 < price" using 1(1) by (simp add: positive_int_Some)
    have "0 < cb_target m" using target by (simp add: word_gt_0)
    then show "0 < uint (cb_target m)" by (simp add: u32_less)
  qed
  moreover have "kv_sum order_escrow (sp_orders s') = kv_sum order_escrow (sp_orders s) + price * uint (cb_target m)"
    using sp_okD(1) [OF ok] fresh esc by (simp add: 1(10) id kv_sum_set get_bounty_order_def)
  ultimately show ?thesis by metis
qed

lemma fulfill_simulates:
  fixes s s' :: "'b sp_state"
  assumes ok: "sp_ok env h s" and env: "sdk_laws env" and run: "fulfill_bounty env h m s = Done s' r"
  shows "\<exists>d. pledge_step (sp_abs s) d (sp_abs s') \<and> kv_sum order_escrow (sp_orders s') = kv_sum order_escrow (sp_orders s) + d"
  using fulfill_bounty_effect [OF run env]
proof cases
  case (1 bo f price worker coins b)
  let ?k = "fb_bounty_id m" and ?x = "fb_fact_id m"
  have bo: "order_ok h ?k bo" by (rule sp_okD(3) [OF ok 1(1)])
  have price: "price = order_price bo" using order_price_pos [OF 1(9)] by simp
  have id: "bo_id bo = ?k" using bo by (simp add: order_ok_def)
  note P = paid_order_ok [OF bo 1(2)]
  have idp: "bo_id (paid_order bo (order_price bo)) = ?k" using P(1) by (simp add: order_ok_def)
  define p where "p = the (sp_abs s ?k)"
  have p: "sp_abs s ?k = Some p" "pl_price p = order_price bo" "pl_phase p = Open" "?x \<notin> pl_facts p"
    "pl_left p = uint (bo_target bo) - uint (bo_fulfilled bo)" "pl_facts p = {y. get_fulfillment s ?k y \<noteq> None}"
    using sp_abs_Some [OF 1(1)] 1(2,4) id by (simp_all add: p_def order_phase_def)
  have slash: "CHR ''/'' \<notin> set ?k" by (rule stored_no_slash [OF ok 1(1)])
  have ful: "get_fulfillment s' j y \<noteq> None \<longleftrightarrow> get_fulfillment s j y \<noteq> None \<or> j = ?k \<and> y = ?x"
    if "CHR ''/'' \<notin> set j" for j y
    using key_split [OF that slash, of y ?x] by (auto simp: 1(13) get_fulfillment_def payment_def id)
  have left: "bo_target bo \<le> bo_fulfilled bo + 1 \<longleftrightarrow> uint (bo_target bo) - uint (bo_fulfilled bo) = 1"
    using P(4) bo 1(2) by (auto simp: paid_order_def order_ok_def u32_le u32_less)
  have "sp_abs s' j = ((sp_abs s)(?k \<mapsto> pay_pledge ?x p)) j" for j
  proof (cases "j = ?k")
    case True
    have "sp_abs s' ?k = Some \<lparr>pl_price = order_price bo, pl_left = uint (bo_target bo) - (uint (bo_fulfilled bo) + 1),
      pl_phase = (if bo_target bo \<le> bo_fulfilled bo + 1 then Settled else Open), pl_facts = insert ?x (pl_facts p)\<rparr>"
      using ful [OF slash] P(4) same_terms_price [OF P(2)] 1(2) p(6)
      by (auto simp: sp_abs_def 1(13) price idp) (auto simp: order_phase_def paid_order_def)
    then show ?thesis using p(2,5) by (simp add: True pay_pledge_def left)
  next
    case False
    show ?thesis
    proof (cases "get_bounty_order s j")
      case None
      with False show ?thesis by (simp add: sp_abs_def 1(13) price idp)
    next
      case (Some x)
      with False ful [OF stored_no_slash [OF ok Some]] show ?thesis by (simp add: sp_abs_def 1(13) price idp)
    qed
  qed
  then have abs: "sp_abs s' = (sp_abs s)(?k \<mapsto> pay_pledge ?x p)" by (simp add: fun_eq_iff)
  have "pledge_step (sp_abs s) (- order_price bo) (sp_abs s')"
    unfolding abs p(2) [symmetric] using p(1,3,4) by (rule pledge_step.pay)
  moreover have "kv_sum order_escrow (sp_orders s') = kv_sum order_escrow (sp_orders s) + - order_price bo"
    using escrow_sum_set [OF sp_okD(1) [OF ok] 1(1), of "paid_order bo (order_price bo)"] P(3)
    by (simp add: 1(13) price idp)
  ultimately show ?thesis by blast
qed

lemma cancel_simulates:
  fixes s s' :: "'b sp_state"
  assumes ok: "sp_ok env h s" and env: "sdk_laws env" and run: "cancel_bounty_order env m s = Done s' r"
  shows "\<exists>d. pledge_step (sp_abs s) d (sp_abs s') \<and> kv_sum order_escrow (sp_orders s') = kv_sum order_escrow (sp_orders s) + d"
  using cancel_bounty_effect [OF run env]
proof cases
  case (1 bo x b)
  let ?k = "xb_bounty_id m"
  have bo: "order_ok h ?k bo" by (rule sp_okD(3) [OF ok 1(1)])
  note C = canceled_order_ok [OF bo 1(3)]
  have id: "bo_id (canceled_order bo) = ?k" using C(1) by (simp add: order_ok_def)
  define p where "p = the (sp_abs s ?k)"
  have p: "sp_abs s ?k = Some p" "pl_price p = order_price bo" "pl_phase p = Open \<or> pl_phase p = Lapsed"
    "pl_left p = uint (bo_target bo) - uint (bo_fulfilled bo)" "pl_facts p = {y. get_fulfillment s ?k y \<noteq> None}"
    using sp_abs_Some [OF 1(1)] 1(3) by (auto simp: p_def order_phase_def)
  have ful: "get_fulfillment s' j y = get_fulfillment s j y" for j y by (simp add: 1(6) get_fulfillment_def)
  have "sp_abs s' ?k = Some (p\<lparr>pl_phase := Withdrawn\<rparr>)"
    using p same_terms_price [OF C(2)]
    by (simp add: sp_abs_def ful 1(6) id) (auto simp: order_phase_def canceled_order_def)
  moreover have "sp_abs s' j = sp_abs s j" if "j \<noteq> ?k" for j using that by (simp add: sp_abs_def ful 1(6) id)
  ultimately have abs: "sp_abs s' = (sp_abs s)(?k \<mapsto> p\<lparr>pl_phase := Withdrawn\<rparr>)" by (auto simp: fun_eq_iff)
  have owed: "pledge_owed p = order_escrow bo"
    using p(2,3,4) order_escrow_ok [OF bo] 1(3) by (auto simp: pledge_owed_def open_or_expired_def)
  have "pledge_step (sp_abs s) (- pledge_owed p) (sp_abs s')" unfolding abs using p(1,3) by (rule withdraw)
  moreover have "kv_sum order_escrow (sp_orders s') = kv_sum order_escrow (sp_orders s) + - pledge_owed p"
    using escrow_sum_set [OF sp_okD(1) [OF ok] 1(1), of "canceled_order bo"] C(3) owed by (simp add: 1(6) id)
  ultimately show ?thesis by blast
qed

lemma kv_sum_cong: "(\<And>k v. (k, v) \<in> set m \<Longrightarrow> f v = g v) \<Longrightarrow> kv_sum f m = kv_sum g m"
  unfolding kv_sum_def by (metis (mono_tags, lifting) map_eq_conv prod.collapse)

lemma expire_order_sum:
  assumes "kv_ok (sp_orders s)" "get_bounty_order s (bo_id bo) = Some bo"
  shows "kv_sum order_escrow (sp_orders (expire_order c bo s)) = kv_sum order_escrow (sp_orders s)"
  using escrow_sum_set [OF assms, of "swept c bo"]
  by (auto simp: expire_order_def swept_def order_escrow_def)

lemma sweep_sum:
  fixes s :: "'b sp_state"
  assumes "sp_ok env h s" "distinct (map bo_id bos)" "\<And>bo. bo \<in> set bos \<Longrightarrow> get_bounty_order s (bo_id bo) = Some bo"
  shows "kv_sum order_escrow (sp_orders (fold (expire_order c) bos s)) = kv_sum order_escrow (sp_orders s)"
  using assms
proof (induction bos arbitrary: s)
  case Nil
  then show ?case by simp
next
  case (Cons bo bos)
  have bo: "get_bounty_order s (bo_id bo) = Some bo" using Cons.prems(3) by simp
  have "kv_sum order_escrow (sp_orders (fold (expire_order c) bos (expire_order c bo s)))
      = kv_sum order_escrow (sp_orders (expire_order c bo s))"
    by (rule Cons.IH [OF expire_order_keeps [OF Cons.prems(1) bo]])
      (use Cons.prems(2,3) in \<open>auto simp: expire_order_swept [OF bo] image_iff\<close>)
  with expire_order_sum [OF sp_okD(1) [OF Cons.prems(1)] bo] show ?case by simp
qed

lemma sweep_simulates:
  fixes s :: "'b sp_state"
  assumes ok: "sp_ok env h s"
  shows "pledge_step (sp_abs s) 0 (sp_abs (process_bounty_expiry c s))"
    and "kv_sum order_escrow (sp_orders (process_bounty_expiry c s)) = kv_sum order_escrow (sp_orders s)"
proof -
  let ?K = "{k. \<exists>bo. get_bounty_order s k = Some bo \<and> bo_end bo \<le> c}"
  have ful: "get_fulfillment (process_bounty_expiry c s) k x = get_fulfillment s k x" for k x
    using sweep_frame [of c "get_all_bounty_orders s" s] by (simp add: get_fulfillment_def process_bounty_expiry_def)
  have "sp_abs (process_bounty_expiry c s) k =
      map_option (\<lambda>p. if k \<in> ?K \<and> pl_phase p = Open then p\<lparr>pl_phase := Lapsed\<rparr> else p) (sp_abs s k)" for k
    by (cases "get_bounty_order s k")
      (auto simp: sp_abs_def ful sweep_effect(2) [OF ok] swept_def order_phase_def order_price_def split: bounty_status.splits)
  then show "pledge_step (sp_abs s) 0 (sp_abs (process_bounty_expiry c s))" by (rule lapse)
  note snap = sp_orders_snapshot [OF ok]
  show "kv_sum order_escrow (sp_orders (process_bounty_expiry c s)) = kv_sum order_escrow (sp_orders s)"
    unfolding process_bounty_expiry_def
    by (rule sweep_sum [OF ok]) (use kv_ok_distinct [OF sp_okD(1) [OF ok]] in \<open>simp_all add: snap\<close>)
qed

text \<open>Every message and every block hook is a step of the abstract machine.\<close>

lemma sp_handle_simulates:
  fixes s s' :: "'b sp_state"
  assumes "sp_ok env h s" "sdk_laws env" "sp_admissible env s m" "sp_handle env h m s = Done s' u"
  shows "\<exists>d. pledge_step (sp_abs s) d (sp_abs s') \<and> kv_sum order_escrow (sp_orders s') = kv_sum order_escrow (sp_orders s) + d"
proof (cases m)
  case (MsgCreateBounty c)
  with assms(3,4) obtain bid where "create_bounty_order env h c s = Done s' bid" "cb_target c \<noteq> 0" "next_counter s \<noteq> 0"
    by (auto simp: outcome_simps validate_create_bounty_def split: if_splits)
  then show ?thesis using create_simulates [OF assms(1,2)] by blast
next
  case (MsgFulfillBounty c)
  with assms(4) obtain r where "fulfill_bounty env h c s = Done s' r" by (auto simp: outcome_simps split: if_splits)
  then show ?thesis by (rule fulfill_simulates [OF assms(1,2)])
next
  case (MsgCancelBounty c)
  with assms(4) obtain r where "cancel_bounty_order env c s = Done s' r" by (auto simp: outcome_simps split: if_splits)
  then show ?thesis by (rule cancel_simulates [OF assms(1,2)])
qed

end
