(* ===== verification/Sponsorship_Claims.thy ===== *)
theory Sponsorship_Claims
  imports Sponsorship_Spec
begin

text \<open>
  The properties of the sponsorship module over reachable states, with witnesses on a short run: a
  sponsor opens a bounty of two payments in block 5 and one fact is paid in block 6.
\<close>

section \<open>A run on the ledger\<close>

definition spd_create :: msg_create_bounty where
  "spd_create = \<lparr>cb_sponsor = ''zrn1s'', cb_domain = ''math'', cb_price = ''10'', cb_target = 2, cb_duration = 100\<rparr>"

definition spd_fulfill :: msg_fulfill_bounty where
  "spd_fulfill = \<lparr>fb_caller = ''zrn1x'', fb_bounty_id = ''bounty-1'', fb_fact_id = ''f1''\<rparr>"

definition spd_cancel :: msg_cancel_bounty where
  "spd_cancel = \<lparr>xb_sponsor = ''zrn1s'', xb_bounty_id = ''bounty-1''\<rparr>"

definition spd_facts :: "(string, knowledge_fact) kv" where
  "spd_facts = [(''f1'', \<lparr>fact_domain = ''math'', fact_submitter = ''zrn1w'', fact_submitted_at = 6,
     fact_status = FACT_STATUS_VERIFIED\<rparr>)]"

definition spd_bank :: ledger where
  "spd_bank = \<lparr>lg_balances = [((''zrn1s'', ''uzrn''), 100)], lg_supply = [(''uzrn'', 100)], lg_disabled = []\<rparr>"

definition spd_s0 :: "ledger sp_state" where
  "spd_s0 = \<lparr>sp_params_record = None, sp_orders = [], sp_fulfillments = [], sp_counter = None, sp_facts = spd_facts,
     sp_bank = spd_bank\<rparr>"

definition spd_order :: bounty_order where
  "spd_order = \<lparr>bo_id = ''bounty-1'', bo_sponsor = ''zrn1s'', bo_domain = ''math'', bo_price = ''10'', bo_target = 2,
     bo_fulfilled = 0, bo_escrow = ''20'', bo_start = 5, bo_end = 105, bo_status = BOUNTY_STATUS_ACTIVE\<rparr>"

definition spd_s1 :: "ledger sp_state" where
  "spd_s1 = \<lparr>sp_params_record = None, sp_orders = [(''bounty-1'', spd_order)], sp_fulfillments = [],
     sp_counter = Some 1, sp_facts = spd_facts,
     sp_bank = \<lparr>lg_balances = [((''module/sponsorship'', ''uzrn''), 20), ((''zrn1s'', ''uzrn''), 80)],
       lg_supply = [(''uzrn'', 100)], lg_disabled = []\<rparr>\<rparr>"

definition spd_s2 :: "ledger sp_state" where
  "spd_s2 = spd_s1\<lparr>sp_orders := [(''bounty-1'', spd_order\<lparr>bo_fulfilled := 1, bo_escrow := ''10''\<rparr>)],
     sp_fulfillments := [(''bounty-1/f1'', \<lparr>bf_bounty_id = ''bounty-1'', bf_fact_id = ''f1'', bf_worker = ''zrn1w'',
       bf_amount = ''10'', bf_block = 6\<rparr>)],
     sp_bank := \<lparr>lg_balances = [((''module/sponsorship'', ''uzrn''), 10), ((''zrn1s'', ''uzrn''), 80), ((''zrn1w'', ''uzrn''), 10)],
       lg_supply = [(''uzrn'', 100)], lg_disabled = []\<rparr>\<rparr>"

lemma spd_create_runs: "create_bounty_order ledger_sdk 5 spd_create spd_s0 = Done spd_s1 ''bounty-1''"
  by code_simp

lemma spd_fulfill_runs: "fulfill_bounty ledger_sdk 6 spd_fulfill spd_s1 = Done spd_s2 (''zrn1w'', ''10'', False)"
  by code_simp

lemma spd_cancel_runs: "succeeded (cancel_bounty_order ledger_sdk spd_cancel spd_s2)"
  by code_simp

lemma spd_reachable: "sp_reachable ledger_sdk 5 spd_s0" "sp_reachable ledger_sdk 5 spd_s1" "sp_reachable ledger_sdk 6 spd_s1"
  "sp_reachable ledger_sdk 6 spd_s2"
proof -
  have "sp_init ledger_sdk 5 spd_s0"
  proof -
    have "0 \<le> bank_balance ledger_sdk (sp_bank spd_s0) (sp_module ledger_sdk) uzrn" by code_simp
    then show ?thesis by (simp add: sp_init_def ledger_laws) (simp add: spd_s0_def)
  qed
  then show 0: "sp_reachable ledger_sdk 5 spd_s0" by (intro chain_reachable.start) simp_all
  have adm: "sp_admissible ledger_sdk spd_s0 (MsgCreateBounty spd_create)" by code_simp
  have "deliver (sp_handle ledger_sdk 5) (MsgCreateBounty spd_create) spd_s0 = spd_s1" by code_simp
  with chain_reachable.message [OF 0 adm] show 1: "sp_reachable ledger_sdk 5 spd_s1" by metis
  have "sp_begin_block (5 + 1) spd_s1 = Done spd_s1 ()" by code_simp
  from chain_reachable.block [OF 1 _ this] show 2: "sp_reachable ledger_sdk 6 spd_s1" by simp
  have "deliver (sp_handle ledger_sdk 6) (MsgFulfillBounty spd_fulfill) spd_s1 = spd_s2" by code_simp
  moreover have "sp_admissible ledger_sdk spd_s1 (MsgFulfillBounty spd_fulfill)" by simp
  ultimately show "sp_reachable ledger_sdk 6 spd_s2" using chain_reachable.message [OF 2] by metis
qed

section \<open>Shared steps\<close>

lemma sp_reachable_ok: "sp_reachable env h s \<Longrightarrow> sp_ok env h s \<and> sdk_laws env"
  by (drule sp.reachable_inv) (simp add: sp_inv_def)

lemmas sp_height = chain_reachable_height

lemma order_facts:
  assumes "order_ok h k bo"
  shows "bo_fulfilled bo \<le> bo_target bo"
    and "order_escrow bo = (if open_or_expired bo then order_price bo * (uint (bo_target bo) - uint (bo_fulfilled bo)) else 0)"
    and "0 < order_price bo"
  using order_escrow_ok [OF assms] order_price_ok [OF assms] assms by (auto simp: order_ok_def)

lemma fulfillment_stays:
  fixes s s' :: "'b sp_state"
  assumes "sdk_laws env" "get_fulfillment s k x = Some r" "sp_handle env h m s = Done s' u"
  shows "get_fulfillment s' k x = Some r"
proof (cases m)
  case (MsgCreateBounty c)
  with assms(3) obtain bid where run: "create_bounty_order env h c s = Done s' bid" by (auto simp: outcome_simps split: if_splits)
  from create_bounty_effect [OF run assms(1)] show ?thesis by cases (use assms(2) in simp)
next
  case (MsgFulfillBounty c)
  with assms(3) obtain r' where run: "fulfill_bounty env h c s = Done s' r'" by (auto simp: outcome_simps split: if_splits)
  from fulfill_bounty_effect [OF run assms(1)] show ?thesis
    by cases (use assms(2) in \<open>auto simp: get_fulfillment_def payment_def\<close>)
next
  case (MsgCancelBounty c)
  with assms(3) obtain r' where run: "cancel_bounty_order env c s = Done s' r'" by (auto simp: outcome_simps split: if_splits)
  from cancel_bounty_effect [OF run assms(1)] show ?thesis by cases (use assms(2) in simp)
qed

lemma order_price_coins:
  assumes "order_ok h k bo" "valid_denom env uzrn" "0 \<le> n" "n \<le> uint (bo_target bo)"
  shows "new_coins env [(uzrn, order_price bo * n)] \<noteq> None"
proof -
  have p: "0 < order_price bo" and fits: "fits_sdk_int (order_price bo * uint (bo_target bo))"
    using order_facts(3) [OF assms(1)] assms(1) by (simp_all add: order_ok_def)
  have "0 \<le> order_price bo * n" "order_price bo * n \<le> order_price bo * uint (bo_target bo)"
    using p assms(3,4) by (simp_all add: mult_left_mono)
  with fits assms(2) show ?thesis by (auto simp: new_coins_def coin_ok_def fits_sdk_int_def)
qed

text \<open>The module's account covers the escrow of each bounty.\<close>

lemma order_covered:
  assumes ok: "sp_ok env h s" and bo: "get_bounty_order s k = Some bo"
  shows "order_escrow bo \<le> bank_balance env (sp_bank s) (sp_module env) uzrn"
proof -
  have "0 \<le> order_escrow b" if "(j, b) \<in> set (sp_orders s)" for j b
  proof -
    have "get_bounty_order s j = Some b" using that kv_get_mem [OF sp_okD(1) [OF ok], of j b] by (simp add: get_bounty_order_def)
    then have b: "order_ok h j b" by (rule sp_okD(3) [OF ok])
    show ?thesis using order_escrow_ok [OF b] order_price_ok [OF b] b
      by (auto simp: order_ok_def u32_less intro: mult_nonneg_nonneg)
  qed
  then have "order_escrow bo \<le> kv_sum order_escrow (sp_orders s)"
    using bo by (intro kv_sum_member_le) (auto simp: get_bounty_order_def dest: kv_get_in_set)
  with sp_okD(7) [OF ok] show ?thesis by linarith
qed

section \<open>Properties\<close>

lemma sp_escrow_is_exact_parts:
  assumes "sp_reachable env h s" "get_bounty_order s k = Some bo"
  shows "kv_sum order_escrow (sp_orders s) \<le> bank_balance env (sp_bank s) (sp_module env) uzrn"
    and "order_escrow bo = (if open_or_expired bo then order_price bo * (uint (bo_target bo) - uint (bo_fulfilled bo)) else 0)"
    and "bo_fulfilled bo \<le> bo_target bo"
    and "int (kv_count (\<lambda>f. bf_bounty_id f = k) (sp_fulfillments s)) = uint (bo_fulfilled bo)"
proof -
  from sp_reachable_ok [OF assms(1)] have ok: "sp_ok env h s" by blast
  note D = sp_okD [OF ok]
  show "kv_sum order_escrow (sp_orders s) \<le> bank_balance env (sp_bank s) (sp_module env) uzrn" by (rule D(7))
  show "order_escrow bo = (if open_or_expired bo then order_price bo * (uint (bo_target bo) - uint (bo_fulfilled bo)) else 0)"
    "bo_fulfilled bo \<le> bo_target bo"
    using order_facts [OF D(3) [OF assms(2)]] by blast+
  show "int (kv_count (\<lambda>f. bf_bounty_id f = k) (sp_fulfillments s)) = uint (bo_fulfilled bo)"
    using D(4) [OF assms(2)] by (simp add: kv_count_as_sum paid_count_def)
qed

text \<open>
  C25: In every reachable state the module account holds at least the escrow of all bounties, and each
  bounty's recorded escrow is its price times the payments left while it is active or expired and zero
  once it is fulfilled or canceled; it never pays more than its target, and the number of stored
  payments for it is exactly its fulfilled count.
\<close>

theorem sp_escrow_is_exact:
  assumes "sp_reachable env h s" "get_bounty_order s k = Some bo"
  shows "(kv_sum order_escrow (sp_orders s) \<le> bank_balance env (sp_bank s) (sp_module env) uzrn) \<and>
    (order_escrow bo = (if open_or_expired bo then order_price bo * (uint (bo_target bo) - uint (bo_fulfilled bo)) else 0)) \<and>
    (bo_fulfilled bo \<le> bo_target bo) \<and>
    (int (kv_count (\<lambda>f. bf_bounty_id f = k) (sp_fulfillments s)) = uint (bo_fulfilled bo))"
  using sp_escrow_is_exact_parts [OF assms] by blast

lemma spd_stored: "get_bounty_order spd_s2 ''bounty-1'' = Some (spd_order\<lparr>bo_fulfilled := 1, bo_escrow := ''10''\<rparr>)"
  by code_simp

lemma sp_escrow_is_exact_witness:
  "kv_sum order_escrow (sp_orders spd_s2) \<le> bank_balance ledger_sdk (sp_bank spd_s2) (sp_module ledger_sdk) uzrn \<and>
   int (kv_count (\<lambda>f. bf_bounty_id f = ''bounty-1'') (sp_fulfillments spd_s2)) = 1"
  using sp_escrow_is_exact [OF spd_reachable(4) spd_stored] by simp

text \<open>
  An accepted fulfillment pays exactly the bounty's price from the module account to the fact's
  submitter, for a fact that is verified, in the bounty's domain and submitted no earlier than the
  bounty, while the bounty is active and its window has not closed; it records the payment, counts it,
  and ends the bounty exactly at the last payment.
\<close>

theorem sp_fulfillment_is_exact:
  assumes "sp_reachable env h s" "fulfill_bounty env h m s = Done s' (worker, amount, finished)"
  shows "\<exists>bo f a. get_bounty_order s (fb_bounty_id m) = Some bo \<and> bo_status bo = BOUNTY_STATUS_ACTIVE \<and>
    h < uint (bo_end bo) \<and> get_fulfillment s (fb_bounty_id m) (fb_fact_id m) = None \<and>
    kv_get (sp_facts s) (fb_fact_id m) = Some f \<and> fact_status f = FACT_STATUS_VERIFIED \<and>
    fact_domain f = bo_domain bo \<and> bo_start bo \<le> fact_submitted_at f \<and> worker = fact_submitter f \<and>
    acc_address env worker = Some a \<and> amount = big_string (order_price bo) \<and>
    bank_balance env (sp_bank s') a uzrn =
      bank_balance env (sp_bank s) a uzrn + (if a = sp_module env then 0 else order_price bo) \<and>
    bank_balance env (sp_bank s') (sp_module env) uzrn =
      bank_balance env (sp_bank s) (sp_module env) uzrn - (if a = sp_module env then 0 else order_price bo) \<and>
    get_fulfillment s' (fb_bounty_id m) (fb_fact_id m) = Some (payment h bo (fb_fact_id m) f (order_price bo)) \<and>
    get_bounty_order s' (fb_bounty_id m) = Some (bo\<lparr>bo_fulfilled := bo_fulfilled bo + 1,
      bo_escrow := big_string (order_escrow bo - order_price bo),
      bo_status := (if finished then BOUNTY_STATUS_FULFILLED else BOUNTY_STATUS_ACTIVE)\<rparr>) \<and>
    (finished \<longleftrightarrow> bo_fulfilled bo + 1 = bo_target bo)"
proof -
  from sp_reachable_ok [OF assms(1)] have ok: "sp_ok env h s" and L: "sdk_laws env" by blast+
  from fulfill_bounty_effect [OF assms(2) L] show ?thesis
  proof cases
    case (1 bo f price a coins b)
    have bo: "order_ok h (fb_bounty_id m) bo" by (rule sp_okD(3) [OF ok 1(1)])
    have id: "bo_id bo = fb_bounty_id m" using bo by (simp add: order_ok_def)
    have price: "price = order_price bo" using order_price_pos [OF 1(9)] by simp
    have h: "uint (to_u64 h) = h" using sp_height [OF assms(1)] by (simp add: uint_height)
    have bal: "bank_balance env b x uzrn = bank_balance env (sp_bank s) x uzrn -
        (if x = sp_module env then order_price bo else 0) + (if x = a then order_price bo else 0)" for x
      using moved_balance [OF 1(12), of x uzrn] single_coin_amount [OF 1(11)] price by (simp add: sp_module_def)
    have last: "bo_target bo \<le> bo_fulfilled bo + 1 \<longleftrightarrow> bo_fulfilled bo + 1 = bo_target bo"
      using paid_order_ok(4) [OF bo 1(2)] bo 1(2)
      by (auto simp: paid_order_def order_ok_def u32_le u32_less word_uint_eq_iff)
    show ?thesis
      by (rule exI [of _ bo], rule exI [of _ f], rule exI [of _ a])
        (use 1 id price h in \<open>auto simp: bal u64_less get_fulfillment_def payment_def paid_order_def last\<close>)
  qed
qed

lemma sp_fulfillment_is_exact_witness:
  "\<exists>a. bank_balance ledger_sdk (sp_bank spd_s2) a uzrn = bank_balance ledger_sdk (sp_bank spd_s1) a uzrn + 10"
  using sp_fulfillment_is_exact [OF spd_reachable(3) spd_fulfill_runs]
proof (elim exE conjE)
  fix bo f a
  assume "acc_address ledger_sdk ''zrn1w'' = Some a" and amount: "''10'' = big_string (order_price bo)"
    and bal: "bank_balance ledger_sdk (sp_bank spd_s2) a uzrn =
      bank_balance ledger_sdk (sp_bank spd_s1) a uzrn + (if a = sp_module ledger_sdk then 0 else order_price bo)"
  then have "a = ''zrn1w''" by (simp add: ledger_sdk_def ledger_account_def)
  moreover have "''zrn1w'' \<noteq> sp_module ledger_sdk" by code_simp
  moreover have "big_string 10 = ''10''" by code_simp
  then have "order_price bo = 10" using amount by (metis big_string_inj)
  ultimately show ?thesis using bal by auto
qed

text \<open>
  C26: A recorded payment is final: no message and no block hook changes or removes it, and while it
  stands no fulfillment of the same bounty with the same fact is accepted, at any height.
\<close>

theorem sp_fact_paid_once:
  assumes "sp_reachable env h s" "get_fulfillment s k x = Some r"
  shows "get_fulfillment (deliver (sp_handle env h) m s) k x = Some r \<and>
    get_fulfillment (process_bounty_expiry c s) k x = Some r \<and>
    \<not> succeeded (fulfill_bounty env h' \<lparr>fb_caller = caller, fb_bounty_id = k, fb_fact_id = x\<rparr> s)"
proof (intro conjI)
  from sp_reachable_ok [OF assms(1)] have ok: "sp_ok env h s" and L: "sdk_laws env" by blast+
  show "get_fulfillment (deliver (sp_handle env h) m s) k x = Some r"
    using assms fulfillment_stays [OF L assms(2)] by (auto simp: deliver_def split: outcome.splits)
  show "get_fulfillment (process_bounty_expiry c s) k x = Some r"
    using assms(2) sweep_frame [of c "get_all_bounty_orders s" s] by (simp add: get_fulfillment_def process_bounty_expiry_def)
  show "\<not> succeeded (fulfill_bounty env h' \<lparr>fb_caller = caller, fb_bounty_id = k, fb_fact_id = x\<rparr> s)"
  proof (cases "get_bounty_order s k")
    case None
    then show ?thesis by (simp add: fulfill_bounty_def)
  next
    case (Some bo)
    with sp_okD(3) [OF ok Some] assms(2) show ?thesis by (simp add: fulfill_bounty_def Let_def order_ok_def)
  qed
qed

lemma spd_paid: "get_fulfillment spd_s2 ''bounty-1'' ''f1'' = Some \<lparr>bf_bounty_id = ''bounty-1'', bf_fact_id = ''f1'',
  bf_worker = ''zrn1w'', bf_amount = ''10'', bf_block = 6\<rparr>"
  by code_simp

lemma sp_fact_paid_once_witness:
  "get_fulfillment (deliver (sp_handle ledger_sdk 6) (MsgCancelBounty spd_cancel) spd_s2) ''bounty-1'' ''f1'' \<noteq> None \<and>
   \<not> succeeded (fulfill_bounty ledger_sdk 7 \<lparr>fb_caller = ''zrn1x'', fb_bounty_id = ''bounty-1'', fb_fact_id = ''f1''\<rparr> spd_s2)"
  using sp_fact_paid_once [OF spd_reachable(4) spd_paid] by simp

text \<open>
  What x/bank documents of \<open>SendCoinsFromModuleToAccount\<close> of native coin to an account that may receive: it
  succeeds where the module's balance covers the amount and the recipient's balance stays within 256 bits.
\<close>

definition pays_out :: "'b sdk \<Rightarrow> string \<Rightarrow> addr \<Rightarrow> bool" where
  "pays_out env m a \<longleftrightarrow> (\<forall>x cs b. new_coins env [(uzrn, x)] = Some cs \<and> x \<le> bank_balance env b (module_address env m) uzrn \<and>
     fits_sdk_int (bank_balance env b a uzrn + x) \<longrightarrow> (\<exists>b'. bank_to_account env m a cs b = Done b' ()))"

lemma ledger_pays_out: "pays_out ledger_sdk m a"
proof -
  have "\<exists>b'. ledger_send src dst cs b = Done b' ()"
    if "new_coins ledger_sdk [(uzrn, x)] = Some cs" "x \<le> ledger_balance b src uzrn" "fits_sdk_int (ledger_balance b dst uzrn + x)"
    for x cs b src dst
  proof -
    have cs: "cs = (if x = 0 then [] else [(uzrn, x)])" "0 \<le> x"
      using that(1) by (auto simp: new_coins_def coin_ok_def split: if_splits)
    with that(2,3) show ?thesis
      by (auto simp: ledger_send_def Let_def ledger_covers_def ledger_balance_credit fits_sdk_int_def)
  qed
  moreover have "bank_to_account ledger_sdk m a = ledger_send (module_address ledger_sdk m) a" "bank_balance ledger_sdk = ledger_balance"
    by (simp_all add: ledger_sdk_def)
  ultimately show ?thesis unfolding pays_out_def by metis
qed

text \<open>
  C27: escrow is never stuck.  The sponsor of an active or expired bounty can cancel it and is refunded
  exactly the price times the payments not made; the bounty then holds no escrow, and no other bounty
  changes.  That the module can pay is proved: its balance covers the escrow in every reachable state.  What
  is assumed of the bank is that it pays an amount which the module's balance covers to this sponsor's
  account, whose balance has to stay within the bank's 256 bits.
\<close>

theorem sp_sponsor_can_reclaim:
  assumes "sp_reachable env h s" "get_bounty_order s (xb_bounty_id m) = Some bo" "bo_sponsor bo = xb_sponsor m"
    and "open_or_expired bo" "valid_denom env uzrn" "acc_address env (xb_sponsor m) = Some a" "a \<noteq> sp_module env"
    and "pays_out env sp_module_name a" "fits_sdk_int (bank_balance env (sp_bank s) a uzrn + order_escrow bo)"
  shows "\<exists>s'. cancel_bounty_order env m s = Done s' (big_string (order_price bo * (uint (bo_target bo) - uint (bo_fulfilled bo)))) \<and>
    bank_balance env (sp_bank s') a uzrn =
      bank_balance env (sp_bank s) a uzrn + order_price bo * (uint (bo_target bo) - uint (bo_fulfilled bo)) \<and>
    get_bounty_order s' = (get_bounty_order s)(xb_bounty_id m \<mapsto> bo\<lparr>bo_status := BOUNTY_STATUS_CANCELED, bo_escrow := ''0''\<rparr>)"
proof -
  from sp_reachable_ok [OF assms(1)] have ok: "sp_ok env h s" and L: "sdk_laws env" by blast+
  have bo: "order_ok h (xb_bounty_id m) bo" by (rule sp_okD(3) [OF ok assms(2)])
  define x where "x = order_price bo * (uint (bo_target bo) - uint (bo_fulfilled bo))"
  have less: "uint (bo_fulfilled bo) < uint (bo_target bo)"
    using bo assms(4) by (auto simp: order_ok_def open_or_expired_def u32_less)
  have x: "0 < x" "big_set_string (bo_escrow bo) = Some x" "order_escrow bo = x"
    using less bo assms(4) order_facts(3) [OF bo] order_facts(1) [OF bo] by (simp_all add: x_def order_ok_def order_escrow_def)
  obtain cs where cs: "new_coins env [(uzrn, x)] = Some cs"
    using order_price_coins [OF bo assms(5), of "uint (bo_target bo) - uint (bo_fulfilled bo)"] less u32_bounds(1) [of "bo_fulfilled bo"]
    by (auto simp: x_def)
  have "x \<le> bank_balance env (sp_bank s) (module_address env sp_module_name) uzrn"
    using order_covered [OF ok assms(2)] x(3) by (simp add: sp_module_def)
  then obtain b where b: "bank_to_account env sp_module_name a cs (sp_bank s) = Done b ()"
    using assms(8,9) cs x(3) unfolding pays_out_def by blast
  have id: "bo_id bo = xb_bounty_id m" using bo by (simp add: order_ok_def)
  let ?s = "set_bounty_order (canceled_order bo) (s\<lparr>sp_bank := b\<rparr>)"
  have "cancel_bounty_order env m s = Done ?s (big_string x)"
    using assms(2,3,4,6) x cs b by (auto simp: cancel_bounty_order_def on_bank_def canceled_order_def open_or_expired_def)
  moreover have "bank_balance env b a uzrn = bank_balance env (sp_bank s) a uzrn + x"
    using moved_balance [OF bank_to_account_moved [OF L b], of a uzrn] single_coin_amount [OF cs] assms(7)
    by (simp add: sp_module_def)
  moreover have "get_bounty_order ?s = (get_bounty_order s)(xb_bounty_id m \<mapsto> canceled_order bo)"
    by (auto simp: fun_eq_iff canceled_order_def id)
  ultimately show ?thesis by (intro exI [of _ ?s]) (simp add: x_def canceled_order_def)
qed

lemma sp_sponsor_can_reclaim_witness:
  "\<exists>s'. cancel_bounty_order ledger_sdk spd_cancel spd_s2 = Done s' (big_string 10) \<and>
    bank_balance ledger_sdk (sp_bank s') ''zrn1s'' uzrn = bank_balance ledger_sdk (sp_bank spd_s2) ''zrn1s'' uzrn + 10"
proof -
  define bo where "bo = spd_order\<lparr>bo_fulfilled := 1, bo_escrow := ''10''\<rparr>"
  have p: "order_price bo = 10" "uint (bo_target bo) - uint (bo_fulfilled bo) = 1" "open_or_expired bo"
    unfolding bo_def by code_simp+
  have o: "get_bounty_order spd_s2 (xb_bounty_id spd_cancel) = Some bo" "bo_sponsor bo = xb_sponsor spd_cancel"
    "valid_denom ledger_sdk uzrn" "acc_address ledger_sdk (xb_sponsor spd_cancel) = Some ''zrn1s''"
    "''zrn1s'' \<noteq> sp_module ledger_sdk" "fits_sdk_int (bank_balance ledger_sdk (sp_bank spd_s2) ''zrn1s'' uzrn + order_escrow bo)"
    unfolding bo_def by code_simp+
  from sp_sponsor_can_reclaim [OF spd_reachable(4) o(1,2) p(3) o(3-5) ledger_pays_out o(6)] show ?thesis by (auto simp: p)
qed

lemma sp_refusal_is_clean_parts:
  assumes "sp_reachable env h s" "valid_denom env uzrn" "fulfill_bounty env h m s = Fail s' e"
  shows "s' = s"
    and "e \<in> {BountyNotFound, BountyNotActive, BountyExpired, AlreadyFulfilled, FactNotEligible, SpInvalidAddress} \<union> range SpBankError"
    and "e = BountyNotFound \<longleftrightarrow> get_bounty_order s (fb_bounty_id m) = None"
proof -
  from sp_reachable_ok [OF assms(1)] have ok: "sp_ok env h s" by blast
  have pay: "\<exists>b. e = SpBankError b" if "get_bounty_order s (fb_bounty_id m) = Some bo" "bo_status bo = BOUNTY_STATUS_ACTIVE"
    "pay_bounty env c bo x f (order_price bo) a s = Fail t e" for bo c x f a t
  proof -
    have bo: "order_ok h (fb_bounty_id m) bo" by (rule sp_okD(3) [OF ok that(1)])
    have "uint (bo_fulfilled bo) < uint (bo_target bo)" using bo that(2) by (auto simp: order_ok_def u32_less)
    with u32_bounds(1) [of "bo_fulfilled bo"] have "1 \<le> uint (bo_target bo)" by linarith
    then obtain cs where "new_coins env [(uzrn, order_price bo)] = Some cs"
      using order_price_coins [OF bo assms(2), of 1] by auto
    with that(3) show ?thesis
      by (auto simp: pay_bounty_def on_bank_def Let_def split: outcome.splits)
  qed
  have price: "positive_int (bo_price bo) = Some (order_price bo)" if "get_bounty_order s (fb_bounty_id m) = Some bo" for bo
    using order_price_ok [OF sp_okD(3) [OF ok that]] by blast
  have all: "s' = s \<and> e \<in> {BountyNotFound, BountyNotActive, BountyExpired, AlreadyFulfilled, FactNotEligible, SpInvalidAddress} \<union> range SpBankError
    \<and> (e = BountyNotFound \<longleftrightarrow> get_bounty_order s (fb_bounty_id m) = None)"
  proof (cases "get_bounty_order s (fb_bounty_id m)")
    case None
    with assms(3) show ?thesis by (simp add: fulfill_bounty_def)
  next
    case (Some bo)
    show ?thesis
    proof (cases "bo_status bo = BOUNTY_STATUS_ACTIVE")
      case False
      with Some assms(3) show ?thesis by (auto simp: fulfill_bounty_def)
    next
      case True
      have bank: "e \<in> range SpBankError" if "pay_bounty env c bo x f (order_price bo) a s = Fail t e" for c x f a t
        using pay [OF Some True that] by blast
      have same: "s' = s"
        using Some True assms(3) price [OF Some]
        by (auto simp: fulfill_bounty_def Let_def try_in_def of_option_def cached_def
            split: if_splits option.splits outcome.splits)
      from assms(3) Some True price [OF Some] have "e \<in> {BountyExpired, AlreadyFulfilled, FactNotEligible, SpInvalidAddress} \<union> range SpBankError"
        unfolding same
        by (auto simp: fulfill_bounty_def Let_def try_in_def of_option_def cached_def dest!: bank
            split: if_splits option.splits outcome.splits)
      with same Some show ?thesis by auto
    qed
  qed
  then show "s' = s"
    "e \<in> {BountyNotFound, BountyNotActive, BountyExpired, AlreadyFulfilled, FactNotEligible, SpInvalidAddress} \<union> range SpBankError"
    "e = BountyNotFound \<longleftrightarrow> get_bounty_order s (fb_bounty_id m) = None"
    by blast+
qed

text \<open>
  A refused fulfillment writes nothing, even where the payment itself failed half-way, and in a
  reachable state it is never refused for a malformed price or a payment out of range: the refusal is
  an unknown, inactive or ended bounty, a fact already paid or not eligible, a submitter without an
  address, or the bank's.
\<close>

theorem sp_refusal_is_clean:
  assumes "sp_reachable env h s" "valid_denom env uzrn" "fulfill_bounty env h m s = Fail s' e"
  shows "(s' = s) \<and>
    (e \<in> {BountyNotFound, BountyNotActive, BountyExpired, AlreadyFulfilled, FactNotEligible, SpInvalidAddress} \<union> range SpBankError) \<and>
    (e = BountyNotFound \<longleftrightarrow> get_bounty_order s (fb_bounty_id m) = None)"
  using sp_refusal_is_clean_parts [OF assms] by blast

lemma sp_refusal_is_clean_witness:
  "fulfill_bounty ledger_sdk 6 spd_fulfill spd_s2 = Fail spd_s2 AlreadyFulfilled"
proof -
  have "\<not> succeeded (fulfill_bounty ledger_sdk 6 spd_fulfill spd_s2)" by code_simp
  then obtain t e where r: "fulfill_bounty ledger_sdk 6 spd_fulfill spd_s2 = Fail t e"
    by (cases "fulfill_bounty ledger_sdk 6 spd_fulfill spd_s2") auto
  have "valid_denom ledger_sdk uzrn" by code_simp
  from sp_refusal_is_clean [OF spd_reachable(4) this r] r have "fulfill_bounty ledger_sdk 6 spd_fulfill spd_s2 = Fail spd_s2 e" by simp
  moreover have "(case fulfill_bounty ledger_sdk 6 spd_fulfill spd_s2 of Fail t e \<Rightarrow> e | Done t r \<Rightarrow> SpPanic) = AlreadyFulfilled"
    by code_simp
  ultimately show ?thesis by simp
qed

text \<open>
  The block hook always returns, expires exactly the active bounties whose last block is reached,
  and leaves every other bounty, all payments and all balances as they were; escrow stays with the
  expired bounty until its sponsor takes it back.
\<close>

theorem sp_sweep_is_exact:
  assumes "sp_reachable env h s" "h + 1 < 2 ^ 63"
  shows "\<exists>s'. sp_begin_block (h + 1) s = Done s' () \<and>
    get_bounty_order s' = (\<lambda>k. map_option (\<lambda>bo. if bo_status bo = BOUNTY_STATUS_ACTIVE \<and> uint (bo_end bo) \<le> h + 1
      then bo\<lparr>bo_status := BOUNTY_STATUS_EXPIRED\<rparr> else bo) (get_bounty_order s k)) \<and>
    sp_fulfillments s' = sp_fulfillments s \<and> sp_bank s' = sp_bank s \<and>
    kv_sum order_escrow (sp_orders s') = kv_sum order_escrow (sp_orders s)"
proof -
  from sp_reachable_ok [OF assms(1)] have ok: "sp_ok env h s" by blast
  have h: "uint (to_u64 (h + 1)) = h + 1" using sp_height [OF assms(1)] assms(2) by (simp add: uint_height)
  let ?s = "process_bounty_expiry (to_u64 (h + 1)) s"
  have "get_bounty_order ?s = (\<lambda>k. map_option (\<lambda>bo. if bo_status bo = BOUNTY_STATUS_ACTIVE \<and> uint (bo_end bo) \<le> h + 1
      then bo\<lparr>bo_status := BOUNTY_STATUS_EXPIRED\<rparr> else bo) (get_bounty_order s k))"
    by (rule ext) (simp add: sweep_effect(2) [OF ok] swept_def [abs_def] u64_le h)
  moreover have "sp_fulfillments ?s = sp_fulfillments s" "sp_bank ?s = sp_bank s"
    using sweep_frame [of "to_u64 (h + 1)" "get_all_bounty_orders s" s] by (simp_all add: process_bounty_expiry_def)
  ultimately show ?thesis
    by (intro exI [of _ ?s]) (simp add: sp_begin_block_def sweep_simulates(2) [OF ok])
qed

lemma sp_sweep_is_exact_witness:
  "\<exists>s'. sp_begin_block 7 spd_s2 = Done s' () \<and> sp_bank s' = sp_bank spd_s2"
  using sp_sweep_is_exact [OF spd_reachable(4)] by auto

lemma sp_refines_pledges_parts:
  assumes "sp_reachable env h s" "sp_admissible env s m" "sp_handle env h m s = Done s' u"
  shows "\<exists>d. pledge_step (sp_abs s) d (sp_abs s') \<and>
      kv_sum order_escrow (sp_orders s') = kv_sum order_escrow (sp_orders s) + d"
    and "pledge_step (sp_abs s) 0 (sp_abs (process_bounty_expiry c s))"
  using sp_reachable_ok [OF assms(1)] sp_handle_simulates [OF _ _ assms(2,3)] sweep_simulates(1) by blast+

text \<open>
  C28: The module refines the abstract pledge machine: every accepted message and every block hook, from
  any reachable state, is one step of it, and the total escrow moves by exactly what that step says.
\<close>

theorem sp_refines_pledges:
  assumes "sp_reachable env h s" "sp_admissible env s m" "sp_handle env h m s = Done s' u"
  shows "(\<exists>d. pledge_step (sp_abs s) d (sp_abs s') \<and>
      kv_sum order_escrow (sp_orders s') = kv_sum order_escrow (sp_orders s) + d) \<and>
    (pledge_step (sp_abs s) 0 (sp_abs (process_bounty_expiry c s)))"
  using sp_refines_pledges_parts [OF assms] by blast

lemma sp_refines_pledges_witness:
  "\<exists>d. pledge_step (sp_abs spd_s1) d (sp_abs spd_s2) \<and>
    kv_sum order_escrow (sp_orders spd_s2) = kv_sum order_escrow (sp_orders spd_s1) + d"
proof -
  have "sp_handle ledger_sdk 6 (MsgFulfillBounty spd_fulfill) spd_s1 = Done spd_s2 ()" by code_simp
  from sp_refines_pledges [OF spd_reachable(3) _ this] show ?thesis by simp
qed

lemma sp_genesis_round_trip_parts:
  fixes s t :: "'b sp_state"
  assumes "sp_reachable env h s" "next_counter s \<noteq> 0" "validate_sp_params (get_sp_params s)"
    and "sp_orders t = []" "sp_fulfillments t = []" "sp_facts t = sp_facts s" "sp_bank t = sp_bank s"
  shows "validate_sp_genesis (export_sp_genesis s)"
    and "init_sp_genesis (export_sp_genesis s) t =
      s\<lparr>sp_params_record := Some (get_sp_params s), sp_counter := Some (next_counter s - 1)\<rparr>"
proof -
  from sp_reachable_ok [OF assms(1)] have ok: "sp_ok env h s" by blast
  note D = sp_okD [OF ok]
  show "validate_sp_genesis (export_sp_genesis s)"
    using assms(3) sp_orders_snapshot(1) [OF ok] kv_ok_distinct [OF D(1)]
    by (simp add: validate_sp_genesis_def export_sp_genesis_def)
  have orders: "fold set_bounty_order bos x = x\<lparr>sp_orders := fold (\<lambda>v m. kv_set (bo_id v) v m) bos (sp_orders x)\<rparr>"
    for bos and x :: "'b sp_state" by (induction bos arbitrary: x) (simp_all add: set_bounty_order_def)
  have fuls: "fold set_fulfillment fs x = x\<lparr>sp_fulfillments :=
      fold (\<lambda>v m. kv_set (fulfillment_key (bf_bounty_id v) (bf_fact_id v)) v m) fs (sp_fulfillments x)\<rparr>"
    for fs and x :: "'b sp_state" by (induction fs arbitrary: x) (simp_all add: set_fulfillment_def)
  have 1: "fold (\<lambda>v m. kv_set (bo_id v) v m) (get_all_bounty_orders s) [] = sp_orders s"
    unfolding get_all_bounty_orders_def
    by (rule rebuild_store [where key = bo_id, OF D(1)]) (use D(3) in \<open>simp add: get_bounty_order_def order_ok_def\<close>)
  have 2: "fold (\<lambda>v m. kv_set (fulfillment_key (bf_bounty_id v) (bf_fact_id v)) v m) (get_all_fulfillments s) [] = sp_fulfillments s"
    unfolding get_all_fulfillments_def
    by (rule rebuild_store [where key = "\<lambda>v. fulfillment_key (bf_bounty_id v) (bf_fact_id v)", OF D(2)])
      (use D(6) in \<open>simp add: fulfillment_ok_def\<close>)
  have 3: "peek_next_bounty_id s = next_counter s"
    by (simp add: peek_next_bounty_id_def next_counter_def split: option.splits)
  show "init_sp_genesis (export_sp_genesis s) t =
      s\<lparr>sp_params_record := Some (get_sp_params s), sp_counter := Some (next_counter s - 1)\<rparr>"
    using assms(2,4-7) by (simp add: init_sp_genesis_def export_sp_genesis_def Let_def orders fuls set_sp_params_def 1 2 3 word_gt_0)
qed

text \<open>
  C29: Exporting a reachable module and importing the result into an empty store rebuilds it: the same
  bounties and payments, the same next identifier and parameters, and the exported document validates.
\<close>

theorem sp_genesis_round_trip:
  fixes s t :: "'b sp_state"
  assumes "sp_reachable env h s" "next_counter s \<noteq> 0" "validate_sp_params (get_sp_params s)"
    and "sp_orders t = []" "sp_fulfillments t = []" "sp_facts t = sp_facts s" "sp_bank t = sp_bank s"
  shows "(validate_sp_genesis (export_sp_genesis s)) \<and>
    (init_sp_genesis (export_sp_genesis s) t =
      s\<lparr>sp_params_record := Some (get_sp_params s), sp_counter := Some (next_counter s - 1)\<rparr>)"
  using sp_genesis_round_trip_parts [OF assms] by blast

lemma sp_genesis_round_trip_witness:
  "init_sp_genesis (export_sp_genesis spd_s2) (spd_s2\<lparr>sp_orders := [], sp_fulfillments := [], sp_counter := None\<rparr>) =
    spd_s2\<lparr>sp_params_record := Some default_sp_params, sp_counter := Some 1\<rparr>"
proof -
  have c: "next_counter spd_s2 \<noteq> 0" "next_counter spd_s2 - 1 = 1" "get_sp_params spd_s2 = default_sp_params"
    "validate_sp_params (get_sp_params spd_s2)" by code_simp+
  show ?thesis using sp_genesis_round_trip [OF spd_reachable(4) c(1,4)] c(2,3) by simp
qed

end
