(* ===== verification/Rate_Limit.thy ===== *)
theory Rate_Limit
  imports Go_Text Chain
begin

text \<open>
  x/ibcratelimit: per channel and denom, a cap on what leaves and enters the chain within a window of
  blocks (types/types.go, keeper/{state,quota,keeper,msg_server,grpc_query}.go, the middleware of
  ibc_middleware.go and the block hook of module.go).

  The IBC stack around the middleware is a parameter \<open>ibc\<close>: the JSON decoder of the packet data, the
  channel below, the transfer application above and the acknowledgement decoder.  Its own state is the
  field \<open>rl_ibc\<close>.  The middleware's pure pass-through callbacks (handshakes, \<open>WriteAcknowledgement\<close>,
  \<open>GetAppVersion\<close>) touch no state of the module and are left out.
\<close>

section \<open>Types\<close>

datatype rl_error =
    SendRateExceeded | RecvRateExceeded | RateLimitNotFound | RlUnauthorized | RlInvalid | RlExists | RlIbcError string

record rate_limit =
  rl_channel :: string
  rl_denom :: string
  rl_max_send :: string
  rl_max_recv :: string
  rl_window_blocks :: u64
  rl_current_send :: string
  rl_current_recv :: string
  rl_window_start :: u64

record packet_flow =
  pf_channel :: string
  pf_sequence :: u64
  pf_denom :: string
  pf_amount :: string

record packet =
  pk_source_port :: string
  pk_source_channel :: string
  pk_dest_channel :: string
  pk_sequence :: u64
  pk_data :: string

text \<open>\<open>Params\<close> has the one field \<open>Enabled\<close>, so a record of parameters is a truth value.\<close>

definition default_rl_params :: bool where
  "default_rl_params = True"

definition validate_rate_limit :: "rate_limit \<Rightarrow> bool" where
  "validate_rate_limit rl \<longleftrightarrow>
     rl_channel rl \<noteq> [] \<and> rl_denom rl \<noteq> [] \<and> positive_int (rl_max_send rl) \<noteq> None \<and>
     positive_int (rl_max_recv rl) \<noteq> None \<and> rl_window_blocks rl \<noteq> 0"

section \<open>Store\<close>

record 'c rl_state =
  rl_params_record :: "bool option"
  rl_limits :: "(string, rate_limit) kv"
  rl_flows :: "(string \<times> u64, packet_flow) kv"
  rl_ibc :: 'c

type_synonym ('c, 'a) rl_outcome = "('c rl_state, rl_error, 'a) outcome"

definition get_rl_params :: "'c rl_state \<Rightarrow> bool" where
  "get_rl_params s = (case rl_params_record s of None \<Rightarrow> default_rl_params | Some p \<Rightarrow> p)"

definition set_rl_params :: "bool \<Rightarrow> 'c rl_state \<Rightarrow> 'c rl_state" where
  "set_rl_params p s = s\<lparr>rl_params_record := Some p\<rparr>"

definition rate_limit_key :: "string \<Rightarrow> string \<Rightarrow> string" where
  "rate_limit_key channel denom = channel @ [CHR 0x00] @ denom"

definition set_rate_limit :: "rate_limit \<Rightarrow> 'c rl_state \<Rightarrow> 'c rl_state" where
  "set_rate_limit rl s = s\<lparr>rl_limits := kv_set (rate_limit_key (rl_channel rl) (rl_denom rl)) rl (rl_limits s)\<rparr>"

definition get_rate_limit :: "'c rl_state \<Rightarrow> string \<Rightarrow> string \<Rightarrow> rate_limit option" where
  "get_rate_limit s channel denom = kv_get (rl_limits s) (rate_limit_key channel denom)"

definition delete_rate_limit :: "string \<Rightarrow> string \<Rightarrow> 'c rl_state \<Rightarrow> 'c rl_state" where
  "delete_rate_limit channel denom s = s\<lparr>rl_limits := kv_del (rate_limit_key channel denom) (rl_limits s)\<rparr>"

definition get_all_rate_limits :: "'c rl_state \<Rightarrow> rate_limit list" where
  "get_all_rate_limits s = map snd (rl_limits s)"

text \<open>
  The key of a flow is the channel, a zero byte and the eight bytes of the sequence.  The last eight
  bytes give the sequence back, so the pair is the same key; flows are never iterated.
\<close>

definition set_packet_flow :: "packet_flow \<Rightarrow> 'c rl_state \<Rightarrow> 'c rl_state" where
  "set_packet_flow f s = s\<lparr>rl_flows := kv_set (pf_channel f, pf_sequence f) f (rl_flows s)\<rparr>"

definition get_packet_flow :: "'c rl_state \<Rightarrow> string \<Rightarrow> u64 \<Rightarrow> packet_flow option" where
  "get_packet_flow s channel sequence = kv_get (rl_flows s) (channel, sequence)"

definition delete_packet_flow :: "string \<Rightarrow> u64 \<Rightarrow> 'c rl_state \<Rightarrow> 'c rl_state" where
  "delete_packet_flow channel sequence s = s\<lparr>rl_flows := kv_del (channel, sequence) (rl_flows s)\<rparr>"

section \<open>Quotas\<close>

definition window_expired :: "u64 \<Rightarrow> rate_limit \<Rightarrow> bool" where
  "window_expired height rl \<longleftrightarrow> rl_window_start rl + rl_window_blocks rl \<le> height"

definition reset_window :: "u64 \<Rightarrow> rate_limit \<Rightarrow> rate_limit" where
  "reset_window height rl = rl\<lparr>rl_current_send := ''0'', rl_current_recv := ''0'', rl_window_start := height\<rparr>"

definition maybe_reset_window :: "int \<Rightarrow> rate_limit \<Rightarrow> rate_limit" where
  "maybe_reset_window height rl =
     (if window_expired (to_u64 height) rl then reset_window (to_u64 height) rl else rl)"

definition check_and_update_send_quota ::
  "int \<Rightarrow> string \<Rightarrow> string \<Rightarrow> int \<Rightarrow> 'c rl_state \<Rightarrow> ('c, unit) rl_outcome" where
  "check_and_update_send_quota height channel denom amount s =
     (if \<not> get_rl_params s then Done s ()
      else case get_rate_limit s channel denom of
        None \<Rightarrow> Done s ()
      | Some rl0 \<Rightarrow>
          let rl = maybe_reset_window height rl0;
              current = (if rl_current_send rl \<noteq> [] then int_or_zero (rl_current_send rl) else 0);
              max_send = int_or_zero (rl_max_send rl);
              new_send = current + amount
          in if max_send < new_send then Fail s SendRateExceeded
             else Done (set_rate_limit (rl\<lparr>rl_current_send := big_string new_send\<rparr>) s) ())"

definition check_and_update_recv_quota ::
  "int \<Rightarrow> string \<Rightarrow> string \<Rightarrow> int \<Rightarrow> 'c rl_state \<Rightarrow> ('c, unit) rl_outcome" where
  "check_and_update_recv_quota height channel denom amount s =
     (if \<not> get_rl_params s then Done s ()
      else case get_rate_limit s channel denom of
        None \<Rightarrow> Done s ()
      | Some rl0 \<Rightarrow>
          let rl = maybe_reset_window height rl0;
              current = (if rl_current_recv rl \<noteq> [] then int_or_zero (rl_current_recv rl) else 0);
              max_recv = int_or_zero (rl_max_recv rl);
              new_recv = current + amount
          in if max_recv < new_recv then Fail s RecvRateExceeded
             else Done (set_rate_limit (rl\<lparr>rl_current_recv := big_string new_recv\<rparr>) s) ())"

definition reverse_send_quota :: "string \<Rightarrow> string \<Rightarrow> int \<Rightarrow> 'c rl_state \<Rightarrow> 'c rl_state" where
  "reverse_send_quota channel denom amount s =
     (case get_rate_limit s channel denom of
        None \<Rightarrow> s
      | Some rl \<Rightarrow>
          let current = (if rl_current_send rl \<noteq> [] then int_or_zero (rl_current_send rl) else 0);
              new_send = (if current - amount < 0 then 0 else current - amount)
          in set_rate_limit (rl\<lparr>rl_current_send := big_string new_send\<rparr>) s)"

definition reset_expired_windows :: "int \<Rightarrow> 'c rl_state \<Rightarrow> 'c rl_state" where
  "reset_expired_windows height s =
     fold (\<lambda>rl s. if window_expired (to_u64 height) rl then set_rate_limit (reset_window (to_u64 height) rl) s else s)
       (get_all_rate_limits s) s"

definition rl_begin_block :: "int \<Rightarrow> 'c rl_state \<Rightarrow> ('c, unit) rl_outcome" where
  "rl_begin_block height s = Done (reset_expired_windows height s) ()"

section \<open>Middleware\<close>

record ('c, 'k) ibc =
  ibc_decode :: "string \<Rightarrow> (string \<times> string) option"     \<comment> \<open>denom and amount of \<open>FungibleTokenPacketData\<close>\<close>
  ibc_send :: "string \<times> string \<times> (u64 \<times> u64) \<times> u64 \<times> string \<Rightarrow> 'c \<Rightarrow> ('c, string, u64) outcome"
  ibc_recv :: "packet \<Rightarrow> 'c \<Rightarrow> 'c \<times> 'k"
  ibc_error_ack :: "rl_error \<Rightarrow> 'k"                        \<comment> \<open>\<open>NewErrorAcknowledgement\<close>\<close>
  ibc_ack_success :: "'k \<Rightarrow> bool"
  ibc_ack_is_error :: "string \<Rightarrow> bool"                     \<comment> \<open>the bytes decode and hold an error\<close>
  ibc_app_ack :: "packet \<Rightarrow> string \<Rightarrow> 'c \<Rightarrow> ('c, string, unit) outcome"
  ibc_app_timeout :: "packet \<Rightarrow> 'c \<Rightarrow> ('c, string, unit) outcome"

definition on_ibc :: "('c \<Rightarrow> ('c, string, 'a) outcome) \<Rightarrow> 'c rl_state \<Rightarrow> ('c, 'a) rl_outcome" where
  "on_ibc f s = (case f (rl_ibc s) of
     Done c a \<Rightarrow> Done (s\<lparr>rl_ibc := c\<rparr>) a | Fail c e \<Rightarrow> Fail (s\<lparr>rl_ibc := c\<rparr>) (RlIbcError e))"

text \<open>The transfer a packet carries, when it is one the quotas apply to.\<close>

definition packet_transfer :: "('c, 'k) ibc \<Rightarrow> string \<Rightarrow> (string \<times> int) option" where
  "packet_transfer ibc data = (case ibc_decode ibc data of
     None \<Rightarrow> None
   | Some (denom, text) \<Rightarrow> map_option (\<lambda>amount. (denom, amount)) (positive_int text))"

record send_args =
  sa_port :: string
  sa_channel :: string
  sa_timeout_height :: "u64 \<times> u64"
  sa_timeout_time :: u64
  sa_data :: string

definition channel_send :: "('c, 'k) ibc \<Rightarrow> send_args \<Rightarrow> 'c rl_state \<Rightarrow> ('c, u64) rl_outcome" where
  "channel_send ibc a s =
     on_ibc (ibc_send ibc (sa_port a, sa_channel a, sa_timeout_height a, sa_timeout_time a, sa_data a)) s"

definition send_packet :: "('c, 'k) ibc \<Rightarrow> int \<Rightarrow> send_args \<Rightarrow> 'c rl_state \<Rightarrow> ('c, u64) rl_outcome" where
  "send_packet ibc height a s =
     (case packet_transfer ibc (sa_data a) of
        None \<Rightarrow> channel_send ibc a s
      | Some (denom, amount) \<Rightarrow>
          and_then (check_and_update_send_quota height (sa_channel a) denom amount s) (\<lambda>s _.
          case channel_send ibc a s of
            Fail s e \<Rightarrow> Fail (reverse_send_quota (sa_channel a) denom amount s) e
          | Done s sequence \<Rightarrow>
              Done (set_packet_flow \<lparr>pf_channel = sa_channel a, pf_sequence = sequence, pf_denom = denom,
                pf_amount = big_string amount\<rparr> s) sequence))"

definition app_recv :: "('c, 'k) ibc \<Rightarrow> packet \<Rightarrow> 'c rl_state \<Rightarrow> 'c rl_state \<times> 'k" where
  "app_recv ibc p s = (case ibc_recv ibc p (rl_ibc s) of (c, ack) \<Rightarrow> (s\<lparr>rl_ibc := c\<rparr>, ack))"

definition on_recv_packet :: "('c, 'k) ibc \<Rightarrow> int \<Rightarrow> packet \<Rightarrow> 'c rl_state \<Rightarrow> 'c rl_state \<times> 'k" where
  "on_recv_packet ibc height p s =
     (case packet_transfer ibc (pk_data p) of
        None \<Rightarrow> app_recv ibc p s
      | Some (denom, amount) \<Rightarrow>
          (case check_and_update_recv_quota height (pk_dest_channel p) denom amount s of
             Fail s e \<Rightarrow> (s, ibc_error_ack ibc e)
           | Done s u \<Rightarrow> app_recv ibc p s))"

definition reverse_packet_flow :: "string \<Rightarrow> u64 \<Rightarrow> 'c rl_state \<Rightarrow> 'c rl_state" where
  "reverse_packet_flow channel sequence s =
     (case get_packet_flow s channel sequence of
        None \<Rightarrow> s
      | Some f \<Rightarrow> reverse_send_quota (pf_channel f) (pf_denom f) (int_or_zero (pf_amount f)) s)"

definition on_acknowledgement_packet ::
  "('c, 'k) ibc \<Rightarrow> packet \<Rightarrow> string \<Rightarrow> 'c rl_state \<Rightarrow> ('c, unit) rl_outcome" where
  "on_acknowledgement_packet ibc p ack s =
     (let s1 = (if ibc_ack_is_error ibc ack then reverse_packet_flow (pk_source_channel p) (pk_sequence p) s else s);
          s2 = delete_packet_flow (pk_source_channel p) (pk_sequence p) s1
      in on_ibc (ibc_app_ack ibc p ack) s2)"

definition on_timeout_packet :: "('c, 'k) ibc \<Rightarrow> packet \<Rightarrow> 'c rl_state \<Rightarrow> ('c, unit) rl_outcome" where
  "on_timeout_packet ibc p s =
     (let s1 = reverse_packet_flow (pk_source_channel p) (pk_sequence p) s;
          s2 = delete_packet_flow (pk_source_channel p) (pk_sequence p) s1
      in on_ibc (ibc_app_timeout ibc p) s2)"

section \<open>Governance messages\<close>

record msg_add_rate_limit =
  ar_authority :: string
  ar_channel :: string
  ar_denom :: string
  ar_max_send :: string
  ar_max_recv :: string
  ar_window_blocks :: u64

record msg_remove_rate_limit =
  rr_authority :: string
  rr_channel :: string
  rr_denom :: string

definition validate_add_rate_limit :: "msg_add_rate_limit \<Rightarrow> bool" where
  "validate_add_rate_limit m \<longleftrightarrow>
     ar_authority m \<noteq> [] \<and> ar_channel m \<noteq> [] \<and> ar_denom m \<noteq> [] \<and> positive_int (ar_max_send m) \<noteq> None \<and>
     positive_int (ar_max_recv m) \<noteq> None \<and> ar_window_blocks m \<noteq> 0"

definition validate_remove_rate_limit :: "msg_remove_rate_limit \<Rightarrow> bool" where
  "validate_remove_rate_limit m \<longleftrightarrow> rr_authority m \<noteq> [] \<and> rr_channel m \<noteq> [] \<and> rr_denom m \<noteq> []"

definition add_rate_limit :: "string \<Rightarrow> msg_add_rate_limit \<Rightarrow> 'c rl_state \<Rightarrow> ('c, unit) rl_outcome" where
  "add_rate_limit authority m s =
     (if ar_authority m \<noteq> authority then Fail s RlUnauthorized
      else if \<not> validate_add_rate_limit m then Fail s RlInvalid
      else if get_rate_limit s (ar_channel m) (ar_denom m) \<noteq> None then Fail s RlExists
      else Done (set_rate_limit \<lparr>rl_channel = ar_channel m, rl_denom = ar_denom m, rl_max_send = ar_max_send m,
             rl_max_recv = ar_max_recv m, rl_window_blocks = ar_window_blocks m, rl_current_send = ''0'',
             rl_current_recv = ''0'', rl_window_start = 0\<rparr> s) ())"

definition remove_rate_limit :: "string \<Rightarrow> msg_remove_rate_limit \<Rightarrow> 'c rl_state \<Rightarrow> ('c, unit) rl_outcome" where
  "remove_rate_limit authority m s =
     (if rr_authority m \<noteq> authority then Fail s RlUnauthorized
      else if \<not> validate_remove_rate_limit m then Fail s RlInvalid
      else if get_rate_limit s (rr_channel m) (rr_denom m) = None then Fail s RateLimitNotFound
      else Done (delete_rate_limit (rr_channel m) (rr_denom m) s) ())"

text \<open>\<open>UpdateParams\<close>: the message holds the authority and, when not nil, the parameters.\<close>

definition update_rl_params :: "string \<Rightarrow> string \<times> bool option \<Rightarrow> 'c rl_state \<Rightarrow> ('c, unit) rl_outcome" where
  "update_rl_params authority m s =
     (if fst m \<noteq> authority then Fail s RlUnauthorized
      else if fst m = [] then Fail s RlInvalid
      else case snd m of None \<Rightarrow> Fail s RlInvalid | Some p \<Rightarrow> Done (set_rl_params p s) ())"

section \<open>Genesis and queries\<close>

record rl_genesis =
  rlg_params :: "bool option"
  rlg_limits :: "rate_limit list"

definition default_rl_genesis :: rl_genesis where
  "default_rl_genesis = \<lparr>rlg_params = Some default_rl_params, rlg_limits = []\<rparr>"

definition validate_rl_genesis :: "rl_genesis \<Rightarrow> bool" where
  "validate_rl_genesis gs \<longleftrightarrow> rlg_params gs \<noteq> None \<and> list_all validate_rate_limit (rlg_limits gs)"

definition init_rl_genesis :: "rl_genesis \<Rightarrow> 'c rl_state \<Rightarrow> 'c rl_state" where
  "init_rl_genesis gs s =
     fold set_rate_limit (rlg_limits gs)
       (set_rl_params (case rlg_params gs of None \<Rightarrow> default_rl_params | Some p \<Rightarrow> p) s)"

definition export_rl_genesis :: "'c rl_state \<Rightarrow> rl_genesis" where
  "export_rl_genesis s = \<lparr>rlg_params = Some (get_rl_params s), rlg_limits = get_all_rate_limits s\<rparr>"

definition query_rate_limit :: "'c rl_state \<Rightarrow> string \<Rightarrow> string \<Rightarrow> rl_error + rate_limit" where
  "query_rate_limit s channel denom =
     (if channel = [] \<or> denom = [] then Inl RlInvalid
      else of_option RateLimitNotFound (get_rate_limit s channel denom))"

definition query_rate_limits :: "'c rl_state \<Rightarrow> rate_limit list" where
  "query_rate_limits s = get_all_rate_limits s"

section \<open>What reaches the module\<close>

text \<open>
  Packet callbacks and messages are calls of the module.  A received packet runs on a cache that
  ibc-go's core writes back only for a successful acknowledgement.
\<close>

datatype rl_msg =
    SendPacket send_args | RecvPacket packet | AckPacket packet string | TimeoutPacket packet
  | MsgAddRateLimit msg_add_rate_limit | MsgRemoveRateLimit msg_remove_rate_limit | MsgUpdateRlParams "string \<times> bool option"

fun rl_handle :: "('c, 'k) ibc \<Rightarrow> string \<Rightarrow> int \<Rightarrow> rl_msg \<Rightarrow> 'c rl_state \<Rightarrow> ('c, unit) rl_outcome" where
  "rl_handle ibc authority height (SendPacket a) s = discard (send_packet ibc height a s)"
| "rl_handle ibc authority height (RecvPacket p) s =
     (case on_recv_packet ibc height p s of (s', ack) \<Rightarrow>
        if ibc_ack_success ibc ack then Done s' () else Fail s' (RlIbcError ''error acknowledgement''))"
| "rl_handle ibc authority height (AckPacket p ack) s = on_acknowledgement_packet ibc p ack s"
| "rl_handle ibc authority height (TimeoutPacket p) s = on_timeout_packet ibc p s"
| "rl_handle ibc authority height (MsgAddRateLimit m) s = add_rate_limit authority m s"
| "rl_handle ibc authority height (MsgRemoveRateLimit m) s = remove_rate_limit authority m s"
| "rl_handle ibc authority height (MsgUpdateRlParams m) s = update_rl_params authority m s"

end
