(* ===== verification/Rate_Limit_Inv.thy ===== *)
theory Rate_Limit_Inv
  imports Rate_Limit
begin

text \<open>
  The quotas of x/ibcratelimit against a meter that is not part of the program: \<open>gauge\<close> adds up, per
  channel and denom, what was sent and what was refunded since the window began.  The module together
  with its meter is an instance of \<open>live_module\<close>, so its invariant holds in every reachable state.
\<close>

section \<open>The meter\<close>

record gauge =
  g_sent :: int
  g_refunded :: int

type_synonym meter = "string \<Rightarrow> gauge"

definition fresh_gauge :: gauge where
  "fresh_gauge = \<lparr>g_sent = 0, g_refunded = 0\<rparr>"

text \<open>A new window starts a new count.\<close>

definition roll :: "int \<Rightarrow> 'c rl_state \<Rightarrow> string \<Rightarrow> meter \<Rightarrow> meter" where
  "roll h s k g = (case kv_get (rl_limits s) k of None \<Rightarrow> g
     | Some rl \<Rightarrow> if window_expired (to_u64 h) rl then g(k := fresh_gauge) else g)"

definition count_sent :: "string \<Rightarrow> int \<Rightarrow> meter \<Rightarrow> meter" where
  "count_sent k x g = g(k := g k\<lparr>g_sent := g_sent (g k) + x\<rparr>)"

definition count_refund :: "string \<Rightarrow> int \<Rightarrow> meter \<Rightarrow> meter" where
  "count_refund k x g = g(k := g k\<lparr>g_refunded := g_refunded (g k) + x\<rparr>)"

definition meter_refund :: "string \<Rightarrow> u64 \<Rightarrow> 'c rl_state \<Rightarrow> meter \<Rightarrow> meter" where
  "meter_refund c q s g = (case get_packet_flow s c q of None \<Rightarrow> g
     | Some f \<Rightarrow> count_refund (rate_limit_key (pf_channel f) (pf_denom f)) (int_or_zero (pf_amount f)) g)"

fun meter_step :: "('c, 'k) ibc \<Rightarrow> int \<Rightarrow> rl_msg \<Rightarrow> 'c rl_state \<Rightarrow> meter \<Rightarrow> meter" where
  "meter_step ibc h (SendPacket a) s g =
     (case packet_transfer ibc (sa_data a) of None \<Rightarrow> g
      | Some (d, x) \<Rightarrow> if get_rl_params s
          then count_sent (rate_limit_key (sa_channel a) d) x (roll h s (rate_limit_key (sa_channel a) d) g) else g)"
| "meter_step ibc h (RecvPacket p) s g =
     (case packet_transfer ibc (pk_data p) of None \<Rightarrow> g
      | Some (d, x) \<Rightarrow> if get_rl_params s then roll h s (rate_limit_key (pk_dest_channel p) d) g else g)"
| "meter_step ibc h (AckPacket p ack) s g =
     (if ibc_ack_is_error ibc ack then meter_refund (pk_source_channel p) (pk_sequence p) s g else g)"
| "meter_step ibc h (TimeoutPacket p) s g = meter_refund (pk_source_channel p) (pk_sequence p) s g"
| "meter_step ibc h (MsgAddRateLimit m) s g = g(rate_limit_key (ar_channel m) (ar_denom m) := fresh_gauge)"
| "meter_step ibc h (MsgRemoveRateLimit m) s g = g"
| "meter_step ibc h (MsgUpdateRlParams m) s g = g"

type_synonym 'c metered = "'c rl_state \<times> meter"

definition metered_handle ::
  "('c, 'k) ibc \<Rightarrow> string \<Rightarrow> int \<Rightarrow> rl_msg \<Rightarrow> 'c metered \<Rightarrow> ('c metered, rl_error, unit) outcome" where
  "metered_handle ibc authority h m sg =
     (case rl_handle ibc authority h m (fst sg) of
        Fail s e \<Rightarrow> Fail (s, snd sg) e
      | Done s u \<Rightarrow> Done (s, meter_step ibc h m (fst sg) (snd sg)) ())"

definition metered_begin_block :: "int \<Rightarrow> 'c metered \<Rightarrow> ('c metered, rl_error, unit) outcome" where
  "metered_begin_block h sg =
     (case rl_begin_block h (fst sg) of
        Fail s e \<Rightarrow> Fail (s, snd sg) e
      | Done s u \<Rightarrow> Done (s, \<lambda>k. roll h (fst sg) k (snd sg) k) ())"

section \<open>The invariant\<close>

text \<open>One limit: counters within the caps, and a window whose end does not wrap.\<close>

definition limit_ok :: "int \<Rightarrow> string \<Rightarrow> rate_limit \<Rightarrow> bool" where
  "limit_ok h k rl \<longleftrightarrow>
     k = rate_limit_key (rl_channel rl) (rl_denom rl) \<and> validate_rate_limit rl \<and>
     uint (rl_window_start rl) \<le> h \<and> (rl_window_start rl = 0 \<or> rl_window_blocks rl \<le> rl_window_start rl) \<and>
     (\<exists>x. rl_current_send rl = big_string x \<and> 0 \<le> x \<and> x \<le> int_or_zero (rl_max_send rl)) \<and>
     (\<exists>x. rl_current_recv rl = big_string x \<and> 0 \<le> x \<and> x \<le> int_or_zero (rl_max_recv rl))"

definition gauge_le :: "gauge \<Rightarrow> rate_limit \<Rightarrow> bool" where
  "gauge_le g rl \<longleftrightarrow> g_sent g - g_refunded g \<le> int_or_zero (rl_current_send rl)"

definition flow_ok :: "string \<times> u64 \<Rightarrow> packet_flow \<Rightarrow> bool" where
  "flow_ok k f \<longleftrightarrow> k = (pf_channel f, pf_sequence f) \<and> (\<exists>x. pf_amount f = big_string x \<and> 0 < x)"

definition metered_ok :: "int \<Rightarrow> 'c metered \<Rightarrow> bool" where
  "metered_ok h sg \<longleftrightarrow>
     kv_ok (rl_limits (fst sg)) \<and>
     (\<forall>k rl. kv_get (rl_limits (fst sg)) k = Some rl \<longrightarrow> limit_ok h k rl \<and> gauge_le (snd sg k) rl) \<and>
     (\<forall>k f. kv_get (rl_flows (fst sg)) k = Some f \<longrightarrow> flow_ok k f)"

lemma metered_okD:
  assumes "metered_ok h (s, g)"
  shows "kv_ok (rl_limits s)"
    and "kv_get (rl_limits s) k = Some rl \<Longrightarrow> limit_ok h k rl \<and> gauge_le (g k) rl"
    and "kv_get (rl_flows s) j = Some f \<Longrightarrow> flow_ok j f"
  using assms unfolding metered_ok_def fst_conv snd_conv by blast+

lemma limit_ok_send:
  "limit_ok h k rl \<Longrightarrow> rl_current_send rl \<noteq> [] \<and> 0 \<le> int_or_zero (rl_current_send rl) \<and>
     int_or_zero (rl_current_send rl) \<le> int_or_zero (rl_max_send rl)"
  "limit_ok h k rl \<Longrightarrow> rl_current_recv rl \<noteq> [] \<and> 0 \<le> int_or_zero (rl_current_recv rl) \<and>
     int_or_zero (rl_current_recv rl) \<le> int_or_zero (rl_max_recv rl)"
  unfolding limit_ok_def by (metis int_or_zero_string big_string_not_Nil)+

lemma limit_ok_max:
  assumes "limit_ok h k rl"
  shows "0 < int_or_zero (rl_max_send rl)" "0 < int_or_zero (rl_max_recv rl)"
  using assms by (auto simp: limit_ok_def validate_rate_limit_def positive_int_Some int_or_zero_Some)

lemma limit_ok_later: "limit_ok h k rl \<Longrightarrow> h \<le> h' \<Longrightarrow> limit_ok h' k rl"
  by (auto simp: limit_ok_def)

lemma window_end_no_wrap:
  assumes "limit_ok h k rl" "h < 2 ^ 63"
  shows "uint (rl_window_start rl + rl_window_blocks rl) = uint (rl_window_start rl) + uint (rl_window_blocks rl)"
proof (cases "rl_window_start rl = 0")
  case True
  then show ?thesis by simp
next
  case False
  with assms have "uint (rl_window_blocks rl) \<le> uint (rl_window_start rl)" "uint (rl_window_start rl) \<le> h"
    by (auto simp: limit_ok_def u64_le)
  with assms(2) show ?thesis by (simp add: u64_add_no_wrap)
qed

lemma window_expired_iff:
  assumes "limit_ok h k rl" "h < 2 ^ 63" "0 \<le> h'" "h' < 2 ^ 63"
  shows "window_expired (to_u64 h') rl \<longleftrightarrow> uint (rl_window_start rl) + uint (rl_window_blocks rl) \<le> h'"
  using assms(3,4) window_end_no_wrap [OF assms(1,2)] by (simp add: window_expired_def u64_le uint_to_u64)

lemma zero_text: "''0'' = big_string 0"
  by code_simp

lemma reset_window_ok:
  assumes ok: "limit_ok h k rl" and h: "h < 2 ^ 63" "0 \<le> h'" "h' < 2 ^ 63" and expired: "window_expired (to_u64 h') rl"
  shows "limit_ok h' k (reset_window (to_u64 h') rl)" "gauge_le fresh_gauge (reset_window (to_u64 h') rl)"
proof -
  have "uint (rl_window_start rl) + uint (rl_window_blocks rl) \<le> h'"
    using expired window_expired_iff [OF ok h] by simp
  then have "uint (rl_window_blocks rl) \<le> h'" using u64_bounds(1) [of "rl_window_start rl"] by linarith
  then show "limit_ok h' k (reset_window (to_u64 h') rl)"
    using ok limit_ok_max [OF ok] h
    by (auto simp: limit_ok_def reset_window_def validate_rate_limit_def zero_text u64_le uint_to_u64)
  show "gauge_le fresh_gauge (reset_window (to_u64 h') rl)"
    by (simp add: gauge_le_def fresh_gauge_def reset_window_def zero_text)
qed

lemma maybe_reset_ok:
  assumes ok: "limit_ok h k rl" "gauge_le (g k) rl" and h: "0 \<le> h" "h < 2 ^ 63" and get: "kv_get (rl_limits s) k = Some rl"
  shows "limit_ok h k (maybe_reset_window h rl)" "gauge_le (roll h s k g k) (maybe_reset_window h rl)"
  using ok reset_window_ok [OF ok(1) h(2) h] by (auto simp: maybe_reset_window_def roll_def get)

lemma roll_other: "j \<noteq> k \<Longrightarrow> roll h s k g j = g j"
  by (simp add: roll_def split: option.splits)

section \<open>Preservation\<close>

lemma rl_fields [simp]:
  "rl_limits (set_rate_limit rl s) = kv_set (rate_limit_key (rl_channel rl) (rl_denom rl)) rl (rl_limits s)"
  "rl_flows (set_rate_limit rl s) = rl_flows s" "rl_params_record (set_rate_limit rl s) = rl_params_record s"
  "rl_ibc (set_rate_limit rl s) = rl_ibc s"
  "rl_limits (delete_packet_flow c q s) = rl_limits s" "rl_flows (delete_packet_flow c q s) = kv_del (c, q) (rl_flows s)"
  "rl_limits (set_packet_flow f s) = rl_limits s"
  "rl_flows (set_packet_flow f s) = kv_set (pf_channel f, pf_sequence f) f (rl_flows s)"
  "rl_limits (set_rl_params p s) = rl_limits s" "rl_flows (set_rl_params p s) = rl_flows s"
  "rl_limits (delete_rate_limit c d s) = kv_del (rate_limit_key c d) (rl_limits s)"
  "rl_flows (delete_rate_limit c d s) = rl_flows s"
  by (simp_all add: set_rate_limit_def delete_packet_flow_def set_packet_flow_def set_rl_params_def delete_rate_limit_def)

lemma metered_set:
  assumes "metered_ok h (s, g)" "limit_ok h k rl" "gauge_le (g' k) rl" "\<And>j. j \<noteq> k \<Longrightarrow> g' j = g j"
  shows "metered_ok h (set_rate_limit rl s, g')"
  using assms by (auto simp: metered_ok_def limit_ok_def)

lemma metered_frame:
  "metered_ok h (s, g) \<Longrightarrow> metered_ok h (s\<lparr>rl_ibc := c\<rparr>, g)"
  "metered_ok h (s, g) \<Longrightarrow> metered_ok h (set_rl_params p s, g)"
  "metered_ok h (s, g) \<Longrightarrow> metered_ok h (delete_packet_flow ch q s, g)"
  "metered_ok h (s, g) \<Longrightarrow> flow_ok (pf_channel f, pf_sequence f) f \<Longrightarrow> metered_ok h (set_packet_flow f s, g)"
  "metered_ok h (s, g) \<Longrightarrow> metered_ok h (delete_rate_limit ch d s, g)"
  by (auto simp: metered_ok_def)

lemma metered_unlimited:
  assumes "metered_ok h (s, g)" "kv_get (rl_limits s) k = None" "\<And>j. j \<noteq> k \<Longrightarrow> g' j = g j"
  shows "metered_ok h (s, g')"
proof -
  have "g' j = g j" if "kv_get (rl_limits s) j = Some rl" for j rl
    using that assms(2,3) by (cases "j = k") auto
  with assms(1) show ?thesis by (simp add: metered_ok_def)
qed

lemma send_quota_ok:
  assumes ok: "metered_ok h (s, g)" and h: "0 \<le> h" "h < 2 ^ 63" and x: "0 \<le> x"
    and run: "check_and_update_send_quota h c d x s = Done s' u"
  defines "k \<equiv> rate_limit_key c d"
  shows "metered_ok h (s', if get_rl_params s then count_sent k x (roll h s k g) else g)"
proof (cases "get_rl_params s")
  case False
  with run ok show ?thesis by (simp add: check_and_update_send_quota_def)
next
  case on: True
  show ?thesis
  proof (cases "kv_get (rl_limits s) k")
    case None
    with run on have "s' = s" by (simp add: check_and_update_send_quota_def get_rate_limit_def k_def)
    moreover have "metered_ok h (s, count_sent k x (roll h s k g))"
      by (rule metered_unlimited [OF ok None]) (simp add: count_sent_def roll_other)
    ultimately show ?thesis using on by simp
  next
    case (Some rl0)
    let ?rl = "maybe_reset_window h rl0"
    let ?rl' = "?rl\<lparr>rl_current_send := big_string (int_or_zero (rl_current_send ?rl) + x)\<rparr>"
    from metered_okD(2) [OF ok Some] have l: "limit_ok h k rl0" "gauge_le (g k) rl0" by blast+
    note m = maybe_reset_ok [where g = g, OF l h Some]
    from run on Some limit_ok_send(1) [OF m(1)]
    have s': "s' = set_rate_limit ?rl' s" and le: "int_or_zero (rl_current_send ?rl) + x \<le> int_or_zero (rl_max_send ?rl)"
      by (auto simp: check_and_update_send_quota_def get_rate_limit_def k_def Let_def split: if_splits)
    have "limit_ok h k ?rl'"
      using m(1) le x limit_ok_send(1) [OF m(1)] by (auto simp: limit_ok_def validate_rate_limit_def)
    moreover have "gauge_le (count_sent k x (roll h s k g) k) ?rl'"
      using m(2) by (simp add: gauge_le_def count_sent_def)
    ultimately have "metered_ok h (s', count_sent k x (roll h s k g))"
      unfolding s' by (rule metered_set [OF ok]) (simp add: count_sent_def roll_other)
    with on show ?thesis by simp
  qed
qed

lemma recv_quota_ok:
  assumes ok: "metered_ok h (s, g)" and h: "0 \<le> h" "h < 2 ^ 63" and x: "0 \<le> x"
    and run: "check_and_update_recv_quota h c d x s = Done s' u"
  defines "k \<equiv> rate_limit_key c d"
  shows "metered_ok h (s', if get_rl_params s then roll h s k g else g)"
proof (cases "get_rl_params s")
  case False
  with run ok show ?thesis by (simp add: check_and_update_recv_quota_def)
next
  case on: True
  show ?thesis
  proof (cases "kv_get (rl_limits s) k")
    case None
    with run on have "s' = s" by (simp add: check_and_update_recv_quota_def get_rate_limit_def k_def)
    with ok on None show ?thesis by (simp add: roll_def)
  next
    case (Some rl0)
    let ?rl = "maybe_reset_window h rl0"
    let ?rl' = "?rl\<lparr>rl_current_recv := big_string (int_or_zero (rl_current_recv ?rl) + x)\<rparr>"
    from metered_okD(2) [OF ok Some] have l: "limit_ok h k rl0" "gauge_le (g k) rl0" by blast+
    note m = maybe_reset_ok [where g = g, OF l h Some]
    from run on Some limit_ok_send(2) [OF m(1)]
    have s': "s' = set_rate_limit ?rl' s" and le: "int_or_zero (rl_current_recv ?rl) + x \<le> int_or_zero (rl_max_recv ?rl)"
      by (auto simp: check_and_update_recv_quota_def get_rate_limit_def k_def Let_def split: if_splits)
    have "limit_ok h k ?rl'"
      using m(1) le x limit_ok_send(2) [OF m(1)] by (auto simp: limit_ok_def validate_rate_limit_def)
    moreover have "gauge_le (roll h s k g k) ?rl'" using m(2) by (simp add: gauge_le_def)
    ultimately have "metered_ok h (s', roll h s k g)"
      unfolding s' by (rule metered_set [OF ok]) (simp add: roll_other)
    with on show ?thesis by simp
  qed
qed

lemma reverse_quota_ok:
  assumes ok: "metered_ok h (s, g)" and x: "0 \<le> x"
  shows "metered_ok h (reverse_send_quota c d x s, count_refund (rate_limit_key c d) x g)"
proof (cases "kv_get (rl_limits s) (rate_limit_key c d)")
  case None
  then have "reverse_send_quota c d x s = s" by (simp add: reverse_send_quota_def get_rate_limit_def)
  moreover have "metered_ok h (s, count_refund (rate_limit_key c d) x g)"
    by (rule metered_unlimited [OF ok None]) (simp add: count_refund_def)
  ultimately show ?thesis by simp
next
  case (Some rl)
  let ?rl = "rl\<lparr>rl_current_send := big_string (max 0 (int_or_zero (rl_current_send rl) - x))\<rparr>"
  from metered_okD(2) [OF ok Some] have l: "limit_ok h (rate_limit_key c d) rl" "gauge_le (g (rate_limit_key c d)) rl"
    by blast+
  note c = limit_ok_send(1) [OF l(1)]
  have "reverse_send_quota c d x s = set_rate_limit ?rl s"
    using Some c by (simp add: reverse_send_quota_def get_rate_limit_def max_def)
  moreover have "limit_ok h (rate_limit_key c d) ?rl"
    using l(1) c x limit_ok_max(1) [OF l(1)] by (auto simp: limit_ok_def validate_rate_limit_def)
  moreover have "gauge_le (count_refund (rate_limit_key c d) x g (rate_limit_key c d)) ?rl"
    using l(2) by (simp add: gauge_le_def count_refund_def)
  ultimately show ?thesis by (simp add: metered_set [OF ok] count_refund_def)
qed

lemma reverse_flow_ok:
  assumes ok: "metered_ok h (s, g)"
  shows "metered_ok h (reverse_packet_flow c q s, meter_refund c q s g)"
proof (cases "get_packet_flow s c q")
  case None
  with ok show ?thesis by (simp add: reverse_packet_flow_def meter_refund_def)
next
  case (Some f)
  with metered_okD(3) [OF ok] have "0 \<le> int_or_zero (pf_amount f)"
    by (force simp: get_packet_flow_def flow_ok_def)
  from reverse_quota_ok [OF ok this] Some show ?thesis by (simp add: reverse_packet_flow_def meter_refund_def)
qed

lemma packet_transfer_pos: "packet_transfer ibc data = Some (d, x) \<Longrightarrow> 0 < x"
  by (auto simp: packet_transfer_def positive_int_Some split: option.splits prod.splits)

lemma on_ibc_Done [outcome_simps]: "on_ibc f s = Done s' a \<longleftrightarrow> (\<exists>c. f (rl_ibc s) = Done c a \<and> s' = s\<lparr>rl_ibc := c\<rparr>)"
  by (auto simp: on_ibc_def split: outcome.splits)

lemma send_packet_ok:
  assumes ok: "metered_ok h (s, g)" and h: "0 \<le> h" "h < 2 ^ 63" and run: "send_packet ibc h a s = Done s' q"
  shows "metered_ok h (s', meter_step ibc h (SendPacket a) s g)"
proof (cases "packet_transfer ibc (sa_data a)")
  case None
  with run ok show ?thesis
    by (auto simp: send_packet_def channel_send_def outcome_simps intro: metered_frame)
next
  case (Some dx)
  obtain d x where dx: "dx = (d, x)" by (cases dx)
  note tr = Some [unfolded dx]
  let ?g = "if get_rl_params s then count_sent (rate_limit_key (sa_channel a) d) x (roll h s (rate_limit_key (sa_channel a) d) g) else g"
  from run tr obtain s1 c where q: "check_and_update_send_quota h (sa_channel a) d x s = Done s1 ()"
    and s': "s' = set_packet_flow \<lparr>pf_channel = sa_channel a, pf_sequence = q, pf_denom = d, pf_amount = big_string x\<rparr>
      (s1\<lparr>rl_ibc := c\<rparr>)"
    by (auto simp: send_packet_def channel_send_def outcome_simps on_ibc_def split: outcome.splits)
  have "metered_ok h (s1, ?g)"
    using send_quota_ok [OF ok h _ q] packet_transfer_pos [OF tr] by simp
  then have "metered_ok h (s', ?g)"
    unfolding s' using packet_transfer_pos [OF tr] by (intro metered_frame) (auto simp: flow_ok_def)
  with tr show ?thesis by simp
qed

lemma recv_packet_ok:
  assumes ok: "metered_ok h (s, g)" and h: "0 \<le> h" "h < 2 ^ 63"
    and run: "rl_handle ibc authority h (RecvPacket p) s = Done s' u"
  shows "metered_ok h (s', meter_step ibc h (RecvPacket p) s g)"
proof (cases "packet_transfer ibc (pk_data p)")
  case None
  with run ok show ?thesis
    by (auto simp: on_recv_packet_def app_recv_def intro: metered_frame split: prod.splits if_splits)
next
  case (Some dx)
  obtain d x where dx: "dx = (d, x)" by (cases dx)
  note tr = Some [unfolded dx]
  let ?k = "rate_limit_key (pk_dest_channel p) d"
  show ?thesis
  proof (cases "check_and_update_recv_quota h (pk_dest_channel p) d x s")
    case (Done s1 u1)
    with run tr obtain c where s': "s' = s1\<lparr>rl_ibc := c\<rparr>"
      by (auto simp: on_recv_packet_def app_recv_def split: prod.splits if_splits)
    from recv_quota_ok [OF ok h _ Done] packet_transfer_pos [OF tr] tr show ?thesis
      unfolding s' by (auto intro: metered_frame)
  next
    case (Fail s1 e)
    then have s1: "s1 = s" by (auto simp: check_and_update_recv_quota_def Let_def split: if_splits option.splits)
    with Fail run tr have s': "s' = s" by (auto simp: on_recv_packet_def split: if_splits)
    have "metered_ok h (s, roll h s ?k g)"
    proof -
      have "gauge_le (roll h s ?k g j) rl" if "kv_get (rl_limits s) j = Some rl" for j rl
        using metered_okD(2) [OF ok that] limit_ok_send(1) [of h j rl]
        by (cases "j = ?k") (auto simp: roll_def gauge_le_def fresh_gauge_def split: option.splits)
      with ok show ?thesis by (simp add: metered_ok_def)
    qed
    with ok tr s' show ?thesis by simp
  qed
qed

lemma add_limit_ok:
  assumes ok: "metered_ok h (s, g)" and h: "0 \<le> h" and run: "add_rate_limit authority m s = Done s' u"
  shows "metered_ok h (s', g(rate_limit_key (ar_channel m) (ar_denom m) := fresh_gauge))"
proof -
  define rl where "rl = \<lparr>rl_channel = ar_channel m, rl_denom = ar_denom m, rl_max_send = ar_max_send m,
    rl_max_recv = ar_max_recv m, rl_window_blocks = ar_window_blocks m, rl_current_send = ''0'',
    rl_current_recv = ''0'', rl_window_start = 0\<rparr>"
  from run have s': "s' = set_rate_limit rl s" and v: "validate_add_rate_limit m"
    by (auto simp: add_rate_limit_def rl_def split: if_splits)
  have pos: "0 < int_or_zero (ar_max_send m)" "0 < int_or_zero (ar_max_recv m)"
    using v by (auto simp: validate_add_rate_limit_def positive_int_Some int_or_zero_Some)
  have "limit_ok h (rate_limit_key (ar_channel m) (ar_denom m)) rl"
    using v h pos by (auto simp: limit_ok_def rl_def validate_rate_limit_def validate_add_rate_limit_def zero_text)
  moreover have "gauge_le ((g(rate_limit_key (ar_channel m) (ar_denom m) := fresh_gauge)) (rate_limit_key (ar_channel m) (ar_denom m))) rl"
    by (simp add: gauge_le_def fresh_gauge_def rl_def zero_text)
  ultimately show ?thesis unfolding s' by (rule metered_set [OF ok]) simp
qed

lemma reset_windows_limits:
  "rl_limits (reset_expired_windows h s) =
    fold (\<lambda>rl m. if window_expired (to_u64 h) rl
        then kv_set (rate_limit_key (rl_channel rl) (rl_denom rl)) (reset_window (to_u64 h) rl) m else m)
      (map snd (rl_limits s)) (rl_limits s)"
  "rl_flows (reset_expired_windows h s) = rl_flows s"
  "rl_params_record (reset_expired_windows h s) = rl_params_record s" "rl_ibc (reset_expired_windows h s) = rl_ibc s"
proof -
  let ?F = "\<lambda>rl s. if window_expired (to_u64 h) rl then set_rate_limit (reset_window (to_u64 h) rl) s else s"
  let ?G = "\<lambda>rl m. if window_expired (to_u64 h) rl
        then kv_set (rate_limit_key (rl_channel rl) (rl_denom rl)) (reset_window (to_u64 h) rl) m else m"
  have fold: "rl_limits (fold ?F vs t) = fold ?G vs (rl_limits t) \<and> rl_flows (fold ?F vs t) = rl_flows t \<and>
      rl_params_record (fold ?F vs t) = rl_params_record t \<and> rl_ibc (fold ?F vs t) = rl_ibc t"
    for vs and t :: "'a rl_state"
    by (induction vs arbitrary: t) (auto simp: reset_window_def)
  show "rl_limits (reset_expired_windows h s) = fold ?G (map snd (rl_limits s)) (rl_limits s)"
    "rl_flows (reset_expired_windows h s) = rl_flows s"
    "rl_params_record (reset_expired_windows h s) = rl_params_record s" "rl_ibc (reset_expired_windows h s) = rl_ibc s"
    using fold unfolding reset_expired_windows_def get_all_rate_limits_def by blast+
qed

lemma reset_windows_get:
  assumes "metered_ok h (s, g)"
  shows "kv_get (rl_limits (reset_expired_windows h' s)) k =
    map_option (\<lambda>rl. if window_expired (to_u64 h') rl then reset_window (to_u64 h') rl else rl) (kv_get (rl_limits s) k)"
  unfolding reset_windows_limits
  using metered_okD(2) [OF assms]
  by (intro sweep_get [where key = "\<lambda>rl. rate_limit_key (rl_channel rl) (rl_denom rl)"] metered_okD(1) [OF assms])
    (auto simp: limit_ok_def)

lemma reset_windows_ok:
  assumes ok: "metered_ok h (s, g)" and h: "0 \<le> h" "h + 1 < 2 ^ 63"
  shows "metered_ok (h + 1) (reset_expired_windows (h + 1) s, \<lambda>k. roll (h + 1) s k g k)"
proof -
  have "limit_ok (h + 1) k rl' \<and> gauge_le (roll (h + 1) s k g k) rl'"
    if get: "kv_get (rl_limits (reset_expired_windows (h + 1) s)) k = Some rl'" for k rl'
  proof -
    from get obtain rl where rl: "kv_get (rl_limits s) k = Some rl"
      and rl': "rl' = (if window_expired (to_u64 (h + 1)) rl then reset_window (to_u64 (h + 1)) rl else rl)"
      by (auto simp: reset_windows_get [OF ok])
    from metered_okD(2) [OF ok rl] have l: "limit_ok h k rl" "gauge_le (g k) rl" by blast+
    show ?thesis
      using l reset_window_ok [OF l(1) _ _ h(2)] limit_ok_later [OF l(1), of "h + 1"] h
      by (auto simp: rl' roll_def rl)
  qed
  moreover have "kv_ok (rl_limits (reset_expired_windows (h + 1) s))"
    unfolding reset_windows_limits by (rule kv_ok_fold_update [OF metered_okD(1) [OF ok]])
  ultimately show ?thesis
    using metered_okD(3) [OF ok] by (simp add: metered_ok_def reset_windows_limits(2))
qed

section \<open>The module on the chain\<close>

text \<open>A genesis whose limits are well formed: fresh ones, or those of an export at an earlier height.\<close>

definition rl_init :: "int \<Rightarrow> 'c metered \<Rightarrow> bool" where
  "rl_init h sg \<longleftrightarrow> (\<exists>gs s0. sg = (init_rl_genesis gs s0, \<lambda>k. \<lparr>g_sent = 0, g_refunded = 0\<rparr>) \<and> rl_limits s0 = [] \<and> rl_flows s0 = [] \<and>
     (\<forall>rl \<in> set (rlg_limits gs). limit_ok h (rate_limit_key (rl_channel rl) (rl_denom rl)) rl))"

definition rl_others :: "'c metered \<Rightarrow> 'c metered \<Rightarrow> bool" where
  "rl_others sg sg' \<longleftrightarrow> (\<exists>c. fst sg' = fst sg\<lparr>rl_ibc := c\<rparr> \<and> snd sg' = snd sg)"

lemma rl_init_ok:
  assumes "rl_init h (sg :: 'c metered)"
  shows "metered_ok h sg"
proof -
  from assms obtain gs and s0 :: "'c rl_state" where sg: "sg = (init_rl_genesis gs s0, \<lambda>k. fresh_gauge)"
    and s0: "rl_limits s0 = []" "rl_flows s0 = []"
    and ok: "\<And>rl. rl \<in> set (rlg_limits gs) \<Longrightarrow> limit_ok h (rate_limit_key (rl_channel rl) (rl_denom rl)) rl"
    by (auto simp: rl_init_def fresh_gauge_def)
  have fold: "metered_ok h (fold set_rate_limit rls s, \<lambda>k. fresh_gauge)"
    if "metered_ok h (s, \<lambda>k. fresh_gauge)" "set rls \<subseteq> set (rlg_limits gs)" for rls and s :: "'c rl_state"
    using that
  proof (induction rls arbitrary: s)
    case Nil
    then show ?case by simp
  next
    case (Cons rl rls)
    have l: "limit_ok h (rate_limit_key (rl_channel rl) (rl_denom rl)) rl" using ok Cons.prems(2) by simp
    then have "gauge_le fresh_gauge rl" using limit_ok_send(1) by (simp add: gauge_le_def fresh_gauge_def)
    with metered_set [OF Cons.prems(1) l, where g' = "\<lambda>k. fresh_gauge"] Cons show ?case by simp
  qed
  show ?thesis unfolding sg init_rl_genesis_def by (rule fold) (simp_all add: metered_ok_def s0)
qed

lemma metered_handle_ok:
  fixes s :: "'c rl_state"
  assumes ok: "metered_ok h (s, g)" and h: "0 \<le> h" "h < 2 ^ 63" and run: "metered_handle ibc authority h m (s, g) = Done sg' u"
  shows "metered_ok h sg'"
proof -
  from run obtain s' u' where r: "rl_handle ibc authority h m s = Done s' u'" and sg': "sg' = (s', meter_step ibc h m s g)"
    by (auto simp: metered_handle_def split: outcome.splits)
  show ?thesis
  proof (cases m)
    case (SendPacket a)
    with r sg' show ?thesis by (auto simp: discard_Done simp del: meter_step.simps intro: send_packet_ok [OF ok h])
  next
    case (RecvPacket p)
    with r sg' show ?thesis using recv_packet_ok [OF ok h] by blast
  next
    case (AckPacket p ack)
    with r sg' reverse_flow_ok [OF ok] ok show ?thesis
      by (auto simp: on_acknowledgement_packet_def Let_def on_ibc_Done intro!: metered_frame)
  next
    case (TimeoutPacket p)
    with r sg' reverse_flow_ok [OF ok] show ?thesis
      by (auto simp: on_timeout_packet_def Let_def on_ibc_Done intro!: metered_frame)
  next
    case (MsgAddRateLimit a)
    with r sg' show ?thesis using add_limit_ok [OF ok h(1)] by auto
  next
    case (MsgRemoveRateLimit a)
    with r sg' ok show ?thesis by (auto simp: remove_rate_limit_def intro: metered_frame split: if_splits)
  next
    case (MsgUpdateRlParams a)
    with r sg' ok show ?thesis
      by (auto simp: update_rl_params_def intro: metered_frame split: if_splits option.splits)
  qed
qed

interpretation rl: live_module rl_init "metered_handle ibc authority" "\<lambda>sg m. True" metered_begin_block rl_others metered_ok
  for ibc :: "('c, 'k) ibc" and authority
proof unfold_locales
  fix h and sg :: "'c metered"
  show "0 \<le> h \<Longrightarrow> h < 2 ^ 63 \<Longrightarrow> rl_init h sg \<Longrightarrow> metered_ok h sg" by (simp add: rl_init_ok)
next
  fix h and sg sg' :: "'c metered" and m :: rl_msg and u
  show "0 \<le> h \<Longrightarrow> h < 2 ^ 63 \<Longrightarrow> metered_ok h sg \<Longrightarrow> True \<Longrightarrow> metered_handle ibc authority h m sg = Done sg' u \<Longrightarrow> metered_ok h sg'"
    by (cases sg) (simp add: metered_handle_ok)
next
  fix h and sg sg' :: "'c metered" and u
  show "0 \<le> h \<Longrightarrow> h + 1 < 2 ^ 63 \<Longrightarrow> metered_ok h sg \<Longrightarrow> metered_begin_block (h + 1) sg = Done sg' u \<Longrightarrow> metered_ok (h + 1) sg'"
    by (cases sg) (auto simp: metered_begin_block_def rl_begin_block_def intro: reset_windows_ok)
next
  fix h and sg sg' :: "'c metered"
  show "metered_ok h sg \<Longrightarrow> rl_others sg sg' \<Longrightarrow> metered_ok h sg'"
    by (cases sg, cases sg') (auto simp: rl_others_def intro: metered_frame)
next
  fix h and sg :: "'c metered"
  show "\<exists>s'. metered_begin_block (h + 1) sg = Done s' ()"
    by (simp add: metered_begin_block_def rl_begin_block_def)
qed

abbreviation rl_reachable :: "('c, 'k) ibc \<Rightarrow> string \<Rightarrow> int \<Rightarrow> 'c metered \<Rightarrow> bool" where
  "rl_reachable ibc authority \<equiv>
     chain_reachable rl_init (metered_handle ibc authority) (\<lambda>sg m. True) metered_begin_block rl_others"

end
