(* ===== verification/Rate_Limit_Claims.thy ===== *)
theory Rate_Limit_Claims
  imports Rate_Limit_Inv
begin

text \<open>
  The properties of x/ibcratelimit over reachable states, with witnesses on a small IBC stack whose
  packet data is the amount of uzrn and whose channel numbers the packets it sends.
\<close>

section \<open>A run\<close>

definition demo_ibc :: "(u64, bool) ibc" where
  "demo_ibc = \<lparr>ibc_decode = (\<lambda>data. Some (''uzrn'', data)),
     ibc_send = (\<lambda>(port, _) c. if port = ''closed'' then Fail c ''closed'' else Done (c + 1) c),
     ibc_recv = (\<lambda>p c. (c, True)), ibc_error_ack = (\<lambda>e. False), ibc_ack_success = (\<lambda>k. k),
     ibc_ack_is_error = (\<lambda>ack. ack = ''error''), ibc_app_ack = (\<lambda>p ack c. Done c ()), ibc_app_timeout = (\<lambda>p c. Done c ())\<rparr>"

definition rld_limit :: rate_limit where
  "rld_limit = \<lparr>rl_channel = ''channel-0'', rl_denom = ''uzrn'', rl_max_send = ''100'', rl_max_recv = ''100'',
     rl_window_blocks = 10, rl_current_send = ''0'', rl_current_recv = ''0'', rl_window_start = 0\<rparr>"

definition rld_s0 :: "u64 rl_state" where
  "rld_s0 = \<lparr>rl_params_record = Some True, rl_limits = [(rate_limit_key ''channel-0'' ''uzrn'', rld_limit)], rl_flows = [], rl_ibc = 1\<rparr>"

definition rld_send :: send_args where
  "rld_send = \<lparr>sa_port = ''transfer'', sa_channel = ''channel-0'', sa_timeout_height = (0, 0), sa_timeout_time = 0, sa_data = ''60''\<rparr>"

definition rld_packet :: packet where
  "rld_packet = \<lparr>pk_source_port = ''transfer'', pk_source_channel = ''channel-0'', pk_dest_channel = ''channel-7'', pk_sequence = 1, pk_data = ''60''\<rparr>"

definition rld_s1 :: "u64 rl_state" where
  "rld_s1 = rld_s0\<lparr>rl_limits := [(rate_limit_key ''channel-0'' ''uzrn'', rld_limit\<lparr>rl_current_send := ''60''\<rparr>)],
     rl_flows := [((''channel-0'', 1), \<lparr>pf_channel = ''channel-0'', pf_sequence = 1, pf_denom = ''uzrn'', pf_amount = ''60''\<rparr>)],
     rl_ibc := 2\<rparr>"

definition rld_g1 :: meter where
  "rld_g1 = meter_step demo_ibc 5 (SendPacket rld_send) rld_s0 (\<lambda>k. \<lparr>g_sent = 0, g_refunded = 0\<rparr>)"

lemma rld_send_runs: "rl_handle demo_ibc ''gov'' 5 (SendPacket rld_send) rld_s0 = Done rld_s1 ()"
  by code_simp

lemma rld_gauge: "rld_g1 (rate_limit_key ''channel-0'' ''uzrn'') = \<lparr>g_sent = 60, g_refunded = 0\<rparr>"
  unfolding rld_g1_def by code_simp

lemma rld_limit_ok: "limit_ok 5 (rate_limit_key ''channel-0'' ''uzrn'') rld_limit"
proof -
  have "validate_rate_limit rld_limit" "int_or_zero ''100'' = 100" by code_simp+
  then show ?thesis by (auto simp: limit_ok_def rld_limit_def zero_text)
qed

lemma rld_reachable: "rl_reachable demo_ibc ''gov'' 5 (rld_s0, \<lambda>k. \<lparr>g_sent = 0, g_refunded = 0\<rparr>)" "rl_reachable demo_ibc ''gov'' 5 (rld_s1, rld_g1)"
proof -
  have "init_rl_genesis \<lparr>rlg_params = Some True, rlg_limits = [rld_limit]\<rparr> (rld_s0\<lparr>rl_limits := []\<rparr>) = rld_s0" by code_simp
  then have "rl_init 5 (rld_s0, \<lambda>k. \<lparr>g_sent = 0, g_refunded = 0\<rparr>)"
    unfolding rl_init_def using rld_limit_ok
    by (intro exI [of _ "\<lparr>rlg_params = Some True, rlg_limits = [rld_limit]\<rparr>"] exI [of _ "rld_s0\<lparr>rl_limits := []\<rparr>"])
      (simp add: rld_s0_def rld_limit_def)
  then show 0: "rl_reachable demo_ibc ''gov'' 5 (rld_s0, \<lambda>k. \<lparr>g_sent = 0, g_refunded = 0\<rparr>)"
    by (intro chain_reachable.start) simp_all
  have "deliver (metered_handle demo_ibc ''gov'' 5) (SendPacket rld_send) (rld_s0, \<lambda>k. \<lparr>g_sent = 0, g_refunded = 0\<rparr>) = (rld_s1, rld_g1)"
    unfolding deliver_def metered_handle_def fst_conv snd_conv rld_send_runs by (simp only: outcome.case rld_g1_def)
  with chain_reachable.message [OF 0, of "SendPacket rld_send"] show "rl_reachable demo_ibc ''gov'' 5 (rld_s1, rld_g1)" by simp
qed

lemma rld_stored: "get_rate_limit rld_s1 ''channel-0'' ''uzrn'' = Some (rld_limit\<lparr>rl_current_send := ''60''\<rparr>)"
  "get_rl_params rld_s1" "get_packet_flow rld_s1 ''channel-0'' 1 = Some \<lparr>pf_channel = ''channel-0'', pf_sequence = 1, pf_denom = ''uzrn'', pf_amount = ''60''\<rparr>"
  by code_simp+

section \<open>Properties\<close>

lemma reachable_limit:
  assumes "rl_reachable ibc authority h (s, g)" "get_rate_limit s c d = Some rl"
  shows "metered_ok h (s, g)" "limit_ok h (rate_limit_key c d) rl" "gauge_le (g (rate_limit_key c d)) rl" "0 \<le> h" "h < 2 ^ 63"
proof -
  show ok: "metered_ok h (s, g)" by (rule rl.reachable_inv [OF assms(1)])
  show "limit_ok h (rate_limit_key c d) rl" "gauge_le (g (rate_limit_key c d)) rl"
    using metered_okD(2) [OF ok] assms(2) by (auto simp: get_rate_limit_def)
  show "0 \<le> h" "h < 2 ^ 63" using chain_reachable_height [OF assms(1)] by blast+
qed

text \<open>
  C30: In every reachable state, through any interleaving of packets, acknowledgements, timeouts,
  governance messages and blocks, what a limited channel and denom has sent in the current window while
  limits are enabled never exceeds the cap by more than what was refunded in that window.
\<close>

theorem rl_outflow_is_capped:
  assumes "rl_reachable ibc authority h (s, g)" "get_rate_limit s c d = Some rl"
  shows "g_sent (g (rate_limit_key c d)) \<le> int_or_zero (rl_max_send rl) + g_refunded (g (rate_limit_key c d))"
  using reachable_limit [OF assms] limit_ok_send(1) [OF reachable_limit(2) [OF assms]]
  by (simp add: gauge_le_def)

lemma rl_outflow_is_capped_witness: "g_sent (rld_g1 (rate_limit_key ''channel-0'' ''uzrn'')) \<le> 100"
proof -
  have "int_or_zero (rl_max_send (rld_limit\<lparr>rl_current_send := ''60''\<rparr>)) = 100" by code_simp
  with rl_outflow_is_capped [OF rld_reachable(2) rld_stored(1)] show ?thesis by (simp add: rld_gauge)
qed

lemma rl_counters_in_range_parts:
  assumes "rl_reachable ibc authority h (s, g)" "get_rate_limit s c d = Some rl"
  shows "0 \<le> int_or_zero (rl_current_send rl)" "int_or_zero (rl_current_send rl) \<le> int_or_zero (rl_max_send rl)"
    and "0 \<le> int_or_zero (rl_current_recv rl)" "int_or_zero (rl_current_recv rl) \<le> int_or_zero (rl_max_recv rl)"
    and "uint (rl_window_start rl + rl_window_blocks rl) = uint (rl_window_start rl) + uint (rl_window_blocks rl)"
    and "window_expired (to_u64 h) rl \<longleftrightarrow> uint (rl_window_start rl) + uint (rl_window_blocks rl) \<le> h"
  using reachable_limit [OF assms] limit_ok_send [OF reachable_limit(2) [OF assms]]
    window_end_no_wrap [OF reachable_limit(2) [OF assms]] window_expired_iff [OF reachable_limit(2) [OF assms]]
  by blast+

text \<open>
  The counters of every stored limit stay between zero and their caps, and the end of its window
  never wraps around 64 bits, so a window is over exactly when its start plus its length is reached.
\<close>

theorem rl_counters_in_range:
  assumes "rl_reachable ibc authority h (s, g)" "get_rate_limit s c d = Some rl"
  shows "(0 \<le> int_or_zero (rl_current_send rl)) \<and>
    (int_or_zero (rl_current_send rl) \<le> int_or_zero (rl_max_send rl)) \<and>
    (0 \<le> int_or_zero (rl_current_recv rl)) \<and>
    (int_or_zero (rl_current_recv rl) \<le> int_or_zero (rl_max_recv rl)) \<and>
    (uint (rl_window_start rl + rl_window_blocks rl) = uint (rl_window_start rl) + uint (rl_window_blocks rl)) \<and>
    (window_expired (to_u64 h) rl \<longleftrightarrow> uint (rl_window_start rl) + uint (rl_window_blocks rl) \<le> h)"
  using rl_counters_in_range_parts [OF assms] by blast

lemma rl_counters_in_range_witness: "int_or_zero ''60'' \<le> int_or_zero ''100''"
  using rl_counters_in_range [OF rld_reachable(2) rld_stored(1)] by (simp add: rld_limit_def)

text \<open>
  A transfer on a limited channel is admitted exactly when the amount fits what the current window
  has left, counting from zero when the window is over; it is then added to the counter, and every
  other limit, the flows and the rest of the state stay as they were.
\<close>

theorem rl_send_is_exact:
  assumes "rl_reachable ibc authority h (s, g)" "get_rate_limit s c d = Some rl" "get_rl_params s"
  defines "used \<equiv> if uint (rl_window_start rl) + uint (rl_window_blocks rl) \<le> h then 0 else int_or_zero (rl_current_send rl)"
  shows "check_and_update_send_quota h c d x s =
    (if used + x \<le> int_or_zero (rl_max_send rl)
     then Done (s\<lparr>rl_limits := kv_set (rate_limit_key c d)
       ((maybe_reset_window h rl)\<lparr>rl_current_send := big_string (used + x)\<rparr>) (rl_limits s)\<rparr>) ()
     else Fail s SendRateExceeded)"
proof -
  note R = reachable_limit [OF assms(1,2)]
  note L = limit_ok_send(1) [OF R(2)]
  have used: "int_or_zero (rl_current_send (maybe_reset_window h rl)) = used" "rl_current_send (maybe_reset_window h rl) \<noteq> []"
    "rl_max_send (maybe_reset_window h rl) = rl_max_send rl"
    using L window_expired_iff [OF R(2,5,4,5)] by (auto simp: used_def maybe_reset_window_def reset_window_def zero_text)
  have key: "rate_limit_key (rl_channel (maybe_reset_window h rl)) (rl_denom (maybe_reset_window h rl)) = rate_limit_key c d"
    using R(2) by (simp add: limit_ok_def maybe_reset_window_def reset_window_def)
  show ?thesis
    using assms(2,3) used key by (simp add: check_and_update_send_quota_def Let_def set_rate_limit_def not_less)
qed

lemma rl_send_is_exact_witness:
  "check_and_update_send_quota 5 ''channel-0'' ''uzrn'' 41 rld_s1 = Fail rld_s1 SendRateExceeded"
proof -
  have n: "int_or_zero ''60'' = 60" "int_or_zero ''100'' = 100" by code_simp+
  from rl_send_is_exact [OF rld_reachable(2) rld_stored(1,2), of 41] show ?thesis
    by (simp add: n rld_limit_def)
qed

lemma on_ibc_state: "final_state (on_ibc f s) = s\<lparr>rl_ibc := final_state (f (rl_ibc s))\<rparr>"
  by (simp add: on_ibc_def split: outcome.splits)

lemma on_ibc_Fail: "on_ibc f s = Fail s' e \<Longrightarrow> \<exists>c. s' = s\<lparr>rl_ibc := c\<rparr>"
  by (auto simp: on_ibc_def split: outcome.splits)

lemma charge_then_reverse:
  assumes R: "metered_ok h (s, g)" "0 \<le> h" "h < 2 ^ 63" and on: "get_rl_params s"
    and charge: "check_and_update_send_quota h c d x s = Done s1 u"
  shows "kv_get (rl_limits (reverse_send_quota c d x (s1\<lparr>rl_ibc := i\<rparr>))) k = kv_get (rl_limits s) k \<or>
    kv_get (rl_limits (reverse_send_quota c d x (s1\<lparr>rl_ibc := i\<rparr>))) k = map_option (maybe_reset_window h) (kv_get (rl_limits s) k)"
    and "rl_flows (reverse_send_quota c d x (s1\<lparr>rl_ibc := i\<rparr>)) = rl_flows s"
proof -
  let ?k = "rate_limit_key c d"
  have both: "(kv_get (rl_limits (reverse_send_quota c d x (s1\<lparr>rl_ibc := i\<rparr>))) k = kv_get (rl_limits s) k \<or>
    kv_get (rl_limits (reverse_send_quota c d x (s1\<lparr>rl_ibc := i\<rparr>))) k = map_option (maybe_reset_window h) (kv_get (rl_limits s) k))
    \<and> rl_flows (reverse_send_quota c d x (s1\<lparr>rl_ibc := i\<rparr>)) = rl_flows s"
  proof (cases "kv_get (rl_limits s) ?k")
    case None
    with on charge have "s1 = s" by (simp add: check_and_update_send_quota_def get_rate_limit_def)
    with None show ?thesis by (simp add: reverse_send_quota_def get_rate_limit_def)
  next
    case (Some rl0)
    let ?rl = "maybe_reset_window h rl0"
    from metered_okD(2) [OF R(1) Some] have l: "limit_ok h ?k rl0" "gauge_le (g ?k) rl0" by blast+
    have m: "limit_ok h ?k ?rl" by (rule maybe_reset_ok(1) [where g = g, OF l R(2,3) Some])
    obtain y where y: "rl_current_send ?rl = big_string y" "0 \<le> y" using m by (auto simp: limit_ok_def)
    have key: "rate_limit_key (rl_channel ?rl) (rl_denom ?rl) = ?k" using m by (simp add: limit_ok_def)
    from charge on Some y have s1: "s1 = set_rate_limit (?rl\<lparr>rl_current_send := big_string (y + x)\<rparr>) s"
      by (auto simp: check_and_update_send_quota_def get_rate_limit_def Let_def split: if_splits)
    have "?rl\<lparr>rl_current_send := big_string y\<rparr> = ?rl" using y(1) by simp
    then have "rl_limits (reverse_send_quota c d x (s1\<lparr>rl_ibc := i\<rparr>)) = kv_set ?k ?rl (rl_limits (s1\<lparr>rl_ibc := i\<rparr>))"
      "rl_flows (reverse_send_quota c d x (s1\<lparr>rl_ibc := i\<rparr>)) = rl_flows s"
      using y(2) key by (simp_all add: reverse_send_quota_def get_rate_limit_def s1)
    then show ?thesis using Some key by (simp add: s1)
  qed
  then show "kv_get (rl_limits (reverse_send_quota c d x (s1\<lparr>rl_ibc := i\<rparr>))) k = kv_get (rl_limits s) k \<or>
    kv_get (rl_limits (reverse_send_quota c d x (s1\<lparr>rl_ibc := i\<rparr>))) k = map_option (maybe_reset_window h) (kv_get (rl_limits s) k)"
    "rl_flows (reverse_send_quota c d x (s1\<lparr>rl_ibc := i\<rparr>)) = rl_flows s"
    by blast+
qed

lemma rl_failed_send_charges_nothing_parts:
  assumes "rl_reachable ibc authority h (s, g)" "get_rl_params s" "send_packet ibc h a s = Fail s' e"
  shows "rl_flows s' = rl_flows s"
    and "kv_get (rl_limits s') k = kv_get (rl_limits s) k \<or>
      kv_get (rl_limits s') k = map_option (maybe_reset_window h) (kv_get (rl_limits s) k)"
proof -
  have R: "metered_ok h (s, g)" "0 \<le> h" "h < 2 ^ 63"
    using rl.reachable_inv [OF assms(1)] chain_reachable_height [OF assms(1)] by blast+
  have both: "rl_flows s' = rl_flows s \<and> (kv_get (rl_limits s') k = kv_get (rl_limits s) k \<or>
      kv_get (rl_limits s') k = map_option (maybe_reset_window h) (kv_get (rl_limits s) k))"
  proof (cases "packet_transfer ibc (sa_data a)")
    case None
    with assms(3) show ?thesis by (auto simp: send_packet_def channel_send_def dest!: on_ibc_Fail)
  next
    case (Some dx)
    obtain d x where tr: "packet_transfer ibc (sa_data a) = Some (d, x)" using Some by (cases dx) simp
    show ?thesis
    proof (cases "check_and_update_send_quota h (sa_channel a) d x s")
      case (Fail s1 e1)
      then have "s1 = s" by (auto simp: check_and_update_send_quota_def Let_def split: if_splits option.splits)
      with Fail tr assms(3) show ?thesis by (simp add: send_packet_def)
    next
      case (Done s1 u)
      with tr assms(3) obtain i where "s' = reverse_send_quota (sa_channel a) d x (s1\<lparr>rl_ibc := i\<rparr>)"
        by (auto simp: send_packet_def channel_send_def dest!: on_ibc_Fail split: outcome.splits)
      with charge_then_reverse [OF R assms(2) Done] show ?thesis by blast
    qed
  qed
  then show "rl_flows s' = rl_flows s"
    "kv_get (rl_limits s') k = kv_get (rl_limits s) k \<or>
      kv_get (rl_limits s') k = map_option (maybe_reset_window h) (kv_get (rl_limits s) k)" by blast+
qed

text \<open>A failed send while limits are disabled: nothing was charged, and the amount is taken off all the same.\<close>

definition lowered :: "int \<Rightarrow> rate_limit \<Rightarrow> rate_limit" where
  "lowered x rl = rl\<lparr>rl_current_send := big_string (max 0 (int_or_zero (rl_current_send rl) - x))\<rparr>"

lemma disabled_failure:
  assumes "rl_reachable ibc authority h (s, g)" "\<not> get_rl_params s" "send_packet ibc h a s = Fail s' e"
  shows "rl_flows s' = rl_flows s"
    and "kv_get (rl_limits s') k = (case packet_transfer ibc (sa_data a) of
        None \<Rightarrow> kv_get (rl_limits s) k
      | Some (d, x) \<Rightarrow> (if k = rate_limit_key (sa_channel a) d then map_option (lowered x) (kv_get (rl_limits s) k) else kv_get (rl_limits s) k))"
proof -
  have R: "metered_ok h (s, g)" by (rule rl.reachable_inv [OF assms(1)])
  have both: "rl_flows s' = rl_flows s \<and> kv_get (rl_limits s') k = (case packet_transfer ibc (sa_data a) of
        None \<Rightarrow> kv_get (rl_limits s) k
      | Some (d, x) \<Rightarrow> (if k = rate_limit_key (sa_channel a) d then map_option (lowered x) (kv_get (rl_limits s) k) else kv_get (rl_limits s) k))"
  proof (cases "packet_transfer ibc (sa_data a)")
    case None
    with assms(3) show ?thesis by (auto simp: send_packet_def channel_send_def dest!: on_ibc_Fail)
  next
    case (Some dx)
    obtain d x where tr: "packet_transfer ibc (sa_data a) = Some (d, x)" using Some by (cases dx) simp
    have "check_and_update_send_quota h (sa_channel a) d x s = Done s ()" using assms(2) by (simp add: check_and_update_send_quota_def)
    with tr assms(3) obtain i where s': "s' = reverse_send_quota (sa_channel a) d x (s\<lparr>rl_ibc := i\<rparr>)"
      by (auto simp: send_packet_def channel_send_def dest!: on_ibc_Fail split: outcome.splits)
    show ?thesis
    proof (cases "get_rate_limit s (sa_channel a) d")
      case None
      then show ?thesis by (auto simp: s' tr reverse_send_quota_def get_rate_limit_def)
    next
      case (Some rl)
      then have l: "limit_ok h (rate_limit_key (sa_channel a) d) rl"
        using metered_okD(2) [OF R] by (simp add: get_rate_limit_def)
      with Some limit_ok_send(1) [OF l] show ?thesis
        by (simp add: s' tr reverse_send_quota_def get_rate_limit_def limit_ok_def lowered_def max_def)
    qed
  qed
  then show "rl_flows s' = rl_flows s"
    "kv_get (rl_limits s') k = (case packet_transfer ibc (sa_data a) of
        None \<Rightarrow> kv_get (rl_limits s) k
      | Some (d, x) \<Rightarrow> (if k = rate_limit_key (sa_channel a) d then map_option (lowered x) (kv_get (rl_limits s) k) else kv_get (rl_limits s) k))"
    by blast+
qed

text \<open>
  C31: what a transfer that is refused, or that the channel below fails to send, leaves in the quotas.  No
  packet is remembered for a refund.  While limits are enabled there is no other trace: every limit is what
  it was, up to the start of a new window.  While limits are disabled there is one, since the reversal runs
  although nothing was charged: the counter of that channel and denom loses the amount, down to zero, and
  no other limit changes.
\<close>

theorem rl_failed_send_trace:
  assumes "rl_reachable ibc authority h (s, g)" "send_packet ibc h a s = Fail s' e"
  shows "rl_flows s' = rl_flows s \<and>
    (if get_rl_params s
     then kv_get (rl_limits s') k = kv_get (rl_limits s) k \<or>
       kv_get (rl_limits s') k = map_option (maybe_reset_window h) (kv_get (rl_limits s) k)
     else kv_get (rl_limits s') k = (case packet_transfer ibc (sa_data a) of
        None \<Rightarrow> kv_get (rl_limits s) k
      | Some (d, x) \<Rightarrow> (if k = rate_limit_key (sa_channel a) d then map_option (lowered x) (kv_get (rl_limits s) k) else kv_get (rl_limits s) k)))"
proof (cases "get_rl_params s")
  case True
  with rl_failed_send_charges_nothing_parts [OF assms(1) True assms(2)] show ?thesis by simp
next
  case False
  show ?thesis unfolding disabled_failure(1) [OF assms(1) False assms(2)] disabled_failure(2) [OF assms(1) False assms(2)]
    using False by simp
qed

definition rld_closed :: send_args where
  "rld_closed = rld_send\<lparr>sa_port := ''closed'', sa_data := ''10''\<rparr>"

definition rld_off :: "u64 rl_state" where
  "rld_off = set_rl_params False rld_s1"

lemma rld_off_reachable: "rl_reachable demo_ibc ''gov'' 5 (rld_off, rld_g1)"
proof -
  have "deliver (metered_handle demo_ibc ''gov'' 5) (MsgUpdateRlParams (''gov'', Some False)) (rld_s1, rld_g1) = (rld_off, rld_g1)"
    by (simp add: deliver_def metered_handle_def update_rl_params_def rld_off_def)
  with chain_reachable.message [OF rld_reachable(2), of "MsgUpdateRlParams (''gov'', Some False)"] show ?thesis by simp
qed

text \<open>The closed port fails with limits on, where the counter stays at 60, and with limits off, where it drops to 50.\<close>

lemma rl_failed_send_trace_witness:
  "rl_flows (final_state (send_packet demo_ibc 5 rld_closed rld_s1)) = rl_flows rld_s1 \<and>
   kv_get (rl_limits (final_state (send_packet demo_ibc 5 rld_closed rld_off))) (rate_limit_key ''channel-0'' ''uzrn'') =
     Some (rld_limit\<lparr>rl_current_send := ''50''\<rparr>)"
proof -
  have fails: "\<not> succeeded (send_packet demo_ibc 5 rld_closed rld_s1)" "\<not> succeeded (send_packet demo_ibc 5 rld_closed rld_off)"
    by code_simp+
  from fails(1) obtain t e where f: "send_packet demo_ibc 5 rld_closed rld_s1 = Fail t e"
    by (cases "send_packet demo_ibc 5 rld_closed rld_s1") auto
  from fails(2) obtain t' e' where f': "send_packet demo_ibc 5 rld_closed rld_off = Fail t' e'"
    by (cases "send_packet demo_ibc 5 rld_closed rld_off") auto
  have off: "\<not> get_rl_params rld_off" "packet_transfer demo_ibc (sa_data rld_closed) = Some (''uzrn'', 10)" "sa_channel rld_closed = ''channel-0''"
    "map_option (lowered 10) (kv_get (rl_limits rld_off) (rate_limit_key ''channel-0'' ''uzrn'')) = Some (rld_limit\<lparr>rl_current_send := ''50''\<rparr>)"
    by code_simp+
  from rl_failed_send_trace [OF rld_reachable(2) f] rl_failed_send_trace [OF rld_off_reachable f', of "rate_limit_key ''channel-0'' ''uzrn''"]
  show ?thesis by (simp add: f f' off)
qed

lemma rl_refund_is_once_parts:
  assumes "rl_reachable ibc authority h (s, g)" "on_timeout_packet ibc p s = Done s' u"
    and "get_packet_flow s (pk_source_channel p) (pk_sequence p) = Some f"
  shows "get_rate_limit s' (pf_channel f) (pf_denom f) =
      map_option (\<lambda>rl. rl\<lparr>rl_current_send := big_string (max 0 (int_or_zero (rl_current_send rl) - int_or_zero (pf_amount f)))\<rparr>)
        (get_rate_limit s (pf_channel f) (pf_denom f))"
    and "get_packet_flow s' (pk_source_channel p) (pk_sequence p) = None"
    and "rl_limits (final_state (on_timeout_packet ibc p s')) = rl_limits s'"
    and "rl_limits (final_state (on_acknowledgement_packet ibc p ack s')) = rl_limits s'"
proof -
  have R: "metered_ok h (s, g)" by (rule rl.reachable_inv [OF assms(1)])
  from assms(2,3) obtain c where s': "s' = (delete_packet_flow (pk_source_channel p) (pk_sequence p)
      (reverse_send_quota (pf_channel f) (pf_denom f) (int_or_zero (pf_amount f)) s))\<lparr>rl_ibc := c\<rparr>"
    by (auto simp: on_timeout_packet_def Let_def on_ibc_Done reverse_packet_flow_def)
  have lim: "rl_limits s' = rl_limits (reverse_send_quota (pf_channel f) (pf_denom f) (int_or_zero (pf_amount f)) s)"
    by (simp add: s')
  show gone: "get_packet_flow s' (pk_source_channel p) (pk_sequence p) = None"
    by (simp add: s' get_packet_flow_def)
  show "rl_limits (final_state (on_timeout_packet ibc p s')) = rl_limits s'"
    "rl_limits (final_state (on_acknowledgement_packet ibc p ack s')) = rl_limits s'"
    using gone by (simp_all add: on_timeout_packet_def on_acknowledgement_packet_def Let_def on_ibc_state reverse_packet_flow_def)
  show "get_rate_limit s' (pf_channel f) (pf_denom f) =
      map_option (\<lambda>rl. rl\<lparr>rl_current_send := big_string (max 0 (int_or_zero (rl_current_send rl) - int_or_zero (pf_amount f)))\<rparr>)
        (get_rate_limit s (pf_channel f) (pf_denom f))"
  proof (cases "get_rate_limit s (pf_channel f) (pf_denom f)")
    case None
    then show ?thesis by (simp add: get_rate_limit_def lim reverse_send_quota_def)
  next
    case (Some rl)
    then have l: "limit_ok h (rate_limit_key (pf_channel f) (pf_denom f)) rl"
      using metered_okD(2) [OF R] by (simp add: get_rate_limit_def)
    with Some limit_ok_send(1) [OF l] show ?thesis
      by (simp add: get_rate_limit_def lim reverse_send_quota_def limit_ok_def max_def)
  qed
qed

text \<open>
  A timed-out transfer is refunded to its quota exactly once: the counter goes down by the amount
  sent, though not below zero, the packet is forgotten, and a later timeout or acknowledgement of the
  same packet changes no quota.
\<close>

theorem rl_refund_is_once:
  assumes "rl_reachable ibc authority h (s, g)" "on_timeout_packet ibc p s = Done s' u"
    and "get_packet_flow s (pk_source_channel p) (pk_sequence p) = Some f"
  shows "(get_rate_limit s' (pf_channel f) (pf_denom f) =
      map_option (\<lambda>rl. rl\<lparr>rl_current_send := big_string (max 0 (int_or_zero (rl_current_send rl) - int_or_zero (pf_amount f)))\<rparr>)
        (get_rate_limit s (pf_channel f) (pf_denom f))) \<and>
    (get_packet_flow s' (pk_source_channel p) (pk_sequence p) = None) \<and>
    (rl_limits (final_state (on_timeout_packet ibc p s')) = rl_limits s') \<and>
    (rl_limits (final_state (on_acknowledgement_packet ibc p ack s')) = rl_limits s')"
  using rl_refund_is_once_parts [OF assms] by blast

lemma rl_refund_is_once_witness:
  "get_rate_limit (final_state (on_timeout_packet demo_ibc rld_packet rld_s1)) ''channel-0'' ''uzrn'' = Some rld_limit"
proof -
  have "succeeded (on_timeout_packet demo_ibc rld_packet rld_s1)" by code_simp
  then obtain s' u where r: "on_timeout_packet demo_ibc rld_packet rld_s1 = Done s' u"
    by (cases "on_timeout_packet demo_ibc rld_packet rld_s1") auto
  have f: "get_packet_flow rld_s1 (pk_source_channel rld_packet) (pk_sequence rld_packet) =
      Some \<lparr>pf_channel = ''channel-0'', pf_sequence = 1, pf_denom = ''uzrn'', pf_amount = ''60''\<rparr>"
    using rld_stored(3) by (simp add: rld_packet_def)
  have n: "big_string 0 = ''0''" "int_or_zero ''60'' = 60" by code_simp+
  from rl_refund_is_once [OF rld_reachable(2) r f] rld_stored(1) show ?thesis
    by (simp add: r n rld_limit_def)
qed

end
