(* ===== verification/VR_Types.thy ===== *)
theory VR_Types
  imports Go_Text Bank Chain
begin

text \<open>
  x/vesting_rewards: the records, parameters, release-curve settings and their validation
  (types/{types,genesis,keys,errors}.go and the message structs).  Schedules name their category,
  source and status by text, as the code does.
\<close>

section \<open>Errors\<close>

datatype vr_error =
    ScheduleNotFound | NothingToClaim | InvalidCategory | AlreadyFalsified | InvalidRewardAmount | VrUnauthorized
  | ScheduleNotActive | ScheduleAlreadyCompleted | NotRecipientOrAuthority | FactNotDisproven
  | AdjudicationUnavailable | FounderShareRetired | AutomaticRewardRetired | MigrationRequired
  | CreationKeyExists | IndexBroken string | KnowledgeConflict | InvalidParams string | ParamsMissing | ParamsPresent
  | VrInvalidMessage | VrBankError string | VrPanic string

section \<open>Records\<close>

record vesting_schedule =
  vs_id :: string
  vs_claim_id :: string
  vs_fact_id :: string
  vs_recipient :: string
  vs_total :: string
  vs_released :: string
  vs_claimable :: string
  vs_reserve :: string
  vs_category :: string
  vs_source :: string
  vs_status :: string
  vs_accepted_at :: u64
  vs_cliff_ends_at :: u64
  vs_last_claim :: u64
  vs_total_paused :: u64
  vs_paused_at :: u64
  vs_defenses :: u32
  vs_replications :: u32
  vs_created_at :: u64
  vs_updated_at :: u64
  vs_corroborations :: u32
  vs_citations :: u32

record category_config =
  cc_category :: string
  cc_half_life :: u64
  cc_cliff :: u64
  cc_max_release :: u64

record clawback_record =
  cr_id :: string
  cr_vesting_id :: string
  cr_released_clawback :: string
  cr_unvested_forfeited :: string
  cr_reserve_forfeited :: string
  cr_challenger_reward :: string
  cr_block_height :: u64

record block_reward_distribution =
  brd_block_height :: u64
  brd_producer_reward :: string
  brd_research_share :: string
  brd_total_minted :: string
  brd_validator_count :: u32
  brd_fund_balance_after :: string
  brd_founder_share :: string
  brd_development_amount :: string
  brd_protocol_share :: string

record revenue_split =
  contributor_bps :: u64
  protocol_bps :: u64
  research_bps :: u64
  development_bps :: u64

record protocol_sub_split =
  citation_bps :: u64
  verification_bps :: u64
  treasury_bps :: u64

record category_reward_config =
  crc_category :: string
  crc_multiplier_bps :: u64

record vr_params =
  block_reward :: string
  reward_decay_bps :: u64
  blocks_per_reward_epoch :: u64
  vp_revenue_split :: "revenue_split option"
  vp_sub_split :: "protocol_sub_split option"
  founder_share_bps :: u64
  founder_address :: string
  governance_activation_height :: u64
  category_reward_configs :: "category_reward_config list"
  research_fund_module_account :: string
  vesting_enabled :: bool
  released_clawback_rate :: u64
  min_validators_for_full_reward :: u32
  empty_block_reward_rate :: u64
  floor_reward :: string
  initial_fund_balance :: string
  coupling_target_bps :: u64
  coupling_floor_bps :: u64

section \<open>Names\<close>

definition vr_module_name :: string where
  "vr_module_name = ''vesting_rewards''"

definition research_fund_name :: string where
  "research_fund_name = ''research_fund''"

definition development_fund_name :: string where
  "development_fund_name = ''development_fund''"

definition fee_collector_name :: string where
  "fee_collector_name = ''fee_collector''"

definition max_supply_uzrn :: int where
  "max_supply_uzrn = 222222222000000"

abbreviation st_vesting :: string where "st_vesting \<equiv> ''vesting''"
abbreviation st_paused :: string where "st_paused \<equiv> ''paused''"
abbreviation st_completed :: string where "st_completed \<equiv> ''completed''"
abbreviation st_falsified :: string where "st_falsified \<equiv> ''falsified''"
abbreviation st_abandoned :: string where "st_abandoned \<equiv> ''abandoned''"

section \<open>Defaults\<close>

definition default_revenue_split :: revenue_split where
  "default_revenue_split =
     \<lparr>contributor_bps = 550000, protocol_bps = 220000, research_bps = 33300, development_bps = 196700\<rparr>"

definition default_sub_split :: protocol_sub_split where
  "default_sub_split = \<lparr>citation_bps = 500000, verification_bps = 300000, treasury_bps = 200000\<rparr>"

definition default_category_reward_configs :: "category_reward_config list" where
  "default_category_reward_configs = map (\<lambda>(c, m). \<lparr>crc_category = c, crc_multiplier_bps = m\<rparr>)
     [(''axiomatic'', 1200000), (''formal_proof'', 1100000), (''on_chain'', 1000000), (''cryptographic'', 1050000),
      (''computational'', 1000000), (''peer_reviewed'', 900000), (''replicated'', 950000), (''oracle_feed'', 800000),
      (''attestation'', 850000), (''contested'', 600000)]"

definition default_vr_params :: vr_params where
  "default_vr_params =
     \<lparr>block_reward = ''0'', reward_decay_bps = 994478, blocks_per_reward_epoch = 100000,
      vp_revenue_split = Some default_revenue_split, vp_sub_split = Some default_sub_split,
      founder_share_bps = 0, founder_address = [], governance_activation_height = 0,
      category_reward_configs = default_category_reward_configs, research_fund_module_account = research_fund_name,
      vesting_enabled = True, released_clawback_rate = 3300, min_validators_for_full_reward = 22,
      empty_block_reward_rate = 0, floor_reward = ''0'', initial_fund_balance = ''0'',
      coupling_target_bps = 700000, coupling_floor_bps = 500000\<rparr>"

definition default_category_configs :: "category_config list" where
  "default_category_configs =
     map (\<lambda>(c, hl, cl, mr). \<lparr>cc_category = c, cc_half_life = hl, cc_cliff = cl, cc_max_release = mr\<rparr>)
     [(''axiomatic'', 1111111, 11111, 950000), (''formal_proof'', 555555, 5555, 920000),
      (''on_chain'', 222222, 1111, 900000), (''cryptographic'', 222222, 3333, 900000),
      (''computational'', 333333, 2222, 880000), (''peer_reviewed'', 111111, 5555, 850000),
      (''replicated'', 111111, 3333, 880000), (''oracle_feed'', 55555, 555, 800000),
      (''attestation'', 77777, 2222, 800000), (''contested'', 22222, 1111, 600000)]"

section \<open>Validation\<close>

definition validate_revenue_split :: "revenue_split option \<Rightarrow> vr_error + unit" where
  "validate_revenue_split sp = (case sp of None \<Rightarrow> Inr ()
   | Some s \<Rightarrow>
       if 1000000 < contributor_bps s \<or> 1000000 < protocol_bps s \<or> 1000000 < research_bps s \<or> 1000000 < development_bps s
       then Inl (InvalidParams ''revenue split component'')
       else if contributor_bps s + protocol_bps s + research_bps s + development_bps s \<noteq> 1000000
       then Inl (InvalidParams ''revenue split sum'') else Inr ())"

definition validate_sub_split :: "protocol_sub_split option \<Rightarrow> vr_error + unit" where
  "validate_sub_split sp = (case sp of None \<Rightarrow> Inr ()
   | Some s \<Rightarrow>
       if 1000000 < citation_bps s \<or> 1000000 < verification_bps s \<or> 1000000 < treasury_bps s
       then Inl (InvalidParams ''sub split component'')
       else if citation_bps s + verification_bps s + treasury_bps s \<noteq> 1000000
       then Inl (InvalidParams ''sub split sum'') else Inr ())"

definition validate_non_negative_integer :: "string \<Rightarrow> vr_error + unit" where
  "validate_non_negative_integer v = (case big_set_string v of
     None \<Rightarrow> Inl (InvalidParams ''integer'')
   | Some n \<Rightarrow> if n < 0 \<or> big_string n \<noteq> v then Inl (InvalidParams ''integer'') else Inr ())"

definition validate_vr_params :: "vr_params \<Rightarrow> vr_error + unit" where
  "validate_vr_params p =
     bind_sum (validate_revenue_split (vp_revenue_split p)) (\<lambda>_.
     bind_sum (validate_sub_split (vp_sub_split p)) (\<lambda>_.
     if blocks_per_reward_epoch p = 0 then Inl (InvalidParams ''blocks_per_reward_epoch'')
     else if reward_decay_bps p = 0 \<or> 1000000 < reward_decay_bps p then Inl (InvalidParams ''reward_decay_bps'')
     else
     bind_sum (validate_non_negative_integer (block_reward p)) (\<lambda>_.
     bind_sum (validate_non_negative_integer (floor_reward p)) (\<lambda>_.
     if block_reward p \<noteq> ''0'' \<or> floor_reward p \<noteq> ''0'' \<or> empty_block_reward_rate p \<noteq> 0 then Inl AutomaticRewardRetired
     else
     bind_sum (validate_non_negative_integer (initial_fund_balance p)) (\<lambda>_.
     if founder_share_bps p \<noteq> 0 \<or> founder_address p \<noteq> [] then Inl FounderShareRetired
     else if 10000 < released_clawback_rate p then Inl (InvalidParams ''released_clawback_rate'')
     else if 10000 < empty_block_reward_rate p then Inl (InvalidParams ''empty_block_reward_rate'')
     else if 1000000 < coupling_target_bps p then Inl (InvalidParams ''knowledge_coupling_target_bps'')
     else if 1000000 < coupling_floor_bps p then Inl (InvalidParams ''knowledge_coupling_floor_bps'')
     else Inr ())))))"

definition validate_founder_share_change :: "vr_params \<Rightarrow> vr_error + unit" where
  "validate_founder_share_change proposed =
     (if founder_share_bps proposed \<noteq> 0 \<or> founder_address proposed \<noteq> [] then Inl FounderShareRetired else Inr ())"

definition validate_runtime_param_change :: "vr_params \<Rightarrow> vr_params \<Rightarrow> vr_error + unit" where
  "validate_runtime_param_change current proposed =
     (if governance_activation_height proposed \<noteq> governance_activation_height current
        then Inl (InvalidParams ''governance_activation_height'')
      else if category_reward_configs proposed \<noteq> category_reward_configs current
        then Inl (InvalidParams ''category_reward_configs'')
      else if research_fund_module_account proposed \<noteq> research_fund_module_account current
        then Inl (InvalidParams ''research_fund_module_account'')
      else if vesting_enabled proposed \<noteq> vesting_enabled current then Inl (InvalidParams ''vesting_enabled'')
      else if initial_fund_balance proposed \<noteq> initial_fund_balance current
        then Inl (InvalidParams ''initial_fund_balance'')
      else if reward_decay_bps proposed \<noteq> reward_decay_bps current
        \<or> blocks_per_reward_epoch proposed \<noteq> blocks_per_reward_epoch current
        \<or> min_validators_for_full_reward proposed \<noteq> min_validators_for_full_reward current
        \<or> coupling_target_bps proposed \<noteq> coupling_target_bps current
        \<or> coupling_floor_bps proposed \<noteq> coupling_floor_bps current
        then Inl (InvalidParams ''retired block-reward fields'')
      else Inr ())"

section \<open>Genesis\<close>

text \<open>A claim schedule index is the pair of a claim id and a schedule id.\<close>

record vr_genesis =
  vrg_params :: "vr_params option"
  vrg_configs :: "category_config list"
  vrg_schedules :: "vesting_schedule list"
  vrg_clawbacks :: "clawback_record list"
  vrg_distributions :: "block_reward_distribution list"
  vrg_claim_indexes :: "(string \<times> string) list"

definition default_vr_genesis :: vr_genesis where
  "default_vr_genesis = \<lparr>vrg_params = Some default_vr_params, vrg_configs = default_category_configs, vrg_schedules = [],
     vrg_clawbacks = [], vrg_distributions = [], vrg_claim_indexes = []\<rparr>"

definition validate_config :: "category_config \<Rightarrow> bool" where
  "validate_config cfg \<longleftrightarrow> cc_max_release cfg \<le> 1000000 \<and> cc_half_life cfg \<noteq> 0"

definition claim_index_ok :: "vesting_schedule list \<Rightarrow> string \<times> string \<Rightarrow> bool" where
  "claim_index_ok schedules index \<longleftrightarrow>
     fst index \<noteq> [] \<and> snd index \<noteq> [] \<and>
     (case find (\<lambda>v. vs_id v = snd index) schedules of None \<Rightarrow> False | Some v \<Rightarrow> vs_claim_id v = fst index)"

definition validate_vr_genesis :: "vr_genesis \<Rightarrow> bool" where
  "validate_vr_genesis gs \<longleftrightarrow>
     (case vrg_params gs of None \<Rightarrow> False | Some p \<Rightarrow> validate_vr_params p = Inr ()) \<and>
     vrg_configs gs \<noteq> [] \<and> list_all validate_config (vrg_configs gs) \<and>
     list_all (\<lambda>v. vs_id v \<noteq> []) (vrg_schedules gs) \<and> distinct (map vs_id (vrg_schedules gs)) \<and>
     (vrg_claim_indexes gs \<noteq> [] \<longrightarrow>
        distinct (map fst (vrg_claim_indexes gs)) \<and>
        list_all (claim_index_ok (vrg_schedules gs)) (vrg_claim_indexes gs) \<and>
        list_all (\<lambda>v. vs_claim_id v = [] \<or> vs_claim_id v \<in> set (map fst (vrg_claim_indexes gs))) (vrg_schedules gs))"

section \<open>Messages\<close>

datatype vesting_category =
    VESTING_CATEGORY_UNSPECIFIED | VESTING_CATEGORY_VERIFICATION_REWARD | VESTING_CATEGORY_BLOCK_REWARD
  | VESTING_CATEGORY_BOUNTY_REWARD | VESTING_CATEGORY_DISPUTE_REWARD | VESTING_CATEGORY_RESEARCH_GRANT
  | VESTING_CATEGORY_BOOTSTRAP

record msg_create_vesting =
  cv_authority :: string
  cv_beneficiary :: string
  cv_amount :: string
  cv_category :: vesting_category
  cv_linked_fact_id :: string
  cv_start_height :: u64

record msg_claim_vesting =
  clv_claimer :: string
  clv_vesting_ids :: "string list"

text \<open>Pause and resume carry an authority and a schedule; the reason and evidence texts are only logged.\<close>

record msg_accelerate_vesting =
  av_authority :: string
  av_vesting_id :: string
  av_factor :: u32

fun map_category :: "vesting_category \<Rightarrow> string" where
  "map_category VESTING_CATEGORY_VERIFICATION_REWARD = ''formal_proof''"
| "map_category VESTING_CATEGORY_BLOCK_REWARD = ''axiomatic''"
| "map_category VESTING_CATEGORY_BOUNTY_REWARD = ''computational''"
| "map_category VESTING_CATEGORY_DISPUTE_REWARD = ''cryptographic''"
| "map_category VESTING_CATEGORY_RESEARCH_GRANT = ''peer_reviewed''"
| "map_category VESTING_CATEGORY_BOOTSTRAP = ''axiomatic''"
| "map_category VESTING_CATEGORY_UNSPECIFIED = ''peer_reviewed''"

definition validate_create_vesting :: "'b sdk \<Rightarrow> msg_create_vesting \<Rightarrow> bool" where
  "validate_create_vesting env m \<longleftrightarrow>
     cv_authority m \<noteq> [] \<and> cv_beneficiary m \<noteq> [] \<and> acc_address env (cv_beneficiary m) \<noteq> None \<and>
     cv_amount m \<noteq> [] \<and> positive_int (cv_amount m) \<noteq> None"

definition validate_claim_vesting :: "'b sdk \<Rightarrow> msg_claim_vesting \<Rightarrow> bool" where
  "validate_claim_vesting env m \<longleftrightarrow> acc_address env (clv_claimer m) \<noteq> None"

text \<open>\<open>MsgFalsifyVesting\<close>, \<open>MsgPauseVesting\<close>, \<open>MsgResumeVesting\<close>, \<open>MsgAccelerateVesting\<close>, \<open>MsgCompleteVesting\<close>.\<close>

definition validate_named_schedule :: "string \<Rightarrow> string \<Rightarrow> bool" where
  "validate_named_schedule who vesting_id \<longleftrightarrow> who \<noteq> [] \<and> vesting_id \<noteq> []"

end
