(* ===== verification/VR_State.thy ===== *)
theory VR_State
  imports VR_Types
begin

text \<open>
  The store of x/vesting_rewards (keeper/state.go), its parameters, the capped mint and genesis
  (keeper/keeper.go), and the index validator of the upgrade (keeper/knowledge_schedule.go).

  The bank and knowledge keepers are wired as app.go wires them; \<open>vr_disproven\<close> is what
  \<open>IsFactDisproven\<close> answers, \<open>None\<close> when no knowledge keeper is set.
\<close>

section \<open>State\<close>

record 'b vr_state =
  vr_params_record :: "vr_params option"
  vr_configs :: "(string, category_config) kv"
  vr_schedules :: "(string, vesting_schedule) kv"
  vr_claim_index :: "(string, string) kv"
  vr_recipient_index :: "(string, unit) kv"
  vr_active_index :: "(string, unit) kv"
  vr_clawbacks :: "(string, clawback_record) kv"
  vr_distributions :: "(u64, block_reward_distribution) kv"
  vr_total_minted :: "string option"
  vr_disproven :: "string list option"
  vr_bank :: 'b

type_synonym ('b, 'a) vr_outcome = "('b vr_state, vr_error, 'a) outcome"

abbreviation on_vr_bank ::
  "('b \<Rightarrow> ('b, string, unit) outcome) \<Rightarrow> 'b vr_state \<Rightarrow> ('b, unit) vr_outcome" where
  "on_vr_bank \<equiv> on_bank vr_bank (\<lambda>b. vr_bank_update (\<lambda>_. b)) VrBankError"

section \<open>Schedules and their indexes\<close>

definition recipient_key :: "string \<Rightarrow> string \<Rightarrow> string" where
  "recipient_key recipient vesting_id = recipient @ ''/'' @ vesting_id"

definition live_status :: "string \<Rightarrow> bool" where
  "live_status st \<longleftrightarrow> st = st_vesting \<or> st = st_paused"

text \<open>\<open>setVestingScheduleChecked\<close>; marshalling a schedule does not fail.\<close>

definition set_vesting_schedule :: "vesting_schedule \<Rightarrow> 'b vr_state \<Rightarrow> 'b vr_state" where
  "set_vesting_schedule v s =
     s\<lparr>vr_schedules := kv_set (vs_id v) v (vr_schedules s),
       vr_claim_index := (if vs_claim_id v \<noteq> [] then kv_set (vs_claim_id v) (vs_id v) (vr_claim_index s) else vr_claim_index s),
       vr_recipient_index := kv_set (recipient_key (vs_recipient v) (vs_id v)) () (vr_recipient_index s),
       vr_active_index := (if live_status (vs_status v) then kv_set (vs_id v) () (vr_active_index s)
                           else kv_del (vs_id v) (vr_active_index s))\<rparr>"

definition get_vesting_schedule :: "'b vr_state \<Rightarrow> string \<Rightarrow> vesting_schedule option" where
  "get_vesting_schedule s k = kv_get (vr_schedules s) k"

definition get_vesting_by_claim_id :: "'b vr_state \<Rightarrow> string \<Rightarrow> vesting_schedule option" where
  "get_vesting_by_claim_id s claim = (case kv_get (vr_claim_index s) claim of None \<Rightarrow> None | Some k \<Rightarrow> get_vesting_schedule s k)"

definition set_claim_schedule_index :: "string \<times> string \<Rightarrow> 'b vr_state \<Rightarrow> 'b vr_state" where
  "set_claim_schedule_index index s = s\<lparr>vr_claim_index := kv_set (fst index) (snd index) (vr_claim_index s)\<rparr>"

definition get_all_claim_schedule_indexes :: "'b vr_state \<Rightarrow> (string \<times> string) list" where
  "get_all_claim_schedule_indexes s = vr_claim_index s"

text \<open>The scan over \<open>recipient/\<close> takes the rest of each key as a schedule id.\<close>

definition get_vesting_schedules_by_recipient :: "'b vr_state \<Rightarrow> string \<Rightarrow> vesting_schedule list" where
  "get_vesting_schedules_by_recipient s recipient =
     List.map_filter (\<lambda>k. Option.bind (cut_prefix (recipient @ ''/'') k) (get_vesting_schedule s))
       (map fst (vr_recipient_index s))"

definition get_all_active_vesting_schedules :: "'b vr_state \<Rightarrow> vesting_schedule list" where
  "get_all_active_vesting_schedules s = List.map_filter (get_vesting_schedule s) (map fst (vr_active_index s))"

definition get_all_vesting_schedules :: "'b vr_state \<Rightarrow> vesting_schedule list" where
  "get_all_vesting_schedules s = map snd (vr_schedules s)"

definition set_clawback_record :: "clawback_record \<Rightarrow> 'b vr_state \<Rightarrow> 'b vr_state" where
  "set_clawback_record r s = s\<lparr>vr_clawbacks := kv_set (cr_id r) r (vr_clawbacks s)\<rparr>"

definition get_clawback_record :: "'b vr_state \<Rightarrow> string \<Rightarrow> clawback_record option" where
  "get_clawback_record s k = kv_get (vr_clawbacks s) k"

definition get_all_clawback_records :: "'b vr_state \<Rightarrow> clawback_record list" where
  "get_all_clawback_records s = map snd (vr_clawbacks s)"

definition set_block_reward_distribution :: "block_reward_distribution \<Rightarrow> 'b vr_state \<Rightarrow> 'b vr_state" where
  "set_block_reward_distribution d s = s\<lparr>vr_distributions := kv_set (brd_block_height d) d (vr_distributions s)\<rparr>"

definition get_block_reward_distribution :: "'b vr_state \<Rightarrow> u64 \<Rightarrow> block_reward_distribution option" where
  "get_block_reward_distribution s height = kv_get (vr_distributions s) height"

definition get_all_block_reward_distributions :: "'b vr_state \<Rightarrow> block_reward_distribution list" where
  "get_all_block_reward_distributions s = map snd (vr_distributions s)"

section \<open>Parameters and category settings\<close>

definition get_stored_params :: "'b vr_state \<Rightarrow> vr_error + vr_params" where
  "get_stored_params s = of_option ParamsMissing (vr_params_record s)"

definition get_vr_params :: "'b vr_state \<Rightarrow> vr_params" where
  "get_vr_params s = (case vr_params_record s of None \<Rightarrow> default_vr_params | Some p \<Rightarrow> p)"

definition write_vr_params :: "vr_params \<Rightarrow> 'b vr_state \<Rightarrow> 'b vr_state" where
  "write_vr_params p s = s\<lparr>vr_params_record := Some p\<rparr>"

definition has_legacy_economic_fields :: "vr_params \<Rightarrow> bool" where
  "has_legacy_economic_fields p \<longleftrightarrow>
     founder_share_bps p \<noteq> 0 \<or> founder_address p \<noteq> [] \<or> block_reward p \<noteq> ''0'' \<or> floor_reward p \<noteq> ''0'' \<or>
     empty_block_reward_rate p \<noteq> 0"

definition set_vr_params :: "vr_params \<Rightarrow> 'b vr_state \<Rightarrow> ('b, unit) vr_outcome" where
  "set_vr_params p s =
     try_in s (validate_vr_params p) (\<lambda>_.
     try_in s (get_stored_params s) (\<lambda>current.
     if has_legacy_economic_fields current then Fail s MigrationRequired
     else try_in s (validate_runtime_param_change current p) (\<lambda>_. Done (write_vr_params p s) ())))"

definition init_vr_params :: "vr_params option \<Rightarrow> 'b vr_state \<Rightarrow> ('b, unit) vr_outcome" where
  "init_vr_params po s =
     (case po of None \<Rightarrow> Fail s (InvalidParams ''nil'')
      | Some p \<Rightarrow> try_in s (validate_vr_params p) (\<lambda>_.
          if vr_params_record s \<noteq> None then Fail s ParamsPresent else Done (write_vr_params p s) ()))"

text \<open>\<open>Migrate1to2\<close> with the one writer that may cross the retirement.\<close>

definition migrate_1_to_2 :: "'b vr_state \<Rightarrow> ('b, unit) vr_outcome" where
  "migrate_1_to_2 s =
     try_in s (get_stored_params s) (\<lambda>p0.
     let p = p0\<lparr>founder_share_bps := 0, founder_address := [], block_reward := ''0'', floor_reward := ''0'',
                empty_block_reward_rate := 0\<rparr>
     in try_in s (validate_vr_params p) (\<lambda>_. Done (write_vr_params p s) ()))"

definition get_revenue_split :: "'b vr_state \<Rightarrow> revenue_split" where
  "get_revenue_split s = (case vp_revenue_split (get_vr_params s) of None \<Rightarrow> default_revenue_split | Some x \<Rightarrow> x)"

definition get_protocol_sub_split :: "'b vr_state \<Rightarrow> protocol_sub_split" where
  "get_protocol_sub_split s = (case vp_sub_split (get_vr_params s) of None \<Rightarrow> default_sub_split | Some x \<Rightarrow> x)"

definition get_category_config :: "'b vr_state \<Rightarrow> string \<Rightarrow> category_config option" where
  "get_category_config s category =
     (case kv_get (vr_configs s) category of
        None \<Rightarrow> find (\<lambda>c. cc_category c = category) default_category_configs
      | Some c \<Rightarrow> Some c)"

definition set_category_config :: "category_config \<Rightarrow> 'b vr_state \<Rightarrow> 'b vr_state" where
  "set_category_config c s = s\<lparr>vr_configs := kv_set (cc_category c) c (vr_configs s)\<rparr>"

definition get_all_category_configs :: "'b vr_state \<Rightarrow> category_config list" where
  "get_all_category_configs s = (if vr_configs s = [] then default_category_configs else map snd (vr_configs s))"

section \<open>Capped mint\<close>

definition get_total_minted :: "'b vr_state \<Rightarrow> int" where
  "get_total_minted s = (case vr_total_minted s of None \<Rightarrow> 0 | Some t \<Rightarrow> int_or_zero t)"

definition set_total_minted :: "int \<Rightarrow> 'b vr_state \<Rightarrow> 'b vr_state" where
  "set_total_minted x s = s\<lparr>vr_total_minted := Some (big_string x)\<rparr>"

definition mint_with_cap :: "'b sdk \<Rightarrow> string \<Rightarrow> int \<Rightarrow> 'b vr_state \<Rightarrow> ('b, int) vr_outcome" where
  "mint_with_cap env recipient_module amount s =
     (if amount \<le> 0 then Done s 0
      else
        let current = bank_supply env (vr_bank s) uzrn;
            remaining = max_supply_uzrn - current
        in if remaining \<le> 0 then Done s 0
        else
          let actual = (if remaining < amount then remaining else amount)
          in try_in s (of_option (VrPanic ''coins'') (new_coins env [(uzrn, actual)])) (\<lambda>coins.
             and_then (on_vr_bank (bank_mint env recipient_module coins) s) (\<lambda>s _.
             Done (set_total_minted (get_total_minted s + actual) s) actual)))"

section \<open>Genesis\<close>

definition init_vr_genesis :: "vr_genesis \<Rightarrow> 'b vr_state \<Rightarrow> ('b, unit) vr_outcome" where
  "init_vr_genesis gs s =
     and_then (init_vr_params (vrg_params gs) s) (\<lambda>s _.
     let s = fold set_category_config (vrg_configs gs) s;
         s = fold set_vesting_schedule (vrg_schedules gs) s;
         s = fold set_claim_schedule_index (vrg_claim_indexes gs) s;
         s = fold set_clawback_record (vrg_clawbacks gs) s;
         s = fold set_block_reward_distribution (vrg_distributions gs) s;
         minted = (case vrg_params gs of None \<Rightarrow> 0
                   | Some p \<Rightarrow> if initial_fund_balance p \<noteq> [] \<and> initial_fund_balance p \<noteq> ''0''
                       then int_or_zero (initial_fund_balance p) else 0)
     in Done (set_total_minted minted s) ())"

definition export_vr_genesis :: "'b vr_state \<Rightarrow> vr_genesis" where
  "export_vr_genesis s =
     \<lparr>vrg_params = Some ((get_vr_params s)\<lparr>initial_fund_balance := big_string (get_total_minted s)\<rparr>),
      vrg_configs = get_all_category_configs s, vrg_schedules = get_all_vesting_schedules s,
      vrg_clawbacks = get_all_clawback_records s, vrg_distributions = get_all_block_reward_distributions s,
      vrg_claim_indexes = get_all_claim_schedule_indexes s\<rparr>"

section \<open>Index validation\<close>

definition vesting_schedule_active :: "string \<Rightarrow> vr_error + bool" where
  "vesting_schedule_active st =
     (if st = st_vesting \<or> st = st_paused then Inr True
      else if st = st_completed \<or> st = st_falsified \<or> st = st_abandoned then Inr False
      else Inl (IndexBroken ''unknown vesting schedule status''))"

text \<open>A stored schedule read through an index; unreadable bytes cannot occur in a store of schedules.\<close>

definition decode_indexed_vesting_schedule :: "vesting_schedule option \<Rightarrow> string \<Rightarrow> vr_error + vesting_schedule" where
  "decode_indexed_vesting_schedule stored k =
     (case stored of None \<Rightarrow> Inl (IndexBroken ''vesting index has no primary schedule'')
      | Some v \<Rightarrow>
          if vs_id v \<noteq> k \<or> k = [] \<or> vs_recipient v = [] then Inl (IndexBroken ''vesting primary key/identity mismatch'')
          else bind_sum (vesting_schedule_active (vs_status v)) (\<lambda>_. Inr v))"

definition check_vesting_schedule_indexes :: "'b vr_state \<Rightarrow> vesting_schedule \<Rightarrow> vr_error + unit" where
  "check_vesting_schedule_indexes s v =
     (if kv_get (vr_recipient_index s) (recipient_key (vs_recipient v) (vs_id v)) = None
      then Inl (IndexBroken ''missing or malformed vesting recipient index'')
      else bind_sum (vesting_schedule_active (vs_status v)) (\<lambda>want.
        if want \<noteq> (kv_get (vr_active_index s) (vs_id v) \<noteq> None)
        then Inl (IndexBroken ''vesting status/active index mismatch'') else Inr ()))"

text \<open>One pass over the schedules, which crosses off the membership entries it explains.\<close>

fun cross_off :: "'b vr_state \<Rightarrow> vesting_schedule list \<Rightarrow> string list \<Rightarrow> string list \<Rightarrow> vr_error + (string list \<times> string list)" where
  "cross_off s [] recipients active = Inr (recipients, active)"
| "cross_off s (v # vs) recipients active =
     (if vs_claim_id v \<noteq> [] \<and>
         (case get_vesting_by_claim_id s (vs_claim_id v) of None \<Rightarrow> True | Some w \<Rightarrow> vs_claim_id w \<noteq> vs_claim_id v)
      then Inl (IndexBroken ''vesting primary has missing or conflicting claim index'')
      else if recipient_key (vs_recipient v) (vs_id v) \<notin> set recipients
      then Inl (IndexBroken ''vesting primary has no recipient index'')
      else bind_sum (vesting_schedule_active (vs_status v)) (\<lambda>want.
        if (vs_id v \<in> set active) \<noteq> want then Inl (IndexBroken ''vesting primary has inconsistent active index'')
        else cross_off s vs (removeAll (recipient_key (vs_recipient v) (vs_id v)) recipients) (removeAll (vs_id v) active)))"

text \<open>
  The scan of the store: the schedules, the claim index and the two membership indexes, in the order of their
  prefixes.  A key is its prefix byte and a suffix; the length of the protobuf encoding of a schedule, which
  the store holds, is an argument.
\<close>

datatype index_entry = ScheduleEntry string vesting_schedule | ClaimEntry string string | RecipientEntry string | ActiveEntry string

fun entry_size :: "(vesting_schedule \<Rightarrow> nat) \<Rightarrow> index_entry \<Rightarrow> nat" where
  "entry_size encoded (ScheduleEntry k v) = 1 + length k + encoded v"
| "entry_size encoded (ClaimEntry k l) = 1 + length k + length l"
| "entry_size encoded (RecipientEntry k) = 1 + length k + 1"
| "entry_size encoded (ActiveEntry k) = 1 + length k + 1"

fun check_entry :: "index_entry \<Rightarrow> vr_error + unit" where
  "check_entry (ScheduleEntry k v) =
     (if k = [] then Inl (IndexBroken ''invalid vesting index key'')
      else bind_sum (decode_indexed_vesting_schedule (Some v) k) (\<lambda>_. Inr ()))"
| "check_entry (ClaimEntry k l) =
     (if k = [] then Inl (IndexBroken ''invalid vesting index key'')
      else if l = [] then Inl (IndexBroken ''empty vesting claim index'') else Inr ())"
| "check_entry (RecipientEntry k) = (if k = [] then Inl (IndexBroken ''invalid vesting index key'') else Inr ())"
| "check_entry (ActiveEntry k) = (if k = [] then Inl (IndexBroken ''invalid vesting index key'') else Inr ())"

definition index_entries :: "'b vr_state \<Rightarrow> index_entry list" where
  "index_entries s = map (\<lambda>(k, v). ScheduleEntry k v) (vr_schedules s) @ map (\<lambda>(k, l). ClaimEntry k l) (vr_claim_index s) @
     map (RecipientEntry \<circ> fst) (vr_recipient_index s) @ map (ActiveEntry \<circ> fst) (vr_active_index s)"

fun scan_entries :: "(vesting_schedule \<Rightarrow> nat) \<Rightarrow> nat \<Rightarrow> nat \<Rightarrow> index_entry list \<Rightarrow> nat \<Rightarrow> nat \<Rightarrow> vr_error + unit" where
  "scan_entries encoded max_entries max_bytes [] entries bytes = Inr ()"
| "scan_entries encoded max_entries max_bytes (e # es) entries bytes =
     (let entries = entries + 1; bytes = bytes + entry_size encoded e
      in if max_entries < entries \<or> max_bytes < bytes then Inl (IndexBroken ''vesting index validation exceeds upgrade scan bounds'')
         else bind_sum (check_entry e) (\<lambda>_. scan_entries encoded max_entries max_bytes es entries bytes))"

text \<open>\<open>validateKnowledgeVestingState\<close>, and the bounds that the upgrade calls it with.\<close>

definition validate_vesting_within :: "(vesting_schedule \<Rightarrow> nat) \<Rightarrow> nat \<Rightarrow> nat \<Rightarrow> 'b vr_state \<Rightarrow> vr_error + unit" where
  "validate_vesting_within encoded max_entries max_bytes s =
     bind_sum (scan_entries encoded max_entries max_bytes (index_entries s) 0 0) (\<lambda>_.
     bind_sum (cross_off s (map snd (vr_schedules s)) (map fst (vr_recipient_index s)) (map fst (vr_active_index s)))
       (\<lambda>(recipients, active).
       if \<not> list_all (\<lambda>e. case get_vesting_schedule s (snd e) of None \<Rightarrow> False | Some v \<Rightarrow> vs_claim_id v = fst e) (vr_claim_index s)
       then Inl (IndexBroken ''orphan or conflicting vesting claim index'')
       else if recipients \<noteq> [] \<or> active \<noteq> [] then Inl (IndexBroken ''orphan vesting membership index'')
       else Inr ()))"

definition scan_entry_bound :: nat where "scan_entry_bound = 100000"
definition scan_byte_bound :: nat where "scan_byte_bound = 64 * 1048576"

definition validate_knowledge_vesting_state :: "(vesting_schedule \<Rightarrow> nat) \<Rightarrow> 'b vr_state \<Rightarrow> vr_error + unit" where
  "validate_knowledge_vesting_state encoded s = validate_vesting_within encoded scan_entry_bound scan_byte_bound s"

end
