(* ===== verification/VR_Vesting.thy ===== *)
theory VR_Vesting
  imports VR_State
begin

text \<open>
  Schedules of x/vesting_rewards: creation, the release curve, claims, pauses and accelerations
  (keeper/vesting.go), the handoff from the knowledge module (keeper/knowledge_schedule.go) and the
  end-of-block update (module.go).

  \<open>digest\<close> stands for the hexadecimal text of the first 16 bytes of SHA-256; nothing is assumed of it,
  since creation checks that the keys it leads to are free.
\<close>

section \<open>The release curve\<close>

definition fixed_point_precision :: int where
  "fixed_point_precision = 10 ^ 18"

definition ln2_scaled :: int where
  "ln2_scaled = 693147"

definition fractional_scale :: int where
  "fractional_scale = 1000000"

text \<open>The Taylor polynomial of \<open>exp (- x)\<close> for \<open>x\<close> in millionths, clamped to the unit interval.\<close>

definition decay_series :: "int \<Rightarrow> int" where
  "decay_series x =
     (let xfp = x * (fixed_point_precision div fractional_scale);
          r0 = fixed_point_precision - xfp;
          x2 = xfp * xfp div fixed_point_precision;
          r2 = r0 + x2 div 2;
          x3 = x2 * xfp div fixed_point_precision;
          r3 = r2 - x3 div 6;
          x4 = x3 * xfp div fixed_point_precision;
          r4 = r3 + x4 div 24;
          r5 = (if r4 < 0 then 0 else r4)
      in if fixed_point_precision < r5 then fixed_point_precision else r5)"

text \<open>\<open>(*big.Int).Div\<close> for a divisor other than zero: the remainder is never negative.\<close>

definition euclid_div :: "int \<Rightarrow> int \<Rightarrow> int" where
  "euclid_div n d = (if 0 < d then n div d else - (n div (- d)))"

text \<open>\<open>int64(x)\<close> of an unsigned 64-bit word is its signed reading.\<close>

definition calculate_halving_factor :: "u64 \<Rightarrow> u64 \<Rightarrow> int" where
  "calculate_halving_factor elapsed half_life =
     (if elapsed = 0 then fixed_point_precision
      else
        let full = elapsed div half_life; rest = elapsed mod half_life
        in if 60 \<le> full then 0
        else
          let remaining = fixed_point_precision div 2 ^ unat full
          in if 0 < rest
             then remaining * decay_series (euclid_div (sint rest * ln2_scaled) (sint half_life)) div fixed_point_precision
             else remaining)"

definition capped_bonus :: "u64 \<Rightarrow> u64 \<Rightarrow> u64 \<Rightarrow> u64" where
  "capped_bonus count weight cap = (if cap < count * weight then cap else count * weight)"

definition acceleration_bonus_bps :: "vesting_schedule \<Rightarrow> u64" where
  "acceleration_bonus_bps v =
     (let bonus = capped_bonus (ucast (vs_defenses v)) 1100 5500 + capped_bonus (ucast (vs_replications v)) 1100 3300
                + capped_bonus (ucast (vs_corroborations v)) 500 2200 + capped_bonus (ucast (vs_citations v)) 200 2200
      in if 7700 < bonus then 7700 else bonus)"

definition effective_half_life :: "u64 \<Rightarrow> vesting_schedule \<Rightarrow> u64" where
  "effective_half_life half_life v =
     (let bonus = acceleration_bonus_bps v
      in if 0 < bonus
         then (let e = half_life * 10000 div (10000 + bonus) in if e = 0 then 1 else e)
         else half_life)"

text \<open>Blocks that count towards the release: since acceptance, without pauses.\<close>

definition elapsed_blocks :: "u64 \<Rightarrow> vesting_schedule \<Rightarrow> u64" where
  "elapsed_blocks height v =
     (let elapsed = height - vs_accepted_at v - vs_total_paused v
      in if vs_status v = st_paused \<and> 0 < vs_paused_at v
         then (let current = height - vs_paused_at v in if elapsed < current then 0 else elapsed - current)
         else elapsed)"

definition release_fraction :: "u64 \<Rightarrow> u64 \<Rightarrow> u64 \<Rightarrow> int" where
  "release_fraction elapsed half_life max_release =
     (let f0 = fixed_point_precision - calculate_halving_factor elapsed half_life;
          f1 = (if f0 < 0 then 0 else f0);
          cap = sint max_release * fixed_point_precision div 1000000
      in if cap < f1 then cap else f1)"

definition calculate_released_amount :: "int \<Rightarrow> 'b vr_state \<Rightarrow> vesting_schedule \<Rightarrow> string" where
  "calculate_released_amount h s v =
     (let height = to_u64 h in
      case get_category_config s (vs_category v) of
        None \<Rightarrow> ''0''
      | Some cfg \<Rightarrow>
          if height < vs_cliff_ends_at v then ''0''
          else
            let elapsed = elapsed_blocks height v
            in if elapsed \<le> cc_cliff cfg then ''0''
            else if cc_half_life cfg = 0 then ''0''
            else
              let fraction = release_fraction (elapsed - cc_cliff cfg) (effective_half_life (cc_half_life cfg) v) (cc_max_release cfg)
              in (case big_set_string (vs_total v) of
                    None \<Rightarrow> ''0''
                  | Some total_big \<Rightarrow> big_string (total_big * fraction div fixed_point_precision)))"

section \<open>Creation\<close>

definition new_schedule ::
  "string \<Rightarrow> u64 \<Rightarrow> string \<Rightarrow> string \<Rightarrow> string \<Rightarrow> string \<Rightarrow> int \<Rightarrow> string \<Rightarrow> string \<Rightarrow> category_config \<Rightarrow> vesting_schedule" where
  "new_schedule vesting_id height claim_id fact_id recipient total_amount total_big category source cfg =
     \<lparr>vs_id = vesting_id, vs_claim_id = claim_id, vs_fact_id = fact_id, vs_recipient = recipient, vs_total = total_amount,
      vs_released = ''0'', vs_claimable = ''0'',
      vs_reserve = big_string (total_big * sint (1000000 - cc_max_release cfg) div 1000000),
      vs_category = category, vs_source = source, vs_status = st_vesting, vs_accepted_at = height,
      vs_cliff_ends_at = height + cc_cliff cfg, vs_last_claim = height, vs_total_paused = 0, vs_paused_at = 0,
      vs_defenses = 0, vs_replications = 0, vs_created_at = height, vs_updated_at = height, vs_corroborations = 0,
      vs_citations = 0\<rparr>"

definition schedule_id :: "(string \<Rightarrow> string) \<Rightarrow> string \<Rightarrow> string \<Rightarrow> u64 \<Rightarrow> string" where
  "schedule_id digest claim_id recipient height =
     digest (''vesting:'' @ claim_id @ '':'' @ recipient @ '':'' @ format_u64 height)"

definition create_vesting_schedule_with_config ::
  "(string \<Rightarrow> string) \<Rightarrow> int \<Rightarrow> string \<Rightarrow> string \<Rightarrow> string \<Rightarrow> string \<Rightarrow> string \<Rightarrow> string \<Rightarrow> category_config
   \<Rightarrow> 'b vr_state \<Rightarrow> ('b, vesting_schedule) vr_outcome" where
  "create_vesting_schedule_with_config digest h claim_id fact_id recipient total_amount category source cfg s =
     (let height = to_u64 h in
      try_in s (of_option InvalidRewardAmount (positive_int total_amount)) (\<lambda>total_big.
      let vesting_id = schedule_id digest claim_id recipient height;
          v = new_schedule vesting_id height claim_id fact_id recipient total_amount total_big category source cfg
      in if kv_get (vr_schedules s) vesting_id \<noteq> None \<or>
            kv_get (vr_recipient_index s) (recipient_key recipient vesting_id) \<noteq> None \<or>
            kv_get (vr_active_index s) vesting_id \<noteq> None
         then Fail s CreationKeyExists
         else Done (set_vesting_schedule v s) v))"

definition create_vesting_schedule ::
  "(string \<Rightarrow> string) \<Rightarrow> int \<Rightarrow> string \<Rightarrow> string \<Rightarrow> string \<Rightarrow> string \<Rightarrow> string \<Rightarrow> string \<Rightarrow> 'b vr_state
   \<Rightarrow> ('b, vesting_schedule) vr_outcome" where
  "create_vesting_schedule digest h claim_id fact_id recipient total_amount category source s =
     try_in s (of_option InvalidCategory (get_category_config s category)) (\<lambda>cfg.
     create_vesting_schedule_with_config digest h claim_id fact_id recipient total_amount category source cfg s)"

definition distribute_falsification_reward ::
  "(string \<Rightarrow> string) \<Rightarrow> int \<Rightarrow> string \<Rightarrow> string \<Rightarrow> string \<Rightarrow> string \<Rightarrow> 'b vr_state \<Rightarrow> ('b, unit) vr_outcome" where
  "distribute_falsification_reward digest h counter_fact_id target_fact_id recipient amount s =
     discard (create_vesting_schedule digest h counter_fact_id target_fact_id recipient amount ''computational'' ''falsification'' s)"

section \<open>Handoff from the knowledge module\<close>

definition map_epistemic_category :: "string \<Rightarrow> string" where
  "map_epistemic_category e =
     (if e = ''protocol'' \<or> e = ''analytic'' then ''axiomatic''
      else if e = ''formal'' then ''formal_proof''
      else if e = ''computational'' then ''computational''
      else if e = ''empirical'' then ''peer_reviewed''
      else if e = ''historical'' then ''attestation''
      else if e = ''replicated'' then ''replicated''
      else if e = ''social'' \<or> e = ''predictive'' then ''attestation''
      else ''peer_reviewed'')"

definition knowledge_category_config :: "int \<Rightarrow> string \<Rightarrow> 'b vr_state \<Rightarrow> vr_error + category_config" where
  "knowledge_category_config h category s =
     (case get_category_config s category of
        None \<Rightarrow> Inl InvalidCategory
      | Some cfg \<Rightarrow>
          if cc_category cfg \<noteq> category \<or> 1000000 < cc_max_release cfg \<or> cc_half_life cfg = 0 \<or> h < 0
             \<or> max_u64 - to_u64 h < cc_cliff cfg
          then Inl InvalidCategory else Inr cfg)"

definition progress_ok :: "int \<Rightarrow> string \<Rightarrow> int option" where
  "progress_ok total_big amount = (case big_set_string amount of
     None \<Rightarrow> None | Some x \<Rightarrow> if x < 0 \<or> total_big < x then None else Some x)"

definition check_existing_knowledge_schedule ::
  "string \<Rightarrow> string \<Rightarrow> string \<Rightarrow> int \<Rightarrow> string \<Rightarrow> vesting_schedule \<Rightarrow> vr_error + unit" where
  "check_existing_knowledge_schedule claim_id fact_id recipient total_big category v =
     (if big_set_string (vs_total v) \<noteq> Some total_big \<or> vs_claim_id v \<noteq> claim_id \<or> vs_fact_id v \<noteq> fact_id
         \<or> vs_recipient v \<noteq> recipient \<or> vs_category v \<noteq> category \<or> vs_source v \<noteq> ''verification''
      then Inl KnowledgeConflict
      else bind_sum (of_option KnowledgeConflict (progress_ok total_big (vs_released v))) (\<lambda>released.
           bind_sum (of_option KnowledgeConflict (progress_ok total_big (vs_claimable v))) (\<lambda>claimable.
           bind_sum (of_option KnowledgeConflict (progress_ok total_big (vs_reserve v))) (\<lambda>_.
           if total_big < released + claimable then Inl KnowledgeConflict else Inr ()))))"

definition create_knowledge_vesting_schedule ::
  "(string \<Rightarrow> string) \<Rightarrow> int \<Rightarrow> string \<Rightarrow> string \<Rightarrow> string \<Rightarrow> string \<Rightarrow> string \<Rightarrow> 'b vr_state \<Rightarrow> ('b, unit) vr_outcome" where
  "create_knowledge_vesting_schedule digest h claim_id fact_id recipient amount epistemic s =
     (if claim_id = [] \<or> fact_id = [] \<or> recipient = [] then Fail s VrInvalidMessage
      else try_in s (of_option InvalidRewardAmount (positive_int amount)) (\<lambda>total_big.
      let category = map_epistemic_category epistemic in
      case kv_get (vr_claim_index s) claim_id of
        Some k \<Rightarrow>
          if k = [] then Fail s (IndexBroken ''empty knowledge claim index'')
          else try_in s (decode_indexed_vesting_schedule (get_vesting_schedule s k) k) (\<lambda>v.
               try_in s (check_existing_knowledge_schedule claim_id fact_id recipient total_big category v) (\<lambda>_.
               try_in s (check_vesting_schedule_indexes s v) (\<lambda>_. Done s ())))
      | None \<Rightarrow>
          try_in s (knowledge_category_config h category s) (\<lambda>cfg.
          discard (create_vesting_schedule_with_config digest h claim_id fact_id recipient amount category ''verification'' cfg s))))"

section \<open>Claims\<close>

definition update_claimable_amount :: "int \<Rightarrow> string \<Rightarrow> 'b vr_state \<Rightarrow> ('b, unit) vr_outcome" where
  "update_claimable_amount h vesting_id s =
     try_in s (of_option ScheduleNotFound (get_vesting_schedule s vesting_id)) (\<lambda>v.
     if vs_status v = st_falsified \<or> vs_status v = st_completed \<or> vs_status v = st_abandoned then Done s ()
     else
       let released = int_or_zero (calculate_released_amount h s v);
           already = int_or_zero (vs_released v);
           claimable = (if released - already < 0 then 0 else released - already)
       in Done (set_vesting_schedule (v\<lparr>vs_claimable := big_string claimable, vs_updated_at := to_u64 h\<rparr>) s) ())"

text \<open>One turn of the loop of \<open>ClaimRewards\<close>; the result is what was claimed from this schedule.\<close>

definition claim_one :: "int \<Rightarrow> vesting_schedule \<Rightarrow> 'b vr_state \<Rightarrow> ('b, int) vr_outcome" where
  "claim_one h v0 s =
     (if vs_status v0 \<noteq> st_vesting then Done s 0
      else case update_claimable_amount h (vs_id v0) s of
        Fail s e \<Rightarrow> Done s 0
      | Done s u \<Rightarrow>
          try_in s (of_option (VrPanic ''nil schedule'') (get_vesting_schedule s (vs_id v0))) (\<lambda>v.
          let claimable = int_or_zero (vs_claimable v)
          in if claimable \<le> 0 then Done s 0
             else
               let released = int_or_zero (vs_released v) + claimable;
                   v = v\<lparr>vs_released := big_string released, vs_claimable := ''0'', vs_last_claim := to_u64 h,
                         vs_updated_at := to_u64 h\<rparr>
               in try_in s (of_option (VrPanic ''nil category'') (get_category_config s (vs_category v))) (\<lambda>cfg.
                  let max_release = int_or_zero (vs_total v) * sint (cc_max_release cfg) div 1000000;
                      v = (if max_release \<le> released then v\<lparr>vs_status := st_completed\<rparr> else v)
                  in Done (set_vesting_schedule v s) claimable)))"

fun claim_each :: "int \<Rightarrow> vesting_schedule list \<Rightarrow> 'b vr_state \<Rightarrow> ('b, int) vr_outcome" where
  "claim_each h [] s = Done s 0"
| "claim_each h (v # vs) s =
     and_then (claim_one h v s) (\<lambda>s x. and_then (claim_each h vs s) (\<lambda>s y. Done s (x + y)))"

definition claimed_schedules :: "string \<Rightarrow> string \<Rightarrow> 'b vr_state \<Rightarrow> vr_error + vesting_schedule list" where
  "claimed_schedules recipient vesting_id s =
     (if vesting_id \<noteq> [] then
        bind_sum (of_option ScheduleNotFound (get_vesting_schedule s vesting_id)) (\<lambda>v.
        if vs_recipient v \<noteq> recipient then Inl VrUnauthorized else Inr [v])
      else Inr (get_vesting_schedules_by_recipient s recipient))"

definition claim_rewards :: "'b sdk \<Rightarrow> int \<Rightarrow> string \<Rightarrow> string \<Rightarrow> 'b vr_state \<Rightarrow> ('b, string) vr_outcome" where
  "claim_rewards env h recipient vesting_id s =
     try_in s (claimed_schedules recipient vesting_id s) (\<lambda>vs.
     and_then (claim_each h vs s) (\<lambda>s total_big.
     if total_big = 0 then Fail s NothingToClaim
     else and_then
       (case acc_address env recipient of
          None \<Rightarrow> Done s ()
        | Some a \<Rightarrow>
            if 0 < total_big then
              try_in s (of_option (VrPanic ''coins'') (new_coins env [(uzrn, total_big)])) (\<lambda>coins.
              on_vr_bank (bank_to_account env vr_module_name a coins) s)
            else Done s ())
       (\<lambda>s _. Done s (big_string total_big))))"

section \<open>Pauses and accelerations\<close>

definition pause_vesting :: "int \<Rightarrow> string \<Rightarrow> 'b vr_state \<Rightarrow> ('b, unit) vr_outcome" where
  "pause_vesting h vesting_id s =
     try_in s (of_option ScheduleNotFound (get_vesting_schedule s vesting_id)) (\<lambda>v.
     if vs_status v \<noteq> st_vesting then Done s ()
     else Done (set_vesting_schedule (v\<lparr>vs_status := st_paused, vs_paused_at := to_u64 h, vs_updated_at := to_u64 h\<rparr>) s) ())"

definition resume_vesting :: "int \<Rightarrow> string \<Rightarrow> 'b vr_state \<Rightarrow> ('b, unit) vr_outcome" where
  "resume_vesting h vesting_id s =
     try_in s (of_option ScheduleNotFound (get_vesting_schedule s vesting_id)) (\<lambda>v.
     if vs_status v \<noteq> st_paused then Done s ()
     else Done (set_vesting_schedule (v\<lparr>vs_total_paused := vs_total_paused v + (to_u64 h - vs_paused_at v),
            vs_paused_at := 0, vs_status := st_vesting, vs_updated_at := to_u64 h\<rparr>) s) ())"

definition record_defense :: "int \<Rightarrow> string \<Rightarrow> 'b vr_state \<Rightarrow> ('b, unit) vr_outcome" where
  "record_defense h vesting_id s =
     try_in s (of_option ScheduleNotFound (get_vesting_schedule s vesting_id)) (\<lambda>v.
     Done (set_vesting_schedule (v\<lparr>vs_defenses := vs_defenses v + 1, vs_updated_at := to_u64 h\<rparr>) s) ())"

definition record_replication :: "int \<Rightarrow> string \<Rightarrow> 'b vr_state \<Rightarrow> ('b, unit) vr_outcome" where
  "record_replication h vesting_id s =
     try_in s (of_option ScheduleNotFound (get_vesting_schedule s vesting_id)) (\<lambda>v.
     Done (set_vesting_schedule (v\<lparr>vs_replications := vs_replications v + 1, vs_updated_at := to_u64 h\<rparr>) s) ())"

definition record_corroboration :: "int \<Rightarrow> string \<Rightarrow> 'b vr_state \<Rightarrow> ('b, unit) vr_outcome" where
  "record_corroboration h vesting_id s =
     try_in s (of_option ScheduleNotFound (get_vesting_schedule s vesting_id)) (\<lambda>v.
     Done (set_vesting_schedule (v\<lparr>vs_corroborations := vs_corroborations v + 1, vs_updated_at := to_u64 h\<rparr>) s) ())"

definition record_citation :: "int \<Rightarrow> string \<Rightarrow> 'b vr_state \<Rightarrow> ('b, unit) vr_outcome" where
  "record_citation h vesting_id s =
     try_in s (of_option ScheduleNotFound (get_vesting_schedule s vesting_id)) (\<lambda>v.
     Done (set_vesting_schedule (v\<lparr>vs_citations := vs_citations v + 1, vs_updated_at := to_u64 h\<rparr>) s) ())"

definition pause_vesting_by_claim_id :: "int \<Rightarrow> string \<Rightarrow> 'b vr_state \<Rightarrow> ('b, unit) vr_outcome" where
  "pause_vesting_by_claim_id h claim_id s =
     (case get_vesting_by_claim_id s claim_id of None \<Rightarrow> Done s () | Some v \<Rightarrow> pause_vesting h (vs_id v) s)"

definition resume_vesting_by_claim_id :: "int \<Rightarrow> string \<Rightarrow> 'b vr_state \<Rightarrow> ('b, unit) vr_outcome" where
  "resume_vesting_by_claim_id h claim_id s =
     (case get_vesting_by_claim_id s claim_id of None \<Rightarrow> Done s () | Some v \<Rightarrow> resume_vesting h (vs_id v) s)"

text \<open>The result is the number of schedules paused.\<close>

definition pause_all_vesting_by_recipient :: "int \<Rightarrow> string \<Rightarrow> 'b vr_state \<Rightarrow> ('b, nat) vr_outcome" where
  "pause_all_vesting_by_recipient h recipient s =
     (let live = filter (\<lambda>v. vs_status v = st_vesting) (get_vesting_schedules_by_recipient s recipient);
          step = (\<lambda>v (s, n). case pause_vesting h (vs_id v) s of Fail s e \<Rightarrow> (s, n) | Done s u \<Rightarrow> (s, Suc n));
          (s, n) = fold step live (s, 0)
      in Done s n)"

section \<open>End of block\<close>

definition vr_end_block :: "int \<Rightarrow> 'b vr_state \<Rightarrow> ('b, unit) vr_outcome" where
  "vr_end_block h s =
     Done (fold (\<lambda>v s. if vs_status v = st_vesting then final_state (update_claimable_amount h (vs_id v) s) else s)
       (get_all_active_vesting_schedules s) s) ()"

end
