(* ===== verification/VR_Msgs.thy ===== *)
theory VR_Msgs
  imports VR_Vesting
begin

text \<open>
  Money paths of x/vesting_rewards (keeper/rewards.go), its message handlers (keeper/msg_server.go), the
  calls other modules make on the keeper (keeper/knowledge_adapters.go, x/gov), the block hooks
  (module.go) and the queries (keeper/grpc_query.go).

  The module authority is the argument \<open>authority\<close>, \<open>digest\<close> the truncated SHA-256 text of VR_Vesting.
\<close>

section \<open>Revenue split\<close>

record reward_routing =
  rr_source :: string
  rr_original_amount :: string
  rr_contributor :: string
  rr_protocol :: string
  rr_research :: string
  rr_development :: string
  rr_recipient :: string
  rr_fact_id :: string
  rr_block_number :: u64
  rr_founder :: string
  rr_citation :: string
  rr_verification :: string
  rr_treasury :: string

definition bps_share :: "int \<Rightarrow> u64 \<Rightarrow> int" where
  "bps_share amount bps = amount * sint bps div 1000000"

definition distribute_revenue ::
  "int \<Rightarrow> string \<Rightarrow> string \<Rightarrow> string \<Rightarrow> string \<Rightarrow> 'b vr_state \<Rightarrow> vr_error + reward_routing" where
  "distribute_revenue h source amount recipient fact_id s =
     bind_sum (of_option InvalidRewardAmount (positive_int amount)) (\<lambda>x.
     let split = get_revenue_split s;
         sub = get_protocol_sub_split s;
         contributor = bps_share x (contributor_bps split);
         protocol = bps_share x (protocol_bps split);
         research = bps_share x (research_bps split);
         dev = x - contributor - protocol - research;
         dev = (if dev < 0 then 0 else dev);
         citation = bps_share protocol (citation_bps sub);
         verification = bps_share protocol (verification_bps sub);
         treasury = protocol - citation - verification;
         treasury = (if treasury < 0 then 0 else treasury)
     in Inr \<lparr>rr_source = source, rr_original_amount = amount, rr_contributor = big_string contributor,
         rr_protocol = big_string protocol, rr_research = big_string research, rr_development = big_string dev,
         rr_recipient = recipient, rr_fact_id = fact_id, rr_block_number = to_u64 h, rr_founder = ''0'',
         rr_citation = big_string citation, rr_verification = big_string verification,
         rr_treasury = big_string treasury\<rparr>)"

section \<open>Funds\<close>

fun deposit_each :: "'b sdk \<Rightarrow> coins \<Rightarrow> 'b vr_state \<Rightarrow> ('b, unit) vr_outcome" where
  "deposit_each env [] s = Done s ()"
| "deposit_each env (c # cs) s =
     and_then
       (if 0 < snd c
        then try_in s (of_option (VrPanic ''coins'') (new_coins env [c])) (\<lambda>coins.
             on_vr_bank (bank_mod_to_mod env vr_module_name research_fund_name coins) s)
        else Done s ())
       (\<lambda>s _. deposit_each env cs s)"

definition deposit_to_research_fund :: "'b sdk \<Rightarrow> string \<Rightarrow> coins \<Rightarrow> 'b vr_state \<Rightarrow> ('b, unit) vr_outcome" where
  "deposit_to_research_fund env source cs s =
     (if list_all (\<lambda>c. snd c = 0) cs then Done s ()
      else and_then
        (if source \<noteq> vr_module_name then on_vr_bank (bank_mod_to_mod env source vr_module_name cs) s else Done s ())
        (\<lambda>s _. deposit_each env cs s))"

definition disburse_from_research_fund :: "'b sdk \<Rightarrow> addr \<Rightarrow> coins \<Rightarrow> 'b vr_state \<Rightarrow> ('b, unit) vr_outcome" where
  "disburse_from_research_fund env recipient cs s = on_vr_bank (bank_to_account env research_fund_name recipient cs) s"

definition disburse_from_development_fund :: "'b sdk \<Rightarrow> addr \<Rightarrow> coins \<Rightarrow> 'b vr_state \<Rightarrow> ('b, unit) vr_outcome" where
  "disburse_from_development_fund env recipient cs s = on_vr_bank (bank_to_account env development_fund_name recipient cs) s"

text \<open>
  The share of a fee balance: \<open>MulRaw\<close> panics beyond 256 bits.  \<open>QuoRaw\<close> truncates towards zero and \<open>div\<close>
  rounds down; they agree on a share that is sent, which is positive.
\<close>

definition fee_share :: "int \<Rightarrow> u64 \<Rightarrow> int option" where
  "fee_share balance bps = (let x = balance * sint bps in if fits_sdk_int x then Some (x div 1000000) else None)"

text \<open>The research leg; the result says whether the loop goes on to the development leg.\<close>

definition route_research_share :: "'b sdk \<Rightarrow> int \<Rightarrow> 'b vr_state \<Rightarrow> ('b, bool) vr_outcome" where
  "route_research_share env share s =
     (if share \<le> 0 then Done s True
      else try_in s (of_option (VrPanic ''coins'') (new_coins env [(uzrn, share)])) (\<lambda>coins.
        case on_vr_bank (bank_mod_to_mod env fee_collector_name vr_module_name coins) s of
          Fail s e \<Rightarrow> Done s False
        | Done s u \<Rightarrow> Done (final_state (deposit_to_research_fund env vr_module_name coins s)) True))"

definition route_development_share :: "'b sdk \<Rightarrow> int \<Rightarrow> 'b vr_state \<Rightarrow> ('b, unit) vr_outcome" where
  "route_development_share env share s =
     (if share \<le> 0 then Done s ()
      else try_in s (of_option (VrPanic ''coins'') (new_coins env [(uzrn, share)])) (\<lambda>coins.
        Done (final_state (on_vr_bank (bank_mod_to_mod env fee_collector_name development_fund_name coins) s)) ()))"

text \<open>Only the native coin of the fee collector is routed; it is absent from the balances when zero.\<close>

definition route_fees :: "'b sdk \<Rightarrow> 'b vr_state \<Rightarrow> ('b, unit) vr_outcome" where
  "route_fees env s =
     (let split = get_revenue_split s;
          balance = bank_balance env (vr_bank s) (module_address env fee_collector_name) uzrn
      in if protocol_bps split = 0 \<and> research_bps split = 0 \<and> development_bps split = 0 then Done s ()
      else if balance \<le> 0 then Done s ()
      else try_in s (of_option (VrPanic ''MulRaw'') (fee_share balance (research_bps split))) (\<lambda>research.
           and_then (route_research_share env research s) (\<lambda>s go_on.
           if \<not> go_on then Done s ()
           else try_in s (of_option (VrPanic ''MulRaw'') (fee_share balance (development_bps split))) (\<lambda>dev.
                route_development_share env dev s))))"

text \<open>The retired block reward: the record it returns has no amounts, and nothing is written.\<close>

definition get_epoch_block_reward_pool :: "u64 \<Rightarrow> u64" where
  "get_epoch_block_reward_pool epoch = 0"

definition distribute_block_reward :: "int \<Rightarrow> u32 \<Rightarrow> 'b vr_state \<Rightarrow> ('b, block_reward_distribution) vr_outcome" where
  "distribute_block_reward h validators s =
     Done s \<lparr>brd_block_height = to_u64 h, brd_producer_reward = ''0'', brd_research_share = ''0'', brd_total_minted = ''0'',
       brd_validator_count = validators, brd_fund_balance_after = big_string (get_total_minted s), brd_founder_share = ''0'',
       brd_development_amount = ''0'', brd_protocol_share = ''0''\<rparr>"

section \<open>Falsification\<close>

definition clawback_of :: "(string \<Rightarrow> string) \<Rightarrow> int \<Rightarrow> u64 \<Rightarrow> string \<Rightarrow> vesting_schedule \<Rightarrow> clawback_record" where
  "clawback_of digest h rate claim_id v =
     (let released = int_or_zero (vs_released v);
          released_clawback = released * sint rate div 10000;
          reserve = int_or_zero (vs_reserve v);
          unvested = int_or_zero (vs_total v) - released - reserve;
          unvested = (if unvested < 0 then 0 else unvested)
      in \<lparr>cr_id = digest (''clawback:'' @ claim_id @ '':'' @ format_u64 (to_u64 h)), cr_vesting_id = vs_id v,
          cr_released_clawback = big_string released_clawback, cr_unvested_forfeited = big_string unvested,
          cr_reserve_forfeited = big_string reserve,
          cr_challenger_reward = big_string (released_clawback + unvested + reserve), cr_block_height = to_u64 h\<rparr>)"

definition falsify_claim :: "(string \<Rightarrow> string) \<Rightarrow> int \<Rightarrow> string \<Rightarrow> 'b vr_state \<Rightarrow> ('b, clawback_record) vr_outcome" where
  "falsify_claim digest h claim_id s =
     try_in s (of_option ScheduleNotFound (get_vesting_by_claim_id s claim_id)) (\<lambda>v.
     if vs_status v = st_falsified then Fail s AlreadyFalsified
     else case vr_disproven s of
       None \<Rightarrow> Fail s AdjudicationUnavailable
     | Some disproven \<Rightarrow>
         if vs_fact_id v \<notin> set disproven then Fail s FactNotDisproven
         else
           let r = clawback_of digest h (released_clawback_rate (get_vr_params s)) claim_id v;
               s = set_vesting_schedule (v\<lparr>vs_status := st_falsified, vs_updated_at := to_u64 h\<rparr>) s
           in Done (set_clawback_record r s) r)"

section \<open>Message handlers\<close>

text \<open>\<open>validateBasic\<close> runs before the handler, as the transaction pipeline runs it.\<close>

definition create_vesting :: "'b sdk \<Rightarrow> (string \<Rightarrow> string) \<Rightarrow> string \<Rightarrow> int \<Rightarrow> msg_create_vesting \<Rightarrow> 'b vr_state \<Rightarrow> ('b, string) vr_outcome" where
  "create_vesting env digest authority h m s =
     (if \<not> validate_create_vesting env m then Fail s VrInvalidMessage
      else if cv_authority m \<noteq> authority then Fail s VrUnauthorized
      else and_then (create_vesting_schedule digest h (cv_linked_fact_id m) (cv_linked_fact_id m) (cv_beneficiary m)
                      (cv_amount m) (map_category (cv_category m)) ''verification'' s)
             (\<lambda>s v. Done s (vs_id v)))"

text \<open>The answer: the amount claimed and the number of schedules the answer counts.\<close>

definition claim_vesting :: "'b sdk \<Rightarrow> int \<Rightarrow> msg_claim_vesting \<Rightarrow> 'b vr_state \<Rightarrow> ('b, string \<times> u32) vr_outcome" where
  "claim_vesting env h m s =
     (if \<not> validate_claim_vesting env m then Fail s VrInvalidMessage
      else
        let vesting_id = (case clv_vesting_ids m of [k] \<Rightarrow> k | _ \<Rightarrow> [])
        in and_then (claim_rewards env h (clv_claimer m) vesting_id s) (\<lambda>s claimed.
           Done s (claimed, if vesting_id = [] then of_nat (length (get_vesting_schedules_by_recipient s (clv_claimer m))) else 1)))"

definition falsify_vesting :: "(string \<Rightarrow> string) \<Rightarrow> int \<Rightarrow> string \<Rightarrow> string \<Rightarrow> 'b vr_state \<Rightarrow> ('b, unit) vr_outcome" where
  "falsify_vesting digest h challenger vesting_id s =
     (if \<not> validate_named_schedule challenger vesting_id then Fail s VrInvalidMessage
      else try_in s (of_option ScheduleNotFound (get_vesting_schedule s vesting_id)) (\<lambda>v.
           discard (falsify_claim digest h (vs_claim_id v) s)))"

definition msg_pause_vesting :: "string \<Rightarrow> int \<Rightarrow> string \<Rightarrow> string \<Rightarrow> 'b vr_state \<Rightarrow> ('b, unit) vr_outcome" where
  "msg_pause_vesting authority h who vesting_id s =
     (if \<not> validate_named_schedule who vesting_id then Fail s VrInvalidMessage
      else if who \<noteq> authority then Fail s VrUnauthorized
      else pause_vesting h vesting_id s)"

definition msg_resume_vesting :: "string \<Rightarrow> int \<Rightarrow> string \<Rightarrow> string \<Rightarrow> 'b vr_state \<Rightarrow> ('b, unit) vr_outcome" where
  "msg_resume_vesting authority h who vesting_id s =
     (if \<not> validate_named_schedule who vesting_id then Fail s VrInvalidMessage
      else if who \<noteq> authority then Fail s VrUnauthorized
      else resume_vesting h vesting_id s)"

definition accelerate_vesting :: "string \<Rightarrow> int \<Rightarrow> msg_accelerate_vesting \<Rightarrow> 'b vr_state \<Rightarrow> ('b, unit) vr_outcome" where
  "accelerate_vesting authority h m s =
     (if \<not> validate_named_schedule (av_authority m) (av_vesting_id m) then Fail s VrInvalidMessage
      else if av_authority m \<noteq> authority then Fail s VrUnauthorized
      else if av_factor m \<le> 250000 then record_citation h (av_vesting_id m) s
      else if av_factor m \<le> 500000 then record_corroboration h (av_vesting_id m) s
      else if av_factor m \<le> 750000 then record_replication h (av_vesting_id m) s
      else record_defense h (av_vesting_id m) s)"

text \<open>The answer repeats the released amount of the schedule.\<close>

definition complete_vesting :: "string \<Rightarrow> int \<Rightarrow> string \<Rightarrow> string \<Rightarrow> 'b vr_state \<Rightarrow> ('b, string) vr_outcome" where
  "complete_vesting authority h who vesting_id s =
     (if \<not> validate_named_schedule who vesting_id then Fail s VrInvalidMessage
      else try_in s (of_option ScheduleNotFound (get_vesting_schedule s vesting_id)) (\<lambda>v.
      if who \<noteq> vs_recipient v \<and> who \<noteq> authority then Fail s NotRecipientOrAuthority
      else if vs_status v = st_completed then Fail s ScheduleAlreadyCompleted
      else if vs_status v = st_falsified \<or> vs_status v = st_abandoned then Fail s ScheduleNotActive
      else and_then (update_claimable_amount h vesting_id s) (\<lambda>s _.
           try_in s (of_option (VrPanic ''nil schedule'') (get_vesting_schedule s vesting_id)) (\<lambda>v.
           Done (set_vesting_schedule (v\<lparr>vs_status := st_completed, vs_updated_at := to_u64 h\<rparr>) s) (vs_released v)))))"

definition update_vr_params :: "string \<Rightarrow> string \<Rightarrow> vr_params option \<Rightarrow> 'b vr_state \<Rightarrow> ('b, unit) vr_outcome" where
  "update_vr_params authority who po s =
     (if who = [] then Fail s VrInvalidMessage
      else if who \<noteq> authority then Fail s VrUnauthorized
      else case po of
        None \<Rightarrow> Fail s (InvalidParams ''nil'')
      | Some p \<Rightarrow>
          try_in s (validate_vr_params p) (\<lambda>_.
          try_in s (validate_founder_share_change p) (\<lambda>_.
          try_in s (validate_runtime_param_change (get_vr_params s) p) (\<lambda>_.
          set_vr_params p s))))"

section \<open>The module's operations\<close>

text \<open>The messages, and the calls of the knowledge, gov, claiming_pot, tokens and bridge modules on the keeper.\<close>

datatype vr_op =
    CreateVesting msg_create_vesting
  | ClaimVesting msg_claim_vesting
  | FalsifyVesting string string
  | PauseVesting string string
  | ResumeVesting string string
  | AccelerateVesting msg_accelerate_vesting
  | CompleteVesting string string
  | UpdateVrParams string "vr_params option"
  | KnowledgeSchedule string string string string string
  | FalsificationReward string string string string
  | PauseByClaim string
  | ResumeByClaim string
  | PauseAllByRecipient string
  | DepositResearch string coins
  | DisburseResearch addr coins
  | DisburseDevelopment addr coins
  | MintCapped string int

fun vr_handle :: "'b sdk \<Rightarrow> (string \<Rightarrow> string) \<Rightarrow> string \<Rightarrow> int \<Rightarrow> vr_op \<Rightarrow> 'b vr_state \<Rightarrow> ('b, unit) vr_outcome" where
  "vr_handle env digest authority h (CreateVesting m) s = discard (create_vesting env digest authority h m s)"
| "vr_handle env digest authority h (ClaimVesting m) s = discard (claim_vesting env h m s)"
| "vr_handle env digest authority h (FalsifyVesting who k) s = falsify_vesting digest h who k s"
| "vr_handle env digest authority h (PauseVesting who k) s = msg_pause_vesting authority h who k s"
| "vr_handle env digest authority h (ResumeVesting who k) s = msg_resume_vesting authority h who k s"
| "vr_handle env digest authority h (AccelerateVesting m) s = accelerate_vesting authority h m s"
| "vr_handle env digest authority h (CompleteVesting who k) s = discard (complete_vesting authority h who k s)"
| "vr_handle env digest authority h (UpdateVrParams who p) s = update_vr_params authority who p s"
| "vr_handle env digest authority h (KnowledgeSchedule claim fct recipient amount category) s =
     create_knowledge_vesting_schedule digest h claim fct recipient amount category s"
| "vr_handle env digest authority h (FalsificationReward counter target recipient amount) s =
     distribute_falsification_reward digest h counter target recipient amount s"
| "vr_handle env digest authority h (PauseByClaim claim) s = pause_vesting_by_claim_id h claim s"
| "vr_handle env digest authority h (ResumeByClaim claim) s = resume_vesting_by_claim_id h claim s"
| "vr_handle env digest authority h (PauseAllByRecipient recipient) s = discard (pause_all_vesting_by_recipient h recipient s)"
| "vr_handle env digest authority h (DepositResearch source cs) s = deposit_to_research_fund env source cs s"
| "vr_handle env digest authority h (DisburseResearch a cs) s = disburse_from_research_fund env a cs s"
| "vr_handle env digest authority h (DisburseDevelopment a cs) s = disburse_from_development_fund env a cs s"
| "vr_handle env digest authority h (MintCapped m x) s = discard (mint_with_cap env m x s)"

text \<open>An error of \<open>RouteFees\<close> is logged; a panic inside it stops the block.\<close>

definition vr_begin_block :: "'b sdk \<Rightarrow> int \<Rightarrow> 'b vr_state \<Rightarrow> ('b, unit) vr_outcome" where
  "vr_begin_block env h s = (if h \<le> 1 then Done s () else route_fees env s)"

section \<open>Queries\<close>

definition query_vesting_schedule :: "string \<Rightarrow> 'b vr_state \<Rightarrow> vr_error + vesting_schedule" where
  "query_vesting_schedule k s = of_option ScheduleNotFound (get_vesting_schedule s k)"

text \<open>The page and the total; offsets and limits are 32-bit.\<close>

definition query_active_vesting_schedules :: "u32 \<Rightarrow> u32 \<Rightarrow> 'b vr_state \<Rightarrow> vesting_schedule list \<times> u32" where
  "query_active_vesting_schedules offset limit s =
     (let all = get_all_active_vesting_schedules s;
          n = of_nat (length all) :: u32;
          limit = (if limit = 0 \<or> 100 < limit then 100 else limit)
      in if n \<le> offset then ([], n)
      else
        let last = offset + limit;
            last = (if n < last then n else last)
        in (take (unat last - unat offset) (drop (unat offset) all), n))"

definition query_vr_params :: "'b vr_state \<Rightarrow> vr_error + (vr_params \<times> category_config list)" where
  "query_vr_params s = bind_sum (get_stored_params s) (\<lambda>p. Inr (p, get_all_category_configs s))"

definition query_research_fund_balance :: "'b sdk \<Rightarrow> 'b vr_state \<Rightarrow> string \<times> string" where
  "query_research_fund_balance env s =
     (big_string (bank_balance env (vr_bank s) (module_address env research_fund_name) uzrn), uzrn)"

end
