(* ===== verification/VR_Curve.thy ===== *)
theory VR_Curve
  imports VR_Msgs
begin

text \<open>
  The release curve of x/vesting_rewards: the fixed-point decay stays in the unit interval, falls as time
  passes and rises with the half-life, so what a schedule has released never shrinks as blocks pass or
  evidence is recorded, and never exceeds the category's cap.
\<close>

section \<open>The Taylor polynomial\<close>

definition decay_poly :: "int \<Rightarrow> int" where
  "decay_poly x = 10 ^ 18 - x * 10 ^ 12 + x ^ 2 * 500000 - x ^ 3 div 6 + x ^ 4 div 24000000"

lemma decay_series_poly:
  assumes "0 \<le> x"
  shows "decay_series x = min (10 ^ 18) (max 0 (decay_poly x))"
proof -
  have x2: "x * 10 ^ 12 * (x * 10 ^ 12) div 10 ^ 18 = x ^ 2 * 1000000" by (simp add: power2_eq_square)
  have x3: "x ^ 2 * 1000000 * (x * 10 ^ 12) div 10 ^ 18 = x ^ 3" by (simp add: power2_eq_square power3_eq_cube)
  have "x ^ 3 * (x * 10 ^ 12) div 10 ^ 18 = x ^ 4 * 10 ^ 12 div (10 ^ 6 * 10 ^ 12)"
    by (simp add: power3_eq_cube power4_eq_xxxx)
  then have x4: "x ^ 3 * (x * 10 ^ 12) div 10 ^ 18 = x ^ 4 div 10 ^ 6" by simp
  have d: "x ^ 4 div 10 ^ 6 div 24 = x ^ 4 div 24000000"
    using zdiv_zmult2_eq [of "24::int" "x ^ 4" "10 ^ 6"] by simp
  have h: "x ^ 2 * 1000000 div 2 = x ^ 2 * 500000" by simp
  have p: "(10::int) ^ 18 div 1000000 = 10 ^ 12" by simp
  show ?thesis
    unfolding decay_series_def decay_poly_def fixed_point_precision_def fractional_scale_def Let_def p x2 x3 x4 d h
    by (auto simp: min_def max_def)
qed

lemma decay_poly_step:
  assumes "0 \<le> x" "x < 693147"
  shows "decay_poly (x + 1) \<le> decay_poly x"
proof -
  have cube: "x ^ 3 div 6 \<le> (x + 1) ^ 3 div 6"
    using assms by (intro zdiv_mono1 power_mono) auto
  have "x ^ 3 \<le> 693147 ^ 3" "x ^ 2 \<le> 693147 ^ 2" using assms by (intro power_mono; simp)+
  moreover have "(x + 1) ^ 4 = x ^ 4 + 4 * x ^ 3 + 6 * x ^ 2 + 4 * x + 1"
    by (simp add: power4_eq_xxxx power3_eq_cube power2_eq_square algebra_simps)
  ultimately have "(x + 1) ^ 4 \<le> x ^ 4 + 55512000000 * 24000000" using assms by simp
  then have "(x + 1) ^ 4 div 24000000 \<le> (x ^ 4 + 55512000000 * 24000000) div 24000000"
    by (rule zdiv_mono1) simp
  then have quart: "(x + 1) ^ 4 div 24000000 \<le> x ^ 4 div 24000000 + 55512000000" by simp
  have "(x + 1) ^ 2 = x ^ 2 + 2 * x + 1" by (simp add: power2_eq_square algebra_simps)
  with cube quart assms show ?thesis by (simp add: decay_poly_def algebra_simps)
qed

lemma decay_poly_antimono:
  assumes "0 \<le> x" "x \<le> y" "y \<le> 693147"
  shows "decay_poly y \<le> decay_poly x"
proof -
  have "x + int n \<le> 693147 \<Longrightarrow> decay_poly (x + int n) \<le> decay_poly x" for n
  proof (induction n)
    case 0
    then show ?case by simp
  next
    case (Suc n)
    with decay_poly_step [of "x + int n"] assms show ?case by (simp add: algebra_simps)
  qed
  from this [of "nat (y - x)"] assms show ?thesis by simp
qed

lemma decay_series_range:
  assumes "0 \<le> x" "x \<le> 693147"
  shows "decay_series x = decay_poly x" "5 * 10 ^ 17 \<le> decay_series x" "decay_series x \<le> 10 ^ 18"
proof -
  have "decay_poly 693147 \<le> decay_poly x" "decay_poly x \<le> decay_poly 0"
    using assms by (auto intro: decay_poly_antimono)
  then have r: "5 * 10 ^ 17 \<le> decay_poly x" "decay_poly x \<le> 10 ^ 18" by (simp_all add: decay_poly_def)
  then show e: "decay_series x = decay_poly x"
    using assms(1) by (simp add: decay_series_poly)
  show "5 * 10 ^ 17 \<le> decay_series x" "decay_series x \<le> 10 ^ 18" using r by (simp_all add: e)
qed

lemma decay_series_zero [simp]: "decay_series 0 = 10 ^ 18"
  by (simp add: decay_series_poly decay_poly_def)

section \<open>Halvings\<close>

text \<open>The decay after \<open>q\<close> half-lives and \<open>x\<close> millionths of a natural-log unit.\<close>

definition decay_after :: "int \<Rightarrow> int \<Rightarrow> int" where
  "decay_after q x = (if 60 \<le> q then 0 else 10 ^ 18 div 2 ^ nat q * decay_series x div 10 ^ 18)"

lemma decay_after_range:
  assumes "0 \<le> x" "x \<le> 693147"
  shows "0 \<le> decay_after q x" "decay_after q x \<le> 10 ^ 18 div 2 ^ nat q"
proof -
  have p: "0 \<le> 10 ^ 18 div (2::int) ^ nat q" by (simp add: pos_imp_zdiv_nonneg_iff)
  note d = decay_series_range [OF assms]
  show "0 \<le> decay_after q x" using p d(2) by (simp add: decay_after_def pos_imp_zdiv_nonneg_iff)
  have "10 ^ 18 div 2 ^ nat q * decay_series x \<le> 10 ^ 18 div 2 ^ nat q * 10 ^ 18"
    using p d(3) by (intro mult_left_mono) auto
  then show "decay_after q x \<le> 10 ^ 18 div 2 ^ nat q"
    using p by (auto simp: decay_after_def intro: div_le_self_mult)
qed

lemma decay_after_half:
  assumes "0 \<le> x" "x \<le> 693147" "q < 60"
  shows "10 ^ 18 div 2 ^ nat q div 2 \<le> decay_after q x"
proof -
  have p: "0 \<le> 10 ^ 18 div (2::int) ^ nat q" by (simp add: pos_imp_zdiv_nonneg_iff)
  define P where "P = 10 ^ 18 div (2::int) ^ nat q"
  have "P div 2 * 10 ^ 18 = (P div 2 * 2) * (5 * 10 ^ 17)" by simp
  also have "\<dots> \<le> P * (5 * 10 ^ 17)" using floor_div_le [of 2 P] by simp
  also have "\<dots> \<le> P * decay_series x"
    using p decay_series_range(2) [OF assms(1,2)] by (intro mult_left_mono) (auto simp: P_def)
  finally have "P div 2 \<le> P * decay_series x div 10 ^ 18" by (subst le_div_iff) simp_all
  then show ?thesis using assms(3) by (simp add: decay_after_def P_def)
qed

lemma decay_after_antimono:
  assumes "0 \<le> q" "0 \<le> x" "x \<le> 693147" "0 \<le> y" "y \<le> 693147" "q < r \<or> q = r \<and> x \<le> y"
  shows "decay_after r y \<le> decay_after q x"
proof (cases "60 \<le> r")
  case True
  then have "decay_after r y = 0" by (simp add: decay_after_def)
  with decay_after_range(1) [OF assms(2,3)] show ?thesis by simp
next
  case small: False
  from assms(6) show ?thesis
  proof
    assume "q = r \<and> x \<le> y"
    moreover have "decay_series y \<le> decay_series x" if "x \<le> y"
      using that assms decay_poly_antimono by (simp add: decay_series_range(1))
    moreover have "0 \<le> 10 ^ 18 div (2::int) ^ nat q" by (simp add: pos_imp_zdiv_nonneg_iff)
    ultimately show ?thesis by (auto simp: decay_after_def intro!: zdiv_mono1 mult_left_mono)
  next
    assume "q < r"
    then have "(2::int) ^ (nat q + 1) \<le> 2 ^ nat r" using assms(1) by (intro power_increasing) auto
    then have "10 ^ 18 div (2::int) ^ nat r \<le> 10 ^ 18 div 2 ^ (nat q + 1)" by (intro zdiv_mono2) auto
    also have "\<dots> = 10 ^ 18 div 2 ^ nat q div (2::int)"
      using zdiv_zmult2_eq [of "2::int" "10 ^ 18" "2 ^ nat q"] by (simp add: mult.commute)
    also have "\<dots> \<le> decay_after q x" using decay_after_half [OF assms(2,3)] small \<open>q < r\<close> by simp
    finally show ?thesis using decay_after_range(2) [OF assms(4,5), of r] by simp
  qed
qed

definition ln2_part :: "int \<Rightarrow> int \<Rightarrow> int" where
  "ln2_part e l = (e mod l) * 693147 div l"

lemma ln2_part_range: "0 < l \<Longrightarrow> 0 \<le> ln2_part e l \<and> ln2_part e l \<le> 693147"
proof -
  assume l: "0 < l"
  then have "0 \<le> e mod l" "e mod l < l" by auto
  then have "(e mod l) * 693147 \<le> 693147 * l" by simp
  with l \<open>0 \<le> e mod l\<close> show ?thesis
    by (auto simp: ln2_part_def pos_imp_zdiv_nonneg_iff intro: div_le_self_mult)
qed

lemma sint_small: "uint (w :: u64) < 2 ^ 63 \<Longrightarrow> sint w = uint w"
  using order_trans [of "- (2 ^ 63)" 0 "uint w"] by (simp add: sint_uint signed_take_bit_int_eq_self_iff)

lemma halving_factor_decay:
  assumes "0 < uint l" "uint l < 2 ^ 63"
  shows "calculate_halving_factor e l = decay_after (uint e div uint l) (ln2_part (uint e) (uint l))"
proof -
  have m: "uint (e mod l) = uint e mod uint l" "uint (e div l) = uint e div uint l"
    by (simp_all add: uint_mod uint_div)
  have lt: "uint e mod uint l < uint l" using assms(1) by simp
  with assms(2) m(1) have s: "sint (e mod l) = uint e mod uint l" "sint l = uint l"
    by (simp_all add: sint_small)
  have full: "60 \<le> e div l \<longleftrightarrow> 60 \<le> uint e div uint l" by (simp add: word_le_def m)
  have rest: "0 < e mod l \<longleftrightarrow> uint e mod uint l \<noteq> 0"
    using m(1) by (metis uint_0_iff word_gt_0)
  have q: "unat (e div l) = nat (uint e div uint l)" by (simp add: unat_eq_nat_uint m)
  show ?thesis
    using assms(1)
    by (simp add: calculate_halving_factor_def decay_after_def ln2_part_def Let_def full rest q s euclid_div_def
        ln2_scaled_def fixed_point_precision_def)
qed

lemma decay_series_clamped: "0 \<le> decay_series x" "decay_series x \<le> 10 ^ 18"
proof -
  obtain r where "decay_series x =
    (let r5 = (if r < 0 then 0 else r) in if fixed_point_precision < r5 then fixed_point_precision else r5)"
    unfolding decay_series_def Let_def by blast
  then show "0 \<le> decay_series x" "decay_series x \<le> 10 ^ 18" by (simp_all add: fixed_point_precision_def)
qed

text \<open>Whatever the half-life, the factor is a fraction.\<close>

lemma halving_factor_range: "0 \<le> calculate_halving_factor e l" "calculate_halving_factor e l \<le> 10 ^ 18"
proof -
  have p: "0 \<le> 10 ^ 18 div (2::int) ^ q" "10 ^ 18 div (2::int) ^ q \<le> 10 ^ 18" for q
    by (auto simp: pos_imp_zdiv_nonneg_iff intro: div_le_self_mult)
  have "0 \<le> 10 ^ 18 div (2::int) ^ q * decay_series x div 10 ^ 18"
    "10 ^ 18 div (2::int) ^ q * decay_series x div 10 ^ 18 \<le> 10 ^ 18" for q x
  proof -
    show "0 \<le> 10 ^ 18 div (2::int) ^ q * decay_series x div 10 ^ 18"
      using p(1) [of q] decay_series_clamped(1) [of x] by (simp add: pos_imp_zdiv_nonneg_iff)
    have "10 ^ 18 div (2::int) ^ q * decay_series x \<le> 10 ^ 18 * 10 ^ 18"
      using p decay_series_clamped by (intro mult_mono) auto
    then show "10 ^ 18 div (2::int) ^ q * decay_series x div 10 ^ 18 \<le> 10 ^ 18" by (rule div_le_self_mult [rotated]) simp
  qed
  with p show "0 \<le> calculate_halving_factor e l" "calculate_halving_factor e l \<le> 10 ^ 18"
    by (simp_all add: calculate_halving_factor_def fixed_point_precision_def Let_def)
qed

lemma quotient_lex:
  fixes e e' l l' :: int
  assumes "0 < l'" "l' \<le> l" "0 \<le> e" "e \<le> e'"
  shows "e div l < e' div l' \<or> e div l = e' div l' \<and> ln2_part e l \<le> ln2_part e' l'"
proof -
  have le: "e div l \<le> e' div l'"
    using assms zdiv_mono1 [of e e' l'] zdiv_mono2 [of e l' l] by linarith
  moreover have "ln2_part e l \<le> ln2_part e' l'" if q: "e div l = e' div l'"
  proof -
    define n where "n = e div l"
    have n: "0 \<le> n" using assms by (simp add: n_def pos_imp_zdiv_nonneg_iff)
    have m: "e mod l = e - l * n" "e' mod l' = e' - l' * n"
      by (simp add: n_def minus_mult_div_eq_mod) (simp add: n_def q minus_mult_div_eq_mod)
    have lo: "0 \<le> e - l * n" using assms m by (metis pos_mod_sign less_le_trans)
    have "e - l * n \<le> e' - l' * n"
      using assms n mult_right_mono [of l' l n] by linarith
    then have "(e - l * n) * 693147 div l \<le> (e' - l' * n) * 693147 div l" using assms by (intro zdiv_mono1) auto
    also have "\<dots> \<le> (e' - l' * n) * 693147 div l'"
      using assms lo \<open>e - l * n \<le> e' - l' * n\<close> by (intro zdiv_mono2) auto
    finally show ?thesis by (simp add: ln2_part_def m)
  qed
  ultimately show ?thesis by linarith
qed

lemma halving_factor_antimono:
  assumes "0 < uint l'" "uint l' \<le> uint l" "uint l < 2 ^ 63" "uint e \<le> uint e'"
  shows "calculate_halving_factor e' l' \<le> calculate_halving_factor e l"
proof -
  have l: "0 < uint l" "uint l' < 2 ^ 63" using assms by linarith+
  have "0 \<le> uint e div uint l" using l by (simp add: pos_imp_zdiv_nonneg_iff)
  then show ?thesis
    unfolding halving_factor_decay [OF l(1) assms(3)] halving_factor_decay [OF assms(1) l(2)]
    using ln2_part_range [OF l(1)] ln2_part_range [OF assms(1)] quotient_lex [OF assms(1,2) uint_ge_0 assms(4)]
    by (intro decay_after_antimono) auto
qed

section \<open>What a schedule releases\<close>

definition config_ok :: "category_config \<Rightarrow> bool" where
  "config_ok c \<longleftrightarrow> uint (cc_max_release c) \<le> 1000000 \<and> 0 < uint (cc_half_life c)"

lemma release_cap:
  "uint (mr :: u64) \<le> 1000000 \<Longrightarrow> sint mr * fixed_point_precision div 1000000 = uint mr * 10 ^ 12"
proof -
  assume "uint (mr :: u64) \<le> 1000000"
  then have "sint mr * fixed_point_precision = uint mr * 10 ^ 12 * 1000000"
    using sint_small [of mr] by (simp add: fixed_point_precision_def)
  then show ?thesis by simp
qed

lemma release_fraction_range:
  assumes "uint mr \<le> 1000000"
  shows "0 \<le> release_fraction e l mr" "release_fraction e l mr \<le> uint mr * 10 ^ 12"
  using halving_factor_range [of e l] uint_ge_0 [of mr]
  by (simp_all add: release_fraction_def release_cap [OF assms] Let_def)

lemma release_fraction_mono:
  assumes "uint mr \<le> 1000000" "calculate_halving_factor e' l' \<le> calculate_halving_factor e l"
  shows "release_fraction e l mr \<le> release_fraction e' l' mr"
  using assms(2) by (simp add: release_fraction_def release_cap [OF assms(1)] Let_def)

text \<open>The most a schedule may release, in whole coins.\<close>

definition release_limit :: "int \<Rightarrow> u64 \<Rightarrow> int" where
  "release_limit amount mr = amount * uint mr div 1000000"

lemma released_of_fraction_le:
  assumes "0 \<le> amount" "f \<le> uint mr * 10 ^ 12"
  shows "amount * f div fixed_point_precision \<le> release_limit amount mr"
proof -
  have "amount * f \<le> amount * (uint mr * 10 ^ 12)" using assms by (intro mult_left_mono)
  then have "amount * f div 10 ^ 18 \<le> amount * uint mr * 10 ^ 12 div (1000000 * 10 ^ 12)"
    by (simp add: zdiv_mono1 mult.assoc)
  also have "\<dots> = amount * uint mr div 1000000" by (rule div_mult_mult2) simp
  finally show ?thesis by (simp add: release_limit_def fixed_point_precision_def)
qed

text \<open>The amount released at height \<open>h\<close>, as a number.\<close>

definition released_at :: "int \<Rightarrow> 'b vr_state \<Rightarrow> vesting_schedule \<Rightarrow> int" where
  "released_at h s v = int_or_zero (calculate_released_amount h s v)"

lemma int_or_zero_literal [simp]: "int_or_zero ''0'' = 0"
  by (simp add: int_or_zero_def read_unsigned_def digit_val_def)

definition release_started :: "int \<Rightarrow> category_config \<Rightarrow> vesting_schedule \<Rightarrow> bool" where
  "release_started h cfg v \<longleftrightarrow>
     vs_cliff_ends_at v \<le> to_u64 h \<and> cc_cliff cfg < elapsed_blocks (to_u64 h) v \<and> cc_half_life cfg \<noteq> 0"

lemma released_at_eq:
  assumes "get_category_config s (vs_category v) = Some cfg" "big_set_string (vs_total v) = Some amount"
  shows "released_at h s v =
    (if release_started h cfg v
     then amount * release_fraction (elapsed_blocks (to_u64 h) v - cc_cliff cfg) (effective_half_life (cc_half_life cfg) v)
            (cc_max_release cfg) div fixed_point_precision
     else 0)"
  using assms
  by (auto simp: released_at_def calculate_released_amount_def release_started_def Let_def not_le not_less)

lemma released_at_range:
  assumes "get_category_config s (vs_category v) = Some cfg" "big_set_string (vs_total v) = Some amount"
    "0 \<le> amount" "config_ok cfg"
  shows "0 \<le> released_at h s v" "released_at h s v \<le> release_limit amount (cc_max_release cfg)"
proof -
  have mr: "uint (cc_max_release cfg) \<le> 1000000" using assms(4) by (simp add: config_ok_def)
  have "0 \<le> release_limit amount (cc_max_release cfg)"
    using assms(3) by (simp add: release_limit_def pos_imp_zdiv_nonneg_iff)
  with release_fraction_range [OF mr] assms(3) released_of_fraction_le [OF assms(3)]
  show "0 \<le> released_at h s v" "released_at h s v \<le> release_limit amount (cc_max_release cfg)"
    by (auto simp: released_at_eq [OF assms(1,2)] pos_imp_zdiv_nonneg_iff fixed_point_precision_def)
qed

lemma release_limit_split:
  assumes "uint mr \<le> 1000000" "0 \<le> amount"
  shows "0 \<le> release_limit amount mr"
    "0 \<le> amount * sint (1000000 - mr) div 1000000"
    "release_limit amount mr + amount * sint (1000000 - mr) div 1000000 \<le> amount"
proof -
  have u: "uint (1000000 - mr) = 1000000 - uint mr" using assms(1) by (subst u64_sub_no_wrap) (simp_all add: u64_le)
  have "1000000 - uint mr < 2 ^ 63" using uint_ge_0 [of mr] by (simp, linarith)
  then have r: "sint (1000000 - mr) = 1000000 - uint mr" using sint_small [of "1000000 - mr"] unfolding u by blast
  show "0 \<le> release_limit amount mr" using assms(2) by (simp add: release_limit_def pos_imp_zdiv_nonneg_iff)
  show "0 \<le> amount * sint (1000000 - mr) div 1000000" using assms by (simp add: r pos_imp_zdiv_nonneg_iff)
  have "release_limit amount mr * 1000000 \<le> amount * uint mr"
    "amount * (1000000 - uint mr) div 1000000 * 1000000 \<le> amount * (1000000 - uint mr)"
    unfolding release_limit_def by (rule floor_div_le; simp)+
  then show "release_limit amount mr + amount * sint (1000000 - mr) div 1000000 \<le> amount"
    by (simp add: r algebra_simps)
qed

section \<open>Time and evidence only add\<close>

lemma capped_bonus_uint:
  "uint (w :: u64) \<le> 1100 \<Longrightarrow> uint (capped_bonus (ucast (c :: u32)) w cap) = min (uint cap) (uint c * uint w)"
proof -
  assume w: "uint w \<le> 1100"
  have c: "uint (ucast c :: u64) = uint c" by (simp add: uint_up_ucast is_up_def source_size_def target_size_def word_size)
  have "uint c * uint w \<le> 2 ^ 32 * 1100" using w u32_bounds [of c] by (intro mult_mono) auto
  then have "uint (ucast c * w :: u64) = uint c * uint w" by (simp add: uint_word_ariths c)
  then show ?thesis by (simp add: capped_bonus_def u64_less min_def)
qed

definition evidence_bonus :: "vesting_schedule \<Rightarrow> int" where
  "evidence_bonus v = min 7700 (min 5500 (uint (vs_defenses v) * 1100) + min 3300 (uint (vs_replications v) * 1100)
     + min 2200 (uint (vs_corroborations v) * 500) + min 2200 (uint (vs_citations v) * 200))"

lemma acceleration_bonus_uint: "uint (acceleration_bonus_bps v) = evidence_bonus v"
proof -
  define a b c d where "a = capped_bonus (ucast (vs_defenses v)) 1100 5500"
    and "b = capped_bonus (ucast (vs_replications v)) 1100 3300"
    and "c = capped_bonus (ucast (vs_corroborations v)) 500 2200"
    and "d = capped_bonus (ucast (vs_citations v)) 200 2200"
  have u: "uint a = min 5500 (uint (vs_defenses v) * 1100)" "uint b = min 3300 (uint (vs_replications v) * 1100)"
    "uint c = min 2200 (uint (vs_corroborations v) * 500)" "uint d = min 2200 (uint (vs_citations v) * 200)"
    unfolding a_def b_def c_def d_def by (subst capped_bonus_uint; simp)+
  have le: "uint a \<le> 5500" "uint b \<le> 3300" "uint c \<le> 2200" "uint d \<le> 2200"
    by (simp_all add: u)
  then have "uint (a + b + c + d) = uint a + uint b + uint c + uint d"
    by (simp add: u64_add_no_wrap)
  then show ?thesis
    by (simp add: acceleration_bonus_bps_def Let_def u64_less evidence_bonus_def u
        flip: a_def b_def c_def d_def)
qed

lemma evidence_bonus_range: "0 \<le> evidence_bonus v" "evidence_bonus v \<le> 7700"
  by (simp_all add: evidence_bonus_def)

text \<open>\<open>w\<close> is \<open>v\<close> with at least as much evidence recorded.\<close>

definition more_evidence :: "vesting_schedule \<Rightarrow> vesting_schedule \<Rightarrow> bool" where
  "more_evidence v w \<longleftrightarrow>
     w = v\<lparr>vs_defenses := vs_defenses w, vs_replications := vs_replications w, vs_corroborations := vs_corroborations w,
           vs_citations := vs_citations w\<rparr> \<and>
     vs_defenses v \<le> vs_defenses w \<and> vs_replications v \<le> vs_replications w \<and>
     vs_corroborations v \<le> vs_corroborations w \<and> vs_citations v \<le> vs_citations w"

lemma evidence_bonus_mono: "more_evidence v w \<Longrightarrow> evidence_bonus v \<le> evidence_bonus w"
  unfolding more_evidence_def evidence_bonus_def u32_le
  by (intro min.mono add_mono mult_right_mono order_refl) auto

lemma effective_half_life_uint:
  assumes "0 < uint l" "uint l * 10000 < 2 ^ 64"
  shows "uint (effective_half_life l v) = max 1 (uint l * 10000 div (10000 + evidence_bonus v))"
proof -
  have s: "uint (10000 + acceleration_bonus_bps v) = 10000 + evidence_bonus v"
    using evidence_bonus_range [of v] by (subst u64_add_no_wrap) (simp_all add: acceleration_bonus_uint)
  have m: "uint (l * 10000) = uint l * 10000" using assms(2) by (simp add: uint_word_ariths)
  have d: "uint (l * 10000 div (10000 + acceleration_bonus_bps v)) = uint l * 10000 div (10000 + evidence_bonus v)"
    by (simp only: uint_div s m)
  have z: "0 < acceleration_bonus_bps v \<longleftrightarrow> 0 < evidence_bonus v" by (simp add: u64_less acceleration_bonus_uint)
  have nn: "0 \<le> uint l * 10000 div (10000 + evidence_bonus v)"
    using evidence_bonus_range [of v] by (simp add: pos_imp_zdiv_nonneg_iff)
  show ?thesis
    using assms(1) nn evidence_bonus_range(1) [of v]
    by (auto simp: effective_half_life_def Let_def z d u64_eq_iff max_def)
qed

lemma effective_half_life_antimono:
  assumes "0 < uint l" "uint l * 10000 < 2 ^ 64" "more_evidence v w"
  shows "0 < uint (effective_half_life l w)" "uint (effective_half_life l w) \<le> uint (effective_half_life l v)"
    "uint (effective_half_life l v) < 2 ^ 63"
proof -
  note u = effective_half_life_uint [OF assms(1,2)]
  show "0 < uint (effective_half_life l w)" by (simp add: u)
  have "uint l * 10000 div (10000 + evidence_bonus w) \<le> uint l * 10000 div (10000 + evidence_bonus v)"
    using evidence_bonus_mono [OF assms(3)] evidence_bonus_range [of v] assms(1) by (intro zdiv_mono2) auto
  then show "uint (effective_half_life l w) \<le> uint (effective_half_life l v)" by (simp add: u)
  have "uint l * 10000 div (10000 + evidence_bonus v) \<le> uint l * 10000 div 10000"
    using evidence_bonus_range [of v] assms(1) by (intro zdiv_mono2) auto
  with assms(2) show "uint (effective_half_life l v) < 2 ^ 63" by (simp add: u)
qed

text \<open>The clock of a schedule: it started before \<open>h\<close>, and the pauses fit in the time since.\<close>

definition clock_ok :: "int \<Rightarrow> vesting_schedule \<Rightarrow> bool" where
  "clock_ok h v \<longleftrightarrow> 0 \<le> h \<and> h < 2 ^ 63 \<and>
     uint (vs_accepted_at v) + uint (vs_total_paused v) \<le> h \<and>
     (vs_status v = st_paused \<longrightarrow>
        uint (vs_paused_at v) \<le> h \<and> uint (vs_accepted_at v) + uint (vs_total_paused v) \<le> uint (vs_paused_at v))"

lemma elapsed_blocks_uint:
  assumes "clock_ok h v"
  shows "uint (elapsed_blocks (to_u64 h) v) =
    (if vs_status v = st_paused \<and> 0 < vs_paused_at v
     then uint (vs_paused_at v) else h) - uint (vs_accepted_at v) - uint (vs_total_paused v)"
proof -
  from assms have h: "0 \<le> h" "h < 2 ^ 63" "uint (vs_accepted_at v) + uint (vs_total_paused v) \<le> h"
    by (auto simp: clock_ok_def)
  have u: "uint (to_u64 h) = h" using h by (simp add: uint_to_u64)
  have "uint (vs_accepted_at v) \<le> h" using h(3) uint_ge_0 [of "vs_total_paused v"] by linarith
  then have "uint (to_u64 h - vs_accepted_at v) = h - uint (vs_accepted_at v)" using u by (subst u64_sub_uint) simp_all
  then have e: "uint (to_u64 h - vs_accepted_at v - vs_total_paused v) = h - uint (vs_accepted_at v) - uint (vs_total_paused v)"
    using h(3) by (subst u64_sub_uint) simp_all
  show ?thesis
  proof (cases "vs_status v = st_paused \<and> 0 < vs_paused_at v")
    case True
    with assms have p: "uint (vs_paused_at v) \<le> h"
      "uint (vs_accepted_at v) + uint (vs_total_paused v) \<le> uint (vs_paused_at v)" by (auto simp: clock_ok_def)
    have c: "uint (to_u64 h - vs_paused_at v) = h - uint (vs_paused_at v)"
      using p u by (subst u64_sub_uint) simp_all
    have nl: "\<not> to_u64 h - vs_accepted_at v - vs_total_paused v < to_u64 h - vs_paused_at v"
      using p by (simp add: u64_less e c)
    have "uint (to_u64 h - vs_accepted_at v - vs_total_paused v - (to_u64 h - vs_paused_at v)) =
        uint (vs_paused_at v) - uint (vs_accepted_at v) - uint (vs_total_paused v)"
      using p by (subst u64_sub_uint) (simp_all add: e c)
    with True nl show ?thesis by (simp add: elapsed_blocks_def)
  next
    case False
    then show ?thesis by (auto simp: elapsed_blocks_def e Let_def)
  qed
qed

lemma elapsed_blocks_mono:
  assumes "clock_ok h v" "h \<le> h'" "h' < 2 ^ 63"
  shows "uint (elapsed_blocks (to_u64 h) v) \<le> uint (elapsed_blocks (to_u64 h') v)"
proof -
  from assms have "clock_ok h' v" by (auto simp: clock_ok_def)
  with assms show ?thesis by (simp add: elapsed_blocks_uint)
qed

lemma released_at_mono:
  assumes cfg: "get_category_config s (vs_category v) = Some cfg" "config_ok cfg" "uint (cc_half_life cfg) * 10000 < 2 ^ 64"
    and amount: "big_set_string (vs_total v) = Some amount" "0 \<le> amount"
    and clock: "clock_ok h v" "h \<le> h'" "h' < 2 ^ 63"
    and more: "more_evidence v w"
  shows "released_at h s v \<le> released_at h' s w"
proof -
  have eq: "w = v\<lparr>vs_defenses := vs_defenses w, vs_replications := vs_replications w,
      vs_corroborations := vs_corroborations w, vs_citations := vs_citations w\<rparr>"
    using more by (simp add: more_evidence_def)
  have w: "vs_category w = vs_category v" "vs_total w = vs_total v" "vs_cliff_ends_at w = vs_cliff_ends_at v"
    "elapsed_blocks t w = elapsed_blocks t v" for t
    by (subst eq, simp add: elapsed_blocks_def Let_def)+
  note e = elapsed_blocks_mono [OF clock]
  have cw: "get_category_config s (vs_category w) = Some cfg" "big_set_string (vs_total w) = Some amount"
    using cfg(1) amount(1) by (simp_all add: w)
  show ?thesis
  proof (cases "release_started h cfg v")
    case False
    then show ?thesis
      using released_at_range(1) [OF cw amount(2) cfg(2)] by (simp add: released_at_eq [OF cfg(1) amount(1)])
  next
    case True
    have hh: "uint (to_u64 h) = h" "uint (to_u64 h') = h'"
      using clock by (auto simp: clock_ok_def uint_to_u64)
    have started: "release_started h' cfg w"
      using True e clock(2) hh by (auto simp: release_started_def w u64_le u64_less)
    have later: "uint (elapsed_blocks (to_u64 h) v - cc_cliff cfg) \<le> uint (elapsed_blocks (to_u64 h') w - cc_cliff cfg)"
      using True e by (auto simp: release_started_def w u64_sub_uint u64_less)
    have l: "0 < uint (cc_half_life cfg)" using cfg(2) by (simp add: config_ok_def)
    have "release_fraction (elapsed_blocks (to_u64 h) v - cc_cliff cfg) (effective_half_life (cc_half_life cfg) v) (cc_max_release cfg)
        \<le> release_fraction (elapsed_blocks (to_u64 h') w - cc_cliff cfg) (effective_half_life (cc_half_life cfg) w) (cc_max_release cfg)"
      using cfg(2) halving_factor_antimono [OF effective_half_life_antimono [OF l cfg(3) more] later]
      by (intro release_fraction_mono) (auto simp: config_ok_def)
    then show ?thesis
      using True started amount(2)
      by (simp add: released_at_eq [OF cfg(1) amount(1)] released_at_eq [OF cw] fixed_point_precision_def
          zdiv_mono1 mult_left_mono)
  qed
qed

end
