(* ===== verification/VR_Inv.thy ===== *)
theory VR_Inv
  imports VR_Curve
begin

text \<open>
  The invariant of x/vesting_rewards: every index entry belongs to a stored schedule and every schedule is
  indexed, amounts stay within the category's release limit, clocks do not wrap and the parameters are
  valid; and the history relation: a schedule keeps its identity, never gives back what it released, and
  leaves a terminal status only for \<open>falsified\<close>.
\<close>

section \<open>Indexes\<close>

definition known_status :: "string \<Rightarrow> bool" where
  "known_status st \<longleftrightarrow> st \<in> {st_vesting, st_paused, st_completed, st_falsified, st_abandoned}"

definition identity_ok :: "vesting_schedule \<Rightarrow> bool" where
  "identity_ok v \<longleftrightarrow> vs_id v \<noteq> [] \<and> CHR ''/'' \<notin> set (vs_id v) \<and> vs_recipient v \<noteq> [] \<and> known_status (vs_status v)"

definition vr_index_ok :: "'b vr_state \<Rightarrow> bool" where
  "vr_index_ok s \<longleftrightarrow>
     kv_ok (vr_schedules s) \<and> kv_ok (vr_claim_index s) \<and> kv_ok (vr_recipient_index s) \<and> kv_ok (vr_active_index s) \<and>
     (\<forall>k v. get_vesting_schedule s k = Some v \<longrightarrow> vs_id v = k \<and> identity_ok v) \<and>
     (\<forall>r. kv_get (vr_recipient_index s) r \<noteq> None \<longleftrightarrow>
        (\<exists>k v. get_vesting_schedule s k = Some v \<and> r = recipient_key (vs_recipient v) k)) \<and>
     (\<forall>k. kv_get (vr_active_index s) k \<noteq> None \<longleftrightarrow> (\<exists>v. get_vesting_schedule s k = Some v \<and> live_status (vs_status v))) \<and>
     (\<forall>c k. kv_get (vr_claim_index s) c = Some k \<longrightarrow>
        c \<noteq> [] \<and> (\<exists>v. get_vesting_schedule s k = Some v \<and> vs_claim_id v = c)) \<and>
     (\<forall>k v. get_vesting_schedule s k = Some v \<longrightarrow> vs_claim_id v \<noteq> [] \<longrightarrow> kv_get (vr_claim_index s) (vs_claim_id v) \<noteq> None)"

lemma vr_index_okD:
  assumes "vr_index_ok s"
  shows "kv_ok (vr_schedules s)" "kv_ok (vr_claim_index s)" "kv_ok (vr_recipient_index s)" "kv_ok (vr_active_index s)"
    "get_vesting_schedule s k = Some v \<Longrightarrow> vs_id v = k" "get_vesting_schedule s k = Some v \<Longrightarrow> identity_ok v"
    "kv_get (vr_recipient_index s) r \<noteq> None \<longleftrightarrow>
       (\<exists>k v. get_vesting_schedule s k = Some v \<and> r = recipient_key (vs_recipient v) k)"
    "kv_get (vr_active_index s) k \<noteq> None \<longleftrightarrow> (\<exists>v. get_vesting_schedule s k = Some v \<and> live_status (vs_status v))"
    "kv_get (vr_claim_index s) c = Some k \<Longrightarrow> c \<noteq> [] \<and> (\<exists>v. get_vesting_schedule s k = Some v \<and> vs_claim_id v = c)"
    "get_vesting_schedule s k = Some v \<Longrightarrow> vs_claim_id v \<noteq> [] \<Longrightarrow> kv_get (vr_claim_index s) (vs_claim_id v) \<noteq> None"
  using assms unfolding vr_index_ok_def by blast+

lemma get_set_vesting [simp]:
  "get_vesting_schedule (set_vesting_schedule v s) k = (if k = vs_id v then Some v else get_vesting_schedule s k)"
  by (simp add: get_vesting_schedule_def set_vesting_schedule_def)

lemma set_vesting_fields [simp]:
  "vr_params_record (set_vesting_schedule v s) = vr_params_record s" "vr_configs (set_vesting_schedule v s) = vr_configs s"
  "vr_bank (set_vesting_schedule v s) = vr_bank s" "vr_clawbacks (set_vesting_schedule v s) = vr_clawbacks s"
  "vr_disproven (set_vesting_schedule v s) = vr_disproven s" "vr_total_minted (set_vesting_schedule v s) = vr_total_minted s"
  "vr_schedules (set_vesting_schedule v s) = kv_set (vs_id v) v (vr_schedules s)"
  by (simp_all add: set_vesting_schedule_def)

lemma vr_index_ok_set:
  assumes ok: "vr_index_ok s" and v: "identity_ok v"
    and same: "\<And>w. get_vesting_schedule s (vs_id v) = Some w \<Longrightarrow> vs_recipient w = vs_recipient v \<and> vs_claim_id w = vs_claim_id v"
  shows "vr_index_ok (set_vesting_schedule v s)"
proof -
  let ?s = "set_vesting_schedule v s"
  note d = vr_index_okD [OF ok]
  have "kv_ok (vr_schedules ?s)" "kv_ok (vr_claim_index ?s)" "kv_ok (vr_recipient_index ?s)" "kv_ok (vr_active_index ?s)"
    using d(1-4) by (simp_all add: set_vesting_schedule_def)
  moreover have "\<forall>k w. get_vesting_schedule ?s k = Some w \<longrightarrow> vs_id w = k \<and> identity_ok w"
    using d(5,6) v by auto
  moreover have "\<forall>r. kv_get (vr_recipient_index ?s) r \<noteq> None \<longleftrightarrow>
      (\<exists>k w. get_vesting_schedule ?s k = Some w \<and> r = recipient_key (vs_recipient w) k)"
  proof
    fix r
    have "kv_get (vr_recipient_index ?s) r \<noteq> None \<longleftrightarrow>
        r = recipient_key (vs_recipient v) (vs_id v) \<or>
        (\<exists>k w. get_vesting_schedule s k = Some w \<and> r = recipient_key (vs_recipient w) k)"
      using d(7) [of r] by (auto simp: set_vesting_schedule_def)
    then show "kv_get (vr_recipient_index ?s) r \<noteq> None \<longleftrightarrow>
        (\<exists>k w. get_vesting_schedule ?s k = Some w \<and> r = recipient_key (vs_recipient w) k)"
      using same by auto metis+
  qed
  moreover have "\<forall>k. kv_get (vr_active_index ?s) k \<noteq> None \<longleftrightarrow>
      (\<exists>w. get_vesting_schedule ?s k = Some w \<and> live_status (vs_status w))"
    using d(8) by (auto simp: set_vesting_schedule_def get_vesting_schedule_def)
  moreover have "\<forall>c k. kv_get (vr_claim_index ?s) c = Some k \<longrightarrow>
      c \<noteq> [] \<and> (\<exists>w. get_vesting_schedule ?s k = Some w \<and> vs_claim_id w = c)"
  proof (intro allI impI)
    fix c k
    assume k: "kv_get (vr_claim_index ?s) c = Some k"
    show "c \<noteq> [] \<and> (\<exists>w. get_vesting_schedule ?s k = Some w \<and> vs_claim_id w = c)"
    proof (cases "vs_claim_id v \<noteq> [] \<and> c = vs_claim_id v")
      case True
      with k have "k = vs_id v" by (simp add: set_vesting_schedule_def)
      with True show ?thesis by simp
    next
      case False
      with k have "kv_get (vr_claim_index s) c = Some k" by (auto simp: set_vesting_schedule_def split: if_splits)
      from d(9) [OF this] obtain w where w: "c \<noteq> []" "get_vesting_schedule s k = Some w" "vs_claim_id w = c" by blast
      then have "k \<noteq> vs_id v" using same [of w] False by auto
      with w show ?thesis by simp
    qed
  qed
  moreover have "\<forall>k w. get_vesting_schedule ?s k = Some w \<longrightarrow> vs_claim_id w \<noteq> [] \<longrightarrow>
      kv_get (vr_claim_index ?s) (vs_claim_id w) \<noteq> None"
    using d(10) by (auto simp: set_vesting_schedule_def get_vesting_schedule_def split: if_splits)
  ultimately show ?thesis unfolding vr_index_ok_def by blast
qed

lemma vr_index_ok_frame:
  "vr_index_ok s \<Longrightarrow> vr_schedules s' = vr_schedules s \<Longrightarrow> vr_claim_index s' = vr_claim_index s \<Longrightarrow>
    vr_recipient_index s' = vr_recipient_index s \<Longrightarrow> vr_active_index s' = vr_active_index s \<Longrightarrow> vr_index_ok s'"
  by (simp add: vr_index_ok_def get_vesting_schedule_def)

section \<open>Amounts and the invariant\<close>

definition money_ok :: "'b vr_state \<Rightarrow> vesting_schedule \<Rightarrow> bool" where
  "money_ok s v \<longleftrightarrow> (\<exists>cfg amount released claimable.
     get_category_config s (vs_category v) = Some cfg \<and> config_ok cfg \<and>
     big_set_string (vs_total v) = Some amount \<and> 0 < amount \<and>
     vs_released v = big_string released \<and> vs_claimable v = big_string claimable \<and>
     vs_reserve v = big_string (amount * sint (1000000 - cc_max_release cfg) div 1000000) \<and>
     0 \<le> released \<and> 0 \<le> claimable \<and> released + claimable \<le> release_limit amount (cc_max_release cfg))"

definition configs_ok :: "'b vr_state \<Rightarrow> bool" where
  "configs_ok s \<longleftrightarrow> kv_ok (vr_configs s) \<and> (\<forall>c cfg. kv_get (vr_configs s) c = Some cfg \<longrightarrow> cc_category cfg = c \<and> config_ok cfg)"

definition digest_text :: "(string \<Rightarrow> string) \<Rightarrow> bool" where
  "digest_text digest \<longleftrightarrow> (\<forall>x. digest x \<noteq> [] \<and> CHR ''/'' \<notin> set (digest x))"

definition vr_inv :: "(string \<Rightarrow> string) \<Rightarrow> int \<Rightarrow> 'b vr_state \<Rightarrow> bool" where
  "vr_inv digest h s \<longleftrightarrow>
     digest_text digest \<and> vr_index_ok s \<and> configs_ok s \<and>
     (\<forall>k v. get_vesting_schedule s k = Some v \<longrightarrow> money_ok s v \<and> clock_ok h v) \<and>
     (\<exists>p. vr_params_record s = Some p \<and> validate_vr_params p = Inr ())"

lemma vr_invD:
  assumes "vr_inv digest h s"
  shows "digest_text digest" "vr_index_ok s" "configs_ok s"
    "get_vesting_schedule s k = Some v \<Longrightarrow> money_ok s v" "get_vesting_schedule s k = Some v \<Longrightarrow> clock_ok h v"
    "\<exists>p. vr_params_record s = Some p \<and> validate_vr_params p = Inr ()"
  using assms unfolding vr_inv_def by blast+

lemma get_config_set [simp]:
  "get_category_config (set_vesting_schedule v s) c = get_category_config s c"
  by (simp add: get_category_config_def)

lemma money_ok_frame: "vr_configs s' = vr_configs s \<Longrightarrow> money_ok s' v = money_ok s v"
  by (simp add: money_ok_def get_category_config_def)

lemma configs_ok_frame: "vr_configs s' = vr_configs s \<Longrightarrow> configs_ok s' = configs_ok s"
  by (simp add: configs_ok_def)

lemma default_configs_ok: "c \<in> set default_category_configs \<Longrightarrow> config_ok c"
  by (auto simp: default_category_configs_def config_ok_def)

lemma category_config_ok:
  assumes "configs_ok s" "get_category_config s c = Some cfg"
  shows "config_ok cfg"
proof (cases "kv_get (vr_configs s) c")
  case None
  with assms(2) have "find (\<lambda>x. cc_category x = c) default_category_configs = Some cfg"
    by (simp add: get_category_config_def)
  from find_member [OF this] show ?thesis using default_configs_ok by blast
next
  case (Some x)
  with assms show ?thesis unfolding configs_ok_def get_category_config_def by auto
qed

lemma big_string_zero: "''0'' = big_string 0"
  by (simp add: big_string_def digits10.simps digit_char_def)

section \<open>History\<close>

definition may_become :: "string \<Rightarrow> string \<Rightarrow> bool" where
  "may_become a b \<longleftrightarrow> b = a \<or> live_status a \<and> known_status b \<and> b \<noteq> st_abandoned \<or> b = st_falsified"

definition released_of :: "vesting_schedule \<Rightarrow> int" where
  "released_of v = int_or_zero (vs_released v)"

definition advances :: "vesting_schedule \<Rightarrow> vesting_schedule \<Rightarrow> bool" where
  "advances v w \<longleftrightarrow>
     vs_id w = vs_id v \<and> vs_claim_id w = vs_claim_id v \<and> vs_fact_id w = vs_fact_id v \<and> vs_recipient w = vs_recipient v \<and>
     vs_total w = vs_total v \<and> vs_reserve w = vs_reserve v \<and> vs_category w = vs_category v \<and> vs_source w = vs_source v \<and>
     vs_accepted_at w = vs_accepted_at v \<and> vs_cliff_ends_at w = vs_cliff_ends_at v \<and>
     released_of v \<le> released_of w \<and> (live_status (vs_status v) \<or> released_of w = released_of v) \<and>
     may_become (vs_status v) (vs_status w)"

lemma may_become_trans: "may_become a b \<Longrightarrow> may_become b c \<Longrightarrow> may_become a c"
  by (auto simp: may_become_def live_status_def known_status_def)

lemma may_become_live: "may_become a b \<Longrightarrow> live_status b \<Longrightarrow> live_status a"
  by (auto simp: may_become_def live_status_def)

lemma advances_refl [simp]: "advances v v"
  by (simp add: advances_def may_become_def)

lemma advances_trans: "advances v w \<Longrightarrow> advances w x \<Longrightarrow> advances v x"
  unfolding advances_def
  by (smt (verit) may_become_trans may_become_live order_trans)

definition history :: "'b vr_state \<Rightarrow> 'b vr_state \<Rightarrow> bool" where
  "history s s' \<longleftrightarrow> (\<forall>k v. get_vesting_schedule s k = Some v \<longrightarrow> (\<exists>w. get_vesting_schedule s' k = Some w \<and> advances v w))"

lemma history_refl [simp]: "history s s"
  by (auto simp: history_def)

lemma history_trans: "history s t \<Longrightarrow> history t u \<Longrightarrow> history s u"
  unfolding history_def by (meson advances_trans)

text \<open>A step that keeps the invariant and extends every schedule's history.\<close>

definition kept :: "(string \<Rightarrow> string) \<Rightarrow> int \<Rightarrow> 'b vr_state \<Rightarrow> 'b vr_state \<Rightarrow> bool" where
  "kept digest h s s' \<longleftrightarrow> (vr_inv digest h s \<longrightarrow> vr_inv digest h s' \<and> history s s')"

lemma kept_refl [simp, intro]: "kept digest h s s"
  by (simp add: kept_def)

lemma kept_trans: "kept digest h s t \<Longrightarrow> kept digest h t u \<Longrightarrow> kept digest h s u"
  unfolding kept_def using history_trans by blast

lemma kept_frame:
  assumes "vr_schedules s' = vr_schedules s" "vr_claim_index s' = vr_claim_index s"
    "vr_recipient_index s' = vr_recipient_index s" "vr_active_index s' = vr_active_index s"
    "vr_configs s' = vr_configs s"
    "vr_params_record s' = vr_params_record s \<or> (\<exists>p. vr_params_record s' = Some p \<and> validate_vr_params p = Inr ())"
  shows "kept digest h s s'"
proof -
  have g: "get_vesting_schedule s' = get_vesting_schedule s" using assms(1) by (simp add: get_vesting_schedule_def fun_eq_iff)
  have "vr_inv digest h s'" if "vr_inv digest h s"
    using that assms(6) vr_index_ok_frame [OF vr_invD(2) [OF that] assms(1-4)]
    by (auto simp: vr_inv_def g money_ok_frame [OF assms(5)] configs_ok_frame [OF assms(5)])
  then show ?thesis by (simp add: kept_def history_def g)
qed

lemma kept_touch:
  assumes get: "get_vesting_schedule s k = Some v" and adv: "advances v w"
    and ok: "vr_inv digest h s \<Longrightarrow> money_ok s w \<and> clock_ok h w"
  shows "kept digest h s (set_vesting_schedule w s)"
  unfolding kept_def
proof
  assume inv: "vr_inv digest h s"
  note d = vr_invD [OF inv]
  have k: "vs_id v = k" "identity_ok v" using vr_index_okD(5,6) [OF d(2) get] .
  with adv have w: "identity_ok w" "vs_id w = k"
    by (auto simp: identity_ok_def advances_def may_become_def known_status_def live_status_def)
  have "vr_index_ok (set_vesting_schedule w s)"
    using adv get w by (intro vr_index_ok_set [OF d(2)]) (auto simp: advances_def)
  moreover have "\<forall>k' x. get_vesting_schedule (set_vesting_schedule w s) k' = Some x \<longrightarrow>
      money_ok (set_vesting_schedule w s) x \<and> clock_ok h x"
    using d(4,5) ok [OF inv] by (auto simp: money_ok_frame [OF set_vesting_fields(2)])
  ultimately show "vr_inv digest h (set_vesting_schedule w s) \<and> history s (set_vesting_schedule w s)"
    using d get adv w by (auto simp: vr_inv_def history_def configs_ok_frame [OF set_vesting_fields(2)])
qed

end
