(* ===== verification/VR_Steps.thy ===== *)
theory VR_Steps
  imports VR_Inv
begin

text \<open>
  Every operation of x/vesting_rewards keeps the invariant and extends the history of every schedule; what a
  claim adds to a schedule; and the module as an instance of the chain interfaces.
\<close>

section \<open>Touching one schedule\<close>

lemma clock_height: "clock_ok h v \<Longrightarrow> uint (to_u64 h) = h"
  by (simp add: clock_ok_def uint_to_u64)

text \<open>Changes that leave amounts and clock fields alone.\<close>

lemma kept_mark:
  assumes "get_vesting_schedule s k = Some v" "advances v w" "vs_released w = vs_released v"
    "vs_claimable w = vs_claimable v" "vs_total_paused w = vs_total_paused v" "vs_paused_at w = vs_paused_at v"
    "vs_status w \<noteq> st_paused \<or> vs_status v = st_paused"
  shows "kept digest h s (set_vesting_schedule w s)"
proof (rule kept_touch [OF assms(1,2)])
  assume "vr_inv digest h s"
  from vr_invD(4,5) [OF this assms(1)] assms show "money_ok s w \<and> clock_ok h w"
    by (auto simp: money_ok_def clock_ok_def advances_def)
qed

lemma kept_discard_some:
  "(\<And>v. get_vesting_schedule s k = Some v \<Longrightarrow> kept digest h s (set_vesting_schedule (f v) s)) \<Longrightarrow>
    try_in s (of_option e (get_vesting_schedule s k)) (\<lambda>v. Done (set_vesting_schedule (f v) s) ()) = Done s' u \<Longrightarrow>
    kept digest h s s'"
  by (auto simp: outcome_simps)

lemma record_kept:
  "record_defense h k s = Done s' u \<Longrightarrow> kept digest h s s'"
  "record_replication h k s = Done s' u \<Longrightarrow> kept digest h s s'"
  "record_corroboration h k s = Done s' u \<Longrightarrow> kept digest h s s'"
  "record_citation h k s = Done s' u \<Longrightarrow> kept digest h s s'"
  unfolding record_defense_def record_replication_def record_corroboration_def record_citation_def
  by (erule kept_discard_some [rotated], erule kept_mark; simp add: advances_def may_become_def released_of_def)+

lemma pause_kept:
  assumes "pause_vesting h k s = Done s' u"
  shows "kept digest h s s'"
proof -
  from assms obtain v where v: "get_vesting_schedule s k = Some v"
    and s': "s' = (if vs_status v \<noteq> st_vesting then s
      else set_vesting_schedule (v\<lparr>vs_status := st_paused, vs_paused_at := to_u64 h, vs_updated_at := to_u64 h\<rparr>) s)"
    by (auto simp: pause_vesting_def outcome_simps split: if_splits)
  show ?thesis
  proof (cases "vs_status v = st_vesting")
    case True
    let ?w = "v\<lparr>vs_status := st_paused, vs_paused_at := to_u64 h, vs_updated_at := to_u64 h\<rparr>"
    have "kept digest h s (set_vesting_schedule ?w s)"
    proof (rule kept_touch [OF v])
      show "advances v ?w"
        using True by (simp add: advances_def may_become_def live_status_def known_status_def released_of_def)
      assume "vr_inv digest h s"
      from vr_invD(4,5) [OF this v] show "money_ok s ?w \<and> clock_ok h ?w"
        using True by (auto simp: money_ok_def clock_ok_def uint_to_u64)
    qed
    with True s' show ?thesis by simp
  qed (simp add: s')
qed

lemma resume_kept:
  assumes "resume_vesting h k s = Done s' u"
  shows "kept digest h s s'"
proof -
  from assms obtain v where v: "get_vesting_schedule s k = Some v"
    and s': "s' = (if vs_status v \<noteq> st_paused then s
      else set_vesting_schedule (v\<lparr>vs_total_paused := vs_total_paused v + (to_u64 h - vs_paused_at v),
            vs_paused_at := 0, vs_status := st_vesting, vs_updated_at := to_u64 h\<rparr>) s)"
    by (auto simp: resume_vesting_def outcome_simps split: if_splits)
  show ?thesis
  proof (cases "vs_status v = st_paused")
    case True
    let ?w = "v\<lparr>vs_total_paused := vs_total_paused v + (to_u64 h - vs_paused_at v), vs_paused_at := 0,
      vs_status := st_vesting, vs_updated_at := to_u64 h\<rparr>"
    have "kept digest h s (set_vesting_schedule ?w s)"
    proof (rule kept_touch [OF v])
      show "advances v ?w"
        using True by (simp add: advances_def may_become_def live_status_def known_status_def released_of_def)
      assume "vr_inv digest h s"
      note i = vr_invD(4,5) [OF this v]
      from i(2) True have c: "0 \<le> h" "h < 2 ^ 63" "uint (vs_paused_at v) \<le> h"
        "uint (vs_accepted_at v) + uint (vs_total_paused v) \<le> uint (vs_paused_at v)" by (auto simp: clock_ok_def)
      have d: "uint (to_u64 h - vs_paused_at v) = h - uint (vs_paused_at v)"
        using c clock_height [OF i(2)] by (subst u64_sub_uint) simp_all
      have "uint (vs_total_paused v) \<le> uint (vs_paused_at v)" using c uint_ge_0 [of "vs_accepted_at v"] by linarith
      then have "uint (vs_total_paused v + (to_u64 h - vs_paused_at v)) = uint (vs_total_paused v) + (h - uint (vs_paused_at v))"
        using c by (subst u64_add_no_wrap) (simp_all add: d)
      with i(1) c show "money_ok s ?w \<and> clock_ok h ?w" by (auto simp: money_ok_def clock_ok_def)
    qed
    with True s' show ?thesis by simp
  qed (simp add: s')
qed

section \<open>Claimable amounts\<close>

definition refreshed :: "int \<Rightarrow> 'b vr_state \<Rightarrow> vesting_schedule \<Rightarrow> vesting_schedule" where
  "refreshed h s v = v\<lparr>vs_claimable := big_string (max 0 (released_at h s v - released_of v)), vs_updated_at := to_u64 h\<rparr>"

definition closed_status :: "string \<Rightarrow> bool" where
  "closed_status st \<longleftrightarrow> st = st_falsified \<or> st = st_completed \<or> st = st_abandoned"

lemma update_claimable_eq:
  "update_claimable_amount h k s = (case get_vesting_schedule s k of
     None \<Rightarrow> Fail s ScheduleNotFound
   | Some v \<Rightarrow> Done (if closed_status (vs_status v) then s else set_vesting_schedule (refreshed h s v) s) ())"
  by (auto simp: update_claimable_amount_def closed_status_def refreshed_def released_at_def released_of_def Let_def
      max_def split: option.splits)

lemma money_ok_limit:
  assumes "money_ok s v"
  obtains cfg amount where "get_category_config s (vs_category v) = Some cfg" "config_ok cfg"
    "big_set_string (vs_total v) = Some amount" "0 < amount"
    "0 \<le> released_of v" "released_of v \<le> release_limit amount (cc_max_release cfg)"
    "0 \<le> released_at h s v" "released_at h s v \<le> release_limit amount (cc_max_release cfg)"
proof -
  from assms obtain cfg amount released claimable where m: "get_category_config s (vs_category v) = Some cfg" "config_ok cfg"
    "big_set_string (vs_total v) = Some amount" "0 < amount" "vs_released v = big_string released"
    "0 \<le> released" "0 \<le> claimable" "released + claimable \<le> release_limit amount (cc_max_release cfg)"
    by (auto simp: money_ok_def)
  show ?thesis
    using m released_at_range [OF m(1,3) _ m(2), of h] by (intro that [OF m(1-4)]) (auto simp: released_of_def)
qed

lemma money_ok_update:
  assumes m: "money_ok s v" and w: "vs_category w = vs_category v" "vs_total w = vs_total v" "vs_reserve w = vs_reserve v"
    and a: "vs_released w = big_string released" "vs_claimable w = big_string claimable" "0 \<le> released" "0 \<le> claimable"
    and le: "\<And>cfg amount. get_category_config s (vs_category v) = Some cfg \<Longrightarrow> big_set_string (vs_total v) = Some amount \<Longrightarrow>
      released + claimable \<le> release_limit amount (cc_max_release cfg)"
  shows "money_ok s w"
  using m le unfolding money_ok_def w a(1,2) by (auto simp: a(3,4))

lemma money_released_string: "money_ok s v \<Longrightarrow> vs_released v = big_string (released_of v)"
  by (auto simp: money_ok_def released_of_def)

lemma update_claimable_kept: "kept digest h s (final_state (update_claimable_amount h k s))"
proof (cases "get_vesting_schedule s k")
  case (Some v)
  have "kept digest h s (set_vesting_schedule (refreshed h s v) s)"
  proof (rule kept_touch [OF Some])
    show "advances v (refreshed h s v)" by (simp add: advances_def may_become_def refreshed_def released_of_def)
    assume "vr_inv digest h s"
    note i = vr_invD(4,5) [OF this Some]
    have "money_ok s (refreshed h s v)"
    proof (rule money_ok_update [OF i(1), where released = "released_of v" and claimable = "max 0 (released_at h s v - released_of v)"])
      show "0 \<le> released_of v" using money_ok_limit [OF i(1)] by blast
      fix cfg amount
      assume "get_category_config s (vs_category v) = Some cfg" "big_set_string (vs_total v) = Some amount"
      then show "released_of v + max 0 (released_at h s v - released_of v) \<le> release_limit amount (cc_max_release cfg)"
        using money_ok_limit [OF i(1), of h] by (force simp: max_def)
    qed (simp_all add: refreshed_def money_released_string [OF i(1)])
    moreover have "clock_ok h (refreshed h s v)" using i(2) by (simp add: clock_ok_def refreshed_def)
    ultimately show "money_ok s (refreshed h s v) \<and> clock_ok h (refreshed h s v)" ..
  qed
  with Some show ?thesis by (simp add: update_claimable_eq)
qed (simp add: update_claimable_eq)

lemma vr_end_block_kept: "vr_end_block h s = Done s' u \<Longrightarrow> kept digest h s s'"
proof -
  have "kept digest h s (fold (\<lambda>v s. if vs_status v = st_vesting then final_state (update_claimable_amount h (vs_id v) s) else s) vs s)"
    for vs
  proof (induction vs arbitrary: s)
    case Nil
    then show ?case by simp
  next
    case (Cons v vs)
    let ?t = "if vs_status v = st_vesting then final_state (update_claimable_amount h (vs_id v) s) else s"
    have "kept digest h s ?t" by (simp add: update_claimable_kept)
    from kept_trans [OF this Cons.IH [of ?t]] show ?case by (simp only: fold_simps)
  qed
  then show "vr_end_block h s = Done s' u \<Longrightarrow> kept digest h s s'" by (auto simp: vr_end_block_def)
qed

section \<open>Claims\<close>

definition claim_due :: "int \<Rightarrow> 'b vr_state \<Rightarrow> vesting_schedule \<Rightarrow> int" where
  "claim_due h s v = (if vs_status v = st_vesting then max 0 (released_at h s v - released_of v) else 0)"

definition reaches_limit :: "'b vr_state \<Rightarrow> vesting_schedule \<Rightarrow> int \<Rightarrow> bool" where
  "reaches_limit s v x = (case get_category_config s (vs_category v) of None \<Rightarrow> False
     | Some cfg \<Rightarrow> int_or_zero (vs_total v) * sint (cc_max_release cfg) div 1000000 \<le> x)"

lemma reaches_limit_frame:
  "vs_category w = vs_category v \<Longrightarrow> vs_total w = vs_total v \<Longrightarrow> vr_configs s' = vr_configs s \<Longrightarrow>
    reaches_limit s' w x = reaches_limit s v x"
  by (simp add: reaches_limit_def get_category_config_def cong: option.case_cong)

definition paid_out :: "int \<Rightarrow> 'b vr_state \<Rightarrow> vesting_schedule \<Rightarrow> vesting_schedule" where
  "paid_out h s v =
     v\<lparr>vs_released := big_string (released_of v + claim_due h s v), vs_claimable := ''0'', vs_last_claim := to_u64 h,
       vs_updated_at := to_u64 h,
       vs_status := (if reaches_limit s v (released_of v + claim_due h s v) then st_completed else st_vesting)\<rparr>"

lemma released_at_fields:
  assumes "vs_category w = vs_category v" "vs_total w = vs_total v" "vs_cliff_ends_at w = vs_cliff_ends_at v"
    "vs_accepted_at w = vs_accepted_at v" "vs_total_paused w = vs_total_paused v" "vs_paused_at w = vs_paused_at v"
    "vs_status w = vs_status v" "vs_defenses w = vs_defenses v" "vs_replications w = vs_replications v"
    "vs_corroborations w = vs_corroborations v" "vs_citations w = vs_citations v"
  shows "released_at h s w = released_at h s v"
  unfolding released_at_def calculate_released_amount_def elapsed_blocks_def effective_half_life_def
    acceleration_bonus_bps_def assms ..

lemma released_at_frame: "vr_configs s' = vr_configs s \<Longrightarrow> released_at h s' v = released_at h s v"
  by (simp add: released_at_def calculate_released_amount_def get_category_config_def Let_def)

text \<open>One turn of the loop on a schedule that is stored as it was read.\<close>

lemma claim_one_eq:
  assumes get: "get_vesting_schedule s (vs_id v) = Some v" and m: "money_ok s v"
  shows "claim_one h v s = Done
     (if vs_status v \<noteq> st_vesting then s
      else if claim_due h s v = 0 then set_vesting_schedule (refreshed h s v) s
      else set_vesting_schedule (paid_out h s v) (set_vesting_schedule (refreshed h s v) s)) (claim_due h s v)"
proof (cases "vs_status v = st_vesting")
  case False
  then show ?thesis by (simp add: claim_one_def claim_due_def)
next
  case True
  then have open_status: "\<not> closed_status (vs_status v)" by (simp add: closed_status_def)
  let ?r = "refreshed h s v"
  have r: "vs_id ?r = vs_id v" "int_or_zero (vs_claimable ?r) = claim_due h s v" "vs_released ?r = vs_released v"
    "vs_category ?r = vs_category v" "vs_total ?r = vs_total v" "released_of ?r = released_of v"
    using True by (simp_all add: refreshed_def claim_due_def released_of_def)
  obtain cfg where cfg: "get_category_config s (vs_category v) = Some cfg" using money_ok_limit [OF m] by blast
  have nn: "0 \<le> claim_due h s v" by (simp add: claim_due_def)
  define w where "w = v\<lparr>vs_released := big_string (released_of v + claim_due h s v), vs_claimable := ''0'',
      vs_last_claim := to_u64 h, vs_updated_at := to_u64 h\<rparr>"
  have w: "?r\<lparr>vs_released := big_string (released_of v + claim_due h s v), vs_claimable := ''0'',
      vs_last_claim := to_u64 h, vs_updated_at := to_u64 h\<rparr> = w"
    by (simp add: refreshed_def w_def)
  have wf: "vs_status w = st_vesting" "vs_category w = vs_category v" "vs_total w = vs_total v"
    using True by (simp_all add: w_def)
  have "claim_one h v s = (if claim_due h s v \<le> 0 then Done (set_vesting_schedule ?r s) 0 else
      Done (set_vesting_schedule (if reaches_limit s v (released_of v + claim_due h s v) then w\<lparr>vs_status := st_completed\<rparr> else w)
        (set_vesting_schedule ?r s)) (claim_due h s v))"
    using True open_status
    by (simp only: claim_one_def update_claimable_eq get outcome.case option.case r Let_def get_set_vesting
        of_option_Some try_in_Inr released_of_def [symmetric] w wf get_config_set cfg reaches_limit_def
        simp_thms if_False if_True)
  moreover have "paid_out h s v = w\<lparr>vs_status := (if reaches_limit s v (released_of v + claim_due h s v) then st_completed else st_vesting)\<rparr>"
    by (simp add: paid_out_def w_def)
  moreover have "w\<lparr>vs_status := st_vesting\<rparr> = w" using wf(1) by simp
  ultimately show ?thesis using True nn by simp
qed

lemma claim_due_range:
  assumes "money_ok s v" "get_category_config s (vs_category v) = Some cfg" "big_set_string (vs_total v) = Some amount"
  shows "0 \<le> claim_due h s v" "released_of v + claim_due h s v \<le> release_limit amount (cc_max_release cfg)"
proof -
  show "0 \<le> claim_due h s v" by (simp add: claim_due_def)
  show "released_of v + claim_due h s v \<le> release_limit amount (cc_max_release cfg)"
    using money_ok_limit [OF assms(1), of h] assms(2,3) by (force simp: claim_due_def max_def)
qed

lemma paid_out_kept:
  assumes inv: "vr_inv digest h s" and get: "get_vesting_schedule s (vs_id v) = Some v" and st: "vs_status v = st_vesting"
  shows "vr_inv digest h (set_vesting_schedule (paid_out h s v) s)" "advances v (paid_out h s v)"
    "released_of (paid_out h s v) = released_of v + claim_due h s v"
proof -
  note i = vr_invD(4,5) [OF inv get]
  show rel: "released_of (paid_out h s v) = released_of v + claim_due h s v"
    by (simp add: paid_out_def released_of_def)
  have nn: "0 \<le> claim_due h s v" by (simp add: claim_due_def)
  show adv: "advances v (paid_out h s v)"
    unfolding advances_def rel using st nn by (auto simp: may_become_def live_status_def known_status_def paid_out_def)
  have "money_ok s (paid_out h s v)"
  proof (rule money_ok_update [OF i(1), where released = "released_of v + claim_due h s v" and claimable = 0])
    show "0 \<le> released_of v + claim_due h s v" using nn money_ok_limit [OF i(1)] by force
    show "vs_claimable (paid_out h s v) = big_string 0" by (simp add: paid_out_def big_string_zero)
    fix cfg amount
    assume "get_category_config s (vs_category v) = Some cfg" "big_set_string (vs_total v) = Some amount"
    from claim_due_range(2) [OF i(1) this, of h]
    show "released_of v + claim_due h s v + 0 \<le> release_limit amount (cc_max_release cfg)" by simp
  qed (simp_all add: paid_out_def)
  moreover have "clock_ok h (paid_out h s v)" using i(2) st by (auto simp: clock_ok_def paid_out_def)
  ultimately have "kept digest h s (set_vesting_schedule (paid_out h s v) s)" using kept_touch [OF get adv] by blast
  with inv show "vr_inv digest h (set_vesting_schedule (paid_out h s v) s)" by (simp add: kept_def)
qed

lemma set_vesting_twice:
  assumes "vs_id w = vs_id v" "vs_claim_id w = vs_claim_id v" "vs_recipient w = vs_recipient v" "vr_index_ok s"
  shows "get_vesting_schedule (set_vesting_schedule w (set_vesting_schedule v s)) k = get_vesting_schedule (set_vesting_schedule w s) k"
  using assms by simp

text \<open>What a turn does: the due amount moves to released, other schedules and the bank are untouched.\<close>

lemma claim_one_effect:
  assumes inv: "vr_inv digest h s" and get: "get_vesting_schedule s (vs_id v) = Some v"
  shows "\<exists>s' w. claim_one h v s = Done s' (claim_due h s v) \<and> vr_inv digest h s' \<and>
    get_vesting_schedule s' (vs_id v) = Some w \<and> advances v w \<and> released_of w = released_of v + claim_due h s v \<and>
    (\<forall>k. k \<noteq> vs_id v \<longrightarrow> get_vesting_schedule s' k = get_vesting_schedule s k) \<and>
    vr_bank s' = vr_bank s \<and> vr_configs s' = vr_configs s \<and> vr_disproven s' = vr_disproven s"
proof -
  note i = vr_invD(4,5) [OF inv get]
  note eq = claim_one_eq [OF get i(1), of h]
  let ?r = "refreshed h s v" let ?sr = "set_vesting_schedule ?r s"
  have r: "vs_id ?r = vs_id v" "released_of ?r = released_of v" "vs_status ?r = vs_status v"
    by (simp_all add: refreshed_def released_of_def)
  have adv: "advances v ?r" by (simp add: advances_def may_become_def refreshed_def released_of_def)
  show ?thesis
  proof (cases "vs_status v = st_vesting")
    case False
    then have "claim_due h s v = 0" by (simp add: claim_due_def)
    with False eq inv get show ?thesis by (intro exI [of _ s] exI [of _ v]) simp
  next
    case True
    have ir: "vr_inv digest h ?sr"
      using update_claimable_kept [of digest h s "vs_id v"] inv get True
      by (simp add: kept_def update_claimable_eq closed_status_def)
    have gr: "get_vesting_schedule ?sr (vs_id ?r) = Some ?r" by simp
    show ?thesis
    proof (cases "claim_due h s v = 0")
      case zero: True
      then show ?thesis using True eq ir adv r by (intro exI [of _ ?sr] exI [of _ ?r]) simp
    next
      case False
      have due: "claim_due h ?sr ?r = claim_due h s v"
        using released_at_frame [of ?sr s h v] released_at_fields [of ?r v h ?sr] r
        by (simp add: claim_due_def) (simp add: refreshed_def)
      have same: "paid_out h ?sr ?r = paid_out h s v"
        using reaches_limit_frame [of ?r v ?sr s] r unfolding paid_out_def due by (simp add: refreshed_def)
      note p = paid_out_kept [OF ir gr, unfolded due same r]
      have "vs_id (paid_out h s v) = vs_id v" by (simp add: paid_out_def)
      moreover have "claim_one h v s = Done (set_vesting_schedule (paid_out h s v) ?sr) (claim_due h s v)"
        using True eq False by simp
      ultimately show ?thesis
        using p(1,3) [OF True] advances_trans [OF adv p(2) [OF True]] r(1)
        by (intro exI [of _ "set_vesting_schedule (paid_out h s v) ?sr"] exI [of _ "paid_out h s v"]) simp
    qed
  qed
qed

lemma claim_each_effect:
  assumes "vr_inv digest h s" "\<And>v. v \<in> set vs \<Longrightarrow> get_vesting_schedule s (vs_id v) = Some v" "distinct (map vs_id vs)"
  shows "\<exists>s'. claim_each h vs s = Done s' (\<Sum>v\<leftarrow>vs. claim_due h s v) \<and> vr_inv digest h s' \<and>
    (\<forall>k. k \<notin> set (map vs_id vs) \<longrightarrow> get_vesting_schedule s' k = get_vesting_schedule s k) \<and>
    (\<forall>v \<in> set vs. \<exists>w. get_vesting_schedule s' (vs_id v) = Some w \<and> advances v w \<and>
       released_of w = released_of v + claim_due h s v) \<and>
    vr_bank s' = vr_bank s \<and> vr_configs s' = vr_configs s \<and> vr_disproven s' = vr_disproven s"
  using assms
proof (induction vs arbitrary: s)
  case Nil
  then show ?case by simp
next
  case (Cons v vs)
  from claim_one_effect [OF Cons.prems(1) Cons.prems(2) [of v]] obtain t w where t:
    "claim_one h v s = Done t (claim_due h s v)" "vr_inv digest h t" "get_vesting_schedule t (vs_id v) = Some w"
    "advances v w" "released_of w = released_of v + claim_due h s v"
    "\<And>k. k \<noteq> vs_id v \<Longrightarrow> get_vesting_schedule t k = get_vesting_schedule s k"
    "vr_bank t = vr_bank s" "vr_configs t = vr_configs s" "vr_disproven t = vr_disproven s" by auto
  have due: "claim_due h t x = claim_due h s x" for x
    using released_at_frame [OF t(8), of h x] by (simp add: claim_due_def)
  have other: "vs_id x \<noteq> vs_id v" if "x \<in> set vs" for x
    using imageI [OF that, of vs_id] Cons.prems(3) by (auto simp del: imageI)
  have "get_vesting_schedule t (vs_id x) = Some x" if "x \<in> set vs" for x
    using that Cons.prems(2) [of x] t(6) [OF other [OF that]] by simp
  with Cons.IH [OF t(2)] Cons.prems(3) obtain u where u:
    "claim_each h vs t = Done u (\<Sum>v\<leftarrow>vs. claim_due h s v)" "vr_inv digest h u"
    "\<And>k. k \<notin> set (map vs_id vs) \<Longrightarrow> get_vesting_schedule u k = get_vesting_schedule t k"
    "\<And>x. x \<in> set vs \<Longrightarrow> \<exists>w. get_vesting_schedule u (vs_id x) = Some w \<and> advances x w \<and>
       released_of w = released_of x + claim_due h s x"
    "vr_bank u = vr_bank s" "vr_configs u = vr_configs s" "vr_disproven u = vr_disproven s"
    by (auto simp: due t(7-9))
  have "claim_each h (v # vs) s = Done u (\<Sum>v\<leftarrow>v # vs. claim_due h s v)" by (simp add: t(1) u(1))
  moreover have "get_vesting_schedule u (vs_id v) = Some w" using u(3) [of "vs_id v"] Cons.prems(3) t(3) by simp
  ultimately show ?case using u t(4-6) by (intro exI [of _ u]) auto
qed

lemma recipient_key_eq:
  "CHR ''/'' \<notin> set k \<Longrightarrow> CHR ''/'' \<notin> set l \<Longrightarrow> recipient_key r k = recipient_key q l \<longleftrightarrow> r = q \<and> k = l"
  using slash_split [of r k q l] by (auto simp: recipient_key_def)

lemma set_map_filter: "x \<in> set (List.map_filter f ks) \<longleftrightarrow> (\<exists>k \<in> set ks. f k = Some x)"
  by (induction ks) (auto simp: List.map_filter_simps split: option.split)

text \<open>The scan over a recipient's prefix finds exactly the recipient's schedules, each once.\<close>

lemma by_recipient_exact:
  assumes "vr_index_ok s"
  shows "v \<in> set (get_vesting_schedules_by_recipient s r) \<longleftrightarrow>
      get_vesting_schedule s (vs_id v) = Some v \<and> vs_recipient v = r"
    "distinct (map vs_id (get_vesting_schedules_by_recipient s r))"
proof -
  note d = vr_index_okD [OF assms]
  define f where "f key = Option.bind (cut_prefix (r @ ''/'') key) (get_vesting_schedule s)" for key
  have f: "f key = Some v \<longleftrightarrow> get_vesting_schedule s (vs_id v) = Some v \<and> vs_recipient v = r \<and> key = recipient_key r (vs_id v)"
    if "key \<in> set (map fst (vr_recipient_index s))" for key v
  proof -
    from that have "kv_get (vr_recipient_index s) key \<noteq> None" by (simp add: map_of_eq_None_iff)
    then obtain k w where w: "get_vesting_schedule s k = Some w" "key = recipient_key (vs_recipient w) k"
      using d(7) by blast
    have slash: "CHR ''/'' \<notin> set l" if "get_vesting_schedule s l = Some x" for l x
      using d(5,6) [OF that] by (auto simp: identity_ok_def)
    have "f key = Some v \<longleftrightarrow> (\<exists>l. key = recipient_key r l \<and> get_vesting_schedule s l = Some v)"
      by (auto simp: f_def bind_eq_Some_conv cut_prefix_Some recipient_key_def)
    also have "\<dots> \<longleftrightarrow> get_vesting_schedule s (vs_id v) = Some v \<and> vs_recipient v = r \<and> key = recipient_key r (vs_id v)"
      using w slash d(5) by (auto simp: recipient_key_eq)
    finally show ?thesis .
  qed
  have eq: "get_vesting_schedules_by_recipient s r = List.map_filter f (map fst (vr_recipient_index s))"
    by (simp add: get_vesting_schedules_by_recipient_def f_def [abs_def])
  show "v \<in> set (get_vesting_schedules_by_recipient s r) \<longleftrightarrow>
      get_vesting_schedule s (vs_id v) = Some v \<and> vs_recipient v = r"
  proof
    assume "v \<in> set (get_vesting_schedules_by_recipient s r)"
    then obtain key where "key \<in> set (map fst (vr_recipient_index s))" "f key = Some v"
      by (auto simp: eq set_map_filter simp del: set_map)
    with f show "get_vesting_schedule s (vs_id v) = Some v \<and> vs_recipient v = r" by blast
  next
    assume v: "get_vesting_schedule s (vs_id v) = Some v \<and> vs_recipient v = r"
    then have "kv_get (vr_recipient_index s) (recipient_key r (vs_id v)) \<noteq> None" using d(7) by blast
    then have key: "recipient_key r (vs_id v) \<in> set (map fst (vr_recipient_index s))" by (simp add: map_of_eq_None_iff)
    with f [OF key, of v] v show "v \<in> set (get_vesting_schedules_by_recipient s r)"
      unfolding eq set_map_filter by blast
  qed
  have "distinct (map vs_id (List.map_filter f keys))"
    if "distinct keys" "set keys \<subseteq> set (map fst (vr_recipient_index s))" for keys
    using that
  proof (induction keys)
    case Nil
    then show ?case by (simp add: List.map_filter_simps)
  next
    case (Cons key keys)
    have "vs_id v \<notin> set (map vs_id (List.map_filter f keys))" if v: "f key = Some v" for v
    proof
      assume "vs_id v \<in> set (map vs_id (List.map_filter f keys))"
      then obtain key' w where w: "key' \<in> set keys" "f key' = Some w" "vs_id w = vs_id v"
        by (auto simp: set_map_filter)
      then have "key' = key" using f [of key v] f [of key' w] v Cons.prems(2) by auto
      with w(1) Cons.prems(1) show False by simp
    qed
    with Cons show ?case by (auto simp: List.map_filter_simps split: option.split)
  qed
  from this [OF kv_ok_distinct [OF d(3)] order_refl]
  show "distinct (map vs_id (get_vesting_schedules_by_recipient s r))" by (simp add: eq)
qed

lemma claimed_schedules_ok:
  assumes "vr_index_ok s" "claimed_schedules r vesting_id s = Inr vs"
  shows "distinct (map vs_id vs)" "v \<in> set vs \<Longrightarrow> get_vesting_schedule s (vs_id v) = Some v \<and> vs_recipient v = r"
  using assms(2) by_recipient_exact [OF assms(1)] vr_index_okD(5) [OF assms(1)]
  by (auto simp: claimed_schedules_def outcome_simps split: if_splits)

end
