(* ===== verification/VR_Chain.thy ===== *)
theory VR_Chain
  imports VR_Steps
begin

text \<open>
  Claims, creation, falsification and the other messages of x/vesting_rewards keep the invariant and the
  history; the module is an instance of \<open>chain_module\<close>.
\<close>

section \<open>Operations that only move coins\<close>

lemma on_vr_bank_kept: "on_vr_bank f s = Done s' u \<Longrightarrow> kept digest h s s'"
  by (auto simp: outcome_simps intro!: kept_frame)

lemma on_vr_bank_final_kept: "kept digest h s (final_state (on_vr_bank f s))"
  by (auto simp: on_bank_def split: outcome.split intro!: kept_frame)

text \<open>\<open>s'\<close> is \<open>s\<close> but for the bank.\<close>

definition bank_only :: "'b vr_state \<Rightarrow> 'b vr_state \<Rightarrow> bool" where
  "bank_only s s' \<longleftrightarrow> (\<exists>b. s' = s\<lparr>vr_bank := b\<rparr>)"

lemma bank_only_refl [simp, intro]: "bank_only s s"
  unfolding bank_only_def by (rule exI [of _ "vr_bank s"]) simp

lemma bank_only_update [simp, intro]: "bank_only s (s\<lparr>vr_bank := b\<rparr>)"
  by (auto simp: bank_only_def)

lemma bank_only_trans: "bank_only s t \<Longrightarrow> bank_only t u \<Longrightarrow> bank_only s u"
  by (auto simp: bank_only_def)

lemma bank_only_kept: "bank_only s s' \<Longrightarrow> kept digest h s s'"
  by (auto simp: bank_only_def intro!: kept_frame)

lemma on_vr_bank_only: "bank_only s (final_state (on_vr_bank f s))"
  by (auto simp: on_bank_def bank_only_def split: outcome.split)

lemma on_vr_bank_Done_only: "on_vr_bank f s = Done s' u \<Longrightarrow> bank_only s s'"
  by (metis on_vr_bank_only final_state.simps(1))

lemma deposit_each_only: "bank_only s (final_state (deposit_each env cs s))"
proof (induction cs arbitrary: s)
  case (Cons c cs)
  show ?case
  proof (cases "0 < snd c")
    case True
    show ?thesis
    proof (cases "new_coins env [c]")
      case (Some coins)
      let ?r = "on_vr_bank (bank_mod_to_mod env vr_module_name research_fund_name coins) s"
      show ?thesis
        using on_vr_bank_only [of s "bank_mod_to_mod env vr_module_name research_fund_name coins"] Cons bank_only_trans True Some
        by (cases ?r) (fastforce simp: try_in_def)+
    qed (simp add: True)
  qed (simp add: Cons)
qed simp

lemma deposit_only: "bank_only s (final_state (deposit_to_research_fund env source cs s))"
proof (cases "source = vr_module_name")
  case True
  then show ?thesis by (simp add: deposit_to_research_fund_def deposit_each_only)
next
  case False
  let ?r = "on_vr_bank (bank_mod_to_mod env source vr_module_name cs) s"
  show ?thesis
    using on_vr_bank_only [of s "bank_mod_to_mod env source vr_module_name cs"] deposit_each_only bank_only_trans False
    by (cases ?r) (fastforce simp: deposit_to_research_fund_def)+
qed

lemma route_fees_only:
  assumes "route_fees env s = Done s' u"
  shows "bank_only s s'"
proof -
  have research: "bank_only t t'" if "route_research_share env x t = Done t' g" for t t' :: "'a vr_state" and x g
  proof (cases "x \<le> 0")
    case False
    with that obtain coins where c: "new_coins env [(uzrn, x)] = Some coins" by (auto simp: route_research_share_def outcome_simps)
    define r where "r = on_vr_bank (bank_mod_to_mod env fee_collector_name vr_module_name coins) t"
    have first: "bank_only t (final_state r)" unfolding r_def by (rule on_vr_bank_only)
    have "t' = (case r of Fail s e \<Rightarrow> s | Done s u \<Rightarrow> final_state (deposit_to_research_fund env vr_module_name coins s))"
      using that False c by (simp add: route_research_share_def flip: r_def split: outcome.splits)
    with first deposit_only [of _ env vr_module_name coins] show ?thesis
      by (cases r) (auto intro: bank_only_trans)
  qed (use that in \<open>simp add: route_research_share_def\<close>)
  have dev: "bank_only t t'" if "route_development_share env x t = Done t' g" for t t' :: "'a vr_state" and x g
    using that on_vr_bank_only by (auto simp: route_development_share_def outcome_simps split: if_splits)
  from assms research dev bank_only_trans show ?thesis
    by (auto simp: route_fees_def Let_def outcome_simps split: if_splits) blast+
qed

section \<open>Claims\<close>

definition payout :: "'b sdk \<Rightarrow> string \<Rightarrow> int \<Rightarrow> 'b \<Rightarrow> 'b \<Rightarrow> bool" where
  "payout env recipient x b b' \<longleftrightarrow>
     (case acc_address env recipient of None \<Rightarrow> b' = b
      | Some a \<Rightarrow> \<exists>cs. new_coins env [(uzrn, x)] = Some cs \<and> bank_to_account env vr_module_name a cs b = Done b' ())"

lemma claim_rewards_effect:
  assumes inv: "vr_inv digest h s" and run: "claim_rewards env h r vesting_id s = Done s' amt"
  obtains vs where "claimed_schedules r vesting_id s = Inr vs" "vr_inv digest h s'"
    "amt = big_string (\<Sum>v\<leftarrow>vs. claim_due h s v)" "0 < (\<Sum>v\<leftarrow>vs. claim_due h s v)"
    "\<forall>k. k \<notin> set (map vs_id vs) \<longrightarrow> get_vesting_schedule s' k = get_vesting_schedule s k"
    "\<forall>v \<in> set vs. \<exists>w. get_vesting_schedule s' (vs_id v) = Some w \<and> advances v w \<and>
       released_of w = released_of v + claim_due h s v"
    "payout env r (\<Sum>v\<leftarrow>vs. claim_due h s v) (vr_bank s) (vr_bank s')"
proof -
  from run obtain vs where vs: "claimed_schedules r vesting_id s = Inr vs"
    by (auto simp: claim_rewards_def outcome_simps)
  note ok = claimed_schedules_ok [OF vr_invD(2) [OF inv] vs]
  let ?t = "\<Sum>v\<leftarrow>vs. claim_due h s v"
  from claim_each_effect [OF inv _ ok(1)] ok(2) obtain t where t:
    "claim_each h vs s = Done t ?t" "vr_inv digest h t"
    "\<forall>k. k \<notin> set (map vs_id vs) \<longrightarrow> get_vesting_schedule t k = get_vesting_schedule s k"
    "\<forall>v \<in> set vs. \<exists>w. get_vesting_schedule t (vs_id v) = Some w \<and> advances v w \<and> released_of w = released_of v + claim_due h s v"
    "vr_bank t = vr_bank s" by blast
  have nn: "0 \<le> ?t" by (rule sum_list_nonneg) (auto simp: claim_due_def)
  from run vs t(1) have nz: "?t \<noteq> 0" and amt: "amt = big_string ?t"
    and pay: "bank_only t s'" "payout env r ?t (vr_bank t) (vr_bank s')"
    using nn by (auto simp: claim_rewards_def payout_def outcome_simps split: if_splits option.splits)
  have "get_vesting_schedule s' = get_vesting_schedule t" using pay(1) by (auto simp: bank_only_def get_vesting_schedule_def)
  moreover have "vr_inv digest h s'" using bank_only_kept [OF pay(1)] t(2) by (simp add: kept_def)
  ultimately show ?thesis using that [OF vs] t(3-5) nz nn amt pay(2) by simp
qed

lemma claim_rewards_kept:
  assumes "claim_rewards env h r vesting_id s = Done s' amt"
  shows "kept digest h s s'"
  unfolding kept_def
proof
  assume inv: "vr_inv digest h s"
  obtain vs where c: "claimed_schedules r vesting_id s = Inr vs" "vr_inv digest h s'"
    "\<forall>k. k \<notin> set (map vs_id vs) \<longrightarrow> get_vesting_schedule s' k = get_vesting_schedule s k"
    "\<forall>v \<in> set vs. \<exists>w. get_vesting_schedule s' (vs_id v) = Some w \<and> advances v w \<and> released_of w = released_of v + claim_due h s v"
    by (rule claim_rewards_effect [OF inv assms], rule that, assumption+)
  note ok = claimed_schedules_ok [OF vr_invD(2) [OF inv] c(1)]
  have "\<exists>w. get_vesting_schedule s' k = Some w \<and> advances v w" if v: "get_vesting_schedule s k = Some v" for k v
  proof (cases "k \<in> set (map vs_id vs)")
    case True
    then obtain x where "x \<in> set vs" "k = vs_id x" by auto
    with ok(2) [of x] v have "x = v" by simp
    with c(4) \<open>x \<in> set vs\<close> \<open>k = vs_id x\<close> show ?thesis by auto
  next
    case False
    with c(3) v show ?thesis by auto
  qed
  with c(2) show "vr_inv digest h s' \<and> history s s'" by (simp add: history_def)
qed

section \<open>Creation\<close>

lemma new_schedule_money:
  assumes "positive_int total_amount = Some amount" "get_category_config s category = Some cfg" "config_ok cfg"
  shows "money_ok s (new_schedule k t claim_id fact_id recipient total_amount amount category source cfg)"
proof -
  have "0 < amount" "big_set_string total_amount = Some amount" using assms(1) by (simp_all add: positive_int_Some)
  moreover have "0 \<le> release_limit amount (cc_max_release cfg)"
    using assms(3) \<open>0 < amount\<close> by (intro release_limit_split) (auto simp: config_ok_def)
  ultimately show ?thesis
    using assms(2,3) unfolding money_ok_def new_schedule_def
    by (intro exI [of _ cfg] exI [of _ amount] exI [of _ 0]) (simp flip: big_string_zero)
qed

lemma create_with_config_kept:
  assumes run: "create_vesting_schedule_with_config digest h claim_id fact_id recipient total_amount category source cfg s = Done s' v"
    and cfg: "get_category_config s category = Some cfg" and r: "recipient \<noteq> []" and h: "0 \<le> h" "h < 2 ^ 63"
  shows "kept digest h s s'"
  unfolding kept_def
proof
  assume inv: "vr_inv digest h s"
  note d = vr_invD [OF inv]
  define k where "k = schedule_id digest claim_id recipient (to_u64 h)"
  from run obtain amount where amount: "positive_int total_amount = Some amount"
    and v: "v = new_schedule k (to_u64 h) claim_id fact_id recipient total_amount amount category source cfg"
    and free: "kv_get (vr_schedules s) k = None" and s': "s' = set_vesting_schedule v s"
    by (auto simp: create_vesting_schedule_with_config_def Let_def outcome_simps k_def)
  have id: "vs_id v = k" by (simp add: v new_schedule_def)
  have none: "get_vesting_schedule s k = None" using free by (simp add: get_vesting_schedule_def)
  have "identity_ok v"
    using d(1) r by (auto simp: identity_ok_def v new_schedule_def known_status_def k_def schedule_id_def digest_text_def)
  then have "vr_index_ok s'" unfolding s' using none id by (intro vr_index_ok_set [OF d(2)]) auto
  moreover have "money_ok s' v"
    using new_schedule_money [OF amount cfg category_config_ok [OF d(3) cfg]] by (simp add: s' v money_ok_frame [OF set_vesting_fields(2)])
  moreover have "clock_ok h v" using h by (simp add: clock_ok_def v new_schedule_def uint_to_u64)
  ultimately have "vr_inv digest h s'"
    using d by (auto simp: vr_inv_def s' id money_ok_frame [OF set_vesting_fields(2)] configs_ok_frame [OF set_vesting_fields(2)])
  moreover have "history s s'" using none by (auto simp: history_def s' id)
  ultimately show "vr_inv digest h s' \<and> history s s'" ..
qed

lemma create_kept:
  "create_vesting_schedule digest h claim_id fact_id recipient total_amount category source s = Done s' v \<Longrightarrow>
    recipient \<noteq> [] \<Longrightarrow> 0 \<le> h \<Longrightarrow> h < 2 ^ 63 \<Longrightarrow> kept digest h s s'"
  by (auto simp: create_vesting_schedule_def outcome_simps intro: create_with_config_kept)

lemma knowledge_config_get:
  "knowledge_category_config h category s = Inr cfg \<Longrightarrow> get_category_config s category = Some cfg"
  by (auto simp: knowledge_category_config_def split: option.splits if_splits)

lemma knowledge_kept:
  assumes "create_knowledge_vesting_schedule digest h claim_id fact_id recipient amount epistemic s = Done s' u"
    "0 \<le> h" "h < 2 ^ 63"
  shows "kept digest h s s'"
  using assms
  by (auto simp: create_knowledge_vesting_schedule_def Let_def outcome_simps split: option.splits
      dest: knowledge_config_get intro: create_with_config_kept)

section \<open>Falsification, completion and pauses by index\<close>

lemma falsify_claim_kept:
  assumes "falsify_claim digest h claim_id s = Done s' r"
  shows "kept digest h s s'"
proof -
  from assms obtain v k where v: "get_vesting_schedule s k = Some v"
    and s': "s' = set_clawback_record r (set_vesting_schedule (v\<lparr>vs_status := st_falsified, vs_updated_at := to_u64 h\<rparr>) s)"
    by (auto simp: falsify_claim_def get_vesting_by_claim_id_def Let_def outcome_simps split: option.splits if_splits)
  have "kept digest h s (set_vesting_schedule (v\<lparr>vs_status := st_falsified, vs_updated_at := to_u64 h\<rparr>) s)"
    by (rule kept_mark [OF v]) (simp_all add: advances_def may_become_def released_of_def)
  moreover have "kept digest h (set_vesting_schedule w s) (set_clawback_record r (set_vesting_schedule w s))" for w
    by (rule kept_frame) (simp_all add: set_clawback_record_def)
  ultimately show ?thesis unfolding s' by (blast intro: kept_trans)
qed

lemma complete_kept:
  assumes "complete_vesting authority h who k s = Done s' r"
  shows "kept digest h s s'"
  unfolding kept_def
proof
  assume inv: "vr_inv digest h s"
  from assms obtain v0 t v where v0: "get_vesting_schedule s k = Some v0" "\<not> closed_status (vs_status v0)"
    and t: "update_claimable_amount h k s = Done t ()" and v: "get_vesting_schedule t k = Some v"
    and s': "s' = set_vesting_schedule (v\<lparr>vs_status := st_completed, vs_updated_at := to_u64 h\<rparr>) t"
    by (auto simp: complete_vesting_def closed_status_def outcome_simps split: if_splits)
  have "vs_id v0 = k" using vr_index_okD(5) [OF vr_invD(2) [OF inv] v0(1)] .
  then have eq: "v = refreshed h s v0" using v0 t v by (auto simp: update_claimable_eq refreshed_def)
  have "known_status (vs_status v0)" using vr_index_okD(6) [OF vr_invD(2) [OF inv] v0(1)] by (simp add: identity_ok_def)
  with v0(2) have live: "live_status (vs_status v)"
    by (auto simp: eq refreshed_def known_status_def closed_status_def live_status_def)
  have "kept digest h s t" using update_claimable_kept [of digest h s k] by (simp add: t)
  moreover have "kept digest h t s'" unfolding s'
    using live by (intro kept_mark [OF v]) (simp_all add: advances_def may_become_def released_of_def known_status_def)
  ultimately show "vr_inv digest h s' \<and> history s s'" using inv kept_trans unfolding kept_def by blast
qed

lemma pause_all_kept:
  assumes "pause_all_vesting_by_recipient h r s = Done s' n"
  shows "kept digest h s s'"
proof -
  have "kept digest h s (fst (fold (\<lambda>v (s, n). case pause_vesting h (vs_id v) s of Fail s e \<Rightarrow> (s, n) | Done s u \<Rightarrow> (s, Suc n)) vs (s, n)))"
    for vs n
  proof (induction vs arbitrary: s n)
    case Nil
    then show ?case by simp
  next
    case (Cons v vs)
    show ?case
    proof (cases "pause_vesting h (vs_id v) s")
      case (Done t u)
      with Cons.IH [of t "Suc n"] pause_kept [OF Done, of digest] kept_trans show ?thesis by auto blast
    next
      case (Fail t e)
      then have "t = s" by (auto simp: pause_vesting_def try_in_def of_option_def split: option.splits if_splits)
      with Fail Cons.IH [of s n] show ?thesis by simp
    qed
  qed
  from this [of "filter (\<lambda>v. vs_status v = st_vesting) (get_vesting_schedules_by_recipient s r)" 0] assms show ?thesis
    by (simp add: pause_all_vesting_by_recipient_def Let_def split: prod.splits)
qed

lemma by_claim_kept:
  "pause_vesting_by_claim_id h c s = Done s' u \<Longrightarrow> kept digest h s s'"
  "resume_vesting_by_claim_id h c s = Done s' u \<Longrightarrow> kept digest h s s'"
  by (auto simp: pause_vesting_by_claim_id_def resume_vesting_by_claim_id_def split: option.splits
      intro: pause_kept resume_kept)

section \<open>Parameters and the mint\<close>

lemma vr_update_params_effect:
  assumes "update_vr_params authority who po s = Done s' u"
  shows "\<exists>p current. po = Some p \<and> vr_params_record s = Some current \<and> s' = write_vr_params p s \<and>
    validate_vr_params p = Inr () \<and> validate_runtime_param_change current p = Inr () \<and> \<not> has_legacy_economic_fields current \<and>
    who = authority"
  using assms
  by (auto simp: update_vr_params_def set_vr_params_def get_stored_params_def outcome_simps split: if_splits option.splits)

lemma update_params_kept: "update_vr_params authority who po s = Done s' u \<Longrightarrow> kept digest h s s'"
  by (drule vr_update_params_effect) (auto simp: write_vr_params_def intro!: kept_frame)

lemma mint_kept: "mint_with_cap env m x s = Done s' y \<Longrightarrow> kept digest h s s'"
  by (auto simp: mint_with_cap_def Let_def outcome_simps set_total_minted_def intro!: kept_frame split: if_splits)

section \<open>The module on the chain\<close>

text \<open>Recipients that other modules name are not empty; everything else is checked by the module.\<close>

fun vr_admissible :: "vr_op \<Rightarrow> bool" where
  "vr_admissible (FalsificationReward counter target recipient amount) \<longleftrightarrow> recipient \<noteq> []"
| "vr_admissible op \<longleftrightarrow> True"

lemma vr_handle_kept:
  assumes "vr_handle env digest authority h op s = Done s' u" "vr_admissible op" "0 \<le> h" "h < 2 ^ 63"
  shows "kept digest h s s'"
proof (cases op)
  case (CreateVesting m)
  with assms show ?thesis
    by (auto simp: create_vesting_def outcome_simps validate_create_vesting_def intro: create_kept)
next
  case (ClaimVesting m)
  with assms show ?thesis
    by (auto simp: claim_vesting_def Let_def outcome_simps intro: claim_rewards_kept)
next
  case (FalsifyVesting who k)
  with assms show ?thesis by (auto simp: falsify_vesting_def outcome_simps intro: falsify_claim_kept)
next
  case (PauseVesting who k)
  with assms show ?thesis by (auto simp: msg_pause_vesting_def outcome_simps intro: pause_kept)
next
  case (ResumeVesting who k)
  with assms show ?thesis by (auto simp: msg_resume_vesting_def outcome_simps intro: resume_kept)
next
  case (AccelerateVesting m)
  with assms show ?thesis by (auto simp: accelerate_vesting_def intro: record_kept split: if_splits)
next
  case (CompleteVesting who k)
  with assms show ?thesis by (auto simp: outcome_simps intro: complete_kept)
next
  case (UpdateVrParams who p)
  with assms show ?thesis by (auto intro: update_params_kept)
next
  case (KnowledgeSchedule c f r a e)
  with assms show ?thesis by (auto intro: knowledge_kept)
next
  case (FalsificationReward c f r a)
  with assms show ?thesis by (auto simp: distribute_falsification_reward_def outcome_simps intro: create_kept)
next
  case (DepositResearch source cs)
  with assms show ?thesis using deposit_only [of s env source cs] by (auto intro: bank_only_kept)
next
  case (DisburseResearch a cs)
  with assms show ?thesis by (auto simp: disburse_from_research_fund_def intro: on_vr_bank_kept)
next
  case (DisburseDevelopment a cs)
  with assms show ?thesis by (auto simp: disburse_from_development_fund_def intro: on_vr_bank_kept)
next
  case (PauseAllByRecipient r)
  with assms show ?thesis by (auto simp: outcome_simps intro: pause_all_kept)
next
  case (MintCapped m x)
  with assms show ?thesis by (auto simp: outcome_simps intro: mint_kept)
qed (use assms in \<open>auto intro: by_claim_kept\<close>)

text \<open>Between the blocks \<open>h - 1\<close> and \<open>h\<close>: the end of the one and the start of the other.\<close>

definition vr_block :: "'b sdk \<Rightarrow> int \<Rightarrow> 'b vr_state \<Rightarrow> ('b, unit) vr_outcome" where
  "vr_block env h s = and_then (vr_end_block (h - 1) s) (\<lambda>s _. vr_begin_block env h s)"

text \<open>
  A chain starts from a valid genesis; the schedules it imports are well formed, as those of an export are.
\<close>

definition imported_ok :: "int \<Rightarrow> vr_genesis \<Rightarrow> 'b vr_state \<Rightarrow> vesting_schedule \<Rightarrow> bool" where
  "imported_ok h gs s v \<longleftrightarrow> identity_ok v \<and> clock_ok h v \<and> money_ok (fold set_category_config (vrg_configs gs) s) v"

definition vr_fresh :: "'b vr_state \<Rightarrow> bool" where
  "vr_fresh s \<longleftrightarrow> vr_params_record s = None \<and> vr_configs s = [] \<and> vr_schedules s = [] \<and> vr_claim_index s = [] \<and>
     vr_recipient_index s = [] \<and> vr_active_index s = []"

definition vr_init :: "(string \<Rightarrow> string) \<Rightarrow> int \<Rightarrow> 'b vr_state \<Rightarrow> bool" where
  "vr_init digest h s \<longleftrightarrow> digest_text digest \<and> (\<exists>gs s0. vr_fresh s0 \<and> validate_vr_genesis gs \<and>
     (\<forall>v \<in> set (vrg_schedules gs). imported_ok h gs s0 v) \<and> init_vr_genesis gs s0 = Done s ())"

text \<open>The rest of the chain moves balances and settles facts.\<close>

definition vr_others :: "'b vr_state \<Rightarrow> 'b vr_state \<Rightarrow> bool" where
  "vr_others s s' \<longleftrightarrow> (\<exists>b d. s' = s\<lparr>vr_bank := b, vr_disproven := d\<rparr>)"

lemma set_category_fields [simp]:
  "vr_schedules (fold set_category_config cs s) = vr_schedules s"
  "vr_claim_index (fold set_category_config cs s) = vr_claim_index s"
  "vr_recipient_index (fold set_category_config cs s) = vr_recipient_index s"
  "vr_active_index (fold set_category_config cs s) = vr_active_index s"
  "vr_params_record (fold set_category_config cs s) = vr_params_record s"
  "vr_configs (fold set_category_config cs s) = fold (\<lambda>c m. kv_set (cc_category c) c m) cs (vr_configs s)"
  by (induction cs arbitrary: s) (auto simp: set_category_config_def)

lemma set_category_configs_ok:
  "configs_ok s \<Longrightarrow> list_all validate_config cs \<Longrightarrow> configs_ok (fold set_category_config cs s)"
proof (induction cs arbitrary: s)
  case Nil
  then show ?case by simp
next
  case (Cons c cs)
  have "uint (cc_max_release c) \<le> 1000000" "0 < uint (cc_half_life c)"
    using Cons.prems(2) uint_ge_0 [of "cc_half_life c"]
    by (auto simp: validate_config_def u64_le u64_eq_iff order_less_le)
  then have "configs_ok (set_category_config c s)"
    using Cons.prems(1) by (auto simp: configs_ok_def set_category_config_def config_ok_def)
  with Cons show ?case by simp
qed

lemma import_schedules:
  assumes "vr_index_ok s" "distinct (map vs_id vs)" "\<And>v. v \<in> set vs \<Longrightarrow> identity_ok v \<and> get_vesting_schedule s (vs_id v) = None"
  shows "vr_index_ok (fold set_vesting_schedule vs s) \<and>
    (\<forall>k v. get_vesting_schedule (fold set_vesting_schedule vs s) k = Some v \<longrightarrow> v \<in> set vs \<or> get_vesting_schedule s k = Some v) \<and>
    (\<forall>v \<in> set vs. get_vesting_schedule (fold set_vesting_schedule vs s) (vs_id v) = Some v) \<and>
    vr_configs (fold set_vesting_schedule vs s) = vr_configs s \<and>
    vr_params_record (fold set_vesting_schedule vs s) = vr_params_record s"
  using assms
proof (induction vs arbitrary: s)
  case Nil
  then show ?case by simp
next
  case (Cons v vs)
  let ?s = "set_vesting_schedule v s"
  have ok: "vr_index_ok ?s" using Cons.prems(1,3) by (intro vr_index_ok_set) auto
  have fresh: "identity_ok w \<and> get_vesting_schedule ?s (vs_id w) = None" if "w \<in> set vs" for w
  proof -
    have "vs_id w \<noteq> vs_id v" using Cons.prems(2) that by (metis distinct.simps(2) image_eqI list.simps(9) set_map)
    with Cons.prems(3) that show ?thesis by auto
  qed
  have IH: "vr_index_ok (fold set_vesting_schedule vs ?s) \<and>
    (\<forall>k x. get_vesting_schedule (fold set_vesting_schedule vs ?s) k = Some x \<longrightarrow> x \<in> set vs \<or> get_vesting_schedule ?s k = Some x) \<and>
    (\<forall>x \<in> set vs. get_vesting_schedule (fold set_vesting_schedule vs ?s) (vs_id x) = Some x) \<and>
    vr_configs (fold set_vesting_schedule vs ?s) = vr_configs ?s \<and>
    vr_params_record (fold set_vesting_schedule vs ?s) = vr_params_record ?s"
    by (rule Cons.IH [OF ok _ fresh]) (use Cons.prems(2) in simp)
  have keep: "get_vesting_schedule (fold set_vesting_schedule xs t) k = get_vesting_schedule t k"
    if "k \<notin> set (map vs_id xs)" for xs k and t :: "'a vr_state"
    using that by (induction xs arbitrary: t) auto
  have "get_vesting_schedule (fold set_vesting_schedule vs ?s) (vs_id v) = Some v"
    using keep [of "vs_id v" vs ?s] Cons.prems(2) by simp
  moreover have "x \<in> set (v # vs) \<or> get_vesting_schedule s k = Some x"
    if "get_vesting_schedule (fold set_vesting_schedule (v # vs) s) k = Some x" for k x
  proof -
    have "x \<in> set vs \<or> get_vesting_schedule ?s k = Some x" using IH that by (simp only: fold_simps)
    then show ?thesis by (auto split: if_splits)
  qed
  ultimately show ?case using IH by auto
qed

lemma vr_index_ok_set_claim:
  assumes "vr_index_ok s" "c \<noteq> []" "get_vesting_schedule s k = Some v" "vs_claim_id v = c"
  shows "vr_index_ok (set_claim_schedule_index (c, k) s)"
proof -
  have g: "get_vesting_schedule (set_claim_schedule_index (c, k) s) = get_vesting_schedule s"
    by (simp add: get_vesting_schedule_def set_claim_schedule_index_def fun_eq_iff)
  show ?thesis
    using assms unfolding vr_index_ok_def g by (auto simp: set_claim_schedule_index_def split: if_splits)
qed

lemma import_claims:
  assumes "vr_index_ok s" "\<And>c k. (c, k) \<in> set ix \<Longrightarrow> c \<noteq> [] \<and> (\<exists>v. get_vesting_schedule s k = Some v \<and> vs_claim_id v = c)"
  shows "vr_index_ok (fold set_claim_schedule_index ix s) \<and>
    get_vesting_schedule (fold set_claim_schedule_index ix s) = get_vesting_schedule s \<and>
    vr_configs (fold set_claim_schedule_index ix s) = vr_configs s \<and>
    vr_params_record (fold set_claim_schedule_index ix s) = vr_params_record s"
  using assms
proof (induction ix arbitrary: s)
  case Nil
  then show ?case by simp
next
  case (Cons i ix)
  obtain c k where i: "i = (c, k)" by (cases i)
  let ?s = "set_claim_schedule_index i s"
  have g: "get_vesting_schedule ?s = get_vesting_schedule s"
    by (simp add: get_vesting_schedule_def set_claim_schedule_index_def fun_eq_iff)
  have ok: "vr_index_ok ?s" using Cons.prems(2) [of c k] Cons.prems(1) by (auto simp: i intro: vr_index_ok_set_claim)
  have f: "vr_configs ?s = vr_configs s" "vr_params_record ?s = vr_params_record s"
    by (simp_all add: set_claim_schedule_index_def)
  have "x \<noteq> [] \<and> (\<exists>v. get_vesting_schedule ?s y = Some v \<and> vs_claim_id v = x)" if "(x, y) \<in> set ix" for x y
    using Cons.prems(2) [of x y] that by (simp add: g)
  from Cons.IH [OF ok this] show ?case by (simp add: g f)
qed

lemma find_unique: "find P xs = Some v \<Longrightarrow> v \<in> set xs \<and> P v"
  by (rule find_member)

lemma vr_init_inv:
  assumes "vr_init digest h s"
  shows "vr_inv digest h s"
proof -
  from assms obtain gs s0 where dg: "digest_text digest" and s0: "vr_fresh s0" and gs: "validate_vr_genesis gs"
    and im: "\<And>v. v \<in> set (vrg_schedules gs) \<Longrightarrow> imported_ok h gs s0 v" and run: "init_vr_genesis gs s0 = Done s ()"
    unfolding vr_init_def by blast
  from gs obtain p where p: "vrg_params gs = Some p" "validate_vr_params p = Inr ()"
    by (auto simp: validate_vr_genesis_def split: option.splits)
  define a where "a = write_vr_params p s0"
  define b where "b = fold set_category_config (vrg_configs gs) a"
  define c where "c = fold set_vesting_schedule (vrg_schedules gs) b"
  define d where "d = fold set_claim_schedule_index (vrg_claim_indexes gs) c"
  have frame: "vr_schedules s = vr_schedules d" "vr_claim_index s = vr_claim_index d"
    "vr_recipient_index s = vr_recipient_index d" "vr_active_index s = vr_active_index d" "vr_configs s = vr_configs d"
    "vr_params_record s = vr_params_record d"
  proof -
    have cl: "vr_schedules (fold set_clawback_record xs t) = vr_schedules t \<and> vr_claim_index (fold set_clawback_record xs t) = vr_claim_index t \<and>
      vr_recipient_index (fold set_clawback_record xs t) = vr_recipient_index t \<and> vr_active_index (fold set_clawback_record xs t) = vr_active_index t \<and>
      vr_configs (fold set_clawback_record xs t) = vr_configs t \<and> vr_params_record (fold set_clawback_record xs t) = vr_params_record t"
      for xs and t :: "'a vr_state" by (induction xs arbitrary: t) (auto simp: set_clawback_record_def)
    have di: "vr_schedules (fold set_block_reward_distribution xs t) = vr_schedules t \<and> vr_claim_index (fold set_block_reward_distribution xs t) = vr_claim_index t \<and>
      vr_recipient_index (fold set_block_reward_distribution xs t) = vr_recipient_index t \<and> vr_active_index (fold set_block_reward_distribution xs t) = vr_active_index t \<and>
      vr_configs (fold set_block_reward_distribution xs t) = vr_configs t \<and> vr_params_record (fold set_block_reward_distribution xs t) = vr_params_record t"
      for xs and t :: "'a vr_state" by (induction xs arbitrary: t) (auto simp: set_block_reward_distribution_def)
    have "init_vr_params (vrg_params gs) s0 = Done a ()"
      using s0 p by (simp add: init_vr_params_def vr_fresh_def a_def)
    then show "vr_schedules s = vr_schedules d" "vr_claim_index s = vr_claim_index d"
      "vr_recipient_index s = vr_recipient_index d" "vr_active_index s = vr_active_index d" "vr_configs s = vr_configs d"
      "vr_params_record s = vr_params_record d"
      using run by (auto simp: init_vr_genesis_def Let_def set_total_minted_def cl di d_def c_def b_def)
  qed
  have a: "vr_index_ok a" "configs_ok a" "get_vesting_schedule a k = None" for k
    using s0 by (auto simp: a_def write_vr_params_def vr_fresh_def vr_index_ok_def configs_ok_def get_vesting_schedule_def)
  have b: "vr_index_ok b" "get_vesting_schedule b k = None" for k
    using a vr_index_ok_frame [OF a(1), of b] by (auto simp: b_def get_vesting_schedule_def)
  have bc: "configs_ok b" unfolding b_def
    by (rule set_category_configs_ok [OF a(2)]) (use gs in \<open>simp add: validate_vr_genesis_def\<close>)
  have "distinct (map vs_id (vrg_schedules gs))" using gs by (simp add: validate_vr_genesis_def)
  moreover have "identity_ok v \<and> get_vesting_schedule b (vs_id v) = None" if "v \<in> set (vrg_schedules gs)" for v
    using im [OF that] b(2) by (simp add: imported_ok_def)
  ultimately have c: "vr_index_ok c" "\<And>k v. get_vesting_schedule c k = Some v \<Longrightarrow> v \<in> set (vrg_schedules gs)"
    "\<And>v. v \<in> set (vrg_schedules gs) \<Longrightarrow> get_vesting_schedule c (vs_id v) = Some v" "vr_configs c = vr_configs b"
    "vr_params_record c = vr_params_record b"
    using import_schedules [OF b(1), of "vrg_schedules gs"] b(2) unfolding c_def by auto
  have "x \<noteq> [] \<and> (\<exists>v. get_vesting_schedule c k = Some v \<and> vs_claim_id v = x)" if "(x, k) \<in> set (vrg_claim_indexes gs)" for x k
  proof -
    from that have "vrg_claim_indexes gs \<noteq> []" by auto
    with gs that have "claim_index_ok (vrg_schedules gs) (x, k)" by (auto simp: validate_vr_genesis_def list_all_iff)
    then obtain v where "x \<noteq> []" "find (\<lambda>v. vs_id v = k) (vrg_schedules gs) = Some v" "vs_claim_id v = x"
      by (auto simp: claim_index_ok_def split: option.splits)
    with find_unique [of "\<lambda>v. vs_id v = k" "vrg_schedules gs" v] c(3) [of v] show ?thesis by auto
  qed
  then have d: "vr_index_ok d" "get_vesting_schedule d = get_vesting_schedule c" "vr_configs d = vr_configs c"
    "vr_params_record d = vr_params_record c"
    using import_claims [OF c(1), of "vrg_claim_indexes gs"] unfolding d_def by auto
  have "vr_index_ok s" by (rule vr_index_ok_frame [OF d(1)]) (simp_all add: frame)
  moreover have "configs_ok s" using bc configs_ok_frame [of s b] by (simp add: frame d c)
  moreover have "money_ok s v \<and> clock_ok h v" if "get_vesting_schedule s k = Some v" for k v
  proof -
    from that have "get_vesting_schedule d k = Some v" by (simp add: get_vesting_schedule_def frame)
    then have "get_vesting_schedule c k = Some v" by (simp only: d(2))
    then have "imported_ok h gs s0 v" using c(2) im by blast
    moreover have "vr_configs s = vr_configs (fold set_category_config (vrg_configs gs) s0)"
      by (simp add: frame d c b_def a_def write_vr_params_def)
    ultimately show ?thesis using money_ok_frame [of s "fold set_category_config (vrg_configs gs) s0" v]
      by (simp add: imported_ok_def)
  qed
  moreover have "vr_params_record s = Some p" by (simp add: frame d c b_def a_def write_vr_params_def)
  ultimately show ?thesis using dg p(2) unfolding vr_inv_def by blast
qed

lemma clock_ok_later: "clock_ok h v \<Longrightarrow> h \<le> h' \<Longrightarrow> h' < 2 ^ 63 \<Longrightarrow> clock_ok h' v"
  by (auto simp: clock_ok_def)

interpretation vr: chain_module "vr_init digest" "vr_handle env digest authority" "\<lambda>s op. vr_admissible op"
    "vr_block env" vr_others "vr_inv digest"
  for env :: "'b sdk" and digest authority
proof unfold_locales
  fix h and s :: "'b vr_state"
  show "0 \<le> h \<Longrightarrow> h < 2 ^ 63 \<Longrightarrow> vr_init digest h s \<Longrightarrow> vr_inv digest h s" by (simp add: vr_init_inv)
next
  fix h and s s' :: "'b vr_state" and op :: vr_op and r
  show "0 \<le> h \<Longrightarrow> h < 2 ^ 63 \<Longrightarrow> vr_inv digest h s \<Longrightarrow> vr_admissible op \<Longrightarrow>
      vr_handle env digest authority h op s = Done s' r \<Longrightarrow> vr_inv digest h s'"
    using vr_handle_kept [of env digest authority h op s s' r] by (simp add: kept_def)
next
  fix h and s s' :: "'b vr_state" and u
  assume h: "0 \<le> h" "h + 1 < 2 ^ 63" and inv: "vr_inv digest h s" and run: "vr_block env (h + 1) s = Done s' u"
  from run obtain t where t: "vr_end_block h s = Done t ()" "vr_begin_block env (h + 1) t = Done s' u"
    by (auto simp: vr_block_def outcome_simps)
  have "kept digest h t s'" using t(2)
    by (auto simp: vr_begin_block_def intro: bank_only_kept route_fees_only split: if_splits)
  with inv vr_end_block_kept [OF t(1), of digest] have "vr_inv digest h s'" by (simp add: kept_def)
  with h clock_ok_later [of h _ "h + 1"] show "vr_inv digest (h + 1) s'" by (simp add: vr_inv_def)
next
  fix h and s s' :: "'b vr_state"
  assume inv: "vr_inv digest h s" and "vr_others s s'"
  then have "kept digest h s s'" by (auto simp: vr_others_def intro!: kept_frame)
  with inv show "vr_inv digest h s'" by (simp add: kept_def)
qed

abbreviation vr_reachable :: "'b sdk \<Rightarrow> (string \<Rightarrow> string) \<Rightarrow> string \<Rightarrow> int \<Rightarrow> 'b vr_state \<Rightarrow> bool" where
  "vr_reachable env digest authority \<equiv>
     chain_reachable (vr_init digest) (vr_handle env digest authority) (\<lambda>s op. vr_admissible op) (vr_block env) vr_others"

end
