(* ===== verification/VR_Claims.thy ===== *)
theory VR_Claims
  imports VR_Chain
begin

text \<open>
  The properties of x/vesting_rewards: consistent books in every reachable state, the history of a schedule,
  the release curve, exact claims, the capped mint, falsification, the revenue split and frozen parameters.
\<close>

section \<open>The index validator\<close>

abbreviation sched_key :: "vesting_schedule \<Rightarrow> string" where
  "sched_key v \<equiv> recipient_key (vs_recipient v) (vs_id v)"

lemma known_active: "known_status st \<Longrightarrow> vesting_schedule_active st = Inr (live_status st)"
  by (auto simp: known_status_def vesting_schedule_active_def live_status_def)

lemma by_claim_stored:
  assumes "vr_index_ok s" "get_vesting_schedule s k = Some v" "vs_claim_id v \<noteq> []"
  shows "\<exists>w. get_vesting_by_claim_id s (vs_claim_id v) = Some w \<and> vs_claim_id w = vs_claim_id v"
proof -
  from vr_index_okD(10) [OF assms(1-3)] obtain l where l: "kv_get (vr_claim_index s) (vs_claim_id v) = Some l" by auto
  from vr_index_okD(9) [OF assms(1) l] l show ?thesis by (auto simp: get_vesting_by_claim_id_def)
qed

lemma cross_off_ok:
  assumes "vr_index_ok s" "\<And>v. v \<in> set vs \<Longrightarrow> get_vesting_schedule s (vs_id v) = Some v" "distinct (map vs_id vs)"
    "\<And>v. v \<in> set vs \<Longrightarrow> sched_key v \<in> set R" "\<And>v. v \<in> set vs \<Longrightarrow> vs_id v \<in> set A \<longleftrightarrow> live_status (vs_status v)"
  shows "cross_off s vs R A = Inr (filter (\<lambda>r. r \<notin> sched_key ` set vs) R, filter (\<lambda>k. k \<notin> vs_id ` set vs) A)"
  using assms(2-)
proof (induction vs arbitrary: R A)
  case Nil
  then show ?case by simp
next
  case (Cons v vs)
  note stored = Cons.prems(1)
  have id: "identity_ok w" if "w \<in> set (v # vs)" for w using vr_index_okD(6) [OF assms(1) stored [OF that]] .
  have other: "vs_id w \<noteq> vs_id v \<and> sched_key w \<noteq> sched_key v" if "w \<in> set vs" for w
  proof -
    have "vs_id w \<noteq> vs_id v" using Cons.prems(2) that by (metis distinct.simps(2) image_eqI list.simps(9) set_map)
    with id [of w] id [of v] that show ?thesis by (auto simp: recipient_key_eq identity_ok_def)
  qed
  have "cross_off s (v # vs) R A = cross_off s vs (removeAll (sched_key v) R) (removeAll (vs_id v) A)"
    using by_claim_stored [OF assms(1) stored [of v]] Cons.prems(3,4) [of v] id [of v]
    by (auto simp: identity_ok_def known_active)
  also have "\<dots> = Inr (filter (\<lambda>r. r \<notin> sched_key ` set vs) (removeAll (sched_key v) R),
      filter (\<lambda>k. k \<notin> vs_id ` set vs) (removeAll (vs_id v) A))"
    by (rule Cons.IH) (use Cons.prems other in auto)
  also have "\<dots> = Inr (filter (\<lambda>r. r \<notin> sched_key ` set (v # vs)) R, filter (\<lambda>k. k \<notin> vs_id ` set (v # vs)) A)"
    by (auto simp: removeAll_filter_not_eq intro!: filter_cong)
  finally show ?case .
qed

lemma index_entries_source:
  assumes "e \<in> set (index_entries s)"
  obtains k v where "e = ScheduleEntry k v" "(k, v) \<in> set (vr_schedules s)"
  | x where "e = ClaimEntry (fst x) (snd x)" "x \<in> set (vr_claim_index s)"
  | k where "e = RecipientEntry k" "k \<in> set (map fst (vr_recipient_index s))"
  | k where "e = ActiveEntry k" "k \<in> set (map fst (vr_active_index s))"
proof -
  from assms have "(\<exists>k v. e = ScheduleEntry k v \<and> (k, v) \<in> set (vr_schedules s)) \<or>
      (\<exists>x \<in> set (vr_claim_index s). e = ClaimEntry (fst x) (snd x)) \<or>
      (\<exists>k \<in> set (map fst (vr_recipient_index s)). e = RecipientEntry k) \<or> (\<exists>k \<in> set (map fst (vr_active_index s)). e = ActiveEntry k)"
    by (auto simp: index_entries_def) force
  then show thesis using that by blast
qed

text \<open>Of sound entries the scan accepts exactly what both bounds admit.\<close>

lemma scan_entries_ok:
  assumes "\<And>e. e \<in> set es \<Longrightarrow> check_entry e = Inr ()"
  shows "scan_entries encoded max_e max_b es n m = Inr () \<longleftrightarrow> es = [] \<or> n + length es \<le> max_e \<and> m + sum_list (map (entry_size encoded) es) \<le> max_b"
  using assms by (induction es arbitrary: n m) (auto simp: Let_def)

lemma vr_index_ok_validates:
  assumes ok: "vr_index_ok s"
  shows "validate_knowledge_vesting_state encoded s = Inr () \<longleftrightarrow>
    length (index_entries s) \<le> scan_entry_bound \<and> sum_list (map (entry_size encoded) (index_entries s)) \<le> scan_byte_bound"
proof -
  note d = vr_index_okD [OF ok]
  have mem: "get_vesting_schedule s k = Some v \<longleftrightarrow> (k, v) \<in> set (vr_schedules s)" for k v
    by (simp add: get_vesting_schedule_def kv_get_mem [OF d(1)])
  have stored: "get_vesting_schedule s (vs_id v) = Some v" if "v \<in> set (map snd (vr_schedules s))" for v
    using that mem d(5) by auto
  have "map vs_id (map snd (vr_schedules s)) = map fst (vr_schedules s)" using mem d(5) by auto
  then have dist: "distinct (map vs_id (map snd (vr_schedules s)))" using kv_ok_distinct [OF d(1)] by metis
  have keys: "sched_key v \<in> set (map fst (vr_recipient_index s))" "vs_id v \<in> set (map fst (vr_active_index s)) \<longleftrightarrow> live_status (vs_status v)"
    if "v \<in> set (map snd (vr_schedules s))" for v
  proof -
    have "kv_get (vr_recipient_index s) (sched_key v) \<noteq> None" using d(7) stored [OF that] by blast
    then show "sched_key v \<in> set (map fst (vr_recipient_index s))" by (simp add: kv_get_None_mem)
    have "kv_get (vr_active_index s) (vs_id v) \<noteq> None \<longleftrightarrow> live_status (vs_status v)" using d(8) stored [OF that] by auto
    then show "vs_id v \<in> set (map fst (vr_active_index s)) \<longleftrightarrow> live_status (vs_status v)" by (simp add: kv_get_None_mem)
  qed
  have r_src: "\<exists>v \<in> set (map snd (vr_schedules s)). r = sched_key v" if "r \<in> set (map fst (vr_recipient_index s))" for r
  proof -
    from that have "kv_get (vr_recipient_index s) r \<noteq> None" by (simp add: kv_get_None_mem)
    with d(7) obtain k v where "get_vesting_schedule s k = Some v" "r = recipient_key (vs_recipient v) k" by blast
    with d(5) mem show ?thesis by force
  qed
  have a_src: "\<exists>v \<in> set (map snd (vr_schedules s)). k = vs_id v" if "k \<in> set (map fst (vr_active_index s))" for k
  proof -
    from that have "kv_get (vr_active_index s) k \<noteq> None" by (simp add: kv_get_None_mem)
    with d(8) obtain v where "get_vesting_schedule s k = Some v" by blast
    with d(5) mem show ?thesis by force
  qed
  have cross: "cross_off s (map snd (vr_schedules s)) (map fst (vr_recipient_index s)) (map fst (vr_active_index s)) = Inr ([], [])"
    by (subst cross_off_ok [OF ok stored dist keys]) (auto simp: filter_empty_conv simp del: set_map dest!: r_src a_src)
  have decode: "check_entry (ScheduleEntry k v) = Inr ()" if "(k, v) \<in> set (vr_schedules s)" for k v
  proof -
    from that have "get_vesting_schedule s k = Some v" by (simp add: mem)
    with d(5,6) have "vs_id v = k" "identity_ok v" by blast+
    then show ?thesis by (auto simp: decode_indexed_vesting_schedule_def identity_ok_def known_active)
  qed
  have claims: "fst e \<noteq> [] \<and> snd e \<noteq> [] \<and> (\<exists>v. get_vesting_schedule s (snd e) = Some v \<and> vs_claim_id v = fst e)"
    if "e \<in> set (vr_claim_index s)" for e
  proof -
    from that have "kv_get (vr_claim_index s) (fst e) = Some (snd e)" by (simp add: kv_get_mem [OF d(2)])
    from d(9) [OF this] d(5,6) show ?thesis by (force simp: identity_ok_def)
  qed
  have keys_ne: "[] \<notin> set (map fst (vr_recipient_index s))" "[] \<notin> set (map fst (vr_active_index s))"
    using r_src [of "[]"] a_src [of "[]"] d(6) stored
    by (auto simp: recipient_key_def simp del: set_map) (metis identity_ok_def)
  have member: "check_entry (ClaimEntry (fst e) (snd e)) = Inr ()" if "e \<in> set (vr_claim_index s)" for e
    using claims [OF that] by simp
  have sound: "check_entry e = Inr ()" if "e \<in> set (index_entries s)" for e
  proof -
    from index_entries_source [OF that] show ?thesis
    proof cases
      case (1 k v)
      with decode show ?thesis by blast
    next
      case (2 x)
      with member show ?thesis by blast
    next
      case (3 k)
      then have "k \<noteq> []" using keys_ne(1) by blast
      then show ?thesis by (simp add: 3(1))
    next
      case (4 k)
      then have "k \<noteq> []" using keys_ne(2) by blast
      then show ?thesis by (simp add: 4(1))
    qed
  qed
  have "list_all (\<lambda>e. case get_vesting_schedule s (snd e) of None \<Rightarrow> False | Some v \<Rightarrow> vs_claim_id v = fst e) (vr_claim_index s)"
    using claims by (auto simp: list_all_iff) fastforce+
  with cross have "validate_knowledge_vesting_state encoded s = Inr () \<longleftrightarrow>
      scan_entries encoded scan_entry_bound scan_byte_bound (index_entries s) 0 0 = Inr ()"
    by (auto simp: validate_knowledge_vesting_state_def validate_vesting_within_def outcome_simps)
  then show ?thesis by (auto simp: scan_entries_ok [OF sound])
qed

section \<open>A concrete run\<close>

definition wit_schedule :: vesting_schedule where
  "wit_schedule =
     \<lparr>vs_id = ''k1'', vs_claim_id = ''c1'', vs_fact_id = ''f1'', vs_recipient = ''zrn1bob'', vs_total = ''1000000'',
      vs_released = ''0'', vs_claimable = ''0'', vs_reserve = ''50000'', vs_category = ''axiomatic'',
      vs_source = ''verification'', vs_status = st_vesting, vs_accepted_at = 0, vs_cliff_ends_at = 11111,
      vs_last_claim = 0, vs_total_paused = 0, vs_paused_at = 0, vs_defenses = 0, vs_replications = 0,
      vs_created_at = 0, vs_updated_at = 0, vs_corroborations = 0, vs_citations = 0\<rparr>"

definition wit_params :: vr_params where
  "wit_params = default_vr_params\<lparr>category_reward_configs := []\<rparr>"

definition wit_config :: category_config where
  "wit_config = \<lparr>cc_category = ''axiomatic'', cc_half_life = 1111111, cc_cliff = 11111, cc_max_release = 950000\<rparr>"

definition wit_genesis :: vr_genesis where
  "wit_genesis = default_vr_genesis\<lparr>vrg_params := Some wit_params, vrg_configs := [wit_config], vrg_schedules := [wit_schedule]\<rparr>"

definition wit_bank :: ledger where
  "wit_bank = \<lparr>lg_balances = [((''module/fee_collector'', uzrn), 1000000), ((''module/vesting_rewards'', uzrn), 5000000)],
     lg_supply = [(uzrn, 6000000)], lg_disabled = []\<rparr>"

definition wit_empty :: "ledger vr_state" where
  "wit_empty = \<lparr>vr_params_record = None, vr_configs = [], vr_schedules = [], vr_claim_index = [], vr_recipient_index = [],
     vr_active_index = [], vr_clawbacks = [], vr_distributions = [], vr_total_minted = None, vr_disproven = Some [''f1''],
     vr_bank = wit_bank\<rparr>"

definition wit_state :: "ledger vr_state" where
  "wit_state = \<lparr>vr_params_record = Some wit_params, vr_configs = [(''axiomatic'', wit_config)],
     vr_schedules = [(''k1'', wit_schedule)], vr_claim_index = [(''c1'', ''k1'')], vr_recipient_index = [(''zrn1bob/k1'', ())],
     vr_active_index = [(''k1'', ())], vr_clawbacks = [], vr_distributions = [], vr_total_minted = Some ''0'',
     vr_disproven = Some [''f1''], vr_bank = wit_bank\<rparr>"

definition wit_digest :: "string \<Rightarrow> string" where
  "wit_digest x = ''d1''"

lemma wit_genesis_valid: "validate_vr_genesis wit_genesis"
  by code_simp

lemma wit_init: "init_vr_genesis wit_genesis wit_empty = Done wit_state ()"
  by code_simp

lemma wit_config_stored:
  "get_category_config (fold set_category_config (vrg_configs wit_genesis) wit_empty) ''axiomatic'' = Some wit_config"
  by code_simp

lemma wit_reserve: "''50000'' = big_string (1000000 * sint (1000000 - 950000 :: u64) div 1000000)"
  by code_simp

lemma wit_total: "big_set_string ''1000000'' = Some 1000000"
  by code_simp

lemma wit_reachable: "vr_reachable ledger_sdk wit_digest ''gov'' 200000 wit_state"
proof (rule chain_reachable.start)
  have "money_ok (fold set_category_config (vrg_configs wit_genesis) wit_empty) wit_schedule"
    unfolding money_ok_def
    by (rule exI [of _ wit_config], rule exI [of _ 1000000], rule exI [of _ 0], rule exI [of _ 0])
      (simp add: wit_schedule_def wit_config_stored wit_total wit_reserve release_limit_def config_ok_def
        wit_config_def del: big_set_string.simps flip: big_string_zero)
  moreover have "identity_ok wit_schedule" "clock_ok 200000 wit_schedule"
    by (simp_all add: identity_ok_def wit_schedule_def known_status_def clock_ok_def)
  ultimately show "vr_init wit_digest 200000 wit_state"
    unfolding vr_init_def using wit_genesis_valid wit_init
    by (intro conjI exI [of _ wit_genesis] exI [of _ wit_empty])
      (auto simp: digest_text_def wit_digest_def vr_fresh_def wit_empty_def wit_genesis_def default_vr_genesis_def imported_ok_def)
qed simp_all

section \<open>The properties\<close>

lemma claimable_of:
  assumes "money_ok s v"
  shows "\<exists>cfg amount. get_category_config s (vs_category v) = Some cfg \<and> big_set_string (vs_total v) = Some amount \<and>
    0 \<le> released_of v \<and> 0 \<le> int_or_zero (vs_claimable v) \<and>
    released_of v + int_or_zero (vs_claimable v) \<le> release_limit amount (cc_max_release cfg) \<and>
    released_of v + int_or_zero (vs_claimable v) + int_or_zero (vs_reserve v) \<le> amount"
proof -
  from assms obtain cfg amount released claimable where m: "get_category_config s (vs_category v) = Some cfg" "config_ok cfg"
    "big_set_string (vs_total v) = Some amount" "0 < amount" "vs_released v = big_string released"
    "vs_claimable v = big_string claimable"
    "vs_reserve v = big_string (amount * sint (1000000 - cc_max_release cfg) div 1000000)"
    "0 \<le> released" "0 \<le> claimable" "released + claimable \<le> release_limit amount (cc_max_release cfg)"
    unfolding money_ok_def by blast
  from m(2,4) have "release_limit amount (cc_max_release cfg) + amount * sint (1000000 - cc_max_release cfg) div 1000000 \<le> amount"
    by (intro release_limit_split) (auto simp: config_ok_def)
  with m show ?thesis by (intro exI [of _ cfg] exI [of _ amount]) (simp add: released_of_def)
qed

text \<open>
  C32: In every reachable state each schedule's released and claimable amounts together stay within its
  category's release limit and, with the reserve, within its total; the scan over a recipient finds exactly
  the recipient's schedules; and the index validator of the upgrade accepts the state exactly when it keeps
  within the two bounds of the scan, 100000 entries and 64 MiB of keys and values (whatever the encoded length
  of a schedule is): it never finds an index broken.
\<close>

theorem vr_books_are_consistent:
  assumes "vr_reachable env digest authority h s"
  shows "(\<forall>k v. get_vesting_schedule s k = Some v \<longrightarrow>
      (\<exists>cfg amount. get_category_config s (vs_category v) = Some cfg \<and> big_set_string (vs_total v) = Some amount \<and>
        0 \<le> released_of v \<and> 0 \<le> int_or_zero (vs_claimable v) \<and>
        released_of v + int_or_zero (vs_claimable v) \<le> amount * uint (cc_max_release cfg) div 1000000 \<and>
        released_of v + int_or_zero (vs_claimable v) + int_or_zero (vs_reserve v) \<le> amount)) \<and>
    (\<forall>r v. v \<in> set (get_vesting_schedules_by_recipient s r) \<longleftrightarrow>
        get_vesting_schedule s (vs_id v) = Some v \<and> vs_recipient v = r) \<and>
    (validate_knowledge_vesting_state encoded s = Inr () \<longleftrightarrow>
        length (index_entries s) \<le> 100000 \<and> sum_list (map (entry_size encoded) (index_entries s)) \<le> 64 * 1048576)"
proof -
  note inv = vr.reachable_inv [OF assms]
  show ?thesis
    using claimable_of [OF vr_invD(4) [OF inv]] by_recipient_exact(1) [OF vr_invD(2) [OF inv]]
      vr_index_ok_validates [OF vr_invD(2) [OF inv], unfolded scan_entry_bound_def scan_byte_bound_def]
    by (simp add: release_limit_def)
qed

theorem vr_books_are_consistent_witness:
  "(\<forall>v. v \<in> set (get_vesting_schedules_by_recipient wit_state ''zrn1bob'') \<longleftrightarrow>
     get_vesting_schedule wit_state (vs_id v) = Some v \<and> vs_recipient v = ''zrn1bob'') \<and>
   validate_knowledge_vesting_state (\<lambda>v. 200) wit_state = Inr ()"
proof -
  have "length (index_entries wit_state) \<le> 100000" "sum_list (map (entry_size (\<lambda>v. 200)) (index_entries wit_state)) \<le> 64 * 1048576"
    by (simp_all add: index_entries_def wit_state_def)
  with vr_books_are_consistent [OF wit_reachable] show ?thesis by blast
qed

text \<open>
  C33: Whatever a message, a call of another module or a block does, a schedule keeps its identity, its
  total and its reserve, never gives back what it released, releases nothing once closed, and leaves a closed
  status only to be falsified.
\<close>

theorem vr_schedule_history:
  assumes "vr_reachable env digest authority h s" "get_vesting_schedule s k = Some v"
  shows "(\<forall>op s' u. vr_admissible op \<longrightarrow> vr_handle env digest authority h op s = Done s' u \<longrightarrow>
      (\<exists>w. get_vesting_schedule s' k = Some w \<and> advances v w)) \<and>
    (\<forall>s' u. vr_block env (h + 1) s = Done s' u \<longrightarrow> (\<exists>w. get_vesting_schedule s' k = Some w \<and> advances v w))"
proof (intro conjI allI impI)
  note inv = vr.reachable_inv [OF assms(1)] and h = chain_reachable_height [OF assms(1)]
  fix s' u
  show "\<exists>w. get_vesting_schedule s' k = Some w \<and> advances v w"
    if "vr_admissible op" "vr_handle env digest authority h op s = Done s' u" for op
    using vr_handle_kept [OF that(2,1)] h inv assms(2) by (auto simp: kept_def history_def)
  assume "vr_block env (h + 1) s = Done s' u"
  then obtain t where t: "vr_end_block h s = Done t ()" "vr_begin_block env (h + 1) t = Done s' u"
    by (auto simp: vr_block_def outcome_simps)
  have "kept digest h t s'" using t(2)
    by (auto simp: vr_begin_block_def intro: bank_only_kept route_fees_only split: if_splits)
  with kept_trans [OF vr_end_block_kept [OF t(1)]] inv assms(2)
  show "\<exists>w. get_vesting_schedule s' k = Some w \<and> advances v w" by (auto simp: kept_def history_def)
qed

theorem vr_schedule_history_witness:
  "\<exists>s' u w. vr_handle ledger_sdk wit_digest ''gov'' 200000 (PauseVesting ''gov'' ''k1'') wit_state = Done s' u \<and>
     get_vesting_schedule s' ''k1'' = Some w \<and> advances wit_schedule w"
proof -
  have get: "get_vesting_schedule wit_state ''k1'' = Some wit_schedule" by code_simp
  have "succeeded (vr_handle ledger_sdk wit_digest ''gov'' 200000 (PauseVesting ''gov'' ''k1'') wit_state)" by code_simp
  then obtain u where u: "vr_handle ledger_sdk wit_digest ''gov'' 200000 (PauseVesting ''gov'' ''k1'') wit_state =
      Done (final_state (vr_handle ledger_sdk wit_digest ''gov'' 200000 (PauseVesting ''gov'' ''k1'') wit_state)) u"
    by (auto dest: succeeded_Done)
  with vr_schedule_history [OF wit_reachable get] show ?thesis by (metis vr_admissible.simps(5))
qed

text \<open>
  C34: The release curve: a schedule releases nothing before its cliff, never more than its category allows,
  and never less at a later block or with more evidence recorded, whatever the rounding of the fixed-point decay.
\<close>

theorem vr_release_curve:
  assumes "vr_reachable env digest authority h s" "get_vesting_schedule s k = Some v"
    "get_category_config s (vs_category v) = Some cfg" "uint (cc_half_life cfg) * 10000 < 2 ^ 64"
    "big_set_string (vs_total v) = Some amount" "more_evidence v w" "h \<le> h'" "h' < 2 ^ 63"
  shows "0 \<le> int_or_zero (calculate_released_amount h s v) \<and>
    int_or_zero (calculate_released_amount h s v) \<le> int_or_zero (calculate_released_amount h' s w) \<and>
    int_or_zero (calculate_released_amount h s v) \<le> amount * uint (cc_max_release cfg) div 1000000 \<and>
    (to_u64 h < vs_cliff_ends_at v \<longrightarrow> calculate_released_amount h s v = ''0'')"
proof -
  note inv = vr.reachable_inv [OF assms(1)]
  note m = vr_invD(4,5) [OF inv assms(2)]
  have pos: "0 \<le> amount" using m(1) assms(5) by (auto simp: money_ok_def)
  note cfg = category_config_ok [OF vr_invD(3) [OF inv] assms(3)]
  have "calculate_released_amount h s v = ''0''" if "to_u64 h < vs_cliff_ends_at v"
    using that by (simp add: calculate_released_amount_def Let_def split: option.split)
  with released_at_mono [OF assms(3) cfg assms(4,5) pos m(2) assms(7,8,6)]
    released_at_range [OF assms(3,5) pos cfg, of h]
  show ?thesis by (simp add: released_at_def release_limit_def)
qed

theorem vr_release_curve_witness:
  "int_or_zero (calculate_released_amount 200000 wit_state wit_schedule) \<le>
     int_or_zero (calculate_released_amount 400000 wit_state (wit_schedule\<lparr>vs_citations := 3\<rparr>))"
proof -
  have get: "get_vesting_schedule wit_state ''k1'' = Some wit_schedule" by code_simp
  have cfg: "get_category_config wit_state (vs_category wit_schedule) = Some wit_config" by code_simp
  have amount: "big_set_string (vs_total wit_schedule) = Some 1000000" by code_simp
  have "more_evidence wit_schedule (wit_schedule\<lparr>vs_citations := 3\<rparr>)" by (simp add: more_evidence_def wit_schedule_def)
  from vr_release_curve [OF wit_reachable get cfg _ amount this, of 400000] show ?thesis by (simp add: wit_config_def)
qed

text \<open>
  C35: A claim that succeeds pays, for each of the claimer's chosen schedules that is vesting, exactly what the
  curve has released and was not released before; the sum leaves the module for the claimer, and no other
  schedule changes.
\<close>

theorem vr_claim_pays_what_is_due:
  assumes "vr_reachable env digest authority h s" "sdk_laws env" "acc_address env r = Some a"
    "a \<noteq> module_address env vr_module_name" "claim_rewards env h r vesting_id s = Done s' amt"
  shows "\<exists>vs. claimed_schedules r vesting_id s = Inr vs \<and>
    (\<forall>v \<in> set vs. vs_recipient v = r \<and> get_vesting_schedule s (vs_id v) = Some v) \<and>
    (\<forall>v \<in> set vs. \<exists>w. get_vesting_schedule s' (vs_id v) = Some w \<and>
       released_of w = released_of v + (if vs_status v = st_vesting
         then max 0 (int_or_zero (calculate_released_amount h s v) - released_of v) else 0)) \<and>
    (\<forall>k. k \<notin> set (map vs_id vs) \<longrightarrow> get_vesting_schedule s' k = get_vesting_schedule s k) \<and>
    amt = big_string (\<Sum>v\<leftarrow>vs. claim_due h s v) \<and> 0 < (\<Sum>v\<leftarrow>vs. claim_due h s v) \<and>
    bank_balance env (vr_bank s') a uzrn = bank_balance env (vr_bank s) a uzrn + (\<Sum>v\<leftarrow>vs. claim_due h s v) \<and>
    bank_balance env (vr_bank s') (module_address env vr_module_name) uzrn =
      bank_balance env (vr_bank s) (module_address env vr_module_name) uzrn - (\<Sum>v\<leftarrow>vs. claim_due h s v) \<and>
    bank_supply env (vr_bank s') uzrn = bank_supply env (vr_bank s) uzrn"
proof -
  note inv = vr.reachable_inv [OF assms(1)]
  obtain vs where c: "claimed_schedules r vesting_id s = Inr vs" "amt = big_string (\<Sum>v\<leftarrow>vs. claim_due h s v)"
    "0 < (\<Sum>v\<leftarrow>vs. claim_due h s v)"
    "\<forall>k. k \<notin> set (map vs_id vs) \<longrightarrow> get_vesting_schedule s' k = get_vesting_schedule s k"
    "\<forall>v \<in> set vs. \<exists>w. get_vesting_schedule s' (vs_id v) = Some w \<and> advances v w \<and> released_of w = released_of v + claim_due h s v"
    "payout env r (\<Sum>v\<leftarrow>vs. claim_due h s v) (vr_bank s) (vr_bank s')"
    by (rule claim_rewards_effect [OF inv assms(5)], rule that, assumption+)
  note ok = claimed_schedules_ok [OF vr_invD(2) [OF inv] c(1)]
  from c(6) assms(3) obtain cs where cs: "new_coins env [(uzrn, \<Sum>v\<leftarrow>vs. claim_due h s v)] = Some cs"
    "bank_to_account env vr_module_name a cs (vr_bank s) = Done (vr_bank s') ()" by (auto simp: payout_def)
  note moved = bank_to_account_moved [OF assms(2) cs(2)]
  have "\<exists>w. get_vesting_schedule s' (vs_id v) = Some w \<and>
       released_of w = released_of v + (if vs_status v = st_vesting
         then max 0 (int_or_zero (calculate_released_amount h s v) - released_of v) else 0)" if "v \<in> set vs" for v
    using c(5) that by (auto simp: claim_due_def released_at_def)
  moreover have "bank_balance env (vr_bank s') a uzrn = bank_balance env (vr_bank s) a uzrn + (\<Sum>v\<leftarrow>vs. claim_due h s v)"
    "bank_balance env (vr_bank s') (module_address env vr_module_name) uzrn =
      bank_balance env (vr_bank s) (module_address env vr_module_name) uzrn - (\<Sum>v\<leftarrow>vs. claim_due h s v)"
    "bank_supply env (vr_bank s') uzrn = bank_supply env (vr_bank s) uzrn"
    using assms(4) single_coin_amount [OF cs(1), of uzrn] moved_balance [OF moved] moved_supply [OF moved] by auto
  ultimately show ?thesis using c(1-4) ok(2) by blast
qed

definition wit_after_claim :: "ledger vr_state" where
  "wit_after_claim = final_state (claim_rewards ledger_sdk 200000 ''zrn1bob'' [] wit_state)"

theorem vr_claim_pays_what_is_due_witness:
  "ledger_balance (vr_bank wit_after_claim) ''zrn1bob'' uzrn =
     ledger_balance wit_bank ''zrn1bob'' uzrn + (\<Sum>v\<leftarrow>[wit_schedule]. claim_due 200000 wit_state v) \<and>
   0 < (\<Sum>v\<leftarrow>[wit_schedule]. claim_due 200000 wit_state v)"
proof -
  have "succeeded (claim_rewards ledger_sdk 200000 ''zrn1bob'' [] wit_state)" by code_simp
  then obtain amt where run: "claim_rewards ledger_sdk 200000 ''zrn1bob'' [] wit_state = Done wit_after_claim amt"
    unfolding wit_after_claim_def by (blast dest: succeeded_Done)
  have acc: "acc_address ledger_sdk ''zrn1bob'' = Some ''zrn1bob''" "''zrn1bob'' \<noteq> module_address ledger_sdk vr_module_name"
    by code_simp+
  have vs: "claimed_schedules ''zrn1bob'' [] wit_state = Inr [wit_schedule]" by code_simp
  have bank: "vr_bank wit_state = wit_bank" "bank_balance ledger_sdk = ledger_balance"
    by (simp_all add: wit_state_def ledger_sdk_def)
  from vr_claim_pays_what_is_due [OF wit_reachable ledger_laws acc run] show ?thesis
    unfolding vs bank by auto
qed

lemma mint_with_cap_effect:
  assumes "sdk_laws env" "mint_with_cap env m x s = Done s' y"
  shows "y = max 0 (min x (max_supply_uzrn - bank_supply env (vr_bank s) uzrn)) \<and>
    bank_supply env (vr_bank s') uzrn = bank_supply env (vr_bank s) uzrn + y \<and>
    bank_supply env (vr_bank s') uzrn \<le> max max_supply_uzrn (bank_supply env (vr_bank s) uzrn) \<and>
    (\<forall>d. d \<noteq> uzrn \<longrightarrow> bank_supply env (vr_bank s') d = bank_supply env (vr_bank s) d) \<and>
    (\<forall>a d. bank_balance env (vr_bank s') a d = bank_balance env (vr_bank s) a d +
       (if a = module_address env m \<and> d = uzrn then y else 0)) \<and>
    get_total_minted s' = get_total_minted s + y \<and> vr_schedules s' = vr_schedules s"
proof (cases "0 < x \<and> 0 < max_supply_uzrn - bank_supply env (vr_bank s) uzrn")
  case False
  with assms(2) show ?thesis by (auto simp: mint_with_cap_def Let_def not_less split: if_splits)
next
  case True
  define z where "z = min x (max_supply_uzrn - bank_supply env (vr_bank s) uzrn)"
  have zif: "(if max_supply_uzrn - bank_supply env (vr_bank s) uzrn < x then max_supply_uzrn - bank_supply env (vr_bank s) uzrn else x) = z"
    by (simp add: z_def min_def)
  from assms(2) True obtain cs b where run: "new_coins env [(uzrn, z)] = Some cs" "bank_mint env m cs (vr_bank s) = Done b ()"
    "y = z" "s' = set_total_minted (get_total_minted (s\<lparr>vr_bank := b\<rparr>) + z) (s\<lparr>vr_bank := b\<rparr>)"
    unfolding mint_with_cap_def Let_def zif by (auto simp: outcome_simps)
  note issued = bank_mint_issued [OF assms(1) run(2)]
  have "y = max 0 (min x (max_supply_uzrn - bank_supply env (vr_bank s) uzrn))" using True by (simp add: run(3) z_def)
  moreover have "get_total_minted s' = get_total_minted s + y"
    by (simp add: run(3,4) set_total_minted_def get_total_minted_def)
  ultimately show ?thesis
    using issued_supply [OF issued] issued_balance [OF issued] single_coin_amount [OF run(1)] True
    by (auto simp: run(3,4) set_total_minted_def z_def)
qed

text \<open>
  C36: The capped mint: it mints the requested amount cut to what is left under 222,222,222 ZRN, never lets the
  supply pass the cap, and its ledger and the receiving module account grow by exactly what was minted.
\<close>

theorem vr_mint_respects_cap:
  assumes "sdk_laws env" "mint_with_cap env m x s = Done s' y"
  shows "y = max 0 (min x (max_supply_uzrn - bank_supply env (vr_bank s) uzrn)) \<and>
    bank_supply env (vr_bank s') uzrn = bank_supply env (vr_bank s) uzrn + y \<and>
    bank_supply env (vr_bank s') uzrn \<le> max max_supply_uzrn (bank_supply env (vr_bank s) uzrn) \<and>
    (\<forall>d. d \<noteq> uzrn \<longrightarrow> bank_supply env (vr_bank s') d = bank_supply env (vr_bank s) d) \<and>
    (\<forall>a d. bank_balance env (vr_bank s') a d = bank_balance env (vr_bank s) a d +
       (if a = module_address env m \<and> d = uzrn then y else 0)) \<and>
    get_total_minted s' = get_total_minted s + y \<and> vr_schedules s' = vr_schedules s"
  by (rule mint_with_cap_effect [OF assms])

theorem vr_mint_respects_cap_witness:
  "\<exists>s' y. mint_with_cap ledger_sdk ''claiming_pot'' 999999999999999 wit_state = Done s' y \<and>
     ledger_supply (vr_bank s') uzrn \<le> max max_supply_uzrn (ledger_supply wit_bank uzrn)"
proof -
  have "succeeded (mint_with_cap ledger_sdk ''claiming_pot'' 999999999999999 wit_state)" by code_simp
  then obtain y where run: "mint_with_cap ledger_sdk ''claiming_pot'' 999999999999999 wit_state =
      Done (final_state (mint_with_cap ledger_sdk ''claiming_pot'' 999999999999999 wit_state)) y"
    by (blast dest: succeeded_Done)
  have b: "vr_bank wit_state = wit_bank" "bank_supply ledger_sdk = ledger_supply"
    by (simp_all add: wit_state_def ledger_sdk_def)
  from vr_mint_respects_cap [OF ledger_laws run] show ?thesis unfolding b using run by blast
qed

lemma clawback_rate_ok:
  assumes "validate_vr_params p = Inr ()"
  shows "0 \<le> sint (released_clawback_rate p)" "sint (released_clawback_rate p) \<le> 10000"
proof -
  from assms have "released_clawback_rate p \<le> 10000" by (auto simp: validate_vr_params_def outcome_simps)
  then have "uint (released_clawback_rate p) \<le> 10000" by (simp add: u64_le)
  with sint_small [of "released_clawback_rate p"]
  show "0 \<le> sint (released_clawback_rate p)" "sint (released_clawback_rate p) \<le> 10000" by simp_all
qed

text \<open>
  C37: A schedule is falsified only when its fact is already disproven and it was not falsified before; then
  exactly this schedule becomes falsified and leaves the active set, no coin moves, and the record accounts for
  the whole total: released, unvested and reserve add up to it, and the challenger's reward is bounded by it.
\<close>

theorem vr_falsify_needs_a_verdict:
  assumes "vr_reachable env digest authority h s" "falsify_claim digest h claim s = Done s' r"
  shows "\<exists>v disproven amount. get_vesting_by_claim_id s claim = Some v \<and> vs_status v \<noteq> st_falsified \<and>
    vr_disproven s = Some disproven \<and> vs_fact_id v \<in> set disproven \<and>
    get_vesting_schedule s' (vs_id v) = Some (v\<lparr>vs_status := st_falsified, vs_updated_at := to_u64 h\<rparr>) \<and>
    (\<forall>k. k \<noteq> vs_id v \<longrightarrow> get_vesting_schedule s' k = get_vesting_schedule s k) \<and>
    kv_get (vr_active_index s') (vs_id v) = None \<and> vr_bank s' = vr_bank s \<and>
    get_clawback_record s' (cr_id r) = Some r \<and> cr_vesting_id r = vs_id v \<and>
    big_set_string (vs_total v) = Some amount \<and>
    0 \<le> int_or_zero (cr_released_clawback r) \<and> int_or_zero (cr_released_clawback r) \<le> released_of v \<and>
    released_of v + int_or_zero (cr_unvested_forfeited r) + int_or_zero (cr_reserve_forfeited r) = amount \<and>
    int_or_zero (cr_challenger_reward r) = int_or_zero (cr_released_clawback r) + int_or_zero (cr_unvested_forfeited r)
      + int_or_zero (cr_reserve_forfeited r) \<and>
    int_or_zero (cr_challenger_reward r) \<le> amount"
proof -
  note inv = vr.reachable_inv [OF assms(1)]
  from assms(2) obtain v disproven where v: "get_vesting_by_claim_id s claim = Some v" "vs_status v \<noteq> st_falsified"
    "vr_disproven s = Some disproven" "vs_fact_id v \<in> set disproven"
    and r: "r = clawback_of digest h (released_clawback_rate (get_vr_params s)) claim v"
    and s': "s' = set_clawback_record r (set_vesting_schedule (v\<lparr>vs_status := st_falsified, vs_updated_at := to_u64 h\<rparr>) s)"
    by (auto simp: falsify_claim_def Let_def outcome_simps split: option.splits if_splits)
  from v(1) obtain k where k: "get_vesting_schedule s k = Some v"
    by (auto simp: get_vesting_by_claim_id_def split: option.splits)
  from vr_invD(6) [OF inv] obtain p where p: "vr_params_record s = Some p" "validate_vr_params p = Inr ()" by blast
  then have gp: "get_vr_params s = p" by (simp add: get_vr_params_def)
  define rate where "rate = sint (released_clawback_rate p)"
  have rate: "0 \<le> rate" "rate \<le> 10000" using clawback_rate_ok [OF p(2)] by (simp_all add: rate_def)
  from claimable_of [OF vr_invD(4) [OF inv k]] obtain amount where m: "big_set_string (vs_total v) = Some amount"
    "0 \<le> released_of v" "released_of v + int_or_zero (vs_reserve v) \<le> amount" by fastforce
  have claw: "0 \<le> released_of v * rate div 10000" "released_of v * rate div 10000 \<le> released_of v"
    using m(2) rate mult_left_mono [OF rate(2) m(2)] by (auto simp: pos_imp_zdiv_nonneg_iff intro: div_le_self_mult)
  have rf: "cr_vesting_id r = vs_id v" "int_or_zero (cr_released_clawback r) = released_of v * rate div 10000"
    "int_or_zero (cr_unvested_forfeited r) = amount - released_of v - int_or_zero (vs_reserve v)"
    "int_or_zero (cr_reserve_forfeited r) = int_or_zero (vs_reserve v)"
    "int_or_zero (cr_challenger_reward r) = released_of v * rate div 10000 + (amount - released_of v - int_or_zero (vs_reserve v))
       + int_or_zero (vs_reserve v)"
    using m(3) by (simp_all add: r gp clawback_of_def Let_def rate_def released_of_def int_or_zero_Some [OF m(1)])
  have "get_vesting_schedule s' = get_vesting_schedule (set_vesting_schedule (v\<lparr>vs_status := st_falsified, vs_updated_at := to_u64 h\<rparr>) s)"
    "get_clawback_record s' (cr_id r) = Some r" "vr_bank s' = vr_bank s" "kv_get (vr_active_index s') (vs_id v) = None"
    by (simp_all add: s' set_clawback_record_def get_vesting_schedule_def get_clawback_record_def fun_eq_iff
        set_vesting_schedule_def live_status_def)
  then show ?thesis
    using v m(1) claw by (intro exI [of _ v] exI [of _ disproven] exI [of _ amount]) (simp add: rf)
qed

theorem vr_falsify_needs_a_verdict_witness:
  "\<exists>r. falsify_claim wit_digest 200000 ''c1'' wit_state = Done (final_state (falsify_claim wit_digest 200000 ''c1'' wit_state)) r \<and>
     int_or_zero (cr_challenger_reward r) = int_or_zero (cr_released_clawback r) + int_or_zero (cr_unvested_forfeited r)
       + int_or_zero (cr_reserve_forfeited r)"
proof -
  have "succeeded (falsify_claim wit_digest 200000 ''c1'' wit_state)" by code_simp
  then obtain r where run: "falsify_claim wit_digest 200000 ''c1'' wit_state =
      Done (final_state (falsify_claim wit_digest 200000 ''c1'' wit_state)) r" by (blast dest: succeeded_Done)
  from vr_falsify_needs_a_verdict [OF wit_reachable run] show ?thesis using run by blast
qed

lemma u64_small: "w \<le> 1000000 \<Longrightarrow> 0 \<le> sint (w :: u64) \<and> sint w = uint w \<and> uint w \<le> 1000000"
  using sint_small [of w] by (simp add: u64_le)

lemma bps_share_range: "0 \<le> x \<Longrightarrow> w \<le> 1000000 \<Longrightarrow> 0 \<le> bps_share x w \<and> bps_share x w * 1000000 \<le> x * uint w"
  using u64_small [of w] floor_div_le [of 1000000 "x * sint w"] by (auto simp: bps_share_def pos_imp_zdiv_nonneg_iff)

lemma split_sum:
  assumes "a \<le> 1000000" "b \<le> 1000000" "c \<le> 1000000" "d \<le> 1000000" "a + b + c + d = (1000000 :: u64)"
  shows "uint a + uint b + uint c + uint d = 1000000"
proof -
  have "uint (a + b + c + d) = uint a + uint b + uint c + uint d"
    using assms(1-4) by (simp add: u64_le u64_add_no_wrap)
  with assms(5) show ?thesis by simp
qed

lemma valid_revenue_split:
  assumes "validate_revenue_split (Some sp) = Inr ()"
  shows "contributor_bps sp \<le> 1000000" "protocol_bps sp \<le> 1000000" "research_bps sp \<le> 1000000"
    "uint (contributor_bps sp) + uint (protocol_bps sp) + uint (research_bps sp) \<le> 1000000"
proof -
  from assms have le: "contributor_bps sp \<le> 1000000" "protocol_bps sp \<le> 1000000" "research_bps sp \<le> 1000000" "development_bps sp \<le> 1000000"
    and sum: "contributor_bps sp + protocol_bps sp + research_bps sp + development_bps sp = 1000000"
    by (auto simp: validate_revenue_split_def not_less split: if_splits)
  show "contributor_bps sp \<le> 1000000" "protocol_bps sp \<le> 1000000" "research_bps sp \<le> 1000000" using le by auto
  show "uint (contributor_bps sp) + uint (protocol_bps sp) + uint (research_bps sp) \<le> 1000000"
    using split_sum [OF le sum] uint_ge_0 [of "development_bps sp"] by linarith
qed

lemma valid_sub_split:
  assumes "validate_sub_split (Some sp) = Inr ()"
  shows "citation_bps sp \<le> 1000000" "verification_bps sp \<le> 1000000"
    "uint (citation_bps sp) + uint (verification_bps sp) \<le> 1000000"
proof -
  from assms have le: "citation_bps sp \<le> 1000000" "verification_bps sp \<le> 1000000" "treasury_bps sp \<le> 1000000"
    and sum: "citation_bps sp + verification_bps sp + treasury_bps sp + 0 = 1000000"
    by (auto simp: validate_sub_split_def not_less split: if_splits)
  show "citation_bps sp \<le> 1000000" "verification_bps sp \<le> 1000000" using le by auto
  show "uint (citation_bps sp) + uint (verification_bps sp) \<le> 1000000"
    using split_sum [OF le _ sum, simplified] uint_ge_0 [of "treasury_bps sp"] by linarith
qed

text \<open>
  The revenue split loses nothing: with parameters any reachable state holds, the four shares of an amount
  are never negative and add up to it, the three pools of the protocol share add up to that share, and
  no founder share is taken.
\<close>

theorem vr_revenue_split_is_exact:
  assumes "vr_reachable env digest authority h s" "distribute_revenue h source amount recipient fact_id s = Inr rr"
  shows "\<exists>x. positive_int amount = Some x \<and>
    int_or_zero (rr_contributor rr) + int_or_zero (rr_protocol rr) + int_or_zero (rr_research rr) + int_or_zero (rr_development rr) = x \<and>
    int_or_zero (rr_citation rr) + int_or_zero (rr_verification rr) + int_or_zero (rr_treasury rr) = int_or_zero (rr_protocol rr) \<and>
    0 \<le> int_or_zero (rr_contributor rr) \<and> 0 \<le> int_or_zero (rr_protocol rr) \<and> 0 \<le> int_or_zero (rr_research rr) \<and>
    0 \<le> int_or_zero (rr_development rr) \<and> 0 \<le> int_or_zero (rr_treasury rr) \<and> rr_founder rr = ''0''"
proof -
  note inv = vr.reachable_inv [OF assms(1)]
  from vr_invD(6) [OF inv] obtain p where p: "vr_params_record s = Some p" "validate_vr_params p = Inr ()" by blast
  have sp: "validate_revenue_split (Some (get_revenue_split s)) = Inr ()"
    using p by (auto simp: get_revenue_split_def get_vr_params_def validate_vr_params_def outcome_simps
        validate_revenue_split_def default_revenue_split_def split: option.splits)
  have sub: "validate_sub_split (Some (get_protocol_sub_split s)) = Inr ()"
    using p by (auto simp: get_protocol_sub_split_def get_vr_params_def validate_vr_params_def outcome_simps
        validate_sub_split_def default_sub_split_def split: option.splits)
  from assms(2) obtain x where x: "positive_int amount = Some x"
    by (auto simp: distribute_revenue_def outcome_simps)
  then have pos: "0 \<le> x" by (simp add: positive_int_Some)
  note v = valid_revenue_split [OF sp] and w = valid_sub_split [OF sub]
  define c q r where "c = bps_share x (contributor_bps (get_revenue_split s))"
    and "q = bps_share x (protocol_bps (get_revenue_split s))" and "r = bps_share x (research_bps (get_revenue_split s))"
  define ci ve where "ci = bps_share q (citation_bps (get_protocol_sub_split s))"
    and "ve = bps_share q (verification_bps (get_protocol_sub_split s))"
  note bc = bps_share_range [OF pos v(1), folded c_def] and bq = bps_share_range [OF pos v(2), folded q_def]
    and br = bps_share_range [OF pos v(3), folded r_def]
  have "(c + q + r) * 1000000 \<le> x * (uint (contributor_bps (get_revenue_split s)) + uint (protocol_bps (get_revenue_split s))
      + uint (research_bps (get_revenue_split s)))"
    using bc bq br by (simp add: algebra_simps)
  also have "\<dots> \<le> x * 1000000" using v(4) pos by (rule mult_left_mono)
  finally have le: "c + q + r \<le> x" by simp
  have qp: "0 \<le> q" using bq by simp
  note bci = bps_share_range [OF qp w(1), folded ci_def] and bve = bps_share_range [OF qp w(2), folded ve_def]
  have "(ci + ve) * 1000000 \<le> q * (uint (citation_bps (get_protocol_sub_split s)) + uint (verification_bps (get_protocol_sub_split s)))"
    using bci bve by (simp add: algebra_simps)
  also have "\<dots> \<le> q * 1000000" using w(3) qp by (rule mult_left_mono)
  finally have le': "ci + ve \<le> q" by simp
  show ?thesis
    using assms(2) x le le' bc bq br bci bve
    by (auto simp: distribute_revenue_def Let_def simp flip: c_def q_def r_def ci_def ve_def)
qed

theorem vr_revenue_split_is_exact_witness:
  "\<exists>rr. distribute_revenue 200000 ''verification'' ''1000003'' ''zrn1bob'' ''f1'' wit_state = Inr rr \<and>
     int_or_zero (rr_contributor rr) + int_or_zero (rr_protocol rr) + int_or_zero (rr_research rr) + int_or_zero (rr_development rr) = 1000003"
proof -
  have "\<not> isl (distribute_revenue 200000 ''verification'' ''1000003'' ''zrn1bob'' ''f1'' wit_state)" by code_simp
  then obtain rr where rr: "distribute_revenue 200000 ''verification'' ''1000003'' ''zrn1bob'' ''f1'' wit_state = Inr rr"
    by (cases "distribute_revenue 200000 ''verification'' ''1000003'' ''zrn1bob'' ''f1'' wit_state") auto
  have "positive_int ''1000003'' = Some 1000003" by code_simp
  with vr_revenue_split_is_exact [OF wit_reachable rr] rr show ?thesis by auto
qed

text \<open>
  Governance cannot bring back what consensus version 2 retired: an accepted parameter update comes from the
  authority, keeps the founder share, the block reward, its floor and the empty-block rate at zero, leaves every
  frozen field as it was, and touches nothing but the parameters.
\<close>

theorem vr_retired_fields_stay_retired:
  assumes "update_vr_params authority who po s = Done s' u"
  shows "\<exists>p q. vr_params_record s = Some q \<and> po = Some p \<and> vr_params_record s' = Some p \<and> who = authority \<and>
    founder_share_bps p = 0 \<and> founder_address p = [] \<and> block_reward p = ''0'' \<and> floor_reward p = ''0'' \<and>
    empty_block_reward_rate p = 0 \<and> governance_activation_height p = governance_activation_height q \<and>
    category_reward_configs p = category_reward_configs q \<and> vesting_enabled p = vesting_enabled q \<and>
    initial_fund_balance p = initial_fund_balance q \<and> reward_decay_bps p = reward_decay_bps q \<and>
    released_clawback_rate p \<le> 10000 \<and> s' = s\<lparr>vr_params_record := Some p\<rparr>"
proof -
  from vr_update_params_effect [OF assms] obtain p q where u: "po = Some p" "vr_params_record s = Some q" "s' = write_vr_params p s"
    "validate_vr_params p = Inr ()" "validate_runtime_param_change q p = Inr ()" "who = authority" by blast
  have retired: "founder_share_bps p = 0" "founder_address p = []" "block_reward p = ''0''" "floor_reward p = ''0''"
    "empty_block_reward_rate p = 0" "released_clawback_rate p \<le> 10000"
    using u(4) by (auto simp: validate_vr_params_def outcome_simps)
  have frozen: "governance_activation_height p = governance_activation_height q"
    "category_reward_configs p = category_reward_configs q" "vesting_enabled p = vesting_enabled q"
    "initial_fund_balance p = initial_fund_balance q" "reward_decay_bps p = reward_decay_bps q"
    using u(5) by (auto simp: validate_runtime_param_change_def outcome_simps split: if_splits)
  show ?thesis using u(1-3,6) retired frozen by (simp add: write_vr_params_def)
qed

theorem vr_retired_fields_stay_retired_witness:
  "\<exists>s'. update_vr_params ''gov'' ''gov'' (Some (wit_params\<lparr>released_clawback_rate := 5000\<rparr>)) wit_state = Done s' () \<and>
     (\<exists>p. vr_params_record s' = Some p \<and> founder_share_bps p = 0)"
proof -
  have "succeeded (update_vr_params ''gov'' ''gov'' (Some (wit_params\<lparr>released_clawback_rate := 5000\<rparr>)) wit_state)" by code_simp
  then obtain s' where run: "update_vr_params ''gov'' ''gov'' (Some (wit_params\<lparr>released_clawback_rate := 5000\<rparr>)) wit_state = Done s' ()"
    by (auto dest: succeeded_Done)
  from vr_retired_fields_stay_retired [OF run] run show ?thesis by blast
qed

section \<open>Which schedule a falsification reaches\<close>

text \<open>
  \<open>FalsifyVesting\<close> names a schedule but acts on the one its claim's index entry points at: with two schedules
  of the same claim, naming the older one falsifies the newer.
\<close>

definition wit_twin :: "ledger vr_state" where
  "wit_twin = set_vesting_schedule (wit_schedule\<lparr>vs_id := ''k2'', vs_recipient := ''zrn1eve''\<rparr>) wit_state"

lemma vr_falsify_reaches_the_indexed_schedule:
  "map_option vs_status (get_vesting_schedule (final_state (falsify_vesting wit_digest 200000 ''zrn1bob'' ''k1'' wit_twin)) ''k1'') = Some st_vesting \<and>
   map_option vs_status (get_vesting_schedule (final_state (falsify_vesting wit_digest 200000 ''zrn1bob'' ''k1'' wit_twin)) ''k2'') = Some st_falsified"
  by code_simp

end
