(* ===== verification/Claiming_Pot.thy ===== *)
theory Claiming_Pot
  imports VR_State Chain
begin

text \<open>
  x/claiming_pot: pots of native coins minted on demand when an eligible address claims
  (types/{types,keys,errors}.go, keeper/{keeper,msg_server,migrator,grpc_query}.go, module.go).

  The module mints through x/vesting_rewards, so its state holds that of the other module, whose bank is
  the chain's; \<open>cp_tiers\<close> is what the staking keeper's adapter answers.
\<close>

section \<open>Records\<close>

datatype cp_error =
    PotNotFound | PotNotActive | Ineligible | AlreadyClaimed | InsufficientPotFunds | CliffNotReached | BelowMinClaim
  | MaxPotsReached | InvalidConfig string | CpUnauthorized | CapReached | EmissionCapExceeded | DailyCapExceeded
  | TooManyAddresses | InvalidAddress | CpInvalidMessage | CpMintError vr_error | CpBankError string | CpPanic string

datatype pot_status = POT_STATUS_UNSPECIFIED | POT_STATUS_ACTIVE | POT_STATUS_DEPLETED | POT_STATUS_EXPIRED

record pot_schedule =
  ps_start_block :: u64
  ps_end_block :: u64
  ps_cliff_blocks :: u64
  ps_period_blocks :: u64

record eligibility_criteria =
  el_min_staking_tier :: u32
  el_min_registration_age :: u64
  el_whitelist :: "string list"

record claiming_pot =
  pot_id :: string
  pot_name :: string
  pot_total :: string
  pot_claimed :: string
  pot_schedule_of :: "pot_schedule option"
  pot_eligibility :: "eligibility_criteria option"
  pot_created_at :: u64
  pot_status_of :: pot_status

record pot_claim =
  pc_pot_id :: string
  pc_claimant :: string
  pc_amount :: string
  pc_claimed_at :: u64

record cp_params =
  max_pots_active :: u32
  min_claim_amount :: string
  bootstrap_registrar :: string
  bootstrap_emission_cap_uzrn :: string
  bootstrap_daily_admission_cap :: u64

record cp_genesis =
  cpg_params :: "cp_params option"
  cpg_pots :: "claiming_pot list"
  cpg_claims :: "pot_claim list"
  cpg_counter :: u64
  cpg_units :: u64
  cpg_window_index :: u64
  cpg_window_count :: u64

record msg_create_pot =
  mp_authority :: string
  mp_name :: string
  mp_total_amount :: string
  mp_schedule :: "pot_schedule option"
  mp_eligibility :: "eligibility_criteria option"

section \<open>Constants and parameters\<close>

definition cp_module_name :: string where
  "cp_module_name = ''claiming_pot''"

definition bootstrap_prefix :: string where
  "bootstrap_prefix = ''bootstrap-''"

definition per_agent_uzrn :: int where
  "per_agent_uzrn = 222000"

definition max_bootstrap_addresses :: nat where
  "max_bootstrap_addresses = 500"

definition admission_window_blocks :: u64 where
  "admission_window_blocks = 34272"

definition default_emission_cap :: int where
  "default_emission_cap = 222222000000"

definition default_cp_params :: cp_params where
  "default_cp_params = \<lparr>max_pots_active = 10, min_claim_amount = ''1000'', bootstrap_registrar = [],
     bootstrap_emission_cap_uzrn = ''222222000000'', bootstrap_daily_admission_cap = 5000\<rparr>"

definition validate_cp_params :: "'b sdk \<Rightarrow> cp_params \<Rightarrow> bool" where
  "validate_cp_params env p \<longleftrightarrow>
     max_pots_active p \<noteq> 0 \<and> positive_int (min_claim_amount p) \<noteq> None \<and>
     (bootstrap_emission_cap_uzrn p \<noteq> [] \<longrightarrow> positive_int (bootstrap_emission_cap_uzrn p) \<noteq> None) \<and>
     (bootstrap_registrar p \<noteq> [] \<longrightarrow> acc_address env (bootstrap_registrar p) \<noteq> None \<and> bootstrap_daily_admission_cap p \<noteq> 0)"

definition emission_cap :: "cp_params \<Rightarrow> int" where
  "emission_cap p = (case positive_int (bootstrap_emission_cap_uzrn p) of None \<Rightarrow> default_emission_cap | Some x \<Rightarrow> x)"

definition default_cp_genesis :: cp_genesis where
  "default_cp_genesis = \<lparr>cpg_params = Some default_cp_params, cpg_pots = [], cpg_claims = [], cpg_counter = 0, cpg_units = 0,
     cpg_window_index = 0, cpg_window_count = 0\<rparr>"

definition make_bootstrap_pot :: "string \<Rightarrow> u64 \<Rightarrow> claiming_pot" where
  "make_bootstrap_pot addr current =
     \<lparr>pot_id = bootstrap_prefix @ addr, pot_name = ''Bootstrap seed (commitment 20)'', pot_total = ''222000'', pot_claimed = ''0'',
      pot_schedule_of = Some \<lparr>ps_start_block = current, ps_end_block = current + 1, ps_cliff_blocks = 0, ps_period_blocks = 0\<rparr>,
      pot_eligibility = Some \<lparr>el_min_staking_tier = 0, el_min_registration_age = 0, el_whitelist = [addr]\<rparr>,
      pot_created_at = 0, pot_status_of = POT_STATUS_ACTIVE\<rparr>"

text \<open>\<open>ceil(total / 222000)\<close>, unless the total is malformed or needs more than 64 bits.\<close>

definition pot_commitment_units :: "string \<Rightarrow> u64 option" where
  "pot_commitment_units amount = (case positive_int amount of
     None \<Rightarrow> None
   | Some x \<Rightarrow> (let units = (x + (per_agent_uzrn - 1)) div per_agent_uzrn
               in if units < 2 ^ 64 then Some (word_of_int units) else None))"

definition general_pot_sequence :: "string \<Rightarrow> u64 option" where
  "general_pot_sequence k = (case cut_prefix ''pot-'' k of
     None \<Rightarrow> None
   | Some rest \<Rightarrow> (case parse_uint rest of None \<Rightarrow> None | Some n \<Rightarrow> if 0 < n then Some n else None))"

section \<open>Genesis validation\<close>

definition validate_genesis_pot :: "claiming_pot \<Rightarrow> bool" where
  "validate_genesis_pot pot \<longleftrightarrow>
     pot_id pot \<noteq> [] \<and> pot_commitment_units (pot_total pot) \<noteq> None \<and>
     (case (big_set_string (pot_claimed pot), positive_int (pot_total pot)) of
        (Some claimed, Some amount) \<Rightarrow> 0 \<le> claimed \<and> claimed \<le> amount
      | _ \<Rightarrow> False) \<and>
     (case pot_schedule_of pot of None \<Rightarrow> False | Some sch \<Rightarrow> ps_start_block sch < ps_end_block sch)"

definition units_of :: "claiming_pot \<Rightarrow> int" where
  "units_of pot = (case pot_commitment_units (pot_total pot) of None \<Rightarrow> 0 | Some u \<Rightarrow> uint u)"

definition max_pot_sequence :: "claiming_pot list \<Rightarrow> u64" where
  "max_pot_sequence pots =
     fold (\<lambda>pot m. case general_pot_sequence (pot_id pot) of None \<Rightarrow> m | Some n \<Rightarrow> if m < n then n else m) pots 0"

definition claims_sum :: "string \<Rightarrow> pot_claim list \<Rightarrow> int" where
  "claims_sum k claims = sum_list (map (\<lambda>c. int_or_zero (pc_amount c)) (filter (\<lambda>c. pc_pot_id c = k) claims))"

definition validate_genesis_claim :: "'b sdk \<Rightarrow> claiming_pot list \<Rightarrow> pot_claim \<Rightarrow> bool" where
  "validate_genesis_claim env pots c \<longleftrightarrow>
     pc_pot_id c \<in> set (map pot_id pots) \<and> acc_address env (pc_claimant c) \<noteq> None \<and> positive_int (pc_amount c) \<noteq> None"

definition validate_cp_genesis :: "'b sdk \<Rightarrow> cp_genesis \<Rightarrow> bool" where
  "validate_cp_genesis env gs \<longleftrightarrow>
     (case cpg_params gs of None \<Rightarrow> True | Some p \<Rightarrow> validate_cp_params env p) \<and>
     list_all validate_genesis_pot (cpg_pots gs) \<and> distinct (map pot_id (cpg_pots gs)) \<and>
     (let derived = sum_list (map units_of (cpg_pots gs));
          params = (case cpg_params gs of None \<Rightarrow> default_cp_params | Some p \<Rightarrow> p);
          committed = (if cpg_units gs \<noteq> 0 then uint (cpg_units gs) else derived)
      in (cpg_units gs \<noteq> 0 \<longrightarrow> derived \<le> uint (cpg_units gs)) \<and> committed * per_agent_uzrn \<le> emission_cap params) \<and>
     (cpg_counter gs \<noteq> 0 \<longrightarrow> max_pot_sequence (cpg_pots gs) \<le> cpg_counter gs) \<and>
     cpg_counter gs \<noteq> max_u64 \<and> max_pot_sequence (cpg_pots gs) \<noteq> max_u64 \<and>
     list_all (validate_genesis_claim env (cpg_pots gs)) (cpg_claims gs) \<and>
     distinct (map (\<lambda>c. pc_pot_id c @ CHR 0x00 # pc_claimant c) (cpg_claims gs)) \<and>
     list_all (\<lambda>pot. claims_sum (pot_id pot) (cpg_claims gs) = int_or_zero (pot_claimed pot)) (cpg_pots gs)"

section \<open>Messages\<close>

definition validate_create_pot :: "'b sdk \<Rightarrow> msg_create_pot \<Rightarrow> bool" where
  "validate_create_pot env m \<longleftrightarrow>
     mp_authority m \<noteq> [] \<and> acc_address env (mp_authority m) \<noteq> None \<and> mp_name m \<noteq> [] \<and>
     positive_int (mp_total_amount m) \<noteq> None \<and>
     (case mp_schedule m of None \<Rightarrow> False | Some sch \<Rightarrow> ps_start_block sch < ps_end_block sch)"

definition validate_pot_claim_msg :: "'b sdk \<Rightarrow> string \<Rightarrow> string \<Rightarrow> bool" where
  "validate_pot_claim_msg env claimant k \<longleftrightarrow> claimant \<noteq> [] \<and> acc_address env claimant \<noteq> None \<and> k \<noteq> []"

definition validate_update_pot_params :: "'b sdk \<Rightarrow> string \<Rightarrow> cp_params option \<Rightarrow> bool" where
  "validate_update_pot_params env who po \<longleftrightarrow>
     who \<noteq> [] \<and> acc_address env who \<noteq> None \<and> (case po of None \<Rightarrow> False | Some p \<Rightarrow> validate_cp_params env p)"

definition validate_add_bootstrap :: "'b sdk \<Rightarrow> string \<Rightarrow> string list \<Rightarrow> bool" where
  "validate_add_bootstrap env who addrs \<longleftrightarrow>
     who \<noteq> [] \<and> acc_address env who \<noteq> None \<and> addrs \<noteq> [] \<and> length addrs \<le> max_bootstrap_addresses \<and>
     list_all (\<lambda>a. a \<noteq> [] \<and> acc_address env a \<noteq> None) addrs \<and> distinct addrs"

section \<open>The store\<close>

text \<open>The counters read as zero when absent, so absence is zero here.\<close>

record 'b cp_state =
  cp_params_record :: "cp_params option"
  cp_counter :: u64
  cp_units :: u64
  cp_window :: "u64 \<times> u64"
  cp_pots :: "(string, claiming_pot) kv"
  cp_active :: "(string, unit) kv"
  cp_claims :: "(string, pot_claim) kv"
  cp_tiers :: "(string, u32) kv"
  cp_vr :: "'b vr_state"

type_synonym ('b, 'a) cp_outcome = "('b cp_state, cp_error, 'a) outcome"

definition get_cp_params :: "'b cp_state \<Rightarrow> cp_params" where
  "get_cp_params s = (case cp_params_record s of None \<Rightarrow> default_cp_params | Some p \<Rightarrow> p)"

definition set_cp_params :: "cp_params \<Rightarrow> 'b cp_state \<Rightarrow> 'b cp_state" where
  "set_cp_params p s = s\<lparr>cp_params_record := Some p\<rparr>"

definition get_next_pot_id :: "'b cp_state \<Rightarrow> ('b, u64) cp_outcome" where
  "get_next_pot_id s =
     (if cp_counter s = max_u64 then Fail s (InvalidConfig ''pot counter exhausted'')
      else Done (s\<lparr>cp_counter := cp_counter s + 1\<rparr>) (cp_counter s + 1))"

definition get_window_count :: "'b cp_state \<Rightarrow> u64 \<Rightarrow> u64" where
  "get_window_count s window = (if fst (cp_window s) \<noteq> window then 0 else snd (cp_window s))"

definition set_window_count :: "u64 \<Rightarrow> u64 \<Rightarrow> 'b cp_state \<Rightarrow> 'b cp_state" where
  "set_window_count window n s = s\<lparr>cp_window := (window, n)\<rparr>"

definition set_pot :: "claiming_pot \<Rightarrow> 'b cp_state \<Rightarrow> 'b cp_state" where
  "set_pot pot s = s\<lparr>cp_pots := kv_set (pot_id pot) pot (cp_pots s),
     cp_active := (if pot_status_of pot = POT_STATUS_ACTIVE then kv_set (pot_id pot) () (cp_active s)
                   else kv_del (pot_id pot) (cp_active s))\<rparr>"

definition get_pot :: "'b cp_state \<Rightarrow> string \<Rightarrow> claiming_pot option" where
  "get_pot s k = kv_get (cp_pots s) k"

definition get_all_pots :: "'b cp_state \<Rightarrow> claiming_pot list" where
  "get_all_pots s = map snd (cp_pots s)"

definition count_active_pots :: "'b cp_state \<Rightarrow> nat" where
  "count_active_pots s = length (cp_active s)"

definition claim_key :: "string \<Rightarrow> string \<Rightarrow> string" where
  "claim_key k claimant = k @ ''/'' @ claimant"

definition set_pot_claim :: "pot_claim \<Rightarrow> 'b cp_state \<Rightarrow> 'b cp_state" where
  "set_pot_claim c s = s\<lparr>cp_claims := kv_set (claim_key (pc_pot_id c) (pc_claimant c)) c (cp_claims s)\<rparr>"

definition get_pot_claim :: "'b cp_state \<Rightarrow> string \<Rightarrow> string \<Rightarrow> pot_claim option" where
  "get_pot_claim s k claimant = kv_get (cp_claims s) (claim_key k claimant)"

definition get_claims_by_pot :: "'b cp_state \<Rightarrow> string \<Rightarrow> pot_claim list" where
  "get_claims_by_pot s k = map snd (filter (\<lambda>e. cut_prefix (k @ ''/'') (fst e) \<noteq> None) (cp_claims s))"

definition get_all_pot_claims :: "'b cp_state \<Rightarrow> pot_claim list" where
  "get_all_pot_claims s = map snd (cp_claims s)"

section \<open>Vesting of a pot\<close>

definition calculate_claimable :: "claiming_pot \<Rightarrow> u64 \<Rightarrow> int" where
  "calculate_claimable pot current =
     (case pot_schedule_of pot of
        None \<Rightarrow> 0
      | Some sch \<Rightarrow>
          let amount = int_or_zero (pot_total pot); claimed = int_or_zero (pot_claimed pot) in
          if current < ps_start_block sch then 0
          else if current < ps_start_block sch + ps_cliff_blocks sch then 0
          else if amount \<le> 0 then 0
          else if ps_end_block sch \<le> current then (if amount - claimed < 0 then 0 else amount - claimed)
          else
            let elapsed = current - ps_start_block sch; duration = ps_end_block sch - ps_start_block sch
            in if duration = 0 then 0
               else let claimable = amount * uint elapsed div uint duration - claimed
                    in if claimable < 0 then 0 else claimable)"

section \<open>Message handlers\<close>

definition create_pot :: "'b sdk \<Rightarrow> string \<Rightarrow> int \<Rightarrow> msg_create_pot \<Rightarrow> 'b cp_state \<Rightarrow> ('b, string) cp_outcome" where
  "create_pot env authority h m s =
     (if \<not> validate_create_pot env m then Fail s CpInvalidMessage
      else if mp_authority m \<noteq> authority then Fail s CpUnauthorized
      else if max_pots_active (get_cp_params s) \<le> of_nat (count_active_pots s) then Fail s MaxPotsReached
      else try_in s (of_option (InvalidConfig ''total_amount'') (pot_commitment_units (mp_total_amount m))) (\<lambda>units.
        if max_u64 - cp_units s < units then Fail s EmissionCapExceeded
        else if emission_cap (get_cp_params s) < (uint (cp_units s) + uint units) * per_agent_uzrn then Fail s EmissionCapExceeded
        else and_then (get_next_pot_id (s\<lparr>cp_units := cp_units s + units\<rparr>)) (\<lambda>s n.
          let k = ''pot-'' @ format_u64 n
          in Done (set_pot \<lparr>pot_id = k, pot_name = mp_name m, pot_total = mp_total_amount m, pot_claimed = ''0'',
                pot_schedule_of = mp_schedule m, pot_eligibility = mp_eligibility m, pot_created_at = to_u64 h,
                pot_status_of = POT_STATUS_ACTIVE\<rparr> s) k)))"

text \<open>The keeper wired for registration ages knows no address yet: it answers block 0.\<close>

definition get_registration_block :: "string \<Rightarrow> u64" where
  "get_registration_block addr = 0"

definition get_validator_tier :: "'b cp_state \<Rightarrow> string \<Rightarrow> u32" where
  "get_validator_tier s addr = (case kv_get (cp_tiers s) addr of None \<Rightarrow> 0 | Some t \<Rightarrow> t)"

definition check_eligibility :: "int \<Rightarrow> string \<Rightarrow> claiming_pot \<Rightarrow> 'b cp_state \<Rightarrow> cp_error + unit" where
  "check_eligibility h claimant pot s =
     (case pot_eligibility pot of None \<Rightarrow> Inr ()
      | Some e \<Rightarrow>
          if el_whitelist e \<noteq> [] \<and> claimant \<notin> set (el_whitelist e) then Inl Ineligible
          else if 0 < el_min_staking_tier e \<and> get_validator_tier s claimant < el_min_staking_tier e then Inl Ineligible
          else if 0 < el_min_registration_age e \<and>
            (get_registration_block claimant = 0 \<or> to_u64 h - get_registration_block claimant < el_min_registration_age e)
          then Inl Ineligible
          else Inr ())"

text \<open>\<open>MintWithCap\<close> of x/vesting_rewards and a bank transfer, run inside the other module's state.\<close>

definition mint_for_claim :: "'b sdk \<Rightarrow> int \<Rightarrow> 'b cp_state \<Rightarrow> ('b, int) cp_outcome" where
  "mint_for_claim env x s = (case mint_with_cap env cp_module_name x (cp_vr s) of
     Fail v e \<Rightarrow> Fail (s\<lparr>cp_vr := v\<rparr>) (CpMintError e) | Done v y \<Rightarrow> Done (s\<lparr>cp_vr := v\<rparr>) y)"

abbreviation cp_bank :: "'b cp_state \<Rightarrow> 'b" where
  "cp_bank s \<equiv> vr_bank (cp_vr s)"

definition cp_with_bank :: "'b \<Rightarrow> 'b cp_state \<Rightarrow> 'b cp_state" where
  "cp_with_bank b s = s\<lparr>cp_vr := (cp_vr s)\<lparr>vr_bank := b\<rparr>\<rparr>"

definition paid_pot :: "int \<Rightarrow> claiming_pot \<Rightarrow> claiming_pot" where
  "paid_pot x pot =
     (let claimed = int_or_zero (pot_claimed pot) + x;
          pot = pot\<lparr>pot_claimed := big_string claimed\<rparr>
      in if int_or_zero (pot_total pot) \<le> claimed then pot\<lparr>pot_status_of := POT_STATUS_DEPLETED\<rparr> else pot)"

text \<open>The second half of the handler: mint the amount, forward it, record the claim and the pot.\<close>

definition settle_claim :: "'b sdk \<Rightarrow> int \<Rightarrow> string \<Rightarrow> string \<Rightarrow> claiming_pot \<Rightarrow> int \<Rightarrow> 'b cp_state \<Rightarrow> ('b, string) cp_outcome" where
  "settle_claim env h claimant k pot claimable s =
     try_in s (of_option InvalidAddress (acc_address env claimant)) (\<lambda>addr.
     and_then (mint_for_claim env claimable s) (\<lambda>s minted.
     if minted \<le> 0 then Fail s CapReached
     else
       let claimable = (if minted < claimable then minted else claimable)
       in try_in s (of_option (CpPanic ''coins'') (new_coins env [(uzrn, claimable)])) (\<lambda>coins.
          and_then (on_bank cp_bank cp_with_bank CpBankError (bank_to_account env cp_module_name addr coins) s) (\<lambda>s _.
          Done (set_pot (paid_pot claimable pot)
             (set_pot_claim \<lparr>pc_pot_id = k, pc_claimant = claimant, pc_amount = big_string claimable,
                pc_claimed_at = to_u64 h\<rparr> s)) (big_string claimable)))))"

definition claim_pot :: "'b sdk \<Rightarrow> int \<Rightarrow> string \<Rightarrow> string \<Rightarrow> 'b cp_state \<Rightarrow> ('b, string) cp_outcome" where
  "claim_pot env h claimant k s =
     (if \<not> validate_pot_claim_msg env claimant k then Fail s CpInvalidMessage
      else try_in s (of_option PotNotFound (get_pot s k)) (\<lambda>pot.
      if pot_status_of pot \<noteq> POT_STATUS_ACTIVE then Fail s PotNotActive
      else try_in s (check_eligibility h claimant pot s) (\<lambda>_.
      if get_pot_claim s k claimant \<noteq> None then Fail s AlreadyClaimed
      else
        let claimable = calculate_claimable pot (to_u64 h)
        in if claimable \<le> 0 then Fail s CliffNotReached
        else if claimable < int_or_zero (min_claim_amount (get_cp_params s)) then Fail s BelowMinClaim
        else
          let remaining = int_or_zero (pot_total pot) - int_or_zero (pot_claimed pot);
              claimable = (if remaining < claimable then remaining else claimable)
          in if claimable \<le> 0 then Fail s InsufficientPotFunds
          else settle_claim env h claimant k pot claimable s)))"

text \<open>The registrar's window is charged before the lifetime counter; a batch over either cap adds nothing.\<close>

definition charge_window :: "u64 \<Rightarrow> u64 \<Rightarrow> 'b cp_state \<Rightarrow> ('b, unit) cp_outcome" where
  "charge_window current n s =
     (let window = current div admission_window_blocks
      in try_in s (of_option DailyCapExceeded (checked_add_u64 (get_window_count s window) n)) (\<lambda>next_count.
         if bootstrap_daily_admission_cap (get_cp_params s) < next_count then Fail s DailyCapExceeded
         else Done (set_window_count window next_count s) ()))"

definition add_bootstrap_entry ::
  "'b sdk \<Rightarrow> string \<Rightarrow> int \<Rightarrow> string \<Rightarrow> string list \<Rightarrow> 'b cp_state \<Rightarrow> ('b, nat \<times> nat) cp_outcome" where
  "add_bootstrap_entry env authority h who addrs s =
     (let registrar = bootstrap_registrar (get_cp_params s);
          is_gov = (authority = who);
          is_registrar = (\<not> is_gov \<and> registrar \<noteq> [] \<and> registrar = who);
          current = to_u64 h;
          to_add = filter (\<lambda>a. get_pot s (bootstrap_prefix @ a) = None) addrs;
          n = of_nat (length to_add) :: u64
      in if \<not> validate_add_bootstrap env who addrs then Fail s CpInvalidMessage
      else if \<not> is_gov \<and> \<not> is_registrar then Fail s CpUnauthorized
      else if max_bootstrap_addresses < length addrs then Fail s TooManyAddresses
      else if list_ex (\<lambda>a. acc_address env a = None) addrs then Fail s InvalidAddress
      else and_then
        (if to_add = [] then Done s ()
         else try_in s (of_option EmissionCapExceeded (checked_add_u64 (cp_units s) n)) (\<lambda>next_units.
           if emission_cap (get_cp_params s) < uint next_units * per_agent_uzrn then Fail s EmissionCapExceeded
           else and_then (if is_registrar then charge_window current n s else Done s ()) (\<lambda>s _.
                Done (s\<lparr>cp_units := next_units\<rparr>) ())))
        (\<lambda>s _. Done (fold (\<lambda>a. set_pot (make_bootstrap_pot a current)) to_add s)
                 (length to_add, length addrs - length to_add)))"

definition update_pot_params :: "'b sdk \<Rightarrow> string \<Rightarrow> int \<Rightarrow> string \<Rightarrow> cp_params option \<Rightarrow> 'b cp_state \<Rightarrow> ('b, unit) cp_outcome" where
  "update_pot_params env authority h who po s =
     (if \<not> validate_update_pot_params env who po then Fail s CpInvalidMessage
      else if authority \<noteq> who then Fail s CpUnauthorized
      else case po of None \<Rightarrow> Fail s (InvalidConfig ''params'')
      | Some p \<Rightarrow>
          if emission_cap p < uint (cp_units s) * per_agent_uzrn then Fail s (InvalidConfig ''emission cap'')
          else if bootstrap_daily_admission_cap p < get_window_count s (to_u64 h div admission_window_blocks)
          then Fail s (InvalidConfig ''daily cap'')
          else Done (set_cp_params p s) ())"

datatype cp_msg =
    MsgCreatePot msg_create_pot
  | MsgClaimPot string string
  | MsgAddBootstrapEntry string "string list"
  | MsgUpdatePotParams string "cp_params option"

fun cp_handle :: "'b sdk \<Rightarrow> string \<Rightarrow> int \<Rightarrow> cp_msg \<Rightarrow> 'b cp_state \<Rightarrow> ('b, unit) cp_outcome" where
  "cp_handle env authority h (MsgCreatePot m) s = discard (create_pot env authority h m s)"
| "cp_handle env authority h (MsgClaimPot claimant k) s = discard (claim_pot env h claimant k s)"
| "cp_handle env authority h (MsgAddBootstrapEntry who addrs) s = discard (add_bootstrap_entry env authority h who addrs s)"
| "cp_handle env authority h (MsgUpdatePotParams who po) s = update_pot_params env authority h who po s"

section \<open>Block hook\<close>

definition pot_due :: "u64 \<Rightarrow> 'b cp_state \<Rightarrow> string \<Rightarrow> claiming_pot option" where
  "pot_due current s k =
     (if cut_prefix bootstrap_prefix k \<noteq> None then None
      else case get_pot s k of None \<Rightarrow> None
      | Some pot \<Rightarrow> (case pot_schedule_of pot of None \<Rightarrow> None
          | Some sch \<Rightarrow> if pot_status_of pot = POT_STATUS_ACTIVE \<and> ps_end_block sch \<le> current then Some pot else None))"

definition process_pot_expiry :: "u64 \<Rightarrow> 'b cp_state \<Rightarrow> 'b cp_state" where
  "process_pot_expiry current s =
     fold (\<lambda>pot. set_pot (pot\<lparr>pot_status_of := POT_STATUS_EXPIRED\<rparr>)) (List.map_filter (pot_due current s) (map fst (cp_active s))) s"

definition cp_begin_block :: "int \<Rightarrow> 'b cp_state \<Rightarrow> ('b, unit) cp_outcome" where
  "cp_begin_block h s = Done (process_pot_expiry (to_u64 h) s) ()"

section \<open>Genesis, migration and queries\<close>

text \<open>The loop that charges the imported pots panics when their units pass 64 bits.\<close>

fun derive_units :: "claiming_pot list \<Rightarrow> u64 \<Rightarrow> u64 option" where
  "derive_units [] d = Some d"
| "derive_units (pot # pots) d =
     (case pot_commitment_units (pot_total pot) of
        None \<Rightarrow> derive_units pots d
      | Some u \<Rightarrow> if max_u64 - d < u then None else derive_units pots (d + u))"

definition init_cp_genesis :: "cp_genesis \<Rightarrow> 'b cp_state \<Rightarrow> ('b, unit) cp_outcome" where
  "init_cp_genesis gs s =
     (let s = (case cpg_params gs of None \<Rightarrow> s | Some p \<Rightarrow> set_cp_params p s);
          s = fold set_pot (cpg_pots gs) s
      in try_in s (of_option (CpPanic ''commitment units overflow'') (derive_units (cpg_pots gs) 0)) (\<lambda>derived.
         let units = (if cpg_units gs < derived then derived else cpg_units gs);
             top = max_pot_sequence (cpg_pots gs);
             counter = (if cpg_counter gs < top then top else cpg_counter gs);
             s = s\<lparr>cp_units := units, cp_counter := counter\<rparr>;
             s = (if cpg_window_index gs \<noteq> 0 \<or> cpg_window_count gs \<noteq> 0
                  then set_window_count (cpg_window_index gs) (cpg_window_count gs) s else s)
         in Done (fold set_pot_claim (cpg_claims gs) s) ()))"

definition export_cp_genesis :: "'b cp_state \<Rightarrow> cp_genesis" where
  "export_cp_genesis s = \<lparr>cpg_params = Some (get_cp_params s), cpg_pots = get_all_pots s, cpg_claims = get_all_pot_claims s,
     cpg_counter = cp_counter s, cpg_units = cp_units s, cpg_window_index = fst (cp_window s), cpg_window_count = snd (cp_window s)\<rparr>"

fun migration_units :: "claiming_pot list \<Rightarrow> u64 \<Rightarrow> cp_error + u64" where
  "migration_units [] d = Inr d"
| "migration_units (pot # pots) d =
     (case pot_commitment_units (pot_total pot) of
        None \<Rightarrow> Inl (InvalidConfig ''total_amount'')
      | Some u \<Rightarrow>
          if max_u64 - d < u then Inl (InvalidConfig ''units overflow'')
          else if general_pot_sequence (pot_id pot) = Some max_u64 then Inl (InvalidConfig ''no next id'')
          else migration_units pots (d + u))"

definition migrate_pots_1_to_2 :: "'b cp_state \<Rightarrow> ('b, unit) cp_outcome" where
  "migrate_pots_1_to_2 s =
     try_in s (migration_units (get_all_pots s) 0) (\<lambda>derived.
     let units = (if cp_units s < derived then derived else cp_units s); top = max_pot_sequence (get_all_pots s)
     in if emission_cap (get_cp_params s) < uint units * per_agent_uzrn then Fail s EmissionCapExceeded
        else let s = s\<lparr>cp_units := units\<rparr>
             in if cp_counter s = max_u64 then Fail s (InvalidConfig ''pot counter exhausted'')
                else Done (if cp_counter s < top then s\<lparr>cp_counter := top\<rparr> else s) ())"

definition query_pot :: "string \<Rightarrow> 'b cp_state \<Rightarrow> cp_error + claiming_pot" where
  "query_pot k s = (if k = [] then Inl CpInvalidMessage else of_option PotNotFound (get_pot s k))"

definition query_claimable :: "int \<Rightarrow> string \<Rightarrow> string \<Rightarrow> 'b cp_state \<Rightarrow> cp_error + string" where
  "query_claimable h k addr s =
     (if k = [] \<or> addr = [] then Inl CpInvalidMessage
      else bind_sum (of_option PotNotFound (get_pot s k)) (\<lambda>pot.
        if get_pot_claim s k addr \<noteq> None then Inr ''0'' else Inr (big_string (calculate_claimable pot (to_u64 h)))))"

definition query_claims :: "string \<Rightarrow> 'b cp_state \<Rightarrow> cp_error + pot_claim list" where
  "query_claims k s = (if k = [] then Inl CpInvalidMessage else Inr (get_claims_by_pot s k))"

end
