(* ===== verification/Capped_Mint.thy ===== *)
theory Capped_Mint
  imports VR_Claims
begin

text \<open>
  What the modules that issue the native coin rely on: the locale \<open>capped_mint\<close> states what the capped mint
  promises, and is interpreted on \<open>mint_with_cap\<close> of x/vesting_rewards.
\<close>

section \<open>The capped mint\<close>

locale capped_mint =
  fixes lawful :: bool
    and mint :: "string \<Rightarrow> int \<Rightarrow> 'v \<Rightarrow> ('v, 'e, int) outcome"
    and circulating :: "'v \<Rightarrow> int"
    and balance :: "'v \<Rightarrow> 'a \<Rightarrow> int"
    and account_of :: "string \<Rightarrow> 'a"
    and limit :: int
  assumes mint_effect: "lawful \<Longrightarrow> mint m x v = Done v' y \<Longrightarrow>
      y = max 0 (min x (limit - circulating v)) \<and> circulating v' = circulating v + y \<and>
      (\<forall>a. balance v' a = balance v a + (if a = account_of m then y else 0))"
begin

lemma minted_range: "lawful \<Longrightarrow> mint m x v = Done v' y \<Longrightarrow> 0 \<le> y \<and> (0 \<le> x \<longrightarrow> y \<le> x)"
  by (auto dest: mint_effect)

lemma minted_within: "lawful \<Longrightarrow> mint m x v = Done v' y \<Longrightarrow> circulating v' \<le> max limit (circulating v)"
  by (auto dest!: mint_effect)

lemma minted_clipped: "lawful \<Longrightarrow> mint m x v = Done v' y \<Longrightarrow> 0 < y \<Longrightarrow> circulating v' \<le> limit"
  by (auto dest!: mint_effect)

text \<open>A conduit that forwards what it minted keeps its own balance.\<close>

lemma conduit_balance:
  assumes "lawful" "mint m x v = Done v' y"
    "\<And>a. balance w a = balance v' a - (if a = account_of m then y else 0) + (if a = to then y else 0)"
  shows "balance w a = balance v a + (if a = to then y else 0)"
  using mint_effect [OF assms(1,2)] assms(3) by simp

end

interpretation zrn_mint: capped_mint "sdk_laws env" "mint_with_cap env" "\<lambda>v. bank_supply env (vr_bank v) uzrn"
    "\<lambda>v a. bank_balance env (vr_bank v) a uzrn" "module_address env" max_supply_uzrn
  for env :: "'b sdk"
  by unfold_locales (auto dest: mint_with_cap_effect)

text \<open>The amount minted is in range whatever the bank does.\<close>

lemma mint_with_cap_range: "mint_with_cap env m x v = Done v' y \<Longrightarrow> 0 < x \<Longrightarrow> 0 \<le> y \<and> y \<le> x"
  by (auto simp: mint_with_cap_def Let_def outcome_simps split: if_splits)

end
