(* ===== verification/Claiming_Pot_Inv.thy ===== *)
theory Claiming_Pot_Inv
  imports Claiming_Pot Capped_Mint
begin

text \<open>
  The invariant of x/claiming_pot and what keeps it; the mint is the interpretation \<open>zrn_mint\<close> of the locale
  \<open>capped_mint\<close>.
\<close>

lemma mint_for_claim_Done [outcome_simps]:
  "mint_for_claim env x s = Done s' y \<longleftrightarrow> (\<exists>v. mint_with_cap env cp_module_name x (cp_vr s) = Done v y \<and> s' = s\<lparr>cp_vr := v\<rparr>)"
  by (auto simp: mint_for_claim_def split: outcome.splits)

section \<open>The invariant\<close>

definition bech32_text :: "'b sdk \<Rightarrow> bool" where
  "bech32_text env \<longleftrightarrow> (\<forall>a. acc_address env a \<noteq> None \<longrightarrow> CHR ''/'' \<notin> set a)"

definition claimed_from :: "'b cp_state \<Rightarrow> string \<Rightarrow> int" where
  "claimed_from s k = kv_sum (\<lambda>c. if pc_pot_id c = k then int_or_zero (pc_amount c) else 0) (cp_claims s)"

definition pot_ok :: "'b cp_state \<Rightarrow> string \<Rightarrow> claiming_pot \<Rightarrow> bool" where
  "pot_ok s k pot \<longleftrightarrow> pot_id pot = k \<and> validate_genesis_pot pot \<and> int_or_zero (pot_claimed pot) = claimed_from s k \<and>
     (\<forall>n. general_pot_sequence k = Some n \<longrightarrow> n \<le> cp_counter s)"

definition pot_claim_ok :: "'b cp_state \<Rightarrow> string \<Rightarrow> pot_claim \<Rightarrow> bool" where
  "pot_claim_ok s key c \<longleftrightarrow> key = claim_key (pc_pot_id c) (pc_claimant c) \<and> CHR ''/'' \<notin> set (pc_claimant c) \<and>
     positive_int (pc_amount c) \<noteq> None \<and> get_pot s (pc_pot_id c) \<noteq> None"

definition cp_inv :: "'b sdk \<Rightarrow> 'b cp_state \<Rightarrow> bool" where
  "cp_inv env s \<longleftrightarrow> bech32_text env \<and> kv_ok (cp_pots s) \<and> kv_ok (cp_active s) \<and> kv_ok (cp_claims s) \<and>
     (\<forall>k pot. get_pot s k = Some pot \<longrightarrow> pot_ok s k pot) \<and>
     (\<forall>k. kv_get (cp_active s) k \<noteq> None \<longleftrightarrow> (\<exists>pot. get_pot s k = Some pot \<and> pot_status_of pot = POT_STATUS_ACTIVE)) \<and>
     (\<forall>key c. kv_get (cp_claims s) key = Some c \<longrightarrow> pot_claim_ok s key c) \<and>
     kv_sum units_of (cp_pots s) \<le> uint (cp_units s) \<and>
     uint (cp_units s) * per_agent_uzrn \<le> emission_cap (get_cp_params s)"

lemma cp_invD:
  assumes "cp_inv env s"
  shows "bech32_text env" "kv_ok (cp_pots s)" "kv_ok (cp_active s)" "kv_ok (cp_claims s)"
    "get_pot s k = Some pot \<Longrightarrow> pot_ok s k pot"
    "kv_get (cp_active s) k \<noteq> None \<longleftrightarrow> (\<exists>pot. get_pot s k = Some pot \<and> pot_status_of pot = POT_STATUS_ACTIVE)"
    "kv_get (cp_claims s) key = Some c \<Longrightarrow> pot_claim_ok s key c"
    "kv_sum units_of (cp_pots s) \<le> uint (cp_units s)"
    "uint (cp_units s) * per_agent_uzrn \<le> emission_cap (get_cp_params s)"
  using assms unfolding cp_inv_def by blast+

section \<open>Pots\<close>

lemma units_of_range: "0 \<le> units_of pot" "units_of pot < 2 ^ 64"
  using u64_bounds by (auto simp: units_of_def split: option.split)

lemma total_within_units:
  assumes "pot_commitment_units (pot_total pot) = Some u"
  shows "units_of pot = uint u" "int_or_zero (pot_total pot) \<le> units_of pot * per_agent_uzrn" "0 < int_or_zero (pot_total pot)"
proof -
  from assms obtain x where x: "positive_int (pot_total pot) = Some x"
    "(x + (per_agent_uzrn - 1)) div per_agent_uzrn < 2 ^ 64" "u = word_of_int ((x + (per_agent_uzrn - 1)) div per_agent_uzrn)"
    by (auto simp: pot_commitment_units_def Let_def split: option.splits if_splits)
  then have "0 < x" "int_or_zero (pot_total pot) = x" by (auto simp: positive_int_Some int_or_zero_Some)
  moreover have "uint u = (x + (per_agent_uzrn - 1)) div per_agent_uzrn"
    using x(2,3) \<open>0 < x\<close> by (simp add: uint_word_of_int per_agent_uzrn_def)
  moreover have "x \<le> (x + (per_agent_uzrn - 1)) div per_agent_uzrn * per_agent_uzrn"
    using floor_div_gt [of per_agent_uzrn "x + (per_agent_uzrn - 1)"] by (simp add: per_agent_uzrn_def)
  ultimately show "units_of pot = uint u" "int_or_zero (pot_total pot) \<le> units_of pot * per_agent_uzrn"
    "0 < int_or_zero (pot_total pot)" using assms by (simp_all add: units_of_def)
qed

lemma valid_pot:
  assumes "validate_genesis_pot pot"
  shows "pot_id pot \<noteq> []" "0 \<le> int_or_zero (pot_claimed pot)" "int_or_zero (pot_claimed pot) \<le> int_or_zero (pot_total pot)"
    "0 < int_or_zero (pot_total pot)" "int_or_zero (pot_total pot) \<le> units_of pot * per_agent_uzrn"
    "\<exists>sch. pot_schedule_of pot = Some sch \<and> ps_start_block sch < ps_end_block sch"
proof -
  from assms obtain u where u: "pot_commitment_units (pot_total pot) = Some u" by (auto simp: validate_genesis_pot_def)
  show "0 < int_or_zero (pot_total pot)" "int_or_zero (pot_total pot) \<le> units_of pot * per_agent_uzrn"
    by (rule total_within_units [OF u])+
  show "pot_id pot \<noteq> []" "0 \<le> int_or_zero (pot_claimed pot)" "int_or_zero (pot_claimed pot) \<le> int_or_zero (pot_total pot)"
    "\<exists>sch. pot_schedule_of pot = Some sch \<and> ps_start_block sch < ps_end_block sch"
    using assms by (auto simp: validate_genesis_pot_def positive_int_Some int_or_zero_Some split: option.splits)
qed

lemma get_set_pot [simp]: "get_pot (set_pot pot s) k = (if k = pot_id pot then Some pot else get_pot s k)"
  by (simp add: get_pot_def set_pot_def)

lemma set_pot_fields [simp]:
  "cp_claims (set_pot pot s) = cp_claims s" "cp_counter (set_pot pot s) = cp_counter s" "cp_units (set_pot pot s) = cp_units s"
  "cp_params_record (set_pot pot s) = cp_params_record s" "cp_window (set_pot pot s) = cp_window s"
  "cp_vr (set_pot pot s) = cp_vr s" "cp_tiers (set_pot pot s) = cp_tiers s" "claimed_from (set_pot pot s) = claimed_from s"
  "get_cp_params (set_pot pot s) = get_cp_params s" "get_pot_claim (set_pot pot s) = get_pot_claim s"
  by (simp_all add: set_pot_def claimed_from_def get_cp_params_def get_pot_claim_def fun_eq_iff)

text \<open>A field of another part of the state does not matter to a pot or a claim.\<close>

lemma cp_inv_frame:
  assumes "cp_inv env s" "cp_pots s' = cp_pots s" "cp_active s' = cp_active s" "cp_claims s' = cp_claims s"
    "cp_counter s \<le> cp_counter s'" "cp_units s' = cp_units s" "cp_params_record s' = cp_params_record s"
  shows "cp_inv env s'"
proof -
  have eq: "get_pot s' = get_pot s" "claimed_from s' = claimed_from s" "get_cp_params s' = get_cp_params s"
    using assms by (simp_all add: get_pot_def claimed_from_def get_cp_params_def fun_eq_iff)
  have "pot_ok s' k pot" if "get_pot s k = Some pot" for k pot
    using cp_invD(5) [OF assms(1) that] assms(5) by (auto simp: pot_ok_def eq)
  moreover have "pot_claim_ok s' key c" if "kv_get (cp_claims s) key = Some c" for key c
    using cp_invD(7) [OF assms(1) that] by (simp add: pot_claim_ok_def eq)
  ultimately show ?thesis using assms(1) unfolding cp_inv_def eq assms(2-4,6) by blast
qed

text \<open>Writing a pot: a new one is paid for by uncommitted units, an old one keeps its amounts.\<close>

lemma cp_inv_set_pot:
  assumes inv: "cp_inv env s" and pot: "pot_ok s (pot_id pot) pot"
    and units: "kv_sum units_of (cp_pots s) + units_of pot -
      (case get_pot s (pot_id pot) of None \<Rightarrow> 0 | Some old \<Rightarrow> units_of old) \<le> uint (cp_units s)"
  shows "cp_inv env (set_pot pot s)"
proof -
  note d = cp_invD [OF inv]
  have "pot_ok (set_pot pot s) k q" if "get_pot (set_pot pot s) k = Some q" for k q
    using that d(5) [of k q] pot by (auto simp: pot_ok_def split: if_splits)
  moreover have "pot_claim_ok (set_pot pot s) key c" if "kv_get (cp_claims s) key = Some c" for key c
    using d(7) [OF that] by (auto simp: pot_claim_ok_def)
  moreover have "kv_get (cp_active (set_pot pot s)) k \<noteq> None \<longleftrightarrow>
      (\<exists>q. get_pot (set_pot pot s) k = Some q \<and> pot_status_of q = POT_STATUS_ACTIVE)" for k
    using d(6) [of k] by (auto simp: set_pot_def get_pot_def)
  moreover have "kv_sum units_of (cp_pots (set_pot pot s)) \<le> uint (cp_units s)"
    using units d(2) by (simp add: set_pot_def kv_sum_set get_pot_def)
  moreover have "kv_ok (cp_pots (set_pot pot s))" "kv_ok (cp_active (set_pot pot s))"
    using d(2,3) by (simp_all add: set_pot_def)
  ultimately show ?thesis using d(1,4,9) unfolding cp_inv_def by simp
qed

lemma cp_inv_restatus:
  assumes "cp_inv env s" "get_pot s k = Some pot"
  shows "cp_inv env (set_pot (pot\<lparr>pot_status_of := st\<rparr>) s)"
proof -
  note p = cp_invD(5) [OF assms]
  then have id: "pot_id pot = k" by (simp add: pot_ok_def)
  from p have "pot_ok s (pot_id (pot\<lparr>pot_status_of := st\<rparr>)) (pot\<lparr>pot_status_of := st\<rparr>)"
    by (auto simp: pot_ok_def validate_genesis_pot_def)
  then show ?thesis
    by (rule cp_inv_set_pot [OF assms(1)]) (use assms(2) id cp_invD(8) [OF assms(1)] in \<open>simp add: units_of_def\<close>)
qed

section \<open>Creating pots\<close>

lemma kv_sum_zero: "(\<And>k v. (k, v) \<in> set m \<Longrightarrow> f v = 0) \<Longrightarrow> kv_sum f m = 0"
proof (induction m)
  case Nil
  then show ?case by simp
next
  case (Cons e m)
  have "f (snd e) = 0" by (rule Cons.prems [of "fst e"]) simp
  moreover have "f v = 0" if "(k, v) \<in> set m" for k v by (rule Cons.prems [of k]) (simp add: that)
  then have "kv_sum f m = 0" by (rule Cons.IH)
  ultimately show ?case by (simp add: kv_sum_def)
qed

lemma unclaimed_pot:
  assumes "cp_inv env s" "get_pot s k = None"
  shows "claimed_from s k = 0"
proof -
  have "pc_pot_id c \<noteq> k" if "(key, c) \<in> set (cp_claims s)" for key c
  proof -
    from that have "kv_get (cp_claims s) key = Some c" using kv_get_mem [OF cp_invD(4) [OF assms(1)]] by blast
    from cp_invD(7) [OF assms(1) this] assms(2) show ?thesis by (auto simp: pot_claim_ok_def)
  qed
  from this show ?thesis unfolding claimed_from_def by (rule kv_sum_zero [OF if_not_P])
qed

lemma new_pot_kept:
  assumes inv: "cp_inv env s" and fresh: "get_pot s (pot_id pot) = None" and pot: "validate_genesis_pot pot" "int_or_zero (pot_claimed pot) = 0"
    and seq: "\<And>n. general_pot_sequence (pot_id pot) = Some n \<Longrightarrow> n \<le> cp_counter s"
    and units: "kv_sum units_of (cp_pots s) + units_of pot \<le> uint (cp_units s)"
  shows "cp_inv env (set_pot pot s)"
  by (rule cp_inv_set_pot [OF inv]) (use assms unclaimed_pot [OF inv fresh] in \<open>auto simp: pot_ok_def\<close>)

lemma general_sequence_of_id: "n \<noteq> 0 \<Longrightarrow> general_pot_sequence (''pot-'' @ format_u64 n) = Some n"
proof -
  assume "n \<noteq> 0"
  moreover have "0 < uint n" using calculation u64_bounds [of n] by (simp add: u64_eq_iff order_less_le)
  ultimately show ?thesis
    unfolding general_pot_sequence_def cut_prefix_append by (simp add: u64_less)
qed

lemma bootstrap_no_sequence: "general_pot_sequence (bootstrap_prefix @ a) = None"
  by (simp add: general_pot_sequence_def bootstrap_prefix_def)

text \<open>Raising the committed units, never past the emission cap.\<close>

lemma cp_inv_charge:
  assumes "cp_inv env s" "uint (cp_units s) \<le> uint u" "uint u * per_agent_uzrn \<le> emission_cap (get_cp_params s)"
  shows "cp_inv env (s\<lparr>cp_units := u\<rparr>)"
proof -
  note d = cp_invD [OF assms(1)]
  have "get_pot (s\<lparr>cp_units := u\<rparr>) = get_pot s" "claimed_from (s\<lparr>cp_units := u\<rparr>) = claimed_from s"
    "get_cp_params (s\<lparr>cp_units := u\<rparr>) = get_cp_params s"
    by (simp_all add: get_pot_def claimed_from_def get_cp_params_def fun_eq_iff)
  then show ?thesis using assms d unfolding cp_inv_def pot_ok_def pot_claim_ok_def by force
qed

lemma get_next_pot_id_Done [outcome_simps]:
  "get_next_pot_id s = Done s' n \<longleftrightarrow> cp_counter s \<noteq> max_u64 \<and> n = cp_counter s + 1 \<and> s' = s\<lparr>cp_counter := n\<rparr>"
  by (auto simp: get_next_pot_id_def)

lemma counter_succ: "c \<noteq> max_u64 \<Longrightarrow> uint (c + 1) = uint c + 1"
  using u64_bounds [of c] uint_max_u64 by (intro u64_add_no_wrap [where b = 1, simplified]) (simp add: u64_eq_iff)

lemma create_pot_effect:
  assumes run: "create_pot env authority h m s = Done s' k"
  obtains u n pot where "validate_create_pot env m" "mp_authority m = authority" "int (count_active_pots s) < uint (max_pots_active (get_cp_params s))
      \<or> count_active_pots s \<ge> 2 ^ 32"
    "pot_commitment_units (mp_total_amount m) = Some u" "uint (cp_units s) + uint u < 2 ^ 64"
    "(uint (cp_units s) + uint u) * per_agent_uzrn \<le> emission_cap (get_cp_params s)"
    "cp_counter s \<noteq> max_u64" "n = cp_counter s + 1" "k = ''pot-'' @ format_u64 n"
    "pot = \<lparr>pot_id = k, pot_name = mp_name m, pot_total = mp_total_amount m, pot_claimed = ''0'',
       pot_schedule_of = mp_schedule m, pot_eligibility = mp_eligibility m, pot_created_at = to_u64 h,
       pot_status_of = POT_STATUS_ACTIVE\<rparr>"
    "s' = set_pot pot (s\<lparr>cp_units := cp_units s + u, cp_counter := n\<rparr>)"
proof -
  from run obtain u where u: "validate_create_pot env m" "mp_authority m = authority"
    "\<not> max_pots_active (get_cp_params s) \<le> of_nat (count_active_pots s)"
    "pot_commitment_units (mp_total_amount m) = Some u" "\<not> max_u64 - cp_units s < u"
    "\<not> emission_cap (get_cp_params s) < (uint (cp_units s) + uint u) * per_agent_uzrn" "cp_counter s \<noteq> max_u64"
    and s': "k = ''pot-'' @ format_u64 (cp_counter s + 1)"
      "s' = set_pot \<lparr>pot_id = k, pot_name = mp_name m, pot_total = mp_total_amount m, pot_claimed = ''0'',
         pot_schedule_of = mp_schedule m, pot_eligibility = mp_eligibility m, pot_created_at = to_u64 h,
         pot_status_of = POT_STATUS_ACTIVE\<rparr> (s\<lparr>cp_units := cp_units s + u, cp_counter := cp_counter s + 1\<rparr>)"
    unfolding create_pot_def Let_def by (auto simp: outcome_simps)
  have "uint (cp_units s) + uint u < 2 ^ 64"
    using u(5) checked_add_u64_Some [of "cp_units s" u "cp_units s + u"] by (simp add: checked_add_u64_def)
  moreover have "int (count_active_pots s) < uint (max_pots_active (get_cp_params s)) \<or> count_active_pots s \<ge> 2 ^ 32"
    using u(3) by (auto simp: u32_le not_le unsigned_of_nat take_bit_eq_mod zmod_int)
  ultimately show thesis using that u s' by (simp add: not_less)
qed

lemma create_pot_kept:
  assumes inv: "cp_inv env s" and run: "create_pot env authority h m s = Done s' k"
  shows "cp_inv env s'"
  using run
proof (rule create_pot_effect)
  fix u n pot
  assume msg: "validate_create_pot env m" and u: "pot_commitment_units (mp_total_amount m) = Some u"
    "uint (cp_units s) + uint u < 2 ^ 64" "(uint (cp_units s) + uint u) * per_agent_uzrn \<le> emission_cap (get_cp_params s)"
    and n: "cp_counter s \<noteq> max_u64" "n = cp_counter s + 1" "k = ''pot-'' @ format_u64 n"
    and pot: "pot = \<lparr>pot_id = k, pot_name = mp_name m, pot_total = mp_total_amount m, pot_claimed = ''0'',
       pot_schedule_of = mp_schedule m, pot_eligibility = mp_eligibility m, pot_created_at = to_u64 h,
       pot_status_of = POT_STATUS_ACTIVE\<rparr>"
    and s': "s' = set_pot pot (s\<lparr>cp_units := cp_units s + u, cp_counter := n\<rparr>)"
  let ?t = "s\<lparr>cp_units := cp_units s + u, cp_counter := n\<rparr>"
  have n': "uint n = uint (cp_counter s) + 1" using counter_succ [OF n(1)] by (simp add: n(2))
  then have nz: "n \<noteq> 0" using u64_bounds(1) [of "cp_counter s"] by (intro notI) simp
  have add: "uint (cp_units s + u) = uint (cp_units s) + uint u" by (rule u64_add_no_wrap [OF u(2)])
  then have "cp_inv env (s\<lparr>cp_units := cp_units s + u\<rparr>)"
    using u(3) u64_bounds [of u] by (intro cp_inv_charge [OF inv]) simp_all
  then have t: "cp_inv env ?t" by (rule cp_inv_frame) (simp_all add: u64_le n')
  have seq: "general_pot_sequence k = Some n" unfolding n(3) by (rule general_sequence_of_id [OF nz])
  have "get_pot s k = None"
  proof (rule ccontr)
    assume "get_pot s k \<noteq> None"
    with cp_invD(5) [OF inv] seq have "n \<le> cp_counter s" by (auto simp: pot_ok_def)
    with n' show False by (simp add: u64_le)
  qed
  then have fresh: "get_pot ?t (pot_id pot) = None" by (simp add: pot get_pot_def)
  have zero: "big_set_string ''0'' = Some 0" by code_simp
  have "k \<noteq> []" by (simp add: n(3))
  with msg u(1) zero have valid: "validate_genesis_pot pot" "int_or_zero (pot_claimed pot) = 0"
    by (auto simp: pot validate_genesis_pot_def validate_create_pot_def positive_int_Some int_or_zero_def split: option.splits)
  have "units_of pot = uint u" by (simp add: pot units_of_def u(1))
  then have "kv_sum units_of (cp_pots ?t) + units_of pot \<le> uint (cp_units ?t)"
    using cp_invD(8) [OF inv] by (simp add: add)
  with new_pot_kept [OF t fresh valid] seq show ?thesis by (simp add: s' pot)
qed

section \<open>Bootstrap entries\<close>

lemma bootstrap_pot_fields [simp]:
  "pot_id (make_bootstrap_pot a current) = bootstrap_prefix @ a" "pot_total (make_bootstrap_pot a current) = ''222000''"
  "pot_claimed (make_bootstrap_pot a current) = ''0''"
  "pot_schedule_of (make_bootstrap_pot a current) =
     Some \<lparr>ps_start_block = current, ps_end_block = current + 1, ps_cliff_blocks = 0, ps_period_blocks = 0\<rparr>"
  by (simp_all add: make_bootstrap_pot_def)

lemma bootstrap_amounts:
  "big_set_string ''222000'' = Some 222000" "big_set_string ''0'' = Some 0"
  "pot_commitment_units ''222000'' = Some 1"
  by code_simp+

lemma bootstrap_pot_units [simp]: "units_of (make_bootstrap_pot a current) = 1"
  by (simp add: units_of_def bootstrap_amounts)

lemma bootstrap_pot_valid: "current < current + 1 \<Longrightarrow> validate_genesis_pot (make_bootstrap_pot a current)"
  by (simp add: validate_genesis_pot_def bootstrap_amounts positive_int_def bootstrap_prefix_def del: big_set_string.simps)

lemma add_bootstrap_pots:
  assumes "cp_inv env s" "distinct addrs" "\<And>a. a \<in> set addrs \<Longrightarrow> get_pot s (bootstrap_prefix @ a) = None"
    "kv_sum units_of (cp_pots s) + int (length addrs) \<le> uint (cp_units s)" "current < current + 1"
  shows "cp_inv env (fold (\<lambda>a. set_pot (make_bootstrap_pot a current)) addrs s)"
  using assms(1-4)
proof (induction addrs arbitrary: s)
  case Nil
  then show ?case by simp
next
  case (Cons a addrs)
  let ?s = "set_pot (make_bootstrap_pot a current) s"
  have fresh: "get_pot s (bootstrap_prefix @ a) = None" using Cons.prems(3) by simp
  have zero: "int_or_zero ''0'' = 0" by (simp add: int_or_zero_def bootstrap_amounts del: big_set_string.simps)
  have "cp_inv env ?s"
    by (rule new_pot_kept [OF Cons.prems(1)])
      (use fresh bootstrap_pot_valid [OF assms(5)] Cons.prems(4) zero bootstrap_no_sequence in simp_all)
  moreover have "kv_sum units_of (cp_pots ?s) = kv_sum units_of (cp_pots s) + 1"
    using fresh cp_invD(2) [OF Cons.prems(1)] by (simp add: set_pot_def kv_sum_set get_pot_def)
  ultimately have "cp_inv env (fold (\<lambda>a. set_pot (make_bootstrap_pot a current)) addrs ?s)"
    using Cons.prems(2-4) by (intro Cons.IH) auto
  then show ?case by simp
qed

lemma height_succ: "0 \<le> h \<Longrightarrow> h < 2 ^ 63 \<Longrightarrow> to_u64 h < to_u64 h + 1"
  by (simp add: u64_less uint_to_u64 u64_add_no_wrap)

lemma charge_window_Done [outcome_simps]:
  "charge_window current n s = Done s' u \<longleftrightarrow>
     (\<exists>c. checked_add_u64 (get_window_count s (current div admission_window_blocks)) n = Some c \<and>
       c \<le> bootstrap_daily_admission_cap (get_cp_params s) \<and> s' = set_window_count (current div admission_window_blocks) c s)"
  by (auto simp: charge_window_def Let_def outcome_simps not_less)

lemma add_bootstrap_kept:
  assumes inv: "cp_inv env s" and h: "0 \<le> h" "h < 2 ^ 63"
    and run: "add_bootstrap_entry env authority h who addrs s = Done s' r"
  shows "cp_inv env s'"
proof -
  define new where "new = filter (\<lambda>a. get_pot s (bootstrap_prefix @ a) = None) addrs"
  from run have addrs: "validate_add_bootstrap env who addrs"
    by (auto simp: add_bootstrap_entry_def Let_def outcome_simps split: if_splits)
  have "length new \<le> length addrs" by (simp add: new_def)
  with addrs have small: "distinct new" "int (length new) < 2 ^ 64"
    by (simp_all add: validate_add_bootstrap_def max_bootstrap_addresses_def) (simp add: new_def)?
  from run obtain t where t: "s' = fold (\<lambda>a. set_pot (make_bootstrap_pot a (to_u64 h))) new t"
    and charge: "(if new = [] then Done s ()
         else try_in s (of_option EmissionCapExceeded (checked_add_u64 (cp_units s) (of_nat (length new)))) (\<lambda>next_units.
           if emission_cap (get_cp_params s) < uint next_units * per_agent_uzrn then Fail s EmissionCapExceeded
           else and_then (if \<not> authority = who \<and> bootstrap_registrar (get_cp_params s) \<noteq> [] \<and> bootstrap_registrar (get_cp_params s) = who
                then charge_window (to_u64 h) (of_nat (length new)) s else Done s ()) (\<lambda>s _.
                Done (s\<lparr>cp_units := next_units\<rparr>) ()))) = Done t ()"
    unfolding add_bootstrap_entry_def Let_def new_def [symmetric] by (auto simp: outcome_simps)
  show ?thesis
  proof (cases "new = []")
    case True
    with t charge inv show ?thesis by simp
  next
    case False
    from charge False obtain units v where v: "checked_add_u64 (cp_units s) (of_nat (length new)) = Some units"
      "uint units * per_agent_uzrn \<le> emission_cap (get_cp_params s)" "t = v\<lparr>cp_units := units\<rparr>"
      "v = s \<or> (\<exists>w c. v = set_window_count w c s)"
      by (auto simp: outcome_simps not_less split: if_splits)
    have n: "uint (of_nat (length new) :: u64) = int (length new)"
      using small(2) by (simp add: unsigned_of_nat take_bit_eq_mod zmod_int)
    from v(1) have units: "uint units = uint (cp_units s) + int (length new)"
      by (auto simp: checked_add_u64_Some n u64_add_no_wrap)
    have "cp_inv env (s\<lparr>cp_units := units\<rparr>)" by (rule cp_inv_charge [OF inv]) (use units v(2) in simp_all)
    then have tk: "cp_inv env t" by (rule cp_inv_frame) (use v(3,4) in \<open>auto simp: set_window_count_def\<close>)
    have pots: "cp_pots t = cp_pots s" "cp_units t = units" using v(3,4) by (auto simp: set_window_count_def)
    show ?thesis unfolding t
      by (rule add_bootstrap_pots [OF tk small(1)])
        (use cp_invD(8) [OF inv] units height_succ [OF h] in \<open>auto simp: pots get_pot_def new_def\<close>)
  qed
qed

section \<open>Claims\<close>

lemma settle_claim_effect:
  assumes run: "settle_claim env h claimant k pot x s = Done s' r" and x: "0 < x"
  shows "\<exists>addr v y coins b. acc_address env claimant = Some addr \<and> mint_with_cap env cp_module_name x (cp_vr s) = Done v y \<and>
    0 < y \<and> y \<le> x \<and> new_coins env [(uzrn, y)] = Some coins \<and>
    bank_to_account env cp_module_name addr coins (vr_bank v) = Done b () \<and> r = big_string y \<and>
    s' = set_pot (paid_pot y pot) (set_pot_claim \<lparr>pc_pot_id = k, pc_claimant = claimant, pc_amount = big_string y,
       pc_claimed_at = to_u64 h\<rparr> (s\<lparr>cp_vr := v\<lparr>vr_bank := b\<rparr>\<rparr>))"
proof -
  from run obtain addr v z where a: "acc_address env claimant = Some addr" "mint_with_cap env cp_module_name x (cp_vr s) = Done v z"
    by (auto simp: settle_claim_def outcome_simps)
  have "z \<le> x" using mint_with_cap_range [OF a(2) x] by simp
  then have z: "(if z < x then z else x) = z" by simp
  from run a show ?thesis
    by (auto simp: settle_claim_def outcome_simps mint_for_claim_def Let_def z cp_with_bank_def \<open>z \<le> x\<close> not_le)
qed

lemma claim_pot_effect:
  assumes run: "claim_pot env h claimant k s = Done s' r"
  obtains pot x y addr coins v b where "acc_address env claimant = Some addr" "get_pot s k = Some pot"
    "pot_status_of pot = POT_STATUS_ACTIVE" "check_eligibility h claimant pot s = Inr ()" "get_pot_claim s k claimant = None"
    "0 < calculate_claimable pot (to_u64 h)" "int_or_zero (min_claim_amount (get_cp_params s)) \<le> calculate_claimable pot (to_u64 h)"
    "x = min (calculate_claimable pot (to_u64 h)) (int_or_zero (pot_total pot) - int_or_zero (pot_claimed pot))" "0 < x"
    "mint_with_cap env cp_module_name x (cp_vr s) = Done v y" "0 < y" "y \<le> x"
    "new_coins env [(uzrn, y)] = Some coins" "bank_to_account env cp_module_name addr coins (vr_bank v) = Done b ()"
    "r = big_string y"
    "s' = set_pot (paid_pot y pot) (set_pot_claim \<lparr>pc_pot_id = k, pc_claimant = claimant, pc_amount = big_string y,
       pc_claimed_at = to_u64 h\<rparr> (s\<lparr>cp_vr := v\<lparr>vr_bank := b\<rparr>\<rparr>))"
proof -
  from run obtain pot where pot: "get_pot s k = Some pot" "pot_status_of pot = POT_STATUS_ACTIVE"
    "check_eligibility h claimant pot s = Inr ()" "get_pot_claim s k claimant = None"
    "0 < calculate_claimable pot (to_u64 h)" "int_or_zero (min_claim_amount (get_cp_params s)) \<le> calculate_claimable pot (to_u64 h)"
    and x: "0 < min (calculate_claimable pot (to_u64 h)) (int_or_zero (pot_total pot) - int_or_zero (pot_claimed pot))"
    and settle: "settle_claim env h claimant k pot
      (min (calculate_claimable pot (to_u64 h)) (int_or_zero (pot_total pot) - int_or_zero (pot_claimed pot))) s = Done s' r"
    by (auto simp: claim_pot_def Let_def outcome_simps not_le not_less min_def split: if_splits)
  from settle_claim_effect [OF settle x] that [OF _ pot refl x] show thesis by blast
qed

lemma claimed_from_new:
  assumes "kv_ok (cp_claims s)" "get_pot_claim s (pc_pot_id c) (pc_claimant c) = None"
  shows "claimed_from (set_pot_claim c s) k = claimed_from s k + (if k = pc_pot_id c then int_or_zero (pc_amount c) else 0)"
  using assms by (simp add: claimed_from_def set_pot_claim_def kv_sum_set get_pot_claim_def)

lemma set_pot_claim_fields [simp]:
  "get_pot (set_pot_claim c s) = get_pot s" "cp_pots (set_pot_claim c s) = cp_pots s" "cp_active (set_pot_claim c s) = cp_active s"
  "cp_counter (set_pot_claim c s) = cp_counter s" "cp_units (set_pot_claim c s) = cp_units s"
  "get_cp_params (set_pot_claim c s) = get_cp_params s" "cp_vr (set_pot_claim c s) = cp_vr s"
  by (simp_all add: set_pot_claim_def get_pot_def get_cp_params_def fun_eq_iff)

lemma paid_pot_fields [simp]:
  "pot_id (paid_pot x pot) = pot_id pot" "pot_total (paid_pot x pot) = pot_total pot"
  "pot_schedule_of (paid_pot x pot) = pot_schedule_of pot" "pot_eligibility (paid_pot x pot) = pot_eligibility pot"
  "pot_claimed (paid_pot x pot) = big_string (int_or_zero (pot_claimed pot) + x)"
  "pot_status_of (paid_pot x pot) =
     (if int_or_zero (pot_total pot) \<le> int_or_zero (pot_claimed pot) + x then POT_STATUS_DEPLETED else pot_status_of pot)"
  by (simp_all add: paid_pot_def Let_def)

lemma paid_pot_valid:
  assumes "validate_genesis_pot pot" "0 < x" "x \<le> int_or_zero (pot_total pot) - int_or_zero (pot_claimed pot)"
  shows "validate_genesis_pot (paid_pot x pot)"
proof -
  note v = valid_pot [OF assms(1)]
  from assms(1) obtain t where t: "positive_int (pot_total pot) = Some t"
    by (auto simp: validate_genesis_pot_def split: option.splits)
  then have "int_or_zero (pot_total pot) = t" by (simp add: positive_int_Some int_or_zero_Some)
  with t show ?thesis using assms v(2,3) by (auto simp: validate_genesis_pot_def)
qed

text \<open>Recording a claim and paying the pot together keep the books.\<close>

lemma cp_inv_claim:
  assumes inv: "cp_inv env s" and pot: "get_pot s k = Some pot" and new: "get_pot_claim s k claimant = None"
    and c: "c = \<lparr>pc_pot_id = k, pc_claimant = claimant, pc_amount = big_string x, pc_claimed_at = at\<rparr>"
    and slash: "CHR ''/'' \<notin> set claimant"
    and x: "0 < x" "x \<le> int_or_zero (pot_total pot) - int_or_zero (pot_claimed pot)"
  shows "cp_inv env (set_pot (paid_pot x pot) (set_pot_claim c s))"
proof -
  let ?t = "set_pot_claim c s" and ?s' = "set_pot (paid_pot x pot) (set_pot_claim c s)"
  note d = cp_invD [OF inv]
  from d(5) [OF pot] have p: "pot_id pot = k" "validate_genesis_pot pot" "int_or_zero (pot_claimed pot) = claimed_from s k"
    "\<forall>n. general_pot_sequence k = Some n \<longrightarrow> n \<le> cp_counter s" by (auto simp: pot_ok_def)
  have sum: "claimed_from ?t j = claimed_from s j + (if j = k then x else 0)" for j
    using claimed_from_new [OF d(4), of c] new by (simp add: c)
  have get: "get_pot ?s' j = (if j = k then Some (paid_pot x pot) else get_pot s j)" for j by (simp add: p(1))
  have "pot_ok ?s' j q" if "get_pot ?s' j = Some q" for j q
    using that d(5) [of j q] p sum paid_pot_valid [OF p(2) x] by (auto simp: get pot_ok_def split: if_splits)
  moreover have "kv_get (cp_active ?s') j \<noteq> None \<longleftrightarrow> (\<exists>q. get_pot ?s' j = Some q \<and> pot_status_of q = POT_STATUS_ACTIVE)" for j
  proof -
    have "kv_get (cp_active ?s') j \<noteq> None \<longleftrightarrow>
        (if j = k then pot_status_of (paid_pot x pot) = POT_STATUS_ACTIVE else kv_get (cp_active s) j \<noteq> None)"
      by (simp add: set_pot_def p(1))
    then show ?thesis unfolding get using d(6) [of j] by auto
  qed
  moreover have "pot_claim_ok ?s' key e" if "kv_get (cp_claims ?s') key = Some e" for key e
  proof (cases "e = c")
    case True
    have "key = claim_key k claimant"
    proof (rule ccontr)
      assume "key \<noteq> claim_key k claimant"
      with that True have "kv_get (cp_claims s) key = Some c" by (simp add: set_pot_claim_def c)
      from d(7) [OF this] \<open>key \<noteq> claim_key k claimant\<close> show False by (simp add: pot_claim_ok_def c)
    qed
    with True show ?thesis using slash x(1) unfolding pot_claim_ok_def get by (simp add: c positive_int_def)
  next
    case False
    with that have "kv_get (cp_claims s) key = Some e" by (simp add: set_pot_claim_def split: if_splits)
    from d(7) [OF this] show ?thesis by (auto simp: pot_claim_ok_def get)
  qed
  moreover have "kv_sum units_of (cp_pots ?s') = kv_sum units_of (cp_pots s)"
    using d(2) pot by (simp add: set_pot_def kv_sum_set get_pot_def p(1) units_of_def)
  moreover have "kv_ok (cp_pots ?s')" "kv_ok (cp_active ?s')" "kv_ok (cp_claims ?s')"
    using d(2-4) by (simp_all add: set_pot_def set_pot_claim_def)
  ultimately show ?thesis using d(1,8,9) unfolding cp_inv_def by simp
qed

lemma claim_pot_kept:
  assumes inv: "cp_inv env s" and run: "claim_pot env h claimant k s = Done s' r"
  shows "cp_inv env s'"
  using run
proof (rule claim_pot_effect)
  fix pot x y addr coins v b
  assume addr: "acc_address env claimant = Some addr" and pot: "get_pot s k = Some pot" and new: "get_pot_claim s k claimant = None"
    and x: "x = min (calculate_claimable pot (to_u64 h)) (int_or_zero (pot_total pot) - int_or_zero (pot_claimed pot))" "0 < y" "y \<le> x"
    and s': "s' = set_pot (paid_pot y pot) (set_pot_claim \<lparr>pc_pot_id = k, pc_claimant = claimant, pc_amount = big_string y,
       pc_claimed_at = to_u64 h\<rparr> (s\<lparr>cp_vr := v\<lparr>vr_bank := b\<rparr>\<rparr>))"
  have "cp_inv env (s\<lparr>cp_vr := v\<lparr>vr_bank := b\<rparr>\<rparr>)" by (rule cp_inv_frame [OF inv]) simp_all
  moreover have "CHR ''/'' \<notin> set claimant" using cp_invD(1) [OF inv] addr by (auto simp: bech32_text_def)
  moreover have "get_pot (s\<lparr>cp_vr := v\<lparr>vr_bank := b\<rparr>\<rparr>) k = Some pot" "get_pot_claim (s\<lparr>cp_vr := v\<lparr>vr_bank := b\<rparr>\<rparr>) k claimant = None"
    using pot new by (simp_all add: get_pot_def get_pot_claim_def)
  ultimately show ?thesis unfolding s' using x by (intro cp_inv_claim) auto
qed

end
