(* ===== verification/Claiming_Pot_Chain.thy ===== *)
theory Claiming_Pot_Chain
  imports Claiming_Pot_Inv
begin

text \<open>
  x/claiming_pot on a chain: parameter updates, the expiry hook and the import of a validated genesis keep the
  invariant, so it holds in every reachable state (interpretation \<open>cp\<close> of \<open>chain_module\<close>).
\<close>

section \<open>Parameters and expiry\<close>

lemma update_pot_params_effect:
  assumes "update_pot_params env authority h who po s = Done s' u"
  obtains p where "po = Some p" "who = authority" "validate_cp_params env p" "uint (cp_units s) * per_agent_uzrn \<le> emission_cap p"
    "get_window_count s (to_u64 h div admission_window_blocks) \<le> bootstrap_daily_admission_cap p" "s' = set_cp_params p s"
  using assms by (auto simp: update_pot_params_def validate_update_pot_params_def outcome_simps not_less split: option.splits)

lemma cp_inv_set_params:
  assumes "cp_inv env s" "uint (cp_units s) * per_agent_uzrn \<le> emission_cap p"
  shows "cp_inv env (set_cp_params p s)"
proof -
  have "get_pot (set_cp_params p s) = get_pot s" "claimed_from (set_cp_params p s) = claimed_from s"
    "get_cp_params (set_cp_params p s) = p"
    by (simp_all add: get_pot_def claimed_from_def set_cp_params_def get_cp_params_def fun_eq_iff)
  then show ?thesis using assms cp_invD [OF assms(1)]
    unfolding cp_inv_def pot_ok_def pot_claim_ok_def by (simp add: set_cp_params_def)
qed

lemma expire_pots:
  assumes "cp_inv env s" "distinct (map pot_id pots)" "\<And>p. p \<in> set pots \<Longrightarrow> get_pot s (pot_id p) = Some p"
  shows "cp_inv env (fold (\<lambda>p. set_pot (p\<lparr>pot_status_of := POT_STATUS_EXPIRED\<rparr>)) pots s)"
  using assms
proof (induction pots arbitrary: s)
  case Nil
  then show ?case by simp
next
  case (Cons p pots)
  let ?s = "set_pot (p\<lparr>pot_status_of := POT_STATUS_EXPIRED\<rparr>) s"
  have "cp_inv env ?s" using Cons.prems by (intro cp_inv_restatus) auto
  moreover have "get_pot ?s (pot_id q) = Some q" if "q \<in> set pots" for q
  proof -
    have "pot_id q \<noteq> pot_id p" using Cons.prems(2) that by (metis distinct.simps(2) image_eqI list.simps(9) set_map)
    then show ?thesis using Cons.prems(3) that by simp
  qed
  ultimately show ?case using Cons.IH [of ?s] Cons.prems(2) by simp
qed

lemma distinct_map_filter:
  assumes "distinct ks" "\<And>k p. f k = Some p \<Longrightarrow> g p = k"
  shows "distinct (map g (List.map_filter f ks))"
  using assms by (induction ks) (auto simp: List.map_filter_simps set_map_filter split: option.split)

lemma pot_due_Some: "pot_due current s k = Some p \<Longrightarrow> get_pot s k = Some p"
  by (auto simp: pot_due_def split: if_splits option.splits)

lemma process_pot_expiry_kept:
  assumes "cp_inv env s"
  shows "cp_inv env (process_pot_expiry current s)"
  unfolding process_pot_expiry_def
proof (rule expire_pots [OF assms])
  have id: "pot_id p = k" if "pot_due current s k = Some p" for k p
    using cp_invD(5) [OF assms pot_due_Some [OF that]] by (simp add: pot_ok_def)
  show "distinct (map pot_id (List.map_filter (pot_due current s) (map fst (cp_active s))))"
    by (rule distinct_map_filter [OF _ id]) (use kv_ok_distinct [OF cp_invD(3) [OF assms]] in simp)
  show "get_pot s (pot_id p) = Some p" if "p \<in> set (List.map_filter (pot_due current s) (map fst (cp_active s)))" for p
    using that id by (auto simp: set_map_filter dest: pot_due_Some)
qed

section \<open>Genesis\<close>

lemma max_pot_sequence_le:
  assumes "p \<in> set pots" "general_pot_sequence (pot_id p) = Some n"
  shows "n \<le> max_pot_sequence pots"
proof -
  define step where "step = (\<lambda>(pot :: claiming_pot) m. case general_pot_sequence (pot_id pot) of None \<Rightarrow> m | Some n \<Rightarrow> if m < n then n else m)"
  have up: "m \<le> fold step ps m" for ps and m :: u64
  proof (induction ps arbitrary: m)
    case (Cons q ps)
    have "m \<le> step q m" by (auto simp: step_def split: option.split)
    with Cons [of "step q m"] show ?case by simp
  qed simp
  have "n \<le> fold step pots m" for m using assms(1)
  proof (induction pots arbitrary: m)
    case (Cons q ps)
    show ?case
    proof (cases "p = q")
      case True
      have "n \<le> step q m" using assms(2) True by (auto simp: step_def)
      with up [of "step q m" ps] show ?thesis by simp
    next
      case False
      with Cons show ?thesis by simp
    qed
  qed simp
  then show ?thesis by (simp add: max_pot_sequence_def step_def)
qed

lemma derive_units_sum:
  "derive_units pots d = Some e \<Longrightarrow> uint e = uint d + sum_list (map units_of pots)"
proof (induction pots d rule: derive_units.induct)
  case (1 d)
  then show ?case by simp
next
  case (2 pot pots d)
  show ?case
  proof (cases "pot_commitment_units (pot_total pot)")
    case None
    with 2 show ?thesis by (simp add: units_of_def)
  next
    case (Some u)
    with 2(3) have "\<not> max_u64 - d < u" by (auto split: if_splits)
    then have "uint (d + u) = uint d + uint u"
      using checked_add_u64_Some [of d u "d + u"] by (intro u64_add_no_wrap) (simp add: checked_add_u64_def)
    with 2 Some show ?thesis by (auto simp: units_of_def split: if_splits)
  qed
qed

lemma kv_sum_import:
  assumes "kv_ok m" "distinct (map key vs)" "\<And>v. v \<in> set vs \<Longrightarrow> kv_get m (key v) = None"
  shows "kv_sum f (fold (\<lambda>v m. kv_set (key v) v m) vs m) = kv_sum f m + sum_list (map f vs)"
  using assms
proof (induction vs arbitrary: m)
  case Nil
  then show ?case by simp
next
  case (Cons v vs)
  have "kv_get (kv_set (key v) v m) (key w) = None" if "w \<in> set vs" for w
    using Cons.prems(2,3) that by (metis distinct.simps(2) image_eqI kv_get_set list.set_intros(2) list.simps(9) set_map)
  then show ?case using Cons by (simp add: kv_sum_set)
qed

definition active_index_ok :: "'b cp_state \<Rightarrow> bool" where
  "active_index_ok s \<longleftrightarrow> kv_ok (cp_active s) \<and>
     (\<forall>k. kv_get (cp_active s) k \<noteq> None \<longleftrightarrow> (\<exists>pot. get_pot s k = Some pot \<and> pot_status_of pot = POT_STATUS_ACTIVE))"

lemma active_index_set: "active_index_ok s \<Longrightarrow> active_index_ok (set_pot pot s)"
  unfolding active_index_ok_def by (auto simp: set_pot_def get_pot_def)

lemma import_pots:
  "active_index_ok s \<Longrightarrow> active_index_ok (fold set_pot pots s) \<and>
    cp_pots (fold set_pot pots s) = fold (\<lambda>v m. kv_set (pot_id v) v m) pots (cp_pots s) \<and>
    cp_claims (fold set_pot pots s) = cp_claims s \<and> cp_params_record (fold set_pot pots s) = cp_params_record s"
  by (induction pots arbitrary: s) (auto simp: active_index_set, simp_all add: set_pot_def)

definition cp_fresh :: "'b cp_state \<Rightarrow> bool" where
  "cp_fresh s \<longleftrightarrow> cp_params_record s = None \<and> cp_counter s = 0 \<and> cp_units s = 0 \<and> cp_window s = (0, 0) \<and> cp_pots s = [] \<and>
     cp_active s = [] \<and> cp_claims s = []"

definition cp_init :: "'b sdk \<Rightarrow> int \<Rightarrow> 'b cp_state \<Rightarrow> bool" where
  "cp_init env h s \<longleftrightarrow> bech32_text env \<and>
     (\<exists>gs s0. cp_fresh s0 \<and> validate_cp_genesis env gs \<and> init_cp_genesis gs s0 = Done s ())"

text \<open>The rest of the chain moves x/vesting_rewards (and with it the bank) and the validators' tiers.\<close>

definition cp_others :: "'b cp_state \<Rightarrow> 'b cp_state \<Rightarrow> bool" where
  "cp_others s s' \<longleftrightarrow> (\<exists>v t. s' = s\<lparr>cp_vr := v, cp_tiers := t\<rparr>)"

lemma fold_claims:
  "cp_claims (fold set_pot_claim cs s) = fold (\<lambda>c m. kv_set (claim_key (pc_pot_id c) (pc_claimant c)) c m) cs (cp_claims s) \<and>
   cp_pots (fold set_pot_claim cs s) = cp_pots s \<and> cp_active (fold set_pot_claim cs s) = cp_active s \<and>
   cp_counter (fold set_pot_claim cs s) = cp_counter s \<and> cp_units (fold set_pot_claim cs s) = cp_units s \<and>
   cp_params_record (fold set_pot_claim cs s) = cp_params_record s"
  by (induction cs arbitrary: s) (auto simp: set_pot_claim_def)

lemma claim_key_inj:
  "CHR ''/'' \<notin> set a \<Longrightarrow> CHR ''/'' \<notin> set b \<Longrightarrow> claim_key k a = claim_key j b \<longleftrightarrow> k = j \<and> a = b"
  using slash_split [of k a j b] by (auto simp: claim_key_def)

lemma distinct_claim_keys:
  assumes "distinct (map (\<lambda>c. pc_pot_id c @ CHR 0x00 # pc_claimant c) cs)" "\<And>c. c \<in> set cs \<Longrightarrow> CHR ''/'' \<notin> set (pc_claimant c)"
  shows "distinct (map (\<lambda>c. claim_key (pc_pot_id c) (pc_claimant c)) cs)"
  using assms by (induction cs) (auto simp: claim_key_inj)

lemma write_window:
  "(if c then set_window_count w n s else s) = s\<lparr>cp_window := if c then (w, n) else cp_window s\<rparr>"
  by (simp add: set_window_count_def)

lemma cp_init_inv:
  assumes "cp_init env h s"
  shows "cp_inv env s"
proof -
  from assms obtain gs s0 where b32: "bech32_text env" and s0: "cp_fresh s0" and gs: "validate_cp_genesis env gs"
    and run: "init_cp_genesis gs s0 = Done s ()" unfolding cp_init_def by blast
  define a where "a = (case cpg_params gs of None \<Rightarrow> s0 | Some p \<Rightarrow> set_cp_params p s0)"
  define b where "b = fold set_pot (cpg_pots gs) a"
  define derived where "derived = sum_list (map units_of (cpg_pots gs))"
  have clamp: "m \<le> (if c < m then m else c)" for m c :: u64 by (simp add: not_less)
  from run obtain d where d: "derive_units (cpg_pots gs) 0 = Some d"
    and s: "cp_pots s = cp_pots b" "cp_active s = cp_active b" "cp_params_record s = cp_params_record b"
      "cp_claims s = fold (\<lambda>c m. kv_set (claim_key (pc_pot_id c) (pc_claimant c)) c m) (cpg_claims gs) (cp_claims b)"
      "cp_units s = (if cpg_units gs < d then d else cpg_units gs)"
      "max_pot_sequence (cpg_pots gs) \<le> cp_counter s"
    unfolding init_cp_genesis_def Let_def a_def [symmetric] b_def [symmetric]
    by (auto simp: outcome_simps fold_claims write_window clamp)
  have a: "cp_pots a = []" "cp_active a = []" "cp_claims a = []"
    and p: "get_cp_params s = (case cpg_params gs of None \<Rightarrow> default_cp_params | Some p \<Rightarrow> p)"
    if "cp_params_record b = cp_params_record a" using s0 that s(3)
    by (auto simp: a_def cp_fresh_def set_cp_params_def get_cp_params_def split: option.split)
  have "active_index_ok a" using s0
    by (auto simp: a_def cp_fresh_def set_cp_params_def active_index_ok_def get_pot_def split: option.split)
  note imp = import_pots [OF this, of "cpg_pots gs", folded b_def]
  note a = a [OF imp [THEN conjunct2, THEN conjunct2, THEN conjunct2]] and p = p [OF imp [THEN conjunct2, THEN conjunct2, THEN conjunct2]]
  have pots: "cp_pots s = fold (\<lambda>v m. kv_set (pot_id v) v m) (cpg_pots gs) []" using imp s(1) a(1) by simp
  have claims: "cp_claims s = fold (\<lambda>c m. kv_set (claim_key (pc_pot_id c) (pc_claimant c)) c m) (cpg_claims gs) []"
    using imp s(4) a(3) by simp
  have g: "list_all validate_genesis_pot (cpg_pots gs)" "distinct (map pot_id (cpg_pots gs))"
    "list_all (validate_genesis_claim env (cpg_pots gs)) (cpg_claims gs)"
    "distinct (map (\<lambda>c. pc_pot_id c @ CHR 0x00 # pc_claimant c) (cpg_claims gs))"
    "list_all (\<lambda>pot. claims_sum (pot_id pot) (cpg_claims gs) = int_or_zero (pot_claimed pot)) (cpg_pots gs)"
    "cpg_units gs \<noteq> 0 \<Longrightarrow> derived \<le> uint (cpg_units gs)"
    "(if cpg_units gs \<noteq> 0 then uint (cpg_units gs) else derived) * per_agent_uzrn \<le> emission_cap (get_cp_params s)"
    using gs unfolding validate_cp_genesis_def Let_def p derived_def by blast+
  have slash: "CHR ''/'' \<notin> set (pc_claimant c)" if "c \<in> set (cpg_claims gs)" for c
    using that g(3) b32 by (auto simp: list_all_iff validate_genesis_claim_def bech32_text_def)
  have keys: "distinct (map (\<lambda>c. claim_key (pc_pot_id c) (pc_claimant c)) (cpg_claims gs))"
    by (rule distinct_claim_keys [OF g(4) slash])
  have stored: "\<exists>pot \<in> set (cpg_pots gs). pot_id pot = k \<and> get_pot s k = Some pot" if "k \<in> pot_id ` set (cpg_pots gs)" for k
    using that by (auto simp: get_pot_def pots fold_kv_set_get find_None_iff dest: find_member split: option.split)
  have member: "pot \<in> set (cpg_pots gs) \<and> pot_id pot = k" if "get_pot s k = Some pot" for k pot
    using that by (auto simp: get_pot_def pots fold_kv_set_get dest: find_member split: option.splits)
  have taken: "claimed_from s k = claims_sum k (cpg_claims gs)" for k
    using kv_sum_import [OF kv_ok_Nil keys, of "\<lambda>c. if pc_pot_id c = k then int_or_zero (pc_amount c) else 0"]
    by (simp add: claimed_from_def claims claims_sum_def sum_list_map_filter' [symmetric] if_distrib)
  have "pot_ok s k pot" if "get_pot s k = Some pot" for k pot
    using member [OF that] g(1,5) max_pot_sequence_le [of pot "cpg_pots gs"] s(6)
    by (auto simp: pot_ok_def list_all_iff taken intro: order_trans)
  moreover have "pot_claim_ok s key c" if "kv_get (cp_claims s) key = Some c" for key c
  proof -
    from that have c: "c \<in> set (cpg_claims gs)" "claim_key (pc_pot_id c) (pc_claimant c) = key"
      by (auto simp: claims fold_kv_set_get dest: find_member split: option.splits)
    with g(3) stored [of "pc_pot_id c"] slash [OF c(1)] show ?thesis
      by (auto simp: pot_claim_ok_def list_all_iff validate_genesis_claim_def)
  qed
  moreover have "kv_sum units_of (cp_pots s) = derived"
    using kv_sum_import [OF kv_ok_Nil g(2), of units_of] by (simp add: pots derived_def)
  moreover have "uint d = derived" using derive_units_sum [OF d] by (simp add: derived_def)
  then have "derived \<le> uint (cp_units s)" "uint (cp_units s) * per_agent_uzrn \<le> emission_cap (get_cp_params s)"
    using g(6,7) u64_bounds(1) [of d] by (auto simp: s(5) u64_less not_less order.antisym split: if_splits)
  moreover have "kv_ok (cp_pots s)" "kv_ok (cp_claims s)" by (simp_all add: pots claims kv_ok_fold_set)
  moreover have "active_index_ok s" using imp by (simp add: active_index_ok_def s(1,2) get_pot_def)
  ultimately show ?thesis using b32 unfolding cp_inv_def active_index_ok_def by simp
qed

section \<open>On a chain\<close>

lemma cp_handle_kept:
  assumes "cp_inv env s" "0 \<le> h" "h < 2 ^ 63" "cp_handle env authority h m s = Done s' u"
  shows "cp_inv env s'"
proof (cases m)
  case (MsgCreatePot x)
  with assms(4) obtain k where "create_pot env authority h x s = Done s' k" by (auto simp: discard_Done)
  with assms(1) show ?thesis by (rule create_pot_kept)
next
  case (MsgClaimPot claimant k)
  with assms(4) obtain r where "claim_pot env h claimant k s = Done s' r" by (auto simp: discard_Done)
  with assms(1) show ?thesis by (rule claim_pot_kept)
next
  case (MsgAddBootstrapEntry who addrs)
  with assms(4) obtain r where "add_bootstrap_entry env authority h who addrs s = Done s' r" by (auto simp: discard_Done)
  with assms(1-3) show ?thesis by (rule add_bootstrap_kept)
next
  case (MsgUpdatePotParams who po)
  with assms(4) have "update_pot_params env authority h who po s = Done s' u" by simp
  then show ?thesis by (rule update_pot_params_effect) (use cp_inv_set_params [OF assms(1)] in simp)
qed

interpretation cp: live_module "cp_init env" "cp_handle env authority" "\<lambda>s m. True" cp_begin_block cp_others "\<lambda>h. cp_inv env"
  for env :: "'b sdk" and authority
proof unfold_locales
  fix h and s s' :: "'b cp_state" and m u
  show "cp_init env h s \<Longrightarrow> cp_inv env s" by (rule cp_init_inv)
  show "0 \<le> h \<Longrightarrow> h < 2 ^ 63 \<Longrightarrow> cp_inv env s \<Longrightarrow> True \<Longrightarrow> cp_handle env authority h m s = Done s' u \<Longrightarrow> cp_inv env s'"
    by (rule cp_handle_kept)
  show "cp_inv env s \<Longrightarrow> cp_begin_block (h + 1) s = Done s' u \<Longrightarrow> cp_inv env s'"
    by (auto simp: cp_begin_block_def process_pot_expiry_kept)
  show "cp_inv env s \<Longrightarrow> cp_others s s' \<Longrightarrow> cp_inv env s'"
    by (auto simp: cp_others_def intro: cp_inv_frame)
  show "\<exists>s'. cp_begin_block (h + 1) s = Done s' ()" by (simp add: cp_begin_block_def)
qed

abbreviation cp_reachable :: "'b sdk \<Rightarrow> string \<Rightarrow> int \<Rightarrow> 'b cp_state \<Rightarrow> bool" where
  "cp_reachable env authority \<equiv>
     chain_reachable (cp_init env) (cp_handle env authority) (\<lambda>s m. True) cp_begin_block cp_others"

end
