(* ===== verification/Claiming_Pot_Claims.thy ===== *)
theory Claiming_Pot_Claims
  imports Claiming_Pot_Chain
begin

text \<open>
  The properties of x/claiming_pot: the lifetime budget holds in every reachable state, and a claim is exact.
\<close>

section \<open>Sums over the stores\<close>

lemma kv_sum_mono: "(\<And>k v. (k, v) \<in> set m \<Longrightarrow> f v \<le> g v) \<Longrightarrow> kv_sum f m \<le> kv_sum g m"
  unfolding kv_sum_def by (rule sum_list_mono) auto

lemma kv_sum_scale: "kv_sum (\<lambda>v. f v * c) m = kv_sum f m * (c :: int)"
  by (simp add: kv_sum_def sum_list_mult_const)

lemma kv_sum_filter_values:
  "kv_sum (\<lambda>v. if P v then f v else 0) m = sum_list (map f (filter P (map snd m)))"
  unfolding kv_sum_def by (induction m) auto

lemma entry_stored: "kv_ok (cp_pots s) \<Longrightarrow> (k, pot) \<in> set (cp_pots s) \<Longrightarrow> get_pot s k = Some pot"
  by (simp add: get_pot_def kv_get_mem)

text \<open>
  C38: In every reachable state the units committed by the pots never exceed the lifetime counter, the counter times
  222,000 never exceeds the emission cap, all that was ever claimed fits under the cap, and every pot's claimed
  amount is exactly the sum of its recorded claims and at most its total.
\<close>

theorem cp_lifetime_budget:
  assumes "cp_reachable env authority h s"
  shows "sum_list (map units_of (get_all_pots s)) \<le> uint (cp_units s) \<and>
    uint (cp_units s) * per_agent_uzrn \<le> emission_cap (get_cp_params s) \<and>
    sum_list (map (\<lambda>pot. int_or_zero (pot_claimed pot)) (get_all_pots s)) \<le> emission_cap (get_cp_params s) \<and>
    (\<forall>k pot. get_pot s k = Some pot \<longrightarrow>
       int_or_zero (pot_claimed pot) = claims_sum k (get_all_pot_claims s) \<and>
       0 \<le> int_or_zero (pot_claimed pot) \<and> int_or_zero (pot_claimed pot) \<le> int_or_zero (pot_total pot))"
proof -
  note inv = cp.reachable_inv [OF assms]
  note d = cp_invD [OF inv]
  have vals: "sum_list (map f (get_all_pots s)) = kv_sum f (cp_pots s)" for f :: "claiming_pot \<Rightarrow> int"
    by (simp add: get_all_pots_def kv_sum_def o_def)
  have "kv_sum (\<lambda>pot. int_or_zero (pot_claimed pot)) (cp_pots s) \<le> kv_sum (\<lambda>pot. units_of pot * per_agent_uzrn) (cp_pots s)"
  proof (rule kv_sum_mono)
    fix k pot
    assume "(k, pot) \<in> set (cp_pots s)"
    then have "validate_genesis_pot pot" using d(5) [OF entry_stored [OF d(2)]] by (auto simp: pot_ok_def)
    from valid_pot(3,5) [OF this] show "int_or_zero (pot_claimed pot) \<le> units_of pot * per_agent_uzrn" by linarith
  qed
  also have "\<dots> = kv_sum units_of (cp_pots s) * per_agent_uzrn" by (rule kv_sum_scale)
  also have "\<dots> \<le> uint (cp_units s) * per_agent_uzrn" using d(8) by (simp add: per_agent_uzrn_def)
  finally have "kv_sum (\<lambda>pot. int_or_zero (pot_claimed pot)) (cp_pots s) \<le> emission_cap (get_cp_params s)" using d(9) by linarith
  moreover have "int_or_zero (pot_claimed pot) = claims_sum k (get_all_pot_claims s) \<and>
      0 \<le> int_or_zero (pot_claimed pot) \<and> int_or_zero (pot_claimed pot) \<le> int_or_zero (pot_total pot)"
    if "get_pot s k = Some pot" for k pot
    using d(5) [OF that] valid_pot(2,3) [of pot]
    by (auto simp: pot_ok_def claimed_from_def claims_sum_def get_all_pot_claims_def kv_sum_filter_values)
  ultimately show ?thesis using d(8,9) unfolding vals by blast
qed

section \<open>A concrete chain\<close>

definition cp_wit_bank :: ledger where
  "cp_wit_bank = \<lparr>lg_balances = [], lg_supply = [(uzrn, 500)], lg_disabled = []\<rparr>"

definition cp_wit_vr :: "ledger vr_state" where
  "cp_wit_vr = wit_state\<lparr>vr_bank := cp_wit_bank\<rparr>"

definition cp_wit_empty :: "ledger cp_state" where
  "cp_wit_empty = \<lparr>cp_params_record = None, cp_counter = 0, cp_units = 0, cp_window = (0, 0), cp_pots = [], cp_active = [],
     cp_claims = [], cp_tiers = [], cp_vr = cp_wit_vr\<rparr>"

definition cp_wit_0 :: "ledger cp_state" where
  "cp_wit_0 = final_state (init_cp_genesis default_cp_genesis cp_wit_empty)"

definition cp_wit_1 :: "ledger cp_state" where
  "cp_wit_1 = deliver (cp_handle ledger_sdk ''zrn1gov'' 7) (MsgAddBootstrapEntry ''zrn1gov'' [''zrn1a'', ''zrn1b'']) cp_wit_0"

lemma cp_wit_reachable: "cp_reachable ledger_sdk ''zrn1gov'' 7 cp_wit_1"
proof -
  have "bech32_text ledger_sdk" by (simp add: bech32_text_def ledger_sdk_def ledger_account_def)
  moreover have "cp_fresh cp_wit_empty" by (simp add: cp_fresh_def cp_wit_empty_def)
  moreover have "validate_cp_genesis ledger_sdk default_cp_genesis" by code_simp
  moreover have "init_cp_genesis default_cp_genesis cp_wit_empty = Done cp_wit_0 ()" unfolding cp_wit_0_def by code_simp
  ultimately have "cp_init ledger_sdk 7 cp_wit_0" unfolding cp_init_def by blast
  then have "cp_reachable ledger_sdk ''zrn1gov'' 7 cp_wit_0" by (intro chain_reachable.start) auto
  then show ?thesis unfolding cp_wit_1_def by (rule chain_reachable.message) simp
qed

lemma cp_lifetime_budget_witness:
  "cp_reachable ledger_sdk ''zrn1gov'' 7 cp_wit_1 \<and> uint (cp_units cp_wit_1) = 2 \<and>
    2 * per_agent_uzrn \<le> emission_cap (get_cp_params cp_wit_1)"
proof -
  have "uint (cp_units cp_wit_1) = 2" by code_simp
  with cp_lifetime_budget [OF cp_wit_reachable] cp_wit_reachable show ?thesis by simp
qed

section \<open>Claims\<close>

text \<open>
  C39: An accepted claim mints and forwards one positive amount: never more than what is vested, what the pot has left
  or what the supply cap allows; the claimer gains exactly it and every other balance stays, the supply ends within
  the cap; the pot records it, no other pot changes, and the same address never claims from that pot again.
\<close>

theorem cp_claim_is_exact:
  assumes "cp_reachable env authority h s" "sdk_laws env" "claim_pot env h claimant k s = Done s' r"
  shows "\<exists>pot addr y. get_pot s k = Some pot \<and> pot_status_of pot = POT_STATUS_ACTIVE \<and> get_pot_claim s k claimant = None \<and>
    acc_address env claimant = Some addr \<and> r = big_string y \<and> 0 < y \<and>
    y = min (min (calculate_claimable pot (to_u64 h)) (int_or_zero (pot_total pot) - int_or_zero (pot_claimed pot)))
      (max_supply_uzrn - bank_supply env (cp_bank s) uzrn) \<and>
    bank_supply env (cp_bank s') uzrn = bank_supply env (cp_bank s) uzrn + y \<and>
    bank_supply env (cp_bank s') uzrn \<le> max_supply_uzrn \<and>
    (\<forall>a. bank_balance env (cp_bank s') a uzrn = bank_balance env (cp_bank s) a uzrn + (if a = addr then y else 0)) \<and>
    (\<forall>a d. d \<noteq> uzrn \<longrightarrow> bank_balance env (cp_bank s') a d = bank_balance env (cp_bank s) a d) \<and>
    get_pot s' k = Some (paid_pot y pot) \<and> (\<forall>j. j \<noteq> k \<longrightarrow> get_pot s' j = get_pot s j) \<and>
    (\<forall>h'. \<not> succeeded (claim_pot env h' claimant k s'))"
  using assms(3)
proof (rule claim_pot_effect)
  fix pot x y addr coins v b
  assume addr: "acc_address env claimant = Some addr" and pot: "get_pot s k = Some pot" "pot_status_of pot = POT_STATUS_ACTIVE"
    "get_pot_claim s k claimant = None"
    and x: "x = min (calculate_claimable pot (to_u64 h)) (int_or_zero (pot_total pot) - int_or_zero (pot_claimed pot))" "0 < x"
    and mint: "mint_with_cap env cp_module_name x (cp_vr s) = Done v y" and y: "0 < y"
    and send: "new_coins env [(uzrn, y)] = Some coins" "bank_to_account env cp_module_name addr coins (vr_bank v) = Done b ()"
    and r: "r = big_string y"
    and s': "s' = set_pot (paid_pot y pot) (set_pot_claim \<lparr>pc_pot_id = k, pc_claimant = claimant, pc_amount = big_string y,
       pc_claimed_at = to_u64 h\<rparr> (s\<lparr>cp_vr := v\<lparr>vr_bank := b\<rparr>\<rparr>))"
  note moved = bank_to_account_moved [OF assms(2) send(2)]
  have id: "pot_id pot = k" using cp_invD(5) [OF cp.reachable_inv [OF assms(1)] pot(1)] by (simp add: pot_ok_def)
  have bank: "cp_bank s' = b" by (simp add: s')
  have "bank_balance env b a uzrn = bank_balance env (cp_bank s) a uzrn + (if a = addr then y else 0)" for a
    using zrn_mint.conduit_balance [OF assms(2) mint, where w = "v\<lparr>vr_bank := b\<rparr>"] moved_balance [OF moved]
      single_coin_amount [OF send(1)] by simp
  moreover have "bank_balance env b a d = bank_balance env (cp_bank s) a d" if "d \<noteq> uzrn" for a d
    using mint_with_cap_effect [OF assms(2) mint] moved_balance [OF moved, of a d] single_coin_amount [OF send(1), of d] that
    by simp
  moreover have "bank_supply env b uzrn = bank_supply env (cp_bank s) uzrn + y"
    using zrn_mint.mint_effect [OF assms(2) mint] moved_supply [OF moved] by simp
  moreover have "bank_supply env b uzrn \<le> max_supply_uzrn"
    using zrn_mint.minted_clipped [OF assms(2) mint y] moved_supply [OF moved] by simp
  moreover have "y = min x (max_supply_uzrn - bank_supply env (cp_bank s) uzrn)"
    using zrn_mint.mint_effect [OF assms(2) mint] y by linarith
  moreover have get: "get_pot s' j = (if j = k then Some (paid_pot y pot) else get_pot s j)" for j
    by (simp add: s' id) (simp add: get_pot_def)
  moreover have "\<not> succeeded (claim_pot env h' claimant k s')" for h'
  proof
    assume "succeeded (claim_pot env h' claimant k s')"
    then obtain r' where "claim_pot env h' claimant k s' = Done (final_state (claim_pot env h' claimant k s')) r'"
      by (blast dest: succeeded_Done)
    then have "get_pot_claim s' k claimant = None" by (rule claim_pot_effect)
    then show False by (simp add: s' get_pot_claim_def set_pot_claim_def)
  qed
  ultimately show ?thesis unfolding bank using addr pot y r x(1) by auto
qed

definition cp_wit_2 :: "ledger cp_state" where
  "cp_wit_2 = process_pot_expiry 8 cp_wit_1"

lemma cp_wit_reachable_2: "cp_reachable ledger_sdk ''zrn1gov'' 8 cp_wit_2"
proof -
  have "cp_begin_block (7 + 1) cp_wit_1 = Done cp_wit_2 ()" by (simp add: cp_begin_block_def cp_wit_2_def to_u64_def)
  from chain_reachable.block [OF cp_wit_reachable _ this] show ?thesis by simp
qed

definition cp_wit_pot :: claiming_pot where
  "cp_wit_pot = make_bootstrap_pot ''zrn1a'' 7"

lemma claim_pot_runs:
  assumes "validate_pot_claim_msg env claimant k" "get_pot s k = Some pot" "pot_status_of pot = POT_STATUS_ACTIVE"
    "check_eligibility h claimant pot s = Inr ()" "get_pot_claim s k claimant = None"
    "calculate_claimable pot (to_u64 h) = x" "0 < x" "int_or_zero (min_claim_amount (get_cp_params s)) \<le> x"
    "x \<le> int_or_zero (pot_total pot) - int_or_zero (pot_claimed pot)" "acc_address env claimant = Some addr"
    "mint_with_cap env cp_module_name x (cp_vr s) = Done v x" "new_coins env [(uzrn, x)] = Some coins"
    "bank_to_account env cp_module_name addr coins (vr_bank v) = Done b ()"
  shows "\<exists>s' r. claim_pot env h claimant k s = Done s' r"
proof -
  have "\<exists>s' r. settle_claim env h claimant k pot x s = Done s' r"
    using assms(7,10-13) by (simp add: settle_claim_def mint_for_claim_def Let_def on_bank_def cp_with_bank_def)
  then show ?thesis using assms(1-9) by (simp add: claim_pot_def Let_def)
qed

lemma cp_wit_claim_parts:
  "validate_pot_claim_msg ledger_sdk ''zrn1a'' ''bootstrap-zrn1a''" "get_pot cp_wit_2 ''bootstrap-zrn1a'' = Some cp_wit_pot"
  "pot_status_of cp_wit_pot = POT_STATUS_ACTIVE" "check_eligibility 8 ''zrn1a'' cp_wit_pot cp_wit_2 = Inr ()"
  "get_pot_claim cp_wit_2 ''bootstrap-zrn1a'' ''zrn1a'' = None" "calculate_claimable cp_wit_pot (to_u64 8) = 222000"
  "int_or_zero (min_claim_amount (get_cp_params cp_wit_2)) = 1000" "int_or_zero (pot_total cp_wit_pot) = 222000"
  "int_or_zero (pot_claimed cp_wit_pot) = 0" "acc_address ledger_sdk ''zrn1a'' = Some ''zrn1a''"
  by code_simp+

lemma succeeded_unit: "succeeded r \<Longrightarrow> r = Done (final_state r) ()"
  by (cases r) auto

lemma cp_wit_payment:
  "\<exists>v b. mint_with_cap ledger_sdk cp_module_name 222000 (cp_vr cp_wit_2) = Done v 222000 \<and>
     new_coins ledger_sdk [(uzrn, 222000)] = Some [(uzrn, 222000)] \<and>
     bank_to_account ledger_sdk cp_module_name ''zrn1a'' [(uzrn, 222000)] (vr_bank v) = Done b ()"
proof -
  let ?run = "mint_with_cap ledger_sdk cp_module_name 222000 (cp_vr cp_wit_2)"
  have "succeeded ?run" by code_simp
  then obtain y where run: "?run = Done (final_state ?run) y" by (blast dest: succeeded_Done)
  have "bank_supply ledger_sdk (vr_bank (cp_vr cp_wit_2)) uzrn = 500" by code_simp
  then have "y = 222000" using zrn_mint.mint_effect [OF ledger_laws run] by (simp add: max_supply_uzrn_def)
  moreover have "new_coins ledger_sdk [(uzrn, 222000)] = Some [(uzrn, 222000)]" by code_simp
  moreover
  have "succeeded (bank_to_account ledger_sdk cp_module_name ''zrn1a'' [(uzrn, 222000)] (vr_bank (final_state ?run)))"
    by code_simp
  note succeeded_unit [OF this]
  ultimately show ?thesis using run by blast
qed

lemma cp_claim_is_exact_witness:
  "\<exists>s' r. claim_pot ledger_sdk 8 ''zrn1a'' ''bootstrap-zrn1a'' cp_wit_2 = Done s' r \<and>
    bank_supply ledger_sdk (cp_bank s') uzrn \<le> max_supply_uzrn \<and>
    (\<forall>h'. \<not> succeeded (claim_pot ledger_sdk h' ''zrn1a'' ''bootstrap-zrn1a'' s'))"
proof -
  from cp_wit_payment obtain v b where pay: "mint_with_cap ledger_sdk cp_module_name 222000 (cp_vr cp_wit_2) = Done v 222000"
    "new_coins ledger_sdk [(uzrn, 222000)] = Some [(uzrn, 222000)]"
    "bank_to_account ledger_sdk cp_module_name ''zrn1a'' [(uzrn, 222000)] (vr_bank v) = Done b ()" by blast
  have range: "(0 :: int) < 222000" "int_or_zero (min_claim_amount (get_cp_params cp_wit_2)) \<le> 222000"
    "222000 \<le> int_or_zero (pot_total cp_wit_pot) - int_or_zero (pot_claimed cp_wit_pot)"
    unfolding cp_wit_claim_parts(7-9) by simp_all
  have "\<exists>s' r. claim_pot ledger_sdk 8 ''zrn1a'' ''bootstrap-zrn1a'' cp_wit_2 = Done s' r"
    by (rule claim_pot_runs [OF cp_wit_claim_parts(1-6) range cp_wit_claim_parts(10) pay])
  then obtain s' r where run: "claim_pot ledger_sdk 8 ''zrn1a'' ''bootstrap-zrn1a'' cp_wit_2 = Done s' r" by blast
  from cp_claim_is_exact [OF cp_wit_reachable_2 ledger_laws run]
  have "bank_supply ledger_sdk (cp_bank s') uzrn \<le> max_supply_uzrn \<and>
    (\<forall>h'. \<not> succeeded (claim_pot ledger_sdk h' ''zrn1a'' ''bootstrap-zrn1a'' s'))"
    by (elim exE conjE) (intro conjI, assumption+)
  with run have "claim_pot ledger_sdk 8 ''zrn1a'' ''bootstrap-zrn1a'' cp_wit_2 = Done s' r \<and>
    bank_supply ledger_sdk (cp_bank s') uzrn \<le> max_supply_uzrn \<and>
    (\<forall>h'. \<not> succeeded (claim_pot ledger_sdk h' ''zrn1a'' ''bootstrap-zrn1a'' s'))" by (rule conjI)
  then show ?thesis by (intro exI)
qed

section \<open>General pots at their end block\<close>

text \<open>
  A general pot whose end block is reached is expired by the hook before any message of that block runs, so nobody
  can claim the part that vests with the last block.
\<close>

lemma expired_get:
  "get_pot (fold (\<lambda>p. set_pot (p\<lparr>pot_status_of := POT_STATUS_EXPIRED\<rparr>)) pots s) k =
     (case find (\<lambda>p. pot_id p = k) (rev pots) of None \<Rightarrow> get_pot s k | Some p \<Rightarrow> Some (p\<lparr>pot_status_of := POT_STATUS_EXPIRED\<rparr>))"
  by (induction pots arbitrary: s) (auto simp: find_append_split split: option.split)

lemma general_pot_never_fully_vests:
  assumes "cp_inv env s" "get_pot s k = Some pot" "pot_schedule_of pot = Some sch" "cut_prefix bootstrap_prefix k = None"
    "ps_end_block sch \<le> to_u64 h"
  shows "\<not> succeeded (claim_pot env h claimant k (process_pot_expiry (to_u64 h) s))"
proof
  let ?t = "process_pot_expiry (to_u64 h) s" and ?due = "List.map_filter (pot_due (to_u64 h) s) (map fst (cp_active s))"
  have id: "pot_id pot = k" using cp_invD(5) [OF assms(1,2)] by (simp add: pot_ok_def)
  assume "succeeded (claim_pot env h claimant k ?t)"
  then obtain q where q: "get_pot ?t k = Some q" "pot_status_of q = POT_STATUS_ACTIVE"
    by (blast dest: succeeded_Done elim: claim_pot_effect)
  then have none: "find (\<lambda>p. pot_id p = k) (rev ?due) = None" "q = pot"
    using assms(2) by (auto simp: process_pot_expiry_def expired_get split: option.splits)
  have "pot_due (to_u64 h) s k = Some pot" using assms(2-5) q(2) none(2) by (simp add: pot_due_def)
  moreover have "k \<in> set (map fst (cp_active s))"
    using cp_invD(6) [OF assms(1), of k] assms(2) q(2) none(2) by (auto dest: kv_get_in_set intro: rev_image_eqI)
  ultimately have "pot \<in> set ?due" by (auto simp: set_map_filter)
  with none(1) id show False by (auto simp: find_None_iff)
qed

end
