(* ===== verification/KR_Types.thy ===== *)
theory KR_Types
  imports Bank Go_Text
begin

text \<open>
  x/knowledge, the review protocol: the records of a verification round and of its frozen payments, and
  the validation of what a round may hold (types/{review_commitment,commitment,verifier_settlement,
  fund_settlement,review_policy,validate}.go, types/types.pb.go).

  Strings are byte strings.  Decoded protobuf messages carry no unknown fields and no nil list entries,
  so those checks have no counterpart here.
\<close>

section \<open>Environment\<close>

text \<open>
  The bech32 text of an address and SHA-256 are functions the code calls; what the theorems need of them
  is stated there.
\<close>

record 'b review_env =
  re_sdk :: "'b sdk"
  re_bech32 :: "addr \<Rightarrow> string"                          \<comment> \<open>\<open>AccAddress.String\<close>\<close>
  re_bech32_data :: "string \<Rightarrow> string option"           \<comment> \<open>\<open>bech32.DecodeAndConvert\<close>, the data bytes under any prefix\<close>
  re_digest :: "string \<Rightarrow> string"                       \<comment> \<open>\<open>sha256.Sum256\<close>\<close>

section \<open>Records\<close>

datatype verification_phase =
    PHASE_UNSPECIFIED | PHASE_COMMIT | PHASE_REVEAL | PHASE_AGGREGATION | PHASE_COMPLETE | PHASE_EXPIRED

datatype verdict = VERDICT_UNSPECIFIED | VERDICT_ACCEPT | VERDICT_REJECT | VERDICT_INCONCLUSIVE | VERDICT_MALFORMED

datatype claim_funding_kind = FUNDING_UNSPECIFIED | FUNDING_REVIEW_FEE | FUNDING_CHALLENGE_DEPOSIT

datatype relation_type =
    REL_UNSPECIFIED | REL_SUPPORTS | REL_CONTRADICTS | REL_REQUIRES | REL_REFINES | REL_GENERALIZES | REL_SUPERSEDES
  | REL_CITES | REL_REFORMULATES

text \<open>The phases are numbered in the order of a round's life, and the code compares the numbers.\<close>

fun phase_rank :: "verification_phase \<Rightarrow> nat" where
  "phase_rank PHASE_UNSPECIFIED = 0"
| "phase_rank PHASE_COMMIT = 1"
| "phase_rank PHASE_REVEAL = 2"
| "phase_rank PHASE_AGGREGATION = 3"
| "phase_rank PHASE_COMPLETE = 4"
| "phase_rank PHASE_EXPIRED = 5"

lemma phase_rank_inj [simp]: "phase_rank p = phase_rank q \<longleftrightarrow> p = q"
  by (cases p; cases q) simp_all

instantiation verification_phase :: linorder
begin

definition less_eq_verification_phase :: "verification_phase \<Rightarrow> verification_phase \<Rightarrow> bool" where
  "less_eq_verification_phase p q \<longleftrightarrow> phase_rank p \<le> phase_rank q"

definition less_verification_phase :: "verification_phase \<Rightarrow> verification_phase \<Rightarrow> bool" where
  "less_verification_phase p q \<longleftrightarrow> phase_rank p < phase_rank q"

instance
  by intro_classes (auto simp: less_eq_verification_phase_def less_verification_phase_def)

end

record review_attestation =
  at_method_id :: string
  at_reason :: string
  at_evidence_ids :: "string list"
  at_scope :: string

record commit_entry =
  cm_verifier :: string
  cm_hash :: string
  cm_at_block :: u64

record reveal_entry =
  rv_verifier :: string
  rv_vote :: string
  rv_salt :: string
  rv_at_block :: u64
  rv_confidence :: u64
  rv_attestation :: "review_attestation option"

record reward_payment =
  rp_verifier :: string
  rp_amount :: string
  rp_withheld :: string

record reward_plan =
  wp_created_at :: u64
  wp_payments :: "reward_payment list"
  wp_withheld_total :: string
  wp_paid_at :: u64

record refund_plan =
  rf_recipient :: string
  rf_amount :: string
  rf_created_at :: u64
  rf_paid_at :: u64

record verification_round =
  rd_id :: string
  rd_claim_id :: string
  rd_started_at :: u64
  rd_phase :: verification_phase
  rd_selected :: "string list"
  rd_commits :: "commit_entry list"
  rd_reveals :: "reveal_entry list"
  rd_verdict :: verdict
  rd_verdict_block :: u64
  rd_commit_deadline :: u64
  rd_reveal_deadline :: u64
  rd_aggregation_deadline :: u64
  rd_scheme :: u32
  rd_chain_id :: string
  rd_rewards :: "reward_plan option"
  rd_policy :: u32
  rd_refund :: "refund_plan option"

datatype claim_status =
    CLAIM_UNSPECIFIED | CLAIM_PENDING | CLAIM_PENDING_EVALUATION | CLAIM_EVALUATED | CLAIM_PROVISIONAL
  | CLAIM_IN_VERIFICATION | CLAIM_ACCEPTED | CLAIM_REJECTED | CLAIM_CHALLENGED | CLAIM_EXPIRED | CLAIM_INSUFFICIENT
  | CLAIM_CONTESTED | CLAIM_MALFORMED

record funding_terms =
  ft_policy_version :: u32
  ft_kind :: claim_funding_kind
  ft_paid :: string
  ft_review_budget :: string
  ft_refundable :: string
  ft_retained :: string

record claim_relation =
  rel_target :: string
  rel_kind :: relation_type

text \<open>The fields of a claim that its admission and its review read or write.\<close>

record review_claim =
  kc_id :: string
  kc_domain :: string
  kc_submitter :: string
  kc_round_id :: string
  kc_status :: claim_status
  kc_content_hash :: string
  kc_canonical_hash :: string
  kc_stake :: string
  kc_provisional_fact :: string
  kc_relations :: "claim_relation list"
  kc_policy :: u32
  kc_funding :: "funding_terms option"

text \<open>The module parameters that the review reads.\<close>

record review_params =
  kp_commit_blocks :: u64
  kp_reveal_blocks :: u64
  kp_aggregation_blocks :: u64
  kp_min_verifiers :: u64
  kp_confidence_threshold :: u64
  kp_min_headcount :: u64
  kp_max_confidence :: u64
  kp_verification_reward :: string
  kp_missed_reveal_bps :: u64
  kp_wrong_verdict_bps :: u64
  kp_independence_bps :: u64
  kp_agent_bonus_bps :: u64
  kp_role_min_calls :: u64
  kp_role_max_bps :: u64
  kp_role_min_bps :: u64
  kp_min_challenge_stake :: string
  kp_challenge_scaling_bps :: u64

section \<open>Constants\<close>

definition scheme_legacy :: u32 where "scheme_legacy = 0"
definition scheme_review_v2 :: u32 where "scheme_review_v2 = 2"
definition policy_legacy :: u32 where "policy_legacy = 0"
definition policy_neutral :: u32 where "policy_neutral = 1"
definition commit_seat_hard_cap :: nat where "commit_seat_hard_cap = 512"
definition bps_scale :: u64 where "bps_scale = 1000000"
definition vote_accept :: string where "vote_accept = ''accept''"
definition vote_reject :: string where "vote_reject = ''reject''"
definition vote_malformed :: string where "vote_malformed = ''malformed''"

lemmas review_constants = scheme_legacy_def scheme_review_v2_def policy_legacy_def policy_neutral_def

section \<open>Text\<close>

text \<open>\<open>utf8.ValidString\<close>: the byte sequences of the table in unicode/utf8.\<close>

definition cont_byte :: "nat \<Rightarrow> nat \<Rightarrow> nat \<Rightarrow> bool" where
  "cont_byte lo hi b \<longleftrightarrow> lo \<le> b \<and> b \<le> hi"

fun utf8_bytes :: "nat list \<Rightarrow> bool" where
  "utf8_bytes [] = True"
| "utf8_bytes (b # bs) =
     (if b < 128 then utf8_bytes bs
      else if cont_byte 194 223 b then (case bs of c # r \<Rightarrow> cont_byte 128 191 c \<and> utf8_bytes r | _ \<Rightarrow> False)
      else if cont_byte 224 239 b then
        (case bs of c # d # r \<Rightarrow>
           cont_byte (if b = 224 then 160 else 128) (if b = 237 then 159 else 191) c \<and> cont_byte 128 191 d \<and> utf8_bytes r
         | _ \<Rightarrow> False)
      else if cont_byte 240 244 b then
        (case bs of c # d # e # r \<Rightarrow>
           cont_byte (if b = 240 then 144 else 128) (if b = 244 then 143 else 191) c \<and> cont_byte 128 191 d \<and>
           cont_byte 128 191 e \<and> utf8_bytes r
         | _ \<Rightarrow> False)
      else False)"

definition valid_utf8 :: "string \<Rightarrow> bool" where
  "valid_utf8 s = utf8_bytes (map of_char s)"

text \<open>\<open>strings.TrimSpace(s) == ""\<close> of a valid text: every character is a Unicode space.\<close>

fun blank_bytes :: "nat list \<Rightarrow> bool" where
  "blank_bytes [] = True"
| "blank_bytes (b # bs) =
     (if 9 \<le> b \<and> b \<le> 13 \<or> b = 32 then blank_bytes bs
      else if b = 194 then (case bs of c # r \<Rightarrow> (c = 133 \<or> c = 160) \<and> blank_bytes r | _ \<Rightarrow> False)
      else if b = 225 then (case bs of c # d # r \<Rightarrow> c = 154 \<and> d = 128 \<and> blank_bytes r | _ \<Rightarrow> False)
      else if b = 226 then
        (case bs of c # d # r \<Rightarrow>
           (c = 128 \<and> (128 \<le> d \<and> d \<le> 138 \<or> d = 168 \<or> d = 169 \<or> d = 175) \<or> c = 129 \<and> d = 159) \<and> blank_bytes r
         | _ \<Rightarrow> False)
      else if b = 227 then (case bs of c # d # r \<Rightarrow> c = 128 \<and> d = 128 \<and> blank_bytes r | _ \<Rightarrow> False)
      else False)"

definition blank_text :: "string \<Rightarrow> bool" where
  "blank_text s = blank_bytes (map of_char s)"

definition record_text :: "string \<Rightarrow> nat \<Rightarrow> bool \<Rightarrow> bool" where
  "record_text s max_bytes required \<longleftrightarrow> valid_utf8 s \<and> length s \<le> max_bytes \<and> (required \<longrightarrow> \<not> blank_text s)"

definition evidence_references :: "string list \<Rightarrow> bool" where
  "evidence_references refs \<longleftrightarrow> length refs \<le> 16 \<and> list_all (\<lambda>r. record_text r 256 True) refs \<and> distinct refs"

definition valid_attestation :: "review_attestation option \<Rightarrow> bool" where
  "valid_attestation ao \<longleftrightarrow> (case ao of None \<Rightarrow> False
   | Some a \<Rightarrow>
       record_text (at_reason a) 4096 True \<and> record_text (at_method_id a) 128 False \<and> record_text (at_scope a) 1024 False \<and>
       evidence_references (at_evidence_ids a) \<and>
       length (at_method_id a) + length (at_reason a) + length (at_scope a) + sum_list (map length (at_evidence_ids a)) \<le> 8192)"

definition canonical_review_address :: "'b review_env \<Rightarrow> string \<Rightarrow> addr option" where
  "canonical_review_address env v = (case acc_address (re_sdk env) v of
     None \<Rightarrow> None | Some a \<Rightarrow> if re_bech32 env a = v then Some a else None)"

section \<open>Commitments\<close>

definition be32_text :: "nat \<Rightarrow> string" where
  "be32_text n = map (\<lambda>d. char_of (int n div d)) [16777216, 65536, 256, 1]"

definition be64_text :: "u64 \<Rightarrow> string" where
  "be64_text w = map (\<lambda>d. char_of (uint w div d))
     [72057594037927936, 281474976710656, 1099511627776, 4294967296, 16777216, 65536, 256, 1]"

text \<open>A field behind its length.\<close>

definition put_field :: "string \<Rightarrow> string" where
  "put_field v = be32_text (length v) @ v"

definition review_tag :: string where
  "review_tag = ''ZRN.review.commit.v2'' @ [CHR 0x00]"

definition review_preimage :: "string \<Rightarrow> string \<Rightarrow> addr \<Rightarrow> string \<Rightarrow> u64 \<Rightarrow> string \<Rightarrow> review_attestation \<Rightarrow> string" where
  "review_preimage chain k a vote conf salt att =
     review_tag @ put_field chain @ put_field k @ put_field a @ put_field vote @ be64_text conf @ put_field salt @
     put_field (at_method_id att) @ put_field (at_reason att) @ put_field (at_scope att) @
     be32_text (length (at_evidence_ids att)) @ concat (map put_field (at_evidence_ids att))"

definition known_vote :: "string \<Rightarrow> bool" where
  "known_vote v \<longleftrightarrow> v = vote_accept \<or> v = vote_reject \<or> v = vote_malformed"

definition review_commitment ::
  "'b review_env \<Rightarrow> string \<Rightarrow> string \<Rightarrow> string \<Rightarrow> string \<Rightarrow> u64 \<Rightarrow> string \<Rightarrow> review_attestation option \<Rightarrow> string option" where
  "review_commitment env chain k verifier vote conf salt ao =
     (if \<not> record_text chain 256 True \<or> \<not> record_text k 256 True then None
      else case canonical_review_address env verifier of None \<Rightarrow> None
      | Some a \<Rightarrow>
          if \<not> known_vote vote \<or> bps_scale < conf \<or> length salt < 16 \<or> 64 < length salt \<or> \<not> valid_attestation ao then None
          else case ao of None \<Rightarrow> None
          | Some att \<Rightarrow> Some (re_digest env (review_preimage chain k a vote conf salt att)))"

text \<open>The historical scheme: a text with separators, and no reviewer in it.\<close>

definition hex_digit :: "nat \<Rightarrow> char" where
  "hex_digit n = (if n < 10 then char_of (48 + n) else char_of (87 + n))"

definition hex_text :: "string \<Rightarrow> string" where
  "hex_text s = concat (map (\<lambda>c. [hex_digit (of_char c div 16), hex_digit (of_char c mod 16)]) s)"

definition legacy_commitment :: "'b review_env \<Rightarrow> string \<Rightarrow> string \<Rightarrow> u64 \<Rightarrow> string \<Rightarrow> string" where
  "legacy_commitment env k vote conf salt =
     re_digest env (''ZRN.commit.v1:'' @ k @ '':'' @ vote @ '':'' @ format_u64 conf @ '':'' @ hex_text salt)"

definition valid_review_policy :: "u32 \<Rightarrow> bool \<Rightarrow> bool" where
  "valid_review_policy v enabled \<longleftrightarrow> v = policy_legacy \<or> v = policy_neutral \<and> enabled"

section \<open>Frozen payments\<close>

definition settlement_amount :: "string \<Rightarrow> u64 option" where
  "settlement_amount v = (case parse_uint v of None \<Rightarrow> None | Some n \<Rightarrow> if format_u64 n = v then Some n else None)"

definition plan_heights_ok :: "u64 \<Rightarrow> u64 \<Rightarrow> u64 \<Rightarrow> bool" where
  "plan_heights_ok created paid verdict_block \<longleftrightarrow>
     created \<noteq> 0 \<and> created = verdict_block \<and> (paid \<noteq> 0 \<longrightarrow> created \<le> paid)"

text \<open>The loop over the payments: distinct canonical recipients, and sums that never wrap.\<close>

fun plan_totals :: "'b review_env \<Rightarrow> string list \<Rightarrow> reward_payment list \<Rightarrow> u64 \<Rightarrow> u64 \<Rightarrow> (u64 \<times> u64) option" where
  "plan_totals env seen [] amounts withheld = Some (amounts, withheld)"
| "plan_totals env seen (p # ps) amounts withheld =
     (if rp_verifier p \<in> set seen \<or> canonical_review_address env (rp_verifier p) = None then None
      else case (settlement_amount (rp_amount p), settlement_amount (rp_withheld p)) of
        (Some a, Some w) \<Rightarrow>
          if max_u64 - w < a \<or> max_u64 - a - w < amounts \<or> max_u64 - w < withheld then None
          else plan_totals env (rp_verifier p # seen) ps (amounts + (a + w)) (withheld + w)
      | _ \<Rightarrow> None)"

definition valid_reward_plan :: "'b review_env \<Rightarrow> verification_round \<Rightarrow> bool" where
  "valid_reward_plan env r \<longleftrightarrow> (case rd_rewards r of None \<Rightarrow> True
   | Some plan \<Rightarrow>
       rd_id r \<noteq> [] \<and> rd_claim_id r \<noteq> [] \<and> rd_phase r = PHASE_COMPLETE \<and>
       plan_heights_ok (wp_created_at plan) (wp_paid_at plan) (rd_verdict_block r) \<and>
       wp_payments plan \<noteq> [] \<and> length (wp_payments plan) \<le> commit_seat_hard_cap \<and>
       (case (settlement_amount (wp_withheld_total plan), plan_totals env [] (wp_payments plan) 0 0) of
          (Some total_withheld, Some (amounts, withheld)) \<Rightarrow> amounts \<noteq> 0 \<and> withheld = total_withheld
        | _ \<Rightarrow> False))"

definition funded_terminal :: "verdict \<Rightarrow> bool" where
  "funded_terminal v \<longleftrightarrow> v \<noteq> VERDICT_UNSPECIFIED"

definition valid_refund_plan :: "'b review_env \<Rightarrow> verification_round \<Rightarrow> bool" where
  "valid_refund_plan env r \<longleftrightarrow> (case rd_refund r of None \<Rightarrow> True
   | Some plan \<Rightarrow>
       rd_id r \<noteq> [] \<and> rd_claim_id r \<noteq> [] \<and> rd_phase r = PHASE_COMPLETE \<and> funded_terminal (rd_verdict r) \<and>
       plan_heights_ok (rf_created_at plan) (rf_paid_at plan) (rd_verdict_block r) \<and>
       canonical_review_address env (rf_recipient plan) \<noteq> None \<and>
       (case settlement_amount (rf_amount plan) of None \<Rightarrow> False | Some a \<Rightarrow> a \<noteq> 0))"

text \<open>An existing plan only ever goes from unpaid to paid.\<close>

definition reward_plan_update_ok :: "verification_round option \<Rightarrow> verification_round \<Rightarrow> bool" where
  "reward_plan_update_ok before after \<longleftrightarrow> (case before of None \<Rightarrow> True
   | Some b \<Rightarrow> (case rd_rewards b of None \<Rightarrow> True
     | Some old \<Rightarrow> (case rd_rewards after of None \<Rightarrow> False
       | Some new \<Rightarrow> (wp_paid_at old \<noteq> 0 \<longrightarrow> wp_paid_at new = wp_paid_at old) \<and>
           old\<lparr>wp_paid_at := 0\<rparr> = new\<lparr>wp_paid_at := 0\<rparr>)))"

definition refund_plan_update_ok :: "verification_round option \<Rightarrow> verification_round \<Rightarrow> bool" where
  "refund_plan_update_ok before after \<longleftrightarrow> (case before of None \<Rightarrow> True
   | Some b \<Rightarrow> (case rd_refund b of None \<Rightarrow> True
     | Some old \<Rightarrow> (case rd_refund after of None \<Rightarrow> False
       | Some new \<Rightarrow> (rf_paid_at old \<noteq> 0 \<longrightarrow> rf_paid_at new = rf_paid_at old) \<and>
           old\<lparr>rf_paid_at := 0\<rparr> = new\<lparr>rf_paid_at := 0\<rparr>)))"

section \<open>Rounds\<close>

definition neutral_windows_ok :: "verification_round \<Rightarrow> bool" where
  "neutral_windows_ok r \<longleftrightarrow>
     rd_started_at r < rd_commit_deadline r \<and> rd_commit_deadline r < rd_reveal_deadline r \<and>
     rd_reveal_deadline r < rd_aggregation_deadline r \<and>
     list_all (\<lambda>c. rd_started_at r \<le> cm_at_block c \<and> cm_at_block c < rd_commit_deadline r) (rd_commits r) \<and>
     list_all (\<lambda>v. rd_commit_deadline r \<le> rv_at_block v \<and> rv_at_block v < rd_reveal_deadline r) (rd_reveals r)"

definition find_commit :: "commit_entry list \<Rightarrow> string \<Rightarrow> commit_entry option" where
  "find_commit cs v = find (\<lambda>c. cm_verifier c = v) cs"

definition find_reveal :: "reveal_entry list \<Rightarrow> string \<Rightarrow> reveal_entry option" where
  "find_reveal rs v = find (\<lambda>r. rv_verifier r = v) rs"

definition reveal_opens :: "'b review_env \<Rightarrow> verification_round \<Rightarrow> reveal_entry \<Rightarrow> bool" where
  "reveal_opens env r v \<longleftrightarrow> (case find_commit (rd_commits r) (rv_verifier v) of None \<Rightarrow> False
   | Some c \<Rightarrow> review_commitment env (rd_chain_id r) (rd_id r) (rv_verifier v) (rv_vote v) (rv_confidence v) (rv_salt v)
       (rv_attestation v) = Some (cm_hash c))"

definition review_v2_ok :: "'b review_env \<Rightarrow> verification_round \<Rightarrow> bool" where
  "review_v2_ok env r \<longleftrightarrow>
     record_text (rd_chain_id r) 256 True \<and> record_text (rd_id r) 256 True \<and>
     length (rd_commits r) \<le> commit_seat_hard_cap \<and> length (rd_reveals r) \<le> commit_seat_hard_cap \<and>
     length (rd_selected r) \<le> commit_seat_hard_cap \<and>
     list_all (\<lambda>c. length (cm_hash c) = 32 \<and> canonical_review_address env (cm_verifier c) \<noteq> None) (rd_commits r) \<and>
     distinct (map cm_verifier (rd_commits r)) \<and>
     distinct (rd_selected r) \<and> set (rd_selected r) = cm_verifier ` set (rd_commits r) \<and>
     distinct (map rv_verifier (rd_reveals r)) \<and> list_all (reveal_opens env r) (rd_reveals r)"

definition legacy_round_ok :: "verification_round \<Rightarrow> bool" where
  "legacy_round_ok r \<longleftrightarrow> rd_chain_id r = [] \<and> list_all (\<lambda>v. rv_confidence v = 0 \<and> rv_attestation v = None) (rd_reveals r)"

definition valid_round :: "'b review_env \<Rightarrow> verification_round \<Rightarrow> bool \<Rightarrow> bool" where
  "valid_round env r enabled \<longleftrightarrow>
     rd_id r \<noteq> [] \<and> rd_claim_id r \<noteq> [] \<and> rd_phase r \<noteq> PHASE_UNSPECIFIED \<and> valid_review_policy (rd_policy r) True \<and>
     (rd_policy r = policy_neutral \<longrightarrow> enabled \<and> rd_scheme r = scheme_review_v2 \<and> neutral_windows_ok r) \<and>
     (if rd_scheme r = scheme_legacy then legacy_round_ok r
      else if rd_scheme r = scheme_review_v2 then enabled \<and> review_v2_ok env r
      else False) \<and>
     (rd_rewards r \<noteq> None \<longrightarrow> enabled) \<and> (rd_refund r \<noteq> None \<longrightarrow> enabled) \<and>
     valid_refund_plan env r \<and> valid_reward_plan env r"

section \<open>Claim funding\<close>

definition claim_review_budget :: "u64 \<Rightarrow> u64" where
  "claim_review_budget paid = paid div 100 * 55 + paid mod 100 * 55 div 100"

definition safe_mul_div :: "u64 \<Rightarrow> u64 \<Rightarrow> u64 \<Rightarrow> u64" where
  "safe_mul_div a b c = (if c = 0 then 0
     else let q = uint a * uint b div uint c in if q < 2 ^ 64 then word_of_int q else max_u64)"

definition verifier_pool_from_fee :: "u64 \<Rightarrow> u64" where
  "verifier_pool_from_fee fee = safe_mul_div fee 550000 1000000"

definition valid_funding_terms :: "'b review_env \<Rightarrow> review_claim \<Rightarrow> bool \<Rightarrow> bool" where
  "valid_funding_terms env c enabled \<longleftrightarrow> (case kc_funding c of None \<Rightarrow> True
   | Some t \<Rightarrow>
       enabled \<and> ft_policy_version t = 1 \<and> kc_policy c = policy_neutral \<and> record_text (kc_id c) 256 True \<and>
       canonical_review_address env (kc_submitter c) \<noteq> None \<and>
       (case (settlement_amount (ft_paid t), settlement_amount (ft_review_budget t), settlement_amount (ft_refundable t),
              settlement_amount (ft_retained t)) of
          (Some paid, Some review, Some refundable, Some retained) \<Rightarrow>
            paid \<noteq> 0 \<and> kc_stake c = ft_paid t \<and> review = claim_review_budget paid \<and>
            (case ft_kind t of
               FUNDING_REVIEW_FEE \<Rightarrow> refundable = 0 \<and> retained = paid - review
             | FUNDING_CHALLENGE_DEPOSIT \<Rightarrow> retained = 0 \<and> refundable = paid - review
             | FUNDING_UNSPECIFIED \<Rightarrow> False)
        | _ \<Rightarrow> False))"

definition funding_update_ok :: "'b review_env \<Rightarrow> review_claim option \<Rightarrow> review_claim \<Rightarrow> bool" where
  "funding_update_ok env before after \<longleftrightarrow> valid_funding_terms env after True \<and> (case before of None \<Rightarrow> True
   | Some b \<Rightarrow> kc_funding b = kc_funding after \<and>
       (kc_funding b \<noteq> None \<longrightarrow> kc_id b = kc_id after \<and> kc_submitter b = kc_submitter after \<and> kc_stake b = kc_stake after \<and>
         (kc_round_id b \<noteq> [] \<longrightarrow> kc_round_id b = kc_round_id after)))"

definition u64_of_amount :: "string \<Rightarrow> u64" where
  "u64_of_amount v = (case settlement_amount v of None \<Rightarrow> 0 | Some n \<Rightarrow> n)"

text \<open>Every unit of the review budget goes to a reviewer, in equal shares with the remainder to the first.\<close>

definition review_share :: "u64 \<Rightarrow> nat \<Rightarrow> nat \<Rightarrow> u64" where
  "review_share budget n i = budget div of_nat n + (if i = 0 then budget mod of_nat n else 0)"

definition funded_rewards_ok :: "u64 \<Rightarrow> verification_round \<Rightarrow> bool" where
  "funded_rewards_ok review r \<longleftrightarrow>
     (if rd_reveals r = [] \<or> review = 0 then rd_rewards r = None
      else case rd_rewards r of None \<Rightarrow> False
      | Some plan \<Rightarrow>
          length (wp_payments plan) = length (rd_reveals r) \<and> wp_withheld_total plan = ''0'' \<and>
          list_all (\<lambda>(i, p, v). rp_verifier p = rv_verifier v \<and> rp_withheld p = ''0'' \<and>
              rp_amount p = format_u64 (review_share review (length (rd_reveals r)) i))
            (zip [0..<length (rd_reveals r)] (zip (wp_payments plan) (rd_reveals r))))"

definition funded_refund_ok :: "review_claim \<Rightarrow> funding_terms \<Rightarrow> verification_round \<Rightarrow> bool" where
  "funded_refund_ok c t r \<longleftrightarrow>
     (let refund = u64_of_amount (ft_refundable t) + (if rd_reveals r = [] then u64_of_amount (ft_review_budget t) else 0)
      in if refund = 0 then rd_refund r = None
         else case rd_refund r of None \<Rightarrow> False
         | Some p \<Rightarrow> rf_recipient p = kc_submitter c \<and> rf_amount p = format_u64 refund)"

definition paid_together :: "verification_round \<Rightarrow> bool" where
  "paid_together r \<longleftrightarrow> (case (rd_rewards r, rd_refund r) of (Some p, Some q) \<Rightarrow> wp_paid_at p = rf_paid_at q | _ \<Rightarrow> True)"

definition valid_funding_round :: "'b review_env \<Rightarrow> review_claim option \<Rightarrow> verification_round \<Rightarrow> bool" where
  "valid_funding_round env co r \<longleftrightarrow> valid_refund_plan env r \<and>
     (case co of None \<Rightarrow> rd_refund r = None
      | Some c \<Rightarrow> (case kc_funding c of None \<Rightarrow> rd_refund r = None
        | Some t \<Rightarrow>
            valid_funding_terms env c True \<and> rd_claim_id r = kc_id c \<and>
            (kc_round_id c \<noteq> [] \<longrightarrow> kc_round_id c = rd_id r) \<and> rd_policy r = policy_neutral \<and> rd_scheme r = scheme_review_v2 \<and>
            valid_round env r True \<and>
            (if rd_phase r \<noteq> PHASE_COMPLETE then rd_phase r \<noteq> PHASE_EXPIRED \<and> rd_rewards r = None \<and> rd_refund r = None
             else funded_terminal (rd_verdict r) \<and> rd_verdict_block r \<noteq> 0 \<and>
               funded_rewards_ok (u64_of_amount (ft_review_budget t)) r \<and> funded_refund_ok c t r \<and> paid_together r)))"

definition has_pending_funds :: "verification_round \<Rightarrow> bool" where
  "has_pending_funds r \<longleftrightarrow>
     (case rd_rewards r of None \<Rightarrow> False | Some p \<Rightarrow> wp_paid_at p = 0) \<or>
     (case rd_refund r of None \<Rightarrow> False | Some p \<Rightarrow> rf_paid_at p = 0)"

definition pending_transfers :: "verification_round \<Rightarrow> nat" where
  "pending_transfers r =
     (case rd_rewards r of None \<Rightarrow> 0
      | Some p \<Rightarrow> if wp_paid_at p = 0 then length (wp_payments p) + (if wp_withheld_total p \<noteq> ''0'' then 1 else 0) else 0) +
     (case rd_refund r of None \<Rightarrow> 0 | Some p \<Rightarrow> if rf_paid_at p = 0 then 1 else 0)"

end
