(* ===== verification/KR_State.thy ===== *)
theory KR_State
  imports KR_Types Chain
begin

text \<open>
  x/knowledge, the review protocol: the state the review reads and writes, the round and claim setters, the
  opening of a round, and the commit and reveal handlers (keeper/{state,rounds,msg_server,confidence,
  claim_integrity_review,record_input,fire_activity,fund_settlement,review_neutrality_activation}.go).

  A store read cannot fail and a stored record decodes, so those error branches have no counterpart.  The
  keeper's optional collaborators are all wired, as app/app.go wires them; what they answer is part of the
  state, written by the rest of the chain.
\<close>

section \<open>State\<close>

record role_record =
  dr_agent_correct :: u64
  dr_agent_incorrect :: u64
  dr_human_correct :: u64
  dr_human_incorrect :: u64

record 'b kr_state =
  kr_rounds :: "(string, verification_round) kv"
  kr_claim_rounds :: "(string, string) kv"           \<comment> \<open>claim to its selected round\<close>
  kr_active :: "(string, unit) kv"
  kr_claims :: "(string, review_claim) kv"
  kr_content_index :: "(string, string) kv"
  kr_canonical_index :: "(string, string) kv"
  kr_pending :: "(string, unit) kv"                  \<comment> \<open>rounds whose frozen plans are unpaid\<close>
  kr_cursor :: "string option"
  kr_record_integrity :: bool
  kr_neutrality :: bool
  kr_fund_settlement :: bool
  kr_claim_integrity :: bool
  kr_params :: review_params
  kr_methods :: "string \<Rightarrow> bool"                      \<comment> \<open>registered methodologies\<close>
  kr_fact_submitter :: "string \<Rightarrow> string option"
  kr_independence :: "string \<Rightarrow> (u64 \<times> u64) option"   \<comment> \<open>a reviewer's votes and minority votes\<close>
  kr_override :: "string \<Rightarrow> (u32 \<times> u64) option"       \<comment> \<open>extra verifiers of a domain, and until when\<close>
  kr_roles :: "string \<Rightarrow> role_record option"
  kr_stake :: "string \<Rightarrow> u64 option"                 \<comment> \<open>x/staking \<open>GetEffectiveStake\<close>\<close>
  kr_account_type :: "string \<Rightarrow> string option"       \<comment> \<open>x/auth \<open>GetAccountType\<close>\<close>
  kr_qualified :: "string \<Rightarrow> string \<Rightarrow> bool option"    \<comment> \<open>x/qualification \<open>IsQualified\<close>\<close>
  kr_qualified_of :: "string \<Rightarrow> string list"         \<comment> \<open>x/qualification \<open>GetQualifiedValidators\<close>\<close>
  kr_stratum :: "string \<Rightarrow> string option"            \<comment> \<open>x/ontology \<open>GetStratumForDomain\<close>\<close>
  kr_ceiling :: "string \<Rightarrow> u64 option"               \<comment> \<open>x/ontology \<open>GetConfidenceCeiling\<close>\<close>
  kr_bank :: 'b

datatype review_error =
    ErrRoundNotFound | ErrRoundNotInCommitPhase | ErrRoundNotInRevealPhase | ErrNoCommitment | ErrRevealMismatch
  | ErrDuplicateCommitment | ErrDuplicateReveal | ErrEquivocation | ErrRoundSeatsFull | ErrUnqualifiedVerifier
  | ReviewErr string

type_synonym ('b, 'a) review_result = "('b kr_state, review_error, 'a) outcome"

definition require :: "bool \<Rightarrow> review_error \<Rightarrow> review_error + unit" where
  "require c e = (if c then Inr () else Inl e)"

lemma require_Inr [simp]: "require c e = Inr u \<longleftrightarrow> c"
  by (simp add: require_def)

section \<open>Reads\<close>

definition get_round :: "'b kr_state \<Rightarrow> string \<Rightarrow> verification_round option" where
  "get_round s k = kv_get (kr_rounds s) k"

definition get_round_checked :: "'b kr_state \<Rightarrow> string \<Rightarrow> review_error + verification_round" where
  "get_round_checked s k = (case get_round s k of None \<Rightarrow> Inl (ReviewErr ''round not found'')
   | Some r \<Rightarrow> if rd_id r \<noteq> k then Inl (ReviewErr ''key/id mismatch'') else Inr r)"

definition get_claim :: "'b kr_state \<Rightarrow> string \<Rightarrow> review_claim option" where
  "get_claim s k = kv_get (kr_claims s) k"

definition get_claim_checked :: "'b kr_state \<Rightarrow> string \<Rightarrow> review_error + review_claim option" where
  "get_claim_checked s k = (case get_claim s k of None \<Rightarrow> Inr None
   | Some c \<Rightarrow> if kc_id c \<noteq> k then Inl (ReviewErr ''claim identity'') else Inr (Some c))"

definition round_by_claim :: "'b kr_state \<Rightarrow> string \<Rightarrow> verification_round option" where
  "round_by_claim s k = (case kv_get (kr_claim_rounds s) k of None \<Rightarrow> None | Some i \<Rightarrow> get_round s i)"

text \<open>The rounds of the active index, in key order; an entry without a round is skipped.\<close>

definition active_rounds :: "'b kr_state \<Rightarrow> verification_round list" where
  "active_rounds s = List.map_filter (\<lambda>e. get_round s (fst e)) (kr_active s)"

definition claim_policy :: "'b kr_state \<Rightarrow> review_claim \<Rightarrow> review_error + u32" where
  "claim_policy s c =
     bind_sum (require (valid_review_policy (kc_policy c) (kr_neutrality s)) (ReviewErr ''review policy''))
       (\<lambda>_. bind_sum (require (kc_policy c = policy_neutral \<longrightarrow> kr_record_integrity s) (ReviewErr ''record integrity''))
         (\<lambda>_. Inr (kc_policy c)))"

definition policy_for_round :: "'b review_env \<Rightarrow> 'b kr_state \<Rightarrow> verification_round \<Rightarrow> review_error + u32" where
  "policy_for_round env s r =
     (if rd_policy r = policy_legacy then Inr policy_legacy
      else if rd_policy r \<noteq> policy_neutral then Inl (ReviewErr ''unsupported review policy'')
      else bind_sum (get_claim_checked s (rd_claim_id r)) (\<lambda>co.
        case co of None \<Rightarrow> Inl (ReviewErr ''review claim is missing'')
        | Some c \<Rightarrow> bind_sum (claim_policy s c) (\<lambda>policy.
            bind_sum (require (policy = rd_policy r \<and> rd_scheme r = scheme_review_v2) (ReviewErr ''policy mismatch''))
              (\<lambda>_. bind_sum (require (valid_round env r True) (ReviewErr ''round record'')) (\<lambda>_. Inr policy)))))"

section \<open>Setters\<close>

definition closed_phase :: "verification_phase \<Rightarrow> bool" where
  "closed_phase p \<longleftrightarrow> p = PHASE_COMPLETE \<or> p = PHASE_EXPIRED"

definition sync_active :: "verification_round \<Rightarrow> 'b kr_state \<Rightarrow> 'b kr_state" where
  "sync_active r s = s\<lparr>kr_active :=
     (if closed_phase (rd_phase r) then kv_del (rd_id r) (kr_active s) else kv_set (rd_id r) () (kr_active s))\<rparr>"

text \<open>What an update of a stored round may not change.\<close>

definition same_identity :: "verification_round \<Rightarrow> verification_round \<Rightarrow> bool" where
  "same_identity p r \<longleftrightarrow>
     rd_id p = rd_id r \<and> rd_claim_id p = rd_claim_id r \<and> rd_scheme p = rd_scheme r \<and> rd_chain_id p = rd_chain_id r \<and>
     rd_policy p = rd_policy r"

definition same_timing :: "verification_round \<Rightarrow> verification_round \<Rightarrow> bool" where
  "same_timing p r \<longleftrightarrow>
     rd_started_at p = rd_started_at r \<and> rd_commit_deadline p = rd_commit_deadline r \<and>
     rd_reveal_deadline p = rd_reveal_deadline r \<and> rd_aggregation_deadline p = rd_aggregation_deadline r"

definition extends_list :: "'x list \<Rightarrow> 'x list \<Rightarrow> bool" where
  "extends_list old new \<longleftrightarrow> length old \<le> length new \<and> take (length old) new = old"

definition reviews_extended :: "verification_round \<Rightarrow> verification_round \<Rightarrow> bool" where
  "reviews_extended p r \<longleftrightarrow>
     extends_list (rd_commits p) (rd_commits r) \<and> extends_list (rd_reveals p) (rd_reveals r) \<and>
     extends_list (rd_selected p) (rd_selected r)"

definition round_update_ok :: "'b review_env \<Rightarrow> verification_round \<Rightarrow> verification_round \<Rightarrow> bool" where
  "round_update_ok env p r \<longleftrightarrow>
     valid_round env p True \<and> same_identity p r \<and> (rd_policy r = policy_neutral \<longrightarrow> same_timing p r) \<and>
     (rd_scheme r = scheme_review_v2 \<longrightarrow> reviews_extended p r)"

definition validate_claim_funding :: "'b review_env \<Rightarrow> 'b kr_state \<Rightarrow> review_claim \<Rightarrow> bool" where
  "validate_claim_funding env s c \<longleftrightarrow> valid_funding_terms env c (kr_fund_settlement s)"

text \<open>The claim a round is written for: recorded, of the same policy, with acceptable funding terms.\<close>

definition round_claim :: "'b review_env \<Rightarrow> 'b kr_state \<Rightarrow> verification_round \<Rightarrow> review_error + review_claim option" where
  "round_claim env s r = (case get_claim s (rd_claim_id r) of
     None \<Rightarrow> if rd_policy r = policy_neutral then Inl (ReviewErr ''neutral round requires recorded claim'') else Inr None
   | Some c \<Rightarrow>
       if kc_id c \<noteq> rd_claim_id r \<or> kc_policy c \<noteq> rd_policy r then Inl (ReviewErr ''review policy mismatch'')
       else if \<not> validate_claim_funding env s c then Inl (ReviewErr ''claim funding'')
       else Inr (Some c))"

definition pre_integrity_round :: "verification_round \<Rightarrow> bool" where
  "pre_integrity_round r \<longleftrightarrow>
     rd_scheme r = scheme_legacy \<and> rd_chain_id r = [] \<and> rd_rewards r = None \<and>
     list_all (\<lambda>v. rv_attestation v = None \<and> rv_confidence v = 0) (rd_reveals r)"

definition set_round_legacy :: "verification_round \<Rightarrow> 'b kr_state \<Rightarrow> 'b kr_state" where
  "set_round_legacy r s =
     (let s = s\<lparr>kr_rounds := kv_set (rd_id r) r (kr_rounds s)\<rparr>;
          s = (if rd_claim_id r \<noteq> [] then s\<lparr>kr_claim_rounds := kv_set (rd_claim_id r) (rd_id r) (kr_claim_rounds s)\<rparr> else s)
      in sync_active r s)"

definition sync_pending :: "'b review_env \<Rightarrow> verification_round \<Rightarrow> 'b kr_state \<Rightarrow> ('b, unit) review_result" where
  "sync_pending env r s =
     (if \<not> valid_reward_plan env r \<or> \<not> valid_refund_plan env r then Fail s (ReviewErr ''settlement plan'')
      else Done (s\<lparr>kr_pending :=
        (if has_pending_funds r then kv_set (rd_id r) () (kr_pending s) else kv_del (rd_id r) (kr_pending s))\<rparr>) ())"

text \<open>The writes of the setter, in one cache.\<close>

definition write_round :: "'b review_env \<Rightarrow> verification_round \<Rightarrow> 'b kr_state \<Rightarrow> ('b, unit) review_result" where
  "write_round env r s = cached s
     (let indexed = kv_get (kr_claim_rounds s) (rd_claim_id r);
          s = s\<lparr>kr_rounds := kv_set (rd_id r) r (kr_rounds s)\<rparr>;
          s = (if indexed = None \<or> indexed = Some (rd_id r)
               then s\<lparr>kr_claim_rounds := kv_set (rd_claim_id r) (rd_id r) (kr_claim_rounds s)\<rparr> else s)
      in sync_pending env r (sync_active r s))"

definition check_round :: "'b review_env \<Rightarrow> 'b kr_state \<Rightarrow> review_claim option \<Rightarrow> verification_round \<Rightarrow> review_error + unit" where
  "check_round env s co r =
     (let previous = get_round s (rd_id r); indexed = kv_get (kr_claim_rounds s) (rd_claim_id r)
      in bind_sum (require (valid_round env r True) (ReviewErr ''round record''))
      (\<lambda>_. bind_sum (require (case co of Some c \<Rightarrow> valid_funding_round env (Some c) r | None \<Rightarrow> rd_refund r = None) (ReviewErr ''round funding''))
      (\<lambda>_. bind_sum (require (case previous of None \<Rightarrow> True | Some p \<Rightarrow> round_update_ok env p r) (ReviewErr ''immutable''))
      (\<lambda>_. bind_sum (require (reward_plan_update_ok previous r \<and> refund_plan_update_ok previous r) (ReviewErr ''frozen plan''))
      (\<lambda>_. require (previous \<noteq> None \<or> indexed = None \<or> indexed = Some (rd_id r)) (ReviewErr ''claim already references another round''))))))"

definition set_verification_round :: "'b review_env \<Rightarrow> verification_round \<Rightarrow> 'b kr_state \<Rightarrow> ('b, unit) review_result" where
  "set_verification_round env r s =
     try_in s (require (valid_review_policy (rd_policy r) (kr_neutrality s)) (ReviewErr ''review policy''))
     (\<lambda>_. try_in s (round_claim env s r)
     (\<lambda>co. if \<not> kr_record_integrity s then
              (if pre_integrity_round r then Done (set_round_legacy r s) ()
               else Fail s (ReviewErr ''new round fields require record-integrity activation''))
            else try_in s (check_round env s co r) (\<lambda>_. write_round env r s)))"

text \<open>A funded round and its payment history are retained.\<close>

definition delete_round :: "string \<Rightarrow> 'b kr_state \<Rightarrow> ('b, unit) review_result" where
  "delete_round k s =
     (let deleted = Done (s\<lparr>kr_active := kv_del k (kr_active s), kr_rounds := kv_del k (kr_rounds s)\<rparr>) ()
      in if get_round s k = None then deleted
         else try_in s (get_round_checked s k) (\<lambda>r. try_in s (get_claim_checked s (rd_claim_id r)) (\<lambda>co.
           if rd_refund r \<noteq> None \<or> (case co of None \<Rightarrow> False | Some c \<Rightarrow> kc_funding c \<noteq> None)
           then Fail s (ReviewErr ''funded verification round must be retained'') else deleted)))"

definition index_claim :: "review_claim \<Rightarrow> 'b kr_state \<Rightarrow> 'b kr_state" where
  "index_claim c s =
     (let s = (if kc_content_hash c \<noteq> [] then s\<lparr>kr_content_index := kv_set (kc_content_hash c) (kc_id c) (kr_content_index s)\<rparr> else s)
      in if kc_canonical_hash c \<noteq> [] then s\<lparr>kr_canonical_index := kv_set (kc_canonical_hash c) (kc_id c) (kr_canonical_index s)\<rparr> else s)"

definition claim_update_ok :: "'b review_env \<Rightarrow> review_claim option \<Rightarrow> review_claim \<Rightarrow> bool" where
  "claim_update_ok env before c \<longleftrightarrow> (case before of None \<Rightarrow> True
   | Some p \<Rightarrow> kc_id p = kc_id c \<and> kc_policy p = kc_policy c \<and> funding_update_ok env (Some p) c)"

definition set_claim :: "'b review_env \<Rightarrow> review_claim \<Rightarrow> 'b kr_state \<Rightarrow> ('b, unit) review_result" where
  "set_claim env c s =
     (let before = get_claim s (kc_id c);
          write_index = (before = None \<or> kc_content_hash c = [] \<and> kc_canonical_hash c = [] \<or> \<not> kr_claim_integrity s)
      in try_in s (claim_policy s c)
      (\<lambda>_. try_in s (require (validate_claim_funding env s c) (ReviewErr ''claim funding''))
      (\<lambda>_. try_in s (require (claim_update_ok env before c) (ReviewErr ''immutable claim fields''))
      (\<lambda>_. let s = s\<lparr>kr_claims := kv_set (kc_id c) c (kr_claims s)\<rparr>
           in Done (if write_index then index_claim c s else s) ()))))"

section \<open>Opening a round\<close>

definition round_id :: "'b review_env \<Rightarrow> string \<Rightarrow> u64 \<Rightarrow> string" where
  "round_id env claim height = take 32 (hex_text (re_digest env (''ZRN.round.id.v1:'' @ claim @ '':'' @ format_u64 height)))"

definition new_round :: "'b review_env \<Rightarrow> string \<Rightarrow> u64 \<Rightarrow> review_claim \<Rightarrow> 'b kr_state \<Rightarrow> u32 \<Rightarrow> verification_round" where
  "new_round env chain height c s policy =
     (let p = kr_params s; commit = height + kp_commit_blocks p; reveal = commit + kp_reveal_blocks p
      in \<lparr>rd_id = round_id env (kc_id c) height, rd_claim_id = kc_id c, rd_started_at = height, rd_phase = PHASE_COMMIT,
          rd_selected = [], rd_commits = [], rd_reveals = [], rd_verdict = VERDICT_UNSPECIFIED, rd_verdict_block = 0,
          rd_commit_deadline = commit, rd_reveal_deadline = reveal,
          rd_aggregation_deadline = reveal + kp_aggregation_blocks p,
          rd_scheme = (if kr_record_integrity s then scheme_review_v2 else scheme_legacy),
          rd_chain_id = (if kr_record_integrity s then chain else []),
          rd_rewards = None, rd_policy = policy, rd_refund = None\<rparr>)"

definition create_verification_round ::
  "'b review_env \<Rightarrow> string \<Rightarrow> int \<Rightarrow> review_claim \<Rightarrow> 'b kr_state \<Rightarrow> ('b, verification_round) review_result" where
  "create_verification_round env chain h c s =
     (if kc_funding c \<noteq> None \<and> kc_round_id c \<noteq> [] then Fail s (ReviewErr ''funded claim already has its sole verification round'')
      else try_in s (claim_policy s c) (\<lambda>policy.
        let r = new_round env chain (to_u64 h) c s policy
        in and_then (set_verification_round env r s) (\<lambda>s _.
          and_then (set_claim env (c\<lparr>kc_round_id := rd_id r, kc_status := CLAIM_IN_VERIFICATION\<rparr>) s) (\<lambda>s _.
            Done s r))))"

section \<open>Parties to a claim\<close>

definition disputed_fact :: "review_claim \<Rightarrow> string" where
  "disputed_fact c =
     (if kc_provisional_fact c \<noteq> [] then kc_provisional_fact c
      else case (kc_funding c, kc_relations c) of
        (Some t, [rel]) \<Rightarrow>
          if ft_kind t = FUNDING_CHALLENGE_DEPOSIT \<and> rel_kind rel = REL_CONTRADICTS then rel_target rel else []
      | _ \<Rightarrow> [])"

definition conflicted_parties :: "'b kr_state \<Rightarrow> review_claim \<Rightarrow> string list" where
  "conflicted_parties s c =
     (let target = disputed_fact c
      in if target = [] then [kc_submitter c]
         else case kr_fact_submitter s target of None \<Rightarrow> [kc_submitter c] | Some f \<Rightarrow> [kc_submitter c, f])"

definition same_actor :: "'b review_env \<Rightarrow> string \<Rightarrow> string \<Rightarrow> bool" where
  "same_actor env a b =
     (if a = b then a \<noteq> []
      else case re_bech32_data env a of None \<Rightarrow> False
      | Some x \<Rightarrow> x \<noteq> [] \<and> re_bech32_data env b = Some x)"

definition refuse_conflicted :: "'b review_env \<Rightarrow> 'b kr_state \<Rightarrow> verification_round \<Rightarrow> string \<Rightarrow> review_error + unit" where
  "refuse_conflicted env s r reviewer =
     bind_sum (get_claim_checked s (rd_claim_id r)) (\<lambda>co. case co of None \<Rightarrow> Inr ()
       | Some c \<Rightarrow> require (\<not> list_ex (same_actor env reviewer) (conflicted_parties s c)) ErrUnqualifiedVerifier)"

section \<open>Commitments and reveals\<close>

definition commit_scheme_ok :: "'b review_env \<Rightarrow> 'b kr_state \<Rightarrow> verification_round \<Rightarrow> commit_entry \<Rightarrow> bool" where
  "commit_scheme_ok env s r c \<longleftrightarrow>
     (if rd_scheme r = scheme_legacy then rd_chain_id r = []
      else rd_scheme r = scheme_review_v2 \<and> kr_record_integrity s \<and>
        canonical_review_address env (cm_verifier c) \<noteq> None \<and> length (cm_hash c) = 32)"

definition add_commit :: "commit_entry \<Rightarrow> verification_round \<Rightarrow> verification_round" where
  "add_commit c r = r\<lparr>rd_commits := rd_commits r @ [c],
     rd_selected := (if cm_verifier c \<in> set (rd_selected r) then rd_selected r else rd_selected r @ [cm_verifier c])\<rparr>"

definition store_commitment :: "'b review_env \<Rightarrow> string \<Rightarrow> commit_entry \<Rightarrow> 'b kr_state \<Rightarrow> ('b, unit) review_result" where
  "store_commitment env k c s = (case get_round s k of None \<Rightarrow> Fail s ErrRoundNotFound
   | Some r \<Rightarrow>
       if rd_phase r \<noteq> PHASE_COMMIT then Fail s ErrRoundNotInCommitPhase
       else if \<not> commit_scheme_ok env s r c then Fail s (ReviewErr ''commitment scheme'')
       else try_in s (if kr_claim_integrity s then refuse_conflicted env s r (cm_verifier c) else Inr ()) (\<lambda>_.
         case find_commit (rd_commits r) (cm_verifier c) of
           Some e \<Rightarrow> Fail s (if cm_hash e = cm_hash c then ErrDuplicateCommitment else ErrEquivocation)
         | None \<Rightarrow> set_verification_round env (add_commit c r) s))"

text \<open>The entry to record: the historical scheme keeps its reveals without a confidence.\<close>

definition match_reveal ::
  "'b review_env \<Rightarrow> 'b kr_state \<Rightarrow> verification_round \<Rightarrow> commit_entry \<Rightarrow> reveal_entry \<Rightarrow> u64 \<Rightarrow> review_error + reveal_entry" where
  "match_reveal env s r c v conf =
     (if rd_scheme r = scheme_legacy then
        (if rd_chain_id r \<noteq> [] \<or> rv_attestation v \<noteq> None \<or> rv_confidence v \<noteq> 0 then Inl (ReviewErr ''unbound review fields'')
         else if cm_hash c \<noteq> legacy_commitment env (rd_id r) (rv_vote v) conf (rv_salt v) then Inl ErrRevealMismatch
         else Inr v)
      else if rd_scheme r = scheme_review_v2 then
        (if \<not> kr_record_integrity s then Inl (ReviewErr ''record integrity'')
         else case review_commitment env (rd_chain_id r) (rd_id r) (rv_verifier v) (rv_vote v) conf (rv_salt v) (rv_attestation v) of
           None \<Rightarrow> Inl (ReviewErr ''invalid review'')
         | Some hash \<Rightarrow> if cm_hash c \<noteq> hash then Inl ErrRevealMismatch else Inr (v\<lparr>rv_confidence := conf\<rparr>))
      else Inl (ReviewErr ''unsupported commitment scheme''))"

definition store_reveal :: "'b review_env \<Rightarrow> string \<Rightarrow> reveal_entry \<Rightarrow> u64 \<Rightarrow> 'b kr_state \<Rightarrow> ('b, unit) review_result" where
  "store_reveal env k v conf s = (case get_round s k of None \<Rightarrow> Fail s ErrRoundNotFound
   | Some r \<Rightarrow>
       if rd_phase r \<noteq> PHASE_REVEAL then Fail s ErrRoundNotInRevealPhase
       else case find_commit (rd_commits r) (rv_verifier v) of None \<Rightarrow> Fail s ErrNoCommitment
       | Some c \<Rightarrow> try_in s (match_reveal env s (r\<lparr>rd_id := k\<rparr>) c v conf) (\<lambda>v.
           case find_reveal (rd_reveals r) (rv_verifier v) of
             Some e \<Rightarrow> Fail s (if rv_vote e = rv_vote v \<and> rv_salt e = rv_salt v then ErrDuplicateReveal else ErrEquivocation)
           | None \<Rightarrow> set_verification_round env (r\<lparr>rd_reveals := rd_reveals r @ [v]\<rparr>) s))"

section \<open>Handlers\<close>

definition threshold_override :: "'b kr_state \<Rightarrow> int \<Rightarrow> string \<Rightarrow> u32 option" where
  "threshold_override s h domain = (case kr_override s domain of None \<Rightarrow> None
   | Some (additional, expiry) \<Rightarrow> if expiry < to_u64 h then None else Some additional)"

definition effective_min_verifiers :: "'b kr_state \<Rightarrow> int \<Rightarrow> string \<Rightarrow> u32" where
  "effective_min_verifiers s h domain =
     (let adjusted = (ucast (kp_min_verifiers (kr_params s)) :: u32) + 1
      in case threshold_override s h domain of None \<Rightarrow> adjusted | Some additional \<Rightarrow> adjusted + additional)"

text \<open>The 100-ZRN gate, and the standing that only the historical reviews ask for.\<close>

definition min_reviewer_balance :: int where
  "min_reviewer_balance = 100000000"

definition reviewer_funded :: "'b review_env \<Rightarrow> 'b kr_state \<Rightarrow> string \<Rightarrow> review_error + unit" where
  "reviewer_funded env s v = (case acc_address (re_sdk env) v of
     None \<Rightarrow> Inl (ReviewErr ''invalid verifier address'')
   | Some a \<Rightarrow> require (min_reviewer_balance \<le> bank_balance (re_sdk env) (kr_bank s) a uzrn) (ReviewErr ''minimum balance''))"

definition reviewer_qualified :: "'b kr_state \<Rightarrow> int \<Rightarrow> verification_round \<Rightarrow> string \<Rightarrow> review_error + unit" where
  "reviewer_qualified s h r v = (case get_claim s (rd_claim_id r) of None \<Rightarrow> Inl (ReviewErr ''claim not found'')
   | Some c \<Rightarrow>
       if kc_domain c = [] then Inr ()
       else case kr_qualified s v (kc_domain c) of None \<Rightarrow> Inl (ReviewErr ''qualification check failed'')
       | Some True \<Rightarrow> Inr ()
       | Some False \<Rightarrow>
           require (\<not> unat (effective_min_verifiers s h (kc_domain c)) \<le> length (kr_qualified_of s (kc_domain c)))
             ErrUnqualifiedVerifier)"

definition submit_commitment :: "'b review_env \<Rightarrow> int \<Rightarrow> string \<Rightarrow> string \<Rightarrow> string \<Rightarrow> 'b kr_state \<Rightarrow> ('b, unit) review_result" where
  "submit_commitment env h k verifier hash s = (case get_round s k of None \<Rightarrow> Fail s (ReviewErr ''round not found'')
   | Some r \<Rightarrow> try_in s (policy_for_round env s r) (\<lambda>policy.
       if rd_phase r \<noteq> PHASE_COMMIT then Fail s (ReviewErr ''not in COMMIT phase'')
       else if rd_commit_deadline r < to_u64 h then Fail s (ReviewErr ''commit phase has ended'')
       else if commit_seat_hard_cap \<le> length (rd_commits r) then Fail s ErrRoundSeatsFull
       else try_in s (reviewer_funded env s verifier) (\<lambda>_.
         try_in s (if policy = policy_legacy then reviewer_qualified s h r verifier else Inr ()) (\<lambda>_.
           store_commitment env k \<lparr>cm_verifier = verifier, cm_hash = hash, cm_at_block = to_u64 h\<rparr> s))))"

definition doctrine_method :: string where
  "doctrine_method = ''doctrine_authorship''"

definition declared_method_ok :: "'b kr_state \<Rightarrow> string \<Rightarrow> bool" where
  "declared_method_ok s m \<longleftrightarrow> record_text m 128 False \<and> (m = [] \<or> m \<noteq> doctrine_method \<and> kr_methods s m)"

record reveal_msg =
  rm_round :: string
  rm_verifier :: string
  rm_vote :: string
  rm_salt :: string
  rm_confidence :: u64
  rm_attestation :: "review_attestation option"

definition revealed_entry :: "int \<Rightarrow> reveal_msg \<Rightarrow> reveal_entry" where
  "revealed_entry h m =
     \<lparr>rv_verifier = rm_verifier m, rv_vote = rm_vote m, rv_salt = rm_salt m, rv_at_block = to_u64 h, rv_confidence = 0,
      rv_attestation = rm_attestation m\<rparr>"

definition submit_reveal :: "'b review_env \<Rightarrow> int \<Rightarrow> reveal_msg \<Rightarrow> 'b kr_state \<Rightarrow> ('b, unit) review_result" where
  "submit_reveal env h m s = (case get_round s (rm_round m) of None \<Rightarrow> Fail s (ReviewErr ''round not found'')
   | Some r \<Rightarrow>
       if rd_scheme r = scheme_review_v2 \<and>
          (case rm_attestation m of None \<Rightarrow> False | Some a \<Rightarrow> \<not> declared_method_ok s (at_method_id a))
       then Fail s (ReviewErr ''declared method'')
       else if rd_phase r \<noteq> PHASE_REVEAL then Fail s (ReviewErr ''not in REVEAL phase'')
       else if rd_reveal_deadline r < to_u64 h then Fail s (ReviewErr ''reveal phase has ended'')
       else if \<not> known_vote (rm_vote m) then Fail s (ReviewErr ''invalid vote'')
       else store_reveal env (rm_round m) (revealed_entry h m) (rm_confidence m) s)"

section \<open>Phases\<close>

definition expected_phase :: "verification_round \<Rightarrow> u64 \<Rightarrow> review_params \<Rightarrow> verification_phase" where
  "expected_phase r height p =
     (if closed_phase (rd_phase r) then rd_phase r
      else let timed = (if rd_aggregation_deadline r \<le> height then PHASE_EXPIRED
                        else if rd_reveal_deadline r \<le> height then PHASE_AGGREGATION
                        else if rd_commit_deadline r \<le> height then PHASE_REVEAL else PHASE_COMMIT);
               expected = (if timed = PHASE_REVEAL \<and> length (rd_reveals r) = length (rd_commits r) \<and>
                             unat (kp_min_verifiers p) \<le> length (rd_commits r) then PHASE_AGGREGATION else timed)
           in if expected < rd_phase r then rd_phase r else expected)"

definition effective_min_for_round :: "'b kr_state \<Rightarrow> int \<Rightarrow> verification_round \<Rightarrow> u64" where
  "effective_min_for_round s h r =
     (if rd_policy r = policy_neutral then kp_min_verifiers (kr_params s)
      else case get_claim s (rd_claim_id r) of None \<Rightarrow> kp_min_verifiers (kr_params s)
      | Some c \<Rightarrow> if kc_domain c = [] then kp_min_verifiers (kr_params s) else ucast (effective_min_verifiers s h (kc_domain c)))"

end
