(* ===== verification/KR_Settle.thy ===== *)
theory KR_Settle
  imports KR_State
begin

text \<open>
  x/knowledge, the review protocol: the verdict of a round, the plans that freeze what its reviewers and
  its payer are owed, and the queue that pays them (keeper/{confidence,role_elasticity,verifier_settlement,
  fund_settlement,rounds}.go).
\<close>

section \<open>The weight of a review\<close>

definition clamp_u64 :: "u64 \<Rightarrow> u64 \<Rightarrow> u64 \<Rightarrow> u64" where
  "clamp_u64 v lo hi = (if v < lo then lo else if hi < v then hi else v)"

text \<open>Zero stands for the default of a parameter that an old genesis does not carry.\<close>

definition role_min_calls :: "review_params \<Rightarrow> u64" where
  "role_min_calls p = (if kp_role_min_calls p = 0 then 10 else kp_role_min_calls p)"

definition role_max_bps :: "review_params \<Rightarrow> u64" where
  "role_max_bps p = (if kp_role_max_bps p = 0 then 2000000 else kp_role_max_bps p)"

definition role_min_bps :: "review_params \<Rightarrow> u64" where
  "role_min_bps p = (if kp_role_min_bps p = 0 then 500000 else kp_role_min_bps p)"

text \<open>The agent half of \<open>GetRoleElasticity\<close>; its human half is not read by the review.\<close>

definition agent_elasticity :: "'b kr_state \<Rightarrow> string \<Rightarrow> u64" where
  "agent_elasticity s domain =
     (let p = kr_params s; base = kp_agent_bonus_bps p in case kr_roles s domain of None \<Rightarrow> base
      | Some rec \<Rightarrow>
          let agents = dr_agent_correct rec + dr_agent_incorrect rec;
              humans = dr_human_correct rec + dr_human_incorrect rec
          in if agents < role_min_calls p \<or> humans < role_min_calls p then base
             else let agent_acc = safe_mul_div (dr_agent_correct rec) bps_scale agents;
                      human_acc = safe_mul_div (dr_human_correct rec) bps_scale humans
                  in if agent_acc + human_acc = 0 then base
                     else safe_mul_div base
                       (clamp_u64 (safe_mul_div (agent_acc * 2) bps_scale (agent_acc + human_acc)) (role_min_bps p) (role_max_bps p))
                       bps_scale)"

definition domain_of_round :: "'b kr_state \<Rightarrow> verification_round \<Rightarrow> string" where
  "domain_of_round s r =
     (if rd_claim_id r = [] then [] else case get_claim s (rd_claim_id r) of None \<Rightarrow> [] | Some c \<Rightarrow> kc_domain c)"

definition review_weight :: "'b kr_state \<Rightarrow> u32 \<Rightarrow> verification_round \<Rightarrow> reveal_entry \<Rightarrow> u64" where
  "review_weight s policy r v =
     (if policy = policy_legacy then
        let stake = (case kr_stake s (rv_verifier v) of None \<Rightarrow> 1 | Some x \<Rightarrow> if x = 0 then 1 else x)
        in if 0 < kp_agent_bonus_bps (kr_params s) \<and> kr_account_type s (rv_verifier v) = Some ''agent''
           then safe_mul_div stake (1000000 + agent_elasticity s (domain_of_round s r)) 1000000 else stake
      else 1)"

section \<open>The verdict\<close>

record slash_entry =
  sl_verifier :: string
  sl_bps :: u64
  sl_vindication :: bool

record review_outcome =
  ro_verdict :: verdict
  ro_confidence :: u64
  ro_rewards :: "(string \<times> u64) list"
  ro_slashes :: "slash_entry list"
  ro_accepts :: u64
  ro_rejects :: u64

definition no_outcome :: review_outcome where
  "no_outcome = \<lparr>ro_verdict = VERDICT_UNSPECIFIED, ro_confidence = 0, ro_rewards = [], ro_slashes = [], ro_accepts = 0, ro_rejects = 0\<rparr>"

definition vote_stake :: "(reveal_entry \<Rightarrow> u64) \<Rightarrow> string \<Rightarrow> reveal_entry list \<Rightarrow> u64" where
  "vote_stake w vote vs = fold (\<lambda>v acc. if rv_vote v = vote then acc + w v else acc) vs 0"

definition panel_stake :: "(reveal_entry \<Rightarrow> u64) \<Rightarrow> reveal_entry list \<Rightarrow> u64" where
  "panel_stake w vs = fold (\<lambda>v acc. acc + w v) vs 0"

definition vote_count :: "string \<Rightarrow> reveal_entry list \<Rightarrow> u64" where
  "vote_count vote vs = vote_stake (\<lambda>_. 1) vote vs"

definition vote_ratio :: "u64 \<Rightarrow> u64 \<Rightarrow> u64" where
  "vote_ratio stake all = (if 0 < all then safe_mul_div stake 1000000 all else 0)"

text \<open>A malformed claim first, then acceptance, then rejection; each needs its share and its headcount.\<close>

definition panel_verdict :: "review_params \<Rightarrow> (reveal_entry \<Rightarrow> u64) \<Rightarrow> reveal_entry list \<Rightarrow> verdict \<times> u64" where
  "panel_verdict p w vs =
     (let share = (\<lambda>vote. vote_ratio (vote_stake w vote vs) (panel_stake w vs));
          headcount = (if kp_min_verifiers p < kp_min_headcount p then kp_min_verifiers p else kp_min_headcount p);
          carried = (\<lambda>vote. kp_confidence_threshold p \<le> share vote \<and> headcount \<le> vote_count vote vs)
      in if carried vote_malformed then (VERDICT_MALFORMED, share vote_malformed)
         else if carried vote_accept then (VERDICT_ACCEPT, share vote_accept)
         else if carried vote_reject then (VERDICT_REJECT, share vote_reject)
         else (VERDICT_INCONCLUSIVE, 0))"

definition stratum_ceiling :: "'b kr_state \<Rightarrow> verification_round \<Rightarrow> u64 \<Rightarrow> u64" where
  "stratum_ceiling s r conf = (case get_claim s (rd_claim_id r) of None \<Rightarrow> conf
   | Some c \<Rightarrow> if kc_domain c = [] then conf
       else case kr_stratum s (kc_domain c) of None \<Rightarrow> conf
       | Some stratum \<Rightarrow> if stratum = [] then conf
           else case kr_ceiling s stratum of None \<Rightarrow> conf
           | Some limit \<Rightarrow> if 0 < limit \<and> limit < conf then limit else conf)"

definition capped_confidence :: "review_params \<Rightarrow> u64 \<Rightarrow> u64" where
  "capped_confidence p conf = (if 0 < kp_max_confidence p \<and> kp_max_confidence p < conf then kp_max_confidence p else conf)"

text \<open>The historical incentives: the winning vote is rewarded, a silent or a losing committer slashed.\<close>

fun winning_vote :: "verdict \<Rightarrow> string option" where
  "winning_vote VERDICT_ACCEPT = Some vote_accept"
| "winning_vote VERDICT_REJECT = Some vote_reject"
| "winning_vote VERDICT_MALFORMED = Some vote_malformed"
| "winning_vote VERDICT_INCONCLUSIVE = None"
| "winning_vote VERDICT_UNSPECIFIED = None"

definition last_vote :: "reveal_entry list \<Rightarrow> string \<Rightarrow> string option" where
  "last_vote vs v = map_of (rev (map (\<lambda>r. (rv_verifier r, rv_vote r)) vs)) v"

definition judge_committer ::
  "review_params \<Rightarrow> int \<Rightarrow> verdict \<Rightarrow> string \<Rightarrow> reveal_entry list \<Rightarrow> commit_entry \<Rightarrow> review_outcome \<Rightarrow> review_outcome" where
  "judge_committer p base verdict winner vs c res =
     (let v = cm_verifier c;
          reward = (\<lambda>amount. res\<lparr>ro_rewards := ro_rewards res @ [(v, amount)]\<rparr>);
          slash = (\<lambda>bps vind. res\<lparr>ro_slashes := ro_slashes res @ [\<lparr>sl_verifier = v, sl_bps = bps, sl_vindication = vind\<rparr>]\<rparr>);
          half = safe_mul_div (word_of_int base) 500000 1000000
      in case last_vote vs v of None \<Rightarrow> slash (kp_missed_reveal_bps p) False
      | Some vote \<Rightarrow>
          if vote = winner then (if base < 2 ^ 64 then reward (word_of_int base) else res)
          else if verdict = VERDICT_MALFORMED \<and> vote = vote_reject then
            (if base < 2 ^ 64 \<and> 0 < half then reward half else res)
          else slash (kp_wrong_verdict_bps p) True)"

definition judge_panel :: "review_params \<Rightarrow> verification_round \<Rightarrow> review_outcome \<Rightarrow> review_outcome" where
  "judge_panel p r res = (case winning_vote (ro_verdict res) of None \<Rightarrow> res
   | Some winner \<Rightarrow>
       (case positive_int (kp_verification_reward p) of None \<Rightarrow> res
        | Some base \<Rightarrow> fold (judge_committer p base (ro_verdict res) winner (rd_reveals r)) (rd_commits r) res))"

definition quorum_for_round :: "'b kr_state \<Rightarrow> int \<Rightarrow> u32 \<Rightarrow> verification_round \<Rightarrow> u64" where
  "quorum_for_round s h policy r =
     (case get_claim s (rd_claim_id r) of
        Some c \<Rightarrow> if policy = policy_legacy \<and> kc_domain c \<noteq> [] then ucast (effective_min_verifiers s h (kc_domain c))
                  else kp_min_verifiers (kr_params s)
      | None \<Rightarrow> kp_min_verifiers (kr_params s))"

text \<open>Under the neutral policy every recorded review is paid, whatever it said.\<close>

definition initial_outcome :: "u32 \<Rightarrow> verification_round \<Rightarrow> review_outcome" where
  "initial_outcome policy r =
     (if policy = policy_neutral
      then no_outcome\<lparr>ro_rewards := map (\<lambda>v. (rv_verifier v, 0)) (rd_reveals r),
             ro_accepts := vote_count vote_accept (rd_reveals r), ro_rejects := vote_count vote_reject (rd_reveals r)\<rparr>
      else no_outcome)"

definition decided_outcome :: "'b kr_state \<Rightarrow> u32 \<Rightarrow> verification_round \<Rightarrow> review_outcome" where
  "decided_outcome s policy r =
     (let p = kr_params s; vs = rd_reveals r;
          (verdict, share) = panel_verdict p (review_weight s policy r) vs;
          conf = capped_confidence p (if verdict = VERDICT_ACCEPT then stratum_ceiling s r share else share);
          res = (initial_outcome policy r)\<lparr>ro_verdict := verdict, ro_confidence := conf\<rparr>;
          res = (if policy = policy_legacy then judge_panel p r res else res)
      in res\<lparr>ro_accepts := vote_count vote_accept vs, ro_rejects := vote_count vote_reject vs\<rparr>)"

definition aggregate_round :: "'b review_env \<Rightarrow> int \<Rightarrow> 'b kr_state \<Rightarrow> verification_round \<Rightarrow> review_error + review_outcome" where
  "aggregate_round env h s r =
     bind_sum (policy_for_round env s r) (\<lambda>policy.
       if length (rd_reveals r) < unat (quorum_for_round s h policy r)
       then Inr ((initial_outcome policy r)\<lparr>ro_verdict := VERDICT_INCONCLUSIVE, ro_confidence := 0\<rparr>)
       else Inr (decided_outcome s policy r))"

section \<open>Funding terms\<close>

definition set_claim_funding_terms ::
  "'b review_env \<Rightarrow> 'b kr_state \<Rightarrow> claim_funding_kind \<Rightarrow> review_claim \<Rightarrow> review_error + review_claim" where
  "set_claim_funding_terms env s kind c =
     (if \<not> kr_fund_settlement s then Inr c
      else case settlement_amount (kc_stake c) of None \<Rightarrow> Inl (ReviewErr ''canonical positive payment'')
      | Some paid \<Rightarrow>
          if paid = 0 then Inl (ReviewErr ''canonical positive payment'')
          else let pool = verifier_pool_from_fee paid; rest = format_u64 (paid - pool);
                   terms = (\<lambda>refundable retained. c\<lparr>kc_funding := Some \<lparr>ft_policy_version = 1, ft_kind = kind,
                     ft_paid = kc_stake c, ft_review_budget = format_u64 pool, ft_refundable = refundable, ft_retained = retained\<rparr>\<rparr>);
                   checked = (\<lambda>c. if valid_funding_terms env c True then Inr c else Inl (ReviewErr ''funding terms''))
               in (case kind of
                  FUNDING_REVIEW_FEE \<Rightarrow> checked (terms ''0'' rest)
                | FUNDING_CHALLENGE_DEPOSIT \<Rightarrow> checked (terms rest ''0'')
                | FUNDING_UNSPECIFIED \<Rightarrow> Inl (ReviewErr ''unsupported claim funding kind'')))"

section \<open>Freezing the plans\<close>

definition independence_multiplier :: "'b kr_state \<Rightarrow> string \<Rightarrow> u64 \<Rightarrow> u64 option" where
  "independence_multiplier s v amount =
     (let strength = kp_independence_bps (kr_params s)
      in if amount = 0 \<or> strength = 0 then Some amount
         else case kr_independence s v of None \<Rightarrow> Some amount
         | Some (votes, minority) \<Rightarrow>
             if votes < minority then None
             else if votes = 0 then Some amount
             else let conformity = safe_mul_div (votes - minority) 1000000 votes;
                      penalty = safe_mul_div conformity strength 1000000;
                      penalty = (if 1000000 \<le> penalty then 999999 else penalty)
                  in Some (safe_mul_div amount (1000000 - penalty) 1000000))"

text \<open>The loop over the rewarded reviewers; the first gets the remainder of the division.\<close>

fun freeze_payments ::
  "'b kr_state \<Rightarrow> u32 \<Rightarrow> u64 \<Rightarrow> u64 \<Rightarrow> string list \<Rightarrow> (reward_payment list \<times> u64) option" where
  "freeze_payments s policy per extra [] = Some ([], 0)"
| "freeze_payments s policy per extra (v # vs) =
     (let amount = per + extra
      in case (if policy = policy_legacy then independence_multiplier s v amount else Some amount) of None \<Rightarrow> None
         | Some modulated \<Rightarrow> (case freeze_payments s policy per 0 vs of None \<Rightarrow> None
           | Some (ps, withheld) \<Rightarrow>
               Some (\<lparr>rp_verifier = v, rp_amount = format_u64 modulated, rp_withheld = format_u64 (amount - modulated)\<rparr> # ps,
                     (amount - modulated) + withheld)))"

definition build_reward_plan ::
  "'b review_env \<Rightarrow> 'b kr_state \<Rightarrow> review_claim \<Rightarrow> review_outcome \<Rightarrow> verification_round \<Rightarrow> review_error + verification_round" where
  "build_reward_plan env s c res r =
     (if ro_rewards res = [] then Inr r
      else case positive_int (kc_stake c) of None \<Rightarrow> Inl (ReviewErr ''review fee'')
      | Some fee \<Rightarrow>
          if 2 ^ 64 \<le> fee then Inl (ReviewErr ''review fee'')
          else let pool = verifier_pool_from_fee (word_of_int fee); n = of_nat (length (ro_rewards res))
               in if pool = 0 then Inr r
                  else case freeze_payments s (rd_policy r) (pool div n) (pool mod n) (map fst (ro_rewards res)) of
                    None \<Rightarrow> Inl (ReviewErr ''verifier independence'')
                  | Some (ps, withheld) \<Rightarrow>
                      let r = r\<lparr>rd_rewards := Some \<lparr>wp_created_at = rd_verdict_block r, wp_payments = ps,
                            wp_withheld_total = format_u64 withheld, wp_paid_at = 0\<rparr>\<rparr>
                      in if valid_reward_plan env r then Inr r else Inl (ReviewErr ''verifier settlement''))"

definition build_refund_plan ::
  "'b review_env \<Rightarrow> 'b kr_state \<Rightarrow> review_claim \<Rightarrow> review_outcome \<Rightarrow> verification_round \<Rightarrow> review_error + verification_round" where
  "build_refund_plan env s c res r =
     (if \<not> validate_claim_funding env s c then Inl (ReviewErr ''claim funding'')
      else case kc_funding c of None \<Rightarrow> Inr r
      | Some t \<Rightarrow>
          let refund = u64_of_amount (ft_refundable t) + (if ro_rewards res = [] then u64_of_amount (ft_review_budget t) else 0);
              r = (if 0 < refund then r\<lparr>rd_refund := Some \<lparr>rf_recipient = kc_submitter c, rf_amount = format_u64 refund,
                     rf_created_at = rd_verdict_block r, rf_paid_at = 0\<rparr>\<rparr> else r)
          in if valid_funding_round env (Some c) r then Inr r else Inl (ReviewErr ''round funding''))"

text \<open>
  The part of \<open>completeRound\<close> that writes the round: the verdict at this height, the frozen plans of a
  record-integrity round, and the setter.  The completion itself, with its guards, is \<open>complete_round\<close> below.
\<close>

definition record_verdict :: "'b review_env \<Rightarrow> int \<Rightarrow> review_claim \<Rightarrow> review_outcome \<Rightarrow> verification_round \<Rightarrow> 'b kr_state
    \<Rightarrow> ('b, verification_round) review_result" where
  "record_verdict env h c res r s =
     (let r = r\<lparr>rd_verdict := ro_verdict res, rd_verdict_block := to_u64 h, rd_phase := PHASE_COMPLETE\<rparr>
      in try_in s (build_reward_plan env s c res r) (\<lambda>r.
         try_in s (build_refund_plan env s c res r) (\<lambda>r.
           and_then (set_verification_round env r s) (\<lambda>s _. Done s r))))"

section \<open>Paying\<close>

definition knowledge_module :: string where
  "knowledge_module = ''knowledge''"

definition development_fund :: string where
  "development_fund = ''development_fund''"

definition review_bank :: "('b \<Rightarrow> ('b, string, unit) outcome) \<Rightarrow> 'b kr_state \<Rightarrow> ('b, unit) review_result" where
  "review_bank = on_bank kr_bank (\<lambda>b. kr_bank_update (\<lambda>_. b)) ReviewErr"

definition pay_account :: "'b review_env \<Rightarrow> string \<Rightarrow> u64 \<Rightarrow> 'b kr_state \<Rightarrow> ('b, unit) review_result" where
  "pay_account env recipient amount s =
     try_in s (of_option (ReviewErr ''recipient'') (acc_address (re_sdk env) recipient)) (\<lambda>a.
     try_in s (of_option (ReviewErr ''panic'') (new_coins (re_sdk env) [(uzrn, uint amount)])) (\<lambda>cs.
       review_bank (bank_to_account (re_sdk env) knowledge_module a cs) s))"

fun pay_reviewers :: "'b review_env \<Rightarrow> reward_payment list \<Rightarrow> 'b kr_state \<Rightarrow> ('b, unit) review_result" where
  "pay_reviewers env [] s = Done s ()"
| "pay_reviewers env (p # ps) s =
     (if u64_of_amount (rp_amount p) = 0 then pay_reviewers env ps s
      else and_then (pay_account env (rp_verifier p) (u64_of_amount (rp_amount p)) s) (\<lambda>s _. pay_reviewers env ps s))"

definition pay_withheld :: "'b review_env \<Rightarrow> u64 \<Rightarrow> 'b kr_state \<Rightarrow> ('b, unit) review_result" where
  "pay_withheld env amount s =
     (if amount = 0 then Done s ()
      else try_in s (of_option (ReviewErr ''panic'') (new_coins (re_sdk env) [(uzrn, uint amount)])) (\<lambda>cs.
        review_bank (bank_mod_to_mod (re_sdk env) knowledge_module development_fund cs) s))"

definition owed_rewards :: "verification_round \<Rightarrow> reward_plan option" where
  "owed_rewards r = (case rd_rewards r of None \<Rightarrow> None | Some p \<Rightarrow> if wp_paid_at p = 0 then Some p else None)"

definition owed_refund :: "verification_round \<Rightarrow> refund_plan option" where
  "owed_refund r = (case rd_refund r of None \<Rightarrow> None | Some p \<Rightarrow> if rf_paid_at p = 0 then Some p else None)"

text \<open>The transfers, and the round with the plans that they paid marked at this height.\<close>

definition pay_plans :: "'b review_env \<Rightarrow> verification_round \<Rightarrow> 'b kr_state \<Rightarrow> ('b, unit) review_result" where
  "pay_plans env r s =
     and_then (case owed_rewards r of None \<Rightarrow> Done s ()
       | Some p \<Rightarrow> and_then (pay_reviewers env (wp_payments p) s) (\<lambda>s _. pay_withheld env (u64_of_amount (wp_withheld_total p)) s))
     (\<lambda>s _. case owed_refund r of None \<Rightarrow> Done s ()
       | Some p \<Rightarrow> pay_account env (rf_recipient p) (u64_of_amount (rf_amount p)) s)"

definition marked_paid :: "u64 \<Rightarrow> verification_round \<Rightarrow> verification_round" where
  "marked_paid now r = r\<lparr>
     rd_rewards := map_option (\<lambda>p. if wp_paid_at p = 0 then p\<lparr>wp_paid_at := now\<rparr> else p) (rd_rewards r),
     rd_refund := map_option (\<lambda>p. if rf_paid_at p = 0 then p\<lparr>rf_paid_at := now\<rparr> else p) (rd_refund r)\<rparr>"

definition validate_round_funding :: "'b review_env \<Rightarrow> 'b kr_state \<Rightarrow> verification_round \<Rightarrow> review_error + unit" where
  "validate_round_funding env s r =
     (if \<not> kr_fund_settlement s then require (rd_refund r = None) (ReviewErr ''refund requires fund settlement'')
      else bind_sum (get_claim_checked s (rd_claim_id r)) (\<lambda>co. case co of
          None \<Rightarrow> require (rd_refund r = None) (ReviewErr ''refund requires its funded parent'')
        | Some c \<Rightarrow> require (valid_funding_terms env c True \<and> valid_funding_round env (Some c) r) (ReviewErr ''round funding'')))"

definition plans_valid :: "'b review_env \<Rightarrow> verification_round \<Rightarrow> review_error + unit" where
  "plans_valid env r = require (valid_reward_plan env r \<and> valid_refund_plan env r) (ReviewErr ''settlement plan'')"

definition try_settle :: "'b review_env \<Rightarrow> int \<Rightarrow> string \<Rightarrow> 'b kr_state \<Rightarrow> ('b, unit) review_result" where
  "try_settle env h k s =
     try_in s (require (kr_record_integrity s) (ReviewErr ''record integrity'')) (\<lambda>_.
     try_in s (get_round_checked s k) (\<lambda>r.
     try_in s (plans_valid env r) (\<lambda>_.
     try_in s (validate_round_funding env s r) (\<lambda>_.
       if \<not> has_pending_funds r then Done s ()
       else if h \<le> 0 \<or> to_u64 h < rd_verdict_block r then Fail s (ReviewErr ''payment height'')
       else cached s (and_then (pay_plans env r s) (\<lambda>s _. set_verification_round env (marked_paid (to_u64 h) r) s))))))"

section \<open>Completing a round\<close>

text \<open>
  \<open>CompleteRound\<close> on the stored round, under record integrity.  What a verdict does to facts, scores, edges
  and other modules happens at two places of \<open>completeRound\<close>, before the claim is written and after the
  round is; both are arguments here, and an error in either undoes the whole completion.
\<close>

definition panel_closed :: "review_params \<Rightarrow> u64 \<Rightarrow> verification_round \<Rightarrow> bool" where
  "panel_closed p height r \<longleftrightarrow> \<not> (height < rd_reveal_deadline r \<and>
     (height < rd_commit_deadline r \<or> length (rd_reveals r) \<noteq> length (rd_commits r) \<or>
      of_nat (length (rd_reveals r)) < kp_min_verifiers p))"

fun verdict_status :: "verdict \<Rightarrow> claim_status \<Rightarrow> claim_status" where
  "verdict_status VERDICT_ACCEPT st = CLAIM_ACCEPTED"
| "verdict_status VERDICT_REJECT st = CLAIM_REJECTED"
| "verdict_status VERDICT_MALFORMED st = CLAIM_MALFORMED"
| "verdict_status VERDICT_INCONCLUSIVE st = CLAIM_INSUFFICIENT"
| "verdict_status VERDICT_UNSPECIFIED st = st"

type_synonym 'b verdict_step = "'b kr_state \<Rightarrow> ('b, unit) review_result"

definition finish_round :: "'b review_env \<Rightarrow> int \<Rightarrow> 'b verdict_step \<Rightarrow> 'b verdict_step \<Rightarrow> review_outcome \<Rightarrow> verification_round
    \<Rightarrow> 'b kr_state \<Rightarrow> ('b, verification_round) review_result" where
  "finish_round env h before after res r s =
     try_in s (of_option (ReviewErr ''claim not found'') (get_claim s (rd_claim_id r))) (\<lambda>c.
       let c = c\<lparr>kc_status := verdict_status (ro_verdict res) (kc_status c)\<rparr>
       in and_then (before s) (\<lambda>s _.
          and_then (set_claim env c s) (\<lambda>s _.
          and_then (record_verdict env h c res r s) (\<lambda>s r.
          and_then (after s) (\<lambda>s _. Done s r)))))"

definition complete_round :: "'b review_env \<Rightarrow> int \<Rightarrow> 'b verdict_step \<Rightarrow> 'b verdict_step \<Rightarrow> string \<Rightarrow> review_outcome
    \<Rightarrow> 'b kr_state \<Rightarrow> ('b, unit) review_result" where
  "complete_round env h before after k res s =
     try_in s (get_round_checked s k) (\<lambda>r.
     try_in s (policy_for_round env s r) (\<lambda>policy.
       if rd_phase r = PHASE_COMPLETE then
         if rd_verdict r \<noteq> ro_verdict res then Fail s (ReviewErr ''cannot change a finalized review verdict'')
         else Done (final_state (try_settle env h k s)) ()
       else if rd_phase r = PHASE_EXPIRED then Fail s (ReviewErr ''cannot complete an expired review round'')
       else try_in s
         (if policy \<noteq> policy_neutral then Inr res
          else if panel_closed (kr_params s) (to_u64 h) r then aggregate_round env h s r
          else Inl (ReviewErr ''review panel is not closed for aggregation'')) (\<lambda>res.
         and_then (cached s (finish_round env h before after res r s)) (\<lambda>s r.
           Done (if has_pending_funds r then final_state (try_settle env h k s) else s) ()))))"

section \<open>The payment queue\<close>

definition pending_batch :: nat where
  "pending_batch = 16"

definition transfer_budget :: nat where
  "transfer_budget = commit_seat_hard_cap + 1"

text \<open>
  The loop over one batch: a failed payment stays owed and the loop goes on; a round whose legs exceed what
  is left of the budget ends it.  The result is the last round tried and whether the loop was cut short.
\<close>

fun settle_batch ::
  "'b review_env \<Rightarrow> int \<Rightarrow> string list \<Rightarrow> nat \<Rightarrow> string option \<Rightarrow> 'b kr_state \<Rightarrow> ('b, string option \<times> bool) review_result" where
  "settle_batch env h [] budget final s = Done s (final, False)"
| "settle_batch env h (k # ks) budget final s =
     try_in s (get_round_checked s k) (\<lambda>r.
     try_in s (plans_valid env r) (\<lambda>_.
       if \<not> has_pending_funds r then Fail s (ReviewErr ''index does not match primary round'')
       else if budget < pending_transfers r then Done s (final, True)
       else settle_batch env h ks (budget - pending_transfers r) (Some k) (final_state (try_settle env h k s))))"

definition queue_after :: "string option \<Rightarrow> 'b kr_state \<Rightarrow> string list" where
  "queue_after cursor s = (case cursor of None \<Rightarrow> map fst (kr_pending s) | Some k \<Rightarrow> filter ((<) k) (map fst (kr_pending s)))"

definition process_pending :: "'b review_env \<Rightarrow> int \<Rightarrow> 'b kr_state \<Rightarrow> ('b, unit) review_result" where
  "process_pending env h s =
     (if \<not> kr_record_integrity s then Done s ()
      else if kr_cursor s = Some [] then Fail s (ReviewErr ''invalid cursor'')
      else let queue = queue_after (kr_cursor s) s; keys = take pending_batch queue
           in if [] \<in> set keys then Fail s (ReviewErr ''invalid index'')
              else and_then (settle_batch env h keys transfer_budget None s) (\<lambda>s (final, cut).
                if length queue \<le> pending_batch \<and> \<not> cut then Done (s\<lparr>kr_cursor := None\<rparr>) ()
                else Done (case final of None \<Rightarrow> s | Some k \<Rightarrow> s\<lparr>kr_cursor := Some k\<rparr>) ()))"

fun sync_all :: "'b review_env \<Rightarrow> (string \<times> verification_round) list \<Rightarrow> 'b kr_state \<Rightarrow> ('b, unit) review_result" where
  "sync_all env [] s = Done s ()"
| "sync_all env ((k, r) # rs) s =
     (if rd_id r \<noteq> k then Fail s (ReviewErr ''key/id mismatch'')
      else and_then (sync_pending env r s) (\<lambda>s _. sync_all env rs s))"

definition rebuild_pending :: "'b review_env \<Rightarrow> 'b kr_state \<Rightarrow> ('b, unit) review_result" where
  "rebuild_pending env s = cached s (sync_all env (kr_rounds s) (s\<lparr>kr_pending := [], kr_cursor := None\<rparr>))"

section \<open>Challenge stakes\<close>

definition challenge_floor_bps :: u64 where
  "challenge_floor_bps = 100000"

definition effective_min_challenge_stake :: "review_params \<Rightarrow> u64 \<Rightarrow> int" where
  "effective_min_challenge_stake p conf = (case positive_int (kp_min_challenge_stake p) of None \<Rightarrow> 0
   | Some base \<Rightarrow>
       if kp_challenge_scaling_bps p = 0 \<or> conf = 0 then base
       else let discount = safe_mul_div conf (kp_challenge_scaling_bps p) bps_scale;
                discount = (if bps_scale < discount then bps_scale else discount);
                multiplier = bps_scale - discount;
                multiplier = (if multiplier < challenge_floor_bps then challenge_floor_bps else multiplier)
            in base * uint multiplier div uint bps_scale)"

end
