(* ===== verification/KR_Inv.thy ===== *)
theory KR_Inv
  imports KR_Settle
begin

text \<open>
  x/knowledge, the review protocol: what the setters keep.  \<open>kr_inv\<close> is the invariant of a
  record-integrity chain, \<open>round_evolves\<close> what an update may do to a stored round.
\<close>

section \<open>The invariant\<close>

definition round_ok :: "'b review_env \<Rightarrow> 'b kr_state \<Rightarrow> string \<Rightarrow> verification_round \<Rightarrow> bool" where
  "round_ok env s k r \<longleftrightarrow>
     rd_id r = k \<and> valid_round env r True \<and> kv_get (kr_claim_rounds s) (rd_claim_id r) = Some k \<and>
     (if rd_policy r = policy_neutral
      then \<exists>c. get_claim s (rd_claim_id r) = Some c \<and> kc_policy c = policy_neutral \<and>
             valid_funding_round env (Some (c\<lparr>kc_round_id := []\<rparr>)) r
      else rd_refund r = None)"

definition claim_ok :: "'b review_env \<Rightarrow> string \<Rightarrow> review_claim \<Rightarrow> bool" where
  "claim_ok env k c \<longleftrightarrow> kc_id c = k \<and> valid_funding_terms env c True"

definition kr_inv :: "'b review_env \<Rightarrow> 'b kr_state \<Rightarrow> bool" where
  "kr_inv env s \<longleftrightarrow>
     kr_record_integrity s \<and> kr_cursor s \<noteq> Some [] \<and>
     kv_ok (kr_rounds s) \<and> kv_ok (kr_active s) \<and> kv_ok (kr_pending s) \<and> kv_ok (kr_claims s) \<and>
     (\<forall>k r. get_round s k = Some r \<longrightarrow> round_ok env s k r) \<and>
     (\<forall>k c. get_claim s k = Some c \<longrightarrow> claim_ok env k c) \<and>
     (\<forall>k. kv_get (kr_pending s) k \<noteq> None \<longleftrightarrow> (\<exists>r. get_round s k = Some r \<and> has_pending_funds r)) \<and>
     (\<forall>k. kv_get (kr_active s) k \<noteq> None \<longleftrightarrow> (\<exists>r. get_round s k = Some r \<and> \<not> closed_phase (rd_phase r)))"

lemma kr_invD:
  assumes "kr_inv env s"
  shows "kr_record_integrity s" "kr_cursor s \<noteq> Some []" "kv_ok (kr_rounds s)" "kv_ok (kr_active s)" "kv_ok (kr_pending s)"
    "kv_ok (kr_claims s)"
    "get_round s k = Some r \<Longrightarrow> round_ok env s k r" "get_claim s k = Some c \<Longrightarrow> claim_ok env k c"
    "kv_get (kr_pending s) k \<noteq> None \<longleftrightarrow> (\<exists>r. get_round s k = Some r \<and> has_pending_funds r)"
    "kv_get (kr_active s) k \<noteq> None \<longleftrightarrow> (\<exists>r. get_round s k = Some r \<and> \<not> closed_phase (rd_phase r))"
  using assms unfolding kr_inv_def by blast+

text \<open>The invariant reads the records and the indexes only.\<close>

lemma kr_inv_frame:
  assumes "kr_inv env s" "kr_rounds s' = kr_rounds s" "kr_claims s' = kr_claims s" "kr_claim_rounds s' = kr_claim_rounds s"
    "kr_active s' = kr_active s" "kr_pending s' = kr_pending s" "kr_record_integrity s'" "kr_cursor s' \<noteq> Some []"
  shows "kr_inv env s'"
  using assms by (simp add: kr_inv_def get_round_def get_claim_def round_ok_def cong: if_cong)

lemma valid_round_ids: "valid_round env r e \<Longrightarrow> rd_id r \<noteq> [] \<and> rd_claim_id r \<noteq> []"
  by (simp add: valid_round_def)

lemma valid_round_plans: "valid_round env r e \<Longrightarrow> valid_reward_plan env r \<and> valid_refund_plan env r"
  by (simp add: valid_round_def)

lemma neutral_round: "valid_round env r e \<Longrightarrow> rd_policy r = policy_neutral \<Longrightarrow> rd_scheme r = scheme_review_v2"
  by (simp add: valid_round_def)

section \<open>How a stored round evolves\<close>

definition round_evolves :: "verification_round \<Rightarrow> verification_round \<Rightarrow> bool" where
  "round_evolves p r \<longleftrightarrow>
     same_identity p r \<and> (rd_policy p = policy_neutral \<longrightarrow> same_timing p r) \<and>
     (rd_scheme p = scheme_review_v2 \<longrightarrow> reviews_extended p r) \<and>
     reward_plan_update_ok (Some p) r \<and> refund_plan_update_ok (Some p) r"

lemma extends_refl [simp]: "extends_list xs xs"
  by (simp add: extends_list_def)

lemma extends_iff: "extends_list xs ys \<longleftrightarrow> (\<exists>zs. ys = xs @ zs)"
proof
  assume "extends_list xs ys"
  then have "ys = xs @ drop (length xs) ys" unfolding extends_list_def by (metis append_take_drop_id)
  then show "\<exists>zs. ys = xs @ zs" by blast
qed (auto simp: extends_list_def)

lemma extends_trans: "extends_list xs ys \<Longrightarrow> extends_list ys zs \<Longrightarrow> extends_list xs zs"
  by (auto simp: extends_iff)

lemma extends_append [simp]: "extends_list xs (xs @ ys)"
  by (auto simp: extends_iff)

lemma reward_plan_update_refl: "reward_plan_update_ok (Some p) p"
  by (auto simp: reward_plan_update_ok_def split: option.split)

lemma refund_plan_update_refl: "refund_plan_update_ok (Some p) p"
  by (auto simp: refund_plan_update_ok_def split: option.split)

lemma reward_plan_update_trans:
  "reward_plan_update_ok (Some p) q \<Longrightarrow> reward_plan_update_ok (Some q) r \<Longrightarrow> reward_plan_update_ok (Some p) r"
  unfolding reward_plan_update_ok_def by (auto split: option.splits)

lemma refund_plan_update_trans:
  "refund_plan_update_ok (Some p) q \<Longrightarrow> refund_plan_update_ok (Some q) r \<Longrightarrow> refund_plan_update_ok (Some p) r"
  unfolding refund_plan_update_ok_def by (auto split: option.splits)

lemma round_evolves_refl [simp]: "round_evolves p p"
  by (simp add: round_evolves_def same_identity_def same_timing_def reviews_extended_def reward_plan_update_refl
      refund_plan_update_refl)

lemma round_evolves_trans: "round_evolves p q \<Longrightarrow> round_evolves q r \<Longrightarrow> round_evolves p r"
  unfolding round_evolves_def same_identity_def same_timing_def reviews_extended_def
  by (auto intro: extends_trans reward_plan_update_trans refund_plan_update_trans)

definition kr_evolves :: "'b kr_state \<Rightarrow> 'b kr_state \<Rightarrow> bool" where
  "kr_evolves s s' \<longleftrightarrow> (\<forall>k p. get_round s k = Some p \<longrightarrow> (\<exists>r. get_round s' k = Some r \<and> round_evolves p r))"

lemma kr_evolves_frame: "kr_rounds s' = kr_rounds s \<Longrightarrow> kr_evolves s s'"
  by (simp add: kr_evolves_def get_round_def)

lemma kr_evolves_trans: "kr_evolves s t \<Longrightarrow> kr_evolves t u \<Longrightarrow> kr_evolves s u"
  unfolding kr_evolves_def by (metis round_evolves_trans)

section \<open>Setters\<close>

text \<open>The state after the setter accepted a round.\<close>

definition with_round :: "verification_round \<Rightarrow> 'b kr_state \<Rightarrow> 'b kr_state" where
  "with_round r s = s\<lparr>
     kr_rounds := kv_set (rd_id r) r (kr_rounds s),
     kr_claim_rounds := (if kv_get (kr_claim_rounds s) (rd_claim_id r) \<in> {None, Some (rd_id r)}
       then kv_set (rd_claim_id r) (rd_id r) (kr_claim_rounds s) else kr_claim_rounds s),
     kr_active := (if closed_phase (rd_phase r) then kv_del (rd_id r) (kr_active s) else kv_set (rd_id r) () (kr_active s)),
     kr_pending := (if has_pending_funds r then kv_set (rd_id r) () (kr_pending s) else kv_del (rd_id r) (kr_pending s))\<rparr>"

lemma with_round_fields [simp]:
  "get_round (with_round r s) k = (if k = rd_id r then Some r else get_round s k)"
  "kr_claims (with_round r s) = kr_claims s" "get_claim (with_round r s) k = get_claim s k"
  "kr_record_integrity (with_round r s) = kr_record_integrity s" "kr_cursor (with_round r s) = kr_cursor s"
  "kr_bank (with_round r s) = kr_bank s" "kr_params (with_round r s) = kr_params s"
  "kr_neutrality (with_round r s) = kr_neutrality s" "kr_fund_settlement (with_round r s) = kr_fund_settlement s"
  "kr_claim_integrity (with_round r s) = kr_claim_integrity s"
  "kr_rounds (with_round r s) = kv_set (rd_id r) r (kr_rounds s)"
  "kv_get (kr_active (with_round r s)) k =
     (if k = rd_id r then (if closed_phase (rd_phase r) then None else Some ()) else kv_get (kr_active s) k)"
  "kv_get (kr_pending (with_round r s)) k =
     (if k = rd_id r then (if has_pending_funds r then Some () else None) else kv_get (kr_pending s) k)"
  "kv_ok (kr_active s) \<Longrightarrow> kv_ok (kr_active (with_round r s))"
  "kv_ok (kr_pending s) \<Longrightarrow> kv_ok (kr_pending (with_round r s))"
  by (simp_all add: with_round_def get_round_def get_claim_def)

lemma set_round_effect:
  assumes run: "set_verification_round env r s = Done s' u" and on: "kr_record_integrity s"
  obtains co where "round_claim env s r = Inr co" "check_round env s co r = Inr ()"
    "valid_review_policy (rd_policy r) (kr_neutrality s)" "s' = with_round r s"
proof -
  from run on obtain co where co: "round_claim env s r = Inr co" "check_round env s co r = Inr ()"
    "valid_review_policy (rd_policy r) (kr_neutrality s)" "write_round env r s = Done s' u"
    by (auto simp: set_verification_round_def outcome_simps)
  from co(4) have "s' = with_round r s"
    by (auto simp: write_round_def Let_def outcome_simps sync_pending_def sync_active_def with_round_def split: if_splits)
  with co that show thesis by blast
qed

lemma set_round_iff:
  assumes "kr_record_integrity s"
  shows "set_verification_round env r s = Done s' u \<longleftrightarrow>
    valid_review_policy (rd_policy r) (kr_neutrality s) \<and>
    (\<exists>co. round_claim env s r = Inr co \<and> check_round env s co r = Inr ()) \<and> s' = with_round r s"
proof
  assume "set_verification_round env r s = Done s' u"
  from set_round_effect [OF this assms] show "valid_review_policy (rd_policy r) (kr_neutrality s) \<and>
    (\<exists>co. round_claim env s r = Inr co \<and> check_round env s co r = Inr ()) \<and> s' = with_round r s" by metis
next
  assume *: "valid_review_policy (rd_policy r) (kr_neutrality s) \<and>
    (\<exists>co. round_claim env s r = Inr co \<and> check_round env s co r = Inr ()) \<and> s' = with_round r s"
  then have "valid_round env r True" by (auto simp: check_round_def Let_def outcome_simps)
  then have "write_round env r s = Done (with_round r s) ()"
    using valid_round_plans [of env r True]
    by (auto simp: write_round_def Let_def cached_def sync_pending_def sync_active_def with_round_def)
  with * assms show "set_verification_round env r s = Done s' u"
    by (auto simp: set_verification_round_def outcome_simps)
qed

lemma check_roundD:
  assumes "check_round env s co r = Inr ()"
  shows "valid_round env r True" "co = Some c \<Longrightarrow> valid_funding_round env (Some c) r" "co = None \<Longrightarrow> rd_refund r = None"
    "get_round s (rd_id r) = Some p \<Longrightarrow> round_update_ok env p r \<and> round_evolves p r"
    "get_round s (rd_id r) = None \<Longrightarrow> kv_get (kr_claim_rounds s) (rd_claim_id r) \<in> {None, Some (rd_id r)}"
  using assms
  by (auto simp: check_round_def Let_def outcome_simps round_update_ok_def round_evolves_def same_identity_def split: option.splits)

lemma round_claimD:
  assumes "round_claim env s r = Inr co"
  shows "get_claim s (rd_claim_id r) = co" "co = Some c \<Longrightarrow> kc_policy c = rd_policy r"
    "rd_policy r = policy_neutral \<Longrightarrow> co \<noteq> None"
  using assms by (cases "get_claim s (rd_claim_id r)"; auto simp: round_claim_def split: if_splits)+

text \<open>The pointer from a claim to its round may be set after the round was checked.\<close>

lemma funding_terms_pointer: "valid_funding_terms env (c\<lparr>kc_round_id := x\<rparr>) e = valid_funding_terms env c e"
  by (simp add: valid_funding_terms_def cong: option.case_cong prod.case_cong claim_funding_kind.case_cong)

lemma funding_round_pointer:
  "valid_funding_round env (Some c) r \<Longrightarrow> valid_funding_round env (Some (c\<lparr>kc_round_id := []\<rparr>)) r"
  by (auto simp: valid_funding_round_def funding_terms_pointer funded_refund_ok_def Let_def split: option.splits if_splits)

lemma legacy_no_refund:
  assumes "claim_ok env k c" "kc_policy c \<noteq> policy_neutral" "valid_funding_round env (Some c) r"
  shows "rd_refund r = None"
  using assms by (auto simp: claim_ok_def valid_funding_terms_def valid_funding_round_def split: option.splits)

lemma kr_inv_with_round:
  assumes inv: "kr_inv env s" and co: "round_claim env s r = Inr co" and ok: "check_round env s co r = Inr ()"
  shows "kr_inv env (with_round r s)" "kr_evolves s (with_round r s)"
proof -
  note inv' = kr_invD [OF inv]
  have idx: "kv_get (kr_claim_rounds s) (rd_claim_id r) \<in> {None, Some (rd_id r)}"
  proof (cases "get_round s (rd_id r)")
    case None
    then show ?thesis by (rule check_roundD(5) [OF ok])
  next
    case (Some p)
    with check_roundD(4) [OF ok Some] inv'(7) [OF Some] show ?thesis
      by (auto simp: round_ok_def round_evolves_def same_identity_def)
  qed
  have funded: "if rd_policy r = policy_neutral
    then \<exists>c. get_claim s (rd_claim_id r) = Some c \<and> kc_policy c = policy_neutral \<and> valid_funding_round env (Some (c\<lparr>kc_round_id := []\<rparr>)) r
    else rd_refund r = None"
  proof (cases co)
    case None
    with check_roundD(3) [OF ok] round_claimD(3) [OF co] show ?thesis by auto
  next
    case (Some c)
    with round_claimD [OF co] check_roundD(2) [OF ok Some] inv'(8) [of "rd_claim_id r" c] show ?thesis
      by (auto intro: funding_round_pointer legacy_no_refund)
  qed
  have mine: "round_ok env (with_round r s) (rd_id r) r"
    using idx funded check_roundD(1) [OF ok] by (auto simp: round_ok_def with_round_def get_claim_def)
  have rest: "round_ok env (with_round r s) k q" if q: "get_round s k = Some q" "k \<noteq> rd_id r" for k q
  proof -
    from inv'(7) [OF q(1)] idx q(2) have "rd_claim_id q \<noteq> rd_claim_id r" by (auto simp: round_ok_def)
    with inv'(7) [OF q(1)] show ?thesis by (auto simp: round_ok_def with_round_def get_claim_def)
  qed
  show "kr_inv env (with_round r s)"
    unfolding kr_inv_def
  proof (intro conjI allI impI)
    show "round_ok env (with_round r s) k q" if "get_round (with_round r s) k = Some q" for k q
      using that mine rest by (simp split: if_splits)
    show "claim_ok env k c" if "get_claim (with_round r s) k = Some c" for k c
      using that inv'(8) by simp
    show "kv_get (kr_pending (with_round r s)) k \<noteq> None \<longleftrightarrow> (\<exists>q. get_round (with_round r s) k = Some q \<and> has_pending_funds q)" for k
      using inv'(9) [of k] by simp
    show "kv_get (kr_active (with_round r s)) k \<noteq> None \<longleftrightarrow>
        (\<exists>q. get_round (with_round r s) k = Some q \<and> \<not> closed_phase (rd_phase q))" for k
      using inv'(10) [of k] by simp
  qed (simp_all add: inv'(1-6))
  show "kr_evolves s (with_round r s)"
    using check_roundD(4) [OF ok] by (auto simp: kr_evolves_def)
qed

lemma set_round_kept:
  assumes "kr_inv env s" "set_verification_round env r s = Done s' u"
  shows "kr_inv env s' \<and> kr_evolves s s' \<and> kr_claims s' = kr_claims s \<and> kr_bank s' = kr_bank s"
  using set_round_effect [OF assms(2) kr_invD(1) [OF assms(1)]] kr_inv_with_round [OF assms(1)]
  by (metis with_round_fields(2,6))

end
