(* ===== verification/KR_Chain.thy ===== *)
theory KR_Chain
  imports KR_Inv
begin

text \<open>
  x/knowledge, the review protocol on a chain: every write to the records keeps the invariant and only
  extends the stored rounds, the block hook always returns, and the locale interpretations lift both to
  every reachable state and to every run.
\<close>

section \<open>Claims\<close>

lemma funding_terms_mono: "valid_funding_terms env c e \<Longrightarrow> valid_funding_terms env c True"
  by (auto simp: valid_funding_terms_def split: option.splits)

lemma funding_terms_same:
  assumes "kc_funding c = kc_funding p" "kc_policy c = kc_policy p"
    "kc_funding p \<noteq> None \<Longrightarrow> kc_id c = kc_id p \<and> kc_submitter c = kc_submitter p \<and> kc_stake c = kc_stake p"
  shows "valid_funding_terms env c e = valid_funding_terms env p e"
  using assms by (cases "kc_funding p") (simp_all add: valid_funding_terms_def cong: option.case_cong prod.case_cong)

lemma funding_round_same:
  assumes "kc_funding c = kc_funding p" "kc_policy c = kc_policy p"
    "kc_funding p \<noteq> None \<Longrightarrow> kc_id c = kc_id p \<and> kc_submitter c = kc_submitter p \<and> kc_stake c = kc_stake p"
    "valid_funding_round env (Some (p\<lparr>kc_round_id := []\<rparr>)) r"
  shows "valid_funding_round env (Some (c\<lparr>kc_round_id := []\<rparr>)) r"
proof (cases "kc_funding p")
  case None
  with assms show ?thesis by (simp add: valid_funding_round_def)
next
  case (Some t)
  have "valid_funding_terms env (c\<lparr>kc_round_id := []\<rparr>) True = valid_funding_terms env (p\<lparr>kc_round_id := []\<rparr>) True"
    unfolding funding_terms_pointer by (rule funding_terms_same) (use assms in auto)
  moreover have "funded_refund_ok (c\<lparr>kc_round_id := []\<rparr>) t r = funded_refund_ok (p\<lparr>kc_round_id := []\<rparr>) t r"
    using assms(3) Some by (simp add: funded_refund_ok_def Let_def cong: option.case_cong if_cong)
  ultimately show ?thesis using assms Some by (simp add: valid_funding_round_def)
qed

lemma index_claim_fields [simp]:
  "kr_rounds (index_claim c s) = kr_rounds s" "kr_claims (index_claim c s) = kr_claims s"
  "kr_claim_rounds (index_claim c s) = kr_claim_rounds s" "kr_active (index_claim c s) = kr_active s"
  "kr_pending (index_claim c s) = kr_pending s" "kr_record_integrity (index_claim c s) = kr_record_integrity s"
  "kr_cursor (index_claim c s) = kr_cursor s" "kr_bank (index_claim c s) = kr_bank s"
  by (simp_all add: index_claim_def Let_def)

lemma set_claim_effect:
  assumes "set_claim env c s = Done s' u"
  obtains "claim_policy s c = Inr (kc_policy c)" "validate_claim_funding env s c" "claim_update_ok env (get_claim s (kc_id c)) c"
    "kr_claims s' = kv_set (kc_id c) c (kr_claims s)" "kr_rounds s' = kr_rounds s" "kr_claim_rounds s' = kr_claim_rounds s"
    "kr_active s' = kr_active s" "kr_pending s' = kr_pending s" "kr_record_integrity s' = kr_record_integrity s"
    "kr_cursor s' = kr_cursor s" "kr_bank s' = kr_bank s"
proof -
  from assms have "claim_policy s c = Inr (kc_policy c)" "validate_claim_funding env s c" "claim_update_ok env (get_claim s (kc_id c)) c"
    by (auto simp: set_claim_def Let_def outcome_simps claim_policy_def)
  moreover from assms have "s' \<in> {s\<lparr>kr_claims := kv_set (kc_id c) c (kr_claims s)\<rparr>,
      index_claim c (s\<lparr>kr_claims := kv_set (kc_id c) c (kr_claims s)\<rparr>)}"
    by (auto simp: set_claim_def Let_def outcome_simps)
  ultimately show thesis using that by auto
qed

lemma set_claim_kept:
  assumes inv: "kr_inv env s" and run: "set_claim env c s = Done s' u"
  shows "kr_inv env s'"
  using run
proof (rule set_claim_effect)
  assume ok: "claim_update_ok env (get_claim s (kc_id c)) c" and f: "validate_claim_funding env s c"
    and s': "kr_claims s' = kv_set (kc_id c) c (kr_claims s)" "kr_rounds s' = kr_rounds s" "kr_claim_rounds s' = kr_claim_rounds s"
      "kr_active s' = kr_active s" "kr_pending s' = kr_pending s" "kr_record_integrity s' = kr_record_integrity s"
      "kr_cursor s' = kr_cursor s"
  note inv' = kr_invD [OF inv]
  have claim: "get_claim s' k = (if k = kc_id c then Some c else get_claim s k)" for k
    by (simp add: get_claim_def s'(1))
  have round: "get_round s' k = get_round s k" for k by (simp add: get_round_def s'(2))
  have "round_ok env s' k r" if r: "get_round s k = Some r" for k r
  proof (cases "rd_policy r = policy_neutral \<and> rd_claim_id r = kc_id c")
    case False
    with inv'(7) [OF r] show ?thesis by (auto simp: round_ok_def s'(3) claim)
  next
    case True
    with inv'(7) [OF r] obtain p where p: "get_claim s (kc_id c) = Some p" "kc_policy p = policy_neutral"
      "valid_funding_round env (Some (p\<lparr>kc_round_id := []\<rparr>)) r" by (auto simp: round_ok_def)
    with ok have "kc_policy c = kc_policy p" "kc_funding c = kc_funding p"
      "kc_funding p \<noteq> None \<Longrightarrow> kc_id c = kc_id p \<and> kc_submitter c = kc_submitter p \<and> kc_stake c = kc_stake p"
      by (auto simp: claim_update_ok_def funding_update_ok_def)
    with p funding_round_same [of c p env r] True inv'(7) [OF r] show ?thesis
      by (simp add: round_ok_def s'(3) claim)
  qed
  moreover have "claim_ok env k d" if "get_claim s' k = Some d" for k d
    using that f inv'(8) by (auto simp: claim claim_ok_def validate_claim_funding_def intro: funding_terms_mono split: if_splits)
  ultimately show "kr_inv env s'"
    using inv'(1-6,9,10) unfolding kr_inv_def s'(2,4-7) round by (simp add: s'(1))
qed

lemma create_round_kept:
  assumes "kr_inv env s" "create_verification_round env chain h c s = Done s' r"
  shows "kr_inv env s' \<and> kr_evolves s s'"
proof -
  from assms(2) obtain t where t: "set_verification_round env r s = Done t ()"
    and c: "set_claim env (c\<lparr>kc_round_id := rd_id r, kc_status := CLAIM_IN_VERIFICATION\<rparr>) t = Done s' ()"
    by (auto simp: create_verification_round_def Let_def outcome_simps)
  have "kr_rounds s' = kr_rounds t" using c by (rule set_claim_effect)
  then have "kr_evolves t s'" by (rule kr_evolves_frame)
  with set_round_kept [OF assms(1) t] set_claim_kept [OF _ c] show ?thesis
    by (blast intro: kr_evolves_trans)
qed

section \<open>Commitments and reveals\<close>

lemma store_commitment_effect:
  assumes "store_commitment env k c s = Done s' u"
  obtains r where "get_round s k = Some r" "rd_phase r = PHASE_COMMIT" "commit_scheme_ok env s r c"
    "kr_claim_integrity s \<Longrightarrow> refuse_conflicted env s r (cm_verifier c) = Inr ()"
    "find_commit (rd_commits r) (cm_verifier c) = None" "set_verification_round env (add_commit c r) s = Done s' ()"
  using assms by (auto simp: store_commitment_def outcome_simps split: option.splits if_splits)

lemma store_reveal_effect:
  assumes "store_reveal env k v conf s = Done s' u"
  obtains r c w where "get_round s k = Some r" "rd_phase r = PHASE_REVEAL" "find_commit (rd_commits r) (rv_verifier v) = Some c"
    "match_reveal env s (r\<lparr>rd_id := k\<rparr>) c v conf = Inr w" "find_reveal (rd_reveals r) (rv_verifier w) = None"
    "set_verification_round env (r\<lparr>rd_reveals := rd_reveals r @ [w]\<rparr>) s = Done s' ()"
  using assms by (auto simp: store_reveal_def outcome_simps split: option.splits if_splits)

lemma submit_commitment_effect:
  assumes "submit_commitment env h k v hash s = Done s' u"
  obtains r policy where "get_round s k = Some r" "policy_for_round env s r = Inr policy" "rd_phase r = PHASE_COMMIT"
    "to_u64 h \<le> rd_commit_deadline r" "length (rd_commits r) < commit_seat_hard_cap" "reviewer_funded env s v = Inr ()"
    "policy = policy_legacy \<Longrightarrow> reviewer_qualified s h r v = Inr ()"
    "store_commitment env k \<lparr>cm_verifier = v, cm_hash = hash, cm_at_block = to_u64 h\<rparr> s = Done s' ()"
  using assms by (auto simp: submit_commitment_def outcome_simps not_less not_le split: option.splits if_splits)

lemma submit_reveal_effect:
  assumes "submit_reveal env h m s = Done s' u"
  obtains r where "get_round s (rm_round m) = Some r" "rd_phase r = PHASE_REVEAL" "to_u64 h \<le> rd_reveal_deadline r"
    "known_vote (rm_vote m)" "store_reveal env (rm_round m) (revealed_entry h m) (rm_confidence m) s = Done s' ()"
  using assms by (auto simp: submit_reveal_def outcome_simps not_less split: option.splits if_splits)

datatype kr_msg = MsgSubmitCommitment string string string | MsgSubmitReveal reveal_msg

fun kr_handle :: "'b review_env \<Rightarrow> int \<Rightarrow> kr_msg \<Rightarrow> 'b kr_state \<Rightarrow> ('b, unit) review_result" where
  "kr_handle env h (MsgSubmitCommitment k v hash) s = submit_commitment env h k v hash s"
| "kr_handle env h (MsgSubmitReveal m) s = submit_reveal env h m s"

lemma kr_handle_round:
  assumes "kr_handle env h m s = Done s' u"
  shows "\<exists>r. set_verification_round env r s = Done s' ()"
proof (cases m)
  case (MsgSubmitCommitment k v hash)
  with assms have "submit_commitment env h k v hash s = Done s' u" by simp
  then show ?thesis
  proof (rule submit_commitment_effect)
    assume "store_commitment env k \<lparr>cm_verifier = v, cm_hash = hash, cm_at_block = to_u64 h\<rparr> s = Done s' ()"
    then show ?thesis by (rule store_commitment_effect) blast
  qed
next
  case (MsgSubmitReveal x)
  with assms have "submit_reveal env h x s = Done s' u" by simp
  then show ?thesis
  proof (rule submit_reveal_effect)
    assume "store_reveal env (rm_round x) (revealed_entry h x) (rm_confidence x) s = Done s' ()"
    then show ?thesis by (rule store_reveal_effect) blast
  qed
qed

section \<open>Settlement\<close>

lemma review_bank_frame: "review_bank f s = Done s' u \<Longrightarrow> s' = s\<lparr>kr_bank := kr_bank s'\<rparr>"
  by (auto simp: review_bank_def outcome_simps)

lemma pay_account_frame: "pay_account env a x s = Done s' u \<Longrightarrow> s' = s\<lparr>kr_bank := kr_bank s'\<rparr>"
  by (auto simp: pay_account_def outcome_simps dest: review_bank_frame)

lemma pay_withheld_frame: "pay_withheld env x s = Done s' u \<Longrightarrow> s' = s\<lparr>kr_bank := kr_bank s'\<rparr>"
  by (auto simp: pay_withheld_def outcome_simps dest: review_bank_frame split: if_splits)

lemma bank_frame_trans:
  "t = s\<lparr>kr_bank := kr_bank t\<rparr> \<Longrightarrow> u = t\<lparr>kr_bank := kr_bank u\<rparr> \<Longrightarrow> u = (s :: 'b kr_state)\<lparr>kr_bank := kr_bank u\<rparr>"
  by (cases s; cases t; cases u) simp

lemma pay_reviewers_frame: "pay_reviewers env ps s = Done s' u \<Longrightarrow> s' = s\<lparr>kr_bank := kr_bank s'\<rparr>"
proof (induction ps arbitrary: s)
  case (Cons p ps)
  show ?case
  proof (cases "u64_of_amount (rp_amount p) = 0")
    case True
    with Cons show ?thesis by simp
  next
    case False
    with Cons.prems obtain t where t: "pay_account env (rp_verifier p) (u64_of_amount (rp_amount p)) s = Done t ()"
      "pay_reviewers env ps t = Done s' u" by (auto simp: outcome_simps)
    show ?thesis by (rule bank_frame_trans [OF pay_account_frame [OF t(1)] Cons.IH [OF t(2)]])
  qed
qed simp

lemma pay_plans_run:
  assumes "pay_plans env r s = Done s' u"
  obtains t where
    "case owed_rewards r of None \<Rightarrow> t = s
     | Some p \<Rightarrow> \<exists>m. pay_reviewers env (wp_payments p) s = Done m () \<and> pay_withheld env (u64_of_amount (wp_withheld_total p)) m = Done t ()"
    "case owed_refund r of None \<Rightarrow> s' = t
     | Some p \<Rightarrow> pay_account env (rf_recipient p) (u64_of_amount (rf_amount p)) t = Done s' ()"
  using assms by (auto simp: pay_plans_def outcome_simps split: option.splits)

lemma pay_plans_frame:
  assumes "pay_plans env r s = Done s' u"
  shows "s' = s\<lparr>kr_bank := kr_bank s'\<rparr>"
proof -
  from assms obtain t where t: "case owed_rewards r of None \<Rightarrow> t = s
     | Some p \<Rightarrow> \<exists>m. pay_reviewers env (wp_payments p) s = Done m () \<and> pay_withheld env (u64_of_amount (wp_withheld_total p)) m = Done t ()"
    "case owed_refund r of None \<Rightarrow> s' = t
     | Some p \<Rightarrow> pay_account env (rf_recipient p) (u64_of_amount (rf_amount p)) t = Done s' ()" by (rule pay_plans_run)
  have "t = s\<lparr>kr_bank := kr_bank t\<rparr>"
    using t(1) by (auto split: option.splits dest!: pay_reviewers_frame pay_withheld_frame intro: bank_frame_trans)
  moreover have "s' = t\<lparr>kr_bank := kr_bank s'\<rparr>"
    using t(2) by (auto split: option.splits dest: pay_account_frame)
  ultimately show ?thesis by (rule bank_frame_trans)
qed

lemma kr_inv_bank: "kr_inv env s \<Longrightarrow> kr_inv env (s\<lparr>kr_bank := b\<rparr>)"
  by (rule kr_inv_frame) (auto dest: kr_invD)

lemma try_settle_Fail: "try_settle env h k s = Fail s' e \<Longrightarrow> s' = s"
  by (auto simp: try_settle_def try_in_def split: sum.splits if_splits dest: cached_Fail)

text \<open>A settlement pays the owed plans and marks them, or does nothing.\<close>

lemma try_settle_effect:
  assumes run: "try_settle env h k s = Done s' u" and on: "kr_record_integrity s"
  obtains (settled) r where "get_round s k = Some r" "rd_id r = k" "\<not> has_pending_funds r" "s' = s"
  | (paid) r b where "get_round s k = Some r" "rd_id r = k" "has_pending_funds r" "validate_round_funding env s r = Inr ()"
      "0 < h" "rd_verdict_block r \<le> to_u64 h" "pay_plans env r s = Done (s\<lparr>kr_bank := b\<rparr>) ()"
      "set_verification_round env (marked_paid (to_u64 h) r) (s\<lparr>kr_bank := b\<rparr>) = Done s' ()"
proof -
  from run on obtain r where r: "get_round s k = Some r" "rd_id r = k" "validate_round_funding env s r = Inr ()"
    and rest: "if \<not> has_pending_funds r then s' = s else 0 < h \<and> rd_verdict_block r \<le> to_u64 h \<and>
      (\<exists>t. pay_plans env r s = Done t () \<and> set_verification_round env (marked_paid (to_u64 h) r) t = Done s' ())"
    by (auto simp: try_settle_def outcome_simps get_round_checked_def not_le not_less split: option.splits if_splits)
  show thesis
  proof (cases "has_pending_funds r")
    case False
    with settled r rest show thesis by simp
  next
    case True
    with rest obtain t where "0 < h" "rd_verdict_block r \<le> to_u64 h" and t: "pay_plans env r s = Done t ()"
      "set_verification_round env (marked_paid (to_u64 h) r) t = Done s' ()" by auto
    moreover have "t = s\<lparr>kr_bank := kr_bank t\<rparr>" by (rule pay_plans_frame [OF t(1)])
    ultimately show thesis using paid [of r "kr_bank t"] True r by simp
  qed
qed

lemma try_settle_kept:
  assumes inv: "kr_inv env s" and run: "try_settle env h k s = Done s' u"
  shows "kr_inv env s' \<and> kr_evolves s s' \<and> kr_cursor s' = kr_cursor s \<and> (\<forall>j. j \<noteq> k \<longrightarrow> get_round s' j = get_round s j)"
  using run kr_invD(1) [OF inv]
proof (cases rule: try_settle_effect)
  case (settled r)
  with inv kr_evolves_frame [of s' s] show ?thesis by simp
next
  case (paid r b)
  let ?t = "s\<lparr>kr_bank := b\<rparr>"
  have on: "kr_record_integrity ?t" using kr_invD(1) [OF inv] by simp
  from set_round_effect [OF paid(8) on] have s': "s' = with_round (marked_paid (to_u64 h) r) ?t" by blast
  have "kr_evolves s ?t" by (rule kr_evolves_frame) simp
  with set_round_kept [OF kr_inv_bank [OF inv] paid(8)] have "kr_inv env s' \<and> kr_evolves s s'"
    by (blast intro: kr_evolves_trans)
  moreover have "rd_id (marked_paid (to_u64 h) r) = k" using paid(2) by (simp add: marked_paid_def)
  ultimately show ?thesis by (simp add: s' get_round_def)
qed

section \<open>The payment queue\<close>

definition queued :: "'b kr_state \<Rightarrow> string \<Rightarrow> bool" where
  "queued s k \<longleftrightarrow> kv_get (kr_pending s) k \<noteq> None"

lemma queued_round:
  "kr_inv env s \<Longrightarrow> queued s k \<Longrightarrow> \<exists>r. get_round s k = Some r \<and> get_round_checked s k = Inr r \<and> plans_valid env r = Inr () \<and> has_pending_funds r"
  using kr_invD(9) [of env s k] kr_invD(7) [of env s k] valid_round_plans
  by (fastforce simp: queued_def round_ok_def get_round_checked_def plans_valid_def)

lemma settle_step:
  assumes "kr_inv env s" and s': "s' = final_state (try_settle env h k s)"
  shows "kr_inv env s' \<and> kr_evolves s s' \<and> kr_cursor s' = kr_cursor s \<and> (\<forall>j. j \<noteq> k \<longrightarrow> get_round s' j = get_round s j)"
proof (cases "try_settle env h k s")
  case (Done t u)
  with try_settle_kept [OF assms(1) Done] show ?thesis by (simp add: s')
next
  case (Fail t e)
  with try_settle_Fail [OF Fail] assms(1) kr_evolves_frame [of s s] show ?thesis by (simp add: s')
qed

lemma queued_other:
  "kr_inv env s \<Longrightarrow> kr_inv env s' \<Longrightarrow> get_round s' j = get_round s j \<Longrightarrow> queued s' j = queued s j"
  using kr_invD(9) [of env s j] kr_invD(9) [of env s' j] by (simp add: queued_def)

lemma settle_batch_runs:
  assumes "kr_inv env s" "distinct ks" "\<forall>k \<in> set ks. queued s k"
  shows "\<exists>s' f cut. settle_batch env h ks budget final s = Done s' (f, cut) \<and> f \<in> insert final (Some ` set ks) \<and>
    kr_inv env s' \<and> kr_evolves s s' \<and> kr_cursor s' = kr_cursor s"
  using assms
proof (induction ks arbitrary: budget final s)
  case Nil
  then show ?case using kr_evolves_frame [of s s] by simp blast
next
  case (Cons k ks)
  from queued_round [OF Cons.prems(1)] Cons.prems(3) obtain r where
    r: "get_round_checked s k = Inr r" "plans_valid env r = Inr ()" "has_pending_funds r" by fastforce
  show ?case
  proof (cases "budget < pending_transfers r")
    case True
    with r Cons.prems(1) kr_evolves_frame [of s s] show ?thesis by simp blast
  next
    case False
    let ?t = "final_state (try_settle env h k s)"
    have t: "kr_inv env ?t" "kr_evolves s ?t" "kr_cursor ?t = kr_cursor s" "\<And>j. j \<noteq> k \<Longrightarrow> get_round ?t j = get_round s j"
      using settle_step [OF Cons.prems(1) refl, of h k] by blast+
    have "\<forall>j \<in> set ks. queued ?t j"
      using Cons.prems(2,3) queued_other [OF Cons.prems(1) t(1) t(4)] by (metis distinct.simps(2) list.set_intros(2))
    with Cons.IH [OF t(1), of "budget - pending_transfers r" "Some k"] Cons.prems(2) r False t(2,3) show ?thesis
      by (fastforce intro: kr_evolves_trans)
  qed
qed

lemma queue_keys:
  assumes "kr_inv env s"
  shows "distinct (queue_after c s)" "\<forall>k \<in> set (queue_after c s). queued s k \<and> k \<noteq> []"
proof -
  show "distinct (queue_after c s)"
    using kv_ok_distinct [OF kr_invD(5) [OF assms]] by (auto simp: queue_after_def split: option.split)
  have "queued s k" if "k \<in> set (map fst (kr_pending s))" for k
    using that kv_get_None_mem [of "kr_pending s" k] by (auto simp: queued_def)
  moreover have "k \<noteq> []" if "queued s k" for k
    using queued_round [OF assms that] kr_invD(7) [OF assms] valid_round_ids by (fastforce simp: round_ok_def)
  ultimately show "\<forall>k \<in> set (queue_after c s). queued s k \<and> k \<noteq> []"
    by (auto simp: queue_after_def split: option.splits)
qed

lemma process_pending_runs:
  assumes inv: "kr_inv env s"
  shows "\<exists>s'. process_pending env h s = Done s' () \<and> kr_inv env s' \<and> kr_evolves s s'"
proof -
  define queue where "queue = queue_after (kr_cursor s) s"
  have keys: "distinct (take pending_batch queue)" "\<forall>k \<in> set (take pending_batch queue). queued s k" "[] \<notin> set (take pending_batch queue)"
    using queue_keys [OF inv] by (auto simp: queue_def dest: in_set_takeD)
  from settle_batch_runs [OF inv keys(1,2)] obtain t final cut where
    run: "settle_batch env h (take pending_batch queue) transfer_budget None s = Done t (final, cut)"
    and t: "final \<in> insert None (Some ` set (take pending_batch queue))" "kr_inv env t" "kr_evolves s t" by blast
  define s' where "s' = (if length queue \<le> pending_batch \<and> \<not> cut then t\<lparr>kr_cursor := None\<rparr>
    else case final of None \<Rightarrow> t | Some k \<Rightarrow> t\<lparr>kr_cursor := Some k\<rparr>)"
  have "process_pending env h s = Done s' ()"
    using kr_invD(1,2) [OF inv] keys(3) run
    by (simp add: process_pending_def Let_def s'_def flip: queue_def split: option.split)
  moreover have "kr_inv env s'"
    unfolding s'_def using t(1) keys(3) kr_invD(1,2) [OF t(2)]
    by (auto intro!: kr_inv_frame [OF t(2)] split: option.split)
  moreover have "kr_evolves s s'"
    by (rule kr_evolves_trans [OF t(3) kr_evolves_frame]) (simp add: s'_def split: option.split)
  ultimately show ?thesis by blast
qed

section \<open>On a chain\<close>

text \<open>A chain that started with record integrity on.\<close>

definition kr_init :: "'b kr_state \<Rightarrow> bool" where
  "kr_init s \<longleftrightarrow> kr_record_integrity s \<and> kr_rounds s = [] \<and> kr_claims s = [] \<and> kr_claim_rounds s = [] \<and> kr_active s = [] \<and>
     kr_pending s = [] \<and> kr_cursor s = None"

text \<open>
  What the rest of the module and of the chain may do between the steps of the review: write a round or a
  claim through its setter, open a round, settle one, and change anything that the review only reads.
\<close>

definition same_other_records :: "'b kr_state \<Rightarrow> 'b kr_state \<Rightarrow> bool" where
  "same_other_records s s' \<longleftrightarrow>
     kr_rounds s' = kr_rounds s \<and> kr_claims s' = kr_claims s \<and> kr_claim_rounds s' = kr_claim_rounds s \<and>
     kr_active s' = kr_active s \<and> kr_pending s' = kr_pending s \<and> kr_cursor s' = kr_cursor s \<and> kr_record_integrity s'"

definition kr_others :: "'b review_env \<Rightarrow> 'b kr_state \<Rightarrow> 'b kr_state \<Rightarrow> bool" where
  "kr_others env s s' \<longleftrightarrow>
     (\<exists>r. set_verification_round env r s = Done s' ()) \<or> (\<exists>c. set_claim env c s = Done s' ()) \<or>
     (\<exists>chain h c r. create_verification_round env chain h c s = Done s' r) \<or>
     (\<exists>h k. try_settle env h k s = Done s' ()) \<or> same_other_records s s'"

lemma kr_others_kept:
  assumes "kr_inv env s" "kr_others env s s'"
  shows "kr_inv env s' \<and> kr_evolves s s'"
proof -
  have "kr_evolves s s'" if "set_claim env c s = Done s' ()" for c
    using that by (rule set_claim_effect) (rule kr_evolves_frame)
  moreover have "kr_inv env s' \<and> kr_evolves s s'" if "same_other_records s s'"
    using that kr_inv_frame [OF assms(1), of s'] kr_evolves_frame [of s' s] kr_invD(2) [OF assms(1)] by (simp add: same_other_records_def)
  ultimately show ?thesis
    using assms set_round_kept [OF assms(1)] set_claim_kept [OF assms(1)] create_round_kept [OF assms(1)] try_settle_kept [OF assms(1)]
    unfolding kr_others_def by blast
qed

lemma kr_handle_kept:
  assumes "kr_inv env s" "kr_handle env h m s = Done s' u"
  shows "kr_inv env s' \<and> kr_evolves s s'"
  using kr_handle_round [OF assms(2)] set_round_kept [OF assms(1)] by blast

lemma kr_init_inv: "kr_init s \<Longrightarrow> kr_inv env s"
  by (simp add: kr_init_def kr_inv_def get_round_def get_claim_def)

interpretation kr: live_module "\<lambda>h. kr_init" "kr_handle env" "\<lambda>s m. True" "process_pending env" "kr_others env" "\<lambda>h. kr_inv env"
  for env :: "'b review_env"
proof unfold_locales
  fix h and s s' :: "'b kr_state" and m u
  show "kr_init s \<Longrightarrow> kr_inv env s" by (rule kr_init_inv)
  show "kr_inv env s \<Longrightarrow> kr_handle env h m s = Done s' u \<Longrightarrow> kr_inv env s'" using kr_handle_kept by blast
  show "kr_inv env s \<Longrightarrow> process_pending env (h + 1) s = Done s' u \<Longrightarrow> kr_inv env s'"
    using process_pending_runs [of env s "h + 1"] by auto
  show "kr_inv env s \<Longrightarrow> kr_others env s s' \<Longrightarrow> kr_inv env s'" using kr_others_kept by blast
  show "kr_inv env s \<Longrightarrow> \<exists>s'. process_pending env (h + 1) s = Done s' ()" using process_pending_runs by blast
qed

abbreviation kr_reachable :: "'b review_env \<Rightarrow> int \<Rightarrow> 'b kr_state \<Rightarrow> bool" where
  "kr_reachable env \<equiv> chain_reachable (\<lambda>h. kr_init) (kr_handle env) (\<lambda>s m. True) (process_pending env) (kr_others env)"

text \<open>The same chain from a given state on: the stored rounds only evolve.\<close>

interpretation kr_from: chain_module "\<lambda>h s. kr_reachable env h s \<and> h = h0 \<and> s = s0" "kr_handle env" "\<lambda>s m. True" "process_pending env"
  "kr_others env" "\<lambda>h s. kr_inv env s \<and> kr_evolves s0 s"
  for env :: "'b review_env" and h0 s0
proof unfold_locales
  fix h and s s' :: "'b kr_state" and m u
  show "kr_reachable env h s \<and> h = h0 \<and> s = s0 \<Longrightarrow> kr_inv env s \<and> kr_evolves s0 s"
    using kr_evolves_frame [of s s0] kr.reachable_inv by auto
  show "kr_inv env s \<and> kr_evolves s0 s \<Longrightarrow> kr_handle env h m s = Done s' u \<Longrightarrow> kr_inv env s' \<and> kr_evolves s0 s'"
    using kr_handle_kept kr_evolves_trans by blast
  show "kr_inv env s \<and> kr_evolves s0 s \<Longrightarrow> process_pending env (h + 1) s = Done s' u \<Longrightarrow> kr_inv env s' \<and> kr_evolves s0 s'"
    using process_pending_runs [of env s "h + 1"] kr_evolves_trans [of s0 s] by auto
  show "kr_inv env s \<and> kr_evolves s0 s \<Longrightarrow> kr_others env s s' \<Longrightarrow> kr_inv env s' \<and> kr_evolves s0 s'"
    using kr_others_kept kr_evolves_trans by blast
qed

text \<open>The states that a chain goes through from a reachable state \<open>s0\<close> at height \<open>h0\<close> on.\<close>

abbreviation kr_later :: "'b review_env \<Rightarrow> int \<Rightarrow> 'b kr_state \<Rightarrow> int \<Rightarrow> 'b kr_state \<Rightarrow> bool" where
  "kr_later env h0 s0 \<equiv> chain_reachable (\<lambda>h s. kr_reachable env h s \<and> h = h0 \<and> s = s0) (kr_handle env) (\<lambda>s m. True) (process_pending env) (kr_others env)"

lemma later_evolves: "kr_later env h0 s0 h s \<Longrightarrow> kr_inv env s \<and> kr_evolves s0 s"
  by (rule kr_from.reachable_inv)

end
