(* ===== verification/KR_Verdict.thy ===== *)
theory KR_Verdict
  imports KR_Chain
begin

text \<open>
  x/knowledge, the review protocol: the arithmetic of verdicts, shares and budgets.
\<close>

section \<open>Products and quotients\<close>

lemma u64_ratio_nonneg: "0 \<le> uint (a :: u64) * uint (b :: u64) div uint (c :: u64)"
  using u64_bounds(1) [of a] u64_bounds(1) [of b] u64_bounds(1) [of c] by (cases "uint c = 0") (simp_all add: div_int_pos_iff)

lemma safe_mul_div_exact:
  assumes "uint c \<noteq> 0" "uint a * uint b div uint c < 2 ^ 64"
  shows "uint (safe_mul_div a b c) = uint a * uint b div uint c"
proof -
  have "c \<noteq> 0" using assms(1) by auto
  with u64_ratio_nonneg [of a b c] show ?thesis using assms(2) by (simp add: safe_mul_div_def Let_def uint_word_of_int take_bit_int_eq_self)
qed

text \<open>A share of at most the whole never exceeds it.\<close>

lemma safe_mul_div_part:
  assumes "b \<le> c" "c \<noteq> 0"
  shows "uint (safe_mul_div a b c) = uint a * uint b div uint c" "safe_mul_div a b c \<le> a"
proof -
  have c: "0 < uint c" using assms(2) u64_bounds(1) [of c] by (simp add: order_less_le word_uint_eq_iff)
  have "uint a * uint b \<le> uint a * uint c" using assms(1) by (simp add: u64_le mult_left_mono)
  then have le: "uint a * uint b div uint c \<le> uint a" using c by (rule_tac div_le_self_mult) auto
  then show eq: "uint (safe_mul_div a b c) = uint a * uint b div uint c"
    using c u64_bounds(2) [of a] by (intro safe_mul_div_exact) auto
  show "safe_mul_div a b c \<le> a" unfolding u64_le eq by (rule le)
qed

lemma verifier_pool_exact: "uint (verifier_pool_from_fee fee) = uint fee * 55 div 100"
proof -
  have "uint (verifier_pool_from_fee fee) = uint fee * 550000 div 1000000"
    unfolding verifier_pool_from_fee_def by (subst safe_mul_div_part(1)) simp_all
  also have "\<dots> = (uint fee * 55) * 10000 div (100 * 10000)" by simp
  also have "\<dots> = uint fee * 55 div 100" by (rule div_mult_mult2) simp
  finally show ?thesis .
qed

lemma claim_budget_exact: "uint (claim_review_budget paid) = uint paid * 55 div 100"
proof -
  define q r where "q = uint paid div 100" and "r = uint paid mod 100"
  have p: "uint paid = 100 * q + r" and r: "0 \<le> r" "r < 100" and q: "0 \<le> q" "q < 2 ^ 64 div 100 + 1"
    using u64_bounds [of paid] by (auto simp: q_def r_def div_int_pos_iff)
  have d: "uint (paid div 100) = q" "uint (paid mod 100) = r" by (simp_all add: uint_div uint_mod q_def r_def)
  have 1: "uint (paid div 100 * 55) = q * 55" using q by (simp add: uint_word_ariths d)
  have "uint (paid mod 100 * 55) = r * 55" using r by (simp add: uint_word_ariths d)
  then have 2: "uint (paid mod 100 * 55 div 100) = r * 55 div 100" by (simp add: uint_div)
  have "r * 55 div 100 \<le> 55" using zdiv_mono1 [of "r * 55" 5500 100] r by simp
  moreover have "q \<le> 184467440737095516" using q by simp
  ultimately have "q * 55 + r * 55 div 100 < 2 ^ 64" by simp
  then have "uint (claim_review_budget paid) = q * 55 + r * 55 div 100"
    unfolding claim_review_budget_def by (subst u64_add_no_wrap) (simp_all add: 1 2)
  also have "\<dots> = (r * 55 + 100 * (q * 55)) div 100" by simp
  also have "r * 55 + 100 * (q * 55) = uint paid * 55" by (simp add: p)
  finally show ?thesis .
qed

section \<open>Shares\<close>

lemma uint_of_nat_u64: "n < 2 ^ 64 \<Longrightarrow> uint (of_nat n :: u64) = int n"
  by (simp add: unsigned_of_nat take_bit_nat_eq_self flip: uint_nat)

lemma review_share_exact:
  assumes "0 < n" "n < 2 ^ 64"
  shows "uint (review_share budget n i) = uint budget div int n + (if i = 0 then uint budget mod int n else 0)"
proof -
  have n: "uint (of_nat n :: u64) = int n" using assms(2) by (rule uint_of_nat_u64)
  have "uint budget div int n + uint budget mod int n \<le> uint budget div int n * int n + uint budget mod int n"
    using assms(1) by (intro add_right_mono) (simp add: mult_le_cancel_left1 pos_imp_zdiv_neg_iff not_less)
  also have "\<dots> = uint budget" by simp
  finally have "uint budget div int n + uint budget mod int n < 2 ^ 64" using u64_bounds(2) [of budget] by simp
  then show ?thesis
    by (auto simp: review_share_def uint_div uint_mod n u64_add_no_wrap)
qed

lemma review_shares_sum:
  assumes "0 < n" "n < 2 ^ 64"
  shows "(\<Sum>i < n. uint (review_share budget n i)) = uint budget"
proof -
  have "(\<Sum>i < n. uint (review_share budget n i)) =
      (\<Sum>i < n. uint budget div int n) + (\<Sum>i < n. if i = 0 then uint budget mod int n else 0)"
    using review_share_exact [OF assms] by (simp add: sum.distrib)
  also have "\<dots> = int n * (uint budget div int n) + uint budget mod int n" using assms(1) by simp
  finally show ?thesis by simp
qed

section \<open>Headcounts\<close>

definition head_count :: "string \<Rightarrow> reveal_entry list \<Rightarrow> nat" where
  "head_count vote vs = length (filter (\<lambda>v. rv_vote v = vote) vs)"

text \<open>The verdict of \<open>n\<close> equal reviews: the quorum, then the first of the three votes with its share and its heads.\<close>

definition headcount_verdict :: "nat \<Rightarrow> nat \<Rightarrow> nat \<Rightarrow> nat \<Rightarrow> nat \<Rightarrow> nat \<Rightarrow> nat \<Rightarrow> verdict" where
  "headcount_verdict quorum heads threshold n accepts rejects malformed =
     (let carried = (\<lambda>x. threshold \<le> x * 1000000 div n \<and> min quorum heads \<le> x)
      in if n < quorum then VERDICT_INCONCLUSIVE
         else if carried malformed then VERDICT_MALFORMED
         else if carried accepts then VERDICT_ACCEPT
         else if carried rejects then VERDICT_REJECT
         else VERDICT_INCONCLUSIVE)"

lemma vote_stake_count:
  "fold (\<lambda>v acc. if rv_vote v = vote then acc + 1 else acc) vs a = a + (of_nat (head_count vote vs) :: u64)"
  by (induction vs arbitrary: a) (simp_all add: head_count_def)

lemma panel_stake_count: "fold (\<lambda>v acc. acc + 1) vs a = a + (of_nat (length vs) :: u64)"
  by (induction vs arbitrary: a) simp_all

lemma head_count_le: "head_count vote vs \<le> length vs"
  by (simp add: head_count_def)

lemma vote_ratio_count:
  assumes "x \<le> n" "n \<le> 512"
  shows "uint (vote_ratio (of_nat x) (of_nat n)) = int x * 1000000 div int n"
proof (cases "n = 0")
  case True
  then show ?thesis by (simp add: vote_ratio_def)
next
  case False
  have u: "uint (of_nat n :: u64) = int n" "uint (of_nat x :: u64) = int x" using assms by (simp_all add: uint_of_nat_u64)
  have "int x * 1000000 div int n \<le> int x * 1000000" using False by (simp add: div_le_self_mult mult_le_cancel_left1)
  also have "\<dots> \<le> 512 * 1000000" using assms by simp
  finally have "uint (safe_mul_div (of_nat x) 1000000 (of_nat n)) = int x * 1000000 div int n"
    using False by (subst safe_mul_div_exact) (simp_all add: u)
  moreover have "(0 :: u64) < of_nat n" using False by (simp add: u64_less u)
  ultimately show ?thesis by (simp add: vote_ratio_def)
qed

lemma neutral_panel_verdict:
  assumes "length vs \<le> 512" "unat (kp_min_verifiers p) \<le> length vs"
  shows "fst (panel_verdict p (\<lambda>_. 1) vs) =
    headcount_verdict (unat (kp_min_verifiers p)) (unat (kp_min_headcount p)) (unat (kp_confidence_threshold p)) (length vs)
      (head_count vote_accept vs) (head_count vote_reject vs) (head_count vote_malformed vs)"
proof -
  have stake: "vote_stake (\<lambda>_. 1) vote vs = of_nat (head_count vote vs)" "vote_count vote vs = of_nat (head_count vote vs)"
    "panel_stake (\<lambda>_. 1) vs = of_nat (length vs)" for vote
    by (simp_all add: vote_stake_def vote_count_def panel_stake_def vote_stake_count panel_stake_count)
  have share: "kp_confidence_threshold p \<le> vote_ratio (of_nat (head_count vote vs)) (of_nat (length vs)) \<longleftrightarrow>
      unat (kp_confidence_threshold p) \<le> head_count vote vs * 1000000 div length vs" for vote
  proof -
    have "int (head_count vote vs) * 1000000 div int (length vs) = int (head_count vote vs * 1000000 div length vs)"
      by (simp add: zdiv_int)
    then show ?thesis
      using vote_ratio_count [OF head_count_le assms(1), of vote] by (simp add: u64_le flip: uint_nat zle_int)
  qed
  have heads: "(if kp_min_verifiers p < kp_min_headcount p then kp_min_verifiers p else kp_min_headcount p) \<le> (of_nat (head_count vote vs) :: u64) \<longleftrightarrow>
      min (unat (kp_min_verifiers p)) (unat (kp_min_headcount p)) \<le> head_count vote vs" for vote
  proof -
    have "head_count vote vs < 2 ^ 64" using head_count_le [of vote vs] assms(1) by simp
    then show ?thesis by (auto simp: word_le_nat_alt word_less_nat_alt unsigned_of_nat take_bit_nat_eq_self min_def)
  qed
  show ?thesis
    using assms(2) by (simp add: panel_verdict_def headcount_verdict_def Let_def stake share heads)
qed

lemma policies_differ [simp]: "policy_neutral \<noteq> policy_legacy" "policy_legacy \<noteq> policy_neutral"
  by (simp_all add: policy_neutral_def policy_legacy_def)

lemma neutral_weight: "review_weight s policy_neutral r = (\<lambda>_. 1)"
  by (simp add: fun_eq_iff review_weight_def policy_neutral_def policy_legacy_def)

lemma policy_for_neutral:
  assumes "policy_for_round env s r = Inr policy" "rd_policy r = policy_neutral"
  shows "policy = policy_neutral" "valid_round env r True"
  using assms by (auto simp: policy_for_round_def policy_neutral_def policy_legacy_def outcome_simps split: option.splits)

lemma neutral_reveals_bound: "valid_round env r True \<Longrightarrow> rd_policy r = policy_neutral \<Longrightarrow> length (rd_reveals r) \<le> 512"
  using neutral_round [of env r True] unfolding valid_round_def
  by (auto simp: scheme_review_v2_def scheme_legacy_def review_v2_ok_def commit_seat_hard_cap_def)

lemma quorum_neutral: "quorum_for_round s h policy_neutral r = kp_min_verifiers (kr_params s)"
  by (auto simp: quorum_for_round_def policy_neutral_def policy_legacy_def split: option.split)

section \<open>Challenge stakes\<close>

lemma discount_mono: "a \<le> b \<Longrightarrow> safe_mul_div a c d \<le> safe_mul_div b c d"
proof (cases "d = 0")
  case False
  assume "a \<le> b"
  then have "uint a * uint c div uint d \<le> uint b * uint c div uint d"
    using u64_bounds(1) [of c] u64_bounds(1) [of d] False
    by (intro zdiv_mono1 mult_right_mono) (auto simp: u64_le order_less_le word_uint_eq_iff)
  then show ?thesis using False u64_bounds(2) u64_ratio_nonneg [of a c d] u64_ratio_nonneg [of b c d]
    by (auto simp: safe_mul_div_def Let_def u64_le uint_word_of_int take_bit_int_eq_self uint_max_u64)
qed (simp add: safe_mul_div_def)

text \<open>The share of the base stake that a confidence leaves.\<close>

definition stake_multiplier :: "review_params \<Rightarrow> u64 \<Rightarrow> u64" where
  "stake_multiplier p conf =
     (let d = min bps_scale (safe_mul_div conf (kp_challenge_scaling_bps p) bps_scale) in max challenge_floor_bps (bps_scale - d))"

lemma stake_multiplier_bounds:
  "uint (stake_multiplier p conf) \<le> 1000000" "100000 \<le> uint (stake_multiplier p conf)"
proof -
  define d where "d = min bps_scale (safe_mul_div conf (kp_challenge_scaling_bps p) bps_scale)"
  have "d \<le> bps_scale" by (simp add: d_def)
  then have "uint (bps_scale - d) \<le> 1000000" using u64_bounds(1) [of d] by (subst u64_sub_no_wrap) (simp_all add: bps_scale_def)
  then show "uint (stake_multiplier p conf) \<le> 1000000"
    by (simp add: stake_multiplier_def Let_def max_def challenge_floor_bps_def flip: d_def)
  show "100000 \<le> uint (stake_multiplier p conf)"
    by (simp add: stake_multiplier_def Let_def max_def challenge_floor_bps_def u64_le not_le)
qed

lemma stake_multiplier_mono:
  assumes "conf \<le> conf'"
  shows "uint (stake_multiplier p conf') \<le> uint (stake_multiplier p conf)"
proof -
  define d where "d c = min bps_scale (safe_mul_div c (kp_challenge_scaling_bps p) bps_scale)" for c
  have "d conf \<le> d conf'" "d conf \<le> bps_scale" "d conf' \<le> bps_scale"
    using discount_mono [OF assms, of "kp_challenge_scaling_bps p" bps_scale] by (auto simp: d_def min_def)
  then have "bps_scale - d conf' \<le> bps_scale - d conf" by (simp add: u64_le u64_sub_no_wrap)
  then have "stake_multiplier p conf' \<le> stake_multiplier p conf"
    unfolding stake_multiplier_def Let_def d_def [symmetric] by (rule max.mono [OF order_refl])
  then show ?thesis by (simp add: u64_le)
qed

lemma challenge_stake_scaled:
  assumes "positive_int (kp_min_challenge_stake p) = Some base"
  shows "effective_min_challenge_stake p conf = base * uint (stake_multiplier p conf) div 1000000"
proof -
  have whole: "stake_multiplier p conf = bps_scale" if "kp_challenge_scaling_bps p = 0 \<or> conf = 0"
  proof -
    from that have "safe_mul_div conf (kp_challenge_scaling_bps p) bps_scale = 0" by (auto simp: safe_mul_div_def Let_def)
    then show ?thesis by (simp add: stake_multiplier_def Let_def bps_scale_def challenge_floor_bps_def max_def min_def)
  qed
  have "uint bps_scale = 1000000" by (simp add: bps_scale_def)
  then show ?thesis
    using assms whole
    by (auto simp: effective_min_challenge_stake_def Let_def stake_multiplier_def max_def min_def not_le not_less)
qed

end
