(* ===== verification/KR_Queue.thy ===== *)
theory KR_Queue
  imports KR_Chain
begin

text \<open>
  x/knowledge, the review protocol: what one settlement moves, and the progress of the payment queue.
\<close>

section \<open>What a settlement moves\<close>

definition payments_total :: "reward_payment list \<Rightarrow> int" where
  "payments_total ps = sum_list (map (\<lambda>p. uint (u64_of_amount (rp_amount p))) ps)"

definition paid_to :: "'b review_env \<Rightarrow> addr \<Rightarrow> reward_payment list \<Rightarrow> int" where
  "paid_to env a ps =
     sum_list (map (\<lambda>p. if acc_address (re_sdk env) (rp_verifier p) = Some a then uint (u64_of_amount (rp_amount p)) else 0) ps)"

text \<open>What address \<open>a\<close> is owed by a round, and what the module owes in all.\<close>

definition review_payout :: "'b review_env \<Rightarrow> verification_round \<Rightarrow> addr \<Rightarrow> int" where
  "review_payout env r a =
     (case owed_rewards r of None \<Rightarrow> 0
      | Some p \<Rightarrow> paid_to env a (wp_payments p) +
          (if a = module_address (re_sdk env) development_fund then uint (u64_of_amount (wp_withheld_total p)) else 0)) +
     (case owed_refund r of None \<Rightarrow> 0
      | Some p \<Rightarrow> if acc_address (re_sdk env) (rf_recipient p) = Some a then uint (u64_of_amount (rf_amount p)) else 0)"

definition owed_total :: "verification_round \<Rightarrow> int" where
  "owed_total r =
     (case owed_rewards r of None \<Rightarrow> 0 | Some p \<Rightarrow> payments_total (wp_payments p) + uint (u64_of_amount (wp_withheld_total p))) +
     (case owed_refund r of None \<Rightarrow> 0 | Some p \<Rightarrow> uint (u64_of_amount (rf_amount p)))"

definition uzrn_of :: "'b review_env \<Rightarrow> 'b kr_state \<Rightarrow> addr \<Rightarrow> int" where
  "uzrn_of env s a = bank_balance (re_sdk env) (kr_bank s) a uzrn"

abbreviation review_account :: "'b review_env \<Rightarrow> addr" where
  "review_account env \<equiv> module_address (re_sdk env) knowledge_module"

lemma pay_account_moves:
  assumes "sdk_laws (re_sdk env)" "pay_account env v x s = Done s' u"
  shows "uzrn_of env s' a = uzrn_of env s a - (if a = review_account env then uint x else 0) +
    (if acc_address (re_sdk env) v = Some a then uint x else 0)"
  using assms
  by (auto simp: pay_account_def review_bank_def outcome_simps uzrn_of_def single_coin_amount
      dest!: bank_to_account_moved moved_balance [where a = a and d = uzrn])

lemma pay_withheld_moves:
  assumes "sdk_laws (re_sdk env)" "pay_withheld env x s = Done s' u"
  shows "uzrn_of env s' a = uzrn_of env s a - (if a = review_account env then uint x else 0) +
    (if a = module_address (re_sdk env) development_fund then uint x else 0)"
  using assms
  by (auto simp: pay_withheld_def review_bank_def outcome_simps uzrn_of_def single_coin_amount
      dest!: bank_mod_to_mod_moved moved_balance [where a = a and d = uzrn] split: if_splits)

lemma pay_reviewers_moves:
  assumes "sdk_laws (re_sdk env)" "pay_reviewers env ps s = Done s' u"
  shows "uzrn_of env s' a = uzrn_of env s a - (if a = review_account env then payments_total ps else 0) + paid_to env a ps"
  using assms(2)
proof (induction ps arbitrary: s)
  case Nil
  then show ?case by (simp add: payments_total_def paid_to_def)
next
  case (Cons p ps)
  show ?case
  proof (cases "u64_of_amount (rp_amount p) = 0")
    case True
    with Cons show ?thesis by (simp add: payments_total_def paid_to_def)
  next
    case False
    with Cons.prems obtain t where t: "pay_account env (rp_verifier p) (u64_of_amount (rp_amount p)) s = Done t ()"
      "pay_reviewers env ps t = Done s' u" by (auto simp: outcome_simps)
    from Cons.IH [OF t(2)] pay_account_moves [OF assms(1) t(1), of a] show ?thesis
      by (simp add: payments_total_def paid_to_def)
  qed
qed

lemma pay_plans_moves:
  assumes laws: "sdk_laws (re_sdk env)" and run: "pay_plans env r s = Done s' u"
  shows "uzrn_of env s' a = uzrn_of env s a - (if a = review_account env then owed_total r else 0) + review_payout env r a"
  using run
proof (rule pay_plans_run)
  fix t
  assume rewards: "case owed_rewards r of None \<Rightarrow> t = s
     | Some p \<Rightarrow> \<exists>m. pay_reviewers env (wp_payments p) s = Done m () \<and> pay_withheld env (u64_of_amount (wp_withheld_total p)) m = Done t ()"
    and refund: "case owed_refund r of None \<Rightarrow> s' = t
     | Some p \<Rightarrow> pay_account env (rf_recipient p) (u64_of_amount (rf_amount p)) t = Done s' ()"
  have "uzrn_of env t a = uzrn_of env s a -
      (if a = review_account env then (case owed_rewards r of None \<Rightarrow> 0
        | Some p \<Rightarrow> payments_total (wp_payments p) + uint (u64_of_amount (wp_withheld_total p))) else 0) +
      (case owed_rewards r of None \<Rightarrow> 0 | Some p \<Rightarrow> paid_to env a (wp_payments p) +
        (if a = module_address (re_sdk env) development_fund then uint (u64_of_amount (wp_withheld_total p)) else 0))"
    using rewards by (auto split: option.splits dest!: pay_reviewers_moves [OF laws, where a = a] pay_withheld_moves [OF laws, where a = a])
  moreover have "uzrn_of env s' a = uzrn_of env t a -
      (if a = review_account env then (case owed_refund r of None \<Rightarrow> 0 | Some p \<Rightarrow> uint (u64_of_amount (rf_amount p))) else 0) +
      (case owed_refund r of None \<Rightarrow> 0
        | Some p \<Rightarrow> if acc_address (re_sdk env) (rf_recipient p) = Some a then uint (u64_of_amount (rf_amount p)) else 0)"
    using refund by (auto split: option.splits dest: pay_account_moves [OF laws, where a = a])
  ultimately show ?thesis by (simp add: review_payout_def owed_total_def)
qed

lemma marked_not_pending: "now \<noteq> 0 \<Longrightarrow> \<not> has_pending_funds (marked_paid now r)"
  by (auto simp: has_pending_funds_def marked_paid_def split: option.splits)

section \<open>Legs\<close>

lemma refund_excludes_withheld:
  assumes "round_ok env s k r" "rd_refund r \<noteq> None" "rd_rewards r = Some p"
  shows "wp_withheld_total p = ''0''"
proof -
  have complete: "rd_phase r = PHASE_COMPLETE"
    using assms by (auto simp: round_ok_def valid_round_def valid_refund_plan_def split: option.splits)
  from assms(1,2) obtain c t where "kc_funding c = Some t" "valid_funding_round env (Some (c\<lparr>kc_round_id := []\<rparr>)) r"
    by (auto simp: round_ok_def valid_funding_round_def split: if_splits option.splits)
  then have "funded_rewards_ok (u64_of_amount (ft_review_budget t)) r"
    using complete by (simp add: valid_funding_round_def)
  with assms(3) show ?thesis by (simp add: funded_rewards_ok_def split: if_splits)
qed

lemma legs_within_budget:
  assumes "round_ok env s k r"
  shows "pending_transfers r \<le> transfer_budget"
proof (cases "rd_rewards r")
  case None
  then show ?thesis by (simp add: pending_transfers_def transfer_budget_def split: option.split)
next
  case (Some p)
  have "valid_reward_plan env r" using assms by (simp add: round_ok_def valid_round_def)
  with Some have "length (wp_payments p) \<le> commit_seat_hard_cap" by (simp add: valid_reward_plan_def)
  with Some refund_excludes_withheld [OF assms _ Some] show ?thesis
    by (auto simp: pending_transfers_def transfer_budget_def split: option.split)
qed

section \<open>One block\<close>

definition settle_one :: "'b review_env \<Rightarrow> int \<Rightarrow> string \<Rightarrow> 'b kr_state \<Rightarrow> 'b kr_state" where
  "settle_one env h k s = final_state (try_settle env h k s)"

definition legs_of :: "'b kr_state \<Rightarrow> string \<Rightarrow> nat" where
  "legs_of s k = (case get_round s k of None \<Rightarrow> 0 | Some r \<Rightarrow> pending_transfers r)"

text \<open>The longest prefix whose legs the budget covers.\<close>

fun within_budget :: "(string \<Rightarrow> nat) \<Rightarrow> nat \<Rightarrow> string list \<Rightarrow> string list" where
  "within_budget f budget [] = []"
| "within_budget f budget (k # ks) = (if budget < f k then [] else k # within_budget f (budget - f k) ks)"

lemma within_budget_prefix: "\<exists>zs. ks = within_budget f budget ks @ zs"
  by (induction ks arbitrary: budget) auto

lemma within_budget_cong: "(\<And>k. k \<in> set ks \<Longrightarrow> f k = g k) \<Longrightarrow> within_budget f b ks = within_budget g b ks"
  by (induction ks arbitrary: b) auto

definition block_tries :: "'b kr_state \<Rightarrow> string list" where
  "block_tries s = within_budget (legs_of s) transfer_budget (take pending_batch (queue_after (kr_cursor s) s))"

lemma settle_batch_fold:
  assumes "kr_inv env s" "distinct ks" "\<forall>k \<in> set ks. queued s k" "ts = within_budget (legs_of s) budget ks"
  shows "settle_batch env h ks budget final s =
    Done (fold (settle_one env h) ts s) (if ts = [] then final else Some (last ts), ts \<noteq> ks)"
  using assms(1-3) unfolding assms(4)
proof (induction ks arbitrary: budget final s)
  case Nil
  then show ?case by simp
next
  case (Cons k ks)
  from queued_round [OF Cons.prems(1)] Cons.prems(3) obtain r where
    r: "get_round s k = Some r" "get_round_checked s k = Inr r" "plans_valid env r = Inr ()" "has_pending_funds r" by fastforce
  show ?case
  proof (cases "budget < pending_transfers r")
    case True
    with r show ?thesis by (simp add: legs_of_def)
  next
    case False
    let ?t = "settle_one env h k s"
    have t: "kr_inv env ?t" "\<And>j. j \<noteq> k \<Longrightarrow> get_round ?t j = get_round s j"
      using settle_step [OF Cons.prems(1) refl, of h k] by (simp_all add: settle_one_def)
    have other: "j \<noteq> k" if "j \<in> set ks" for j using that Cons.prems(2) by auto
    have "\<forall>j \<in> set ks. queued ?t j"
      using Cons.prems(3) queued_other [OF Cons.prems(1) t(1) t(2)] other by auto
    note IH = Cons.IH [OF t(1) _ this, of "budget - pending_transfers r" "Some k"]
    have "within_budget (legs_of ?t) b ks = within_budget (legs_of s) b ks" for b
      by (rule within_budget_cong) (use t(2) other in \<open>simp add: legs_of_def\<close>)
    moreover have "legs_of s k = pending_transfers r" "final_state (try_settle env h k s) = ?t"
      using r(1) by (simp_all add: legs_of_def settle_one_def)
    ultimately show ?thesis using IH Cons.prems(2) r False by simp
  qed
qed

lemma settled_others:
  assumes "kr_inv env s"
  shows "kr_inv env (fold (settle_one env h) ks s) \<and>
    (\<forall>j. queued (fold (settle_one env h) ks s) j \<longrightarrow> queued s j) \<and>
    (\<forall>j. j \<notin> set ks \<longrightarrow> queued (fold (settle_one env h) ks s) j = queued s j)"
  using assms
proof (induction ks arbitrary: s)
  case (Cons k ks)
  let ?t = "settle_one env h k s"
  have t: "kr_inv env ?t" "\<And>j. j \<noteq> k \<Longrightarrow> queued ?t j = queued s j"
    using settle_step [OF Cons.prems refl, of h k] queued_other [OF Cons.prems] by (auto simp: settle_one_def)
  have "queued s k" if "queued ?t k"
  proof (rule ccontr)
    assume "\<not> queued s k"
    then have "\<not> (\<exists>r. get_round s k = Some r \<and> has_pending_funds r)" using kr_invD(9) [OF Cons.prems, of k] by (simp add: queued_def)
    then have "?t = s"
      by (auto simp: settle_one_def try_settle_def try_in_def get_round_checked_def split: sum.split option.split)
    with that \<open>\<not> queued s k\<close> show False by simp
  qed
  with Cons.IH [OF t(1)] t show ?case by auto (metis)
qed simp

lemma process_pending_block:
  assumes inv: "kr_inv env s"
  shows "process_pending env h s = Done ((fold (settle_one env h) (block_tries s) s)\<lparr>kr_cursor :=
    (if block_tries s = queue_after (kr_cursor s) s then None else Some (last (block_tries s)))\<rparr>) ()"
    and "queue_after (kr_cursor s) s \<noteq> [] \<Longrightarrow> block_tries s \<noteq> []"
    and "\<exists>zs. queue_after (kr_cursor s) s = block_tries s @ zs"
proof -
  define queue where "queue = queue_after (kr_cursor s) s"
  define keys where "keys = take pending_batch queue"
  define ts where "ts = block_tries s"
  have ts: "ts = within_budget (legs_of s) transfer_budget keys" by (simp add: ts_def block_tries_def keys_def queue_def)
  have q: "distinct keys" "\<forall>k \<in> set keys. queued s k" "[] \<notin> set keys"
    using queue_keys [OF inv, of "kr_cursor s"] by (auto simp: keys_def queue_def dest: in_set_takeD)
  from within_budget_prefix [of keys] ts obtain xs where xs: "keys = ts @ xs" by metis
  have pre: "queue = ts @ xs @ drop pending_batch queue"
    by (metis append_assoc append_take_drop_id keys_def xs)
  then show "\<exists>zs. queue_after (kr_cursor s) s = block_tries s @ zs" unfolding queue_def [symmetric] ts_def [symmetric] by blast
  have nonempty: "ts \<noteq> []" if "queue \<noteq> []"
  proof -
    from that obtain k ks where k: "keys = k # ks" by (cases queue) (simp_all add: keys_def pending_batch_def)
    from queued_round [OF inv, of k] q(2) k obtain r where "get_round s k = Some r" by auto
    with legs_within_budget [OF kr_invD(7) [OF inv]] have "legs_of s k \<le> transfer_budget" by (simp add: legs_of_def)
    then show ?thesis by (simp add: ts k)
  qed
  then show "queue_after (kr_cursor s) s \<noteq> [] \<Longrightarrow> block_tries s \<noteq> []" by (simp add: queue_def ts_def)
  have whole: "length queue \<le> pending_batch \<and> ts = keys \<longleftrightarrow> ts = queue"
  proof
    assume "ts = queue"
    then have "length queue \<le> length keys" using xs by (metis length_append le_add1)
    then have "length queue \<le> pending_batch" by (simp add: keys_def)
    with \<open>ts = queue\<close> show "length queue \<le> pending_batch \<and> ts = keys" by (simp add: keys_def)
  qed (auto simp: keys_def)
  have "settle_batch env h keys transfer_budget None s =
    Done (fold (settle_one env h) ts s) (if ts = [] then None else Some (last ts), ts \<noteq> keys)"
    by (rule settle_batch_fold [OF inv q(1,2) ts])
  then show "process_pending env h s = Done ((fold (settle_one env h) (block_tries s) s)\<lparr>kr_cursor :=
    (if block_tries s = queue_after (kr_cursor s) s then None else Some (last (block_tries s)))\<rparr>) ()"
    using kr_invD(1,2) [OF inv] q(3) whole nonempty
    by (auto simp: process_pending_def Let_def simp flip: queue_def keys_def ts_def)
qed

section \<open>Successive blocks\<close>

text \<open>The state after \<open>n\<close> more blocks in which only the queue runs.\<close>

fun blocks :: "'b review_env \<Rightarrow> int \<Rightarrow> nat \<Rightarrow> 'b kr_state \<Rightarrow> 'b kr_state" where
  "blocks env h 0 s = s"
| "blocks env h (Suc n) s = blocks env (h + 1) n (final_state (process_pending env (h + 1) s))"

definition queue_set :: "'b kr_state \<Rightarrow> string set" where
  "queue_set s = {j. queued s j}"

lemma queue_set_keys: "queue_set s = fst ` set (kr_pending s)"
  unfolding queue_set_def queued_def kv_get_None_mem by auto

lemma finite_queue_set [simp]: "finite (queue_set s)"
  by (simp add: queue_set_keys)

text \<open>How many keys the cursor has to pass before the one of interest.\<close>

definition keys_before :: "'b kr_state \<Rightarrow> string \<Rightarrow> nat" where
  "keys_before s k = (case kr_cursor s of None \<Rightarrow> card {j \<in> queue_set s. j \<le> k}
   | Some c \<Rightarrow> if c < k then card {j \<in> queue_set s. c < j \<and> j \<le> k}
       else card {j \<in> queue_set s. c < j} + 1 + card {j \<in> queue_set s. j \<le> k})"

lemma queue_after_set:
  "set (queue_after c s) = {j \<in> queue_set s. case c of None \<Rightarrow> True | Some x \<Rightarrow> x < j}"
  by (auto simp: queue_after_def queue_set_keys split: option.split)

lemma queue_after_sorted:
  assumes "kr_inv env s"
  shows "sorted_wrt (<) (queue_after c s)"
  using kr_invD(5) [OF assms] by (auto simp: kv_ok_def queue_after_def intro: sorted_wrt_filter split: option.split)

lemma keys_before_step:
  assumes inv: "kr_inv env s" and k: "queued s k" "k \<notin> set (block_tries s)"
    and s': "s' = final_state (process_pending env h s)"
  shows "kr_inv env s'" "queued s' k" "keys_before s' k < keys_before s k"
proof -
  define q where "q = queue_after (kr_cursor s) s"
  define ts where "ts = block_tries s"
  define u where "u = fold (settle_one env h) ts s"
  note block = process_pending_block(1) [OF inv, where h = h, folded q_def ts_def, folded u_def]
    process_pending_block(2,3) [OF inv, folded q_def ts_def]
  have run: "s' = u\<lparr>kr_cursor := (if ts = q then None else Some (last ts))\<rparr>" using block(1) by (simp add: s')
  from block(3) obtain zs where zs: "q = ts @ zs" by blast
  have u: "queue_set u \<subseteq> queue_set s" "\<And>j. j \<notin> set ts \<Longrightarrow> queued u j = queued s j"
    using settled_others [OF inv, of h ts] by (auto simp: u_def queue_set_def)
  have qs': "queue_set s' = queue_set u" "\<And>j. queued s' j = queued u j" by (simp_all add: run queue_set_def queued_def)
  show inv': "kr_inv env s'" using process_pending_runs [OF inv, of h] by (auto simp: s')
  show "queued s' k" using k u(2) by (simp add: qs' ts_def)
  have sorted: "sorted_wrt (<) q" using queue_after_sorted [OF inv] by (simp add: q_def)
  have qset: "set q = {j \<in> queue_set s. case kr_cursor s of None \<Rightarrow> True | Some x \<Rightarrow> x < j}"
    by (simp add: q_def queue_after_set)
  have shrink: "card {j \<in> queue_set s'. P j} \<le> card {j \<in> queue_set s. P j}" for P
    using u(1) by (intro card_mono) (auto simp: qs')
  show "keys_before s' k < keys_before s k"
  proof (cases "k \<in> set q")
    case True
    then have "q \<noteq> []" by auto
    then have "ts \<noteq> []" by (rule block(2))
    have "zs \<noteq> []" using True k(2) zs by (auto simp: ts_def)
    then have c': "kr_cursor s' = Some (last ts)" using zs by (simp add: run)
    have "k \<in> set zs" using True k(2) zs by (simp add: ts_def)
    then have before: "last ts < k" using sorted zs \<open>ts \<noteq> []\<close> by (auto simp: sorted_wrt_append)
    have mem: "last ts \<in> set q" using \<open>ts \<noteq> []\<close> zs by simp
    have "{j \<in> queue_set s'. last ts < j \<and> j \<le> k} \<subseteq> {j \<in> queue_set s. last ts < j \<and> j \<le> k}"
      using u(1) by (auto simp: qs')
    also have "\<dots> \<subset> {j \<in> set q. j \<le> k}"
    proof -
      have "last ts \<in> {j \<in> set q. j \<le> k}" using mem before by simp
      moreover have "{j \<in> queue_set s. last ts < j \<and> j \<le> k} \<subseteq> {j \<in> set q. j \<le> k}"
        using mem by (auto simp: qset split: option.splits)
      ultimately show ?thesis by blast
    qed
    finally have "card {j \<in> queue_set s'. last ts < j \<and> j \<le> k} < card {j \<in> set q. j \<le> k}"
      by (intro psubset_card_mono) auto
    moreover have "{j \<in> set q. j \<le> k} = (case kr_cursor s of None \<Rightarrow> {j \<in> queue_set s. j \<le> k}
        | Some c \<Rightarrow> {j \<in> queue_set s. c < j \<and> j \<le> k})"
      by (auto simp: qset split: option.split)
    ultimately show ?thesis
      using True before by (auto simp: keys_before_def c' qset split: option.splits)
  next
    case False
    then obtain c where c: "kr_cursor s = Some c" "\<not> c < k" using k(1) by (auto simp: qset queue_set_def split: option.splits)
    show ?thesis
    proof (cases "ts = q")
      case True
      then have "kr_cursor s' = None" by (simp add: run)
      with shrink [of "\<lambda>j. j \<le> k"] c show ?thesis by (simp add: keys_before_def)
    next
      case False
      then have c': "kr_cursor s' = Some (last ts)" by (simp add: run)
      have "ts \<noteq> []" using False zs block(2) by auto
      then have mem: "last ts \<in> set q" using zs by simp
      then have "c < last ts" using c by (simp add: qset)
      have "{j \<in> queue_set s'. last ts < j} \<subset> {j \<in> queue_set s. c < j}"
        using u(1) mem c \<open>c < last ts\<close> by (auto simp: qs' qset)
      then have "card {j \<in> queue_set s'. last ts < j} < card {j \<in> queue_set s. c < j}"
        by (intro psubset_card_mono) auto
      with shrink [of "\<lambda>j. j \<le> k"] c c' \<open>c < last ts\<close> show ?thesis by (auto simp: keys_before_def)
    qed
  qed
qed

lemma keys_before_bound:
  assumes "kr_inv env s"
  shows "keys_before s k \<le> length (kr_pending s) + 1"
proof -
  have size: "card (queue_set s) \<le> length (kr_pending s)"
    by (metis card_length length_map list.set_map queue_set_keys)
  have sub: "card {j \<in> queue_set s. P j} \<le> length (kr_pending s)" for P
    by (rule order_trans [OF card_mono size]) auto
  show ?thesis
  proof (cases "kr_cursor s")
    case None
    with sub [of "\<lambda>j. j \<le> k"] show ?thesis by (simp add: keys_before_def)
  next
    case (Some c)
    show ?thesis
    proof (cases "c < k")
      case True
      with Some sub [of "\<lambda>j. c < j \<and> j \<le> k"] show ?thesis by (simp add: keys_before_def)
    next
      case False
      then have "card {j \<in> queue_set s. c < j} + card {j \<in> queue_set s. j \<le> k} =
          card ({j \<in> queue_set s. c < j} \<union> {j \<in> queue_set s. j \<le> k})"
        by (intro card_Un_disjoint [symmetric]) auto
      also have "\<dots> \<le> length (kr_pending s)" by (rule order_trans [OF card_mono size]) auto
      finally show ?thesis using Some False by (simp add: keys_before_def)
    qed
  qed
qed

lemma queue_reaches:
  assumes "kr_inv env s" "queued s k"
  shows "\<exists>n < keys_before s k. k \<in> set (block_tries (blocks env h n s)) \<and> kr_inv env (blocks env h n s)"
  using assms
proof (induction "keys_before s k" arbitrary: s h rule: less_induct)
  case less
  show ?case
  proof (cases "k \<in> set (block_tries s)")
    case True
    have "k \<in> queue_set s" using less.prems(2) by (simp add: queue_set_def)
    then have "0 < keys_before s k" by (auto simp: keys_before_def card_gt_0_iff split: option.split)
    with True less.prems(1) show ?thesis by (intro exI [of _ 0]) simp
  next
    case False
    note step = keys_before_step [OF less.prems False refl, of "h + 1"]
    from less.hyps [OF step(3,1,2), of "h + 1"] obtain n where
      "n < keys_before (final_state (process_pending env (h + 1) s)) k"
      "k \<in> set (block_tries (blocks env h (Suc n) s)) \<and> kr_inv env (blocks env h (Suc n) s)" by auto
    with step(3) show ?thesis by (intro exI [of _ "Suc n"]) auto
  qed
qed

text \<open>Blocks in which only the queue runs are a run of the chain.\<close>

lemma blocks_reachable: "kr_reachable env h s \<Longrightarrow> h + int m < 2 ^ 63 \<Longrightarrow> kr_reachable env (h + int m) (blocks env h m s)"
proof (induction m arbitrary: h s)
  case (Suc m)
  from process_pending_runs [OF kr.reachable_inv [OF Suc.prems(1)], of "h + 1"] obtain s' where
    s': "process_pending env (h + 1) s = Done s' ()" by blast
  with Suc.prems have "kr_reachable env (h + 1) s'" by (intro chain_reachable.block [of _ _ _ _ _ h s]) auto
  moreover have "h + int (Suc m) = h + 1 + int m" "final_state (process_pending env (h + 1) s) = s'" by (simp_all add: s')
  ultimately show ?case using Suc.IH Suc.prems(2) by (simp only: blocks.simps)
qed simp

lemma blocks_inv: "kr_inv env s \<Longrightarrow> kr_inv env (blocks env h m s)"
proof (induction m arbitrary: h s)
  case (Suc m)
  from process_pending_runs [OF Suc.prems, of "h + 1"] Suc.IH [of _ "h + 1"] show ?case by auto
qed simp

end
