(* ===== verification/KR_Complete.thy ===== *)
theory KR_Complete
  imports KR_Verdict KR_Queue
begin

text \<open>
  x/knowledge, the review protocol: the plans of a funded neutral round account for every unit that its
  payer put up, and writing them with the verdict always succeeds.
\<close>

section \<open>Canonical amounts\<close>

lemma settlement_amount_iff: "settlement_amount v = Some n \<longleftrightarrow> v = format_u64 n"
  by (auto simp: settlement_amount_def split: option.splits)

lemma settlement_amount_format [simp]: "settlement_amount (format_u64 n) = Some n"
  by (simp add: settlement_amount_iff)

lemma u64_of_amount_format [simp]: "u64_of_amount (format_u64 n) = n"
  by (simp add: u64_of_amount_def)

lemma zero_amount: "format_u64 0 = ''0''"
  by (simp add: format_u64_def digits10.simps digit_char_def)

lemma u64_of_zero [simp]: "u64_of_amount ''0'' = 0"
  by (simp flip: zero_amount)

lemma positive_amount: "n \<noteq> 0 \<Longrightarrow> positive_int (format_u64 n) = Some (uint n)"
  using u64_bounds(1) [of n]
  by (auto simp: positive_int_Some format_u64_def big_set_string_digits order_less_le word_uint_eq_iff)

section \<open>Frozen shares\<close>

text \<open>Neutral payments: nothing withheld, the first with the remainder.\<close>

definition share_payment :: "u64 \<Rightarrow> nat \<Rightarrow> nat \<Rightarrow> string \<Rightarrow> reward_payment" where
  "share_payment budget n i v = \<lparr>rp_verifier = v, rp_amount = format_u64 (review_share budget n i), rp_withheld = ''0''\<rparr>"

lemma freeze_neutral:
  "freeze_payments s policy_neutral per extra vs =
     Some (map (\<lambda>(i, v). \<lparr>rp_verifier = v, rp_amount = format_u64 (per + (if i = 0 then extra else 0)), rp_withheld = ''0''\<rparr>)
       (enumerate 0 vs), 0)"
proof (induction vs arbitrary: extra)
  case Nil
  then show ?case by simp
next
  case (Cons v vs)
  have "enumerate (Suc 0) vs = map (\<lambda>(i, v). (Suc i, v)) (enumerate 0 vs)"
    by (rule nth_equalityI) (simp_all add: nth_enumerate_eq)
  with Cons show ?case
    by (simp add: policy_neutral_def policy_legacy_def zero_amount comp_def case_prod_beta)
qed

lemma freeze_shares:
  "freeze_payments s policy_neutral (budget div of_nat (length vs)) (budget mod of_nat (length vs)) vs =
     Some (map (\<lambda>(i, v). share_payment budget (length vs) i v) (enumerate 0 vs), 0)"
  by (simp add: freeze_neutral share_payment_def review_share_def)

lemma payments_sum:
  assumes "vs \<noteq> []" "length vs < 2 ^ 64"
  shows "payments_total (map (\<lambda>(i, v). share_payment budget (length vs) i v) (enumerate 0 vs)) = uint budget"
proof -
  let ?ps = "map (\<lambda>(i, v). share_payment budget (length vs) i v) (enumerate 0 vs)"
  have "map (\<lambda>p. uint (u64_of_amount (rp_amount p))) ?ps = map (\<lambda>i. uint (review_share budget (length vs) i)) [0..<length vs]"
    by (rule nth_equalityI) (simp_all add: nth_enumerate_eq share_payment_def)
  then have "payments_total ?ps = (\<Sum>i < length vs. uint (review_share budget (length vs) i))"
    by (simp add: payments_total_def interv_sum_list_conv_sum_set_nat atLeast0LessThan)
  also have "\<dots> = uint budget" using assms by (intro review_shares_sum) auto
  finally show ?thesis .
qed

lemma plan_totals_exact:
  assumes "\<And>p. p \<in> set ps \<Longrightarrow> rp_withheld p = ''0'' \<and> rp_amount p = format_u64 (u64_of_amount (rp_amount p)) \<and>
      canonical_review_address env (rp_verifier p) \<noteq> None"
    "distinct (map rp_verifier ps)" "set seen \<inter> rp_verifier ` set ps = {}" "uint a + payments_total ps < 2 ^ 64"
  shows "\<exists>b. plan_totals env seen ps a 0 = Some (b, 0) \<and> uint b = uint a + payments_total ps"
  using assms
proof (induction ps arbitrary: seen a)
  case Nil
  then show ?case by (simp add: payments_total_def)
next
  case (Cons p ps)
  define x where "x = u64_of_amount (rp_amount p)"
  have nonneg: "0 \<le> payments_total ps"
    unfolding payments_total_def by (rule sum_list_nonneg) auto
  have tot: "payments_total (p # ps) = uint x + payments_total ps" by (simp add: payments_total_def x_def)
  have p: "settlement_amount (rp_amount p) = Some x" "settlement_amount (rp_withheld p) = Some 0"
    "canonical_review_address env (rp_verifier p) \<noteq> None" "rp_verifier p \<notin> set seen"
    using Cons.prems(1) [of p] Cons.prems(3) by (auto simp: settlement_amount_iff x_def zero_amount)
  have fits: "uint a + uint x < 2 ^ 64" using Cons.prems(4) nonneg tot by linarith
  have add: "uint (a + x) = uint a + uint x" using fits by (rule u64_add_no_wrap)
  have "uint (max_u64 - x) = 2 ^ 64 - 1 - uint x"
    using u64_bounds [of x] by (subst u64_sub_no_wrap) (simp_all add: u64_le uint_max_u64)
  then have "\<not> max_u64 - x < a" "\<not> max_u64 < x" "\<not> max_u64 < 0"
    using fits u64_bounds(2) [of x] by (simp_all add: u64_less uint_max_u64)
  moreover have "\<exists>b. plan_totals env (rp_verifier p # seen) ps (a + x) 0 = Some (b, 0) \<and> uint b = uint (a + x) + payments_total ps"
    by (rule Cons.IH) (use Cons.prems add tot in auto)
  ultimately show ?case using p add tot by auto
qed

section \<open>What a completed round promises\<close>

definition promised_total :: "verification_round \<Rightarrow> int" where
  "promised_total r =
     (case rd_rewards r of None \<Rightarrow> 0 | Some p \<Rightarrow> payments_total (wp_payments p) + uint (u64_of_amount (wp_withheld_total p))) +
     (case rd_refund r of None \<Rightarrow> 0 | Some p \<Rightarrow> uint (u64_of_amount (rf_amount p)))"

lemma funding_termsD:
  assumes "valid_funding_terms env c True" "kc_funding c = Some t"
  obtains paid where "kc_stake c = ft_paid t" "ft_paid t = format_u64 paid" "paid \<noteq> 0"
    "u64_of_amount (ft_review_budget t) = claim_review_budget paid"
    "kc_policy c = policy_neutral" "canonical_review_address env (kc_submitter c) \<noteq> None"
    "ft_kind t = FUNDING_REVIEW_FEE \<and> u64_of_amount (ft_refundable t) = 0 \<and> u64_of_amount (ft_retained t) = paid - claim_review_budget paid \<or>
     ft_kind t = FUNDING_CHALLENGE_DEPOSIT \<and> u64_of_amount (ft_retained t) = 0 \<and> u64_of_amount (ft_refundable t) = paid - claim_review_budget paid"
  using assms
  by (auto simp: valid_funding_terms_def settlement_amount_iff split: option.splits claim_funding_kind.splits)

lemma budget_le_paid: "claim_review_budget paid \<le> paid"
proof -
  have "uint paid * 55 div 100 \<le> uint paid" by (rule div_le_self_mult) (use u64_bounds(1) [of paid] in simp_all)
  then show ?thesis by (simp add: u64_le claim_budget_exact)
qed

lemma funds_add_up:
  assumes "valid_funding_terms env c True" "kc_funding c = Some t"
  shows "uint (u64_of_amount (ft_review_budget t)) + uint (u64_of_amount (ft_refundable t)) + uint (u64_of_amount (ft_retained t)) =
    uint (u64_of_amount (ft_paid t))"
  using assms by (rule funding_termsD) (auto simp: u64_sub_no_wrap [OF budget_le_paid])

lemma refund_fits:
  assumes "valid_funding_terms env c True" "kc_funding c = Some t"
  shows "uint (u64_of_amount (ft_refundable t) + u64_of_amount (ft_review_budget t)) =
    uint (u64_of_amount (ft_refundable t)) + uint (u64_of_amount (ft_review_budget t))"
  using funds_add_up [OF assms] u64_bounds(1) [of "u64_of_amount (ft_retained t)"] u64_bounds(2) [of "u64_of_amount (ft_paid t)"]
  by (intro u64_add_no_wrap) linarith

lemma funded_payments_total:
  assumes "funded_rewards_ok budget r" "length (rd_reveals r) < 2 ^ 64"
  shows "(case rd_rewards r of None \<Rightarrow> 0 | Some p \<Rightarrow> payments_total (wp_payments p) + uint (u64_of_amount (wp_withheld_total p))) =
    (if rd_reveals r = [] then 0 else uint budget)"
proof (cases "rd_reveals r = [] \<or> budget = 0")
  case True
  with assms(1) show ?thesis by (auto simp: funded_rewards_ok_def split: option.split)
next
  case False
  with assms(1) obtain plan where plan: "rd_rewards r = Some plan" "length (wp_payments plan) = length (rd_reveals r)"
    "wp_withheld_total plan = ''0''"
    and each: "list_all (\<lambda>(i, p, v). rp_verifier p = rv_verifier v \<and> rp_withheld p = ''0'' \<and>
      rp_amount p = format_u64 (review_share budget (length (rd_reveals r)) i))
      (zip [0..<length (rd_reveals r)] (zip (wp_payments plan) (rd_reveals r)))"
    by (auto simp: funded_rewards_ok_def split: option.splits)
  have "wp_payments plan = map (\<lambda>(i, v). share_payment budget (length (map rv_verifier (rd_reveals r))) i v) (enumerate 0 (map rv_verifier (rd_reveals r)))"
  proof (rule nth_equalityI)
    fix i
    assume "i < length (wp_payments plan)"
    with each plan(2) show "wp_payments plan ! i = map (\<lambda>(i, v). share_payment budget (length (map rv_verifier (rd_reveals r))) i v)
        (enumerate 0 (map rv_verifier (rd_reveals r))) ! i"
      by (cases "wp_payments plan ! i") (auto simp: list_all_length nth_enumerate_eq share_payment_def)
  qed (simp add: plan(2))
  then have "payments_total (wp_payments plan) = uint budget"
    using payments_sum [of "map rv_verifier (rd_reveals r)" budget] False assms(2) by simp
  with plan False show ?thesis by simp
qed

lemma funded_promises:
  assumes ok: "valid_funding_round env (Some c) r" and t: "kc_funding c = Some t" and complete: "rd_phase r = PHASE_COMPLETE"
  shows "promised_total r = uint (u64_of_amount (ft_review_budget t)) + uint (u64_of_amount (ft_refundable t))"
proof -
  from ok t complete have terms: "valid_funding_terms env c True" and v: "valid_round env r True" "rd_policy r = policy_neutral"
    and p: "funded_rewards_ok (u64_of_amount (ft_review_budget t)) r" "funded_refund_ok c t r"
    by (simp_all add: valid_funding_round_def)
  have n: "length (rd_reveals r) < 2 ^ 64" using neutral_reveals_bound [OF v] by simp
  have "(case rd_refund r of None \<Rightarrow> 0 | Some q \<Rightarrow> uint (u64_of_amount (rf_amount q))) =
      uint (u64_of_amount (ft_refundable t)) + (if rd_reveals r = [] then uint (u64_of_amount (ft_review_budget t)) else 0)"
  proof -
    let ?refund = "u64_of_amount (ft_refundable t) + (if rd_reveals r = [] then u64_of_amount (ft_review_budget t) else 0)"
    have "(case rd_refund r of None \<Rightarrow> 0 | Some q \<Rightarrow> uint (u64_of_amount (rf_amount q))) = uint ?refund"
      using p(2) unfolding funded_refund_ok_def Let_def by (cases "?refund = 0") (auto split: option.splits)
    also have "\<dots> = uint (u64_of_amount (ft_refundable t)) + (if rd_reveals r = [] then uint (u64_of_amount (ft_review_budget t)) else 0)"
      using refund_fits [OF terms t] by simp
    finally show ?thesis .
  qed
  with funded_payments_total [OF p(1) n] show ?thesis by (simp add: promised_total_def)
qed

section \<open>Writing the verdict\<close>

lemma reveal_canonical:
  assumes "valid_round env r True" "rd_policy r = policy_neutral"
  shows "\<And>v. v \<in> set (rd_reveals r) \<Longrightarrow> canonical_review_address env (rv_verifier v) \<noteq> None"
    and "distinct (map rv_verifier (rd_reveals r))"
proof -
  have ok: "review_v2_ok env r"
    using assms neutral_round [OF assms] unfolding valid_round_def by (simp add: scheme_review_v2_def scheme_legacy_def)
  then show "distinct (map rv_verifier (rd_reveals r))" by (simp add: review_v2_ok_def)
  fix v
  assume "v \<in> set (rd_reveals r)"
  with ok have "reveal_opens env r v" by (simp add: review_v2_ok_def list_all_iff)
  then show "canonical_review_address env (rv_verifier v) \<noteq> None"
    by (auto simp: reveal_opens_def review_commitment_def split: option.splits if_splits)
qed

text \<open>A round with its verdict and its plans in place.\<close>

definition closed_with :: "u64 \<Rightarrow> verdict \<Rightarrow> reward_plan option \<Rightarrow> refund_plan option \<Rightarrow> verification_round \<Rightarrow> verification_round" where
  "closed_with now v rewards refund r =
     r\<lparr>rd_verdict := v, rd_verdict_block := now, rd_phase := PHASE_COMPLETE, rd_rewards := rewards, rd_refund := refund\<rparr>"

lemma closed_with_fields [simp]:
  "rd_id (closed_with now v w f r) = rd_id r" "rd_claim_id (closed_with now v w f r) = rd_claim_id r"
  "rd_phase (closed_with now v w f r) = PHASE_COMPLETE" "rd_verdict (closed_with now v w f r) = v"
  "rd_verdict_block (closed_with now v w f r) = now" "rd_rewards (closed_with now v w f r) = w"
  "rd_refund (closed_with now v w f r) = f" "rd_policy (closed_with now v w f r) = rd_policy r"
  "rd_scheme (closed_with now v w f r) = rd_scheme r" "rd_reveals (closed_with now v w f r) = rd_reveals r"
  "rd_commits (closed_with now v w f r) = rd_commits r" "rd_selected (closed_with now v w f r) = rd_selected r"
  "rd_chain_id (closed_with now v w f r) = rd_chain_id r"
  by (simp_all add: closed_with_def)

lemma closed_with_valid:
  assumes "valid_round env r True" "valid_reward_plan env (closed_with now v w f r)" "valid_refund_plan env (closed_with now v w f r)"
  shows "valid_round env (closed_with now v w f r) True"
proof -
  have "reveal_opens env (closed_with now v w f r) = reveal_opens env r" by (simp add: reveal_opens_def fun_eq_iff cong: option.case_cong)
  moreover have "neutral_windows_ok (closed_with now v w f r) = neutral_windows_ok r"
    by (simp add: neutral_windows_ok_def closed_with_def)
  ultimately show ?thesis
    using assms unfolding valid_round_def by (auto simp: review_v2_ok_def legacy_round_ok_def split: if_splits)
qed

definition reward_plan_for :: "u64 \<Rightarrow> u64 \<Rightarrow> verification_round \<Rightarrow> reward_plan option" where
  "reward_plan_for now budget r =
     (if rd_reveals r = [] \<or> budget = 0 then None
      else Some \<lparr>wp_created_at = now,
        wp_payments = map (\<lambda>(i, v). share_payment budget (length (rd_reveals r)) i v) (enumerate 0 (map rv_verifier (rd_reveals r))),
        wp_withheld_total = ''0'', wp_paid_at = 0\<rparr>)"

definition refund_plan_for :: "u64 \<Rightarrow> review_claim \<Rightarrow> funding_terms \<Rightarrow> verification_round \<Rightarrow> refund_plan option" where
  "refund_plan_for now c t r =
     (let refund = u64_of_amount (ft_refundable t) + (if rd_reveals r = [] then u64_of_amount (ft_review_budget t) else 0)
      in if refund = 0 then None
         else Some \<lparr>rf_recipient = kc_submitter c, rf_amount = format_u64 refund, rf_created_at = now, rf_paid_at = 0\<rparr>)"

lemma reward_plan_for_valid:
  assumes v: "valid_round env r True" "rd_policy r = policy_neutral" and now: "now \<noteq> 0"
  shows "valid_reward_plan env (closed_with now verdict (reward_plan_for now budget r) f r)"
proof (cases "rd_reveals r = [] \<or> budget = 0")
  case True
  then show ?thesis by (simp add: valid_reward_plan_def reward_plan_for_def)
next
  case False
  define vs where "vs = map rv_verifier (rd_reveals r)"
  define ps where "ps = map (\<lambda>(i, v). share_payment budget (length vs) i v) (enumerate 0 vs)"
  have n: "vs \<noteq> []" "length vs \<le> 512" "length ps = length vs" using False neutral_reveals_bound [OF v] by (simp_all add: vs_def ps_def)
  have names: "map rp_verifier ps = vs"
    by (rule nth_equalityI) (simp_all add: ps_def nth_enumerate_eq share_payment_def)
  have total: "payments_total ps = uint budget" unfolding ps_def by (rule payments_sum) (use n in auto)
  have "\<exists>b. plan_totals env [] ps 0 0 = Some (b, 0) \<and> uint b = uint (0 :: u64) + payments_total ps"
  proof (rule plan_totals_exact)
    show "distinct (map rp_verifier ps)" unfolding names vs_def by (rule reveal_canonical(2) [OF v])
    fix p
    assume p: "p \<in> set ps"
    then have "rp_verifier p \<in> set vs" using names by (metis image_eqI list.set_map)
    with reveal_canonical(1) [OF v] p show "rp_withheld p = ''0'' \<and> rp_amount p = format_u64 (u64_of_amount (rp_amount p)) \<and>
        canonical_review_address env (rp_verifier p) \<noteq> None"
      by (auto simp: ps_def vs_def share_payment_def)
  qed (use total u64_bounds(2) [of budget] in simp_all)
  then have "plan_totals env [] ps 0 0 = Some (budget, 0)" by (auto simp: total word_uint_eq_iff)
  moreover have "settlement_amount ''0'' = Some 0" by (simp flip: zero_amount)
  moreover have "reward_plan_for now budget r = Some \<lparr>wp_created_at = now, wp_payments = ps, wp_withheld_total = ''0'', wp_paid_at = 0\<rparr>"
    using False by (simp add: reward_plan_for_def ps_def vs_def)
  ultimately show ?thesis
    using valid_round_ids [OF v(1)] n now False
    by (auto simp: valid_reward_plan_def plan_heights_ok_def commit_seat_hard_cap_def)
qed

lemma refund_plan_for_valid:
  assumes "valid_round env r True" "valid_funding_terms env c True" "kc_funding c = Some t" "now \<noteq> 0" "funded_terminal v"
  shows "valid_refund_plan env (closed_with now v w (refund_plan_for now c t r) r)"
  using assms(2,3)
proof (rule funding_termsD)
  assume "canonical_review_address env (kc_submitter c) \<noteq> None"
  then show ?thesis using valid_round_ids [OF assms(1)] assms(4,5)
    by (auto simp: valid_refund_plan_def refund_plan_for_def Let_def plan_heights_ok_def)
qed

lemma closed_with_funding:
  assumes v: "valid_round env r True" "rd_policy r = policy_neutral" and t: "valid_funding_terms env c True" "kc_funding c = Some t"
    and now: "now \<noteq> 0" and verdict: "funded_terminal verdict" and claim: "rd_claim_id r = kc_id c" "kc_round_id c = [] \<or> kc_round_id c = rd_id r"
  defines "r' \<equiv> closed_with now verdict (reward_plan_for now (u64_of_amount (ft_review_budget t)) r) (refund_plan_for now c t r) r"
  shows "valid_funding_round env (Some c) r'"
proof -
  have plans: "valid_reward_plan env r'" "valid_refund_plan env r'"
    unfolding r'_def by (rule reward_plan_for_valid [OF v now], rule refund_plan_for_valid [OF v(1) t now verdict])
  then have valid: "valid_round env r' True" unfolding r'_def by (rule closed_with_valid [OF v(1)])
  have "funded_rewards_ok (u64_of_amount (ft_review_budget t)) r'"
    by (auto simp: funded_rewards_ok_def r'_def reward_plan_for_def list_all_length nth_enumerate_eq share_payment_def)
  moreover have "funded_refund_ok c t r'"
    unfolding funded_refund_ok_def Let_def by (auto simp: r'_def refund_plan_for_def Let_def)
  moreover have "paid_together r'"
    by (auto simp: paid_together_def r'_def refund_plan_for_def reward_plan_for_def Let_def)
  ultimately show ?thesis
    using v t now verdict claim plans valid neutral_round [OF v] unfolding valid_funding_round_def
    by (auto simp: r'_def)
qed

lemma word_of_uint: "(word_of_int (uint (x :: u64)) :: u64) = x"
  by simp

lemma record_verdict_runs:
  assumes inv: "kr_inv env s" and r: "get_round s k = Some r" "rd_policy r = policy_neutral" "\<not> closed_phase (rd_phase r)"
    and c: "get_claim s (rd_claim_id r) = Some c" "kc_funding c = Some t" "kc_round_id c = [] \<or> kc_round_id c = k"
    and on: "kr_neutrality s" "kr_fund_settlement s" and h: "0 < h" "h < 2 ^ 63"
    and res: "ro_rewards res = map (\<lambda>v. (rv_verifier v, 0)) (rd_reveals r)" "funded_terminal (ro_verdict res)"
  defines "r' \<equiv> closed_with (to_u64 h) (ro_verdict res) (reward_plan_for (to_u64 h) (u64_of_amount (ft_review_budget t)) r)
    (refund_plan_for (to_u64 h) c t r) r"
  shows "record_verdict env h c res r s = Done (with_round r' s) r'"
proof -
  note inv' = kr_invD [OF inv]
  have ok: "rd_id r = k" "valid_round env r True" using inv'(7) [OF r(1)] by (simp_all add: round_ok_def)
  have cid: "rd_claim_id r = kc_id c" "valid_funding_terms env c True" using inv'(8) [OF c(1)] by (simp_all add: claim_ok_def)
  have fresh: "rd_rewards r = None" "rd_refund r = None"
    using inv'(7) [OF r(1)] r(2,3) c by (auto simp: round_ok_def valid_funding_round_def closed_phase_def)
  have now: "to_u64 h \<noteq> 0" using h uint_to_u64 [of h] by auto
  have pointer: "kc_round_id c = [] \<or> kc_round_id c = rd_id r" using c(3) ok(1) by simp
  have funded: "valid_funding_round env (Some c) r'"
    unfolding r'_def by (rule closed_with_funding [OF ok(2) r(2) cid(2) c(2) now res(2) cid(1) pointer])
  from funded c(2) have valid: "valid_round env r' True" by (simp add: valid_funding_round_def)
  from cid(2) c(2) obtain paid where paid: "kc_stake c = format_u64 paid" "paid \<noteq> 0"
      "u64_of_amount (ft_review_budget t) = claim_review_budget paid" "kc_policy c = policy_neutral"
    by (rule funding_termsD) metis
  have pool: "verifier_pool_from_fee paid = u64_of_amount (ft_review_budget t)"
    by (simp add: paid(3) word_uint_eq_iff verifier_pool_exact claim_budget_exact)
  let ?r1 = "r\<lparr>rd_verdict := ro_verdict res, rd_verdict_block := to_u64 h, rd_phase := PHASE_COMPLETE\<rparr>"
  let ?w = "reward_plan_for (to_u64 h) (u64_of_amount (ft_review_budget t)) r"
  let ?r2 = "closed_with (to_u64 h) (ro_verdict res) ?w None r"
  have r1: "?r1 = closed_with (to_u64 h) (ro_verdict res) None None r"
    using fresh by (cases r) (simp add: closed_with_def)
  have w: "valid_reward_plan env ?r2" by (rule reward_plan_for_valid [OF ok(2) r(2) now])
  have names: "map fst (ro_rewards res) = map rv_verifier (rd_reveals r)" "length (ro_rewards res) = length (rd_reveals r)"
    "ro_rewards res = [] \<longleftrightarrow> rd_reveals r = []" by (simp_all add: res(1) comp_def)
  have shares: "freeze_payments s policy_neutral (u64_of_amount (ft_review_budget t) div of_nat (length (rd_reveals r)))
      (u64_of_amount (ft_review_budget t) mod of_nat (length (rd_reveals r))) (map rv_verifier (rd_reveals r)) =
    Some (map (\<lambda>(i, v). share_payment (u64_of_amount (ft_review_budget t)) (length (rd_reveals r)) i v)
      (enumerate 0 (map rv_verifier (rd_reveals r))), 0)"
    using freeze_shares [of s "u64_of_amount (ft_review_budget t)" "map rv_verifier (rd_reveals r)"] by simp
  have u64: "uint paid < 2 ^ 64" by (rule u64_bounds(2))
  have rewards: "build_reward_plan env s c res ?r1 = Inr ?r2"
  proof (cases "rd_reveals r = [] \<or> u64_of_amount (ft_review_budget t) = 0")
    case True
    then show ?thesis
      using positive_amount [OF paid(2)] u64
      by (auto simp: build_reward_plan_def names r1 paid(1) pool reward_plan_for_def Let_def)
  next
    case False
    have "?r1\<lparr>rd_rewards := ?w\<rparr> = ?r2" unfolding r1 by (simp add: closed_with_def)
    then show ?thesis
      using positive_amount [OF paid(2)] u64 w False shares r(2)
      by (simp add: build_reward_plan_def names paid(1) pool reward_plan_for_def Let_def zero_amount not_le)
  qed
  have "validate_claim_funding env s c" using cid(2) on(2) by (simp add: validate_claim_funding_def)
  moreover have "r' = (if 0 < u64_of_amount (ft_refundable t) + (if ro_rewards res = [] then u64_of_amount (ft_review_budget t) else 0)
      then ?r2\<lparr>rd_refund := Some \<lparr>rf_recipient = kc_submitter c, rf_amount = format_u64
        (u64_of_amount (ft_refundable t) + (if ro_rewards res = [] then u64_of_amount (ft_review_budget t) else 0)),
        rf_created_at = rd_verdict_block ?r2, rf_paid_at = 0\<rparr>\<rparr> else ?r2)"
    by (simp add: r'_def refund_plan_for_def Let_def names(3) closed_with_def word_neq_0_conv)
  ultimately have refund: "build_refund_plan env s c res ?r2 = Inr r'"
    using c(2) funded by (simp add: build_refund_plan_def Let_def)
  have "round_claim env s r' = Inr (Some c)"
    using c(1) cid paid(4) r(2) on(2) by (simp add: round_claim_def r'_def validate_claim_funding_def)
  moreover have "round_update_ok env r r'"
    using ok(2) by (simp add: round_update_ok_def same_identity_def same_timing_def reviews_extended_def r'_def)
      (simp add: closed_with_def)
  then have "check_round env s (Some c) r' = Inr ()"
    using valid funded r(1) ok(1) fresh
    by (simp add: check_round_def Let_def outcome_simps reward_plan_update_ok_def refund_plan_update_ok_def r'_def require_def)
  moreover have "valid_review_policy (rd_policy r') (kr_neutrality s)"
    using r(2) on(1) by (simp add: valid_review_policy_def r'_def)
  ultimately have "set_verification_round env r' s = Done (with_round r' s) ()"
    using set_round_iff [OF inv'(1), of env r' "with_round r' s" "()"] by blast
  with rewards refund show ?thesis by (simp add: record_verdict_def Let_def)
qed

section \<open>Completing a round\<close>

text \<open>
  What the verdict's other effects may do to the records of the review: nothing.  Only the setters write
  rounds and claims, and none of \<open>createFactFromClaim\<close>, \<open>handleChallengeSurvival\<close>, \<open>contestAcceptedTargets\<close>,
  \<open>endContradiction\<close>, \<open>restoreChallengedFactOnInconclusive\<close>, \<open>handleChallengeDisproven\<close> and the other functions
  that \<open>completeRound\<close> calls for its verdict calls a setter.
\<close>

definition keeps_records :: "'b verdict_step \<Rightarrow> bool" where
  "keeps_records f \<longleftrightarrow> (\<forall>s s'. kr_record_integrity s \<and> f s = Done s' () \<longrightarrow>
     same_other_records s s' \<and> kr_neutrality s' = kr_neutrality s \<and> kr_fund_settlement s' = kr_fund_settlement s)"

lemma keeps_recordsD:
  assumes "keeps_records f" "f s = Done s' ()" "kr_inv env s"
  shows "kr_inv env s'" "get_round s' = get_round s" "get_claim s' = get_claim s"
    "kr_neutrality s' = kr_neutrality s" "kr_fund_settlement s' = kr_fund_settlement s"
proof -
  from assms kr_invD(1) [OF assms(3)] have *: "same_other_records s s'" "kr_neutrality s' = kr_neutrality s"
    "kr_fund_settlement s' = kr_fund_settlement s" by (auto simp: keeps_records_def)
  then show "get_round s' = get_round s" "get_claim s' = get_claim s"
    "kr_neutrality s' = kr_neutrality s" "kr_fund_settlement s' = kr_fund_settlement s"
    by (simp_all add: fun_eq_iff get_round_def get_claim_def same_other_records_def)
  show "kr_inv env s'"
    using *(1) kr_invD(2) [OF assms(3)] by (intro kr_inv_frame [OF assms(3)]) (simp_all add: same_other_records_def)
qed

lemma index_claim_flags [simp]:
  "kr_neutrality (index_claim c s) = kr_neutrality s" "kr_fund_settlement (index_claim c s) = kr_fund_settlement s"
  by (simp_all add: index_claim_def Let_def)

text \<open>A claim's new status is always written.\<close>

lemma set_status_runs:
  fixes st
  assumes inv: "kr_inv env s" and c: "get_claim s x = Some c" and on: "kr_neutrality s" "kr_fund_settlement s" and pol: "kc_policy c = policy_neutral"
  defines "c' \<equiv> c\<lparr>kc_status := st\<rparr>"
  obtains t where "set_claim env c' s = Done t ()" "kr_inv env t" "get_round t = get_round s"
    "get_claim t = (get_claim s)(x := Some c')" "kr_neutrality t" "kr_fund_settlement t"
proof -
  have id: "kc_id c = x" "valid_funding_terms env c True" using kr_invD(8) [OF inv c] by (simp_all add: claim_ok_def)
  have terms: "valid_funding_terms env c' True"
    using id(2) unfolding c'_def by (subst funding_terms_same [of _ c]) simp_all
  have "claim_policy s c' = Inr policy_neutral"
    using pol on(1) kr_invD(1) [OF inv] by (simp add: claim_policy_def valid_review_policy_def c'_def require_def)
  moreover have "validate_claim_funding env s c'" using terms on(2) by (simp add: validate_claim_funding_def)
  moreover have "claim_update_ok env (get_claim s (kc_id c')) c'"
    using terms id(1) c by (simp add: claim_update_ok_def funding_update_ok_def c'_def)
  ultimately obtain t where run: "set_claim env c' s = Done t ()"
    and t: "t = s\<lparr>kr_claims := kv_set (kc_id c') c' (kr_claims s)\<rparr> \<or> t = index_claim c' (s\<lparr>kr_claims := kv_set (kc_id c') c' (kr_claims s)\<rparr>)"
    by (simp add: set_claim_def Let_def require_def split: if_splits)
  have "kc_id c' = x" by (simp add: c'_def id(1))
  then have "get_round t = get_round s" "get_claim t = (get_claim s)(x := Some c')" "kr_neutrality t" "kr_fund_settlement t"
    using t on by (auto simp: fun_eq_iff get_round_def get_claim_def)
  with run set_claim_kept [OF inv run] show thesis by (rule that)
qed

lemma neutral_aggregate:
  assumes inv: "kr_inv env s" and r: "get_round s k = Some r" "rd_policy r = policy_neutral"
    and c: "get_claim s (rd_claim_id r) = Some c" and on: "kr_neutrality s"
  obtains res where "policy_for_round env s r = Inr policy_neutral" "aggregate_round env h s r = Inr res"
    "ro_rewards res = map (\<lambda>v. (rv_verifier v, 0)) (rd_reveals r)" "funded_terminal (ro_verdict res)" "kc_policy c = policy_neutral"
proof -
  have v: "valid_round env r True" using kr_invD(7) [OF inv r(1)] by (simp add: round_ok_def)
  have pol: "kc_policy c = policy_neutral" using kr_invD(7) [OF inv r(1)] r(2) c by (simp add: round_ok_def)
  have "kc_id c = rd_claim_id r" using kr_invD(8) [OF inv c] by (simp add: claim_ok_def)
  then have p: "policy_for_round env s r = Inr policy_neutral"
    using r(2) c on pol v kr_invD(1) [OF inv] neutral_round [OF v r(2)]
    by (simp add: policy_for_round_def get_claim_checked_def claim_policy_def valid_review_policy_def require_def)
  then obtain res where res: "aggregate_round env h s r = Inr res"
    and cases: "res = (initial_outcome policy_neutral r)\<lparr>ro_verdict := VERDICT_INCONCLUSIVE, ro_confidence := 0\<rparr> \<or>
      res = decided_outcome s policy_neutral r"
    unfolding aggregate_round_def by (cases "length (rd_reveals r) < unat (quorum_for_round s h policy_neutral r)") auto
  have rewards: "ro_rewards res = map (\<lambda>v. (rv_verifier v, 0)) (rd_reveals r)"
    using cases by (auto simp: initial_outcome_def decided_outcome_def Let_def case_prod_beta)
  have "fst (panel_verdict p w vs) \<noteq> VERDICT_UNSPECIFIED" for p w vs
    by (simp add: panel_verdict_def Let_def)
  then have "funded_terminal (ro_verdict res)"
    using cases by (auto simp: decided_outcome_def Let_def case_prod_beta funded_terminal_def)
  with p res rewards pol show thesis using that by blast
qed

text \<open>The round as it is closed with this outcome.\<close>

abbreviation funded_close :: "int \<Rightarrow> review_claim \<Rightarrow> funding_terms \<Rightarrow> verdict \<Rightarrow> verification_round \<Rightarrow> verification_round" where
  "funded_close h c t v r \<equiv> closed_with (to_u64 h) v (reward_plan_for (to_u64 h) (u64_of_amount (ft_review_budget t)) r)
     (refund_plan_for (to_u64 h) c t r) r"

lemma refund_plan_status [simp]: "refund_plan_for now (c\<lparr>kc_status := st\<rparr>) t r = refund_plan_for now c t r"
  by (simp add: refund_plan_for_def Let_def)

text \<open>The completion of a funded neutral round, where the verdict's other effects do not fail.\<close>

lemma finish_round_funded:
  assumes inv: "kr_inv env s" and r: "get_round s k = Some r" "rd_policy r = policy_neutral" "\<not> closed_phase (rd_phase r)"
    and c: "get_claim s (rd_claim_id r) = Some c" "kc_funding c = Some t" "kc_round_id c = [] \<or> kc_round_id c = k" "kc_policy c = policy_neutral"
    and on: "kr_neutrality s" "kr_fund_settlement s" and h: "0 < h" "h < 2 ^ 63"
    and res: "ro_rewards res = map (\<lambda>v. (rv_verifier v, 0)) (rd_reveals r)" "funded_terminal (ro_verdict res)"
    and keeps: "keeps_records before" "keeps_records after"
  obtains (undone) t e where "finish_round env h before after res r s = Fail t e" "\<exists>u v e. before u = Fail v e \<or> after u = Fail v e"
  | (finished) s' where "finish_round env h before after res r s = Done s' (funded_close h c t (ro_verdict res) r)"
      "kr_inv env s'" "get_round s' k = Some (funded_close h c t (ro_verdict res) r)"
      "get_claim s' (rd_claim_id r) = Some (c\<lparr>kc_status := verdict_status (ro_verdict res) (kc_status c)\<rparr>)"
proof (cases "before s")
  case (Fail v e)
  with c(1) undone show thesis by (auto simp: finish_round_def Let_def)
next
  case (Done s1 u)
  let ?c = "c\<lparr>kc_status := verdict_status (ro_verdict res) (kc_status c)\<rparr>" and ?r = "funded_close h c t (ro_verdict res) r"
  note s1 = keeps_recordsD [OF keeps(1) _ inv, of s1]
  from Done have b: "before s = Done s1 ()" by simp
  note s1 = keeps_recordsD [OF keeps(1) b inv]
  obtain s2 where s2: "set_claim env ?c s1 = Done s2 ()" "kr_inv env s2" "get_round s2 = get_round s1"
    "get_claim s2 = (get_claim s1)(rd_claim_id r := Some ?c)" "kr_neutrality s2" "kr_fund_settlement s2"
    by (rule set_status_runs [OF s1(1), of "rd_claim_id r" c]) (use s1 c on in simp_all)
  have close: "record_verdict env h ?c res r s2 = Done (with_round ?r s2) ?r"
    using record_verdict_runs [OF s2(2), of k r ?c t h res] r c s1(2) s2(3-6) h res by simp
  define s3 where "s3 = with_round ?r s2"
  have "set_verification_round env ?r s2 = Done s3 ()"
    using close by (auto simp: record_verdict_def Let_def outcome_simps s3_def)
  then have s3: "kr_inv env s3" "kr_claims s3 = kr_claims s2" using set_round_kept [OF s2(2)] by blast+
  have "rd_id r = k" using kr_invD(7) [OF inv r(1)] by (simp add: round_ok_def)
  then have got: "get_round s3 k = Some ?r" "get_claim s3 (rd_claim_id r) = Some ?c"
    using s2(4) s3(2) by (simp_all add: s3_def get_claim_def fun_eq_iff)
  have run: "finish_round env h before after res r s = and_then (after s3) (\<lambda>s _. Done s ?r)"
    using b c(1) s2(1) close by (simp add: finish_round_def Let_def s3_def)
  show thesis
  proof (cases "after s3")
    case (Fail v e)
    with run undone show thesis by auto
  next
    case (Done s' u)
    then have a: "after s3 = Done s' ()" by simp
    note s' = keeps_recordsD [OF keeps(2) a s3(1)]
    from run a finished [of s'] s' got show thesis by simp
  qed
qed

text \<open>A settlement leaves the round or marks it paid.\<close>

lemma settled_round:
  assumes inv: "kr_inv env s" and r: "get_round s k = Some r" and s': "s' = final_state (try_settle env h k s)"
  shows "\<exists>q. get_round s' k = Some q \<and> q \<in> {r, marked_paid (to_u64 h) r} \<and> get_claim s' = get_claim s"
proof (cases "try_settle env h k s")
  case (Fail t e)
  with try_settle_Fail [OF Fail] r show ?thesis by (simp add: s')
next
  case (Done t u)
  from Done kr_invD(1) [OF inv] show ?thesis
  proof (cases rule: try_settle_effect)
    case (settled q)
    with r Done show ?thesis by (simp add: s')
  next
    case (paid q b)
    have "kr_record_integrity (s\<lparr>kr_bank := b\<rparr>)" using kr_invD(1) [OF inv] by simp
    from set_round_effect [OF paid(8) this] have t: "t = with_round (marked_paid (to_u64 h) q) (s\<lparr>kr_bank := b\<rparr>)" by blast
    have "rd_id (marked_paid (to_u64 h) q) = k" using paid(2) by (simp add: marked_paid_def)
    with paid(1) r Done show ?thesis by (simp add: s' t fun_eq_iff get_claim_def)
  qed
qed

lemma promised_marked [simp]: "promised_total (marked_paid n r) = promised_total r"
  by (simp add: promised_total_def marked_paid_def split: option.split)

lemma marked_record [simp]:
  "rd_phase (marked_paid n r) = rd_phase r" "rd_verdict (marked_paid n r) = rd_verdict r"
  "rd_verdict_block (marked_paid n r) = rd_verdict_block r" "rd_reveals (marked_paid n r) = rd_reveals r"
  by (simp_all add: marked_paid_def)

text \<open>Completion of a funded neutral round whose panel is closed.\<close>

lemma complete_round_funded:
  assumes inv: "kr_inv env s" and r: "get_round s k = Some r" "rd_policy r = policy_neutral" "\<not> closed_phase (rd_phase r)"
    and c: "get_claim s (rd_claim_id r) = Some c" "kc_funding c = Some t" "kc_round_id c = [] \<or> kc_round_id c = k"
    and on: "kr_neutrality s" "kr_fund_settlement s" and h: "0 < h" "h < 2 ^ 63"
    and keeps: "keeps_records before" "keeps_records after" and closed: "panel_closed (kr_params s) (to_u64 h) r"
    and res: "aggregate_round env h s r = Inr res"
  obtains (undone) e where "complete_round env h before after k given s = Fail s e" "\<exists>u v e. before u = Fail v e \<or> after u = Fail v e"
  | (completed) s' q where "complete_round env h before after k given s = Done s' ()"
      "q \<in> {funded_close h c t (ro_verdict res) r, marked_paid (to_u64 h) (funded_close h c t (ro_verdict res) r)}"
      "kr_inv env s'" "get_round s' k = Some q"
      "get_claim s' (rd_claim_id r) = Some (c\<lparr>kc_status := verdict_status (ro_verdict res) (kc_status c)\<rparr>)"
proof -
  obtain res' where "policy_for_round env s r = Inr policy_neutral" "aggregate_round env h s r = Inr res'"
    "ro_rewards res' = map (\<lambda>v. (rv_verifier v, 0)) (rd_reveals r)" "funded_terminal (ro_verdict res')" "kc_policy c = policy_neutral"
    by (rule neutral_aggregate [OF inv r(1,2) c(1) on(1)])
  with res have p: "policy_for_round env s r = Inr policy_neutral" "kc_policy c = policy_neutral"
    and rewards: "ro_rewards res = map (\<lambda>v. (rv_verifier v, 0)) (rd_reveals r)" "funded_terminal (ro_verdict res)" by simp_all
  have id: "get_round_checked s k = Inr r" using kr_invD(7) [OF inv r(1)] r(1) by (simp add: get_round_checked_def round_ok_def)
  have run: "complete_round env h before after k given s = and_then (cached s (finish_round env h before after res r s)) (\<lambda>s r.
      Done (if has_pending_funds r then final_state (try_settle env h k s) else s) ())"
    using id p(1) r(3) closed res by (simp add: complete_round_def closed_phase_def)
  show thesis
  proof (rule finish_round_funded [OF inv r c p(2) on h rewards keeps])
    fix t e
    assume "finish_round env h before after res r s = Fail t e" "\<exists>u v e. before u = Fail v e \<or> after u = Fail v e"
    then show thesis by (intro undone) (simp_all add: run cached_def)
  next
    fix s1
    let ?r = "funded_close h c t (ro_verdict res) r"
    assume s1: "finish_round env h before after res r s = Done s1 ?r" "kr_inv env s1" "get_round s1 k = Some ?r"
      "get_claim s1 (rd_claim_id r) = Some (c\<lparr>kc_status := verdict_status (ro_verdict res) (kc_status c)\<rparr>)"
    define s2 where "s2 = (if has_pending_funds ?r then final_state (try_settle env h k s1) else s1)"
    have out: "complete_round env h before after k given s = Done s2 ()" using run s1(1) by (simp add: cached_def s2_def)
    have "\<exists>q. get_round s2 k = Some q \<and> q \<in> {?r, marked_paid (to_u64 h) ?r} \<and> get_claim s2 = get_claim s1"
      using settled_round [OF s1(2,3) refl, of h] s1(3) by (simp add: s2_def)
    then obtain q where q: "get_round s2 k = Some q" "q \<in> {?r, marked_paid (to_u64 h) ?r}" "get_claim s2 = get_claim s1" by blast
    have "kr_inv env s2" using settle_step [OF s1(2) refl, of h k] s1(2) by (simp add: s2_def)
    with out q s1(4) show thesis by (intro completed [of s2 q]) simp_all
  qed
qed

end
