(* ===== verification/KR_Binding.thy ===== *)
theory KR_Binding
  imports KR_Chain
begin

text \<open>
  x/knowledge, the review protocol: the encoding that a scheme-2 commitment hashes can be read in one way
  only, so a commitment opens to one review, or exhibits a collision of the digest.
\<close>

section \<open>Fields\<close>

lemma bytes_eq:
  assumes "\<And>i. i < k \<Longrightarrow> n div 2 ^ (8 * i) mod 256 = m div 2 ^ (8 * i) mod (256 :: int)"
  shows "n mod 2 ^ (8 * k) = m mod 2 ^ (8 * k)"
  using assms
proof (induction k)
  case 0
  then show ?case by simp
next
  case (Suc k)
  have "(2 :: int) ^ (8 * Suc k) = 2 ^ (8 * k) * 256" by (simp add: power_add)
  then have step: "x mod 2 ^ (8 * Suc k) = 2 ^ (8 * k) * (x div 2 ^ (8 * k) mod 256) + x mod 2 ^ (8 * k)" for x :: int
    by (simp add: zmod_zmult2_eq)
  show ?case unfolding step using Suc.IH Suc.prems by simp
qed

lemma char_of_eq: "char_of (a :: int) = char_of b \<longleftrightarrow> a mod 256 = b mod 256"
  by (metis char_of_mod_256 of_char_of)

lemma length_be32 [simp]: "length (be32_text n) = 4"
  by (simp add: be32_text_def)

lemma length_be64 [simp]: "length (be64_text w) = 8"
  by (simp add: be64_text_def)

lemma below_4: "i < 4 \<Longrightarrow> i = 0 \<or> i = 1 \<or> i = 2 \<or> i = (3 :: nat)"
  by linarith

lemma below_8: "i < 8 \<Longrightarrow> i = 0 \<or> i = 1 \<or> i = 2 \<or> i = 3 \<or> i = 4 \<or> i = 5 \<or> i = 6 \<or> i = (7 :: nat)"
  by linarith

lemma be32_text_inj:
  assumes "be32_text n = be32_text m" "n < 2 ^ 32" "m < 2 ^ 32"
  shows "n = m"
proof -
  have "int n div 2 ^ (8 * i) mod 256 = int m div 2 ^ (8 * i) mod 256" if "i < 4" for i :: nat
  proof -
    from assms(1) have *: "\<forall>d \<in> set [16777216, 65536, 256, 1]. int n div d mod 256 = int m div d mod 256"
      unfolding be32_text_def map_eq_conv char_of_eq .
    from that have "2 ^ (8 * i) \<in> set [16777216, 65536, 256, 1 :: int]" by (auto dest!: below_4)
    with * show ?thesis by (rule bspec)
  qed
  from bytes_eq [of 4, OF this] assms(2,3) show ?thesis by simp
qed

lemma be64_text_inj:
  assumes "be64_text v = be64_text w"
  shows "v = w"
proof -
  have "uint v div 2 ^ (8 * i) mod 256 = uint w div 2 ^ (8 * i) mod 256" if "i < 8" for i :: nat
  proof -
    from assms have *: "\<forall>d \<in> set [72057594037927936, 281474976710656, 1099511627776, 4294967296, 16777216, 65536, 256, 1].
        uint v div d mod 256 = uint w div d mod 256"
      unfolding be64_text_def map_eq_conv char_of_eq .
    from that have "2 ^ (8 * i) \<in> set [72057594037927936, 281474976710656, 1099511627776, 4294967296, 16777216, 65536, 256, 1 :: int]"
      by (auto dest!: below_8)
    with * show ?thesis by (rule bspec)
  qed
  from bytes_eq [of 8, OF this] have "uint v mod 2 ^ 64 = uint w mod 2 ^ 64" by simp
  then show ?thesis using u64_bounds [of v] u64_bounds [of w] by (simp add: word_uint_eq_iff)
qed

text \<open>Two texts that start with a field of admissible length agree on the field and on what follows.\<close>

lemma put_field_append:
  assumes "put_field v @ xs = put_field w @ ys" "length v < 2 ^ 32" "length w < 2 ^ 32"
  shows "v = w \<and> xs = ys"
proof -
  from assms(1) have "be32_text (length v) = be32_text (length w)" "v @ xs = w @ ys"
    by (simp_all add: put_field_def append_eq_append_conv)
  with be32_text_inj assms(2,3) show ?thesis by (metis append_eq_append_conv)
qed

lemma put_fields_append:
  assumes "be32_text (length vs) @ concat (map put_field vs) = be32_text (length ws) @ concat (map put_field ws)"
    "length vs < 2 ^ 32" "length ws < 2 ^ 32" "\<And>v. v \<in> set vs \<union> set ws \<Longrightarrow> length v < 2 ^ 32"
  shows "vs = ws"
proof -
  from assms(1) have len: "length vs = length ws" and eq: "concat (map put_field vs) = concat (map put_field ws)"
    using be32_text_inj [OF _ assms(2,3)] by (simp_all add: append_eq_append_conv)
  from len eq assms(4) show ?thesis
  proof (induction vs ws rule: list_induct2)
    case (Cons v vs w ws)
    then have "v = w \<and> concat (map put_field vs) = concat (map put_field ws)"
      by (intro put_field_append) simp_all
    with Cons show ?case by simp
  qed simp
qed

section \<open>Reviews\<close>

definition short_review :: "string \<Rightarrow> string \<Rightarrow> addr \<Rightarrow> string \<Rightarrow> string \<Rightarrow> review_attestation \<Rightarrow> bool" where
  "short_review chain k a vote salt att \<longleftrightarrow>
     (\<forall>v \<in> {chain, k, a, vote, salt, at_method_id att, at_reason att, at_scope att} \<union> set (at_evidence_ids att). length v < 2 ^ 32) \<and>
     length (at_evidence_ids att) < 2 ^ 32"

lemma review_preimage_inj:
  assumes eq: "review_preimage chain k a vote conf salt att = review_preimage chain' k' a' vote' conf' salt' att'"
    and short: "short_review chain k a vote salt att" "short_review chain' k' a' vote' salt' att'"
  shows "chain = chain' \<and> k = k' \<and> a = a' \<and> vote = vote' \<and> conf = conf' \<and> salt = salt' \<and> att = att'"
proof -
  note l = short [unfolded short_review_def]
  from eq have "put_field chain @ put_field k @ put_field a @ put_field vote @ be64_text conf @ put_field salt @
      put_field (at_method_id att) @ put_field (at_reason att) @ put_field (at_scope att) @
      be32_text (length (at_evidence_ids att)) @ concat (map put_field (at_evidence_ids att)) =
    put_field chain' @ put_field k' @ put_field a' @ put_field vote' @ be64_text conf' @ put_field salt' @
      put_field (at_method_id att') @ put_field (at_reason att') @ put_field (at_scope att') @
      be32_text (length (at_evidence_ids att')) @ concat (map put_field (at_evidence_ids att'))"
    by (simp add: review_preimage_def)
  from put_field_append [OF this] l have 1: "chain = chain'" and
    r1: "put_field k @ put_field a @ put_field vote @ be64_text conf @ put_field salt @
      put_field (at_method_id att) @ put_field (at_reason att) @ put_field (at_scope att) @
      be32_text (length (at_evidence_ids att)) @ concat (map put_field (at_evidence_ids att)) =
    put_field k' @ put_field a' @ put_field vote' @ be64_text conf' @ put_field salt' @
      put_field (at_method_id att') @ put_field (at_reason att') @ put_field (at_scope att') @
      be32_text (length (at_evidence_ids att')) @ concat (map put_field (at_evidence_ids att'))" by simp_all
  note 2 = put_field_append [OF r1]
  note 3 = put_field_append [OF 2 [THEN conjunct2]]
  note 4 = put_field_append [OF 3 [THEN conjunct2]]
  have "be64_text conf = be64_text conf'" and r5: "put_field salt @
      put_field (at_method_id att) @ put_field (at_reason att) @ put_field (at_scope att) @
      be32_text (length (at_evidence_ids att)) @ concat (map put_field (at_evidence_ids att)) =
    put_field salt' @
      put_field (at_method_id att') @ put_field (at_reason att') @ put_field (at_scope att') @
      be32_text (length (at_evidence_ids att')) @ concat (map put_field (at_evidence_ids att'))"
    using 4 [THEN conjunct2] l by (simp_all add: append_eq_append_conv)
  then have c: "conf = conf'" using be64_text_inj by blast
  note 6 = put_field_append [OF r5]
  note 7 = put_field_append [OF 6 [THEN conjunct2]]
  note 8 = put_field_append [OF 7 [THEN conjunct2]]
  note 9 = put_field_append [OF 8 [THEN conjunct2]]
  have "at_evidence_ids att = at_evidence_ids att'"
    by (rule put_fields_append [OF 9 [THEN conjunct2]]) (use l in auto)
  with 1 2 3 4 c 6 7 8 9 l show ?thesis by (cases att; cases att') simp
qed

text \<open>What a valid review is bounded by; addresses have at most 255 bytes.\<close>

definition short_addresses :: "'b review_env \<Rightarrow> bool" where
  "short_addresses env \<longleftrightarrow> (\<forall>v a. acc_address (re_sdk env) v = Some a \<longrightarrow> length a \<le> 255)"

lemma review_commitment_Some:
  assumes "review_commitment env chain k v vote conf salt ao = Some hash"
  obtains a att where "ao = Some att" "acc_address (re_sdk env) v = Some a" "re_bech32 env a = v"
    "known_vote vote" "conf \<le> bps_scale" "16 \<le> length salt" "length salt \<le> 64" "valid_attestation (Some att)"
    "record_text chain 256 True" "record_text k 256 True" "hash = re_digest env (review_preimage chain k a vote conf salt att)"
  using assms
  by (auto simp: review_commitment_def canonical_review_address_def not_less split: option.splits if_splits)

lemma review_short:
  assumes "short_addresses env" "acc_address (re_sdk env) v = Some a" "known_vote vote" "length salt \<le> 64"
    "valid_attestation (Some att)" "record_text chain 256 True" "record_text k 256 True"
  shows "short_review chain k a vote salt att"
proof -
  have small: "n < 2 ^ 32" if "n \<le> 4096" for n :: nat
    using that by simp
  have "length a \<le> 4096" using assms(1,2) by (fastforce simp: short_addresses_def)
  moreover have "length vote \<le> 4096" using assms(3) by (auto simp: known_vote_def vote_accept_def vote_reject_def vote_malformed_def)
  moreover have "\<forall>x \<in> set (at_evidence_ids att). length x \<le> 4096"
    using assms(5) by (fastforce simp: valid_attestation_def evidence_references_def record_text_def list_all_iff)
  ultimately have "length x \<le> 4096"
    if "x \<in> {chain, k, a, vote, salt, at_method_id att, at_reason att, at_scope att} \<union> set (at_evidence_ids att)" for x
    using that assms(4-7) by (auto simp: record_text_def valid_attestation_def)
  moreover have "length (at_evidence_ids att) \<le> 4096"
    using assms(5) by (simp add: valid_attestation_def evidence_references_def)
  ultimately show ?thesis unfolding short_review_def using small by blast
qed

end
