(* ===== verification/KR_Demo.thy ===== *)
theory KR_Demo
  imports KR_Complete KR_Binding
begin

text \<open>
  x/knowledge, the review protocol: a small chain that the witnesses run on.  Its ledger is the one of the
  bank theory, its digest the last 32 bytes of the text.
\<close>

definition demo_env :: "ledger review_env" where
  "demo_env = \<lparr>re_sdk = ledger_sdk\<lparr>acc_address := (\<lambda>v. if length v \<le> 64 then ledger_account v else None)\<rparr>,
     re_bech32 = (\<lambda>a. a), re_bech32_data = (\<lambda>v. if take 4 v = ''zrn1'' then Some (drop 4 v) else None),
     re_digest = (\<lambda>m. rev (take 32 (rev m @ replicate 32 (CHR ''x''))))\<rparr>"

definition demo_review_params :: review_params where
  "demo_review_params = \<lparr>kp_commit_blocks = 10, kp_reveal_blocks = 10, kp_aggregation_blocks = 10, kp_min_verifiers = 1,
     kp_confidence_threshold = 600000, kp_min_headcount = 1, kp_max_confidence = 900000, kp_verification_reward = ''10'',
     kp_missed_reveal_bps = 1000, kp_wrong_verdict_bps = 2000, kp_independence_bps = 0, kp_agent_bonus_bps = 0,
     kp_role_min_calls = 0, kp_role_max_bps = 0, kp_role_min_bps = 0, kp_min_challenge_stake = ''1000'',
     kp_challenge_scaling_bps = 1000000\<rparr>"

definition demo_claim :: review_claim where
  "demo_claim = \<lparr>kc_id = ''c1'', kc_domain = ''d'', kc_submitter = ''zrn1sub'', kc_round_id = ''r1'', kc_status = CLAIM_IN_VERIFICATION,
     kc_content_hash = [], kc_canonical_hash = [], kc_stake = ''1000'', kc_provisional_fact = [], kc_relations = [],
     kc_policy = policy_neutral,
     kc_funding = Some \<lparr>ft_policy_version = 1, ft_kind = FUNDING_CHALLENGE_DEPOSIT, ft_paid = ''1000'', ft_review_budget = ''550'',
       ft_refundable = ''450'', ft_retained = ''0''\<rparr>\<rparr>"

definition demo_review :: review_attestation where
  "demo_review = \<lparr>at_method_id = [], at_reason = ''checked'', at_evidence_ids = [''e1''], at_scope = []\<rparr>"

definition demo_salt :: string where
  "demo_salt = replicate 16 (CHR ''s'')"

definition demo_hash :: string where
  "demo_hash = (case review_commitment demo_env ''zerone'' ''r1'' ''zrn1rev'' vote_accept 800000 demo_salt (Some demo_review) of
     None \<Rightarrow> [] | Some hash \<Rightarrow> hash)"

definition demo_commit :: commit_entry where
  "demo_commit = \<lparr>cm_verifier = ''zrn1rev'', cm_hash = demo_hash, cm_at_block = 2\<rparr>"

definition demo_msg :: reveal_msg where
  "demo_msg = \<lparr>rm_round = ''r1'', rm_verifier = ''zrn1rev'', rm_vote = vote_accept, rm_salt = demo_salt, rm_confidence = 800000,
     rm_attestation = Some demo_review\<rparr>"

text \<open>The round as it is opened, committed to, moved to its reveal phase, and revealed.\<close>

definition demo_round :: verification_round where
  "demo_round = \<lparr>rd_id = ''r1'', rd_claim_id = ''c1'', rd_started_at = 2, rd_phase = PHASE_COMMIT, rd_selected = [],
     rd_commits = [], rd_reveals = [], rd_verdict = VERDICT_UNSPECIFIED, rd_verdict_block = 0, rd_commit_deadline = 3,
     rd_reveal_deadline = 4, rd_aggregation_deadline = 5, rd_scheme = scheme_review_v2, rd_chain_id = ''zerone'',
     rd_rewards = None, rd_policy = policy_neutral, rd_refund = None\<rparr>"

definition demo_committed :: verification_round where
  "demo_committed = add_commit demo_commit demo_round"

definition demo_revealing :: verification_round where
  "demo_revealing = demo_committed\<lparr>rd_phase := PHASE_REVEAL\<rparr>"

definition demo_revealed :: verification_round where
  "demo_revealed = demo_revealing\<lparr>rd_reveals := [(revealed_entry 3 demo_msg)\<lparr>rv_confidence := 800000\<rparr>]\<rparr>"

definition demo_genesis :: "ledger kr_state" where
  "demo_genesis = \<lparr>kr_rounds = [], kr_claim_rounds = [], kr_active = [], kr_claims = [], kr_content_index = [],
     kr_canonical_index = [], kr_pending = [], kr_cursor = None, kr_record_integrity = True, kr_neutrality = True,
     kr_fund_settlement = True, kr_claim_integrity = True, kr_params = demo_review_params, kr_methods = (\<lambda>_. False),
     kr_fact_submitter = (\<lambda>_. None), kr_independence = (\<lambda>_. None), kr_override = (\<lambda>_. None), kr_roles = (\<lambda>_. None),
     kr_stake = (\<lambda>_. None), kr_account_type = (\<lambda>_. None), kr_qualified = (\<lambda>_ _. None), kr_qualified_of = (\<lambda>_. []),
     kr_stratum = (\<lambda>_. None), kr_ceiling = (\<lambda>_. None),
     kr_bank = \<lparr>lg_balances = [((''module/knowledge'', ''uzrn''), 1000), ((''zrn1rev'', ''uzrn''), 100000000)],
       lg_supply = [(''uzrn'', 100001000)], lg_disabled = []\<rparr>\<rparr>"

text \<open>The states between the steps; the payment queue has nothing to do until the verdict.\<close>

definition demo_claimed :: "ledger kr_state" where
  "demo_claimed = demo_genesis\<lparr>kr_claims := [(''c1'', demo_claim)]\<rparr>"

definition demo_1 where "demo_1 = with_round demo_round demo_claimed"
definition demo_2 where "demo_2 = with_round demo_committed demo_1"
definition demo_3 where "demo_3 = with_round demo_revealing demo_2"
definition demo_4 where "demo_4 = with_round demo_revealed demo_3"

lemmas demo_states = demo_1_def demo_2_def demo_3_def demo_4_def demo_claimed_def

lemma demo_claim_policy: "claim_policy demo_genesis demo_claim = Inr policy_neutral"
  by code_simp

lemma demo_claim_terms: "validate_claim_funding demo_env demo_genesis demo_claim"
  by code_simp

lemma demo_claim_set: "set_claim demo_env demo_claim demo_genesis = Done demo_claimed ()"
  using demo_claim_policy demo_claim_terms
  by (simp add: set_claim_def Let_def claim_update_ok_def get_claim_def demo_genesis_def demo_claim_def demo_claimed_def
      index_claim_def kv_set_def kv_del_def require_def)

lemma demo_rounds_valid:
  "valid_round demo_env demo_round True" "valid_round demo_env demo_committed True"
  "valid_round demo_env demo_revealing True" "valid_round demo_env demo_revealed True"
  by code_simp+

lemma demo_terms: "valid_funding_terms demo_env demo_claim True"
  by code_simp

text \<open>A write of the open demo round: only its phase, its commitments and its reveals may differ.\<close>

lemma demo_sets:
  assumes "kr_record_integrity s" "kr_neutrality s" "kr_fund_settlement s" "get_claim s ''c1'' = Some demo_claim"
    "valid_round demo_env r True" "rd_phase r \<noteq> PHASE_COMPLETE" "rd_phase r \<noteq> PHASE_EXPIRED"
    and r: "rd_id r = ''r1''" "rd_claim_id r = ''c1''" "rd_policy r = policy_neutral" "rd_scheme r = scheme_review_v2"
      "rd_rewards r = None" "rd_refund r = None"
    and prior: "get_round s ''r1'' = None \<and> kv_get (kr_claim_rounds s) ''c1'' = None \<or>
     (\<exists>p. get_round s ''r1'' = Some p \<and> valid_round demo_env p True \<and> same_identity p r \<and> same_timing p r \<and>
       reviews_extended p r \<and> rd_rewards p = None \<and> rd_refund p = None)"
  shows "set_verification_round demo_env r s = Done (with_round r s) ()"
proof -
  have c: "kc_id demo_claim = ''c1''" "kc_policy demo_claim = policy_neutral" "kc_round_id demo_claim = ''r1''"
    by (simp_all add: demo_claim_def)
  have "round_claim demo_env s r = Inr (Some demo_claim)"
    using assms(3,4) demo_terms by (simp add: round_claim_def r c validate_claim_funding_def)
  moreover have "valid_funding_round demo_env (Some demo_claim) r"
    using assms(5-7) demo_terms by (simp add: valid_funding_round_def r c valid_refund_plan_def split: option.split)
  then have "check_round demo_env s (Some demo_claim) r = Inr ()"
    using assms(5) prior by (auto simp: check_round_def Let_def outcome_simps r require_def round_update_ok_def
        reward_plan_update_ok_def refund_plan_update_ok_def)
  ultimately show ?thesis
    using assms(1,2) set_round_iff [of s demo_env r "with_round r s" "()"] by (auto simp: valid_review_policy_def r(3))
qed

lemmas demo_round_defs = demo_round_def demo_committed_def demo_revealing_def demo_revealed_def add_commit_def

lemma demo_round_ids: "rd_id demo_round = ''r1''" "rd_id demo_committed = ''r1''" "rd_id demo_revealing = ''r1''" "rd_id demo_revealed = ''r1''"
  by (simp_all add: demo_round_defs)

lemma demo_fields:
  "kr_record_integrity demo_claimed" "kr_neutrality demo_claimed" "kr_fund_settlement demo_claimed"
  "get_claim demo_claimed k = (if k = ''c1'' then Some demo_claim else None)" "get_round demo_claimed k = None"
  "kr_claim_rounds demo_claimed = []" "kr_params demo_claimed = demo_review_params"
  by (simp_all add: demo_claimed_def demo_genesis_def get_claim_def get_round_def)

lemma demo_opens: "set_verification_round demo_env demo_round demo_claimed = Done demo_1 ()"
  unfolding demo_1_def by (rule demo_sets) (simp_all add: demo_fields demo_rounds_valid, simp_all add: demo_round_def)

lemma demo_evolves:
  "same_identity demo_round demo_committed \<and> same_timing demo_round demo_committed \<and> reviews_extended demo_round demo_committed"
  "same_identity demo_committed demo_revealing \<and> same_timing demo_committed demo_revealing \<and> reviews_extended demo_committed demo_revealing"
  "same_identity demo_revealing demo_revealed \<and> same_timing demo_revealing demo_revealed \<and> reviews_extended demo_revealing demo_revealed"
  by (simp_all add: same_identity_def same_timing_def reviews_extended_def demo_round_defs extends_iff)

lemma demo_unpaid:
  "rd_rewards demo_round = None" "rd_refund demo_round = None" "rd_rewards demo_committed = None" "rd_refund demo_committed = None"
  "rd_rewards demo_revealing = None" "rd_refund demo_revealing = None"
  by (simp_all add: demo_round_defs)

lemma demo_commits: "set_verification_round demo_env demo_committed demo_1 = Done demo_2 ()"
  unfolding demo_2_def
  by (rule demo_sets)
    (simp_all add: demo_1_def demo_fields demo_rounds_valid demo_round_ids demo_evolves demo_unpaid, simp_all add: demo_round_defs)

lemma demo_moves: "set_verification_round demo_env demo_revealing demo_2 = Done demo_3 ()"
  unfolding demo_3_def
  by (rule demo_sets)
    (simp_all add: demo_2_def demo_1_def demo_fields demo_rounds_valid demo_round_ids demo_evolves demo_unpaid,
      simp_all add: demo_round_defs)

lemma demo_reveals: "set_verification_round demo_env demo_revealed demo_3 = Done demo_4 ()"
  unfolding demo_4_def
  by (rule demo_sets)
    (simp_all add: demo_3_def demo_2_def demo_1_def demo_fields demo_rounds_valid demo_round_ids demo_evolves demo_unpaid,
      simp_all add: demo_round_defs)

section \<open>Reachability\<close>

lemma demo_review_reachable: "kr_reachable demo_env 2 demo_claimed" "kr_reachable demo_env 2 demo_1" "kr_reachable demo_env 2 demo_2"
  "kr_reachable demo_env 2 demo_3" "kr_reachable demo_env 2 demo_4"
proof -
  have "kr_reachable demo_env 2 demo_genesis"
    by (rule chain_reachable.start) (simp_all add: kr_init_def demo_genesis_def)
  then show 0: "kr_reachable demo_env 2 demo_claimed"
    by (rule chain_reachable.others) (use demo_claim_set in \<open>auto simp: kr_others_def\<close>)
  then show 1: "kr_reachable demo_env 2 demo_1"
    by (rule chain_reachable.others) (use demo_opens in \<open>auto simp: kr_others_def\<close>)
  then show 2: "kr_reachable demo_env 2 demo_2"
    by (rule chain_reachable.others) (use demo_commits in \<open>auto simp: kr_others_def\<close>)
  then show 3: "kr_reachable demo_env 2 demo_3"
    by (rule chain_reachable.others) (use demo_moves in \<open>auto simp: kr_others_def\<close>)
  then show "kr_reachable demo_env 2 demo_4"
    by (rule chain_reachable.others) (use demo_reveals in \<open>auto simp: kr_others_def\<close>)
qed

lemma demo_get: "get_round demo_4 ''r1'' = Some demo_revealed" "get_round demo_3 ''r1'' = Some demo_revealing"
  "get_round demo_2 ''r1'' = Some demo_committed" "get_round demo_1 ''r1'' = Some demo_round"
  by (simp_all add: demo_4_def demo_3_def demo_2_def demo_1_def demo_round_ids)

lemma demo_later: "kr_later demo_env 2 demo_1 2 demo_4"
proof -
  have "kr_later demo_env 2 demo_1 2 demo_1" by (rule chain_reachable.start) (simp_all add: demo_review_reachable)
  then have "kr_later demo_env 2 demo_1 2 demo_2"
    by (rule chain_reachable.others) (use demo_commits in \<open>auto simp: kr_others_def\<close>)
  then have "kr_later demo_env 2 demo_1 2 demo_3"
    by (rule chain_reachable.others) (use demo_moves in \<open>auto simp: kr_others_def\<close>)
  then show ?thesis
    by (rule chain_reachable.others) (use demo_reveals in \<open>auto simp: kr_others_def\<close>)
qed

lemma demo_later_commit: "kr_later demo_env 2 demo_2 2 demo_4"
proof -
  have "kr_later demo_env 2 demo_2 2 demo_2" by (rule chain_reachable.start) (simp_all add: demo_review_reachable)
  then have "kr_later demo_env 2 demo_2 2 demo_3"
    by (rule chain_reachable.others) (use demo_moves in \<open>auto simp: kr_others_def\<close>)
  then show ?thesis
    by (rule chain_reachable.others) (use demo_reveals in \<open>auto simp: kr_others_def\<close>)
qed

section \<open>Verdict and payment\<close>

lemma record_verdict_sets:
  "record_verdict env h c res r s = Done s' r' \<Longrightarrow> set_verification_round env r' s = Done s' ()"
  by (auto simp: record_verdict_def Let_def outcome_simps)

definition demo_terms_of :: funding_terms where
  "demo_terms_of = the (kc_funding demo_claim)"

definition demo_closed :: verification_round where
  "demo_closed = closed_with (to_u64 4) VERDICT_ACCEPT (reward_plan_for (to_u64 4) (u64_of_amount (ft_review_budget demo_terms_of)) demo_revealed)
     (refund_plan_for (to_u64 4) demo_claim demo_terms_of demo_revealed) demo_revealed"

definition demo_outcome :: review_outcome where
  "demo_outcome = no_outcome\<lparr>ro_verdict := VERDICT_ACCEPT, ro_rewards := map (\<lambda>v. (rv_verifier v, 0)) (rd_reveals demo_revealed)\<rparr>"

definition demo_5 where "demo_5 = with_round demo_closed demo_4"

lemma demo_4_fields:
  "kr_neutrality demo_4" "kr_fund_settlement demo_4" "get_claim demo_4 ''c1'' = Some demo_claim" "kr_params demo_4 = demo_review_params"
  by (simp_all add: demo_4_def demo_3_def demo_2_def demo_1_def demo_fields)

lemma demo_funded: "kc_funding demo_claim = Some demo_terms_of" "kc_round_id demo_claim = ''r1''"
  by (simp_all add: demo_terms_of_def demo_claim_def)

lemma demo_revealed_fields: "rd_policy demo_revealed = policy_neutral" "rd_claim_id demo_revealed = ''c1''" "rd_phase demo_revealed = PHASE_REVEAL"
  by (simp_all add: demo_round_defs)

lemma demo_verdict: "record_verdict demo_env 4 demo_claim demo_outcome demo_revealed demo_4 = Done demo_5 demo_closed"
  unfolding demo_5_def demo_closed_def
  using record_verdict_runs [OF kr.reachable_inv [OF demo_review_reachable(5)] demo_get(1), of demo_claim demo_terms_of 4 demo_outcome]
  by (simp add: demo_4_fields demo_funded demo_revealed_fields demo_outcome_def closed_phase_def funded_terminal_def)

lemma demo_reachable_5: "kr_reachable demo_env 2 demo_5"
  by (rule chain_reachable.others [OF demo_review_reachable(5)]) (use record_verdict_sets [OF demo_verdict] in \<open>auto simp: kr_others_def\<close>)

lemma demo_get_5: "get_round demo_5 ''r1'' = Some demo_closed"
  by (simp add: demo_5_def demo_closed_def demo_round_ids)

lemma demo_settles: "succeeded (try_settle demo_env 5 ''r1'' demo_5)"
  by code_simp

lemma demo_pending: "has_pending_funds demo_closed"
  by code_simp

end
