(* ===== verification/KR_Claims.thy ===== *)
theory KR_Claims
  imports KR_Demo
begin

text \<open>
  x/knowledge, the review protocol: the properties.
\<close>

section \<open>Lemmas\<close>

lemma review_round_ok:
  "valid_round env r True \<Longrightarrow> rd_scheme r = scheme_review_v2 \<Longrightarrow> review_v2_ok env r"
  by (auto simp: valid_round_def scheme_review_v2_def scheme_legacy_def split: if_splits)

lemma reward_plan_frozen:
  assumes "reward_plan_update_ok (Some p) r" "rd_rewards p = Some old"
  shows "\<exists>new. rd_rewards r = Some new \<and> wp_payments new = wp_payments old \<and> wp_withheld_total new = wp_withheld_total old \<and>
    (wp_paid_at old \<noteq> 0 \<longrightarrow> new = old)"
proof -
  from assms obtain new where "rd_rewards r = Some new" "wp_paid_at old \<noteq> 0 \<Longrightarrow> wp_paid_at new = wp_paid_at old"
    "old\<lparr>wp_paid_at := 0\<rparr> = new\<lparr>wp_paid_at := 0\<rparr>" by (auto simp: reward_plan_update_ok_def split: option.splits)
  then show ?thesis by (cases old; cases new) auto
qed

lemma refund_plan_frozen:
  assumes "refund_plan_update_ok (Some p) r" "rd_refund p = Some old"
  shows "\<exists>new. rd_refund r = Some new \<and> rf_recipient new = rf_recipient old \<and> rf_amount new = rf_amount old \<and>
    (rf_paid_at old \<noteq> 0 \<longrightarrow> new = old)"
proof -
  from assms obtain new where "rd_refund r = Some new" "rf_paid_at old \<noteq> 0 \<Longrightarrow> rf_paid_at new = rf_paid_at old"
    "old\<lparr>rf_paid_at := 0\<rparr> = new\<lparr>rf_paid_at := 0\<rparr>" by (auto simp: refund_plan_update_ok_def split: option.splits)
  then show ?thesis by (cases old; cases new) auto
qed

section \<open>Records\<close>

text \<open>
  C3: whatever the module and its users do, every stored scheme-2 round holds at most 512 commitments, all of
  different reviewers, and only reviews that open their reviewer's commitment; the payment queue holds
  exactly the rounds with an unpaid plan, and the active index exactly the rounds that are not closed.
\<close>

theorem kr_rounds_sound:
  assumes "kr_reachable env h s" "get_round s k = Some r" "rd_scheme r = scheme_review_v2"
  shows "rd_id r = k \<and> length (rd_commits r) \<le> 512 \<and> distinct (map cm_verifier (rd_commits r)) \<and>
    distinct (map rv_verifier (rd_reveals r)) \<and>
    (\<forall>v \<in> set (rd_reveals r). \<exists>c \<in> set (rd_commits r). cm_verifier c = rv_verifier v \<and>
      review_commitment env (rd_chain_id r) k (rv_verifier v) (rv_vote v) (rv_confidence v) (rv_salt v) (rv_attestation v) = Some (cm_hash c)) \<and>
    (kv_get (kr_pending s) k \<noteq> None \<longleftrightarrow> has_pending_funds r) \<and>
    (kv_get (kr_active s) k \<noteq> None \<longleftrightarrow> rd_phase r \<notin> {PHASE_COMPLETE, PHASE_EXPIRED})"
proof -
  have inv: "kr_inv env s" using assms(1) by (rule kr.reachable_inv)
  have r: "rd_id r = k" "valid_round env r True" using kr_invD(7) [OF inv assms(2)] by (simp_all add: round_ok_def)
  have ok: "review_v2_ok env r" using r(2) assms(3) by (rule review_round_ok)
  have "\<exists>c \<in> set (rd_commits r). cm_verifier c = rv_verifier v \<and>
      review_commitment env (rd_chain_id r) k (rv_verifier v) (rv_vote v) (rv_confidence v) (rv_salt v) (rv_attestation v) = Some (cm_hash c)"
    if "v \<in> set (rd_reveals r)" for v
  proof -
    from ok that have "reveal_opens env r v" by (simp add: review_v2_ok_def list_all_iff)
    then show ?thesis by (auto simp: reveal_opens_def r(1) find_commit_def split: option.splits dest: find_member)
  qed
  with ok r(1) kr_invD(9,10) [OF inv, of k] assms(2) show ?thesis
    by (simp add: review_v2_ok_def commit_seat_hard_cap_def closed_phase_def)
qed

theorem kr_rounds_sound_witness:
  "\<exists>s r. kr_reachable demo_env 2 s \<and> get_round s ''r1'' = Some r \<and> rd_reveals r \<noteq> [] \<and> rd_id r = ''r1'' \<and> length (rd_commits r) \<le> 512"
  using kr_rounds_sound [OF demo_review_reachable(5) demo_get(1)] demo_review_reachable(5) demo_get(1)
  by (force simp: demo_round_defs)

text \<open>
  C6: from a reachable state on, a recorded round keeps its claim, scheme and policy, and a scheme-2 round its
  commitments, reviews and reviewers, in order; a frozen plan keeps every payment, and a paid one its height.
\<close>

theorem kr_history_append_only:
  assumes "kr_later env h0 s0 h s" "get_round s0 k = Some p"
  shows "\<exists>r. get_round s k = Some r \<and> rd_claim_id r = rd_claim_id p \<and> rd_scheme r = rd_scheme p \<and> rd_policy r = rd_policy p \<and>
    (rd_scheme p = scheme_review_v2 \<longrightarrow> (\<exists>cs vs ns. rd_commits r = rd_commits p @ cs \<and> rd_reveals r = rd_reveals p @ vs \<and>
      rd_selected r = rd_selected p @ ns)) \<and>
    (\<forall>old. rd_rewards p = Some old \<longrightarrow> (\<exists>new. rd_rewards r = Some new \<and> wp_payments new = wp_payments old \<and>
      wp_withheld_total new = wp_withheld_total old \<and> (wp_paid_at old \<noteq> 0 \<longrightarrow> new = old))) \<and>
    (\<forall>old. rd_refund p = Some old \<longrightarrow> (\<exists>new. rd_refund r = Some new \<and> rf_recipient new = rf_recipient old \<and>
      rf_amount new = rf_amount old \<and> (rf_paid_at old \<noteq> 0 \<longrightarrow> new = old)))"
proof -
  from later_evolves [OF assms(1)] assms(2) obtain r where r: "get_round s k = Some r" and e: "round_evolves p r"
    by (auto simp: kr_evolves_def)
  from e have "rd_scheme p = scheme_review_v2 \<longrightarrow> (\<exists>cs vs ns. rd_commits r = rd_commits p @ cs \<and> rd_reveals r = rd_reveals p @ vs \<and>
      rd_selected r = rd_selected p @ ns)"
    by (simp add: round_evolves_def reviews_extended_def extends_iff)
  moreover from e have "rd_claim_id r = rd_claim_id p \<and> rd_scheme r = rd_scheme p \<and> rd_policy r = rd_policy p"
    by (simp add: round_evolves_def same_identity_def)
  ultimately show ?thesis
    using r e reward_plan_frozen [of p r] refund_plan_frozen [of p r] by (auto simp: round_evolves_def)
qed

theorem kr_history_append_only_witness:
  "\<exists>s r. kr_later demo_env 2 demo_1 2 s \<and> get_round s ''r1'' = Some r \<and> (\<exists>cs. rd_commits r = rd_commits demo_round @ cs)"
  using kr_history_append_only [OF demo_later demo_get(4)] demo_later
  by (force simp: demo_round_defs)

text \<open>
  C40: a commitment binds.  Two reviews that pass the scheme-2 check against the same hash, of whatever rounds,
  are the same review of the same round by the same account, or else exhibit a collision of the digest.
\<close>

theorem kr_commitment_binds:
  assumes "short_addresses env"
    "review_commitment env chain k v vote conf salt att = Some hash"
    "review_commitment env chain' k' v' vote' conf' salt' att' = Some hash"
  shows "(chain, k, v, vote, conf, salt, att) = (chain', k', v', vote', conf', salt', att') \<or>
    (\<exists>x y. x \<noteq> y \<and> re_digest env x = hash \<and> re_digest env y = hash)"
proof -
  from assms(2) obtain a b where 1: "att = Some b" "acc_address (re_sdk env) v = Some a" "re_bech32 env a = v" "known_vote vote"
    "length salt \<le> 64" "valid_attestation (Some b)" "record_text chain 256 True" "record_text k 256 True"
    "hash = re_digest env (review_preimage chain k a vote conf salt b)" by (rule review_commitment_Some)
  from assms(3) obtain a' b' where 2: "att' = Some b'" "acc_address (re_sdk env) v' = Some a'" "re_bech32 env a' = v'" "known_vote vote'"
    "length salt' \<le> 64" "valid_attestation (Some b')" "record_text chain' 256 True" "record_text k' 256 True"
    "hash = re_digest env (review_preimage chain' k' a' vote' conf' salt' b')" by (rule review_commitment_Some)
  show ?thesis
  proof (cases "review_preimage chain k a vote conf salt b = review_preimage chain' k' a' vote' conf' salt' b'")
    case True
    from review_preimage_inj [OF True review_short [OF assms(1) 1(2,4-8)] review_short [OF assms(1) 2(2,4-8)]] 1(1,3) 2(1,3)
    show ?thesis by simp
  next
    case False
    with 1(9) 2(9) show ?thesis by metis
  qed
qed

theorem kr_commitment_binds_witness:
  "\<exists>hash. review_commitment demo_env ''zerone'' ''r1'' ''zrn1rev'' vote_accept 800000 demo_salt (Some demo_review) = Some hash \<and>
     review_commitment demo_env ''zerone'' ''r1'' ''zrn1rev'' vote_reject 800000 demo_salt (Some demo_review) = Some hash \<and>
     (\<exists>x y. x \<noteq> y \<and> re_digest demo_env x = hash \<and> re_digest demo_env y = hash)"
proof -
  have "review_commitment demo_env ''zerone'' ''r1'' ''zrn1rev'' vote_accept 800000 demo_salt (Some demo_review) \<noteq> None" by code_simp
  then obtain hash where 1: "review_commitment demo_env ''zerone'' ''r1'' ''zrn1rev'' vote_accept 800000 demo_salt (Some demo_review) = Some hash"
    by blast
  moreover have "review_commitment demo_env ''zerone'' ''r1'' ''zrn1rev'' vote_reject 800000 demo_salt (Some demo_review) =
      review_commitment demo_env ''zerone'' ''r1'' ''zrn1rev'' vote_accept 800000 demo_salt (Some demo_review)" by code_simp
  ultimately have 2: "review_commitment demo_env ''zerone'' ''r1'' ''zrn1rev'' vote_reject 800000 demo_salt (Some demo_review) = Some hash"
    by simp
  have "short_addresses demo_env" by (auto simp: short_addresses_def demo_env_def ledger_account_def split: if_splits)
  from kr_commitment_binds [OF this 1 2] 1 2 show ?thesis
    by (simp add: vote_accept_def vote_reject_def)
qed

end
