(* ===== verification/KR_Pay_Claims.thy ===== *)
theory KR_Pay_Claims
  imports KR_Demo
begin

text \<open>
  x/knowledge, the review protocol: the properties of admission, of the verdict and of the payments.
\<close>

section \<open>Lemmas\<close>

lemma set_round_Fail: "set_verification_round env r s = Fail s' e \<Longrightarrow> s' = s"
  by (auto simp: set_verification_round_def try_in_def write_round_def split: sum.splits if_splits dest: cached_Fail)

lemma store_commitment_Fail: "store_commitment env k c s = Fail s' e \<Longrightarrow> s' = s"
  by (auto simp: store_commitment_def try_in_def split: option.splits if_splits sum.splits dest: set_round_Fail)

lemma submit_commitment_Fail: "submit_commitment env h k v hash s = Fail s' e \<Longrightarrow> s' = s"
  by (auto simp: submit_commitment_def try_in_def split: option.splits if_splits sum.splits dest: store_commitment_Fail)

lemma commit_recorded:
  assumes "kr_inv env s" "submit_commitment env h k v hash s = Done s' u"
  obtains r where "get_round s k = Some r"
    "get_round s' k = Some (add_commit \<lparr>cm_verifier = v, cm_hash = hash, cm_at_block = to_u64 h\<rparr> r)"
    "find_commit (rd_commits r) v = None" "kr_inv env s'"
  using assms(2)
proof (rule submit_commitment_effect)
  assume store: "store_commitment env k \<lparr>cm_verifier = v, cm_hash = hash, cm_at_block = to_u64 h\<rparr> s = Done s' ()"
  show thesis
  proof (rule store_commitment_effect [OF store])
    fix r
    assume r: "get_round s k = Some r" "find_commit (rd_commits r) (cm_verifier \<lparr>cm_verifier = v, cm_hash = hash, cm_at_block = to_u64 h\<rparr>) = None"
      and set: "set_verification_round env (add_commit \<lparr>cm_verifier = v, cm_hash = hash, cm_at_block = to_u64 h\<rparr> r) s = Done s' ()"
    have "s' = with_round (add_commit \<lparr>cm_verifier = v, cm_hash = hash, cm_at_block = to_u64 h\<rparr> r) s"
      using set_round_effect [OF set kr_invD(1) [OF assms(1)]] by blast
    moreover have "rd_id (add_commit c r) = k" for c
      using kr_invD(7) [OF assms(1) r(1)] by (simp add: round_ok_def add_commit_def)
    ultimately show thesis using that [OF r(1)] r set_round_kept [OF assms(1) set] by simp
  qed
qed

lemma conflicted_iff:
  "list_ex P (conflicted_parties s c) \<longleftrightarrow> P (kc_submitter c) \<or>
    (\<exists>f. disputed_fact c \<noteq> [] \<and> kr_fact_submitter s (disputed_fact c) = Some f \<and> P f)"
  by (auto simp: conflicted_parties_def Let_def split: option.splits)

section \<open>Admission\<close>

text \<open>
  C7: a reviewer of a scheme-2 round commits once: an accepted commitment is appended to the round, and in
  every later state of the chain a further commitment of that reviewer to that round is refused and
  changes nothing.
\<close>

theorem kr_one_commitment:
  assumes "kr_reachable env h s" "submit_commitment env h k v hash s = Done s' u"
    "get_round s k = Some r" "rd_scheme r = scheme_review_v2" "kr_later env h s' h2 t"
  shows "(\<exists>r'. get_round s' k = Some r' \<and> rd_commits r' = rd_commits r @ [\<lparr>cm_verifier = v, cm_hash = hash, cm_at_block = to_u64 h\<rparr>]) \<and>
    (\<forall>h3 hash'. \<exists>e. submit_commitment env h3 k v hash' t = Fail t e)"
proof -
  from commit_recorded [OF kr.reachable_inv [OF assms(1)] assms(2)] assms(3) have
    s': "get_round s' k = Some (add_commit \<lparr>cm_verifier = v, cm_hash = hash, cm_at_block = to_u64 h\<rparr> r)" by force
  from later_evolves [OF assms(5)] s' obtain q where q: "get_round t k = Some q" and inv: "kr_inv env t"
    and e: "round_evolves (add_commit \<lparr>cm_verifier = v, cm_hash = hash, cm_at_block = to_u64 h\<rparr> r) q"
    by (auto simp: kr_evolves_def)
  from e assms(4) obtain cs where "rd_commits q = (rd_commits r @ [\<lparr>cm_verifier = v, cm_hash = hash, cm_at_block = to_u64 h\<rparr>]) @ cs"
    by (auto simp: round_evolves_def reviews_extended_def extends_iff add_commit_def)
  then have taken: "find_commit (rd_commits q) v \<noteq> None" by (auto simp: find_commit_def find_None_iff)
  have "\<exists>e. submit_commitment env h3 k v hash' t = Fail t e" for h3 hash'
  proof (cases "submit_commitment env h3 k v hash' t")
    case (Done t' u')
    from commit_recorded [OF inv Done] q taken show ?thesis by auto
  next
    case (Fail t' e)
    with submit_commitment_Fail [OF Fail] show ?thesis by blast
  qed
  with s' show ?thesis by (simp add: add_commit_def)
qed

lemma demo_commit_checks:
  "policy_for_round demo_env demo_1 demo_round = Inr policy_neutral"
  "commit_scheme_ok demo_env demo_1 demo_round demo_commit"
  "refuse_conflicted demo_env demo_1 demo_round ''zrn1rev'' = Inr ()"
  "reviewer_funded demo_env demo_1 ''zrn1rev'' = Inr ()"
  by code_simp+

lemma demo_commit_runs: "submit_commitment demo_env 2 ''r1'' ''zrn1rev'' demo_hash demo_1 = Done demo_2 ()"
proof -
  have c: "\<lparr>cm_verifier = ''zrn1rev'', cm_hash = demo_hash, cm_at_block = 2\<rparr> = demo_commit"
    by (simp add: demo_commit_def)
  have "rd_phase demo_round = PHASE_COMMIT" "rd_commits demo_round = []" "rd_commit_deadline demo_round = 3" by (simp_all add: demo_round_def)
  moreover have "store_commitment demo_env ''r1'' demo_commit demo_1 = Done demo_2 ()"
    using demo_commit_checks(2,3) demo_commits calculation
    by (simp add: store_commitment_def demo_get(4) find_commit_def demo_committed_def) (simp add: demo_commit_def)
  ultimately show ?thesis
    using demo_commit_checks(1,4)
    by (simp add: submit_commitment_def demo_get(4) c to_u64_def commit_seat_hard_cap_def policy_neutral_def policy_legacy_def)
qed

theorem kr_one_commitment_witness:
  "\<exists>e. submit_commitment demo_env 2 ''r1'' ''zrn1rev'' demo_hash demo_1 = Done demo_2 () \<and>
    submit_commitment demo_env 4 ''r1'' ''zrn1rev'' ''other'' demo_4 = Fail demo_4 e"
  using kr_one_commitment [OF demo_review_reachable(2) demo_commit_runs demo_get(4) _ demo_later_commit] demo_commit_runs
  by (auto simp: demo_round_def)

text \<open>
  Who may commit.  An accepted commitment comes from an account with at least 100 ZRN, in the commit phase
  and not after its deadline, to a round with a free seat; and with claim integrity on, from nobody who is
  the submitter of the claim or the defender of the fact it disputes, under any spelling of the account.
\<close>

theorem kr_commit_admission:
  assumes "submit_commitment env h k v hash s = Done s' u" "get_round s k = Some r"
  shows "rd_phase r = PHASE_COMMIT \<and> to_u64 h \<le> rd_commit_deadline r \<and> length (rd_commits r) < 512 \<and>
    (\<exists>a. acc_address (re_sdk env) v = Some a \<and> 100000000 \<le> bank_balance (re_sdk env) (kr_bank s) a uzrn) \<and>
    (kr_claim_integrity s \<longrightarrow> (\<forall>c. get_claim s (rd_claim_id r) = Some c \<longrightarrow>
      \<not> same_actor env v (kc_submitter c) \<and>
      (\<forall>f. kr_fact_submitter s (disputed_fact c) = Some f \<and> disputed_fact c \<noteq> [] \<longrightarrow> \<not> same_actor env v f)))"
  using assms(1)
proof (rule submit_commitment_effect)
  fix q policy
  assume q: "get_round s k = Some q" "rd_phase q = PHASE_COMMIT" "to_u64 h \<le> rd_commit_deadline q"
    "length (rd_commits q) < commit_seat_hard_cap" "reviewer_funded env s v = Inr ()"
    and store: "store_commitment env k \<lparr>cm_verifier = v, cm_hash = hash, cm_at_block = to_u64 h\<rparr> s = Done s' ()"
  have "refuse_conflicted env s r v = Inr ()" if "kr_claim_integrity s"
    using store by (rule store_commitment_effect) (use that assms(2) in auto)
  then have "kr_claim_integrity s \<longrightarrow> (\<forall>c. get_claim s (rd_claim_id r) = Some c \<longrightarrow> \<not> list_ex (same_actor env v) (conflicted_parties s c))"
    by (auto simp: refuse_conflicted_def get_claim_checked_def bind_sum_Inr split: if_splits)
  moreover have "\<exists>a. acc_address (re_sdk env) v = Some a \<and> 100000000 \<le> bank_balance (re_sdk env) (kr_bank s) a uzrn"
    using q(5) by (auto simp: reviewer_funded_def min_reviewer_balance_def split: option.splits)
  ultimately show ?thesis
    using q assms(2) unfolding conflicted_iff by (auto simp: commit_seat_hard_cap_def)
qed

theorem kr_commit_admission_witness:
  "submit_commitment demo_env 2 ''r1'' ''zrn1rev'' demo_hash demo_1 = Done demo_2 () \<and> kr_claim_integrity demo_1 \<and>
    get_claim demo_1 ''c1'' = Some demo_claim \<and> \<not> same_actor demo_env ''zrn1rev'' (kc_submitter demo_claim) \<and> rd_phase demo_round = PHASE_COMMIT"
proof -
  have "kr_claim_integrity demo_1" "get_claim demo_1 ''c1'' = Some demo_claim"
    by (simp_all add: demo_1_def demo_fields) (simp add: demo_claimed_def demo_genesis_def)
  moreover have "rd_claim_id demo_round = ''c1''" by (simp add: demo_round_def)
  ultimately show ?thesis using kr_commit_admission [OF demo_commit_runs demo_get(4)] demo_commit_runs by simp
qed

section \<open>The verdict\<close>

text \<open>
  C8: under the neutral policy the verdict is the one of an equal count: the code's stake-weighted 64-bit
  arithmetic computes \<open>headcount_verdict\<close> of the numbers of reviews, whoever the reviewers are and in whatever
  order they revealed; every revealed review is owed a share and nobody is slashed.
\<close>

theorem kr_neutral_verdict:
  assumes "aggregate_round env h s r = Inr res" "rd_policy r = policy_neutral"
  shows "ro_verdict res = headcount_verdict (unat (kp_min_verifiers (kr_params s))) (unat (kp_min_headcount (kr_params s)))
      (unat (kp_confidence_threshold (kr_params s))) (length (rd_reveals r))
      (head_count vote_accept (rd_reveals r)) (head_count vote_reject (rd_reveals r)) (head_count vote_malformed (rd_reveals r)) \<and>
    map fst (ro_rewards res) = map rv_verifier (rd_reveals r) \<and> ro_slashes res = []"
proof -
  from assms(1) obtain policy where policy: "policy_for_round env s r = Inr policy"
    and res: "res = (if length (rd_reveals r) < unat (quorum_for_round s h policy r)
       then (initial_outcome policy r)\<lparr>ro_verdict := VERDICT_INCONCLUSIVE, ro_confidence := 0\<rparr> else decided_outcome s policy r)"
    by (auto simp: aggregate_round_def outcome_simps split: if_splits)
  note neutral = policy_for_neutral [OF policy assms(2)]
  have n: "length (rd_reveals r) \<le> 512" by (rule neutral_reveals_bound [OF neutral(2) assms(2)])
  show ?thesis
  proof (cases "length (rd_reveals r) < unat (kp_min_verifiers (kr_params s))")
    case True
    then show ?thesis
      by (simp add: res neutral(1) quorum_neutral initial_outcome_def no_outcome_def headcount_verdict_def comp_def)
  next
    case False
    then show ?thesis
      using neutral_panel_verdict [OF n, of "kr_params s"]
      by (simp add: res neutral(1) quorum_neutral decided_outcome_def neutral_weight initial_outcome_def no_outcome_def Let_def
          case_prod_beta comp_def)
  qed
qed

lemma demo_policy: "policy_for_round demo_env demo_4 demo_revealed = Inr policy_neutral"
  by code_simp

lemma demo_aggregate: "aggregate_round demo_env 4 demo_4 demo_revealed = Inr (decided_outcome demo_4 policy_neutral demo_revealed)"
proof -
  have "kp_min_verifiers (kr_params demo_4) = 1" "length (rd_reveals demo_revealed) = 1"
    by (simp_all add: demo_states demo_genesis_def demo_review_params_def demo_round_defs)
  then show ?thesis by (simp add: aggregate_round_def demo_policy quorum_neutral)
qed

theorem kr_neutral_verdict_witness:
  "\<exists>res. aggregate_round demo_env 4 demo_4 demo_revealed = Inr res \<and> ro_verdict res = VERDICT_ACCEPT \<and> map fst (ro_rewards res) = [''zrn1rev'']"
proof -
  have p: "kr_params demo_4 = demo_review_params" by (simp add: demo_states demo_genesis_def)
  have "rd_policy demo_revealed = policy_neutral" by (simp add: demo_round_defs)
  from kr_neutral_verdict [OF demo_aggregate this] demo_aggregate show ?thesis
    by (auto simp: p demo_review_params_def headcount_verdict_def Let_def head_count_def demo_round_defs revealed_entry_def demo_msg_def
        vote_accept_def vote_malformed_def)
qed

text \<open>
  The budget that the types package checks (55 parts of the hundreds, then of the rest) and the pool that
  the keeper computes over big integers are the same amount for every fee, 55 percent rounded down.
\<close>

theorem kr_budget_agrees:
  "claim_review_budget paid = verifier_pool_from_fee paid \<and> uint (verifier_pool_from_fee paid) = uint paid * 55 div 100"
  by (simp add: word_uint_eq_iff verifier_pool_exact claim_budget_exact)

text \<open>
  The phase of a round never goes back: it is monotone in the height, never behind the stored phase, and
  a closed round stays as it is.
\<close>

theorem kr_phase_monotone:
  assumes "height \<le> height'"
  shows "expected_phase r height p \<le> expected_phase r height' p \<and> rd_phase r \<le> expected_phase r height p \<and>
    (rd_phase r \<in> {PHASE_COMPLETE, PHASE_EXPIRED} \<longrightarrow> expected_phase r height p = rd_phase r)"
  using assms
  by (cases "rd_phase r") (auto simp: expected_phase_def closed_phase_def Let_def less_verification_phase_def less_eq_verification_phase_def)

theorem kr_phase_monotone_witness:
  "expected_phase demo_round 2 demo_review_params \<le> expected_phase demo_round 4 demo_review_params \<and> expected_phase demo_round 4 demo_review_params = PHASE_AGGREGATION"
  using kr_phase_monotone [of 2 4 demo_round demo_review_params] by (simp add: expected_phase_def demo_round_def closed_phase_def less_verification_phase_def)

text \<open>
  The stake asked of a challenger lies between a tenth of the base stake and the whole, and never grows
  with the confidence in the fact.
\<close>

theorem kr_challenge_stake_bounds:
  assumes "positive_int (kp_min_challenge_stake p) = Some base" "conf \<le> conf'"
  shows "effective_min_challenge_stake p conf' \<le> effective_min_challenge_stake p conf \<and>
    base div 10 \<le> effective_min_challenge_stake p conf' \<and> effective_min_challenge_stake p conf \<le> base"
proof -
  have base: "0 < base" using assms(1) by (simp add: positive_int_Some)
  have "base * uint (stake_multiplier p conf') div 1000000 \<le> base * uint (stake_multiplier p conf) div 1000000"
    using stake_multiplier_mono [OF assms(2)] base by (intro zdiv_mono1 mult_left_mono) auto
  moreover have "base * 100000 div 1000000 \<le> base * uint (stake_multiplier p conf') div 1000000"
    using stake_multiplier_bounds(2) [of p conf'] base by (intro zdiv_mono1 mult_left_mono) auto
  moreover have "base * 100000 div 1000000 = base div 10"
    using div_mult_mult2 [of "100000 :: int" base 10] by simp
  moreover have "base * uint (stake_multiplier p conf) div 1000000 \<le> base"
    using stake_multiplier_bounds(1) [of p conf] base by (intro div_le_self_mult mult_left_mono) auto
  ultimately show ?thesis by (simp add: challenge_stake_scaled [OF assms(1)])
qed

theorem kr_challenge_stake_bounds_witness:
  "effective_min_challenge_stake demo_review_params 900000 \<le> effective_min_challenge_stake demo_review_params 0 \<and>
    100 \<le> effective_min_challenge_stake demo_review_params 900000"
proof -
  have "positive_int (kp_min_challenge_stake demo_review_params) = Some 1000" by code_simp
  from kr_challenge_stake_bounds [OF this, of 0 900000] show ?thesis by simp
qed

end
