(* ===== verification/KR_Fund_Claims.thy ===== *)
theory KR_Fund_Claims
  imports KR_Demo
begin

text \<open>
  x/knowledge, the review protocol: the properties of completion, funding and settlement.
\<close>

section \<open>Lemmas\<close>

lemma valid_funding_at:
  assumes "kr_inv env s" "get_round s k = Some r" "rd_policy r = policy_neutral" "get_claim s (rd_claim_id r) = Some c"
  shows "valid_funding_round env (Some (c\<lparr>kc_round_id := []\<rparr>)) r"
  using kr_invD(7) [OF assms(1,2)] assms(3,4) by (simp add: round_ok_def)

lemma sole_round:
  assumes "kr_inv env s" "get_round s k = Some r" "get_round s j = Some q" "rd_claim_id q = rd_claim_id r"
  shows "j = k"
  using kr_invD(7) [OF assms(1,2)] kr_invD(7) [OF assms(1,3)] assms(4) by (simp add: round_ok_def)

lemma marked_fields [simp]:
  "rd_id (marked_paid n r) = rd_id r" "rd_claim_id (marked_paid n r) = rd_claim_id r"
  "rd_refund (marked_paid n r) = None \<longleftrightarrow> rd_refund r = None"
  by (simp_all add: marked_paid_def)

lemma settled_again:
  assumes inv: "kr_inv env s" and funding: "validate_round_funding env s r = Inr ()" and r: "rd_id r = k"
    and set: "set_verification_round env (marked_paid n r) (s\<lparr>kr_bank := b\<rparr>) = Done s' u" and n: "n \<noteq> 0"
  shows "try_settle env h k s' = Done s' ()"
proof -
  let ?t = "s\<lparr>kr_bank := b\<rparr>"
  have inv_t: "kr_inv env ?t" using inv by (rule kr_inv_bank)
  obtain co where co: "round_claim env ?t (marked_paid n r) = Inr co" "check_round env ?t co (marked_paid n r) = Inr ()"
    and s': "s' = with_round (marked_paid n r) ?t"
    using set_round_effect [OF set kr_invD(1) [OF inv_t]] by blast
  have inv': "kr_inv env s'" using set_round_kept [OF inv_t set] by simp
  have get: "get_round s' k = Some (marked_paid n r)" by (simp add: s' r)
  have claim: "get_claim s' x = get_claim s x" "kr_fund_settlement s' = kr_fund_settlement s" for x by (simp_all add: s' get_claim_def)
  have "validate_round_funding env s' (marked_paid n r) = Inr ()"
  proof (cases "kr_fund_settlement s")
    case False
    with funding show ?thesis by (simp add: validate_round_funding_def claim)
  next
    case True
    show ?thesis
    proof (cases "get_claim s (rd_claim_id r)")
      case None
      with True funding show ?thesis
        by (simp add: validate_round_funding_def claim get_claim_checked_def)
    next
      case (Some c)
      have "get_claim ?t (rd_claim_id r) = co" using round_claimD(1) [OF co(1)] by simp
      then have "co = Some c" using Some by (simp add: get_claim_def)
      with check_roundD(2) [OF co(2)] have "valid_funding_round env (Some c) (marked_paid n r)" by blast
      with True Some funding show ?thesis
        by (auto simp: validate_round_funding_def claim get_claim_checked_def split: if_splits)
    qed
  qed
  moreover have "plans_valid env (marked_paid n r) = Inr ()"
    using kr_invD(7) [OF inv' get] valid_round_plans [of env "marked_paid n r" True] by (simp add: plans_valid_def round_ok_def)
  ultimately show ?thesis
    using get r kr_invD(1) [OF inv'] marked_not_pending [OF n]
    by (simp add: try_settle_def get_round_checked_def require_def)
qed

lemma demo_amounts:
  "u64_of_amount (ft_review_budget demo_terms_of) = 550" "u64_of_amount (ft_refundable demo_terms_of) = 450"
  "u64_of_amount (ft_paid demo_terms_of) = 1000" "u64_of_amount (ft_retained demo_terms_of) = 0"
  by code_simp+

section \<open>Completion\<close>

text \<open>
  C5: \<open>CompleteRound\<close> of a funded round under the neutral policy, whatever result the caller passes.  While
  the panel is open it refuses and changes nothing.  On a completed round it never changes the verdict: a
  different one is refused, the same one only retries the payment.  Once the panel is closed, the verdict is
  the one that the recorded reviews aggregate to; unless one of the verdict's other effects (on facts and
  other modules, which write no round and no claim) fails, in which case nothing changes, the round ends up
  complete with that verdict, the claim with the matching status, and the frozen plans promise exactly the
  review budget and the refundable part of what the payer put up.
\<close>

theorem kr_completion_accounts:
  assumes "kr_reachable env h0 s" "get_round s k = Some r" "rd_policy r = policy_neutral"
    "get_claim s (rd_claim_id r) = Some c" "kc_funding c = Some t" "kc_round_id c \<in> {[], k}"
    "kr_neutrality s" "kr_fund_settlement s" "0 < h" "h < 2 ^ 63" "keeps_records before" "keeps_records after"
  shows "(rd_phase r = PHASE_COMPLETE \<longrightarrow> complete_round env h before after k given s =
      (if rd_verdict r = ro_verdict given then Done (final_state (try_settle env h k s)) ()
       else Fail s (ReviewErr ''cannot change a finalized review verdict''))) \<and>
    (rd_phase r \<noteq> PHASE_COMPLETE \<and> \<not> panel_closed (kr_params s) (to_u64 h) r \<longrightarrow>
      complete_round env h before after k given s = Fail s (ReviewErr ''review panel is not closed for aggregation'')) \<and>
    (rd_phase r \<noteq> PHASE_COMPLETE \<and> panel_closed (kr_params s) (to_u64 h) r \<longrightarrow>
      (\<exists>res. aggregate_round env h s r = Inr res \<and> ro_verdict res \<noteq> VERDICT_UNSPECIFIED \<and>
        (case complete_round env h before after k given s of
           Fail s' e \<Rightarrow> s' = s \<and> (\<exists>u v e. before u = Fail v e \<or> after u = Fail v e)
         | Done s' _ \<Rightarrow> \<exists>q. get_round s' k = Some q \<and> rd_phase q = PHASE_COMPLETE \<and> rd_verdict q = ro_verdict res \<and>
             rd_verdict_block q = to_u64 h \<and> rd_reveals q = rd_reveals r \<and>
             promised_total q = uint (u64_of_amount (ft_review_budget t)) + uint (u64_of_amount (ft_refundable t)) \<and>
             get_claim s' (rd_claim_id r) = Some (c\<lparr>kc_status := verdict_status (ro_verdict res) (kc_status c)\<rparr>))))"
proof -
  have inv: "kr_inv env s" using assms(1) by (rule kr.reachable_inv)
  obtain res where p: "policy_for_round env s r = Inr policy_neutral" and res: "aggregate_round env h s r = Inr res"
    and verdict: "funded_terminal (ro_verdict res)"
    by (rule neutral_aggregate [OF inv assms(2-4,7)])
  have id: "get_round_checked s k = Inr r" using kr_invD(7) [OF inv assms(2)] assms(2) by (simp add: get_round_checked_def round_ok_def)
  have open_round: "\<not> closed_phase (rd_phase r)" if "rd_phase r \<noteq> PHASE_COMPLETE"
    using valid_funding_at [OF inv assms(2-4)] assms(5) that by (simp add: valid_funding_round_def closed_phase_def)
  have "case complete_round env h before after k given s of
      Fail s' e \<Rightarrow> s' = s \<and> (\<exists>u v e. before u = Fail v e \<or> after u = Fail v e)
    | Done s' _ \<Rightarrow> \<exists>q. get_round s' k = Some q \<and> rd_phase q = PHASE_COMPLETE \<and> rd_verdict q = ro_verdict res \<and>
        rd_verdict_block q = to_u64 h \<and> rd_reveals q = rd_reveals r \<and>
        promised_total q = uint (u64_of_amount (ft_review_budget t)) + uint (u64_of_amount (ft_refundable t)) \<and>
        get_claim s' (rd_claim_id r) = Some (c\<lparr>kc_status := verdict_status (ro_verdict res) (kc_status c)\<rparr>)"
    if closed: "rd_phase r \<noteq> PHASE_COMPLETE" "panel_closed (kr_params s) (to_u64 h) r"
  proof -
    have pointer: "kc_round_id c = [] \<or> kc_round_id c = k" using assms(6) by auto
    show ?thesis
    proof (rule complete_round_funded [OF inv assms(2,3) open_round [OF closed(1)] assms(4,5) pointer assms(7-12) closed(2) res])
      fix e
      assume "complete_round env h before after k given s = Fail s e" "\<exists>u v e. before u = Fail v e \<or> after u = Fail v e"
      then show ?thesis by simp
    next
      fix s' q
      assume out: "complete_round env h before after k given s = Done s' ()"
        and q: "q \<in> {funded_close h c t (ro_verdict res) r, marked_paid (to_u64 h) (funded_close h c t (ro_verdict res) r)}"
        and s': "kr_inv env s'" "get_round s' k = Some q"
        and c': "get_claim s' (rd_claim_id r) = Some (c\<lparr>kc_status := verdict_status (ro_verdict res) (kc_status c)\<rparr>)"
      have fields: "rd_phase q = PHASE_COMPLETE" "rd_verdict q = ro_verdict res" "rd_verdict_block q = to_u64 h" "rd_reveals q = rd_reveals r"
        "rd_policy q = policy_neutral" "rd_claim_id q = rd_claim_id r"
        using q assms(3) by (auto simp: marked_paid_def)
      let ?c = "c\<lparr>kc_status := verdict_status (ro_verdict res) (kc_status c)\<rparr>"
      have "valid_funding_round env (Some (?c\<lparr>kc_round_id := []\<rparr>)) q"
        by (rule valid_funding_at [OF s' fields(5)]) (simp add: fields c')
      then have "promised_total q = uint (u64_of_amount (ft_review_budget t)) + uint (u64_of_amount (ft_refundable t))"
        by (rule funded_promises) (simp_all add: fields assms(5))
      with out fields s'(2) c' show ?thesis by simp
    qed
  qed
  with id p res verdict open_round show ?thesis
    by (auto simp: complete_round_def closed_phase_def funded_terminal_def)
qed

lemma demo_effects: "keeps_records (\<lambda>s. Done s ())"
  by (simp add: keeps_records_def same_other_records_def)

text \<open>At height 4 the panel is closed and the completion pays; at height 2 it is refused.\<close>

theorem kr_completion_accounts_witness:
  "complete_round demo_env 2 (\<lambda>s. Done s ()) (\<lambda>s. Done s ()) ''r1'' no_outcome demo_4 =
      Fail demo_4 (ReviewErr ''review panel is not closed for aggregation'') \<and>
    (\<exists>s' q. complete_round demo_env 4 (\<lambda>s. Done s ()) (\<lambda>s. Done s ()) ''r1'' no_outcome demo_4 = Done s' () \<and>
      get_round s' ''r1'' = Some q \<and> rd_phase q = PHASE_COMPLETE \<and> promised_total q = 1000)"
proof -
  have closed: "\<not> panel_closed demo_review_params (to_u64 2) demo_revealed" "panel_closed demo_review_params (to_u64 4) demo_revealed"
    by (simp_all add: panel_closed_def demo_round_defs to_u64_def)
  note completion = kr_completion_accounts [OF demo_review_reachable(5) demo_get(1), of demo_claim demo_terms_of _
      "\<lambda>s. Done s ()" "\<lambda>s. Done s ()", OF _ _ _ _ _ _ _ _ demo_effects demo_effects]
  from completion [of 2 no_outcome] completion [of 4 no_outcome] show ?thesis
    by (cases "complete_round demo_env 4 (\<lambda>s. Done s ()) (\<lambda>s. Done s ()) ''r1'' no_outcome demo_4")
      (auto simp: demo_4_fields demo_funded demo_revealed_fields demo_amounts closed)
qed

section \<open>Funding\<close>

text \<open>
  C1: in every reachable state, a completed round of a funded claim promises its reviewers and its payer
  exactly what was paid less the retained fee, whatever the verdict and whoever revealed, and the claim has
  no other round: nothing is promised twice.
\<close>

theorem kr_funds_conserved:
  assumes "kr_reachable env h s" "get_round s k = Some r" "rd_policy r = policy_neutral" "rd_phase r = PHASE_COMPLETE"
    "get_claim s (rd_claim_id r) = Some c" "kc_funding c = Some t"
  shows "promised_total r = uint (u64_of_amount (ft_paid t)) - uint (u64_of_amount (ft_retained t)) \<and>
    (\<forall>j q. get_round s j = Some q \<and> rd_claim_id q = rd_claim_id r \<longrightarrow> j = k)"
proof -
  have inv: "kr_inv env s" using assms(1) by (rule kr.reachable_inv)
  note funding = valid_funding_at [OF inv assms(2,3,5)]
  have "promised_total r = uint (u64_of_amount (ft_review_budget t)) + uint (u64_of_amount (ft_refundable t))"
    by (rule funded_promises [OF funding]) (use assms(4,6) in simp_all)
  moreover have "valid_funding_terms env c True" using kr_invD(8) [OF inv assms(5)] by (simp add: claim_ok_def)
  from funds_add_up [OF this assms(6)] have
    "uint (u64_of_amount (ft_review_budget t)) + uint (u64_of_amount (ft_refundable t)) =
      uint (u64_of_amount (ft_paid t)) - uint (u64_of_amount (ft_retained t))" by linarith
  ultimately show ?thesis using sole_round [OF inv assms(2)] by metis
qed

theorem kr_funds_conserved_witness:
  "\<exists>s r. kr_reachable demo_env 2 s \<and> get_round s ''r1'' = Some r \<and> rd_phase r = PHASE_COMPLETE \<and> promised_total r = 1000"
proof -
  have c: "get_claim demo_5 ''c1'' = Some demo_claim" by (simp add: demo_5_def demo_4_fields)
  have r: "rd_policy demo_closed = policy_neutral" "rd_phase demo_closed = PHASE_COMPLETE" "rd_claim_id demo_closed = ''c1''"
    by (simp_all add: demo_closed_def demo_revealed_fields)
  from kr_funds_conserved [OF demo_reachable_5 demo_get_5 r(1,2), of demo_claim demo_terms_of] demo_reachable_5 demo_get_5 r(2)
  show ?thesis by (auto simp: r(3) c demo_funded demo_amounts)
qed

section \<open>Settlement\<close>

text \<open>
  C2: a settlement is exact and happens once: it moves from the module account precisely what the plans owe to
  each address and to the development fund, marks the plans paid at this height, takes the round off the
  queue, and every later settlement of the round moves nothing.
\<close>

theorem kr_settlement_exact:
  assumes "sdk_laws (re_sdk env)" "kr_reachable env h0 s" "get_round s k = Some r" "has_pending_funds r" "h < 2 ^ 63"
    "try_settle env h k s = Done s' u"
  shows "(\<forall>a. uzrn_of env s' a = uzrn_of env s a - (if a = review_account env then owed_total r else 0) + review_payout env r a) \<and>
    get_round s' k = Some (marked_paid (to_u64 h) r) \<and> kv_get (kr_pending s') k = None \<and>
    (\<forall>h'. try_settle env h' k s' = Done s' ())"
proof -
  have inv: "kr_inv env s" using assms(2) by (rule kr.reachable_inv)
  show ?thesis
    using assms(6) kr_invD(1) [OF inv]
  proof (cases rule: try_settle_effect)
    case (settled q)
    with assms(3,4) show ?thesis by simp
  next
    case (paid q b)
    let ?t = "s\<lparr>kr_bank := b\<rparr>"
    from paid(1) assms(3) have q: "q = r" by simp
    have now: "to_u64 h \<noteq> 0" using paid(5) assms(5) uint_to_u64 [of h] by auto
    have s': "s' = with_round (marked_paid (to_u64 h) r) ?t"
      using set_round_effect [OF paid(8)] kr_invD(1) [OF inv] q by (metis kr_invD(1) kr_inv_bank inv)
    have "uzrn_of env s' a = uzrn_of env ?t a" for a by (simp add: s' uzrn_of_def)
    then have "uzrn_of env s' a = uzrn_of env s a - (if a = review_account env then owed_total r else 0) + review_payout env r a" for a
      using pay_plans_moves [OF assms(1) paid(7), of a] q by simp
    moreover have "try_settle env h' k s' = Done s' ()" for h'
      using settled_again [OF inv paid(4,2,8) now] .
    ultimately show ?thesis
      using paid(2) q marked_not_pending [OF now] by (simp add: s')
  qed
qed

lemma demo_owed:
  "owed_rewards demo_closed = Some \<lparr>wp_created_at = 4,
     wp_payments = [\<lparr>rp_verifier = ''zrn1rev'', rp_amount = format_u64 550, rp_withheld = ''0''\<rparr>], wp_withheld_total = ''0'', wp_paid_at = 0\<rparr>"
  "owed_refund demo_closed = Some \<lparr>rf_recipient = ''zrn1sub'', rf_amount = format_u64 450, rf_created_at = 4, rf_paid_at = 0\<rparr>"
  by (simp_all add: owed_rewards_def owed_refund_def demo_closed_def demo_amounts reward_plan_for_def refund_plan_for_def Let_def
      demo_round_defs revealed_entry_def demo_msg_def share_payment_def review_share_def to_u64_def demo_claim_def)

lemma demo_accounts:
  "acc_address (re_sdk demo_env) ''zrn1rev'' = Some ''zrn1rev''" "acc_address (re_sdk demo_env) ''zrn1sub'' = Some ''zrn1sub''"
  "review_account demo_env = ''module/knowledge''" "module_address (re_sdk demo_env) development_fund = ''module/development_fund''"
  by code_simp+

lemma demo_bank_5: "uzrn_of demo_env demo_5 a = uzrn_of demo_env demo_genesis a"
  by (simp add: uzrn_of_def demo_5_def demo_states)

theorem kr_settlement_exact_witness:
  "\<exists>s'. try_settle demo_env 5 ''r1'' demo_5 = Done s' () \<and> uzrn_of demo_env s' (review_account demo_env) = 0 \<and>
    uzrn_of demo_env s' ''zrn1sub'' = 450 \<and> kv_get (kr_pending s') ''r1'' = None"
proof -
  from succeeded_Done [OF demo_settles] obtain s' where run: "try_settle demo_env 5 ''r1'' demo_5 = Done s' ()" by auto
  have laws: "sdk_laws (re_sdk demo_env)"
  proof -
    let ?sdk = "ledger_sdk\<lparr>acc_address := (\<lambda>v. if length v \<le> 64 then ledger_account v else None)\<rparr>"
    have "moved ?sdk = moved ledger_sdk" "issued ?sdk = issued ledger_sdk"
      by (intro ext, simp add: moved_def issued_def)+
    then have "sdk_laws ?sdk = sdk_laws ledger_sdk" unfolding sdk_laws_def by simp
    then show ?thesis using ledger_laws by (simp add: demo_env_def)
  qed
  have "uzrn_of demo_env demo_genesis ''module/knowledge'' = 1000" "uzrn_of demo_env demo_genesis ''zrn1sub'' = 0" by code_simp+
  then have before: "uzrn_of demo_env demo_5 (review_account demo_env) = 1000" "uzrn_of demo_env demo_5 ''zrn1sub'' = 0"
    by (simp_all add: demo_bank_5 demo_accounts)
  have owed: "review_payout demo_env demo_closed ''zrn1sub'' = 450" "review_payout demo_env demo_closed (review_account demo_env) = 0"
    "owed_total demo_closed = 1000" "review_account demo_env \<noteq> ''zrn1sub''"
    by (simp_all add: review_payout_def owed_total_def demo_owed paid_to_def payments_total_def demo_accounts)
  from kr_settlement_exact [OF laws demo_reachable_5 demo_get_5 demo_pending _ run] run show ?thesis
    by (auto simp: before owed owed(4) [symmetric])
qed

text \<open>
  C4: the payment queue serves every round.  From any reachable state, if from there on only the blocks'
  queue runs, a queued round is among those that are tried within one block more than the number of queued
  rounds.  Every one of those blocks is a step of the chain: it returns, and it settles exactly the rounds
  it tries and moves nothing but its cursor besides.
\<close>

theorem kr_queue_serves:
  assumes "kr_reachable env h s" "kv_get (kr_pending s) k \<noteq> None"
  shows "(\<exists>n < length (kr_pending s) + 1. k \<in> set (block_tries (blocks env h n s))) \<and>
    (\<forall>m. (h + int m < 2 ^ 63 \<longrightarrow> kr_reachable env (h + int m) (blocks env h m s)) \<and>
      (\<exists>cursor. process_pending env (h + int m + 1) (blocks env h m s) =
        Done ((fold (settle_one env (h + int m + 1)) (block_tries (blocks env h m s)) (blocks env h m s))\<lparr>kr_cursor := cursor\<rparr>) ()))"
proof -
  have inv: "kr_inv env s" using assms(1) by (rule kr.reachable_inv)
  from queue_reaches [OF inv] assms(2) obtain n where
    "n < keys_before s k" "k \<in> set (block_tries (blocks env h n s))" by (auto simp: queued_def)
  with keys_before_bound [OF inv, of k] have "\<exists>n < length (kr_pending s) + 1. k \<in> set (block_tries (blocks env h n s))"
    by (intro exI [of _ n]) auto
  then show ?thesis using process_pending_block(1) [OF blocks_inv [OF inv]] blocks_reachable [OF assms(1)] by blast
qed

theorem kr_queue_serves_witness:
  "\<exists>n \<le> 1. ''r1'' \<in> set (block_tries (blocks demo_env 2 n demo_5))"
proof -
  have "\<not> has_pending_funds demo_round" "\<not> has_pending_funds demo_committed" "\<not> has_pending_funds demo_revealing" "\<not> has_pending_funds demo_revealed"
    by (simp_all add: has_pending_funds_def demo_round_defs)
  moreover have "rd_id demo_closed = ''r1''" by (simp add: demo_closed_def demo_round_ids)
  moreover have "kr_pending demo_claimed = []" by (simp add: demo_claimed_def demo_genesis_def)
  moreover have "kr_pending (with_round r s) = (if has_pending_funds r then [(rd_id r, ())] else [])" if "kr_pending s = []" for r and s :: "ledger kr_state"
    using that by (simp add: with_round_def kv_set_def kv_del_def)
  ultimately have "kr_pending demo_5 = [(''r1'', ())]"
    using demo_pending by (simp add: demo_5_def demo_4_def demo_3_def demo_2_def demo_1_def)
  then have *: "kv_get (kr_pending demo_5) ''r1'' \<noteq> None" "length (kr_pending demo_5) = 1" by simp_all
  show ?thesis
    using kr_queue_serves [OF demo_reachable_5 *(1)] unfolding *(2) by (auto simp: less_Suc_eq_le)
qed

end
