(* ===== verification/Tokens.thy ===== *)
theory Tokens
  imports VR_State Chain
begin

text \<open>
  x/tokens: fungible tokens that users create, their balances, allowances and delegated power, wrapping into
  bank coins, and the emission periods of the native coin (types/{types,keys,errors,genesis}.go,
  keeper/{state,keeper,msg_server,grpc_query}.go, module.go).

  The code joins token ids and addresses with a slash into one key; ids are hexadecimal and addresses have
  passed the bech32 decoder, so neither holds a slash, and the model keeps the parts as a tuple.  The
  order of the entries of one token is the same.  Emission mints through x/vesting_rewards, so the state
  holds that of the other module, whose bank is the chain's; \<open>tk_metadata\<close> is the denom metadata of the bank.
  \<open>digest\<close> is the hexadecimal text of SHA-256.
\<close>

section \<open>Records\<close>

datatype tk_error =
    TokenNotFound | InsufficientBalance | TokenAlreadyExists | AllowanceExceeded | TokenPaused | NotPausable | NotMintable
  | NotBurnable | SupplyExceeded | TkInvalidAmount | TkUnauthorized | InvalidSymbol | InvalidName | SelfTransfer | TokenNotPaused
  | SelfDelegation | NotWrappable | WrapRecordNotFound | InsufficientUndelegatedBalance | EmissionNotFound
  | InvalidEmissionRange | EmissionInactive | EmissionsDisabled | TkInvalidMessage | TkInvalidAddress | TkBankError string
  | TkPanic string

record token_features =
  tf_mintable :: bool
  tf_burnable :: bool
  tf_pausable :: bool
  tf_wrappable :: bool

record token_def =
  td_id :: string
  td_creator :: string
  td_name :: string
  td_symbol :: string
  td_decimals :: u32
  td_total :: string
  td_max :: string
  td_features :: "token_features option"
  td_paused :: bool
  td_created_at :: u64

record emission_period =
  em_id :: string
  em_start :: u64
  em_end :: u64
  em_per_block :: string
  em_recipient :: string
  em_active :: bool
  em_emitted :: string
  em_creator :: string

record tk_params =
  emission_epoch_blocks :: u64
  default_fee_bps :: string

record denom_metadata =
  dm_base :: string
  dm_name :: string
  dm_symbol :: string
  dm_display :: string
  dm_units :: "(string \<times> u32) list"

record msg_create_token =
  mk_creator :: string
  mk_name :: string
  mk_symbol :: string
  mk_decimals :: u32
  mk_initial :: string
  mk_max :: string
  mk_features :: "token_features option"

record msg_create_emission =
  mz_authority :: string
  mz_start :: u64
  mz_end :: u64
  mz_per_block :: string
  mz_recipient :: string

section \<open>State\<close>

record 'b tk_state =
  tk_params_record :: "tk_params option"
  tk_tokens :: "(string, token_def) kv"
  tk_balances :: "(string \<times> string, string) kv"
  tk_allowances :: "(string \<times> string \<times> string, string) kv"
  tk_owner_index :: "(string \<times> string, unit) kv"
  tk_symbols :: "(string, string) kv"
  tk_delegations :: "(string \<times> string \<times> string, string) kv"
  tk_totals :: "(string \<times> string, string) kv"
  tk_wraps :: "(string, string) kv"
  tk_unwraps :: "(string, string) kv"
  tk_emissions :: "(string, emission_period) kv"
  tk_metadata :: "(string, denom_metadata) kv"
  tk_vr :: "'b vr_state"

type_synonym ('b, 'a) tk_outcome = "('b tk_state, tk_error, 'a) outcome"

abbreviation tk_bank :: "'b tk_state \<Rightarrow> 'b" where
  "tk_bank s \<equiv> vr_bank (tk_vr s)"

definition tk_with_bank :: "'b \<Rightarrow> 'b tk_state \<Rightarrow> 'b tk_state" where
  "tk_with_bank b s = s\<lparr>tk_vr := (tk_vr s)\<lparr>vr_bank := b\<rparr>\<rparr>"

abbreviation on_tk_bank :: "('b \<Rightarrow> ('b, string, unit) outcome) \<Rightarrow> 'b tk_state \<Rightarrow> ('b, unit) tk_outcome" where
  "on_tk_bank \<equiv> on_bank tk_bank tk_with_bank TkBankError"

definition tokens_module :: string where
  "tokens_module = ''tokens''"

section \<open>Parameters\<close>

definition default_tk_params :: tk_params where
  "default_tk_params = \<lparr>emission_epoch_blocks = 0, default_fee_bps = []\<rparr>"

definition get_tk_params :: "'b tk_state \<Rightarrow> tk_params" where
  "get_tk_params s = (case tk_params_record s of None \<Rightarrow> default_tk_params | Some p \<Rightarrow> p)"

definition set_tk_params :: "tk_params \<Rightarrow> 'b tk_state \<Rightarrow> 'b tk_state" where
  "set_tk_params p s = s\<lparr>tk_params_record := Some p\<rparr>"

section \<open>Identifiers\<close>

definition is_valid_symbol :: "string \<Rightarrow> bool" where
  "is_valid_symbol s \<longleftrightarrow> 1 \<le> length s \<and> length s \<le> 16 \<and>
     list_all (\<lambda>c. ((65 :: nat) \<le> of_char c \<and> of_char c \<le> (90 :: nat)) \<or> ((48 :: nat) \<le> of_char c \<and> of_char c \<le> (57 :: nat))) s"

definition generate_token_id :: "(string \<Rightarrow> string) \<Rightarrow> string \<Rightarrow> string \<Rightarrow> int \<Rightarrow> string" where
  "generate_token_id digest creator symbol h =
     digest (''ZRN.token.id.v1:'' @ creator @ '':'' @ symbol @ '':'' @ big_string h)"

definition generate_emission_id :: "(string \<Rightarrow> string) \<Rightarrow> string \<Rightarrow> u64 \<Rightarrow> u64 \<Rightarrow> string" where
  "generate_emission_id digest creator start_block end_block =
     digest (''ZRN.emission.v1:'' @ creator @ '':'' @ format_u64 start_block @ '':'' @ format_u64 end_block)"

definition wrapped_denom_prefix :: string where
  "wrapped_denom_prefix = ''zrn20/''"

definition wrapped_denom :: "string \<Rightarrow> string" where
  "wrapped_denom k = wrapped_denom_prefix @ k"

section \<open>Tokens\<close>

definition set_token :: "token_def \<Rightarrow> 'b tk_state \<Rightarrow> 'b tk_state" where
  "set_token t s = s\<lparr>tk_tokens := kv_set (td_id t) t (tk_tokens s), tk_symbols := kv_set (td_symbol t) (td_id t) (tk_symbols s)\<rparr>"

definition get_token :: "'b tk_state \<Rightarrow> string \<Rightarrow> token_def option" where
  "get_token s k = kv_get (tk_tokens s) k"

definition get_token_by_symbol :: "'b tk_state \<Rightarrow> string \<Rightarrow> token_def option" where
  "get_token_by_symbol s symbol = (case kv_get (tk_symbols s) symbol of None \<Rightarrow> None | Some k \<Rightarrow> get_token s k)"

definition delete_token :: "token_def \<Rightarrow> 'b tk_state \<Rightarrow> 'b tk_state" where
  "delete_token t s = s\<lparr>tk_tokens := kv_del (td_id t) (tk_tokens s), tk_symbols := kv_del (td_symbol t) (tk_symbols s)\<rparr>"

section \<open>Amounts\<close>

text \<open>Balances, allowances, delegations and totals: decimal text, absent for zero; a malformed text reads as zero.\<close>

definition amount_at :: "('k, string) kv \<Rightarrow> 'k \<Rightarrow> int" where
  "amount_at m k = (case kv_get m k of None \<Rightarrow> 0 | Some v \<Rightarrow> int_or_zero v)"

definition put_amount :: "'k::linorder \<Rightarrow> int \<Rightarrow> ('k, string) kv \<Rightarrow> ('k, string) kv" where
  "put_amount k x m = (if x = 0 then kv_del k m else kv_set k (big_string x) m)"

definition get_balance :: "'b tk_state \<Rightarrow> string \<Rightarrow> string \<Rightarrow> int" where
  "get_balance s k owner = amount_at (tk_balances s) (k, owner)"

text \<open>The owner index holds exactly the owners of a non-zero balance.\<close>

definition put_owner :: "string \<Rightarrow> string \<Rightarrow> int \<Rightarrow> (string \<times> string, unit) kv \<Rightarrow> (string \<times> string, unit) kv" where
  "put_owner owner k x m = (if x = 0 then kv_del (owner, k) m else kv_set (owner, k) () m)"

definition set_balance :: "string \<Rightarrow> string \<Rightarrow> int \<Rightarrow> 'b tk_state \<Rightarrow> 'b tk_state" where
  "set_balance k owner x s = s\<lparr>tk_balances := put_amount (k, owner) x (tk_balances s),
     tk_owner_index := put_owner owner k x (tk_owner_index s)\<rparr>"

definition get_allowance :: "'b tk_state \<Rightarrow> string \<Rightarrow> string \<Rightarrow> string \<Rightarrow> int" where
  "get_allowance s k owner spender = amount_at (tk_allowances s) (k, owner, spender)"

definition set_allowance :: "string \<Rightarrow> string \<Rightarrow> string \<Rightarrow> int \<Rightarrow> 'b tk_state \<Rightarrow> 'b tk_state" where
  "set_allowance k owner spender x s = s\<lparr>tk_allowances := put_amount (k, owner, spender) x (tk_allowances s)\<rparr>"

definition get_delegation :: "'b tk_state \<Rightarrow> string \<Rightarrow> string \<Rightarrow> string \<Rightarrow> int" where
  "get_delegation s k delegator delegate = amount_at (tk_delegations s) (k, delegator, delegate)"

definition set_delegation :: "string \<Rightarrow> string \<Rightarrow> string \<Rightarrow> int \<Rightarrow> 'b tk_state \<Rightarrow> 'b tk_state" where
  "set_delegation k delegator delegate x s = s\<lparr>tk_delegations := put_amount (k, delegator, delegate) x (tk_delegations s)\<rparr>"

definition get_delegator_total :: "'b tk_state \<Rightarrow> string \<Rightarrow> string \<Rightarrow> int" where
  "get_delegator_total s k delegator = amount_at (tk_totals s) (k, delegator)"

definition set_delegator_total :: "string \<Rightarrow> string \<Rightarrow> int \<Rightarrow> 'b tk_state \<Rightarrow> 'b tk_state" where
  "set_delegator_total k delegator x s = s\<lparr>tk_totals := put_amount (k, delegator) x (tk_totals s)\<rparr>"

definition get_undelegated_balance :: "'b tk_state \<Rightarrow> string \<Rightarrow> string \<Rightarrow> int" where
  "get_undelegated_balance s k a = max 0 (get_balance s k a - get_delegator_total s k a)"

section \<open>Wrap records, emissions, metadata\<close>

definition set_wrap_record :: "string \<Rightarrow> string \<Rightarrow> 'b tk_state \<Rightarrow> 'b tk_state" where
  "set_wrap_record k d s = s\<lparr>tk_wraps := kv_set k d (tk_wraps s), tk_unwraps := kv_set d k (tk_unwraps s)\<rparr>"

definition get_wrapped_denom :: "'b tk_state \<Rightarrow> string \<Rightarrow> string" where
  "get_wrapped_denom s k = (case kv_get (tk_wraps s) k of None \<Rightarrow> [] | Some d \<Rightarrow> d)"

definition get_token_id_by_wrapped :: "'b tk_state \<Rightarrow> string \<Rightarrow> string" where
  "get_token_id_by_wrapped s d = (case kv_get (tk_unwraps s) d of None \<Rightarrow> [] | Some k \<Rightarrow> k)"

definition delete_wrap_record :: "string \<Rightarrow> string \<Rightarrow> 'b tk_state \<Rightarrow> 'b tk_state" where
  "delete_wrap_record k d s = s\<lparr>tk_wraps := kv_del k (tk_wraps s), tk_unwraps := kv_del d (tk_unwraps s)\<rparr>"

definition set_emission :: "emission_period \<Rightarrow> 'b tk_state \<Rightarrow> 'b tk_state" where
  "set_emission e s = s\<lparr>tk_emissions := kv_set (em_id e) e (tk_emissions s)\<rparr>"

definition get_emission :: "'b tk_state \<Rightarrow> string \<Rightarrow> emission_period option" where
  "get_emission s k = kv_get (tk_emissions s) k"

definition to_lower :: "string \<Rightarrow> string" where
  "to_lower s = map (\<lambda>c. if (65 :: nat) \<le> of_char c \<and> of_char c \<le> (90 :: nat) then char_of (of_char c + 32 :: nat) else c) s"

definition set_wrapped_metadata :: "token_def \<Rightarrow> string \<Rightarrow> 'b tk_state \<Rightarrow> 'b tk_state" where
  "set_wrapped_metadata t d s =
     (if kv_get (tk_metadata s) d \<noteq> None then s
      else
        let display = to_lower (td_symbol t);
            plain = (td_decimals t = 0 \<or> length (td_symbol t) < 3 \<or> display = d);
            md = \<lparr>dm_base = d, dm_name = td_name t, dm_symbol = td_symbol t, dm_display = (if plain then d else display),
                  dm_units = (if plain then [(d, 0)] else [(d, 0), (display, td_decimals t)])\<rparr>
        in s\<lparr>tk_metadata := kv_set d md (tk_metadata s)\<rparr>)"

section \<open>Stateless validation\<close>

definition nonneg_amount :: "string \<Rightarrow> int option" where
  "nonneg_amount v = (case big_set_string v of None \<Rightarrow> None | Some x \<Rightarrow> if x < 0 then None else Some x)"

definition is_account :: "'b sdk \<Rightarrow> string \<Rightarrow> bool" where
  "is_account env a \<longleftrightarrow> a \<noteq> [] \<and> acc_address env a \<noteq> None"

definition validate_create_token :: "'b sdk \<Rightarrow> msg_create_token \<Rightarrow> bool" where
  "validate_create_token env m \<longleftrightarrow>
     is_account env (mk_creator m) \<and> mk_symbol m \<noteq> [] \<and> mk_name m \<noteq> [] \<and>
     (mk_initial m \<noteq> [] \<longrightarrow> nonneg_amount (mk_initial m) \<noteq> None) \<and> (mk_max m \<noteq> [] \<longrightarrow> nonneg_amount (mk_max m) \<noteq> None)"

definition validate_mint_token :: "'b sdk \<Rightarrow> string \<Rightarrow> string \<Rightarrow> string \<Rightarrow> string \<Rightarrow> bool" where
  "validate_mint_token env who k to amount \<longleftrightarrow> is_account env who \<and> k \<noteq> [] \<and> is_account env to \<and> positive_int amount \<noteq> None"

definition validate_burn_token :: "'b sdk \<Rightarrow> string \<Rightarrow> string \<Rightarrow> string \<Rightarrow> bool" where
  "validate_burn_token env burner k amount \<longleftrightarrow> is_account env burner \<and> k \<noteq> [] \<and> positive_int amount \<noteq> None"

definition validate_transfer_token :: "'b sdk \<Rightarrow> string \<Rightarrow> string \<Rightarrow> string \<Rightarrow> string \<Rightarrow> bool" where
  "validate_transfer_token env sender k to amount \<longleftrightarrow>
     is_account env sender \<and> k \<noteq> [] \<and> is_account env to \<and> sender \<noteq> to \<and> positive_int amount \<noteq> None"

definition validate_approve_token :: "'b sdk \<Rightarrow> string \<Rightarrow> string \<Rightarrow> string \<Rightarrow> string \<Rightarrow> bool" where
  "validate_approve_token env owner k spender amount \<longleftrightarrow>
     is_account env owner \<and> k \<noteq> [] \<and> is_account env spender \<and> owner \<noteq> spender \<and> nonneg_amount amount \<noteq> None"

definition validate_transfer_from :: "'b sdk \<Rightarrow> string \<Rightarrow> string \<Rightarrow> string \<Rightarrow> string \<Rightarrow> bool" where
  "validate_transfer_from env spender from_addr to amount \<longleftrightarrow>
     is_account env spender \<and> is_account env from_addr \<and> is_account env to \<and> from_addr \<noteq> to \<and> positive_int amount \<noteq> None"

definition validate_pause :: "'b sdk \<Rightarrow> string \<Rightarrow> string \<Rightarrow> bool" where
  "validate_pause env who k \<longleftrightarrow> is_account env who \<and> k \<noteq> []"

definition validate_delegate_power :: "'b sdk \<Rightarrow> string \<Rightarrow> string \<Rightarrow> string \<Rightarrow> string \<Rightarrow> bool" where
  "validate_delegate_power env delegator k delegate amount \<longleftrightarrow>
     is_account env delegator \<and> k \<noteq> [] \<and> is_account env delegate \<and> delegator \<noteq> delegate \<and> nonneg_amount amount \<noteq> None"

definition validate_undelegate_power :: "'b sdk \<Rightarrow> string \<Rightarrow> string \<Rightarrow> string \<Rightarrow> string \<Rightarrow> bool" where
  "validate_undelegate_power env delegator k delegate amount \<longleftrightarrow>
     is_account env delegator \<and> k \<noteq> [] \<and> is_account env delegate \<and> delegator \<noteq> delegate \<and> positive_int amount \<noteq> None"

definition validate_wrap_token :: "'b sdk \<Rightarrow> string \<Rightarrow> string \<Rightarrow> string \<Rightarrow> bool" where
  "validate_wrap_token env sender k amount \<longleftrightarrow> is_account env sender \<and> k \<noteq> [] \<and> positive_int amount \<noteq> None"

definition validate_unwrap_token :: "'b sdk \<Rightarrow> string \<Rightarrow> string \<Rightarrow> string \<Rightarrow> bool" where
  "validate_unwrap_token env sender d amount \<longleftrightarrow> is_account env sender \<and> d \<noteq> [] \<and> positive_int amount \<noteq> None"

definition validate_create_emission :: "'b sdk \<Rightarrow> msg_create_emission \<Rightarrow> bool" where
  "validate_create_emission env m \<longleftrightarrow>
     is_account env (mz_authority m) \<and> mz_start m < mz_end m \<and> positive_int (mz_per_block m) \<noteq> None \<and> mz_recipient m \<noteq> []"

definition validate_cancel_emission :: "'b sdk \<Rightarrow> string \<Rightarrow> string \<Rightarrow> bool" where
  "validate_cancel_emission env who k \<longleftrightarrow> is_account env who \<and> k \<noteq> []"

definition validate_tk_update_params :: "'b sdk \<Rightarrow> string \<Rightarrow> bool" where
  "validate_tk_update_params env who \<longleftrightarrow> is_account env who"

end
