(* ===== verification/Tokens_Msgs.thy ===== *)
theory Tokens_Msgs
  imports Tokens
begin

text \<open>
  x/tokens: the handlers (keeper/msg_server.go), the block hook and genesis (keeper/keeper.go, module.go) and the
  queries (keeper/grpc_query.go).  \<open>authority\<close> is the module authority, \<open>h\<close> the block height.
\<close>

section \<open>Tokens\<close>

definition has_feature :: "(token_features \<Rightarrow> bool) \<Rightarrow> token_def \<Rightarrow> bool" where
  "has_feature f t \<longleftrightarrow> (case td_features t of None \<Rightarrow> False | Some x \<Rightarrow> f x)"

text \<open>An absent amount is zero.\<close>

definition optional_amount :: "string \<Rightarrow> int option" where
  "optional_amount v = (if v = [] then Some 0 else big_set_string v)"

definition new_token :: "string \<Rightarrow> int \<Rightarrow> msg_create_token \<Rightarrow> int \<Rightarrow> int \<Rightarrow> token_def" where
  "new_token k h m initial limit =
     (let features = (case mk_features m of None \<Rightarrow> \<lparr>tf_mintable = False, tf_burnable = False, tf_pausable = False, tf_wrappable = False\<rparr>
                      | Some f \<Rightarrow> f)
      in \<lparr>td_id = k, td_creator = mk_creator m, td_name = mk_name m, td_symbol = mk_symbol m, td_decimals = mk_decimals m,
          td_total = big_string initial, td_max = big_string limit, td_features = Some features, td_paused = False,
          td_created_at = to_u64 h\<rparr>)"

definition create_token :: "(string \<Rightarrow> string) \<Rightarrow> int \<Rightarrow> msg_create_token \<Rightarrow> 'b tk_state \<Rightarrow> ('b, string) tk_outcome" where
  "create_token digest h m s =
     (if \<not> is_valid_symbol (mk_symbol m) then Fail s InvalidSymbol
      else if length (mk_name m) = 0 \<or> 64 < length (mk_name m) then Fail s InvalidName
      else if get_token_by_symbol s (mk_symbol m) \<noteq> None then Fail s TokenAlreadyExists
      else try_in s (of_option TkInvalidAmount (optional_amount (mk_initial m))) (\<lambda>initial.
           try_in s (of_option TkInvalidAmount (optional_amount (mk_max m))) (\<lambda>limit.
             if 0 < limit \<and> limit < initial then Fail s SupplyExceeded
             else
               let k = generate_token_id digest (mk_creator m) (mk_symbol m) h;
                   s = set_token (new_token k h m initial limit) s;
                   s = (if 0 < initial then set_balance k (mk_creator m) initial s else s)
               in Done s k)))"

definition mint_token :: "string \<Rightarrow> string \<Rightarrow> string \<Rightarrow> string \<Rightarrow> string \<Rightarrow> 'b tk_state \<Rightarrow> ('b, unit) tk_outcome" where
  "mint_token authority who k to amount s = (case get_token s k of None \<Rightarrow> Fail s TokenNotFound
   | Some t \<Rightarrow>
       if td_paused t then Fail s TokenPaused
       else if \<not> has_feature tf_mintable t then Fail s NotMintable
       else if who \<noteq> td_creator t \<and> who \<noteq> authority then Fail s TkUnauthorized
       else try_in s (of_option TkInvalidAmount (positive_int amount)) (\<lambda>x.
         let supply = int_or_zero (td_total t) + x; limit = int_or_zero (td_max t)
         in if 0 < limit \<and> limit < supply then Fail s SupplyExceeded
            else let s = set_token (t\<lparr>td_total := big_string supply\<rparr>) s
                 in Done (set_balance k to (get_balance s k to + x) s) ()))"

definition burn_token :: "string \<Rightarrow> string \<Rightarrow> string \<Rightarrow> 'b tk_state \<Rightarrow> ('b, unit) tk_outcome" where
  "burn_token burner k amount s = (case get_token s k of None \<Rightarrow> Fail s TokenNotFound
   | Some t \<Rightarrow>
       if td_paused t then Fail s TokenPaused
       else if \<not> has_feature tf_burnable t then Fail s NotBurnable
       else try_in s (of_option TkInvalidAmount (positive_int amount)) (\<lambda>x.
         if get_undelegated_balance s k burner < x then Fail s InsufficientUndelegatedBalance
         else let s = set_balance k burner (get_balance s k burner - x) s
              in Done (set_token (t\<lparr>td_total := big_string (int_or_zero (td_total t) - x)\<rparr>) s) ()))"

text \<open>The two writes of a transfer.\<close>

definition move_balance :: "string \<Rightarrow> string \<Rightarrow> string \<Rightarrow> int \<Rightarrow> 'b tk_state \<Rightarrow> 'b tk_state" where
  "move_balance k from_addr to x s =
     (let s = set_balance k from_addr (get_balance s k from_addr - x) s
      in set_balance k to (get_balance s k to + x) s)"

definition transfer_token :: "string \<Rightarrow> string \<Rightarrow> string \<Rightarrow> string \<Rightarrow> 'b tk_state \<Rightarrow> ('b, unit) tk_outcome" where
  "transfer_token sender k to amount s = (case get_token s k of None \<Rightarrow> Fail s TokenNotFound
   | Some t \<Rightarrow>
       if td_paused t then Fail s TokenPaused
       else if sender = to then Fail s SelfTransfer
       else try_in s (of_option TkInvalidAmount (positive_int amount)) (\<lambda>x.
         if get_undelegated_balance s k sender < x then Fail s InsufficientUndelegatedBalance
         else Done (move_balance k sender to x s) ()))"

definition approve_token :: "string \<Rightarrow> string \<Rightarrow> string \<Rightarrow> string \<Rightarrow> 'b tk_state \<Rightarrow> ('b, unit) tk_outcome" where
  "approve_token owner k spender amount s = (case get_token s k of None \<Rightarrow> Fail s TokenNotFound
   | Some t \<Rightarrow>
       if owner = spender then Fail s SelfTransfer
       else try_in s (of_option TkInvalidAmount (nonneg_amount amount)) (\<lambda>x.
         Done (set_allowance k owner spender x s) ()))"

definition transfer_from :: "string \<Rightarrow> string \<Rightarrow> string \<Rightarrow> string \<Rightarrow> string \<Rightarrow> 'b tk_state \<Rightarrow> ('b, unit) tk_outcome" where
  "transfer_from spender k from_addr to amount s = (case get_token s k of None \<Rightarrow> Fail s TokenNotFound
   | Some t \<Rightarrow>
       if td_paused t then Fail s TokenPaused
       else if from_addr = to then Fail s SelfTransfer
       else try_in s (of_option TkInvalidAmount (positive_int amount)) (\<lambda>x.
         let allowance = get_allowance s k from_addr spender
         in if allowance < x then Fail s AllowanceExceeded
            else if get_undelegated_balance s k from_addr < x then Fail s InsufficientUndelegatedBalance
            else Done (move_balance k from_addr to x (set_allowance k from_addr spender (allowance - x) s)) ()))"

definition may_pause :: "string \<Rightarrow> string \<Rightarrow> token_def \<Rightarrow> tk_error + unit" where
  "may_pause authority who t =
     (if \<not> has_feature tf_pausable t then Inl NotPausable
      else if who \<noteq> td_creator t \<and> who \<noteq> authority then Inl TkUnauthorized else Inr ())"

definition pause_token :: "string \<Rightarrow> string \<Rightarrow> string \<Rightarrow> 'b tk_state \<Rightarrow> ('b, unit) tk_outcome" where
  "pause_token authority who k s = (case get_token s k of None \<Rightarrow> Fail s TokenNotFound
   | Some t \<Rightarrow> try_in s (may_pause authority who t) (\<lambda>_.
       if td_paused t then Fail s TokenPaused else Done (set_token (t\<lparr>td_paused := True\<rparr>) s) ()))"

definition unpause_token :: "string \<Rightarrow> string \<Rightarrow> string \<Rightarrow> 'b tk_state \<Rightarrow> ('b, unit) tk_outcome" where
  "unpause_token authority who k s = (case get_token s k of None \<Rightarrow> Fail s TokenNotFound
   | Some t \<Rightarrow> try_in s (may_pause authority who t) (\<lambda>_.
       if \<not> td_paused t then Fail s TokenNotPaused else Done (set_token (t\<lparr>td_paused := False\<rparr>) s) ()))"

section \<open>Delegated power\<close>

definition delegate_power :: "string \<Rightarrow> string \<Rightarrow> string \<Rightarrow> string \<Rightarrow> 'b tk_state \<Rightarrow> ('b, unit) tk_outcome" where
  "delegate_power delegator k delegate amount s = (case get_token s k of None \<Rightarrow> Fail s TokenNotFound
   | Some t \<Rightarrow>
       if td_paused t then Fail s TokenPaused
       else if delegator = delegate then Fail s SelfDelegation
       else try_in s (of_option TkInvalidAmount (nonneg_amount amount)) (\<lambda>x.
         let current = get_delegation s k delegator delegate; total_now = get_delegator_total s k delegator;
             write = (\<lambda>total_new. Done (set_delegator_total k delegator total_new (set_delegation k delegator delegate x s)) ())
         in if current < x then
              (if get_undelegated_balance s k delegator < x - current then Fail s InsufficientUndelegatedBalance
               else write (total_now + (x - current)))
            else if x < current then write (total_now - (current - x))
            else Done s ()))"

definition undelegate_power :: "string \<Rightarrow> string \<Rightarrow> string \<Rightarrow> string \<Rightarrow> 'b tk_state \<Rightarrow> ('b, unit) tk_outcome" where
  "undelegate_power delegator k delegate amount s = (case get_token s k of None \<Rightarrow> Fail s TokenNotFound
   | Some t \<Rightarrow>
       if delegator = delegate then Fail s SelfDelegation
       else try_in s (of_option TkInvalidAmount (positive_int amount)) (\<lambda>x.
         let current = get_delegation s k delegator delegate
         in if current < x then Fail s InsufficientUndelegatedBalance
            else let s = set_delegation k delegator delegate (current - x) s
                 in Done (set_delegator_total k delegator (get_delegator_total s k delegator - x) s) ()))"

section \<open>Wrapping\<close>

text \<open>The bank half of a wrap, and that of an unwrap.\<close>

definition mint_wrapped :: "'b sdk \<Rightarrow> string \<Rightarrow> string \<Rightarrow> int \<Rightarrow> 'b tk_state \<Rightarrow> ('b, unit) tk_outcome" where
  "mint_wrapped env sender d x s =
     try_in s (of_option TkInvalidAddress (acc_address env sender)) (\<lambda>a.
     try_in s (of_option (TkPanic ''coins'') (new_coins env [(d, x)])) (\<lambda>coins.
     and_then (on_tk_bank (bank_mint env tokens_module coins) s) (\<lambda>s _.
       on_tk_bank (bank_to_account env tokens_module a coins) s)))"

definition burn_wrapped :: "'b sdk \<Rightarrow> string \<Rightarrow> string \<Rightarrow> int \<Rightarrow> 'b tk_state \<Rightarrow> ('b, unit) tk_outcome" where
  "burn_wrapped env sender d x s =
     try_in s (of_option TkInvalidAddress (acc_address env sender)) (\<lambda>a.
     if bank_balance env (tk_bank s) a d < x then Fail s InsufficientBalance
     else
       try_in s (of_option (TkPanic ''coins'') (new_coins env [(d, x)])) (\<lambda>coins.
       and_then (on_tk_bank (bank_to_module env a tokens_module coins) s) (\<lambda>s _.
         on_tk_bank (bank_burn env tokens_module coins) s)))"

definition wrap_token :: "'b sdk \<Rightarrow> string \<Rightarrow> string \<Rightarrow> string \<Rightarrow> 'b tk_state \<Rightarrow> ('b, string) tk_outcome" where
  "wrap_token env sender k amount s = (case get_token s k of None \<Rightarrow> Fail s TokenNotFound
   | Some t \<Rightarrow>
       if td_paused t then Fail s TokenPaused
       else if \<not> has_feature tf_wrappable t then Fail s NotWrappable
       else try_in s (of_option TkInvalidAmount (positive_int amount)) (\<lambda>x.
         if get_undelegated_balance s k sender < x then Fail s InsufficientUndelegatedBalance
         else
           let s = set_balance k sender (get_balance s k sender - x) s;
               d = wrapped_denom k;
               s = set_wrapped_metadata t d (set_wrap_record k d s)
           in and_then (mint_wrapped env sender d x s) (\<lambda>s _. Done s d)))"

definition unwrap_token :: "'b sdk \<Rightarrow> string \<Rightarrow> string \<Rightarrow> string \<Rightarrow> 'b tk_state \<Rightarrow> ('b, string) tk_outcome" where
  "unwrap_token env sender d amount s =
     (let k = get_token_id_by_wrapped s d
      in if k = [] then Fail s WrapRecordNotFound
      else case get_token s k of None \<Rightarrow> Fail s TokenNotFound
      | Some t \<Rightarrow>
          if td_paused t then Fail s TokenPaused
          else try_in s (of_option TkInvalidAmount (positive_int amount)) (\<lambda>x.
            and_then (burn_wrapped env sender d x s) (\<lambda>s _.
              Done (set_balance k sender (get_balance s k sender + x) s) k)))"

section \<open>Emission periods\<close>

definition create_emission ::
  "string \<Rightarrow> (string \<Rightarrow> string) \<Rightarrow> msg_create_emission \<Rightarrow> 'b tk_state \<Rightarrow> ('b, string) tk_outcome" where
  "create_emission authority digest m s =
     (if mz_authority m \<noteq> authority then Fail s TkUnauthorized
      else if emission_epoch_blocks (get_tk_params s) = 0 then Fail s EmissionsDisabled
      else if mz_end m \<le> mz_start m then Fail s InvalidEmissionRange
      else try_in s (of_option TkInvalidAmount (positive_int (mz_per_block m))) (\<lambda>_.
        let k = generate_emission_id digest (mz_authority m) (mz_start m) (mz_end m)
        in Done (set_emission \<lparr>em_id = k, em_start = mz_start m, em_end = mz_end m, em_per_block = mz_per_block m,
             em_recipient = mz_recipient m, em_active = True, em_emitted = ''0'', em_creator = mz_authority m\<rparr> s) k))"

definition cancel_emission :: "string \<Rightarrow> string \<Rightarrow> string \<Rightarrow> 'b tk_state \<Rightarrow> ('b, unit) tk_outcome" where
  "cancel_emission authority who k s =
     (if who \<noteq> authority then Fail s TkUnauthorized
      else case get_emission s k of None \<Rightarrow> Fail s EmissionNotFound
      | Some e \<Rightarrow> if \<not> em_active e then Fail s EmissionInactive else Done (set_emission (e\<lparr>em_active := False\<rparr>) s) ())"

definition update_tk_params :: "string \<Rightarrow> string \<Rightarrow> tk_params option \<Rightarrow> 'b tk_state \<Rightarrow> ('b, unit) tk_outcome" where
  "update_tk_params authority who po s =
     (if who \<noteq> authority then Fail s TkUnauthorized
      else Done (case po of None \<Rightarrow> s | Some p \<Rightarrow> set_tk_params p s) ())"

text \<open>
  One period in one block: mint, transfer and record in a cache.  Errors are swallowed, a panic is not.  The
  vesting keeper is wired, so the mint is the capped one.
\<close>

definition mint_capped_uzrn :: "'b sdk \<Rightarrow> int \<Rightarrow> 'b tk_state \<Rightarrow> ('b, int) tk_outcome" where
  "mint_capped_uzrn env x s =
     (if x \<le> 0 then Done s 0
      else case mint_with_cap env tokens_module x (tk_vr s) of
        Done v y \<Rightarrow> Done (s\<lparr>tk_vr := v\<rparr>) y
      | Fail v (VrPanic e) \<Rightarrow> Fail (s\<lparr>tk_vr := v\<rparr>) (TkPanic e)
      | Fail v _ \<Rightarrow> Fail (s\<lparr>tk_vr := v\<rparr>) (TkBankError ''mint''))"

definition emission_paid :: "int \<Rightarrow> emission_period \<Rightarrow> emission_period" where
  "emission_paid y e = e\<lparr>em_emitted := big_string (int_or_zero (em_emitted e) + y)\<rparr>"

definition emit_period :: "'b sdk \<Rightarrow> int \<Rightarrow> addr \<Rightarrow> emission_period \<Rightarrow> 'b tk_state \<Rightarrow> ('b, unit) tk_outcome" where
  "emit_period env x a e s =
     and_then (mint_capped_uzrn env x s) (\<lambda>s y.
       if y \<le> 0 then Fail s (TkBankError ''cap'')
       else try_in s (of_option (TkPanic ''coins'') (new_coins env [(uzrn, y)])) (\<lambda>coins.
         and_then (on_tk_bank (bank_to_account env tokens_module a coins) s) (\<lambda>s _.
           Done (set_emission (emission_paid y e) s) ())))"

fun is_panic :: "tk_error \<Rightarrow> bool" where
  "is_panic (TkPanic e) = True"
| "is_panic _ = False"

definition process_emission :: "'b sdk \<Rightarrow> u64 \<Rightarrow> emission_period \<Rightarrow> 'b tk_state \<Rightarrow> ('b, unit) tk_outcome" where
  "process_emission env now e s =
     (if \<not> em_active e then Done s ()
      else if now < em_start e \<or> em_end e < now then
        Done (if em_end e < now then set_emission (e\<lparr>em_active := False\<rparr>) s else s) ()
      else case (positive_int (em_per_block e), acc_address env (em_recipient e)) of
        (Some x, Some a) \<Rightarrow>
          (case emit_period env x a e s of
             Done s' u \<Rightarrow> Done s' ()
           | Fail s' err \<Rightarrow> if is_panic err then Fail s err else Done s ())
      | _ \<Rightarrow> Done s ())"

fun process_emissions :: "'b sdk \<Rightarrow> u64 \<Rightarrow> (string \<times> emission_period) list \<Rightarrow> 'b tk_state \<Rightarrow> ('b, unit) tk_outcome" where
  "process_emissions env now [] s = Done s ()"
| "process_emissions env now ((k, e) # es) s = and_then (process_emission env now e s) (\<lambda>s _. process_emissions env now es s)"

definition tk_begin_block :: "'b sdk \<Rightarrow> int \<Rightarrow> 'b tk_state \<Rightarrow> ('b, unit) tk_outcome" where
  "tk_begin_block env h s =
     (if emission_epoch_blocks (get_tk_params s) = 0 then Done s () else process_emissions env (to_u64 h) (tk_emissions s) s)"

section \<open>Messages\<close>

datatype tk_msg =
    MsgCreateToken msg_create_token | MsgMintToken string string string string | MsgBurnToken string string string
  | MsgTransferToken string string string string | MsgApproveToken string string string string
  | MsgTransferFrom string string string string string | MsgPauseToken string string | MsgUnpauseToken string string
  | MsgDelegatePower string string string string | MsgUndelegatePower string string string string
  | MsgWrapToken string string string | MsgUnwrapToken string string string
  | MsgCreateEmission msg_create_emission | MsgCancelEmission string string | MsgUpdateTkParams string "tk_params option"

definition validated :: "bool \<Rightarrow> 'b tk_state \<Rightarrow> ('b, 'a) tk_outcome \<Rightarrow> ('b, unit) tk_outcome" where
  "validated c s r = (if c then discard r else Fail s TkInvalidMessage)"

fun tk_handle :: "'b sdk \<Rightarrow> string \<Rightarrow> (string \<Rightarrow> string) \<Rightarrow> int \<Rightarrow> tk_msg \<Rightarrow> 'b tk_state \<Rightarrow> ('b, unit) tk_outcome" where
  "tk_handle env auth digest h (MsgCreateToken m) s = validated (validate_create_token env m) s (create_token digest h m s)"
| "tk_handle env auth digest h (MsgMintToken who k to amt) s = validated (validate_mint_token env who k to amt) s (mint_token auth who k to amt s)"
| "tk_handle env auth digest h (MsgBurnToken a k amt) s = validated (validate_burn_token env a k amt) s (burn_token a k amt s)"
| "tk_handle env auth digest h (MsgTransferToken a k to amt) s =
     validated (validate_transfer_token env a k to amt) s (transfer_token a k to amt s)"
| "tk_handle env auth digest h (MsgApproveToken a k sp amt) s = validated (validate_approve_token env a k sp amt) s (approve_token a k sp amt s)"
| "tk_handle env auth digest h (MsgTransferFrom sp k a to amt) s =
     validated (validate_transfer_from env sp a to amt) s (transfer_from sp k a to amt s)"
| "tk_handle env auth digest h (MsgPauseToken who k) s = validated (validate_pause env who k) s (pause_token auth who k s)"
| "tk_handle env auth digest h (MsgUnpauseToken who k) s = validated (validate_pause env who k) s (unpause_token auth who k s)"
| "tk_handle env auth digest h (MsgDelegatePower a k to amt) s =
     validated (validate_delegate_power env a k to amt) s (delegate_power a k to amt s)"
| "tk_handle env auth digest h (MsgUndelegatePower a k to amt) s =
     validated (validate_undelegate_power env a k to amt) s (undelegate_power a k to amt s)"
| "tk_handle env auth digest h (MsgWrapToken a k amt) s = validated (validate_wrap_token env a k amt) s (wrap_token env a k amt s)"
| "tk_handle env auth digest h (MsgUnwrapToken a d amt) s = validated (validate_unwrap_token env a d amt) s (unwrap_token env a d amt s)"
| "tk_handle env auth digest h (MsgCreateEmission m) s = validated (validate_create_emission env m) s (create_emission auth digest m s)"
| "tk_handle env auth digest h (MsgCancelEmission who k) s = validated (validate_cancel_emission env who k) s (cancel_emission auth who k s)"
| "tk_handle env auth digest h (MsgUpdateTkParams who po) s =
     validated (validate_tk_update_params env who) s (update_tk_params auth who po s)"

section \<open>Genesis\<close>

text \<open>
  The exported document.  A JSON object is an ordered store here: the import visits it in some order, and its
  entries have distinct keys.  Allowances and delegations have the two addresses joined by a slash.
\<close>

record token_entry =
  te_token :: token_def
  te_balances :: "(string, string) kv"
  te_allowances :: "(string, string) kv"

record delegation_entry =
  de_token :: string
  de_delegations :: "(string, string) kv"
  de_totals :: "(string, string) kv"

record tk_genesis =
  tkg_params :: "tk_params option"
  tkg_tokens :: "token_entry list"
  tkg_delegations :: "delegation_entry list"
  tkg_wraps :: "(string \<times> string) list"
  tkg_emissions :: "emission_period list"

text \<open>\<open>strings.SplitN(key, "/", 2)\<close> into exactly two parts.\<close>

definition split_pair :: "string \<Rightarrow> (string \<times> string) option" where
  "split_pair v = (case dropWhile (\<lambda>c. c \<noteq> CHR ''/'') v of [] \<Rightarrow> None | _ # r \<Rightarrow> Some (takeWhile (\<lambda>c. c \<noteq> CHR ''/'') v, r))"

definition import_amount :: "(int \<Rightarrow> 'b tk_state \<Rightarrow> 'b tk_state) \<Rightarrow> string \<Rightarrow> 'b tk_state \<Rightarrow> 'b tk_state" where
  "import_amount put v s = (case positive_int v of None \<Rightarrow> s | Some x \<Rightarrow> put x s)"

definition import_pair :: "(string \<Rightarrow> string \<Rightarrow> int \<Rightarrow> 'b tk_state \<Rightarrow> 'b tk_state) \<Rightarrow> string \<times> string \<Rightarrow> 'b tk_state \<Rightarrow> 'b tk_state" where
  "import_pair put e s = (case split_pair (fst e) of None \<Rightarrow> s | Some (a, b) \<Rightarrow> import_amount (put a b) (snd e) s)"

definition import_token :: "token_entry \<Rightarrow> 'b tk_state \<Rightarrow> 'b tk_state" where
  "import_token te s =
     (let k = td_id (te_token te);
          s = set_token (te_token te) s;
          s = fold (\<lambda>e. import_amount (set_balance k (fst e)) (snd e)) (te_balances te) s
      in fold (import_pair (set_allowance k)) (te_allowances te) s)"

definition import_delegations :: "delegation_entry \<Rightarrow> 'b tk_state \<Rightarrow> 'b tk_state" where
  "import_delegations de s =
     (let k = de_token de;
          s = fold (import_pair (set_delegation k)) (de_delegations de) s
      in fold (\<lambda>e. import_amount (set_delegator_total k (fst e)) (snd e)) (de_totals de) s)"

definition init_tk_genesis :: "tk_genesis \<Rightarrow> 'b tk_state \<Rightarrow> 'b tk_state" where
  "init_tk_genesis gs s =
     (let s = (case tkg_params gs of None \<Rightarrow> s | Some p \<Rightarrow> set_tk_params p s);
          s = fold import_token (tkg_tokens gs) s;
          s = fold import_delegations (tkg_delegations gs) s;
          s = fold (\<lambda>(k, d). set_wrap_record k d) (tkg_wraps gs) s
      in fold set_emission (tkg_emissions gs) s)"

definition default_tk_genesis :: tk_genesis where
  "default_tk_genesis = \<lparr>tkg_params = Some default_tk_params, tkg_tokens = [], tkg_delegations = [], tkg_wraps = [], tkg_emissions = []\<rparr>"

text \<open>\<open>Validate\<close> looks at the parameters only, and accepts any.\<close>

definition validate_tk_genesis :: "tk_genesis \<Rightarrow> bool" where
  "validate_tk_genesis gs \<longleftrightarrow> tkg_params gs \<noteq> None"

definition balances_of_token :: "'b tk_state \<Rightarrow> string \<Rightarrow> (string, string) kv" where
  "balances_of_token s k = List.map_filter (\<lambda>((t, owner), v). case big_set_string v of
     Some x \<Rightarrow> if t = k then Some (owner, big_string x) else None | None \<Rightarrow> None) (tk_balances s)"

definition joined_of_token :: "(string \<times> string \<times> string, string) kv \<Rightarrow> (int \<Rightarrow> bool) \<Rightarrow> string \<Rightarrow> (string, string) kv" where
  "joined_of_token m keep k = List.map_filter (\<lambda>((t, a, b), v). case big_set_string v of
     Some x \<Rightarrow> if t = k \<and> keep x then Some (a @ ''/'' @ b, big_string x) else None | None \<Rightarrow> None) m"

definition totals_of_token :: "'b tk_state \<Rightarrow> string \<Rightarrow> (string, string) kv" where
  "totals_of_token s k = List.map_filter (\<lambda>((t, a), v). case big_set_string v of
     Some x \<Rightarrow> if t = k then Some (a, big_string x) else None | None \<Rightarrow> None) (tk_totals s)"

definition export_tk_genesis :: "'b tk_state \<Rightarrow> tk_genesis" where
  "export_tk_genesis s = \<lparr>tkg_params = Some (get_tk_params s),
     tkg_tokens = map (\<lambda>(_, t). \<lparr>te_token = t, te_balances = balances_of_token s (td_id t),
       te_allowances = joined_of_token (tk_allowances s) ((<) 0) (td_id t)\<rparr>) (tk_tokens s),
     tkg_delegations = List.map_filter (\<lambda>(_, t). let ds = joined_of_token (tk_delegations s) (\<lambda>_. True) (td_id t)
       in if ds \<noteq> [] then Some \<lparr>de_token = td_id t, de_delegations = ds, de_totals = totals_of_token s (td_id t)\<rparr> else None) (tk_tokens s),
     tkg_wraps = tk_wraps s,
     tkg_emissions = map snd (tk_emissions s)\<rparr>"

section \<open>Queries\<close>

definition query_token_config :: "'b tk_state \<Rightarrow> string \<Rightarrow> tk_error + token_def" where
  "query_token_config s k = of_option TokenNotFound (get_token s k)"

definition query_token_by_symbol :: "'b tk_state \<Rightarrow> string \<Rightarrow> tk_error + token_def" where
  "query_token_by_symbol s symbol = of_option TokenNotFound (get_token_by_symbol s symbol)"

definition query_tokens :: "'b tk_state \<Rightarrow> token_def list" where
  "query_tokens s = map snd (tk_tokens s)"

definition query_token_balance :: "'b tk_state \<Rightarrow> string \<Rightarrow> string \<Rightarrow> string" where
  "query_token_balance s k a = big_string (get_balance s k a)"

text \<open>Total, maximum, minted and burned.\<close>

definition query_total_supply :: "'b tk_state \<Rightarrow> string \<Rightarrow> tk_error + string \<times> string \<times> string \<times> string" where
  "query_total_supply s k = bind_sum (of_option TokenNotFound (get_token s k)) (\<lambda>t. Inr (td_total t, td_max t, td_total t, ''0''))"

definition query_allowance :: "'b tk_state \<Rightarrow> string \<Rightarrow> string \<Rightarrow> string \<Rightarrow> string" where
  "query_allowance s k owner spender = big_string (get_allowance s k owner spender)"

text \<open>Delegated away, received, and left.\<close>

definition query_delegated_power :: "'b tk_state \<Rightarrow> string \<Rightarrow> string \<Rightarrow> string \<times> string \<times> string" where
  "query_delegated_power s k a =
     (big_string (get_delegator_total s k a),
      big_string (sum_list (map (\<lambda>((t, _, to), v). if t = k \<and> to = a then int_or_zero v else 0) (tk_delegations s))),
      big_string (get_undelegated_balance s k a))"

text \<open>The denom, and a wrapped total that is always zero.\<close>

definition query_wrapped_token :: "'b tk_state \<Rightarrow> string \<Rightarrow> tk_error + string \<times> string" where
  "query_wrapped_token s k = (if get_wrapped_denom s k = [] then Inl WrapRecordNotFound else Inr (get_wrapped_denom s k, ''0''))"

definition query_wrapped_tokens :: "'b tk_state \<Rightarrow> (string \<times> string \<times> string) list" where
  "query_wrapped_tokens s = map (\<lambda>(k, d). (k, d, ''0'')) (tk_wraps s)"

definition query_emission :: "'b tk_state \<Rightarrow> string \<Rightarrow> tk_error + emission_period" where
  "query_emission s k = of_option EmissionNotFound (get_emission s k)"

definition query_emissions :: "bool \<Rightarrow> 'b tk_state \<Rightarrow> emission_period list" where
  "query_emissions active_only s = filter (\<lambda>e. active_only \<longrightarrow> em_active e) (map snd (tk_emissions s))"

end
