(* ===== verification/Tokens_Inv.thy ===== *)
theory Tokens_Inv
  imports Tokens_Msgs Capped_Mint
begin

text \<open>
  The invariant of x/tokens: the registry of tokens and symbols, balances with their owner index, delegated power,
  wrap records, and the supply of every token, held or wrapped.  Each part is a predicate on the fields it
  speaks of, with a lemma for every write to them.
\<close>

section \<open>Amounts\<close>

definition kv_esum :: "('k \<Rightarrow> bool) \<Rightarrow> ('k, string) kv \<Rightarrow> int" where
  "kv_esum P m = sum_list (map (\<lambda>(k, v). if P k then int_or_zero v else 0) m)"

definition amounts_ok :: "('k::linorder, string) kv \<Rightarrow> bool" where
  "amounts_ok m \<longleftrightarrow> kv_ok m \<and> (\<forall>k v. kv_get m k = Some v \<longrightarrow> (\<exists>x > 0. v = big_string x))"

lemma amount_at_put [simp]: "amount_at (put_amount k x m) j = (if j = k then x else amount_at m j)"
  by (simp add: amount_at_def put_amount_def)

lemma amount_at_Nil [simp]: "amount_at [] k = 0"
  by (simp add: amount_at_def)

lemma amounts_ok_Nil [simp]: "amounts_ok []"
  by (simp add: amounts_ok_def)

lemma amounts_ok_put [simp, intro]: "amounts_ok m \<Longrightarrow> 0 \<le> x \<Longrightarrow> amounts_ok (put_amount k x m)"
  by (auto simp: amounts_ok_def put_amount_def split: if_splits)

lemma amounts_ok_store: "amounts_ok m \<Longrightarrow> kv_ok m"
  by (simp add: amounts_ok_def)

lemma amounts_nonneg: "amounts_ok m \<Longrightarrow> 0 \<le> amount_at m k"
  by (fastforce simp: amounts_ok_def amount_at_def split: option.split)

lemma amounts_entry: "amounts_ok m \<Longrightarrow> kv_get m k = (if amount_at m k = 0 then None else Some (big_string (amount_at m k)))"
  by (fastforce simp: amounts_ok_def amount_at_def split: option.splits)

lemma kv_esum_Nil [simp]: "kv_esum P [] = 0"
  by (simp add: kv_esum_def)

lemma kv_esum_del:
  "distinct (map fst m) \<Longrightarrow> kv_esum P (kv_del k m) = kv_esum P m - (if P k then amount_at m k else 0)"
proof (induction m)
  case (Cons e m)
  obtain j v where e: "e = (j, v)" by (cases e)
  show ?case
  proof (cases "j = k")
    case True
    with Cons.prems e have "kv_del k m = m" by (auto intro: kv_sum_filter_other)
    with True show ?thesis by (simp add: e kv_del_def kv_esum_def amount_at_def)
  next
    case False
    with Cons show ?thesis by (simp add: e kv_del_def kv_esum_def amount_at_def)
  qed
qed (simp add: kv_del_def)

lemma kv_esum_set_del: "kv_esum P (kv_set k v m) = kv_esum P (kv_del k m) + (if P k then int_or_zero v else 0)"
  using kv_sum_split [of "\<lambda>(k, v). if P k then int_or_zero v else 0" "\<lambda>e. fst e < k" "kv_del k m"]
  by (simp add: kv_esum_def kv_set_def Let_def)

lemma kv_esum_put:
  "kv_ok m \<Longrightarrow> kv_esum P (put_amount k x m) = kv_esum P m + (if P k then x - amount_at m k else 0)"
  by (simp add: put_amount_def kv_esum_set_del kv_esum_del kv_ok_distinct)

lemma kv_esum_nonneg:
  assumes "amounts_ok m"
  shows "0 \<le> kv_esum P m"
proof -
  have "0 \<le> int_or_zero v" if "(k, v) \<in> set m" for k v
    using that assms kv_get_mem [of m k v] by (fastforce simp: amounts_ok_def)
  then show ?thesis unfolding kv_esum_def by (intro sum_list_nonneg) auto
qed

lemma kv_esum_member:
  assumes "amounts_ok m" "P k"
  shows "amount_at m k \<le> kv_esum P m"
proof -
  have "kv_esum P (put_amount k 0 m) = kv_esum P m - amount_at m k"
    using assms by (simp add: kv_esum_put amounts_ok_store)
  moreover have "0 \<le> kv_esum P (put_amount k 0 m)" using assms by (intro kv_esum_nonneg) simp
  ultimately show ?thesis by simp
qed

section \<open>The parts\<close>

definition held :: "string \<Rightarrow> (string \<times> string, string) kv \<Rightarrow> int" where
  "held k = kv_esum (\<lambda>(t, _). t = k)"

definition delegated :: "string \<Rightarrow> string \<Rightarrow> (string \<times> string \<times> string, string) kv \<Rightarrow> int" where
  "delegated k a = kv_esum (\<lambda>(t, d, _). t = k \<and> d = a)"

definition registry_ok :: "(string, token_def) kv \<Rightarrow> (string, string) kv \<Rightarrow> bool" where
  "registry_ok ts sy \<longleftrightarrow> kv_ok ts \<and> kv_ok sy \<and>
     (\<forall>k t. kv_get ts k = Some t \<longrightarrow> td_id t = k \<and> kv_get sy (td_symbol t) = Some k) \<and>
     (\<forall>x k. kv_get sy x = Some k \<longrightarrow> (\<exists>t. kv_get ts k = Some t \<and> td_symbol t = x))"

definition balances_ok :: "(string \<times> string, string) kv \<Rightarrow> (string \<times> string, unit) kv \<Rightarrow> bool" where
  "balances_ok bs ix \<longleftrightarrow> amounts_ok bs \<and> kv_ok ix \<and> (\<forall>k a. kv_get ix (a, k) \<noteq> None \<longleftrightarrow> amount_at bs (k, a) \<noteq> 0)"

definition power_ok ::
  "(string \<times> string, string) kv \<Rightarrow> (string \<times> string \<times> string, string) kv \<Rightarrow> (string \<times> string, string) kv \<Rightarrow> bool" where
  "power_ok bs ds tot \<longleftrightarrow> amounts_ok ds \<and> amounts_ok tot \<and>
     (\<forall>k a. amount_at tot (k, a) = delegated k a ds \<and> delegated k a ds \<le> amount_at bs (k, a))"

definition wraps_ok :: "(string, token_def) kv \<Rightarrow> (string, string) kv \<Rightarrow> (string, string) kv \<Rightarrow> bool" where
  "wraps_ok ts ws us \<longleftrightarrow> kv_ok ws \<and> kv_ok us \<and>
     (\<forall>k d. kv_get ws k = Some d \<longrightarrow> d = wrapped_denom k \<and> kv_get ts k \<noteq> None) \<and>
     (\<forall>k d. kv_get us d = Some k \<longleftrightarrow> kv_get ws k = Some d)"

definition token_supply_ok :: "'b sdk \<Rightarrow> (string, token_def) kv \<Rightarrow> (string \<times> string, string) kv \<Rightarrow> 'b \<Rightarrow> bool" where
  "token_supply_ok env ts bs b \<longleftrightarrow> (\<forall>k. case kv_get ts k of
     None \<Rightarrow> held k bs = 0 \<and> bank_supply env b (wrapped_denom k) = 0
   | Some t \<Rightarrow> int_or_zero (td_total t) = held k bs + bank_supply env b (wrapped_denom k) \<and>
       (0 < int_or_zero (td_max t) \<longrightarrow> int_or_zero (td_total t) \<le> int_or_zero (td_max t)))"

definition emissions_ok :: "(string, emission_period) kv \<Rightarrow> bool" where
  "emissions_ok es \<longleftrightarrow> kv_ok es \<and> (\<forall>k e. kv_get es k = Some e \<longrightarrow> em_id e = k)"

definition tk_ok :: "'b sdk \<Rightarrow> 'b tk_state \<Rightarrow> bool" where
  "tk_ok env s \<longleftrightarrow> registry_ok (tk_tokens s) (tk_symbols s) \<and> balances_ok (tk_balances s) (tk_owner_index s) \<and>
     amounts_ok (tk_allowances s) \<and> power_ok (tk_balances s) (tk_delegations s) (tk_totals s) \<and>
     wraps_ok (tk_tokens s) (tk_wraps s) (tk_unwraps s) \<and> token_supply_ok env (tk_tokens s) (tk_balances s) (tk_bank s) \<and>
     emissions_ok (tk_emissions s)"

lemma tk_okD:
  assumes "tk_ok env s"
  shows "registry_ok (tk_tokens s) (tk_symbols s)" "balances_ok (tk_balances s) (tk_owner_index s)" "amounts_ok (tk_allowances s)"
    "power_ok (tk_balances s) (tk_delegations s) (tk_totals s)" "wraps_ok (tk_tokens s) (tk_wraps s) (tk_unwraps s)"
    "token_supply_ok env (tk_tokens s) (tk_balances s) (tk_bank s)" "emissions_ok (tk_emissions s)" "amounts_ok (tk_balances s)"
    "kv_ok (tk_balances s)"
  using assms unfolding tk_ok_def balances_ok_def amounts_ok_def by blast+

section \<open>Writes\<close>

lemma balances_ok_put:
  assumes "balances_ok bs ix" "0 \<le> x"
  shows "balances_ok (put_amount (k, a) x bs) (put_owner a k x ix)"
  using assms by (auto simp: balances_ok_def put_owner_def)

lemma held_put: "kv_ok bs \<Longrightarrow> held k (put_amount (j, a) x bs) = held k bs + (if j = k then x - amount_at bs (j, a) else 0)"
  by (simp add: held_def kv_esum_put)

lemma delegated_put:
  "kv_ok ds \<Longrightarrow> delegated k a (put_amount (j, d, e) x ds) = delegated k a ds + (if j = k \<and> d = a then x - amount_at ds (j, d, e) else 0)"
  by (simp add: delegated_def kv_esum_put)

lemma power_ok_balances:
  "power_ok bs ds tot \<Longrightarrow> (\<And>k a. amount_at tot (k, a) \<le> amount_at bs' (k, a)) \<Longrightarrow> power_ok bs' ds tot"
  by (auto simp: power_ok_def)

lemma power_ok_covered: "power_ok bs ds tot \<Longrightarrow> amount_at tot (k, a) \<le> amount_at bs (k, a)"
  by (simp add: power_ok_def)

lemma power_ok_delegate:
  assumes "power_ok bs ds tot" "0 \<le> x" "amount_at tot (k, a) + (x - amount_at ds (k, a, b)) \<le> amount_at bs (k, a)"
    "y = amount_at tot (k, a) + (x - amount_at ds (k, a, b))"
  shows "power_ok bs (put_amount (k, a, b) x ds) (put_amount (k, a) y tot)"
proof -
  note p = assms(1) [unfolded power_ok_def]
  have sum: "delegated k a ds = amount_at tot (k, a)" using p by metis
  have new: "delegated j c (put_amount (k, a, b) x ds) = (if j = k \<and> c = a then y else delegated j c ds)" for j c
    using p sum assms(4) by (auto simp: delegated_put amounts_ok_store)
  have ok: "amounts_ok (put_amount (k, a, b) x ds)" using p assms(2) by simp
  then have "0 \<le> y" using kv_esum_nonneg [OF ok, of "\<lambda>(t, d, _). t = k \<and> d = a"] new [of k a] by (simp add: delegated_def)
  with p ok new assms(3,4) show ?thesis unfolding power_ok_def by (auto simp: split: if_splits)
qed

lemma registry_okD:
  assumes "registry_ok ts sy"
  shows "kv_ok ts" "kv_ok sy" "kv_get ts k = Some t \<Longrightarrow> td_id t = k" "kv_get ts k = Some t \<Longrightarrow> kv_get sy (td_symbol t) = Some k"
    "kv_get sy x = Some k \<Longrightarrow> \<exists>t. kv_get ts k = Some t \<and> td_symbol t = x"
  using assms unfolding registry_ok_def by blast+

lemma registry_same:
  assumes r: "registry_ok ts sy" and t0: "kv_get ts k = Some t0" and t: "td_id t = k" "td_symbol t = td_symbol t0"
  shows "registry_ok (kv_set k t ts) (kv_set (td_symbol t) k sy)"
proof -
  note k = registry_okD(4) [OF r t0]
  have "kv_set (td_symbol t) k sy = sy"
    by (rule kv_ok_eqI) (use registry_okD(2) [OF r] k t(2) in auto)
  then show ?thesis using r t0 t k unfolding registry_ok_def by (auto split: if_splits) (metis option.inject)+
qed

lemma registry_new:
  assumes "registry_ok ts sy" "kv_get ts (td_id t) = None" "kv_get sy (td_symbol t) = None"
  shows "registry_ok (kv_set (td_id t) t ts) (kv_set (td_symbol t) (td_id t) sy)"
  using assms unfolding registry_ok_def by (auto split: if_splits) (metis option.distinct(1) option.inject)+

lemma wraps_ok_tokens: "wraps_ok ts ws us \<Longrightarrow> (\<And>k. kv_get ts k \<noteq> None \<Longrightarrow> kv_get ts' k \<noteq> None) \<Longrightarrow> wraps_ok ts' ws us"
  unfolding wraps_ok_def by blast

lemma wrapped_denom_inj [simp]: "wrapped_denom j = wrapped_denom k \<longleftrightarrow> j = k"
  by (simp add: wrapped_denom_def)

lemma wraps_ok_set:
  assumes "wraps_ok ts ws us" "kv_get ts k \<noteq> None"
  shows "wraps_ok ts (kv_set k (wrapped_denom k) ws) (kv_set (wrapped_denom k) k us)"
proof -
  have "kv_get us (wrapped_denom k) = Some j \<Longrightarrow> j = k" for j
    using assms(1) unfolding wraps_ok_def by (metis wrapped_denom_inj)
  with assms show ?thesis unfolding wraps_ok_def by (auto split: if_splits)
qed

lemma token_supply_ok_total:
  "token_supply_ok env ts bs b \<Longrightarrow> kv_get ts k = Some t \<Longrightarrow>
    int_or_zero (td_total t) = held k bs + bank_supply env b (wrapped_denom k) \<and>
    (0 < int_or_zero (td_max t) \<longrightarrow> int_or_zero (td_total t) \<le> int_or_zero (td_max t))"
  by (auto simp: token_supply_ok_def split: option.splits dest!: spec [where x = k])

lemma token_supply_ok_set:
  assumes "token_supply_ok env ts bs b"
    "\<And>j. j \<noteq> k \<Longrightarrow> held j bs' = held j bs" "\<And>j. j \<noteq> k \<Longrightarrow> bank_supply env b' (wrapped_denom j) = bank_supply env b (wrapped_denom j)"
    "int_or_zero (td_total t) = held k bs' + bank_supply env b' (wrapped_denom k)"
    "0 < int_or_zero (td_max t) \<longrightarrow> int_or_zero (td_total t) \<le> int_or_zero (td_max t)"
  shows "token_supply_ok env (kv_set k t ts) bs' b'"
  unfolding token_supply_ok_def
proof
  fix j
  show "case kv_get (kv_set k t ts) j of None \<Rightarrow> held j bs' = 0 \<and> bank_supply env b' (wrapped_denom j) = 0
    | Some t \<Rightarrow> int_or_zero (td_total t) = held j bs' + bank_supply env b' (wrapped_denom j) \<and>
       (0 < int_or_zero (td_max t) \<longrightarrow> int_or_zero (td_total t) \<le> int_or_zero (td_max t))"
    using assms spec [OF assms(1) [unfolded token_supply_ok_def], of j] by (cases "j = k") (auto split: option.splits)
qed

lemma token_supply_ok_move:
  assumes "token_supply_ok env ts bs b"
    "\<And>k. held k bs' + bank_supply env b' (wrapped_denom k) = held k bs + bank_supply env b (wrapped_denom k)"
    "\<And>k. kv_get ts k = None \<Longrightarrow> held k bs' = 0 \<and> bank_supply env b' (wrapped_denom k) = 0"
  shows "token_supply_ok env ts bs' b'"
  using assms unfolding token_supply_ok_def by (auto split: option.splits)

text \<open>A token without a record is held by nobody.\<close>

lemma unknown_not_held:
  assumes "token_supply_ok env ts bs b" "amounts_ok bs" "kv_get ts k = None"
  shows "amount_at bs (k, a) = 0"
proof -
  have "held k bs = 0" using spec [OF assms(1) [unfolded token_supply_ok_def], of k] assms(3) by simp
  moreover have "amount_at bs (k, a) \<le> held k bs" unfolding held_def by (rule kv_esum_member [OF assms(2)]) simp
  ultimately show ?thesis using amounts_nonneg [OF assms(2), of "(k, a)"] by simp
qed

end
