(* ===== verification/Tokens_Steps.thy ===== *)
theory Tokens_Steps
  imports Tokens_Inv
begin

text \<open>
  Every handler of x/tokens keeps the invariant, and so does the emission hook.  The steps are first the writes
  the handlers share (credit, move, replace a record, re-delegate), then the handlers one by one.
\<close>

section \<open>Shared writes\<close>

lemmas tk_writes = set_token_def set_balance_def set_allowance_def set_delegation_def set_delegator_total_def set_wrap_record_def
  set_emission_def tk_with_bank_def

lemmas tk_reads = get_token_def get_balance_def get_allowance_def get_delegation_def get_delegator_total_def get_emission_def

lemma validated_Done [outcome_simps]: "validated c s r = Done s' u \<longleftrightarrow> c \<and> (\<exists>a. r = Done s' a)"
  by (auto simp: validated_def discard_Done)

lemma set_wrapped_metadata_frame:
  obtains md where "set_wrapped_metadata t d s = s\<lparr>tk_metadata := md\<rparr>"
proof
  show "set_wrapped_metadata t d s = s\<lparr>tk_metadata := tk_metadata (set_wrapped_metadata t d s)\<rparr>"
    by (simp add: set_wrapped_metadata_def Let_def)
qed

lemma undelegated_covers:
  "tk_ok env s \<Longrightarrow> 0 < x \<Longrightarrow> \<not> get_undelegated_balance s k a < x \<Longrightarrow>
    amount_at (tk_totals s) (k, a) \<le> amount_at (tk_balances s) (k, a) - x \<and> 0 \<le> amount_at (tk_totals s) (k, a)"
  using amounts_nonneg [of "tk_totals s" "(k, a)"]
  by (auto simp: get_undelegated_balance_def tk_reads tk_ok_def power_ok_def max_def split: if_splits)

text \<open>A balance that stays above what is delegated.\<close>

lemma power_ok_put:
  assumes "power_ok bs ds tot" "amount_at tot (k, a) \<le> x"
  shows "power_ok (put_amount (k, a) x bs) ds tot"
  by (rule power_ok_balances [OF assms(1)]) (use assms power_ok_covered in auto)

lemma total_nonneg: "power_ok bs ds tot \<Longrightarrow> 0 \<le> amount_at tot k"
  by (simp add: power_ok_def amounts_nonneg)

text \<open>A token record whose identity stays.\<close>

definition same_token :: "token_def \<Rightarrow> token_def \<Rightarrow> bool" where
  "same_token t t' \<longleftrightarrow> td_id t' = td_id t \<and> td_symbol t' = td_symbol t \<and> td_max t' = td_max t"

lemma tk_ok_record:
  assumes ok: "tk_ok env s" and t: "get_token s k = Some t" and t': "same_token t t'" "td_total t' = td_total t"
  shows "tk_ok env (set_token t' s)"
proof -
  note d = tk_okD [OF ok]
  have k: "td_id t = k" using registry_okD(3) [OF d(1)] t by (simp add: get_token_def)
  have t0: "kv_get (tk_tokens s) k = Some t" using t by (simp add: get_token_def)
  have "token_supply_ok env (kv_set k t' (tk_tokens s)) (tk_balances s) (tk_bank s)"
    by (rule token_supply_ok_set [OF d(6)]) (use token_supply_ok_total [OF d(6) t0] t' in \<open>auto simp: same_token_def\<close>)
  moreover have "registry_ok (kv_set k t' (tk_tokens s)) (kv_set (td_symbol t') k (tk_symbols s))"
    by (rule registry_same [OF d(1) t0]) (use t' k in \<open>simp_all add: same_token_def\<close>)
  moreover have "wraps_ok (kv_set k t' (tk_tokens s)) (tk_wraps s) (tk_unwraps s)"
    by (rule wraps_ok_tokens [OF d(5)]) simp
  ultimately show ?thesis using d t' k by (simp add: tk_ok_def set_token_def same_token_def)
qed

text \<open>A balance and the total of its token change together.\<close>

lemma tk_ok_issue:
  assumes ok: "tk_ok env s" and t: "get_token s k = Some t" and x: "x = amount_at (tk_balances s) (k, a) + y"
    and cov: "amount_at (tk_totals s) (k, a) \<le> x"
    and new: "same_token t t'" "int_or_zero (td_total t') = int_or_zero (td_total t) + y"
    and lim: "0 < int_or_zero (td_max t) \<longrightarrow> int_or_zero (td_total t') \<le> int_or_zero (td_max t)"
  shows "tk_ok env (set_balance k a x (set_token t' s))"
proof -
  note d = tk_okD [OF ok]
  have k: "td_id t = k" using registry_okD(3) [OF d(1)] t by (simp add: get_token_def)
  have t0: "kv_get (tk_tokens s) k = Some t" using t by (simp add: get_token_def)
  have pos: "0 \<le> x" using cov total_nonneg [OF d(4)] order_trans by blast
  have "token_supply_ok env (kv_set k t' (tk_tokens s)) (put_amount (k, a) x (tk_balances s)) (tk_bank s)"
    by (rule token_supply_ok_set [OF d(6)])
      (use token_supply_ok_total [OF d(6) t0] new lim x in \<open>simp_all add: same_token_def held_put [OF d(9)]\<close>)
  moreover have "registry_ok (kv_set k t' (tk_tokens s)) (kv_set (td_symbol t') k (tk_symbols s))"
    by (rule registry_same [OF d(1) t0]) (use new k in \<open>simp_all add: same_token_def\<close>)
  moreover have "wraps_ok (kv_set k t' (tk_tokens s)) (tk_wraps s) (tk_unwraps s)"
    by (rule wraps_ok_tokens [OF d(5)]) simp
  ultimately show ?thesis using d new k balances_ok_put [OF d(2) pos, of k a] power_ok_put [OF d(4) cov]
    by (simp add: tk_ok_def tk_writes same_token_def)
qed

text \<open>Two balances of one token change and cancel out.\<close>

lemma tk_ok_move:
  assumes ok: "tk_ok env s" and x: "0 < x" "\<not> get_undelegated_balance s k a < x" and ne: "a \<noteq> b"
  shows "tk_ok env (move_balance k a b x s)"
proof -
  note d = tk_okD [OF ok]
  let ?bs = "put_amount (k, a) (amount_at (tk_balances s) (k, a) - x) (tk_balances s)"
  note c = undelegated_covers [OF ok x]
  have pos: "0 \<le> amount_at (tk_balances s) (k, a) - x" "0 \<le> amount_at (tk_balances s) (k, b) + x"
    using c x amounts_nonneg [OF d(8), of "(k, b)"] by simp_all
  have p: "power_ok ?bs (tk_delegations s) (tk_totals s)" using power_ok_put [OF d(4)] c by simp
  have "amount_at (tk_totals s) (k, b) \<le> amount_at (tk_balances s) (k, b) + x"
    using power_ok_covered [OF d(4), of k b] x by simp
  note p2 = power_ok_put [OF p this]
  note b2 = balances_ok_put [OF balances_ok_put [OF d(2) pos(1), of k a] pos(2), of k b]
  have ok1: "kv_ok ?bs" using amounts_ok_store [OF amounts_ok_put [OF d(8) pos(1)]] .
  have "held j (put_amount (k, b) (amount_at (tk_balances s) (k, b) + x) ?bs) = held j (tk_balances s)" for j
    using ne by (simp add: held_put [OF ok1] held_put [OF d(9)])
  then have "token_supply_ok env (tk_tokens s) (put_amount (k, b) (amount_at (tk_balances s) (k, b) + x) ?bs) (tk_bank s)"
    using d(6) by (simp add: token_supply_ok_def cong: option.case_cong)
  with d p2 b2 ne show ?thesis by (simp add: tk_ok_def move_balance_def Let_def tk_writes tk_reads)
qed

lemma tk_ok_allowance:
  assumes "tk_ok env s" "0 \<le> x"
  shows "tk_ok env (set_allowance k a b x s)"
  using assms by (auto simp: tk_ok_def set_allowance_def)

lemma undelegated_allowance [simp]:
  "get_undelegated_balance (set_allowance k a b x s) j c = get_undelegated_balance s j c"
  by (simp add: get_undelegated_balance_def tk_reads set_allowance_def)

lemma tk_ok_redelegate:
  assumes ok: "tk_ok env s" and x: "0 \<le> x" and y: "y = amount_at (tk_totals s) (k, a) + (x - amount_at (tk_delegations s) (k, a, b))"
    and cov: "y \<le> amount_at (tk_balances s) (k, a)"
  shows "tk_ok env (set_delegator_total k a y (set_delegation k a b x s))"
proof -
  note d = tk_okD [OF ok]
  show ?thesis using d power_ok_delegate [OF d(4) x, of k a b y] y cov by (simp add: tk_ok_def tk_writes)
qed

section \<open>Handlers on balances\<close>

lemma create_token_kept:
  assumes ok: "tk_ok env s" and v: "validate_create_token env m" and run: "create_token digest h m s = Done s' k"
    and fresh: "\<And>t. get_token s (generate_token_id digest (mk_creator m) (mk_symbol m) h) = Some t \<Longrightarrow> td_symbol t = mk_symbol m"
  shows "tk_ok env s'"
proof -
  note d = tk_okD [OF ok]
  from run obtain initial lim t where
      amt: "optional_amount (mk_initial m) = Some initial" "optional_amount (mk_max m) = Some lim" "\<not> (0 < lim \<and> lim < initial)"
    and sy: "get_token_by_symbol s (mk_symbol m) = None"
    and k: "k = generate_token_id digest (mk_creator m) (mk_symbol m) h"
    and new: "t = new_token k h m initial lim"
    and s': "s' = (if 0 < initial then set_balance k (mk_creator m) initial (set_token t s) else set_token t s)"
    by (auto simp: create_token_def outcome_simps Let_def)
  have t: "td_id t = k" "td_symbol t = mk_symbol m" "td_total t = big_string initial" "td_max t = big_string lim"
    by (simp_all add: new new_token_def Let_def)
  have nn: "0 \<le> initial" "0 \<le> lim" using v amt(1,2)
    by (auto simp: validate_create_token_def optional_amount_def nonneg_amount_def split: if_splits option.splits)
  have nosym: "kv_get (tk_symbols s) (mk_symbol m) = None"
    using sy registry_okD(5) [OF d(1)] by (fastforce simp: get_token_by_symbol_def get_token_def split: option.splits)
  have nokey: "kv_get (tk_tokens s) k = None"
  proof (rule ccontr)
    assume "kv_get (tk_tokens s) k \<noteq> None"
    then obtain t where "kv_get (tk_tokens s) k = Some t" by blast
    with fresh [of t] nosym registry_okD(4) [OF d(1), of k t] show False by (simp add: k get_token_def)
  qed
  have zero: "amount_at (tk_balances s) (k, a) = 0" for a by (rule unknown_not_held [OF d(6,8) nokey])
  have none: "held k (tk_balances s) = 0" "bank_supply env (tk_bank s) (wrapped_denom k) = 0"
    using spec [OF d(6) [unfolded token_supply_ok_def], of k] nokey by simp_all
  let ?bs = "if 0 < initial then put_amount (k, mk_creator m) initial (tk_balances s) else tk_balances s"
  have "token_supply_ok env (kv_set k t (tk_tokens s)) ?bs (tk_bank s)"
    by (rule token_supply_ok_set [OF d(6)]) (use amt(3) nn none zero t in \<open>auto simp: held_put [OF d(9)]\<close>)
  moreover have "registry_ok (kv_set k t (tk_tokens s)) (kv_set (td_symbol t) k (tk_symbols s))"
    using registry_new [OF d(1), of t] nokey nosym t by simp
  moreover have "wraps_ok (kv_set k t (tk_tokens s)) (tk_wraps s) (tk_unwraps s)"
    by (rule wraps_ok_tokens [OF d(5)]) simp
  moreover have "power_ok (put_amount (k, mk_creator m) initial (tk_balances s)) (tk_delegations s) (tk_totals s)"
    by (rule power_ok_put [OF d(4)]) (use power_ok_covered [OF d(4), of k "mk_creator m"] zero nn in simp)
  ultimately show ?thesis using d t balances_ok_put [OF d(2) nn(1), of k "mk_creator m"]
    by (auto simp: tk_ok_def s' tk_writes)
qed

lemma mint_token_kept:
  assumes ok: "tk_ok env s" and run: "mint_token auth who k a amt s = Done s' u"
  shows "tk_ok env s'"
proof -
  note d = tk_okD [OF ok]
  from run obtain t x where t: "get_token s k = Some t" and x: "0 < x"
    and lim: "\<not> (0 < int_or_zero (td_max t) \<and> int_or_zero (td_max t) < int_or_zero (td_total t) + x)"
    and s': "s' = set_balance k a (amount_at (tk_balances s) (k, a) + x) (set_token (t\<lparr>td_total := big_string (int_or_zero (td_total t) + x)\<rparr>) s)"
    by (auto simp: mint_token_def outcome_simps Let_def positive_int_Some tk_reads tk_writes split: option.splits)
  show ?thesis unfolding s'
    by (rule tk_ok_issue [OF ok t]) (use x lim power_ok_covered [OF d(4), of k a] in \<open>auto simp: same_token_def\<close>)
qed

lemma burn_token_kept:
  assumes ok: "tk_ok env s" and run: "burn_token a k amt s = Done s' u"
  shows "tk_ok env s'"
proof -
  note d = tk_okD [OF ok]
  from run obtain t x where t: "get_token s k = Some t" and x: "0 < x" "\<not> get_undelegated_balance s k a < x"
    and s': "s' = set_balance k a (amount_at (tk_balances s) (k, a) + (- x)) (set_token (t\<lparr>td_total := big_string (int_or_zero (td_total t) - x)\<rparr>) s)"
    by (auto simp: burn_token_def outcome_simps Let_def positive_int_Some tk_reads tk_writes split: option.splits)
  have "kv_get (tk_tokens s) k = Some t" using t by (simp add: get_token_def)
  from token_supply_ok_total [OF d(6) this] undelegated_covers [OF ok x] x show ?thesis unfolding s'
    by (intro tk_ok_issue [OF ok t]) (auto simp: same_token_def)
qed

lemma transfer_token_kept: "tk_ok env s \<Longrightarrow> transfer_token a k b amt s = Done s' u \<Longrightarrow> tk_ok env s'"
  by (auto simp: transfer_token_def outcome_simps positive_int_Some tk_ok_move split: option.splits)

lemma approve_token_kept: "tk_ok env s \<Longrightarrow> approve_token a k b amt s = Done s' u \<Longrightarrow> tk_ok env s'"
  by (auto simp: approve_token_def outcome_simps nonneg_amount_def not_less tk_ok_allowance split: option.splits if_splits)

lemma transfer_from_kept: "tk_ok env s \<Longrightarrow> transfer_from sp k a b amt s = Done s' u \<Longrightarrow> tk_ok env s'"
  by (auto simp: transfer_from_def outcome_simps positive_int_Some Let_def not_less split: option.splits
      intro!: tk_ok_move tk_ok_allowance)

lemma pause_tokens_kept:
  "tk_ok env s \<Longrightarrow> pause_token auth who k s = Done s' u \<Longrightarrow> tk_ok env s'"
  "tk_ok env s \<Longrightarrow> unpause_token auth who k s = Done s' u \<Longrightarrow> tk_ok env s'"
  by (auto simp: pause_token_def unpause_token_def outcome_simps same_token_def split: option.splits intro!: tk_ok_record)

section \<open>Delegation\<close>

lemma delegate_power_kept:
  assumes ok: "tk_ok env s" and run: "delegate_power a k b amt s = Done s' u"
  shows "tk_ok env s'"
proof -
  note d = tk_okD [OF ok]
  from run obtain x where "nonneg_amount amt = Some x"
    by (auto simp: delegate_power_def outcome_simps split: option.splits)
  then have x: "0 \<le> x" by (auto simp: nonneg_amount_def split: option.splits if_splits)
  let ?c = "get_delegation s k a b" and ?t = "get_delegator_total s k a"
  have down: "?t - (?c - x) = ?t + (x - ?c)" by simp
  consider "s' = s" | y where "y = ?t + (x - ?c)" "x \<le> ?c \<or> \<not> get_undelegated_balance s k a < x - ?c \<and> ?c < x"
    "s' = set_delegator_total k a y (set_delegation k a b x s)"
  proof (cases "?c < x \<or> x < ?c")
    case True
    with run \<open>nonneg_amount amt = Some x\<close> that(2) show thesis
      by (auto simp: delegate_power_def Let_def down split: option.splits if_splits)
  next
    case False
    with run \<open>nonneg_amount amt = Some x\<close> that(1) show thesis
      by (auto simp: delegate_power_def Let_def split: option.splits if_splits)
  qed
  then show ?thesis
  proof cases
    case 2
    have "y \<le> amount_at (tk_balances s) (k, a)"
      using 2(1,2) power_ok_covered [OF d(4), of k a] undelegated_covers [OF ok, of "x - ?c" k a] by (auto simp: tk_reads)
    with 2 x show ?thesis using tk_ok_redelegate [OF ok x] by (auto simp: tk_reads)
  qed (simp add: ok)
qed

lemma undelegate_power_kept:
  assumes ok: "tk_ok env s" and run: "undelegate_power a k b amt s = Done s' u"
  shows "tk_ok env s'"
proof -
  note d = tk_okD [OF ok]
  from run obtain x where x: "0 < x" "\<not> get_delegation s k a b < x"
    and s': "s' = set_delegator_total k a (amount_at (tk_totals s) (k, a) - x) (set_delegation k a b (get_delegation s k a b - x) s)"
    by (auto simp: undelegate_power_def outcome_simps Let_def positive_int_Some tk_reads tk_writes split: option.splits)
  show ?thesis unfolding s' using x power_ok_covered [OF d(4), of k a]
    by (intro tk_ok_redelegate [OF ok]) (auto simp: tk_reads)
qed

end
