(* ===== verification/Tokens_Chain.thy ===== *)
theory Tokens_Chain
  imports Tokens_Steps Chain
begin

text \<open>
  x/tokens on a chain: wrapping, the emission hook, and the invariant of every reachable state (interpretation
  \<open>tk\<close> of \<open>chain_module\<close>).
\<close>

section \<open>Wrapping\<close>

text \<open>The coins of one mint or burn, through the module account.\<close>

lemma minted_to:
  assumes "sdk_laws env" "new_coins env [(d, x)] = Some cs" "bank_mint env m cs b = Done b1 u" "bank_to_account env m a cs b1 = Done b2 v"
  shows "bank_supply env b2 e = bank_supply env b e + (if e = d then x else 0)"
    "bank_balance env b2 c e = bank_balance env b c e + (if c = a \<and> e = d then x else 0)"
  using bank_mint_issued [OF assms(1,3)] bank_to_account_moved [OF assms(1,4)] single_coin_amount [OF assms(2)]
  by (auto simp: bank_effects)

lemma burnt_from:
  assumes "sdk_laws env" "new_coins env [(d, x)] = Some cs" "bank_to_module env a m cs b = Done b1 u" "bank_burn env m cs b1 = Done b2 v"
  shows "bank_supply env b2 e = bank_supply env b e - (if e = d then x else 0)"
    "bank_balance env b2 c e = bank_balance env b c e - (if c = a \<and> e = d then x else 0)"
  using bank_to_module_moved [OF assms(1,3)] bank_burn_issued [OF assms(1,4)] single_coin_amount [OF assms(2)]
  by (auto simp: bank_effects)

lemma mint_wrapped_effect:
  assumes "sdk_laws env" "mint_wrapped env a d x s = Done s' u"
  obtains acc b where "acc_address env a = Some acc" "s' = tk_with_bank b s"
    "\<And>e. bank_supply env b e = bank_supply env (tk_bank s) e + (if e = d then x else 0)"
    "\<And>c e. bank_balance env b c e = bank_balance env (tk_bank s) c e + (if c = acc \<and> e = d then x else 0)"
proof -
  from assms(2) obtain acc cs b1 b where "acc_address env a = Some acc" "s' = tk_with_bank b s"
    "new_coins env [(d, x)] = Some cs" "bank_mint env tokens_module cs (tk_bank s) = Done b1 ()"
    "bank_to_account env tokens_module acc cs b1 = Done b ()"
    by (auto simp: mint_wrapped_def outcome_simps tk_with_bank_def)
  with minted_to [OF assms(1) this(3-5)] that show thesis by blast
qed

lemma burn_wrapped_effect:
  assumes "sdk_laws env" "burn_wrapped env a d x s = Done s' u"
  obtains acc b where "acc_address env a = Some acc" "x \<le> bank_balance env (tk_bank s) acc d" "s' = tk_with_bank b s"
    "\<And>e. bank_supply env b e = bank_supply env (tk_bank s) e - (if e = d then x else 0)"
    "\<And>c e. bank_balance env b c e = bank_balance env (tk_bank s) c e - (if c = acc \<and> e = d then x else 0)"
proof -
  from assms(2) obtain acc cs b1 b where "acc_address env a = Some acc" "x \<le> bank_balance env (tk_bank s) acc d" "s' = tk_with_bank b s"
    "new_coins env [(d, x)] = Some cs" "bank_to_module env acc tokens_module cs (tk_bank s) = Done b1 ()"
    "bank_burn env tokens_module cs b1 = Done b ()"
    by (auto simp: burn_wrapped_def outcome_simps tk_with_bank_def)
  with burnt_from [OF assms(1) this(4-6)] that show thesis by blast
qed

lemma wrap_token_effect:
  assumes "sdk_laws env" "wrap_token env a k amt s = Done s' d"
  obtains t x acc b md where "get_token s k = Some t" "\<not> td_paused t" "has_feature tf_wrappable t" "positive_int amt = Some x" "0 < x"
    "\<not> get_undelegated_balance s k a < x" "acc_address env a = Some acc" "d = wrapped_denom k"
    "\<And>e. bank_supply env b e = bank_supply env (tk_bank s) e + (if e = d then x else 0)"
    "\<And>c e. bank_balance env b c e = bank_balance env (tk_bank s) c e + (if c = acc \<and> e = d then x else 0)"
    "s' = tk_with_bank b ((set_wrap_record k d (set_balance k a (amount_at (tk_balances s) (k, a) - x) s))\<lparr>tk_metadata := md\<rparr>)"
proof -
  let ?s = "\<lambda>t x. set_wrapped_metadata t (wrapped_denom k) (set_wrap_record k (wrapped_denom k) (set_balance k a (get_balance s k a - x) s))"
  from assms(2) obtain t x where
      t: "get_token s k = Some t" "\<not> td_paused t" "has_feature tf_wrappable t" "positive_int amt = Some x" "\<not> get_undelegated_balance s k a < x"
    and d: "d = wrapped_denom k" and run: "mint_wrapped env a d x (?s t x) = Done s' ()"
    by (auto simp: wrap_token_def Let_def outcome_simps split: option.splits)
  obtain md where md: "?s t x = (set_wrap_record k d (set_balance k a (get_balance s k a - x) s))\<lparr>tk_metadata := md\<rparr>"
    using set_wrapped_metadata_frame d by metis
  have bank: "tk_bank (?s t x) = tk_bank s" unfolding md by (simp add: tk_writes)
  obtain acc b where b: "acc_address env a = Some acc" "s' = tk_with_bank b (?s t x)"
    "\<And>e. bank_supply env b e = bank_supply env (tk_bank s) e + (if e = d then x else 0)"
    "\<And>c e. bank_balance env b c e = bank_balance env (tk_bank s) c e + (if c = acc \<and> e = d then x else 0)"
    by (rule mint_wrapped_effect [OF assms(1) run]) (simp add: bank)
  have "0 < x" using t(4) by (simp add: positive_int_Some)
  from that [OF t(1-4) this t(5) b(1) d b(3,4)] b(2) [unfolded md] show thesis by (simp add: tk_reads)
qed

lemma unwrap_token_effect:
  assumes "sdk_laws env" "unwrap_token env a d amt s = Done s' k"
  obtains t x acc b where "kv_get (tk_unwraps s) d = Some k" "get_token s k = Some t" "\<not> td_paused t" "positive_int amt = Some x" "0 < x"
    "acc_address env a = Some acc" "x \<le> bank_balance env (tk_bank s) acc d"
    "\<And>e. bank_supply env b e = bank_supply env (tk_bank s) e - (if e = d then x else 0)"
    "\<And>c e. bank_balance env b c e = bank_balance env (tk_bank s) c e - (if c = acc \<and> e = d then x else 0)"
    "s' = set_balance k a (amount_at (tk_balances s) (k, a) + x) (tk_with_bank b s)"
proof -
  from assms(2) obtain t x s1 where
      t: "get_token_id_by_wrapped s d = k" "k \<noteq> []" "get_token s k = Some t" "\<not> td_paused t" "positive_int amt = Some x"
    and run: "burn_wrapped env a d x s = Done s1 ()" and s': "s' = set_balance k a (get_balance s1 k a + x) s1"
    by (auto simp: unwrap_token_def Let_def outcome_simps split: option.splits)
  obtain acc b where b: "acc_address env a = Some acc" "x \<le> bank_balance env (tk_bank s) acc d" "s1 = tk_with_bank b s"
    "\<And>e. bank_supply env b e = bank_supply env (tk_bank s) e - (if e = d then x else 0)"
    "\<And>c e. bank_balance env b c e = bank_balance env (tk_bank s) c e - (if c = acc \<and> e = d then x else 0)"
    by (rule burn_wrapped_effect [OF assms(1) run]) (rule that)
  have "0 < x" "kv_get (tk_unwraps s) d = Some k" using t(1,2,5)
    by (auto simp: positive_int_Some get_token_id_by_wrapped_def split: option.splits)
  from that [OF this(2) t(3-5) this(1) b(1,2) b(4,5)] show thesis by (simp add: s' b(3) tk_reads tk_with_bank_def)
qed

lemma wrap_token_kept:
  assumes "sdk_laws env" and ok: "tk_ok env s" and run: "wrap_token env a k amt s = Done s' d"
  shows "tk_ok env s'"
proof -
  note o = tk_okD [OF ok]
  from wrap_token_effect [OF assms(1) run] obtain t x b md where t: "get_token s k = Some t"
    and x: "0 < x" "\<not> get_undelegated_balance s k a < x" and d: "d = wrapped_denom k"
    and b: "\<And>e. bank_supply env b e = bank_supply env (tk_bank s) e + (if e = d then x else 0)"
    and s': "s' = tk_with_bank b ((set_wrap_record k d (set_balance k a (amount_at (tk_balances s) (k, a) - x) s))\<lparr>tk_metadata := md\<rparr>)"
    by metis
  note c = undelegated_covers [OF ok x]
  let ?y = "amount_at (tk_balances s) (k, a) - x"
  have pos: "0 \<le> ?y" and cov: "amount_at (tk_totals s) (k, a) \<le> ?y" using c by simp_all
  have k: "kv_get (tk_tokens s) k \<noteq> None" using t by (simp add: get_token_def)
  have "token_supply_ok env (tk_tokens s) (put_amount (k, a) ?y (tk_balances s)) b"
  proof (rule token_supply_ok_move [OF o(6)])
    show "held j (put_amount (k, a) ?y (tk_balances s)) + bank_supply env b (wrapped_denom j) =
        held j (tk_balances s) + bank_supply env (tk_bank s) (wrapped_denom j)" for j
      by (simp add: held_put [OF o(9)] b d)
    show "held j (put_amount (k, a) ?y (tk_balances s)) = 0 \<and> bank_supply env b (wrapped_denom j) = 0"
      if "kv_get (tk_tokens s) j = None" for j
      using that k spec [OF o(6) [unfolded token_supply_ok_def], of j] by (auto simp: held_put [OF o(9)] b d)
  qed
  with o wraps_ok_set [OF o(5) k] balances_ok_put [OF o(2) pos, of k a] power_ok_put [OF o(4) cov] show ?thesis
    by (simp add: tk_ok_def s' tk_writes d)
qed

lemma unwrap_token_kept:
  assumes "sdk_laws env" and ok: "tk_ok env s" and run: "unwrap_token env a d amt s = Done s' k"
  shows "tk_ok env s'"
proof -
  note o = tk_okD [OF ok]
  from unwrap_token_effect [OF assms(1) run] obtain t x b where u: "kv_get (tk_unwraps s) d = Some k" and t: "get_token s k = Some t"
    and x: "0 < x" and b: "\<And>e. bank_supply env b e = bank_supply env (tk_bank s) e - (if e = d then x else 0)"
    and s': "s' = set_balance k a (amount_at (tk_balances s) (k, a) + x) (tk_with_bank b s)"
    by metis
  have d: "d = wrapped_denom k" and k: "kv_get (tk_tokens s) k \<noteq> None" using o(5) u t by (auto simp: wraps_ok_def get_token_def)
  let ?y = "amount_at (tk_balances s) (k, a) + x"
  have cov: "amount_at (tk_totals s) (k, a) \<le> ?y" and pos: "0 \<le> ?y"
    using power_ok_covered [OF o(4), of k a] amounts_nonneg [OF o(8), of "(k, a)"] x by simp_all
  have "token_supply_ok env (tk_tokens s) (put_amount (k, a) ?y (tk_balances s)) b"
  proof (rule token_supply_ok_move [OF o(6)])
    show "held j (put_amount (k, a) ?y (tk_balances s)) + bank_supply env b (wrapped_denom j) =
        held j (tk_balances s) + bank_supply env (tk_bank s) (wrapped_denom j)" for j
      by (simp add: held_put [OF o(9)] b d)
    show "held j (put_amount (k, a) ?y (tk_balances s)) = 0 \<and> bank_supply env b (wrapped_denom j) = 0"
      if "kv_get (tk_tokens s) j = None" for j
      using that k spec [OF o(6) [unfolded token_supply_ok_def], of j] by (auto simp: held_put [OF o(9)] b d)
  qed
  with o balances_ok_put [OF o(2) pos, of k a] power_ok_put [OF o(4) cov] show ?thesis
    by (simp add: tk_ok_def s' tk_writes)
qed

section \<open>The emission hook\<close>

lemma mint_capped_effect:
  assumes "sdk_laws env" "mint_capped_uzrn env x s = Done s' y"
  obtains v where "s' = s\<lparr>tk_vr := v\<rparr>" "y = max 0 (min x (max_supply_uzrn - bank_supply env (tk_bank s) uzrn))"
    "bank_supply env (vr_bank v) uzrn = bank_supply env (tk_bank s) uzrn + y"
    "\<And>d. d \<noteq> uzrn \<Longrightarrow> bank_supply env (vr_bank v) d = bank_supply env (tk_bank s) d"
    "\<And>a d. bank_balance env (vr_bank v) a d = bank_balance env (tk_bank s) a d + (if a = module_address env tokens_module \<and> d = uzrn then y else 0)"
proof (cases "x \<le> 0")
  case True
  with assms that [of "tk_vr s"] show thesis by (auto simp: mint_capped_uzrn_def)
next
  case False
  with assms(2) obtain v where "mint_with_cap env tokens_module x (tk_vr s) = Done v y" "s' = s\<lparr>tk_vr := v\<rparr>"
    by (auto simp: mint_capped_uzrn_def split: outcome.splits vr_error.splits)
  with mint_with_cap_effect [OF assms(1) this(1)] that show thesis by blast
qed

lemma emit_period_effect:
  assumes "sdk_laws env" "emit_period env x a e s = Done s' u"
  obtains v y where "0 < y" "y \<le> x" "s' = s\<lparr>tk_vr := v, tk_emissions := kv_set (em_id e) (emission_paid y e) (tk_emissions s)\<rparr>"
    "bank_supply env (vr_bank v) uzrn = bank_supply env (tk_bank s) uzrn + y" "bank_supply env (vr_bank v) uzrn \<le> max_supply_uzrn"
    "\<And>d. d \<noteq> uzrn \<Longrightarrow> bank_supply env (vr_bank v) d = bank_supply env (tk_bank s) d"
    "\<And>c. bank_balance env (vr_bank v) c uzrn = bank_balance env (tk_bank s) c uzrn + (if c = a then y else 0)"
proof -
  from assms(2) obtain s1 y cs b where m: "mint_capped_uzrn env x s = Done s1 y" and y: "0 < y"
    and cs: "new_coins env [(uzrn, y)] = Some cs" "bank_to_account env tokens_module a cs (tk_bank s1) = Done b ()"
    and s': "s' = set_emission (emission_paid y e) (tk_with_bank b s1)"
    by (auto simp: emit_period_def outcome_simps not_le)
  from mint_capped_effect [OF assms(1) m] obtain v where v: "s1 = s\<lparr>tk_vr := v\<rparr>"
      "y = max 0 (min x (max_supply_uzrn - bank_supply env (tk_bank s) uzrn))"
      "bank_supply env (vr_bank v) uzrn = bank_supply env (tk_bank s) uzrn + y"
      "\<And>d. d \<noteq> uzrn \<Longrightarrow> bank_supply env (vr_bank v) d = bank_supply env (tk_bank s) d"
      "\<And>a d. bank_balance env (vr_bank v) a d = bank_balance env (tk_bank s) a d + (if a = module_address env tokens_module \<and> d = uzrn then y else 0)"
    by metis
  have "moved env (module_address env tokens_module) a cs (vr_bank v) b"
    using bank_to_account_moved [OF assms(1) cs(2)] v(1) by simp
  then have b: "bank_supply env b d = bank_supply env (vr_bank v) d"
    "bank_balance env b c uzrn = bank_balance env (tk_bank s) c uzrn + (if c = a then y else 0)" for c d
    using v(5) single_coin_amount [OF cs(1)] by (auto simp: bank_effects)
  show thesis
    by (rule that [of y "v\<lparr>vr_bank := b\<rparr>"]) (use y v b in \<open>auto simp: s' emission_paid_def tk_writes\<close>)
qed

text \<open>
  One block of one period: at most its amount is added, in its window only, and it ends with the window.  The
  supply grows by what is recorded.
\<close>

definition emitted_of :: "emission_period \<Rightarrow> int" where
  "emitted_of e = int_or_zero (em_emitted e)"

definition emission_advances :: "u64 \<Rightarrow> emission_period \<Rightarrow> emission_period \<Rightarrow> bool" where
  "emission_advances now e e' \<longleftrightarrow>
     e'\<lparr>em_active := em_active e, em_emitted := em_emitted e\<rparr> = e \<and> (em_active e' \<longleftrightarrow> em_active e \<and> now \<le> em_end e) \<and>
     emitted_of e \<le> emitted_of e' \<and>
     emitted_of e' \<le> emitted_of e + (if em_active e \<and> em_start e \<le> now \<and> now \<le> em_end e then max 0 (int_or_zero (em_per_block e)) else 0)"

definition same_books :: "'b tk_state \<Rightarrow> 'b tk_state \<Rightarrow> bool" where
  "same_books s s' \<longleftrightarrow> (\<exists>v es. s' = s\<lparr>tk_vr := v, tk_emissions := es\<rparr>)"

definition emits :: "'b sdk \<Rightarrow> u64 \<Rightarrow> string set \<Rightarrow> 'b tk_state \<Rightarrow> 'b tk_state \<Rightarrow> bool" where
  "emits env now ks s s' \<longleftrightarrow> same_books s s' \<and> emissions_ok (tk_emissions s') \<and>
     (\<forall>k. if k \<in> ks then rel_option (emission_advances now) (kv_get (tk_emissions s) k) (kv_get (tk_emissions s') k)
          else kv_get (tk_emissions s') k = kv_get (tk_emissions s) k) \<and>
     bank_supply env (tk_bank s') uzrn - bank_supply env (tk_bank s) uzrn =
       kv_sum emitted_of (tk_emissions s') - kv_sum emitted_of (tk_emissions s) \<and>
     (\<forall>d. d \<noteq> uzrn \<longrightarrow> bank_supply env (tk_bank s') d = bank_supply env (tk_bank s) d) \<and>
     bank_supply env (tk_bank s') uzrn \<le> max max_supply_uzrn (bank_supply env (tk_bank s) uzrn)"

lemma kv_set_same: "kv_ok m \<Longrightarrow> kv_get m k = Some v \<Longrightarrow> kv_set k v m = m"
  by (rule kv_ok_eqI) auto

lemma same_books_write [simp]: "same_books s (s\<lparr>tk_vr := v, tk_emissions := es\<rparr>)"
  unfolding same_books_def by blast

lemma same_books_refl [simp]: "same_books s s"
  using same_books_write [of s, where v = "tk_vr s" and es = "tk_emissions s"] by simp

lemma same_books_trans: "same_books s s1 \<Longrightarrow> same_books s1 s2 \<Longrightarrow> same_books s s2"
  unfolding same_books_def
proof (elim exE)
  fix v es w fs
  assume "s1 = s\<lparr>tk_vr := v, tk_emissions := es\<rparr>" "s2 = s1\<lparr>tk_vr := w, tk_emissions := fs\<rparr>"
  then have "s2 = s\<lparr>tk_vr := w, tk_emissions := fs\<rparr>" by simp
  then show "\<exists>v es. s2 = s\<lparr>tk_vr := v, tk_emissions := es\<rparr>" by blast
qed

lemma emits_at:
  "emits env now ks s s' \<Longrightarrow> k \<in> ks \<Longrightarrow> rel_option (emission_advances now) (kv_get (tk_emissions s) k) (kv_get (tk_emissions s') k)"
  "emits env now ks s s' \<Longrightarrow> k \<notin> ks \<Longrightarrow> kv_get (tk_emissions s') k = kv_get (tk_emissions s) k"
  "emits env now ks s s' \<Longrightarrow> emissions_ok (tk_emissions s')"
  by (auto simp: emits_def dest: spec [of _ k])

lemma emits_write:
  assumes ok: "emissions_ok (tk_emissions s)" and e: "kv_get (tk_emissions s) k = Some e"
    and e': "em_id e' = k" "emission_advances now e e'"
    and s': "s' = s\<lparr>tk_vr := v, tk_emissions := kv_set k e' (tk_emissions s)\<rparr>"
    and b: "bank_supply env (vr_bank v) uzrn = bank_supply env (tk_bank s) uzrn + (emitted_of e' - emitted_of e)"
      "\<And>d. d \<noteq> uzrn \<Longrightarrow> bank_supply env (vr_bank v) d = bank_supply env (tk_bank s) d"
      "bank_supply env (vr_bank v) uzrn \<le> max max_supply_uzrn (bank_supply env (tk_bank s) uzrn)"
  shows "emits env now {k} s s'"
  using assms by (simp add: emits_def emissions_ok_def kv_sum_set)

lemma process_emission_emits:
  assumes laws: "sdk_laws env" and ok: "emissions_ok (tk_emissions s)" and e: "kv_get (tk_emissions s) (em_id e) = Some e"
    and run: "process_emission env now e s = Done s' u"
  shows "emits env now {em_id e} s s'"
proof -
  have same: "kv_set (em_id e) e (tk_emissions s) = tk_emissions s"
    using kv_set_same [OF _ e] ok by (auto simp: emissions_ok_def)
  consider "s' = s" "\<not> em_active e \<or> now \<le> em_end e"
    | "s' = set_emission (e\<lparr>em_active := False\<rparr>) s" "em_end e < now"
    | x a where "em_active e" "em_start e \<le> now" "now \<le> em_end e" "positive_int (em_per_block e) = Some x" "emit_period env x a e s = Done s' ()"
    using run by (fastforce simp: process_emission_def not_less split: if_splits option.splits outcome.splits)
  then show ?thesis
  proof cases
    case 1
    then show ?thesis
      by (intro emits_write [OF ok e, of e now s' "tk_vr s"]) (auto simp: same emission_advances_def)
  next
    case 2
    then show ?thesis
      by (intro emits_write [OF ok e, of "e\<lparr>em_active := False\<rparr>" now s' "tk_vr s"])
        (auto simp: tk_writes emission_advances_def emitted_of_def)
  next
    case 3
    obtain v y where y: "0 < y" "y \<le> x" "s' = s\<lparr>tk_vr := v, tk_emissions := kv_set (em_id e) (emission_paid y e) (tk_emissions s)\<rparr>"
      "bank_supply env (vr_bank v) uzrn = bank_supply env (tk_bank s) uzrn + y" "bank_supply env (vr_bank v) uzrn \<le> max_supply_uzrn"
      "\<And>d. d \<noteq> uzrn \<Longrightarrow> bank_supply env (vr_bank v) d = bank_supply env (tk_bank s) d"
      by (rule emit_period_effect [OF laws 3(5)]) (rule that)
    have "int_or_zero (em_per_block e) = x" using 3(4) by (simp add: positive_int_Some int_or_zero_Some)
    with y 3 show ?thesis
      by (intro emits_write [OF ok e, of "emission_paid y e" now s' v]) (auto simp: emission_paid_def emission_advances_def emitted_of_def)
  qed
qed

lemma emits_trans:
  assumes "emits env now ks s s1" "emits env now js s1 s2" "ks \<inter> js = {}"
  shows "emits env now (ks \<union> js) s s2"
proof -
  have "rel_option (emission_advances now) (kv_get (tk_emissions s) k) (kv_get (tk_emissions s2) k)" if "k \<in> ks \<union> js" for k
    using that assms(3) emits_at(1,2) [OF assms(1), of k] emits_at(1,2) [OF assms(2), of k] by (cases "k \<in> ks") (auto simp: disjoint_iff)
  moreover have "kv_get (tk_emissions s2) k = kv_get (tk_emissions s) k" if "k \<notin> ks \<union> js" for k
    using that emits_at(2) [OF assms(1), of k] emits_at(2) [OF assms(2), of k] by auto
  moreover have "same_books s s2" using assms(1,2) unfolding emits_def by (blast intro: same_books_trans)
  moreover have "bank_supply env (tk_bank s2) uzrn \<le> max max_supply_uzrn (bank_supply env (tk_bank s) uzrn)"
    using assms(1,2) unfolding emits_def by linarith
  ultimately show ?thesis using assms(1,2) unfolding emits_def by simp
qed

lemma emits_refl: "emissions_ok (tk_emissions s) \<Longrightarrow> emits env now {} s s"
  by (simp add: emits_def)

lemma process_emissions_emits:
  assumes "sdk_laws env" "emissions_ok (tk_emissions s)" "distinct (map fst es)"
    "\<And>k e. (k, e) \<in> set es \<Longrightarrow> kv_get (tk_emissions s) k = Some e \<and> em_id e = k" "process_emissions env now es s = Done s' u"
  shows "emits env now (fst ` set es) s s'"
  using assms
proof (induction es arbitrary: s)
  case Nil
  then show ?case by (simp add: emits_refl)
next
  case (Cons x es)
  obtain k e where x: "x = (k, e)" by (cases x)
  have e: "kv_get (tk_emissions s) k = Some e" "em_id e = k" using Cons.prems(4) [of k e] by (simp_all add: x)
  from Cons.prems(5) obtain s1 where s1: "process_emission env now e s = Done s1 ()" "process_emissions env now es s1 = Done s' u"
    by (auto simp: x outcome_simps)
  have one: "emits env now {k} s s1" using process_emission_emits [OF Cons.prems(1,2) _ s1(1)] e by simp
  have rest: "kv_get (tk_emissions s1) j = Some f \<and> em_id f = j" if "(j, f) \<in> set es" for j f
  proof -
    have "j \<noteq> k" using Cons.prems(3) that by (force simp: x)
    then have "kv_get (tk_emissions s1) j = kv_get (tk_emissions s) j" using emits_at(2) [OF one, of j] by simp
    with Cons.prems(4) [of j f] that show ?thesis by simp
  qed
  have "emits env now (fst ` set es) s1 s'"
    by (rule Cons.IH [OF Cons.prems(1) _ _ rest s1(2)]) (use emits_at(3) [OF one] Cons.prems(3) in \<open>simp_all add: x\<close>)
  from emits_trans [OF one this] Cons.prems(3) show ?case by (simp add: x)
qed

lemma tk_begin_block_emits:
  assumes "sdk_laws env" "emissions_ok (tk_emissions s)" "tk_begin_block env h s = Done s' u"
  shows "emits env (to_u64 h) (if emission_epoch_blocks (get_tk_params s) = 0 then {} else fst ` set (tk_emissions s)) s s'"
proof (cases "emission_epoch_blocks (get_tk_params s) = 0")
  case True
  with assms show ?thesis by (simp add: tk_begin_block_def emits_refl)
next
  case False
  have "kv_get (tk_emissions s) k = Some e \<and> em_id e = k" if "(k, e) \<in> set (tk_emissions s)" for k e
    using assms(2) that kv_get_mem [of "tk_emissions s" k e] by (auto simp: emissions_ok_def)
  from process_emissions_emits [OF assms(1,2) _ this] False assms(2,3) show ?thesis
    by (simp add: tk_begin_block_def emissions_ok_def kv_ok_distinct)
qed

lemma wrapped_not_native: "wrapped_denom k \<noteq> uzrn"
  by (simp add: wrapped_denom_def wrapped_denom_prefix_def uzrn_def)

lemma emits_kept:
  assumes "tk_ok env s" "emits env now ks s s'"
  shows "tk_ok env s'"
proof -
  obtain v es where s': "s' = s\<lparr>tk_vr := v, tk_emissions := es\<rparr>" and es: "emissions_ok (tk_emissions s')"
    and b: "bank_supply env (tk_bank s') (wrapped_denom k) = bank_supply env (tk_bank s) (wrapped_denom k)" for k
    using assms(2) wrapped_not_native unfolding emits_def same_books_def by blast
  with assms(1) show ?thesis by (simp add: tk_ok_def token_supply_ok_def cong: option.case_cong)
qed

section \<open>Emission periods and parameters\<close>

lemma tk_ok_emission: "tk_ok env s \<Longrightarrow> tk_ok env (set_emission e s)"
  by (auto simp: tk_ok_def set_emission_def emissions_ok_def)

lemma emission_handlers_kept:
  "tk_ok env s \<Longrightarrow> create_emission auth digest m s = Done s' k \<Longrightarrow> tk_ok env s'"
  "tk_ok env s \<Longrightarrow> cancel_emission auth who k' s = Done s' u \<Longrightarrow> tk_ok env s'"
  "tk_ok env s \<Longrightarrow> update_tk_params auth who po s = Done s' u \<Longrightarrow> tk_ok env s'"
proof -
  show "tk_ok env s \<Longrightarrow> create_emission auth digest m s = Done s' k \<Longrightarrow> tk_ok env s'"
    by (auto simp: create_emission_def outcome_simps Let_def intro: tk_ok_emission)
  show "tk_ok env s \<Longrightarrow> cancel_emission auth who k' s = Done s' u \<Longrightarrow> tk_ok env s'"
    by (auto simp: cancel_emission_def outcome_simps split: option.splits intro: tk_ok_emission)
  show "tk_ok env s \<Longrightarrow> update_tk_params auth who po s = Done s' u \<Longrightarrow> tk_ok env s'"
    by (auto simp: update_tk_params_def tk_ok_def set_tk_params_def split: if_splits option.splits)
qed

section \<open>On a chain\<close>

text \<open>
  A stored token under the id a new token would get carries the same symbol: the ids are digests of the creator, the
  symbol and the height, and the digest does not collide.
\<close>

definition tk_admissible :: "(string \<Rightarrow> string) \<Rightarrow> 'b tk_state \<Rightarrow> tk_msg \<Rightarrow> bool" where
  "tk_admissible digest s m \<longleftrightarrow> (\<forall>c h t. m = MsgCreateToken c \<longrightarrow>
     get_token s (generate_token_id digest (mk_creator c) (mk_symbol c) h) = Some t \<longrightarrow> td_symbol t = mk_symbol c)"

text \<open>A chain that starts without tokens; the rest of it leaves the supply of wrapped tokens alone.\<close>

definition tk_fresh :: "'b sdk \<Rightarrow> 'b tk_state \<Rightarrow> bool" where
  "tk_fresh env s \<longleftrightarrow> tk_tokens s = [] \<and> tk_balances s = [] \<and> tk_allowances s = [] \<and> tk_owner_index s = [] \<and> tk_symbols s = [] \<and>
     tk_delegations s = [] \<and> tk_totals s = [] \<and> tk_wraps s = [] \<and> tk_unwraps s = [] \<and> tk_emissions s = [] \<and>
     (\<forall>k. bank_supply env (tk_bank s) (wrapped_denom k) = 0)"

definition tk_init :: "'b sdk \<Rightarrow> int \<Rightarrow> 'b tk_state \<Rightarrow> bool" where
  "tk_init env h s \<longleftrightarrow> sdk_laws env \<and> (\<exists>gs s0. tk_fresh env s0 \<and> validate_tk_genesis gs \<and>
     tkg_tokens gs = [] \<and> tkg_delegations gs = [] \<and> tkg_wraps gs = [] \<and> s = init_tk_genesis gs s0)"

definition tk_others :: "'b sdk \<Rightarrow> 'b tk_state \<Rightarrow> 'b tk_state \<Rightarrow> bool" where
  "tk_others env s s' \<longleftrightarrow> (\<exists>v md. s' = s\<lparr>tk_vr := v, tk_metadata := md\<rparr> \<and>
     (\<forall>k. bank_supply env (vr_bank v) (wrapped_denom k) = bank_supply env (tk_bank s) (wrapped_denom k)))"

lemma tk_fresh_ok: "tk_fresh env s \<Longrightarrow> tk_ok env s"
  by (simp add: tk_fresh_def tk_ok_def registry_ok_def balances_ok_def power_ok_def wraps_ok_def token_supply_ok_def emissions_ok_def
      held_def delegated_def)

lemma tk_init_ok:
  assumes "tk_init env h s"
  shows "tk_ok env s"
proof -
  from assms obtain gs s0 where "tk_fresh env s0" and s: "s = init_tk_genesis gs s0"
    and gs: "tkg_tokens gs = []" "tkg_delegations gs = []" "tkg_wraps gs = []" unfolding tk_init_def by blast
  have "tk_ok env (case tkg_params gs of None \<Rightarrow> s0 | Some p \<Rightarrow> set_tk_params p s0)"
    using tk_fresh_ok [OF \<open>tk_fresh env s0\<close>] by (auto simp: tk_ok_def set_tk_params_def split: option.split)
  moreover have "tk_ok env s1 \<Longrightarrow> tk_ok env (fold set_emission es s1)" for es and s1
    by (induction es arbitrary: s1) (simp_all add: tk_ok_emission)
  ultimately show ?thesis by (simp add: s init_tk_genesis_def Let_def gs)
qed

lemma tk_others_ok:
  assumes "tk_ok env s" "tk_others env s s'"
  shows "tk_ok env s'"
proof -
  from assms(2) obtain v md where s': "s' = s\<lparr>tk_vr := v, tk_metadata := md\<rparr>"
    and b: "\<And>k. bank_supply env (vr_bank v) (wrapped_denom k) = bank_supply env (tk_bank s) (wrapped_denom k)"
    unfolding tk_others_def by blast
  with assms(1) show ?thesis by (simp add: tk_ok_def token_supply_ok_def cong: option.case_cong)
qed

lemma tk_handle_ok:
  assumes "sdk_laws env" "tk_ok env s" "tk_admissible digest s m" "tk_handle env auth digest h m s = Done s' u"
  shows "tk_ok env s'"
  using assms(4)
proof (cases m)
  case (MsgCreateToken c)
  with assms(4) obtain k where "validate_create_token env c" "create_token digest h c s = Done s' k"
    by (auto simp: validated_Done)
  then show ?thesis by (rule create_token_kept [OF assms(2)]) (use assms(3) MsgCreateToken in \<open>auto simp: tk_admissible_def\<close>)
qed (auto simp: validated_Done intro: mint_token_kept [OF assms(2)] burn_token_kept [OF assms(2)]
    transfer_token_kept [OF assms(2)] approve_token_kept [OF assms(2)] transfer_from_kept [OF assms(2)] pause_tokens_kept [OF assms(2)]
    delegate_power_kept [OF assms(2)] undelegate_power_kept [OF assms(2)] wrap_token_kept [OF assms(1,2)]
    unwrap_token_kept [OF assms(1,2)] emission_handlers_kept [OF assms(2)])

interpretation tk: chain_module "tk_init env" "tk_handle env auth digest" "tk_admissible digest" "tk_begin_block env" "tk_others env"
    "\<lambda>h s. sdk_laws env \<and> tk_ok env s"
  for env :: "'b sdk" and auth digest
proof unfold_locales
  fix h and s s' :: "'b tk_state" and m u
  show "tk_init env h s \<Longrightarrow> sdk_laws env \<and> tk_ok env s" using tk_init_ok [of env h s] by (simp add: tk_init_def)
  show "sdk_laws env \<and> tk_ok env s \<Longrightarrow> tk_admissible digest s m \<Longrightarrow> tk_handle env auth digest h m s = Done s' u \<Longrightarrow>
      sdk_laws env \<and> tk_ok env s'"
    using tk_handle_ok by blast
  show "sdk_laws env \<and> tk_ok env s \<Longrightarrow> tk_begin_block env (h + 1) s = Done s' u \<Longrightarrow> sdk_laws env \<and> tk_ok env s'"
    using tk_begin_block_emits [of env s "h + 1" s' u] emits_kept [of env s] tk_okD(7) [of env s] by blast
  show "sdk_laws env \<and> tk_ok env s \<Longrightarrow> tk_others env s s' \<Longrightarrow> sdk_laws env \<and> tk_ok env s'" using tk_others_ok by blast
qed

abbreviation tk_reachable :: "'b sdk \<Rightarrow> string \<Rightarrow> (string \<Rightarrow> string) \<Rightarrow> int \<Rightarrow> 'b tk_state \<Rightarrow> bool" where
  "tk_reachable env auth digest \<equiv>
     chain_reachable (tk_init env) (tk_handle env auth digest) (tk_admissible digest) (tk_begin_block env) (tk_others env)"

end
