(* ===== verification/Tokens_Claims.thy ===== *)
theory Tokens_Claims
  imports Tokens_Chain
begin

text \<open>
  What x/tokens promises: the supply of every token is backed by balances and wrapped coins, delegated power is
  covered, balances shrink by the hand of their owner or an approved spender only, wrapping is reversible, and
  emission mints what it records and never past the cap.
\<close>

section \<open>A chain with one token\<close>

definition tok_open :: "ledger tk_state" where
  "tok_open = \<lparr>tk_params_record = Some \<lparr>emission_epoch_blocks = 1, default_fee_bps = ''0''\<rparr>, tk_tokens = [], tk_balances = [],
     tk_allowances = [], tk_owner_index = [], tk_symbols = [], tk_delegations = [], tk_totals = [], tk_wraps = [], tk_unwraps = [],
     tk_emissions = [], tk_metadata = [], tk_vr = wit_state\<rparr>"

definition tok_id :: string where
  "tok_id = ''ZRN.token.id.v1:zrn1c:TOK:7''"

definition tok_create :: msg_create_token where
  "tok_create = \<lparr>mk_creator = ''zrn1c'', mk_name = ''Token'', mk_symbol = ''TOK'', mk_decimals = 6, mk_initial = ''100'', mk_max = ''1000'',
     mk_features = Some \<lparr>tf_mintable = True, tf_burnable = True, tf_pausable = True, tf_wrappable = True\<rparr>\<rparr>"

definition tok_emission :: msg_create_emission where
  "tok_emission = \<lparr>mz_authority = ''zrn1gov'', mz_start = 8, mz_end = 9, mz_per_block = ''25'', mz_recipient = ''zrn1c''\<rparr>"

definition tok_msgs :: "tk_msg list" where
  "tok_msgs = [MsgDelegatePower ''zrn1c'' tok_id ''zrn1d'' ''10'', MsgApproveToken ''zrn1c'' tok_id ''zrn1s'' ''20'',
     MsgWrapToken ''zrn1c'' tok_id ''40'', MsgCreateEmission tok_emission]"

definition tok_run :: "tk_msg list \<Rightarrow> ledger tk_state \<Rightarrow> ledger tk_state" where
  "tok_run ms s = fold (deliver (tk_handle ledger_sdk ''zrn1gov'' (\<lambda>v. v) 7)) ms s"

definition tok_state :: "ledger tk_state" where
  "tok_state = tok_run tok_msgs (tok_run [MsgCreateToken tok_create] tok_open)"

lemma tok_open_init: "tk_init ledger_sdk 7 tok_open"
proof -
  have none: "kv_get (lg_supply wit_bank) (wrapped_denom k) = None" for k
    by (simp add: wit_bank_def wrapped_denom_def wrapped_denom_prefix_def uzrn_def)
  have "bank_supply ledger_sdk (tk_bank tok_open) (wrapped_denom k) = 0" for k
    using none [of k] by (simp add: tok_open_def wit_state_def ledger_sdk_def ledger_supply_def)
  then have "tk_fresh ledger_sdk tok_open" by (simp add: tk_fresh_def tok_open_def)
  moreover have "tok_open = init_tk_genesis (default_tk_genesis\<lparr>tkg_params := tk_params_record tok_open\<rparr>) tok_open"
    by (simp add: init_tk_genesis_def default_tk_genesis_def set_tk_params_def tok_open_def)
  ultimately show ?thesis unfolding tk_init_def
    by (intro conjI ledger_laws exI [of _ "default_tk_genesis\<lparr>tkg_params := tk_params_record tok_open\<rparr>"] exI [of _ tok_open])
      (simp_all add: default_tk_genesis_def validate_tk_genesis_def tok_open_def)
qed

lemma tok_run_reachable:
  assumes "tk_reachable ledger_sdk ''zrn1gov'' (\<lambda>v. v) 7 s" "list_all (\<lambda>m. \<forall>c. m \<noteq> MsgCreateToken c) ms"
  shows "tk_reachable ledger_sdk ''zrn1gov'' (\<lambda>v. v) 7 (tok_run ms s)"
  using assms
proof (induction ms arbitrary: s)
  case (Cons m ms)
  have "tk_admissible (\<lambda>v. v) s m" using Cons.prems(2) by (simp add: tk_admissible_def)
  note step = chain_reachable.message [OF Cons.prems(1) this]
  show ?case using Cons.IH [OF step] Cons.prems(2) by (simp add: tok_run_def)
qed (simp add: tok_run_def)

lemma tok_reachable: "tk_reachable ledger_sdk ''zrn1gov'' (\<lambda>v. v) 7 tok_state"
proof -
  have "tk_reachable ledger_sdk ''zrn1gov'' (\<lambda>v. v) 7 tok_open" by (rule chain_reachable.start) (simp_all add: tok_open_init)
  then have "tk_reachable ledger_sdk ''zrn1gov'' (\<lambda>v. v) 7 (tok_run [MsgCreateToken tok_create] tok_open)"
    unfolding tok_run_def fold_simps id_apply
    by (rule chain_reachable.message) (simp add: tk_admissible_def tok_open_def get_token_def)
  then show ?thesis unfolding tok_state_def by (rule tok_run_reachable) (simp add: tok_msgs_def)
qed

lemma tok_values:
  "get_token tok_state tok_id = Some (new_token tok_id 7 tok_create 100 1000)" "get_balance tok_state tok_id ''zrn1c'' = 60"
  "get_delegator_total tok_state tok_id ''zrn1c'' = 10" "get_allowance tok_state tok_id ''zrn1c'' ''zrn1s'' = 20"
  by code_simp+

section \<open>Supply and delegation\<close>

text \<open>
  C9: in every reachable state the recorded total of a token is the sum of all balances plus the wrapped coins in
  circulation at the bank, within the maximum where one is set; no balance is negative, the owner index lists exactly the
  owners, and the symbol leads to the token.
\<close>

theorem tk_supply_backed:
  assumes "tk_reachable env auth digest h s" "get_token s k = Some t"
  shows "int_or_zero (td_total t) = held k (tk_balances s) + bank_supply env (tk_bank s) (wrapped_denom k) \<and>
    (0 < int_or_zero (td_max t) \<longrightarrow> int_or_zero (td_total t) \<le> int_or_zero (td_max t)) \<and> get_token_by_symbol s (td_symbol t) = Some t \<and>
    (\<forall>a. 0 \<le> get_balance s k a \<and> (kv_get (tk_owner_index s) (a, k) \<noteq> None \<longleftrightarrow> 0 < get_balance s k a))"
proof -
  have ok: "tk_ok env s" using tk.reachable_inv [OF assms(1)] ..
  note d = tk_okD [OF ok]
  have t: "kv_get (tk_tokens s) k = Some t" using assms(2) by (simp add: get_token_def)
  have "0 \<le> get_balance s k a \<and> (kv_get (tk_owner_index s) (a, k) \<noteq> None \<longleftrightarrow> 0 < get_balance s k a)" for a
    using d(2) amounts_nonneg [OF d(8), of "(k, a)"] unfolding balances_ok_def get_balance_def by (metis order_le_less order_less_irrefl)
  moreover have "get_token_by_symbol s (td_symbol t) = Some t" using registry_okD(4) [OF d(1) t] assms(2) by (simp add: get_token_by_symbol_def)
  ultimately show ?thesis using token_supply_ok_total [OF d(6) t] by blast
qed

theorem tk_supply_backed_witness:
  "100 = held tok_id (tk_balances tok_state) + bank_supply ledger_sdk (tk_bank tok_state) (wrapped_denom tok_id)"
proof -
  have "int_or_zero (td_total (new_token tok_id 7 tok_create 100 1000)) = 100" by (simp add: new_token_def Let_def)
  with tk_supply_backed [OF tok_reachable tok_values(1)] show ?thesis by presburger
qed

text \<open>
  C10: in every reachable state the recorded power an account has delegated is the sum of its delegations, none of them is
  negative, and its balance covers them; what is left is the difference.
\<close>

theorem tk_delegations_covered:
  assumes "tk_reachable env auth digest h s"
  shows "get_delegator_total s k a = delegated k a (tk_delegations s) \<and> 0 \<le> get_delegation s k a b \<and>
    get_delegation s k a b \<le> get_delegator_total s k a \<and> get_delegator_total s k a \<le> get_balance s k a \<and>
    get_undelegated_balance s k a = get_balance s k a - delegated k a (tk_delegations s)"
proof -
  have ok: "tk_ok env s" using tk.reachable_inv [OF assms(1)] ..
  note p = tk_okD(4) [OF ok, unfolded power_ok_def]
  have "get_delegation s k a b \<le> delegated k a (tk_delegations s)"
    unfolding delegated_def get_delegation_def by (rule kv_esum_member) (use p in simp_all)
  with p amounts_nonneg [of "tk_delegations s" "(k, a, b)"] show ?thesis
    by (simp add: tk_reads get_undelegated_balance_def)
qed

theorem tk_delegations_covered_witness: "10 \<le> get_balance tok_state tok_id ''zrn1c'' \<and> delegated tok_id ''zrn1c'' (tk_delegations tok_state) = 10"
  using tk_delegations_covered [OF tok_reachable, of tok_id "''zrn1c''" "''zrn1d''"] tok_values(3) by simp

section \<open>Who spends\<close>

lemma balances_move:
  "get_balance (move_balance k a b x s) j c = get_balance s j c - (if j = k \<and> c = a then x else 0) + (if j = k \<and> c = b then x else 0)"
  by (auto simp: move_balance_def Let_def tk_writes tk_reads)

lemma balances_same:
  "approve_token a k b amt s = Done s' u \<Longrightarrow> tk_balances s' = tk_balances s"
  "pause_token auth a k s = Done s' u \<Longrightarrow> tk_balances s' = tk_balances s"
  "unpause_token auth a k s = Done s' u \<Longrightarrow> tk_balances s' = tk_balances s"
  "delegate_power a k b amt s = Done s' u \<Longrightarrow> tk_balances s' = tk_balances s"
  "undelegate_power a k b amt s = Done s' u \<Longrightarrow> tk_balances s' = tk_balances s"
  "create_emission auth digest m s = Done s' v \<Longrightarrow> tk_balances s' = tk_balances s"
  "cancel_emission auth a k s = Done s' u \<Longrightarrow> tk_balances s' = tk_balances s"
  "update_tk_params auth a po s = Done s' u \<Longrightarrow> tk_balances s' = tk_balances s"
  by (auto simp: approve_token_def pause_token_def unpause_token_def delegate_power_def undelegate_power_def create_emission_def
      cancel_emission_def update_tk_params_def outcome_simps Let_def tk_writes set_tk_params_def split: option.splits if_splits)

lemma transfer_from_spends:
  assumes "transfer_from sp j b to amt s = Done s' u" "get_balance s' k a < get_balance s k a"
  shows "j = k \<and> b = a \<and> get_allowance s' k a sp = get_allowance s k a sp - (get_balance s k a - get_balance s' k a) \<and>
    0 \<le> get_allowance s' k a sp"
proof -
  from assms(1) obtain x where x: "0 < x" "\<not> get_allowance s j b sp < x" "b \<noteq> to"
    and s': "s' = move_balance j b to x (set_allowance j b sp (get_allowance s j b sp - x) s)"
    by (auto simp: transfer_from_def outcome_simps Let_def positive_int_Some split: option.splits)
  have bal: "get_balance s' k a = get_balance s k a - (if k = j \<and> a = b then x else 0) + (if k = j \<and> a = to then x else 0)"
    by (simp add: s' balances_move) (simp add: tk_writes tk_reads)
  with assms(2) x have "j = k" "b = a" by (auto split: if_splits)
  moreover have "get_allowance s' j b sp = get_allowance s j b sp - x"
    by (simp add: s' move_balance_def Let_def tk_writes tk_reads)
  ultimately show ?thesis using bal x by simp
qed

lemma wrap_balances:
  assumes "sdk_laws env" "wrap_token env b j amt s = Done s' d"
  shows "\<not> (j = k \<and> b = a) \<Longrightarrow> get_balance s' k a = get_balance s k a"
proof -
  obtain x c md where "s' = tk_with_bank c ((set_wrap_record j d (set_balance j b (amount_at (tk_balances s) (j, b) - x) s))\<lparr>tk_metadata := md\<rparr>)"
    using wrap_token_effect [OF assms] by metis
  then show "\<not> (j = k \<and> b = a) \<Longrightarrow> get_balance s' k a = get_balance s k a" by (auto simp: tk_writes tk_reads)
qed

lemma unwrap_balances:
  assumes "sdk_laws env" "unwrap_token env b d amt s = Done s' j"
  shows "get_balance s k a \<le> get_balance s' k a"
proof -
  obtain x c where "0 < x" "s' = set_balance j b (amount_at (tk_balances s) (j, b) + x) (tk_with_bank c s)"
    using unwrap_token_effect [OF assms] by metis
  then show ?thesis by (auto simp: tk_writes tk_reads)
qed

lemma create_token_spends_nothing:
  assumes "tk_ok env s" "tk_admissible digest s (MsgCreateToken c)" "create_token digest h c s = Done s' j"
  shows "get_balance s k a \<le> get_balance s' k a"
proof -
  note d = tk_okD [OF assms(1)]
  from assms(3) obtain initial t where sy: "get_token_by_symbol s (mk_symbol c) = None" "j = generate_token_id digest (mk_creator c) (mk_symbol c) h"
    and s': "s' = (if 0 < initial then set_balance j (mk_creator c) initial (set_token t s) else set_token t s)"
    by (auto simp: create_token_def outcome_simps Let_def)
  have "kv_get (tk_tokens s) j = None"
  proof (rule ccontr)
    assume "kv_get (tk_tokens s) j \<noteq> None"
    then obtain t where t: "kv_get (tk_tokens s) j = Some t" by blast
    with assms(2) sy(2) have "td_symbol t = mk_symbol c" by (auto simp: tk_admissible_def get_token_def)
    with registry_okD(4) [OF d(1) t] t sy(1) show False by (simp add: get_token_by_symbol_def get_token_def)
  qed
  from unknown_not_held [OF d(6,8) this] show ?thesis by (auto simp: s' tk_writes tk_reads)
qed

text \<open>
  C11: a message that lowers a balance is a burn, a transfer or a wrap by its owner, or a transfer by a spender whose
  allowance covered the amount and shrank by exactly that amount.
\<close>

theorem tk_spending_authorised:
  assumes "tk_reachable env auth digest h0 s" "tk_admissible digest s m" "tk_handle env auth digest h m s = Done s' u"
    "get_balance s' k a < get_balance s k a"
  shows "(\<exists>to amt. m = MsgBurnToken a k amt \<or> m = MsgTransferToken a k to amt \<or> m = MsgWrapToken a k amt) \<or>
    (\<exists>sp to amt. m = MsgTransferFrom sp k a to amt \<and> 0 \<le> get_allowance s' k a sp \<and>
       get_allowance s' k a sp = get_allowance s k a sp - (get_balance s k a - get_balance s' k a))"
proof -
  have ok: "sdk_laws env" "tk_ok env s" using tk.reachable_inv [OF assms(1)] by simp_all
  have same: False if "tk_balances s' = tk_balances s" using assms(4) that by (simp add: get_balance_def)
  show ?thesis
  proof (cases m)
    case (MsgCreateToken c)
    with assms(3) obtain j where "create_token digest h c s = Done s' j" by (auto simp: validated_Done)
    from create_token_spends_nothing [OF ok(2) _ this, of k a] assms(2,4) MsgCreateToken show ?thesis by simp
  next
    case (MsgTransferFrom sp j b to amt)
    with assms(3) have "transfer_from sp j b to amt s = Done s' ()" by (auto simp: validated_Done)
    from transfer_from_spends [OF this assms(4)] MsgTransferFrom show ?thesis by blast
  next
    case (MsgWrapToken b j amt)
    with assms(3) obtain d where "wrap_token env b j amt s = Done s' d" by (auto simp: validated_Done)
    from wrap_balances [OF ok(1) this] have "j = k \<and> b = a" using assms(4) by (metis order_less_irrefl)
    with MsgWrapToken show ?thesis by blast
  next
    case (MsgUnwrapToken b d amt)
    with assms(3) obtain j where "unwrap_token env b d amt s = Done s' j" by (auto simp: validated_Done)
    from unwrap_balances [OF ok(1) this, of k a] assms(4) show ?thesis by simp
  next
    case (MsgMintToken who j b amt)
    with assms(3,4) show ?thesis
      by (auto simp: validated_Done mint_token_def outcome_simps Let_def positive_int_Some tk_writes tk_reads split: option.splits if_splits)
  next
    case (MsgBurnToken b j amt)
    with assms(3,4) have "j = k \<and> b = a"
      by (auto simp: validated_Done burn_token_def outcome_simps Let_def tk_writes tk_reads split: option.splits if_splits)
    with MsgBurnToken show ?thesis by blast
  next
    case (MsgTransferToken b j to amt)
    with assms(3,4) have "j = k \<and> b = a"
      by (auto simp: validated_Done transfer_token_def outcome_simps positive_int_Some balances_move split: option.splits if_splits)
    with MsgTransferToken show ?thesis by blast
  qed (use assms(3) in \<open>auto simp: validated_Done dest!: balances_same intro: same\<close>)
qed

theorem tk_spending_authorised_witness:
  "\<exists>s'. tk_handle ledger_sdk ''zrn1gov'' (\<lambda>v. v) 7 (MsgTransferFrom ''zrn1s'' tok_id ''zrn1c'' ''zrn1d'' ''15'') tok_state = Done s' () \<and>
     get_allowance s' tok_id ''zrn1c'' ''zrn1s'' = 5"
proof -
  let ?m = "MsgTransferFrom ''zrn1s'' tok_id ''zrn1c'' ''zrn1d'' ''15''"
  let ?r = "tk_handle ledger_sdk ''zrn1gov'' (\<lambda>v. v) 7 ?m tok_state"
  have run: "?r = Done (final_state ?r) ()" "get_balance (final_state ?r) tok_id ''zrn1c'' = 45" by code_simp+
  have adm: "tk_admissible (\<lambda>v. v) tok_state ?m" by (simp add: tk_admissible_def)
  have less: "get_balance (final_state ?r) tok_id ''zrn1c'' < get_balance tok_state tok_id ''zrn1c''" using run(2) tok_values(2) by simp
  from tk_spending_authorised [OF tok_reachable adm run(1) less] run(2) tok_values(2,4)
  have "get_allowance (final_state ?r) tok_id ''zrn1c'' ''zrn1s'' = 5" by auto
  with run(1) show ?thesis by blast
qed

section \<open>Wrapping\<close>

text \<open>
  C12: wrapping an amount and unwrapping it again leaves every balance, the supply of every coin and every account at the
  bank as they were, with the token record untouched; in between the amount has left the balance and is in the
  account as wrapped coins.
\<close>

theorem tk_wrap_unwrap:
  assumes "tk_reachable env auth digest h s" "wrap_token env a k amt s = Done s1 d" "unwrap_token env a d amt s1 = Done s2 j"
  shows "j = k \<and> d = wrapped_denom k \<and> tk_balances s2 = tk_balances s \<and> tk_owner_index s2 = tk_owner_index s \<and> tk_tokens s2 = tk_tokens s \<and>
    (\<exists>x acc. positive_int amt = Some x \<and> acc_address env a = Some acc \<and> get_balance s1 k a = get_balance s k a - x \<and>
       bank_balance env (tk_bank s1) acc d = bank_balance env (tk_bank s) acc d + x) \<and>
    (\<forall>e. bank_supply env (tk_bank s2) e = bank_supply env (tk_bank s) e) \<and>
    (\<forall>c e. bank_balance env (tk_bank s2) c e = bank_balance env (tk_bank s) c e)"
proof -
  have laws: "sdk_laws env" and ok: "tk_ok env s" using tk.reachable_inv [OF assms(1)] by simp_all
  note o = tk_okD [OF ok]
  obtain t x acc b md where x: "positive_int amt = Some x" "0 < x" "\<not> get_undelegated_balance s k a < x" "acc_address env a = Some acc"
      "d = wrapped_denom k"
    and b: "\<And>e. bank_supply env b e = bank_supply env (tk_bank s) e + (if e = d then x else 0)"
      "\<And>c e. bank_balance env b c e = bank_balance env (tk_bank s) c e + (if c = acc \<and> e = d then x else 0)"
    and s1: "s1 = tk_with_bank b ((set_wrap_record k d (set_balance k a (amount_at (tk_balances s) (k, a) - x) s))\<lparr>tk_metadata := md\<rparr>)"
    by (rule wrap_token_effect [OF laws assms(2)]) (rule that)
  obtain t' x' acc' b' where u: "kv_get (tk_unwraps s1) d = Some j" "positive_int amt = Some x'" "acc_address env a = Some acc'"
    and b': "\<And>e. bank_supply env b' e = bank_supply env (tk_bank s1) e - (if e = d then x' else 0)"
      "\<And>c e. bank_balance env b' c e = bank_balance env (tk_bank s1) c e - (if c = acc' \<and> e = d then x' else 0)"
    and s2: "s2 = set_balance j a (amount_at (tk_balances s1) (j, a) + x') (tk_with_bank b' s1)"
    by (rule unwrap_token_effect [OF laws assms(3)]) (rule that)
  have eq: "j = k" "x' = x" "acc' = acc" using u x by (simp_all add: s1 tk_writes)
  let ?y = "amount_at (tk_balances s) (k, a)"
  have y: "0 < ?y" using undelegated_covers [OF ok x(2,3)] x(2) by simp
  then have listed: "kv_get (tk_owner_index s) (a, k) = Some ()" using o(2) by (auto simp: balances_ok_def)
  have ix: "kv_ok (tk_owner_index s)" using o(2) by (simp add: balances_ok_def)
  have "put_amount (k, a) ?y (put_amount (k, a) (?y - x) (tk_balances s)) = tk_balances s"
    by (rule kv_ok_eqI) (use o(8,9) y amounts_entry [OF o(8)] in \<open>auto simp: put_amount_def\<close>)
  moreover have "put_owner a k ?y (put_owner a k (?y - x) (tk_owner_index s)) = tk_owner_index s"
    by (rule kv_ok_eqI) (use ix listed y in \<open>auto simp: put_owner_def\<close>)
  ultimately show ?thesis using x b b' by (auto simp: s2 eq s1 tk_writes tk_reads)
qed

theorem tk_wrap_unwrap_witness:
  "\<exists>s1 s2. wrap_token ledger_sdk ''zrn1c'' tok_id ''5'' tok_state = Done s1 (wrapped_denom tok_id) \<and>
     unwrap_token ledger_sdk ''zrn1c'' (wrapped_denom tok_id) ''5'' s1 = Done s2 tok_id \<and> tk_balances s2 = tk_balances tok_state"
proof -
  let ?s1 = "final_state (wrap_token ledger_sdk ''zrn1c'' tok_id ''5'' tok_state)"
  let ?s2 = "final_state (unwrap_token ledger_sdk ''zrn1c'' (wrapped_denom tok_id) ''5'' ?s1)"
  have r: "wrap_token ledger_sdk ''zrn1c'' tok_id ''5'' tok_state = Done ?s1 (wrapped_denom tok_id)"
    "unwrap_token ledger_sdk ''zrn1c'' (wrapped_denom tok_id) ''5'' ?s1 = Done ?s2 tok_id" by code_simp+
  with tk_wrap_unwrap [OF tok_reachable r] show ?thesis by blast
qed

section \<open>Emission\<close>

text \<open>
  C13: a block mints of the native coin exactly what it adds to the emitted amounts of the periods, never past the cap, and
  no other coin; every period gains at most its amount per block, inside its window only, keeps its terms, and is
  closed by the first block after its end; tokens, balances and delegations stay.
\<close>

theorem tk_emissions_accounted:
  assumes "tk_reachable env auth digest h s" "tk_begin_block env (h + 1) s = Done s' u" "emission_epoch_blocks (get_tk_params s) \<noteq> 0"
  shows "bank_supply env (tk_bank s') uzrn - bank_supply env (tk_bank s) uzrn =
      kv_sum emitted_of (tk_emissions s') - kv_sum emitted_of (tk_emissions s) \<and>
    bank_supply env (tk_bank s') uzrn \<le> max max_supply_uzrn (bank_supply env (tk_bank s) uzrn) \<and>
    (\<forall>d. d \<noteq> uzrn \<longrightarrow> bank_supply env (tk_bank s') d = bank_supply env (tk_bank s) d) \<and>
    (\<forall>k. rel_option (emission_advances (to_u64 (h + 1))) (get_emission s k) (get_emission s' k)) \<and>
    tk_tokens s' = tk_tokens s \<and> tk_balances s' = tk_balances s \<and> tk_delegations s' = tk_delegations s"
proof -
  have laws: "sdk_laws env" and ok: "tk_ok env s" using tk.reachable_inv [OF assms(1)] by simp_all
  have e: "emits env (to_u64 (h + 1)) (fst ` set (tk_emissions s)) s s'"
    using tk_begin_block_emits [OF laws tk_okD(7) [OF ok] assms(2)] assms(3) by simp
  have "rel_option (emission_advances (to_u64 (h + 1))) (get_emission s k) (get_emission s' k)" for k
    using emits_at(1,2) [OF e, of k] by (cases "k \<in> fst ` set (tk_emissions s)") (simp_all add: get_emission_def kv_get_None_mem [symmetric])
  moreover have "same_books s s'" using e by (simp add: emits_def)
  then have "tk_tokens s' = tk_tokens s \<and> tk_balances s' = tk_balances s \<and> tk_delegations s' = tk_delegations s"
    by (auto simp: same_books_def)
  ultimately show ?thesis using e by (simp add: emits_def)
qed

theorem tk_emissions_accounted_witness:
  "\<exists>s'. tk_begin_block ledger_sdk 8 tok_state = Done s' () \<and> kv_sum emitted_of (tk_emissions s') = 25 \<and>
     bank_supply ledger_sdk (tk_bank s') uzrn = bank_supply ledger_sdk (tk_bank tok_state) uzrn + 25"
proof -
  let ?r = "tk_begin_block ledger_sdk (7 + 1) tok_state"
  have run: "?r = Done (final_state ?r) ()" by code_simp
  have sums: "kv_sum emitted_of (tk_emissions tok_state) = 0" "kv_sum emitted_of (tk_emissions (final_state ?r)) = 25" by code_simp+
  have on: "emission_epoch_blocks (get_tk_params tok_state) \<noteq> 0" by code_simp
  from tk_emissions_accounted [OF tok_reachable run on] sums run show ?thesis by auto
qed

text \<open>
  The id of a period is made of the authority and the two heights only, so a second period over the same range takes
  the place of the first and starts counting at zero.
\<close>

lemma tk_same_range_replaces:
  assumes "create_emission auth digest m s = Done s1 k" "create_emission auth digest n s1 = Done s2 j"
    "mz_start n = mz_start m" "mz_end n = mz_end m"
  shows "j = k \<and> (\<exists>e. get_emission s2 k = Some e \<and> em_per_block e = mz_per_block n \<and> emitted_of e = 0)"
  using assms by (auto simp: create_emission_def outcome_simps Let_def get_emission_def set_emission_def emitted_of_def)

end
