(* ===== verification/Capture.thy ===== *)
theory Capture
  imports Bank Go_Text Chain
begin

text \<open>
  x/capture_challenge: staked accusations of cartel behaviour, their evidence and review, and the bounty pools that
  reward them (types/{types,errors,genesis,keys}.go, keeper/{state,keeper,msg_server,auto_challenge,grpc_query}.go and
  the adapters, module.go).

  The calls the module makes into x/qualification, x/knowledge and x/capture_defense only have their errors
  logged; the state keeps them as a list, in the order made.  The domain index is a store on the joined text
  "domain/id", since the scan of a domain is by prefix.  \<open>digest\<close> is the hexadecimal text of SHA-256, \<open>self\<close> the bech32
  text of the module's account.
\<close>

section \<open>Records\<close>

datatype challenge_status =
    CHALLENGE_STATUS_UNSPECIFIED | CHALLENGE_STATUS_OPEN | CHALLENGE_STATUS_EVIDENCE | CHALLENGE_STATUS_UNDER_REVIEW
  | CHALLENGE_STATUS_RESOLVED | CHALLENGE_STATUS_EXPIRED

datatype challenge_outcome =
    CHALLENGE_OUTCOME_UNSPECIFIED | CHALLENGE_OUTCOME_UPHELD | CHALLENGE_OUTCOME_REJECTED | CHALLENGE_OUTCOME_PARTIAL

datatype cc_error =
    ChallengeNotFound | CcInsufficientStake | ChallengeNotOpen | EvidenceDeadlinePassed | NotChallenger | InvalidOutcome
  | BountyPoolNotFound | DomainPaused | CcUnauthorized | CcInvalidAddress | CcInvalidAmount | CcInvalidParams | CcInvalidMessage
  | CcBankError string | CcPanic string

record capture_evidence =
  ce_description :: string
  ce_data_hash :: string
  ce_block :: u64

record capture_resolution =
  cr_outcome :: challenge_outcome
  cr_resolver :: string
  cr_reason :: string
  cr_block :: u64
  cr_reward :: string
  cr_slash :: string

record validator_slash =
  vl_validator :: string
  vl_amount :: string
  vl_reason :: string

record capture_challenge =
  ch_id :: string
  ch_challenger :: string
  ch_domain :: string
  ch_accused :: "string list"
  ch_stake :: string
  ch_status :: challenge_status
  ch_evidence :: "capture_evidence list"
  ch_created :: u64
  ch_evidence_deadline :: u64
  ch_review_deadline :: u64
  ch_resolution :: "capture_resolution option"
  ch_slashes :: "validator_slash list"

record bounty_pool =
  bp_domain :: string
  bp_balance :: string

record cc_params =
  min_challenge_stake :: string
  evidence_period_blocks :: u64
  review_period_blocks :: u64
  domain_pause_blocks :: u64
  reward_rate_bps :: u64
  slash_rate_bps :: u64
  bounty_contribution_per_fact :: string
  risk_analysis_interval :: u64

record msg_submit_challenge =
  mc_challenger :: string
  mc_domain :: string
  mc_accused :: "string list"
  mc_stake :: string
  mc_reason :: string

record cc_genesis =
  ccg_params :: "cc_params option"
  ccg_challenges :: "capture_challenge list"
  ccg_pools :: "bounty_pool list"

text \<open>Calls into other modules.\<close>

datatype cc_call =
    ReduceQualificationWeight string string u64 u64 | IncreaseVerificationThreshold string u32 u64
  | RecordChallengeRoleImpact string string bool | ClearCaptureFlag string

section \<open>Parameters\<close>

definition default_cc_params :: cc_params where
  "default_cc_params = \<lparr>min_challenge_stake = ''10000000'', evidence_period_blocks = 5000, review_period_blocks = 20000,
     domain_pause_blocks = 1000, reward_rate_bps = 100000, slash_rate_bps = 50000, bounty_contribution_per_fact = ''1000'',
     risk_analysis_interval = 1000\<rparr>"

definition validate_cc_params :: "cc_params \<Rightarrow> bool" where
  "validate_cc_params p \<longleftrightarrow> positive_int (min_challenge_stake p) \<noteq> None \<and> evidence_period_blocks p \<noteq> 0 \<and> review_period_blocks p \<noteq> 0 \<and>
     \<not> 1000000 < reward_rate_bps p \<and> \<not> 1000000 < slash_rate_bps p"

section \<open>State\<close>

record 'b cc_state =
  cc_params_record :: "cc_params option"
  cc_challenges :: "(string, capture_challenge) kv"
  cc_pools :: "(string, bounty_pool) kv"
  cc_domain_index :: "(string, string) kv"
  cc_paused :: "(string, u64) kv"
  cc_bank :: 'b
  cc_calls :: "cc_call list"

type_synonym ('b, 'a) cc_outcome = "('b cc_state, cc_error, 'a) outcome"

definition cc_with_bank :: "'b \<Rightarrow> 'b cc_state \<Rightarrow> 'b cc_state" where
  "cc_with_bank b s = s\<lparr>cc_bank := b\<rparr>"

abbreviation on_cc_bank :: "('b \<Rightarrow> ('b, string, unit) outcome) \<Rightarrow> 'b cc_state \<Rightarrow> ('b, unit) cc_outcome" where
  "on_cc_bank \<equiv> on_bank cc_bank cc_with_bank CcBankError"

definition cc_module :: string where
  "cc_module = ''capture_challenge''"

definition cc_dev_fund :: string where
  "cc_dev_fund = ''development_fund''"

definition set_cc_params :: "cc_params \<Rightarrow> 'b cc_state \<Rightarrow> 'b cc_state" where
  "set_cc_params p s = s\<lparr>cc_params_record := Some p\<rparr>"

definition get_cc_params :: "'b cc_state \<Rightarrow> cc_params" where
  "get_cc_params s = (case cc_params_record s of None \<Rightarrow> default_cc_params | Some p \<Rightarrow> p)"

definition set_challenge :: "capture_challenge \<Rightarrow> 'b cc_state \<Rightarrow> 'b cc_state" where
  "set_challenge c s = s\<lparr>cc_challenges := kv_set (ch_id c) c (cc_challenges s)\<rparr>"

definition get_challenge :: "'b cc_state \<Rightarrow> string \<Rightarrow> capture_challenge option" where
  "get_challenge s k = kv_get (cc_challenges s) k"

definition delete_challenge :: "string \<Rightarrow> 'b cc_state \<Rightarrow> 'b cc_state" where
  "delete_challenge k s = s\<lparr>cc_challenges := kv_del k (cc_challenges s)\<rparr>"

definition get_all_challenges :: "'b cc_state \<Rightarrow> capture_challenge list" where
  "get_all_challenges s = map snd (cc_challenges s)"

definition set_bounty_pool :: "bounty_pool \<Rightarrow> 'b cc_state \<Rightarrow> 'b cc_state" where
  "set_bounty_pool p s = s\<lparr>cc_pools := kv_set (bp_domain p) p (cc_pools s)\<rparr>"

definition get_bounty_pool :: "'b cc_state \<Rightarrow> string \<Rightarrow> bounty_pool option" where
  "get_bounty_pool s d = kv_get (cc_pools s) d"

definition delete_bounty_pool :: "string \<Rightarrow> 'b cc_state \<Rightarrow> 'b cc_state" where
  "delete_bounty_pool d s = s\<lparr>cc_pools := kv_del d (cc_pools s)\<rparr>"

definition get_all_bounty_pools :: "'b cc_state \<Rightarrow> bounty_pool list" where
  "get_all_bounty_pools s = map snd (cc_pools s)"

definition domain_index_key :: "string \<Rightarrow> string \<Rightarrow> string" where
  "domain_index_key d k = d @ ''/'' @ k"

definition set_domain_index :: "string \<Rightarrow> string \<Rightarrow> 'b cc_state \<Rightarrow> 'b cc_state" where
  "set_domain_index d k s = s\<lparr>cc_domain_index := kv_set (domain_index_key d k) k (cc_domain_index s)\<rparr>"

definition delete_domain_index :: "string \<Rightarrow> string \<Rightarrow> 'b cc_state \<Rightarrow> 'b cc_state" where
  "delete_domain_index d k s = s\<lparr>cc_domain_index := kv_del (domain_index_key d k) (cc_domain_index s)\<rparr>"

definition get_challenges_by_domain :: "'b cc_state \<Rightarrow> string \<Rightarrow> string list" where
  "get_challenges_by_domain s d = map snd (filter (\<lambda>e. cut_prefix (d @ ''/'') (fst e) \<noteq> None) (cc_domain_index s))"

definition set_paused_domain :: "string \<Rightarrow> u64 \<Rightarrow> 'b cc_state \<Rightarrow> 'b cc_state" where
  "set_paused_domain d h s = s\<lparr>cc_paused := kv_set d h (cc_paused s)\<rparr>"

definition get_paused_domain :: "'b cc_state \<Rightarrow> string \<Rightarrow> u64 option" where
  "get_paused_domain s d = kv_get (cc_paused s) d"

definition delete_paused_domain :: "string \<Rightarrow> 'b cc_state \<Rightarrow> 'b cc_state" where
  "delete_paused_domain d s = s\<lparr>cc_paused := kv_del d (cc_paused s)\<rparr>"

definition record_call :: "cc_call \<Rightarrow> 'b cc_state \<Rightarrow> 'b cc_state" where
  "record_call c s = s\<lparr>cc_calls := cc_calls s @ [c]\<rparr>"

text \<open>The first 16 bytes of the digest.\<close>

definition generate_challenge_id :: "(string \<Rightarrow> string) \<Rightarrow> string \<Rightarrow> string \<Rightarrow> int \<Rightarrow> string" where
  "generate_challenge_id digest challenger domain h = take 32 (digest (challenger @ '':'' @ domain @ '':'' @ big_string h))"

definition is_active :: "challenge_status \<Rightarrow> bool" where
  "is_active st \<longleftrightarrow> st = CHALLENGE_STATUS_OPEN \<or> st = CHALLENGE_STATUS_EVIDENCE \<or> st = CHALLENGE_STATUS_UNDER_REVIEW"

section \<open>Stateless validation\<close>

definition validate_submit_challenge :: "'b sdk \<Rightarrow> msg_submit_challenge \<Rightarrow> bool" where
  "validate_submit_challenge env m \<longleftrightarrow> acc_address env (mc_challenger m) \<noteq> None \<and> mc_domain m \<noteq> [] \<and> mc_accused m \<noteq> [] \<and>
     positive_int (mc_stake m) \<noteq> None"

definition validate_add_evidence :: "'b sdk \<Rightarrow> string \<Rightarrow> string \<Rightarrow> string \<Rightarrow> bool" where
  "validate_add_evidence env who k description \<longleftrightarrow> acc_address env who \<noteq> None \<and> k \<noteq> [] \<and> description \<noteq> []"

definition validate_resolve_challenge :: "'b sdk \<Rightarrow> string \<Rightarrow> string \<Rightarrow> challenge_outcome \<Rightarrow> bool" where
  "validate_resolve_challenge env who k outc \<longleftrightarrow> acc_address env who \<noteq> None \<and> k \<noteq> [] \<and> outc \<noteq> CHALLENGE_OUTCOME_UNSPECIFIED"

definition validate_fund_pool :: "'b sdk \<Rightarrow> string \<Rightarrow> string \<Rightarrow> string \<Rightarrow> bool" where
  "validate_fund_pool env who d amount \<longleftrightarrow> acc_address env who \<noteq> None \<and> d \<noteq> [] \<and> positive_int amount \<noteq> None"

section \<open>Handlers\<close>

definition new_challenge :: "string \<Rightarrow> u64 \<Rightarrow> cc_params \<Rightarrow> msg_submit_challenge \<Rightarrow> capture_challenge" where
  "new_challenge k now p m =
     (let evidence_deadline = now + evidence_period_blocks p
      in \<lparr>ch_id = k, ch_challenger = mc_challenger m, ch_domain = mc_domain m, ch_accused = mc_accused m, ch_stake = mc_stake m,
          ch_status = CHALLENGE_STATUS_EVIDENCE, ch_evidence = [], ch_created = now, ch_evidence_deadline = evidence_deadline,
          ch_review_deadline = evidence_deadline + review_period_blocks p, ch_resolution = None, ch_slashes = []\<rparr>)"

text \<open>A pause that is over is removed, a running one refuses.\<close>

definition check_pause :: "u64 \<Rightarrow> string \<Rightarrow> 'b cc_state \<Rightarrow> ('b, unit) cc_outcome" where
  "check_pause now d s = (case get_paused_domain s d of None \<Rightarrow> Done s ()
   | Some u \<Rightarrow> if now < u then Fail s DomainPaused else Done (delete_paused_domain d s) ())"

definition store_submission :: "string \<Rightarrow> u64 \<Rightarrow> cc_params \<Rightarrow> msg_submit_challenge \<Rightarrow> 'b cc_state \<Rightarrow> 'b cc_state" where
  "store_submission k now params m s =
     (let s = set_challenge (new_challenge k now params m) s;
          s = set_domain_index (mc_domain m) k s
      in if 0 < domain_pause_blocks params then set_paused_domain (mc_domain m) (now + domain_pause_blocks params) s else s)"

definition submit_challenge :: "'b sdk \<Rightarrow> (string \<Rightarrow> string) \<Rightarrow> int \<Rightarrow> msg_submit_challenge \<Rightarrow> 'b cc_state \<Rightarrow> ('b, string) cc_outcome" where
  "submit_challenge env digest h m s =
     try_in s (of_option CcInvalidAddress (acc_address env (mc_challenger m))) (\<lambda>a.
     try_in s (of_option CcInsufficientStake (positive_int (mc_stake m))) (\<lambda>stake.
     let params = get_cc_params s; now = to_u64 h
     in if stake < int_or_zero (min_challenge_stake params) then Fail s CcInsufficientStake
        else and_then (check_pause now (mc_domain m) s) (\<lambda>s _.
        try_in s (of_option (CcPanic ''coins'') (new_coins env [(uzrn, stake)])) (\<lambda>coins.
        and_then (on_cc_bank (bank_to_module env a cc_module coins) s) (\<lambda>s _.
          let k = generate_challenge_id digest (mc_challenger m) (mc_domain m) h
          in Done (store_submission k now params m s) k)))))"

definition add_evidence :: "int \<Rightarrow> string \<Rightarrow> string \<Rightarrow> string \<Rightarrow> string \<Rightarrow> 'b cc_state \<Rightarrow> ('b, unit) cc_outcome" where
  "add_evidence h who k description data_hash s = (case get_challenge s k of None \<Rightarrow> Fail s ChallengeNotFound
   | Some c \<Rightarrow>
       if who \<noteq> ch_challenger c then Fail s NotChallenger
       else if ch_status c \<noteq> CHALLENGE_STATUS_OPEN \<and> ch_status c \<noteq> CHALLENGE_STATUS_EVIDENCE then Fail s ChallengeNotOpen
       else if ch_evidence_deadline c \<le> to_u64 h then Fail s EvidenceDeadlinePassed
       else Done (set_challenge (c\<lparr>ch_evidence := ch_evidence c @
              [\<lparr>ce_description = description, ce_data_hash = data_hash, ce_block = to_u64 h\<rparr>]\<rparr>) s) ())"

text \<open>A share of the pool of a domain, in millionths.\<close>

definition pool_share :: "cc_params \<Rightarrow> bounty_pool \<Rightarrow> int" where
  "pool_share p pool = int_or_zero (bp_balance pool) * uint (reward_rate_bps p) div 1000000"

text \<open>Reward from the pool; a refused transfer is logged and pays nothing.\<close>

definition pay_reward :: "'b sdk \<Rightarrow> addr \<Rightarrow> bounty_pool \<Rightarrow> int \<Rightarrow> 'b cc_state \<Rightarrow> ('b, int) cc_outcome" where
  "pay_reward env a pool x s =
     (if x \<le> 0 then Done s x
      else try_in s (of_option (CcPanic ''coins'') (new_coins env [(uzrn, x)])) (\<lambda>coins.
        case bank_to_account env cc_module a coins (cc_bank s) of
          Fail b e \<Rightarrow> Done (cc_with_bank b s) 0
        | Done b u \<Rightarrow> Done (set_bounty_pool (pool\<lparr>bp_balance := big_string (int_or_zero (bp_balance pool) - x)\<rparr>) (cc_with_bank b s)) x))"

definition reward_from_pool :: "'b sdk \<Rightarrow> addr \<Rightarrow> string \<Rightarrow> int \<Rightarrow> 'b cc_state \<Rightarrow> ('b, int) cc_outcome" where
  "reward_from_pool env a d part s = (case get_bounty_pool s d of None \<Rightarrow> Done s 0
   | Some pool \<Rightarrow> pay_reward env a pool (pool_share (get_cc_params s) pool div part) s)"

definition send_stake :: "'b sdk \<Rightarrow> addr \<Rightarrow> int \<Rightarrow> 'b cc_state \<Rightarrow> ('b, unit) cc_outcome" where
  "send_stake env a x s =
     (if x \<le> 0 then Done s ()
      else try_in s (of_option (CcPanic ''coins'') (new_coins env [(uzrn, x)])) (\<lambda>coins. on_cc_bank (bank_to_account env cc_module a coins) s))"

definition send_to_fund :: "'b sdk \<Rightarrow> int \<Rightarrow> 'b cc_state \<Rightarrow> ('b, unit) cc_outcome" where
  "send_to_fund env x s =
     (if x \<le> 0 then Done s ()
      else try_in s (of_option (CcPanic ''coins'') (new_coins env [(uzrn, x)])) (\<lambda>coins.
        on_cc_bank (bank_mod_to_mod env cc_module cc_dev_fund coins) s))"

definition add_to_pool :: "string \<Rightarrow> int \<Rightarrow> 'b cc_state \<Rightarrow> 'b cc_state" where
  "add_to_pool d x s =
     (let pool = (case get_bounty_pool s d of None \<Rightarrow> \<lparr>bp_domain = d, bp_balance = ''0''\<rparr> | Some pool \<Rightarrow> pool)
      in set_bounty_pool (pool\<lparr>bp_balance := big_string (int_or_zero (bp_balance pool) + x)\<rparr>) s)"

text \<open>The slash recorded against each accused: a share of the challenger's stake.\<close>

definition slash_of :: "cc_params \<Rightarrow> int \<Rightarrow> int" where
  "slash_of p stake = stake * uint (slash_rate_bps p) div 1000000"

definition resolve_upheld ::
  "'b sdk \<Rightarrow> int \<Rightarrow> addr \<Rightarrow> int \<Rightarrow> string \<Rightarrow> capture_challenge \<Rightarrow> 'b cc_state \<Rightarrow> ('b, capture_challenge \<times> string \<times> string) cc_outcome" where
  "resolve_upheld env h a stake reason c s =
     and_then (reward_from_pool env a (ch_domain c) 1 s) (\<lambda>s reward.
       let x = slash_of (get_cc_params s) stake;
           c = c\<lparr>ch_slashes := map (\<lambda>v. \<lparr>vl_validator = v, vl_amount = big_string x, vl_reason = reason\<rparr>) (ch_accused c)\<rparr>;
           expiry = to_u64 h + 50000
       in and_then (send_stake env a stake s) (\<lambda>s _.
            let s = fold (\<lambda>v. record_call (ReduceQualificationWeight v (ch_domain c) 500000 expiry)) (ch_accused c) s;
                s = record_call (IncreaseVerificationThreshold (ch_domain c) 2 expiry) s;
                s = record_call (RecordChallengeRoleImpact (ch_id c) (ch_domain c) True) s
            in Done s (c, big_string reward, big_string (x * int (length (ch_accused c))))))"

definition resolve_rejected ::
  "'b sdk \<Rightarrow> int \<Rightarrow> capture_challenge \<Rightarrow> 'b cc_state \<Rightarrow> ('b, capture_challenge \<times> string \<times> string) cc_outcome" where
  "resolve_rejected env stake c s =
     and_then (send_to_fund env stake s) (\<lambda>s _.
       let s = add_to_pool (ch_domain c) stake s;
           s = record_call (ClearCaptureFlag (ch_domain c)) s;
           s = record_call (RecordChallengeRoleImpact (ch_id c) (ch_domain c) False) s
       in Done s (c, ''0'', ''0''))"

definition resolve_partial ::
  "'b sdk \<Rightarrow> addr \<Rightarrow> int \<Rightarrow> capture_challenge \<Rightarrow> 'b cc_state \<Rightarrow> ('b, capture_challenge \<times> string \<times> string) cc_outcome" where
  "resolve_partial env a stake c s =
     (let half = stake div 2; remainder = stake - half
      in and_then (send_stake env a half s) (\<lambda>s _.
         and_then (send_to_fund env remainder s) (\<lambda>s _.
         and_then (reward_from_pool env a (ch_domain c) 2 s) (\<lambda>s reward. Done s (c, big_string reward, ''0'')))))"

definition resolve_challenge ::
  "'b sdk \<Rightarrow> string \<Rightarrow> int \<Rightarrow> string \<Rightarrow> string \<Rightarrow> challenge_outcome \<Rightarrow> string \<Rightarrow> 'b cc_state \<Rightarrow> ('b, unit) cc_outcome" where
  "resolve_challenge env authority h who k outc reason s =
     (if authority \<noteq> who then Fail s CcUnauthorized
      else case get_challenge s k of None \<Rightarrow> Fail s ChallengeNotFound
      | Some c \<Rightarrow>
          if ch_status c \<noteq> CHALLENGE_STATUS_UNDER_REVIEW then Fail s ChallengeNotOpen
          else
            let stake = int_or_zero (ch_stake c)
            in try_in s (of_option CcInvalidAddress (acc_address env (ch_challenger c))) (\<lambda>a.
               and_then
                 (case outc of
                    CHALLENGE_OUTCOME_UPHELD \<Rightarrow> resolve_upheld env h a stake reason c s
                  | CHALLENGE_OUTCOME_REJECTED \<Rightarrow> resolve_rejected env stake c s
                  | CHALLENGE_OUTCOME_PARTIAL \<Rightarrow> resolve_partial env a stake c s
                  | CHALLENGE_OUTCOME_UNSPECIFIED \<Rightarrow> Fail s InvalidOutcome)
                 (\<lambda>s (c, reward, slash).
                    Done (set_challenge (c\<lparr>ch_resolution := Some \<lparr>cr_outcome = outc, cr_resolver = who, cr_reason = reason,
                            cr_block = to_u64 h, cr_reward = reward, cr_slash = slash\<rparr>, ch_status := CHALLENGE_STATUS_RESOLVED\<rparr>) s) ())))"

definition fund_bounty_pool :: "'b sdk \<Rightarrow> string \<Rightarrow> string \<Rightarrow> string \<Rightarrow> 'b cc_state \<Rightarrow> ('b, unit) cc_outcome" where
  "fund_bounty_pool env sender d amount s =
     try_in s (of_option CcInvalidAddress (acc_address env sender)) (\<lambda>a.
     try_in s (of_option CcInvalidAmount (positive_int amount)) (\<lambda>x.
     try_in s (of_option (CcPanic ''coins'') (new_coins env [(uzrn, x)])) (\<lambda>coins.
     and_then (on_cc_bank (bank_to_module env a cc_module coins) s) (\<lambda>s _. Done (add_to_pool d x s) ()))))"

definition update_cc_params :: "string \<Rightarrow> string \<Rightarrow> cc_params option \<Rightarrow> 'b cc_state \<Rightarrow> ('b, unit) cc_outcome" where
  "update_cc_params authority who po s =
     (if authority \<noteq> who then Fail s CcUnauthorized
      else case po of None \<Rightarrow> Fail s CcInvalidParams
      | Some p \<Rightarrow> if validate_cc_params p then Done (set_cc_params p s) () else Fail s CcInvalidParams)"

text \<open>\<open>AutoSubmitChallenge\<close>, called by x/capture_defense: nothing happens while the domain has an active challenge.\<close>

definition auto_submit :: "(string \<Rightarrow> string) \<Rightarrow> string \<Rightarrow> int \<Rightarrow> string \<Rightarrow> string \<Rightarrow> 'b cc_state \<Rightarrow> 'b cc_state" where
  "auto_submit digest self h d evidence s =
     (if list_ex (\<lambda>k. case get_challenge s k of None \<Rightarrow> False | Some c \<Rightarrow> is_active (ch_status c)) (get_challenges_by_domain s d) then s
      else
        let k = generate_challenge_id digest self d h; now = to_u64 h;
            c = \<lparr>ch_id = k, ch_challenger = self, ch_domain = d, ch_accused = [], ch_stake = ''0'', ch_status = CHALLENGE_STATUS_UNDER_REVIEW,
                 ch_evidence = [\<lparr>ce_description = evidence, ce_data_hash = ''auto:'' @ d @ '':'' @ format_u64 now, ce_block = now\<rparr>],
                 ch_created = now, ch_evidence_deadline = now, ch_review_deadline = now + review_period_blocks (get_cc_params s),
                 ch_resolution = None, ch_slashes = []\<rparr>
        in set_domain_index d k (set_challenge c s))"

section \<open>Block hook\<close>

text \<open>The stake of an expired challenge is sent back; a refusal of the bank is dropped.\<close>

definition refund_expired :: "'b sdk \<Rightarrow> capture_challenge \<Rightarrow> 'b cc_state \<Rightarrow> ('b, unit) cc_outcome" where
  "refund_expired env c s = (case (acc_address env (ch_challenger c), positive_int (ch_stake c)) of
     (Some a, Some x) \<Rightarrow>
       try_in s (of_option (CcPanic ''coins'') (new_coins env [(uzrn, x)])) (\<lambda>coins.
         Done (cc_with_bank (final_state (bank_to_account env cc_module a coins (cc_bank s))) s) ())
   | _ \<Rightarrow> Done s ())"

definition advance_challenge :: "'b sdk \<Rightarrow> u64 \<Rightarrow> capture_challenge \<Rightarrow> 'b cc_state \<Rightarrow> ('b, unit) cc_outcome" where
  "advance_challenge env now c s =
     (if ch_status c = CHALLENGE_STATUS_OPEN \<or> ch_status c = CHALLENGE_STATUS_EVIDENCE then
        Done (if ch_evidence_deadline c \<le> now then set_challenge (c\<lparr>ch_status := CHALLENGE_STATUS_UNDER_REVIEW\<rparr>) s else s) ()
      else if ch_status c = CHALLENGE_STATUS_UNDER_REVIEW \<and> ch_review_deadline c \<le> now then
        and_then (refund_expired env c s) (\<lambda>s _. Done (set_challenge (c\<lparr>ch_status := CHALLENGE_STATUS_EXPIRED\<rparr>) s) ())
      else Done s ())"

fun advance_challenges :: "'b sdk \<Rightarrow> u64 \<Rightarrow> capture_challenge list \<Rightarrow> 'b cc_state \<Rightarrow> ('b, unit) cc_outcome" where
  "advance_challenges env now [] s = Done s ()"
| "advance_challenges env now (c # cs) s = and_then (advance_challenge env now c s) (\<lambda>s _. advance_challenges env now cs s)"

text \<open>The periodic risk analysis is an empty hook.\<close>

definition cc_begin_block :: "'b sdk \<Rightarrow> int \<Rightarrow> 'b cc_state \<Rightarrow> ('b, unit) cc_outcome" where
  "cc_begin_block env h s = advance_challenges env (to_u64 h) (get_all_challenges s) s"

section \<open>Messages\<close>

datatype cc_msg =
    MsgSubmitChallenge msg_submit_challenge | MsgAddEvidence string string string string
  | MsgResolveChallenge string string challenge_outcome string | MsgFundBountyPool string string string
  | MsgUpdateCcParams string "cc_params option" | AutoSubmitChallenge string string

text \<open>The last is the call of x/capture_defense.\<close>

fun cc_handle ::
  "'b sdk \<Rightarrow> string \<Rightarrow> (string \<Rightarrow> string) \<Rightarrow> string \<Rightarrow> int \<Rightarrow> cc_msg \<Rightarrow> 'b cc_state \<Rightarrow> ('b, unit) cc_outcome" where
  "cc_handle env authority digest self h (MsgSubmitChallenge m) s =
     (if validate_submit_challenge env m then discard (submit_challenge env digest h m s) else Fail s CcInvalidMessage)"
| "cc_handle env authority digest self h (MsgAddEvidence who k description data_hash) s =
     (if validate_add_evidence env who k description then add_evidence h who k description data_hash s else Fail s CcInvalidMessage)"
| "cc_handle env authority digest self h (MsgResolveChallenge who k outc reason) s =
     (if validate_resolve_challenge env who k outc then resolve_challenge env authority h who k outc reason s else Fail s CcInvalidMessage)"
| "cc_handle env authority digest self h (MsgFundBountyPool who d amount) s =
     (if validate_fund_pool env who d amount then fund_bounty_pool env who d amount s else Fail s CcInvalidMessage)"
| "cc_handle env authority digest self h (MsgUpdateCcParams who po) s = update_cc_params authority who po s"
| "cc_handle env authority digest self h (AutoSubmitChallenge d evidence) s = Done (auto_submit digest self h d evidence s) ()"

section \<open>Genesis\<close>

definition default_cc_genesis :: cc_genesis where
  "default_cc_genesis = \<lparr>ccg_params = Some default_cc_params, ccg_challenges = [], ccg_pools = []\<rparr>"

definition validate_cc_genesis :: "cc_genesis \<Rightarrow> bool" where
  "validate_cc_genesis gs \<longleftrightarrow> (case ccg_params gs of None \<Rightarrow> False | Some p \<Rightarrow> validate_cc_params p)"

definition init_cc_genesis :: "cc_genesis \<Rightarrow> 'b cc_state \<Rightarrow> 'b cc_state" where
  "init_cc_genesis gs s =
     (let s = (case ccg_params gs of None \<Rightarrow> s | Some p \<Rightarrow> set_cc_params p s)
      in fold set_bounty_pool (ccg_pools gs) (fold set_challenge (ccg_challenges gs) s))"

definition export_cc_genesis :: "'b cc_state \<Rightarrow> cc_genesis" where
  "export_cc_genesis s =
     \<lparr>ccg_params = Some (get_cc_params s), ccg_challenges = get_all_challenges s, ccg_pools = get_all_bounty_pools s\<rparr>"

section \<open>Queries and adapters\<close>

definition query_challenge :: "'b cc_state \<Rightarrow> string \<Rightarrow> cc_error + capture_challenge" where
  "query_challenge s k = (if k = [] then Inl CcInvalidMessage else of_option ChallengeNotFound (get_challenge s k))"

definition query_bounty_pool :: "'b cc_state \<Rightarrow> string \<Rightarrow> cc_error + bounty_pool" where
  "query_bounty_pool s d = (if d = [] then Inl CcInvalidMessage else of_option BountyPoolNotFound (get_bounty_pool s d))"

definition query_challenges_by_domain :: "'b cc_state \<Rightarrow> string \<Rightarrow> cc_error + capture_challenge list" where
  "query_challenges_by_domain s d =
     (if d = [] then Inl CcInvalidMessage else Inr (List.map_filter (get_challenge s) (get_challenges_by_domain s d)))"

definition query_active_challenges :: "'b cc_state \<Rightarrow> capture_challenge list" where
  "query_active_challenges s = filter (\<lambda>c. is_active (ch_status c)) (get_all_challenges s)"

definition is_upheld :: "capture_challenge \<Rightarrow> bool" where
  "is_upheld c \<longleftrightarrow> ch_status c = CHALLENGE_STATUS_RESOLVED \<and> (case ch_resolution c of None \<Rightarrow> False
     | Some r \<Rightarrow> cr_outcome r = CHALLENGE_OUTCOME_UPHELD)"

text \<open>The counter of the trust score, 32 bits wide.\<close>

definition count_upheld_strikes :: "'b cc_state \<Rightarrow> string \<Rightarrow> u32" where
  "count_upheld_strikes s a =
     (if a = [] then 0 else word_of_nat (length (filter (\<lambda>c. is_upheld c \<and> a \<in> set (ch_accused c)) (get_all_challenges s))))"

text \<open>What the training provenance sees: id, domain, resolved, outcome.\<close>

definition challenge_view :: "capture_challenge \<Rightarrow> string \<times> string \<times> bool \<times> string" where
  "challenge_view c = (ch_id c, ch_domain c, ch_status c = CHALLENGE_STATUS_RESOLVED, case ch_resolution c of None \<Rightarrow> []
     | Some r \<Rightarrow> (case cr_outcome r of CHALLENGE_OUTCOME_UPHELD \<Rightarrow> ''upheld'' | CHALLENGE_OUTCOME_REJECTED \<Rightarrow> ''rejected''
         | CHALLENGE_OUTCOME_PARTIAL \<Rightarrow> ''partial'' | CHALLENGE_OUTCOME_UNSPECIFIED \<Rightarrow> ''pending''))"

end
