(* ===== verification/Capture_Inv.thy ===== *)
theory Capture_Inv
  imports Capture
begin

text \<open>
  The books of x/capture_challenge: what the bounty pools record and the active challenges have staked, against what
  the module's account holds.  A rejected challenge sends its stake to the development fund and still adds it to the
  pool of the domain, so its stake appears on the side of the assets.
\<close>

section \<open>The invariant\<close>

lemma int_or_zero_nought [simp]: "int_or_zero ''0'' = 0"
  by code_simp

definition stake_of :: "capture_challenge \<Rightarrow> int" where
  "stake_of c = int_or_zero (ch_stake c)"

definition escrowed :: "capture_challenge \<Rightarrow> int" where
  "escrowed c = (if is_active (ch_status c) then stake_of c else 0)"

definition forfeited :: "capture_challenge \<Rightarrow> int" where
  "forfeited c = (case ch_resolution c of None \<Rightarrow> 0 | Some r \<Rightarrow> if cr_outcome r = CHALLENGE_OUTCOME_REJECTED then stake_of c else 0)"

definition pool_balance :: "bounty_pool \<Rightarrow> int" where
  "pool_balance p = int_or_zero (bp_balance p)"

text \<open>What is owed beyond what is held.\<close>

definition cc_gap :: "'b sdk \<Rightarrow> 'b cc_state \<Rightarrow> int" where
  "cc_gap env s = kv_sum pool_balance (cc_pools s) + kv_sum escrowed (cc_challenges s) - kv_sum forfeited (cc_challenges s) -
     bank_balance env (cc_bank s) (module_address env cc_module) uzrn"

definition challenge_ok :: "'b sdk \<Rightarrow> int \<Rightarrow> string \<Rightarrow> capture_challenge \<Rightarrow> bool" where
  "challenge_ok env h k c \<longleftrightarrow> ch_id c = k \<and> 0 \<le> stake_of c \<and> fits_sdk_int (stake_of c) \<and> uint (ch_created c) \<le> h \<and>
     (ch_resolution c \<noteq> None \<longleftrightarrow> ch_status c = CHALLENGE_STATUS_RESOLVED) \<and> ch_status c \<noteq> CHALLENGE_STATUS_UNSPECIFIED \<and>
     (uint (ch_created c) = h \<longrightarrow> 0 < stake_of c \<longrightarrow> ch_status c = CHALLENGE_STATUS_OPEN \<or> ch_status c = CHALLENGE_STATUS_EVIDENCE)"

definition pool_ok :: "string \<Rightarrow> bounty_pool \<Rightarrow> bool" where
  "pool_ok d p \<longleftrightarrow> bp_domain p = d \<and> 0 \<le> pool_balance p"

definition cc_ok :: "'b sdk \<Rightarrow> int \<Rightarrow> 'b cc_state \<Rightarrow> bool" where
  "cc_ok env h s \<longleftrightarrow> kv_ok (cc_challenges s) \<and> kv_ok (cc_pools s) \<and> (\<forall>k c. get_challenge s k = Some c \<longrightarrow> challenge_ok env h k c) \<and>
     (\<forall>d p. get_bounty_pool s d = Some p \<longrightarrow> pool_ok d p) \<and> validate_cc_params (get_cc_params s) \<and> cc_gap env s \<le> 0"

lemma cc_okD:
  assumes "cc_ok env h s"
  shows "kv_ok (cc_challenges s)" "kv_ok (cc_pools s)" "get_challenge s k = Some c \<Longrightarrow> challenge_ok env h k c"
    "get_bounty_pool s d = Some p \<Longrightarrow> pool_ok d p" "validate_cc_params (get_cc_params s)" "cc_gap env s \<le> 0"
  using assms unfolding cc_ok_def by blast+

text \<open>
  The bank refuses cleanly: a transfer of native coin out of a module that fails has moved nothing.  The reward and the
  refund of an expired stake are the two transfers whose failure the code does not stop on.
\<close>

definition clean_refusals :: "'b sdk \<Rightarrow> bool" where
  "clean_refusals env \<longleftrightarrow> (\<forall>m a y cs b b' e. new_coins env [(uzrn, y)] = Some cs \<longrightarrow> bank_to_account env m a cs b = Fail b' e \<longrightarrow>
     (\<forall>x d. bank_balance env b' x d = bank_balance env b x d))"

lemma refused_balance:
  "clean_refusals env \<Longrightarrow> new_coins env [(uzrn, y)] = Some cs \<Longrightarrow> bank_to_account env m a cs b = Fail b' e \<Longrightarrow>
     bank_balance env b' x d = bank_balance env b x d"
  unfolding clean_refusals_def by blast

lemma ledger_clean: "clean_refusals ledger_sdk"
  by (auto simp: clean_refusals_def ledger_sdk_def ledger_send_def Let_def split: if_splits)

definition cc_env :: "'b sdk \<Rightarrow> bool" where
  "cc_env env \<longleftrightarrow> sdk_laws env \<and> clean_refusals env \<and> valid_denom env uzrn"

section \<open>Writes\<close>

lemmas cc_writes = set_challenge_def set_bounty_pool_def set_domain_index_def set_paused_domain_def delete_paused_domain_def
  record_call_def cc_with_bank_def set_cc_params_def

lemmas cc_reads = get_challenge_def get_bounty_pool_def get_paused_domain_def get_cc_params_def

abbreviation held_by :: "'b sdk \<Rightarrow> 'b cc_state \<Rightarrow> addr \<Rightarrow> int" where
  "held_by env s a \<equiv> bank_balance env (cc_bank s) a uzrn"

definition gap_change :: "capture_challenge option \<Rightarrow> capture_challenge \<Rightarrow> int" where
  "gap_change old c = escrowed c - forfeited c - (case old of None \<Rightarrow> 0 | Some o' \<Rightarrow> escrowed o' - forfeited o')"

lemma gap_challenge:
  "kv_ok (cc_challenges s) \<Longrightarrow> cc_gap env (set_challenge c s) = cc_gap env s + gap_change (get_challenge s (ch_id c)) c"
  by (simp add: cc_gap_def set_challenge_def get_challenge_def kv_sum_set gap_change_def split: option.split)

lemma gap_pool:
  "kv_ok (cc_pools s) \<Longrightarrow> cc_gap env (set_bounty_pool p s) = cc_gap env s + pool_balance p -
     (case get_bounty_pool s (bp_domain p) of None \<Rightarrow> 0 | Some q \<Rightarrow> pool_balance q)"
  by (simp add: cc_gap_def set_bounty_pool_def get_bounty_pool_def kv_sum_set split: option.split)

lemma gap_bank:
  "cc_gap env (cc_with_bank b s) = cc_gap env s + held_by env s (module_address env cc_module) -
     bank_balance env b (module_address env cc_module) uzrn"
  by (simp add: cc_gap_def cc_with_bank_def)

lemma gap_other [simp]:
  "cc_gap env (record_call x s) = cc_gap env s" "cc_gap env (set_domain_index d k s) = cc_gap env s"
  "cc_gap env (set_paused_domain d u s) = cc_gap env s" "cc_gap env (delete_paused_domain d s) = cc_gap env s"
  "cc_gap env (set_cc_params p s) = cc_gap env s"
  by (simp_all add: cc_gap_def cc_writes)

text \<open>Records of the store only; the gap apart.\<close>

definition cc_records_ok :: "'b sdk \<Rightarrow> int \<Rightarrow> 'b cc_state \<Rightarrow> bool" where
  "cc_records_ok env h s \<longleftrightarrow> kv_ok (cc_challenges s) \<and> kv_ok (cc_pools s) \<and> (\<forall>k c. get_challenge s k = Some c \<longrightarrow> challenge_ok env h k c) \<and>
     (\<forall>d p. get_bounty_pool s d = Some p \<longrightarrow> pool_ok d p) \<and> validate_cc_params (get_cc_params s)"

lemma cc_ok_iff: "cc_ok env h s \<longleftrightarrow> cc_records_ok env h s \<and> cc_gap env s \<le> 0"
  by (auto simp: cc_ok_def cc_records_ok_def)

lemma records_other [simp]:
  "cc_records_ok env h (record_call x s) = cc_records_ok env h s"
  "cc_records_ok env h (set_domain_index d k s) = cc_records_ok env h s"
  "cc_records_ok env h (set_paused_domain d u s) = cc_records_ok env h s"
  "cc_records_ok env h (delete_paused_domain d s) = cc_records_ok env h s"
  "cc_records_ok env h (cc_with_bank b s) = cc_records_ok env h s"
  by (simp_all add: cc_records_ok_def cc_writes cc_reads)

lemma records_challenge: "cc_records_ok env h s \<Longrightarrow> challenge_ok env h (ch_id c) c \<Longrightarrow> cc_records_ok env h (set_challenge c s)"
  by (auto simp: cc_records_ok_def cc_writes cc_reads)

lemma records_pool: "cc_records_ok env h s \<Longrightarrow> pool_ok (bp_domain p) p \<Longrightarrow> cc_records_ok env h (set_bounty_pool p s)"
  by (auto simp: cc_records_ok_def cc_writes cc_reads)

lemma records_params: "cc_records_ok env h s \<Longrightarrow> validate_cc_params p \<Longrightarrow> cc_records_ok env h (set_cc_params p s)"
  by (auto simp: cc_records_ok_def cc_writes cc_reads)

lemma cc_recordsD:
  assumes "cc_records_ok env h s"
  shows "kv_ok (cc_challenges s)" "kv_ok (cc_pools s)" "get_challenge s k = Some c \<Longrightarrow> challenge_ok env h k c"
    "get_bounty_pool s d = Some p \<Longrightarrow> pool_ok d p" "validate_cc_params (get_cc_params s)"
  using assms unfolding cc_records_ok_def by blast+

section \<open>Payments\<close>

text \<open>
  What a payment leaves alone: everything but the bank and the pools.  \<open>paid\<close> says what the accounts gained:
  \<open>x\<close> went to \<open>a\<close> and \<open>y\<close> to the development fund.
\<close>

definition paid :: "'b sdk \<Rightarrow> addr \<Rightarrow> int \<Rightarrow> int \<Rightarrow> 'b cc_state \<Rightarrow> 'b cc_state \<Rightarrow> bool" where
  "paid env a x y s s' \<longleftrightarrow> 0 \<le> x \<and> 0 \<le> y \<and> (\<forall>c. held_by env s' c = held_by env s c + (if c = a then x else 0) +
     (if c = module_address env cc_dev_fund then y else 0) - (if c = module_address env cc_module then x + y else 0))"

lemma paid_refl: "paid env a 0 0 s s"
  by (simp add: paid_def)

lemma paid_trans: "paid env a x y s s1 \<Longrightarrow> paid env a x' y' s1 s2 \<Longrightarrow> paid env a (x + x') (y + y') s s2"
  by (auto simp: paid_def)

lemma paid_same_bank: "paid env a x y s s1 \<Longrightarrow> cc_bank s2 = cc_bank s1 \<Longrightarrow> paid env a x y s s2"
  by (simp add: paid_def)

lemma send_stake_paid:
  assumes "sdk_laws env" "send_stake env a x s = Done s' u"
  shows "paid env a (max 0 x) 0 s s' \<and> (\<exists>b. s' = cc_with_bank b s)"
proof (cases "x \<le> 0")
  case True
  with assms(2) have "s' = s" by (simp add: send_stake_def)
  then show ?thesis using True by (auto simp: paid_def cc_with_bank_def intro: exI [of _ "cc_bank s"])
next
  case False
  with assms(2) obtain cs b where cs: "new_coins env [(uzrn, x)] = Some cs"
    and b: "bank_to_account env cc_module a cs (cc_bank s) = Done b ()" "s' = cc_with_bank b s"
    by (auto simp: send_stake_def outcome_simps)
  show ?thesis using bank_to_account_moved [OF assms(1) b(1)] single_coin_amount [OF cs] False b(2)
    by (auto simp: paid_def moved_balance cc_with_bank_def)
qed

lemma send_to_fund_paid:
  assumes "sdk_laws env" "send_to_fund env x s = Done s' u"
  shows "paid env a 0 (max 0 x) s s' \<and> (\<exists>b. s' = cc_with_bank b s)"
proof (cases "x \<le> 0")
  case True
  with assms(2) have "s' = s" by (simp add: send_to_fund_def)
  then show ?thesis using True by (auto simp: paid_def cc_with_bank_def intro: exI [of _ "cc_bank s"])
next
  case False
  with assms(2) obtain cs b where cs: "new_coins env [(uzrn, x)] = Some cs"
    and b: "bank_mod_to_mod env cc_module cc_dev_fund cs (cc_bank s) = Done b ()" "s' = cc_with_bank b s"
    by (auto simp: send_to_fund_def outcome_simps)
  show ?thesis using bank_mod_to_mod_moved [OF assms(1) b(1)] single_coin_amount [OF cs] False b(2)
    by (auto simp: paid_def moved_balance cc_with_bank_def)
qed

section \<open>Settlements\<close>

definition recorded :: "'b cc_state \<Rightarrow> string \<Rightarrow> int" where
  "recorded s d = (case get_bounty_pool s d of None \<Rightarrow> 0 | Some p \<Rightarrow> pool_balance p)"

text \<open>A settlement pays \<open>x\<close> to \<open>a\<close> and \<open>y\<close> to the fund, and adds \<open>z\<close> to the pool of \<open>d\<close>.\<close>

definition settles :: "'b sdk \<Rightarrow> addr \<Rightarrow> string \<Rightarrow> int \<Rightarrow> int \<Rightarrow> int \<Rightarrow> 'b cc_state \<Rightarrow> 'b cc_state \<Rightarrow> bool" where
  "settles env a d x y z s s' \<longleftrightarrow> paid env a x y s s' \<and> cc_challenges s' = cc_challenges s \<and>
     cc_params_record s' = cc_params_record s \<and> (\<forall>e. recorded s' e = recorded s e + (if e = d then z else 0)) \<and>
     (\<forall>h. cc_records_ok env h s \<longrightarrow> cc_records_ok env h s') \<and> cc_gap env s' \<le> cc_gap env s + x + y + z"

lemma settles_trans:
  "settles env a d x y z s s1 \<Longrightarrow> settles env a d x' y' z' s1 s2 \<Longrightarrow> settles env a d (x + x') (y + y') (z + z') s s2"
  unfolding settles_def by (auto intro: paid_trans)

lemma settles_call: "settles env a d x y z s s1 \<Longrightarrow> settles env a d x y z s (record_call c s1)"
  unfolding settles_def records_other gap_other by (simp add: record_call_def paid_def recorded_def cc_reads)

lemma settles_calls: "settles env a d x y z s s1 \<Longrightarrow> settles env a d x y z s (fold (\<lambda>v. record_call (f v)) vs s1)"
  by (induction vs arbitrary: s1) (auto intro: settles_call)

lemma settles_bank:
  assumes "paid env a x y s s'" "s' = cc_with_bank b s"
  shows "settles env a d x y 0 s s'"
proof -
  have "cc_gap env s' \<le> cc_gap env s + x + y"
    unfolding assms(2) gap_bank using assms(1) by (auto simp: assms(2) paid_def cc_with_bank_def)
  moreover have "cc_challenges s' = cc_challenges s" "cc_params_record s' = cc_params_record s" "recorded s' e = recorded s e" for e
    by (simp_all add: assms(2) cc_with_bank_def recorded_def cc_reads)
  moreover have "cc_records_ok env h s' = cc_records_ok env h s" for h by (simp add: assms(2))
  ultimately show ?thesis using assms(1) by (simp add: settles_def)
qed

lemma settles_refl: "settles env a d 0 0 0 s s"
  by (simp add: settles_def paid_refl)

lemma settles_pool:
  assumes "cc_records_ok env h s" "bp_domain p = d" "0 \<le> pool_balance p"
  shows "settles env a d 0 0 (pool_balance p - recorded s d) s (set_bounty_pool p s)"
  using assms records_pool [of env _ s p] gap_pool [OF cc_recordsD(2) [OF assms(1)], of env p]
  by (auto simp: settles_def paid_def recorded_def cc_writes cc_reads pool_ok_def split: option.splits)

lemma settles_add_to_pool:
  assumes "cc_records_ok env h s" "0 \<le> x"
  shows "settles env a d 0 0 x s (add_to_pool d x s)"
proof -
  define pool where "pool = (case get_bounty_pool s d of None \<Rightarrow> \<lparr>bp_domain = d, bp_balance = ''0''\<rparr> | Some pool \<Rightarrow> pool)"
  let ?p = "pool\<lparr>bp_balance := big_string (int_or_zero (bp_balance pool) + x)\<rparr>"
  have "bp_domain pool = d" "pool_balance pool = recorded s d" "0 \<le> recorded s d"
    using cc_recordsD(4) [OF assms(1), of d]
    by (auto simp: pool_def recorded_def pool_ok_def pool_balance_def split: option.split)
  then have p: "bp_domain ?p = d" "pool_balance ?p - recorded s d = x" "0 \<le> pool_balance ?p" using assms(2) by (simp_all add: pool_balance_def)
  from settles_pool [OF assms(1) p(1,3), of a] show ?thesis by (simp add: p(2) add_to_pool_def pool_def [symmetric])
qed

text \<open>The reward the rules allow; it is paid in full or, when the bank refuses, not at all.\<close>

definition reward_due :: "'b cc_state \<Rightarrow> string \<Rightarrow> int \<Rightarrow> int" where
  "reward_due s d part = (case get_bounty_pool s d of None \<Rightarrow> 0 | Some pool \<Rightarrow> pool_share (get_cc_params s) pool div part)"

definition refused :: "'b sdk \<Rightarrow> addr \<Rightarrow> int \<Rightarrow> 'b \<Rightarrow> bool" where
  "refused env a x b \<longleftrightarrow> (\<exists>cs b' e. new_coins env [(uzrn, x)] = Some cs \<and> bank_to_account env cc_module a cs b = Fail b' e)"

lemma reward_due_range:
  assumes "cc_records_ok env h s" "0 < part"
  shows "0 \<le> reward_due s d part \<and> reward_due s d part \<le> recorded s d"
proof (cases "get_bounty_pool s d")
  case None
  then show ?thesis by (simp add: reward_due_def recorded_def)
next
  case (Some pool)
  have pos: "0 \<le> pool_balance pool" using cc_recordsD(4) [OF assms(1) Some] by (simp add: pool_ok_def)
  have rate: "uint (reward_rate_bps (get_cc_params s)) \<le> 1000000"
    using cc_recordsD(5) [OF assms(1)] by (simp add: validate_cc_params_def u64_less not_less)
  have "pool_balance pool * uint (reward_rate_bps (get_cc_params s)) \<le> pool_balance pool * 1000000"
    using pos rate by (rule mult_left_mono [rotated])
  then have "pool_share (get_cc_params s) pool \<le> pool_balance pool" unfolding pool_share_def pool_balance_def [symmetric]
    by (intro div_le_self_mult) simp_all
  moreover have "0 \<le> pool_share (get_cc_params s) pool" using pos by (simp add: pool_share_def pool_balance_def pos_imp_zdiv_nonneg_iff)
  moreover have "x div part \<le> x" if "0 \<le> x" for x using mult_left_mono [of 1 part x] that assms(2) by (intro div_le_self_mult) simp_all
  ultimately show ?thesis using Some assms(2) by (auto simp: reward_due_def recorded_def pos_imp_zdiv_nonneg_iff intro: order_trans)
qed

lemma pay_reward_Done:
  assumes "pay_reward env a pool x s = Done s' r" "0 < x"
  shows "\<exists>cs b. new_coins env [(uzrn, x)] = Some cs \<and>
    ((\<exists>e. bank_to_account env cc_module a cs (cc_bank s) = Fail b e) \<and> s' = cc_with_bank b s \<and> r = 0 \<or>
     bank_to_account env cc_module a cs (cc_bank s) = Done b () \<and> r = x \<and>
       s' = set_bounty_pool (pool\<lparr>bp_balance := big_string (int_or_zero (bp_balance pool) - x)\<rparr>) (cc_with_bank b s))"
proof -
  from assms obtain cs where cs: "new_coins env [(uzrn, x)] = Some cs"
    by (auto simp: pay_reward_def outcome_simps)
  then show ?thesis using assms
    by (cases "bank_to_account env cc_module a cs (cc_bank s)") (auto simp: pay_reward_def)
qed

lemma reward_settles:
  assumes env: "cc_env env" and ok: "cc_records_ok env h s" and part: "0 < part" and run: "reward_from_pool env a d part s = Done s' r"
  shows "r = (if refused env a (reward_due s d part) (cc_bank s) then 0 else reward_due s d part) \<and> settles env a d r 0 (- r) s s'"
proof (cases "0 < reward_due s d part")
  case False
  then have due: "reward_due s d part = 0" using reward_due_range [OF ok part, of d] by simp
  with run have "s' = s \<and> r = 0"
    by (auto simp: reward_from_pool_def reward_due_def pay_reward_def split: option.splits)
  then show ?thesis using due by (simp add: settles_refl)
next
  case True
  note due = True
  then obtain pool where pool: "get_bounty_pool s d = Some pool" "reward_due s d part = pool_share (get_cc_params s) pool div part"
    by (auto simp: reward_due_def split: option.splits)
  with run have "pay_reward env a pool (reward_due s d part) s = Done s' r" by (simp add: reward_from_pool_def)
  from pay_reward_Done [OF this True] obtain cs b where cs: "new_coins env [(uzrn, reward_due s d part)] = Some cs"
    and out: "(\<exists>e. bank_to_account env cc_module a cs (cc_bank s) = Fail b e) \<and> s' = cc_with_bank b s \<and> r = 0 \<or>
      bank_to_account env cc_module a cs (cc_bank s) = Done b () \<and> r = reward_due s d part \<and>
      s' = set_bounty_pool (pool\<lparr>bp_balance := big_string (int_or_zero (bp_balance pool) - reward_due s d part)\<rparr>) (cc_with_bank b s)"
    by blast
  show ?thesis
  proof (cases "r = 0 \<and> s' = cc_with_bank b s \<and> (\<exists>e. bank_to_account env cc_module a cs (cc_bank s) = Fail b e)")
    case True
    then have "paid env a 0 0 s (cc_with_bank b s)" using env
      refused_balance [OF _ cs, of cc_module a "cc_bank s" b]
      by (auto simp: cc_env_def paid_def cc_with_bank_def)
    moreover from True cs have "refused env a (reward_due s d part) (cc_bank s)" by (auto simp: refused_def)
    ultimately show ?thesis using settles_bank [OF _ refl, of env a 0 0 s b d] True by simp
  next
    case False
    with out have Done: "bank_to_account env cc_module a cs (cc_bank s) = Done b ()" by blast
    let ?x = "reward_due s d part" and ?s = "cc_with_bank b s"
    let ?p = "pool\<lparr>bp_balance := big_string (int_or_zero (bp_balance pool) - ?x)\<rparr>"
    have "moved env (module_address env cc_module) a cs (cc_bank s) b"
      using env bank_to_account_moved Done by (auto simp: cc_env_def)
    then have "paid env a ?x 0 s ?s" using single_coin_amount [OF cs] due
      by (auto simp: paid_def moved_balance cc_with_bank_def)
    note one = settles_bank [OF this refl, of d]
    have rec: "recorded ?s d = pool_balance pool" using pool(1) by (simp add: recorded_def cc_reads cc_with_bank_def)
    have rec0: "recorded s d = pool_balance pool" using pool(1) by (simp add: recorded_def)
    have "pool_balance ?p = pool_balance pool - ?x" by (simp add: pool_balance_def)
    then have "bp_domain ?p = d" "0 \<le> pool_balance ?p" "pool_balance ?p - recorded ?s d = - ?x"
      using cc_recordsD(4) [OF ok pool(1)] reward_due_range [OF ok part, of d] by (simp_all add: pool_ok_def rec rec0)
    then have "settles env a d 0 0 (- ?x) ?s (set_bounty_pool ?p ?s)"
      using settles_pool [of env h ?s ?p d a] ok by simp
    note both = settles_trans [OF one this]
    have "\<not> refused env a ?x (cc_bank s)" using cs Done by (auto simp: refused_def)
    with both out False show ?thesis by auto
  qed
qed

lemma stake_settles:
  "sdk_laws env \<Longrightarrow> send_stake env a x s = Done s' u \<Longrightarrow> 0 \<le> x \<Longrightarrow> settles env a d x 0 0 s s'"
  using send_stake_paid [of env a x s s' u] by (auto intro: settles_bank simp: max_def)

lemma fund_settles:
  "sdk_laws env \<Longrightarrow> send_to_fund env x s = Done s' u \<Longrightarrow> 0 \<le> x \<Longrightarrow> settles env a d 0 x 0 s s'"
  using send_to_fund_paid [of env x s s' u a] by (auto intro: settles_bank simp: max_def)

end
