(* ===== verification/Capture_Steps.thy ===== *)
theory Capture_Steps
  imports Capture_Inv
begin

text \<open>
  The handlers of x/capture_challenge keep the books, and so does the block hook, which never stops; with that the
  invariant of every reachable state (interpretation \<open>cc\<close> of \<open>live_module\<close>).
\<close>

section \<open>Submission and evidence\<close>

lemma check_pause_Done [outcome_simps]:
  "check_pause now d s = Done s' u \<longleftrightarrow> (s' = s \<and> get_paused_domain s d = None \<or>
     s' = delete_paused_domain d s \<and> (\<exists>u. get_paused_domain s d = Some u \<and> u \<le> now))"
  by (auto simp: check_pause_def not_less split: option.splits)

lemma pause_frame:
  assumes "check_pause now d s = Done s1 u"
  shows "cc_gap env s1 = cc_gap env s" "cc_records_ok env h s1 = cc_records_ok env h s" "cc_bank s1 = cc_bank s"
    "get_challenge s1 k = get_challenge s k" "cc_challenges s1 = cc_challenges s" "recorded s1 e = recorded s e" "get_cc_params s1 = get_cc_params s"
  using assms by (auto simp: outcome_simps delete_paused_domain_def cc_reads recorded_def cc_gap_def cc_records_ok_def)

lemma submit_challenge_effect:
  assumes "sdk_laws env" "submit_challenge env digest h m s = Done s' k"
  obtains a x s1 b where "acc_address env (mc_challenger m) = Some a" "positive_int (mc_stake m) = Some x" "fits_sdk_int x"
    "int_or_zero (min_challenge_stake (get_cc_params s)) \<le> x"
    "check_pause (to_u64 h) (mc_domain m) s = Done s1 ()" "k = generate_challenge_id digest (mc_challenger m) (mc_domain m) h"
    "\<And>c. bank_balance env b c uzrn = held_by env s c - (if c = a then x else 0) + (if c = module_address env cc_module then x else 0)"
    "s' = store_submission k (to_u64 h) (get_cc_params s) m (cc_with_bank b s1)"
proof -
  from assms(2) obtain a x s1 cs b where *: "acc_address env (mc_challenger m) = Some a" "positive_int (mc_stake m) = Some x"
      "\<not> x < int_or_zero (min_challenge_stake (get_cc_params s))" "check_pause (to_u64 h) (mc_domain m) s = Done s1 ()"
    and cs: "new_coins env [(uzrn, x)] = Some cs" "bank_to_module env a cc_module cs (cc_bank s1) = Done b ()"
    and k: "k = generate_challenge_id digest (mc_challenger m) (mc_domain m) h"
    and s': "s' = store_submission k (to_u64 h) (get_cc_params s) m (cc_with_bank b s1)"
    unfolding submit_challenge_def Let_def outcome_simps of_option_Inr by blast
  have fits: "fits_sdk_int x" using new_coins_ok [OF cs(1)] by (simp add: coin_ok_def)
  have "moved env a (module_address env cc_module) cs (cc_bank s1) b" using bank_to_module_moved [OF assms(1) cs(2)] .
  then have "bank_balance env b c uzrn = held_by env s c - (if c = a then x else 0) + (if c = module_address env cc_module then x else 0)" for c
    using single_coin_amount [OF cs(1)] pause_frame(3) [OF *(4)] by (simp add: moved_balance)
  from that [OF *(1,2) fits _ *(4) k this s'] *(3) show thesis by simp
qed

lemma submit_challenge_kept:
  assumes laws: "sdk_laws env" and ok: "cc_ok env h s" and h: "0 \<le> h" "h < 2 ^ 63" and run: "submit_challenge env digest h m s = Done s' k"
    and payer: "acc_address env (mc_challenger m) \<noteq> Some (module_address env cc_module)"
    and fresh: "\<And>c. get_challenge s (generate_challenge_id digest (mc_challenger m) (mc_domain m) h) = Some c \<Longrightarrow> ch_created c = to_u64 h"
  shows "cc_ok env h s'"
proof -
  obtain a x s1 b where a: "acc_address env (mc_challenger m) = Some a" and x: "positive_int (mc_stake m) = Some x" "fits_sdk_int x"
    and s1: "check_pause (to_u64 h) (mc_domain m) s = Done s1 ()" and k: "k = generate_challenge_id digest (mc_challenger m) (mc_domain m) h"
    and b: "\<And>c. bank_balance env b c uzrn = held_by env s c - (if c = a then x else 0) + (if c = module_address env cc_module then x else 0)"
    and s': "s' = store_submission k (to_u64 h) (get_cc_params s) m (cc_with_bank b s1)"
    by (rule submit_challenge_effect [OF laws run]) (rule that)
  let ?c = "new_challenge k (to_u64 h) (get_cc_params s) m" and ?s = "cc_with_bank b s1"
  note f = pause_frame [OF s1]
  have rec: "cc_records_ok env h s" and gap: "cc_gap env s \<le> 0" using ok by (simp_all add: cc_ok_iff)
  have stake: "stake_of ?c = x" "0 < x" using x(1) by (simp_all add: stake_of_def new_challenge_def Let_def positive_int_Some int_or_zero_Some)
  have new: "ch_id ?c = k" "ch_status ?c = CHALLENGE_STATUS_EVIDENCE" "ch_resolution ?c = None" "ch_created ?c = to_u64 h"
    by (simp_all add: new_challenge_def Let_def)
  have now: "uint (to_u64 h) = h" using h by (simp add: uint_to_u64)
  have c_ok: "challenge_ok env h (ch_id ?c) ?c" using stake x(2) new now by (simp add: challenge_ok_def)
  have "a \<noteq> module_address env cc_module" using payer a by auto
  then have "cc_gap env ?s = cc_gap env s - x" by (simp add: gap_bank f(1) f(3) b)
  moreover have e: "escrowed ?c = x" "forfeited ?c = 0" using stake new by (simp_all add: escrowed_def forfeited_def is_active_def)
  have same: "get_challenge ?s k = get_challenge s k" using f(4) by (simp add: cc_with_bank_def cc_reads)
  have "gap_change (get_challenge ?s k) ?c \<le> x"
  proof (cases "get_challenge s k")
    case None
    then show ?thesis by (simp add: gap_change_def e same)
  next
    case (Some c)
    with fresh [of c] have "ch_created c = to_u64 h" by (simp add: k)
    with cc_recordsD(3) [OF rec Some] now have "0 \<le> escrowed c" "forfeited c \<le> 0"
      by (auto simp: challenge_ok_def escrowed_def forfeited_def split: option.splits)
    with Some show ?thesis by (simp add: gap_change_def e same)
  qed
  moreover have "kv_ok (cc_challenges ?s)" using cc_recordsD(1) [OF rec] f(5) by (simp add: cc_with_bank_def)
  ultimately have "cc_gap env (set_challenge ?c ?s) \<le> 0" using gap by (simp add: gap_challenge new)
  moreover have "cc_records_ok env h (set_challenge ?c ?s)" by (rule records_challenge [OF _ c_ok]) (simp add: f(2) rec)
  ultimately show ?thesis by (simp add: cc_ok_iff s' store_submission_def Let_def)
qed

lemma replace_challenge:
  assumes "cc_ok env h s" "get_challenge s k = Some c" "challenge_ok env h k c'" "escrowed c' - forfeited c' = escrowed c - forfeited c"
  shows "cc_ok env h (set_challenge c' s)"
  using assms gap_challenge [OF cc_okD(1) [OF assms(1)], of env c'] records_challenge [of env h s c']
  by (auto simp: cc_ok_iff gap_change_def challenge_ok_def)

lemma add_evidence_kept:
  assumes ok: "cc_ok env h s" and run: "add_evidence h who k description data_hash s = Done s' u"
  shows "cc_ok env h s'"
proof -
  from run obtain c where c: "get_challenge s k = Some c" and s': "s' = set_challenge (c\<lparr>ch_evidence := ch_evidence c @
      [\<lparr>ce_description = description, ce_data_hash = data_hash, ce_block = to_u64 h\<rparr>]\<rparr>) s"
    by (auto simp: add_evidence_def outcome_simps split: option.splits)
  show ?thesis unfolding s'
    by (rule replace_challenge [OF ok c]) (use cc_okD(3) [OF ok c] in \<open>auto simp: challenge_ok_def stake_of_def escrowed_def forfeited_def\<close>)
qed

lemma auto_submit_kept:
  assumes ok: "cc_ok env h s" and h: "0 \<le> h" "h < 2 ^ 63"
    and fresh: "\<And>c. get_challenge s (generate_challenge_id digest self d h) = Some c \<Longrightarrow> ch_created c = to_u64 h"
  shows "cc_ok env h (auto_submit digest self h d evidence s)"
proof (cases "auto_submit digest self h d evidence s = s")
  case True
  with ok show ?thesis by simp
next
  case False
  then obtain c where s': "auto_submit digest self h d evidence s = set_domain_index d (ch_id c) (set_challenge c s)"
    and c: "ch_id c = generate_challenge_id digest self d h" "stake_of c = 0" "ch_created c = to_u64 h" "ch_resolution c = None"
      "ch_status c = CHALLENGE_STATUS_UNDER_REVIEW"
    by (auto simp: auto_submit_def Let_def stake_of_def split: if_splits)
  have rec: "cc_records_ok env h s" and gap: "cc_gap env s \<le> 0" using ok by (simp_all add: cc_ok_iff)
  have now: "uint (to_u64 h) = h" using h by (simp add: uint_to_u64)
  have "gap_change (get_challenge s (ch_id c)) c \<le> 0"
  proof (cases "get_challenge s (ch_id c)")
    case None
    then show ?thesis using c by (simp add: gap_change_def escrowed_def forfeited_def)
  next
    case (Some o')
    with fresh [of o'] cc_recordsD(3) [OF rec Some] now c(1) have "0 \<le> escrowed o'" "forfeited o' \<le> 0"
      by (auto simp: challenge_ok_def escrowed_def forfeited_def split: option.splits)
    then show ?thesis using Some c by (simp add: gap_change_def escrowed_def [of c] forfeited_def [of c])
  qed
  moreover have "challenge_ok env h (ch_id c) c" using c now by (simp add: challenge_ok_def fits_sdk_int_def)
  ultimately show ?thesis using gap rec records_challenge [of env h s c] gap_challenge [OF cc_recordsD(1) [OF rec], of env c]
    by (simp add: cc_ok_iff s')
qed

lemma fund_pool_kept:
  assumes laws: "sdk_laws env" and ok: "cc_ok env h s" and run: "fund_bounty_pool env who d amount s = Done s' u"
    and payer: "acc_address env who \<noteq> Some (module_address env cc_module)"
  shows "cc_ok env h s'"
proof -
  from run obtain a x cs b where a: "acc_address env who = Some a" and x: "positive_int amount = Some x" and cs: "new_coins env [(uzrn, x)] = Some cs"
    and b: "bank_to_module env a cc_module cs (cc_bank s) = Done b ()" and s': "s' = add_to_pool d x (cc_with_bank b s)"
    by (auto simp: fund_bounty_pool_def outcome_simps)
  have pos: "0 < x" using x by (simp add: positive_int_Some)
  have "moved env a (module_address env cc_module) cs (cc_bank s) b" using bank_to_module_moved [OF laws b] .
  then have "cc_gap env (cc_with_bank b s) = cc_gap env s - x"
    using a payer single_coin_amount [OF cs] by (auto simp: gap_bank moved_balance)
  moreover have "cc_records_ok env h (cc_with_bank b s)" using ok by (simp add: cc_ok_iff)
  note settles_add_to_pool [OF this, of x a d]
  ultimately show ?thesis using pos ok by (auto simp: cc_ok_iff settles_def s')
qed

section \<open>Resolution\<close>

text \<open>What the three outcomes pay: to the challenger, to the fund, and into the pool of the domain.\<close>

fun resolution_payout :: "challenge_outcome \<Rightarrow> int \<Rightarrow> int \<Rightarrow> int \<times> int \<times> int" where
  "resolution_payout CHALLENGE_OUTCOME_UPHELD stake r = (stake + r, 0, - r)"
| "resolution_payout CHALLENGE_OUTCOME_REJECTED stake r = (0, stake, stake)"
| "resolution_payout CHALLENGE_OUTCOME_PARTIAL stake r = (stake div 2 + r, stake - stake div 2, - r)"
| "resolution_payout CHALLENGE_OUTCOME_UNSPECIFIED stake r = (0, 0, 0)"

definition reward_part :: "challenge_outcome \<Rightarrow> int" where
  "reward_part outc = (if outc = CHALLENGE_OUTCOME_PARTIAL then 2 else 1)"

text \<open>
  The state in which the reward is paid: a partial resolution has returned half of the stake and sent the rest away
  before.  The reward is the share that the rules allow, unless the bank refuses the transfer in that state.
\<close>

definition reward_state :: "'b sdk \<Rightarrow> addr \<Rightarrow> challenge_outcome \<Rightarrow> int \<Rightarrow> 'b cc_state \<Rightarrow> 'b cc_state" where
  "reward_state env a outc stake s =
     (if outc = CHALLENGE_OUTCOME_PARTIAL
      then final_state (and_then (send_stake env a (stake div 2) s) (\<lambda>s _. send_to_fund env (stake - stake div 2) s)) else s)"

definition reward_of :: "'b sdk \<Rightarrow> addr \<Rightarrow> capture_challenge \<Rightarrow> challenge_outcome \<Rightarrow> 'b cc_state \<Rightarrow> int" where
  "reward_of env a c outc s =
     (let due = reward_due s (ch_domain c) (reward_part outc)
      in if refused env a due (cc_bank (reward_state env a outc (stake_of c) s)) then 0 else due)"

lemma resolve_upheld_settles:
  assumes env: "cc_env env" and ok: "cc_records_ok env h s" and stake: "0 \<le> stake"
    and run: "resolve_upheld env now a stake reason c s = Done s' (c', reward, slash)"
  obtains r where "settles env a (ch_domain c) (stake + r) 0 (- r) s s'"
    "r = (if refused env a (reward_due s (ch_domain c) 1) (cc_bank s) then 0 else reward_due s (ch_domain c) 1)"
    "c'\<lparr>ch_slashes := ch_slashes c\<rparr> = c" "reward = big_string r"
proof -
  from run obtain s1 r s2 where r: "reward_from_pool env a (ch_domain c) 1 s = Done s1 r" and s2: "send_stake env a stake s1 = Done s2 ()"
    and s': "s' = record_call (RecordChallengeRoleImpact (ch_id c) (ch_domain c) True) (record_call
        (IncreaseVerificationThreshold (ch_domain c) 2 (to_u64 now + 50000))
        (fold (\<lambda>v. record_call (ReduceQualificationWeight v (ch_domain c) 500000 (to_u64 now + 50000))) (ch_accused c) s2))"
    and c': "c' = c\<lparr>ch_slashes := map (\<lambda>v. \<lparr>vl_validator = v, vl_amount = big_string (slash_of (get_cc_params s1) stake), vl_reason = reason\<rparr>)
        (ch_accused c)\<rparr>" "reward = big_string r"
    by (auto simp: resolve_upheld_def Let_def outcome_simps)
  have laws: "sdk_laws env" using env by (simp add: cc_env_def)
  note one = reward_settles [OF env ok zero_less_one r]
  note two = settles_trans [OF one [THEN conjunct2] stake_settles [OF laws s2 stake]]
  have "settles env a (ch_domain c) (stake + r) 0 (- r) s s'" unfolding s'
    by (intro settles_call settles_calls) (use two in \<open>simp add: add.commute\<close>)
  then show thesis using one c' by (intro that [of r]) simp_all
qed

lemma resolve_rejected_settles:
  assumes env: "cc_env env" and ok: "cc_records_ok env h s" and stake: "0 \<le> stake"
    and run: "resolve_rejected env stake c s = Done s' (c', reward, slash)"
  shows "settles env a (ch_domain c) 0 stake stake s s' \<and> c' = c \<and> reward = ''0''"
proof -
  have laws: "sdk_laws env" using env by (simp add: cc_env_def)
  from run obtain s1 where s1: "send_to_fund env stake s = Done s1 ()"
    and s': "s' = record_call (RecordChallengeRoleImpact (ch_id c) (ch_domain c) False) (record_call (ClearCaptureFlag (ch_domain c))
        (add_to_pool (ch_domain c) stake s1))" "c' = c" "reward = ''0''"
    by (auto simp: resolve_rejected_def Let_def outcome_simps)
  note one = fund_settles [OF laws s1 stake, of a "ch_domain c"]
  then have "cc_records_ok env h s1" using ok by (simp add: settles_def)
  from settles_trans [OF one settles_add_to_pool [OF this stake]] s' show ?thesis by (simp add: settles_call)
qed

lemma reward_due_bank: "reward_due (cc_with_bank b s) d part = reward_due s d part"
proof -
  have "get_cc_params (cc_with_bank b s) = get_cc_params s" "get_bounty_pool (cc_with_bank b s) d = get_bounty_pool s d"
    by (simp_all add: cc_reads cc_with_bank_def)
  then show ?thesis by (simp add: reward_due_def cong: option.case_cong)
qed

lemma resolve_partial_settles:
  assumes env: "cc_env env" and ok: "cc_records_ok env h s" and stake: "0 \<le> stake"
    and run: "resolve_partial env a stake c s = Done s' (c', reward, slash)"
  obtains r where "settles env a (ch_domain c) (stake div 2 + r) (stake - stake div 2) (- r) s s'"
    "r = (if refused env a (reward_due s (ch_domain c) 2) (cc_bank (reward_state env a CHALLENGE_OUTCOME_PARTIAL stake s)) then 0
      else reward_due s (ch_domain c) 2)" "c' = c" "reward = big_string r"
proof -
  have laws: "sdk_laws env" using env by (simp add: cc_env_def)
  from run obtain s1 s2 r where s1: "send_stake env a (stake div 2) s = Done s1 ()" and s2: "send_to_fund env (stake - stake div 2) s1 = Done s2 ()"
    and r: "reward_from_pool env a (ch_domain c) 2 s2 = Done s' r" and c': "c' = c" "reward = big_string r"
    by (auto simp: resolve_partial_def Let_def outcome_simps)
  have half: "0 \<le> stake div 2" "0 \<le> stake - stake div 2" using stake by simp_all
  note two = settles_trans [OF stake_settles [OF laws s1 half(1)] fund_settles [OF laws s2 half(2)], of "ch_domain c"]
  then have ok2: "cc_records_ok env h s2" using ok by (simp add: settles_def)
  note three = reward_settles [OF env ok2 _ r]
  have "reward_due s2 (ch_domain c) 2 = reward_due s (ch_domain c) 2"
  proof -
    have "\<exists>b. s1 = cc_with_bank b s" "\<exists>b. s2 = cc_with_bank b s1" using send_stake_paid [OF laws s1] send_to_fund_paid [OF laws s2] by blast+
    then show ?thesis by (auto simp: reward_due_bank)
  qed
  moreover have "reward_state env a CHALLENGE_OUTCOME_PARTIAL stake s = s2" using s1 s2 by (simp add: reward_state_def)
  ultimately show thesis using three settles_trans [OF two three [THEN conjunct2]] c' by (intro that [of r]) simp_all
qed

lemma resolve_challenge_effect:
  assumes env: "cc_env env" and ok: "cc_records_ok env h s"
    and run: "resolve_challenge env authority now who k outc reason s = Done s' u"
  obtains c a r s1 c' x y z where "who = authority" "get_challenge s k = Some c" "ch_status c = CHALLENGE_STATUS_UNDER_REVIEW"
    "acc_address env (ch_challenger c) = Some a" "outc \<noteq> CHALLENGE_OUTCOME_UNSPECIFIED"
    "r = reward_of env a c outc s" "(x, y, z) = resolution_payout outc (stake_of c) r"
    "settles env a (ch_domain c) x y z s s1" "s' = set_challenge c' s1"
    "ch_id c' = k" "ch_status c' = CHALLENGE_STATUS_RESOLVED" "ch_stake c' = ch_stake c" "ch_created c' = ch_created c"
    "\<exists>res. ch_resolution c' = Some res \<and> cr_outcome res = outc \<and> cr_resolver res = who \<and>
       (outc \<noteq> CHALLENGE_OUTCOME_REJECTED \<longrightarrow> cr_reward res = big_string r)"
proof -
  from run obtain c a s1 c1 reward slash where
      c: "who = authority" "get_challenge s k = Some c" "ch_status c = CHALLENGE_STATUS_UNDER_REVIEW" "acc_address env (ch_challenger c) = Some a"
    and body: "(case outc of
        CHALLENGE_OUTCOME_UPHELD \<Rightarrow> resolve_upheld env now a (stake_of c) reason c s
      | CHALLENGE_OUTCOME_REJECTED \<Rightarrow> resolve_rejected env (stake_of c) c s
      | CHALLENGE_OUTCOME_PARTIAL \<Rightarrow> resolve_partial env a (stake_of c) c s
      | CHALLENGE_OUTCOME_UNSPECIFIED \<Rightarrow> Fail s InvalidOutcome) = Done s1 (c1, reward, slash)"
    and s': "s' = set_challenge (c1\<lparr>ch_resolution := Some \<lparr>cr_outcome = outc, cr_resolver = who, cr_reason = reason,
                            cr_block = to_u64 now, cr_reward = reward, cr_slash = slash\<rparr>, ch_status := CHALLENGE_STATUS_RESOLVED\<rparr>) s1"
    unfolding resolve_challenge_def Let_def stake_of_def [symmetric]
    by (simp add: outcome_simps split: option.splits if_splits) blast
  note ch = cc_recordsD(3) [OF ok c(2)]
  have stake: "0 \<le> stake_of c" and id: "ch_id c = k" using ch by (simp_all add: challenge_ok_def)
  have "\<exists>r x y z. r = reward_of env a c outc s \<and> (x, y, z) = resolution_payout outc (stake_of c) r \<and>
      settles env a (ch_domain c) x y z s s1 \<and> c1\<lparr>ch_slashes := ch_slashes c\<rparr> = c \<and> outc \<noteq> CHALLENGE_OUTCOME_UNSPECIFIED \<and>
      (outc \<noteq> CHALLENGE_OUTCOME_REJECTED \<longrightarrow> reward = big_string r)"
  proof (cases outc)
    case CHALLENGE_OUTCOME_UPHELD
    with body have "resolve_upheld env now a (stake_of c) reason c s = Done s1 (c1, reward, slash)" by simp
    then obtain r where *: "settles env a (ch_domain c) (stake_of c + r) 0 (- r) s s1"
      "r = (if refused env a (reward_due s (ch_domain c) 1) (cc_bank s) then 0 else reward_due s (ch_domain c) 1)"
      "c1\<lparr>ch_slashes := ch_slashes c\<rparr> = c" "reward = big_string r"
      by (rule resolve_upheld_settles [OF env ok stake]) (rule that)
    have "r = reward_of env a c outc s"
      using *(2) by (simp add: reward_of_def reward_state_def reward_part_def CHALLENGE_OUTCOME_UPHELD)
    then show ?thesis
      by (intro exI [of _ r] exI [of _ "stake_of c + r"] exI [of _ "0 :: int"] exI [of _ "- r"])
        (use *(1,3,4) in \<open>simp add: CHALLENGE_OUTCOME_UPHELD\<close>)
  next
    case CHALLENGE_OUTCOME_REJECTED
    with body have "resolve_rejected env (stake_of c) c s = Done s1 (c1, reward, slash)" by simp
    from resolve_rejected_settles [OF env ok stake this, of a] CHALLENGE_OUTCOME_REJECTED show ?thesis by auto
  next
    case CHALLENGE_OUTCOME_PARTIAL
    with body have "resolve_partial env a (stake_of c) c s = Done s1 (c1, reward, slash)" by simp
    then obtain r where *: "settles env a (ch_domain c) (stake_of c div 2 + r) (stake_of c - stake_of c div 2) (- r) s s1"
      "r = (if refused env a (reward_due s (ch_domain c) 2) (cc_bank (reward_state env a CHALLENGE_OUTCOME_PARTIAL (stake_of c) s)) then 0
        else reward_due s (ch_domain c) 2)" "c1 = c" "reward = big_string r"
      by (rule resolve_partial_settles [OF env ok stake]) (rule that)
    have "r = reward_of env a c outc s" using *(2) by (simp add: reward_of_def reward_part_def CHALLENGE_OUTCOME_PARTIAL)
    then show ?thesis
      by (intro exI [of _ r] exI [of _ "stake_of c div 2 + r"] exI [of _ "stake_of c - stake_of c div 2"] exI [of _ "- r"])
        (use *(1,4) in \<open>simp add: *(3) CHALLENGE_OUTCOME_PARTIAL\<close>)
  qed (use body in simp)
  then obtain r x y z where r: "r = reward_of env a c outc s" "(x, y, z) = resolution_payout outc (stake_of c) r"
      "settles env a (ch_domain c) x y z s s1" "outc \<noteq> CHALLENGE_OUTCOME_UNSPECIFIED" "outc \<noteq> CHALLENGE_OUTCOME_REJECTED \<longrightarrow> reward = big_string r"
    and c1: "c1\<lparr>ch_slashes := ch_slashes c\<rparr> = c" by blast
  have "ch_id c1 = ch_id c" "ch_stake c1 = ch_stake c" "ch_created c1 = ch_created c"
    using arg_cong [OF c1, of ch_id] arg_cong [OF c1, of ch_stake] arg_cong [OF c1, of ch_created] by simp_all
  with that [OF c r(4,1,2,3) s'] r(5) id show thesis by simp
qed

lemma resolve_challenge_kept:
  assumes env: "cc_env env" and ok: "cc_ok env h s" and run: "resolve_challenge env authority h who k outc reason s = Done s' u"
  shows "cc_ok env h s'"
proof -
  have rec: "cc_records_ok env h s" and gap: "cc_gap env s \<le> 0" using ok by (simp_all add: cc_ok_iff)
  obtain c a r s1 c' x y z where c: "get_challenge s k = Some c" "ch_status c = CHALLENGE_STATUS_UNDER_REVIEW"
    and pay: "(x, y, z) = resolution_payout outc (stake_of c) r" "outc \<noteq> CHALLENGE_OUTCOME_UNSPECIFIED"
    and s1: "settles env a (ch_domain c) x y z s s1" and s': "s' = set_challenge c' s1"
    and c': "ch_id c' = k" "ch_status c' = CHALLENGE_STATUS_RESOLVED" "ch_stake c' = ch_stake c" "ch_created c' = ch_created c"
    and res: "\<exists>res. ch_resolution c' = Some res \<and> cr_outcome res = outc \<and> cr_resolver res = who \<and>
       (outc \<noteq> CHALLENGE_OUTCOME_REJECTED \<longrightarrow> cr_reward res = big_string r)"
    by (rule resolve_challenge_effect [OF env rec run]) (rule that)
  note ch = cc_recordsD(3) [OF rec c(1)]
  have stake: "stake_of c' = stake_of c" by (simp add: stake_of_def c')
  have rec1: "cc_records_ok env h s1" and gap1: "cc_gap env s1 \<le> cc_gap env s + x + y + z" and same: "get_challenge s1 k = Some c"
    using s1 rec c(1) by (auto simp: settles_def get_challenge_def)
  have "0 < stake_of c \<longrightarrow> uint (ch_created c) \<noteq> h" using ch c(2) by (auto simp: challenge_ok_def)
  with ch c' res stake have c_ok: "challenge_ok env h (ch_id c') c'" by (auto simp: challenge_ok_def)
  have none: "ch_resolution c = None" using ch c(2) by (auto simp: challenge_ok_def)
  have "gap_change (Some c) c' = - stake_of c - (if outc = CHALLENGE_OUTCOME_REJECTED then stake_of c else 0)"
    using c(2) c'(2) res none stake by (auto simp: gap_change_def escrowed_def forfeited_def is_active_def)
  moreover have "x + y + z \<le> stake_of c + (if outc = CHALLENGE_OUTCOME_REJECTED then stake_of c else 0)"
    using pay by (cases outc) auto
  ultimately have "cc_gap env s' \<le> 0" unfolding s'
    using gap gap1 gap_challenge [OF cc_recordsD(1) [OF rec1], of env c'] same c'(1) by simp
  moreover have "cc_records_ok env h s'" unfolding s' by (rule records_challenge [OF rec1 c_ok])
  ultimately show ?thesis by (simp add: cc_ok_iff)
qed

section \<open>The block hook\<close>

definition next_status :: "u64 \<Rightarrow> capture_challenge \<Rightarrow> challenge_status" where
  "next_status now c =
     (if (ch_status c = CHALLENGE_STATUS_OPEN \<or> ch_status c = CHALLENGE_STATUS_EVIDENCE) \<and> ch_evidence_deadline c \<le> now
      then CHALLENGE_STATUS_UNDER_REVIEW
      else if ch_status c = CHALLENGE_STATUS_UNDER_REVIEW \<and> ch_review_deadline c \<le> now then CHALLENGE_STATUS_EXPIRED else ch_status c)"

definition advanced :: "u64 \<Rightarrow> capture_challenge \<Rightarrow> capture_challenge" where
  "advanced now c = c\<lparr>ch_status := next_status now c\<rparr>"

text \<open>During the hook every challenge is older than the block.\<close>

definition aged_ok :: "'b sdk \<Rightarrow> int \<Rightarrow> 'b cc_state \<Rightarrow> bool" where
  "aged_ok env h s \<longleftrightarrow> cc_ok env h s \<and> (\<forall>k c. get_challenge s k = Some c \<longrightarrow> uint (ch_created c) < h)"

lemma aged_next: "cc_ok env h s \<Longrightarrow> aged_ok env (h + 1) s"
  unfolding aged_ok_def cc_ok_def challenge_ok_def by fastforce

lemma refund_runs:
  assumes env: "cc_env env" and ok: "aged_ok env h s" and c: "get_challenge s k = Some c"
  obtains b where "refund_expired env c s = Done (cc_with_bank b s) ()"
    "held_by env s (module_address env cc_module) - stake_of c \<le> bank_balance env b (module_address env cc_module) uzrn"
proof (cases "acc_address env (ch_challenger c) = None \<or> positive_int (ch_stake c) = None")
  case True
  then have "refund_expired env c s = Done (cc_with_bank (cc_bank s) s) ()"
    by (auto simp: refund_expired_def cc_with_bank_def split: option.split)
  moreover have "0 \<le> stake_of c" using ok c by (auto simp: aged_ok_def challenge_ok_def dest: cc_okD(3))
  ultimately show thesis using that by simp
next
  case False
  then obtain a x where ax: "acc_address env (ch_challenger c) = Some a" "positive_int (ch_stake c) = Some x" by auto
  have x: "stake_of c = x" "0 < x" using ax(2) by (simp_all add: stake_of_def positive_int_Some int_or_zero_Some)
  have "fits_sdk_int x" using ok c x by (auto simp: aged_ok_def challenge_ok_def dest: cc_okD(3))
  with env x obtain cs where cs: "new_coins env [(uzrn, x)] = Some cs" by (simp add: new_coins_def coin_ok_def cc_env_def)
  let ?b = "final_state (bank_to_account env cc_module a cs (cc_bank s))"
  have "held_by env s (module_address env cc_module) - x \<le> bank_balance env ?b (module_address env cc_module) uzrn"
  proof (cases "bank_to_account env cc_module a cs (cc_bank s)")
    case (Done b u)
    with env bank_to_account_moved [of env cc_module a cs "cc_bank s" b u] single_coin_amount [OF cs] x
    show ?thesis by (auto simp: cc_env_def moved_balance)
  next
    case (Fail b e)
    with env refused_balance [OF _ cs, of cc_module a "cc_bank s" b e] x show ?thesis by (simp add: cc_env_def)
  qed
  then show thesis using that [of ?b] ax cs x by (simp add: refund_expired_def)
qed

lemma status_change_ok:
  assumes ok: "aged_ok env h s" and c: "get_challenge s (ch_id c) = Some c"
    and st: "is_active (ch_status c)" "st = CHALLENGE_STATUS_UNDER_REVIEW \<or> st = CHALLENGE_STATUS_EXPIRED"
    and b: "held_by env s (module_address env cc_module) - (if st = CHALLENGE_STATUS_EXPIRED then stake_of c else 0) \<le>
      bank_balance env b (module_address env cc_module) uzrn"
  shows "aged_ok env h (set_challenge (c\<lparr>ch_status := st\<rparr>) (cc_with_bank b s))"
proof -
  let ?c = "c\<lparr>ch_status := st\<rparr>" and ?s = "cc_with_bank b s"
  have rec: "cc_records_ok env h s" and gap: "cc_gap env s \<le> 0" and old: "uint (ch_created c) < h"
    using ok c by (auto simp: aged_ok_def cc_ok_iff)
  note ch = cc_recordsD(3) [OF rec c]
  have c_ok: "challenge_ok env h (ch_id ?c) ?c" using ch st old by (auto simp: challenge_ok_def stake_of_def is_active_def)
  have same: "get_challenge ?s (ch_id c) = Some c" using c by (simp add: cc_with_bank_def cc_reads)
  have none: "ch_resolution c = None" using ch st by (auto simp: challenge_ok_def is_active_def)
  have "gap_change (Some c) ?c = (if st = CHALLENGE_STATUS_EXPIRED then - stake_of c else 0)"
    using st none by (auto simp: gap_change_def escrowed_def forfeited_def stake_of_def is_active_def)
  moreover have "kv_ok (cc_challenges ?s)" using cc_recordsD(1) [OF rec] by (simp add: cc_with_bank_def)
  ultimately have "cc_gap env (set_challenge ?c ?s) \<le> 0" using gap b same by (simp add: gap_challenge gap_bank split: if_splits)
  moreover have "cc_records_ok env h (set_challenge ?c ?s)" by (rule records_challenge [OF _ c_ok]) (simp add: rec)
  moreover have "get_challenge (set_challenge ?c ?s) k = Some d \<Longrightarrow> uint (ch_created d) < h" for k d
    using ok c by (auto simp: aged_ok_def cc_writes cc_reads split: if_splits)
  ultimately show ?thesis by (simp add: aged_ok_def cc_ok_iff)
qed

lemma advance_challenge_runs:
  assumes env: "cc_env env" and ok: "aged_ok env h s" and c: "get_challenge s (ch_id c) = Some c"
  shows "\<exists>s'. advance_challenge env now c s = Done s' () \<and> aged_ok env h s' \<and> cc_pools s' = cc_pools s \<and>
    (\<forall>k. get_challenge s' k = (if k = ch_id c then Some (advanced now c) else get_challenge s k))"
proof -
  have set: "get_challenge (set_challenge (c\<lparr>ch_status := st\<rparr>) (cc_with_bank b s)) k = (if k = ch_id c then Some (c\<lparr>ch_status := st\<rparr>) else get_challenge s k)"
    "cc_pools (set_challenge d (cc_with_bank b s)) = cc_pools s" for st b k d
    by (simp_all add: cc_writes cc_reads)
  consider (keep) "advance_challenge env now c s = Done s ()" "next_status now c = ch_status c"
    | (review) "is_active (ch_status c)" "next_status now c = CHALLENGE_STATUS_UNDER_REVIEW"
        "advance_challenge env now c s = Done (set_challenge (c\<lparr>ch_status := CHALLENGE_STATUS_UNDER_REVIEW\<rparr>) s) ()"
    | (expire) "is_active (ch_status c)" "next_status now c = CHALLENGE_STATUS_EXPIRED"
        "advance_challenge env now c s = and_then (refund_expired env c s) (\<lambda>s _. Done (set_challenge (c\<lparr>ch_status := CHALLENGE_STATUS_EXPIRED\<rparr>) s) ())"
    by (cases "ch_evidence_deadline c \<le> now"; cases "ch_review_deadline c \<le> now"; cases "ch_status c")
      (auto simp: advance_challenge_def next_status_def is_active_def)
  then show ?thesis
  proof cases
    case keep
    then have "advanced now c = c" by (simp add: advanced_def)
    with keep ok c show ?thesis by simp
  next
    case review
    have id: "cc_with_bank (cc_bank s) s = s" by (simp add: cc_with_bank_def)
    have "aged_ok env h (set_challenge (c\<lparr>ch_status := CHALLENGE_STATUS_UNDER_REVIEW\<rparr>) s)"
      using status_change_ok [OF ok c review(1), of CHALLENGE_STATUS_UNDER_REVIEW "cc_bank s"] by (simp add: id)
    with review set [where b = "cc_bank s", unfolded id] show ?thesis by (simp add: advanced_def)
  next
    case expire
    obtain b where b: "refund_expired env c s = Done (cc_with_bank b s) ()"
      "held_by env s (module_address env cc_module) - stake_of c \<le> bank_balance env b (module_address env cc_module) uzrn"
      by (rule refund_runs [OF env ok c]) (rule that)
    have "aged_ok env h (set_challenge (c\<lparr>ch_status := CHALLENGE_STATUS_EXPIRED\<rparr>) (cc_with_bank b s))"
      using status_change_ok [OF ok c expire(1), of CHALLENGE_STATUS_EXPIRED b] b(2) by simp
    with expire b(1) set show ?thesis by (simp add: advanced_def)
  qed
qed

lemma advance_challenges_run:
  assumes "cc_env env" "aged_ok env h s" "distinct (map ch_id cs)" "\<And>c. c \<in> set cs \<Longrightarrow> get_challenge s (ch_id c) = Some c"
  shows "\<exists>s'. advance_challenges env now cs s = Done s' () \<and> aged_ok env h s' \<and> cc_pools s' = cc_pools s \<and>
    (\<forall>k. get_challenge s' k = (if k \<in> ch_id ` set cs then map_option (advanced now) (get_challenge s k) else get_challenge s k))"
  using assms(2-4)
proof (induction cs arbitrary: s)
  case Nil
  then show ?case by simp
next
  case (Cons c cs)
  have c: "get_challenge s (ch_id c) = Some c" using Cons.prems(3) by simp
  from advance_challenge_runs [OF assms(1) Cons.prems(1) c, of now] obtain s1 where s1: "advance_challenge env now c s = Done s1 ()"
      "aged_ok env h s1" "cc_pools s1 = cc_pools s" "\<And>k. get_challenge s1 k = (if k = ch_id c then Some (advanced now c) else get_challenge s k)"
    by blast
  have rest: "get_challenge s1 (ch_id d) = Some d" if "d \<in> set cs" for d
  proof -
    have "ch_id d \<noteq> ch_id c" using Cons.prems(2) that by (metis distinct.simps(2) image_eqI list.simps(9) set_map)
    then show ?thesis using Cons.prems(3) [of d] that s1(4) by simp
  qed
  from Cons.prems(2) have new: "ch_id c \<notin> ch_id ` set cs" "distinct (map ch_id cs)" by simp_all
  from Cons.IH [OF s1(2) new(2) rest] obtain s' where s': "advance_challenges env now cs s1 = Done s' ()" "aged_ok env h s'"
      "cc_pools s' = cc_pools s1"
      "\<And>k. get_challenge s' k = (if k \<in> ch_id ` set cs then map_option (advanced now) (get_challenge s1 k) else get_challenge s1 k)"
    by blast
  have "get_challenge s' k = (if k \<in> ch_id ` set (c # cs) then map_option (advanced now) (get_challenge s k) else get_challenge s k)" for k
    using s'(4) [of k] s1(4) [of k] c new(1) by auto
  with s1(1,3) s'(1-3) show ?case by simp
qed

lemma cc_begin_block_runs:
  assumes "cc_env env" "cc_ok env h s"
  shows "\<exists>s'. cc_begin_block env (h + 1) s = Done s' () \<and> cc_ok env (h + 1) s' \<and> cc_pools s' = cc_pools s \<and>
    (\<forall>k. get_challenge s' k = map_option (advanced (to_u64 (h + 1))) (get_challenge s k))"
proof -
  have kv: "kv_ok (cc_challenges s)" and id: "\<And>k c. get_challenge s k = Some c \<Longrightarrow> ch_id c = k"
    using assms(2) by (auto simp: cc_ok_def challenge_ok_def)
  have mem: "get_challenge s (ch_id c) = Some c" if "c \<in> set (get_all_challenges s)" for c
    using that kv_get_mem [OF kv] id by (force simp: get_all_challenges_def get_challenge_def)
  have keys: "map ch_id (get_all_challenges s) = map fst (cc_challenges s)"
    using id kv_get_mem [OF kv] by (auto simp: get_all_challenges_def get_challenge_def)
  have dist: "distinct (map ch_id (get_all_challenges s))" unfolding keys by (rule kv_ok_distinct [OF kv])
  have dom: "get_challenge s k = None" if "k \<notin> ch_id ` set (get_all_challenges s)" for k
    using that by (metis get_challenge_def keys kv_get_None_mem list.set_map)
  from advance_challenges_run [OF assms(1) aged_next [OF assms(2)] dist mem, of "to_u64 (h + 1)"] obtain s' where
      s': "cc_begin_block env (h + 1) s = Done s' ()" "aged_ok env (h + 1) s'" "cc_pools s' = cc_pools s"
      "\<And>k. get_challenge s' k = (if k \<in> ch_id ` set (get_all_challenges s) then map_option (advanced (to_u64 (h + 1))) (get_challenge s k)
         else get_challenge s k)"
    unfolding cc_begin_block_def by blast
  have "get_challenge s' k = map_option (advanced (to_u64 (h + 1))) (get_challenge s k)" for k
    using s'(4) [of k] dom [of k] by (cases "k \<in> ch_id ` set (get_all_challenges s)") auto
  with s'(1-3) show ?thesis by (simp add: aged_ok_def)
qed

section \<open>On a chain\<close>

text \<open>
  The module's own account signs nothing, and ids of different heights differ (the digest does not collide).
\<close>

fun cc_admissible :: "'b sdk \<Rightarrow> (string \<Rightarrow> string) \<Rightarrow> string \<Rightarrow> 'b cc_state \<Rightarrow> cc_msg \<Rightarrow> bool" where
  "cc_admissible env digest self s (MsgSubmitChallenge m) \<longleftrightarrow> acc_address env (mc_challenger m) \<noteq> Some (module_address env cc_module) \<and>
     (\<forall>h c. get_challenge s (generate_challenge_id digest (mc_challenger m) (mc_domain m) h) = Some c \<longrightarrow> ch_created c = to_u64 h)"
| "cc_admissible env digest self s (MsgFundBountyPool who d amount) \<longleftrightarrow> acc_address env who \<noteq> Some (module_address env cc_module)"
| "cc_admissible env digest self s (AutoSubmitChallenge d evidence) \<longleftrightarrow>
     (\<forall>h c. get_challenge s (generate_challenge_id digest self d h) = Some c \<longrightarrow> ch_created c = to_u64 h)"
| "cc_admissible env digest self s _ \<longleftrightarrow> True"

definition cc_fresh :: "'b cc_state \<Rightarrow> bool" where
  "cc_fresh s \<longleftrightarrow> cc_params_record s = None \<and> cc_challenges s = [] \<and> cc_pools s = [] \<and> cc_domain_index s = [] \<and> cc_paused s = []"

definition cc_init :: "'b sdk \<Rightarrow> int \<Rightarrow> 'b cc_state \<Rightarrow> bool" where
  "cc_init env h s \<longleftrightarrow> cc_env env \<and> (\<exists>gs s0. cc_fresh s0 \<and> 0 \<le> held_by env s0 (module_address env cc_module) \<and> validate_cc_genesis gs \<and>
     ccg_challenges gs = [] \<and> ccg_pools gs = [] \<and> s = init_cc_genesis gs s0)"

text \<open>The rest of the chain cannot take from the module's account.\<close>

definition cc_others :: "'b sdk \<Rightarrow> 'b cc_state \<Rightarrow> 'b cc_state \<Rightarrow> bool" where
  "cc_others env s s' \<longleftrightarrow> (\<exists>b. s' = cc_with_bank b s \<and>
     held_by env s (module_address env cc_module) \<le> bank_balance env b (module_address env cc_module) uzrn)"

lemma cc_init_ok:
  assumes "cc_init env h s"
  shows "cc_ok env h s"
proof -
  from assms obtain gs s0 p where s0: "cc_fresh s0" "0 \<le> held_by env s0 (module_address env cc_module)"
    and gs: "ccg_params gs = Some p" "validate_cc_params p" "ccg_challenges gs = []" "ccg_pools gs = []" and s: "s = init_cc_genesis gs s0"
    by (auto simp: cc_init_def validate_cc_genesis_def split: option.splits)
  have "s = set_cc_params p s0" by (simp add: s init_cc_genesis_def gs)
  then show ?thesis using s0 gs(2) by (simp add: cc_ok_def cc_fresh_def cc_reads set_cc_params_def cc_gap_def)
qed

lemma cc_others_ok:
  assumes "cc_ok env h s" "cc_others env s s'"
  shows "cc_ok env h s'"
  using assms by (auto simp: cc_ok_iff cc_others_def gap_bank)

lemma update_cc_params_kept: "cc_ok env h s \<Longrightarrow> update_cc_params authority who po s = Done s' u \<Longrightarrow> cc_ok env h s'"
  by (auto simp: update_cc_params_def cc_ok_iff records_params split: if_splits option.splits)

lemma cc_handle_ok:
  assumes env: "cc_env env" and ok: "cc_ok env h s" and h: "0 \<le> h" "h < 2 ^ 63" and adm: "cc_admissible env digest self s m"
    and run: "cc_handle env authority digest self h m s = Done s' u"
  shows "cc_ok env h s'"
proof (cases m)
  case (MsgSubmitChallenge x)
  with run obtain k where "submit_challenge env digest h x s = Done s' k" by (auto simp: discard_Done split: if_splits)
  then show ?thesis using env adm MsgSubmitChallenge by (intro submit_challenge_kept [OF _ ok h]) (auto simp: cc_env_def)
next
  case (MsgAddEvidence who k description data_hash)
  with run have "add_evidence h who k description data_hash s = Done s' u" by (auto split: if_splits)
  with ok show ?thesis by (rule add_evidence_kept)
next
  case (MsgResolveChallenge who k outc reason)
  with run have "resolve_challenge env authority h who k outc reason s = Done s' u" by (auto split: if_splits)
  with env ok show ?thesis by (rule resolve_challenge_kept)
next
  case (MsgFundBountyPool who d amount)
  with run have "fund_bounty_pool env who d amount s = Done s' u" by (auto split: if_splits)
  then show ?thesis using env adm MsgFundBountyPool by (intro fund_pool_kept [OF _ ok]) (auto simp: cc_env_def)
next
  case (MsgUpdateCcParams who po)
  with run have "update_cc_params authority who po s = Done s' u" by simp
  with ok show ?thesis by (rule update_cc_params_kept)
next
  case (AutoSubmitChallenge d evidence)
  with run have "s' = auto_submit digest self h d evidence s" by simp
  with auto_submit_kept [OF ok h, of digest self d evidence] adm AutoSubmitChallenge show ?thesis by simp
qed

interpretation cc: live_module "cc_init env" "cc_handle env authority digest self" "cc_admissible env digest self" "cc_begin_block env"
    "cc_others env" "\<lambda>h s. cc_env env \<and> cc_ok env h s"
  for env :: "'b sdk" and authority digest self
proof unfold_locales
  fix h and s s' :: "'b cc_state" and m u
  show "cc_init env h s \<Longrightarrow> cc_env env \<and> cc_ok env h s" using cc_init_ok [of env h s] by (simp add: cc_init_def)
  show "0 \<le> h \<Longrightarrow> h < 2 ^ 63 \<Longrightarrow> cc_env env \<and> cc_ok env h s \<Longrightarrow> cc_admissible env digest self s m \<Longrightarrow>
      cc_handle env authority digest self h m s = Done s' u \<Longrightarrow> cc_env env \<and> cc_ok env h s'"
    using cc_handle_ok [of env h s digest self m authority s' u] by blast
  show "cc_env env \<and> cc_ok env h s \<Longrightarrow> cc_begin_block env (h + 1) s = Done s' u \<Longrightarrow> cc_env env \<and> cc_ok env (h + 1) s'"
    using cc_begin_block_runs [of env h s] by auto
  show "cc_env env \<and> cc_ok env h s \<Longrightarrow> cc_others env s s' \<Longrightarrow> cc_env env \<and> cc_ok env h s'" using cc_others_ok by blast
  show "cc_env env \<and> cc_ok env h s \<Longrightarrow> \<exists>s'. cc_begin_block env (h + 1) s = Done s' ()" using cc_begin_block_runs [of env h s] by blast
qed

abbreviation cc_reachable :: "'b sdk \<Rightarrow> string \<Rightarrow> (string \<Rightarrow> string) \<Rightarrow> string \<Rightarrow> int \<Rightarrow> 'b cc_state \<Rightarrow> bool" where
  "cc_reachable env authority digest self \<equiv>
     chain_reachable (cc_init env) (cc_handle env authority digest self) (cc_admissible env digest self) (cc_begin_block env) (cc_others env)"

end
