(* ===== verification/Capture_Claims.thy ===== *)
theory Capture_Claims
  imports Capture_Steps
begin

text \<open>
  What x/capture_challenge promises: what custody there is for pools and stakes, what each outcome pays, that a closed
  challenge stays closed, and that the block hook moves every challenge along its deadlines.
\<close>

section \<open>A chain with one challenge\<close>

definition cap_params :: cc_params where
  "cap_params = default_cc_params\<lparr>min_challenge_stake := ''10'', evidence_period_blocks := 1, review_period_blocks := 2\<rparr>"

definition cap_open :: "ledger cc_state" where
  "cap_open = \<lparr>cc_params_record = Some cap_params, cc_challenges = [], cc_pools = [], cc_domain_index = [], cc_paused = [],
     cc_bank = \<lparr>lg_balances = [((''zrn1c'', uzrn), 1000), ((''zrn1p'', uzrn), 5000)], lg_supply = [(uzrn, 6000)], lg_disabled = []\<rparr>,
     cc_calls = []\<rparr>"

text \<open>The digest of the demonstration keeps the text.\<close>

abbreviation cap_handle :: "int \<Rightarrow> cc_msg \<Rightarrow> ledger cc_state \<Rightarrow> (ledger, unit) cc_outcome" where
  "cap_handle \<equiv> cc_handle ledger_sdk ''zrn1gov'' (\<lambda>v. v) ''zrn1self''"

definition cap_msg :: msg_submit_challenge where
  "cap_msg = \<lparr>mc_challenger = ''zrn1c'', mc_domain = ''d'', mc_accused = [''v1'', ''v2''], mc_stake = ''101'', mc_reason = []\<rparr>"

definition cap_id :: string where
  "cap_id = ''zrn1c:d:7''"

definition cap_staked :: "ledger cc_state" where
  "cap_staked = deliver (cap_handle 7) (MsgSubmitChallenge cap_msg)
     (deliver (cap_handle 7) (MsgFundBountyPool ''zrn1p'' ''d'' ''1000'') cap_open)"

definition cap_review :: "ledger cc_state" where
  "cap_review = final_state (cc_begin_block ledger_sdk 8 cap_staked)"

definition cap_closed :: "ledger cc_state" where
  "cap_closed = deliver (cap_handle 8) (MsgResolveChallenge ''zrn1gov'' cap_id CHALLENGE_OUTCOME_PARTIAL []) cap_review"

abbreviation cap_reachable :: "int \<Rightarrow> ledger cc_state \<Rightarrow> bool" where
  "cap_reachable \<equiv> cc_reachable ledger_sdk ''zrn1gov'' (\<lambda>v. v) ''zrn1self''"

lemma cap_open_init: "cc_init ledger_sdk 7 cap_open"
proof -
  have fresh: "cc_fresh (cap_open\<lparr>cc_params_record := None\<rparr>)" by (simp add: cc_fresh_def cap_open_def)
  have env: "cc_env ledger_sdk" using ledger_laws ledger_clean by (simp add: cc_env_def ledger_sdk_def uzrn_def)
  have held: "0 \<le> held_by ledger_sdk (cap_open\<lparr>cc_params_record := None\<rparr>) (module_address ledger_sdk cc_module)" by code_simp
  have ok: "validate_cc_genesis (default_cc_genesis\<lparr>ccg_params := Some cap_params\<rparr>)" by code_simp
  have "cap_open = init_cc_genesis (default_cc_genesis\<lparr>ccg_params := Some cap_params\<rparr>) (cap_open\<lparr>cc_params_record := None\<rparr>)"
    by (simp add: init_cc_genesis_def default_cc_genesis_def set_cc_params_def cap_open_def)
  moreover have "ccg_challenges (default_cc_genesis\<lparr>ccg_params := Some cap_params\<rparr>) = []"
    "ccg_pools (default_cc_genesis\<lparr>ccg_params := Some cap_params\<rparr>) = []" by (simp_all add: default_cc_genesis_def)
  ultimately show ?thesis using fresh env held ok unfolding cc_init_def by blast
qed

lemma cap_staked_reachable: "cap_reachable 7 cap_staked"
proof -
  have start: "cap_reachable 7 cap_open" by (rule chain_reachable.start) (simp_all add: cap_open_init)
  have "acc_address ledger_sdk ''zrn1p'' \<noteq> Some (module_address ledger_sdk cc_module)" by code_simp
  then have "cc_admissible ledger_sdk (\<lambda>v. v) ''zrn1self'' cap_open (MsgFundBountyPool ''zrn1p'' ''d'' ''1000'')" by simp
  note funded = chain_reachable.message [OF start, OF this]
  have "get_challenge (deliver (cap_handle 7) (MsgFundBountyPool ''zrn1p'' ''d'' ''1000'') cap_open) k = None" for k
  proof -
    have "cc_challenges (deliver (cap_handle 7) (MsgFundBountyPool ''zrn1p'' ''d'' ''1000'') cap_open) = []" by code_simp
    then show ?thesis by (simp add: get_challenge_def)
  qed
  moreover have "acc_address ledger_sdk (mc_challenger cap_msg) \<noteq> Some (module_address ledger_sdk cc_module)" by code_simp
  ultimately have "cc_admissible ledger_sdk (\<lambda>v. v) ''zrn1self''
      (deliver (cap_handle 7) (MsgFundBountyPool ''zrn1p'' ''d'' ''1000'') cap_open) (MsgSubmitChallenge cap_msg)" by simp
  from chain_reachable.message [OF funded, OF this] show ?thesis by (simp add: cap_staked_def)
qed

lemma cap_review_reachable: "cap_reachable 8 cap_review"
proof -
  have "cc_begin_block ledger_sdk (7 + 1) cap_staked = Done cap_review ()" unfolding cap_review_def by code_simp
  from chain_reachable.block [OF cap_staked_reachable, OF _ this] show ?thesis by simp
qed

lemma cap_closed_reachable: "cap_reachable 8 cap_closed"
  unfolding cap_closed_def by (rule chain_reachable.message [OF cap_review_reachable]) simp

lemma cap_values:
  "map_option ch_status (get_challenge cap_staked cap_id) = Some CHALLENGE_STATUS_EVIDENCE"
  "map_option ch_status (get_challenge cap_closed cap_id) = Some CHALLENGE_STATUS_RESOLVED"
  "map_option stake_of (get_challenge cap_closed cap_id) = Some 101"
  "kv_sum pool_balance (cc_pools cap_staked) = 1000" "kv_sum escrowed (cc_challenges cap_staked) = 101" "kv_sum forfeited (cc_challenges cap_staked) = 0"
  by code_simp+

section \<open>Custody\<close>

text \<open>
  C14: in every reachable state the bounty pools and the stakes of the open challenges together are at most what the module's
  account holds plus the stakes of the rejected challenges (which were sent to the development fund and credited to a
  pool as well); no pool is negative, and exactly the resolved challenges carry a resolution.
\<close>

theorem cc_custody_gap:
  assumes "cc_reachable env authority digest self h s"
  shows "kv_sum pool_balance (cc_pools s) + kv_sum escrowed (cc_challenges s) \<le>
      bank_balance env (cc_bank s) (module_address env cc_module) uzrn + kv_sum forfeited (cc_challenges s) \<and>
    0 \<le> recorded s d \<and>
    (case get_challenge s k of None \<Rightarrow> True | Some c \<Rightarrow> ch_id c = k \<and> 0 \<le> stake_of c \<and>
       (ch_resolution c = None \<longleftrightarrow> ch_status c \<noteq> CHALLENGE_STATUS_RESOLVED))"
proof -
  have ok: "cc_ok env h s" using cc.reachable_inv [OF assms] ..
  then show ?thesis using cc_okD(3) [OF ok, of k] cc_okD(4) [OF ok, of d] cc_okD(6) [OF ok]
    by (auto simp: cc_gap_def recorded_def pool_ok_def challenge_ok_def split: option.split)
qed

theorem cc_custody_gap_witness: "1101 \<le> bank_balance ledger_sdk (cc_bank cap_staked) (module_address ledger_sdk cc_module) uzrn"
  using cc_custody_gap [OF cap_staked_reachable] cap_values(4-6) by simp

section \<open>Outcomes\<close>

text \<open>
  C15: a resolution is the authority's, of a challenge under review, and final: the challenger receives the whole stake and a
  reward (upheld), half the stake rounded down and half the reward (partial) or nothing (rejected), the rest of the stake goes
  to the development fund.  The reward is exactly the configured share of the pool, and nothing only where that share is
  zero or the bank refuses its transfer; it leaves the pool by the same amount and is what the record says.  A rejection
  adds the stake to the pool although it has left the account.  No other account and no other challenge is touched, and
  resolving again is refused.
\<close>

theorem cc_resolution_is_exact:
  assumes "cc_reachable env authority digest self h s" "resolve_challenge env authority h who k outc reason s = Done s' u"
  shows "\<exists>c a r. who = authority \<and> get_challenge s k = Some c \<and> ch_status c = CHALLENGE_STATUS_UNDER_REVIEW \<and>
    acc_address env (ch_challenger c) = Some a \<and>
    r = (let due = reward_due s (ch_domain c) (reward_part outc)
         in if refused env a due (cc_bank (reward_state env a outc (stake_of c) s)) then 0 else due) \<and>
    (case resolution_payout outc (stake_of c) r of (x, y, z) \<Rightarrow>
       (\<forall>b. bank_balance env (cc_bank s') b uzrn = bank_balance env (cc_bank s) b uzrn + (if b = a then x else 0) +
          (if b = module_address env cc_dev_fund then y else 0) - (if b = module_address env cc_module then x + y else 0)) \<and>
       (\<forall>d. recorded s' d = recorded s d + (if d = ch_domain c then z else 0))) \<and>
    (case get_challenge s' k of None \<Rightarrow> False
     | Some c' \<Rightarrow> ch_status c' = CHALLENGE_STATUS_RESOLVED \<and> (\<exists>res. ch_resolution c' = Some res \<and> cr_outcome res = outc \<and>
         (outc \<noteq> CHALLENGE_OUTCOME_REJECTED \<longrightarrow> cr_reward res = big_string r))) \<and>
    (\<forall>j. j \<noteq> k \<longrightarrow> get_challenge s' j = get_challenge s j) \<and>
    (\<forall>h' outc' reason'. resolve_challenge env authority h' authority k outc' reason' s' = Fail s' ChallengeNotOpen)"
proof -
  have env: "cc_env env" and ok: "cc_ok env h s" using cc.reachable_inv [OF assms(1)] by simp_all
  then have rec: "cc_records_ok env h s" by (simp add: cc_ok_iff)
  obtain c a r s1 c' x y z where c: "who = authority" "get_challenge s k = Some c" "ch_status c = CHALLENGE_STATUS_UNDER_REVIEW"
      "acc_address env (ch_challenger c) = Some a" "r = reward_of env a c outc s"
    and pay: "(x, y, z) = resolution_payout outc (stake_of c) r" and s1: "settles env a (ch_domain c) x y z s s1"
    and s': "s' = set_challenge c' s1" and c': "ch_id c' = k" "ch_status c' = CHALLENGE_STATUS_RESOLVED"
    and res: "\<exists>res. ch_resolution c' = Some res \<and> cr_outcome res = outc \<and> cr_resolver res = who \<and>
       (outc \<noteq> CHALLENGE_OUTCOME_REJECTED \<longrightarrow> cr_reward res = big_string r)"
    by (rule resolve_challenge_effect [OF env rec assms(2)]) (rule that)
  have get: "get_challenge s' j = (if j = k then Some c' else get_challenge s j)" for j
    using s1 c'(1) by (simp add: s' cc_writes cc_reads settles_def)
  have same: "cc_bank s' = cc_bank s1" "recorded s' d = recorded s1 d" for d
    by (simp_all add: s' cc_writes recorded_def cc_reads)
  have again: "resolve_challenge env authority h' authority k outc' reason' s' = Fail s' ChallengeNotOpen" for h' outc' reason'
    using get [of k] c'(2) by (simp add: resolve_challenge_def)
  have closed: "case get_challenge s' k of None \<Rightarrow> False
     | Some c' \<Rightarrow> ch_status c' = CHALLENGE_STATUS_RESOLVED \<and> (\<exists>res. ch_resolution c' = Some res \<and> cr_outcome res = outc \<and>
         (outc \<noteq> CHALLENGE_OUTCOME_REJECTED \<longrightarrow> cr_reward res = big_string r))"
    using get [of k] c'(2) res by auto
  have payout: "case resolution_payout outc (stake_of c) r of (x, y, z) \<Rightarrow>
       (\<forall>b. bank_balance env (cc_bank s') b uzrn = bank_balance env (cc_bank s) b uzrn + (if b = a then x else 0) +
          (if b = module_address env cc_dev_fund then y else 0) - (if b = module_address env cc_module then x + y else 0)) \<and>
       (\<forall>d. recorded s' d = recorded s d + (if d = ch_domain c then z else 0))"
    using s1 unfolding same settles_def paid_def by (simp add: pay [symmetric])
  show ?thesis
    by (intro exI [of _ c] exI [of _ a] exI [of _ r] conjI)
      (use c get payout closed again in \<open>simp_all only: reward_of_def, simp_all\<close>)
qed

lemma cap_reward:
  "reward_due cap_review ''d'' 1 = 100" "new_coins ledger_sdk [(uzrn, 100)] = Some [(uzrn, 100)]"
  "succeeded (bank_to_account ledger_sdk cc_module ''zrn1c'' [(uzrn, 100)] (cc_bank cap_review))"
  "bank_balance ledger_sdk (cc_bank cap_review) ''zrn1c'' uzrn = 899"
  "map_option (\<lambda>c. (ch_domain c, stake_of c, acc_address ledger_sdk (ch_challenger c))) (get_challenge cap_review cap_id) =
     Some (''d'', 101, Some ''zrn1c'')"
  by code_simp+

theorem cc_resolution_is_exact_witness:
  "\<exists>s'. resolve_challenge ledger_sdk ''zrn1gov'' 8 ''zrn1gov'' cap_id CHALLENGE_OUTCOME_UPHELD [] cap_review = Done s' () \<and>
     bank_balance ledger_sdk (cc_bank s') ''zrn1c'' uzrn = 899 + 101 + 100 \<and>
     resolve_challenge ledger_sdk ''zrn1gov'' 9 ''zrn1gov'' cap_id CHALLENGE_OUTCOME_PARTIAL [] s' = Fail s' ChallengeNotOpen"
proof -
  let ?r = "resolve_challenge ledger_sdk ''zrn1gov'' 8 ''zrn1gov'' cap_id CHALLENGE_OUTCOME_UPHELD [] cap_review"
  have run: "?r = Done (final_state ?r) ()" by code_simp
  have others: "module_address ledger_sdk cc_dev_fund \<noteq> ''zrn1c''" "module_address ledger_sdk cc_module \<noteq> ''zrn1c''" by code_simp+
  have paid: "\<not> refused ledger_sdk ''zrn1c'' 100 (cc_bank cap_review)"
    using cap_reward(3) by (auto simp: refused_def cap_reward(2))
  from cc_resolution_is_exact [OF cap_review_reachable run] cap_reward(5) have
    "bank_balance ledger_sdk (cc_bank (final_state ?r)) ''zrn1c'' uzrn = 899 + 101 + 100"
    "resolve_challenge ledger_sdk ''zrn1gov'' 9 ''zrn1gov'' cap_id CHALLENGE_OUTCOME_PARTIAL [] (final_state ?r) =
       Fail (final_state ?r) ChallengeNotOpen"
    using others by (auto simp: reward_part_def reward_state_def cap_reward(1,4) paid)
  with run show ?thesis by blast
qed

section \<open>Closed challenges\<close>

lemma submission_spares:
  assumes "cc_ok env h s" "0 \<le> h" "h < 2 ^ 63" "get_challenge s k = Some c" "0 < stake_of c"
    "ch_status c = CHALLENGE_STATUS_RESOLVED \<or> ch_status c = CHALLENGE_STATUS_EXPIRED"
    "\<And>d. get_challenge s j = Some d \<Longrightarrow> ch_created d = to_u64 h"
  shows "k \<noteq> j"
proof
  assume "k = j"
  with assms(4,7) have "uint (ch_created c) = h" using uint_to_u64 [of h] assms(2,3) by simp
  with cc_okD(3) [OF assms(1,4)] assms(5,6) show False by (auto simp: challenge_ok_def)
qed

lemma closed_stays:
  assumes env: "cc_env env" and ok: "cc_ok env h s" and h: "0 \<le> h" "h < 2 ^ 63" and adm: "cc_admissible env digest self s m"
    and c: "get_challenge s k = Some c" "0 < stake_of c" "ch_status c = CHALLENGE_STATUS_RESOLVED \<or> ch_status c = CHALLENGE_STATUS_EXPIRED"
    and run: "cc_handle env authority digest self h m s = Done s' u"
  shows "get_challenge s' k = Some c"
proof (cases m)
  case (MsgSubmitChallenge x)
  with run obtain j where run': "submit_challenge env digest h x s = Done s' j" by (auto simp: discard_Done split: if_splits)
  have laws: "sdk_laws env" using env by (simp add: cc_env_def)
  obtain s1 b where s1: "check_pause (to_u64 h) (mc_domain x) s = Done s1 ()"
    and j: "j = generate_challenge_id digest (mc_challenger x) (mc_domain x) h"
    and s': "s' = store_submission j (to_u64 h) (get_cc_params s) x (cc_with_bank b s1)"
    by (rule submit_challenge_effect [OF laws run']) (rule that)
  have "k \<noteq> j" by (rule submission_spares [OF ok h c]) (use adm MsgSubmitChallenge j in auto)
  then show ?thesis using c(1) pause_frame(4) [OF s1, of k]
    by (simp add: s' store_submission_def Let_def new_challenge_def cc_writes cc_reads)
next
  case (MsgAddEvidence who j description data_hash)
  with run have "add_evidence h who j description data_hash s = Done s' u" by (auto split: if_splits)
  then obtain d where d: "get_challenge s j = Some d" "ch_status d = CHALLENGE_STATUS_OPEN \<or> ch_status d = CHALLENGE_STATUS_EVIDENCE"
    and s': "s' = set_challenge (d\<lparr>ch_evidence := ch_evidence d @
      [\<lparr>ce_description = description, ce_data_hash = data_hash, ce_block = to_u64 h\<rparr>]\<rparr>) s"
    by (auto simp: add_evidence_def outcome_simps split: option.splits)
  have "ch_id d = j" using cc_okD(3) [OF ok d(1)] by (simp add: challenge_ok_def)
  moreover have "k \<noteq> j" using c d by auto
  ultimately show ?thesis using c(1) by (simp add: s' cc_writes cc_reads)
next
  case (MsgResolveChallenge who j outc reason)
  with run have run': "resolve_challenge env authority h who j outc reason s = Done s' u" by (auto split: if_splits)
  have rec: "cc_records_ok env h s" using ok by (simp add: cc_ok_iff)
  obtain d a s1 c' x y z where d: "get_challenge s j = Some d" "ch_status d = CHALLENGE_STATUS_UNDER_REVIEW"
    and s1: "settles env a (ch_domain d) x y z s s1" and s': "s' = set_challenge c' s1" "ch_id c' = j"
    by (rule resolve_challenge_effect [OF env rec run']) (rule that)
  have "k \<noteq> j" using c d by auto
  then show ?thesis using c(1) s1 s' by (simp add: cc_writes cc_reads settles_def)
next
  case (MsgFundBountyPool who d amount)
  with run have "fund_bounty_pool env who d amount s = Done s' u" by (auto split: if_splits)
  then show ?thesis using c(1) by (auto simp: fund_bounty_pool_def outcome_simps add_to_pool_def Let_def cc_writes cc_reads)
next
  case (MsgUpdateCcParams who po)
  with run c(1) show ?thesis by (auto simp: update_cc_params_def cc_writes cc_reads split: if_splits option.splits)
next
  case (AutoSubmitChallenge d evidence)
  have "k \<noteq> generate_challenge_id digest self d h" by (rule submission_spares [OF ok h c]) (use adm AutoSubmitChallenge in auto)
  with run AutoSubmitChallenge c(1) show ?thesis by (auto simp: auto_submit_def Let_def cc_writes cc_reads)
qed

text \<open>
  C16: a resolved or expired challenge with a stake is final: no message of anyone, and not the hook of the next block, changes
  any field of its record, so its stake is paid out once.
\<close>

theorem cc_final:
  assumes "cc_reachable env authority digest self h s" "get_challenge s k = Some c" "0 < stake_of c"
    "ch_status c = CHALLENGE_STATUS_RESOLVED \<or> ch_status c = CHALLENGE_STATUS_EXPIRED" "cc_admissible env digest self s m"
  shows "get_challenge (deliver (cc_handle env authority digest self h) m s) k = Some c \<and>
    (\<forall>s' u. cc_begin_block env (h + 1) s = Done s' u \<longrightarrow> get_challenge s' k = Some c)"
proof -
  have env: "cc_env env" and ok: "cc_ok env h s" using cc.reachable_inv [OF assms(1)] by simp_all
  have "get_challenge (deliver (cc_handle env authority digest self h) m s) k = Some c"
    using closed_stays [OF env ok _ _ assms(5,2-4)] chain_reachable_height [OF assms(1)] assms(2)
    by (simp add: deliver_def split: outcome.split)
  moreover have "advanced (to_u64 (h + 1)) c = c" using assms(4) by (auto simp: advanced_def next_status_def)
  ultimately show ?thesis using cc_begin_block_runs [OF env ok] assms(2) by fastforce
qed

theorem cc_final_witness:
  "get_challenge (deliver (cap_handle 8) (MsgResolveChallenge ''zrn1gov'' cap_id CHALLENGE_OUTCOME_UPHELD []) cap_closed) cap_id =
     get_challenge cap_closed cap_id"
proof -
  obtain c where c: "get_challenge cap_closed cap_id = Some c" "0 < stake_of c" "ch_status c = CHALLENGE_STATUS_RESOLVED"
    using cap_values(2,3) by auto
  with cc_final [OF cap_closed_reachable c(1,2), of "MsgResolveChallenge ''zrn1gov'' cap_id CHALLENGE_OUTCOME_UPHELD []"] show ?thesis by simp
qed

section \<open>Deadlines\<close>

text \<open>
  C17: the hook of the next block returns; it leaves the pools alone, touches nothing of a challenge but its status, and after
  it no challenge that was collecting evidence past its evidence deadline, or under review past its review deadline, still
  is: the one is under review, the other expired.
\<close>

theorem cc_phases:
  assumes "cc_reachable env authority digest self h s"
  shows "\<exists>s'. cc_begin_block env (h + 1) s = Done s' () \<and> cc_pools s' = cc_pools s \<and>
    (\<forall>k. rel_option (\<lambda>c c'. c' = c\<lparr>ch_status := ch_status c'\<rparr> \<and>
       (if (ch_status c = CHALLENGE_STATUS_OPEN \<or> ch_status c = CHALLENGE_STATUS_EVIDENCE) \<and> ch_evidence_deadline c \<le> to_u64 (h + 1)
        then ch_status c' = CHALLENGE_STATUS_UNDER_REVIEW
        else if ch_status c = CHALLENGE_STATUS_UNDER_REVIEW \<and> ch_review_deadline c \<le> to_u64 (h + 1)
        then ch_status c' = CHALLENGE_STATUS_EXPIRED else c' = c)) (get_challenge s k) (get_challenge s' k))"
proof -
  have "cc_env env" "cc_ok env h s" using cc.reachable_inv [OF assms] by simp_all
  from cc_begin_block_runs [OF this] obtain s' where s': "cc_begin_block env (h + 1) s = Done s' ()" "cc_pools s' = cc_pools s"
    "\<And>k. get_challenge s' k = map_option (advanced (to_u64 (h + 1))) (get_challenge s k)" by blast
  then show ?thesis
    by (intro exI [of _ s']) (auto simp: option.rel_map advanced_def next_status_def intro!: option.rel_refl)
qed

theorem cc_phases_witness: "\<exists>s'. cc_begin_block ledger_sdk 8 cap_staked = Done s' () \<and> cc_pools s' = cc_pools cap_staked"
  using cc_phases [OF cap_staked_reachable] by (simp cong: conj_cong) blast

end
