(* ===== verification/Spec2Isabelle.thy ===== *)
theory Spec2Isabelle
  imports LP_Claims Sponsorship_Claims Rate_Limit_Claims VR_Claims Claiming_Pot_Claims
    KR_Claims KR_Pay_Claims KR_Fund_Claims Tokens_Claims Capture_Claims
begin

text \<open>
  Verification of the modules of the zerone chain (a Cosmos SDK application in Go, modules under \<open>x/\<close>)
  that hold money or decide about it.  This theory imports all others; each of them opens with a text of
  what it holds.

  \<^bold>\<open>The program.\<close>  A module keeps its records in a byte-keyed store behind a keeper; transactions reach it
  through the handlers of \<open>keeper/msg_server.go\<close>, blocks through \<open>BeginBlock\<close> and \<open>EndBlock\<close> of
  \<open>module.go\<close>, other modules through keeper methods.  Modelled here:

  \<^item> \<open>x/liquiditypool\<close> (theories LP_*): constant-product pools against uzrn, their shares, and the average
    price that bills queries.
  \<^item> \<open>x/sponsorship\<close> (Sponsorship*): bounties escrowed by a sponsor and paid to submitters of facts.
  \<^item> \<open>x/ibcratelimit\<close> (Rate_Limit*): caps on what leaves and enters over a channel in a window.
  \<^item> \<open>x/vesting_rewards\<close> (VR_*): vesting schedules with a decaying release curve, the capped mint, fee
    routing, falsification.
  \<^item> \<open>x/claiming_pot\<close> (Claiming_Pot*): pots minted on demand, through the capped mint of vesting_rewards.
  \<^item> \<open>x/tokens\<close> (Tokens*): tokens of users with balances, allowances, delegated power and wrapping into bank
    coins, and emission periods of the native coin through the same capped mint.
  \<^item> \<open>x/capture_challenge\<close> (Capture*): staked accusations of cartels, their review, and the bounty pools that
    reward them.
  \<^item> \<open>x/knowledge\<close>, its review protocol (KR_*): commit and reveal of reviews of a claim, the verdict, the frozen
    payment plans and the queue that settles them.

  \<^bold>\<open>Common ground.\<close>  \<open>Prelude\<close>: the result type \<open>outcome\<close> of an operation (\<open>Done\<close> a state and a value, or \<open>Fail\<close>
  a state and an error, since writes before an error stay until the transaction discards them), sequencing,
  \<open>cached\<close> for \<open>CacheContext\<close>, 64-bit words.  \<open>Go_Text\<close>: the decimal text of Go integers.  \<open>KV_Store\<close>: one ordered
  store per key prefix, the locale \<open>record_store\<close> and its interpretation, transactions (\<open>deliver\<close>), the
  locale \<open>guarded_machine\<close>.  \<open>Bank\<close>: the SDK as a parameter, the record \<open>sdk\<close>; its documented behaviour is the
  named hypothesis \<open>sdk_laws\<close> (a transfer moves exactly the named coins, a mint adds and a burn removes
  them at the module account, module addresses are distinct, denoms are short), which the ledger \<open>ledger_sdk\<close>
  of that theory satisfies.  \<open>Chain\<close>: reachability of a module on a chain (genesis, messages, block hooks, and
  arbitrary steps of the rest of the chain on the parts of the state that the module only reads) and the
  locales \<open>chain_module\<close> and \<open>live_module\<close>, interpreted in the theory of each module.

  \<^bold>\<open>From code to model.\<close>  A stored message is a record with the fields of the protobuf struct, an enum a
  datatype, a \<open>uint64\<close> a 64-bit word with the wrap-around of Go, a \<open>big.Int\<close> or \<open>sdk.Int\<close> an \<open>int\<close>, an amount the
  decimal string the code stores.  A handler is one definition with the guards in the order of the code; the
  state is a record with one field per key prefix and a field per collaborator it reads.  Errors keep the
  registered error, or a short text where the code builds one.

  \<^bold>\<open>The groups of definitions and lemmas.\<close>

  \<^item> LP_Types, LP_Amm (\<open>keeper/amm.go\<close>), LP_State (\<open>keeper/{keeper,state,twap}.go\<close>), LP_Msgs
    (\<open>keeper/{quote,msg_server}.go\<close>, \<open>module.go\<close>), LP_Genesis.  LP_Effects inverts accepted messages; LP_Invariants
    and LP_Twap prove the invariants (reserves covered, share supply equal to the bank's, bounded
    cumulative prices); LP_Oracle the price within a block; LP_Properties and LP_Claims the properties.
  \<^item> Sponsorship (all of the module), Sponsorship_Inv (escrow and custody), Sponsorship_Spec (the abstract
    pledge machine that the module refines), Sponsorship_Claims.
  \<^item> Rate_Limit, Rate_Limit_Inv (the quotas against a meter of what passed), Rate_Limit_Claims.
  \<^item> VR_Types, VR_State, VR_Vesting (\<open>keeper/{vesting,knowledge_schedule}.go\<close>), VR_Msgs
    (\<open>keeper/{rewards,msg_server}.go\<close>), VR_Curve (monotonicity and bounds of the release curve),
    VR_Inv, VR_Steps, VR_Chain (index and amount invariants, the history of a schedule), VR_Claims.
  \<^item> Capped_Mint: the locale \<open>capped_mint\<close> states what the mint of vesting_rewards promises to the modules that
    issue the native coin, and is interpreted on it.  Claiming_Pot, Claiming_Pot_Inv, Claiming_Pot_Chain,
    Claiming_Pot_Claims.
  \<^item> Tokens (records, \<open>keeper/state.go\<close>, the \<open>ValidateBasic\<close> of \<open>types/types.go\<close>), Tokens_Msgs
    (\<open>keeper/{msg_server,keeper,grpc_query}.go\<close>, \<open>module.go\<close>).  Tokens_Inv: the invariant in parts (registry,
    balances, power, wraps, supply) with a lemma for every write; Tokens_Steps: every handler keeps it;
    Tokens_Chain: wrapping, the emission hook, reachability; Tokens_Claims: the properties.
  \<^item> Capture (all of the module; the calls into qualification, knowledge and capture_defense, whose errors are
    only logged, are kept as a list).  Capture_Inv: the books, with the relation \<open>settles\<close> that composes the payments of an
    outcome; Capture_Steps: every handler and the block hook keep them; Capture_Claims.
  \<^item> KR_Types (records of a round and validation of what it may hold), KR_State (setters, opening of a round,
    commit and reveal handlers), KR_Settle (verdict, plans, settlement, completion of a round, queue).  KR_Inv: the invariant
    of the store and the relation \<open>round_evolves\<close> that every write keeps; KR_Chain: both on a chain; KR_Binding:
    the commitment encoding is injective; KR_Verdict: the arithmetic of verdicts and budgets; KR_Queue: what a
    settlement moves and how the queue advances; KR_Complete: plans account for every unit and a round of a closed panel completes; KR_Demo: the
    chain of the witnesses; KR_Claims, KR_Pay_Claims, KR_Fund_Claims: the properties.

  \<^bold>\<open>Parameters and hypotheses.\<close>  The SDK (\<open>sdk_laws\<close> where money moves), the IBC stack around the middleware, the
  bech32 codec (\<open>short_addresses\<close>: an accepted address has at most 255 bytes) and SHA-256 (\<open>digest\<close>, of which
  nothing is assumed: the binding property of KR_Claims ends in equality or an explicit collision; in x/tokens a
  message is admissible when the id it generates is not that of a stored token with another symbol, in
  x/capture_challenge when it is not that of a challenge of another height).  There the bank must also refuse cleanly
  (\<open>clean_refusals\<close>: a failed transfer of native coin out of a module has moved nothing), since two refusals are ignored.
  That the sponsor of a bounty gets the escrow back rests on \<open>pays_out\<close> (the bank pays an amount that the
  module's balance covers to an account that may receive); that the balance covers it is proved.  What a verdict
  does to facts, scores, stakes and other modules is an argument of \<open>complete_round\<close>, at the two places where
  the code does it; \<open>keeps_records\<close> says that it writes no round and no claim, as only the setters do.
  The encoded length of a stored vesting schedule is an argument of the index validator.  Block heights
  lie below \<open>2 ^ 63\<close>, as in the SDK.  An imported genesis passes the module's validator; schedules in it
  are well formed, and x/tokens and x/capture_challenge start empty, since their validators look at the parameters only; the
  rest of the chain leaves the supply of wrapped tokens alone.  Modules that a keeper consults (staking tiers, domain qualification, the fact store)
  are fields of the state that the rest of the chain may change arbitrarily.

  \<^bold>\<open>Loops and bounds.\<close>  Loops over lists are structural.  Digit printing and the integer square root end by a
  measure; the series of the release curve runs the number of terms of the code.  One block tries at most 16
  queued rounds and 513 transfers, the constants of the code, so if only the queue runs, every queued round is
  tried within one block more than the queue has rounds; the one more is the block that finds nothing behind
  its cursor and starts over.

  \<^bold>\<open>Not modelled.\<close>  In liquiditypool the store migrator and the paged queries; in knowledge the admission of
  claims, what a verdict does to facts, scores and stakes (beyond the two arguments of \<open>complete_round\<close>), the phase loop that drives the rounds, activation
  and migration of the protocol, the life cycle of facts, and the queries.  The other modules (emergency,
  gov, staking, substrate_bridge, auth, ontology, qualification, alignment, capture_defense, counterexamples, trust_score, home, creed, work_creed, witness, training_provenance)
  enter only where a modelled module reads them.  Application wiring, generated protobuf code, node and
  client commands and the tools are left out: composition and input/output.  Gas, events and logs have no
  effect on the modelled state.
\<close>

end
